(* ===== verification/Ordmap.thy ===== *)
theory Ordmap
  imports Prelude
begin

text \<open>
  \<open>std::collections::BTreeMap\<close>: an association list in strictly increasing key order, so
  that iteration (\<open>values\<close>, \<open>keys\<close>, \<open>iter\<close>) visits entries in the order the Rust map
  does. The interface the components rely on is the locale \<open>key_value\<close>; it is interpreted
  here on the operations of the model.
\<close>

type_synonym ('k, 'v) bmap = "('k \<times> 'v) list"

abbreviation bget :: "('k, 'v) bmap \<Rightarrow> 'k \<Rightarrow> 'v option" where
  "bget \<equiv> map_of"

fun binsert :: "'k::linorder \<Rightarrow> 'v \<Rightarrow> ('k, 'v) bmap \<Rightarrow> ('k, 'v) bmap" where
  "binsert k v [] = [(k, v)]"
| "binsert k v ((k', v') # m) =
     (if k < k' then (k, v) # (k', v') # m
      else if k = k' then (k, v) # m
      else (k', v') # binsert k v m)"

definition bremove :: "'k \<Rightarrow> ('k, 'v) bmap \<Rightarrow> ('k, 'v) bmap" where
  "bremove k m = filter (\<lambda>(k', v). k' \<noteq> k) m"

text \<open>\<open>if let Some(value) = map.get_mut(key) { ... }\<close>.\<close>

definition badjust :: "'k \<Rightarrow> ('v \<Rightarrow> 'v) \<Rightarrow> ('k, 'v) bmap \<Rightarrow> ('k, 'v) bmap" where
  "badjust k f m = map (\<lambda>(k', v). (k', if k' = k then f v else v)) m"

text \<open>\<open>values_mut()\<close> and \<open>retain\<close>.\<close>

definition bmap_values :: "('v \<Rightarrow> 'v) \<Rightarrow> ('k, 'v) bmap \<Rightarrow> ('k, 'v) bmap" where
  "bmap_values f m = map (\<lambda>(k, v). (k, f v)) m"

definition bretain :: "('k \<Rightarrow> 'v \<Rightarrow> bool) \<Rightarrow> ('k, 'v) bmap \<Rightarrow> ('k, 'v) bmap" where
  "bretain p m = filter (\<lambda>(k, v). p k v) m"

abbreviation bkeys :: "('k, 'v) bmap \<Rightarrow> 'k list" where
  "bkeys m \<equiv> map fst m"

abbreviation bvalues :: "('k, 'v) bmap \<Rightarrow> 'v list" where
  "bvalues m \<equiv> map snd m"

definition bmap_ok :: "('k::linorder, 'v) bmap \<Rightarrow> bool" where
  "bmap_ok m \<longleftrightarrow> sorted_wrt (<) (bkeys m)"

section \<open>Lookup laws\<close>

lemma bget_insert: "bget (binsert k v m) = (bget m)(k \<mapsto> v)"
  by (induction k v m rule: binsert.induct) (auto simp: fun_eq_iff)

lemma bget_remove: "bget (bremove k m) = (bget m)(k := None)"
  by (induction m) (auto simp: bremove_def fun_eq_iff)

lemma bget_adjust: "bget (badjust k f m) = (bget m)(k := map_option f (bget m k))"
  by (induction m) (auto simp: badjust_def fun_eq_iff)

lemma bget_values: "bget (bmap_values f m) k = map_option f (bget m k)"
  by (induction m) (auto simp: bmap_values_def)

lemma binsert_keys: "set (bkeys (binsert k v m)) = insert k (set (bkeys m))"
  by (induction k v m rule: binsert.induct) auto

lemma binsert_keys_image [simp]: "fst ` set (binsert k v m) = insert k (fst ` set m)"
  using binsert_keys [of k v m] by simp

lemma binsert_set: "set (binsert k v m) \<subseteq> insert (k, v) (set m)"
  by (induction k v m rule: binsert.induct) auto

lemma badjust_keys [simp]: "bkeys (badjust k f m) = bkeys m"
  by (auto simp: badjust_def)

lemma bmap_values_keys [simp]: "bkeys (bmap_values f m) = bkeys m"
  by (auto simp: bmap_values_def)

section \<open>The order invariant\<close>

lemma bmap_ok_Nil [simp]: "bmap_ok []"
  by (simp add: bmap_ok_def)

lemma bmap_ok_insert: "bmap_ok m \<Longrightarrow> bmap_ok (binsert k v m)"
proof (induction k v m rule: binsert.induct)
  case (2 k v k' v' m)
  then show ?case
    using binsert_keys [of k v m] by (auto simp: bmap_ok_def)
qed (simp add: bmap_ok_def)

lemma bmap_ok_filter: "bmap_ok m \<Longrightarrow> bmap_ok (filter p m)"
  by (induction m) (auto simp: bmap_ok_def)

lemma bmap_ok_remove: "bmap_ok m \<Longrightarrow> bmap_ok (bremove k m)"
  by (simp add: bremove_def bmap_ok_filter)

lemma bmap_ok_retain: "bmap_ok m \<Longrightarrow> bmap_ok (bretain p m)"
  by (simp add: bretain_def bmap_ok_filter)

lemma bmap_ok_adjust [simp]: "bmap_ok (badjust k f m) = bmap_ok m"
  by (simp add: bmap_ok_def)

lemma bmap_ok_values [simp]: "bmap_ok (bmap_values f m) = bmap_ok m"
  by (simp add: bmap_ok_def)

lemma bmap_ok_distinct: "bmap_ok m \<Longrightarrow> distinct (bkeys m)"
  by (simp add: bmap_ok_def strict_sorted_iff)

section \<open>Counting\<close>

definition bcount :: "('v \<Rightarrow> bool) \<Rightarrow> ('k, 'v) bmap \<Rightarrow> nat" where
  "bcount p m = length (filter p (bvalues m))"

lemma bcount_insert_new:
  "bget m k = None \<Longrightarrow> bcount p (binsert k v m) = bcount p m + (if p v then 1 else 0)"
  by (induction k v m rule: binsert.induct) (auto simp: bcount_def)

lemma bcount_adjust_same:
  "(\<And>v. bget m k = Some v \<Longrightarrow> p (f v) = p v) \<Longrightarrow> distinct (bkeys m) \<Longrightarrow>
     bcount p (badjust k f m) = bcount p m"
proof (induction m)
  case (Cons kv m)
  obtain k' v where kv: "kv = (k', v)" by (cases kv)
  show ?case
  proof (cases "k' = k")
    case True
    with Cons.prems kv have "badjust k f m = m"
      by (auto simp: badjust_def intro!: map_idI) (metis fst_conv image_eqI)+
    with True kv Cons.prems(1) [of v] show ?thesis
      by (simp add: badjust_def bcount_def)
  next
    case False
    with Cons kv show ?thesis by (simp add: badjust_def bcount_def)
  qed
qed (simp add: badjust_def)

lemma bcount_filter_le: "bcount p (filter q m) \<le> bcount p m"
  by (induction m) (auto simp: bcount_def)

lemma bcount_remove_le: "bcount p (bremove k m) \<le> bcount p m"
  by (simp add: bremove_def bcount_filter_le)

lemma bcount_values: "(\<And>v. p (f v) = p v) \<Longrightarrow> bcount p (bmap_values f m) = bcount p m"
proof (induction m)
  case (Cons kv m)
  then show ?case by (cases kv) (simp add: bcount_def bmap_values_def)
qed (simp add: bcount_def bmap_values_def)

lemma bcount_remove_present:
  "bget m k = Some v \<Longrightarrow> p v \<Longrightarrow> bcount p (bremove k m) < bcount p m"
proof (induction m)
  case (Cons kv m)
  obtain k' v' where kv: "kv = (k', v')" by (cases kv)
  show ?case
  proof (cases "k' = k")
    case True
    with Cons.prems kv bcount_remove_le [of p k m] show ?thesis
      by (simp add: bremove_def bcount_def)
  next
    case False
    with Cons kv show ?thesis by (simp add: bremove_def bcount_def)
  qed
qed simp

section \<open>The interface\<close>

locale key_value =
  fixes get :: "'m \<Rightarrow> 'k \<Rightarrow> 'v option"
    and put :: "'k \<Rightarrow> 'v \<Rightarrow> 'm \<Rightarrow> 'm"
    and del :: "'k \<Rightarrow> 'm \<Rightarrow> 'm"
    and adj :: "'k \<Rightarrow> ('v \<Rightarrow> 'v) \<Rightarrow> 'm \<Rightarrow> 'm"
    and invar :: "'m \<Rightarrow> bool"
  assumes get_put: "get (put k v m) = (get m)(k \<mapsto> v)"
    and get_del: "get (del k m) = (get m)(k := None)"
    and get_adj: "get (adj k f m) = (get m)(k := map_option f (get m k))"
    and invar_put: "invar m \<Longrightarrow> invar (put k v m)"
    and invar_del: "invar m \<Longrightarrow> invar (del k m)"
    and invar_adj: "invar m \<Longrightarrow> invar (adj k f m)"
begin

lemma get_put_same [simp]: "get (put k v m) k = Some v"
  by (simp add: get_put)

lemma get_put_other: "k \<noteq> k' \<Longrightarrow> get (put k v m) k' = get m k'"
  by (simp add: get_put)

lemma get_del_same [simp]: "get (del k m) k = None"
  by (simp add: get_del)

lemma get_adj_other: "k \<noteq> k' \<Longrightarrow> get (adj k f m) k' = get m k'"
  by (simp add: get_adj)

lemma get_rename:
  "k \<noteq> k' \<Longrightarrow> get (put k' v (del k m)) = (get m)(k := None, k' \<mapsto> v)"
  by (simp add: get_put get_del)

end

interpretation bt: key_value "bget :: ('k::linorder, 'v) bmap \<Rightarrow> 'k \<Rightarrow> 'v option"
  binsert bremove badjust bmap_ok
  by unfold_locales
    (auto simp: bget_insert bget_remove bget_adjust bmap_ok_insert bmap_ok_remove)

end
