(* ===== verification/Json.thy ===== *)
theory Json
  imports Ordmap
begin

text \<open>
  \<open>serde_json::Value\<close>, the data type the program matches on, with the accessors it uses:
  indexing by a key, \<open>as_str\<close>, \<open>as_i64\<close>, \<open>as_u64\<close>, \<open>as_array\<close>, \<open>as_object\<close>. Parsing and printing
  JSON text belong to the package and are parameters wherever they are needed.

  An integer is \<open>JInt\<close>; a floating point number is \<open>JFloat\<close> of its IEEE bits, with the two
  zeros identified, so that HOL equality is equality of values.
\<close>

datatype json =
    JNull
  | JBool bool
  | JInt int
  | JFloat "64 word"
  | JStr string
  | JArr "json list"
  | JObj "(string \<times> json) list"

fun json_index :: "json \<Rightarrow> string \<Rightarrow> json" where
  "json_index (JObj m) k = (case bget m k of Some v \<Rightarrow> v | None \<Rightarrow> JNull)"
| "json_index _ k = JNull"

fun json_get :: "json \<Rightarrow> string \<Rightarrow> json option" where
  "json_get (JObj m) k = bget m k"
| "json_get _ k = None"

fun as_str :: "json \<Rightarrow> string option" where
  "as_str (JStr s) = Some s"
| "as_str _ = None"

fun as_i64 :: "json \<Rightarrow> int option" where
  "as_i64 (JInt i) = (if - (2 ^ 63) \<le> i \<and> i < 2 ^ 63 then Some i else None)"
| "as_i64 _ = None"

fun as_u64 :: "json \<Rightarrow> nat option" where
  "as_u64 (JInt i) = (if 0 \<le> i \<and> i < 2 ^ 64 then Some (nat i) else None)"
| "as_u64 _ = None"

fun as_bool :: "json \<Rightarrow> bool option" where
  "as_bool (JBool b) = Some b"
| "as_bool _ = None"

text \<open>\<open>as_u64\<close> as a machine word, and the values \<open>json!\<close> builds of words, counts and options.\<close>

definition as_word :: "json \<Rightarrow> u64 option" where
  "as_word v = map_option of_nat (as_u64 v)"

definition jword :: "u64 \<Rightarrow> json" where
  "jword w = JInt (uint w)"

definition jopt :: "('a \<Rightarrow> json) \<Rightarrow> 'a option \<Rightarrow> json" where
  "jopt f x = (case x of None \<Rightarrow> JNull | Some v \<Rightarrow> f v)"

text \<open>An object literal: its entries are inserted one after the other.\<close>

definition jobject :: "(string \<times> json) list \<Rightarrow> json" where
  "jobject entries = JObj (fold (\<lambda>(k, v). binsert k v) entries [])"

fun as_array :: "json \<Rightarrow> json list option" where
  "as_array (JArr xs) = Some xs"
| "as_array _ = None"

fun as_object :: "json \<Rightarrow> (string, json) bmap option" where
  "as_object (JObj m) = Some m"
| "as_object _ = None"

lemma as_word_jword [simp]: "as_word (jword w) = Some w"
proof -
  have "uint w < 2 ^ 64" using uint_lt2p [of w] by simp
  then show ?thesis by (simp add: as_word_def jword_def)
qed

lemma bget_fold_binsert:
  "bget (fold (\<lambda>(k, v). binsert k v) es m) k = (case bget (rev es) k of None \<Rightarrow> bget m k | Some v \<Rightarrow> Some v)"
proof (induction es arbitrary: m)
  case (Cons e es)
  obtain a b where "e = (a, b)" by (cases e)
  then show ?case using Cons [of "binsert a b m"]
    by (auto simp: bget_insert map_add_def split: option.splits)
qed simp

lemma json_index_jobject: "json_index (jobject es) k = (case bget (rev es) k of None \<Rightarrow> JNull | Some v \<Rightarrow> v)"
  by (simp add: jobject_def bget_fold_binsert split: option.split)

end
