(* ===== verification/Core_Types.thy ===== *)
theory Core_Types
  imports Json
begin

text \<open>
  \<open>krabb-core/src/types.rs\<close> and \<open>error.rs\<close>: the provider-neutral messages, events and
  JSON-RPC envelopes, their validity checks and constructors. Struct fields carry a short
  prefix, since selectors of HOL records are global names.
\<close>

section \<open>Errors\<close>

text \<open>\<open>Io\<close> and \<open>Json\<close> wrap errors of the standard library and of \<open>serde_json\<close>.\<close>

datatype core_error =
    Io io_error
  | JsonError string
  | Handshake string
  | Protocol string
  | Denied string
  | Limit string

section \<open>Protocol versions\<close>

record protocol =
  p_major :: u16
  p_minor :: u16

definition protocol_current :: protocol where
  "protocol_current = \<lparr>p_major = 0, p_minor = 1\<rparr>"

definition protocol_compatible :: "protocol \<Rightarrow> protocol \<Rightarrow> bool" where
  "protocol_compatible self other \<longleftrightarrow>
     p_major self = p_major other \<and> p_minor other \<le> p_minor self"

datatype capability =
    CapModel | CapVision | CapChannel | CapStore | CapMemory | CapScheduler | CapTool
  | CapMcp | CapSpeech | CapClient | CapResource | CapAgent

record command_spec =
  cmd_name :: string
  cmd_description :: string
  cmd_interactive :: bool

record hello =
  h_protocol :: protocol
  h_id :: string
  h_version :: string
  h_capabilities :: "capability list"
  h_commands :: "command_spec list"

section \<open>Messages and events\<close>

datatype role = System | User | Assistant | Tool

datatype content =
    CText string
  | CImage string "string option"
  | CFile string string "string option"
  | CAudio string "string option"
  | CToolCall string json "string option" "string option"

text \<open>\<open>Content::render\<close>; \<open>{args}\<close> prints the value with the package's compact printer.\<close>

fun render :: "(json \<Rightarrow> string) \<Rightarrow> content \<Rightarrow> string" where
  "render pr (CText t) = t"
| "render pr (CImage u alt) =
     (case alt of None \<Rightarrow> ''[Image attachment.]'' | Some a \<Rightarrow> ''[Image: '' @ a @ '']'')"
| "render pr (CFile u n mime) = ''[File: '' @ n @ '']''"
| "render pr (CAudio u mime) = ''[Audio attachment.]''"
| "render pr (CToolCall n args i sig) = ''[Tool call '' @ n @ '']: '' @ pr args"

record message =
  m_id :: string
  m_session :: string
  m_role :: role
  m_sender :: "string option"
  m_content :: "content list"

record context_usage =
  u_used :: u64
  u_limit :: u64

datatype event =
    EText string
  | ETool string json "string option" "string option"
  | EDone string
  | EError string

record tool_spec =
  ts_name :: string
  ts_description :: "string option"
  ts_schema :: json

record model_request =
  mr_model :: string
  mr_workspace :: "string option"
  mr_messages :: "message list"
  mr_stream :: bool
  mr_tools :: "tool_spec list"

record model_reply =
  rp_text :: string
  rp_stop :: string
  rp_input :: "u64 option"
  rp_output :: "u64 option"
  rp_context_usage :: "context_usage option"
  rp_events :: "event list"

datatype tool_content = TText string | TImage string "string option"

record tool_result =
  tr_content :: "tool_content list"
  tr_metadata :: "json option"

definition tool_result_of_text :: "string \<Rightarrow> tool_result" where
  "tool_result_of_text t = \<lparr>tr_content = [TText t], tr_metadata = None\<rparr>"

section \<open>JSON-RPC\<close>

datatype request =
    Call string u64 string json
  | Note string string json

definition request_call :: "u64 \<Rightarrow> string \<Rightarrow> json \<Rightarrow> request" where
  "request_call i m ps = Call ''2.0'' i m ps"

fun request_id :: "request \<Rightarrow> u64 option" where
  "request_id (Call v i m ps) = Some i"
| "request_id (Note v m ps) = None"

fun request_valid :: "request \<Rightarrow> bool" where
  "request_valid (Call v i m ps) = (v = ''2.0'')"
| "request_valid (Note v m ps) = (v = ''2.0'')"

record rpc_error =
  e_code :: int
  e_message :: string
  e_data :: "json option"

record response =
  r_jsonrpc :: string
  r_id :: u64
  r_result :: "json option"
  r_error :: "rpc_error option"

definition response_valid :: "response \<Rightarrow> bool" where
  "response_valid r \<longleftrightarrow>
     r_jsonrpc r = ''2.0'' \<and> (r_result r \<noteq> None) \<noteq> (r_error r \<noteq> None)"

definition response_ok :: "u64 \<Rightarrow> json \<Rightarrow> response" where
  "response_ok i v = \<lparr>r_jsonrpc = ''2.0'', r_id = i, r_result = Some v, r_error = None\<rparr>"

definition response_fail :: "u64 \<Rightarrow> int \<Rightarrow> string \<Rightarrow> response" where
  "response_fail i c m = \<lparr>r_jsonrpc = ''2.0'', r_id = i, r_result = None,
     r_error = Some \<lparr>e_code = c, e_message = m, e_data = None\<rparr>\<rparr>"

record ipc_request =
  q_jsonrpc :: string
  q_id :: u64
  q_token :: string
  q_method :: string
  q_params :: json

definition ipc_request_call :: "u64 \<Rightarrow> string \<Rightarrow> string \<Rightarrow> json \<Rightarrow> ipc_request" where
  "ipc_request_call i t m ps =
     \<lparr>q_jsonrpc = ''2.0'', q_id = i, q_token = t, q_method = m, q_params = ps\<rparr>"

definition ipc_request_valid :: "ipc_request \<Rightarrow> bool" where
  "ipc_request_valid q \<longleftrightarrow> q_jsonrpc q = ''2.0'' \<and> q_token q \<noteq> [] \<and> q_method q \<noteq> []"

text \<open>\<open>IpcResponse\<close> has the fields and the checks of \<open>Response\<close>.\<close>

type_synonym ipc_response = response

definition ipc_response_ok :: "u64 \<Rightarrow> json \<Rightarrow> ipc_response" where
  "ipc_response_ok i v = \<lparr>r_jsonrpc = ''2.0'', r_id = i, r_result = Some v, r_error = None\<rparr>"

definition ipc_response_fail :: "u64 \<Rightarrow> int \<Rightarrow> string \<Rightarrow> ipc_response" where
  "ipc_response_fail i c m = \<lparr>r_jsonrpc = ''2.0'', r_id = i, r_result = None,
     r_error = Some \<lparr>e_code = c, e_message = m, e_data = None\<rparr>\<rparr>"

definition ipc_response_valid :: "ipc_response \<Rightarrow> bool" where
  "ipc_response_valid r \<longleftrightarrow>
     r_jsonrpc r = ''2.0'' \<and> (r_result r \<noteq> None) \<noteq> (r_error r \<noteq> None)"

text \<open>Every envelope the constructors build passes the validity check of its receiver.\<close>

lemma constructed_envelopes_valid [simp]:
  "request_valid (request_call i m ps)"
  "response_valid (response_ok i v)"
  "response_valid (response_fail i c t)"
  "ipc_response_valid (ipc_response_ok i v)"
  "ipc_response_valid (ipc_response_fail i c t)"
  by (simp_all add: request_call_def response_valid_def response_ok_def response_fail_def
      ipc_response_valid_def ipc_response_ok_def ipc_response_fail_def)

lemma protocol_compatible_refl [simp]: "protocol_compatible p p"
  by (simp add: protocol_compatible_def)

lemma protocol_compatible_trans:
  "protocol_compatible p q \<Longrightarrow> protocol_compatible q r \<Longrightarrow> protocol_compatible p r"
  by (auto simp: protocol_compatible_def)

lemma protocol_compatible_antisym:
  "protocol_compatible p q \<Longrightarrow> protocol_compatible q p \<Longrightarrow> p = (q :: protocol)"
  by (cases p; cases q) (auto simp: protocol_compatible_def)

end
