(* ===== verification/Agent.thy ===== *)
theory Agent
  imports Core_Types
begin

text \<open>
  \<open>krabb-core/src/agent.rs\<close>: one model turn (\<open>turn\<close>) and the bounded model/tool loop
  (\<open>run\<close>). The traits \<open>Model\<close> and \<open>Tool\<close> are state-passing functions: a model state and a
  history give a reply and a new model state; a tool call gives a result and a new tool
  state. The loop over \<open>0..steps\<close> is a recursion on the steps that are left.
\<close>

type_synonym 'm model = "'m \<Rightarrow> message list \<Rightarrow> (core_error + event list) \<times> 'm"
type_synonym 't tools = "'t \<Rightarrow> string \<Rightarrow> json \<Rightarrow> bool \<Rightarrow> (core_error + string) \<times> 't"
type_synonym tool_call = "string \<times> json \<times> string option \<times> string option"

definition agent_limit :: nat where "agent_limit = 256"
definition agent_calls :: nat where "agent_calls = 16"

definition first_session :: "message list \<Rightarrow> string" where
  "first_session ms = (case ms of [] \<Rightarrow> ''session'' | m # _ \<Rightarrow> m_session m)"

section \<open>One turn without tools\<close>

fun turn_text :: "string \<Rightarrow> event list \<Rightarrow> core_error + string" where
  "turn_text t [] = Inr t"
| "turn_text t (EText p # es) = turn_text (t @ p) es"
| "turn_text t (EDone d # es) = turn_text d es"
| "turn_text t (EError m # es) = Inl (Denied m)"
| "turn_text t (ETool n a i s # es) = turn_text t es"

definition reply_message :: "message list \<Rightarrow> string \<Rightarrow> message" where
  "reply_message ms t = \<lparr>m_id = ''reply'', m_session = first_session ms, m_role = Assistant,
     m_sender = None, m_content = [CText t]\<rparr>"

definition turn :: "'m model \<Rightarrow> 'm \<Rightarrow> message list \<Rightarrow> nat \<Rightarrow> (core_error + message) \<times> 'm" where
  "turn reply m messages steps =
     (if steps = 0 then (Inl (Limit ''steps must be greater than zero''), m)
      else case reply m messages of
        (Inl e, m') \<Rightarrow> (Inl e, m')
      | (Inr events, m') \<Rightarrow>
          (case turn_text [] (take steps events) of
             Inl e \<Rightarrow> (Inl e, m')
           | Inr t \<Rightarrow> (Inr (reply_message messages t), m')))"

section \<open>The model and tool loop\<close>

text \<open>The loop over the events of a reply: the text so far and the calls so far.\<close>

fun scan_events :: "string \<Rightarrow> tool_call list \<Rightarrow> event list \<Rightarrow> core_error + string \<times> tool_call list" where
  "scan_events t cs [] = Inr (t, cs)"
| "scan_events t cs (EText p # es) = scan_events (t @ p) cs es"
| "scan_events t cs (EDone d # es) = scan_events d cs es"
| "scan_events t cs (EError m # es) = Inl (Denied m)"
| "scan_events t cs (ETool n a i s # es) = scan_events t (cs @ [(n, a, i, s)]) es"

definition tool_marker :: "(json \<Rightarrow> string) \<Rightarrow> tool_call list \<Rightarrow> string" where
  "tool_marker pr cs =
     join [CHR 0x0A] (map (\<lambda>(n, a, _, _). ''[Tool call '' @ n @ '']: '' @ pr a)
       (filter (\<lambda>(_, _, _, s). s = None) cs))"

definition signed_calls :: "tool_call list \<Rightarrow> content list" where
  "signed_calls cs = List.map_filter (\<lambda>(n, a, i, s).
     map_option (\<lambda>sg. CToolCall n a i (Some sg)) s) cs"

text \<open>\<open>history.push(message)\<close> followed by the drain down to \<open>LIMIT\<close>.\<close>

definition push_history :: "message list \<Rightarrow> message \<Rightarrow> message list" where
  "push_history h m = keep_last agent_limit (h @ [m])"

definition assistant_message ::
  "(json \<Rightarrow> string) \<Rightarrow> nat \<Rightarrow> message list \<Rightarrow> string \<Rightarrow> tool_call list \<Rightarrow> message" where
  "assistant_message pr step h text cs =
     (let text' = (if text \<noteq> [] then text @ [CHR 0x0A] else text) @ tool_marker pr cs
      in \<lparr>m_id = ''assistant-tool-'' @ show_nat step @ ''-'' @ show_nat (length h),
          m_session = first_session h, m_role = Assistant, m_sender = None,
          m_content = (if text' \<noteq> [] then [CText text'] else []) @ signed_calls cs\<rparr>)"

definition tool_message :: "nat \<Rightarrow> message list \<Rightarrow> string \<Rightarrow> string \<Rightarrow> message" where
  "tool_message step h name result =
     \<lparr>m_id = ''tool-'' @ show_nat step @ ''-'' @ show_nat (length h),
      m_session = first_session h, m_role = Tool, m_sender = Some name,
      m_content = [CText result]\<rparr>"

text \<open>The loop over the calls of one reply: the history and the number of calls used.\<close>

fun run_calls :: "'t tools \<Rightarrow> nat \<Rightarrow> tool_call list \<Rightarrow> 't \<Rightarrow> message list \<Rightarrow> nat \<Rightarrow>
    (core_error + message list \<times> nat) \<times> 't" where
  "run_calls call step [] ts h used = (Inr (h, used), ts)"
| "run_calls call step ((n, a, i, s) # cs) ts h used =
     (let used' = used + 1 in
      if used' > agent_calls then (Inl (Limit ''tool-call limit exceeded''), ts)
      else case call ts n a False of
        (Inl e, ts') \<Rightarrow> (Inl e, ts')
      | (Inr result, ts') \<Rightarrow>
          run_calls call step cs ts' (push_history h (tool_message step h n result)) used')"

fun run_steps :: "(json \<Rightarrow> string) \<Rightarrow> 'm model \<Rightarrow> 't tools \<Rightarrow> nat \<Rightarrow> nat \<Rightarrow>
    'm \<Rightarrow> 't \<Rightarrow> message list \<Rightarrow> nat \<Rightarrow> (core_error + message) \<times> 'm \<times> 't" where
  "run_steps pr reply call steps 0 m ts h used = (Inl (Limit ''tool steps exhausted''), m, ts)"
| "run_steps pr reply call steps (Suc left) m ts h used =
     (let step = steps - Suc left in
      case reply m h of
        (Inl e, m') \<Rightarrow> (Inl e, m', ts)
      | (Inr events, m') \<Rightarrow>
          (case scan_events [] [] events of
             Inl e \<Rightarrow> (Inl e, m', ts)
           | Inr (text, cs) \<Rightarrow>
               if cs = [] then (Inr (reply_message h text), m', ts)
               else
                 (let h1 = push_history h (assistant_message pr step h text cs) in
                  case run_calls call step cs ts h1 used of
                    (Inl e, ts') \<Rightarrow> (Inl e, m', ts')
                  | (Inr (h2, used'), ts') \<Rightarrow>
                      run_steps pr reply call steps left m' ts' h2 used')))"

definition run :: "(json \<Rightarrow> string) \<Rightarrow> 'm model \<Rightarrow> 't tools \<Rightarrow> 'm \<Rightarrow> 't \<Rightarrow> message list \<Rightarrow> nat \<Rightarrow>
    (core_error + message) \<times> 'm \<times> 't" where
  "run pr reply call m ts messages steps =
     (if steps = 0 then (Inl (Limit ''steps must be greater than zero''), m, ts)
      else run_steps pr reply call steps steps m ts messages 0)"


section \<open>Observing the loop\<close>

text \<open>The model and the tools with a log of what they were asked, used to state what the
  loop sends them.\<close>

definition logged_tools :: "'t tools \<Rightarrow> ('t \<times> (string \<times> json \<times> bool) list) tools" where
  "logged_tools call st n a ap =
     (let (r, t') = call (fst st) n a ap in (r, (t', snd st @ [(n, a, ap)])))"

definition logged_model :: "'m model \<Rightarrow> ('m \<times> message list list) model" where
  "logged_model reply st h =
     (let (r, m') = reply (fst st) h in (r, (m', snd st @ [h])))"

lemma logged_tools_apply [simp]:
  "logged_tools call (ts, log) n a ap = (fst (call ts n a ap), snd (call ts n a ap), log @ [(n, a, ap)])"
  by (simp add: logged_tools_def Let_def split: prod.splits)

lemma run_calls_log:
  assumes "run_calls (logged_tools call) step cs (ts, log) h used = (r, ts', log')"
    and "length log \<le> used" "used \<le> agent_calls" "\<forall>(n, a, ap) \<in> set log. \<not> ap"
  shows "(\<forall>(n, a, ap) \<in> set log'. \<not> ap) \<and> length log' \<le> agent_calls \<and>
    (\<forall>h2 used2. r = Inr (h2, used2) \<longrightarrow> length log' \<le> used2 \<and> used2 \<le> agent_calls)"
  using assms
proof (induction cs arbitrary: ts log h used)
  case (Cons c cs)
  obtain n a i s where c: "c = (n, a, i, s)" by (cases c)
  obtain q t2 where q: "call ts n a False = (q, t2)" by (cases "call ts n a False")
  show ?case
  proof (cases "used + 1 > agent_calls")
    case True
    with Cons.prems c show ?thesis by auto
  next
    case False
    show ?thesis
    proof (cases q)
      case (Inl e)
      with False Cons.prems c q show ?thesis
        by auto
    next
      case (Inr result)
      have step: "run_calls (logged_tools call) step cs (t2, log @ [(n, a, False)])
          (push_history h (tool_message step h n result)) (used + 1) = (r, ts', log')"
        using Cons.prems(1) False c q Inr by (simp add: Let_def)
      show ?thesis
        by (rule Cons.IH [OF step]) (use Cons.prems False in auto)
    qed
  qed
qed auto

lemma run_steps_log:
  assumes "run_steps pr reply (logged_tools call) steps left m (ts, log) h used = (r, m', ts', log')"
    and "length log \<le> used" "used \<le> agent_calls" "\<forall>(n, a, ap) \<in> set log. \<not> ap"
  shows "length log' \<le> agent_calls \<and> (\<forall>(n, a, ap) \<in> set log'. \<not> ap)"
  using assms
proof (induction left arbitrary: m ts log h used)
  case (Suc left)
  obtain q m1 where q: "reply m h = (q, m1)" by (cases "reply m h")
  show ?case
  proof (cases "\<exists>events tx cs. q = Inr events \<and> scan_events [] [] events = Inr (tx, cs) \<and> cs \<noteq> []")
    case False
    with Suc.prems q show ?thesis
      by (auto simp: Let_def split: sum.splits prod.splits if_splits)
  next
    case True
    then obtain events tx cs where e: "q = Inr events"
      "scan_events [] [] events = Inr (tx, cs)" "cs \<noteq> []" by blast
    let ?st = "steps - Suc left"
    let ?h1 = "push_history h (assistant_message pr ?st h tx cs)"
    obtain w t2 log2 where w: "run_calls (logged_tools call) ?st cs (ts, log) ?h1 used = (w, t2, log2)"
      by (metis prod_cases3)
    note inv = run_calls_log [OF w Suc.prems(2-4)]
    show ?thesis
    proof (cases w)
      case (Inl err)
      with Suc.prems(1) q e w inv show ?thesis by (simp add: Let_def)
    next
      case (Inr hu)
      obtain h2 used2 where hu: "hu = (h2, used2)" by (cases hu)
      have step: "run_steps pr reply (logged_tools call) steps left m1 (t2, log2) h2 used2 = (r, m', ts', log')"
        using Suc.prems(1) q e w Inr hu by (simp add: Let_def)
      show ?thesis
        by (rule Suc.IH [OF step]) (use inv Inr hu in auto)
    qed
  qed
qed auto

text \<open>Lengths and sessions of the history the loop keeps.\<close>

lemma length_push_history: "length (push_history h m) \<le> agent_limit"
  by (simp add: push_history_def)

lemma push_history_session:
  "\<forall>x \<in> set h. m_session x = s \<Longrightarrow> m_session m = s \<Longrightarrow> \<forall>x \<in> set (push_history h m). m_session x = s"
  using set_keep_last [of agent_limit "h @ [m]"] by (auto simp: push_history_def)

lemma push_history_nonempty [simp]: "push_history h m \<noteq> []"
  by (simp add: push_history_def keep_last_def agent_limit_def)

lemma first_session_all:
  "h \<noteq> [] \<Longrightarrow> \<forall>x \<in> set h. m_session x = s \<Longrightarrow> first_session h = s"
  by (cases h) (auto simp: first_session_def)

lemma run_calls_history:
  "run_calls call step cs ts h used = (Inr (h', used'), ts') \<Longrightarrow> cs \<noteq> [] \<Longrightarrow>
     h' \<noteq> [] \<and> length h' \<le> agent_limit"
proof (induction cs arbitrary: ts h used)
  case (Cons c cs)
  then show ?case
  proof (cases "cs = []")
    case True
    with Cons.prems show ?thesis
      by (cases c) (auto simp: Let_def length_push_history split: if_splits prod.splits sum.splits)
  next
    case False
    with Cons show ?thesis
      by (cases c) (fastforce simp: Let_def split: if_splits prod.splits sum.splits)
  qed
qed simp

lemma run_calls_session:
  "run_calls call step cs ts h used = (Inr (h', used'), ts') \<Longrightarrow> h \<noteq> [] \<Longrightarrow>
     \<forall>x \<in> set h. m_session x = s \<Longrightarrow> h' \<noteq> [] \<and> (\<forall>x \<in> set h'. m_session x = s)"
proof (induction cs arbitrary: ts h used)
  case (Cons c cs)
  obtain n a i sg where c: "c = (n, a, i, sg)" by (cases c)
  obtain q t2 where q: "call ts n a False = (q, t2)" by (cases "call ts n a False")
  from Cons.prems(1) c q obtain result where result: "q = Inr result"
    and step: "run_calls call step cs t2 (push_history h (tool_message step h n result)) (used + 1)
      = (Inr (h', used'), ts')"
    by (auto simp: Let_def split: if_splits sum.splits)
  have "m_session (tool_message step h n result) = s"
    using first_session_all Cons.prems(2,3) by (simp add: tool_message_def)
  with Cons.prems(3) have "\<forall>x \<in> set (push_history h (tool_message step h n result)). m_session x = s"
    by (intro push_history_session) auto
  with Cons.IH [OF step] show ?case by simp
qed auto

lemma run_steps_session:
  "run_steps pr reply call steps left m ts h used = (Inr msg, m', ts') \<Longrightarrow> h \<noteq> [] \<Longrightarrow>
     \<forall>x \<in> set h. m_session x = s \<Longrightarrow> m_session msg = s \<and> m_role msg = Assistant"
proof (induction left arbitrary: m ts h used)
  case (Suc left)
  let ?st = "steps - Suc left"
  obtain q m1 where q: "reply m h = (q, m1)" by (cases "reply m h")
  from Suc.prems(1) q obtain events tx cs where e: "q = Inr events"
    "scan_events [] [] events = Inr (tx, cs)"
    by (auto simp: Let_def split: sum.splits)
  show ?case
  proof (cases "cs = []")
    case True
    with Suc.prems q e first_session_all [OF Suc.prems(2,3)] show ?thesis
      by (auto simp: Let_def reply_message_def)
  next
    case False
    let ?h1 = "push_history h (assistant_message pr ?st h tx cs)"
    from Suc.prems(1) q e False obtain h2 used2 t2 where
      w: "run_calls call ?st cs ts ?h1 used = (Inr (h2, used2), t2)"
      and step: "run_steps pr reply call steps left m1 t2 h2 used2 = (Inr msg, m', ts')"
      by (auto simp: Let_def split: sum.splits prod.splits)
    have "m_session (assistant_message pr ?st h tx cs) = s"
      using first_session_all [OF Suc.prems(2,3)] by (simp add: assistant_message_def Let_def)
    with Suc.prems(3) have "\<forall>x \<in> set ?h1. m_session x = s"
      by (intro push_history_session) auto
    with run_calls_session [OF w, of s] have "h2 \<noteq> [] \<and> (\<forall>x \<in> set h2. m_session x = s)"
      by simp
    with Suc.IH [OF step] show ?thesis by blast
  qed
qed simp

lemma run_steps_model_log:
  assumes "run_steps pr (logged_model reply) call steps left (m, log) ts h used = (r, (m', log'), ts')"
  shows "length log' \<le> length log + left \<and>
    (\<forall>x \<in> set (drop (length log) log'). x = h \<or> length x \<le> agent_limit) \<and> take (length log) log' = log"
  using assms
proof (induction left arbitrary: m log ts h used)
  case (Suc left)
  let ?st = "steps - Suc left"
  obtain q m1 where q: "reply m h = (q, m1)" by (cases "reply m h")
  then have lm: "logged_model reply (m, log) h = (q, m1, log @ [h])"
    by (simp add: logged_model_def)
  show ?case
  proof (cases "\<exists>events tx cs h2 used2 t2. q = Inr events \<and>
      scan_events [] [] events = Inr (tx, cs) \<and> cs \<noteq> [] \<and>
      run_calls call ?st cs ts (push_history h (assistant_message pr ?st h tx cs)) used
        = (Inr (h2, used2), t2)")
    case False
    with Suc.prems lm have "log' = log @ [h]"
      by (auto simp: Let_def split: sum.splits prod.splits if_splits)
    then show ?thesis by auto
  next
    case True
    then obtain events tx cs h2 used2 t2 where e: "q = Inr events"
      "scan_events [] [] events = Inr (tx, cs)" "cs \<noteq> []" and
      w: "run_calls call ?st cs ts (push_history h (assistant_message pr ?st h tx cs)) used
        = (Inr (h2, used2), t2)" by blast
    have step: "run_steps pr (logged_model reply) call steps left (m1, log @ [h]) t2 h2 used2
        = (r, (m', log'), ts')"
      using Suc.prems lm e w by (simp add: Let_def)
    note ih = Suc.IH [OF step]
    moreover have "length h2 \<le> agent_limit"
      using run_calls_history [OF w e(3)] by simp
    moreover have "log' = log @ h # drop (Suc (length log)) log'"
      using ih by (metis append.assoc append_Cons append_Nil append_take_drop_id length_append_singleton)
    ultimately show ?thesis
      by (metis (no_types, lifting) Suc_eq_plus1 add_Suc_right append_eq_conv_conj
          length_append_singleton set_ConsD add.assoc plus_1_eq_Suc)
  qed
qed auto


section \<open>Properties\<close>

text \<open>However the model and the tools behave, one run of the agent loop makes at most 16
  tool calls, and no call is ever marked approved: model output cannot grant approval.\<close>

theorem run_tool_calls_bounded:
  "let log = snd (snd (snd (run pr reply (logged_tools call) m (ts, []) messages steps)))
   in length log \<le> agent_calls \<and> list_all (\<lambda>(n, a, approved). \<not> approved) log"
proof -
  obtain r m' ts' log where
    r: "run pr reply (logged_tools call) m (ts, []) messages steps = (r, m', ts', log)"
    by (metis prod_cases4)
  show ?thesis
  proof (cases "steps = 0")
    case True
    with r show ?thesis by (auto simp: run_def)
  next
    case False
    with r have "run_steps pr reply (logged_tools call) steps steps m (ts, []) messages 0 = (r, m', ts', log)"
      by (simp add: run_def)
    from run_steps_log [OF this] r show ?thesis by (simp add: Let_def list_all_iff)
  qed
qed

text \<open>The model is asked at most once per step, and every history it is shown, the caller's
  own apart, holds at most 256 messages.\<close>

theorem run_model_requests_bounded:
  "let log = snd (fst (snd (run pr (logged_model reply) call (m, []) ts messages steps)))
   in length log \<le> steps \<and> list_all (\<lambda>h. h = messages \<or> length h \<le> agent_limit) log"
proof -
  obtain r m' log ts' where
    r: "run pr (logged_model reply) call (m, []) ts messages steps = (r, (m', log), ts')"
    by (metis prod.collapse)
  show ?thesis
  proof (cases "steps = 0")
    case True
    with r show ?thesis by (auto simp: run_def)
  next
    case False
    with r have "run_steps pr (logged_model reply) call steps steps (m, []) ts messages 0 = (r, (m', log), ts')"
      by (simp add: run_def)
    from run_steps_model_log [OF this] r show ?thesis by (auto simp: Let_def list_all_iff)
  qed
qed

text \<open>A run that succeeds answers as the assistant, in the session every message of a
  non-empty history belongs to.\<close>

theorem run_stays_in_session:
  assumes "run pr reply call m ts messages steps = (Inr answer, m', ts')"
    and "messages \<noteq> []" and "\<forall>x \<in> set messages. m_session x = s"
  shows "m_session answer = s \<and> m_role answer = Assistant"
proof (cases "steps = 0")
  case True
  with assms(1) show ?thesis by (simp add: run_def)
next
  case False
  with assms(1) have "run_steps pr reply call steps steps m ts messages 0 = (Inr answer, m', ts')"
    by (simp add: run_def)
  from run_steps_session [OF this assms(2,3)] show ?thesis .
qed

definition demo_message :: message where
  "demo_message = \<lparr>m_id = ''1'', m_session = ''main'', m_role = User, m_sender = None,
     m_content = [CText ''hi'']\<rparr>"

text \<open>A model that asks for one tool call and then finishes.\<close>

definition demo_model :: "nat model" where
  "demo_model n h = (if n = 0 then Inr [ETool ''read'' JNull None None] else Inr [EDone ''ok''], n + 1)"

definition demo_tools :: "unit tools" where
  "demo_tools t n a ap = (Inr ''file'', t)"

theorem run_stays_in_session_witness:
  "m_session (reply_message [demo_message] ''ok'') = ''main''
     \<and> run (\<lambda>_. ''null'') demo_model demo_tools 0 () [demo_message] 2
       = (Inr (reply_message [demo_message] ''ok''), 2, ())"
proof -
  have run: "run (\<lambda>_. ''null'') demo_model demo_tools 0 () [demo_message] 2
      = (Inr (reply_message [demo_message] ''ok''), 2, ())"
    by (simp add: run_def numeral_2_eq_2 demo_model_def demo_tools_def push_history_def
        agent_limit_def agent_calls_def reply_message_def first_session_def demo_message_def Let_def)
  have "m_session (reply_message [demo_message] ''ok'') = ''main'' \<and>
      m_role (reply_message [demo_message] ''ok'') = Assistant"
    by (rule run_stays_in_session [OF run]) (simp_all add: demo_message_def)
  with run show ?thesis by blast
qed

lemma scan_without_tools:
  "\<forall>e \<in> set es. \<forall>n a i s. e \<noteq> ETool n a i s \<Longrightarrow>
     scan_events t cs es = map_sum id (\<lambda>u. (u, cs)) (turn_text t es)"
  by (induction es arbitrary: t rule: turn_text.induct) auto

text \<open>When the model asks for no tool, the agent loop and the single turn agree: the same
  reply or error, and the same model state, with the tools untouched.\<close>

theorem run_without_tools_is_turn:
  assumes "reply m messages = (Inr events, m1)"
    and "\<forall>e \<in> set events. \<forall>n a i s. e \<noteq> ETool n a i s"
    and "length events \<le> steps" and "steps \<noteq> 0"
  shows "run pr reply call m ts messages steps =
    (fst (turn reply m messages steps), snd (turn reply m messages steps), ts)"
  using assms
  by (cases steps; cases "turn_text [] events")
    (simp_all add: run_def turn_def scan_without_tools Let_def)

theorem run_without_tools_is_turn_witness:
  "run (\<lambda>_. ''null'') demo_model demo_tools 1 () [demo_message] 3 =
    (fst (turn demo_model 1 [demo_message] 3), snd (turn demo_model 1 [demo_message] 3), ())"
  by (rule run_without_tools_is_turn [of _ _ _ "[EDone ''ok'']"]) (simp_all add: demo_model_def)


lemma run_steps_endless:
  assumes "\<And>m h. \<exists>m'. reply m h = (Inr [ETool n a i sg], m')"
    and "\<And>t. \<exists>r t'. call t n a False = (Inr r, t')"
    and "used \<le> agent_calls"
  shows "fst (run_steps pr reply call steps left m ts h used) =
    Inl (Limit (if used + left \<le> agent_calls then ''tool steps exhausted'' else ''tool-call limit exceeded''))"
  using assms(3)
proof (induction left arbitrary: m ts h used)
  case (Suc left)
  obtain m' where m': "reply m h = (Inr [ETool n a i sg], m')" using assms(1) by blast
  obtain r t' where t': "call ts n a False = (Inr r, t')" using assms(2) by blast
  show ?case
  proof (cases "used = agent_calls")
    case True
    with m' t' show ?thesis by (simp add: Let_def)
  next
    case False
    with Suc.prems have "used + 1 \<le> agent_calls" by simp
    with Suc.IH m' t' show ?thesis by (simp add: Let_def)
  qed
qed simp

text \<open>A model that asks for a tool in every reply never loops forever: the run ends in the step
  limit, or in the call limit when more than 16 steps are allowed.\<close>

theorem run_endless_model_is_stopped:
  assumes "\<And>m h. \<exists>m'. reply m h = (Inr [ETool n a i sg], m')"
    and "\<And>t. \<exists>r t'. call t n a False = (Inr r, t')"
    and "steps \<noteq> 0"
  shows "fst (run pr reply call m ts messages steps) =
    Inl (Limit (if steps \<le> 16 then ''tool steps exhausted'' else ''tool-call limit exceeded''))"
proof -
  have "fst (run_steps pr reply call steps steps m ts messages 0) =
    Inl (Limit (if 0 + steps \<le> agent_calls then ''tool steps exhausted'' else ''tool-call limit exceeded''))"
    by (rule run_steps_endless [where reply = reply and call = call, OF assms(1,2)]) simp_all
  with assms(3) show ?thesis by (simp add: run_def agent_calls_def)
qed

theorem run_endless_model_is_stopped_witness:
  "fst (run (\<lambda>_. ''null'') (\<lambda>m h. (Inr [ETool ''read'' JNull None None], m)) demo_tools (0::nat) () [demo_message] 20)
     = Inl (Limit ''tool-call limit exceeded'')"
  using run_endless_model_is_stopped
    [where reply = "\<lambda>m h. (Inr [ETool ''read'' JNull None None], m)" and call = demo_tools
      and steps = 20 and m = "0::nat" and ts = "()" and messages = "[demo_message]"
      and n = "''read''" and a = JNull and i = None and sg = None and pr = "\<lambda>_. ''null''"]
  by (simp add: demo_tools_def)

end
