(* ===== verification/Policy.thy ===== *)
theory Policy
  imports Core_Types
begin

text \<open>
  \<open>krabb-core/src/policy.rs\<close>: shell permission and the confinement of paths to the workspace
  root. A path is its list of components after an optional root; \<open>std::fs::canonicalize\<close> is
  the operating system's resolution of a path and is a parameter.
\<close>

datatype shell = Off | Ask | On

text \<open>A \<open>std::path::PathBuf\<close>: whether it starts at the root, and its components. Component-wise
  \<open>starts_with\<close> and \<open>join\<close> are those of \<open>std::path\<close>.\<close>

datatype path = Path (is_absolute: bool) (components: "string list")

definition path_join :: "path \<Rightarrow> path \<Rightarrow> path" where
  "path_join p q = (if is_absolute q then q else Path (is_absolute p) (components p @ components q))"

definition starts_with :: "path \<Rightarrow> path \<Rightarrow> bool" where
  "starts_with p root \<longleftrightarrow>
     is_absolute p = is_absolute root \<and> take (length (components root)) (components p) = components root"

record policy =
  pol_shell :: shell
  pol_root :: "path option"

definition default_policy :: policy where
  "default_policy = \<lparr>pol_shell = Off, pol_root = None\<rparr>"

definition policy_shell :: "policy \<Rightarrow> bool \<Rightarrow> core_error + unit" where
  "policy_shell p approved =
     (case pol_shell p of
        Off \<Rightarrow> Inl (Denied ''Shell is disabled.'')
      | Ask \<Rightarrow> if \<not> approved then Inl (Denied ''Shell approval is required.'') else Inr ()
      | On \<Rightarrow> Inr ())"

definition policy_path :: "(path \<Rightarrow> string + path) \<Rightarrow> policy \<Rightarrow> path \<Rightarrow> core_error + path" where
  "policy_path canon p path =
     (case pol_root p of
        None \<Rightarrow> Inl (Denied ''Workspace root is unset.'')
      | Some root0 \<Rightarrow>
          (case canon root0 of
             Inl e \<Rightarrow> Inl (Denied (''Workspace: '' @ e @ ''.''))
           | Inr root \<Rightarrow>
               (let joined = (if is_absolute path then path else path_join root path) in
                case canon joined of
                  Inl e \<Rightarrow> Inl (Denied (''Path: '' @ e @ ''.''))
                | Inr clean \<Rightarrow>
                    if starts_with clean root then Inr clean
                    else Inl (Denied ''Path leaves the workspace.''))))"

text \<open>A path the policy admits is the canonical form of the requested path and lies below the
  canonical workspace root; every other request is denied.\<close>

theorem policy_path_confined:
  "policy_path canon p path = Inr clean \<longleftrightarrow>
     (\<exists>root0 root. pol_root p = Some root0 \<and> canon root0 = Inr root \<and>
        canon (path_join root path) = Inr clean \<and> starts_with clean root)"
  by (auto simp: policy_path_def path_join_def Let_def split: option.splits sum.splits if_splits)

text \<open>Shell runs without approval only under the setting On, never under Off, and the default
  policy refuses it and every path.\<close>

theorem policy_shell_permissions:
  "(policy_shell p approved = Inr ()) = (pol_shell p = On \<or> pol_shell p = Ask \<and> approved)
   \<and> policy_shell default_policy approved \<noteq> Inr ()
   \<and> policy_path canon default_policy path = Inl (Denied ''Workspace root is unset.'')"
  by (cases "pol_shell p") (auto simp: policy_shell_def default_policy_def policy_path_def)

end
