(* ===== verification/Jsonl.thy ===== *)
theory Jsonl
  imports Core_Types
begin

text \<open>
  \<open>krabb-core/src/jsonl.rs\<close>: newline-delimited JSON frames with a size bound. The input is the
  list of bytes not yet read; the output is the list of bytes written. The JSON parser and
  printer are parameters, as are UTF-8 validation and \<open>str::trim_end\<close>; reading and writing
  themselves do not fail here (an I/O error of the stream passes through \<open>?\<close> unchanged).
\<close>

definition frame_max :: nat where "frame_max = 8 * 1024 * 1024"

text \<open>\<open>take(n).read_until(b'\n')\<close>: at most \<open>n\<close> bytes, up to and with the first newline.\<close>

fun read_until :: "nat \<Rightarrow> string \<Rightarrow> string \<times> string" where
  "read_until 0 bs = ([], bs)"
| "read_until (Suc n) [] = ([], [])"
| "read_until (Suc n) (b # bs) =
     (if b = CHR 0x0A then ([b], bs)
      else let (l, rest) = read_until n bs in (b # l, rest))"

record 'a codec =
  parse :: "string \<Rightarrow> string + 'a"
  print :: "'a \<Rightarrow> string + string"
  utf8 :: "string \<Rightarrow> string option"
  trim_end :: "string \<Rightarrow> string"

text \<open>\<open>utf8 c bs\<close> is the error of \<open>std::str::from_utf8\<close>, \<open>None\<close> when the bytes are valid.\<close>

definition jsonl_read :: "'a codec \<Rightarrow> nat \<Rightarrow> string \<Rightarrow> (core_error + 'a option) \<times> string" where
  "jsonl_read c maxlen input =
     (let (line, rest) = read_until (maxlen + 1) input in
      if line = [] then (Inr None, rest)
      else if length line > maxlen
        then (Inl (Protocol (''Frame exceeds '' @ show_nat maxlen @ '' bytes.'')), rest)
      else if last line \<noteq> CHR 0x0A then (Inl (Protocol ''Frame is missing a newline.''), rest)
      else (case utf8 c line of
              Some e \<Rightarrow> (Inl (Protocol e), rest)
            | None \<Rightarrow>
                (case parse c (trim_end c line) of
                   Inl e \<Rightarrow> (Inl (JsonError e), rest)
                 | Inr v \<Rightarrow> (Inr (Some v), rest))))"

definition jsonl_write :: "'a codec \<Rightarrow> 'a \<Rightarrow> string \<Rightarrow> (core_error + unit) \<times> string" where
  "jsonl_write c v output =
     (case print c v of
        Inl e \<Rightarrow> (Inl (JsonError e), output)
      | Inr line \<Rightarrow>
          if length line + 1 > frame_max
          then (Inl (Protocol (''Frame exceeds '' @ show_nat frame_max @ '' bytes.'')), output)
          else (Inr (), output @ line @ [CHR 0x0A]))"

text \<open>What the framing relies on: the printer of a JSON package emits valid UTF-8 without a raw
  newline (a newline in a string is escaped) that does not end in white space, and the parser
  reads back what it printed.\<close>

definition line_codec :: "'a codec \<Rightarrow> bool" where
  "line_codec c \<longleftrightarrow> (\<forall>v line. print c v = Inr line \<longrightarrow>
     CHR 0x0A \<notin> set line \<and> utf8 c (line @ [CHR 0x0A]) = None \<and>
     trim_end c (line @ [CHR 0x0A]) = line \<and> parse c line = Inr v)"

lemma read_until_split: "read_until n bs = (l, r) \<Longrightarrow> bs = l @ r \<and> length l \<le> n"
proof (induction n bs arbitrary: l r rule: read_until.induct)
  case (3 n b bs)
  then show ?case by (auto split: if_splits prod.splits)
qed auto

lemma read_until_line:
  "CHR 0x0A \<notin> set line \<Longrightarrow> length line < n \<Longrightarrow>
     read_until n (line @ CHR 0x0A # rest) = (line @ [CHR 0x0A], rest)"
proof (induction line arbitrary: n)
  case Nil
  then show ?case by (cases n) auto
next
  case (Cons b line)
  then show ?case by (cases n) auto
qed

text \<open>A frame written by one side is read back by the other as the same value, with the bytes
  after it left for the next frame.\<close>

theorem jsonl_round_trip:
  assumes "line_codec c" and "jsonl_write c v out = (Inr (), out @ frame)"
    and "frame_max \<le> maxlen"
  shows "jsonl_read c maxlen (frame @ rest) = (Inr (Some v), rest)"
proof -
  from assms(2) obtain line where line: "print c v = Inr line" "frame = line @ [CHR 0x0A]"
    and len: "length line + 1 \<le> frame_max"
    by (auto simp: jsonl_write_def split: sum.splits if_splits)
  from assms(1) line(1) have c: "CHR 0x0A \<notin> set line" "utf8 c (line @ [CHR 0x0A]) = None"
    "trim_end c (line @ [CHR 0x0A]) = line" "parse c line = Inr v"
    by (auto simp: line_codec_def)
  have "read_until (maxlen + 1) (frame @ rest) = (line @ [CHR 0x0A], rest)"
    using read_until_line [OF c(1), of "maxlen + 1" rest] len assms(3) line(2) by simp
  with c len assms(3) show ?thesis by (simp add: jsonl_read_def)
qed

definition bit_codec :: "bool codec" where
  "bit_codec = \<lparr>parse = (\<lambda>s. if s = ''true'' then Inr True else if s = ''false'' then Inr False else Inl ''bad''),
     print = (\<lambda>b. Inr (if b then ''true'' else ''false'')), utf8 = (\<lambda>_. None),
     trim_end = (\<lambda>s. takeWhile (\<lambda>b. b \<noteq> CHR 0x0A) s)\<rparr>"

theorem jsonl_round_trip_witness:
  "jsonl_read bit_codec frame_max (''true'' @ [CHR 0x0A] @ ''rest'') = (Inr (Some True), ''rest'')"
proof -
  have "jsonl_read bit_codec frame_max ((''true'' @ [CHR 0x0A]) @ ''rest'') = (Inr (Some True), ''rest'')"
    by (rule jsonl_round_trip [where out = "[]"])
      (simp_all add: line_codec_def bit_codec_def jsonl_write_def frame_max_def)
  then show ?thesis by simp
qed

text \<open>The reader never accepts or consumes more than its bound: a value comes only from a frame
  of at most \<open>maxlen\<close> bytes that ends in a newline, and at most one byte more is read before an
  oversized frame is refused.\<close>

theorem jsonl_read_bounded:
  "\<exists>line. input = line @ snd (jsonl_read c maxlen input) \<and> length line \<le> maxlen + 1 \<and>
     (\<forall>v. fst (jsonl_read c maxlen input) = Inr (Some v) \<longrightarrow>
        length line \<le> maxlen \<and> line \<noteq> [] \<and> last line = CHR 0x0A)"
proof -
  obtain line rest where r: "read_until (maxlen + 1) input = (line, rest)" by fastforce
  with read_until_split [OF r] have "input = line @ snd (jsonl_read c maxlen input)"
    by (auto simp: jsonl_read_def split: sum.splits option.splits)
  moreover have "\<forall>v. fst (jsonl_read c maxlen input) = Inr (Some v) \<longrightarrow>
        length line \<le> maxlen \<and> line \<noteq> [] \<and> last line = CHR 0x0A"
    using r by (auto simp: jsonl_read_def split: sum.splits option.splits if_splits)
  ultimately show ?thesis using read_until_split [OF r] by blast
qed

text \<open>The theorem above has an implication inside; a closed instance shows it at work.\<close>

theorem jsonl_read_bounded_witness:
  "\<exists>line. ''true'' @ [CHR 0x0A] = line @ snd (jsonl_read bit_codec 8 (''true'' @ [CHR 0x0A]))
     \<and> length line \<le> 8 \<and> line \<noteq> [] \<and> last line = CHR 0x0A"
proof -
  have "fst (jsonl_read bit_codec 8 (''true'' @ [CHR 0x0A])) = Inr (Some True)"
    by (simp add: jsonl_read_def bit_codec_def numeral_eq_Suc)
  with jsonl_read_bounded [of "''true'' @ [CHR 0x0A]" bit_codec 8] show ?thesis by blast
qed

end
