(* ===== verification/Transcript.thy ===== *)
theory Transcript
  imports Core_Types "HOL-Library.Sublist"
begin

text \<open>
  Compaction of a transcript, \<open>compact_messages\<close>, \<open>remove_oldest_message_group\<close> and
  \<open>message_group\<close> of \<open>krabb-runtime/src/state.rs\<close>. A group is an assistant message with the
  tool results right after it, or any other single message; system messages are never
  removed. The search loop advances by the end of the group it skips, which need not be
  ahead of it: it is a \<open>partial_function (option)\<close>, and \<open>None\<close> is a loop that never ends.
\<close>

definition message_history_limit :: nat where "message_history_limit = 100"

section \<open>Groups\<close>

text \<open>\<open>while start > 0 && messages[start - 1].role == Tool\<close>.\<close>

fun back_tools :: "message list \<Rightarrow> nat \<Rightarrow> nat" where
  "back_tools ms 0 = 0"
| "back_tools ms (Suc n) = (if m_role (ms ! n) = Tool then back_tools ms n else Suc n)"

text \<open>\<open>while messages.get(end + 1).is_some_and(tool)\<close>.\<close>

function forward_tools :: "message list \<Rightarrow> nat \<Rightarrow> nat" where
  "forward_tools ms e =
     (if e + 1 < length ms \<and> m_role (ms ! (e + 1)) = Tool then forward_tools ms (e + 1) else e)"
  by pat_completeness auto
termination
  by (relation "measure (\<lambda>(ms, e). length ms - e)") auto

declare forward_tools.simps [simp del]

definition message_group :: "message list \<Rightarrow> nat \<Rightarrow> nat \<times> nat" where
  "message_group ms index =
     (let start =
        (if m_role (ms ! index) = Tool
         then (let s = back_tools ms index in
               if 0 < s \<and> m_role (ms ! (s - 1)) = Assistant then s - 1 else s)
         else index)
      in (start, if m_role (ms ! start) = Assistant then forward_tools ms start else start))"

text \<open>The loop of \<open>remove_oldest_message_group\<close> from an index on: whether a group was removed,
  and the messages that are left.\<close>

partial_function (option) remove_group_from ::
  "message list \<Rightarrow> nat option \<Rightarrow> nat \<Rightarrow> (bool \<times> message list) option" where
  "remove_group_from ms protected index =
     (if length ms \<le> index then Some (False, ms)
      else if m_role (ms ! index) = System then remove_group_from ms protected (index + 1)
      else
        (case message_group ms index of
           (start, fin) \<Rightarrow>
             if (case protected of None \<Rightarrow> True | Some p \<Rightarrow> p < start \<or> fin < p)
             then Some (True, take start ms @ drop (fin + 1) ms)
             else remove_group_from ms protected (fin + 1)))"

definition remove_oldest_message_group ::
  "message list \<Rightarrow> nat option \<Rightarrow> (bool \<times> message list) option" where
  "remove_oldest_message_group ms protected = remove_group_from ms protected 0"

section \<open>What removing without protection does\<close>

abbreviation is_system :: "message \<Rightarrow> bool" where
  "is_system m \<equiv> m_role m = System"

abbreviation is_tool :: "message \<Rightarrow> bool" where
  "is_tool m \<equiv> m_role m = Tool"

text \<open>Reference: keep the leading system messages, drop the first other message, and its tool
  results when it is the assistant's.\<close>

definition drop_oldest :: "message list \<Rightarrow> message list" where
  "drop_oldest ms =
     (case dropWhile is_system ms of
        [] \<Rightarrow> ms
      | m # rest \<Rightarrow> takeWhile is_system ms @
          (if m_role m = Assistant then dropWhile is_tool rest else rest))"

lemma forward_tools_append:
  "forward_tools (xs @ m # rest) (length xs) = length xs + length (takeWhile is_tool rest)"
proof (induction rest arbitrary: xs m)
  case Nil
  then show ?case by (simp add: forward_tools.simps)
next
  case (Cons r rest)
  show ?case
  proof (cases "is_tool r")
    case True
    have "forward_tools ((xs @ [m]) @ r # rest) (length (xs @ [m])) =
        length (xs @ [m]) + length (takeWhile is_tool rest)"
      by (rule Cons.IH)
    with True show ?thesis
      by (subst forward_tools.simps) (simp add: nth_append)
  next
    case False
    then show ?thesis by (subst forward_tools.simps) (simp add: nth_append)
  qed
qed

lemma message_group_first:
  assumes "\<forall>x \<in> set sys. is_system x" and "\<not> is_system m"
  shows "message_group (sys @ m # rest) (length sys) =
    (length sys, if m_role m = Assistant then length sys + length (takeWhile is_tool rest) else length sys)"
proof -
  have "back_tools (sys @ m # rest) (length sys) = length sys"
    using assms(1) by (cases sys rule: rev_cases) (auto simp: nth_append)
  moreover have "0 < length sys \<Longrightarrow> m_role ((sys @ m # rest) ! (length sys - 1)) = System"
    using assms(1) by (cases sys rule: rev_cases) (auto simp: nth_append)
  ultimately show ?thesis
    by (auto simp: message_group_def Let_def forward_tools_append)
qed

lemma remove_group_from_skip:
  "\<forall>x \<in> set sys. is_system x \<Longrightarrow> ms = pre @ sys @ rest \<Longrightarrow>
     remove_group_from ms p (length pre) = remove_group_from ms p (length pre + length sys)"
proof (induction sys arbitrary: pre)
  case (Cons x sys)
  have "remove_group_from ms p (length pre) = remove_group_from ms p (length pre + 1)"
    using Cons.prems by (subst remove_group_from.simps) (auto simp: nth_append)
  also have "\<dots> = remove_group_from ms p (length (pre @ [x]))"
    by simp
  also have "\<dots> = remove_group_from ms p (length (pre @ [x]) + length sys)"
    using Cons.prems by (intro Cons.IH) auto
  finally show ?case by simp
qed simp

lemma drop_oldest_split:
  assumes "\<forall>x \<in> set sys. is_system x" and "\<not> is_system m"
  shows "drop_oldest (sys @ m # rest) = sys @ (if m_role m = Assistant then dropWhile is_tool rest else rest)"
  using assms by (simp add: drop_oldest_def dropWhile_append takeWhile_append)

lemma drop_takeWhile_length: "drop (length (takeWhile P xs)) xs = dropWhile P xs"
  by (simp add: dropWhile_eq_drop)

lemma drop_oldest_all_system: "list_all is_system ms \<Longrightarrow> drop_oldest ms = ms"
  by (simp add: drop_oldest_def dropWhile_eq_Nil_conv [THEN iffD2] list_all_iff)

lemma remove_oldest_unprotected:
  "remove_oldest_message_group ms None = Some (\<not> list_all is_system ms, drop_oldest ms)"
proof (cases "list_all is_system ms")
  case True
  have "remove_group_from ms None 0 = remove_group_from ms None (length ms)"
    using remove_group_from_skip [of ms ms "[]" "[]" None] True by (simp add: list_all_iff)
  then show ?thesis
    using True by (simp add: remove_oldest_message_group_def remove_group_from.simps drop_oldest_all_system)
next
  case False
  obtain m rest where d: "dropWhile is_system ms = m # rest"
    using False by (cases "dropWhile is_system ms") (auto simp: list_all_iff dropWhile_eq_Nil_conv)
  define sys where "sys = takeWhile is_system ms"
  have ms: "ms = sys @ m # rest"
    using takeWhile_dropWhile_id [of is_system ms] by (simp add: sys_def d)
  have sys: "\<forall>x \<in> set sys. is_system x" and m: "\<not> is_system m"
    using d by (auto simp: sys_def dropWhile_eq_Cons_conv dest: set_takeWhileD)
  have "remove_group_from ms None 0 = remove_group_from ms None (length sys)"
    using remove_group_from_skip [of sys ms "[]" "m # rest" None] sys ms by simp
  also have "\<dots> = Some (True, drop_oldest ms)"
    unfolding ms drop_oldest_split [OF sys m]
    using message_group_first [OF sys m, of rest] m
    by (subst remove_group_from.simps) (simp add: drop_takeWhile_length)
  finally show ?thesis using False by (simp add: remove_oldest_message_group_def)
qed

lemma drop_oldest_shorter:
  assumes "\<not> list_all is_system ms"
  shows "length (drop_oldest ms) < length ms"
proof -
  obtain m rest where d: "dropWhile is_system ms = m # rest"
    using assms by (cases "dropWhile is_system ms") (auto simp: list_all_iff dropWhile_eq_Nil_conv)
  have "length ms = length (takeWhile is_system ms) + length (m # rest)"
    by (metis d length_append takeWhile_dropWhile_id)
  with d length_dropWhile_le [of is_tool rest] show ?thesis by (simp add: drop_oldest_def)
qed

section \<open>Compaction\<close>

text \<open>\<open>compact_messages\<close>: the loop ends when the bound holds or nothing can be removed. The search
  always returns without a protected message (\<open>remove_oldest_unprotected\<close>), so its \<open>None\<close> is
  never met.\<close>

function compact_messages :: "message list \<Rightarrow> message list" where
  "compact_messages ms =
     (if length ms > message_history_limit
      then (case remove_oldest_message_group ms None of
              Some (True, ms') \<Rightarrow> compact_messages ms'
            | Some (False, ms') \<Rightarrow> ms'
            | None \<Rightarrow> ms)
      else ms)"
  by pat_completeness auto
termination
  by (relation "measure length")
    (auto simp: remove_oldest_unprotected drop_oldest_shorter)

declare compact_messages.simps [simp del]

lemma compact_messages_unfold:
  "compact_messages ms =
     (if length ms > message_history_limit \<and> \<not> list_all is_system ms
      then compact_messages (drop_oldest ms) else ms)"
proof (cases "list_all is_system ms")
  case True
  then show ?thesis
    by (subst compact_messages.simps) (simp add: remove_oldest_unprotected drop_oldest_all_system)
next
  case False
  then show ?thesis
    by (subst compact_messages.simps) (simp add: remove_oldest_unprotected)
qed

lemma compact_induct [case_names step]:
  assumes "\<And>ms. (length ms > message_history_limit \<and> \<not> list_all is_system ms \<Longrightarrow> P (drop_oldest ms)) \<Longrightarrow> P ms"
  shows "P ms"
proof (induction ms rule: measure_induct_rule [where f = length])
  case (less ms)
  then show ?case using assms drop_oldest_shorter by blast
qed

lemma compact_messages_id: "length ms \<le> message_history_limit \<Longrightarrow> compact_messages ms = ms"
  by (subst compact_messages_unfold) simp

lemma compact_messages_bound:
  "length (compact_messages ms) \<le> message_history_limit \<or> list_all is_system (compact_messages ms)"
proof (induction ms rule: compact_induct)
  case (step ms)
  then show ?case by (subst (1 2) compact_messages_unfold) auto
qed

lemma subseq_drop_oldest: "subseq (drop_oldest ms) ms"
proof (cases "dropWhile is_system ms")
  case Nil
  then have "drop_oldest ms = ms"
    by (intro drop_oldest_all_system) (simp add: list_all_iff)
  then show ?thesis by simp
next
  case (Cons m rest)
  have "subseq (dropWhile is_tool rest) rest"
    by (metis dropWhile_eq_drop suffix_drop suffix_imp_subseq)
  then have "subseq (takeWhile is_system ms @ (if m_role m = Assistant then dropWhile is_tool rest else rest))
      (takeWhile is_system ms @ m # rest)"
    by (intro list_emb_append_mono) auto
  with Cons show ?thesis
    using takeWhile_dropWhile_id [of is_system ms] by (simp add: drop_oldest_def)
qed

lemma subseq_compact: "subseq (compact_messages ms) ms"
proof (induction ms rule: compact_induct)
  case (step ms)
  show ?case
    using step subseq_drop_oldest [of ms]
    by (subst compact_messages_unfold) (auto intro: subseq_order.order_trans)
qed

lemma set_compact: "set (compact_messages ms) \<subseteq> set ms"
  using subseq_compact [of ms] by (auto elim: list_emb_set)

lemma filter_system_drop_oldest: "filter is_system (drop_oldest ms) = filter is_system ms"
proof (cases "dropWhile is_system ms")
  case Nil
  then have "drop_oldest ms = ms"
    by (intro drop_oldest_all_system) (simp add: list_all_iff)
  then show ?thesis by simp
next
  case (Cons m rest)
  have "filter is_system (dropWhile is_tool rest) = filter is_system rest"
    by (induction rest) auto
  moreover have "\<not> is_system m"
    using Cons by (auto simp: dropWhile_eq_Cons_conv)
  ultimately have "filter is_system (drop_oldest ms) = filter is_system (takeWhile is_system ms @ m # rest)"
    using Cons by (simp add: drop_oldest_def)
  also have "takeWhile is_system ms @ m # rest = ms"
    using takeWhile_dropWhile_id [of is_system ms] Cons by simp
  finally show ?thesis .
qed

lemma filter_system_compact: "filter is_system (compact_messages ms) = filter is_system ms"
proof (induction ms rule: compact_induct)
  case (step ms)
  then show ?case
    by (subst compact_messages_unfold) (auto simp: filter_system_drop_oldest)
qed


section \<open>Tool results stay with their call\<close>

text \<open>A transcript where every tool result follows another tool result or an assistant
  message.\<close>

fun results_follow :: "role \<Rightarrow> message list \<Rightarrow> bool" where
  "results_follow prev [] = True"
| "results_follow prev (m # ms) =
     ((is_tool m \<longrightarrow> prev = Tool \<or> prev = Assistant) \<and> results_follow (m_role m) ms)"

definition no_orphans :: "message list \<Rightarrow> bool" where
  "no_orphans ms \<longleftrightarrow> results_follow System ms"

lemma results_follow_dropWhile: "results_follow p ms \<Longrightarrow> results_follow q (dropWhile is_tool ms)"
  by (induction ms arbitrary: p) auto

lemma results_follow_change: "results_follow p ms \<Longrightarrow> p \<noteq> Tool \<Longrightarrow> p \<noteq> Assistant \<Longrightarrow> results_follow q ms"
  by (cases ms) auto

lemma results_follow_systems:
  "\<forall>x \<in> set sys. is_system x \<Longrightarrow>
     results_follow System (sys @ ms) = results_follow System ms"
  by (induction sys) auto

lemma no_orphans_drop_oldest: "no_orphans ms \<Longrightarrow> no_orphans (drop_oldest ms)"
proof (cases "dropWhile is_system ms")
  case Nil
  then have "drop_oldest ms = ms"
    by (intro drop_oldest_all_system) (simp add: list_all_iff)
  then show "no_orphans ms \<Longrightarrow> ?thesis" by simp
next
  case (Cons m rest)
  let ?sys = "takeWhile is_system ms"
  assume "no_orphans ms"
  moreover have ms: "?sys @ m # rest = ms"
    using takeWhile_dropWhile_id [of is_system ms] Cons by simp
  moreover have sys: "\<forall>x \<in> set ?sys. is_system x"
    by (auto dest: set_takeWhileD)
  ultimately have "results_follow System (m # rest)"
    unfolding no_orphans_def by (metis results_follow_systems)
  then have "results_follow System (if m_role m = Assistant then dropWhile is_tool rest else rest)"
    by (cases "m_role m") (auto intro: results_follow_dropWhile results_follow_change)
  with Cons sys show ?thesis
    by (simp add: no_orphans_def drop_oldest_def results_follow_systems)
qed

lemma no_orphans_compact: "no_orphans ms \<Longrightarrow> no_orphans (compact_messages ms)"
proof (induction ms rule: compact_induct)
  case (step ms)
  then show ?case
    by (subst compact_messages_unfold) (auto simp: no_orphans_drop_oldest)
qed

section \<open>Termination with a protected message\<close>

text \<open>The search always returns when the protected message is not a tool result, or no message
  other than a system message comes after it: the two ways the program chooses it.\<close>

definition protectable :: "message list \<Rightarrow> nat option \<Rightarrow> bool" where
  "protectable ms protected \<longleftrightarrow>
     (\<forall>p. protected = Some p \<longrightarrow> p < length ms \<longrightarrow>
        \<not> is_tool (ms ! p) \<or> (\<forall>i < length ms. p < i \<longrightarrow> is_system (ms ! i)))"

text \<open>Where the search stands: not in the middle of a run of tool results.\<close>

definition run_start :: "message list \<Rightarrow> nat \<Rightarrow> bool" where
  "run_start ms i \<longleftrightarrow>
     i = 0 \<or> length ms \<le> i \<or> \<not> is_tool (ms ! (i - 1)) \<or> \<not> is_tool (ms ! i)"

lemma forward_tools_ge: "e \<le> forward_tools ms e"
proof (induction ms e rule: forward_tools.induct)
  case (1 ms e)
  show ?case
  proof (cases "e + 1 < length ms \<and> m_role (ms ! (e + 1)) = Tool")
    case True
    with 1 have "e + 1 \<le> forward_tools ms (e + 1)" by simp
    with True show ?thesis by (subst forward_tools.simps) simp
  next
    case False
    then have "forward_tools ms e = e"
      by (subst forward_tools.simps) auto
    then show ?thesis by simp
  qed
qed

lemma forward_tools_stop:
  "forward_tools ms e + 1 < length ms \<Longrightarrow> \<not> is_tool (ms ! (forward_tools ms e + 1))"
proof (induction ms e rule: forward_tools.induct)
  case (1 ms e)
  show ?case
  proof (cases "e + 1 < length ms \<and> m_role (ms ! (e + 1)) = Tool")
    case True
    then have "forward_tools ms e = forward_tools ms (e + 1)"
      by (subst forward_tools.simps) simp
    with 1 True show ?thesis by simp
  next
    case False
    then have "forward_tools ms e = e"
      by (subst forward_tools.simps) auto
    with 1 False show ?thesis by simp
  qed
qed

lemma message_group_run_start:
  assumes "run_start ms i" and "i < length ms" and "message_group ms i = (start, fin)"
  shows "i \<le> fin" and "run_start ms (fin + 1) \<or> (start = i \<and> fin = i)"
proof -
  have stay: "is_tool (ms ! i) \<Longrightarrow> back_tools ms i = i"
    using assms(1,2) by (cases i) (auto simp: run_start_def)
  have "i \<le> fin \<and> (run_start ms (fin + 1) \<or> (start = i \<and> fin = i))"
  proof (cases "is_tool (ms ! i) \<and> 0 < i \<and> m_role (ms ! (i - 1)) = Assistant")
    case True
    with stay assms(3) have "fin = forward_tools ms (i - 1)"
      by (auto simp: message_group_def Let_def)
    moreover have "forward_tools ms (i - 1) = forward_tools ms i"
      using True assms(2) by (subst forward_tools.simps) simp
    ultimately show ?thesis
      using forward_tools_ge [of i ms] forward_tools_stop [of ms i]
      by (simp add: run_start_def) linarith
  next
    case False
    with stay assms(3)
    have g: "start = i" "fin = (if m_role (ms ! i) = Assistant then forward_tools ms i else i)"
      by (auto simp: message_group_def split: if_splits)
    show ?thesis
    proof (cases "m_role (ms ! i) = Assistant")
      case True
      with g forward_tools_ge [of i ms] forward_tools_stop [of ms i] show ?thesis
        by (simp add: run_start_def) linarith
    next
      case False
      with g show ?thesis by simp
    qed
  qed
  then show "i \<le> fin" and "run_start ms (fin + 1) \<or> (start = i \<and> fin = i)"
    by auto
qed

lemma remove_group_from_returns:
  assumes "protectable ms p"
  shows "run_start ms i \<Longrightarrow> \<exists>r. remove_group_from ms p i = Some r"
proof (induction "length ms - i" arbitrary: i rule: less_induct)
  case less
  show ?case
  proof (cases "i < length ms")
    case False
    then have "remove_group_from ms p i = Some (False, ms)"
      by (subst remove_group_from.simps) simp
    then show ?thesis by blast
  next
    case True
    show ?thesis
    proof (cases "is_system (ms ! i)")
      case sys: True
      then have "run_start ms (i + 1)" by (auto simp: run_start_def)
      with less.hyps [of "i + 1"] True sys show ?thesis
        by (subst remove_group_from.simps) simp
    next
      case nsys: False
      obtain start fin where g: "message_group ms i = (start, fin)" by fastforce
      note group = message_group_run_start [OF less.prems True g]
      show ?thesis
      proof (cases "case p of None \<Rightarrow> True | Some q \<Rightarrow> q < start \<or> fin < q")
        case out: True
        then have "remove_group_from ms p i = Some (True, take start ms @ drop (fin + 1) ms)"
          using True nsys g by (subst remove_group_from.simps) simp
        then show ?thesis by blast
      next
        case False
        then obtain q where q: "p = Some q" "start \<le> q" "q \<le> fin"
          by (auto split: option.splits)
        have "run_start ms (fin + 1)"
          using group(2)
        proof
          assume "start = i \<and> fin = i"
          with q have "q = i" by simp
          with assms q(1) True nsys \<open>start = i \<and> fin = i\<close> show ?thesis
            by (auto simp: protectable_def run_start_def)
        qed
        with less.hyps [of "fin + 1"] group(1) True nsys g False q show ?thesis
          by (subst remove_group_from.simps) simp
      qed
    qed
  qed
qed

lemma remove_oldest_returns:
  "protectable ms p \<Longrightarrow> \<exists>r. remove_oldest_message_group ms p = Some r"
  unfolding remove_oldest_message_group_def
  by (rule remove_group_from_returns) (simp_all add: run_start_def)


section \<open>Properties\<close>

text \<open>Compaction leaves at most 100 messages unless only system messages are left, keeps every
  system message, and otherwise only drops messages: what is left is a subsequence.\<close>

theorem compact_messages_bounded:
  "(length (compact_messages ms) \<le> 100 \<or> list_all is_system (compact_messages ms))
   \<and> filter is_system (compact_messages ms) = filter is_system ms
   \<and> subseq (compact_messages ms) ms"
  using compact_messages_bound [of ms]
  by (simp add: filter_system_compact subseq_compact message_history_limit_def)

text \<open>Compaction removes a tool call together with its results: a transcript in which every tool
  result follows its call or another result stays such a transcript.\<close>

theorem compact_messages_keeps_groups:
  "no_orphans ms \<Longrightarrow> no_orphans (compact_messages ms)"
  by (rule no_orphans_compact)

definition bare_message :: "role \<Rightarrow> message" where
  "bare_message r = \<lparr>m_id = ''m'', m_session = ''s'', m_role = r, m_sender = None, m_content = []\<rparr>"

theorem compact_messages_keeps_groups_witness:
  "no_orphans (compact_messages (concat (replicate 60 [bare_message Assistant, bare_message Tool])))"
proof -
  have "results_follow p (concat (replicate n [bare_message Assistant, bare_message Tool]))" for n p
    by (induction n arbitrary: p) (simp_all add: bare_message_def)
  then show ?thesis
    by (intro compact_messages_keeps_groups) (simp add: no_orphans_def)
qed

text \<open>The search for a removable group returns whenever the protected message is not a tool
  result or is the last message that is not a system message, as the callers choose it.\<close>

theorem remove_oldest_message_group_returns:
  "protectable ms protected \<Longrightarrow> \<exists>r. remove_oldest_message_group ms protected = Some r"
  by (rule remove_oldest_returns)

theorem remove_oldest_message_group_returns_witness:
  "\<exists>r. remove_oldest_message_group [bare_message Assistant, bare_message Tool, bare_message User] (Some 2) = Some r"
  by (rule remove_oldest_message_group_returns) (simp add: protectable_def bare_message_def less_Suc_eq)

lemma loops_from_1:
  "remove_group_from [bare_message Tool, bare_message Tool] (Some 0) 1 = None"
proof (rule ccontr)
  assume "remove_group_from [bare_message Tool, bare_message Tool] (Some 0) 1 \<noteq> None"
  then obtain r where r: "remove_group_from [bare_message Tool, bare_message Tool] (Some 0) 1 = Some r"
    by blast
  have "\<not> ([bare_message Tool, bare_message Tool] = [bare_message Tool, bare_message Tool]
      \<and> Some (0::nat) = Some 0 \<and> (1::nat) = 1)"
  proof (rule remove_group_from.raw_induct
      [where P = "\<lambda>ms p i r. \<not> (ms = [bare_message Tool, bare_message Tool] \<and> p = Some 0 \<and> i = 1)", OF _ r])
    fix f ms p i r
    assume IH: "\<And>ms p i r. f ms p i = Some r \<Longrightarrow>
        \<not> (ms = [bare_message Tool, bare_message Tool] \<and> p = Some 0 \<and> i = 1)"
      and eq: "(if length ms \<le> i then Some (False, ms)
        else if m_role (ms ! i) = System then f ms p (i + 1)
        else case message_group ms i of (start, fin) \<Rightarrow>
          if case p of None \<Rightarrow> True | Some p \<Rightarrow> p < start \<or> fin < p
          then Some (True, take start ms @ drop (fin + 1) ms) else f ms p (fin + 1)) = Some r"
    show "\<not> (ms = [bare_message Tool, bare_message Tool] \<and> p = Some 0 \<and> i = 1)"
    proof
      assume *: "ms = [bare_message Tool, bare_message Tool] \<and> p = Some 0 \<and> i = 1"
      have "message_group [bare_message Tool, bare_message Tool] 1 = (0, 0)"
        by (simp add: message_group_def bare_message_def)
      with * eq have "f [bare_message Tool, bare_message Tool] (Some 0) 1 = Some r"
        by (simp add: bare_message_def)
      with IH show False by blast
    qed
  qed
  then show False by simp
qed

text \<open>Outside that contract the search does not return: with two tool results at the front and
  the first one protected, the index stays where it is for ever.\<close>

theorem remove_oldest_message_group_can_loop:
  "remove_oldest_message_group [bare_message Tool, bare_message Tool] (Some 0) = None"
proof -
  have "message_group [bare_message Tool, bare_message Tool] 0 = (0, 0)"
    by (simp add: message_group_def bare_message_def)
  then have "remove_group_from [bare_message Tool, bare_message Tool] (Some 0) 0 =
      remove_group_from [bare_message Tool, bare_message Tool] (Some 0) 1"
    by (subst remove_group_from.simps) (simp add: bare_message_def)
  with loops_from_1 show ?thesis by (simp only: remove_oldest_message_group_def)
qed

end
