(* ===== verification/Session_Store.thy ===== *)
theory Session_Store
  imports Transcript
begin

text \<open>
  The session half of \<open>krabb-runtime/src/state.rs\<close>: the \<open>Session\<close>, \<open>Delivery\<close> and
  \<open>Store\<close> records, the transactional update \<open>Store::change\<close>, and every operation on
  sessions. An operation takes the environment, its arguments and the pair of the store and
  the disk, and returns the result with the new pair: \<open>&mut self -> io::Result<()>\<close>.

  The environment gives what the operations read from outside: \<open>now env i\<close> is the value the
  \<open>i\<close>-th call of \<open>now()\<close> in the text of the operation returns, \<open>nanos\<close> that of
  \<open>seen_now()\<close>; \<open>save_store\<close> is \<open>Store::save\<close> on the disk (theory \<open>Catalog\<close> models the one
  the daemon uses), \<open>drop_records\<close> the deletion of a session's record files, \<open>digest\<close> the
  hexadecimal SHA-256 and \<open>pretty_len\<close> the length of the store printed as JSON.
\<close>

section \<open>Records\<close>

definition LIMIT :: nat where "LIMIT = 100"
definition SCHEDULE_SESSION_LIMIT :: nat where "SCHEDULE_SESSION_LIMIT = 1000"
definition TUI_RESERVATION_TTL :: u64 where "TUI_RESERVATION_TTL = 120"

record session =
  s_id :: string
  s_model :: string
  s_scheduled :: bool
  s_workspace :: "string option"
  s_archived :: bool
  s_channel :: "string option"
  s_chat :: "string option"
  s_thread :: "string option"
  s_private :: bool
  s_messages :: "message list"
  s_compacted_through :: "string option"
  s_compacted_context :: "message list option"
  s_context_usage :: "context_usage option"
  s_queued :: "message list"
  s_queue_roles :: "(string, string list) bmap"
  s_inflight :: "message option"
  s_reservation_until :: "u64 option"
  s_reservation_owner :: "string option"
  s_inflight_roles :: "string list"
  s_stream_delivery :: "string option"
  s_phase :: string
  s_status :: string
  s_created :: u64
  s_updated :: u64

datatype delivery_status = Pending | Sending | Streaming | Uncertain

record delivery =
  d_id :: string
  d_channel :: string
  d_chat :: string
  d_private :: bool
  d_thread :: "string option"
  d_text :: string
  d_attempts :: u32
  d_created :: u64
  d_status :: delivery_status
  d_last_error :: "string option"
  d_message_id :: "string option"
  d_updated :: u64

text \<open>A \<open>PathBuf\<close> is the list of its components here.\<close>

record store =
  st_sessions :: "(string, session) bmap"
  st_deferred :: "(string, json list) bmap"
  st_deferred_acknowledged :: "(string, unit) bmap"
  st_outbox :: "delivery list"
  st_dead :: "delivery list"
  st_offsets :: "(string, int) bmap"
  st_seen :: "(string, u64) bmap"
  st_path :: "string list option"

definition empty_store :: store where
  "empty_store = \<lparr>st_sessions = [], st_deferred = [], st_deferred_acknowledged = [], st_outbox = [],
     st_dead = [], st_offsets = [], st_seen = [], st_path = None\<rparr>"

record 'd env =
  now :: "nat \<Rightarrow> u64"
  nanos :: u64
  save_store :: "store \<Rightarrow> 'd \<Rightarrow> unit io_result \<times> 'd"
  drop_records :: "string \<Rightarrow> 'd \<Rightarrow> unit io_result \<times> 'd"
  digest :: "string \<Rightarrow> string"
  pretty_len :: "store \<Rightarrow> nat"

type_synonym 'd world = "store \<times> 'd"
type_synonym ('d, 'a) action = "'d world \<Rightarrow> 'a io_result \<times> 'd world"

section \<open>Transactional updates\<close>

text \<open>\<open>Store::change\<close>: apply the update, save, and put every saved field back when saving
  fails.\<close>

definition change :: "'d env \<Rightarrow> (store \<Rightarrow> store) \<Rightarrow> ('d, unit) action" where
  "change env update w =
     (case w of (st, d) \<Rightarrow>
        let st' = update st in
        case save_store env st' d of
          (Inr u, d') \<Rightarrow> (Inr (), (st', d'))
        | (Inl e, d') \<Rightarrow>
            (Inl e, (st'\<lparr>st_sessions := st_sessions st, st_outbox := st_outbox st,
               st_dead := st_dead st, st_offsets := st_offsets st, st_seen := st_seen st,
               st_deferred := st_deferred st,
               st_deferred_acknowledged := st_deferred_acknowledged st, st_path := st_path st\<rparr>, d')))"

definition fail :: "io_kind \<Rightarrow> string \<Rightarrow> ('d, 'a) action" where
  "fail k m w = (Inl (IoError k m), w)"

definition on_session :: "string \<Rightarrow> (session \<Rightarrow> session) \<Rightarrow> store \<Rightarrow> store" where
  "on_session i f st = st\<lparr>st_sessions := badjust i f (st_sessions st)\<rparr>"

text \<open>Running one operation after another, stopping at the first error: the \<open>?\<close> operator.\<close>

definition and_then :: "('d, 'a) action \<Rightarrow> ('a \<Rightarrow> ('d, 'b) action) \<Rightarrow> ('d, 'b) action" where
  "and_then m f w = (case m w of (Inl e, w') \<Rightarrow> (Inl e, w') | (Inr x, w') \<Rightarrow> f x w')"

definition return :: "'a \<Rightarrow> ('d, 'a) action" where
  "return x w = (Inr x, w)"

section \<open>Identifiers\<close>

definition valid :: "string \<Rightarrow> bool" where
  "valid i \<longleftrightarrow> i \<noteq> [] \<and>
     list_all (\<lambda>b. is_ascii_lowercase b \<or> is_ascii_digit b \<or> b = CHR ''-'') i"

definition is_schedule_session :: "string \<Rightarrow> bool" where
  "is_schedule_session i =
     (case strip_prefix ''schedule-'' i of
        None \<Rightarrow> False
      | Some task \<Rightarrow> task \<noteq> [] \<and> list_all is_ascii_digit task)"

definition reservation_expired :: "u64 option \<Rightarrow> u64 \<Rightarrow> u64 \<Rightarrow> bool" where
  "reservation_expired until updated current =
     (case until of
        None \<Rightarrow> sat_add updated TUI_RESERVATION_TTL \<le> current
      | Some u \<Rightarrow> u \<le> current)"

definition has_live_tui_reservation :: "u64 \<Rightarrow> session \<Rightarrow> bool" where
  "has_live_tui_reservation current s \<longleftrightarrow>
     s_status s = ''working'' \<and> s_inflight s = None \<and>
     \<not> reservation_expired (s_reservation_until s) (s_updated s) current"

definition safe :: string where "safe = ''safe''"

definition user_session_count :: "store \<Rightarrow> nat" where
  "user_session_count st = bcount (\<lambda>s. \<not> s_scheduled s) (st_sessions st)"

definition schedule_session_count :: "store \<Rightarrow> nat" where
  "schedule_session_count st = bcount s_scheduled (st_sessions st)"

definition busy :: "session \<Rightarrow> bool" where
  "busy s \<longleftrightarrow> s_status s = ''working'' \<or> s_inflight s \<noteq> None"

section \<open>Creating, renaming, archiving and removing\<close>

definition new_session :: "string \<Rightarrow> string \<Rightarrow> bool \<Rightarrow> u64 \<Rightarrow> session" where
  "new_session i model scheduled t =
     \<lparr>s_id = i, s_model = model, s_scheduled = scheduled, s_workspace = None, s_archived = False,
      s_channel = None, s_chat = None, s_thread = None, s_private = True, s_messages = [],
      s_compacted_through = None, s_compacted_context = None, s_context_usage = None,
      s_queued = [], s_queue_roles = [], s_inflight = None, s_reservation_until = None,
      s_reservation_owner = None, s_inflight_roles = [], s_stream_delivery = None,
      s_phase = safe, s_status = ''idle'', s_created = t, s_updated = t\<rparr>"

definition create_session :: "'d env \<Rightarrow> string \<Rightarrow> string \<Rightarrow> bool \<Rightarrow> ('d, unit) action" where
  "create_session env i model scheduled w =
     (let st = fst w in
      if \<not> valid i then fail InvalidInput ''Session ID must contain lowercase letters, digits, or hyphens.'' w
      else if is_schedule_session i \<noteq> scheduled then fail InvalidInput ''Scheduled session IDs are reserved.'' w
      else if blank model then fail InvalidInput ''Model must not be empty.'' w
      else if bget (st_sessions st) i \<noteq> None then fail AlreadyExists ''Session already exists.'' w
      else
        (let (cnt, lim, full_message) =
           (if scheduled
            then (schedule_session_count st, SCHEDULE_SESSION_LIMIT, ''Scheduled session capacity is full.'')
            else (user_session_count st, LIMIT, ''Session limit reached; remove an old session first.''))
         in if lim \<le> cnt then fail WouldBlock full_message w
            else change env (\<lambda>st. st\<lparr>st_sessions :=
                   binsert i (new_session i model scheduled (now env 0)) (st_sessions st)\<rparr>) w))"

definition create :: "'d env \<Rightarrow> string \<Rightarrow> string \<Rightarrow> ('d, unit) action" where
  "create env i model = create_session env i model False"

definition create_scheduled :: "'d env \<Rightarrow> string \<Rightarrow> string \<Rightarrow> ('d, unit) action" where
  "create_scheduled env i model = create_session env i model True"

definition ensure :: "'d env \<Rightarrow> string \<Rightarrow> string \<Rightarrow> ('d, unit) action" where
  "ensure env i model w =
     (if bget (st_sessions (fst w)) i = None then create env i model w else return () w)"

definition remove :: "'d env \<Rightarrow> string \<Rightarrow> ('d, unit) action" where
  "remove env i w =
     (case bget (st_sessions (fst w)) i of
        None \<Rightarrow> fail NotFound ''Session was not found.'' w
      | Some s \<Rightarrow>
          if busy s then fail WouldBlock ''Session is working; cancel it and wait before deleting it.'' w
          else change env (\<lambda>st. st\<lparr>st_sessions := bremove i (st_sessions st)\<rparr>) w)"

definition session_catalog :: "string list \<Rightarrow> bool" where
  "session_catalog path \<longleftrightarrow>
     path \<noteq> [] \<and> last path = ''index.json'' \<and> butlast path \<noteq> [] \<and> last (butlast path) = ''sessions''"

definition remove_deep :: "'d env \<Rightarrow> string \<Rightarrow> ('d, unit) action" where
  "remove_deep env i =
     and_then (remove env i) (\<lambda>_ w.
       case st_path (fst w) of
         None \<Rightarrow> return () w
       | Some path \<Rightarrow>
           if session_catalog path
           then (case drop_records env i (snd w) of (r, d') \<Rightarrow> (r, (fst w, d')))
           else return () w)"

text \<open>\<open>Iterator::min_by_key\<close>: the first of the least elements.\<close>

fun min_by_key :: "('a \<Rightarrow> 'b::linorder) \<Rightarrow> 'a list \<Rightarrow> 'a option" where
  "min_by_key f [] = None"
| "min_by_key f (x # xs) =
     (case min_by_key f xs of None \<Rightarrow> Some x | Some y \<Rightarrow> if f x \<le> f y then Some x else Some y)"

definition oldest_idle_schedule :: "store \<Rightarrow> string option" where
  "oldest_idle_schedule st =
     map_option s_id (min_by_key s_updated
       (filter (\<lambda>s. \<not> busy s) (filter s_scheduled (bvalues (st_sessions st)))))"

definition ensure_schedule :: "'d env \<Rightarrow> string \<Rightarrow> string \<Rightarrow> ('d, unit) action" where
  "ensure_schedule env i model w =
     (let st = fst w in
      if \<not> is_schedule_session i then fail InvalidInput ''Scheduled session ID is invalid.'' w
      else (case bget (st_sessions st) i of
              Some s \<Rightarrow>
                if s_scheduled s then return () w
                else fail AlreadyExists ''Session ID is already used by a non-scheduled session.'' w
            | None \<Rightarrow>
                if SCHEDULE_SESSION_LIMIT \<le> schedule_session_count st
                then (case oldest_idle_schedule st of
                        None \<Rightarrow> fail WouldBlock ''Scheduled session capacity is full.'' w
                      | Some oldest \<Rightarrow>
                          and_then (remove_deep env oldest) (\<lambda>_. create_scheduled env i model) w)
                else create_scheduled env i model w))"

definition retarget :: "string \<Rightarrow> message \<Rightarrow> message" where
  "retarget i m = m\<lparr>m_session := i\<rparr>"

definition renamed :: "string \<Rightarrow> u64 \<Rightarrow> session \<Rightarrow> session" where
  "renamed target t s = s\<lparr>s_id := target, s_updated := t,
     s_messages := map (retarget target) (s_messages s),
     s_queued := map (retarget target) (s_queued s),
     s_inflight := map_option (retarget target) (s_inflight s)\<rparr>"

definition rename_session :: "'d env \<Rightarrow> string \<Rightarrow> string \<Rightarrow> ('d, unit) action" where
  "rename_session env source target w =
     (let st = fst w in
      if \<not> valid source \<or> \<not> valid target \<or> source = target
      then fail InvalidInput ''Session ID is invalid.'' w
      else if bget (st_sessions st) target \<noteq> None then fail AlreadyExists ''Session already exists.'' w
      else (case bget (st_sessions st) source of
              None \<Rightarrow> fail NotFound ''Session was not found.'' w
            | Some s \<Rightarrow>
                if s_scheduled s then fail InvalidInput ''A scheduled session cannot be renamed.'' w
                else if is_schedule_session target
                then fail InvalidInput ''Scheduled session IDs are reserved.'' w
                else if s_channel s \<noteq> None
                then fail InvalidInput ''A channel-backed session cannot be renamed.'' w
                else if busy s then fail WouldBlock ''A working session cannot be renamed.'' w
                else change env (\<lambda>st. st\<lparr>st_sessions :=
                       binsert target (renamed target (now env 0) s) (bremove source (st_sessions st))\<rparr>) w))"

definition archive_session :: "'d env \<Rightarrow> string \<Rightarrow> bool \<Rightarrow> ('d, unit) action" where
  "archive_session env i archived w =
     (case bget (st_sessions (fst w)) i of
        None \<Rightarrow> fail NotFound ''Session was not found.'' w
      | Some s \<Rightarrow>
          if busy s then fail WouldBlock ''A working session cannot be archived.'' w
          else change env (on_session i (\<lambda>s. s\<lparr>s_archived := archived, s_updated := now env 0\<rparr>)) w)"

definition route :: "'d env \<Rightarrow> string \<Rightarrow> string \<Rightarrow> string \<Rightarrow> string option \<Rightarrow> bool \<Rightarrow> ('d, unit) action" where
  "route env i channel chat thread private w =
     (if bget (st_sessions (fst w)) i = None then fail NotFound ''Session was not found.'' w
      else change env (on_session i (\<lambda>s. s\<lparr>s_channel := Some channel, s_chat := Some chat,
             s_thread := thread, s_private := private\<rparr>)) w)"

text \<open>\<open>Store::fork\<close>.\<close>

definition forked :: "string \<Rightarrow> u64 \<Rightarrow> session \<Rightarrow> session" where
  "forked target t s =
     \<lparr>s_id = target, s_model = s_model s, s_scheduled = False, s_workspace = s_workspace s,
      s_archived = False, s_channel = s_channel s, s_chat = s_chat s, s_thread = s_thread s,
      s_private = s_private s, s_messages = map (retarget target) (s_messages s),
      s_compacted_through = s_compacted_through s,
      s_compacted_context = map_option (map (retarget target)) (s_compacted_context s),
      s_context_usage = s_context_usage s, s_queued = [], s_queue_roles = [], s_inflight = None,
      s_reservation_until = None, s_reservation_owner = None, s_inflight_roles = [],
      s_stream_delivery = None, s_phase = safe, s_status = ''idle'', s_created = t, s_updated = t\<rparr>"

definition fork :: "'d env \<Rightarrow> string \<Rightarrow> string \<Rightarrow> ('d, unit) action" where
  "fork env source target w =
     (let st = fst w in
      if \<not> valid target
      then fail InvalidInput ''Session ID must contain lowercase letters, digits, or hyphens.'' w
      else if bget (st_sessions st) target \<noteq> None then fail AlreadyExists ''Session already exists.'' w
      else (case bget (st_sessions st) source of
              None \<Rightarrow> fail NotFound ''Source session was not found.'' w
            | Some s \<Rightarrow>
                if is_schedule_session target
                then fail InvalidInput ''Scheduled session IDs are reserved.'' w
                else if LIMIT \<le> user_session_count st
                then fail WouldBlock ''Session capacity is full.'' w
                else change env (\<lambda>st. st\<lparr>st_sessions :=
                       binsert target (forked target (now env 0) s) (st_sessions st)\<rparr>) w))"

end
