(* ===== verification/Turn_Store.thy ===== *)
theory Turn_Store
  imports Session_Store
begin

text \<open>
  The turn operations of \<open>Store\<close> in \<open>krabb-runtime/src/state.rs\<close>: the transcript, the
  queue, the lease of the active turn (\<open>inflight\<close> and \<open>phase\<close>), the reservation a terminal
  client holds, and the settings of a session.
\<close>

definition session_missing :: "('d, 'a) action" where
  "session_missing = fail NotFound ''Session was not found.''"

section \<open>Transcript\<close>

definition pushed :: "'d env \<Rightarrow> message \<Rightarrow> bool \<Rightarrow> bool \<Rightarrow> session \<Rightarrow> session" where
  "pushed env m resume_cancelled preserve_working s =
     (let s1 = s\<lparr>s_messages := compact_messages (s_messages s @ [m]), s_updated := now env 0\<rparr> in
      if preserve_working
      then (let s2 = s1\<lparr>s_status := ''working''\<rparr> in
            if s_reservation_until s2 \<noteq> None
            then s2\<lparr>s_reservation_until := Some (sat_add (now env 1) TUI_RESERVATION_TTL)\<rparr>
            else s2)
      else if s_status s1 \<noteq> ''cancelled'' \<or> resume_cancelled
      then s1\<lparr>s_status := ''idle'', s_reservation_until := None, s_reservation_owner := None\<rparr>
      else s1)"

definition push_with_status :: "'d env \<Rightarrow> string \<Rightarrow> message \<Rightarrow> bool \<Rightarrow> bool \<Rightarrow> ('d, unit) action" where
  "push_with_status env i m resume_cancelled preserve_working w =
     (if bget (st_sessions (fst w)) i = None then session_missing w
      else change env (on_session i (pushed env m resume_cancelled preserve_working)) w)"

definition push :: "'d env \<Rightarrow> string \<Rightarrow> message \<Rightarrow> ('d, unit) action" where
  "push env i m = push_with_status env i m False False"

definition append_message :: "'d env \<Rightarrow> string \<Rightarrow> message \<Rightarrow> ('d, unit) action" where
  "append_message env i m = push_with_status env i m True False"

definition append_notice :: "'d env \<Rightarrow> string \<Rightarrow> message \<Rightarrow> ('d, unit) action" where
  "append_notice env i m w =
     (if bget (st_sessions (fst w)) i = None \<or> m_session m \<noteq> i
      then fail NotFound ''Originating session was not found.'' w
      else change env (on_session i (\<lambda>s. s\<lparr>s_messages := compact_messages (s_messages s @ [m]),
             s_updated := now env 0\<rparr>)) w)"

definition holds_reservation :: "string \<Rightarrow> session \<Rightarrow> bool" where
  "holds_reservation owner s \<longleftrightarrow>
     s_inflight s = None \<and> s_status s = ''working'' \<and> s_reservation_owner s = Some owner"

definition append_reserved :: "'d env \<Rightarrow> string \<Rightarrow> string \<Rightarrow> message \<Rightarrow> ('d, unit) action" where
  "append_reserved env i owner m w =
     (case bget (st_sessions (fst w)) i of
        None \<Rightarrow> session_missing w
      | Some s \<Rightarrow>
          if \<not> holds_reservation owner s then fail WouldBlock ''Session reservation is unavailable.'' w
          else push_with_status env i m True True w)"

definition set_compacted_context_reserved ::
  "'d env \<Rightarrow> string \<Rightarrow> string \<Rightarrow> message list \<Rightarrow> ('d, unit) action" where
  "set_compacted_context_reserved env i owner context w =
     (case bget (st_sessions (fst w)) i of
        None \<Rightarrow> session_missing w
      | Some s \<Rightarrow>
          if \<not> holds_reservation owner s \<or> list_ex (\<lambda>m. m_session m \<noteq> i) context
          then fail WouldBlock ''Session reservation is unavailable.'' w
          else change env (on_session i (\<lambda>s. s\<lparr>
             s_compacted_through := (if s_messages s = [] then None else Some (m_id (last (s_messages s)))),
             s_compacted_context := Some context, s_context_usage := None,
             s_updated := now env 0\<rparr>)) w)"

definition clear_history :: "'d env \<Rightarrow> string \<Rightarrow> ('d, unit) action" where
  "clear_history env i w =
     (if bget (st_sessions (fst w)) i = None then session_missing w
      else change env (on_session i (\<lambda>s. s\<lparr>s_messages := [], s_compacted_through := None,
             s_compacted_context := None, s_context_usage := None, s_updated := now env 0\<rparr>)) w)"

section \<open>The queue\<close>

definition enqueued :: "'d env \<Rightarrow> message \<Rightarrow> string list \<Rightarrow> session \<Rightarrow> session" where
  "enqueued env m roles s =
     (let s1 = s\<lparr>s_queue_roles := (if roles = [] then bremove (m_id m) (s_queue_roles s)
                                  else binsert (m_id m) roles (s_queue_roles s)),
                s_queued := s_queued s @ [m]\<rparr>;
          s2 = (if s_status s1 = ''cancelled''
                then s1\<lparr>s_status := ''idle'', s_reservation_until := None, s_reservation_owner := None\<rparr>
                else s1)
      in s2\<lparr>s_updated := now env 0\<rparr>)"

definition queue_with_roles :: "'d env \<Rightarrow> string \<Rightarrow> message \<Rightarrow> string list \<Rightarrow> ('d, unit) action" where
  "queue_with_roles env i m roles w =
     (case bget (st_sessions (fst w)) i of
        None \<Rightarrow> session_missing w
      | Some s \<Rightarrow>
          if list_ex (\<lambda>q. m_id q = m_id m) (s_queued s) then return () w
          else if LIMIT \<le> length (s_queued s) + (if s_inflight s \<noteq> None then 1 else 0)
          then fail WouldBlock ''Session queue is full; no message was discarded.'' w
          else change env (on_session i (enqueued env m roles)) w)"

section \<open>The turn lease\<close>

text \<open>\<open>seen_key\<close>: the channel and the event id around a zero byte, hashed when too long.\<close>

definition SEEN_KEY_LIMIT :: nat where "SEEN_KEY_LIMIT = 4 * 1024"

definition seen_key :: "(string \<Rightarrow> string) \<Rightarrow> string \<Rightarrow> string \<Rightarrow> string" where
  "seen_key sha channel i =
     (let key = channel @ [CHR 0x00] @ i in
      if length key \<le> SEEN_KEY_LIMIT then key else ''#oversized:'' @ sha key)"

text \<open>Whether an event carries the given id, as a number or as text.\<close>

definition event_has_id :: "string \<Rightarrow> json \<Rightarrow> bool" where
  "event_has_id i event \<longleftrightarrow>
     (case as_i64 (json_index event ''id'') of None \<Rightarrow> False | Some v \<Rightarrow> show_int v = i)
     \<or> as_str (json_index event ''id'') = Some i"

definition drop_deferred :: "string \<Rightarrow> string \<Rightarrow> store \<Rightarrow> store" where
  "drop_deferred channel i st =
     (case bget (st_deferred st) channel of
        None \<Rightarrow> st
      | Some events \<Rightarrow>
          (let kept = filter (\<lambda>e. \<not> event_has_id i e) events in
           st\<lparr>st_deferred := (if kept = [] then bremove channel (st_deferred st)
                              else badjust channel (\<lambda>_. kept) (st_deferred st))\<rparr>))"

definition begun :: "'d env \<Rightarrow> message \<Rightarrow> string list \<Rightarrow> session \<Rightarrow> session" where
  "begun env m roles s =
     (let queued_roles = (case bget (s_queue_roles s) (m_id m) of None \<Rightarrow> [] | Some r \<Rightarrow> r) in
      s\<lparr>s_queued := remove_first (\<lambda>q. m_id q = m_id m) (s_queued s),
        s_queue_roles := bremove (m_id m) (s_queue_roles s),
        s_messages := (if list_ex (\<lambda>x. m_id x = m_id m) (s_messages s) then s_messages s
                       else compact_messages (s_messages s @ [m])),
        s_inflight := Some m,
        s_inflight_roles := (if roles = [] then queued_roles else roles),
        s_stream_delivery := None, s_phase := safe, s_status := ''working'',
        s_reservation_until := None, s_reservation_owner := None, s_updated := now env 1\<rparr>)"

definition begin_with_roles_clearing_deferred ::
  "'d env \<Rightarrow> string \<Rightarrow> message \<Rightarrow> string list \<Rightarrow> string option \<Rightarrow> ('d, unit) action" where
  "begin_with_roles_clearing_deferred env i m roles channel w =
     (case bget (st_sessions (fst w)) i of
        None \<Rightarrow> session_missing w
      | Some s \<Rightarrow>
          if has_live_tui_reservation (now env 0) s \<or> s_inflight s \<noteq> None
             \<or> s_status s = ''working'' \<and> \<not> list_ex (\<lambda>q. m_id q = m_id m) (s_queued s)
          then fail WouldBlock ''Session is already working.'' w
          else change env (\<lambda>st.
            (let st1 = (case channel of None \<Rightarrow> st | Some c \<Rightarrow>
                   (let st0 = drop_deferred c (m_id m) st in
                    st0\<lparr>st_deferred_acknowledged :=
                       bremove (seen_key (digest env) c (m_id m)) (st_deferred_acknowledged st0)\<rparr>))
             in on_session i (begun env m roles) st1)) w)"

definition begin_with_roles :: "'d env \<Rightarrow> string \<Rightarrow> message \<Rightarrow> string list \<Rightarrow> ('d, unit) action" where
  "begin_with_roles env i m roles = begin_with_roles_clearing_deferred env i m roles None"

definition begin_queued_with_roles ::
  "'d env \<Rightarrow> string \<Rightarrow> message \<Rightarrow> string list \<Rightarrow> string \<Rightarrow> ('d, unit) action" where
  "begin_queued_with_roles env i m roles channel =
     begin_with_roles_clearing_deferred env i m roles (Some channel)"

text \<open>\<open>Store::clear\<close>: ends the turn and leaves an unfinished streamed delivery uncertain.\<close>

definition cleared :: "'d env \<Rightarrow> string \<Rightarrow> session \<Rightarrow> session" where
  "cleared env status s =
     (let s1 = s\<lparr>s_stream_delivery := None, s_inflight := None, s_inflight_roles := []\<rparr>;
          s2 = (if status = ''cancelled'' then s1\<lparr>s_queued := [], s_queue_roles := []\<rparr> else s1)
      in s2\<lparr>s_phase := safe, s_status := status, s_reservation_until := None,
           s_reservation_owner := None, s_updated := now env 0\<rparr>)"

definition streaming_ended :: "u64 \<Rightarrow> delivery \<Rightarrow> delivery" where
  "streaming_ended t d =
     (if d_status d = Sending \<or> d_status d = Streaming
      then d\<lparr>d_status := Uncertain,
             d_last_error := Some ''The turn ended before streaming completed.'', d_updated := t\<rparr>
      else d)"

definition clear :: "'d env \<Rightarrow> string \<Rightarrow> string \<Rightarrow> ('d, unit) action" where
  "clear env i status w =
     (if bget (st_sessions (fst w)) i = None then session_missing w
      else change env (\<lambda>st.
        (case bget (st_sessions st) i of
           None \<Rightarrow> st
         | Some s \<Rightarrow>
             (let st1 = on_session i (cleared env status) st in
              case s_stream_delivery s of
                None \<Rightarrow> st1
              | Some delivery_id \<Rightarrow>
                  st1\<lparr>st_outbox := update_first (\<lambda>d. d_id d = delivery_id)
                        (streaming_ended (now env 1)) (st_outbox st1)\<rparr>))) w)"

definition status_set :: "'d env \<Rightarrow> string \<Rightarrow> session \<Rightarrow> session" where
  "status_set env status s =
     (if s_status s = ''cancelled'' \<and> s_inflight s \<noteq> None \<and> status \<noteq> ''cancelled'' then s
      else
        (let s1 = (if status = ''cancelled'' then s\<lparr>s_queued := [], s_queue_roles := []\<rparr> else s);
             s2 = s1\<lparr>s_status := status\<rparr>;
             s3 = (if status \<noteq> ''working''
                   then s2\<lparr>s_reservation_until := None, s_reservation_owner := None\<rparr> else s2)
         in s3\<lparr>s_updated := now env 0\<rparr>))"

definition set_status :: "'d env \<Rightarrow> string \<Rightarrow> string \<Rightarrow> ('d, unit) action" where
  "set_status env i status w =
     (if bget (st_sessions (fst w)) i = None then session_missing w
      else change env (on_session i (status_set env status)) w)"

definition cancel :: "'d env \<Rightarrow> string \<Rightarrow> ('d, unit) action" where
  "cancel env i w =
     (let active = (case bget (st_sessions (fst w)) i of None \<Rightarrow> False | Some s \<Rightarrow> s_inflight s \<noteq> None)
      in if active then set_status env i ''cancelled'' w else clear env i ''cancelled'' w)"

definition set_phase :: "'d env \<Rightarrow> string \<Rightarrow> string \<Rightarrow> ('d, unit) action" where
  "set_phase env i ph w =
     (if ph \<noteq> ''safe'' \<and> ph \<noteq> ''unsafe'' then fail InvalidInput ''Lease phase is invalid.'' w
      else (case bget (st_sessions (fst w)) i of
              None \<Rightarrow> session_missing w
            | Some s \<Rightarrow>
                if s_inflight s = None \<and> \<not> has_live_tui_reservation (now env 0) s
                then fail InvalidInput ''Session has no active turn lease.'' w
                else change env (on_session i (\<lambda>s. s\<lparr>s_phase := ph, s_updated := now env 1\<rparr>)) w))"

section \<open>Reservations\<close>

definition reserve :: "'d env \<Rightarrow> string \<Rightarrow> string \<Rightarrow> ('d, unit) action" where
  "reserve env i owner w =
     (case bget (st_sessions (fst w)) i of
        None \<Rightarrow> session_missing w
      | Some s \<Rightarrow>
          if s_inflight s \<noteq> None \<or> s_status s = ''working''
          then fail WouldBlock ''Session is already working.'' w
          else change env (on_session i (\<lambda>s. s\<lparr>s_status := ''working'',
                 s_reservation_until := Some (sat_add (now env 0) TUI_RESERVATION_TTL),
                 s_reservation_owner := Some owner, s_updated := now env 1\<rparr>)) w)"

definition lapsed :: "u64 \<Rightarrow> session \<Rightarrow> bool" where
  "lapsed current s \<longleftrightarrow>
     s_status s = ''working'' \<and> s_inflight s = None
     \<and> reservation_expired (s_reservation_until s) (s_updated s) current"

definition recover_reservations :: "'d env \<Rightarrow> ('d, unit) action" where
  "recover_reservations env w =
     (let current = now env 0 in
      if \<not> list_ex (lapsed current) (bvalues (st_sessions (fst w))) then return () w
      else change env (\<lambda>st. st\<lparr>st_sessions := bmap_values (\<lambda>s.
             if lapsed current s
             then s\<lparr>s_status := ''idle'', s_reservation_until := None, s_reservation_owner := None,
                    s_updated := current\<rparr>
             else s) (st_sessions st)\<rparr>) w)"

definition renew_reservation :: "'d env \<Rightarrow> string \<Rightarrow> string \<Rightarrow> ('d, unit) action" where
  "renew_reservation env i owner w =
     (case bget (st_sessions (fst w)) i of
        None \<Rightarrow> session_missing w
      | Some s \<Rightarrow>
          if s_status s \<noteq> ''working'' \<or> s_inflight s \<noteq> None \<or> s_reservation_until s = None
             \<or> s_reservation_owner s \<noteq> Some owner
          then fail WouldBlock ''Session reservation is unavailable.'' w
          else change env (on_session i (\<lambda>s. s\<lparr>
                 s_reservation_until := Some (sat_add (now env 0) TUI_RESERVATION_TTL)\<rparr>)) w)"

section \<open>Settings\<close>

definition set_model :: "'d env \<Rightarrow> string \<Rightarrow> string \<Rightarrow> ('d, unit) action" where
  "set_model env i model w =
     (if blank model then fail InvalidInput ''Model must not be empty.'' w
      else if bget (st_sessions (fst w)) i = None then session_missing w
      else change env (on_session i (\<lambda>s. s\<lparr>s_model := model, s_context_usage := None,
             s_updated := now env 0\<rparr>)) w)"

definition set_context_usage :: "'d env \<Rightarrow> string \<Rightarrow> context_usage \<Rightarrow> ('d, unit) action" where
  "set_context_usage env i usage w =
     (if u_limit usage = 0 then fail InvalidInput ''Context usage is invalid.'' w
      else if bget (st_sessions (fst w)) i = None then session_missing w
      else change env (on_session i (\<lambda>s. s\<lparr>s_context_usage := Some usage, s_updated := now env 0\<rparr>)) w)"

definition set_workspace :: "'d env \<Rightarrow> string \<Rightarrow> string option \<Rightarrow> ('d, unit) action" where
  "set_workspace env i workspace w =
     (if (case workspace of None \<Rightarrow> False | Some p \<Rightarrow> blank p \<or> 4096 < length p)
      then fail InvalidInput ''Workspace path is invalid.'' w
      else (case bget (st_sessions (fst w)) i of
              None \<Rightarrow> session_missing w
            | Some s \<Rightarrow>
                if s_inflight s \<noteq> None \<or> s_status s = ''working''
                then fail WouldBlock ''A working session cannot change its workspace.'' w
                else change env (on_session i (\<lambda>s. s\<lparr>s_workspace := workspace,
                       s_updated := now env 0\<rparr>)) w))"

end
