(* ===== verification/Delivery_Store.thy ===== *)
theory Delivery_Store
  imports Turn_Store "HOL-Library.Product_Lexorder"
begin

text \<open>
  The outbox and the event bookkeeping of \<open>Store\<close> in \<open>krabb-runtime/src/state.rs\<close>: queued
  and streamed deliveries, the reply that ends a turn, acknowledgement, retry and the dead
  letters; the channel offsets, the set of seen events and the deferred events.
\<close>

section \<open>Deliveries\<close>

definition outbox_full :: string where
  "outbox_full = ''Delivery outbox is full; no message was discarded.''"

definition has_delivery :: "string \<Rightarrow> store \<Rightarrow> bool" where
  "has_delivery i st \<longleftrightarrow> list_ex (\<lambda>d. d_id d = i) (st_outbox st)"

definition find_delivery :: "string \<Rightarrow> store \<Rightarrow> delivery option" where
  "find_delivery i st = List.find (\<lambda>d. d_id d = i) (st_outbox st)"

definition new_delivery :: "string \<Rightarrow> string \<Rightarrow> string \<Rightarrow> bool \<Rightarrow> string option \<Rightarrow> string \<Rightarrow>
    delivery_status \<Rightarrow> u64 \<Rightarrow> u64 \<Rightarrow> delivery" where
  "new_delivery i channel chat private thread text status created updated =
     \<lparr>d_id = i, d_channel = channel, d_chat = chat, d_private = private, d_thread = thread,
      d_text = text, d_attempts = 0, d_created = created, d_status = status,
      d_last_error = None, d_message_id = None, d_updated = updated\<rparr>"

definition queue_delivery :: "'d env \<Rightarrow> string \<Rightarrow> string \<Rightarrow> string \<Rightarrow> bool \<Rightarrow> string option \<Rightarrow> string \<Rightarrow>
    ('d, unit) action" where
  "queue_delivery env i channel chat private thread text w =
     (if LIMIT \<le> length (st_outbox (fst w)) then fail WouldBlock outbox_full w
      else change env (\<lambda>st.
        if \<not> has_delivery i st
        then st\<lparr>st_outbox := st_outbox st
               @ [new_delivery i channel chat private thread text Pending (now env 0) (now env 1)]\<rparr>
        else st) w)"

text \<open>\<open>Store::reply\<close>: the transcript, the end of the lease and the delivery in one update.\<close>

definition replied :: "'d env \<Rightarrow> message \<Rightarrow> session \<Rightarrow> session" where
  "replied env m s = s\<lparr>s_messages := compact_messages (s_messages s @ [m]), s_updated := now env 0,
     s_status := ''idle'', s_reservation_until := None, s_reservation_owner := None,
     s_inflight := None, s_inflight_roles := [], s_stream_delivery := None, s_phase := safe\<rparr>"

definition completed :: "'d env \<Rightarrow> string \<Rightarrow> string \<Rightarrow> bool \<Rightarrow> string option \<Rightarrow> string \<Rightarrow> bool \<Rightarrow>
    string option \<Rightarrow> delivery \<Rightarrow> delivery" where
  "completed env channel chat private thread text uncertain message_id d =
     d\<lparr>d_channel := channel, d_chat := chat, d_private := private, d_thread := thread,
       d_text := text, d_status := (if uncertain then Uncertain else Pending),
       d_last_error := (if uncertain then d_last_error d else None),
       d_message_id := message_id, d_updated := now env 1\<rparr>"

definition reply :: "'d env \<Rightarrow> string \<Rightarrow> message \<Rightarrow> string \<Rightarrow> string \<Rightarrow> string \<Rightarrow> string option \<Rightarrow> string \<Rightarrow>
    ('d, unit) action" where
  "reply env sid m i channel chat thread text w =
     (let st = fst w in
      case bget (st_sessions st) sid of
        None \<Rightarrow> session_missing w
      | Some s \<Rightarrow>
          (let private = s_private s;
               uncertain = list_ex (\<lambda>d. d_id d = i \<and> (d_status d = Sending \<or> d_status d = Uncertain)) (st_outbox st);
               completing = (s_stream_delivery s = Some i);
               message_id = (if completing
                             then Option.bind (find_delivery i st) d_message_id else None)
           in if \<not> has_delivery i st \<and> LIMIT \<le> length (st_outbox st) then fail WouldBlock outbox_full w
              else change env (\<lambda>st.
                (let st1 = on_session sid (replied env m) st in
                 if has_delivery i st1
                 then (if completing
                       then st1\<lparr>st_outbox := update_first (\<lambda>d. d_id d = i)
                              (completed env channel chat private thread text uncertain message_id) (st_outbox st1)\<rparr>
                       else st1)
                 else st1\<lparr>st_outbox := st_outbox st1
                        @ [new_delivery i channel chat private thread text Pending (now env 2) (now env 3)]\<rparr>)) w))"

definition start_stream :: "'d env \<Rightarrow> string \<Rightarrow> string \<Rightarrow> string \<Rightarrow> string \<Rightarrow> string option \<Rightarrow> string \<Rightarrow>
    ('d, unit) action" where
  "start_stream env sid i channel chat thread text w =
     (let st = fst w in
      case bget (st_sessions st) sid of
        None \<Rightarrow> session_missing w
      | Some s \<Rightarrow>
          if s_inflight s = None \<or> s_stream_delivery s \<noteq> None
          then fail WouldBlock ''Session cannot start a streamed delivery.'' w
          else if has_delivery i st then fail AlreadyExists ''Streamed delivery already exists.'' w
          else if LIMIT \<le> length (st_outbox st) then fail WouldBlock outbox_full w
          else change env (\<lambda>st.
            (let st1 = on_session sid (\<lambda>s. s\<lparr>s_phase := ''unsafe'', s_stream_delivery := Some i,
                    s_updated := now env 0\<rparr>) st
             in st1\<lparr>st_outbox := st_outbox st1
                  @ [new_delivery i channel chat (s_private s) thread text Sending (now env 1) (now env 2)]\<rparr>)) w)"

definition update_delivery :: "'d env \<Rightarrow> string \<Rightarrow> (delivery \<Rightarrow> delivery) \<Rightarrow> ('d, unit) action" where
  "update_delivery env i f w =
     (if \<not> has_delivery i (fst w) then fail NotFound ''Delivery was not found.'' w
      else change env (\<lambda>st. st\<lparr>st_outbox := update_first (\<lambda>d. d_id d = i) f (st_outbox st)\<rparr>) w)"

definition stream_sending :: "'d env \<Rightarrow> string \<Rightarrow> string \<Rightarrow> ('d, unit) action" where
  "stream_sending env i text = update_delivery env i (\<lambda>d. d\<lparr>d_text := text, d_status := Sending,
     d_last_error := None, d_updated := now env 0\<rparr>)"

definition stream_started :: "'d env \<Rightarrow> string \<Rightarrow> string \<Rightarrow> ('d, unit) action" where
  "stream_started env i message_id = update_delivery env i (\<lambda>d. d\<lparr>d_message_id := Some message_id,
     d_status := Streaming, d_last_error := None, d_updated := now env 0\<rparr>)"

definition stream_updated :: "'d env \<Rightarrow> string \<Rightarrow> ('d, unit) action" where
  "stream_updated env i = update_delivery env i (\<lambda>d. d\<lparr>d_status := Streaming,
     d_last_error := None, d_updated := now env 0\<rparr>)"

definition sending :: "'d env \<Rightarrow> string \<Rightarrow> ('d, unit) action" where
  "sending env i = update_delivery env i (\<lambda>d. d\<lparr>d_status := Sending, d_last_error := None,
     d_updated := now env 0\<rparr>)"

definition mark_uncertain :: "'d env \<Rightarrow> string \<Rightarrow> string \<Rightarrow> ('d, unit) action" where
  "mark_uncertain env i err = update_delivery env i (\<lambda>d. d\<lparr>d_status := Uncertain,
     d_last_error := Some err, d_updated := now env 0\<rparr>)"

definition retry_delivery :: "'d env \<Rightarrow> string \<Rightarrow> ('d, unit) action" where
  "retry_delivery env i w =
     (case find_delivery i (fst w) of
        None \<Rightarrow> fail NotFound ''Delivery was not found.'' w
      | Some d \<Rightarrow>
          if d_status d \<noteq> Uncertain
          then fail InvalidInput ''Only uncertain deliveries can be retried.'' w
          else update_delivery env i (\<lambda>d. d\<lparr>d_status := Pending, d_last_error := None,
                 d_updated := now env 0\<rparr>) w)"

text \<open>\<open>Store::ack\<close> removes the delivery at its position, the first with the id.\<close>

definition ack :: "'d env \<Rightarrow> string \<Rightarrow> ('d, unit) action" where
  "ack env i w =
     (case position (\<lambda>d. d_id d = i) (st_outbox (fst w)) of
        None \<Rightarrow> return () w
      | Some k \<Rightarrow> change env (\<lambda>st. st\<lparr>st_outbox := take k (st_outbox st) @ drop (k + 1) (st_outbox st)\<rparr>) w)"

definition buried :: "string \<Rightarrow> store \<Rightarrow> store" where
  "buried i st =
     (case find_delivery i st of
        None \<Rightarrow> st
      | Some d \<Rightarrow> st\<lparr>st_outbox := remove_first (\<lambda>d. d_id d = i) (st_outbox st),
                    st_dead := keep_last LIMIT (st_dead st @ [d])\<rparr>)"

definition dead :: "'d env \<Rightarrow> string \<Rightarrow> ('d, unit) action" where
  "dead env i w =
     (if \<not> has_delivery i (fst w) then return () w else change env (buried i) w)"

definition drop_delivery :: "'d env \<Rightarrow> string \<Rightarrow> ('d, unit) action" where
  "drop_delivery env i w =
     (if \<not> has_delivery i (fst w) then fail NotFound ''Delivery was not found.'' w else dead env i w)"

definition purge :: "'d env \<Rightarrow> bool \<Rightarrow> bool \<Rightarrow> ('d, string list \<times> nat) action" where
  "purge env sessions deliveries w =
     (let st = fst w in
      if sessions \<and> list_ex busy (bvalues (st_sessions st))
      then fail WouldBlock ''A session is working; cancel it and wait before purging sessions.'' w
      else
        (let session_ids = (if sessions then bkeys (st_sessions st) else []);
             delivery_count = (if deliveries then length (st_outbox st) + length (st_dead st) else 0)
         in if session_ids = [] \<and> delivery_count = 0 then return (session_ids, delivery_count) w
            else and_then
              (change env (\<lambda>st.
                (let st1 = (if sessions then st\<lparr>st_sessions := []\<rparr> else st)
                 in if deliveries then st1\<lparr>st_outbox := [], st_dead := []\<rparr> else st1)))
              (\<lambda>_. return (session_ids, delivery_count)) w))"

section \<open>Events\<close>

definition SEEN_LIMIT :: nat where "SEEN_LIMIT = 10000"
definition BYTE_LIMIT :: nat where "BYTE_LIMIT = 32 * 1024 * 1024"

definition channel_offset :: "store \<Rightarrow> string \<Rightarrow> int" where
  "channel_offset st channel = (case bget (st_offsets st) channel of None \<Rightarrow> 0 | Some v \<Rightarrow> v)"

definition known :: "(string \<Rightarrow> string) \<Rightarrow> store \<Rightarrow> string \<Rightarrow> string \<Rightarrow> bool" where
  "known sha st channel i \<longleftrightarrow> bget (st_seen st) (seen_key sha channel i) \<noteq> None"

definition deferred_event :: "store \<Rightarrow> string \<Rightarrow> json option" where
  "deferred_event st channel =
     Option.bind (bget (st_deferred st) channel) (\<lambda>es. if es = [] then None else Some (hd es))"

definition has_deferred_event :: "store \<Rightarrow> string \<Rightarrow> string \<Rightarrow> bool" where
  "has_deferred_event st channel i =
     (case bget (st_deferred st) channel of None \<Rightarrow> False | Some es \<Rightarrow> list_ex (event_has_id i) es)"

definition deferred_acknowledged :: "(string \<Rightarrow> string) \<Rightarrow> store \<Rightarrow> string \<Rightarrow> string \<Rightarrow> bool" where
  "deferred_acknowledged sha st channel i \<longleftrightarrow>
     bget (st_deferred_acknowledged st) (seen_key sha channel i) \<noteq> None"

definition mark_deferred_acknowledged :: "'d env \<Rightarrow> string \<Rightarrow> string \<Rightarrow> ('d, unit) action" where
  "mark_deferred_acknowledged env channel i w =
     (let key = seen_key (digest env) channel i in
      if bget (st_deferred_acknowledged (fst w)) key \<noteq> None \<or> \<not> has_deferred_event (fst w) channel i
      then return () w
      else change env (\<lambda>st. st\<lparr>st_deferred_acknowledged :=
             binsert key () (st_deferred_acknowledged st)\<rparr>) w)"

definition with_deferred :: "string \<Rightarrow> json \<Rightarrow> store \<Rightarrow> store" where
  "with_deferred channel event st = st\<lparr>st_deferred :=
     (case bget (st_deferred st) channel of
        None \<Rightarrow> binsert channel [event] (st_deferred st)
      | Some es \<Rightarrow> badjust channel (\<lambda>_. es @ [event]) (st_deferred st))\<rparr>"

text \<open>The candidate whose printed length is checked is the store with the event appended.\<close>

definition defer_event :: "'d env \<Rightarrow> string \<Rightarrow> json \<Rightarrow> ('d, unit) action" where
  "defer_event env channel event w =
     (let st = fst w;
          events = (case bget (st_deferred st) channel of None \<Rightarrow> [] | Some es \<Rightarrow> es)
      in if list_ex (\<lambda>e. json_index e ''id'' = json_index event ''id'') events then return () w
         else if LIMIT \<le> length events
         then fail WouldBlock ''Deferred channel event limit reached.'' w
         else if BYTE_LIMIT < pretty_len env (with_deferred channel event st)
         then fail WouldBlock ''Deferred channel event storage limit reached.'' w
         else change env (with_deferred channel event) w)"

definition trim_seen :: "(string, u64) bmap \<Rightarrow> string option \<Rightarrow> (string, u64) bmap" where
  "trim_seen seen keep =
     (if length seen \<le> SEEN_LIMIT then seen
      else
        (let excess = length seen - SEEN_LIMIT;
             entries = sort_key (\<lambda>(key, t). (t, key)) (filter (\<lambda>(key, t). Some key \<noteq> keep) seen)
         in fold (\<lambda>(key, t) m. bremove key m) (take excess entries) seen))"

definition commit_event :: "'d env \<Rightarrow> string \<Rightarrow> string \<Rightarrow> int option \<Rightarrow> bool \<Rightarrow> ('d, unit) action" where
  "commit_event env channel i offset retained =
     (let key = seen_key (digest env) channel i in
      change env (\<lambda>st0.
        (let st1 = st0\<lparr>st_seen := binsert key (nanos env) (st_seen st0)\<rparr>;
             st2 = (if retained then st1 else drop_deferred channel i st1);
             st3 = (if retained then st2
                    else st2\<lparr>st_deferred_acknowledged := bremove key (st_deferred_acknowledged st2)\<rparr>);
             st4 = (case offset of
                      None \<Rightarrow> st3
                    | Some v \<Rightarrow> st3\<lparr>st_offsets :=
                        (case bget (st_offsets st3) channel of
                           None \<Rightarrow> binsert channel v (st_offsets st3)
                         | Some cur \<Rightarrow> badjust channel (\<lambda>c. max c v) (st_offsets st3))\<rparr>)
         in st4\<lparr>st_seen := trim_seen (st_seen st4) (Some key)\<rparr>)))"

definition commit :: "'d env \<Rightarrow> string \<Rightarrow> string \<Rightarrow> int option \<Rightarrow> ('d, unit) action" where
  "commit env channel i offset = commit_event env channel i offset False"

definition commit_retained :: "'d env \<Rightarrow> string \<Rightarrow> string \<Rightarrow> int option \<Rightarrow> ('d, unit) action" where
  "commit_retained env channel i offset = commit_event env channel i offset True"

end
