(* ===== verification/Store_Invariant.thy ===== *)
theory Store_Invariant
  imports Delivery_Store
begin

text \<open>
  The invariant of the store and its preservation by every operation. \<open>session_ok\<close> says what
  a session keeps true (identity, bounded transcript and queue, one holder of the turn at a
  time), \<open>store_ok\<close> adds the bounds of the maps and of the outbox. Every operation either
  leaves the store as it was or applies one update through \<open>change\<close>, so preservation is
  proved for the updates and lifted by the rules for \<open>keeps\<close>.
\<close>

section \<open>The transaction\<close>

lemma change_cases:
  "(fst (change env u w) = Inr () \<and> fst (snd (change env u w)) = u (fst w)) \<or>
   (\<exists>e. fst (change env u w) = Inl e \<and> fst (snd (change env u w)) = fst w)"
  by (cases w; cases "save_store env (u (fst w)) (snd w)")
    (auto simp: change_def Let_def split: sum.splits)

definition keeps :: "(store \<Rightarrow> bool) \<Rightarrow> 'd world \<Rightarrow> 'a io_result \<times> 'd world \<Rightarrow> bool" where
  "keeps P w r \<longleftrightarrow> (P (fst w) \<longrightarrow> P (fst (snd r)))"

lemma keeps_change: "(P (fst w) \<Longrightarrow> P (u (fst w))) \<Longrightarrow> keeps P w (change env u w)"
  using change_cases [of env u w] by (auto simp: keeps_def)

lemma keeps_fail [simp]: "keeps P w (fail k m w)"
  by (simp add: keeps_def fail_def)

lemma keeps_return [simp]: "keeps P w (return x w)"
  by (simp add: keeps_def return_def)

lemma keeps_missing [simp]: "keeps P w (session_missing w)"
  by (simp add: session_missing_def)

lemma keeps_trans: "keeps P w (r, w') \<Longrightarrow> keeps P w' q \<Longrightarrow> keeps P w q"
  by (simp add: keeps_def)

lemma keeps_and_then:
  assumes "keeps P w (m w)" and "\<And>x w'. m w = (Inr x, w') \<Longrightarrow> keeps P w' (f x w')"
  shows "keeps P w (and_then m f w)"
proof -
  obtain r w' where m: "m w = (r, w')" by (cases "m w")
  with assms show ?thesis
    by (cases r) (auto simp: keeps_def and_then_def)
qed

section \<open>Sessions\<close>

definition lease_ok :: "session \<Rightarrow> bool" where
  "lease_ok s \<longleftrightarrow>
     (s_reservation_until s = None) = (s_reservation_owner s = None)
     \<and> (s_reservation_owner s \<noteq> None \<longrightarrow> s_status s = ''working'' \<and> s_inflight s = None)
     \<and> (s_stream_delivery s \<noteq> None \<longrightarrow> s_inflight s \<noteq> None)
     \<and> s_phase s \<in> {''safe'', ''unsafe''}"

definition transcript_ok :: "message list \<Rightarrow> bool" where
  "transcript_ok ms \<longleftrightarrow> length ms \<le> message_history_limit \<or> list_all is_system ms"

definition queue_ok :: "session \<Rightarrow> bool" where
  "queue_ok s \<longleftrightarrow> length (s_queued s) \<le> LIMIT \<and> distinct (map m_id (s_queued s))
     \<and> set (bkeys (s_queue_roles s)) \<subseteq> m_id ` set (s_queued s)"

definition session_ok :: "string \<Rightarrow> session \<Rightarrow> bool" where
  "session_ok i s \<longleftrightarrow> s_id s = i \<and> valid i \<and> s_scheduled s = is_schedule_session i
     \<and> transcript_ok (s_messages s) \<and> queue_ok s \<and> lease_ok s"

lemma transcript_ok_compact [simp]: "transcript_ok (compact_messages ms)"
  using compact_messages_bound by (auto simp: transcript_ok_def)

lemma transcript_ok_Nil [simp]: "transcript_ok []"
  by (simp add: transcript_ok_def)

lemma transcript_ok_retarget [simp]: "transcript_ok (map (retarget i) ms) = transcript_ok ms"
  by (simp add: transcript_ok_def list_all_iff retarget_def)

lemma map_id_retarget [simp]: "map m_id (map (retarget i) ms) = map m_id ms"
  by (simp add: retarget_def)

lemma image_id_retarget [simp]: "m_id ` set (map (retarget i) ms) = m_id ` set ms"
  by (auto simp: retarget_def image_iff)

text \<open>One lemma per session update.\<close>

lemma session_ok_new: "valid i \<Longrightarrow> session_ok i (new_session i model (is_schedule_session i) t)"
  by (simp add: session_ok_def new_session_def queue_ok_def lease_ok_def safe_def)

lemma session_ok_renamed:
  "session_ok i s \<Longrightarrow> valid t \<Longrightarrow> is_schedule_session t = s_scheduled s \<Longrightarrow> session_ok t (renamed t n s)"
  unfolding session_ok_def renamed_def queue_ok_def lease_ok_def
  by (simp add: image_image comp_def retarget_def transcript_ok_def list_all_iff)

lemma session_ok_forked:
  "session_ok i s \<Longrightarrow> valid t \<Longrightarrow> \<not> is_schedule_session t \<Longrightarrow> session_ok t (forked t n s)"
  by (simp add: session_ok_def forked_def queue_ok_def lease_ok_def safe_def)

lemma session_ok_pushed: "session_ok i s \<Longrightarrow> session_ok i (pushed env m rc pw s)"
  unfolding pushed_def Let_def
  by (auto simp: session_ok_def queue_ok_def lease_ok_def)

lemma session_ok_enqueued:
  assumes "session_ok i s" and "\<not> list_ex (\<lambda>q. m_id q = m_id m) (s_queued s)"
    and "length (s_queued s) < LIMIT"
  shows "session_ok i (enqueued env m roles s)"
proof -
  have sub: "set (bkeys (bremove (m_id m) (s_queue_roles s))) \<subseteq> m_id ` set (s_queued s)"
    using assms(1) by (auto simp: bremove_def session_ok_def queue_ok_def)
  have q: "queue_ok (enqueued env m roles s)"
    using assms sub
    by (cases "roles = []"; cases "s_status s = ''cancelled''")
      (auto simp: enqueued_def session_ok_def queue_ok_def list_ex_iff binsert_keys)
  have "lease_ok (enqueued env m roles s)"
    using assms(1)
    by (cases "s_status s = ''cancelled''") (auto simp: enqueued_def session_ok_def lease_ok_def)
  moreover have "s_id (enqueued env m roles s) = s_id s" "s_messages (enqueued env m roles s) = s_messages s"
    "s_scheduled (enqueued env m roles s) = s_scheduled s"
    by (cases "s_status s = ''cancelled''"; simp add: enqueued_def Let_def)+
  ultimately show ?thesis using q assms(1) by (simp add: session_ok_def)
qed

lemma queue_ok_take:
  assumes "queue_ok s"
  shows "set (bkeys (bremove a (s_queue_roles s)))
    \<subseteq> m_id ` set (remove_first (\<lambda>q. m_id q = a) (s_queued s))"
proof
  fix k
  assume "k \<in> set (bkeys (bremove a (s_queue_roles s)))"
  then have "k \<noteq> a" and "k \<in> set (bkeys (s_queue_roles s))"
    by (auto simp: bremove_def)
  with assms obtain q where "q \<in> set (s_queued s)" "m_id q = k"
    by (auto simp: queue_ok_def)
  moreover have "remove_first (\<lambda>q. m_id q = a) (s_queued s) = filter (\<lambda>q. m_id q \<noteq> a) (s_queued s)"
    using assms by (intro remove_first_distinct) (simp add: queue_ok_def)
  ultimately show "k \<in> m_id ` set (remove_first (\<lambda>q. m_id q = a) (s_queued s))"
    using \<open>k \<noteq> a\<close> by auto
qed

lemma session_ok_begun: "session_ok i s \<Longrightarrow> session_ok i (begun env m roles s)"
proof -
  assume ok: "session_ok i s"
  then have q: "queue_ok s" by (simp add: session_ok_def)
  have "length (remove_first (\<lambda>q. m_id q = m_id m) (s_queued s)) \<le> LIMIT"
    using q length_remove_first_le [of "\<lambda>q. m_id q = m_id m" "s_queued s"] by (simp add: queue_ok_def)
  moreover have "distinct (map m_id (remove_first (\<lambda>q. m_id q = m_id m) (s_queued s)))"
    using q by (simp add: queue_ok_def distinct_remove_first)
  ultimately show ?thesis
    using ok queue_ok_take [OF q, of "m_id m"]
    by (simp add: session_ok_def begun_def Let_def queue_ok_def lease_ok_def safe_def)
qed

lemma session_ok_cleared: "session_ok i s \<Longrightarrow> session_ok i (cleared env st s)"
  unfolding cleared_def Let_def
  by (auto simp: session_ok_def queue_ok_def lease_ok_def safe_def)

lemma session_ok_status_set: "session_ok i s \<Longrightarrow> session_ok i (status_set env st s)"
  unfolding status_set_def Let_def
  by (auto simp: session_ok_def queue_ok_def lease_ok_def)

lemma session_ok_replied: "session_ok i s \<Longrightarrow> session_ok i (replied env m s)"
  by (simp add: session_ok_def replied_def queue_ok_def lease_ok_def safe_def)

section \<open>The store\<close>

definition sessions_ok :: "(string, session) bmap \<Rightarrow> bool" where
  "sessions_ok m \<longleftrightarrow> bmap_ok m \<and> (\<forall>i s. bget m i = Some s \<longrightarrow> session_ok i s)
     \<and> bcount (\<lambda>s. \<not> s_scheduled s) m \<le> LIMIT \<and> bcount s_scheduled m \<le> SCHEDULE_SESSION_LIMIT"

definition outbox_ok :: "delivery list \<Rightarrow> bool" where
  "outbox_ok ds \<longleftrightarrow> length ds \<le> LIMIT \<and> distinct (map d_id ds)"

definition deferred_ok :: "(string, json list) bmap \<Rightarrow> bool" where
  "deferred_ok m \<longleftrightarrow> bmap_ok m \<and> (\<forall>c es. bget m c = Some es \<longrightarrow> es \<noteq> [] \<and> length es \<le> LIMIT)"

definition store_ok :: "store \<Rightarrow> bool" where
  "store_ok st \<longleftrightarrow> sessions_ok (st_sessions st) \<and> outbox_ok (st_outbox st)
     \<and> length (st_dead st) \<le> LIMIT \<and> deferred_ok (st_deferred st)
     \<and> bmap_ok (st_deferred_acknowledged st) \<and> bmap_ok (st_offsets st)
     \<and> bmap_ok (st_seen st) \<and> length (st_seen st) \<le> SEEN_LIMIT"

lemma store_ok_empty: "store_ok empty_store"
  by (simp add: store_ok_def empty_store_def sessions_ok_def outbox_ok_def deferred_ok_def bcount_def)

lemma sessions_ok_adjust:
  assumes "sessions_ok m" and "\<And>s. bget m i = Some s \<Longrightarrow> session_ok i s \<Longrightarrow> session_ok i (f s)"
  shows "sessions_ok (badjust i f m)"
proof -
  have ok: "bget m i = Some s \<Longrightarrow> session_ok i s \<and> session_ok i (f s)" for s
    using assms by (auto simp: sessions_ok_def)
  then have "bcount (\<lambda>s. \<not> s_scheduled s) (badjust i f m) = bcount (\<lambda>s. \<not> s_scheduled s) m"
    and "bcount s_scheduled (badjust i f m) = bcount s_scheduled m"
    using assms(1)
    by (auto intro!: bcount_adjust_same simp: session_ok_def bmap_ok_distinct sessions_ok_def)
  with assms ok show ?thesis
    by (auto simp: sessions_ok_def bget_adjust)
qed

lemma sessions_ok_insert:
  assumes "sessions_ok m" and "bget m i = None" and "session_ok i s"
    and "s_scheduled s \<Longrightarrow> bcount s_scheduled m < SCHEDULE_SESSION_LIMIT"
    and "\<not> s_scheduled s \<Longrightarrow> bcount (\<lambda>s. \<not> s_scheduled s) m < LIMIT"
  shows "sessions_ok (binsert i s m)"
  using assms
  by (auto simp: sessions_ok_def bmap_ok_insert bget_insert bcount_insert_new)

lemma sessions_ok_remove: "sessions_ok m \<Longrightarrow> sessions_ok (bremove i m)"
  using bcount_remove_le [of "\<lambda>s. \<not> s_scheduled s" i m] bcount_remove_le [of s_scheduled i m]
  by (auto simp: sessions_ok_def bmap_ok_remove bget_remove)

lemma sessions_ok_values:
  assumes "sessions_ok m" and "\<And>i s. session_ok i s \<Longrightarrow> session_ok i (f s)" and "\<And>s. s_scheduled (f s) = s_scheduled s"
  shows "sessions_ok (bmap_values f m)"
  using assms by (auto simp: sessions_ok_def bget_values bcount_values)

lemma store_ok_on_session:
  assumes "store_ok st"
    and "\<And>s. bget (st_sessions st) i = Some s \<Longrightarrow> session_ok i s \<Longrightarrow> session_ok i (f s)"
  shows "store_ok (on_session i f st)"
  using assms by (auto simp: store_ok_def on_session_def sessions_ok_adjust)

lemma keeps_on_session:
  assumes "\<And>s. bget (st_sessions (fst w)) i = Some s \<Longrightarrow> session_ok i s \<Longrightarrow> session_ok i (f s)"
  shows "keeps store_ok w (change env (on_session i f) w)"
  by (rule keeps_change) (rule store_ok_on_session, assumption, rule assms)

lemma outbox_ok_update: "outbox_ok ds \<Longrightarrow> (\<And>d. d_id (f d) = d_id d) \<Longrightarrow> outbox_ok (update_first p f ds)"
  by (simp add: outbox_ok_def)

lemma outbox_ok_append:
  "outbox_ok ds \<Longrightarrow> \<not> list_ex (\<lambda>d. d_id d = i) ds \<Longrightarrow> length ds < LIMIT \<Longrightarrow> d_id d = i \<Longrightarrow> outbox_ok (ds @ [d])"
  by (auto simp: outbox_ok_def list_ex_iff)

lemma outbox_ok_remove_first: "outbox_ok ds \<Longrightarrow> outbox_ok (remove_first p ds)"
  using length_remove_first_le [of p ds] by (auto simp: outbox_ok_def distinct_remove_first)

lemma position_split: "position p ds = Some k \<Longrightarrow> take k ds @ drop (Suc k) ds = remove_first p ds"
  by (induction ds arbitrary: k) (auto split: if_splits)


section \<open>Every operation keeps the invariant\<close>

lemma store_ok_insert_new:
  assumes "store_ok st" "valid i" "bget (st_sessions st) i = None" "is_schedule_session i = sch"
    and "sch \<Longrightarrow> schedule_session_count st < SCHEDULE_SESSION_LIMIT"
    and "\<not> sch \<Longrightarrow> user_session_count st < LIMIT"
  shows "store_ok (st\<lparr>st_sessions := binsert i (new_session i model sch t) (st_sessions st)\<rparr>)"
proof -
  have "session_ok i (new_session i model sch t)"
    using assms(2,4) session_ok_new by blast
  moreover have "s_scheduled (new_session i model sch t) = sch" by (simp add: new_session_def)
  ultimately have "sessions_ok (binsert i (new_session i model sch t) (st_sessions st))"
    using assms by (intro sessions_ok_insert)
      (auto simp: store_ok_def schedule_session_count_def user_session_count_def)
  with assms(1) show ?thesis by (simp add: store_ok_def)
qed

lemma keeps_create_session: "keeps store_ok w (create_session env i model sch w)"
  by (cases sch) (auto simp: create_session_def Let_def not_le intro!: keeps_change store_ok_insert_new)

lemma keeps_remove: "keeps store_ok w (remove env i w)"
  by (auto simp: remove_def store_ok_def sessions_ok_remove intro!: keeps_change split: option.splits)

lemma keeps_remove_deep: "keeps store_ok w (remove_deep env i w)"
  unfolding remove_deep_def
  by (rule keeps_and_then [OF keeps_remove])
    (auto simp: keeps_def return_def split: option.splits prod.splits)

lemma keeps_ensure: "keeps store_ok w (ensure env i model w)"
  by (auto simp: ensure_def create_def keeps_create_session)

lemma keeps_ensure_schedule: "keeps store_ok w (ensure_schedule env i model w)"
  by (auto simp: ensure_schedule_def Let_def create_scheduled_def keeps_create_session
      intro!: keeps_and_then keeps_remove_deep split: option.splits)

lemma keeps_rename_session: "keeps store_ok w (rename_session env source target w)"
proof -
  have *: "store_ok (st\<lparr>st_sessions := binsert target (renamed target t s) (bremove source (st_sessions st))\<rparr>)"
    if ok: "store_ok st" and v: "valid target" and n: "source \<noteq> target" and none: "bget (st_sessions st) target = None"
      and src: "bget (st_sessions st) source = Some s" and ns: "\<not> s_scheduled s" "\<not> is_schedule_session target"
    for st t s
  proof -
    have sok: "sessions_ok (st_sessions st)" using ok by (simp add: store_ok_def)
    then have "session_ok source s" using src by (auto simp: sessions_ok_def)
    then have r: "session_ok target (renamed target t s)" using v ns by (auto intro: session_ok_renamed)
    have "bcount (\<lambda>s. \<not> s_scheduled s) (bremove source (st_sessions st)) < LIMIT"
      using bcount_remove_present [OF src, where p = "\<lambda>s. \<not> s_scheduled s"] ns sok
      by (simp add: sessions_ok_def)
    moreover have "\<not> s_scheduled (renamed target t s)"
      using ns by (simp add: renamed_def)
    ultimately have "sessions_ok (binsert target (renamed target t s) (bremove source (st_sessions st)))"
      using sok none n r by (intro sessions_ok_insert) (auto simp: sessions_ok_remove bget_remove)
    with ok show ?thesis by (simp add: store_ok_def)
  qed
  show ?thesis
    by (auto simp: rename_session_def Let_def intro!: keeps_change * split: option.splits)
qed

lemma keeps_archive_session: "keeps store_ok w (archive_session env i b w)"
  by (auto simp: archive_session_def session_ok_def queue_ok_def lease_ok_def
      intro!: keeps_on_session split: option.splits)

lemma keeps_route: "keeps store_ok w (route env i c ch t p w)"
  by (auto simp: route_def session_ok_def queue_ok_def lease_ok_def intro!: keeps_on_session)

lemma keeps_fork: "keeps store_ok w (fork env source target w)"
proof -
  have *: "store_ok (st\<lparr>st_sessions := binsert target (forked target t s) (st_sessions st)\<rparr>)"
    if ok: "store_ok st" and v: "valid target" and none: "bget (st_sessions st) target = None"
      and src: "bget (st_sessions st) source = Some s" and ns: "\<not> is_schedule_session target"
      and cap: "\<not> LIMIT \<le> user_session_count st" for st t s
  proof -
    have sok: "sessions_ok (st_sessions st)" using ok by (simp add: store_ok_def)
    then have "session_ok source s" using src by (auto simp: sessions_ok_def)
    then have "session_ok target (forked target t s)" using v ns by (auto intro: session_ok_forked)
    moreover have "\<not> s_scheduled (forked target t s)" by (simp add: forked_def)
    ultimately have "sessions_ok (binsert target (forked target t s) (st_sessions st))"
      using sok none cap by (intro sessions_ok_insert) (auto simp: user_session_count_def)
    with ok show ?thesis by (simp add: store_ok_def)
  qed
  show ?thesis
    by (auto simp: fork_def Let_def intro!: keeps_change * split: option.splits)
qed

lemma keeps_push_with_status: "keeps store_ok w (push_with_status env i m rc pw w)"
  by (auto simp: push_with_status_def session_ok_pushed intro!: keeps_on_session)

lemma keeps_append_notice: "keeps store_ok w (append_notice env i m w)"
  by (auto simp: append_notice_def session_ok_def queue_ok_def lease_ok_def intro!: keeps_on_session)

lemma keeps_append_reserved: "keeps store_ok w (append_reserved env i owner m w)"
  by (auto simp: append_reserved_def keeps_push_with_status split: option.splits)

lemma keeps_set_compacted: "keeps store_ok w (set_compacted_context_reserved env i owner c w)"
  by (auto simp: set_compacted_context_reserved_def session_ok_def queue_ok_def lease_ok_def
      intro!: keeps_on_session split: option.splits)

lemma keeps_clear_history: "keeps store_ok w (clear_history env i w)"
  by (auto simp: clear_history_def session_ok_def queue_ok_def lease_ok_def intro!: keeps_on_session)

lemma keeps_queue: "keeps store_ok w (queue_with_roles env i m roles w)"
  by (auto simp: queue_with_roles_def intro!: keeps_on_session session_ok_enqueued
      split: option.splits if_splits)

lemma drop_deferred_sessions [simp]:
  "st_sessions (drop_deferred c i st) = st_sessions st" "st_outbox (drop_deferred c i st) = st_outbox st"
  "st_dead (drop_deferred c i st) = st_dead st" "st_offsets (drop_deferred c i st) = st_offsets st"
  "st_seen (drop_deferred c i st) = st_seen st"
  "st_deferred_acknowledged (drop_deferred c i st) = st_deferred_acknowledged st"
  by (simp_all add: drop_deferred_def Let_def split: option.splits)

lemma deferred_ok_drop: "deferred_ok (st_deferred st) \<Longrightarrow> deferred_ok (st_deferred (drop_deferred c i st))"
proof -
  assume ok: "deferred_ok (st_deferred st)"
  have "length (filter (\<lambda>e. \<not> event_has_id i e) es) \<le> LIMIT" if "bget (st_deferred st) c = Some es" for es
  proof -
    from ok that have "length es \<le> LIMIT" by (simp add: deferred_ok_def)
    with length_filter_le [of "\<lambda>e. \<not> event_has_id i e" es] show ?thesis by (rule le_trans)
  qed
  with ok show ?thesis
    by (auto simp: drop_deferred_def Let_def deferred_ok_def bmap_ok_remove bget_remove bget_adjust
        split: option.splits)
qed

lemma store_ok_drop_deferred: "store_ok st \<Longrightarrow> store_ok (drop_deferred c i st)"
  by (simp add: store_ok_def deferred_ok_drop)

lemma store_ok_drop_ack:
  "store_ok st \<Longrightarrow> store_ok (st\<lparr>st_deferred_acknowledged := bremove k (st_deferred_acknowledged st)\<rparr>)"
  by (simp add: store_ok_def bmap_ok_remove)

lemma keeps_begin: "keeps store_ok w (begin_with_roles_clearing_deferred env i m roles c w)"
proof -
  have "store_ok st \<Longrightarrow> store_ok (on_session i (begun env m roles)
      (case c of None \<Rightarrow> st | Some c \<Rightarrow> (let st0 = drop_deferred c (m_id m) st in
         st0\<lparr>st_deferred_acknowledged :=
           bremove (seen_key (digest env) c (m_id m)) (st_deferred_acknowledged st0)\<rparr>)))" for st
    by (rule store_ok_on_session)
      (auto simp: Let_def session_ok_begun split: option.splits
        intro!: store_ok_drop_ack [of "drop_deferred _ _ _", simplified] store_ok_drop_deferred)
  then show ?thesis
    by (auto simp: begin_with_roles_clearing_deferred_def Let_def intro!: keeps_change split: option.splits)
qed

lemma keeps_clear: "keeps store_ok w (clear env i status w)"
proof -
  have "store_ok st \<Longrightarrow> store_ok (case bget (st_sessions st) i of None \<Rightarrow> st
      | Some s \<Rightarrow> (let st1 = on_session i (cleared env status) st in
          case s_stream_delivery s of None \<Rightarrow> st1
          | Some delivery_id \<Rightarrow> st1\<lparr>st_outbox := update_first (\<lambda>d. d_id d = delivery_id)
              (streaming_ended (now env 1)) (st_outbox st1)\<rparr>))" for st
    using store_ok_on_session [of st i "cleared env status"] session_ok_cleared
    by (auto simp: Let_def store_ok_def streaming_ended_def intro!: outbox_ok_update split: option.splits)
  then show ?thesis
    by (auto simp: clear_def intro!: keeps_change)
qed

lemma keeps_set_status: "keeps store_ok w (set_status env i status w)"
  by (auto simp: set_status_def session_ok_status_set intro!: keeps_on_session)

lemma keeps_cancel: "keeps store_ok w (cancel env i w)"
  by (simp add: cancel_def Let_def keeps_set_status keeps_clear)

lemma keeps_set_phase: "keeps store_ok w (set_phase env i ph w)"
  by (auto simp: set_phase_def session_ok_def queue_ok_def lease_ok_def
      intro!: keeps_on_session split: option.splits)

lemma keeps_reserve: "keeps store_ok w (reserve env i owner w)"
  by (auto simp: reserve_def session_ok_def queue_ok_def lease_ok_def
      intro!: keeps_on_session split: option.splits)

lemma keeps_recover_reservations: "keeps store_ok w (recover_reservations env w)"
proof -
  have "sessions_ok m \<Longrightarrow> sessions_ok (bmap_values (\<lambda>s. if lapsed c s
      then s\<lparr>s_status := ''idle'', s_reservation_until := None, s_reservation_owner := None, s_updated := c\<rparr>
      else s) m)" for m c
    by (rule sessions_ok_values) (auto simp: session_ok_def queue_ok_def lease_ok_def)
  then show ?thesis
    by (auto simp: recover_reservations_def Let_def store_ok_def intro!: keeps_change)
qed

lemma keeps_renew: "keeps store_ok w (renew_reservation env i owner w)"
  by (auto simp: renew_reservation_def session_ok_def queue_ok_def lease_ok_def
      intro!: keeps_on_session split: option.splits)

lemma keeps_set_model: "keeps store_ok w (set_model env i model w)"
  by (auto simp: set_model_def session_ok_def queue_ok_def lease_ok_def intro!: keeps_on_session)

lemma keeps_set_context_usage: "keeps store_ok w (set_context_usage env i u w)"
  by (auto simp: set_context_usage_def session_ok_def queue_ok_def lease_ok_def intro!: keeps_on_session)

lemma keeps_set_workspace: "keeps store_ok w (set_workspace env i p w)"
  by (auto simp: set_workspace_def session_ok_def queue_ok_def lease_ok_def
      intro!: keeps_on_session split: option.splits)

text \<open>Deliveries.\<close>

lemma store_ok_outbox:
  "store_ok st \<Longrightarrow> outbox_ok ds \<Longrightarrow> store_ok (st\<lparr>st_outbox := ds\<rparr>)"
  by (simp add: store_ok_def)

lemma store_ok_append_delivery:
  assumes "store_ok st" and "\<not> has_delivery i st" and "length (st_outbox st) < LIMIT" and "d_id d = i"
  shows "store_ok (st\<lparr>st_outbox := st_outbox st @ [d]\<rparr>)"
proof (rule store_ok_outbox [OF assms(1)], rule outbox_ok_append)
  show "outbox_ok (st_outbox st)" using assms(1) by (simp add: store_ok_def)
qed (use assms in \<open>simp_all add: has_delivery_def\<close>)

lemma new_delivery_id [simp]: "d_id (new_delivery i c ch p th t s a b) = i"
  by (simp add: new_delivery_def)

lemma keeps_queue_delivery: "keeps store_ok w (queue_delivery env i c ch p th t w)"
  by (auto simp: queue_delivery_def not_le intro!: keeps_change store_ok_append_delivery)

lemma on_session_outbox [simp]:
  "st_outbox (on_session i f st) = st_outbox st" "has_delivery j (on_session i f st) = has_delivery j st"
  "st_dead (on_session i f st) = st_dead st" "st_deferred (on_session i f st) = st_deferred st"
  "st_offsets (on_session i f st) = st_offsets st" "st_seen (on_session i f st) = st_seen st"
  "st_deferred_acknowledged (on_session i f st) = st_deferred_acknowledged st"
  "st_path (on_session i f st) = st_path st"
  by (simp_all add: on_session_def has_delivery_def)

lemma store_ok_replied: "store_ok st \<Longrightarrow> store_ok (on_session i (replied env m) st)"
  by (rule store_ok_on_session) (auto simp: session_ok_replied)

lemma keeps_reply: "keeps store_ok w (reply env sid m i c ch th t w)"
proof -
  have up: "store_ok st \<Longrightarrow> store_ok ((on_session sid (replied env m) st)\<lparr>st_outbox :=
      update_first (\<lambda>d. d_id d = i) (completed env c ch p th t u mid) (st_outbox st)\<rparr>)" for st p u mid
    by (rule store_ok_outbox [OF store_ok_replied], assumption)
      (auto simp: store_ok_def completed_def intro!: outbox_ok_update)
  have ap: "store_ok st \<Longrightarrow> \<not> has_delivery i st \<Longrightarrow> length (st_outbox st) < LIMIT \<Longrightarrow>
      store_ok ((on_session sid (replied env m) st)\<lparr>st_outbox := st_outbox st @ [new_delivery i c ch p th t s a b]\<rparr>)"
    for st p s a b
    using store_ok_append_delivery [OF store_ok_replied, of st i sid env m "new_delivery i c ch p th t s a b"]
    by simp
  show ?thesis
    by (auto simp: reply_def Let_def not_le intro!: keeps_change up ap store_ok_replied split: option.splits)
qed

lemma keeps_start_stream: "keeps store_ok w (start_stream env sid i c ch th t w)"
proof -
  have *: "store_ok ((on_session sid (\<lambda>s. s\<lparr>s_phase := ''unsafe'', s_stream_delivery := Some i, s_updated := u\<rparr>) st)
        \<lparr>st_outbox := st_outbox st @ [new_delivery i c ch p th t Sending a b]\<rparr>)"
    if "store_ok st" "bget (st_sessions st) sid = Some s" "s_inflight s \<noteq> None"
      "\<not> has_delivery i st" "length (st_outbox st) < LIMIT" for st s p a b u
  proof -
    have "store_ok (on_session sid (\<lambda>s. s\<lparr>s_phase := ''unsafe'', s_stream_delivery := Some i, s_updated := u\<rparr>) st)"
      using that by (intro store_ok_on_session) (auto simp: session_ok_def queue_ok_def lease_ok_def)
    from store_ok_append_delivery [OF this, of i "new_delivery i c ch p th t Sending a b"] that
    show ?thesis by simp
  qed
  show ?thesis
    by (auto simp: start_stream_def Let_def not_le intro!: keeps_change * split: option.splits)
qed

lemma keeps_update_delivery:
  "(\<And>d. d_id (f d) = d_id d) \<Longrightarrow> keeps store_ok w (update_delivery env i f w)"
  by (auto simp: update_delivery_def store_ok_def intro!: keeps_change outbox_ok_update)

lemma keeps_delivery_states:
  "keeps store_ok w (stream_sending env i t w)" "keeps store_ok w (stream_started env i t w)"
  "keeps store_ok w (stream_updated env i w)" "keeps store_ok w (sending env i w)"
  "keeps store_ok w (mark_uncertain env i t w)"
  by (simp_all add: stream_sending_def stream_started_def stream_updated_def sending_def
      mark_uncertain_def keeps_update_delivery)

lemma keeps_retry_delivery: "keeps store_ok w (retry_delivery env i w)"
  by (auto simp: retry_delivery_def keeps_update_delivery split: option.splits)

lemma keeps_ack: "keeps store_ok w (ack env i w)"
  by (auto simp: ack_def position_split store_ok_def outbox_ok_remove_first
      intro!: keeps_change split: option.splits)

lemma store_ok_buried: "store_ok st \<Longrightarrow> store_ok (buried i st)"
  by (auto simp: buried_def store_ok_def outbox_ok_remove_first split: option.splits)

lemma keeps_dead: "keeps store_ok w (dead env i w)"
  by (auto simp: dead_def intro!: keeps_change store_ok_buried)

lemma keeps_drop_delivery: "keeps store_ok w (drop_delivery env i w)"
  by (simp add: drop_delivery_def keeps_dead)

lemma keeps_purge: "keeps store_ok w (purge env a b w)"
  by (auto simp: purge_def Let_def store_ok_def sessions_ok_def outbox_ok_def bcount_def
      intro!: keeps_and_then keeps_change)

text \<open>Events.\<close>

lemma keeps_mark_deferred: "keeps store_ok w (mark_deferred_acknowledged env c i w)"
  by (auto simp: mark_deferred_acknowledged_def Let_def store_ok_def bmap_ok_insert intro!: keeps_change)

lemma deferred_ok_append:
  assumes "deferred_ok (st_deferred st)"
    and "\<And>es. bget (st_deferred st) c = Some es \<Longrightarrow> length es < LIMIT"
  shows "deferred_ok (st_deferred (with_deferred c e st))"
  using assms
  by (force simp: deferred_ok_def with_deferred_def bget_insert bget_adjust bmap_ok_insert LIMIT_def
      split: option.splits)

lemma with_deferred_rest [simp]:
  "st_sessions (with_deferred c e st) = st_sessions st" "st_outbox (with_deferred c e st) = st_outbox st"
  "st_dead (with_deferred c e st) = st_dead st" "st_offsets (with_deferred c e st) = st_offsets st"
  "st_seen (with_deferred c e st) = st_seen st"
  "st_deferred_acknowledged (with_deferred c e st) = st_deferred_acknowledged st"
  by (simp_all add: with_deferred_def)

lemma keeps_defer_event: "keeps store_ok w (defer_event env c e w)"
proof (cases "fst (defer_event env c e w) = Inr () \<and> fst (snd (defer_event env c e w)) \<noteq> fst w")
  case True
  then have "defer_event env c e w = change env (with_deferred c e) w"
    and "\<And>es. bget (st_deferred (fst w)) c = Some es \<Longrightarrow> length es < LIMIT"
    by (auto simp: defer_event_def Let_def fail_def return_def split: if_splits option.splits)
  then show ?thesis
    by (auto simp: store_ok_def intro!: keeps_change deferred_ok_append)
next
  case False
  then have "fst (snd (defer_event env c e w)) = fst w"
    using change_cases [of env "with_deferred c e" w]
    by (auto simp: defer_event_def Let_def fail_def return_def split: if_splits)
  then show ?thesis by (simp add: keeps_def)
qed

text \<open>The seen map after trimming.\<close>

lemma fold_bremove: "fold (\<lambda>(k, t) m. bremove k m) es m = filter (\<lambda>(k, v). k \<notin> fst ` set es) m"
proof (induction es arbitrary: m)
  case (Cons e es)
  then show ?case
    by (cases e) (auto simp: bremove_def intro!: filter_cong)
qed simp

definition oldest_seen :: "(string, u64) bmap \<Rightarrow> string option \<Rightarrow> (string \<times> u64) list" where
  "oldest_seen m keep = take (length m - SEEN_LIMIT)
     (sort_key (\<lambda>(key, t). (t, key)) (filter (\<lambda>(key, t). Some key \<noteq> keep) m))"

lemma trim_seen_filter: "trim_seen m keep = filter (\<lambda>(k, v). k \<notin> fst ` set (oldest_seen m keep)) m"
  by (cases "length m \<le> SEEN_LIMIT")
    (auto simp: trim_seen_def oldest_seen_def Let_def fold_bremove filter_id_conv)

lemma oldest_seen_sub: "set (oldest_seen m keep) \<subseteq> {(k, t). (k, t) \<in> set m \<and> Some k \<noteq> keep}"
proof -
  have "set (oldest_seen m keep) \<subseteq> set (filter (\<lambda>(key, t). Some key \<noteq> keep) m)"
    unfolding oldest_seen_def by (metis set_sort set_take_subset)
  then show ?thesis by auto
qed

lemma length_filter_other:
  "distinct (bkeys m) \<Longrightarrow> length m \<le> Suc (length (filter (\<lambda>(k, t). Some k \<noteq> keep) m))"
proof (induction m)
  case (Cons e m)
  have "filter (\<lambda>(k, t). Some k \<noteq> Some (fst e)) m = m"
    unfolding filter_id_conv using Cons.prems by (cases e) force
  with Cons show ?case by (cases e) auto
qed simp

lemma length_filter_keys:
  assumes "distinct (bkeys m)" and "K \<subseteq> set (bkeys m)"
  shows "length (filter (\<lambda>(k, v). k \<notin> K) m) + card K = length m"
proof -
  have "length (filter (\<lambda>(k, v). k \<notin> K) m) + length (filter (\<lambda>k. k \<in> K) (bkeys m)) = length m"
    by (induction m) auto
  moreover have "length (filter (\<lambda>k. k \<in> K) (bkeys m)) = card K"
  proof -
    have "set (filter (\<lambda>k. k \<in> K) (bkeys m)) = K" using assms(2) by auto
    with assms(1) show ?thesis by (metis distinct_card distinct_filter)
  qed
  ultimately show ?thesis by simp
qed

lemma length_trim_seen:
  assumes "bmap_ok m"
  shows "length (trim_seen m keep) = min (length m) SEEN_LIMIT"
proof (cases "length m \<le> SEEN_LIMIT")
  case True
  then show ?thesis by (simp add: trim_seen_def)
next
  case False
  have d: "distinct (bkeys m)" using assms by (rule bmap_ok_distinct)
  let ?f = "filter (\<lambda>(key, t). Some key \<noteq> keep) m"
  have "distinct (map fst ?f)" using d by (rule distinct_map_filter)
  then have "distinct (map fst (sort_key (\<lambda>(key, t). (t, key)) ?f))"
    by (simp add: distinct_map)
  then have "distinct (map fst (oldest_seen m keep))"
    unfolding oldest_seen_def by (simp add: take_map [symmetric] distinct_take del: take_map)
  then have "card (fst ` set (oldest_seen m keep)) = length (oldest_seen m keep)"
    by (metis distinct_card length_map list.set_map)
  also have "\<dots> = length m - SEEN_LIMIT"
    using length_filter_other [OF d, of keep] False by (simp add: oldest_seen_def SEEN_LIMIT_def)
  finally have "card (fst ` set (oldest_seen m keep)) = length m - SEEN_LIMIT" .
  moreover have "fst ` set (oldest_seen m keep) \<subseteq> set (bkeys m)"
    using oldest_seen_sub [of m keep] by force
  ultimately show ?thesis
    using length_filter_keys [OF d, of "fst ` set (oldest_seen m keep)"] False
    by (simp add: trim_seen_filter)
qed

lemma trim_seen_keeps:
  assumes "bget m k = Some t" and "keep = Some k"
  shows "bget (trim_seen m keep) k = Some t"
proof -
  have "k \<notin> fst ` set (oldest_seen m keep)"
    using oldest_seen_sub [of m keep] assms(2) by auto
  moreover have "k \<notin> K \<Longrightarrow> bget (filter (\<lambda>(k, v). k \<notin> K) m) k = bget m k" for K
    by (induction m) auto
  ultimately show ?thesis using assms(1) by (simp add: trim_seen_filter)
qed

lemma keeps_commit_event: "keeps store_ok w (commit_event env c i offset retained w)"
proof -
  have seen: "bmap_ok m \<Longrightarrow> bmap_ok (trim_seen m k) \<and> length (trim_seen m k) \<le> SEEN_LIMIT" for m k
    by (simp add: length_trim_seen) (simp add: trim_seen_filter bmap_ok_filter)
  show ?thesis
    unfolding commit_event_def Let_def
    by (rule keeps_change)
      (cases offset; cases retained;
       auto simp: store_ok_def seen bmap_ok_insert bmap_ok_remove deferred_ok_drop split: option.splits)
qed

end
