(* ===== verification/Store_Machine.thy ===== *)
theory Store_Machine
  imports Store_Invariant
begin

text \<open>
  The store as a state machine. \<open>store_op\<close> names the public operations of \<open>Store\<close> in
  \<open>krabb-runtime/src/state.rs\<close>, \<open>exec\<close> runs one, \<open>store_step\<close> is one operation under any
  behaviour of clock and disk, and \<open>reachable\<close> the states the daemon can get to from the
  empty store. The invariant follows by rule induction.

  Two abstract views are refined by every operation: \<open>turn_step\<close>, who may hold the turn of a
  session, with \<open>queue_after\<close>, what may happen to its queue; and \<open>delivery_step\<close>, the life
  of a delivery.
\<close>

section \<open>Operations and runs\<close>

datatype store_op =
    OpCreate string string | OpCreateScheduled string string | OpEnsure string string
  | OpEnsureSchedule string string | OpRemove string | OpRemoveDeep string
  | OpRename string string | OpArchive string bool
  | OpRoute string string string "string option" bool | OpFork string string
  | OpPush string message | OpAppend string message | OpNotice string message
  | OpAppendReserved string string message | OpCompact string string "message list"
  | OpClearHistory string | OpQueue string message "string list"
  | OpBegin string message "string list" "string option"
  | OpClear string string | OpSetStatus string string | OpCancel string | OpSetPhase string string
  | OpReserve string string | OpRecover | OpRenew string string
  | OpSetModel string string | OpSetUsage string context_usage | OpSetWorkspace string "string option"
  | OpQueueDelivery string string string bool "string option" string
  | OpReply string message string string string "string option" string
  | OpStartStream string string string string "string option" string
  | OpStreamSending string string | OpStreamStarted string string | OpStreamUpdated string
  | OpSending string | OpMarkUncertain string string | OpRetry string | OpAck string
  | OpDead string | OpDrop string | OpPurge bool bool
  | OpMarkDeferred string string | OpDefer string json
  | OpCommit string string "int option" | OpCommitRetained string string "int option"

definition ignoring :: "('d, 'a) action \<Rightarrow> ('d, unit) action" where
  "ignoring a = and_then a (\<lambda>_. return ())"

fun exec :: "'d env \<Rightarrow> store_op \<Rightarrow> ('d, unit) action" where
  "exec env (OpCreate i m) = create env i m"
| "exec env (OpCreateScheduled i m) = create_scheduled env i m"
| "exec env (OpEnsure i m) = ensure env i m"
| "exec env (OpEnsureSchedule i m) = ensure_schedule env i m"
| "exec env (OpRemove i) = remove env i"
| "exec env (OpRemoveDeep i) = remove_deep env i"
| "exec env (OpRename i j) = rename_session env i j"
| "exec env (OpArchive i b) = archive_session env i b"
| "exec env (OpRoute i c ch th p) = route env i c ch th p"
| "exec env (OpFork i j) = fork env i j"
| "exec env (OpPush i m) = push env i m"
| "exec env (OpAppend i m) = append_message env i m"
| "exec env (OpNotice i m) = append_notice env i m"
| "exec env (OpAppendReserved i ow m) = append_reserved env i ow m"
| "exec env (OpCompact i ow c) = set_compacted_context_reserved env i ow c"
| "exec env (OpClearHistory i) = clear_history env i"
| "exec env (OpQueue i m rs) = queue_with_roles env i m rs"
| "exec env (OpBegin i m rs c) = begin_with_roles_clearing_deferred env i m rs c"
| "exec env (OpClear i s) = clear env i s"
| "exec env (OpSetStatus i s) = set_status env i s"
| "exec env (OpCancel i) = cancel env i"
| "exec env (OpSetPhase i p) = set_phase env i p"
| "exec env (OpReserve i ow) = reserve env i ow"
| "exec env OpRecover = recover_reservations env"
| "exec env (OpRenew i ow) = renew_reservation env i ow"
| "exec env (OpSetModel i m) = set_model env i m"
| "exec env (OpSetUsage i u) = set_context_usage env i u"
| "exec env (OpSetWorkspace i p) = set_workspace env i p"
| "exec env (OpQueueDelivery i c ch p th t) = queue_delivery env i c ch p th t"
| "exec env (OpReply s m i c ch th t) = reply env s m i c ch th t"
| "exec env (OpStartStream s i c ch th t) = start_stream env s i c ch th t"
| "exec env (OpStreamSending i t) = stream_sending env i t"
| "exec env (OpStreamStarted i t) = stream_started env i t"
| "exec env (OpStreamUpdated i) = stream_updated env i"
| "exec env (OpSending i) = sending env i"
| "exec env (OpMarkUncertain i e) = mark_uncertain env i e"
| "exec env (OpRetry i) = retry_delivery env i"
| "exec env (OpAck i) = ack env i"
| "exec env (OpDead i) = dead env i"
| "exec env (OpDrop i) = drop_delivery env i"
| "exec env (OpPurge a b) = ignoring (purge env a b)"
| "exec env (OpMarkDeferred c i) = mark_deferred_acknowledged env c i"
| "exec env (OpDefer c e) = defer_event env c e"
| "exec env (OpCommit c i v) = commit env c i v"
| "exec env (OpCommitRetained c i v) = commit_retained env c i v"

inductive store_step :: "'d world \<Rightarrow> store_op \<Rightarrow> 'd world \<Rightarrow> bool" where
  step: "exec env op w = (r, w') \<Longrightarrow> store_step w op w'"

inductive reachable :: "'d world \<Rightarrow> bool" where
  start: "reachable (empty_store\<lparr>st_path := p\<rparr>, d)"
| later: "reachable w \<Longrightarrow> store_step w op w' \<Longrightarrow> reachable w'"

inductive_cases store_stepE: "store_step w op w'"
inductive_cases reachableE: "reachable w"
inductive_simps store_step_iff: "store_step w op w'"

section \<open>The invariant of reachable stores\<close>

lemmas keeps_ops =
  keeps_create_session keeps_remove keeps_remove_deep keeps_ensure keeps_ensure_schedule
  keeps_rename_session keeps_archive_session keeps_route keeps_fork keeps_push_with_status
  keeps_append_notice keeps_append_reserved keeps_set_compacted keeps_clear_history keeps_queue
  keeps_begin keeps_clear keeps_set_status keeps_cancel keeps_set_phase keeps_reserve
  keeps_recover_reservations keeps_renew keeps_set_model keeps_set_context_usage keeps_set_workspace
  keeps_queue_delivery keeps_reply keeps_start_stream keeps_delivery_states keeps_retry_delivery
  keeps_ack keeps_dead keeps_drop_delivery keeps_purge keeps_mark_deferred keeps_defer_event
  keeps_commit_event

lemma keeps_exec: "keeps store_ok w (exec env op w)"
  by (cases op) (simp_all add: keeps_ops create_def create_scheduled_def push_def append_message_def
      commit_def commit_retained_def ignoring_def keeps_and_then)

lemma store_ok_step: "store_step w op w' \<Longrightarrow> store_ok (fst w) \<Longrightarrow> store_ok (fst w')"
  using keeps_exec [of w _ op] by (elim store_stepE) (simp add: keeps_def, metis snd_conv)

lemma reachable_ok: "reachable w \<Longrightarrow> store_ok (fst w)"
proof (induction rule: reachable.induct)
  case (start p d)
  show ?case using store_ok_empty by (simp add: store_ok_def)
next
  case (later w op w')
  then show ?case by (simp add: store_ok_step)
qed

text \<open>A run of operations under one environment stays reachable.\<close>

definition run_ops :: "'d env \<Rightarrow> store_op list \<Rightarrow> 'd world \<Rightarrow> 'd world" where
  "run_ops env ops w = fold (\<lambda>op w. snd (exec env op w)) ops w"

lemma reachable_run: "reachable w \<Longrightarrow> reachable (run_ops env ops w)"
proof (induction ops arbitrary: w)
  case (Cons op ops)
  have "store_step w op (snd (exec env op w))"
    by (rule store_step.step [of env op w "fst (exec env op w)"]) simp
  with Cons show ?case by (simp add: run_ops_def reachable.later)
qed (simp add: run_ops_def)

section \<open>The turn of a session\<close>

text \<open>Who holds the turn: nobody, a terminal client until a time, or the message that runs.\<close>

datatype turn = Free | Reserved string u64 | Running message

definition turn_of :: "session \<Rightarrow> turn" where
  "turn_of s =
     (case s_inflight s of
        Some m \<Rightarrow> Running m
      | None \<Rightarrow> (case (s_reservation_owner s, s_reservation_until s) of
                   (Some owner, Some until) \<Rightarrow> Reserved owner until
                 | _ \<Rightarrow> Free))"

text \<open>The moves a store operation may make with the turn of session \<open>i\<close>. \<open>clk\<close> is the clock of
  the operation, as in \<open>now\<close>.\<close>

inductive turn_step :: "(nat \<Rightarrow> u64) \<Rightarrow> store_op \<Rightarrow> string \<Rightarrow> turn \<Rightarrow> turn \<Rightarrow> bool" where
  begin_free: "turn_step clk (OpBegin i m rs c) i Free (Running m)"
| begin_expired: "t \<le> clk 0 \<Longrightarrow> turn_step clk (OpBegin i m rs c) i (Reserved ow t) (Running m)"
| take: "turn_step clk (OpReserve i ow) i Free (Reserved ow (sat_add (clk 0) TUI_RESERVATION_TTL))"
| renew: "turn_step clk (OpRenew i ow) i (Reserved ow t) (Reserved ow (sat_add (clk 0) TUI_RESERVATION_TTL))"
| extend: "turn_step clk (OpAppendReserved i ow m) i (Reserved ow t)
     (Reserved ow (sat_add (clk 1) TUI_RESERVATION_TTL))"
| expire: "t \<le> clk 0 \<Longrightarrow> turn_step clk OpRecover i (Reserved ow t) Free"
| release: "st \<noteq> ''working'' \<Longrightarrow> turn_step clk (OpSetStatus i st) i (Reserved ow t) Free"
| release_push: "turn_step clk (OpPush i m) i (Reserved ow t) Free"
| release_append: "turn_step clk (OpAppend i m) i (Reserved ow t) Free"
| abandon: "turn_step clk (OpCancel i) i (Reserved ow t) Free"
| finish_clear: "turn_step clk (OpClear i st) i u Free"
| finish_reply: "turn_step clk (OpReply i m d c ch th tx) i u Free"

inductive_simps turn_step_running: "turn_step clk op i (Running m) u"
inductive_simps turn_step_to_running: "turn_step clk op i u (Running m)"
inductive_cases turn_stepE: "turn_step clk op i u v"

text \<open>What an operation does to the queue of session \<open>i\<close>, when it does something.\<close>

fun queue_after :: "store_op \<Rightarrow> string \<Rightarrow> message list \<Rightarrow> message list" where
  "queue_after (OpQueue j m rs) i q = (if j = i then q @ [m] else q)"
| "queue_after (OpBegin j m rs c) i q = (if j = i then filter (\<lambda>x. m_id x \<noteq> m_id m) q else q)"
| "queue_after (OpCancel j) i q = (if j = i then [] else q)"
| "queue_after (OpClear j st) i q = (if j = i \<and> st = ''cancelled'' then [] else q)"
| "queue_after (OpSetStatus j st) i q = (if j = i \<and> st = ''cancelled'' then [] else q)"
| "queue_after op i q = q"

definition session_move :: "(nat \<Rightarrow> u64) \<Rightarrow> store_op \<Rightarrow> string \<Rightarrow> session \<Rightarrow> session \<Rightarrow> bool" where
  "session_move clk op i s s' \<longleftrightarrow>
     (turn_of s' = turn_of s \<or> turn_step clk op i (turn_of s) (turn_of s'))
     \<and> (s_queued s' = s_queued s \<or> s_queued s' = queue_after op i (s_queued s))"

text \<open>\<open>moves\<close>: every session that is there before and after made such a move.\<close>

definition moves :: "(string \<Rightarrow> session \<Rightarrow> session \<Rightarrow> bool) \<Rightarrow> 'd world \<Rightarrow> 'a io_result \<times> 'd world \<Rightarrow> bool" where
  "moves R w r \<longleftrightarrow> (sessions_ok (st_sessions (fst w)) \<longrightarrow>
     (\<forall>i s s'. bget (st_sessions (fst w)) i = Some s \<longrightarrow>
        bget (st_sessions (fst (snd r))) i = Some s' \<longrightarrow> s' = s \<or> R i s s'))"

lemma moves_same: "fst (snd r) = fst w \<Longrightarrow> moves R w r"
  by (simp add: moves_def)

lemma moves_stop [simp]: "moves R w (fail k m w)" "moves R w (return x w)" "moves R w (session_missing w)"
  by (simp_all add: moves_def fail_def return_def session_missing_def)

lemma moves_change:
  assumes "\<And>i s s'. sessions_ok (st_sessions (fst w)) \<Longrightarrow> bget (st_sessions (fst w)) i = Some s \<Longrightarrow>
      bget (st_sessions (u (fst w))) i = Some s' \<Longrightarrow> s' = s \<or> R i s s'"
  shows "moves R w (change env u w)"
proof (cases "fst (snd (change env u w)) = u (fst w)")
  case True
  show ?thesis unfolding moves_def True using assms by blast
next
  case False
  then show ?thesis using change_cases [of env u w] by (intro moves_same) auto
qed

lemma moves_on_session:
  assumes "\<And>s. bget (st_sessions (fst w)) i = Some s \<Longrightarrow> session_ok i s \<Longrightarrow> f s = s \<or> R i s (f s)"
  shows "moves R w (change env (on_session i f) w)"
  by (rule moves_change) (use assms in \<open>auto simp: on_session_def bget_adjust sessions_ok_def split: if_splits\<close>)

lemma moves_sessions_same:
  "st_sessions (u (fst w)) = st_sessions (fst w) \<Longrightarrow> moves R w (change env u w)"
  by (rule moves_change) simp

lemma moves_insert:
  assumes "bget (st_sessions (fst w)) i = None"
  shows "moves R w (change env (\<lambda>st. st\<lparr>st_sessions := binsert i (f st) (st_sessions st)\<rparr>) w)"
  by (rule moves_change) (use assms in \<open>auto simp: bget_insert split: if_splits\<close>)

lemma moves_create_session: "moves R w (create_session env i model sch w)"
  by (cases sch) (auto simp: create_session_def Let_def intro!: moves_insert)

lemma moves_remove: "moves R w (remove env i w)"
  by (auto simp: remove_def bget_remove intro!: moves_change split: option.splits if_splits)

lemma moves_remove_deep: "moves R w (remove_deep env i w)"
proof -
  have "fst (snd (remove_deep env i w)) = fst (snd (remove env i w))"
    by (cases "remove env i w"; cases "fst (remove env i w)")
      (auto simp: remove_deep_def and_then_def return_def split: option.splits prod.splits)
  with moves_remove [of R w env i] show ?thesis by (simp add: moves_def)
qed

lemma moves_create_other:
  "bget (st_sessions (fst w)) j = None \<Longrightarrow> fst (snd (create_session env j model sch w')) = st \<Longrightarrow>
     bget (st_sessions (fst w)) i = Some s \<Longrightarrow> bget (st_sessions st) i = Some s' \<Longrightarrow>
     bget (st_sessions (fst w')) i = Some s'"
proof -
  assume *: "bget (st_sessions (fst w)) j = None" "fst (snd (create_session env j model sch w')) = st"
    "bget (st_sessions (fst w)) i = Some s" "bget (st_sessions st) i = Some s'"
  then have "i \<noteq> j" by auto
  then have "bget (st_sessions (fst (snd (create_session env j model sch w')))) i
      = bget (st_sessions (fst w')) i"
    using change_cases [of env "\<lambda>st. st\<lparr>st_sessions :=
        binsert j (new_session j model sch (now env 0)) (st_sessions st)\<rparr>" w']
    by (cases sch) (auto simp: create_session_def Let_def fail_def bget_insert)
  with * show ?thesis by simp
qed

lemma moves_ensure_schedule: "moves R w (ensure_schedule env i model w)"
proof -
  have "moves R w (and_then (remove_deep env j) (\<lambda>_. create_session env i model True) w)"
    if none: "bget (st_sessions (fst w)) i = None" for j
  proof -
    obtain r w' where rd: "remove_deep env j w = (r, w')" by (cases "remove_deep env j w")
    have "moves R w (r, w')" using moves_remove_deep [of R w env j] rd by simp
    then show ?thesis
      using none moves_create_other [OF none, of env model True w']
      by (cases r) (auto simp: and_then_def rd moves_def)
  qed
  then show ?thesis
    by (auto simp: ensure_schedule_def Let_def create_scheduled_def moves_create_session
        intro: moves_create_session split: option.splits)
qed

lemma moves_rename: "moves R w (rename_session env source target w)"
  by (auto simp: rename_session_def Let_def bget_insert bget_remove intro!: moves_change
      split: option.splits if_splits)

lemma moves_fork: "moves R w (fork env source target w)"
  by (auto simp: fork_def Let_def intro!: moves_insert split: option.splits)

lemma moves_ensure: "moves R w (ensure env i model w)"
  by (simp add: ensure_def create_def moves_create_session)

lemma moves_then_return [simp]: "moves R w (and_then a (\<lambda>_. return x) w) = moves R w (a w)"
  by (cases "a w"; cases "fst (a w)") (auto simp: and_then_def return_def moves_def)

lemma moves_purge: "moves R w (ignoring (purge env a b) w)"
proof -
  have "moves R w (change env (\<lambda>st. (let st1 = (if a then st\<lparr>st_sessions := []\<rparr> else st)
      in if b then st1\<lparr>st_outbox := [], st_dead := []\<rparr> else st1)) w)"
    by (rule moves_change) (auto simp: Let_def split: if_splits)
  then have "moves R w (purge env a b w)"
    unfolding purge_def Let_def by (simp only: moves_stop moves_then_return split: if_split) simp
  then show ?thesis by (simp add: ignoring_def)
qed

text \<open>Updates that leave turn and queue alone, and the sessions that hold a reservation.\<close>

lemma session_move_same:
  "turn_of s' = turn_of s \<Longrightarrow> s_queued s' = s_queued s \<Longrightarrow> session_move clk op i s s'"
  by (simp add: session_move_def)

lemma turn_of_cong:
  "s_inflight s' = s_inflight s \<Longrightarrow> s_reservation_owner s' = s_reservation_owner s \<Longrightarrow>
     s_reservation_until s' = s_reservation_until s \<Longrightarrow> turn_of s' = turn_of s"
  by (cases "s_inflight s") (simp_all add: turn_of_def)

lemmas same_turn = session_move_same [OF turn_of_cong]

lemma turn_of_released: "s_inflight s = None \<Longrightarrow> s_reservation_owner s = None \<Longrightarrow> turn_of s = Free"
  by (simp add: turn_of_def)

lemma turn_of_cases:
  assumes "session_ok i s"
  obtains m where "turn_of s = Running m" "s_inflight s = Some m" "s_reservation_owner s = None"
      "s_reservation_until s = None"
  | ow t where "turn_of s = Reserved ow t" "s_inflight s = None" "s_reservation_owner s = Some ow"
      "s_reservation_until s = Some t" "s_status s = ''working''"
  | "turn_of s = Free" "s_inflight s = None" "s_reservation_owner s = None" "s_reservation_until s = None"
  using assms
  by (cases "s_inflight s"; cases "s_reservation_owner s"; cases "s_reservation_until s")
    (auto simp: turn_of_def session_ok_def lease_ok_def)

lemma move_pushed:
  assumes "session_ok i s" and "op \<in> {OpPush i m, OpAppend i m}"
  shows "session_move (now env) op i s (pushed env m rc False s)"
  using assms(1)
proof (cases rule: turn_of_cases)
  case (2 ow t)
  then show ?thesis using assms(2)
    by (auto simp: session_move_def pushed_def Let_def turn_of_def turn_step.simps)
qed (simp_all add: session_move_def pushed_def Let_def turn_of_def)

lemma move_append_reserved:
  assumes "session_ok i s" and "holds_reservation ow s"
  shows "session_move (now env) (OpAppendReserved i ow m) i s (pushed env m True True s)"
  using assms(1)
proof (cases rule: turn_of_cases)
  case (2 ow t)
  then show ?thesis using assms(2)
    by (auto simp: session_move_def pushed_def Let_def turn_of_def turn_step.simps holds_reservation_def)
qed (use assms(2) in \<open>simp_all add: holds_reservation_def\<close>)

lemma move_enqueued:
  assumes "session_ok i s"
  shows "session_move clk (OpQueue i m rs) i s (enqueued env m rs s)"
  using assms
  by (cases rule: turn_of_cases) (auto simp: session_move_def enqueued_def Let_def turn_of_def)

lemma move_begun:
  assumes "session_ok i s" and "s_inflight s = None" and "\<not> has_live_tui_reservation (now env 0) s"
  shows "session_move (now env) (OpBegin i m rs c) i s (begun env m rs s)"
proof -
  have "remove_first (\<lambda>q. m_id q = m_id m) (s_queued s) = filter (\<lambda>q. m_id q \<noteq> m_id m) (s_queued s)"
    using assms(1) by (intro remove_first_distinct) (simp add: session_ok_def queue_ok_def)
  then have q: "s_queued (begun env m rs s) = queue_after (OpBegin i m rs c) i (s_queued s)"
    by (simp add: begun_def Let_def)
  have t: "turn_of (begun env m rs s) = Running m" by (simp add: begun_def Let_def turn_of_def)
  from assms(1) have "turn_step (now env) (OpBegin i m rs c) i (turn_of s) (Running m)"
  proof (cases rule: turn_of_cases)
    case (2 ow u)
    with assms show ?thesis
      by (auto simp: has_live_tui_reservation_def reservation_expired_def intro: turn_step.begin_expired)
  qed (use assms(2) in \<open>auto intro: turn_step.begin_free\<close>)
  with q t show ?thesis by (simp add: session_move_def)
qed

lemma move_cleared: "session_move clk (OpClear i st) i s (cleared env st s)"
  by (auto simp: session_move_def cleared_def Let_def turn_of_def intro: turn_step.finish_clear)

lemma move_cancel_idle:
  assumes "session_ok i s" and "s_inflight s = None"
  shows "session_move clk (OpCancel i) i s (cleared env ''cancelled'' s)"
  using assms(1)
proof (cases rule: turn_of_cases)
  case (2 ow t)
  have "turn_of (cleared env ''cancelled'' s) = Free" by (simp add: cleared_def Let_def turn_of_def)
  with 2 show ?thesis by (simp add: session_move_def turn_step.abandon) (simp add: cleared_def Let_def)
qed (use assms(2) in \<open>simp_all add: session_move_def cleared_def Let_def turn_of_def\<close>)

lemma move_status_set:
  assumes "session_ok i s"
  shows "session_move clk (OpSetStatus i st) i s (status_set env st s)"
  using assms
proof (cases rule: turn_of_cases)
  case (2 ow t)
  then show ?thesis
    by (cases "st = ''working''")
      (auto simp: session_move_def status_set_def Let_def turn_of_def turn_step.simps)
qed (auto simp: session_move_def status_set_def Let_def turn_of_def)

lemma move_cancel_active:
  assumes "session_ok i s" and "s_inflight s \<noteq> None"
  shows "session_move clk (OpCancel i) i s (status_set env ''cancelled'' s)"
  using assms(1)
  by (cases rule: turn_of_cases)
    (use assms(2) in \<open>auto simp: session_move_def status_set_def Let_def turn_of_def\<close>)

lemma move_replied: "session_move clk (OpReply i m d c ch th tx) i s (replied env m s)"
  by (simp add: session_move_def replied_def turn_of_def turn_step.finish_reply)

text \<open>Every operation, by the shape of its update.\<close>

abbreviation session_moves :: "'d env \<Rightarrow> store_op \<Rightarrow> 'd world \<Rightarrow> bool" where
  "session_moves env op w \<equiv> moves (session_move (now env) op) w (exec env op w)"

lemma moves_lifecycle:
  "session_moves env (OpCreate i m) w" "session_moves env (OpCreateScheduled i m) w"
  "session_moves env (OpEnsure i m) w" "session_moves env (OpEnsureSchedule i m) w"
  "session_moves env (OpRemove i) w" "session_moves env (OpRemoveDeep i) w"
  "session_moves env (OpRename i j) w" "session_moves env (OpFork i j) w"
  "session_moves env (OpPurge a b) w"
  by (simp_all add: create_def create_scheduled_def moves_create_session moves_ensure
      moves_ensure_schedule moves_remove moves_remove_deep moves_rename moves_fork moves_purge)

lemma moves_settings:
  "session_moves env (OpArchive i b) w" "session_moves env (OpRoute i c ch th p) w"
  "session_moves env (OpNotice i m) w" "session_moves env (OpCompact i ow ms) w"
  "session_moves env (OpClearHistory i) w" "session_moves env (OpSetPhase i ph) w"
  "session_moves env (OpSetModel i md) w" "session_moves env (OpSetUsage i us) w"
  "session_moves env (OpSetWorkspace i wp) w"
  by (auto simp: archive_session_def route_def append_notice_def set_compacted_context_reserved_def
      clear_history_def set_phase_def set_model_def set_context_usage_def set_workspace_def
      intro!: moves_on_session disjI2 same_turn split: option.splits)

lemma moves_transcript:
  "session_moves env (OpPush i m) w" "session_moves env (OpAppend i m) w"
  "session_moves env (OpAppendReserved i ow m) w" "session_moves env (OpQueue i m rs) w"
  by (auto simp: push_def append_message_def append_reserved_def push_with_status_def queue_with_roles_def
      move_append_reserved move_enqueued intro!: moves_on_session disjI2 move_pushed split: option.splits)

lemma moves_begin: "session_moves env (OpBegin i m rs c) w"
proof -
  have "st_sessions (on_session i f (case c of None \<Rightarrow> st | Some c \<Rightarrow> (let st0 = drop_deferred c (m_id m) st in
      st0\<lparr>st_deferred_acknowledged := bremove (seen_key (digest env) c (m_id m))
        (st_deferred_acknowledged st0)\<rparr>))) = badjust i f (st_sessions st)" for f st
    by (cases c) (simp_all add: on_session_def Let_def)
  then show ?thesis
    by (auto simp: begin_with_roles_clearing_deferred_def Let_def bget_adjust sessions_ok_def
        intro!: moves_change move_begun split: option.splits if_splits)
qed

lemma moves_clear:
  assumes "\<And>s. bget (st_sessions (fst w)) i = Some s \<Longrightarrow> session_ok i s \<Longrightarrow> R i s (cleared env status s)"
  shows "moves R w (clear env i status w)"
  using assms
  by (auto simp: clear_def Let_def on_session_def bget_adjust sessions_ok_def
      intro!: moves_change split: option.splits if_splits)

lemma moves_turn:
  "session_moves env (OpClear i status) w" "session_moves env (OpSetStatus i status) w"
  "session_moves env (OpCancel i) w"
proof -
  show "session_moves env (OpClear i status) w"
    by (auto intro!: moves_clear move_cleared)
  show "session_moves env (OpSetStatus i status) w"
    by (auto simp: set_status_def move_status_set intro!: moves_on_session)
  show "session_moves env (OpCancel i) w"
    by (auto simp: cancel_def Let_def set_status_def move_cancel_idle move_cancel_active
        intro!: moves_clear moves_on_session split: option.splits)
qed

lemma moves_reservations:
  "session_moves env (OpReserve i ow) w" "session_moves env (OpRenew i ow) w"
proof -
  have "session_move (now env) (OpReserve i ow) i s (s\<lparr>s_status := ''working'',
       s_reservation_until := Some (sat_add (now env 0) TUI_RESERVATION_TTL),
       s_reservation_owner := Some ow, s_updated := now env 1\<rparr>)"
    if "session_ok i s" "s_inflight s = None" "s_status s \<noteq> ''working''" for s
    using that(1)
    by (cases rule: turn_of_cases)
      (use that in \<open>auto simp: session_move_def turn_of_def intro: turn_step.take\<close>)
  then show "session_moves env (OpReserve i ow) w"
    by (auto simp: reserve_def intro!: moves_on_session split: option.splits)
  have "session_move (now env) (OpRenew i ow) i s
      (s\<lparr>s_reservation_until := Some (sat_add (now env 0) TUI_RESERVATION_TTL)\<rparr>)"
    if "session_ok i s" "s_reservation_owner s = Some ow" "s_inflight s = None" for s
    using that(1)
    by (cases rule: turn_of_cases)
      (use that in \<open>auto simp: session_move_def turn_of_def intro: turn_step.renew\<close>)
  then show "session_moves env (OpRenew i ow) w"
    by (auto simp: renew_reservation_def intro!: moves_on_session split: option.splits)
qed

lemma moves_recover: "session_moves env OpRecover w"
proof -
  have "session_move (now env) OpRecover i s (s\<lparr>s_status := ''idle'', s_reservation_until := None,
       s_reservation_owner := None, s_updated := now env 0\<rparr>)"
    if "session_ok i s" "lapsed (now env 0) s" for i s
    using that(1)
    by (cases rule: turn_of_cases)
      (use that in \<open>auto simp: session_move_def turn_of_def lapsed_def reservation_expired_def
         intro: turn_step.expire\<close>)
  then show ?thesis
    by (auto simp: recover_reservations_def Let_def bget_values sessions_ok_def intro!: moves_change)
qed

lemma moves_reply: "session_moves env (OpReply sid m i c ch th t) w"
  by (auto simp: reply_def Let_def on_session_def bget_adjust
      intro!: moves_change move_replied split: option.splits if_splits)

lemma moves_start_stream: "session_moves env (OpStartStream sid i c ch th t) w"
  by (auto simp: start_stream_def Let_def on_session_def bget_adjust
      intro!: moves_change same_turn split: option.splits if_splits)

lemma moves_update_delivery: "moves R w (update_delivery env i f w)"
  by (auto simp: update_delivery_def intro!: moves_sessions_same)

lemma moves_deliveries:
  "session_moves env (OpQueueDelivery i c ch p th t) w" "session_moves env (OpStreamSending i t) w"
  "session_moves env (OpStreamStarted i t) w" "session_moves env (OpStreamUpdated i) w"
  "session_moves env (OpSending i) w" "session_moves env (OpMarkUncertain i t) w"
  "session_moves env (OpRetry i) w" "session_moves env (OpAck i) w"
  "session_moves env (OpDead i) w" "session_moves env (OpDrop i) w"
  by (auto simp: queue_delivery_def stream_sending_def stream_started_def stream_updated_def sending_def
      mark_uncertain_def retry_delivery_def ack_def dead_def drop_delivery_def buried_def
      moves_update_delivery intro!: moves_sessions_same split: option.splits)

lemma moves_events:
  "session_moves env (OpMarkDeferred c i) w" "session_moves env (OpDefer c e) w"
  "session_moves env (OpCommit c i v) w" "session_moves env (OpCommitRetained c i v) w"
  by (auto simp: mark_deferred_acknowledged_def defer_event_def commit_def commit_retained_def
      commit_event_def Let_def intro!: moves_sessions_same split: option.splits)

lemmas moves_ops = moves_lifecycle moves_settings moves_transcript moves_begin moves_turn
  moves_reservations moves_recover moves_reply moves_start_stream moves_deliveries moves_events

lemma moves_exec: "session_moves env op w"
  by (cases op) (simp_all only: moves_ops)

section \<open>What the session operations leave alone\<close>

fun session_only :: "store_op \<Rightarrow> bool" where
  "session_only (OpBegin i m rs c) = False"
| "session_only (OpClear i st) = False"
| "session_only (OpCancel i) = False"
| "session_only (OpQueueDelivery i c ch p th t) = False"
| "session_only (OpReply s m i c ch th t) = False"
| "session_only (OpStartStream s i c ch th t) = False"
| "session_only (OpStreamSending i t) = False"
| "session_only (OpStreamStarted i t) = False"
| "session_only (OpStreamUpdated i) = False"
| "session_only (OpSending i) = False"
| "session_only (OpMarkUncertain i e) = False"
| "session_only (OpRetry i) = False"
| "session_only (OpAck i) = False"
| "session_only (OpDead i) = False"
| "session_only (OpDrop i) = False"
| "session_only (OpPurge a b) = False"
| "session_only (OpMarkDeferred c i) = False"
| "session_only (OpDefer c e) = False"
| "session_only (OpCommit c i v) = False"
| "session_only (OpCommitRetained c i v) = False"
| "session_only op = True"

lemma keeps_sessions_update:
  "(\<And>st x. P (st\<lparr>st_sessions := x\<rparr>) = P st) \<Longrightarrow> keeps P w (change env (\<lambda>st. st\<lparr>st_sessions := f st\<rparr>) w)"
  by (rule keeps_change) simp

lemma keeps_session_update:
  "(\<And>st x. P (st\<lparr>st_sessions := x\<rparr>) = P st) \<Longrightarrow> keeps P w (change env (on_session i f) w)"
  by (rule keeps_change) (simp add: on_session_def)

lemma keeps_drop_records:
  "keeps P w (case drop_records env i (snd w) of (r, d') \<Rightarrow> (r, fst w, d'))"
  by (simp add: keeps_def split: prod.splits)

lemma keeps_lifecycle:
  assumes P: "\<And>st x. P (st\<lparr>st_sessions := x\<rparr>) = P st"
  shows "keeps P w (create_session env i m b w)" "keeps P w (remove env i w)"
    "keeps P w (remove_deep env i w)" "keeps P w (ensure_schedule env i m w)"
    "keeps P w (rename_session env i j w)" "keeps P w (fork env i j w)"
proof -
  show cr: "keeps P w (create_session env i m b w)" for w i m b
    by (cases b) (auto simp: create_session_def Let_def intro!: keeps_sessions_update P)
  show rm: "keeps P w (remove env i w)" for w i
    by (auto simp: remove_def intro!: keeps_sessions_update P split: option.splits)
  show rd: "keeps P w (remove_deep env i w)" for w i
    unfolding remove_deep_def
    by (rule keeps_and_then [OF rm]) (auto simp: keeps_drop_records split: option.splits)
  show "keeps P w (ensure_schedule env i m w)"
    by (auto simp: ensure_schedule_def Let_def create_scheduled_def cr
        intro!: keeps_and_then rd split: option.splits)
  show "keeps P w (rename_session env i j w)"
    by (auto simp: rename_session_def Let_def intro!: keeps_sessions_update P split: option.splits)
  show "keeps P w (fork env i j w)"
    by (auto simp: fork_def Let_def intro!: keeps_sessions_update P split: option.splits)
qed

lemma keeps_session_only:
  assumes P: "\<And>st x. P (st\<lparr>st_sessions := x\<rparr>) = P st" and "session_only op"
  shows "keeps P w (exec env op w)"
  using assms(2)
proof (cases op)
  case OpRecover
  show ?thesis unfolding OpRecover
    by (auto simp: recover_reservations_def Let_def intro!: keeps_sessions_update P)
qed (auto simp: create_def create_scheduled_def ensure_def keeps_lifecycle [OF P] archive_session_def
      route_def push_def append_message_def append_notice_def append_reserved_def push_with_status_def
      set_compacted_context_reserved_def clear_history_def queue_with_roles_def set_status_def
      set_phase_def reserve_def renew_reservation_def set_model_def set_context_usage_def
      set_workspace_def intro!: keeps_session_update P split: option.splits)

text \<open>Those that also change deliveries leave offsets and events alone.\<close>

fun delivery_only :: "store_op \<Rightarrow> bool" where
  "delivery_only (OpBegin i m rs c) = False"
| "delivery_only (OpMarkDeferred c i) = False"
| "delivery_only (OpDefer c e) = False"
| "delivery_only (OpCommit c i v) = False"
| "delivery_only (OpCommitRetained c i v) = False"
| "delivery_only op = True"

lemma keeps_update_other:
  "(\<And>st x. P (st\<lparr>st_outbox := x\<rparr>) = P st) \<Longrightarrow> keeps P w (update_delivery env i f w)"
  by (auto simp: update_delivery_def intro!: keeps_change)

lemma keeps_delivery_only:
  assumes S: "\<And>st x. P (st\<lparr>st_sessions := x\<rparr>) = P st" and O: "\<And>st x. P (st\<lparr>st_outbox := x\<rparr>) = P st"
    and D: "\<And>st x. P (st\<lparr>st_dead := x\<rparr>) = P st" and "delivery_only op"
  shows "keeps P w (exec env op w)"
proof (cases "session_only op")
  case True
  then show ?thesis using keeps_session_only [OF S] by blast
next
  case False
  have OD: "P (st\<lparr>st_outbox := x, st_dead := y\<rparr>) = P st" for st x y using O D by simp
  have SO: "P ((on_session i f st)\<lparr>st_outbox := x\<rparr>) = P st" "P (on_session i f st) = P st" for i f st x
    using S O by (simp_all add: on_session_def)
  have cl: "keeps P w (clear env i st w)" for i st
    by (auto simp: clear_def Let_def SO intro!: keeps_change split: option.splits)
  have dd: "keeps P w (dead env i w)" for i
    by (auto simp: dead_def buried_def OD intro!: keeps_change split: option.splits)
  from False show ?thesis using assms(4)
    by (cases op) (auto simp: cl dd cancel_def set_status_def queue_delivery_def reply_def start_stream_def
        stream_sending_def stream_started_def stream_updated_def sending_def mark_uncertain_def
        retry_delivery_def ack_def drop_delivery_def ignoring_def purge_def Let_def S O D OD SO
        intro!: keeps_change keeps_update_other keeps_and_then split: option.splits)
qed

end
