(* ===== verification/Delivery_Machine.thy ===== *)
theory Delivery_Machine
  imports Store_Machine
begin

text \<open>
  The life of a delivery under the operations of the store, as a relation on its status, and
  the proof that every operation refines it. Also here: an operation that fails has changed
  nothing, offsets only grow, and a deferred event leaves only when it is handled.
\<close>

section \<open>The life of a delivery\<close>

inductive delivery_step :: "store_op \<Rightarrow> string \<Rightarrow> delivery_status \<Rightarrow> delivery_status \<Rightarrow> bool" where
  stream_sends: "delivery_step (OpStreamSending i t) i x Sending"
| stream_starts: "delivery_step (OpStreamStarted i m) i x Streaming"
| stream_updates: "delivery_step (OpStreamUpdated i) i x Streaming"
| sends: "delivery_step (OpSending i) i x Sending"
| doubts: "delivery_step (OpMarkUncertain i e) i x Uncertain"
| retries: "delivery_step (OpRetry i) i Uncertain Pending"
| finishes: "x = Pending \<or> x = Streaming \<Longrightarrow> delivery_step (OpReply s m i c ch th t) i x Pending"
| doubts_reply: "x = Sending \<or> x = Uncertain \<Longrightarrow> delivery_step (OpReply s m i c ch th t) i x Uncertain"
| ends: "x = Sending \<or> x = Streaming \<Longrightarrow> delivery_step (OpClear s st) i x Uncertain"
| ends_cancel: "x = Sending \<or> x = Streaming \<Longrightarrow> delivery_step (OpCancel s) i x Uncertain"

inductive_simps delivery_step_pending: "delivery_step op i x Pending"
inductive_cases delivery_stepE: "delivery_step op i x y"

definition delivery_moves :: "store_op \<Rightarrow> 'd world \<Rightarrow> 'a io_result \<times> 'd world \<Rightarrow> bool" where
  "delivery_moves op w r \<longleftrightarrow> (outbox_ok (st_outbox (fst w)) \<longrightarrow>
     (\<forall>i d d'. find_delivery i (fst w) = Some d \<longrightarrow> find_delivery i (fst (snd r)) = Some d' \<longrightarrow>
        d_status d' = d_status d \<or> delivery_step op i (d_status d) (d_status d')))"

lemma delivery_moves_same:
  "st_outbox (fst (snd r)) = st_outbox (fst w) \<Longrightarrow> delivery_moves op w r"
  by (simp add: delivery_moves_def find_delivery_def)

lemma delivery_moves_stop [simp]:
  "delivery_moves op w (fail k m w)" "delivery_moves op w (return x w)" "delivery_moves op w (session_missing w)"
  by (simp_all add: delivery_moves_same fail_def return_def session_missing_def)

lemma delivery_moves_change:
  assumes "\<And>i d d'. outbox_ok (st_outbox (fst w)) \<Longrightarrow> find_delivery i (fst w) = Some d \<Longrightarrow>
      find_delivery i (u (fst w)) = Some d' \<Longrightarrow>
      d_status d' = d_status d \<or> delivery_step op i (d_status d) (d_status d')"
  shows "delivery_moves op w (change env u w)"
proof (cases "fst (snd (change env u w)) = u (fst w)")
  case True
  show ?thesis unfolding delivery_moves_def True using assms by blast
next
  case False
  then show ?thesis using change_cases [of env u w] by (intro delivery_moves_same) auto
qed

text \<open>The shapes of an outbox update.\<close>

lemma find_updated:
  assumes "List.find (\<lambda>d. d_id d = i) (update_first (\<lambda>d. d_id d = j) f ds) = Some d'"
    and "List.find (\<lambda>d. d_id d = i) ds = Some d" and f: "\<And>d. d_id (f d) = d_id d"
  shows "d' = (if i = j then f d else d)"
proof (cases "i = j")
  case True
  then show ?thesis using assms find_update_first [of "\<lambda>d. d_id d = j" f ds] by auto
next
  case False
  then show ?thesis using assms(1,2)
      find_update_first_other [of "\<lambda>d. d_id d = j" "\<lambda>d. d_id d = i" f ds] by (auto simp: f)
qed

lemma find_appended:
  "List.find p ds = Some d \<Longrightarrow> List.find p (ds @ es) = Some d"
  by (induction ds) auto

lemma find_filtered:
  assumes "distinct (map d_id ds)" and "List.find (\<lambda>d. d_id d = i) ds = Some d"
    and "List.find (\<lambda>d. d_id d = i) (remove_first p ds) = Some d'"
  shows "d' = d"
proof -
  have "d \<in> set ds" "d_id d = i" using assms(2) by (auto simp: find_Some_iff in_set_conv_nth)
  moreover have "d' \<in> set (remove_first p ds)" "d_id d' = i"
    using assms(3) by (auto simp: find_Some_iff in_set_conv_nth)
  then have "d' \<in> set ds" "d_id d' = i" using set_remove_first [of p ds] by auto
  ultimately show ?thesis using assms(1) by (auto simp: distinct_map inj_on_def)
qed

lemma delivery_moves_update:
  assumes "\<And>d. d_id (f d) = d_id d"
    and "\<And>d. find_delivery j (fst w) = Some d \<Longrightarrow>
      d_status (f d) = d_status d \<or> delivery_step op j (d_status d) (d_status (f d))"
  shows "delivery_moves op w (update_delivery env j f w)"
  using assms
  by (auto simp: update_delivery_def find_delivery_def dest!: find_updated
      intro!: delivery_moves_change split: if_splits)

lemma delivery_moves_states:
  "delivery_moves (OpStreamSending i t) w (stream_sending env i t w)"
  "delivery_moves (OpStreamStarted i t) w (stream_started env i t w)"
  "delivery_moves (OpStreamUpdated i) w (stream_updated env i w)"
  "delivery_moves (OpSending i) w (sending env i w)"
  "delivery_moves (OpMarkUncertain i t) w (mark_uncertain env i t w)"
  "delivery_moves (OpRetry i) w (retry_delivery env i w)"
  by (auto simp: stream_sending_def stream_started_def stream_updated_def sending_def mark_uncertain_def
      retry_delivery_def intro!: delivery_moves_update delivery_step.intros split: option.splits)

lemma delivery_moves_append:
  "delivery_moves op w (change env (\<lambda>st. (g st)\<lparr>st_outbox := st_outbox st @ ds st\<rparr>) w)"
  by (rule delivery_moves_change) (auto simp: find_delivery_def find_appended)

lemma delivery_moves_ack: "delivery_moves op w (ack env i w)"
  by (auto simp: ack_def position_split find_delivery_def outbox_ok_def
      intro!: delivery_moves_change dest: find_filtered split: option.splits)

lemma delivery_moves_dead: "delivery_moves op w (dead env i w)"
  by (auto simp: dead_def buried_def find_delivery_def outbox_ok_def
      intro!: delivery_moves_change dest: find_filtered split: option.splits)

lemma delivery_moves_clear:
  assumes "\<And>j x. x = Sending \<or> x = Streaming \<Longrightarrow> delivery_step op j x Uncertain"
  shows "delivery_moves op w (clear env i status w)"
proof -
  have *: "d_status d' = d_status d \<or> delivery_step op j (d_status d) (d_status d')"
    if "List.find (\<lambda>d. d_id d = j) (update_first (\<lambda>d. d_id d = k) (streaming_ended t) ds) = Some d'"
      and "List.find (\<lambda>d. d_id d = j) ds = Some d" for j k t ds d d'
    using find_updated [OF that] assms by (auto simp: streaming_ended_def)
  then show ?thesis
    by (auto simp: clear_def Let_def find_delivery_def intro!: delivery_moves_change dest!: *
        split: option.splits)
qed

lemma delivery_moves_cancel: "delivery_moves (OpCancel i) w (cancel env i w)"
proof -
  have "st_outbox (fst (snd (set_status env i st w))) = st_outbox (fst w)" for st
    using keeps_session_only [where P = "\<lambda>st. st_outbox st = st_outbox (fst w)" and op = "OpSetStatus i st"
        and env = env and w = w] by (simp add: keeps_def)
  then have "delivery_moves (OpCancel i) w (set_status env i st w)" for st
    by (rule delivery_moves_same)
  moreover have "delivery_moves (OpCancel i) w (clear env i st w)" for st
    by (rule delivery_moves_clear) (rule delivery_step.ends_cancel)
  ultimately show ?thesis by (simp add: cancel_def Let_def)
qed

lemma delivery_moves_reply:
  "delivery_moves (OpReply s m i c ch th t) w (reply env s m i c ch th t w)"
proof -
  have *: "d_status d' = d_status d \<or> delivery_step (OpReply s m i c ch th t) j (d_status d) (d_status d')"
    if d': "List.find (\<lambda>d. d_id d = j) (update_first (\<lambda>d. d_id d = i) (completed env c ch p th t u mid) ds) = Some d'"
      and d: "List.find (\<lambda>d. d_id d = j) ds = Some d"
      and u: "u = list_ex (\<lambda>d. d_id d = i \<and> (d_status d = Sending \<or> d_status d = Uncertain)) ds"
      and dist: "distinct (map d_id ds)" for j p u mid ds d d'
  proof -
    have d'': "d' = (if j = i then completed env c ch p th t u mid d else d)"
      using find_updated [OF d' d] by (simp add: completed_def)
    have "d \<in> set ds" "d_id d = j" using d by (auto simp: find_Some_iff)
    then have "j = i \<Longrightarrow> u = (d_status d = Sending \<or> d_status d = Uncertain)"
      using dist by (auto simp: u list_ex_iff distinct_map inj_on_def)
    then show ?thesis
      unfolding d'' by (cases "d_status d") (auto simp: completed_def intro: delivery_step.intros)
  qed
  show ?thesis
    by (auto simp: reply_def Let_def find_delivery_def find_appended outbox_ok_def
        intro!: delivery_moves_change dest!: * split: option.splits if_splits)
qed

lemma delivery_moves_quiet:
  assumes "keeps (\<lambda>st. st_outbox st = st_outbox (fst w)) w r"
  shows "delivery_moves op w r"
  using assms by (intro delivery_moves_same) (simp add: keeps_def)

lemma delivery_moves_start:
  "delivery_moves op w (start_stream env s i c ch th t w)" "delivery_moves op w (queue_delivery env i c ch p th t w)"
  by (auto simp: start_stream_def queue_delivery_def Let_def find_delivery_def find_appended
      intro!: delivery_moves_change split: option.splits if_splits)

lemma delivery_moves_then_return [simp]:
  "delivery_moves op w (and_then a (\<lambda>_. return x) w) = delivery_moves op w (a w)"
  by (cases "a w"; cases "fst (a w)") (auto simp: and_then_def return_def delivery_moves_def)

lemma delivery_moves_purge: "delivery_moves op w (ignoring (purge env a b) w)"
proof -
  have "delivery_moves op w (change env (\<lambda>st. (let st1 = (if a then st\<lparr>st_sessions := []\<rparr> else st)
      in if b then st1\<lparr>st_outbox := [], st_dead := []\<rparr> else st1)) w)"
    by (rule delivery_moves_change) (auto simp: Let_def find_delivery_def split: if_splits)
  then have "delivery_moves op w (purge env a b w)"
    unfolding purge_def Let_def
    by (simp only: delivery_moves_stop delivery_moves_then_return split: if_split) simp
  then show ?thesis by (simp add: ignoring_def)
qed

lemma quiet_events:
  "keeps (\<lambda>st. st_outbox st = ob) w (begin_with_roles_clearing_deferred env i m rs c' w)"
  "keeps (\<lambda>st. st_outbox st = ob) w (mark_deferred_acknowledged env c i w)"
  "keeps (\<lambda>st. st_outbox st = ob) w (defer_event env c e w)"
  "keeps (\<lambda>st. st_outbox st = ob) w (commit_event env c i v retained w)"
  by (auto simp: begin_with_roles_clearing_deferred_def mark_deferred_acknowledged_def defer_event_def
      commit_event_def Let_def intro!: keeps_change split: option.splits)

lemma delivery_moves_exec: "delivery_moves op w (exec env op w)"
proof (cases "session_only op")
  case True
  then show ?thesis by (intro delivery_moves_quiet keeps_session_only) simp_all
next
  case False
  then show ?thesis
    by (cases op) (simp_all add: delivery_moves_states delivery_moves_ack delivery_moves_dead
        delivery_moves_clear [OF delivery_step.ends] delivery_moves_cancel delivery_moves_reply
        delivery_moves_start delivery_moves_purge drop_delivery_def commit_def commit_retained_def
        delivery_moves_quiet [OF quiet_events(1)] delivery_moves_quiet [OF quiet_events(2)]
        delivery_moves_quiet [OF quiet_events(3)] delivery_moves_quiet [OF quiet_events(4)])
qed

section \<open>Failures\<close>

text \<open>An operation that fails has changed nothing in memory.\<close>

definition tidy :: "'d world \<Rightarrow> 'a io_result \<times> 'd world \<Rightarrow> bool" where
  "tidy w r \<longleftrightarrow> (case fst r of Inl e \<Rightarrow> fst (snd r) = fst w | Inr x \<Rightarrow> True)"

lemma tidy_change [simp]: "tidy w (change env u w)"
  using change_cases [of env u w] by (auto simp: tidy_def)

lemma tidy_stop [simp]: "tidy w (fail k m w)" "tidy w (return x w)" "tidy w (session_missing w)"
  by (simp_all add: tidy_def fail_def return_def session_missing_def)

lemma tidy_then_return [simp]: "tidy w (and_then a (\<lambda>_. return x) w) = tidy w (a w)"
  by (cases "a w"; cases "fst (a w)") (auto simp: and_then_def return_def tidy_def)

lemma tidy_sessions:
  "tidy w (create_session env i m b w)" "tidy w (remove env i w)" "tidy w (rename_session env i j w)"
  "tidy w (fork env i j w)" "tidy w (archive_session env i b w)" "tidy w (route env i c ch th p w)"
  "tidy w (push_with_status env i msg x y w)" "tidy w (append_notice env i msg w)"
  "tidy w (set_compacted_context_reserved env i ow ms w)" "tidy w (clear_history env i w)"
  "tidy w (queue_with_roles env i msg rs w)" "tidy w (begin_with_roles_clearing_deferred env i msg rs c' w)"
  "tidy w (clear env i st w)" "tidy w (set_status env i st w)" "tidy w (set_phase env i ph w)"
  "tidy w (reserve env i ow w)" "tidy w (recover_reservations env w)" "tidy w (renew_reservation env i ow w)"
  "tidy w (set_model env i m w)" "tidy w (set_context_usage env i us w)" "tidy w (set_workspace env i wp w)"
  by (simp_all add: create_session_def remove_def rename_session_def fork_def archive_session_def
      route_def push_with_status_def append_notice_def set_compacted_context_reserved_def clear_history_def
      queue_with_roles_def begin_with_roles_clearing_deferred_def clear_def set_status_def set_phase_def
      reserve_def recover_reservations_def renew_reservation_def set_model_def set_context_usage_def
      set_workspace_def Let_def split: option.split)

lemma tidy_update_delivery [simp]: "tidy w (update_delivery env i f w)"
  by (simp add: update_delivery_def)

lemma tidy_deliveries:
  "tidy w (queue_delivery env i c ch p th t w)" "tidy w (reply env s msg i c ch th t w)"
  "tidy w (start_stream env s i c ch th t w)" "tidy w (retry_delivery env i w)" "tidy w (ack env i w)"
  "tidy w (dead env i w)" "tidy w (purge env a b w)" "tidy w (mark_deferred_acknowledged env c i w)"
  "tidy w (defer_event env c e w)" "tidy w (commit_event env c i v retained w)"
  by (simp_all add: queue_delivery_def reply_def start_stream_def retry_delivery_def ack_def dead_def
      purge_def mark_deferred_acknowledged_def defer_event_def commit_event_def Let_def split: option.split)

text \<open>The two operations that delete record files as well may fail half way.\<close>

fun removes_records :: "store_op \<Rightarrow> bool" where
  "removes_records (OpRemoveDeep i) = True"
| "removes_records (OpEnsureSchedule i m) = True"
| "removes_records op = False"

lemma tidy_exec: "\<not> removes_records op \<Longrightarrow> tidy w (exec env op w)"
  by (cases op) (simp_all add: tidy_sessions tidy_deliveries create_def create_scheduled_def ensure_def
      push_def append_message_def append_reserved_def cancel_def Let_def stream_sending_def
      stream_started_def stream_updated_def sending_def mark_uncertain_def drop_delivery_def
      ignoring_def commit_def commit_retained_def split: option.split)

section \<open>Offsets and deferred events\<close>

lemma offset_exec:
  "keeps (\<lambda>st. \<exists>v. bget (st_offsets st) c = Some v \<and> k \<le> v) w (exec env op w)"
proof (cases "delivery_only op")
  case True
  then show ?thesis by (intro keeps_delivery_only) simp_all
next
  case False
  have "keeps (\<lambda>st. \<exists>v. bget (st_offsets st) c = Some v \<and> k \<le> v) w (commit_event env c' i v retained w)" for c' i v retained
    unfolding commit_event_def Let_def
    by (rule keeps_change) (cases v; auto simp: bget_insert bget_adjust split: option.splits)
  with False show ?thesis
    by (cases op) (auto simp: begin_with_roles_clearing_deferred_def mark_deferred_acknowledged_def
        defer_event_def commit_def commit_retained_def Let_def intro!: keeps_change split: option.splits)
qed

definition is_deferred :: "string \<Rightarrow> json \<Rightarrow> store \<Rightarrow> bool" where
  "is_deferred c e st \<longleftrightarrow> (case bget (st_deferred st) c of None \<Rightarrow> False | Some es \<Rightarrow> e \<in> set es)"

text \<open>Whether an operation handles the event \<open>e\<close> of channel \<open>c\<close>.\<close>

fun handles :: "string \<Rightarrow> json \<Rightarrow> store_op \<Rightarrow> bool" where
  "handles c e (OpBegin i m rs c') = (c' = Some c \<and> event_has_id (m_id m) e)"
| "handles c e (OpCommit c' i v) = (c' = c \<and> event_has_id i e)"
| "handles c e op = False"

lemma is_deferred_rest [simp]:
  "is_deferred c e (st\<lparr>st_sessions := x\<rparr>) = is_deferred c e st"
  "is_deferred c e (st\<lparr>st_outbox := o'\<rparr>) = is_deferred c e st"
  "is_deferred c e (st\<lparr>st_dead := o'\<rparr>) = is_deferred c e st"
  "is_deferred c e (st\<lparr>st_deferred_acknowledged := ack'\<rparr>) = is_deferred c e st"
  "is_deferred c e (st\<lparr>st_offsets := offs\<rparr>) = is_deferred c e st"
  "is_deferred c e (st\<lparr>st_seen := seen'\<rparr>) = is_deferred c e st"
  "is_deferred c e (on_session i f st) = is_deferred c e st"
  by (simp_all add: is_deferred_def on_session_def)

lemma is_deferred_drop:
  "is_deferred c e st \<Longrightarrow> \<not> (c' = c \<and> event_has_id i e) \<Longrightarrow> is_deferred c e (drop_deferred c' i st)"
  by (auto simp: is_deferred_def drop_deferred_def Let_def bget_remove bget_adjust filter_empty_conv
      split: option.splits)

lemma is_deferred_append: "is_deferred c e st \<Longrightarrow> is_deferred c e (with_deferred c' e' st)"
  by (auto simp: is_deferred_def with_deferred_def bget_insert bget_adjust split: option.splits)

lemma deferred_exec:
  assumes "\<not> handles c e op"
  shows "keeps (is_deferred c e) w (exec env op w)"
proof (cases "delivery_only op")
  case True
  then show ?thesis by (intro keeps_delivery_only) simp_all
next
  case False
  then show ?thesis using assms
    by (cases op) (auto simp: begin_with_roles_clearing_deferred_def mark_deferred_acknowledged_def
        defer_event_def commit_def commit_retained_def commit_event_def Let_def
        intro!: keeps_change is_deferred_drop is_deferred_append split: option.splits)
qed

end
