(* ===== verification/Store_Properties.thy ===== *)
theory Store_Properties
  imports Delivery_Machine
begin

text \<open>
  The properties of the store: invariants and refinements that hold of every operation in
  every reachable store, then the functional behaviour of the operations that carry a turn.
\<close>

section \<open>A concrete environment\<close>

definition sample_env :: "unit env" where
  "sample_env = \<lparr>now = (\<lambda>i. 100), nanos = 7, save_store = (\<lambda>st d. (Inr (), d)),
     drop_records = (\<lambda>i d. (Inr (), d)), digest = (\<lambda>s. s), pretty_len = (\<lambda>st. 0)\<rparr>"

definition sample_message :: "string \<Rightarrow> message" where
  "sample_message i = \<lparr>m_id = i, m_session = ''a'', m_role = User, m_sender = None, m_content = [CText i]\<rparr>"

definition sample_run :: "store_op list \<Rightarrow> unit world" where
  "sample_run ops = run_ops sample_env ops (empty_store, ())"

lemma reachable_sample: "reachable (sample_run ops)"
proof -
  have "reachable (empty_store\<lparr>st_path := None\<rparr>, ())" by (rule reachable.start)
  then show ?thesis unfolding sample_run_def by (intro reachable_run) (simp add: empty_store_def)
qed

text \<open>Evaluation of a run.\<close>

lemmas run_defs =
  sample_run_def run_ops_def sample_env_def sample_message_def empty_store_def change_def fail_def return_def
  and_then_def on_session_def badjust_def bremove_def Let_def new_session_def session_missing_def

lemmas check_defs =
  valid_def is_schedule_session_def strip_prefix_def is_ascii_lowercase_def is_ascii_digit_def code_def
  blank_def trim_start.simps user_session_count_def schedule_session_count_def bcount_def LIMIT_def
  SCHEDULE_SESSION_LIMIT_def busy_def list_ex_iff sat_add_def TUI_RESERVATION_TTL_def

section \<open>Properties of every operation\<close>

text \<open>C1: In every store the daemon can reach, whatever the clock and the disk do: at most 100 user
  sessions and 1000 scheduled ones, each under its own valid id; a queue of at most 100 messages
  with distinct ids; a reservation only on a session that runs no turn, with owner and expiry
  together; a streamed delivery only during a turn; at most 100 deliveries with distinct ids, 100
  dead letters, 100 deferred events per channel and 10000 seen events.\<close>

theorem reachable_store_bounded:
  assumes "reachable w"
  shows "user_session_count (fst w) \<le> 100 \<and> schedule_session_count (fst w) \<le> 1000
    \<and> (\<forall>i s. bget (st_sessions (fst w)) i = Some s \<longrightarrow>
         s_id s = i \<and> valid i \<and> s_scheduled s = is_schedule_session i
         \<and> length (s_queued s) \<le> 100 \<and> distinct (map m_id (s_queued s))
         \<and> (s_reservation_until s = None) = (s_reservation_owner s = None)
         \<and> (s_reservation_owner s \<noteq> None \<longrightarrow> s_inflight s = None)
         \<and> (s_stream_delivery s \<noteq> None \<longrightarrow> s_inflight s \<noteq> None))
    \<and> length (st_outbox (fst w)) \<le> 100 \<and> distinct (map d_id (st_outbox (fst w)))
    \<and> length (st_dead (fst w)) \<le> 100 \<and> length (st_seen (fst w)) \<le> 10000
    \<and> (\<forall>c es. bget (st_deferred (fst w)) c = Some es \<longrightarrow> es \<noteq> [] \<and> length es \<le> 100)"
  using reachable_ok [OF assms]
  by (simp add: store_ok_def sessions_ok_def outbox_ok_def deferred_ok_def user_session_count_def
      schedule_session_count_def session_ok_def queue_ok_def lease_ok_def LIMIT_def
      SCHEDULE_SESSION_LIMIT_def SEEN_LIMIT_def)

theorem reachable_store_bounded_witness:
  "length (st_outbox (fst (sample_run [OpCreate ''a'' ''m'', OpReserve ''a'' ''tui'']))) \<le> 100"
  using reachable_store_bounded [OF reachable_sample [of "[OpCreate ''a'' ''m'', OpReserve ''a'' ''tui'']"]]
  by simp

text \<open>C2: Every operation refines the turn state machine: in a reachable store, whatever operation
  runs, the turn of a session that is still there either stays as it was or makes one of the
  moves of \<open>turn_step\<close>. So a turn starts only on a free session or after the reservation ran out, a
  running turn is replaced by nothing and ends only by \<open>clear\<close> or \<open>reply\<close>, and a reservation is
  renewed only by its owner.\<close>

theorem operations_refine_turns:
  assumes "reachable w" and "exec env op w = (r, w')"
    and "bget (st_sessions (fst w)) i = Some s" and "bget (st_sessions (fst w')) i = Some s'"
  shows "turn_of s' = turn_of s \<or> turn_step (now env) op i (turn_of s) (turn_of s')"
proof -
  have "sessions_ok (st_sessions (fst w))" using reachable_ok [OF assms(1)] by (simp add: store_ok_def)
  with moves_exec [of env op w] assms show ?thesis
    by (auto simp: moves_def session_move_def)
qed

theorem operations_refine_turns_witness:
  "turn_step (now sample_env) (OpReserve ''a'' ''tui'') ''a'' Free (Reserved ''tui'' 220)"
proof -
  let ?w = "sample_run [OpCreate ''a'' ''m'']"
  let ?r = "exec sample_env (OpReserve ''a'' ''tui'') ?w"
  have before: "map_option turn_of (bget (st_sessions (fst ?w)) ''a'') = Some Free"
    by (simp add: run_defs check_defs create_def create_session_def turn_of_def)
  have after: "map_option turn_of (bget (st_sessions (fst (snd ?r))) ''a'') = Some (Reserved ''tui'' 220)"
    by (simp add: run_defs check_defs create_def create_session_def reserve_def turn_of_def)
  from before obtain s where s: "bget (st_sessions (fst ?w)) ''a'' = Some s" "turn_of s = Free" by auto
  from after obtain s' where s': "bget (st_sessions (fst (snd ?r))) ''a'' = Some s'"
    "turn_of s' = Reserved ''tui'' 220" by auto
  have "?r = (fst ?r, snd ?r)" by simp
  from operations_refine_turns [OF reachable_sample this s(1) s'(1)] s(2) s'(2) show ?thesis by simp
qed

text \<open>C5: No queued message is lost: a message leaves the queue of a session that is still there
  only because its own turn begins or because that session is cancelled, and what stays keeps
  its order.\<close>

theorem queued_message_not_lost:
  assumes "reachable w" and "exec env op w = (r, w')"
    and "bget (st_sessions (fst w)) i = Some s" and "bget (st_sessions (fst w')) i = Some s'"
  shows "s_queued s' = s_queued s
    \<or> (\<exists>m rs. op = OpQueue i m rs \<and> s_queued s' = s_queued s @ [m])
    \<or> (\<exists>m rs c. op = OpBegin i m rs c \<and> s_queued s' = filter (\<lambda>q. m_id q \<noteq> m_id m) (s_queued s))
    \<or> op \<in> {OpCancel i, OpClear i ''cancelled'', OpSetStatus i ''cancelled''} \<and> s_queued s' = []"
proof -
  have "sessions_ok (st_sessions (fst w))" using reachable_ok [OF assms(1)] by (simp add: store_ok_def)
  with moves_exec [of env op w] assms
  have "s_queued s' = s_queued s \<or> s_queued s' = queue_after op i (s_queued s)"
    by (auto simp: moves_def session_move_def)
  then show ?thesis by (cases op) (auto split: if_splits)
qed

theorem queued_message_not_lost_witness:
  "\<exists>s. bget (st_sessions (fst (sample_run [OpCreate ''a'' ''m'', OpQueue ''a'' (sample_message ''x'') []]))) ''a'' = Some s
     \<and> s_queued s = [sample_message ''x'']"
proof -
  let ?w = "sample_run [OpCreate ''a'' ''m'']"
  let ?r = "exec sample_env (OpQueue ''a'' (sample_message ''x'') []) ?w"
  have before: "map_option s_queued (bget (st_sessions (fst ?w)) ''a'') = Some []"
    by (simp add: run_defs check_defs create_def create_session_def)
  have after: "map_option (\<lambda>s. s_queued s = []) (bget (st_sessions (fst (snd ?r))) ''a'') = Some False"
    by (simp add: run_defs check_defs create_def create_session_def queue_with_roles_def enqueued_def)
  from before obtain s where s: "bget (st_sessions (fst ?w)) ''a'' = Some s" "s_queued s = []" by auto
  from after obtain s' where s': "bget (st_sessions (fst (snd ?r))) ''a'' = Some s'" "s_queued s' \<noteq> []" by auto
  have "?r = (fst ?r, snd ?r)" by simp
  from queued_message_not_lost [OF reachable_sample this s(1) s'(1)] s(2) s'(2)
  have "s_queued s' = [sample_message ''x'']" by auto
  moreover have "sample_run [OpCreate ''a'' ''m'', OpQueue ''a'' (sample_message ''x'') []] = snd ?r"
    by (simp add: sample_run_def run_ops_def)
  ultimately show ?thesis using s'(1) by simp
qed

text \<open>C4: A delivery that may have reached the user is never sent again by itself: in a reachable
  store an operation that makes a delivery pending that was being sent or is uncertain is the
  explicit retry of that delivery, and the delivery was uncertain.\<close>

theorem uncertain_delivery_not_resent:
  assumes "reachable w" and "exec env op w = (r, w')"
    and "find_delivery i (fst w) = Some d" and "find_delivery i (fst w') = Some d'"
    and "d_status d = Sending \<or> d_status d = Uncertain" and "d_status d' = Pending"
  shows "op = OpRetry i \<and> d_status d = Uncertain"
proof -
  have "outbox_ok (st_outbox (fst w))" using reachable_ok [OF assms(1)] by (simp add: store_ok_def)
  moreover have "delivery_moves op w (r, w')" using delivery_moves_exec [of op w env] assms(2) by simp
  ultimately have "d_status d' = d_status d \<or> delivery_step op i (d_status d) (d_status d')"
    using assms(3,4) unfolding delivery_moves_def by simp
  with assms(5,6) show ?thesis by (auto simp: delivery_step_pending)
qed

theorem uncertain_delivery_not_resent_witness:
  "\<exists>d. find_delivery ''d'' (fst (sample_run [OpQueueDelivery ''d'' ''tg'' ''1'' True None ''hi'',
       OpMarkUncertain ''d'' ''timeout''])) = Some d \<and> d_status d = Uncertain"
proof -
  let ?w = "sample_run [OpQueueDelivery ''d'' ''tg'' ''1'' True None ''hi'', OpMarkUncertain ''d'' ''timeout'']"
  let ?r = "exec sample_env (OpRetry ''d'') ?w"
  have before: "map_option d_status (find_delivery ''d'' (fst ?w)) = Some Uncertain"
    by (simp add: run_defs check_defs queue_delivery_def has_delivery_def new_delivery_def mark_uncertain_def
        update_delivery_def find_delivery_def)
  have after: "map_option d_status (find_delivery ''d'' (fst (snd ?r))) = Some Pending"
    by (simp add: run_defs check_defs queue_delivery_def has_delivery_def new_delivery_def mark_uncertain_def
        update_delivery_def find_delivery_def retry_delivery_def)
  from before obtain d where d: "find_delivery ''d'' (fst ?w) = Some d" "d_status d = Uncertain" by auto
  from after obtain d' where d': "find_delivery ''d'' (fst (snd ?r)) = Some d'" "d_status d' = Pending" by auto
  have "?r = (fst ?r, snd ?r)" by simp
  from uncertain_delivery_not_resent [OF reachable_sample this d(1) d'(1) _ d'(2)] d show ?thesis by simp
qed

text \<open>Updates are transactional: an operation that reports an error, of its checks or of saving, has
  left the store in memory exactly as it was, the deferred events and acknowledgements included.
  The exceptions are the two operations that also delete the record files of a session.\<close>

theorem failed_operation_changes_nothing:
  assumes "exec env op w = (Inl e, w')" and "\<not> removes_records op"
  shows "fst w' = fst w"
  using tidy_exec [OF assms(2), of w env] assms(1) by (simp add: tidy_def)

theorem failed_operation_changes_nothing_witness:
  "fst (snd (exec (sample_env\<lparr>save_store := (\<lambda>st d. (Inl (IoError OtherKind ''disk''), d))\<rparr>)
     (OpCommit ''tg'' ''1'' (Some 5)) (empty_store, ()))) = empty_store"
  using failed_operation_changes_nothing [of "sample_env\<lparr>save_store := (\<lambda>st d. (Inl (IoError OtherKind ''disk''), d))\<rparr>"
      "OpCommit ''tg'' ''1'' (Some 5)" "(empty_store, ())" "IoError OtherKind ''disk''"
      "snd (exec (sample_env\<lparr>save_store := (\<lambda>st d. (Inl (IoError OtherKind ''disk''), d))\<rparr>)
     (OpCommit ''tg'' ''1'' (Some 5)) (empty_store, ()))"]
  by (simp add: commit_def commit_event_def run_defs)

text \<open>The poll offset of a channel never goes back, so that no operation makes a channel read an
  event again that it has passed.\<close>

theorem channel_offset_never_goes_back:
  assumes "exec env op w = (r, w')" and "bget (st_offsets (fst w)) c = Some v"
  shows "\<exists>v'. bget (st_offsets (fst w')) c = Some v' \<and> v \<le> v'"
  using offset_exec [of c v w env op] assms by (simp add: keeps_def)

theorem channel_offset_never_goes_back_witness:
  "\<exists>v'. bget (st_offsets (fst (snd (exec sample_env (OpCommit ''tg'' ''2'' (Some 3))
     (empty_store\<lparr>st_offsets := [(''tg'', 5)]\<rparr>, ()))))) ''tg'' = Some v' \<and> 5 \<le> v'"
  by (rule channel_offset_never_goes_back [OF prod.collapse [symmetric]]) simp

text \<open>A deferred event is not lost: it stays deferred under every operation but the turn that
  begins with its id for its channel and the commit of its id.\<close>

theorem deferred_event_not_lost:
  assumes "exec env op w = (r, w')" and "is_deferred c e (fst w)" and "\<not> handles c e op"
  shows "is_deferred c e (fst w')"
  using deferred_exec [OF assms(3), of w env] assms by (simp add: keeps_def)

theorem deferred_event_not_lost_witness:
  "is_deferred ''tg'' JNull (fst (snd (exec sample_env (OpCommit ''tg'' ''2'' None)
     (empty_store\<lparr>st_deferred := [(''tg'', [JNull])]\<rparr>, ()))))"
  by (rule deferred_event_not_lost [OF prod.collapse [symmetric]])
    (simp_all add: is_deferred_def event_has_id_def)

end
