(* ===== verification/Store_Behaviour.thy ===== *)
theory Store_Behaviour
  imports Store_Properties
begin

text \<open>
  What the central operations of the store do when they succeed: the start and the end of a
  turn, the commit of an event, the eviction of a scheduled session, and cancellation.
\<close>

lemma change_InrD: "fst (change env u w) = Inr x \<Longrightarrow> fst (snd (change env u w)) = u (fst w)"
  using change_cases [of env u w] by auto

lemma on_session_get: "bget (st_sessions (on_session i f st)) = (bget (st_sessions st))(i := map_option f (bget (st_sessions st) i))"
  by (simp add: on_session_def bget_adjust)

section \<open>Beginning a turn\<close>

lemma begin_InrD:
  assumes "fst (begin_with_roles_clearing_deferred env i m roles c w) = Inr ()"
    and "bget (st_sessions (fst w)) i = Some s"
  shows "s_inflight s = None \<and> \<not> has_live_tui_reservation (now env 0) s
    \<and> bget (st_sessions (fst (snd (begin_with_roles_clearing_deferred env i m roles c w)))) =
        (bget (st_sessions (fst w)))(i \<mapsto> begun env m roles s)"
proof -
  have "st_sessions (case c of None \<Rightarrow> st | Some c \<Rightarrow> (let st0 = drop_deferred c (m_id m) st in
      st0\<lparr>st_deferred_acknowledged := bremove (seen_key (digest env) c (m_id m))
        (st_deferred_acknowledged st0)\<rparr>)) = st_sessions st" for st
    by (cases c) (simp_all add: Let_def)
  with assms show ?thesis
    by (auto simp: begin_with_roles_clearing_deferred_def fail_def on_session_get Let_def
        dest!: change_InrD split: if_splits)
qed

text \<open>A turn is taken by one message at a time. When \<open>begin\<close> succeeds, the session ran no turn and
  had no live reservation; it now runs the message, which has left the queue and stands in the
  transcript if it was there before; no other session changed; and a second \<open>begin\<close>, for any
  message and at any time, is refused and changes nothing.\<close>

theorem begin_takes_turn:
  assumes "reachable w" and "bget (st_sessions (fst w)) i = Some s"
    and "begin_with_roles_clearing_deferred env i m roles c w = (Inr (), w')"
  shows "s_inflight s = None \<and> \<not> has_live_tui_reservation (now env 0) s
    \<and> (\<exists>s'. bget (st_sessions (fst w')) i = Some s' \<and> s_inflight s' = Some m \<and> s_phase s' = ''safe''
         \<and> s_status s' = ''working'' \<and> m_id m \<notin> m_id ` set (s_queued s')
         \<and> (m_id m \<in> m_id ` set (s_messages s) \<longrightarrow> s_messages s' = s_messages s))
    \<and> (\<forall>j. j \<noteq> i \<longrightarrow> bget (st_sessions (fst w')) j = bget (st_sessions (fst w)) j)
    \<and> begin_with_roles_clearing_deferred env2 i m2 roles2 c2 w'
        = (Inl (IoError WouldBlock ''Session is already working.''), w')"
proof -
  from assms(3) have ok: "fst (begin_with_roles_clearing_deferred env i m roles c w) = Inr ()"
    and w': "w' = snd (begin_with_roles_clearing_deferred env i m roles c w)" by simp_all
  note b = begin_InrD [OF ok assms(2), folded w']
  have "distinct (map m_id (s_queued s))"
    using reachable_ok [OF assms(1)] assms(2)
    by (auto simp: store_ok_def sessions_ok_def session_ok_def queue_ok_def)
  then have q: "m_id m \<notin> m_id ` set (s_queued (begun env m roles s))"
    by (auto simp: begun_def Let_def remove_first_distinct)
  have "s_messages (begun env m roles s) = s_messages s" if "m_id m \<in> m_id ` set (s_messages s)"
    using that by (auto simp: begun_def Let_def list_ex_iff)
  moreover have "s_inflight (begun env m roles s) = Some m" "s_phase (begun env m roles s) = ''safe''"
    "s_status (begun env m roles s) = ''working''"
    by (simp_all add: begun_def Let_def safe_def)
  ultimately show ?thesis
    using b q by (simp add: begin_with_roles_clearing_deferred_def fail_def)
qed

theorem begin_takes_turn_witness:
  "begin_with_roles_clearing_deferred sample_env ''a'' (sample_message ''y'') [] None
     (sample_run [OpCreate ''a'' ''m'', OpBegin ''a'' (sample_message ''x'') [] None])
   = (Inl (IoError WouldBlock ''Session is already working.''),
      sample_run [OpCreate ''a'' ''m'', OpBegin ''a'' (sample_message ''x'') [] None])"
proof -
  let ?w = "sample_run [OpCreate ''a'' ''m'']"
  let ?r = "begin_with_roles_clearing_deferred sample_env ''a'' (sample_message ''x'') [] None ?w"
  have "bget (st_sessions (fst ?w)) ''a'' \<noteq> None"
    by (simp add: run_defs check_defs create_def create_session_def)
  then obtain s where s: "bget (st_sessions (fst ?w)) ''a'' = Some s" by auto
  have "fst ?r = Inr ()"
    by (simp add: run_defs check_defs create_def create_session_def
        begin_with_roles_clearing_deferred_def has_live_tui_reservation_def)
  then have "?r = (Inr (), snd ?r)" by (simp add: prod_eq_iff)
  from begin_takes_turn [OF reachable_sample s this, of sample_env "sample_message ''y''" "[]" None]
  show ?thesis by (simp add: sample_run_def run_ops_def)
qed

section \<open>The reply\<close>

text \<open>C3: A reply ends the turn and hands over the answer in one update: the session has no lease, no
  stream and no reservation, its transcript ends with the answer (compacted), its queue is as it
  was; the delivery is in the outbox, pending with the final text and route when it is new or
  completes a stream that was not in doubt, and uncertain, never pending, when the stream was
  still being sent; no other session and no other delivery changed.\<close>

theorem reply_completes_turn:
  assumes "reachable w" and "bget (st_sessions (fst w)) sid = Some s"
    and "reply env sid m i channel chat thread text w = (Inr (), w')"
  shows "(\<exists>s'. bget (st_sessions (fst w')) sid = Some s' \<and> turn_of s' = Free \<and> s_status s' = ''idle''
         \<and> s_stream_delivery s' = None \<and> s_messages s' = compact_messages (s_messages s @ [m])
         \<and> s_queued s' = s_queued s)
    \<and> (\<forall>j. j \<noteq> sid \<longrightarrow> bget (st_sessions (fst w')) j = bget (st_sessions (fst w)) j)
    \<and> (\<exists>d'. find_delivery i (fst w') = Some d'
         \<and> (case find_delivery i (fst w) of
              None \<Rightarrow> d_status d' = Pending \<and> d_text d' = text \<and> d_channel d' = channel \<and> d_chat d' = chat
                \<and> d_private d' = s_private s
            | Some d \<Rightarrow> if s_stream_delivery s = Some i
                then d_text d' = text \<and> d_chat d' = chat \<and> d_message_id d' = d_message_id d
                  \<and> d_status d' = (if d_status d = Sending \<or> d_status d = Uncertain then Uncertain else Pending)
                else d' = d))
    \<and> (\<forall>j. j \<noteq> i \<longrightarrow> find_delivery j (fst w') = find_delivery j (fst w))"
  (is "?S \<and> ?T \<and> ?D \<and> ?O")
proof -
  define u where "u = list_ex (\<lambda>d. d_id d = i \<and> (d_status d = Sending \<or> d_status d = Uncertain)) (st_outbox (fst w))"
  define mid where "mid = (if s_stream_delivery s = Some i then Option.bind (find_delivery i (fst w)) d_message_id else None)"
  define st1 where "st1 = on_session sid (replied env m) (fst w)"
  define f where "f = completed env channel chat (s_private s) thread text u mid"
  have w': "fst w' = (if has_delivery i (fst w)
      then (if s_stream_delivery s = Some i
            then st1\<lparr>st_outbox := update_first (\<lambda>d. d_id d = i) f (st_outbox (fst w))\<rparr> else st1)
      else st1\<lparr>st_outbox := st_outbox (fst w)
          @ [new_delivery i channel chat (s_private s) thread text Pending (now env 2) (now env 3)]\<rparr>)"
  proof -
    have "fst (reply env sid m i channel chat thread text w) = Inr ()"
      and "fst w' = fst (snd (reply env sid m i channel chat thread text w))"
      using assms(3) by simp_all
    with assms(2) show ?thesis
      unfolding st1_def f_def u_def mid_def reply_def Let_def
      by (auto simp: fail_def dest!: change_InrD split: if_splits)
  qed
  then have sess: "bget (st_sessions (fst w')) = (bget (st_sessions (fst w)))(sid \<mapsto> replied env m s)"
    using assms(2) by (simp add: st1_def on_session_get)
  have dist: "distinct (map d_id (st_outbox (fst w)))"
    using reachable_ok [OF assms(1)] by (simp add: store_ok_def outbox_ok_def)
  have out1: "st_outbox st1 = st_outbox (fst w)" by (simp add: st1_def)
  have has: "has_delivery i (fst w) \<longleftrightarrow> find_delivery i (fst w) \<noteq> None"
    by (auto simp: has_delivery_def find_delivery_def list_ex_iff find_None_iff)
  have fid: "d_id (f d) = d_id d" for d by (simp add: f_def completed_def)
  have found: "find_delivery i (fst w) = Some d \<Longrightarrow> u = (d_status d = Sending \<or> d_status d = Uncertain)" for d
  proof -
    assume "find_delivery i (fst w) = Some d"
    then have "d \<in> set (st_outbox (fst w))" "d_id d = i"
      by (auto simp: find_delivery_def find_Some_iff)
    then show ?thesis using dist by (auto simp: u_def list_ex_iff distinct_map inj_on_def)
  qed
  have "?S" using sess by (simp add: replied_def turn_of_def)
  moreover have "?T" using sess by simp
  moreover have "?D"
  proof (cases "find_delivery i (fst w)")
    case None
    then have "find_delivery i (fst w') =
        Some (new_delivery i channel chat (s_private s) thread text Pending (now env 2) (now env 3))"
      using w' has by (simp add: find_delivery_def find_append_None)
    then show ?thesis using None by (simp add: new_delivery_def)
  next
    case (Some d)
    then have "find_delivery i (fst w') = Some (if s_stream_delivery s = Some i then f d else d)"
      using w' has out1 find_update_first [of "\<lambda>d. d_id d = i" f] fid
      by (auto simp: find_delivery_def)
    then show ?thesis using Some found [OF Some] by (auto simp: f_def completed_def mid_def)
  qed
  moreover have "?O"
    using w' out1 find_update_first_other [of "\<lambda>d. d_id d = i" "\<lambda>d. d_id d = _" f] fid
    by (auto simp: find_delivery_def find_append_None split: option.splits)
  ultimately show ?thesis by blast
qed

theorem reply_completes_turn_witness:
  "\<exists>d. find_delivery ''d'' (fst (snd (reply sample_env ''a'' (sample_message ''r'') ''d'' ''tg'' ''1'' None ''hello''
     (sample_run [OpCreate ''a'' ''m'', OpBegin ''a'' (sample_message ''x'') [] None])))) = Some d
     \<and> d_status d = Pending \<and> d_text d = ''hello''"
proof -
  let ?w = "sample_run [OpCreate ''a'' ''m'', OpBegin ''a'' (sample_message ''x'') [] None]"
  let ?r = "reply sample_env ''a'' (sample_message ''r'') ''d'' ''tg'' ''1'' None ''hello'' ?w"
  have st: "bget (st_sessions (fst ?w)) ''a'' \<noteq> None" and ob: "st_outbox (fst ?w) = []"
    by (simp_all add: run_defs check_defs create_def create_session_def
        begin_with_roles_clearing_deferred_def has_live_tui_reservation_def)
  then obtain s where s: "bget (st_sessions (fst ?w)) ''a'' = Some s" by auto
  have save: "save_store sample_env st d = (Inr (), d)" for st d by (simp add: sample_env_def)
  have "fst ?r = Inr ()"
    using s ob by (simp add: reply_def has_delivery_def LIMIT_def change_def Let_def save split: prod.split)
  then have "?r = (Inr (), snd ?r)" by (simp add: prod_eq_iff)
  from reply_completes_turn [OF reachable_sample s this] ob show ?thesis
    by (auto simp: find_delivery_def)
qed

section \<open>Committing an event\<close>

lemma sort_take_least:
  assumes "x \<in> set (take n (sort_key k xs))" and "y \<in> set (drop n (sort_key k xs))"
  shows "k x \<le> k y"
proof -
  have "sorted (map k (take n (sort_key k xs) @ drop n (sort_key k xs)))" by simp
  then show ?thesis using assms by (simp only: map_append sorted_append) auto
qed

text \<open>What trimming drops is older than what it keeps.\<close>

lemma trim_seen_oldest:
  assumes m: "bmap_ok m" and k: "bget m k = Some t" "bget (trim_seen m keep) k = None"
    and k': "bget (trim_seen m keep) k' = Some t'" "keep \<noteq> Some k'"
  shows "(t, k) \<le> (t', k')"
proof -
  let ?s = "sort_key (\<lambda>(key, t). (t, key)) (filter (\<lambda>(key, t). Some key \<noteq> keep) m)"
  let ?n = "length m - SEEN_LIMIT"
  have old: "oldest_seen m keep = take ?n ?s" by (simp add: oldest_seen_def)
  have filt: "bget (filter (\<lambda>(k, v). k \<notin> K) m) j = (if j \<in> K then None else bget m j)" for K j
    by (induction m) auto
  from k have "k \<in> fst ` set (oldest_seen m keep)"
    by (auto simp: trim_seen_filter filt split: if_splits)
  then obtain u where u: "(k, u) \<in> set (take ?n ?s)" by (auto simp: old)
  then have "(k, u) \<in> set m" by (auto dest!: in_set_takeD)
  then have "u = t" using k(1) m by (simp add: bmap_ok_distinct)
  from k'(1) have in': "bget m k' = Some t'" and out: "k' \<notin> fst ` set (oldest_seen m keep)"
    by (auto simp: trim_seen_filter filt split: if_splits)
  then have "(k', t') \<in> set ?s" using k'(2) by (auto dest: map_of_SomeD)
  then have "(k', t') \<in> set (take ?n ?s @ drop ?n ?s)" by simp
  then have "(k', t') \<in> set (drop ?n ?s)" using out by (force simp: old simp del: append_take_drop_id)
  from sort_take_least [OF u this] \<open>u = t\<close> show ?thesis by simp
qed

text \<open>Committing an event makes it known, so that it is not handled twice: the key of the event is in
  the seen map, whatever had to be trimmed; the map holds at most 10000 keys, and a key that was
  dropped is not newer than any older key that stayed; the offset of the channel is raised to
  the given one and never lowered; and unless the event is retained no deferred event of the
  channel has its id any more.\<close>

theorem commit_remembers_event:
  assumes "reachable w" and "commit_event env channel i (Some v) retained w = (Inr (), w')"
  shows "known (digest env) (fst w') channel i
    \<and> length (st_seen (fst w')) \<le> 10000
    \<and> (\<forall>k t k' t'. bget (st_seen (fst w)) k = Some t \<and> k \<noteq> seen_key (digest env) channel i
          \<and> bget (st_seen (fst w')) k = None \<and> bget (st_seen (fst w')) k' = Some t'
          \<and> k' \<noteq> seen_key (digest env) channel i \<longrightarrow> (t, k) \<le> (t', k'))
    \<and> bget (st_offsets (fst w')) channel =
        Some (case bget (st_offsets (fst w)) channel of None \<Rightarrow> v | Some cur \<Rightarrow> max cur v)
    \<and> (\<not> retained \<longrightarrow> \<not> has_deferred_event (fst w') channel i)"
  (is "?K \<and> ?L \<and> ?O \<and> ?F \<and> ?D")
proof -
  let ?key = "seen_key (digest env) channel i"
  let ?m = "binsert ?key (nanos env) (st_seen (fst w))"
  have fst: "fst (commit_event env channel i (Some v) retained w) = Inr ()"
    and w': "fst w' = fst (snd (commit_event env channel i (Some v) retained w))"
    using assms(2) by simp_all
  have ok: "bmap_ok (st_seen (fst w))" using reachable_ok [OF assms(1)] by (simp add: store_ok_def)
  then have m: "bmap_ok ?m" by (rule bmap_ok_insert)
  have upd: "st_seen (fst w') = trim_seen ?m (Some ?key)"
    "bget (st_offsets (fst w')) channel =
        Some (case bget (st_offsets (fst w)) channel of None \<Rightarrow> v | Some cur \<Rightarrow> max cur v)"
    "\<not> retained \<Longrightarrow> st_deferred (fst w') = st_deferred (drop_deferred channel i (fst w))"
    using change_InrD [OF fst [unfolded commit_event_def Let_def]] unfolding w' commit_event_def Let_def
    by (auto simp: bget_insert bget_adjust drop_deferred_def Let_def split: option.splits)
  have "?K" using trim_seen_keeps [of ?m ?key "nanos env" "Some ?key"] upd(1)
    by (simp add: known_def bget_insert)
  moreover have "?L" using length_trim_seen [OF m, of "Some ?key"] upd(1) by (simp add: SEEN_LIMIT_def)
  moreover have "(t, k) \<le> (t', k')"
    if "bget (st_seen (fst w)) k = Some t" "k \<noteq> ?key" "bget (st_seen (fst w')) k = None"
      "bget (st_seen (fst w')) k' = Some t'" "k' \<noteq> ?key" for k t k' t'
    by (rule trim_seen_oldest [OF m, where keep = "Some ?key"])
      (use that upd(1) in \<open>simp_all add: bget_insert\<close>)
  then have "?O" by blast
  moreover have "?D"
    using upd(3) by (auto simp: has_deferred_event_def drop_deferred_def Let_def bget_remove bget_adjust
        list_ex_iff split: option.splits)
  ultimately show ?thesis using upd(2) by blast
qed

theorem commit_remembers_event_witness:
  "known (\<lambda>s. s) (fst (snd (commit_event sample_env ''tg'' ''1'' (Some 5) False (sample_run [])))) ''tg'' ''1''"
proof -
  have "commit_event sample_env ''tg'' ''1'' (Some 5) False (sample_run [])
      = (Inr (), snd (commit_event sample_env ''tg'' ''1'' (Some 5) False (sample_run [])))"
    by (simp add: prod_eq_iff commit_event_def run_defs)
  from commit_remembers_event [OF reachable_sample this] show ?thesis by (simp add: sample_env_def)
qed

section \<open>Cancellation\<close>

text \<open>Cancelling a running turn marks it and drops the queue but keeps the lease: the message stays
  in flight, and no later change of the status takes the mark away. A message that is queued
  before the turn has stopped does take it away: the session is idle again with the cancelled
  message still in flight.\<close>

theorem cancel_marks_running_turn:
  assumes "bget (st_sessions (fst w)) i = Some s" and "s_inflight s = Some m"
    and "cancel env i w = (Inr (), w1)"
    and "status \<noteq> ''cancelled''" and "set_status env1 i status w1 = (Inr (), w2)"
    and "queue_with_roles env2 i q roles w2 = (Inr (), w3)"
  shows "(\<exists>s2. bget (st_sessions (fst w2)) i = Some s2 \<and> s_inflight s2 = Some m
         \<and> s_status s2 = ''cancelled'' \<and> s_queued s2 = [])
    \<and> (\<exists>s3. bget (st_sessions (fst w3)) i = Some s3 \<and> s_inflight s3 = Some m
         \<and> s_status s3 = ''idle'' \<and> s_queued s3 = [q])"
proof -
  let ?c = "status_set env ''cancelled'' s"
  have w1: "bget (st_sessions (fst w1)) i = Some ?c"
  proof -
    have "fst (cancel env i w) = Inr ()" and "fst w1 = fst (snd (cancel env i w))"
      using assms(3) by simp_all
    with assms(1,2) show ?thesis
      by (auto simp: cancel_def Let_def set_status_def session_missing_def fail_def on_session_get
          dest!: change_InrD)
  qed
  have c: "s_inflight ?c = Some m" "s_status ?c = ''cancelled''" "s_queued ?c = []"
    using assms(2) by (auto simp: status_set_def Let_def)
  have w2: "bget (st_sessions (fst w2)) i = Some ?c"
  proof -
    have "fst (set_status env1 i status w1) = Inr ()" and "fst w2 = fst (snd (set_status env1 i status w1))"
      using assms(5) by simp_all
    moreover have "status_set env1 status ?c = ?c" using c assms(4) by (simp add: status_set_def [of env1])
    ultimately show ?thesis using w1 by (auto simp: set_status_def on_session_get dest!: change_InrD)
  qed
  have "fst (queue_with_roles env2 i q roles w2) = Inr ()"
    and "fst w3 = fst (snd (queue_with_roles env2 i q roles w2))"
    using assms(6) by simp_all
  with w2 c have "bget (st_sessions (fst w3)) i = Some (enqueued env2 q roles ?c)"
    by (auto simp: queue_with_roles_def fail_def on_session_get dest!: change_InrD split: if_splits)
  moreover have "s_inflight (enqueued env2 q roles ?c) = Some m" "s_status (enqueued env2 q roles ?c) = ''idle''"
    "s_queued (enqueued env2 q roles ?c) = [q]"
    using c by (simp_all add: enqueued_def Let_def)
  ultimately show ?thesis using w2 c by blast
qed

theorem cancel_marks_running_turn_witness:
  "\<exists>s. bget (st_sessions (fst (sample_run [OpCreate ''a'' ''m'', OpBegin ''a'' (sample_message ''x'') [] None,
      OpCancel ''a'', OpSetStatus ''a'' ''idle'', OpQueue ''a'' (sample_message ''y'') []]))) ''a'' = Some s
    \<and> s_inflight s = Some (sample_message ''x'') \<and> s_status s = ''idle''"
proof -
  let ?ops = "[OpCreate ''a'' ''m'', OpBegin ''a'' (sample_message ''x'') [] None]"
  let ?w = "sample_run ?ops"
  let ?w1 = "sample_run (?ops @ [OpCancel ''a''])"
  let ?w2 = "sample_run (?ops @ [OpCancel ''a'', OpSetStatus ''a'' ''idle''])"
  let ?w3 = "sample_run (?ops @ [OpCancel ''a'', OpSetStatus ''a'' ''idle'', OpQueue ''a'' (sample_message ''y'') []])"
  note ev = run_defs check_defs create_def create_session_def begin_with_roles_clearing_deferred_def
    has_live_tui_reservation_def cancel_def set_status_def status_set_def begun_def queue_with_roles_def
    enqueued_def
  have s: "map_option s_inflight (bget (st_sessions (fst ?w)) ''a'') = Some (Some (sample_message ''x''))"
    by (simp add: ev)
  then obtain s where s: "bget (st_sessions (fst ?w)) ''a'' = Some s" "s_inflight s = Some (sample_message ''x'')"
    by auto
  have 1: "cancel sample_env ''a'' ?w = (Inr (), ?w1)" by (simp add: ev)
  have 2: "set_status sample_env ''a'' ''idle'' ?w1 = (Inr (), ?w2)" by (simp add: ev)
  have 3: "queue_with_roles sample_env ''a'' (sample_message ''y'') [] ?w2 = (Inr (), ?w3)" by (simp add: ev)
  show ?thesis
    using cancel_marks_running_turn [OF s 1 _ 2 3] by auto
qed

section \<open>Evicting a scheduled session\<close>

lemma min_by_key_None [simp]: "min_by_key f xs = None \<longleftrightarrow> xs = []"
  by (cases xs) (auto split: option.splits)

lemma min_by_key_least:
  "min_by_key f xs = Some x \<Longrightarrow> x \<in> set xs \<and> (\<forall>y \<in> set xs. f x \<le> f y)"
proof (induction xs arbitrary: x)
  case (Cons a xs)
  show ?case
  proof (cases "min_by_key f xs")
    case None
    then have "xs = []" by simp
    with Cons.prems show ?thesis by simp
  next
    case (Some y)
    with Cons.IH [OF Some] Cons.prems show ?thesis by (auto split: if_splits)
  qed
qed simp

lemma bvalues_get: "bmap_ok m \<Longrightarrow> v \<in> set (bvalues m) \<Longrightarrow> \<exists>k. bget m k = Some v"
  using bmap_ok_distinct [of m] by (force simp: map_of_eq_Some_iff)

text \<open>When 1000 scheduled sessions exist, a new scheduled session takes the place of exactly one
  other: an idle scheduled session that was not updated later than any other idle scheduled one.
  No working session, no user session and no other scheduled session is touched.\<close>

theorem ensure_schedule_evicts_oldest_idle:
  assumes "reachable w" and "1000 \<le> schedule_session_count (fst w)"
    and "bget (st_sessions (fst w)) i = None" and "ensure_schedule env i model w = (Inr (), w')"
  shows "\<exists>j s. bget (st_sessions (fst w)) j = Some s \<and> s_scheduled s \<and> \<not> busy s
    \<and> (\<forall>k s'. bget (st_sessions (fst w)) k = Some s' \<and> s_scheduled s' \<and> \<not> busy s' \<longrightarrow> s_updated s \<le> s_updated s')
    \<and> bget (st_sessions (fst w')) =
        (bget (st_sessions (fst w)))(j := None, i \<mapsto> new_session i model True (now env 0))"
proof -
  have sok: "sessions_ok (st_sessions (fst w))" using reachable_ok [OF assms(1)] by (simp add: store_ok_def)
  let ?idle = "filter (\<lambda>s. \<not> busy s) (filter s_scheduled (bvalues (st_sessions (fst w))))"
  have es: "fst (ensure_schedule env i model w) = Inr ()" "fst w' = fst (snd (ensure_schedule env i model w))"
    using assms(4) by simp_all
  obtain s where s: "min_by_key s_updated ?idle = Some s" and
    both: "and_then (remove_deep env (s_id s)) (\<lambda>_. create_scheduled env i model) w = (Inr (), w')"
    using assms(2-4)
    by (auto simp: ensure_schedule_def Let_def SCHEDULE_SESSION_LIMIT_def oldest_idle_schedule_def fail_def
        split: if_splits option.splits)
  then have mem: "s \<in> set ?idle" and least: "\<forall>y \<in> set ?idle. s_updated s \<le> s_updated y"
    using min_by_key_least [OF s] by auto
  then obtain j where j: "bget (st_sessions (fst w)) j = Some s"
    using bvalues_get [of "st_sessions (fst w)" s] sok by (auto simp: sessions_ok_def)
  then have id: "s_id s = j" using sok by (auto simp: sessions_ok_def session_ok_def)
  obtain w1 where w1: "remove_deep env j w = (Inr (), w1)" and cr: "create_scheduled env i model w1 = (Inr (), w')"
    using both id by (auto simp: and_then_def split: prod.splits sum.splits)
  have "fst (remove env j w) = Inr () \<and> fst w1 = fst (snd (remove env j w))"
    using w1 by (auto simp: remove_deep_def and_then_def return_def split: prod.splits sum.splits option.splits if_splits)
  then have g1: "bget (st_sessions (fst w1)) = (bget (st_sessions (fst w)))(j := None)"
    using j by (auto simp: remove_def fail_def bget_remove dest!: change_InrD split: if_splits)
  have "fst (create_scheduled env i model w1) = Inr () \<and> fst w' = fst (snd (create_scheduled env i model w1))"
    using cr by simp
  then have "bget (st_sessions (fst w')) = (bget (st_sessions (fst w1)))(i \<mapsto> new_session i model True (now env 0))"
    by (auto simp: create_scheduled_def create_session_def Let_def fail_def bget_insert
        dest!: change_InrD split: if_splits)
  moreover have "s_updated s \<le> s_updated s'"
    if "bget (st_sessions (fst w)) k = Some s'" "s_scheduled s'" "\<not> busy s'" for k s'
  proof -
    have "s' \<in> set (bvalues (st_sessions (fst w)))" using that(1) by (force dest: map_of_SomeD)
    with that least show ?thesis by auto
  qed
  ultimately show ?thesis using j mem g1 by auto
qed

text \<open>A store full of scheduled sessions.\<close>

definition schedule_id :: "nat \<Rightarrow> string" where
  "schedule_id k = ''schedule-'' @ show_nat k"

lemma schedule_id_ok: "is_schedule_session (schedule_id k)" "valid (schedule_id k)"
proof -
  have d: "list_all is_ascii_digit (show_nat k)" using show_nat_digits by (simp add: list_all_iff)
  then show "is_schedule_session (schedule_id k)"
    unfolding is_schedule_session_def schedule_id_def strip_prefix_append by simp
  from d show "valid (schedule_id k)"
    by (auto simp: valid_def schedule_id_def list_all_iff is_ascii_lowercase_def code_def)
qed

definition full_run :: "nat \<Rightarrow> unit world" where
  "full_run n = sample_run (map (\<lambda>k. OpCreateScheduled (schedule_id k) ''m'') [0..<n])"

lemma full_run_Suc: "full_run (Suc n) = snd (create_scheduled sample_env (schedule_id n) ''m'' (full_run n))"
  by (simp add: full_run_def sample_run_def run_ops_def)

lemma full_run_state:
  "n \<le> 1000 \<Longrightarrow> schedule_session_count (fst (full_run n)) = n \<and> st_path (fst (full_run n)) = None
     \<and> (\<forall>i. bget (st_sessions (fst (full_run n))) i =
          (if \<exists>k < n. i = schedule_id k then Some (new_session i ''m'' True 100) else None))"
proof (induction n)
  case 0
  show ?case by (simp add: full_run_def sample_run_def run_ops_def empty_store_def schedule_session_count_def bcount_def)
next
  case (Suc n)
  let ?st = "fst (full_run n)"
  have new: "bget (st_sessions ?st) (schedule_id n) = None"
    using Suc by (auto simp: schedule_id_def)
  have "fst (full_run (Suc n)) = ?st\<lparr>st_sessions := binsert (schedule_id n)
      (new_session (schedule_id n) ''m'' True 100) (st_sessions ?st)\<rparr>"
    using Suc new by (cases "full_run n")
      (simp add: full_run_Suc create_scheduled_def create_session_def schedule_id_ok change_def sample_env_def
        check_defs(6-10) SCHEDULE_SESSION_LIMIT_def blank_def trim_start.simps code_def)
  then show ?case
    using Suc new bcount_insert_new [OF new, of s_scheduled "new_session (schedule_id n) ''m'' True 100"]
    by (auto simp: schedule_session_count_def bget_insert less_Suc_eq new_session_def)
qed

theorem ensure_schedule_evicts_oldest_idle_witness:
  "\<exists>j. bget (st_sessions (fst (full_run 1000))) j \<noteq> None
     \<and> bget (st_sessions (fst (snd (ensure_schedule sample_env (schedule_id 1000) ''m'' (full_run 1000))))) j = None"
proof -
  let ?w = "full_run 1000" and ?i = "schedule_id 1000"
  let ?r = "ensure_schedule sample_env ?i ''m'' ?w"
  note full = full_run_state [of 1000, simplified]
  have none: "bget (st_sessions (fst ?w)) ?i = None" using full by (auto simp: schedule_id_def)
  have re: "reachable ?w" by (simp add: full_run_def reachable_sample)
  then have sok: "sessions_ok (st_sessions (fst ?w))" using reachable_ok by (fastforce simp: store_ok_def)
  have all: "s = new_session (s_id s) ''m'' True 100 \<and> bget (st_sessions (fst ?w)) (s_id s) = Some s"
    if s: "s \<in> set (bvalues (st_sessions (fst ?w)))" for s
  proof -
    obtain k where k: "bget (st_sessions (fst ?w)) k = Some s"
      using bvalues_get [OF _ s] sok by (auto simp: sessions_ok_def)
    with full have "s = new_session k ''m'' True 100" by (auto split: if_splits)
    with k show ?thesis by (simp add: new_session_def)
  qed
  let ?idle = "filter (\<lambda>s. \<not> busy s) (filter s_scheduled (bvalues (st_sessions (fst ?w))))"
  have nb: "\<not> busy (new_session k ''m'' True 100)" for k by (simp add: busy_def new_session_def)
  have "?idle = filter s_scheduled (bvalues (st_sessions (fst ?w)))"
  proof -
    have "\<forall>s \<in> set (filter s_scheduled (bvalues (st_sessions (fst ?w)))). \<not> busy s"
      using all nb by (metis filter_is_subset subsetD)
    then show ?thesis by (rule filter_id_conv [THEN iffD2])
  qed
  moreover have "length (filter s_scheduled (bvalues (st_sessions (fst ?w)))) = 1000"
    using full by (simp add: schedule_session_count_def bcount_def)
  ultimately have "length ?idle = 1000" by (simp only:)
  then have "?idle \<noteq> []" by (metis list.size(3) zero_neq_numeral)
  then obtain s where s: "min_by_key s_updated ?idle = Some s"
    by (cases "min_by_key s_updated ?idle") (simp_all only: min_by_key_None)
  have "s \<in> set ?idle" using min_by_key_least [OF s] by simp
  then have "s \<in> set (bvalues (st_sessions (fst ?w)))" by (meson filter_is_subset subsetD)
  with all nb have j: "bget (st_sessions (fst ?w)) (s_id s) = Some s" "s_scheduled s" "\<not> busy s"
    by (metis, metis new_session_def session.select_convs(3), metis)
  have save: "save_store sample_env st d = (Inr (), d)" for st d by (simp add: sample_env_def)
  have "remove_deep sample_env (s_id s) ?w
      = (Inr (), (fst ?w)\<lparr>st_sessions := bremove (s_id s) (st_sessions (fst ?w))\<rparr>, snd ?w)"
    using j full by (cases ?w)
      (simp add: remove_deep_def remove_def and_then_def return_def change_def save)
  moreover have "schedule_session_count ((fst ?w)\<lparr>st_sessions := bremove (s_id s) (st_sessions (fst ?w))\<rparr>) < 1000"
    using bcount_remove_present [OF j(1), of s_scheduled] j(2) full by (simp add: schedule_session_count_def)
  ultimately have "fst ?r = Inr ()"
    using none full [THEN conjunct1] s schedule_id_ok [of 1000]
    by (simp add: Let_def ensure_schedule_def oldest_idle_schedule_def SCHEDULE_SESSION_LIMIT_def and_then_def
        create_scheduled_def create_session_def blank_def trim_start.simps code_def change_def save
        bget_remove)
  then have "?r = (Inr (), snd ?r)" by (simp add: prod_eq_iff)
  from ensure_schedule_evicts_oldest_idle [OF re _ none this] full
  obtain j s where "bget (st_sessions (fst ?w)) j = Some s"
    "bget (st_sessions (fst (snd ?r))) = (bget (st_sessions (fst ?w)))(j := None, ?i \<mapsto> new_session ?i ''m'' True (now sample_env 0))"
    by auto
  with none show ?thesis by (intro exI [of _ j]) auto
qed

end
