(* ===== verification/Catalog.thy ===== *)
theory Catalog
  imports Delivery_Store
begin

text \<open>
  Persistence of the store, \<open>krabb-runtime/src/state.rs\<close>: the catalog of content-addressed
  records that the daemon saves and loads, the removal of stale records, and the older single
  file with the recovery of interrupted turns. The file operations of the crate \<open>krabb-file\<close>
  and the serialisers are records of functions; a path is the list of its components.
\<close>

section \<open>Files and serialisers\<close>

record 'd files =
  f_load :: "string list \<Rightarrow> nat \<Rightarrow> 'd \<Rightarrow> string option io_result \<times> 'd"
  f_save :: "string list \<Rightarrow> string \<Rightarrow> 'd \<Rightarrow> unit io_result \<times> 'd"
  f_private :: "string list \<Rightarrow> 'd \<Rightarrow> unit io_result \<times> 'd"
  f_exists :: "string list \<Rightarrow> 'd \<Rightarrow> bool"
  f_list :: "string list \<Rightarrow> 'd \<Rightarrow> string list io_result"
  f_read :: "string list \<Rightarrow> 'd \<Rightarrow> string io_result"
  f_remove :: "string list \<Rightarrow> 'd \<Rightarrow> unit io_result \<times> 'd"

record session_index =
  ix_version :: nat
  ix_sessions :: "(string, string) bmap"

record client_state =
  cl_deferred :: "(string, json list) bmap"
  cl_deferred_acknowledged :: "(string, unit) bmap"
  cl_offsets :: "(string, int) bmap"
  cl_seen :: "(string, u64) bmap"

record delivery_index =
  di_outbox :: "string list"
  di_dead :: "string list"

text \<open>\<open>from_utf8\<close> and \<open>parse_json\<close> read text into a document, the \<open>..._of\<close> functions are
  \<open>serde_json::from_value\<close> at each type and the \<open>..._text\<close> functions \<open>serde_json::to_vec\<close>.\<close>

record serde =
  from_utf8 :: "string \<Rightarrow> io_error + string"
  parse_json :: "string \<Rightarrow> io_error + json"
  session_of :: "json \<Rightarrow> io_error + session"
  session_text :: "session \<Rightarrow> string"
  delivery_of :: "json \<Rightarrow> io_error + delivery"
  delivery_text :: "delivery \<Rightarrow> string"
  client_of :: "json \<Rightarrow> io_error + client_state"
  client_text :: "client_state \<Rightarrow> string"
  dindex_of :: "json \<Rightarrow> io_error + delivery_index"
  dindex_text :: "delivery_index \<Rightarrow> string"
  index_of :: "json \<Rightarrow> io_error + session_index"
  index_text :: "session_index \<Rightarrow> string"
  store_of :: "json \<Rightarrow> io_error + store"
  store_text :: "store \<Rightarrow> string"
  record_key :: "string \<Rightarrow> string"

type_synonym ('d, 'a) io = "'d \<Rightarrow> 'a io_result \<times> 'd"

definition ok :: "'a \<Rightarrow> ('d, 'a) io" where
  "ok x d = (Inr x, d)"

definition err :: "io_kind \<Rightarrow> string \<Rightarrow> ('d, 'a) io" where
  "err k m d = (Inl (IoError k m), d)"

definition lift_result :: "io_error + 'a \<Rightarrow> ('d, 'a) io" where
  "lift_result r d = (r, d)"

definition bind_io :: "('d, 'a) io \<Rightarrow> ('a \<Rightarrow> ('d, 'b) io) \<Rightarrow> ('d, 'b) io" where
  "bind_io m f d = (case m d of (Inl e, d') \<Rightarrow> (Inl e, d') | (Inr x, d') \<Rightarrow> f x d')"

definition ignore_errors :: "('d, unit) io \<Rightarrow> ('d, unit) io" where
  "ignore_errors m d = (Inr (), snd (m d))"

text \<open>\<open>serde_json::from_slice\<close> at a type.\<close>

definition from_slice_as :: "serde \<Rightarrow> (json \<Rightarrow> io_error + 'a) \<Rightarrow> string \<Rightarrow> io_error + 'a" where
  "from_slice_as sd conv s = (case parse_json sd s of Inl e \<Rightarrow> Inl e | Inr v \<Rightarrow> conv v)"

section \<open>Removing records\<close>

definition hex_key :: "string \<Rightarrow> bool" where
  "hex_key key \<longleftrightarrow> length key = 64 \<and> list_all is_ascii_hexdigit key"

definition json_name :: "string \<Rightarrow> string" where
  "json_name key = key @ ''.json''"

definition strip_json :: "string \<Rightarrow> string option" where
  "strip_json n = map_option rev (strip_prefix (rev ''.json'') (rev n))"

definition remove_record :: "'d files \<Rightarrow> string list \<Rightarrow> ('d, unit) io" where
  "remove_record fs p d =
     (case f_remove fs p d of
        (Inl e, d') \<Rightarrow> (if error_kind e = NotFound then Inr () else Inl e, d')
      | (Inr u, d') \<Rightarrow> (Inr (), d'))"

fun each_entry :: "(string \<Rightarrow> ('d, unit) io) \<Rightarrow> string list \<Rightarrow> ('d, unit) io" where
  "each_entry f [] = ok ()"
| "each_entry f (n # ns) = bind_io (f n) (\<lambda>_. each_entry f ns)"

definition for_entries :: "'d files \<Rightarrow> string list \<Rightarrow> (string \<Rightarrow> ('d, unit) io) \<Rightarrow> ('d, unit) io" where
  "for_entries fs dir f d =
     (case f_list fs dir d of
        Inl e \<Rightarrow> (if error_kind e = NotFound then Inr () else Inl e, d)
      | Inr ns \<Rightarrow> each_entry f ns d)"

definition cleanup_session_records ::
  "serde \<Rightarrow> 'd files \<Rightarrow> string list \<Rightarrow> (string, string) bmap \<Rightarrow> ('d, unit) io" where
  "cleanup_session_records sd fs dir sessions = for_entries fs dir (\<lambda>n d.
     (case strip_json n of
        None \<Rightarrow> ok () d
      | Some key \<Rightarrow>
          if \<not> hex_key key \<or> key \<in> set (bvalues sessions) then ok () d
          else (case f_read fs (dir @ [n]) d of
                  Inl e \<Rightarrow> (Inl e, d)
                | Inr bytes \<Rightarrow>
                    if BYTE_LIMIT < length bytes then ok () d
                    else (case from_slice_as sd (session_of sd) bytes of
                            Inr s \<Rightarrow> if bget sessions (s_id s) = None then ok () d
                                     else remove_record fs (dir @ [n]) d
                          | Inl e \<Rightarrow> remove_record fs (dir @ [n]) d))))"

definition remove_session_records :: "serde \<Rightarrow> 'd files \<Rightarrow> string list \<Rightarrow> string \<Rightarrow> ('d, unit) io" where
  "remove_session_records sd fs dir i = for_entries fs dir (\<lambda>n d.
     (case strip_json n of
        None \<Rightarrow> ok () d
      | Some key \<Rightarrow>
          if \<not> hex_key key then ok () d
          else (case f_read fs (dir @ [n]) d of
                  Inl e \<Rightarrow> (Inl e, d)
                | Inr bytes \<Rightarrow>
                    if BYTE_LIMIT < length bytes then ok () d
                    else (case from_slice_as sd (session_of sd) bytes of
                            Inl e \<Rightarrow> ok () d
                          | Inr s \<Rightarrow> if s_id s = i then remove_record fs (dir @ [n]) d else ok () d))))"

definition cleanup_records :: "'d files \<Rightarrow> string list \<Rightarrow> string set \<Rightarrow> ('d, unit) io" where
  "cleanup_records fs dir referenced = for_entries fs dir (\<lambda>n.
     (case strip_json n of
        None \<Rightarrow> ok ()
      | Some key \<Rightarrow>
          if hex_key key \<and> key \<notin> referenced then remove_record fs (dir @ [n]) else ok ()))"

section \<open>Saving the catalog\<close>

definition record_path :: "string list \<Rightarrow> string \<Rightarrow> string list" where
  "record_path root key = root @ [''records'', json_name key]"

definition delivery_path :: "string list \<Rightarrow> string \<Rightarrow> string list" where
  "delivery_path root key = root @ [''state'', ''deliveries'', ''records'', json_name key]"

definition client_path :: "string list \<Rightarrow> string list" where
  "client_path root = root @ [''state'', ''clients'', ''runtime.json'']"

definition dindex_path :: "string list \<Rightarrow> string list" where
  "dindex_path root = root @ [''state'', ''deliveries'', ''index.json'']"

definition save_json :: "'d files \<Rightarrow> string list \<Rightarrow> string \<Rightarrow> ('d, unit) io" where
  "save_json fs p bytes =
     (if BYTE_LIMIT < length bytes then err FileTooLarge ''State record exceeds the size limit.''
      else f_save fs p bytes)"

fun save_sessions :: "serde \<Rightarrow> 'd files \<Rightarrow> string list \<Rightarrow> (string, session) bmap \<Rightarrow> (string, string) bmap \<Rightarrow>
    ('d, (string, string) bmap) io" where
  "save_sessions sd fs root [] acc = ok acc"
| "save_sessions sd fs root ((i, s) # rest) acc =
     (if \<not> valid i \<or> s_id s \<noteq> i then err InvalidData ''Session ID is invalid.''
      else
        (let bytes = session_text sd s; key = record_key sd bytes in
         if BYTE_LIMIT < length bytes then err FileTooLarge ''Session record exceeds the size limit.''
         else bind_io (f_save fs (record_path root key) bytes)
                (\<lambda>_. save_sessions sd fs root rest (binsert i key acc))))"

fun save_deliveries :: "serde \<Rightarrow> 'd files \<Rightarrow> string list \<Rightarrow> delivery list \<Rightarrow> ('d, string list) io" where
  "save_deliveries sd fs root [] = ok []"
| "save_deliveries sd fs root (x # xs) =
     (let bytes = delivery_text sd x; key = record_key sd bytes in
      bind_io (f_save fs (delivery_path root key) bytes)
        (\<lambda>_. bind_io (save_deliveries sd fs root xs) (\<lambda>keys. ok (key # keys))))"

definition client_of_store :: "store \<Rightarrow> client_state" where
  "client_of_store st = \<lparr>cl_deferred = st_deferred st, cl_deferred_acknowledged = st_deferred_acknowledged st,
     cl_offsets = st_offsets st, cl_seen = st_seen st\<rparr>"

definition save_catalog :: "serde \<Rightarrow> 'd files \<Rightarrow> string list \<Rightarrow> store \<Rightarrow> ('d, unit) io" where
  "save_catalog sd fs path st =
     (let root = butlast path in
      bind_io (save_sessions sd fs root (st_sessions st) []) (\<lambda>sessions.
      bind_io (save_json fs (client_path root) (client_text sd (client_of_store st))) (\<lambda>_.
      bind_io (save_deliveries sd fs root (st_outbox st)) (\<lambda>outbox_keys.
      bind_io (save_deliveries sd fs root (st_dead st)) (\<lambda>dead_keys.
      bind_io (save_json fs (dindex_path root)
                 (dindex_text sd \<lparr>di_outbox = outbox_keys, di_dead = dead_keys\<rparr>)) (\<lambda>_.
      bind_io (save_json fs path (index_text sd \<lparr>ix_version = 1, ix_sessions = sessions\<rparr>)) (\<lambda>_.
      bind_io (ignore_errors (cleanup_session_records sd fs (root @ [''records'']) sessions)) (\<lambda>_.
      bind_io (ignore_errors (cleanup_records fs (root @ [''state'', ''deliveries'', ''records''])
                 (set outbox_keys \<union> set dead_keys))) (\<lambda>_. ok ())))))))))"

section \<open>Recovery of the single file\<close>

definition migrate_schedule_sessions :: "store \<Rightarrow> json option \<Rightarrow> store \<times> bool" where
  "migrate_schedule_sessions st raw =
     (case Option.bind raw as_object of
        None \<Rightarrow> (st, False)
      | Some persisted \<Rightarrow>
          (let legacy = (\<lambda>i. (case bget persisted i of None \<Rightarrow> False | Some v \<Rightarrow> json_get v ''scheduled'' = None)
                             \<and> is_schedule_session i)
           in (st\<lparr>st_sessions := map (\<lambda>(i, s). (i, if legacy i then s\<lparr>s_scheduled := True\<rparr> else s)) (st_sessions st)\<rparr>,
               list_ex legacy (bkeys (st_sessions st)))))"

definition route_unmatched :: string where
  "route_unmatched = ''The legacy delivery route could not be matched to exactly one session; verify the channel before retrying.''"

definition migrated_delivery :: "session list \<Rightarrow> bool \<Rightarrow> delivery \<Rightarrow> delivery \<times> bool" where
  "migrated_delivery sessions require_match x =
     (case filter (\<lambda>s. s_channel s = Some (d_channel x) \<and> s_chat s = Some (d_chat x) \<and> s_thread s = d_thread x) sessions of
        [s] \<Rightarrow> (x\<lparr>d_private := s_private s\<rparr>, True)
      | _ \<Rightarrow> if require_match
             then (x\<lparr>d_status := Uncertain, d_last_error := Some route_unmatched\<rparr>, True)
             else (x, False))"

fun migrate_routes :: "json list \<Rightarrow> session list \<Rightarrow> bool \<Rightarrow> delivery list \<Rightarrow> delivery list \<times> bool" where
  "migrate_routes raw sessions rm [] = ([], False)"
| "migrate_routes [] sessions rm (x # xs) = (x # xs, False)"
| "migrate_routes (v # raw) sessions rm (x # xs) =
     (let missing = (case as_object v of None \<Rightarrow> False | Some m \<Rightarrow> bget m ''private'' = None);
          (x', c) = (if missing then migrated_delivery sessions rm x else (x, False));
          (xs', c') = migrate_routes raw sessions rm xs
      in (x' # xs', c \<or> c'))"

definition migrate_delivery_routes ::
  "delivery list \<Rightarrow> json option \<Rightarrow> session list \<Rightarrow> bool \<Rightarrow> delivery list \<times> bool" where
  "migrate_delivery_routes ds raw sessions rm =
     (case Option.bind raw as_array of None \<Rightarrow> (ds, False) | Some vs \<Rightarrow> migrate_routes vs sessions rm ds)"

text \<open>What a restart makes of one session: an interrupted turn that was still replay-safe goes back to
  the front of the queue, any other is dropped, and a live reservation stays.\<close>

definition interrupted :: "session \<Rightarrow> session" where
  "interrupted s =
     (let s1 = (case s_inflight s of
                  None \<Rightarrow> s
                | Some m \<Rightarrow>
                    if s_status s \<noteq> ''cancelled'' \<and> s_phase s = ''safe''
                    then s\<lparr>s_queue_roles := (if s_inflight_roles s = [] then s_queue_roles s
                                            else binsert (m_id m) (s_inflight_roles s) (s_queue_roles s)),
                           s_queued := m # s_queued s\<rparr>
                    else s)
      in s1\<lparr>s_inflight_roles := [], s_stream_delivery := None, s_inflight := None, s_phase := safe,
            s_status := ''interrupted'', s_reservation_until := None, s_reservation_owner := None\<rparr>)"

definition tui_reservation :: "session \<Rightarrow> bool" where
  "tui_reservation s \<longleftrightarrow> s_status s = ''working'' \<and> s_inflight s = None \<and> s_reservation_until s \<noteq> None"

definition recover_session :: "string \<Rightarrow> session \<Rightarrow> io_error + (session \<times> bool)" where
  "recover_session i s =
     (if \<not> valid i \<or> s_id s \<noteq> i then Inl (IoError InvalidData ''Session state contains an invalid ID.'')
      else
        (let compacted = compact_messages (s_messages s);
             changed = (length compacted \<noteq> length (s_messages s));
             s1 = s\<lparr>s_messages := compacted\<rparr> in
         if s_inflight s1 \<noteq> None \<and> LIMIT < length (s_queued s1)
         then Inl (IoError InvalidData ''Session recovery queue exceeds the temporary lease bound.'')
         else
           (let s2 = (if LIMIT < length (s_queued s1) \<and> s_inflight s1 = None
                      then s1\<lparr>s_queued := keep_last LIMIT (s_queued s1)\<rparr> else s1);
                s3 = s2\<lparr>s_queue_roles :=
                       bretain (\<lambda>k v. list_ex (\<lambda>m. m_id m = k) (s_queued s2)) (s_queue_roles s2)\<rparr>
            in Inr (if \<not> tui_reservation s3 \<and> (s_status s3 = ''working'' \<or> s_inflight s3 \<noteq> None)
                    then interrupted s3 else s3, changed))))"

fun recover_sessions :: "(string, session) bmap \<Rightarrow> io_error + ((string, session) bmap \<times> bool)" where
  "recover_sessions [] = Inr ([], False)"
| "recover_sessions ((i, s) # rest) =
     (case recover_session i s of
        Inl e \<Rightarrow> Inl e
      | Inr (s', c) \<Rightarrow>
          (case recover_sessions rest of Inl e \<Rightarrow> Inl e | Inr (rest', c') \<Rightarrow> Inr ((i, s') # rest', c \<or> c')))"

definition recover_delivery :: "u64 \<Rightarrow> delivery \<Rightarrow> delivery \<times> bool" where
  "recover_delivery t x =
     (let x1 = (if d_updated x = 0 then x\<lparr>d_updated := d_created x\<rparr> else x)
      in if d_status x1 = Sending \<or> d_status x1 = Streaming
         then (x1\<lparr>d_status := Uncertain, d_last_error := Some ''The daemon stopped during channel delivery.'',
                  d_updated := t\<rparr>, True)
         else (x1, d_updated x = 0))"

text \<open>The sessions over the limits that are discarded, the least recently updated first.\<close>

definition discarded_sessions :: "(string, session) bmap \<Rightarrow> string list" where
  "discarded_sessions m =
     (let users = sort_key s_updated (filter (\<lambda>s. \<not> s_scheduled s) (bvalues m));
          schedules = sort_key s_updated (filter s_scheduled (bvalues m))
      in map s_id (take (length users - LIMIT) users @ take (length schedules - SCHEDULE_SESSION_LIMIT) schedules))"

definition limit_offsets :: "(string, int) bmap \<Rightarrow> (string, int) bmap" where
  "limit_offsets m = drop (length m - LIMIT) m"

definition recover_store :: "u64 \<Rightarrow> json \<Rightarrow> store \<Rightarrow> io_error + (store \<times> bool)" where
  "recover_store t document st0 =
     (let (st1, c1) = migrate_schedule_sessions st0 (json_get document ''sessions'');
          (outbox, c2) = migrate_delivery_routes (st_outbox st1) (json_get document ''outbox'') (bvalues (st_sessions st1)) True;
          (letters, c3) = migrate_delivery_routes (st_dead st1) (json_get document ''dead'') (bvalues (st_sessions st1)) False
      in case recover_sessions (st_sessions st1) of
           Inl e \<Rightarrow> Inl e
         | Inr (sessions, c4) \<Rightarrow>
             (let recovered = map (recover_delivery t) outbox;
                  gone = discarded_sessions sessions;
                  st2 = st1\<lparr>st_sessions := fold bremove gone sessions,
                            st_outbox := keep_last LIMIT (map fst recovered),
                            st_dead := keep_last LIMIT letters,
                            st_offsets := limit_offsets (st_offsets st1),
                            st_seen := trim_seen (st_seen st1) None\<rparr>
              in Inr (st2, c1 \<or> c2 \<or> c3 \<or> c4 \<or> list_ex snd recovered \<or> gone \<noteq> [])))"

definition load_private :: "'d files \<Rightarrow> string list \<Rightarrow> ('d, string option) io" where
  "load_private fs path d =
     (case f_load fs path BYTE_LIMIT d of
        (Inr b, d') \<Rightarrow> (Inr b, d')
      | (Inl e, d') \<Rightarrow>
          if error_kind e = PermissionDenied
          then bind_io (f_private fs path) (\<lambda>_. f_load fs path BYTE_LIMIT) d'
          else (Inl e, d'))"

definition save_single :: "serde \<Rightarrow> 'd files \<Rightarrow> string list \<Rightarrow> store \<Rightarrow> ('d, unit) io" where
  "save_single sd fs path st =
     (let bytes = store_text sd st in
      if BYTE_LIMIT < length bytes then err FileTooLarge ''Session state exceeds the size limit.''
      else f_save fs path bytes)"

text \<open>\<open>Store::save\<close>.\<close>

definition save_path :: "serde \<Rightarrow> 'd files \<Rightarrow> store \<Rightarrow> ('d, unit) io" where
  "save_path sd fs st =
     (case st_path st of
        None \<Rightarrow> ok ()
      | Some path \<Rightarrow> if session_catalog path then save_catalog sd fs path st else save_single sd fs path st)"

text \<open>\<open>Store::load\<close> on a path that is not a catalog.\<close>

definition load_single :: "serde \<Rightarrow> 'd files \<Rightarrow> u64 \<Rightarrow> string list \<Rightarrow> ('d, store) io" where
  "load_single sd fs t path =
     bind_io (load_private fs path) (\<lambda>bytes.
       case bytes of
         None \<Rightarrow> ok (empty_store\<lparr>st_path := Some path\<rparr>)
       | Some b \<Rightarrow>
           bind_io (lift_result (from_utf8 sd b)) (\<lambda>tx.
           bind_io (lift_result (parse_json sd tx)) (\<lambda>document.
           bind_io (lift_result (store_of sd document)) (\<lambda>st0.
           bind_io (lift_result (recover_store t document st0)) (\<lambda>(st1, changed).
             (let st2 = st1\<lparr>st_path := Some path\<rparr> in
              if changed then bind_io (save_path sd fs st2) (\<lambda>_. ok st2) else ok st2))))))"

section \<open>Loading the catalog\<close>

definition imported :: "string \<Rightarrow> session \<Rightarrow> session" where
  "imported target s = s\<lparr>s_id := target,
     s_messages := map (retarget target) (s_messages s), s_queued := map (retarget target) (s_queued s),
     s_inflight := map_option (retarget target) (s_inflight s)\<rparr>"

fun import_sessions :: "serde \<Rightarrow> (string \<times> json) list \<Rightarrow> (string, session) bmap \<Rightarrow> (string, session) bmap" where
  "import_sessions sd [] m = m"
| "import_sessions sd ((i, v) # rest) m =
     (let target = ''tui-'' @ i in
      import_sessions sd rest
        (if bget m target \<noteq> None then m
         else (case session_of sd v of
                 Inl e \<Rightarrow> m
               | Inr s \<Rightarrow> if s_id s = i \<and> valid i then binsert target (imported target s) m else m)))"

definition migrate_catalog :: "serde \<Rightarrow> 'd files \<Rightarrow> u64 \<Rightarrow> string list \<Rightarrow> ('d, store) io" where
  "migrate_catalog sd fs t path d0 =
     (if length path < 3 then err InvalidInput ''Invalid session catalog path.'' d0
      else
        (let home = take (length path - 3) path; legacy = home @ [''sessions.json''];
             offline = home @ [''data'', ''plugins'', ''tui'', ''sessions.json''] in
         bind_io (if f_exists fs legacy d0 then load_single sd fs t legacy else ok empty_store) (\<lambda>st d.
           (let st1 = st\<lparr>st_path := Some path\<rparr> in
            bind_io
              (if f_exists fs offline d
               then bind_io (f_load fs offline (8 * 1024 * 1024)) (\<lambda>bytes.
                 case bytes of
                   None \<Rightarrow> err InvalidData ''TUI session source disappeared.''
                 | Some b \<Rightarrow> bind_io (lift_result (parse_json sd b)) (\<lambda>v.
                     (case Option.bind (json_get v ''sessions'') as_object of
                        None \<Rightarrow> ok st1
                      | Some m \<Rightarrow> ok (st1\<lparr>st_sessions := import_sessions sd m (st_sessions st1)\<rparr>))))
               else ok st1)
              (\<lambda>st2. bind_io (save_path sd fs st2) (\<lambda>_. ok st2)) d)) d0))"

fun load_sessions :: "serde \<Rightarrow> 'd files \<Rightarrow> string list \<Rightarrow> (string, string) bmap \<Rightarrow> (string, session) bmap \<Rightarrow> bool \<Rightarrow>
    ('d, (string, session) bmap \<times> bool) io" where
  "load_sessions sd fs root [] m changed = ok (m, changed)"
| "load_sessions sd fs root ((i, key) # rest) m changed =
     (if \<not> valid i \<or> \<not> hex_key key
      then err InvalidData ''Session catalog contains an invalid record key.''
      else bind_io (f_load fs (record_path root key) BYTE_LIMIT) (\<lambda>bytes.
        case bytes of
          None \<Rightarrow> err InvalidData ''Session record is missing.''
        | Some record \<Rightarrow>
            bind_io (lift_result (parse_json sd record)) (\<lambda>v.
            bind_io (lift_result (session_of sd v)) (\<lambda>s.
              if s_id s \<noteq> i \<or> record_key sd record \<noteq> key
              then err InvalidData ''Session record ID does not match its catalog entry.''
              else
                (let old = (json_get v ''scheduled'' = None \<and> is_schedule_session i);
                     s' = (if old then s\<lparr>s_scheduled := True\<rparr> else s)
                 in load_sessions sd fs root rest (binsert i s' m) (changed \<or> old))))))"

fun load_deliveries :: "serde \<Rightarrow> 'd files \<Rightarrow> string list \<Rightarrow> string list \<Rightarrow> ('d, delivery list) io" where
  "load_deliveries sd fs root [] = ok []"
| "load_deliveries sd fs root (key # keys) =
     bind_io (f_load fs (delivery_path root key) BYTE_LIMIT) (\<lambda>bytes.
       case bytes of
         None \<Rightarrow> err InvalidData ''Delivery record is missing.''
       | Some record \<Rightarrow>
           bind_io (lift_result (from_slice_as sd (delivery_of sd) record)) (\<lambda>x.
             if record_key sd record \<noteq> key then err InvalidData ''Delivery record key is invalid.''
             else bind_io (load_deliveries sd fs root keys) (\<lambda>xs. ok (x # xs))))"

definition load_client :: "serde \<Rightarrow> 'd files \<Rightarrow> string list \<Rightarrow> store \<Rightarrow> ('d, store) io" where
  "load_client sd fs root st =
     bind_io (f_load fs (client_path root) BYTE_LIMIT) (\<lambda>bytes.
       case bytes of
         None \<Rightarrow> ok st
       | Some b \<Rightarrow> bind_io (lift_result (from_slice_as sd (client_of sd) b)) (\<lambda>c.
           ok (st\<lparr>st_deferred := cl_deferred c, st_deferred_acknowledged := cl_deferred_acknowledged c,
                  st_offsets := cl_offsets c, st_seen := cl_seen c\<rparr>)))"

definition load_dindex :: "serde \<Rightarrow> 'd files \<Rightarrow> string list \<Rightarrow> store \<Rightarrow> ('d, store) io" where
  "load_dindex sd fs root st =
     bind_io (f_load fs (dindex_path root) BYTE_LIMIT) (\<lambda>bytes.
       case bytes of
         None \<Rightarrow> ok st
       | Some b \<Rightarrow> bind_io (lift_result (from_slice_as sd (dindex_of sd) b)) (\<lambda>ix.
           bind_io (load_deliveries sd fs root (di_outbox ix)) (\<lambda>outbox.
           bind_io (load_deliveries sd fs root (di_dead ix)) (\<lambda>letters.
             ok (st\<lparr>st_outbox := st_outbox st @ outbox, st_dead := st_dead st @ letters\<rparr>)))))"

definition load_catalog :: "serde \<Rightarrow> 'd files \<Rightarrow> u64 \<Rightarrow> string list \<Rightarrow> ('d, store) io" where
  "load_catalog sd fs t path =
     bind_io (f_load fs path BYTE_LIMIT) (\<lambda>bytes.
       case bytes of
         None \<Rightarrow> migrate_catalog sd fs t path
       | Some b \<Rightarrow>
           bind_io (lift_result (from_slice_as sd (index_of sd) b)) (\<lambda>ix.
             if ix_version ix \<noteq> 1 then err InvalidData ''Unsupported session catalog version.''
             else
               (let root = butlast path in
                bind_io (load_sessions sd fs root (ix_sessions ix) [] False) (\<lambda>(sessions, changed).
                bind_io (load_client sd fs root (empty_store\<lparr>st_sessions := sessions, st_path := Some path\<rparr>)) (\<lambda>st1.
                bind_io (load_dindex sd fs root st1) (\<lambda>st2.
                  if changed then bind_io (save_catalog sd fs path st2) (\<lambda>_. ok st2) else ok st2))))))"

text \<open>\<open>Store::load\<close>.\<close>

definition load_store :: "serde \<Rightarrow> 'd files \<Rightarrow> u64 \<Rightarrow> string list \<Rightarrow> ('d, store) io" where
  "load_store sd fs t path =
     (if session_catalog path then load_catalog sd fs t path else load_single sd fs t path)"

end
