(* ===== verification/Catalog_Laws.thy ===== *)
theory Catalog_Laws
  imports Catalog
begin

text \<open>
  The contract of the file operations that the catalog relies on, as the locale
  \<open>file_store\<close>, and what the catalog promises in return: a store that was saved is loaded
  back, record by record. Theory \<open>Catalog_Disk\<close> interprets the contract on the model of the
  crate \<open>krabb-file\<close>.
\<close>

definition plain :: "string list \<Rightarrow> bool" where
  "plain p \<longleftrightarrow> p \<noteq> [] \<and> last p \<noteq> [] \<and> hd (last p) \<noteq> CHR ''.''"

lemma bind_io_Inr:
  "bind_io m f d = (Inr y, d') \<longleftrightarrow> (\<exists>x d1. m d = (Inr x, d1) \<and> f x d1 = (Inr y, d'))"
  by (auto simp: bind_io_def split: prod.splits sum.splits)

lemma ok_Inr [simp]: "ok x d = (Inr y, d') \<longleftrightarrow> y = x \<and> d' = d"
  by (auto simp: ok_def)

lemma err_Inr [simp]: "err k m d \<noteq> (Inr y, d')"
  by (simp add: err_def)

lemma strip_json_name [simp]: "strip_json n = Some key \<longleftrightarrow> n = json_name key"
  by (auto simp: strip_json_def json_name_def strip_prefix_Some simp flip: rev_append)
    (metis rev_append rev_rev_ident)

lemma json_name_inject [simp]: "json_name a = json_name b \<longleftrightarrow> a = b"
  by (simp add: json_name_def)

lemma plain_json: "hex_key key \<Longrightarrow> plain (dir @ [json_name key])"
  by (cases key) (auto simp: plain_def json_name_def hex_key_def is_ascii_hexdigit_def is_ascii_digit_def code_def)

text \<open>What the serialisers promise: a record key is 64 hexadecimal digits; each value of the store is
  read back from its text, and a session text has its \<open>scheduled\<close> field.\<close>

definition key_law :: "serde \<Rightarrow> bool" where
  "key_law sd \<longleftrightarrow> (\<forall>b. hex_key (record_key sd b))"

definition reads_session :: "serde \<Rightarrow> session \<Rightarrow> bool" where
  "reads_session sd s \<longleftrightarrow> (\<exists>v y. parse_json sd (session_text sd s) = Inr v \<and> session_of sd v = Inr s
     \<and> json_get v ''scheduled'' = Some y)"

definition reads_delivery :: "serde \<Rightarrow> delivery \<Rightarrow> bool" where
  "reads_delivery sd x \<longleftrightarrow> from_slice_as sd (delivery_of sd) (delivery_text sd x) = Inr x"

definition index_of_store :: "serde \<Rightarrow> store \<Rightarrow> session_index" where
  "index_of_store sd st = \<lparr>ix_version = 1,
     ix_sessions = map (\<lambda>(i, s). (i, record_key sd (session_text sd s))) (st_sessions st)\<rparr>"

definition dindex_of_store :: "serde \<Rightarrow> store \<Rightarrow> delivery_index" where
  "dindex_of_store sd st = \<lparr>di_outbox = map (\<lambda>x. record_key sd (delivery_text sd x)) (st_outbox st),
     di_dead = map (\<lambda>x. record_key sd (delivery_text sd x)) (st_dead st)\<rparr>"

definition reads_store :: "serde \<Rightarrow> store \<Rightarrow> bool" where
  "reads_store sd st \<longleftrightarrow>
     list_all (reads_session sd) (bvalues (st_sessions st))
     \<and> list_all (reads_delivery sd) (st_outbox st @ st_dead st)
     \<and> from_slice_as sd (client_of sd) (client_text sd (client_of_store st)) = Inr (client_of_store st)
     \<and> from_slice_as sd (dindex_of sd) (dindex_text sd (dindex_of_store sd st)) = Inr (dindex_of_store sd st)
     \<and> from_slice_as sd (index_of sd) (index_text sd (index_of_store sd st)) = Inr (index_of_store sd st)"

text \<open>No two different records of the store have the same key.\<close>

definition keys_apart :: "serde \<Rightarrow> store \<Rightarrow> bool" where
  "keys_apart sd st \<longleftrightarrow> inj_on (record_key sd) (session_text sd ` set (bvalues (st_sessions st)))
     \<and> inj_on (record_key sd) (delivery_text sd ` set (st_outbox st @ st_dead st))"

text \<open>Inserting the entries of a map in their order builds the map.\<close>

lemma binsert_last: "(\<forall>k' \<in> set (bkeys m). k' < k) \<Longrightarrow> binsert k v m = m @ [(k, v)]"
  by (induction k v m rule: binsert.induct) auto

lemma fold_binsert:
  "bmap_ok (acc @ m) \<Longrightarrow> fold (\<lambda>(i, s). binsert i (f s)) m (map (\<lambda>(i, s). (i, f s)) acc)
     = map (\<lambda>(i, s). (i, f s)) (acc @ m)"
proof (induction m arbitrary: acc)
  case (Cons e m)
  obtain i s where e: "e = (i, s)" by (cases e)
  have "binsert i (f s) (map (\<lambda>(i, s). (i, f s)) acc) = map (\<lambda>(i, s). (i, f s)) (acc @ [e])"
    using Cons.prems by (subst binsert_last) (auto simp: e bmap_ok_def sorted_wrt_append)
  then show ?case using Cons.IH [of "acc @ [e]"] Cons.prems by (simp add: e)
qed simp

locale file_store =
  fixes fs :: "'d files"
    and content :: "'d \<Rightarrow> string list \<Rightarrow> string option"
    and good :: "'d \<Rightarrow> bool"
  assumes load_law: "good d \<Longrightarrow> plain p \<Longrightarrow> (\<And>b. content d p = Some b \<Longrightarrow> length b \<le> limit) \<Longrightarrow>
      f_load fs p limit d = (Inr (content d p), d)"
    and save_law: "good d \<Longrightarrow> plain p \<Longrightarrow> f_save fs p s d = (Inr u, d') \<Longrightarrow>
      good d' \<and> content d' = (content d)(p \<mapsto> s)"
    and remove_law: "good d \<Longrightarrow> plain p \<Longrightarrow> f_remove fs p d = (r, d') \<Longrightarrow>
      good d' \<and> (\<forall>q. q \<noteq> p \<longrightarrow> content d' q = content d q)"
begin

text \<open>A directory clean-up leaves every path alone that it has no reason to remove.\<close>

definition keeps_path :: "string list \<Rightarrow> ('d, unit) io \<Rightarrow> bool" where
  "keeps_path q m \<longleftrightarrow> (\<forall>d. good d \<longrightarrow> good (snd (m d)) \<and> content (snd (m d)) q = content d q)"

lemma keeps_each: "(\<And>n. keeps_path q (f n)) \<Longrightarrow> keeps_path q (each_entry f ns)"
proof (induction ns)
  case (Cons n ns)
  then show ?case
    unfolding keeps_path_def by (auto simp: bind_io_def split: prod.splits sum.splits) (metis snd_conv)+
qed (simp add: keeps_path_def ok_def)

lemma keeps_entries: "(\<And>n. keeps_path q (f n)) \<Longrightarrow> keeps_path q (for_entries fs dir f)"
  using keeps_each [of q f] by (auto simp: keeps_path_def for_entries_def split: sum.splits)

lemma keeps_ok [simp]: "keeps_path q (ok ())"
  by (simp add: keeps_path_def ok_def)

lemma keeps_remove_record: "plain p \<Longrightarrow> q \<noteq> p \<Longrightarrow> keeps_path q (remove_record fs p)"
  using remove_law by (auto simp: keeps_path_def remove_record_def split: prod.splits sum.splits)

lemma keeps_ignore: "keeps_path q m \<Longrightarrow> keeps_path q (ignore_errors m)"
  by (simp add: keeps_path_def ignore_errors_def)

lemma keeps_cleanup_sessions:
  assumes "\<And>key. q = dir @ [json_name key] \<Longrightarrow> key \<in> set (bvalues sessions)"
  shows "keeps_path q (cleanup_session_records sd fs dir sessions)"
proof -
  have "keeps_path q (remove_record fs (dir @ [json_name key]))"
    if "hex_key key" "key \<notin> set (bvalues sessions)" for key
    using that assms plain_json by (intro keeps_remove_record) auto
  then show ?thesis
    unfolding cleanup_session_records_def
    by (intro keeps_entries) (auto simp: keeps_path_def ok_def split: option.splits sum.splits)
qed

lemma keeps_cleanup_records:
  assumes "\<And>key. q = dir @ [json_name key] \<Longrightarrow> key \<in> keys"
  shows "keeps_path q (cleanup_records fs dir keys)"
  unfolding cleanup_records_def
  by (rule keeps_entries) (use assms plain_json in \<open>auto intro!: keeps_remove_record split: option.splits\<close>)

lemma ignore_keeps:
  "keeps_path q m \<Longrightarrow> good d \<Longrightarrow> ignore_errors m d = (Inr u, d') \<Longrightarrow> good d' \<and> content d' q = content d q"
  by (auto simp: keeps_path_def ignore_errors_def)

text \<open>Writing the records.\<close>

abbreviation session_key :: "serde \<Rightarrow> session \<Rightarrow> string" where
  "session_key sd s \<equiv> record_key sd (session_text sd s)"

abbreviation delivery_key :: "serde \<Rightarrow> delivery \<Rightarrow> string" where
  "delivery_key sd x \<equiv> record_key sd (delivery_text sd x)"

lemma save_sessions_ok:
  assumes "key_law sd"
  shows "save_sessions sd fs root m acc d = (Inr ix, d') \<Longrightarrow> good d \<Longrightarrow>
    good d' \<and> ix = fold (\<lambda>(i, s). binsert i (session_key sd s)) m acc
    \<and> (\<forall>(i, s) \<in> set m. valid i \<and> s_id s = i \<and> length (session_text sd s) \<le> BYTE_LIMIT)
    \<and> (\<forall>p. (\<forall>(i, s) \<in> set m. p \<noteq> record_path root (session_key sd s)) \<longrightarrow> content d' p = content d p)
    \<and> (\<forall>(i, s) \<in> set m. \<exists>(j, s') \<in> set m. session_key sd s' = session_key sd s
         \<and> content d' (record_path root (session_key sd s)) = Some (session_text sd s'))"
proof (induction m arbitrary: acc d)
  case (Cons e m)
  obtain i s where e: "e = (i, s)" by (cases e)
  let ?k = "session_key sd s"
  let ?p = "record_path root ?k"
  from Cons.prems(1) obtain u d1 where
    head: "valid i" "s_id s = i" "length (session_text sd s) \<le> BYTE_LIMIT"
      "f_save fs ?p (session_text sd s) d = (Inr u, d1)"
    and rest: "save_sessions sd fs root m (binsert i ?k acc) d1 = (Inr ix, d')"
    by (auto simp: e Let_def bind_io_Inr split: if_splits)
  have "plain ?p"
    using assms plain_json [of ?k "root @ [''records'']"] by (simp add: record_path_def key_law_def)
  then have d1: "good d1" "content d1 = (content d)(?p \<mapsto> session_text sd s)"
    using save_law [OF Cons.prems(2) _ head(4)] by auto
  note IH = Cons.IH [OF rest d1(1)]
  have frame: "content d' p = content d p" if "\<forall>(i, s) \<in> set (e # m). p \<noteq> record_path root (session_key sd s)" for p
    using that IH d1(2) by (auto simp: e)
  have first: "\<exists>(j, s') \<in> set (e # m). session_key sd s' = ?k \<and> content d' ?p = Some (session_text sd s')"
  proof (cases "\<exists>(j, s') \<in> set m. session_key sd s' = ?k")
    case True
    then obtain j s' where js: "(j, s') \<in> set m" "session_key sd s' = ?k" by auto
    with IH obtain j2 s2 where "(j2, s2) \<in> set m" "session_key sd s2 = ?k" "content d' ?p = Some (session_text sd s2)"
      by fastforce
    then show ?thesis by force
  next
    case False
    then have "\<forall>(j, s') \<in> set m. ?p \<noteq> record_path root (session_key sd s')" by (auto simp: record_path_def)
    with IH d1(2) show ?thesis by (auto simp: e)
  qed
  have others: "\<forall>(i, s) \<in> set m. \<exists>(j, s') \<in> set (e # m). session_key sd s' = session_key sd s
         \<and> content d' (record_path root (session_key sd s)) = Some (session_text sd s')"
    using IH by fastforce
  show ?case using IH head first others frame by (auto simp: e)
qed simp

lemma save_deliveries_ok:
  assumes "key_law sd"
  shows "save_deliveries sd fs root xs d = (Inr keys, d') \<Longrightarrow> good d \<Longrightarrow>
    good d' \<and> keys = map (delivery_key sd) xs
    \<and> (\<forall>p. (\<forall>x \<in> set xs. p \<noteq> delivery_path root (delivery_key sd x)) \<longrightarrow> content d' p = content d p)
    \<and> (\<forall>x \<in> set xs. \<exists>y \<in> set xs. delivery_key sd y = delivery_key sd x
         \<and> content d' (delivery_path root (delivery_key sd x)) = Some (delivery_text sd y))"
proof (induction xs arbitrary: d keys)
  case (Cons x xs)
  let ?k = "delivery_key sd x"
  let ?p = "delivery_path root ?k"
  from Cons.prems(1) obtain u d1 ks where head: "f_save fs ?p (delivery_text sd x) d = (Inr u, d1)"
    and rest: "save_deliveries sd fs root xs d1 = (Inr ks, d')" and keys: "keys = ?k # ks"
    by (auto simp: Let_def bind_io_Inr)
  have "plain ?p"
    using assms plain_json [of ?k "root @ [''state'', ''deliveries'', ''records'']"]
    by (simp add: delivery_path_def key_law_def)
  then have d1: "good d1" "content d1 = (content d)(?p \<mapsto> delivery_text sd x)"
    using save_law [OF Cons.prems(2) _ head] by auto
  note IH = Cons.IH [OF rest d1(1)]
  have first: "\<exists>y \<in> set (x # xs). delivery_key sd y = ?k \<and> content d' ?p = Some (delivery_text sd y)"
  proof (cases "\<exists>y \<in> set xs. delivery_key sd y = ?k")
    case True
    with IH obtain z where "z \<in> set xs" "delivery_key sd z = ?k" "content d' ?p = Some (delivery_text sd z)"
      by (metis (no_types, lifting))
    then show ?thesis by force
  next
    case False
    then have "\<forall>y \<in> set xs. ?p \<noteq> delivery_path root (delivery_key sd y)" by (auto simp: delivery_path_def)
    with IH d1(2) show ?thesis by auto
  qed
  show ?case using IH first d1(2) keys by fastforce
qed simp

text \<open>Reading them back.\<close>

lemma load_sessions_ok:
  assumes sd: "key_law sd" and d: "good d"
  shows "(\<forall>(i, s) \<in> set m. reads_session sd s \<and> valid i \<and> s_id s = i \<and> length (session_text sd s) \<le> BYTE_LIMIT
      \<and> content d (record_path root (session_key sd s)) = Some (session_text sd s)) \<Longrightarrow>
    load_sessions sd fs root (map (\<lambda>(i, s). (i, session_key sd s)) m) acc ch d
      = (Inr (fold (\<lambda>(i, s). binsert i s) m acc, ch), d)"
proof (induction m arbitrary: acc)
  case (Cons e m)
  obtain i s where e: "e = (i, s)" by (cases e)
  from Cons.prems have rs: "reads_session sd s" and s: "valid i" "s_id s = i" "length (session_text sd s) \<le> BYTE_LIMIT"
    "content d (record_path root (session_key sd s)) = Some (session_text sd s)" by (auto simp: e)
  have key: "hex_key (session_key sd s)" using sd by (simp add: key_law_def)
  have "plain (record_path root (session_key sd s))"
    using plain_json [OF key, of "root @ [''records'']"] by (simp add: record_path_def)
  from load_law [OF d this, of BYTE_LIMIT] s(3,4)
  have ld: "f_load fs (record_path root (session_key sd s)) BYTE_LIMIT d = (Inr (Some (session_text sd s)), d)" by simp
  obtain v y where v: "parse_json sd (session_text sd s) = Inr v" "session_of sd v = Inr s"
    "json_get v ''scheduled'' = Some y"
    using rs unfolding reads_session_def by blast
  show ?case
    using Cons.IH [of "binsert i s acc"] Cons.prems s(1,2) key v
    by (simp add: e bind_io_def ld lift_result_def Let_def)
qed (simp add: ok_def)

lemma load_deliveries_ok:
  assumes sd: "key_law sd" and d: "good d"
  shows "(\<forall>x \<in> set xs. reads_delivery sd x \<and> length (delivery_text sd x) \<le> BYTE_LIMIT
      \<and> content d (delivery_path root (delivery_key sd x)) = Some (delivery_text sd x)) \<Longrightarrow>
    load_deliveries sd fs root (map (delivery_key sd) xs) d = (Inr xs, d)"
proof (induction xs)
  case (Cons x xs)
  have key: "hex_key (delivery_key sd x)" using sd by (simp add: key_law_def)
  have "plain (delivery_path root (delivery_key sd x))"
    using plain_json [OF key, of "root @ [''state'', ''deliveries'', ''records'']"] by (simp add: delivery_path_def)
  from load_law [OF d this, of BYTE_LIMIT] Cons.prems
  have ld: "f_load fs (delivery_path root (delivery_key sd x)) BYTE_LIMIT d = (Inr (Some (delivery_text sd x)), d)" by simp
  have "from_slice_as sd (delivery_of sd) (delivery_text sd x) = Inr x"
    using Cons.prems by (simp add: reads_delivery_def)
  with Cons show ?case by (simp add: bind_io_def ld lift_result_def ok_def)
qed (simp add: ok_def)

text \<open>The records and indexes a disk holds for a store.\<close>

definition holds_store :: "serde \<Rightarrow> string list \<Rightarrow> store \<Rightarrow> 'd \<Rightarrow> bool" where
  "holds_store sd path st d \<longleftrightarrow> (let root = butlast path in
     good d
     \<and> (\<forall>(i, s) \<in> set (st_sessions st). valid i \<and> s_id s = i \<and> length (session_text sd s) \<le> BYTE_LIMIT
          \<and> content d (record_path root (session_key sd s)) = Some (session_text sd s))
     \<and> content d (client_path root) = Some (client_text sd (client_of_store st))
     \<and> length (client_text sd (client_of_store st)) \<le> BYTE_LIMIT
     \<and> (\<forall>x \<in> set (st_outbox st @ st_dead st).
          content d (delivery_path root (delivery_key sd x)) = Some (delivery_text sd x))
     \<and> content d (dindex_path root) = Some (dindex_text sd (dindex_of_store sd st))
     \<and> length (dindex_text sd (dindex_of_store sd st)) \<le> BYTE_LIMIT
     \<and> content d path = Some (index_text sd (index_of_store sd st))
     \<and> length (index_text sd (index_of_store sd st)) \<le> BYTE_LIMIT)"

lemma save_json_ok:
  assumes "save_json fs p b d = (Inr u, d')" and "good d" and "plain p"
  shows "good d' \<and> content d' = (content d)(p \<mapsto> b) \<and> length b \<le> BYTE_LIMIT"
  using assms save_law [OF assms(2,3)] by (auto simp: save_json_def split: if_splits)

lemma save_catalog_steps:
  assumes "save_catalog sd fs path st d = (Inr u, d')"
  obtains ix d1 u1 d2 ks d3 ls d4 u2 d5 u3 d6 u4 d7 u5 where
    "save_sessions sd fs (butlast path) (st_sessions st) [] d = (Inr ix, d1)"
    "save_json fs (client_path (butlast path)) (client_text sd (client_of_store st)) d1 = (Inr u1, d2)"
    "save_deliveries sd fs (butlast path) (st_outbox st) d2 = (Inr ks, d3)"
    "save_deliveries sd fs (butlast path) (st_dead st) d3 = (Inr ls, d4)"
    "save_json fs (dindex_path (butlast path)) (dindex_text sd \<lparr>di_outbox = ks, di_dead = ls\<rparr>) d4 = (Inr u2, d5)"
    "save_json fs path (index_text sd \<lparr>ix_version = 1, ix_sessions = ix\<rparr>) d5 = (Inr u3, d6)"
    "ignore_errors (cleanup_session_records sd fs (butlast path @ [''records'']) ix) d6 = (Inr u4, d7)"
    "ignore_errors (cleanup_records fs (butlast path @ [''state'', ''deliveries'', ''records'']) (set ks \<union> set ls)) d7 = (Inr u5, d')"
  using assms unfolding save_catalog_def Let_def bind_io_Inr ok_Inr by blast

lemma save_catalog_holds:
  assumes sd: "key_law sd" and d: "good d" and path: "session_catalog path" and m: "bmap_ok (st_sessions st)"
    and keys: "keys_apart sd st" and save: "save_catalog sd fs path st d = (Inr u, d')"
  shows "holds_store sd path st d'"
proof -
  have injs: "inj_on (record_key sd) (session_text sd ` set (bvalues (st_sessions st)))"
    and injd: "inj_on (record_key sd) (delivery_text sd ` set (st_outbox st @ st_dead st))"
    using keys unfolding keys_apart_def by blast+
  obtain root where pe: "path = root @ [''index.json'']"
    using path unfolding session_catalog_def by (metis append_butlast_last_id)
  then have rt: "butlast path = root" by simp
  have plain: "plain (client_path root)" "plain (dindex_path root)" "plain path"
    by (simp_all add: pe plain_def client_path_def dindex_path_def)
  have apart: "client_path root \<noteq> record_path root k" "dindex_path root \<noteq> record_path root k" "path \<noteq> record_path root k"
    "delivery_path root k' \<noteq> record_path root k" "client_path root \<noteq> delivery_path root k"
    "dindex_path root \<noteq> delivery_path root k" "path \<noteq> delivery_path root k" "client_path root \<noteq> dindex_path root"
    "client_path root \<noteq> path" "dindex_path root \<noteq> path" for k k'
    by (simp_all add: pe client_path_def dindex_path_def record_path_def delivery_path_def)
  let ?ix = "map (\<lambda>(i, s). (i, session_key sd s)) (st_sessions st)"
  let ?ok = "map (delivery_key sd) (st_outbox st)" and ?dk = "map (delivery_key sd) (st_dead st)"
  have ixf: "fold (\<lambda>(i, s). binsert i (session_key sd s)) (st_sessions st) [] = ?ix"
    using fold_binsert [of "[]" "st_sessions st"] m by simp
  obtain ix d1 u1 d2 ks d3 ls d4 u2 d5 u3 d6 u4 d7 u5 where
    s1: "save_sessions sd fs root (st_sessions st) [] d = (Inr ix, d1)"
    and s2: "save_json fs (client_path root) (client_text sd (client_of_store st)) d1 = (Inr u1, d2)"
    and s3: "save_deliveries sd fs root (st_outbox st) d2 = (Inr ks, d3)"
    and s4: "save_deliveries sd fs root (st_dead st) d3 = (Inr ls, d4)"
    and s5: "save_json fs (dindex_path root) (dindex_text sd \<lparr>di_outbox = ks, di_dead = ls\<rparr>) d4 = (Inr u2, d5)"
    and s6: "save_json fs path (index_text sd \<lparr>ix_version = 1, ix_sessions = ix\<rparr>) d5 = (Inr u3, d6)"
    and s7: "ignore_errors (cleanup_session_records sd fs (root @ [''records'']) ix) d6 = (Inr u4, d7)"
    and s8: "ignore_errors (cleanup_records fs (root @ [''state'', ''deliveries'', ''records'']) (set ks \<union> set ls)) d7 = (Inr u5, d')"
    using save unfolding rt [symmetric] by (rule save_catalog_steps)
  note r1 = save_sessions_ok [OF sd s1 d, unfolded ixf]
  have g1: "good d1" and ix: "ix = ?ix" using r1 by (rule conjunct1, blast)
  have recs: "\<forall>(i, s) \<in> set (st_sessions st). valid i \<and> s_id s = i \<and> length (session_text sd s) \<le> BYTE_LIMIT"
    using r1 by blast
  note r2 = save_json_ok [OF s2 g1 plain(1)]
  note r3 = save_deliveries_ok [OF sd s3 conjunct1 [OF r2]]
  note r4 = save_deliveries_ok [OF sd s4 conjunct1 [OF r3]]
  note r5 = save_json_ok [OF s5 conjunct1 [OF r4] plain(2)]
  note r6 = save_json_ok [OF s6 conjunct1 [OF r5] plain(3)]
  have ks: "ks = ?ok" "ls = ?dk" using r3 r4 by (blast, blast)
  have g6: "good d6" and c2: "content d2 = (content d1)(client_path root \<mapsto> client_text sd (client_of_store st))"
    and c5: "content d5 = (content d4)(dindex_path root \<mapsto> dindex_text sd \<lparr>di_outbox = ks, di_dead = ls\<rparr>)"
    and c6: "content d6 = (content d5)(path \<mapsto> index_text sd \<lparr>ix_version = 1, ix_sessions = ix\<rparr>)"
    using r2 r5 r6 by blast+
  have text1: "content d1 (record_path root (session_key sd s)) = Some (session_text sd s)"
    if s: "(i, s) \<in> set (st_sessions st)" for i s
  proof -
    from r1 have "\<forall>(i, s) \<in> set (st_sessions st). \<exists>(j, s') \<in> set (st_sessions st). session_key sd s' = session_key sd s
         \<and> content d1 (record_path root (session_key sd s)) = Some (session_text sd s')" by blast
    with s obtain j s' where js: "(j, s') \<in> set (st_sessions st)" "session_key sd s' = session_key sd s"
      "content d1 (record_path root (session_key sd s)) = Some (session_text sd s')" by fast
    have "s \<in> set (bvalues (st_sessions st))" "s' \<in> set (bvalues (st_sessions st))"
      using s js(1) by force+
    then have "session_text sd s' = session_text sd s"
      using inj_onD [OF injs js(2)] by blast
    with js(3) show ?thesis by simp
  qed
  have same: "delivery_text sd x = delivery_text sd y"
    if "x \<in> set (st_outbox st @ st_dead st)" "y \<in> set (st_outbox st @ st_dead st)" "delivery_key sd x = delivery_key sd y" for x y
    using inj_onD [OF injd that(3)] that(1,2) by blast
  have frame3: "content d3 p = content d2 p" if "\<forall>x \<in> set (st_outbox st). p \<noteq> delivery_path root (delivery_key sd x)" for p
    using r3 that by blast
  have frame4: "content d4 p = content d3 p" if "\<forall>x \<in> set (st_dead st). p \<noteq> delivery_path root (delivery_key sd x)" for p
    using r4 that by blast
  have last3: "\<exists>y \<in> set (st_outbox st). delivery_key sd y = delivery_key sd x
      \<and> content d3 (delivery_path root (delivery_key sd x)) = Some (delivery_text sd y)" if "x \<in> set (st_outbox st)" for x
    using r3 that by blast
  have last4: "\<exists>y \<in> set (st_dead st). delivery_key sd y = delivery_key sd x
      \<and> content d4 (delivery_path root (delivery_key sd x)) = Some (delivery_text sd y)" if "x \<in> set (st_dead st)" for x
    using r4 that by blast
  have text4: "content d4 (delivery_path root (delivery_key sd x)) = Some (delivery_text sd x)"
    if x: "x \<in> set (st_outbox st @ st_dead st)" for x
  proof (cases "\<exists>y \<in> set (st_dead st). delivery_key sd y = delivery_key sd x")
    case True
    then obtain y where y: "y \<in> set (st_dead st)" "delivery_key sd y = delivery_key sd x" by auto
    from last4 [OF y(1)] y(2) obtain z where z: "z \<in> set (st_dead st)" "delivery_key sd z = delivery_key sd x"
      "content d4 (delivery_path root (delivery_key sd x)) = Some (delivery_text sd z)" by auto
    from z(1) have "z \<in> set (st_outbox st @ st_dead st)" by simp
    from same [OF this x z(2)] z(3) show ?thesis by simp
  next
    case False
    then have xo: "x \<in> set (st_outbox st)" using x by auto
    have "\<forall>y \<in> set (st_dead st). delivery_path root (delivery_key sd x) \<noteq> delivery_path root (delivery_key sd y)"
      using False by (auto simp: delivery_path_def)
    from frame4 [OF this] last3 [OF xo] obtain z where z: "z \<in> set (st_outbox st)" "delivery_key sd z = delivery_key sd x"
      "content d4 (delivery_path root (delivery_key sd x)) = Some (delivery_text sd z)" by auto
    from z(1) have "z \<in> set (st_outbox st @ st_dead st)" by simp
    from same [OF this x z(2)] z(3) show ?thesis by simp
  qed
  have c24: "content d4 p = content d2 p" if "\<And>k. p \<noteq> delivery_path root k" for p
    using frame3 [of p] frame4 [of p] that by simp
  have rec6: "content d6 (record_path root k) = content d1 (record_path root k)" for k
    using c24 [of "record_path root k"] apart(4) [of _ k, THEN not_sym] apart(1-3) [of k, THEN not_sym]
    by (simp add: c6 c5 c2)
  have del6: "content d6 (delivery_path root k) = content d4 (delivery_path root k)" for k
    using apart(6,7) [of k, THEN not_sym] by (simp add: c6 c5)
  have cl6: "content d6 (client_path root) = Some (client_text sd (client_of_store st))"
    using c24 [OF apart(5)] apart(8,9) by (simp add: c6 c5 c2)
  have di6: "content d6 (dindex_path root) = Some (dindex_text sd \<lparr>di_outbox = ks, di_dead = ls\<rparr>)"
    using apart(10) by (simp add: c6 c5)
  have ix6: "content d6 path = Some (index_text sd \<lparr>ix_version = 1, ix_sessions = ix\<rparr>)" by (simp add: c6)
  have keep: "content d' q = content d6 q \<and> good d'"
    if q1: "\<And>key. q = (root @ [''records'']) @ [json_name key] \<Longrightarrow> key \<in> set (bvalues ix)"
      and q2: "\<And>key. q = (root @ [''state'', ''deliveries'', ''records'']) @ [json_name key] \<Longrightarrow> key \<in> set ks \<union> set ls" for q
  proof -
    have k7: "good d7 \<and> content d7 q = content d6 q"
      using keeps_cleanup_sessions [OF q1] g6 s7 by (rule ignore_keeps)
    have "good d' \<and> content d' q = content d7 q"
      using keeps_cleanup_records [OF q2] conjunct1 [OF k7] s8 by (rule ignore_keeps)
    with k7 show ?thesis by simp
  qed
  have kp: "content d' path = content d6 path" "good d'" "content d' (client_path root) = content d6 (client_path root)"
    "content d' (dindex_path root) = content d6 (dindex_path root)"
    using keep [of path] keep [of "client_path root"] keep [of "dindex_path root"]
    by (simp_all add: pe client_path_def dindex_path_def)
  have kr: "content d' (record_path root (session_key sd s)) = content d6 (record_path root (session_key sd s))"
    if "(i, s) \<in> set (st_sessions st)" for i s
    using keep [of "record_path root (session_key sd s)"] that by (force simp: record_path_def ix)
  have kd: "content d' (delivery_path root (delivery_key sd x)) = content d6 (delivery_path root (delivery_key sd x))"
    if "x \<in> set (st_outbox st @ st_dead st)" for x
    using keep [of "delivery_path root (delivery_key sd x)"] that by (auto simp: delivery_path_def ks)
  have lens: "length (client_text sd (client_of_store st)) \<le> BYTE_LIMIT"
    "length (dindex_text sd \<lparr>di_outbox = ks, di_dead = ls\<rparr>) \<le> BYTE_LIMIT"
    "length (index_text sd \<lparr>ix_version = 1, ix_sessions = ix\<rparr>) \<le> BYTE_LIMIT"
    using r2 r5 r6 by blast+
  show ?thesis
    unfolding holds_store_def Let_def rt dindex_of_store_def index_of_store_def
    using kp cl6 di6 ix6 lens unfolding ks ix
    by (intro conjI) (use recs kr rec6 text1 kd del6 text4 in \<open>auto\<close>)
qed

text \<open>Loading from a disk that holds the store gives the store.\<close>

lemma load_holds:
  assumes sd: "key_law sd" "reads_store sd st" and path: "session_catalog path" and m: "bmap_ok (st_sessions st)"
    and h: "holds_store sd path st d" and lens: "\<forall>x \<in> set (st_outbox st @ st_dead st). length (delivery_text sd x) \<le> BYTE_LIMIT"
    and p: "st_path st = Some path"
  shows "load_catalog sd fs t path d = (Inr st, d)"
proof -
  obtain root where pe: "path = root @ [''index.json'']"
    using path unfolding session_catalog_def by (metis append_butlast_last_id)
  then have rt: "butlast path = root" by simp
  have plain: "plain (client_path root)" "plain (dindex_path root)" "plain path"
    by (simp_all add: pe plain_def client_path_def dindex_path_def)
  note hs = h [unfolded holds_store_def Let_def rt]
  have g: "good d" using hs by blast
  have ld: "f_load fs q BYTE_LIMIT d = (Inr (Some b), d)" if "plain q" "content d q = Some b" "length b \<le> BYTE_LIMIT" for q b
    using load_law [OF g that(1), of BYTE_LIMIT] that(2,3) by simp
  have rs: "reads_session sd s" if "(i, s) \<in> set (st_sessions st)" for i s
    using sd(2) that by (force simp: reads_store_def list_all_iff)
  have rd: "reads_delivery sd x" if "x \<in> set (st_outbox st @ st_dead st)" for x
    using sd(2) that unfolding reads_store_def list_all_iff by blast
  have laws: "from_slice_as sd (client_of sd) (client_text sd (client_of_store st)) = Inr (client_of_store st)"
    "from_slice_as sd (dindex_of sd) (dindex_text sd (dindex_of_store sd st)) = Inr (dindex_of_store sd st)"
    "from_slice_as sd (index_of sd) (index_text sd (index_of_store sd st)) = Inr (index_of_store sd st)"
    using sd(2) unfolding reads_store_def by blast+
  have sess: "load_sessions sd fs root (ix_sessions (index_of_store sd st)) [] False d = (Inr (st_sessions st, False), d)"
  proof -
    have "load_sessions sd fs root (ix_sessions (index_of_store sd st)) [] False d
        = (Inr (fold (\<lambda>(i, s). binsert i s) (st_sessions st) [], False), d)"
      unfolding index_of_store_def session_index.simps using hs rs by (intro load_sessions_ok [OF sd(1) g]) blast
    then show ?thesis using fold_binsert [of "[]" "st_sessions st" "\<lambda>s. s"] m by simp
  qed
  have dl: "load_deliveries sd fs root (map (\<lambda>x. delivery_key sd x) xs) d = (Inr xs, d)"
    if "set xs \<subseteq> set (st_outbox st @ st_dead st)" for xs
    using hs lens rd that by (intro load_deliveries_ok [OF sd(1) g]) blast
  let ?st1 = "empty_store\<lparr>st_sessions := st_sessions st, st_path := Some path\<rparr>"
  let ?st2 = "?st1\<lparr>st_deferred := st_deferred st, st_deferred_acknowledged := st_deferred_acknowledged st,
     st_offsets := st_offsets st, st_seen := st_seen st\<rparr>"
  have "f_load fs (client_path root) BYTE_LIMIT d = (Inr (Some (client_text sd (client_of_store st))), d)"
    using hs by (intro ld plain) blast+
  then have client: "load_client sd fs root ?st1 d = (Inr ?st2, d)"
    by (simp add: load_client_def bind_io_def lift_result_def laws ok_def) (simp add: client_of_store_def)
  have "f_load fs (dindex_path root) BYTE_LIMIT d = (Inr (Some (dindex_text sd (dindex_of_store sd st))), d)"
    using hs by (intro ld plain) blast+
  then have dindex: "load_dindex sd fs root ?st2 d = (Inr st, d)"
    using p by (simp add: load_dindex_def bind_io_def lift_result_def laws)
      (simp add: dindex_of_store_def bind_io_def ok_def dl empty_store_def)
  have index: "f_load fs path BYTE_LIMIT d = (Inr (Some (index_text sd (index_of_store sd st))), d)"
    using hs by (intro ld plain) blast+
  have v: "ix_version (index_of_store sd st) = 1" by (simp add: index_of_store_def)
  show ?thesis
    unfolding load_catalog_def bind_io_def [of "f_load fs path BYTE_LIMIT"] index
    by (simp add: bind_io_def lift_result_def [of "Inr _"] laws v Let_def rt sess client dindex ok_def)
qed

lemma save_load:
  assumes "key_law sd" "reads_store sd st" "keys_apart sd st"
    and "good d" "session_catalog path" "bmap_ok (st_sessions st)" "st_path st = Some path"
    and "\<forall>x \<in> set (st_outbox st @ st_dead st). length (delivery_text sd x) \<le> BYTE_LIMIT"
    and "save_path sd fs st d = (Inr u, d')"
  shows "load_store sd fs t path d' = (Inr st, d')"
proof -
  have "save_catalog sd fs path st d = (Inr u, d')" using assms(5,7,9) by (simp add: save_path_def)
  from save_catalog_holds [OF assms(1,4,5,6,3) this]
  have "holds_store sd path st d'" .
  from load_holds [OF assms(1,2,5,6) this assms(8,7)] assms(5) show ?thesis by (simp add: load_store_def)
qed

end

end
