(* ===== verification/Crash_Safe_File.thy ===== *)
theory Crash_Safe_File
  imports Ordmap "HOL-Library.Sublist"
begin

text \<open>
  \<open>krabb-libs/file/src/lib.rs\<close>: state files that survive a crash. The model is one directory,
  a map from names to nodes; \<open>save\<close> is the script of system calls it makes, so that a crash is
  a stop after any prefix of them, inside a write included. The serialiser of the journal is
  a parameter, a pair of functions; messages of errors the operating system raises are left
  empty. The directory exists, and links are refused but not followed.
\<close>

section \<open>Directories\<close>

datatype node = File string bool | Symlink | Directory

type_synonym dir = "(string, node) bmap"

definition os_error :: "io_kind \<Rightarrow> io_error" where
  "os_error k = IoError k []"

definition regular :: "dir \<Rightarrow> string \<Rightarrow> bool" where
  "regular d n = (case bget d n of Some (File b p) \<Rightarrow> True | _ \<Rightarrow> False)"

definition metadata :: "dir \<Rightarrow> string \<Rightarrow> (string \<times> bool) io_result" where
  "metadata d n =
     (case bget d n of
        None \<Rightarrow> Inl (os_error NotFound)
      | Some Symlink \<Rightarrow> Inl (IoError PermissionDenied ''State file cannot be a symbolic link.'')
      | Some Directory \<Rightarrow> Inl (IoError InvalidInput ''State path must be a regular file.'')
      | Some (File b p) \<Rightarrow> Inr (b, p))"

text \<open>\<open>private\<close> sets mode 0600; the flag of a \<open>File\<close> says that nobody else may read it.\<close>

definition private_file :: "string \<Rightarrow> dir \<Rightarrow> unit io_result \<times> dir" where
  "private_file n d =
     (case metadata d n of
        Inl e \<Rightarrow> (Inl e, d)
      | Inr (b, p) \<Rightarrow> (Inr (), binsert n (File b True) d))"

definition check_file :: "string \<Rightarrow> dir \<Rightarrow> unit io_result" where
  "check_file n d =
     (case metadata d n of
        Inl e \<Rightarrow> Inl e
      | Inr (b, p) \<Rightarrow> if p then Inr () else Inl (IoError PermissionDenied ''State file must be private.''))"

definition CREDENTIAL_LIMIT :: nat where "CREDENTIAL_LIMIT = 1024 * 1024"

definition credential :: "string \<Rightarrow> dir \<Rightarrow> unit io_result" where
  "credential n d =
     (case check_file n d of
        Inl e \<Rightarrow> Inl e
      | Inr _ \<Rightarrow>
          (case metadata d n of
             Inl e \<Rightarrow> Inl e
           | Inr (b, p) \<Rightarrow>
               if CREDENTIAL_LIMIT < length b
               then Inl (IoError FileTooLarge ''Credential file exceeds the size limit.'') else Inr ()))"

definition reject_link :: "string \<Rightarrow> dir \<Rightarrow> unit io_result" where
  "reject_link n d =
     (if bget d n = Some Symlink
      then Inl (IoError PermissionDenied ''State file cannot be a symbolic link.'') else Inr ())"

section \<open>System calls\<close>

datatype prim =
    CreateNew string
  | OpenTruncate string
  | WriteAll string string
  | SyncFile string
  | SetPrivate string
  | Rename string string
  | Unlink string
  | TryUnlink string
  | SyncDir

definition unlink :: "string \<Rightarrow> dir \<Rightarrow> unit io_result \<times> dir" where
  "unlink n d =
     (case bget d n of
        None \<Rightarrow> (Inl (os_error NotFound), d)
      | Some Directory \<Rightarrow> (Inl (os_error OtherKind), d)
      | Some _ \<Rightarrow> (Inr (), bremove n d))"

definition rename :: "string \<Rightarrow> string \<Rightarrow> dir \<Rightarrow> unit io_result \<times> dir" where
  "rename a b d =
     (case bget d a of
        None \<Rightarrow> (Inl (os_error NotFound), d)
      | Some x \<Rightarrow>
          if bget d b = Some Directory then (Inl (os_error OtherKind), d)
          else (Inr (), binsert b x (bremove a d)))"

fun prim_run :: "prim \<Rightarrow> dir \<Rightarrow> unit io_result \<times> dir" where
  "prim_run (CreateNew n) d =
     (if bget d n = None then (Inr (), binsert n (File [] True) d) else (Inl (os_error AlreadyExists), d))"
| "prim_run (OpenTruncate n) d =
     (case bget d n of
        None \<Rightarrow> (Inr (), binsert n (File [] True) d)
      | Some (File b p) \<Rightarrow> (Inr (), binsert n (File [] p) d)
      | Some _ \<Rightarrow> (Inl (os_error OtherKind), d))"
| "prim_run (WriteAll n s) d =
     (case bget d n of
        Some (File b p) \<Rightarrow> (Inr (), binsert n (File (b @ s) p) d)
      | _ \<Rightarrow> (Inl (os_error OtherKind), d))"
| "prim_run (SyncFile n) d = (Inr (), d)"
| "prim_run (SetPrivate n) d = private_file n d"
| "prim_run (Rename a b) d = rename a b d"
| "prim_run (Unlink n) d = unlink n d"
| "prim_run (TryUnlink n) d = (Inr (), snd (unlink n d))"
| "prim_run SyncDir d = (Inr (), d)"

fun run_script :: "prim list \<Rightarrow> dir \<Rightarrow> unit io_result \<times> dir" where
  "run_script [] d = (Inr (), d)"
| "run_script (p # ps) d =
     (case prim_run p d of (Inl e, d') \<Rightarrow> (Inl e, d') | (Inr u, d') \<Rightarrow> run_script ps d')"

section \<open>Saving\<close>

record transaction =
  t_path :: string
  t_temporary :: string
  t_backup :: string
  t_phase :: string

record journal_codec =
  to_vec :: "transaction \<Rightarrow> string"
  from_slice :: "string \<Rightarrow> transaction option"

definition temporary_name :: "string \<Rightarrow> string \<Rightarrow> string" where
  "temporary_name n nonce = ''.'' @ n @ ''.tmp-'' @ nonce"

definition backup_name :: "string \<Rightarrow> string \<Rightarrow> string" where
  "backup_name n nonce = ''.'' @ n @ ''.backup-'' @ nonce"

definition journal_prefix :: "string \<Rightarrow> string" where
  "journal_prefix n = ''.'' @ n @ ''.txn-''"

definition journal_name :: "string \<Rightarrow> string \<Rightarrow> string" where
  "journal_name n nonce = journal_prefix n @ nonce"

definition write_journal :: "journal_codec \<Rightarrow> string \<Rightarrow> transaction \<Rightarrow> prim list" where
  "write_journal jc j t = [OpenTruncate j, WriteAll j (to_vec jc t), SyncFile j, SetPrivate j]"

definition transaction_of :: "string \<Rightarrow> string \<Rightarrow> string \<Rightarrow> transaction" where
  "transaction_of n nonce ph =
     \<lparr>t_path = n, t_temporary = temporary_name n nonce, t_backup = backup_name n nonce, t_phase = ph\<rparr>"

definition save_script :: "journal_codec \<Rightarrow> string \<Rightarrow> string \<Rightarrow> string \<Rightarrow> bool \<Rightarrow> prim list" where
  "save_script jc n content nonce exists =
     (let tmp = temporary_name n nonce; backup = backup_name n nonce; j = journal_name n nonce;
          t = transaction_of n nonce in
      [CreateNew tmp, WriteAll tmp content, SyncFile tmp, SetPrivate tmp]
      @ write_journal jc j (t ''prepared'')
      @ (if exists then Rename n backup # write_journal jc j (t ''backed_up'') else [])
      @ [Rename tmp n, SetPrivate n]
      @ write_journal jc j (t ''installed'')
      @ [TryUnlink backup, Unlink j, SyncDir])"

text \<open>\<open>save\<close>; the file is looked up when the backup is made, and nothing before touches its name.\<close>

definition save :: "journal_codec \<Rightarrow> string \<Rightarrow> string \<Rightarrow> string \<Rightarrow> dir \<Rightarrow> unit io_result \<times> dir" where
  "save jc n content nonce d =
     (case reject_link n d of
        Inl e \<Rightarrow> (Inl e, d)
      | Inr _ \<Rightarrow>
          (case run_script (save_script jc n content nonce (regular d n)) d of
             (Inl e, d') \<Rightarrow> (Inl e, snd (unlink (temporary_name n nonce) d'))
           | (Inr u, d') \<Rightarrow> (Inr (), d')))"

section \<open>Recovery and loading\<close>

definition recover_entry :: "journal_codec \<Rightarrow> string \<Rightarrow> string \<Rightarrow> dir \<Rightarrow> unit io_result \<times> dir" where
  "recover_entry jc n j d =
     (case bget d j of
        Some (File b p) \<Rightarrow>
          (case from_slice jc b of
             None \<Rightarrow> (Inr (), snd (unlink j d))
           | Some t \<Rightarrow>
               if t_path t \<noteq> n then (Inr (), d)
               else
                 (let tmp = t_temporary t; backup = t_backup t; ph = t_phase t;
                      moved =
                        (if ph = ''backed_up'' \<and> \<not> regular d n then
                           (if regular d tmp then rename tmp n d
                            else if regular d backup then rename backup n d else (Inr (), d))
                         else if ph = ''prepared'' \<and> regular d n then (Inr (), snd (unlink tmp d))
                         else if ph = ''prepared'' \<and> \<not> regular d n \<and> regular d backup then rename backup n d
                         else if ph = ''installed'' \<and> \<not> regular d n \<and> regular d backup then rename backup n d
                         else (Inr (), d))
                  in case moved of
                       (Inl e, d1) \<Rightarrow> (Inl e, d1)
                     | (Inr u, d1) \<Rightarrow>
                         (case (if regular d1 n then private_file n d1 else (Inr (), d1)) of
                            (Inl e, d2) \<Rightarrow> (Inl e, d2)
                          | (Inr u, d2) \<Rightarrow>
                              (Inr (), snd (unlink j (snd (unlink backup (snd (unlink tmp d2)))))))))
      | None \<Rightarrow> (Inl (os_error NotFound), d)
      | Some _ \<Rightarrow> (Inl (os_error OtherKind), d))"

fun recover_entries :: "journal_codec \<Rightarrow> string \<Rightarrow> string list \<Rightarrow> dir \<Rightarrow> unit io_result \<times> dir" where
  "recover_entries jc n [] d = (Inr (), d)"
| "recover_entries jc n (j # js) d =
     (if strip_prefix (journal_prefix n) j = None then recover_entries jc n js d
      else (case recover_entry jc n j d of
              (Inl e, d') \<Rightarrow> (Inl e, d')
            | (Inr u, d') \<Rightarrow> recover_entries jc n js d'))"

definition recover :: "journal_codec \<Rightarrow> string \<Rightarrow> dir \<Rightarrow> unit io_result \<times> dir" where
  "recover jc n d = recover_entries jc n (bkeys d) d"

definition load :: "journal_codec \<Rightarrow> string \<Rightarrow> nat \<Rightarrow> dir \<Rightarrow> string option io_result \<times> dir" where
  "load jc n limit d =
     (case recover jc n d of
        (Inl e, d') \<Rightarrow> (if error_kind e \<in> {NotADirectory, NotFound} then Inr None else Inl e, d')
      | (Inr u, d') \<Rightarrow>
          (case bget d' n of
             None \<Rightarrow> (Inr None, d')
           | Some Symlink \<Rightarrow> (Inl (IoError PermissionDenied ''State file cannot be a symbolic link.''), d')
           | Some Directory \<Rightarrow> (Inl (IoError InvalidInput ''State path must be a regular file.''), d')
           | Some (File b p) \<Rightarrow>
               if limit < length b
               then (Inl (IoError FileTooLarge ''State file exceeds the size limit.''), d')
               else (case check_file n d' of Inl e \<Rightarrow> (Inl e, d') | Inr _ \<Rightarrow> (Inr (Some b), d'))))"

section \<open>Appending\<close>

definition append_file :: "string \<Rightarrow> string \<Rightarrow> dir \<Rightarrow> unit io_result \<times> dir" where
  "append_file n content d =
     (case bget d n of
        Some Symlink \<Rightarrow> (Inl (IoError PermissionDenied ''State file cannot be a symbolic link.''), d)
      | Some Directory \<Rightarrow> (Inl (os_error OtherKind), d)
      | None \<Rightarrow> (Inr (), binsert n (File content True) d)
      | Some (File b p) \<Rightarrow> (Inr (), binsert n (File (b @ content) True) d))"

text \<open>The backward search for the last newline, in chunks of \<open>k\<close> bytes: \<open>chunk_start\<close> returns the
  index after the last newline before \<open>start\<close>, 0 when there is none.\<close>

definition rposition :: "('a \<Rightarrow> bool) \<Rightarrow> 'a list \<Rightarrow> nat option" where
  "rposition p xs = map_option (\<lambda>i. length xs - 1 - i) (position p (rev xs))"

function chunk_start :: "nat \<Rightarrow> string \<Rightarrow> nat \<Rightarrow> nat" where
  "chunk_start k b start =
     (if start = 0 \<or> k = 0 then start
      else (let from = start - k in
            case rposition (\<lambda>c. c = CHR 0x0A) (take (start - from) (drop from b)) of
              Some i \<Rightarrow> from + i + 1
            | None \<Rightarrow> chunk_start k b from))"
  by pat_completeness auto
termination by (relation "measure (\<lambda>(k, b, start). start)") auto

declare chunk_start.simps [simp del]

definition repaired :: "(string \<Rightarrow> bool) \<Rightarrow> string \<Rightarrow> string" where
  "repaired is_json b =
     (if b = [] \<or> last b = CHR 0x0A then b
      else (let start = chunk_start 8192 b (length b)
            in if is_json (drop start b) then b @ [CHR 0x0A] else take start b))"

definition append_jsonl :: "(string \<Rightarrow> bool) \<Rightarrow> string \<Rightarrow> string \<Rightarrow> dir \<Rightarrow> unit io_result \<times> dir" where
  "append_jsonl is_json n rec d =
     (if rec = [] \<or> last rec \<noteq> CHR 0x0A
      then (Inl (IoError InvalidInput ''JSONL record must end with a newline.''), d)
      else (case bget d n of
              Some Symlink \<Rightarrow> (Inl (IoError PermissionDenied ''State file cannot be a symbolic link.''), d)
            | Some Directory \<Rightarrow> (Inl (os_error OtherKind), d)
            | None \<Rightarrow> (Inr (), binsert n (File rec True) d)
            | Some (File b p) \<Rightarrow> (Inr (), binsert n (File (repaired is_json b @ rec) True) d)))"

end
