(* ===== verification/Crash_Recovery.thy ===== *)
theory Crash_Recovery
  imports Crash_Safe_File
begin

text \<open>
  What a crash during \<open>save\<close> leaves, and what the next \<open>load\<close> makes of it. A crash stops the
  script of system calls after any of them, and a write after any part of its bytes.
\<close>

inductive crashed :: "prim list \<Rightarrow> dir \<Rightarrow> dir \<Rightarrow> bool" where
  now: "crashed ps d d"
| torn: "prefix part s \<Longrightarrow> prim_run (WriteAll f part) d = (Inr (), d') \<Longrightarrow> crashed (WriteAll f s # ps) d d'"
| later: "prim_run p d = (Inr (), d1) \<Longrightarrow> crashed ps d1 c \<Longrightarrow> crashed (p # ps) d c"

inductive_simps crashed_Nil: "crashed [] d c"
inductive_simps crashed_Cons: "crashed (p # ps) d c"

section \<open>Recovery of one transaction\<close>

text \<open>The only journal of the file that a directory may hold is \<open>j\<close>.\<close>

definition only_journal :: "string \<Rightarrow> string \<Rightarrow> dir \<Rightarrow> bool" where
  "only_journal n j d \<longleftrightarrow> bmap_ok d
     \<and> (\<forall>k \<in> set (bkeys d). k \<noteq> j \<longrightarrow> strip_prefix (journal_prefix n) k = None)"

lemma recover_entries_none:
  "(\<forall>k \<in> set ks. strip_prefix (journal_prefix n) k = None) \<Longrightarrow> recover_entries jc n ks d = (Inr (), d)"
  by (induction ks) auto

lemma recover_entries_one:
  assumes "distinct ks" and "\<forall>k \<in> set ks. k \<noteq> j \<longrightarrow> strip_prefix (journal_prefix n) k = None"
    and "strip_prefix (journal_prefix n) j \<noteq> None"
  shows "recover_entries jc n ks d =
    (if j \<in> set ks then recover_entry jc n j d else (Inr (), d))"
  using assms(1,2)
proof (induction ks)
  case (Cons k ks)
  show ?case
  proof (cases "k = j")
    case True
    with Cons.prems have none: "\<forall>k \<in> set ks. strip_prefix (journal_prefix n) k = None" by auto
    obtain r d' where "recover_entry jc n j d = (r, d')" by (cases "recover_entry jc n j d")
    moreover from assms(3) obtain y where "strip_prefix (journal_prefix n) j = Some y" by auto
    ultimately show ?thesis
      using True recover_entries_none [OF none, of jc d'] by (cases r) simp_all
  next
    case False
    with Cons.prems have "strip_prefix (journal_prefix n) k = None" by auto
    moreover have "j \<in> set (k # ks) \<longleftrightarrow> j \<in> set ks" using False by simp
    ultimately show ?thesis using Cons by (simp only: recover_entries.simps if_True) simp
  qed
qed simp

lemma recover_only:
  assumes "only_journal n j d" and "strip_prefix (journal_prefix n) j \<noteq> None"
  shows "recover jc n d = (if bget d j = None then (Inr (), d) else recover_entry jc n j d)"
proof -
  have d: "distinct (bkeys d)" "\<forall>k \<in> set (bkeys d). k \<noteq> j \<longrightarrow> strip_prefix (journal_prefix n) k = None"
    using assms(1) by (simp_all add: only_journal_def bmap_ok_distinct)
  have "(j \<in> set (bkeys d)) = (bget d j \<noteq> None)" by (simp add: map_of_eq_None_iff)
  then show ?thesis unfolding recover_def recover_entries_one [OF d assms(2)] by simp
qed

lemma only_journal_update:
  "only_journal n j d \<Longrightarrow> k = j \<or> strip_prefix (journal_prefix n) k = None \<Longrightarrow> only_journal n j (binsert k x d)"
  "only_journal n j d \<Longrightarrow> only_journal n j (bremove k d)"
  by (auto simp: only_journal_def bmap_ok_insert bmap_ok_remove) (auto simp: bremove_def)

text \<open>The four outcomes of a load, by what the four names hold.\<close>

lemma unlink_other: "n \<noteq> a \<Longrightarrow> bget (snd (unlink a d)) n = bget d n"
  by (auto simp: unlink_def bget_remove split: option.splits node.splits)

lemma bget_unlink: "bget (snd (unlink a d)) = (if bget d a = Some Directory then bget d else (bget d)(a := None))"
  by (auto simp: unlink_def bget_remove fun_eq_iff split: option.splits node.splits)

lemma load_of_recover:
  assumes "fst (recover jc n d) = Inr ()" and "bget (snd (recover jc n d)) n = Some (File b True)"
    and "length b \<le> limit"
  shows "fst (load jc n limit d) = Inr (Some b)"
  using assms by (cases "recover jc n d") (simp add: load_def check_file_def metadata_def)

text \<open>The file is there: it stays, whatever the journal says.\<close>

lemma load_present:
  assumes d: "only_journal n j d" "strip_prefix (journal_prefix n) j \<noteq> None" "n \<noteq> j"
    and n: "bget d n = Some (File b True)" "length b \<le> limit"
    and j: "bget d j = None \<or> (\<exists>s p. bget d j = Some (File s p)
       \<and> (case from_slice jc s of None \<Rightarrow> True | Some t \<Rightarrow> t_temporary t \<noteq> n \<and> t_backup t \<noteq> n))"
  shows "fst (load jc n limit d) = Inr (Some b)"
proof (rule load_of_recover [OF _ _ n(2)])
  have reg: "regular d n" using n by (simp add: regular_def)
  have *: "fst (recover_entry jc n j d) = Inr () \<and> bget (snd (recover_entry jc n j d)) n = Some (File b True)"
    if s: "bget d j = Some (File s p)"
      and t: "case from_slice jc s of None \<Rightarrow> True | Some t \<Rightarrow> t_temporary t \<noteq> n \<and> t_backup t \<noteq> n" for s p
  proof (cases "from_slice jc s")
    case None
    then show ?thesis using s n d(3) by (simp add: recover_entry_def unlink_other)
  next
    case (Some t)
    then have tn: "n \<noteq> t_temporary t" "n \<noteq> t_backup t" using t by auto
    have reg': "regular (snd (unlink (t_temporary t) d)) n"
      using reg tn by (simp add: regular_def unlink_other)
    have pf: "private_file n e = (Inr (), binsert n (File b True) e)" if "bget e n = bget d n" for e
      using that n by (simp add: private_file_def metadata_def)
    show ?thesis
      using Some s n d(3) tn reg reg'
      by (simp add: recover_entry_def Let_def unlink_other pf bget_insert)
  qed
  from j * show "fst (recover jc n d) = Inr ()"
    and "bget (snd (recover jc n d)) n = Some (File b True)"
    using n(1) by (auto simp: recover_only [OF d(1,2)])
qed

text \<open>The file is gone and no journal can be read: nothing is loaded.\<close>

lemma load_absent:
  assumes d: "only_journal n j d" "strip_prefix (journal_prefix n) j \<noteq> None" "n \<noteq> j"
    and n: "bget d n = None"
    and j: "bget d j = None \<or> (\<exists>s p. bget d j = Some (File s p) \<and> from_slice jc s = None)"
  shows "fst (load jc n limit d) = Inr None"
proof -
  have "fst (recover jc n d) = Inr () \<and> bget (snd (recover jc n d)) n = None"
    using j n d(3) by (auto simp: recover_only [OF d(1,2)] recover_entry_def unlink_other)
  then show ?thesis by (cases "recover jc n d") (simp add: load_def)
qed

text \<open>The file is gone and the journal says where its content is.\<close>

lemma load_restored:
  assumes d: "only_journal n j d" "strip_prefix (journal_prefix n) j \<noteq> None"
    and n: "bget d n = None" "length b \<le> limit"
    and j: "bget d j = Some (File s p)" "from_slice jc s = Some t" "t_path t = n"
    and src: "t_phase t = ''prepared'' \<and> bget d (t_backup t) = Some (File b q)
       \<or> t_phase t = ''backed_up'' \<and> bget d (t_temporary t) = Some (File b q)"
    and names: "distinct [n, j, t_backup t, t_temporary t]"
  shows "fst (load jc n limit d) = Inr (Some b)"
proof (rule load_of_recover [OF _ _ n(2)])
  let ?src = "if t_phase t = ''prepared'' then t_backup t else t_temporary t"
  let ?d1 = "binsert n (File b q) (bremove ?src d)"
  have r: "rename ?src n d = (Inr (), ?d1)" using src n by (auto simp: rename_def)
  have pf: "private_file n ?d1 = (Inr (), binsert n (File b True) ?d1)"
    by (simp add: private_file_def metadata_def bget_insert)
  have reg: "\<not> regular d n" "regular d ?src" "regular ?d1 n"
    using n src by (auto simp: regular_def bget_insert)
  have "recover_entry jc n j d = (Inr (), snd (unlink j (snd (unlink (t_backup t) (snd (unlink (t_temporary t)
      (binsert n (File b True) ?d1)))))))"
    using src j reg r pf by (auto simp: recover_entry_def Let_def)
  then show "fst (recover jc n d) = Inr ()"
    and "bget (snd (recover jc n d)) n = Some (File b True)"
    using names j(1) by (auto simp: recover_only [OF d] unlink_other bget_insert)
qed

section \<open>Crashes during a save\<close>

text \<open>The journal texts of one save can be read back, and no proper part of one can be read.\<close>

definition journal_texts :: "journal_codec \<Rightarrow> string \<Rightarrow> string \<Rightarrow> bool" where
  "journal_texts jc n nonce \<longleftrightarrow>
     (\<forall>ph \<in> {''prepared'', ''backed_up'', ''installed''}.
        from_slice jc (to_vec jc (transaction_of n nonce ph)) = Some (transaction_of n nonce ph)
        \<and> (\<forall>part. strict_prefix part (to_vec jc (transaction_of n nonce ph)) \<longrightarrow> from_slice jc part = None))"

text \<open>A directory before a save: no file of an older transaction is left.\<close>

definition settled :: "string \<Rightarrow> string \<Rightarrow> dir \<Rightarrow> bool" where
  "settled n nonce d \<longleftrightarrow> bmap_ok d
     \<and> (\<forall>k \<in> set (bkeys d). strip_prefix (journal_prefix n) k = None)
     \<and> bget d (temporary_name n nonce) = None \<and> bget d (backup_name n nonce) = None"

definition journal_unreadable :: "journal_codec \<Rightarrow> string \<Rightarrow> dir \<Rightarrow> bool" where
  "journal_unreadable jc j d \<longleftrightarrow> (\<exists>s p. bget d j = Some (File s p) \<and> from_slice jc s = None)"

lemma save_names:
  "distinct [n, journal_name n nonce, backup_name n nonce, temporary_name n nonce]"
  "strip_prefix (journal_prefix n) (journal_name n nonce) \<noteq> None"
  "strip_prefix (journal_prefix n) n = None"
  "strip_prefix (journal_prefix n) (temporary_name n nonce) = None"
  "strip_prefix (journal_prefix n) (backup_name n nonce) = None"
proof -
  have len: "n = ''.'' @ n @ x \<longleftrightarrow> False" for x
    by (metis append_self_conv2 length_append length_Cons list.size(3) add.commute add_Suc_right le_add1 not_less_eq_eq plus_nat.add_0)
  show "distinct [n, journal_name n nonce, backup_name n nonce, temporary_name n nonce]"
    using len by (simp add: journal_name_def journal_prefix_def backup_name_def temporary_name_def)
  show "strip_prefix (journal_prefix n) (journal_name n nonce) \<noteq> None"
    by (simp add: journal_name_def)
  show "strip_prefix (journal_prefix n) n = None"
  proof (rule ccontr)
    assume "strip_prefix (journal_prefix n) n \<noteq> None"
    then obtain r where "n = journal_prefix n @ r" by (auto simp: strip_prefix_Some)
    then show False using len by (simp add: journal_prefix_def)
  qed
  show "strip_prefix (journal_prefix n) (temporary_name n nonce) = None"
    "strip_prefix (journal_prefix n) (backup_name n nonce) = None"
    by (simp_all add: strip_prefix_def journal_prefix_def temporary_name_def backup_name_def)
qed

text \<open>The two kinds of segment of the script.\<close>

lemma private_file_at: "bget d n = Some (File b True) \<Longrightarrow> private_file n d = (Inr (), binsert n (File b True) d)"
  by (simp add: private_file_def metadata_def)

lemma crashed_write_journal:
  assumes cr: "crashed (write_journal jc j t @ ps) d c" and d: "only_journal n j d"
    and j: "bget d j = None \<or> (\<exists>s. bget d j = Some (File s True))"
  shows "c = d
    \<or> (\<exists>part. prefix part (to_vec jc t) \<and> only_journal n j c \<and> bget c = (bget d)(j \<mapsto> File part True))
    \<or> (\<exists>d1. only_journal n j d1 \<and> bget d1 = (bget d)(j \<mapsto> File (to_vec jc t) True) \<and> crashed ps d1 c)"
proof -
  let ?s = "to_vec jc t"
  let ?d0 = "binsert j (File [] True) d"
  let ?d1 = "binsert j (File ?s True) ?d0"
  let ?d2 = "binsert j (File ?s True) ?d1"
  have 0: "prim_run (OpenTruncate j) d = (Inr (), ?d0)" using j by auto
  have 1: "prim_run (WriteAll j part) ?d0 = (Inr (), binsert j (File part True) ?d0)" for part
    by (simp add: bget_insert)
  have 2: "prim_run (SetPrivate j) ?d1 = (Inr (), ?d2)" by (simp add: private_file_at bget_insert)
  from cr consider "c = d" | "c = ?d0" | part where "prefix part ?s" "c = binsert j (File part True) ?d0"
    | "c = ?d1" | "crashed ps ?d2 c"
    by (auto simp only: write_journal_def append.simps crashed_Cons 0 1 2 prim_run.simps(4) prod.inject
        sum.inject prim.inject prim.distinct simp_thms bget_insert fun_upd_same option.case node.case append_Nil)
  then show ?thesis
  proof cases
    case 2
    then show ?thesis using d
      by (intro disjI2 disjI1 exI [of _ "[]"]) (simp add: only_journal_update bget_insert)
  next
    case (3 part)
    then show ?thesis using d
      by (intro disjI2 disjI1 exI [of _ part]) (simp add: only_journal_update bget_insert)
  next
    case 4
    then show ?thesis using d
      by (intro disjI2 disjI1 exI [of _ ?s]) (simp add: only_journal_update bget_insert)
  next
    case 5
    then show ?thesis using d
      by (intro disjI2 exI [of _ ?d2]) (simp add: only_journal_update bget_insert)
  qed simp
qed

lemma crashed_write_temporary:
  assumes cr: "crashed ([CreateNew t, WriteAll t s, SyncFile t, SetPrivate t] @ ps) d c"
    and d: "only_journal n j d" and t: "bget d t = None" "strip_prefix (journal_prefix n) t = None"
  shows "c = d
    \<or> (\<exists>part. only_journal n j c \<and> bget c = (bget d)(t \<mapsto> File part True))
    \<or> (\<exists>d1. only_journal n j d1 \<and> bget d1 = (bget d)(t \<mapsto> File s True) \<and> crashed ps d1 c)"
proof -
  let ?d0 = "binsert t (File [] True) d"
  let ?d1 = "binsert t (File s True) ?d0"
  let ?d2 = "binsert t (File s True) ?d1"
  have 0: "prim_run (CreateNew t) d = (Inr (), ?d0)" using t by auto
  have 1: "prim_run (WriteAll t part) ?d0 = (Inr (), binsert t (File part True) ?d0)" for part
    by (simp add: bget_insert)
  have 2: "prim_run (SetPrivate t) ?d1 = (Inr (), ?d2)" by (simp add: private_file_at bget_insert)
  from cr consider "c = d" | "c = ?d0" | part where "c = binsert t (File part True) ?d0"
    | "c = ?d1" | "crashed ps ?d2 c"
    by (auto simp only: append.simps crashed_Cons 0 1 2 prim_run.simps(4) prod.inject
        sum.inject prim.inject prim.distinct simp_thms bget_insert fun_upd_same option.case node.case append_Nil)
  then show ?thesis
  proof cases
    case 2
    then show ?thesis using d t(2)
      by (intro disjI2 disjI1 exI [of _ "[]"]) (simp add: only_journal_update bget_insert)
  next
    case (3 part)
    then show ?thesis using d t(2)
      by (intro disjI2 disjI1 exI [of _ part]) (simp add: only_journal_update bget_insert)
  next
    case 4
    then show ?thesis using d t(2)
      by (intro disjI2 disjI1 exI [of _ s]) (simp add: only_journal_update bget_insert)
  next
    case 5
    then show ?thesis using d t(2)
      by (intro disjI2 exI [of _ ?d2]) (simp add: only_journal_update bget_insert)
  qed simp
qed

text \<open>Loading from any state whose file is in place.\<close>

lemma journal_part:
  assumes "journal_texts jc n nonce" and "ph \<in> {''prepared'', ''backed_up'', ''installed''}"
    and "prefix part (to_vec jc (transaction_of n nonce ph))"
  shows "from_slice jc part = None \<or> part = to_vec jc (transaction_of n nonce ph)
    \<and> from_slice jc part = Some (transaction_of n nonce ph)"
  using assms unfolding journal_texts_def strict_prefix_def by blast

lemma load_in_place:
  assumes jt: "journal_texts jc n nonce" and oj: "only_journal n (journal_name n nonce) c"
    and n: "bget c n = Some (File b True)" "length b \<le> limit"
    and j: "bget c (journal_name n nonce) = None
      \<or> (\<exists>ph part. ph \<in> {''prepared'', ''backed_up'', ''installed''}
           \<and> prefix part (to_vec jc (transaction_of n nonce ph))
           \<and> bget c (journal_name n nonce) = Some (File part True))"
  shows "fst (load jc n limit c) = Inr (Some b)"
proof (rule load_present [OF oj save_names(2) _ n])
  show "n \<noteq> journal_name n nonce" using save_names(1) [of n nonce] by simp
  have "case from_slice jc part of None \<Rightarrow> True | Some t \<Rightarrow> t_temporary t \<noteq> n \<and> t_backup t \<noteq> n"
    if "ph \<in> {''prepared'', ''backed_up'', ''installed''}"
      "prefix part (to_vec jc (transaction_of n nonce ph))" for ph part
    using journal_part [OF jt that] save_names(1) [of n nonce] by (auto simp: transaction_of_def)
  with j show "bget c (journal_name n nonce) = None \<or> (\<exists>s p. bget c (journal_name n nonce) = Some (File s p)
      \<and> (case from_slice jc s of None \<Rightarrow> True | Some t \<Rightarrow> t_temporary t \<noteq> n \<and> t_backup t \<noteq> n))"
    by blast
qed

definition recovers :: "journal_codec \<Rightarrow> string \<Rightarrow> string \<Rightarrow> nat \<Rightarrow> string \<Rightarrow> string \<Rightarrow> dir \<Rightarrow> bool" where
  "recovers jc n nonce limit old content c \<longleftrightarrow>
     fst (load jc n limit c) = Inr (Some old) \<or> fst (load jc n limit c) = Inr (Some content)
     \<or> bget c n = None \<and> journal_unreadable jc (journal_name n nonce) c \<and> fst (load jc n limit c) = Inr None"

text \<open>The tail of the script, once the new content is in place.\<close>

lemma crashed_after_install:
  assumes jt: "journal_texts jc n nonce" and oj: "only_journal n (journal_name n nonce) d"
    and n: "bget d n = Some (File content True)" "length content \<le> limit"
    and j: "bget d (journal_name n nonce) = Some (File (to_vec jc (transaction_of n nonce ph)) True)"
      "ph \<in> {''prepared'', ''backed_up'', ''installed''}"
    and b: "bget d (backup_name n nonce) \<noteq> Some Directory"
    and cr: "crashed (SetPrivate n # write_journal jc (journal_name n nonce) (transaction_of n nonce ''installed'')
      @ [TryUnlink (backup_name n nonce), Unlink (journal_name n nonce), SyncDir]) d c"
  shows "fst (load jc n limit c) = Inr (Some content)"
proof -
  let ?j = "journal_name n nonce" and ?b = "backup_name n nonce"
  note names = save_names(1) [of n nonce]
  have place: "fst (load jc n limit c) = Inr (Some content)"
    if "only_journal n ?j c" "bget c n = Some (File content True)"
      "bget c ?j = None \<or> (\<exists>ph part. ph \<in> {''prepared'', ''backed_up'', ''installed''}
           \<and> prefix part (to_vec jc (transaction_of n nonce ph)) \<and> bget c ?j = Some (File part True))" for c
    by (rule load_in_place [OF jt that(1,2) n(2) that(3)])
  have jd: "\<exists>ph part. ph \<in> {''prepared'', ''backed_up'', ''installed''}
       \<and> prefix part (to_vec jc (transaction_of n nonce ph)) \<and> bget d ?j = Some (File part True)"
    using j by blast
  define d1 where "d1 = binsert n (File content True) d"
  have d1: "only_journal n ?j d1" "bget d1 = bget d"
    using oj n(1) save_names(3) by (auto simp: d1_def only_journal_update bget_insert fun_eq_iff)
  from cr consider "c = d" | "crashed (write_journal jc ?j (transaction_of n nonce ''installed'')
      @ [TryUnlink ?b, Unlink ?j, SyncDir]) d1 c"
    by (auto simp: crashed_Cons private_file_at [OF n(1)] d1_def)
  then show ?thesis
  proof cases
    case 1
    with oj n jd show ?thesis by (intro place) blast+
  next
    case 2
    have "bget d1 ?j = None \<or> (\<exists>s. bget d1 ?j = Some (File s True))" using j(1) d1(2) by auto
    from crashed_write_journal [OF 2 d1(1) this] consider "c = d1"
      | part where "prefix part (to_vec jc (transaction_of n nonce ''installed''))" "only_journal n ?j c"
          "bget c = (bget d1)(?j \<mapsto> File part True)"
      | d2 where "only_journal n ?j d2" "bget d2 = (bget d1)(?j \<mapsto> File (to_vec jc (transaction_of n nonce ''installed'')) True)"
          "crashed [TryUnlink ?b, Unlink ?j, SyncDir] d2 c"
      by blast
    then show ?thesis
    proof cases
      case 1
      with d1 n jd show ?thesis by (intro place) auto
    next
      case (2 part)
      with d1 n names show ?thesis by (intro place) auto
    next
      case (3 d2)
      define d3 where "d3 = snd (unlink ?b d2)"
      define d4 where "d4 = snd (unlink ?j d3)"
      have oj3: "only_journal n ?j d3" "only_journal n ?j d4"
        using 3(1) by (auto simp: d3_def d4_def unlink_def only_journal_update split: option.splits node.splits)
      have b3: "bget d3 n = Some (File content True)" "bget d3 ?j = bget d2 ?j"
        using 3(2) d1(2) n(1) names by (simp_all add: d3_def unlink_other)
      have b4: "bget d4 n = Some (File content True)" "bget d4 ?j = None"
        using b3 3(2) names by (simp_all add: d4_def unlink_other bget_unlink)
      have "c \<in> {d2, d3, d4}"
        using 3(3) by (auto simp: crashed_Cons crashed_Nil d3_def d4_def)
      moreover have "bget d2 ?j = Some (File (to_vec jc (transaction_of n nonce ''installed'')) True)"
        using 3(2) by simp
      ultimately show ?thesis
        using 3(1,2) d1(2) n(1) names oj3 b3 b4 by (intro place) auto
    qed
  qed
qed

text \<open>The middle of the script: the old file is moved away, the journal says so, the new file moves in.\<close>

lemma crashed_after_backup:
  assumes jt: "journal_texts jc n nonce" and oj: "only_journal n (journal_name n nonce) d"
    and at: "bget d n = Some (File old True)" "bget d (temporary_name n nonce) = Some (File content True)"
      "bget d (backup_name n nonce) = None"
      "bget d (journal_name n nonce) = Some (File (to_vec jc (transaction_of n nonce ''prepared'')) True)"
    and len: "length old \<le> limit" "length content \<le> limit"
    and cr: "crashed (write_journal jc (journal_name n nonce) (transaction_of n nonce ''backed_up'')
       @ Rename (temporary_name n nonce) n # SetPrivate n
       # write_journal jc (journal_name n nonce) (transaction_of n nonce ''installed'')
       @ [TryUnlink (backup_name n nonce), Unlink (journal_name n nonce), SyncDir])
       (binsert (backup_name n nonce) (File old True) (bremove n d)) c"
  shows "recovers jc n nonce limit old content c"
proof -
  let ?j = "journal_name n nonce" and ?b = "backup_name n nonce" and ?t = "temporary_name n nonce"
  let ?tx = "\<lambda>ph. to_vec jc (transaction_of n nonce ph)"
  let ?d3 = "binsert ?b (File old True) (bremove n d)"
  note names = save_names(1,2) [of n nonce] save_names(3) [of n] save_names(4,5) [of n nonce]
  have read: "from_slice jc (?tx ph) = Some (transaction_of n nonce ph)" if "ph \<in> {''prepared'', ''backed_up''}" for ph
    using jt that unfolding journal_texts_def by auto
  have oj3: "only_journal n ?j ?d3" using oj names(5) by (simp add: only_journal_update)
  have at3: "bget ?d3 n = None" "bget ?d3 ?t = Some (File content True)" "bget ?d3 ?b = Some (File old True)"
    "bget ?d3 ?j = Some (File (?tx ''prepared'') True)"
    using at names(1) by (auto simp: bget_insert bget_remove)
  have restored: "fst (load jc n limit e) = Inr (Some x)"
    if "only_journal n ?j e" "bget e n = None" "bget e ?j = Some (File (?tx ph) True)" "length x \<le> limit"
      "ph = ''prepared'' \<and> bget e ?b = Some (File x True) \<or> ph = ''backed_up'' \<and> bget e ?t = Some (File x True)"
    for e x ph
  proof (rule load_restored [OF that(1) names(2) that(2,4,3)])
    show "from_slice jc (?tx ph) = Some (transaction_of n nonce ph)" using that(5) read by auto
    show "distinct [n, ?j, t_backup (transaction_of n nonce ph), t_temporary (transaction_of n nonce ph)]"
      using names(1) by (simp add: transaction_of_def)
    show "t_phase (transaction_of n nonce ph) = ''prepared'' \<and> bget e (t_backup (transaction_of n nonce ph)) = Some (File x True)
       \<or> t_phase (transaction_of n nonce ph) = ''backed_up'' \<and> bget e (t_temporary (transaction_of n nonce ph)) = Some (File x True)"
      using that(5) by (auto simp: transaction_of_def)
  qed (simp add: transaction_of_def)
  have "bget ?d3 ?j = None \<or> (\<exists>s. bget ?d3 ?j = Some (File s True))" using at3 by auto
  from crashed_write_journal [OF cr oj3 this] consider "c = ?d3"
    | part where "prefix part (?tx ''backed_up'')" "only_journal n ?j c" "bget c = (bget ?d3)(?j \<mapsto> File part True)"
    | d4 where "only_journal n ?j d4" "bget d4 = (bget ?d3)(?j \<mapsto> File (?tx ''backed_up'') True)"
        "crashed (Rename ?t n # SetPrivate n # write_journal jc ?j (transaction_of n nonce ''installed'')
           @ [TryUnlink ?b, Unlink ?j, SyncDir]) d4 c"
    by blast
  then show ?thesis
  proof cases
    case 1
    with restored [OF oj3 at3(1,4) len(1)] at3(3) show ?thesis by (simp add: recovers_def)
  next
    case (2 part)
    have c: "bget c n = None" "bget c ?j = Some (File part True)" "bget c ?t = Some (File content True)"
      using 2(3) at3 names(1) by auto
    from journal_part [OF jt _ 2(1)] consider "from_slice jc part = None" | "part = ?tx ''backed_up''" by auto
    then show ?thesis
    proof cases
      case 1
      then have "journal_unreadable jc ?j c" using c by (auto simp: journal_unreadable_def)
      moreover have "fst (load jc n limit c) = Inr None"
        using 1 c names(1) by (intro load_absent [OF 2(2) names(2)]) auto
      ultimately show ?thesis using c by (simp add: recovers_def)
    next
      case p: 2
      with restored [OF 2(2) c(1), of "''backed_up''" content] c len(2) show ?thesis by (simp add: recovers_def)
    qed
  next
    case (3 d4)
    have at4: "bget d4 n = None" "bget d4 ?t = Some (File content True)" "bget d4 ?b = Some (File old True)"
      "bget d4 ?j = Some (File (?tx ''backed_up'') True)"
      using 3(2) at3 names(1) by auto
    let ?d5 = "binsert n (File content True) (bremove ?t d4)"
    have oj5: "only_journal n ?j ?d5" using 3(1) names(3) by (simp add: only_journal_update)
    have at5: "bget ?d5 n = Some (File content True)" "bget ?d5 ?j = Some (File (?tx ''backed_up'') True)"
      "bget ?d5 ?b = Some (File old True)"
      using at4 names(1) by (auto simp: bget_insert bget_remove)
    have "rename ?t n d4 = (Inr (), ?d5)" using at4 by (simp add: rename_def)
    with 3(3) consider "c = d4" | "crashed (SetPrivate n # write_journal jc ?j (transaction_of n nonce ''installed'')
           @ [TryUnlink ?b, Unlink ?j, SyncDir]) ?d5 c"
      unfolding crashed_Cons [of "Rename ?t n"] by auto
    then show ?thesis
    proof cases
      case 1
      with restored [OF 3(1) at4(1,4) len(2)] at4(2) show ?thesis by (simp add: recovers_def)
    next
      case 2
      have "fst (load jc n limit c) = Inr (Some content)"
        by (rule crashed_after_install [OF jt oj5 at5(1) len(2) at5(2) _ _ 2]) (simp_all add: at5(3))
      then show ?thesis by (simp add: recovers_def)
    qed
  qed
qed

text \<open>C24: A crash at any point while a file is being replaced leaves either the old or the new content
  for the next load, with one exception: when it falls on the second journal write, after the
  old file was moved away and before the journal text is whole, the journal cannot be read, it
  is deleted, and the load finds no file at all.\<close>

theorem save_crash_recovers:
  assumes "journal_texts jc n nonce" and "settled n nonce d"
    and "bget d n = Some (File old True)" and "length old \<le> limit" and "length content \<le> limit"
    and "crashed (save_script jc n content nonce True) d c"
  shows "fst (load jc n limit c) = Inr (Some old) \<or> fst (load jc n limit c) = Inr (Some content)
    \<or> bget c n = None \<and> journal_unreadable jc (journal_name n nonce) c \<and> fst (load jc n limit c) = Inr None"
proof -
  let ?j = "journal_name n nonce" and ?b = "backup_name n nonce" and ?t = "temporary_name n nonce"
  let ?p = "''prepared''" and ?k = "''backed_up''" and ?i = "''installed''"
  let ?tx = "\<lambda>ph. to_vec jc (transaction_of n nonce ph)"
  let ?wj = "\<lambda>ph. write_journal jc ?j (transaction_of n nonce ph)"
  let ?fin_ops = "SetPrivate n # ?wj ?i @ [TryUnlink ?b, Unlink ?j, SyncDir]"
  note jt = assms(1) and names = save_names(1,2) [of n nonce] save_names(3) [of n] save_names(4,5) [of n nonce]
  have d: "only_journal n ?j d" "bget d ?j = None" "bget d ?t = None" "bget d ?b = None"
  proof -
    show "only_journal n ?j d" "bget d ?t = None" "bget d ?b = None"
      using assms(2) by (auto simp: settled_def only_journal_def)
    show "bget d ?j = None"
    proof (rule ccontr)
      assume "bget d ?j \<noteq> None"
      then have "?j \<in> set (bkeys d)" by (simp add: map_of_eq_None_iff)
      then have "strip_prefix (journal_prefix n) ?j = None" using assms(2) unfolding settled_def by (metis bspec)
      with names(2) show False by simp
    qed
  qed
  have old: "recovers jc n nonce limit old content c"
    if "only_journal n ?j c" "bget c n = Some (File old True)"
      "bget c ?j = None \<or> (\<exists>ph part. ph \<in> {?p, ?k, ?i} \<and> prefix part (?tx ph) \<and> bget c ?j = Some (File part True))" for c
    using load_in_place [OF jt that(1,2) assms(4) that(3)] by (simp add: recovers_def)
  have rec: "recovers jc n nonce limit old content c"
  proof -
    have "save_script jc n content nonce True = [CreateNew ?t, WriteAll ?t content, SyncFile ?t, SetPrivate ?t]
        @ ?wj ?p @ Rename n ?b # ?wj ?k @ Rename ?t n # ?fin_ops"
      by (simp add: save_script_def Let_def)
    with assms(6) have "crashed ([CreateNew ?t, WriteAll ?t content, SyncFile ?t, SetPrivate ?t]
        @ ?wj ?p @ Rename n ?b # ?wj ?k @ Rename ?t n # ?fin_ops) d c" by simp
    from crashed_write_temporary [OF this d(1,3) names(4)] consider "c = d"
      | part where "only_journal n ?j c" "bget c = (bget d)(?t \<mapsto> File part True)"
      | d1 where "only_journal n ?j d1" "bget d1 = (bget d)(?t \<mapsto> File content True)"
          "crashed (?wj ?p @ Rename n ?b # ?wj ?k @ Rename ?t n # ?fin_ops) d1 c"
      by blast
    then show ?thesis
    proof cases
      case 1
      with d assms(3) show ?thesis by (intro old) auto
    next
      case (2 part)
      with d assms(3) names(1) show ?thesis by (intro old) auto
    next
      case (3 d1)
      then have j1: "bget d1 ?j = None \<or> (\<exists>s. bget d1 ?j = Some (File s True))" and n1: "bget d1 n = Some (File old True)"
        using d names(1) assms(3) by auto
      from crashed_write_journal [OF 3(3,1) j1] consider "c = d1"
        | part where "prefix part (?tx ?p)" "only_journal n ?j c" "bget c = (bget d1)(?j \<mapsto> File part True)"
        | d2 where "only_journal n ?j d2" "bget d2 = (bget d1)(?j \<mapsto> File (?tx ?p) True)"
            "crashed (Rename n ?b # ?wj ?k @ Rename ?t n # ?fin_ops) d2 c"
        by blast
      then show ?thesis
      proof cases
        case 1
        with 3 d n1 names(1) show ?thesis by (intro old) auto
      next
        case (2 part)
        with n1 names(1) show ?thesis by (intro old) auto
      next
        case s2: (3 d2)
        note bk = 3(2) s2(2)
        have at2: "bget d2 n = Some (File old True)" "bget d2 ?t = Some (File content True)"
          "bget d2 ?b = None" "bget d2 ?j = Some (File (?tx ?p) True)"
          using bk n1 d names(1) by auto
        have "rename n ?b d2 = (Inr (), binsert ?b (File old True) (bremove n d2))"
          using at2 by (simp add: rename_def)
        with s2(3) consider "c = d2" | "crashed (?wj ?k @ Rename ?t n # ?fin_ops) (binsert ?b (File old True) (bremove n d2)) c"
          unfolding crashed_Cons [of "Rename n ?b"] by auto
        then show ?thesis
        proof cases
          case 1
          with s2(1) at2 show ?thesis by (intro old) blast+
        next
          case 2
          then show ?thesis by (rule crashed_after_backup [OF jt s2(1) at2 assms(4,5)])
        qed
      qed
    qed
  qed
  then show ?thesis by (simp add: recovers_def)
qed

text \<open>A journal codec for the concrete runs: the phase and a full stop.\<close>

definition dot_codec :: journal_codec where
  "dot_codec = \<lparr>to_vec = (\<lambda>t. t_phase t @ ''.''),
     from_slice = (\<lambda>s. if s \<noteq> [] \<and> last s = CHR ''.''
        then Some (transaction_of ''f'' ''1'' (butlast s)) else None)\<rparr>"

lemma dot_texts: "journal_texts dot_codec ''f'' ''1''"
proof -
  have *: "from_slice dot_codec part = None"
    if "strict_prefix part (ph @ ''.'')" and "CHR ''.'' \<notin> set ph" for part ph
  proof -
    have "prefix part ph" using that(1) by (auto simp: strict_prefix_def)
    then have "set part \<subseteq> set ph" by (auto simp: prefix_def)
    then have "part \<noteq> [] \<Longrightarrow> last part \<noteq> CHR ''.''" using that(2) last_in_set by fastforce
    then show ?thesis by (auto simp: dot_codec_def)
  qed
  have vec: "to_vec dot_codec (transaction_of ''f'' ''1'' ph) = ph @ ''.''" for ph
    by (simp add: dot_codec_def transaction_of_def)
  have reads: "from_slice dot_codec (ph @ ''.'') = Some (transaction_of ''f'' ''1'' ph)" for ph
    by (simp add: dot_codec_def)
  have dots: "CHR ''.'' \<notin> set ''prepared''" "CHR ''.'' \<notin> set ''backed_up''" "CHR ''.'' \<notin> set ''installed''"
    by simp_all
  show ?thesis unfolding journal_texts_def vec using * dots reads by blast
qed

definition one_file :: dir where
  "one_file = [(''f'', File ''old'' True)]"

lemma one_file_settled: "settled ''f'' ''1'' one_file"
  by (simp add: settled_def one_file_def bmap_ok_def journal_prefix_def strip_prefix_def temporary_name_def
      backup_name_def)

theorem save_crash_recovers_witness:
  "fst (load dot_codec ''f'' 10 one_file) = Inr (Some ''old'') \<or> fst (load dot_codec ''f'' 10 one_file) = Inr (Some ''new'')
    \<or> bget one_file ''f'' = None \<and> journal_unreadable dot_codec (journal_name ''f'' ''1'') one_file
      \<and> fst (load dot_codec ''f'' 10 one_file) = Inr None"
  by (rule save_crash_recovers [OF dot_texts one_file_settled, where old = "''old''" and content = "''new''"])
    (auto simp: one_file_def intro: crashed.now)

section \<open>The window\<close>

text \<open>The first \<open>k\<close> system calls have been made.\<close>

lemma crashed_take: "run_script (take k ps) d = (Inr (), c) \<Longrightarrow> crashed ps d c"
proof (induction k arbitrary: ps d)
  case (Suc k)
  show ?case
  proof (cases ps)
    case (Cons p qs)
    with Suc.prems obtain d1 where "prim_run p d = (Inr (), d1)" "run_script (take k qs) d1 = (Inr (), c)"
      by (auto split: prod.splits sum.splits)
    with Suc.IH Cons show ?thesis by (auto intro: crashed.later)
  qed (use Suc.prems in \<open>auto intro: crashed.now\<close>)
qed (auto intro: crashed.now)

text \<open>The exception is real: there is a directory with a saved file, and a point at which a crash of
  the next save of that file makes the following load find nothing, neither the old content nor
  the new, although both are still on the disk under other names.\<close>

theorem save_crash_can_lose_the_file:
  "\<exists>c. crashed (save_script dot_codec ''f'' ''new'' ''1'' True) one_file c
     \<and> fst (load dot_codec ''f'' 10 one_file) = Inr (Some ''old'')
     \<and> fst (load dot_codec ''f'' 10 c) = Inr None
     \<and> bget c (backup_name ''f'' ''1'') = Some (File ''old'' True)
     \<and> bget c (temporary_name ''f'' ''1'') = Some (File ''new'' True)"
proof -
  let ?c = "snd (run_script (take 10 (save_script dot_codec ''f'' ''new'' ''1'' True)) one_file)"
  have "fst (run_script (take 10 (save_script dot_codec ''f'' ''new'' ''1'' True)) one_file) = Inr ()"
    by code_simp
  then have "crashed (save_script dot_codec ''f'' ''new'' ''1'' True) one_file ?c"
    by (intro crashed_take [where k = 10]) (simp add: prod_eq_iff)
  moreover have "fst (load dot_codec ''f'' 10 one_file) = Inr (Some ''old'')" by code_simp
  moreover have "fst (load dot_codec ''f'' 10 ?c) = Inr None" by code_simp
  moreover have "bget ?c (backup_name ''f'' ''1'') = Some (File ''old'' True)" by code_simp
  moreover have "bget ?c (temporary_name ''f'' ''1'') = Some (File ''new'' True)" by code_simp
  ultimately show ?thesis by blast
qed

section \<open>Appending to a JSONL file\<close>

lemma position_takeWhile: "position p xs = (if \<exists>x \<in> set xs. p x then Some (length (takeWhile (\<lambda>x. \<not> p x) xs)) else None)"
  by (induction xs) auto

text \<open>The text after the last newline, found from behind.\<close>

definition last_line :: "string \<Rightarrow> string" where
  "last_line b = rev (takeWhile (\<lambda>c. c \<noteq> CHR 0x0A) (rev b))"

lemma last_line_append:
  "last_line (a @ b) = (if CHR 0x0A \<in> set b then last_line b else last_line a @ b)"
proof (cases "CHR 0x0A \<in> set b")
  case True
  then have "takeWhile (\<lambda>c. c \<noteq> CHR 0x0A) (rev b @ rev a) = takeWhile (\<lambda>c. c \<noteq> CHR 0x0A) (rev b)"
    by (intro takeWhile_append1 [of "CHR 0x0A"]) auto
  with True show ?thesis by (simp add: last_line_def)
next
  case False
  then have "takeWhile (\<lambda>c. c \<noteq> CHR 0x0A) (rev b @ rev a) = rev b @ takeWhile (\<lambda>c. c \<noteq> CHR 0x0A) (rev a)"
    by (intro takeWhile_append2) auto
  with False show ?thesis by (simp add: last_line_def)
qed

lemma length_last_line: "length (last_line b) \<le> length b"
  using length_takeWhile_le [of "\<lambda>c. c \<noteq> CHR 0x0A" "rev b"] by (simp add: last_line_def)

lemma rposition_newline:
  "rposition (\<lambda>c. c = CHR 0x0A) xs =
     (if CHR 0x0A \<in> set xs then Some (length xs - 1 - length (last_line xs)) else None)"
  by (auto simp: rposition_def position_takeWhile last_line_def)

lemma last_line_short: "CHR 0x0A \<in> set xs \<Longrightarrow> length (last_line xs) < length xs"
proof -
  assume "CHR 0x0A \<in> set xs"
  then have "takeWhile (\<lambda>c. c \<noteq> CHR 0x0A) (rev xs) \<noteq> rev xs"
    by (auto simp: takeWhile_eq_all_conv)
  then show ?thesis
    unfolding last_line_def length_rev
    by (metis length_rev length_takeWhile_le nat_less_le takeWhile_eq_take take_all)
qed

text \<open>The search in chunks finds the start of the last line, whatever the size of a chunk.\<close>

lemma chunk_start_last_line:
  "0 < k \<Longrightarrow> start \<le> length b \<Longrightarrow> chunk_start k b start = start - length (last_line (take start b))"
proof (induction k b start rule: chunk_start.induct)
  case (1 k b start)
  show ?case
  proof (cases "start = 0")
    case True
    then show ?thesis by (simp add: chunk_start.simps)
  next
    case False
    let ?from = "start - k"
    let ?chunk = "take (start - ?from) (drop ?from b)"
    have split: "take start b = take ?from b @ ?chunk"
      by (metis diff_le_self le_add_diff_inverse take_add)
    have len: "length ?chunk = start - ?from" using 1(3) by simp
    show ?thesis
    proof (cases "CHR 0x0A \<in> set ?chunk")
      case True
      then have "chunk_start k b start = ?from + (length ?chunk - 1 - length (last_line ?chunk)) + 1"
        using False 1(2) by (subst chunk_start.simps) (simp only: Let_def rposition_newline if_True if_False option.case simp_thms less_not_refl2)
      moreover have "last_line (take start b) = last_line ?chunk" using True split by (simp add: last_line_append)
      then have "length (last_line (take start b)) = length (last_line ?chunk)" by (rule arg_cong)
      ultimately show ?thesis using last_line_short [OF True] len by linarith
    next
      case no: False
      then have step: "chunk_start k b start = chunk_start k b ?from"
        using False 1(2) by (subst chunk_start.simps) (simp only: Let_def rposition_newline if_False option.case simp_thms less_not_refl2)
      have "rposition (\<lambda>c. c = CHR 0x0A) ?chunk = None" using no by (simp only: rposition_newline if_False)
      with 1(1) [OF _ refl this 1(2)] False 1(2,3)
      have "chunk_start k b ?from = ?from - length (last_line (take ?from b))" by simp
      moreover have "length (last_line (take start b)) = length (last_line (take ?from b)) + (start - ?from)"
        using no split len by (simp add: last_line_append)
      moreover have "length (last_line (take ?from b)) \<le> ?from"
        using length_last_line [of "take ?from b"] by simp
      ultimately show ?thesis unfolding step by linarith
    qed
  qed
qed

text \<open>Appending a JSONL record keeps every complete line: the new file is a kept part followed by the
  record. Everything up to the last newline is kept; what follows it is kept, with a newline, when
  it is a whole JSON value, and is dropped otherwise, so that a write torn by a crash never
  merges with the next record.\<close>

theorem append_jsonl_keeps_lines:
  assumes "bget d n = Some (File b p)" and "append_jsonl is_json n rec d = (Inr (), d')"
  shows "\<exists>kept. bget d' n = Some (File (kept @ rec) True)
    \<and> (kept = [] \<or> last kept = CHR 0x0A)
    \<and> kept = (if last_line b = [] then b
              else if is_json (last_line b) then b @ [CHR 0x0A]
              else take (length b - length (last_line b)) b)"
proof -
  have empty: "last_line b = [] \<longleftrightarrow> b = [] \<or> last b = CHR 0x0A"
    by (cases b rule: rev_cases) (auto simp: last_line_def)
  have start: "chunk_start 8192 b (length b) = length b - length (last_line b)"
    using chunk_start_last_line [of 8192 "length b" b] by simp
  have dropped: "drop (length b - length (last_line b)) b = last_line b"
    and kept: "take (length b - length (last_line b)) b = rev (dropWhile (\<lambda>c. c \<noteq> CHR 0x0A) (rev b))"
  proof -
    have "rev b = takeWhile (\<lambda>c. c \<noteq> CHR 0x0A) (rev b) @ dropWhile (\<lambda>c. c \<noteq> CHR 0x0A) (rev b)" by simp
    then have "b = rev (dropWhile (\<lambda>c. c \<noteq> CHR 0x0A) (rev b)) @ last_line b"
      unfolding last_line_def by (metis rev_append rev_rev_ident)
    then obtain u where u: "b = u @ last_line b" "u = rev (dropWhile (\<lambda>c. c \<noteq> CHR 0x0A) (rev b))" by blast
    then have l: "length b - length (last_line b) = length u" by (metis add_diff_cancel_right' length_append)
    show "drop (length b - length (last_line b)) b = last_line b" unfolding l using u(1) by (metis append_eq_conv_conj)
    show "take (length b - length (last_line b)) b = rev (dropWhile (\<lambda>c. c \<noteq> CHR 0x0A) (rev b))"
      unfolding l using u by (metis append_eq_conv_conj)
  qed
  have ends: "take (length b - length (last_line b)) b = [] \<or> last (take (length b - length (last_line b)) b) = CHR 0x0A"
    unfolding kept using hd_dropWhile [of "\<lambda>c. c \<noteq> CHR 0x0A" "rev b"]
    by (cases "dropWhile (\<lambda>c. c \<noteq> CHR 0x0A) (rev b)") (auto simp: last_rev)
  have "bget d' n = Some (File (repaired is_json b @ rec) True)"
    using assms by (auto simp: append_jsonl_def bget_insert split: if_splits)
  moreover have "repaired is_json b = (if last_line b = [] then b
      else if is_json (last_line b) then b @ [CHR 0x0A] else take (length b - length (last_line b)) b)"
    using empty by (simp add: repaired_def Let_def start dropped)
  moreover have "repaired is_json b = [] \<or> last (repaired is_json b) = CHR 0x0A"
    using empty ends unfolding repaired_def Let_def start dropped by (auto split: if_splits)
  ultimately show ?thesis by blast
qed

theorem append_jsonl_keeps_lines_witness:
  "\<exists>kept. bget (snd (append_jsonl (\<lambda>s. False) ''f'' [CHR ''r'', CHR 0x0A] [(''f'', File [CHR ''a'', CHR 0x0A, CHR ''t''] True)])) ''f''
     = Some (File (kept @ [CHR ''r'', CHR 0x0A]) True) \<and> kept = [CHR ''a'', CHR 0x0A]"
proof -
  let ?d = "[(''f'', File [CHR ''a'', CHR 0x0A, CHR ''t''] True)]"
  let ?r = "append_jsonl (\<lambda>s. False) ''f'' [CHR ''r'', CHR 0x0A] ?d"
  have "?r = (Inr (), snd ?r)" by (simp add: append_jsonl_def)
  from append_jsonl_keeps_lines [OF _ this] show ?thesis by (simp add: last_line_def)
qed

end
