(* ===== verification/Catalog_Disk.thy ===== *)
theory Catalog_Disk
  imports Catalog_Laws Crash_Recovery
begin

text \<open>
  The catalog on the files of the crate \<open>krabb-file\<close>: a disk is a map from directories to their
  entries, each file operation of the catalog is the operation of theory \<open>Crash_Safe_File\<close> in
  the directory of its path, and a counter gives every save its own nonce. The contract
  \<open>file_store\<close> is interpreted here, so that the round trip holds of the model of the code.
\<close>

record disk =
  dk_dirs :: "(string list, dir) bmap"
  dk_saves :: nat

definition dir_at :: "disk \<Rightarrow> string list \<Rightarrow> dir option" where
  "dir_at k p = bget (dk_dirs k) p"

definition set_dir :: "string list \<Rightarrow> dir \<Rightarrow> disk \<Rightarrow> disk" where
  "set_dir p x k = k\<lparr>dk_dirs := binsert p x (dk_dirs k)\<rparr>"

definition in_dir :: "string list \<Rightarrow> 'a \<Rightarrow> (dir \<Rightarrow> 'a \<times> dir) \<Rightarrow> disk \<Rightarrow> 'a \<times> disk" where
  "in_dir p missing f k =
     (case dir_at k p of
        None \<Rightarrow> (missing, k)
      | Some x \<Rightarrow> (case f x of (r, x') \<Rightarrow> (r, set_dir p x' k)))"

definition disk_files :: "journal_codec \<Rightarrow> (nat \<Rightarrow> string) \<Rightarrow> disk files" where
  "disk_files jc nonce = \<lparr>
     f_load = (\<lambda>p limit. in_dir (butlast p) (Inr None) (load jc (last p) limit)),
     f_save = (\<lambda>p s k.
       (case save jc (last p) s (nonce (dk_saves k)) (case dir_at k (butlast p) of None \<Rightarrow> [] | Some x \<Rightarrow> x) of
          (r, x') \<Rightarrow> (r, (set_dir (butlast p) x' k)\<lparr>dk_saves := Suc (dk_saves k)\<rparr>))),
     f_private = (\<lambda>p. in_dir (butlast p) (Inl (os_error NotFound)) (private_file (last p))),
     f_exists = (\<lambda>p k. (case dir_at k (butlast p) of None \<Rightarrow> False | Some x \<Rightarrow> bget x (last p) \<noteq> None)),
     f_list = (\<lambda>p k. (case dir_at k p of
        None \<Rightarrow> Inl (os_error NotFound)
      | Some x \<Rightarrow> Inr (filter (regular x) (bkeys x)))),
     f_read = (\<lambda>p k. (case Option.bind (dir_at k (butlast p)) (\<lambda>x. bget x (last p)) of
        Some (File b m) \<Rightarrow> Inr b
      | None \<Rightarrow> Inl (os_error NotFound)
      | Some _ \<Rightarrow> Inl (os_error OtherKind))),
     f_remove = (\<lambda>p. in_dir (butlast p) (Inl (os_error NotFound)) (unlink (last p)))\<rparr>"

text \<open>A quiet disk: every entry is a private file whose name does not start with a dot, so that no
  transaction is pending anywhere.\<close>

definition plain_name :: "string \<Rightarrow> bool" where
  "plain_name n \<longleftrightarrow> n \<noteq> [] \<and> hd n \<noteq> CHR ''.''"

definition quiet_dir :: "dir \<Rightarrow> bool" where
  "quiet_dir x \<longleftrightarrow> bmap_ok x \<and> (\<forall>n v. bget x n = Some v \<longrightarrow> plain_name n \<and> (\<exists>b. v = File b True))"

definition quiet :: "disk \<Rightarrow> bool" where
  "quiet k \<longleftrightarrow> bmap_ok (dk_dirs k) \<and> (\<forall>p x. dir_at k p = Some x \<longrightarrow> quiet_dir x)"

definition disk_content :: "disk \<Rightarrow> string list \<Rightarrow> string option" where
  "disk_content k p =
     (if p = [] then None else case Option.bind (dir_at k (butlast p)) (\<lambda>x. bget x (last p)) of Some (File b m) \<Rightarrow> Some b | _ \<Rightarrow> None)"

section \<open>Running the script of a save\<close>

lemma run_script_append:
  "run_script (ps @ qs) d = (case run_script ps d of (Inl e, d') \<Rightarrow> (Inl e, d') | (Inr u, d') \<Rightarrow> run_script qs d')"
  by (induction ps arbitrary: d) (auto split: prod.splits sum.splits)

lemma bmap_ok_prim: "bmap_ok d \<Longrightarrow> bmap_ok (snd (prim_run p d))"
  by (cases p) (auto simp: bmap_ok_insert bmap_ok_remove private_file_def rename_def unlink_def
      split: option.splits node.splits sum.splits)

lemma bmap_ok_script: "bmap_ok d \<Longrightarrow> bmap_ok (snd (run_script ps d))"
proof (induction ps arbitrary: d)
  case (Cons p ps)
  from bmap_ok_prim [OF Cons.prems, of p] Cons.IH show ?case
    by (auto split: prod.splits sum.splits)
qed simp

text \<open>A script turns the entries \<open>f\<close> into the entries \<open>g\<close>.\<close>

definition turns :: "prim list \<Rightarrow> (string \<Rightarrow> node option) \<Rightarrow> (string \<Rightarrow> node option) \<Rightarrow> bool" where
  "turns ps f g \<longleftrightarrow> (\<forall>d. bget d = f \<longrightarrow> fst (run_script ps d) = Inr () \<and> bget (snd (run_script ps d)) = g)"

lemma turns_append: "turns ps f g \<Longrightarrow> turns qs g h \<Longrightarrow> turns (ps @ qs) f h"
  unfolding turns_def run_script_append by (auto split: prod.split)

lemma turns_Nil: "turns [] f f"
  by (simp add: turns_def)

lemma turns_write_journal:
  assumes "f j = None \<or> (\<exists>s. f j = Some (File s True))"
  shows "turns (write_journal jc j t) f (f(j \<mapsto> File (to_vec jc t) True))"
  using assms
  by (auto simp: turns_def write_journal_def private_file_def metadata_def bget_insert fun_eq_iff)

lemma turns_write_temporary:
  "f t = None \<Longrightarrow> turns [CreateNew t, WriteAll t s, SyncFile t, SetPrivate t] f (f(t \<mapsto> File s True))"
  by (auto simp: turns_def private_file_def metadata_def bget_insert fun_eq_iff)

lemma turns_rename:
  "f a = Some x \<Longrightarrow> f b \<noteq> Some Directory \<Longrightarrow> turns [Rename a b] f (f(a := None, b \<mapsto> x))"
  by (auto simp: turns_def rename_def bget_insert bget_remove fun_eq_iff)

lemma turns_set_private: "f n = Some (File b True) \<Longrightarrow> turns [SetPrivate n] f f"
  by (auto simp: turns_def private_file_def metadata_def bget_insert fun_eq_iff)

lemma turns_finish:
  "f b \<noteq> Some Directory \<Longrightarrow> f j = Some (File s m) \<Longrightarrow> b \<noteq> j \<Longrightarrow>
     turns [TryUnlink b, Unlink j, SyncDir] f (f(b := None, j := None))"
  unfolding turns_def by clarify (auto simp: unlink_def bget_remove fun_eq_iff split: option.splits node.splits)

lemma save_turns:
  assumes f: "f (temporary_name n nonce) = None" "f (backup_name n nonce) = None" "f (journal_name n nonce) = None"
    and n: "if exists then \<exists>b. f n = Some (File b True) else f n = None"
  shows "turns (save_script jc n s nonce exists) f (f(n \<mapsto> File s True))"
proof -
  let ?t = "temporary_name n nonce" and ?b = "backup_name n nonce" and ?j = "journal_name n nonce"
  let ?w = "\<lambda>ph. File (to_vec jc (transaction_of n nonce ph)) True"
  note names = save_names(1) [of n nonce]
  let ?f1 = "f(?t \<mapsto> File s True)"
  let ?f2 = "?f1(?j \<mapsto> ?w ''prepared'')"
  let ?f3 = "if exists then ?f2(n := None, ?b := f n, ?j \<mapsto> ?w ''backed_up'') else ?f2"
  let ?f4 = "?f3(?t := None, n \<mapsto> File s True)"
  let ?f5 = "?f4(?j \<mapsto> ?w ''installed'')"
  have 1: "turns [CreateNew ?t, WriteAll ?t s, SyncFile ?t, SetPrivate ?t] f ?f1"
    using f by (intro turns_write_temporary)
  have 2: "turns (write_journal jc ?j (transaction_of n nonce ''prepared'')) ?f1 ?f2"
    using f names by (intro turns_write_journal) auto
  have 3: "turns (if exists then Rename n ?b # write_journal jc ?j (transaction_of n nonce ''backed_up'') else []) ?f2 ?f3"
  proof (cases exists)
    case True
    then obtain b where b: "f n = Some (File b True)" using n by auto
    have "turns [Rename n ?b] ?f2 (?f2(n := None, ?b \<mapsto> File b True))"
      using b f names by (intro turns_rename) auto
    moreover have "turns (write_journal jc ?j (transaction_of n nonce ''backed_up'')) (?f2(n := None, ?b \<mapsto> File b True))
        (?f2(n := None, ?b \<mapsto> File b True, ?j \<mapsto> ?w ''backed_up''))"
      using names by (intro turns_write_journal) auto
    ultimately have "turns ([Rename n ?b] @ write_journal jc ?j (transaction_of n nonce ''backed_up'')) ?f2
        (?f2(n := None, ?b \<mapsto> File b True, ?j \<mapsto> ?w ''backed_up''))" by (rule turns_append)
    with True b show ?thesis by simp
  next
    case False
    then show ?thesis by (simp add: turns_Nil)
  qed
  have 4: "turns [Rename ?t n] ?f3 ?f4"
    using names n by (intro turns_rename) auto
  have 5: "turns [SetPrivate n] ?f4 ?f4" by (intro turns_set_private) simp
  have 6: "turns (write_journal jc ?j (transaction_of n nonce ''installed'')) ?f4 ?f5"
    using names by (intro turns_write_journal) auto
  have 7: "turns [TryUnlink ?b, Unlink ?j, SyncDir] ?f5 (?f5(?b := None, ?j := None))"
    using names f n by (intro turns_finish) (auto split: if_splits)
  have "?f5(?b := None, ?j := None) = f(n \<mapsto> File s True)"
    using names f by (auto simp: fun_eq_iff)
  moreover from turns_append [OF 1 turns_append [OF 2 turns_append [OF 3 turns_append [OF 4
      turns_append [OF 5 turns_append [OF 6 7]]]]]]
  have "turns (save_script jc n s nonce exists) f (?f5(?b := None, ?j := None))"
    by (simp add: save_script_def Let_def)
  ultimately show ?thesis by simp
qed

section \<open>The contract\<close>

lemma plain_not_hidden: "plain_name n \<Longrightarrow> n \<noteq> CHR ''.'' # x"
  by (auto simp: plain_name_def)

lemma quiet_dir_hidden: "quiet_dir x \<Longrightarrow> bget x (CHR ''.'' # n) = None"
  unfolding quiet_dir_def plain_name_def by (metis list.sel(1) not_None_eq)

lemma save_quiet:
  assumes "quiet_dir x" and "plain_name n" and "save jc n s nonce x = (r, x')"
  shows "r = Inr () \<and> quiet_dir x' \<and> bget x' = (bget x)(n \<mapsto> File s True)"
proof -
  have hidden: "bget x (temporary_name n nonce) = None" "bget x (backup_name n nonce) = None"
    "bget x (journal_name n nonce) = None"
    using quiet_dir_hidden [OF assms(1)]
    by (simp_all add: temporary_name_def backup_name_def journal_name_def journal_prefix_def)
  have at: "bget x n = None \<or> (\<exists>b. bget x n = Some (File b True))"
    using assms(1) by (cases "bget x n") (auto simp: quiet_dir_def)
  then have n: "if regular x n then \<exists>b. bget x n = Some (File b True) else bget x n = None"
    by (auto simp: regular_def)
  from save_turns [OF hidden n, of jc s]
  have run: "fst (run_script (save_script jc n s nonce (regular x n)) x) = Inr ()"
    "bget (snd (run_script (save_script jc n s nonce (regular x n)) x)) = (bget x)(n \<mapsto> File s True)"
    by (auto simp: turns_def)
  have "reject_link n x = Inr ()" using at by (auto simp: reject_link_def)
  then have r: "r = Inr ()" "x' = snd (run_script (save_script jc n s nonce (regular x n)) x)"
    using assms(3) run(1) by (auto simp: save_def split: prod.splits sum.splits)
  moreover have "quiet_dir x'"
    using assms(1,2) bmap_ok_script [of x] run(2) r(2) by (auto simp: quiet_dir_def)
  ultimately show ?thesis using run(2) by simp
qed

lemma load_quiet:
  assumes "quiet_dir x" and "plain_name n" and "\<And>b m. bget x n = Some (File b m) \<Longrightarrow> length b \<le> limit"
  shows "load jc n limit x = (Inr (case bget x n of Some (File b m) \<Rightarrow> Some b | _ \<Rightarrow> None), x)"
proof -
  have "strip_prefix (journal_prefix n) k = None" if "k \<in> set (bkeys x)" for k
  proof (rule ccontr)
    assume "strip_prefix (journal_prefix n) k \<noteq> None"
    then obtain r where "k = CHR ''.'' # n @ ''.txn-'' @ r" by (auto simp: strip_prefix_Some journal_prefix_def)
    moreover have "bget x k \<noteq> None" using that by (simp add: map_of_eq_None_iff)
    ultimately show False using quiet_dir_hidden [OF assms(1)] by simp
  qed
  then have "recover jc n x = (Inr (), x)" unfolding recover_def by (intro recover_entries_none) blast
  moreover have "bget x n = None \<or> (\<exists>b. bget x n = Some (File b True))"
    using assms(1) by (cases "bget x n") (auto simp: quiet_dir_def)
  ultimately show ?thesis using assms(3) by (auto simp: load_def check_file_def metadata_def)
qed

lemma plain_split: "plain p \<Longrightarrow> p = butlast p @ [last p] \<and> plain_name (last p)"
  by (simp add: plain_def plain_name_def)

lemma path_eq: "p \<noteq> [] \<Longrightarrow> q \<noteq> [] \<Longrightarrow> p = q \<longleftrightarrow> butlast p = butlast q \<and> last p = last q"
  by (metis append_butlast_last_id)

lemma set_dir_at: "dir_at (set_dir p x k) q = (if q = p then Some x else dir_at k q)"
  by (simp add: dir_at_def set_dir_def bget_insert)

lemma quiet_set_dir: "quiet k \<Longrightarrow> quiet_dir x \<Longrightarrow> quiet (set_dir p x k)"
  by (auto simp: quiet_def set_dir_at) (simp add: set_dir_def bmap_ok_insert)

lemma quiet_nil: "quiet_dir []"
  by (simp add: quiet_dir_def)

lemma set_dir_same: "bmap_ok (dk_dirs k) \<Longrightarrow> dir_at k p = Some x \<Longrightarrow> set_dir p x k = k"
proof -
  have "bmap_ok m \<Longrightarrow> bget m p = Some x \<Longrightarrow> binsert p x m = m" for m :: "(string list, dir) bmap"
  proof (induction p x m rule: binsert.induct)
    case (2 k v k' v' m)
    then show ?case by (auto simp: bmap_ok_def dest!: map_of_SomeD split: if_splits)
  qed simp
  then show "bmap_ok (dk_dirs k) \<Longrightarrow> dir_at k p = Some x \<Longrightarrow> set_dir p x k = k"
    by (simp add: dir_at_def set_dir_def)
qed

interpretation krabb_file: file_store "disk_files jc nonce" disk_content quiet
proof
  fix d :: disk and p limit
  assume q: "quiet d" and p: "plain p" and len: "\<And>b. disk_content d p = Some b \<Longrightarrow> length b \<le> limit"
  show "f_load (disk_files jc nonce) p limit d = (Inr (disk_content d p), d)"
  proof (cases "dir_at d (butlast p)")
    case None
    then show ?thesis by (simp add: disk_files_def in_dir_def disk_content_def)
  next
    case (Some x)
    then have x: "quiet_dir x" using q by (simp add: quiet_def)
    have pn: "p \<noteq> []" using p by (simp add: plain_def)
    have "load jc (last p) limit x = (Inr (case bget x (last p) of Some (File b m) \<Rightarrow> Some b | _ \<Rightarrow> None), x)"
      using len Some pn plain_split [OF p] by (intro load_quiet [OF x]) (auto simp: disk_content_def)
    then show ?thesis
      using Some q pn by (simp add: disk_files_def in_dir_def disk_content_def set_dir_same quiet_def)
  qed
next
  fix d d' :: disk and p s u
  assume q: "quiet d" and p: "plain p" and save: "f_save (disk_files jc nonce) p s d = (Inr u, d')"
  let ?x = "case dir_at d (butlast p) of None \<Rightarrow> [] | Some x \<Rightarrow> x"
  have x: "quiet_dir ?x" using q quiet_nil by (auto simp: quiet_def split: option.splits)
  obtain r x' where sv: "save jc (last p) s (nonce (dk_saves d)) ?x = (r, x')" by fastforce
  from save_quiet [OF x _ sv] plain_split [OF p]
  have x': "quiet_dir x'" "bget x' = (bget ?x)(last p \<mapsto> File s True)" by auto
  have d': "d' = (set_dir (butlast p) x' d)\<lparr>dk_saves := Suc (dk_saves d)\<rparr>"
    using save sv by (simp add: disk_files_def)
  have at: "dir_at d' q = dir_at (set_dir (butlast p) x' d) q" for q by (simp add: d' dir_at_def)
  have "quiet d'" using quiet_set_dir [OF q x'(1), of "butlast p"] by (simp add: quiet_def at) (simp add: d')
  moreover have "disk_content d' q = ((disk_content d)(p \<mapsto> s)) q" for q
  proof (cases "q = []")
    case True
    then show ?thesis using plain_split [OF p] by (auto simp: disk_content_def)
  next
    case False
    then have "q = p \<longleftrightarrow> butlast q = butlast p \<and> last q = last p"
      using path_eq [of q p] p by (auto simp: plain_def)
    then show ?thesis
      using False x'(2) by (auto simp: disk_content_def at set_dir_at split: option.splits)
  qed
  ultimately show "quiet d' \<and> disk_content d' = (disk_content d)(p \<mapsto> s)" by auto
next
  fix d d' :: disk and p r
  assume q: "quiet d" and p: "plain p" and rm: "f_remove (disk_files jc nonce) p d = (r, d')"
  show "quiet d' \<and> (\<forall>q. q \<noteq> p \<longrightarrow> disk_content d' q = disk_content d q)"
  proof (cases "dir_at d (butlast p)")
    case None
    then show ?thesis using rm q by (simp add: disk_files_def in_dir_def)
  next
    case (Some x)
    then have x: "quiet_dir x" using q by (simp add: quiet_def)
    obtain r' x' where un: "unlink (last p) x = (r', x')" by fastforce
    then have x': "x' = snd (unlink (last p) x)" by simp
    have d': "d' = set_dir (butlast p) x' d"
      using rm Some un by (simp add: disk_files_def in_dir_def)
    have "quiet_dir x'" using x unfolding x'
      by (auto simp: quiet_dir_def unlink_def bmap_ok_remove bget_remove split: option.splits node.splits if_splits)
    moreover have "disk_content d' q = disk_content d q" if "q \<noteq> p" for q
    proof (cases "q = []")
      case False
      then have "butlast q = butlast p \<longrightarrow> last q \<noteq> last p"
        using that path_eq [of q p] p by (auto simp: plain_def)
      then show ?thesis
        using False Some by (auto simp: disk_content_def d' set_dir_at x' unlink_other)
    qed (simp add: disk_content_def)
    ultimately show ?thesis using quiet_set_dir [OF q, of x' "butlast p"] d' by auto
  qed
qed

lemma disk_save_succeeds:
  assumes "quiet k" and "plain p"
  shows "\<exists>k'. f_save (disk_files jc nonce) p s k = (Inr (), k') \<and> quiet k'"
proof -
  let ?x = "case dir_at k (butlast p) of None \<Rightarrow> [] | Some x \<Rightarrow> x"
  have "quiet_dir ?x" using assms(1) quiet_nil by (auto simp: quiet_def split: option.splits)
  moreover obtain r x' where sv: "save jc (last p) s (nonce (dk_saves k)) ?x = (r, x')" by fastforce
  ultimately have "r = Inr ()" using save_quiet plain_split [OF assms(2)] by blast
  with sv have f: "f_save (disk_files jc nonce) p s k = (Inr (), snd (f_save (disk_files jc nonce) p s k))"
    by (simp add: disk_files_def)
  from krabb_file.save_law [OF assms f] f show ?thesis by blast
qed

text \<open>Saving succeeds on a quiet disk for a store within the size limits.\<close>

definition fits :: "serde \<Rightarrow> store \<Rightarrow> bool" where
  "fits sd st \<longleftrightarrow> list_all (\<lambda>(i, s). valid i \<and> s_id s = i \<and> length (session_text sd s) \<le> BYTE_LIMIT) (st_sessions st)
     \<and> length (client_text sd (client_of_store st)) \<le> BYTE_LIMIT
     \<and> length (dindex_text sd (dindex_of_store sd st)) \<le> BYTE_LIMIT
     \<and> length (index_text sd (index_of_store sd st)) \<le> BYTE_LIMIT"

lemma save_sessions_succeeds:
  assumes "key_law sd"
  shows "quiet k \<Longrightarrow> list_all (\<lambda>(i, s). valid i \<and> s_id s = i \<and> length (session_text sd s) \<le> BYTE_LIMIT) m \<Longrightarrow>
     \<exists>ix k'. save_sessions sd (disk_files jc nonce) root m acc k = (Inr ix, k') \<and> quiet k'"
proof (induction m arbitrary: acc k)
  case (Cons e m)
  obtain i s where e: "e = (i, s)" by (cases e)
  let ?key = "record_key sd (session_text sd s)"
  have "plain (record_path root ?key)"
    using assms plain_json [of ?key "root @ [''records'']"] by (simp add: record_path_def key_law_def)
  from disk_save_succeeds [OF Cons.prems(1) this] obtain k1 where
    k1: "f_save (disk_files jc nonce) (record_path root ?key) (session_text sd s) k = (Inr (), k1)" "quiet k1" by blast
  from Cons.IH [OF k1(2), of "binsert i ?key acc"] Cons.prems(2) obtain ix k' where
    "save_sessions sd (disk_files jc nonce) root m (binsert i ?key acc) k1 = (Inr ix, k')" "quiet k'" by (auto simp: e)
  then show ?case using Cons.prems(2) k1 by (auto simp: e Let_def bind_io_def)
qed (simp add: ok_def)

lemma save_deliveries_succeeds:
  assumes "key_law sd"
  shows "quiet k \<Longrightarrow> \<exists>ks k'. save_deliveries sd (disk_files jc nonce) root xs k = (Inr ks, k') \<and> quiet k'"
proof (induction xs arbitrary: k)
  case (Cons x xs)
  let ?key = "record_key sd (delivery_text sd x)"
  have "plain (delivery_path root ?key)"
    using assms plain_json [of ?key "root @ [''state'', ''deliveries'', ''records'']"]
    by (simp add: delivery_path_def key_law_def)
  from disk_save_succeeds [OF Cons.prems this] obtain k1 where
    k1: "f_save (disk_files jc nonce) (delivery_path root ?key) (delivery_text sd x) k = (Inr (), k1)" "quiet k1" by blast
  from Cons.IH [OF k1(2)] obtain ks k' where
    "save_deliveries sd (disk_files jc nonce) root xs k1 = (Inr ks, k')" "quiet k'" by blast
  then show ?case using k1 by (simp add: Let_def bind_io_def ok_def)
qed (simp add: ok_def)

lemma save_path_succeeds:
  assumes key: "key_law sd" and q: "quiet k" and path: "session_catalog path" "st_path st = Some path"
    and m: "bmap_ok (st_sessions st)" and fits: "fits sd st"
  shows "\<exists>k'. save_path sd (disk_files jc nonce) st k = (Inr (), k')"
proof -
  let ?fs = "disk_files jc nonce"
  obtain root where pe: "path = root @ [''index.json'']"
    using path(1) unfolding session_catalog_def by (metis append_butlast_last_id)
  then have rt: "butlast path = root" by simp
  have pl: "plain (client_path root)" "plain (dindex_path root)" "plain path"
    by (simp_all add: pe plain_def client_path_def dindex_path_def)
  obtain ix k1 where k1: "save_sessions sd ?fs root (st_sessions st) [] k = (Inr ix, k1)" "quiet k1"
    using save_sessions_succeeds [OF key q] fits unfolding fits_def by blast
  then have ix: "\<lparr>ix_version = 1, ix_sessions = ix\<rparr> = index_of_store sd st"
    using krabb_file.save_sessions_ok [OF key k1(1) q] fold_binsert [of "[]" "st_sessions st"] m
    by (simp add: index_of_store_def)
  obtain k2 where k2: "f_save ?fs (client_path root) (client_text sd (client_of_store st)) k1 = (Inr (), k2)" "quiet k2"
    using disk_save_succeeds [OF k1(2) pl(1)] by blast
  obtain ks k3 where k3: "save_deliveries sd ?fs root (st_outbox st) k2 = (Inr ks, k3)" "quiet k3"
    using save_deliveries_succeeds [OF key k2(2)] by blast
  obtain ls k4 where k4: "save_deliveries sd ?fs root (st_dead st) k3 = (Inr ls, k4)" "quiet k4"
    using save_deliveries_succeeds [OF key k3(2)] by blast
  have di: "\<lparr>di_outbox = ks, di_dead = ls\<rparr> = dindex_of_store sd st"
    using krabb_file.save_deliveries_ok [OF key k3(1) k2(2)] krabb_file.save_deliveries_ok [OF key k4(1) k3(2)]
    by (simp add: dindex_of_store_def)
  obtain k5 where k5: "f_save ?fs (dindex_path root) (dindex_text sd (dindex_of_store sd st)) k4 = (Inr (), k5)" "quiet k5"
    using disk_save_succeeds [OF k4(2) pl(2)] by blast
  obtain k6 where k6: "f_save ?fs path (index_text sd (index_of_store sd st)) k5 = (Inr (), k6)"
    using disk_save_succeeds [OF k5(2) pl(3)] by blast
  have js: "save_json ?fs (client_path root) (client_text sd (client_of_store st)) k1 = (Inr (), k2)"
    "save_json ?fs (dindex_path root) (dindex_text sd (dindex_of_store sd st)) k4 = (Inr (), k5)"
    "save_json ?fs path (index_text sd (index_of_store sd st)) k5 = (Inr (), k6)"
    using k2(1) k5(1) k6 fits by (simp_all add: save_json_def fits_def)
  show ?thesis
    by (simp add: save_path_def path save_catalog_def Let_def rt bind_io_def k1(1) js k3(1) k4(1) ix di
        ignore_errors_def ok_def del: One_nat_def)
qed

section \<open>Round trip\<close>

text \<open>C23: What the daemon saves it loads back: after a successful save of a store on a disk without pending
  transactions, loading the catalog returns exactly that store, sessions, deliveries in their order,
  dead letters, deferred events, offsets and seen events, and the clean-up of stale records has
  removed none that is needed. In particular a restart finds a turn that was running still in
  flight and a delivery that was being sent still being sent.\<close>

theorem catalog_round_trip:
  assumes "key_law sd" and "reads_store sd st" and "keys_apart sd st" and "quiet k"
    and "session_catalog path" and "bmap_ok (st_sessions st)" and "st_path st = Some path"
    and "\<forall>x \<in> set (st_outbox st @ st_dead st). length (delivery_text sd x) \<le> BYTE_LIMIT"
    and "save_path sd (disk_files jc nonce) st k = (Inr (), k')"
  shows "load_store sd (disk_files jc nonce) t path k' = (Inr st, k')"
  by (rule krabb_file.save_load [OF assms])

text \<open>A store with one running turn, and serialisers for it.\<close>

definition one_message :: message where
  "one_message = \<lparr>m_id = ''x'', m_session = ''a'', m_role = User, m_sender = None, m_content = []\<rparr>"

definition running_session :: session where
  "running_session = (new_session ''a'' ''m'' False 1)\<lparr>s_inflight := Some one_message, s_status := ''working''\<rparr>"

definition running_store :: store where
  "running_store = empty_store\<lparr>st_sessions := [(''a'', running_session)],
     st_path := Some [''home'', ''data'', ''sessions'', ''index.json'']\<rparr>"

definition zero_key :: string where
  "zero_key = replicate 64 CHR ''0''"

definition one_serde :: serde where
  "one_serde = \<lparr>from_utf8 = Inr, parse_json = (\<lambda>s. Inr (JObj [(''scheduled'', JBool False)])),
     session_of = (\<lambda>v. Inr running_session), session_text = (\<lambda>s. ''s''),
     delivery_of = (\<lambda>v. Inl (IoError OtherKind [])), delivery_text = (\<lambda>x. ''d''),
     client_of = (\<lambda>v. Inr (client_of_store running_store)), client_text = (\<lambda>c. ''c''),
     dindex_of = (\<lambda>v. Inr \<lparr>di_outbox = [], di_dead = []\<rparr>), dindex_text = (\<lambda>x. ''i''),
     index_of = (\<lambda>v. Inr \<lparr>ix_version = 1, ix_sessions = [(''a'', zero_key)]\<rparr>), index_text = (\<lambda>x. ''x''),
     store_of = (\<lambda>v. Inl (IoError OtherKind [])), store_text = (\<lambda>st. ''st''),
     record_key = (\<lambda>b. zero_key)\<rparr>"

definition blank_disk :: disk where
  "blank_disk = \<lparr>dk_dirs = [], dk_saves = 0\<rparr>"

theorem catalog_round_trip_witness:
  "\<exists>k. save_path one_serde (disk_files dot_codec (\<lambda>n. ''1'')) running_store blank_disk = (Inr (), k)
     \<and> load_store one_serde (disk_files dot_codec (\<lambda>n. ''1'')) 5 [''home'', ''data'', ''sessions'', ''index.json''] k
         = (Inr running_store, k)"
proof -
  let ?fs = "disk_files dot_codec (\<lambda>n. ''1'')" and ?path = "[''home'', ''data'', ''sessions'', ''index.json'']"
  let ?r = "save_path one_serde ?fs running_store blank_disk"
  have key: "key_law one_serde"
    by (simp add: key_law_def one_serde_def zero_key_def hex_key_def is_ascii_hexdigit_def is_ascii_digit_def code_def
        list_all_iff)
  have q: "quiet blank_disk" by (simp add: quiet_def blank_disk_def dir_at_def)
  have p: "session_catalog ?path" "st_path running_store = Some ?path" "bmap_ok (st_sessions running_store)"
    by (simp_all add: session_catalog_def running_store_def bmap_ok_def)
  have "fits one_serde running_store"
    by (simp add: fits_def running_store_def running_session_def new_session_def empty_store_def one_serde_def
        valid_def is_ascii_lowercase_def code_def BYTE_LIMIT_def)
  from save_path_succeeds [OF key q p this, of dot_codec "\<lambda>n. ''1''"] have "fst ?r = Inr ()" by auto
  then have save: "?r = (Inr (), snd ?r)" by (simp add: prod_eq_iff)
  have "load_store one_serde ?fs 5 ?path (snd ?r) = (Inr running_store, snd ?r)"
  proof (rule catalog_round_trip [OF key _ _ q p(1,3,2) _ save])
    show "reads_store one_serde running_store"
      by (simp add: reads_store_def one_serde_def running_store_def empty_store_def reads_session_def
          from_slice_as_def client_of_store_def dindex_of_store_def index_of_store_def)
    show "keys_apart one_serde running_store"
      by (simp add: keys_apart_def running_store_def empty_store_def)
  qed (simp add: running_store_def empty_store_def)
  with save show ?thesis by blast
qed

end
