(* ===== verification/Catalog_Recovery.thy ===== *)
theory Catalog_Recovery
  imports Catalog_Disk
begin

text \<open>
  What a restart makes of an interrupted store when it is loaded from the older single file,
  \<open>Store::load\<close> of \<open>krabb-runtime/src/state.rs\<close>.
\<close>

lemma set_fold_bremove: "set (fold bremove ks m) = {(i, s) \<in> set m. i \<notin> set ks}"
  by (induction ks arbitrary: m) (auto simp: bremove_def)

lemma recover_sessions_set:
  "recover_sessions m = Inr (m', c) \<Longrightarrow> (i, s') \<in> set m' \<Longrightarrow>
     \<exists>s c'. (i, s) \<in> set m \<and> recover_session i s = Inr (s', c')"
  by (induction m arbitrary: m' c) (auto split: sum.splits prod.splits, blast+)

lemma recover_session_result:
  assumes "recover_session i s = Inr (s', c)"
  shows "s_id s' = i \<and> s_inflight s' = None
    \<and> (\<forall>m. s_inflight s = Some m \<longrightarrow> s_status s' = ''interrupted''
         \<and> s_queued s' = (if s_status s \<noteq> ''cancelled'' \<and> s_phase s = ''safe'' then m # s_queued s else s_queued s))"
proof -
  have id: "s_id s = i" using assms by (auto simp: recover_session_def split: if_splits)
  show ?thesis
    using assms id
    by (cases "s_inflight s")
      (auto simp: recover_session_def Let_def interrupted_def tui_reservation_def split: if_splits option.splits)
qed

lemma migrate_schedule_set:
  assumes "(i, s) \<in> set (st_sessions (fst (migrate_schedule_sessions st raw)))"
  shows "\<exists>s0. (i, s0) \<in> set (st_sessions st) \<and> s_inflight s = s_inflight s0 \<and> s_status s = s_status s0
     \<and> s_phase s = s_phase s0 \<and> s_queued s = s_queued s0"
  using assms
  by (cases "Option.bind raw as_object") (force simp: migrate_schedule_sessions_def Let_def split: if_splits)+

text \<open>A restart from the single file recovers every interrupted turn and delivery: no session is left
  with a message in flight; one that was in flight is back at the front of its queue when the turn
  was replay-safe and not cancelled, and is not queued again otherwise; no delivery is left as being
  sent, and the outbox and the dead letters are within their bounds.\<close>

theorem restart_recovers_interrupted_work:
  assumes "recover_store t document st = Inr (st', c)"
  shows "(\<forall>(i, s') \<in> set (st_sessions st'). s_inflight s' = None
       \<and> (\<exists>s. (i, s) \<in> set (st_sessions st) \<and>
            (\<forall>m. s_inflight s = Some m \<longrightarrow> s_status s' = ''interrupted'' \<and> s_queued s' =
              (if s_status s \<noteq> ''cancelled'' \<and> s_phase s = ''safe'' then m # s_queued s else s_queued s))))
    \<and> (\<forall>x \<in> set (st_outbox st'). d_status x = Pending \<or> d_status x = Uncertain)
    \<and> length (st_outbox st') \<le> LIMIT \<and> length (st_dead st') \<le> LIMIT"
proof -
  obtain st1 c1 where m1: "migrate_schedule_sessions st (json_get document ''sessions'') = (st1, c1)" by fastforce
  obtain ob c2 where m2: "migrate_delivery_routes (st_outbox st1) (json_get document ''outbox'')
      (bvalues (st_sessions st1)) True = (ob, c2)" by fastforce
  obtain dl c3 where m3: "migrate_delivery_routes (st_dead st1) (json_get document ''dead'')
      (bvalues (st_sessions st1)) False = (dl, c3)" by fastforce
  from assms obtain sessions c4 where rs: "recover_sessions (st_sessions st1) = Inr (sessions, c4)"
    and st': "st' = st1\<lparr>st_sessions := fold bremove (discarded_sessions sessions) sessions,
        st_outbox := keep_last LIMIT (map fst (map (recover_delivery t) ob)), st_dead := keep_last LIMIT dl,
        st_offsets := limit_offsets (st_offsets st1), st_seen := trim_seen (st_seen st1) None\<rparr>"
    by (auto simp: recover_store_def m1 m2 m3 Let_def split: sum.splits)
  have "s_inflight s' = None \<and> (\<exists>s. (i, s) \<in> set (st_sessions st) \<and>
            (\<forall>m. s_inflight s = Some m \<longrightarrow> s_status s' = ''interrupted'' \<and> s_queued s' =
              (if s_status s \<noteq> ''cancelled'' \<and> s_phase s = ''safe'' then m # s_queued s else s_queued s)))"
    if "(i, s') \<in> set (st_sessions st')" for i s'
  proof -
    have "(i, s') \<in> set sessions" using that by (simp add: st' set_fold_bremove)
    from recover_sessions_set [OF rs this] obtain s1 c' where
      s1: "(i, s1) \<in> set (st_sessions st1)" "recover_session i s1 = Inr (s', c')" by blast
    from migrate_schedule_set [of i s1 st "json_get document ''sessions''"] s1(1) m1
    obtain s0 where "(i, s0) \<in> set (st_sessions st)" "s_inflight s1 = s_inflight s0" "s_status s1 = s_status s0"
      "s_phase s1 = s_phase s0" "s_queued s1 = s_queued s0" by auto
    with recover_session_result [OF s1(2)] show ?thesis by (intro conjI exI [of _ s0]) auto
  qed
  moreover have "d_status x = Pending \<or> d_status x = Uncertain" if "x \<in> set (st_outbox st')" for x
  proof -
    have "x \<in> set (map fst (map (recover_delivery t) ob))" using that set_keep_last by (fastforce simp: st')
    then show ?thesis by (auto simp: recover_delivery_def Let_def split: if_splits) (metis delivery_status.exhaust)+
  qed
  moreover have "length (st_outbox st') \<le> LIMIT" "length (st_dead st') \<le> LIMIT" by (simp_all add: st')
  ultimately show ?thesis by blast
qed

theorem restart_recovers_interrupted_work_witness:
  "\<exists>st' c. recover_store 9 (JObj []) running_store = Inr (st', c)
     \<and> (\<forall>(i, s) \<in> set (st_sessions st'). s_inflight s = None)"
proof -
  have "is_ok (recover_store 9 (JObj []) running_store)"
    by (simp add: recover_store_def running_store_def empty_store_def migrate_schedule_sessions_def
        migrate_delivery_routes_def recover_session_def running_session_def new_session_def valid_def
        is_ascii_lowercase_def code_def Let_def LIMIT_def interrupted_def tui_reservation_def)
  then obtain st' c where "recover_store 9 (JObj []) running_store = Inr (st', c)" by (auto simp: is_ok_iff)
  with restart_recovers_interrupted_work [OF this] show ?thesis by blast
qed

end
