(* ===== verification/Durability.thy ===== *)
theory Durability
  imports Store_Behaviour Catalog_Recovery
begin

text \<open>
  The store and its disk together: the environment of the daemon, whose \<open>save_store\<close> is the
  catalog on the files of \<open>krabb-file\<close>, and what a successful operation leaves on the disk.
\<close>

definition daemon_env :: "serde \<Rightarrow> 'd files \<Rightarrow> string list \<Rightarrow> (nat \<Rightarrow> u64) \<Rightarrow> u64 \<Rightarrow> 'd env" where
  "daemon_env sd fs path clk ns = \<lparr>now = clk, nanos = ns, save_store = save_path sd fs,
     drop_records = remove_session_records sd fs (butlast path @ [''records'']),
     digest = record_key sd, pretty_len = (\<lambda>st. length (store_text sd st))\<rparr>"

text \<open>A success either left store and disk alone or saved the new store.\<close>

definition recorded :: "'d env \<Rightarrow> 'd world \<Rightarrow> 'a io_result \<times> 'd world \<Rightarrow> bool" where
  "recorded env w r \<longleftrightarrow> (case fst r of Inl e \<Rightarrow> True
     | Inr x \<Rightarrow> snd r = w \<or> save_store env (fst (snd r)) (snd w) = (Inr (), snd (snd r)))"

lemma recorded_change [simp]: "recorded env w (change env u w)"
proof (cases w)
  case (Pair st d)
  then show ?thesis
    by (cases "save_store env (u st) d"; cases "fst (save_store env (u st) d)")
      (auto simp: recorded_def change_def Let_def)
qed

lemma recorded_stop [simp]:
  "recorded env w (fail k m w)" "recorded env w (return x w)" "recorded env w (session_missing w)"
  by (simp_all add: recorded_def fail_def return_def session_missing_def)

lemma recorded_then_return [simp]: "recorded env w (and_then a (\<lambda>_. return x) w) = recorded env w (a w)"
  by (cases "a w"; cases "fst (a w)") (auto simp: and_then_def return_def recorded_def)

lemma recorded_sessions:
  "recorded env w (create_session env i m b w)" "recorded env w (remove env i w)"
  "recorded env w (rename_session env i j w)"
  "recorded env w (fork env i j w)" "recorded env w (archive_session env i b w)" "recorded env w (route env i c ch th p w)"
  "recorded env w (push_with_status env i msg x y w)" "recorded env w (append_notice env i msg w)"
  "recorded env w (set_compacted_context_reserved env i ow ms w)" "recorded env w (clear_history env i w)"
  "recorded env w (queue_with_roles env i msg rs w)" "recorded env w (begin_with_roles_clearing_deferred env i msg rs c' w)"
  "recorded env w (clear env i st w)" "recorded env w (set_status env i st w)" "recorded env w (set_phase env i ph w)"
  "recorded env w (reserve env i ow w)" "recorded env w (recover_reservations env w)"
  "recorded env w (renew_reservation env i ow w)"
  "recorded env w (set_model env i m w)" "recorded env w (set_context_usage env i us w)"
  "recorded env w (set_workspace env i wp w)"
  by (simp_all add: create_session_def remove_def rename_session_def fork_def archive_session_def
      route_def push_with_status_def append_notice_def set_compacted_context_reserved_def clear_history_def
      queue_with_roles_def begin_with_roles_clearing_deferred_def clear_def set_status_def set_phase_def
      reserve_def recover_reservations_def renew_reservation_def set_model_def set_context_usage_def
      set_workspace_def Let_def split: option.split)

lemma recorded_update_delivery [simp]: "recorded env w (update_delivery env i f w)"
  by (simp add: update_delivery_def)

lemma recorded_deliveries:
  "recorded env w (queue_delivery env i c ch p th t w)" "recorded env w (reply env s msg i c ch th t w)"
  "recorded env w (start_stream env s i c ch th t w)" "recorded env w (retry_delivery env i w)" "recorded env w (ack env i w)"
  "recorded env w (dead env i w)" "recorded env w (purge env a b w)" "recorded env w (mark_deferred_acknowledged env c i w)"
  "recorded env w (defer_event env c e w)" "recorded env w (commit_event env c i v retained w)"
  by (simp_all add: queue_delivery_def reply_def start_stream_def retry_delivery_def ack_def dead_def
      purge_def mark_deferred_acknowledged_def defer_event_def commit_event_def Let_def split: option.split)

lemma recorded_exec: "\<not> removes_records op \<Longrightarrow> recorded env w (exec env op w)"
  by (cases op) (simp_all add: recorded_sessions recorded_deliveries create_def create_scheduled_def ensure_def
      push_def append_message_def append_reserved_def cancel_def Let_def stream_sending_def
      stream_started_def stream_updated_def sending_def mark_uncertain_def drop_delivery_def
      ignoring_def commit_def commit_retained_def split: option.split)

lemma keeps_path_exec: "keeps (\<lambda>st. st_path st = p) w (exec env op w)"
proof (cases "delivery_only op")
  case True
  then show ?thesis by (intro keeps_delivery_only) simp_all
next
  case False
  have [simp]: "st_path (drop_deferred c i st) = st_path st" "st_path (with_deferred c e st) = st_path st" for c i e st
    by (simp_all add: drop_deferred_def with_deferred_def Let_def split: option.splits)
  from False show ?thesis
    by (cases op) (auto simp: begin_with_roles_clearing_deferred_def mark_deferred_acknowledged_def
        defer_event_def commit_def commit_retained_def commit_event_def Let_def
        intro!: keeps_change split: option.splits)
qed

section \<open>Deleting the records of a session\<close>

text \<open>What the deletion of records relies on beyond the contract of the catalog: a file that is read gives its content.\<close>

locale file_reader = file_store fs content good
  for fs :: "'d files" and content :: "'d \<Rightarrow> string list \<Rightarrow> string option" and good :: "'d \<Rightarrow> bool" +
  assumes read_law: "good d \<Longrightarrow> plain p \<Longrightarrow> f_read fs p d = Inr b \<Longrightarrow> content d p = Some b"
begin

definition stable :: "('d \<Rightarrow> bool) \<Rightarrow> ('d, unit) io \<Rightarrow> bool" where
  "stable P m \<longleftrightarrow> (\<forall>d. good d \<longrightarrow> P d \<longrightarrow> good (snd (m d)) \<and> P (snd (m d)))"

lemma stable_each: "(\<And>n. stable P (f n)) \<Longrightarrow> stable P (each_entry f ns)"
proof (induction ns)
  case (Cons n ns)
  then show ?case
    unfolding stable_def by (auto simp: bind_io_def split: prod.splits sum.splits) (metis snd_conv)+
qed (simp add: stable_def ok_def)

lemma stable_entries: "(\<And>n. stable P (f n)) \<Longrightarrow> stable P (for_entries fs dir f)"
  using stable_each [of P f] by (auto simp: stable_def for_entries_def split: sum.splits)

text \<open>Only records whose text reads as the session \<open>i\<close> are removed.\<close>

lemma stable_remove_records:
  assumes "\<And>d key b x. good d \<Longrightarrow> P d \<Longrightarrow> hex_key key \<Longrightarrow> content d (dir @ [json_name key]) = Some b \<Longrightarrow>
      from_slice_as sd (session_of sd) b = Inr x \<Longrightarrow> s_id x = i \<Longrightarrow>
      good (snd (remove_record fs (dir @ [json_name key]) d)) \<and> P (snd (remove_record fs (dir @ [json_name key]) d))"
  shows "stable P (remove_session_records sd fs dir i)"
  unfolding remove_session_records_def
proof (rule stable_entries)
  fix n
  show "stable P (\<lambda>d. case strip_json n of
        None \<Rightarrow> ok () d
      | Some key \<Rightarrow>
          if \<not> hex_key key then ok () d
          else (case f_read fs (dir @ [n]) d of
                  Inl e \<Rightarrow> (Inl e, d)
                | Inr bytes \<Rightarrow>
                    if BYTE_LIMIT < length bytes then ok () d
                    else (case from_slice_as sd (session_of sd) bytes of
                            Inl e \<Rightarrow> ok () d
                          | Inr s \<Rightarrow> if s_id s = i then remove_record fs (dir @ [n]) d else ok () d)))"
    unfolding stable_def
  proof (intro allI impI)
    fix d assume d: "good d" "P d"
    have "content d (dir @ [json_name key]) = Some b" if "hex_key key" "f_read fs (dir @ [json_name key]) d = Inr b" for key b
      using read_law [OF d(1) plain_json [OF that(1)] that(2)] .
    with assms [OF d] d show "good (snd (case strip_json n of
        None \<Rightarrow> ok () d
      | Some key \<Rightarrow>
          if \<not> hex_key key then ok () d
          else (case f_read fs (dir @ [n]) d of
                  Inl e \<Rightarrow> (Inl e, d)
                | Inr bytes \<Rightarrow>
                    if BYTE_LIMIT < length bytes then ok () d
                    else (case from_slice_as sd (session_of sd) bytes of
                            Inl e \<Rightarrow> ok () d
                          | Inr s \<Rightarrow> if s_id s = i then remove_record fs (dir @ [n]) d else ok () d))))
      \<and> P (snd (case strip_json n of
        None \<Rightarrow> ok () d
      | Some key \<Rightarrow>
          if \<not> hex_key key then ok () d
          else (case f_read fs (dir @ [n]) d of
                  Inl e \<Rightarrow> (Inl e, d)
                | Inr bytes \<Rightarrow>
                    if BYTE_LIMIT < length bytes then ok () d
                    else (case from_slice_as sd (session_of sd) bytes of
                            Inl e \<Rightarrow> ok () d
                          | Inr s \<Rightarrow> if s_id s = i then remove_record fs (dir @ [n]) d else ok () d))))"
      by (auto simp: ok_def split: option.split sum.split)
  qed
qed

lemma remove_record_frame:
  assumes "good d" and "plain p"
  shows "good (snd (remove_record fs p d)) \<and> (\<forall>q. q \<noteq> p \<longrightarrow> content (snd (remove_record fs p d)) q = content d q)"
  using remove_law [OF assms] by (auto simp: remove_record_def split: prod.splits sum.splits)

lemma remove_records_good: "good d \<Longrightarrow> good (snd (remove_session_records sd fs dir i d))"
  using stable_remove_records [of "\<lambda>d. True" dir sd i] remove_record_frame [OF _ plain_json]
  by (auto simp: stable_def)

text \<open>A disk that holds a store without the session \<open>i\<close> still holds it when the records of \<open>i\<close> are gone.\<close>

lemma remove_records_holds:
  assumes sd: "list_all (reads_session sd) (bvalues (st_sessions st))" and path: "session_catalog path"
    and gone: "bget (st_sessions st) i = None" and h: "holds_store sd path st d"
  shows "holds_store sd path st (snd (remove_session_records sd fs (butlast path @ [''records'']) i d))"
proof -
  let ?root = "butlast path"
  obtain root where pe: "path = root @ [''index.json'']"
    using path unfolding session_catalog_def by (metis append_butlast_last_id)
  have "stable (holds_store sd path st) (remove_session_records sd fs (?root @ [''records'']) i)"
  proof (rule stable_remove_records)
    fix d key b x
    assume d: "good d" "holds_store sd path st d" "hex_key key" and b: "content d ((?root @ [''records'']) @ [json_name key]) = Some b"
      and x: "from_slice_as sd (session_of sd) b = Inr x" "s_id x = i"
    let ?p = "(?root @ [''records'']) @ [json_name key]"
    define d' where "d' = snd (remove_record fs ?p d)"
    note f = remove_record_frame [OF d(1) plain_json [OF d(3)], of "?root @ [''records'']", folded d'_def]
    note hs = d(2) [unfolded holds_store_def Let_def]
    have records: "content d' (record_path ?root (session_key sd s)) = Some (session_text sd s)"
      if s: "(j, s) \<in> set (st_sessions st)" for j s
    proof -
      have c: "content d (record_path ?root (session_key sd s)) = Some (session_text sd s)" "s_id s = j" using hs s by blast+
      have "record_path ?root (session_key sd s) \<noteq> ?p"
      proof
        assume "record_path ?root (session_key sd s) = ?p"
        then have "b = session_text sd s" using b c(1) by simp
        moreover have "reads_session sd s" using sd s by (force simp: list_all_iff)
        ultimately have "x = s" using x(1) by (auto simp: reads_session_def from_slice_as_def)
        then have "(i, s) \<in> set (st_sessions st)" using c(2) x(2) s by simp
        then show False using gone by (metis map_of_eq_None_iff fst_conv image_eqI)
      qed
      then show ?thesis using f c(1) by simp
    qed
    have other: "content d' q = content d q"
      if "q \<in> {client_path ?root, dindex_path ?root, path} \<or> q \<in> range (delivery_path ?root)" for q
      using that f by (auto simp: pe client_path_def dindex_path_def delivery_path_def)
    have "holds_store sd path st d'"
      unfolding holds_store_def Let_def using hs f records other by auto
    then show "good (snd (remove_record fs ?p d)) \<and> holds_store sd path st (snd (remove_record fs ?p d))"
      using f by (simp add: d'_def)
  qed
  moreover have "good d" using h by (simp add: holds_store_def Let_def)
  ultimately show ?thesis using h unfolding stable_def by blast
qed

end

interpretation krabb_reader: file_reader "disk_files jc nonce" disk_content quiet
proof
  show "disk_content d p = Some b" if "plain p" "f_read (disk_files jc nonce) p d = Inr b" for d p b
    using that by (auto simp: disk_files_def disk_content_def plain_def split: option.splits node.splits)
qed

section \<open>A restart after an operation\<close>

lemma change_saved: "change env u w = (Inr (), w') \<Longrightarrow>
    fst w' = u (fst w) \<and> save_store env (u (fst w)) (snd w) = (Inr (), snd w')"
  by (cases w) (auto simp: change_def Let_def split: prod.splits sum.splits)

lemma remove_saved:
  assumes "remove env i w = (Inr (), w')"
  shows "fst w' = (fst w)\<lparr>st_sessions := bremove i (st_sessions (fst w))\<rparr>" "save_store env (fst w') (snd w) = (Inr (), snd w')"
proof -
  have "change env (\<lambda>st. st\<lparr>st_sessions := bremove i (st_sessions st)\<rparr>) w = (Inr (), w')"
    using assms by (auto simp: remove_def fail_def split: option.splits if_splits)
  from change_saved [OF this] show "fst w' = (fst w)\<lparr>st_sessions := bremove i (st_sessions (fst w))\<rparr>"
    "save_store env (fst w') (snd w) = (Inr (), snd w')" by simp_all
qed

lemma remove_deep_steps:
  assumes "remove_deep (daemon_env sd fs path clk ns) i (st, k) = (Inr (), (st', k'))"
    and "st_path st = Some path" and "session_catalog path"
  obtains k1 where "st' = st\<lparr>st_sessions := bremove i (st_sessions st)\<rparr>" "save_path sd fs st' k = (Inr (), k1)"
    "k' = snd (remove_session_records sd fs (butlast path @ [''records'']) i k1)"
proof -
  let ?env = "daemon_env sd fs path clk ns"
  obtain w1 where r: "remove ?env i (st, k) = (Inr (), w1)"
    using assms(1) by (auto simp: remove_deep_def and_then_def split: prod.splits sum.splits)
  note s = remove_saved [OF r]
  have "st_path (fst w1) = Some path" using s(1) assms(2) by simp
  then have "st' = fst w1" "k' = snd (drop_records ?env i (snd w1))"
    using assms(1,3) r by (auto simp: remove_deep_def and_then_def split: prod.splits)
  then show thesis using that [of "snd w1"] s by (simp add: daemon_env_def)
qed

lemma create_saved:
  assumes "create_scheduled env i m w = (Inr (), w')"
  shows "bget (st_sessions (fst w)) i = None" and "save_store env (fst w') (snd w) = (Inr (), snd w')"
    and "fst w' = (fst w)\<lparr>st_sessions := binsert i (new_session i m True (now env 0)) (st_sessions (fst w))\<rparr>"
proof -
  have c: "bget (st_sessions (fst w)) i = None"
      "change env (\<lambda>st. st\<lparr>st_sessions := binsert i (new_session i m True (now env 0)) (st_sessions st)\<rparr>) w = (Inr (), w')"
    using assms by (auto simp: create_scheduled_def create_session_def Let_def fail_def split: if_splits)
  from change_saved [OF c(2)] c(1) show "bget (st_sessions (fst w)) i = None" "save_store env (fst w') (snd w) = (Inr (), snd w')"
    "fst w' = (fst w)\<lparr>st_sessions := binsert i (new_session i m True (now env 0)) (st_sessions (fst w))\<rparr>"
    by simp_all
qed

lemma ensure_schedule_steps:
  assumes "ensure_schedule env i m w = (Inr (), w')"
  obtains "recorded env w (Inr (), w')"
  | oldest w1 where "remove_deep env oldest w = (Inr (), w1)" "create_scheduled env i m w1 = (Inr (), w')"
proof (cases "\<exists>oldest. ensure_schedule env i m w = and_then (remove_deep env oldest) (\<lambda>_. create_scheduled env i m) w")
  case True
  then obtain oldest where o: "and_then (remove_deep env oldest) (\<lambda>_. create_scheduled env i m) w = (Inr (), w')" using assms by metis
  obtain r1 w1 where r: "remove_deep env oldest w = (r1, w1)" by (cases "remove_deep env oldest w")
  then have "r1 = Inr ()" "create_scheduled env i m w1 = (Inr (), w')" using o by (cases r1; simp add: and_then_def)+
  then show thesis using that(2) r by blast
next
  case False
  then have "recorded env w (ensure_schedule env i m w)"
    by (auto simp: ensure_schedule_def Let_def create_scheduled_def recorded_sessions split: option.splits if_splits)
  then show thesis using that(1) assms by simp
qed

text \<open>C6: A successful operation survives a restart: when the disk holds the store before the
  operation, it holds the new store afterwards, so that loading the catalog gives exactly the
  store the daemon had in memory. This holds for every operation of the store, those that delete the record files of a
  session after they saved the store included. Assumed are a store that satisfies the invariant, a quiet disk, serialisers
  whose texts are read back, record keys that tell apart the records of the new store, and delivery records within the size
  limit.\<close>

theorem operation_survives_restart:
  assumes "exec (daemon_env sd (disk_files jc nonce) path clk ns) op (st, k) = (Inr (), (st', k'))"
    and "store_ok st" and "st_path st = Some path" and "session_catalog path"
    and "quiet k" and "load_store sd (disk_files jc nonce) t path k = (Inr st, k)"
    and "key_law sd" and "reads_store sd st'" and "keys_apart sd st'"
    and "\<forall>x \<in> set (st_outbox st' @ st_dead st'). length (delivery_text sd x) \<le> BYTE_LIMIT"
  shows "load_store sd (disk_files jc nonce) t path k' = (Inr st', k')"
proof -
  let ?fs = "disk_files jc nonce"
  let ?env = "daemon_env sd ?fs path clk ns"
  have path: "st_path st' = Some path"
    using keeps_path_exec [of "Some path" "(st, k)" ?env op] assms(1,3) by (simp add: keeps_def)
  have "store_ok st'" using keeps_exec [of "(st, k)" ?env op] assms(1,2) by (simp add: keeps_def)
  then have m: "bmap_ok (st_sessions st')" by (simp add: store_ok_def sessions_ok_def)
  have m0: "bmap_ok (st_sessions st)" using assms(2) by (simp add: store_ok_def sessions_ok_def)
  have rs: "list_all (reads_session sd) (bvalues (st_sessions st'))" using assms(8) by (simp add: reads_store_def)
  have saved: "load_store sd ?fs t path k' = (Inr st', k')" if "quiet k0" "save_path sd ?fs st' k0 = (Inr (), k')" for k0
    by (rule krabb_file.save_load [OF assms(7-9) that(1) assms(4) m path assms(10) that(2)])
  have same: ?thesis if "recorded ?env (st, k) (Inr (), (st', k'))"
  proof -
    from that consider "(st', k') = (st, k)" | "save_path sd ?fs st' k = (Inr (), k')"
      by (auto simp: recorded_def daemon_env_def)
    then show ?thesis using assms(6) saved [OF assms(5)] by cases auto
  qed
  have holds: "krabb_file.holds_store sd path st1 k1"
    if "save_path sd ?fs st1 k = (Inr (), k1)" "st_path st1 = Some path" "bmap_ok (st_sessions st1)" "keys_apart sd st1" for st1 k1
    using krabb_file.save_catalog_holds [OF assms(7,5,4) that(3,4)] that(1,2) assms(4) by (simp add: save_path_def)
  show ?thesis
  proof (cases "removes_records op")
    case False
    then show ?thesis using same recorded_exec [OF False, of ?env "(st, k)"] assms(1) by simp
  next
    case True
    then consider i where "op = OpRemoveDeep i" | i mo where "op = OpEnsureSchedule i mo" by (cases op) auto
    then show ?thesis
    proof cases
      case (1 i)
      then have "remove_deep ?env i (st, k) = (Inr (), (st', k'))" using assms(1) by simp
      then obtain k1 where s: "st' = st\<lparr>st_sessions := bremove i (st_sessions st)\<rparr>" "save_path sd ?fs st' k = (Inr (), k1)"
        "k' = snd (remove_session_records sd ?fs (butlast path @ [''records'']) i k1)"
        by (rule remove_deep_steps [OF _ assms(3,4)])
      have gone: "bget (st_sessions st') i = None" using s(1) m0 by (simp add: bget_remove)
      have "krabb_file.holds_store sd path st' k'"
        unfolding s(3) by (rule krabb_reader.remove_records_holds [OF rs assms(4) gone holds [OF s(2) path m assms(9)]])
      from krabb_file.load_holds [OF assms(7,8,4) m this assms(10) path] assms(4) show ?thesis by (simp add: load_store_def)
    next
      case (2 i mo)
      then have "ensure_schedule ?env i mo (st, k) = (Inr (), (st', k'))" using assms(1) by simp
      then show ?thesis
      proof (cases rule: ensure_schedule_steps)
        case 1
        then show ?thesis by (rule same)
      next
        case (2 oldest w1)
        obtain st1 k2 where w1: "w1 = (st1, k2)" by (cases w1)
        obtain k1 where s: "st1 = st\<lparr>st_sessions := bremove oldest (st_sessions st)\<rparr>" "save_path sd ?fs st1 k = (Inr (), k1)"
          "k2 = snd (remove_session_records sd ?fs (butlast path @ [''records'']) oldest k1)"
          by (rule remove_deep_steps [OF 2(1) [unfolded w1] assms(3,4)])
        note c = create_saved [OF 2(2), unfolded w1 fst_conv snd_conv]
        have sub: "set (bvalues (st_sessions st1)) \<subseteq> set (bvalues (st_sessions st'))"
        proof
          fix v assume v: "v \<in> set (bvalues (st_sessions st1))"
          have "bmap_ok (st_sessions st1)" using m0 by (simp add: s(1) bmap_ok_remove)
          then obtain j where j: "bget (st_sessions st1) j = Some v" by (rule exE [OF bvalues_get [OF _ v]])
          with c(1) have "j \<noteq> i" by auto
          then have "bget (st_sessions st') j = Some v" using j by (simp add: c(3) bget_insert)
          then have "(j, v) \<in> set (st_sessions st')" by (rule map_of_SomeD)
          then have "snd (j, v) \<in> snd ` set (st_sessions st')" by (rule imageI)
          then show "v \<in> set (bvalues (st_sessions st'))" by simp
        qed
        have "st_outbox st' = st_outbox st1" "st_dead st' = st_dead st1" using c(3) by simp_all
        with assms(9) have "keys_apart sd st1"
          unfolding keys_apart_def using inj_on_subset [OF _ image_mono [OF sub], of "record_key sd" "session_text sd"] by auto
        then have "krabb_file.holds_store sd path st1 k1"
          using holds [OF s(2)] assms(3) m0 by (simp add: s(1) bmap_ok_remove)
        then have "quiet k2" using krabb_reader.remove_records_good by (simp add: s(3) krabb_file.holds_store_def Let_def)
        moreover have "save_path sd ?fs st' k2 = (Inr (), k')" using c(2) by (simp add: daemon_env_def)
        ultimately show ?thesis by (rule saved)
      qed
    qed
  qed
qed

text \<open>Serialisers for a store without sessions and for the same store with one new session.\<close>

definition catalog_path :: "string list" where
  "catalog_path = [''home'', ''data'', ''sessions'', ''index.json'']"

definition fresh_store :: "(string, session) bmap \<Rightarrow> store" where
  "fresh_store m = empty_store\<lparr>st_sessions := m, st_path := Some catalog_path\<rparr>"

definition first_session :: session where
  "first_session = new_session ''a'' ''m'' False 7"

definition two_serde :: serde where
  "two_serde = one_serde\<lparr>parse_json := (\<lambda>s. Inr (JObj [(''scheduled'', JStr s)])),
     session_of := (\<lambda>v. Inr first_session), client_of := (\<lambda>v. Inr (client_of_store (fresh_store []))),
     index_of := (\<lambda>v. Inr \<lparr>ix_version = 1,
        ix_sessions = (if json_index v ''scheduled'' = JStr ''0'' then [] else [(''a'', zero_key)])\<rparr>),
     index_text := (\<lambda>x. if ix_sessions x = [] then ''0'' else ''1'')\<rparr>"

theorem operation_survives_restart_witness:
  "\<exists>k k'. exec (daemon_env two_serde (disk_files dot_codec (\<lambda>n. ''1'')) catalog_path (\<lambda>i. 7) 0) (OpCreate ''a'' ''m'')
       (fresh_store [], k) = (Inr (), (fresh_store [(''a'', first_session)], k'))
     \<and> load_store two_serde (disk_files dot_codec (\<lambda>n. ''1'')) 5 catalog_path k'
         = (Inr (fresh_store [(''a'', first_session)]), k')"
proof -
  let ?fs = "disk_files dot_codec (\<lambda>n. ''1'')" and ?st = "fresh_store []" and ?st' = "fresh_store [(''a'', first_session)]"
  let ?env = "daemon_env two_serde ?fs catalog_path (\<lambda>i. 7) 0"
  have key: "key_law two_serde"
    by (simp add: key_law_def two_serde_def one_serde_def zero_key_def hex_key_def is_ascii_hexdigit_def
        is_ascii_digit_def code_def list_all_iff)
  have q: "quiet blank_disk" by (simp add: quiet_def blank_disk_def dir_at_def)
  have path: "session_catalog catalog_path" by (simp add: session_catalog_def catalog_path_def)
  have stp: "st_path (fresh_store m) = Some catalog_path" for m by (simp add: fresh_store_def)
  have reads: "reads_store two_serde ?st" "reads_store two_serde ?st'"
    by (simp_all add: reads_store_def two_serde_def one_serde_def fresh_store_def empty_store_def reads_session_def
        from_slice_as_def client_of_store_def dindex_of_store_def index_of_store_def)
  have apart: "keys_apart two_serde ?st" "keys_apart two_serde ?st'"
    by (simp_all add: keys_apart_def fresh_store_def empty_store_def)
  have fits: "fits two_serde ?st" "fits two_serde ?st'"
    by (simp_all add: fits_def fresh_store_def first_session_def new_session_def empty_store_def two_serde_def
        one_serde_def index_of_store_def valid_def is_ascii_lowercase_def code_def BYTE_LIMIT_def)
  have m: "bmap_ok (st_sessions ?st)" "bmap_ok (st_sessions ?st')"
    by (simp_all add: fresh_store_def bmap_ok_def)
  have small: "\<forall>x \<in> set (st_outbox (fresh_store m) @ st_dead (fresh_store m)). length (delivery_text two_serde x) \<le> BYTE_LIMIT" for m
    by (simp add: fresh_store_def empty_store_def)
  obtain k where k: "save_path two_serde ?fs ?st blank_disk = (Inr (), k)"
    using save_path_succeeds [OF key q path stp m(1) fits(1)] by blast
  have loaded: "load_store two_serde ?fs 5 catalog_path k = (Inr ?st, k)"
    by (rule krabb_file.save_load [OF key reads(1) apart(1) q path m(1) stp small k])
  have "save_catalog two_serde ?fs catalog_path ?st blank_disk = (Inr (), k)"
    using k path by (simp add: save_path_def stp)
  from krabb_file.save_catalog_holds [OF key q path m(1) apart(1) this]
  have qk: "quiet k" by (simp add: krabb_file.holds_store_def Let_def)
  obtain k' where k': "save_path two_serde ?fs ?st' k = (Inr (), k')"
    using save_path_succeeds [OF key qk path stp m(2) fits(2)] by blast
  have ex: "exec ?env (OpCreate ''a'' ''m'') (?st, k) = (Inr (), (?st', k'))"
    using k' by (simp add: create_def create_session_def change_def Let_def daemon_env_def fresh_store_def
        empty_store_def check_defs first_session_def)
  have ok: "store_ok ?st" using store_ok_empty by (simp add: store_ok_def fresh_store_def empty_store_def)
  from operation_survives_restart [OF ex ok stp path qk loaded key reads(2) apart(2) small] ex
  show ?thesis by auto
qed

end
