(* ===== verification/Approval.thy ===== *)
theory Approval
  imports Json
begin

text \<open>
  \<open>krabb-runtime/src/approval.rs\<close>: the gate that holds tool calls until a person approves or denies
  them. \<open>Gate\<close> is its state with a log of the answers that were sent to waiting turns. Outside the
  model, as functions of the environment: the clock, the random source, HMAC-SHA256, the
  serialiser of a target, and whether the turn that waits for an id still listens.
\<close>

section \<open>Hexadecimal text\<close>

definition hex_digit :: "nat \<Rightarrow> char" where
  "hex_digit n = char_of (if n < 10 then 48 + n else 87 + n)"

definition hex :: "string \<Rightarrow> string" where
  "hex bytes = concat (map (\<lambda>c. [hex_digit (code c div 16), hex_digit (code c mod 16)]) bytes)"

text \<open>\<open>hex_digest\<close> of \<open>krabb-runtime/src/lib.rs\<close>, by shifts and masks of each byte.\<close>

definition hex_digest :: "string \<Rightarrow> string" where
  "hex_digest bytes = fold (\<lambda>c encoded.
     (let b = (of_nat (code c) :: 8 word) in
      encoded @ [''0123456789abcdef'' ! unat (drop_bit 4 b)] @ [''0123456789abcdef'' ! unat (and b 15)])) bytes []"

definition hex_value :: "char \<Rightarrow> nat" where
  "hex_value c = (if is_ascii_digit c then code c - 48
                  else if 97 \<le> code c then code c - 87 else code c - 55)"

text \<open>\<open>u8::from_str_radix(..., 16)\<close> of every pair of digits.\<close>

fun unhex :: "string \<Rightarrow> string" where
  "unhex (a # b # cs) = char_of (16 * hex_value a + hex_value b) # unhex cs"
| "unhex _ = []"

lemma code_less: "code c < 256"
  by (simp add: code_def of_char_def)

lemma char_of_code [simp]: "char_of (code c) = c"
  by (simp add: code_def)

lemma hex_value_digit [simp]: "n < 16 \<Longrightarrow> hex_value (hex_digit n) = n"
  by (auto simp: hex_value_def hex_digit_def is_ascii_digit_def)

lemma hex_digit_hex [simp]: "n < 16 \<Longrightarrow> is_ascii_hexdigit (hex_digit n)"
  by (auto simp: hex_digit_def is_ascii_hexdigit_def is_ascii_digit_def)

lemma length_hex [simp]: "length (hex bs) = 2 * length bs"
  by (induction bs) (auto simp: hex_def)

lemma hex_hexdigits: "list_all is_ascii_hexdigit (hex bs)"
  using code_less by (auto simp: hex_def list_all_iff less_mult_imp_div_less)

lemma unhex_hex [simp]: "unhex (hex bs) = bs"
proof (induction bs)
  case (Cons c bs)
  have "16 * (code c div 16) + code c mod 16 = code c" by simp
  with Cons code_less [of c] show ?case
    by (simp add: hex_def less_mult_imp_div_less)
qed (simp add: hex_def)

section \<open>The gate\<close>

definition APPROVAL_LIMIT :: nat where "APPROVAL_LIMIT = 32"
definition LIFE :: u64 where "LIFE = 300"
definition ID_BYTES :: nat where "ID_BYTES = 12"
definition MAC_BYTES :: nat where "MAC_BYTES = 16"
definition TARGET_LIMIT :: nat where "TARGET_LIMIT = 64 * 1024"

record target =
  ta_channel :: string
  ta_chat :: string
  ta_thread :: "string option"
  ta_session :: string
  ta_tool :: string
  ta_args :: json

record pending =
  pe_target :: target
  pe_expires :: u64

record view =
  vi_id :: string
  vi_target :: target
  vi_expires :: u64

record gate =
  g_key :: string
  g_pending :: "(string, pending) bmap"
  g_answers :: "(string \<times> bool) list"

record challenge =
  ch_approve :: string
  ch_deny :: string

record approval_env =
  a_now :: "io_error + u64"
  a_random :: "io_error + string"
  a_hmac :: "string \<Rightarrow> string \<Rightarrow> string"
  a_target_text :: "target \<Rightarrow> string"
  a_listening :: "string \<Rightarrow> bool"

definition new_gate :: "io_error + string \<Rightarrow> io_error + gate" where
  "new_gate key = (case key of Inl e \<Rightarrow> Inl e
     | Inr k \<Rightarrow> Inr \<lparr>g_key = k, g_pending = [], g_answers = []\<rparr>)"

definition be_bytes :: "u64 \<Rightarrow> string" where
  "be_bytes x = map (\<lambda>i. char_of (unat x div 256 ^ i mod 256)) (rev [0..<8])"

definition signature :: "approval_env \<Rightarrow> string \<Rightarrow> string \<Rightarrow> pending \<Rightarrow> char \<Rightarrow> string" where
  "signature env key i p action =
     take MAC_BYTES (a_hmac env key (''krabb-approval-v1'' @ [CHR 0x00] @ i @ [action]
       @ be_bytes (pe_expires p) @ a_target_text env (pe_target p)))"

definition token :: "approval_env \<Rightarrow> string \<Rightarrow> string \<Rightarrow> pending \<Rightarrow> char \<Rightarrow> string" where
  "token env key i p action = i @ ''.'' @ hex (signature env key i p action) @ ''.'' @ [action]"

definition decode :: "string \<Rightarrow> (string \<times> char \<times> string) option" where
  "decode v =
     (if length v \<noteq> ID_BYTES * 2 + 1 + MAC_BYTES * 2 + 2 \<or> \<not> list_all (\<lambda>c. code c < 128) v then None
      else (case strip_prefix ''.'' (drop (ID_BYTES * 2) v) of
              None \<Rightarrow> None
            | Some middle \<Rightarrow>
                (case split_once CHR ''.'' middle of
                   None \<Rightarrow> None
                 | Some (sig, action) \<Rightarrow>
                     if \<not> list_all is_ascii_hexdigit (take (ID_BYTES * 2) v) \<or> length sig \<noteq> MAC_BYTES * 2
                        \<or> \<not> list_all is_ascii_hexdigit sig then None
                     else if action = ''a'' then Some (take (ID_BYTES * 2) v, CHR ''a'', unhex sig)
                     else if action = ''d'' then Some (take (ID_BYTES * 2) v, CHR ''d'', unhex sig)
                     else None)))"

definition unexpired :: "u64 \<Rightarrow> (string, pending) bmap \<Rightarrow> (string, pending) bmap" where
  "unexpired t m = bretain (\<lambda>i p. t < pe_expires p) m"

definition issue :: "approval_env \<Rightarrow> target \<Rightarrow> gate \<Rightarrow> (io_error + challenge) \<times> gate" where
  "issue env ta g =
     (case a_now env of
        Inl e \<Rightarrow> (Inl e, g)
      | Inr t \<Rightarrow>
          if TARGET_LIMIT < length (a_target_text env ta)
          then (Inl (IoError InvalidData ''Approval request exceeds the size limit.''), g)
          else
            (let g1 = g\<lparr>g_pending := unexpired t (g_pending g)\<rparr> in
             if APPROVAL_LIMIT \<le> length (g_pending g1)
             then (Inl (IoError WouldBlock ''Approval capacity is full.''), g1)
             else (case a_random env of
                     Inl e \<Rightarrow> (Inl e, g1)
                   | Inr nonce \<Rightarrow>
                       (let i = hex nonce; p = \<lparr>pe_target = ta, pe_expires = sat_add t LIFE\<rparr> in
                        (Inr \<lparr>ch_approve = token env (g_key g1) i p CHR ''a'',
                              ch_deny = token env (g_key g1) i p CHR ''d''\<rparr>,
                         g1\<lparr>g_pending := binsert i p (g_pending g1)\<rparr>)))))"

text \<open>\<open>pending.answer.send(approved).ok()?\<close>: the entry is gone, and the answer counts when the
  waiting turn still listens.\<close>

definition answer :: "approval_env \<Rightarrow> string \<Rightarrow> bool \<Rightarrow> gate \<Rightarrow> bool option \<times> gate" where
  "answer env i approved g =
     (let g1 = g\<lparr>g_pending := bremove i (g_pending g)\<rparr> in
      if a_listening env i then (Some approved, g1\<lparr>g_answers := g_answers g1 @ [(i, approved)]\<rparr>)
      else (None, g1))"

definition resolve_at :: "approval_env \<Rightarrow> string \<Rightarrow> string \<Rightarrow> string \<Rightarrow> string option \<Rightarrow> bool \<Rightarrow> u64 \<Rightarrow> gate \<Rightarrow>
    bool option \<times> gate" where
  "resolve_at env tok channel chat thread authorized t g =
     (if \<not> authorized then (None, g)
      else (case decode tok of
              None \<Rightarrow> (None, g)
            | Some (i, action, provided) \<Rightarrow>
                (case bget (g_pending g) i of
                   None \<Rightarrow> (None, g)
                 | Some p \<Rightarrow>
                     if pe_expires p \<le> t \<or> ta_channel (pe_target p) \<noteq> channel \<or> ta_chat (pe_target p) \<noteq> chat
                        \<or> ta_channel (pe_target p) = ''telegram'' \<and> ta_thread (pe_target p) \<noteq> thread
                     then (None, g)
                     else if signature env (g_key g) i p action \<noteq> provided then (None, g)
                     else answer env i (action = CHR ''a'') g)))"

definition resolve :: "approval_env \<Rightarrow> string \<Rightarrow> string \<Rightarrow> string \<Rightarrow> string option \<Rightarrow> bool \<Rightarrow> gate \<Rightarrow>
    bool option \<times> gate" where
  "resolve env tok channel chat thread authorized g =
     (case a_now env of Inl e \<Rightarrow> (None, g) | Inr t \<Rightarrow> resolve_at env tok channel chat thread authorized t g)"

definition cancel_approval :: "string \<Rightarrow> gate \<Rightarrow> gate" where
  "cancel_approval tok g =
     (case decode tok of None \<Rightarrow> g | Some (i, a, s) \<Rightarrow> g\<lparr>g_pending := bremove i (g_pending g)\<rparr>)"

definition has_pending :: "gate \<Rightarrow> bool" where
  "has_pending g \<longleftrightarrow> g_pending g \<noteq> []"

definition list_pending :: "approval_env \<Rightarrow> gate \<Rightarrow> (io_error + view list) \<times> gate" where
  "list_pending env g =
     (case a_now env of
        Inl e \<Rightarrow> (Inl e, g)
      | Inr t \<Rightarrow>
          (let g1 = g\<lparr>g_pending := unexpired t (g_pending g)\<rparr>
           in (Inr (map (\<lambda>(i, p). \<lparr>vi_id = i, vi_target = pe_target p, vi_expires = pe_expires p\<rparr>) (g_pending g1)), g1)))"

definition resolve_local :: "approval_env \<Rightarrow> string \<Rightarrow> bool \<Rightarrow> gate \<Rightarrow> bool option \<times> gate" where
  "resolve_local env i approved g =
     (if length i \<noteq> ID_BYTES * 2 \<or> \<not> list_all is_ascii_hexdigit i then (None, g)
      else (case a_now env of
              Inl e \<Rightarrow> (None, g)
            | Inr t \<Rightarrow>
                (case bget (g_pending g) i of
                   None \<Rightarrow> (None, g)
                 | Some p \<Rightarrow>
                     if pe_expires p \<le> t then (None, g\<lparr>g_pending := bremove i (g_pending g)\<rparr>)
                     else answer env i approved g)))"

section \<open>Tokens\<close>

text \<open>The environment in which tokens are made: HMAC gives at least 16 bytes.\<close>

definition mac_law :: "approval_env \<Rightarrow> bool" where
  "mac_law env \<longleftrightarrow> (\<forall>k v. MAC_BYTES \<le> length (a_hmac env k v))"

lemma hexdigit_ascii: "is_ascii_hexdigit c \<Longrightarrow> code c < 128 \<and> c \<noteq> CHR ''.''"
  by (auto simp: is_ascii_hexdigit_def is_ascii_digit_def code_def)

lemma split_once_dot: "CHR ''.'' \<notin> set a \<Longrightarrow> split_once CHR ''.'' (a @ CHR ''.'' # b) = Some (a, b)"
  by (simp add: split_once_Some)

lemma decode_parts:
  assumes "length i = ID_BYTES * 2" and "list_all is_ascii_hexdigit i" and "length sig = MAC_BYTES"
    and "a = CHR ''a'' \<or> a = CHR ''d''"
  shows "decode (i @ ''.'' @ hex sig @ ''.'' @ [a]) = Some (i, a, sig)"
proof -
  let ?v = "i @ ''.'' @ hex sig @ ''.'' @ [a]"
  have "CHR ''.'' \<notin> set (hex sig)"
    using hex_hexdigits [of sig] hexdigit_ascii by (auto simp: list_all_iff)
  then have mid: "split_once CHR ''.'' (hex sig @ ''.'' @ [a]) = Some (hex sig, [a])"
    by (simp add: split_once_dot)
  have "list_all (\<lambda>c. code c < 128) ?v"
    using assms(2,4) hex_hexdigits [of sig] hexdigit_ascii by (auto simp: list_all_iff code_def)
  moreover have "length ?v = ID_BYTES * 2 + 1 + MAC_BYTES * 2 + 2" using assms(1,3) by simp
  moreover have "drop (ID_BYTES * 2) ?v = ''.'' @ hex sig @ ''.'' @ [a]" "take (ID_BYTES * 2) ?v = i"
    using assms(1) by simp_all
  moreover have "strip_prefix ''.'' (''.'' @ hex sig @ ''.'' @ [a]) = Some (hex sig @ ''.'' @ [a])"
    by (rule strip_prefix_append)
  ultimately show ?thesis
    unfolding decode_def using mid assms hex_hexdigits [of sig] by auto
qed

lemma signature_length: "mac_law env \<Longrightarrow> length (signature env k i p a) = MAC_BYTES"
  unfolding signature_def mac_law_def length_take by (rule min_absorb2) blast

lemma decode_token:
  assumes "mac_law env" and "length i = ID_BYTES * 2" and "list_all is_ascii_hexdigit i"
    and "a = CHR ''a'' \<or> a = CHR ''d''"
  shows "decode (token env k i p a) = Some (i, a, signature env k i p a)"
  unfolding token_def by (rule decode_parts [OF assms(2,3) signature_length [OF assms(1)] assms(4)])

text \<open>The two hexadecimal printers of the program agree.\<close>

lemma hex_digit_nth: "n < 16 \<Longrightarrow> ''0123456789abcdef'' ! n = hex_digit n"
proof -
  assume "n < 16"
  then have "n \<in> set [0..<16]" by simp
  moreover have "list_all (\<lambda>n. ''0123456789abcdef'' ! n = hex_digit n) [0..<16]" by code_simp
  ultimately show ?thesis by (simp only: list_all_iff)
qed

lemma low_nibble: "unat (and (w :: 8 word) 15) = unat w mod 16"
proof -
  have "and w 15 = take_bit 4 w" by (simp add: take_bit_eq_mask mask_eq_exp_minus_1)
  then show ?thesis by (simp only: unsigned_take_bit_eq) (simp add: take_bit_eq_mod)
qed

lemma high_nibble: "unat (drop_bit 4 (w :: 8 word)) = unat w div 16"
  unfolding unat_drop_bit_eq by (simp add: drop_bit_eq_div)

lemma unat_code: "unat (of_nat (code c) :: 8 word) = code c"
  using code_less [of c] by (simp add: unsigned_of_nat take_bit_nat_eq_self)

lemma hex_digest_nibbles:
  "''0123456789abcdef'' ! unat (drop_bit 4 (of_nat (code c) :: 8 word)) = hex_digit (code c div 16)"
  "''0123456789abcdef'' ! unat (and (of_nat (code c) :: 8 word) 15) = hex_digit (code c mod 16)"
  unfolding low_nibble high_nibble unat_code
  using code_less [of c] by (simp_all add: hex_digit_nth less_mult_imp_div_less del: nth_Cons_numeral)

lemma hex_digest_hex: "hex_digest bs = hex bs"
proof -
  have "fold (\<lambda>c encoded. (let b = (of_nat (code c) :: 8 word) in
      encoded @ [''0123456789abcdef'' ! unat (drop_bit 4 b)] @ [''0123456789abcdef'' ! unat (and b 15)])) bs acc
      = acc @ hex bs" for acc
    by (induction bs arbitrary: acc) (simp_all only: fold_Cons fold_Nil comp_def Let_def hex_digest_nibbles hex_def
          list.map concat.simps append_assoc append_Cons append_Nil append_Nil2 id_apply)
  then show ?thesis by (simp only: hex_digest_def append_Nil)
qed

section \<open>What the gate promises\<close>

lemma resolve_at_cases:
  assumes "resolve_at env tok channel chat thread authorized t g = (Some b, g')"
  obtains i action p where "decode tok = Some (i, action, signature env (g_key g) i p action)"
    "bget (g_pending g) i = Some p" "t < pe_expires p" "ta_channel (pe_target p) = channel"
    "ta_chat (pe_target p) = chat" "channel = ''telegram'' \<longrightarrow> ta_thread (pe_target p) = thread"
    authorized "answer env i (action = CHR ''a'') g = (Some b, g')"
proof -
  have au: authorized using assms by (simp add: resolve_at_def split: if_splits)
  obtain i action provided where d: "decode tok = Some (i, action, provided)"
    using assms au by (cases "decode tok") (auto simp: resolve_at_def)
  obtain p where p: "bget (g_pending g) i = Some p"
    using assms au d by (cases "bget (g_pending g) i") (auto simp: resolve_at_def)
  show ?thesis
    by (rule that [of i action p])
      (use assms au d p in \<open>auto simp only: resolve_at_def option.case prod.case not_le fst_conv simp_thms
         prod.inject option.distinct split: if_splits\<close>)
qed

lemma token_resolves:
  assumes "mac_law env" and "length i = ID_BYTES * 2" and "list_all is_ascii_hexdigit i"
    and "a = CHR ''a'' \<or> a = CHR ''d''" and "bget (g_pending g) i = Some p" and "t < pe_expires p"
  shows "resolve_at env (token env (g_key g) i p a) (ta_channel (pe_target p)) (ta_chat (pe_target p))
    (ta_thread (pe_target p)) True t g = answer env i (a = CHR ''a'') g"
proof -
  have "(pe_expires p \<le> t) = False" using assms(6) by (simp only: not_le [symmetric] not_not simp_thms)
  then show ?thesis using decode_token [OF assms(1-4), of "g_key g" p] assms(5)
    by (simp only: resolve_at_def option.case prod.case simp_thms if_False not_True_eq_False HOL.simp_thms)
qed

section \<open>A concrete request\<close>

text \<open>One shell call waiting for approval from a chat: the values the witnesses run on.\<close>

definition sample_target :: target where
  "sample_target = \<lparr>ta_channel = ''telegram'', ta_chat = ''7'', ta_thread = Some ''3'', ta_session = ''s'',
     ta_tool = ''shell'', ta_args = JNull\<rparr>"

definition sample_approval_env :: approval_env where
  "sample_approval_env = \<lparr>a_now = Inr 1000, a_random = Inr ''0123456789ab'',
     a_hmac = (\<lambda>k v. replicate 16 CHR ''m'' @ k), a_target_text = (\<lambda>t. ta_chat t), a_listening = (\<lambda>i. True)\<rparr>"

definition sample_gate :: gate where
  "sample_gate = \<lparr>g_key = ''k'', g_pending = [(''old'', \<lparr>pe_target = sample_target, pe_expires = 900\<rparr>)], g_answers = []\<rparr>"

definition sample_pending :: pending where
  "sample_pending = \<lparr>pe_target = sample_target, pe_expires = 1300\<rparr>"

definition sample_id :: string where "sample_id = hex ''0123456789ab''"

definition sample_challenge :: challenge where
  "sample_challenge = \<lparr>ch_approve = token sample_approval_env ''k'' sample_id sample_pending CHR ''a'',
     ch_deny = token sample_approval_env ''k'' sample_id sample_pending CHR ''d''\<rparr>"

definition sample_issued :: gate where
  "sample_issued = \<lparr>g_key = ''k'', g_pending = [(sample_id, sample_pending)], g_answers = []\<rparr>"

lemma sample_mac: "mac_law sample_approval_env"
  by (simp add: mac_law_def sample_approval_env_def MAC_BYTES_def numeral_eq_Suc)

lemma sample_id_ok: "length sample_id = ID_BYTES * 2" "list_all is_ascii_hexdigit sample_id"
  by (simp_all add: sample_id_def ID_BYTES_def hex_hexdigits)

lemma sample_expiry: "sat_add (1000 :: u64) LIFE = 1300"
  by (simp add: sat_add_def LIFE_def)

lemma sample_env_values: "a_now sample_approval_env = Inr 1000" "a_random sample_approval_env = Inr ''0123456789ab''"
  "a_listening sample_approval_env i"
  by (simp_all add: sample_approval_env_def)

lemma sample_issue: "issue sample_approval_env sample_target sample_gate = (Inr sample_challenge, sample_issued)"
proof -
  have "unexpired 1000 (g_pending sample_gate) = []" "g_key sample_gate = ''k''"
    "sample_gate\<lparr>g_pending := [(sample_id, sample_pending)]\<rparr> = sample_issued"
    by (simp_all add: unexpired_def bretain_def sample_gate_def sample_issued_def)
  moreover have "\<not> TARGET_LIMIT < length (a_target_text sample_approval_env sample_target)"
    by (simp add: sample_approval_env_def sample_target_def TARGET_LIMIT_def)
  moreover have "\<lparr>pe_target = sample_target, pe_expires = sat_add 1000 LIFE\<rparr> = sample_pending"
    by (simp add: sample_pending_def sample_expiry)
  ultimately show ?thesis
    by (simp add: issue_def sample_env_values sample_id_def [symmetric] APPROVAL_LIMIT_def Let_def sample_challenge_def)
qed

lemma sample_resolve:
  "resolve_at sample_approval_env (ch_approve sample_challenge) ''telegram'' ''7'' (Some ''3'') True 1200 sample_issued
     = (Some True, sample_issued\<lparr>g_pending := [], g_answers := [(sample_id, True)]\<rparr>)"
proof -
  have g: "g_key sample_issued = ''k''" "g_pending sample_issued = [(sample_id, sample_pending)]"
    "g_answers sample_issued = []" "a_listening sample_approval_env sample_id"
    by (simp_all add: sample_issued_def sample_approval_env_def)
  have p: "ta_channel (pe_target sample_pending) = ''telegram''" "ta_chat (pe_target sample_pending) = ''7''"
    "ta_thread (pe_target sample_pending) = Some ''3''" "1200 < pe_expires sample_pending"
    by (simp_all add: sample_pending_def sample_target_def)
  have "resolve_at sample_approval_env (token sample_approval_env (g_key sample_issued) sample_id sample_pending CHR ''a'')
      (ta_channel (pe_target sample_pending)) (ta_chat (pe_target sample_pending)) (ta_thread (pe_target sample_pending))
      True 1200 sample_issued = answer sample_approval_env sample_id (CHR ''a'' = CHR ''a'') sample_issued"
    by (rule token_resolves [OF sample_mac sample_id_ok]) (simp_all add: g p)
  moreover have "bremove sample_id [(sample_id, sample_pending)] = []" by (simp add: bremove_def)
  ultimately show ?thesis by (simp add: sample_challenge_def g p answer_def Let_def)
qed

text \<open>C25: An answer counts only when everything matches: a resolution that succeeds came from an
  authorized person, in the channel and chat of the request (and its thread on Telegram), before
  the request expired, with a token whose signature is the gate's own for that request and that
  action. The answer is recorded once, and the request is gone: no later resolution of its id,
  by any token or locally, has an effect.\<close>

theorem resolve_only_matching:
  assumes "resolve_at env tok channel chat thread authorized t g = (Some b, g')"
  shows "authorized
    \<and> (\<exists>i action p. decode tok = Some (i, action, signature env (g_key g) i p action)
         \<and> bget (g_pending g) i = Some p \<and> t < pe_expires p
         \<and> ta_channel (pe_target p) = channel \<and> ta_chat (pe_target p) = chat
         \<and> (channel = ''telegram'' \<longrightarrow> ta_thread (pe_target p) = thread)
         \<and> b = (action = CHR ''a'') \<and> g_answers g' = g_answers g @ [(i, b)]
         \<and> bget (g_pending g') = (bget (g_pending g))(i := None)
         \<and> (\<forall>env2 tok2 a2 s2 c2 ch2 th2 au2 t2. decode tok2 = Some (i, a2, s2) \<longrightarrow>
              resolve_at env2 tok2 c2 ch2 th2 au2 t2 g' = (None, g'))
         \<and> (\<forall>env2 b2. resolve_local env2 i b2 g' = (None, g')))"
proof -
  from assms obtain i action p where d: "decode tok = Some (i, action, signature env (g_key g) i p action)"
    and p: "bget (g_pending g) i = Some p" "t < pe_expires p" "ta_channel (pe_target p) = channel"
      "ta_chat (pe_target p) = chat" "channel = ''telegram'' \<longrightarrow> ta_thread (pe_target p) = thread"
    and au: authorized and ans: "answer env i (action = CHR ''a'') g = (Some b, g')"
    by (rule resolve_at_cases)
  from ans have g': "g' = g\<lparr>g_pending := bremove i (g_pending g), g_answers := g_answers g @ [(i, b)]\<rparr>"
    and b: "b = (action = CHR ''a'')"
    by (auto simp: answer_def Let_def split: if_splits)
  have none: "bget (g_pending g') i = None" by (simp add: g' bget_remove)
  have "resolve_at env2 tok2 c2 ch2 th2 au2 t2 g' = (None, g')" if "decode tok2 = Some (i, a2, s2)" for env2 tok2 a2 s2 c2 ch2 th2 au2 t2
    using that none by (simp add: resolve_at_def)
  moreover have "resolve_local env2 i b2 g' = (None, g')" for env2 b2
    using none by (simp add: resolve_local_def split: sum.splits)
  ultimately show ?thesis using d p au b by (auto simp: g' bget_remove)
qed

lemma resolve_only_matching_witness:
  "\<exists>i action p. decode (ch_approve sample_challenge) = Some (i, action, signature sample_approval_env ''k'' i p action)
     \<and> bget (g_pending sample_issued) i = Some p \<and> True = (action = CHR ''a'')"
  using resolve_only_matching [OF sample_resolve] by (auto simp: sample_issued_def)

lemma length_binsert_le: "length (binsert k v m) \<le> Suc (length m)"
  by (induction k v m rule: binsert.induct) auto

lemma issue_result:
  assumes "issue env ta g = (Inr ch, g')" and "a_random env = Inr nonce" and "a_now env = Inr t0"
  defines "p \<equiv> \<lparr>pe_target = ta, pe_expires = sat_add t0 LIFE\<rparr>"
  shows "length (unexpired t0 (g_pending g)) < APPROVAL_LIMIT"
    and "g' = g\<lparr>g_pending := binsert (hex nonce) p (unexpired t0 (g_pending g))\<rparr>"
    and "ch = \<lparr>ch_approve = token env (g_key g) (hex nonce) p CHR ''a'',
               ch_deny = token env (g_key g) (hex nonce) p CHR ''d''\<rparr>"
  using assms(1) unfolding issue_def assms(2,3) p_def
  by (simp_all add: Let_def not_le split: if_splits)

text \<open>Issuing a request keeps the gate bounded and makes both of its tokens work: expired requests
  are dropped, at most 32 are pending afterwards, and as long as the request has not expired and
  the turn listens, the approve token resolves it to approval and the deny token to refusal.\<close>

theorem issued_tokens_resolve:
  assumes "issue env ta g = (Inr ch, g')" and "mac_law env" and "a_random env = Inr nonce"
    and "length nonce = ID_BYTES" and "bmap_ok (g_pending g)" and "a_now env = Inr t0"
    and "a_listening env (hex nonce)" and "t < sat_add t0 LIFE"
  shows "length (g_pending g') \<le> 32
    \<and> (\<forall>i p. bget (g_pending g') i = Some p \<and> i \<noteq> hex nonce \<longrightarrow> bget (g_pending g) i = Some p \<and> t0 < pe_expires p)
    \<and> fst (resolve_at env (ch_approve ch) (ta_channel ta) (ta_chat ta) (ta_thread ta) True t g') = Some True
    \<and> fst (resolve_at env (ch_deny ch) (ta_channel ta) (ta_chat ta) (ta_thread ta) True t g') = Some False"
proof -
  let ?i = "hex nonce" and ?p = "\<lparr>pe_target = ta, pe_expires = sat_add t0 LIFE\<rparr>"
  let ?m = "unexpired t0 (g_pending g)"
  note r = issue_result [OF assms(1,3,6)]
  have g': "g' = g\<lparr>g_pending := binsert ?i ?p ?m\<rparr>"
    and ch: "ch = \<lparr>ch_approve = token env (g_key g) ?i ?p CHR ''a'', ch_deny = token env (g_key g) ?i ?p CHR ''d''\<rparr>"
    using r by simp_all
  have "length (g_pending g') \<le> 32"
    using r(1) length_binsert_le [of ?i ?p ?m] by (simp add: g' APPROVAL_LIMIT_def)
  moreover have "bget (g_pending g) i = Some p \<and> t0 < pe_expires p" if "bget (g_pending g') i = Some p" "i \<noteq> ?i" for i p
  proof -
    have "bget ?m i = Some p" using that by (simp add: g' bget_insert)
    then have "(i, p) \<in> set ?m" by (rule map_of_SomeD)
    then show ?thesis using assms(5) by (auto simp: unexpired_def bretain_def bmap_ok_distinct)
  qed
  moreover
  have i: "length ?i = ID_BYTES * 2" "list_all is_ascii_hexdigit ?i"
    using assms(4) hex_hexdigits by simp_all
  have "fst (resolve_at env (token env (g_key g) ?i ?p a) (ta_channel ta) (ta_chat ta) (ta_thread ta) True t g')
      = Some (a = CHR ''a'')" if "a = CHR ''a'' \<or> a = CHR ''d''" for a
    using token_resolves [OF assms(2) i that, of g' ?p t] assms(7,8)
    by (simp add: g' bget_insert answer_def Let_def)
  from this [of "CHR ''a''"] this [of "CHR ''d''"]
  have "fst (resolve_at env (ch_approve ch) (ta_channel ta) (ta_chat ta) (ta_thread ta) True t g') = Some True"
    "fst (resolve_at env (ch_deny ch) (ta_channel ta) (ta_chat ta) (ta_thread ta) True t g') = Some False"
    by (simp_all add: ch)
  ultimately show ?thesis by blast
qed

lemma issued_tokens_resolve_witness:
  "fst (resolve_at sample_approval_env (ch_deny sample_challenge) ''telegram'' ''7'' (Some ''3'') True 1200 sample_issued)
     = Some False"
proof -
  have l: "length ''0123456789ab'' = ID_BYTES" by (simp add: ID_BYTES_def)
  have ok: "bmap_ok (g_pending sample_gate)" by (simp add: sample_gate_def bmap_ok_def)
  have before: "(1200 :: u64) < sat_add 1000 LIFE" by (simp add: sample_expiry)
  from issued_tokens_resolve [OF sample_issue sample_mac sample_env_values(2) l ok sample_env_values(1,3) before]
  have "fst (resolve_at sample_approval_env (ch_deny sample_challenge) (ta_channel sample_target)
      (ta_chat sample_target) (ta_thread sample_target) True 1200 sample_issued) = Some False"
    by (elim conjE)
  then show ?thesis by (simp add: sample_target_def)
qed

end
