(* ===== verification/Cron.thy ===== *)
theory Cron
  imports Core_Types
begin

text \<open>
  \<open>krabb-plugins/scheduler/src/cron.rs\<close>: cron expressions, time zones, and the search for the
  next occurrence. The calendar of a zone is the package \<open>jiff\<close>, a record of functions; a local
  time is its second of the day, its date and its weekday, so that its minute is below 60.
\<close>

section \<open>Local time\<close>

record local_time =
  lt_seconds :: nat
  lt_day :: nat
  lt_month :: nat
  lt_weekday :: nat

definition lt_minute :: "local_time \<Rightarrow> nat" where
  "lt_minute f = lt_seconds f div 60 mod 60"

definition lt_hour :: "local_time \<Rightarrow> nat" where
  "lt_hour f = lt_seconds f div 3600"

text \<open>\<open>TimeZone::UTC\<close>, \<open>Offset::from_seconds\<close> with \<open>TimeZone::fixed\<close>, \<open>TimeZone::get\<close>, and
  \<open>Timestamp::from_second\<close> with \<open>to_zoned\<close>; an error is its text.\<close>

record 'z jiff =
  tz_utc :: 'z
  tz_fixed :: "int \<Rightarrow> string + 'z"
  tz_get :: "string \<Rightarrow> string + 'z"
  tz_local :: "'z \<Rightarrow> nat \<Rightarrow> string + local_time"

section \<open>Fields\<close>

definition U32_MAX :: nat where "U32_MAX = 2 ^ 32 - 1"

text \<open>\<open>(start..=end).step_by(step)\<close> for \<open>start <= end\<close>.\<close>

definition stepped :: "nat \<Rightarrow> nat \<Rightarrow> nat \<Rightarrow> nat list" where
  "stepped start stop step = map (\<lambda>k. start + k * step) [0..<(stop - start) div step + 1]"

definition any_base :: "string \<Rightarrow> bool" where
  "any_base base \<longleftrightarrow> base = ''*'' \<or> base = ''?''"

text \<open>The bounds and the step of one item of a field.\<close>

definition item_range :: "string \<Rightarrow> nat \<Rightarrow> nat \<Rightarrow> core_error + (nat \<times> nat \<times> nat)" where
  "item_range item minimum maximum =
     (let (base, step) = (case split_once CHR ''/'' item of
            None \<Rightarrow> (item, 1)
          | Some (b, s) \<Rightarrow> (b, case parse_unsigned U32_MAX s of None \<Rightarrow> 0 | Some n \<Rightarrow> n))
      in if step = 0 then Inl (Denied ''Cron step must be positive.'')
         else if any_base base then Inr (minimum, maximum, step)
         else (case split_once CHR ''-'' base of
                 Some (a, b) \<Rightarrow>
                   (case parse_unsigned U32_MAX a of
                      None \<Rightarrow> Inl (Denied ''Cron range endpoint is invalid.'')
                    | Some i \<Rightarrow>
                        (case parse_unsigned U32_MAX b of
                           None \<Rightarrow> Inl (Denied ''Cron range endpoint is invalid.'')
                         | Some j \<Rightarrow> Inr (i, j, step)))
               | None \<Rightarrow>
                   (let point = (case parse_unsigned U32_MAX base of None \<Rightarrow> U32_MAX | Some n \<Rightarrow> n)
                    in Inr (point, if CHR ''/'' \<in> set item then maximum else point, step))))"

definition parse_item :: "nat \<Rightarrow> nat \<Rightarrow> string \<Rightarrow> core_error + nat list" where
  "parse_item minimum maximum item =
     (case item_range item minimum maximum of
        Inl e \<Rightarrow> Inl e
      | Inr (start, stop, step) \<Rightarrow>
          if start < minimum \<or> maximum < stop \<or> stop < start
          then Inl (Denied ''Cron field is outside its valid range.'')
          else Inr (stepped start stop step))"

fun parse_items :: "nat \<Rightarrow> nat \<Rightarrow> string list \<Rightarrow> core_error + nat list" where
  "parse_items minimum maximum [] = Inr []"
| "parse_items minimum maximum (item # items) =
     (case parse_item minimum maximum item of
        Inl e \<Rightarrow> Inl e
      | Inr vs \<Rightarrow> (case parse_items minimum maximum items of Inl e \<Rightarrow> Inl e | Inr ws \<Rightarrow> Inr (vs @ ws)))"

definition parse_field :: "string \<Rightarrow> nat \<Rightarrow> nat \<Rightarrow> core_error + nat list" where
  "parse_field value minimum maximum =
     (case parse_items minimum maximum (split_on CHR '','' value) of
        Inl e \<Rightarrow> Inl e
      | Inr vs \<Rightarrow> if vs = [] then Inl (Denied ''Cron field cannot be empty.'') else Inr (remdups_adj (sort vs)))"

definition wildcard_field :: "string \<Rightarrow> bool" where
  "wildcard_field value \<longleftrightarrow> any_base value
     \<or> list_ex (\<lambda>item. case split_once CHR ''/'' item of
           None \<Rightarrow> False | Some (base, step) \<Rightarrow> any_base base \<and> parse_unsigned U32_MAX step = Some 1)
         (split_on CHR '','' value)"

section \<open>Schedules\<close>

record cron_schedule =
  cs_minutes :: "nat list"
  cs_hours :: "nat list"
  cs_days :: "nat list"
  cs_months :: "nat list"
  cs_weekdays :: "nat list"
  cs_day_any :: bool
  cs_weekday_any :: bool

text \<open>\<open>split_whitespace\<close>: the pieces between runs of white space.\<close>

function words_of :: "string \<Rightarrow> string \<Rightarrow> string list" where
  "words_of cur s =
     (let flush = (if cur = [] then [] else [cur]); k = white_prefix (map code s) in
      if s = [] then flush
      else if k = 0 then words_of (cur @ [hd s]) (tl s)
      else flush @ words_of [] (drop k s))"
  by pat_completeness auto
termination by (relation "measure (\<lambda>(cur, s). length s)") auto

declare words_of.simps [simp del]

definition split_whitespace :: "string \<Rightarrow> string list" where
  "split_whitespace s = words_of [] s"

definition parse_fields :: "string list \<Rightarrow> core_error + cron_schedule" where
  "parse_fields fs =
     (case parse_field (fs ! 0) 0 59 of Inl e \<Rightarrow> Inl e | Inr minutes \<Rightarrow>
     (case parse_field (fs ! 1) 0 23 of Inl e \<Rightarrow> Inl e | Inr hours \<Rightarrow>
     (case parse_field (fs ! 2) 1 31 of Inl e \<Rightarrow> Inl e | Inr days \<Rightarrow>
     (case parse_field (fs ! 3) 1 12 of Inl e \<Rightarrow> Inl e | Inr months \<Rightarrow>
     (case parse_field (fs ! 4) 0 7 of Inl e \<Rightarrow> Inl e | Inr weekdays \<Rightarrow>
        Inr \<lparr>cs_minutes = minutes, cs_hours = hours, cs_days = days, cs_months = months, cs_weekdays = weekdays,
             cs_day_any = wildcard_field (fs ! 2), cs_weekday_any = wildcard_field (fs ! 4)\<rparr>)))))"

definition parse_cron :: "string \<Rightarrow> core_error + cron_schedule" where
  "parse_cron value =
     (let fs = split_whitespace value in
      if length fs \<noteq> 5 then Inl (Denied ''Cron must contain five fields.'') else parse_fields fs)"

text \<open>The fields are sorted, so a binary search is membership.\<close>

definition cron_matches :: "cron_schedule \<Rightarrow> local_time \<Rightarrow> bool" where
  "cron_matches c f =
     (let minute = lt_minute f \<in> set (cs_minutes c); hour = lt_hour f \<in> set (cs_hours c);
          month = lt_month f \<in> set (cs_months c); day = lt_day f \<in> set (cs_days c);
          weekday = (lt_weekday f \<in> set (cs_weekdays c) \<or> lt_weekday f = 0 \<and> 7 \<in> set (cs_weekdays c));
          calendar = (if cs_day_any c then (if cs_weekday_any c then True else weekday)
                      else if cs_weekday_any c then day else day \<or> weekday)
      in minute \<and> hour \<and> month \<and> calendar)"

text \<open>\<open>partition_point\<close> of a sorted field is the length of its prefix up to \<open>current\<close>. A parsed
  field has a first element.\<close>

definition minutes_until_next :: "cron_schedule \<Rightarrow> nat \<Rightarrow> nat" where
  "minutes_until_next c current =
     (case dropWhile (\<lambda>m. m \<le> current) (cs_minutes c) of
        m # _ \<Rightarrow> m - current
      | [] \<Rightarrow> 60 - current + hd (cs_minutes c))"

definition validate_cron :: "string \<Rightarrow> core_error + unit" where
  "validate_cron value = (case parse_cron value of Inl e \<Rightarrow> Inl e | Inr _ \<Rightarrow> Inr ())"

section \<open>Time zones\<close>

text \<open>\<open>str::parse::<i32>\<close> of the two characters of an offset.\<close>

definition parse_i32 :: "string \<Rightarrow> int option" where
  "parse_i32 s = (case s of
     c # cs \<Rightarrow> if c = CHR ''-'' then (if cs = [] then None else map_option (\<lambda>n. - int n) (read_digits 0 cs))
               else map_option int (parse_unsigned (2 ^ 31 - 1) s)
   | [] \<Rightarrow> None)"

definition zone_offset_error :: core_error where
  "zone_offset_error = Denied ''Scheduler zone offset is invalid.''"

definition zone_error :: "string \<Rightarrow> core_error" where
  "zone_error e = Denied (''Scheduler zone is invalid: '' @ e @ ''.'')"

definition zone_result :: "string + 'z \<Rightarrow> core_error + 'z" where
  "zone_result r = (case r of Inl e \<Rightarrow> Inl (zone_error e) | Inr z \<Rightarrow> Inr z)"

definition timezone :: "'z jiff \<Rightarrow> string \<Rightarrow> core_error + 'z" where
  "timezone jf value =
     (if value = ''UTC'' then Inr (tz_utc jf)
      else (case (case strip_prefix ''+'' value of Some r \<Rightarrow> Some r | None \<Rightarrow> strip_prefix ''-'' value) of
              None \<Rightarrow> zone_result (tz_get jf value)
            | Some offset \<Rightarrow>
                if length offset \<noteq> 5 \<or> offset ! 2 \<noteq> CHR '':'' then Inl zone_offset_error
                else (case parse_i32 (take 2 offset) of
                        None \<Rightarrow> Inl zone_offset_error
                      | Some hours \<Rightarrow>
                          (case parse_i32 (drop 3 offset) of
                             None \<Rightarrow> Inl zone_offset_error
                           | Some minutes \<Rightarrow>
                               if 23 < hours \<or> 59 < minutes then Inl zone_offset_error
                               else zone_result (tz_fixed jf
                                 ((if strip_prefix ''-'' value \<noteq> None then - 1 else 1) * (hours * 3600 + minutes * 60)))))))"

definition validate_zone :: "'z jiff \<Rightarrow> string \<Rightarrow> core_error + unit" where
  "validate_zone jf value = (case timezone jf value of Inl e \<Rightarrow> Inl e | Inr _ \<Rightarrow> Inr ())"

section \<open>The next occurrence\<close>

lemma hd_dropWhile_not: "dropWhile p xs = y # ys \<Longrightarrow> \<not> p y"
  by (induction xs) (auto split: if_splits)

lemma minutes_until_next_pos: "current < 60 \<Longrightarrow> 0 < minutes_until_next c current"
  unfolding minutes_until_next_def by (split list.split) (auto dest: hd_dropWhile_not)

lemma lt_minute_less [simp]: "lt_minute f < 60"
  by (simp add: lt_minute_def)

text \<open>\<open>minutes.saturating_mul(60)\<close>.\<close>

definition jump :: "cron_schedule \<Rightarrow> local_time \<Rightarrow> u64" where
  "jump c f = of_nat (min (minutes_until_next c (lt_minute f) * 60) (2 ^ 64 - 1))"

lemma unat_jump: "unat (jump c f) = min (minutes_until_next c (lt_minute f) * 60) (2 ^ 64 - 1)"
  by (simp add: jump_def unsigned_of_nat take_bit_nat_eq_self)

lemma jump_pos: "0 < unat (jump c f)"
  unfolding unat_jump using minutes_until_next_pos [of "lt_minute f" c] by simp

lemma sat_add_progress:
  fixes s stop k :: u64
  assumes "s < stop" and "0 < unat k"
  shows "unat s < unat (sat_add s k)"
proof -
  have "unat s < unat stop" using assms(1) by (simp add: word_less_nat_alt)
  moreover have "unat stop < 2 ^ 64" using unsigned_less [of stop, where ?'a = nat] by simp
  ultimately show ?thesis using assms(2) by (simp add: unat_sat_add)
qed

function next_from :: "'z jiff \<Rightarrow> cron_schedule \<Rightarrow> 'z \<Rightarrow> u64 \<Rightarrow> u64 \<Rightarrow> core_error + u64" where
  "next_from jf c z search_end s =
     (if \<not> s < search_end then Inl (Denied ''Cron has no occurrence in the search window.'')
      else if 2 ^ 63 \<le> unat s then Inl (Denied ''Scheduler timestamp exceeded its supported range.'')
      else (case tz_local jf z (unat s) of
              Inl e \<Rightarrow> Inl (Denied (''Scheduler timestamp is invalid: '' @ e @ ''.''))
            | Inr f \<Rightarrow> if cron_matches c f then Inr s else next_from jf c z search_end (sat_add s (jump c f))))"
  by pat_completeness auto
termination
proof (relation "measure (\<lambda>(jf, c, z, search_end, s). unat search_end - unat s)", simp)
  fix jf :: "'z jiff" and c z and search_end s :: u64 and f
  assume "\<not> \<not> s < search_end"
  then have "unat s < unat (sat_add s (jump c f))" "unat s < unat search_end"
    using sat_add_progress [of s search_end "jump c f"] jump_pos by (simp_all add: word_less_nat_alt)
  then show "((jf, c, z, search_end, sat_add s (jump c f)), (jf, c, z, search_end, s))
      \<in> measure (\<lambda>(jf, c, z, search_end, s). unat search_end - unat s)"
    by simp
qed

declare next_from.simps [simp del]

definition cron_next :: "'z jiff \<Rightarrow> string \<Rightarrow> string \<Rightarrow> u64 \<Rightarrow> core_error + u64" where
  "cron_next jf cron zone after =
     (case parse_cron cron of
        Inl e \<Rightarrow> Inl e
      | Inr schedule \<Rightarrow>
          (case timezone jf zone of
             Inl e \<Rightarrow> Inl e
           | Inr z \<Rightarrow>
               (let start = sat_add after (60 - after mod 60) in
                if 2 ^ 63 - 1 < unat start then Inr (- 1)
                else next_from jf schedule z (sat_add start (8 * 366 * 24 * 60 * 60)) start)))"

end
