(* ===== verification/Cron_Laws.thy ===== *)
theory Cron_Laws
  imports Cron
begin

text \<open>
  What cron expressions mean: a parsed field is the sorted union of its items, and the search for
  the next occurrence finds the first matching minute, as long as the zone keeps its minutes.
  The interface that the scheduler relies on is the locale \<open>occurrences\<close>.
\<close>

section \<open>Fields\<close>

lemma stepped_iff: "a \<le> b \<Longrightarrow> 0 < k \<Longrightarrow> x \<in> set (stepped a b k) \<longleftrightarrow> a \<le> x \<and> x \<le> b \<and> k dvd x - a"
proof -
  assume ab: "a \<le> b" and k: "0 < k"
  have "x \<in> set (stepped a b k) \<longleftrightarrow> (\<exists>i. i < (b - a) div k + 1 \<and> x = a + i * k)"
    by (auto simp: stepped_def image_iff simp del: upt_Suc)
  also have "\<dots> \<longleftrightarrow> (\<exists>i. x = a + i * k \<and> a + i * k \<le> b)"
  proof -
    have "i < (b - a) div k + 1 \<longleftrightarrow> a + i * k \<le> b" for i
      using ab k less_eq_div_iff_mult_less_eq [of k i "b - a"] by (auto simp: less_Suc_eq_le)
    then show ?thesis by metis
  qed
  also have "\<dots> \<longleftrightarrow> a \<le> x \<and> x \<le> b \<and> k dvd x - a"
    by (auto simp: dvd_def mult.commute) (metis le_add_diff_inverse mult.commute)
  finally show ?thesis .
qed

lemma item_range_step: "item_range item lo hi = Inr (a, b, k) \<Longrightarrow> 0 < k"
  by (auto simp: item_range_def Let_def split: option.splits if_splits)

definition item_denotes :: "nat \<Rightarrow> nat \<Rightarrow> string \<Rightarrow> nat \<Rightarrow> bool" where
  "item_denotes lo hi item x \<longleftrightarrow>
     (case item_range item lo hi of Inl e \<Rightarrow> False | Inr (a, b, k) \<Rightarrow> a \<le> x \<and> x \<le> b \<and> k dvd x - a)"

lemma parse_item_set:
  assumes "parse_item lo hi item = Inr vs"
  shows "set vs = {x. item_denotes lo hi item x} \<and> set vs \<subseteq> {lo..hi}"
proof -
  obtain a b k where r: "item_range item lo hi = Inr (a, b, k)"
    using assms by (auto simp: parse_item_def split: sum.splits)
  with assms have vs: "vs = stepped a b k" and ab: "lo \<le> a" "b \<le> hi" "a \<le> b"
    by (auto simp: parse_item_def split: if_splits)
  have "x \<in> set vs \<longleftrightarrow> item_denotes lo hi item x" for x
    using stepped_iff [OF ab(3) item_range_step [OF r]] by (simp add: vs item_denotes_def r)
  then show ?thesis using ab by (auto simp: item_denotes_def r)
qed

lemma parse_items_set:
  "parse_items lo hi items = Inr vs \<Longrightarrow>
     set vs = {x. \<exists>item \<in> set items. item_denotes lo hi item x} \<and> set vs \<subseteq> {lo..hi}"
proof (induction items arbitrary: vs)
  case (Cons item items)
  then obtain us ws where "parse_item lo hi item = Inr us" "parse_items lo hi items = Inr ws" "vs = us @ ws"
    by (auto split: sum.splits)
  with parse_item_set [of lo hi item us] Cons.IH [of ws] show ?case by auto
qed simp

lemma sorted_remdups_adj_strict: "sorted xs \<Longrightarrow> sorted_wrt (<) (remdups_adj xs)"
  for xs :: "'a::linorder list"
  by (induction xs rule: remdups_adj.induct) auto

lemma parse_field_field:
  assumes "parse_field value lo hi = Inr vs"
  shows "sorted_wrt (<) vs" and "vs \<noteq> []" and "set vs \<subseteq> {lo..hi}"
    and "set vs = {x. \<exists>item \<in> set (split_on CHR '','' value). item_denotes lo hi item x}"
proof -
  obtain us where u: "parse_items lo hi (split_on CHR '','' value) = Inr us" "us \<noteq> []"
    "vs = remdups_adj (sort us)"
    using assms by (auto simp: parse_field_def split: sum.splits if_splits)
  show "sorted_wrt (<) vs" by (simp add: u(3) sorted_remdups_adj_strict)
  show "vs \<noteq> []" using u(2) by (simp add: u(3)) (metis set_empty set_sort)
  show "set vs \<subseteq> {lo..hi}"
    "set vs = {x. \<exists>item \<in> set (split_on CHR '','' value). item_denotes lo hi item x}"
    using parse_items_set [OF u(1)] by (auto simp: u(3))
qed

section \<open>The next minute\<close>

lemma sorted_dropWhile_le:
  "sorted ms \<Longrightarrow> dropWhile (\<lambda>m. m \<le> n) ms = x # xs \<Longrightarrow> y \<in> set ms \<Longrightarrow> y \<le> n \<or> x \<le> y"
  for n :: nat
  by (induction ms) (auto split: if_splits)

definition minutes_ok :: "nat list \<Rightarrow> bool" where
  "minutes_ok ms \<longleftrightarrow> sorted ms \<and> ms \<noteq> [] \<and> set ms \<subseteq> {..<60}"

lemma sorted_hd_le: "sorted ms \<Longrightarrow> y \<in> set ms \<Longrightarrow> hd ms \<le> y"
  by (cases ms) auto

lemma minutes_until_next_skips:
  assumes "minutes_ok (cs_minutes c)" and "cur < 60" and "0 < j" and "j < minutes_until_next c cur"
  shows "(cur + j) mod 60 \<notin> set (cs_minutes c)"
proof
  assume y: "(cur + j) mod 60 \<in> set (cs_minutes c)"
  have ms: "sorted (cs_minutes c)" "cs_minutes c \<noteq> []" "set (cs_minutes c) \<subseteq> {..<60}"
    using assms(1) by (auto simp: minutes_ok_def)
  show False
  proof (cases "dropWhile (\<lambda>m. m \<le> cur) (cs_minutes c)")
    case (Cons x xs)
    have "x \<in> set (cs_minutes c)" using set_dropWhileD [of x "\<lambda>m. m \<le> cur" "cs_minutes c"] Cons by simp
    then have "x < 60" using ms(3) by auto
    moreover have "j < x - cur" using assms(4) by (simp add: minutes_until_next_def Cons)
    ultimately have "(cur + j) mod 60 = cur + j" "cur + j < x" by auto
    with sorted_dropWhile_le [OF ms(1) Cons y] assms(3) show False by simp
  next
    case Nil
    then have le: "\<forall>m \<in> set (cs_minutes c). m \<le> cur" by (simp add: dropWhile_eq_Nil_conv)
    have j: "j < 60 - cur + hd (cs_minutes c)" using assms(4) by (simp add: minutes_until_next_def Nil)
    show False
    proof (cases "cur + j < 60")
      case True
      then show False using le y assms(3) by auto
    next
      case False
      have "hd (cs_minutes c) \<le> cur" using le ms(2) by simp
      with False j assms(2) have "(cur + j) mod 60 = cur + j - 60" by (simp add: mod_if)
      with sorted_hd_le [OF ms(1) y] have "hd (cs_minutes c) \<le> cur + j - 60" by (simp only:)
      with j False assms(2) show False by linarith
    qed
  qed
qed

lemma minutes_until_next_le:
  assumes "minutes_ok (cs_minutes c)"
  shows "minutes_until_next c cur \<le> 120"
proof -
  have ms: "set (cs_minutes c) \<subseteq> {..<60}" "cs_minutes c \<noteq> []" using assms by (auto simp: minutes_ok_def)
  then have h: "hd (cs_minutes c) < 60" using hd_in_set [of "cs_minutes c"] by blast
  have "x < 60" if "dropWhile (\<lambda>m. m \<le> cur) (cs_minutes c) = x # xs" for x xs
    using set_dropWhileD [of x "\<lambda>m. m \<le> cur" "cs_minutes c"] that ms(1) by auto
  with h show ?thesis unfolding minutes_until_next_def by (split list.split) (auto simp: less_imp_le_nat dest: spec)
qed

lemma unat_jump_eq: "minutes_ok (cs_minutes c) \<Longrightarrow> unat (jump c f) = 60 * minutes_until_next c (lt_minute f)"
  unfolding unat_jump using minutes_until_next_le [of c "lt_minute f"] by simp

section \<open>The first occurrence\<close>

definition occurs :: "'z jiff \<Rightarrow> cron_schedule \<Rightarrow> 'z \<Rightarrow> nat \<Rightarrow> bool" where
  "occurs jf c z t \<longleftrightarrow> (case tz_local jf z t of Inl e \<Rightarrow> False | Inr f \<Rightarrow> cron_matches c f)"

text \<open>A zone that keeps its minutes: whenever its offset changes, it changes by whole hours. This
  holds of UTC, of every fixed offset and of the zones whose summer time is an hour.\<close>

definition keeps_minutes :: "'z jiff \<Rightarrow> 'z \<Rightarrow> bool" where
  "keeps_minutes jf z \<longleftrightarrow> (\<forall>t k f g. tz_local jf z t = Inr f \<longrightarrow> tz_local jf z (t + 60 * k) = Inr g
     \<longrightarrow> lt_minute g = (lt_minute f + k) mod 60)"

lemma skipped_minutes:
  assumes "minutes_ok (cs_minutes c)" and "keeps_minutes jf z" and "tz_local jf z s = Inr f"
    and "\<not> cron_matches c f" and "j < minutes_until_next c (lt_minute f)"
  shows "\<not> occurs jf c z (s + 60 * j)"
proof (cases j)
  case 0
  then show ?thesis using assms(3,4) by (simp add: occurs_def)
next
  case (Suc i)
  show ?thesis
  proof (cases "tz_local jf z (s + 60 * j)")
    case (Inr g)
    have "lt_minute g = (lt_minute f + j) mod 60" using assms(2,3) Inr unfolding keeps_minutes_def by blast
    then have "lt_minute g \<notin> set (cs_minutes c)"
      using minutes_until_next_skips [OF assms(1) lt_minute_less _ assms(5)] Suc by simp
    then show ?thesis by (simp add: occurs_def Inr cron_matches_def)
  qed (simp add: occurs_def)
qed

definition first_from :: "'z jiff \<Rightarrow> cron_schedule \<Rightarrow> 'z \<Rightarrow> nat \<Rightarrow> nat \<Rightarrow> bool" where
  "first_from jf c z s t \<longleftrightarrow> s \<le> t \<and> 60 dvd t - s \<and> occurs jf c z t
     \<and> (\<forall>j. s + 60 * j < t \<longrightarrow> \<not> occurs jf c z (s + 60 * j))"

lemma first_from_skip:
  assumes "first_from jf c z (s + 60 * m) t" and "\<And>j. j < m \<Longrightarrow> \<not> occurs jf c z (s + 60 * j)"
  shows "first_from jf c z s t"
proof -
  have a: "s + 60 * m \<le> t" "60 dvd t - (s + 60 * m)" "occurs jf c z t"
    "\<And>j. s + 60 * m + 60 * j < t \<Longrightarrow> \<not> occurs jf c z (s + 60 * m + 60 * j)"
    using assms(1) by (auto simp: first_from_def)
  have "60 dvd (t - (s + 60 * m)) + 60 * m" using a(2) by simp
  then have "60 dvd t - s" using a(1) by (simp add: algebra_simps)
  moreover have "\<not> occurs jf c z (s + 60 * j)" if "s + 60 * j < t" for j
  proof (cases "j < m")
    case False
    then have eq: "s + 60 * j = s + 60 * m + 60 * (j - m)" by (simp add: algebra_simps)
    show ?thesis unfolding eq by (rule a(4)) (use that in \<open>simp only: eq\<close>)
  qed (use assms(2) in blast)
  ultimately show ?thesis using a by (simp add: first_from_def)
qed

lemma next_from_first:
  assumes "next_from jf c z stop s = Inr t" and "minutes_ok (cs_minutes c)" and "keeps_minutes jf z"
  shows "first_from jf c z (unat s) (unat t) \<and> t < stop"
  using assms
proof (induction jf c z stop s rule: next_from.induct)
  case (1 jf c z stop s)
  have lt: "s < stop" "\<not> 2 ^ 63 \<le> unat s"
    using "1.prems"(1) by (auto simp: next_from.simps split: if_splits)
  obtain f where f: "tz_local jf z (unat s) = Inr f"
    using "1.prems"(1) lt by (cases "tz_local jf z (unat s)") (auto simp: next_from.simps)
  show ?case
  proof (cases "cron_matches c f")
    case True
    with "1.prems"(1) lt f have "t = s" by (simp add: next_from.simps)
    with True lt f show ?thesis by (simp add: first_from_def occurs_def)
  next
    case False
    let ?m = "minutes_until_next c (lt_minute f)" and ?s = "sat_add s (jump c f)"
    have r: "next_from jf c z stop ?s = Inr t"
      using "1.prems"(1) lt f False by (simp add: next_from.simps [of jf c z stop s])
    have ih: "first_from jf c z (unat ?s) (unat t)" "t < stop"
      using "1.IH" [OF _ lt(2) f False r "1.prems"(2,3)] lt(1) by simp_all
    have "?s < stop" using r by (auto simp: next_from.simps [of jf c z stop ?s] split: if_splits)
    moreover have "unat stop < 2 ^ 64" using unsigned_less [of stop, where ?'a = nat] by simp
    ultimately have "unat ?s < 2 ^ 64 - 1" by (simp add: word_less_nat_alt)
    then have "unat ?s = unat s + 60 * ?m"
      using unat_sat_add [of s "jump c f"] unat_jump_eq [OF "1.prems"(2), of f] by simp
    with ih(1) have "first_from jf c z (unat s) (unat t)"
      by (intro first_from_skip [of jf c z "unat s" ?m])
        (simp_all add: skipped_minutes [OF "1.prems"(2,3) f False])
    with ih(2) show ?thesis by simp
  qed
qed

lemma parse_cron_minutes_ok: "parse_cron value = Inr c \<Longrightarrow> minutes_ok (cs_minutes c)"
proof -
  assume "parse_cron value = Inr c"
  then have "parse_fields (split_whitespace value) = Inr c"
    by (simp add: parse_cron_def Let_def split: if_splits)
  then have m: "parse_field (split_whitespace value ! 0) 0 59 = Inr (cs_minutes c)"
    unfolding parse_fields_def by (auto split: sum.splits)
  show ?thesis
    using parse_field_field(1-3) [OF m] by (auto simp: minutes_ok_def strict_sorted_iff)
qed

lemma next_minute:
  fixes after :: u64
  assumes "unat (sat_add after (60 - after mod 60)) \<le> 2 ^ 63 - 1"
  shows "unat (sat_add after (60 - after mod 60)) = (unat after div 60 + 1) * 60"
proof -
  have m: "unat (after mod 60) = unat after mod 60" by (simp add: unat_mod)
  then have "after mod 60 \<le> 60" by (simp add: word_le_nat_alt)
  then have "unat (60 - after mod 60) = 60 - unat after mod 60" by (simp add: unat_sub m)
  moreover have "unat after + (60 - unat after mod 60) = (unat after div 60 + 1) * 60" by presburger
  ultimately show ?thesis using assms unat_sat_add [of after "60 - after mod 60"] by simp
qed

lemma unat_sat_add_le: "unat (sat_add x y) \<le> unat x + unat y"
  by (simp add: unat_sat_add)

lemma minute_grid:
  fixes a u :: nat
  assumes "a < u" and "u mod 60 = 0"
  shows "u = (a div 60 + 1) * 60 + 60 * (u div 60 - (a div 60 + 1))"
proof -
  have u: "u div 60 * 60 = u" using assms(2) div_mult_mod_eq [of u 60] by simp
  then have "a div 60 < u div 60" using assms(1) by (intro less_mult_imp_div_less) (simp add: u)
  then have "(a div 60 + 1) + (u div 60 - (a div 60 + 1)) = u div 60" by simp
  then have "((a div 60 + 1) + (u div 60 - (a div 60 + 1))) * 60 = u" using u by (simp only:)
  then show ?thesis unfolding add_mult_distrib by linarith
qed

text \<open>C22: The next occurrence of a cron expression is the first one: in a zone that keeps its minutes, the
  search returns the first whole minute after the given time whose local time the expression
  matches, no matching minute in between is left out by its jumps, and it lies within eight years.\<close>

theorem cron_next_first:
  assumes "cron_next jf cron zone after = Inr t" and "parse_cron cron = Inr c" and "timezone jf zone = Inr z"
    and "keeps_minutes jf z" and "t \<noteq> - 1"
  shows "after < t \<and> unat t mod 60 = 0 \<and> occurs jf c z (unat t)
    \<and> (\<forall>u. unat after < u \<and> u < unat t \<and> u mod 60 = 0 \<longrightarrow> \<not> occurs jf c z u)
    \<and> unat t < unat after + 60 + 8 * 366 * 86400"
proof -
  define start stop where "start = sat_add after (60 - after mod 60)" and "stop = sat_add start (8 * 366 * 24 * 60 * 60)"
  have le: "\<not> 2 ^ 63 - 1 < unat start" and r: "next_from jf c z stop start = Inr t"
    using assms(1,5) unfolding cron_next_def assms(2,3) sum.case Let_def start_def stop_def
    by (auto simp only: split: if_splits)
  have st: "unat start = (unat after div 60 + 1) * 60" using next_minute [of after] le by (simp add: start_def)
  have f: "first_from jf c z (unat start) (unat t)" "t < stop"
    using next_from_first [OF r parse_cron_minutes_ok [OF assms(2)] assms(4)] by simp_all
  then have f': "unat start \<le> unat t" "60 dvd unat t - unat start" "occurs jf c z (unat t)"
    "\<And>j. unat start + 60 * j < unat t \<Longrightarrow> \<not> occurs jf c z (unat start + 60 * j)"
    by (auto simp: first_from_def)
  have "\<not> occurs jf c z u" if "unat after < u" "u < unat t" "u mod 60 = 0" for u
  proof -
    have eq: "unat start + 60 * (u div 60 - (unat after div 60 + 1)) = u"
      using minute_grid [OF that(1,3)] by (simp only: st)
    show ?thesis using f'(4) [of "u div 60 - (unat after div 60 + 1)"] that(2) unfolding eq by blast
  qed
  moreover have "unat t mod 60 = 0"
  proof -
    have "60 dvd (unat t - unat start) + unat start" using f'(2) st by (intro dvd_add) simp_all
    then show ?thesis using f'(1) by (simp add: dvd_eq_mod_eq_0)
  qed
  moreover have "unat after < unat t"
    using f'(1) dividend_less_div_times [of 60 "unat after"] unfolding st by simp
  moreover have "unat stop \<le> unat start + 252979200"
    using unat_sat_add_le [of start "8 * 366 * 24 * 60 * 60"] by (simp add: stop_def)
  moreover have "unat t < unat stop" using f(2) by (simp only: word_less_nat_alt)
  ultimately show ?thesis using f'(3) unfolding word_less_nat_alt st by auto
qed

text \<open>A zone package with one zone, whose clock is put forward by \<open>shift\<close> seconds at two in the morning
  of the first day.\<close>

definition shifting :: "nat \<Rightarrow> unit jiff" where
  "shifting shift = \<lparr>tz_utc = (), tz_fixed = (\<lambda>n. Inr ()), tz_get = (\<lambda>s. Inr ()),
     tz_local = (\<lambda>z t. let w = (if t < 7200 then t else t + shift) in
        Inr \<lparr>lt_seconds = w mod 86400, lt_day = 1, lt_month = 1, lt_weekday = 4\<rparr>)\<rparr>"

lemma day_minute: "w mod 86400 div 60 mod 60 = w div 60 mod 60" for w :: nat
proof -
  have "w mod (60 * 1440) = 60 * (w div 60 mod 1440) + w mod 60" by (rule mod_mult2_eq)
  then have "w mod 86400 div 60 = w div 60 mod 1440" by simp
  then show ?thesis by (simp add: mod_mod_cancel)
qed

lemma shifting_keeps_minutes: "keeps_minutes (shifting (3600 * h)) z"
proof -
  let ?w = "\<lambda>t. if t < 7200 then t else t + 3600 * h"
  have hours: "?w t div 60 mod 60 = t div 60 mod 60" for t :: nat
  proof -
    have "t + 3600 * h = t + (60 * h) * 60" by simp
    then have "(t + 3600 * h) div 60 = t div 60 + 60 * h" by (simp only: div_mult_self1)
    then show ?thesis by simp
  qed
  have later: "(t + 60 * k) div 60 mod 60 = (t div 60 mod 60 + k) mod 60" for t k :: nat
  proof -
    have "(t + 60 * k) div 60 = t div 60 + k" by simp
    then show ?thesis by (simp only: mod_add_left_eq)
  qed
  have m: "lt_minute f = t div 60 mod 60" if "tz_local (shifting (3600 * h)) z t = Inr f" for t f
    using that hours [of t] by (auto simp: shifting_def Let_def lt_minute_def day_minute)
  show ?thesis unfolding keeps_minutes_def using m later by simp
qed

text \<open>Evaluation of expressions in plain characters.\<close>

lemma words_of_Nil: "words_of cur [] = (if cur = [] then [] else [cur])"
  by (simp add: words_of.simps)

lemma white_prefix_ascii: "code c < 128 \<Longrightarrow> white_prefix (map code (c # cs)) = (if code c \<in> {9, 10, 11, 12, 13, 32} then 1 else 0)"
  by (cases "map code (c # cs)" rule: white_prefix.cases) auto

lemma words_of_ascii: "code c < 128 \<Longrightarrow> words_of cur (c # cs) =
    (if code c \<in> {9, 10, 11, 12, 13, 32} then (if cur = [] then [] else [cur]) @ words_of [] cs
     else words_of (cur @ [c]) cs)"
  by (subst words_of.simps) (simp add: white_prefix_ascii Let_def del: list.map)

lemmas cron_eval = parse_cron_def split_whitespace_def words_of_Nil words_of_ascii code_def parse_fields_def
  parse_field_def parse_item_def item_range_def any_base_def wildcard_field_def parse_unsigned_def U32_MAX_def
  is_ascii_digit_def stepped_def Let_def upt_rec

lemma cron_working_days: "parse_cron ''30 9 * * 1-5'' = Inr \<lparr>cs_minutes = [30], cs_hours = [9], cs_days = [1..<32],
    cs_months = [1..<13], cs_weekdays = [1..<6], cs_day_any = True, cs_weekday_any = False\<rparr>"
  by (simp add: cron_eval)

lemmas next_eval = cron_next_def timezone_def strip_prefix_def zone_result_def shifting_def Let_def sat_add_def
  next_from.simps cron_matches_def jump_def minutes_until_next_def lt_minute_def lt_hour_def upt_rec

lemma next_working_day: "cron_next (shifting 3600) ''30 9 * * 1-5'' ''Europe/Rome'' 100 = Inr 30600"
  by (simp add: cron_working_days next_eval)

lemma cron_next_first_witness:
  "occurs (shifting 3600) \<lparr>cs_minutes = [30], cs_hours = [9], cs_days = [1..<32], cs_months = [1..<13],
       cs_weekdays = [1..<6], cs_day_any = True, cs_weekday_any = False\<rparr> () (unat (30600 :: u64))
   \<and> \<not> occurs (shifting 3600) \<lparr>cs_minutes = [30], cs_hours = [9], cs_days = [1..<32], cs_months = [1..<13],
       cs_weekdays = [1..<6], cs_day_any = True, cs_weekday_any = False\<rparr> () 30540"
proof -
  have z: "timezone (shifting 3600) ''Europe/Rome'' = Inr ()"
    by (simp add: timezone_def strip_prefix_def zone_result_def shifting_def)
  have k: "keeps_minutes (shifting 3600) ()" using shifting_keeps_minutes [of 1] by simp
  show ?thesis using cron_next_first [OF next_working_day cron_working_days z k] by simp
qed

text \<open>In a zone whose clock moves by half an hour the search can jump over an occurrence: when the
  clock goes from two to half past two, a task due at a quarter to every hour is next run at
  quarter to four, although the local time passes quarter to three.\<close>

theorem cron_next_skips_half_hour_shift:
  "cron_next (shifting 1800) ''45 * * * *'' ''Australia/Lord_Howe'' 6359 = Inr 11700
     \<and> (\<exists>c. parse_cron ''45 * * * *'' = Inr c \<and> occurs (shifting 1800) c () 8100)"
proof -
  have c: "parse_cron ''45 * * * *'' = Inr \<lparr>cs_minutes = [45], cs_hours = [0..<24], cs_days = [1..<32],
      cs_months = [1..<13], cs_weekdays = [0..<8], cs_day_any = True, cs_weekday_any = True\<rparr>"
    by (simp add: cron_eval)
  then have "cron_next (shifting 1800) ''45 * * * *'' ''Australia/Lord_Howe'' 6359 = Inr 11700"
    by (simp add: next_eval)
  moreover have "occurs (shifting 1800) \<lparr>cs_minutes = [45], cs_hours = [0..<24], cs_days = [1..<32],
      cs_months = [1..<13], cs_weekdays = [0..<8], cs_day_any = True, cs_weekday_any = True\<rparr> () 8100"
    by (simp add: occurs_def shifting_def Let_def cron_matches_def lt_minute_def lt_hour_def)
  ultimately show ?thesis using c by blast
qed

text \<open>A cron field is accepted only as a non-empty, strictly increasing list of values in its range,
  and it holds exactly the values that one of its items denotes: every value between the
  bounds of the item that is a multiple of its step above the lower one.\<close>

theorem parse_field_union:
  assumes "parse_field value lo hi = Inr vs"
  shows "vs \<noteq> [] \<and> sorted_wrt (<) vs \<and> set vs \<subseteq> {lo..hi}
    \<and> (\<forall>x. x \<in> set vs \<longleftrightarrow> (\<exists>item \<in> set (split_on CHR '','' value). item_denotes lo hi item x))"
  using parse_field_field [OF assms] by simp

lemma parse_field_union_witness: "sorted_wrt (<) [0, 20, 40 :: nat]
    \<and> (\<exists>item \<in> set (split_on CHR '','' ''*/20,40''). item_denotes 0 59 item 20)"
proof -
  have "parse_field ''*/20,40'' 0 59 = Inr [0, 20, 40]" by (simp add: cron_eval)
  from parse_field_union [OF this] show ?thesis by auto
qed

end
