(* ===== verification/Text.thy ===== *)
theory Text
  imports Prelude
begin

text \<open>
  Functions of Rust's \<open>str\<close> and \<open>char\<close> on UTF-8 text that several plugins call: \<open>trim\<close>,
  \<open>chars().take(n)\<close>, ASCII case folding.
\<close>

section \<open>White space\<close>

text \<open>How many bytes the white space at the end of the text takes, 0 when it ends in something else.\<close>

definition white_suffix :: "string \<Rightarrow> nat" where
  "white_suffix s =
     (case filter (\<lambda>k. k \<le> length s \<and> white_prefix (map code (drop (length s - k) s)) = k) [1, 2, 3] of
        [] \<Rightarrow> 0 | k # _ \<Rightarrow> k)"

lemma white_suffix_pos: "white_suffix s \<noteq> 0 \<Longrightarrow> s \<noteq> []"
  by (auto simp: white_suffix_def)

function trim_end_text :: "string \<Rightarrow> string" where
  "trim_end_text s = (if white_suffix s = 0 then s else trim_end_text (take (length s - white_suffix s) s))"
  by pat_completeness auto
termination
proof (relation "measure length", simp)
  fix s :: string
  assume "white_suffix s \<noteq> 0"
  with white_suffix_pos [OF this] show "(take (length s - white_suffix s) s, s) \<in> measure length" by simp
qed

declare trim_end_text.simps [simp del]

definition trim :: "string \<Rightarrow> string" where
  "trim s = trim_end_text (trim_start s)"

lemma length_trim_start: "length (trim_start s) \<le> length s"
proof (induction s rule: trim_start.induct)
  case (1 s)
  show ?case
  proof (cases "white_prefix (map code s) = 0")
    case False
    with 1 [OF False] show ?thesis by (subst trim_start.simps) simp
  qed (simp add: trim_start.simps)
qed

lemma length_trim_end: "length (trim_end_text s) \<le> length s"
proof (induction s rule: trim_end_text.induct)
  case (1 s)
  show ?case
  proof (cases "white_suffix s = 0")
    case False
    with 1 [OF False] show ?thesis by (subst trim_end_text.simps) simp
  qed (simp add: trim_end_text.simps)
qed

lemma length_trim: "length (trim s) \<le> length s"
  unfolding trim_def by (rule order_trans [OF length_trim_end length_trim_start])

section \<open>Characters\<close>

text \<open>A byte of the form \<open>10xxxxxx\<close> continues a character.\<close>

definition continuation :: "char \<Rightarrow> bool" where
  "continuation c \<longleftrightarrow> 128 \<le> code c \<and> code c < 192"

fun take_chars :: "nat \<Rightarrow> string \<Rightarrow> string" where
  "take_chars n [] = []"
| "take_chars n (c # cs) =
     (if continuation c then c # take_chars n cs
      else (case n of 0 \<Rightarrow> [] | Suc k \<Rightarrow> c # take_chars k cs))"

lemma take_chars_ascii: "list_all (\<lambda>c. code c < 128) s \<Longrightarrow> take_chars n s = take n s"
  by (induction n s rule: take_chars.induct) (auto simp: continuation_def split: nat.splits)

text \<open>The characters of a text.\<close>

function chars :: "string \<Rightarrow> string list" where
  "chars [] = []"
| "chars (c # cs) = (c # takeWhile continuation cs) # chars (dropWhile continuation cs)"
  by pat_completeness auto
termination by (relation "measure length") (auto simp: length_dropWhile_le le_imp_less_Suc)

text \<open>\<open>char::is_whitespace\<close> of one character, \<open>str::find\<close> and \<open>contains\<close> of a text, and \<open>str::lines\<close>: a final
  line feed ends the last line, and a carriage return before a line feed belongs to the line break.\<close>

definition is_whitespace :: "string \<Rightarrow> bool" where
  "is_whitespace c \<longleftrightarrow> white_prefix (map code c) \<noteq> 0"

fun find_text :: "string \<Rightarrow> string \<Rightarrow> nat option" where
  "find_text p [] = (if p = [] then Some 0 else None)"
| "find_text p (c # cs) = (if take (length p) (c # cs) = p then Some 0 else map_option Suc (find_text p cs))"

definition contains_text :: "string \<Rightarrow> string \<Rightarrow> bool" where
  "contains_text s p \<longleftrightarrow> find_text p s \<noteq> None"

definition text_lines :: "string \<Rightarrow> string list" where
  "text_lines s =
     (let ls = split_on CHR 0x0A s; cut = (\<lambda>l. if l \<noteq> [] \<and> last l = CHR 0x0D then butlast l else l)
      in map cut (butlast ls) @ (if last ls = [] then [] else [last ls]))"

definition to_ascii_lower :: "char \<Rightarrow> char" where
  "to_ascii_lower c = (if is_ascii_uppercase c then char_of (code c + 32) else c)"

definition to_ascii_lowercase :: "string \<Rightarrow> string" where
  "to_ascii_lowercase s = map to_ascii_lower s"

definition is_ascii_alphabetic :: "char \<Rightarrow> bool" where
  "is_ascii_alphabetic c \<longleftrightarrow> is_ascii_lowercase c \<or> is_ascii_uppercase c"

definition is_ascii_alphanumeric :: "char \<Rightarrow> bool" where
  "is_ascii_alphanumeric c \<longleftrightarrow> is_ascii_digit c \<or> is_ascii_alphabetic c"

section \<open>Trimming\<close>

lemma trim_start_space [simp]: "trim_start (CHR '' '' # s) = trim_start s"
proof -
  have "white_prefix (map code (CHR '' '' # s)) = 1"
    by (cases s rule: list.exhaust; cases "tl s") (auto simp: code_def)
  then show ?thesis by (subst trim_start.simps) simp
qed

lemma trim_start_spaces [simp]: "trim_start (replicate k CHR '' '' @ s) = trim_start s"
  by (induction k) auto

text \<open>A character of ASCII that is not white space.\<close>

definition solid :: "char \<Rightarrow> bool" where
  "solid c \<longleftrightarrow> is_ascii_alphanumeric c"

lemma solid_code: "solid c \<Longrightarrow> 48 \<le> code c \<and> code c < 123"
  by (auto simp: solid_def is_ascii_alphanumeric_def is_ascii_alphabetic_def is_ascii_digit_def
      is_ascii_lowercase_def is_ascii_uppercase_def)

lemma trim_start_solid: "solid c \<Longrightarrow> trim_start (c # s) = c # s"
proof -
  assume "solid c"
  then have "white_prefix (map code (c # s)) = 0"
    using solid_code [of c] by (cases "(map code s)" rule: list.exhaust; cases "tl (map code s)") auto
  then show ?thesis by (subst trim_start.simps) simp
qed

lemma white_prefix_whole: "white_prefix cs = length cs \<Longrightarrow> cs \<noteq> [] \<Longrightarrow> last cs < 48 \<or> 128 \<le> last cs"
  by (cases cs rule: white_prefix.cases) (auto split: if_splits)

lemma trim_end_solid: "solid c \<Longrightarrow> trim_end_text (s @ [c]) = s @ [c]"
proof -
  assume c: "solid c"
  have "white_prefix (map code (drop (length (s @ [c]) - k) (s @ [c]))) \<noteq> k" if "1 \<le> k" "k \<le> length (s @ [c])" for k
  proof
    define t where "t = map code (drop (length (s @ [c]) - k) (s @ [c]))"
    assume a: "white_prefix (map code (drop (length (s @ [c]) - k) (s @ [c]))) = k"
    have l: "length t = k" using that by (simp add: t_def)
    then have n: "t \<noteq> []" using that(1) by auto
    then have "last t = code c" using that by (simp add: t_def last_map)
    then show False using white_prefix_whole [of t] a [folded t_def] l n solid_code [OF c] by simp
  qed
  from this [of 1] this [of 2] this [of 3]
  have "white_suffix (s @ [c]) = 0" by (simp add: white_suffix_def)
  then show ?thesis by (subst trim_end_text.simps) simp
qed

lemma trim_start_idem [simp]: "trim_start (trim_start s) = trim_start s"
proof (induction s rule: trim_start.induct)
  case (1 s)
  then show ?case by (cases "white_prefix (map code s) = 0") (simp_all add: trim_start.simps [of s])
qed

end
