(* ===== verification/Scheduler.thy ===== *)
theory Scheduler
  imports Cron Jsonl Text
begin

text \<open>
  \<open>krabb-plugins/scheduler/src/main.rs\<close>: the tasks of the scheduler plugin and the calls that change
  them. One definition per method of \<open>call_at\<close>. The plugin handles one request at a time, so a
  call is a function from the tasks and the disk to an answer, new tasks and a new disk. The
  environment holds the clock (one reading per use within a call), the environment variables,
  the random source, the serialisers and the file operations.
\<close>

section \<open>Tasks\<close>

definition TASK_LIMIT :: nat where "TASK_LIMIT = 1000"
definition LIST_PAGE_SIZE :: nat where "LIST_PAGE_SIZE = 20"
definition REPORT_PAGE_SIZE :: nat where "REPORT_PAGE_SIZE = 20"
definition CONTEXT_LIMIT :: nat where "CONTEXT_LIMIT = 16 * 1024"
definition TEXT_LIMIT :: nat where "TEXT_LIMIT = 256 * 1024"
definition STATE_LIMIT :: nat where "STATE_LIMIT = 32 * 1024 * 1024"
definition FRAME_HEADROOM :: nat where "FRAME_HEADROOM = 64 * 1024"

type_synonym u8 = "8 word"

record task =
  tk_name :: string
  tk_text :: string
  tk_delay :: u64
  tk_due :: u64
  tk_repeat :: u64
  tk_cron :: "string option"
  tk_zone :: string
  tk_status :: string
  tk_context :: json
  tk_last_result :: "string option"
  tk_last_outcome :: "string option"
  tk_missed :: string
  tk_on_failure :: string
  tk_replay_count :: u8
  tk_retries :: u8
  tk_attempts :: u8
  tk_retry_at :: "u64 option"
  tk_manual_run :: bool
  tk_manual_retry :: bool
  tk_manual_origin :: bool
  tk_cancel_requested :: bool
  tk_pause_requested :: bool
  tk_run_id :: "u64 option"
  tk_finished_run_id :: "u64 option"
  tk_finish_result :: "json option"
  tk_report_pending :: bool
  tk_imported_timer_id :: "u64 option"

type_synonym tasks = "(u64, task) bmap"

definition ready_for_claim_at :: "u64 \<Rightarrow> task \<Rightarrow> bool" where
  "ready_for_claim_at at t \<longleftrightarrow> tk_status t = ''active'' \<and> \<not> tk_report_pending t
     \<and> (tk_manual_run t \<or> (case tk_retry_at t of None \<Rightarrow> tk_due t \<le> at | Some r \<Rightarrow> r \<le> at))"

definition recurring :: "task \<Rightarrow> bool" where
  "recurring t \<longleftrightarrow> tk_cron t \<noteq> None \<or> 0 < tk_repeat t"

section \<open>The environment\<close>

record ('z, 'd) sched_env =
  sc_now :: "nat \<Rightarrow> u64"
  sc_jiff :: "'z jiff"
  sc_timezone :: "string option"
  sc_missed_runs :: "string option"
  sc_random :: "nat \<Rightarrow> (u8 \<times> u8) option"
  sc_location :: bool
  sc_parent_ok :: "'d \<Rightarrow> bool"
  sc_tasks_text :: "tasks \<Rightarrow> string"
  sc_save :: "string \<Rightarrow> 'd \<Rightarrow> unit io_result \<times> 'd"
  sc_json_len :: "json \<Rightarrow> nat"
  sc_response_len :: "response \<Rightarrow> nat"

type_synonym 'd sched_world = "tasks \<times> 'd"

definition persist_locked :: "('z, 'd) sched_env \<Rightarrow> tasks \<Rightarrow> 'd \<Rightarrow> (core_error + unit) \<times> 'd" where
  "persist_locked env tasks d =
     (if \<not> sc_location env then (Inr (), d)
      else if STATE_LIMIT < length (sc_tasks_text env tasks)
      then (Inl (Denied ''Scheduler state exceeds the size limit.''), d)
      else (case sc_save env (sc_tasks_text env tasks) d of
              (Inl e, d') \<Rightarrow> (Inl (Io e), d') | (Inr u, d') \<Rightarrow> (Inr (), d')))"

definition persist :: "('z, 'd) sched_env \<Rightarrow> tasks \<Rightarrow> 'd \<Rightarrow> (core_error + unit) \<times> 'd" where
  "persist env tasks d =
     (if \<not> sc_location env then (Inr (), d)
      else if \<not> sc_parent_ok env d then (Inl (Denied ''Scheduler state directory is unavailable.''), d)
      else persist_locked env tasks d)"

text \<open>\<open>persist_locked_at(location, &next_tasks)?; *tasks = next_tasks;\<close> and the answer.\<close>

definition commit_tasks :: "('z, 'd) sched_env \<Rightarrow> tasks \<Rightarrow> 'a \<Rightarrow> 'd sched_world \<Rightarrow> (core_error + 'a) \<times> 'd sched_world" where
  "commit_tasks env new v w =
     (case persist_locked env new (snd w) of
        (Inl e, d') \<Rightarrow> (Inl e, (fst w, d')) | (Inr u, d') \<Rightarrow> (Inr v, (new, d')))"

definition deny :: "string \<Rightarrow> 'w \<Rightarrow> (core_error + 'a) \<times> 'w" where
  "deny m w = (Inl (Denied m), w)"

definition checked_response :: "('z, 'd) sched_env \<Rightarrow> u64 \<Rightarrow> json \<Rightarrow> core_error + response" where
  "checked_response env i result =
     (if frame_max < sc_response_len env (response_ok i result) + (1 + FRAME_HEADROOM)
      then Inl (Denied ''Scheduler response exceeds the protocol frame limit.'')
      else Inr (response_ok i result))"

section \<open>Names\<close>

definition ADJECTIVES :: "string list" where
  "ADJECTIVES = [''bouncy'', ''cheeky'', ''cosmic'', ''cranky'', ''dizzy'', ''fluffy'', ''funky'', ''goofy'', ''grumpy'',
     ''jazzy'', ''jolly'', ''loopy'', ''mighty'', ''mushy'', ''noisy'', ''odd'', ''peppy'', ''quirky'', ''sleepy'',
     ''snazzy'', ''spicy'', ''squishy'', ''wobbly'', ''zippy'']"

definition CREATURES :: "string list" where
  "CREATURES = [''alpaca'', ''badger'', ''capybara'', ''krabb'', ''duck'', ''ferret'', ''gecko'', ''goose'', ''hamster'',
     ''kiwi'', ''lemur'', ''lobster'', ''meerkat'', ''narwhal'', ''otter'', ''panda'', ''penguin'', ''puffin'',
     ''raccoon'', ''seal'', ''shrew'', ''sloth'', ''squid'', ''walrus'']"

definition schedule_name :: "(u8 \<times> u8) option \<Rightarrow> string" where
  "schedule_name random =
     (case random of
        None \<Rightarrow> ''wobbly-walrus''
      | Some (a, b) \<Rightarrow> ADJECTIVES ! (unat a mod length ADJECTIVES) @ ''-'' @ CREATURES ! (unat b mod length CREATURES))"

definition valid_schedule_name :: "string \<Rightarrow> bool" where
  "valid_schedule_name name \<longleftrightarrow> length name \<le> 80
     \<and> (case name of [] \<Rightarrow> False
        | c # cs \<Rightarrow> is_ascii_alphanumeric c
            \<and> list_all (\<lambda>c. is_ascii_alphanumeric c \<or> c \<in> {CHR ''-'', CHR ''_'', CHR ''.''}) cs)"

text \<open>The random draws, from the \<open>n\<close>th one on: 32 names are tried, then suffixes of one more.\<close>

fun try_names :: "(nat \<Rightarrow> (u8 \<times> u8) option) \<Rightarrow> string set \<Rightarrow> nat \<Rightarrow> nat \<Rightarrow> string option" where
  "try_names random names n 0 = None"
| "try_names random names n (Suc k) =
     (let name = schedule_name (random n) in
      if name \<notin> names then Some name else try_names random names (Suc n) k)"

definition suffixed :: "string \<Rightarrow> nat \<Rightarrow> string" where
  "suffixed base i = base @ ''-'' @ show_nat i"

lemma suffixed_inject [simp]: "suffixed base i = suffixed base j \<longleftrightarrow> i = j"
  by (simp add: suffixed_def)

text \<open>The search ends: finitely many names are taken, and every suffix gives another name.\<close>

function first_suffix :: "string \<Rightarrow> string list \<Rightarrow> nat \<Rightarrow> nat" where
  "first_suffix base names i = (if suffixed base i \<in> set names then first_suffix base names (Suc i) else i)"
  by pat_completeness auto
termination
proof (relation "measure (\<lambda>(base, names, i). card {j. i \<le> j \<and> suffixed base j \<in> set names})", simp)
  fix base :: string and names i
  assume taken: "suffixed base i \<in> set names"
  let ?S = "\<lambda>i. {j. i \<le> j \<and> suffixed base j \<in> set names}"
  have "finite (?S i)"
    by (rule finite_subset [of _ "suffixed base -` set names"]) (auto intro!: finite_vimageI injI)
  moreover have "?S (Suc i) \<subset> ?S i"
  proof (rule psubsetI)
    have "i \<in> ?S i" "i \<notin> ?S (Suc i)" using taken by auto
    then show "?S (Suc i) \<noteq> ?S i" by blast
  qed auto
  ultimately show "((base, names, Suc i), (base, names, i))
      \<in> measure (\<lambda>(base, names, i). card {j. i \<le> j \<and> suffixed base j \<in> set names})"
    by (simp add: psubset_card_mono)
qed

declare first_suffix.simps [simp del]

definition unique_schedule_name :: "(nat \<Rightarrow> (u8 \<times> u8) option) \<Rightarrow> string list \<Rightarrow> string" where
  "unique_schedule_name random names =
     (case try_names random (set names) 0 32 of
        Some name \<Rightarrow> name
      | None \<Rightarrow> (let base = schedule_name (random 32) in suffixed base (first_suffix base names 2)))"

text \<open>\<open>normalize_schedule_names\<close>: one pass in the order of the ids; draws of the \<open>k\<close>th task start at
  33 times \<open>k\<close>.\<close>

fun normalize_names :: "(nat \<Rightarrow> (u8 \<times> u8) option) \<Rightarrow> nat \<Rightarrow> string list \<Rightarrow> tasks \<Rightarrow> tasks \<times> bool" where
  "normalize_names random k names [] = ([], False)"
| "normalize_names random k names ((i, t) # rest) =
     (let bad = (\<not> valid_schedule_name (tk_name t) \<or> tk_name t \<in> set names);
          name = (if bad then unique_schedule_name (\<lambda>n. random (33 * k + n)) names else tk_name t);
          (rest', changed) = normalize_names random (Suc k) (name # names) rest
      in ((i, t\<lparr>tk_name := name\<rparr>) # rest', bad \<or> changed))"

definition normalize_schedule_names :: "(nat \<Rightarrow> (u8 \<times> u8) option) \<Rightarrow> tasks \<Rightarrow> tasks \<times> bool" where
  "normalize_schedule_names random tasks = normalize_names random 0 [] tasks"

section \<open>Adding a task\<close>

text \<open>The time of the first run.\<close>

definition first_due :: "('z, 'd) sched_env \<Rightarrow> u64 option \<Rightarrow> string option \<Rightarrow> string \<Rightarrow> u64 \<Rightarrow> core_error + u64" where
  "first_due env at cron zone delay =
     (case at of
        Some t \<Rightarrow> Inr t
      | None \<Rightarrow> (case cron of
                  None \<Rightarrow> Inr (sat_add (sc_now env 1) delay)
                | Some c \<Rightarrow> cron_next (sc_jiff env) c zone (sc_now env 1)))"

definition unwrap_or :: "'a option \<Rightarrow> 'a \<Rightarrow> 'a" where
  "unwrap_or x d = (case x of None \<Rightarrow> d | Some v \<Rightarrow> v)"

text \<open>The name of a new task: the trimmed one of the request, or a new one.\<close>

definition requested_name :: "('z, 'd) sched_env \<Rightarrow> json \<Rightarrow> tasks \<Rightarrow> string" where
  "requested_name env params tasks =
     (case Option.bind (json_get params ''name'') as_str of
        None \<Rightarrow> unique_schedule_name (sc_random env) (map tk_name (bvalues tasks))
      | Some n \<Rightarrow> if trim n = [] then unique_schedule_name (sc_random env) (map tk_name (bvalues tasks)) else trim n)"

text \<open>The checks of the request in their order, up to the time of the first run.\<close>

definition new_task :: "('z, 'd) sched_env \<Rightarrow> json \<Rightarrow> string \<Rightarrow> string \<Rightarrow> core_error + task" where
  "new_task env params name text =
     (let context = unwrap_or (json_get params ''context'') JNull;
          delay = unwrap_or (as_word (json_index params ''delay'')) 0;
          repeat = unwrap_or (as_word (json_index params ''repeat'')) 0;
          cron = as_str (json_index params ''cron'');
          at = as_word (json_index params ''at'');
          retries = unwrap_or (as_word (json_index params ''retries'')) 0;
          status = (if json_index params ''activate'' = JBool True then ''active'' else ''pending'');
          asked = as_str (json_index params ''zone'');
          zone = unwrap_or asked (unwrap_or (sc_timezone env) ''UTC'');
          missed = unwrap_or (as_str (json_index params ''missed'')) (unwrap_or (sc_missed_runs env) ''skip'');
          on_failure = unwrap_or (as_str (json_index params ''on_failure'')) ''pause''
      in if CONTEXT_LIMIT < sc_json_len env context then Inl (Denied ''Scheduler context exceeds 16 KiB.'')
         else if 31536000 < delay \<or> 31536000 < repeat
         then Inl (Denied ''Scheduler delays and intervals cannot exceed one year.'')
         else if at \<noteq> None \<and> cron \<noteq> None
         then Inl (Denied ''Choose either an exact run time or a recurring cron schedule.'')
         else if cron \<noteq> None \<and> 0 < repeat
         then Inl (Denied ''Choose either a cron schedule or a fixed repeat interval.'')
         else if (case at of None \<Rightarrow> False | Some t \<Rightarrow> t < sat_add (sc_now env 0) 5)
         then Inl (Denied ''Exact scheduled times must be at least five seconds in the future.'')
         else if 5 < retries
         then Inl (Denied ''Scheduled tasks can be configured for at most five retries.'')
         else (case (case cron of None \<Rightarrow> Inr () | Some c \<Rightarrow> validate_cron c) of
                 Inl e \<Rightarrow> Inl e
               | Inr _ \<Rightarrow>
                   if cron \<noteq> None \<and> asked = None \<and> sc_timezone env = None
                   then Inl (Denied ''A timezone is required for cron schedules; ask the user or configure scheduler.timezone.'')
                   else (case validate_zone (sc_jiff env) zone of
                           Inl e \<Rightarrow> Inl e
                         | Inr _ \<Rightarrow>
                             if missed \<notin> {''skip'', ''coalesce'', ''replay''}
                             then Inl (Denied ''Missed-run policy must be skip, coalesce, or replay.'')
                             else if on_failure \<notin> {''pause'', ''continue''}
                             then Inl (Denied ''Failure policy must be pause or continue.'')
                             else if on_failure = ''continue'' \<and> cron = None \<and> repeat = 0
                             then Inl (Denied ''Failure policy continue requires a recurring schedule.'')
                             else (case first_due env at cron zone delay of
                                     Inl e \<Rightarrow> Inl e
                                   | Inr due \<Rightarrow> Inr
                                       \<lparr>tk_name = name, tk_text = text, tk_delay = delay, tk_due = due, tk_repeat = repeat,
                                        tk_cron = cron, tk_zone = zone, tk_status = status, tk_context = context,
                                        tk_last_result = None, tk_last_outcome = None, tk_missed = missed,
                                        tk_on_failure = on_failure, tk_replay_count = 0, tk_retries = ucast retries,
                                        tk_attempts = 0, tk_retry_at = None, tk_manual_run = False,
                                        tk_manual_retry = False, tk_manual_origin = False, tk_cancel_requested = False,
                                        tk_pause_requested = False, tk_run_id = None, tk_finished_run_id = None,
                                        tk_finish_result = None, tk_report_pending = False,
                                        tk_imported_timer_id = None\<rparr>))))"

definition do_add :: "('z, 'd) sched_env \<Rightarrow> json \<Rightarrow> 'd sched_world \<Rightarrow> (core_error + json) \<times> 'd sched_world" where
  "do_add env params w =
     (case as_word (json_index params ''id'') of None \<Rightarrow> deny ''add.id is required.'' w | Some i \<Rightarrow>
     (case as_str (json_index params ''text'') of None \<Rightarrow> deny ''add.text is required.'' w | Some text \<Rightarrow>
        if TEXT_LIMIT < length text then deny ''Scheduler text must be smaller than 256 KiB.'' w
        else
          (let name = requested_name env params (fst w) in
           if \<not> valid_schedule_name name
           then deny ''Schedule names must start with a letter or number and contain only letters, numbers, hyphens, underscores, or dots (up to 80 characters).'' w
           else if name \<in> set (map tk_name (bvalues (fst w)))
           then deny (''A schedule named '' @ name @ '' already exists.'') w
           else
             (case new_task env params name text of
                Inl e \<Rightarrow> (Inl e, w)
              | Inr t \<Rightarrow>
                  if bget (fst w) i \<noteq> None then deny (''Schedule ID '' @ show_nat (unat i) @ '' already exists.'') w
                  else if TASK_LIMIT \<le> length (fst w)
                  then deny (''The scheduler already has '' @ show_nat TASK_LIMIT @ '' tasks. Remove a task before adding another.'') w
                  else
                    (case persist env (binsert i t (fst w)) (snd w) of
                       (Inl e, d') \<Rightarrow> (Inl e, (fst w, d'))
                     | (Inr u, d') \<Rightarrow>
                         (Inr (jobject [(''id'', jword i), (''name'', JStr name), (''due'', jword (tk_due t)),
                            (''cron'', jopt JStr (tk_cron t)), (''repeat'', jword (tk_repeat t)), (''zone'', JStr (tk_zone t)),
                            (''retries'', jword (unwrap_or (as_word (json_index params ''retries'')) 0)),
                            (''on_failure'', JStr (tk_on_failure t)), (''status'', JStr (tk_status t))]),
                          (binsert i t (fst w), d')))))))"

section \<open>Reports and lists\<close>

definition do_reports :: "json \<Rightarrow> 'd sched_world \<Rightarrow> (core_error + json) \<times> 'd sched_world" where
  "do_reports params w =
     (let after = as_word (json_index params ''after'');
          items = take REPORT_PAGE_SIZE (filter (\<lambda>(i, t). tk_report_pending t
                    \<and> (case after of None \<Rightarrow> True | Some a \<Rightarrow> a < i)) (fst w))
      in (Inr (jobject [(''items'', JArr (map (\<lambda>(i, t). jobject [(''id'', jword i), (''name'', JStr (tk_name t)),
             (''run_id'', jopt jword (tk_finished_run_id t)), (''context'', tk_context t),
             (''result'', jopt JStr (tk_last_result t)), (''finish'', jopt id (tk_finish_result t))]) items))]), w))"

definition task_not_found :: "'w \<Rightarrow> (core_error + 'a) \<times> 'w" where
  "task_not_found w = deny ''Scheduled task was not found.'' w"

definition do_report :: "('z, 'd) sched_env \<Rightarrow> json \<Rightarrow> 'd sched_world \<Rightarrow> (core_error + json) \<times> 'd sched_world" where
  "do_report env params w =
     (case as_word (json_index params ''id'') of None \<Rightarrow> deny ''report.id is required.'' w | Some i \<Rightarrow>
     (case as_word (json_index params ''run_id'') of None \<Rightarrow> deny ''report.run_id is required.'' w | Some run \<Rightarrow>
     (case bget (fst w) i of None \<Rightarrow> task_not_found w | Some t \<Rightarrow>
        (let done = jobject [(''id'', jword i), (''reported'', JBool True)] in
         if tk_finished_run_id t \<noteq> Some run
         then deny ''report.run_id does not match the finished execution.'' w
         else if \<not> tk_report_pending t then (Inr done, w)
         else commit_tasks env (badjust i (\<lambda>t. t\<lparr>tk_report_pending := False\<rparr>) (fst w)) done w))))"

definition list_item :: "u64 \<times> task \<Rightarrow> json" where
  "list_item = (\<lambda>(i, t). jobject [(''id'', jword i),
     (''name'', JStr (if tk_name t = [] then ''schedule-'' @ show_nat (unat i) else tk_name t)),
     (''text'', JStr (take_chars 1000 (tk_text t))), (''delay'', jword (tk_delay t)), (''due'', jword (tk_due t)),
     (''repeat'', jword (tk_repeat t)), (''cron'', jopt JStr (tk_cron t)), (''zone'', JStr (tk_zone t)),
     (''status'', JStr (tk_status t)), (''pause_requested'', JBool (tk_pause_requested t)),
     (''last_outcome'', jopt JStr (tk_last_outcome t)), (''context'', tk_context t), (''missed'', JStr (tk_missed t)),
     (''on_failure'', JStr (tk_on_failure t)), (''retries'', JInt (uint (tk_retries t))),
     (''attempts'', JInt (uint (tk_attempts t))), (''retry_at'', jopt jword (tk_retry_at t)),
     (''run_requested'', JBool (tk_manual_run t))])"

text \<open>The error names the range with an en dash, three bytes of UTF-8.\<close>

definition do_list :: "json \<Rightarrow> 'd sched_world \<Rightarrow> (core_error + json) \<times> 'd sched_world" where
  "do_list params w =
     (let page = unwrap_or (as_u64 (json_index params ''page'')) 1;
          total = length (fst w); pages = (max total 1 + LIST_PAGE_SIZE - 1) div LIST_PAGE_SIZE
      in if page = 0 then deny ''List page must be at least 1.'' w
         else if pages < page
         then deny (''List page '' @ show_nat page @ '' is outside the available range 1'' @ [CHR 0xE2, CHR 0x80, CHR 0x93]
                 @ show_nat pages @ ''.'') w
         else
           (let start = (page - 1) * LIST_PAGE_SIZE;
                items = map list_item (take LIST_PAGE_SIZE (drop start (fst w)))
            in (Inr (jobject [(''items'', JArr items), (''total'', JInt (int total)), (''page'', JInt (int page)),
                   (''pages'', JInt (int pages)), (''from'', JInt (if total = 0 then 0 else int start + 1)),
                   (''to'', JInt (int start + int (length items)))]), w)))"

section \<open>Claiming a run\<close>

text \<open>\<open>min_by_key\<close>: the first entry with the least key.\<close>

fun least_due :: "(u64 \<times> task) list \<Rightarrow> (u64 \<times> task) option" where
  "least_due [] = None"
| "least_due (x # xs) =
     (case least_due xs of
        None \<Rightarrow> Some x
      | Some y \<Rightarrow> if tk_due (snd y) < tk_due (snd x) then Some y else Some x)"

text \<open>The next time of a recurring task after \<open>t\<close>.\<close>

definition next_due :: "('z, 'd) sched_env \<Rightarrow> task \<Rightarrow> u64 \<Rightarrow> core_error + u64" where
  "next_due env task t =
     (case tk_cron task of
        None \<Rightarrow> Inr (sat_add t (tk_repeat task))
      | Some c \<Rightarrow> cron_next (sc_jiff env) c (tk_zone task) t)"

definition missed_text :: string where
  "missed_text = ''Missed occurrence skipped because the daemon was offline.''"

text \<open>A missed occurrence that is dropped: the task as it is afterwards.\<close>

definition skipped_task :: "('z, 'd) sched_env \<Rightarrow> u64 \<Rightarrow> u64 \<Rightarrow> task \<Rightarrow> core_error + task" where
  "skipped_task env at run t =
     (case (if recurring t
            then (case next_due env t at of
                    Inl e \<Rightarrow> Inl e
                  | Inr due \<Rightarrow> Inr (t\<lparr>tk_due := due, tk_replay_count := 0, tk_last_result := Some missed_text,
                                      tk_last_outcome := Some ''skipped''\<rparr>))
            else Inr (t\<lparr>tk_status := ''skipped'', tk_last_result := Some missed_text,
                        tk_last_outcome := Some ''skipped''\<rparr>)) of
        Inl e \<Rightarrow> Inl e
      | Inr t' \<Rightarrow> Inr (t'\<lparr>tk_finished_run_id := Some run,
           tk_finish_result := Some (jobject [(''status'', JStr ''skipped''), (''success'', JBool False),
             (''finished_at'', jword at), (''scheduled_for'', jword (tk_due t)), (''result'', JStr missed_text)]),
           tk_report_pending := True\<rparr>))"

definition running_task :: "u64 \<Rightarrow> bool \<Rightarrow> task \<Rightarrow> task" where
  "running_task run overdue t =
     t\<lparr>tk_status := ''running'', tk_run_id := Some run,
       tk_manual_origin := (tk_manual_origin t \<or> tk_manual_run t \<and> \<not> tk_manual_retry t),
       tk_manual_run := False, tk_manual_retry := False, tk_retry_at := None,
       tk_attempts := sat_add (tk_attempts t) 1,
       tk_replay_count := (if overdue \<and> tk_missed t = ''replay'' then sat_add (tk_replay_count t) 1
                           else tk_replay_count t)\<rparr>"

definition skipped_item :: "u64 \<Rightarrow> task \<Rightarrow> u64 \<Rightarrow> u64 \<Rightarrow> json" where
  "skipped_item i t at run = jobject [(''item'', jobject [(''id'', jword i), (''name'', JStr (tk_name t)),
     (''text'', JStr (tk_text t)), (''context'', tk_context t), (''scheduled_for'', jword (tk_due t)),
     (''skipped_at'', jword at), (''run_id'', jword run), (''skipped'', JBool True), (''missed'', JStr (tk_missed t))])]"

definition claimed_item :: "u64 \<Rightarrow> task \<Rightarrow> u64 \<Rightarrow> json" where
  "claimed_item i t run = jobject [(''item'', jobject [(''id'', jword i), (''name'', JStr (tk_name t)),
     (''text'', JStr (tk_text t)), (''zone'', JStr (tk_zone t)), (''cron'', jopt JStr (tk_cron t)),
     (''repeat'', jword (tk_repeat t)), (''context'', tk_context t), (''scheduled_for'', jword (tk_due t)),
     (''missed'', JStr (tk_missed t)),
     (''manual'', JBool (tk_manual_origin t \<or> tk_manual_run t \<and> \<not> tk_manual_retry t)),
     (''retry'', JBool (tk_retry_at t \<noteq> None \<or> tk_manual_retry t)),
     (''attempt'', JInt (uint (sat_add (tk_attempts t) 1))), (''run_id'', jword run)])]"

text \<open>A claim checks that its answer fits before it changes anything.\<close>

definition do_claim :: "('z, 'd) sched_env \<Rightarrow> u64 \<Rightarrow> json \<Rightarrow> 'd sched_world \<Rightarrow> (core_error + response) \<times> 'd sched_world" where
  "do_claim env call params w =
     (let at = unwrap_or (as_word (json_index params ''at'')) (sc_now env 0);
          since = unwrap_or (as_word (json_index params ''since'')) 0;
          run = unwrap_or (as_word (json_index params ''lease'')) call
      in case least_due (filter (\<lambda>(i, t). ready_for_claim_at at t) (fst w)) of
           None \<Rightarrow> (checked_response env call (jobject [(''item'', JNull)]), w)
         | Some (i, t) \<Rightarrow>
             (let scheduled_run = (\<not> tk_manual_run t \<and> tk_retry_at t = None \<and> \<not> tk_manual_retry t);
                  was_missed = (scheduled_run \<and> 0 < since \<and> tk_due t < since);
                  was_overdue = (scheduled_run \<and> tk_due t < at);
                  replay_exhausted = (scheduled_run \<and> tk_missed t = ''replay'' \<and> 5 \<le> tk_replay_count t)
              in if was_missed \<and> tk_missed t = ''skip'' \<or> replay_exhausted
                 then (case skipped_task env at run t of
                         Inl e \<Rightarrow> (Inl e, w)
                       | Inr t' \<Rightarrow>
                           (case checked_response env call (skipped_item i t at run) of
                              Inl e \<Rightarrow> (Inl e, w)
                            | Inr r \<Rightarrow> commit_tasks env (badjust i (\<lambda>_. t') (fst w)) r w))
                 else (case checked_response env call (claimed_item i t run) of
                         Inl e \<Rightarrow> (Inl e, w)
                       | Inr r \<Rightarrow> commit_tasks env (badjust i (running_task run was_overdue) (fst w)) r w)))"

section \<open>Finishing a run\<close>

text \<open>The next time of a recurring task after a success, and its count of replayed runs.\<close>

definition due_after_success :: "('z, 'd) sched_env \<Rightarrow> bool \<Rightarrow> u64 \<Rightarrow> task \<Rightarrow> core_error + (u64 \<times> u8)" where
  "due_after_success env manual t task =
     (if \<not> manual then
        (case next_due env task (tk_due task) of
           Inl e \<Rightarrow> Inl e
         | Inr d \<Rightarrow>
             if tk_missed task = ''replay'' \<and> d \<le> t \<and> tk_replay_count task < 5 then Inr (d, tk_replay_count task)
             else (case next_due env task t of Inl e \<Rightarrow> Inl e | Inr d' \<Rightarrow> Inr (d', 0)))
      else if tk_due task \<le> t then (case next_due env task t of Inl e \<Rightarrow> Inl e | Inr d' \<Rightarrow> Inr (d', 0))
      else Inr (tk_due task, tk_replay_count task))"

definition backoff :: "u8 \<Rightarrow> u64" where
  "backoff attempts = 5 * 2 ^ min (unat attempts - 1) 6"

text \<open>The task after its run: cancelled, paused, waiting for its next time, completed, waiting for a
  retry, continuing after a failure, or paused for review.\<close>

definition settled_task :: "('z, 'd) sched_env \<Rightarrow> bool \<Rightarrow> bool \<Rightarrow> bool \<Rightarrow> bool \<Rightarrow> task \<Rightarrow> core_error + task" where
  "settled_task env cancelled pause success manual t =
     (if cancelled then Inr (t\<lparr>tk_status := ''cancelled'', tk_pause_requested := False\<rparr>)
      else if pause
      then Inr (t\<lparr>tk_status := ''paused'', tk_retry_at := None, tk_manual_run := False, tk_manual_retry := False,
                  tk_pause_requested := False\<rparr>)
      else if success \<and> recurring t
      then (case due_after_success env manual (sc_now env 0) t of
              Inl e \<Rightarrow> Inl e
            | Inr (d, n) \<Rightarrow> Inr (t\<lparr>tk_due := d, tk_replay_count := n, tk_status := ''active'', tk_attempts := 0,
                                 tk_retry_at := None, tk_manual_run := False, tk_manual_origin := False\<rparr>))
      else if success then Inr (t\<lparr>tk_status := ''completed''\<rparr>)
      else if tk_attempts t \<le> tk_retries t
      then Inr (t\<lparr>tk_retry_at := Some (sat_add (sc_now env 0) (backoff (tk_attempts t))), tk_status := ''active'',
                  tk_manual_run := False\<rparr>)
      else if tk_on_failure t = ''continue'' \<and> recurring t
      then (case next_due env t (sc_now env 0) of
              Inl e \<Rightarrow> Inl e
            | Inr d \<Rightarrow> Inr (t\<lparr>tk_due := d, tk_replay_count := 0, tk_status := ''active'', tk_attempts := 0,
                            tk_retry_at := None, tk_manual_run := False, tk_manual_retry := False,
                            tk_manual_origin := False\<rparr>))
      else Inr (t\<lparr>tk_status := ''paused'', tk_retry_at := None, tk_manual_run := False\<rparr>))"

definition outcome_of :: "bool \<Rightarrow> bool \<Rightarrow> task \<Rightarrow> string" where
  "outcome_of cancelled success t =
     (if cancelled then ''cancelled'' else if success then ''completed''
      else if tk_status t = ''active'' \<and> tk_retry_at t \<noteq> None then ''retrying''
      else if tk_status t = ''active'' then ''continuing'' else ''failed'')"

definition finish_report :: "('z, 'd) sched_env \<Rightarrow> json \<Rightarrow> bool \<Rightarrow> bool \<Rightarrow> bool \<Rightarrow> string \<Rightarrow> u64 \<Rightarrow> task \<Rightarrow> json" where
  "finish_report env params cancelled success manual result scheduled_for t = jobject
     [(''finished'', JBool True), (''status'', JStr (tk_status t)), (''due'', jword (tk_due t)),
      (''scheduled_for'', jword scheduled_for), (''retry_at'', jopt jword (tk_retry_at t)),
      (''attempts'', JInt (uint (tk_attempts t))), (''retries'', JInt (uint (tk_retries t))),
      (''on_failure'', JStr (tk_on_failure t)), (''success'', JBool success), (''cancelled'', JBool cancelled),
      (''finished_at'', jword (sc_now env 1)), (''manual'', JBool manual),
      (''retry'', JBool (json_index params ''retry'' = JBool True)), (''attempt'', JInt (uint (tk_attempts t))),
      (''missed'', JStr (tk_missed t)), (''scheduled_for'', jword scheduled_for), (''result'', JStr result)]"

definition finished_task :: "('z, 'd) sched_env \<Rightarrow> json \<Rightarrow> u64 \<Rightarrow> task \<Rightarrow> core_error + task" where
  "finished_task env params run t =
     (let success = unwrap_or (as_bool (json_index params ''success'')) False;
          result = unwrap_or (as_str (json_index params ''result'')) [];
          manual = unwrap_or (as_bool (json_index params ''manual'')) False;
          cancelled = (tk_cancel_requested t \<or> json_index params ''cancelled'' = JBool True);
          pause = (tk_pause_requested t \<or> json_index params ''pause'' = JBool True)
      in case settled_task env cancelled pause success manual (t\<lparr>tk_last_result := Some (take_chars 2000 result)\<rparr>) of
           Inl e \<Rightarrow> Inl e
         | Inr t1 \<Rightarrow> Inr (t1\<lparr>tk_last_outcome := Some (outcome_of cancelled success t1),
             tk_finished_run_id := Some run,
             tk_finish_result := Some (finish_report env params cancelled success manual result (tk_due t) t1),
             tk_report_pending := True\<rparr>))"

definition do_finish :: "('z, 'd) sched_env \<Rightarrow> json \<Rightarrow> 'd sched_world \<Rightarrow> (core_error + json) \<times> 'd sched_world" where
  "do_finish env params w =
     (case as_word (json_index params ''id'') of None \<Rightarrow> deny ''finish.id is required.'' w | Some i \<Rightarrow>
     (case bget (fst w) i of None \<Rightarrow> task_not_found w | Some t \<Rightarrow>
     (case (case as_word (json_index params ''run_id'') of Some r \<Rightarrow> Some r | None \<Rightarrow> tk_run_id t) of
        None \<Rightarrow> deny ''finish.run_id is required.'' w
      | Some run \<Rightarrow>
          if tk_finished_run_id t = Some run \<and> tk_finish_result t \<noteq> None
          then (Inr (the (tk_finish_result t)), w)
          else if tk_status t \<noteq> ''running'' then deny ''Scheduled task is not running.'' w
          else if tk_run_id t \<noteq> Some run then deny ''finish.run_id does not match the active execution.'' w
          else (case finished_task env params run t of
                  Inl e \<Rightarrow> (Inl e, w)
                | Inr t' \<Rightarrow> commit_tasks env (badjust i (\<lambda>_. t') (fst w)) (the (tk_finish_result t')) w))))"

definition do_cancelled :: "json \<Rightarrow> 'd sched_world \<Rightarrow> (core_error + json) \<times> 'd sched_world" where
  "do_cancelled params w =
     (case as_word (json_index params ''id'') of None \<Rightarrow> deny ''id is required.'' w | Some i \<Rightarrow>
        (Inr (jobject [(''cancelled'', JBool (case bget (fst w) i of None \<Rightarrow> False | Some t \<Rightarrow> tk_cancel_requested t))]), w))"

section \<open>Control\<close>

text \<open>The status a task gets from \<open>approve\<close>, \<open>pause\<close>, \<open>resume\<close>, \<open>run\<close> and \<open>retry\<close>.\<close>

definition control_status :: "string \<Rightarrow> string \<Rightarrow> core_error + string" where
  "control_status mode status =
     (if mode = ''approve'' \<and> status = ''pending'' then Inr ''active''
      else if mode = ''pause'' \<and> status = ''active'' then Inr ''paused''
      else if mode = ''pause'' \<and> status = ''running'' then Inr ''running''
      else if mode = ''resume'' \<and> status = ''paused'' then Inr ''active''
      else if mode = ''run'' \<and> status \<in> {''active'', ''completed'', ''skipped''} then Inr ''active''
      else if mode = ''retry'' \<and> status \<in> {''paused'', ''skipped''} then Inr ''active''
      else if mode = ''approve'' then Inl (Denied ''Only pending tasks can be approved.'')
      else if mode = ''pause'' then Inl (Denied ''Only active or running tasks can be paused.'')
      else if mode = ''run''
      then Inl (Denied ''Only active schedules or completed and skipped one-time tasks can be run now.'')
      else if mode = ''retry'' then Inl (Denied ''Only paused or skipped schedules can be retried.'')
      else Inl (Denied ''Only paused tasks can be resumed.''))"

definition controlled_task :: "string \<Rightarrow> string \<Rightarrow> task \<Rightarrow> task" where
  "controlled_task mode status t =
     (if mode = ''run''
      then t\<lparr>tk_manual_run := True, tk_manual_retry := False, tk_manual_origin := True, tk_cancel_requested := False,
             tk_retry_at := None, tk_attempts := 0, tk_pause_requested := False, tk_status := status\<rparr>
      else if mode = ''retry''
      then t\<lparr>tk_manual_run := True, tk_manual_retry := True, tk_cancel_requested := False, tk_retry_at := None,
             tk_attempts := 0, tk_pause_requested := False, tk_status := status\<rparr>
      else if mode = ''resume''
      then t\<lparr>tk_attempts := 0, tk_retry_at := None, tk_manual_run := False, tk_manual_retry := False,
             tk_manual_origin := False, tk_cancel_requested := False, tk_pause_requested := False, tk_status := status\<rparr>
      else if mode = ''pause''
      then (if tk_status t = ''running'' then t\<lparr>tk_pause_requested := True, tk_status := status\<rparr>
            else t\<lparr>tk_attempts := 0, tk_retry_at := None, tk_manual_run := False, tk_manual_retry := False,
                   tk_manual_origin := False, tk_pause_requested := False, tk_status := status\<rparr>)
      else t\<lparr>tk_status := status\<rparr>)"

definition do_control :: "('z, 'd) sched_env \<Rightarrow> string \<Rightarrow> json \<Rightarrow> 'd sched_world \<Rightarrow> (core_error + json) \<times> 'd sched_world" where
  "do_control env mode params w =
     (case as_word (json_index params ''id'') of None \<Rightarrow> deny ''id is required.'' w | Some i \<Rightarrow>
     (case bget (fst w) i of None \<Rightarrow> task_not_found w | Some t \<Rightarrow>
     (case control_status mode (tk_status t) of
        Inl e \<Rightarrow> (Inl e, w)
      | Inr status \<Rightarrow>
          (let t' = controlled_task mode status t in
           commit_tasks env (badjust i (\<lambda>_. t') (fst w))
             (jobject [(''id'', jword i), (''status'', JStr status), (''pause_requested'', JBool (tk_pause_requested t'))]) w))))"

section \<open>Recovery after a stop of the daemon\<close>

definition interrupted_text :: string where
  "interrupted_text = ''Execution was interrupted; review before resuming.''"

definition recovered_task :: "u64 \<Rightarrow> u64 \<Rightarrow> task \<Rightarrow> task" where
  "recovered_task time i t =
     t\<lparr>tk_status := ''paused'', tk_retry_at := None, tk_manual_run := False, tk_manual_retry := False,
       tk_cancel_requested := False, tk_pause_requested := False, tk_last_result := Some interrupted_text,
       tk_last_outcome := Some ''failed'', tk_run_id := None, tk_finished_run_id := Some (unwrap_or (tk_run_id t) i),
       tk_finish_result := Some (jobject [(''finished'', JBool True), (''status'', JStr ''paused''),
         (''success'', JBool False), (''cancelled'', JBool False), (''finished_at'', jword time),
         (''scheduled_for'', jword (tk_due t)), (''result'', JStr interrupted_text)]),
       tk_report_pending := True\<rparr>"

text \<open>The tasks that are kept, and how many were recovered and how many of them cancelled.\<close>

fun recover_tasks :: "(nat \<Rightarrow> u64) \<Rightarrow> u64 set \<Rightarrow> nat \<Rightarrow> tasks \<Rightarrow> tasks \<times> nat \<times> nat" where
  "recover_tasks clock active k [] = ([], 0, 0)"
| "recover_tasks clock active k ((i, t) # rest) =
     (let (rest', r, c) = recover_tasks clock active (Suc k) rest in
      if tk_status t \<noteq> ''running'' \<or> i \<in> active then ((i, t) # rest', r, c)
      else if tk_cancel_requested t then (rest', r + 1, c + 1)
      else ((i, recovered_task (clock k) i t) # rest', r + 1, c))"

definition do_recover :: "('z, 'd) sched_env \<Rightarrow> json \<Rightarrow> 'd sched_world \<Rightarrow> (core_error + json) \<times> 'd sched_world" where
  "do_recover env params w =
     (let active = set (List.map_filter as_word (unwrap_or (as_array (json_index params ''active'')) []));
          (new, recovered, cancelled) = recover_tasks (sc_now env) active 0 (fst w);
          v = jobject [(''recovered'', JInt (int recovered)), (''cancelled'', JInt (int cancelled))]
      in if 0 < recovered \<or> 0 < cancelled then commit_tasks env new v w else (Inr v, w))"

definition do_due :: "('z, 'd) sched_env \<Rightarrow> json \<Rightarrow> 'd sched_world \<Rightarrow> (core_error + json) \<times> 'd sched_world" where
  "do_due env params w =
     (let at = unwrap_or (as_word (json_index params ''at'')) (sc_now env 0) in
      (Inr (jobject [(''items'', JArr (map (\<lambda>(i, t). jobject [(''id'', jword i), (''text'', JStr (tk_text t)),
          (''due'', jword (tk_due t))]) (filter (\<lambda>(i, t). tk_status t = ''active'' \<and> tk_due t \<le> at) (fst w))))]), w))"

section \<open>Removing a task\<close>

text \<open>A running task is not removed: its cancellation is requested.\<close>

definition do_remove :: "('z, 'd) sched_env \<Rightarrow> json \<Rightarrow> 'd sched_world \<Rightarrow> (core_error + json) \<times> 'd sched_world" where
  "do_remove env params w =
     (case as_word (json_index params ''id'') of None \<Rightarrow> deny ''remove.id is required.'' w | Some i \<Rightarrow>
        (let requested = (case bget (fst w) i of None \<Rightarrow> False | Some t \<Rightarrow> tk_status t = ''running'');
             new = (if requested then badjust i (\<lambda>t. t\<lparr>tk_cancel_requested := True\<rparr>) (fst w) else bremove i (fst w))
         in case persist env new (snd w) of
              (Inl e, d') \<Rightarrow> (Inl e, (fst w, d'))
            | (Inr u, d') \<Rightarrow>
                (Inr (if requested then jobject [(''deleted'', JBool False), (''cancel_requested'', JBool True)]
                      else jobject [(''deleted'', JBool (bget (fst w) i \<noteq> None))]), (new, d'))))"

section \<open>The call\<close>

definition methods :: "string list" where
  "methods = [''add'', ''reports'', ''report'', ''list'', ''claim'', ''finish'', ''cancelled'', ''approve'', ''pause'',
     ''resume'', ''run'', ''retry'', ''recover'', ''due'', ''remove'']"

definition dispatch :: "('z, 'd) sched_env \<Rightarrow> string \<Rightarrow> json \<Rightarrow> 'd sched_world \<Rightarrow> (core_error + json) \<times> 'd sched_world" where
  "dispatch env mode params w =
     (if mode = ''add'' then do_add env params w
      else if mode = ''reports'' then do_reports params w
      else if mode = ''report'' then do_report env params w
      else if mode = ''list'' then do_list params w
      else if mode = ''finish'' then do_finish env params w
      else if mode = ''cancelled'' then do_cancelled params w
      else if mode = ''recover'' then do_recover env params w
      else if mode = ''due'' then do_due env params w
      else if mode = ''remove'' then do_remove env params w
      else do_control env mode params w)"

fun call_at :: "('z, 'd) sched_env \<Rightarrow> request \<Rightarrow> 'd sched_world \<Rightarrow> (core_error + response option) \<times> 'd sched_world" where
  "call_at env (Note v m ps) w = (Inr None, w)"
| "call_at env (Call v i mode params) w =
     (if mode \<notin> set methods then (Inr None, w)
      else if mode = ''claim''
      then (case do_claim env i params w of (Inl e, w') \<Rightarrow> (Inl e, w') | (Inr r, w') \<Rightarrow> (Inr (Some r), w'))
      else (case dispatch env mode params w of
              (Inl e, w') \<Rightarrow> (Inl e, w')
            | (Inr result, w') \<Rightarrow>
                (case checked_response env i result of Inl e \<Rightarrow> (Inl e, w') | Inr r \<Rightarrow> (Inr (Some r), w'))))"

end
