(* ===== verification/Scheduler_Laws.thy ===== *)
theory Scheduler_Laws
  imports Scheduler Cron_Laws
begin

text \<open>
  The invariant of the scheduler's tasks and its preservation by every call. The scheduler uses
  the search for the next occurrence through the locale \<open>occurrence_source\<close>, which
  \<open>cron_next\<close> satisfies.
\<close>

section \<open>The source of occurrences\<close>

text \<open>The next time of a task after \<open>t\<close>, by its interval or its expression.\<close>

definition advance :: "(string \<Rightarrow> string \<Rightarrow> u64 \<Rightarrow> core_error + u64) \<Rightarrow> string option \<Rightarrow> string \<Rightarrow> u64 \<Rightarrow> u64 \<Rightarrow>
    core_error + u64" where
  "advance next_run cron zone rep t = (case cron of None \<Rightarrow> Inr (sat_add t rep) | Some c \<Rightarrow> next_run c zone t)"

locale occurrence_source =
  fixes next_run :: "string \<Rightarrow> string \<Rightarrow> u64 \<Rightarrow> core_error + u64"
  assumes later: "next_run c z t = Inr u \<Longrightarrow> t < u \<or> u = - 1"
begin

lemma advance_later:
  assumes "advance next_run cron zone rep t = Inr u" and "cron \<noteq> None \<or> 0 < rep"
  shows "t < u \<or> u = - 1"
proof (cases cron)
  case None
  then have u: "u = sat_add t rep" "0 < rep" using assms by (auto simp: advance_def)
  show ?thesis
  proof (cases "unat t + unat rep < 2 ^ 64")
    case True
    then have "unat u = unat t + unat rep" using unat_sat_add [of t rep] by (simp add: u(1))
    moreover have "0 < unat rep" using u(2) by (simp add: word_less_nat_alt)
    ultimately show ?thesis by (simp add: word_less_nat_alt)
  qed (simp add: u(1) sat_add_def)
qed (use assms later in \<open>auto simp: advance_def\<close>)

end

lemma next_from_after: "next_from jf c z stop s = Inr t \<Longrightarrow> s \<le> t"
proof (induction jf c z stop s rule: next_from.induct)
  case (1 jf c z stop s)
  show ?case
  proof (cases "s < stop \<and> \<not> 2 ^ 63 \<le> unat s")
    case True
    show ?thesis
    proof (cases "tz_local jf z (unat s)")
      case (Inl e)
      then show ?thesis using 1(2) True by (simp add: next_from.simps [of jf c z stop s])
    next
      case (Inr f)
      show ?thesis
      proof (cases "cron_matches c f")
        case True
        then show ?thesis using 1(2) Inr \<open>s < stop \<and> \<not> 2 ^ 63 \<le> unat s\<close>
          by (simp add: next_from.simps [of jf c z stop s])
      next
        case False
        then have "next_from jf c z stop (sat_add s (jump c f)) = Inr t"
          using 1(2) Inr True by (simp add: next_from.simps [of jf c z stop s])
        with 1(1) [OF _ _ Inr False] True have "sat_add s (jump c f) \<le> t" by simp
        with sat_add_ge [of s "jump c f"] show ?thesis by simp
      qed
    qed
  qed (use 1(2) in \<open>auto simp: next_from.simps [of jf c z stop s] split: if_splits\<close>)
qed

lemma cron_next_later: "cron_next jf c z t = Inr u \<Longrightarrow> t < u \<or> u = - 1"
proof -
  assume r: "cron_next jf c z t = Inr u"
  show ?thesis
  proof (cases "u = - 1")
    case False
    define start where "start = sat_add t (60 - t mod 60)"
    obtain s zn where s: "next_from jf s zn (sat_add start (8 * 366 * 24 * 60 * 60)) start = Inr u"
      and le: "\<not> 2 ^ 63 - 1 < unat start"
      using r False unfolding cron_next_def Let_def start_def [symmetric]
      by (auto simp only: sum.inject split: if_splits sum.splits)
    have "unat t < unat start"
      using next_minute [of t] le dividend_less_div_times [of 60 "unat t"] by (simp add: start_def)
    moreover have "start \<le> u" by (rule next_from_after [OF s])
    ultimately show ?thesis by (simp add: word_less_nat_alt word_le_nat_alt)
  qed simp
qed

interpretation cron: occurrence_source "cron_next jf"
  by unfold_locales (rule cron_next_later)

lemma next_due_advance: "next_due env t s = advance (cron_next (sc_jiff env)) (tk_cron t) (tk_zone t) (tk_repeat t) s"
  by (simp add: next_due_def advance_def)

lemma next_due_later: "next_due env t s = Inr u \<Longrightarrow> recurring t \<Longrightarrow> s < u \<or> u = - 1"
  using cron.advance_later [of "sc_jiff env" "tk_cron t" "tk_zone t" "tk_repeat t" s u]
  by (simp add: next_due_advance recurring_def)

section \<open>The invariant\<close>

definition statuses :: "string set" where
  "statuses = {''pending'', ''active'', ''running'', ''paused'', ''completed'', ''skipped'', ''cancelled''}"

definition task_ok :: "task \<Rightarrow> bool" where
  "task_ok t \<longleftrightarrow> tk_status t \<in> statuses \<and> valid_schedule_name (tk_name t)
     \<and> tk_retries t \<le> 5 \<and> tk_replay_count t \<le> 5
     \<and> unat (tk_attempts t) \<le> unat (tk_retries t) + 1
     \<and> (tk_status t = ''active'' \<longrightarrow> tk_attempts t \<le> tk_retries t)
     \<and> (tk_status t = ''pending'' \<longrightarrow> tk_attempts t = 0)
     \<and> (tk_status t = ''running'' \<longrightarrow> tk_run_id t \<noteq> None \<and> \<not> tk_manual_run t \<and> \<not> tk_manual_retry t)
     \<and> (tk_retry_at t \<noteq> None \<longrightarrow> tk_status t = ''active'')
     \<and> (tk_report_pending t \<longrightarrow> tk_finished_run_id t \<noteq> None \<and> tk_finish_result t \<noteq> None)"

definition tasks_ok :: "tasks \<Rightarrow> bool" where
  "tasks_ok m \<longleftrightarrow> bmap_ok m \<and> length m \<le> TASK_LIMIT \<and> distinct (map tk_name (bvalues m))
     \<and> (\<forall>(i, t) \<in> set m. task_ok t)"

lemma tasks_ok_get: "tasks_ok m \<Longrightarrow> bget m i = Some t \<Longrightarrow> task_ok t"
  by (auto simp: tasks_ok_def dest!: map_of_SomeD)

lemma tasks_ok_Nil: "tasks_ok []"
  by (simp add: tasks_ok_def)

lemma names_adjust:
  "distinct (bkeys m) \<Longrightarrow> (\<And>t. bget m i = Some t \<Longrightarrow> tk_name (f t) = tk_name t) \<Longrightarrow>
     map tk_name (bvalues (badjust i f m)) = map tk_name (bvalues m)"
proof (induction m)
  case (Cons x m)
  obtain k t where x: "x = (k, t)" by (cases x)
  show ?case
  proof (cases "k = i")
    case True
    with Cons.prems x have "i \<notin> set (bkeys m)" by auto
    then have "badjust i f m = m" by (force simp: badjust_def intro!: map_idI)
    then show ?thesis using True x Cons.prems(2) [of t] by (simp add: badjust_def)
  next
    case False
    with Cons x show ?thesis by (simp add: badjust_def)
  qed
qed (simp add: badjust_def)

lemma tasks_ok_adjust:
  assumes "tasks_ok m" and "\<And>t. bget m i = Some t \<Longrightarrow> task_ok t \<Longrightarrow> task_ok (f t) \<and> tk_name (f t) = tk_name t"
  shows "tasks_ok (badjust i f m)"
proof -
  have m: "bmap_ok m" "length m \<le> TASK_LIMIT" "distinct (map tk_name (bvalues m))" "\<forall>(i, t) \<in> set m. task_ok t"
    using assms(1) by (auto simp: tasks_ok_def)
  have "map tk_name (bvalues (badjust i f m)) = map tk_name (bvalues m)"
    using names_adjust [OF bmap_ok_distinct [OF m(1)]] assms(2) tasks_ok_get [OF assms(1)] by blast
  moreover have "task_ok t'" if "(k, t') \<in> set (badjust i f m)" for k t'
  proof -
    from that have "(k, t') \<in> (\<lambda>(k, t). (k, if k = i then f t else t)) ` set m" by (simp add: badjust_def)
    then obtain t where t: "(k, t) \<in> set m" "t' = (if k = i then f t else t)" by auto
    then have "bget m k = Some t" using m(1) by (simp add: bmap_ok_distinct)
    then show ?thesis using t assms(2) [of t] m(4) by auto
  qed
  moreover have "length (badjust i f m) = length m" by (simp add: badjust_def)
  ultimately show ?thesis using m by (auto simp: tasks_ok_def simp del: map_map)
qed

lemma tasks_ok_filter: "tasks_ok m \<Longrightarrow> tasks_ok (filter p m)"
proof -
  assume ok: "tasks_ok m"
  have "distinct (map tk_name (map snd m)) \<Longrightarrow> distinct (map tk_name (map snd (filter p m)))"
    by (induction m) auto
  moreover have "length (filter p m) \<le> length m" by simp
  ultimately show ?thesis using ok
    by (auto simp: tasks_ok_def bmap_ok_filter simp del: length_filter_le map_map)
qed

lemma tasks_ok_remove: "tasks_ok m \<Longrightarrow> tasks_ok (bremove i m)"
  by (simp add: bremove_def tasks_ok_filter)

lemma binsert_values: "set (bvalues (binsert k v m)) \<subseteq> insert v (set (bvalues m))"
  using binsert_set [of k v m] by auto

lemma binsert_new_names:
  "bget m k = None \<Longrightarrow> distinct (map g (bvalues m)) \<Longrightarrow> g v \<notin> set (map g (bvalues m)) \<Longrightarrow>
     distinct (map g (bvalues (binsert k v m)))"
proof (induction k v m rule: binsert.induct)
  case (2 k v k' v' m)
  have "g ` snd ` set (binsert k v m) \<subseteq> insert (g v) (g ` snd ` set m)"
    using binsert_values [of k v m] by (metis image_insert image_mono list.set_map)
  with 2 show ?case by (auto split: if_splits simp: image_image)
qed simp

lemma length_binsert_new: "bget m k = None \<Longrightarrow> length (binsert k v m) = Suc (length m)"
  by (induction k v m rule: binsert.induct) (auto split: if_splits)

lemma tasks_ok_insert:
  assumes "tasks_ok m" and "bget m i = None" and "length m < TASK_LIMIT" and "task_ok t"
    and "tk_name t \<notin> set (map tk_name (bvalues m))"
  shows "tasks_ok (binsert i t m)"
proof -
  have "distinct (map tk_name (bvalues (binsert i t m)))"
    using assms(1,2,5) by (intro binsert_new_names) (simp_all add: tasks_ok_def)
  moreover have "\<forall>(k, x) \<in> set (binsert i t m). task_ok x"
    using binsert_set [of i t m] assms(1,4) by (fastforce simp: tasks_ok_def)
  ultimately show ?thesis
    using assms(1,3) by (simp add: tasks_ok_def bmap_ok_insert length_binsert_new [OF assms(2)])
qed

section \<open>What the parts of a call make of a task\<close>

text \<open>A chain of checks that ends in a result has passed every check.\<close>

lemma check_passed: "(if b then Inl e else x) = Inr t \<Longrightarrow> (\<not> b \<Longrightarrow> x = Inr t \<Longrightarrow> P) \<Longrightarrow> P"
  by (auto split: if_splits)

lemma bind_passed:
  "(case r of Inl e \<Rightarrow> Inl e | Inr u \<Rightarrow> f u) = Inr t \<Longrightarrow> (\<And>u. r = Inr u \<Longrightarrow> f u = Inr t \<Longrightarrow> P) \<Longrightarrow> P"
  by (cases r) auto

lemmas passed = check_passed bind_passed

lemma new_task_ok:
  assumes "new_task env params name text = Inr t" and "valid_schedule_name name"
  shows "task_ok t" and "tk_name t = name" and "tk_status t \<in> {''pending'', ''active''}"
proof -
  define retries where "retries = unwrap_or (as_word (json_index params ''retries'')) 0"
  have "\<not> 5 < retries \<and> tk_name t = name \<and> tk_status t \<in> {''pending'', ''active''} \<and> tk_retries t = ucast retries
      \<and> tk_replay_count t = 0 \<and> tk_attempts t = 0 \<and> tk_retry_at t = None \<and> \<not> tk_report_pending t"
    using assms(1) unfolding new_task_def Let_def retries_def [symmetric]
    by (elim passed) (simp add: sum.inject, elim conjE, hypsubst, simp)
  then have r: "\<not> 5 < retries" and t: "tk_name t = name \<and> tk_status t \<in> {''pending'', ''active''} \<and> tk_retries t = ucast retries
      \<and> tk_replay_count t = 0 \<and> tk_attempts t = 0 \<and> tk_retry_at t = None \<and> \<not> tk_report_pending t"
    by simp_all
  have "unat retries \<le> 5" using r by (simp add: word_less_nat_alt)
  then have "unat (ucast retries :: u8) \<le> 5" by (simp add: unsigned_ucast_eq take_bit_nat_eq_self)
  then have "(ucast retries :: u8) \<le> 5" by (simp add: word_le_nat_alt)
  then show "task_ok t" "tk_name t = name" "tk_status t \<in> {''pending'', ''active''}"
    using t assms(2) by (auto simp: task_ok_def statuses_def)
qed

lemma u8_succ: "x < y \<Longrightarrow> unat (sat_add x 1) = unat x + 1" for x y :: u8
proof -
  assume "x < y"
  then have "unat x < unat y" by (simp add: word_less_nat_alt)
  moreover have "unat y < 256" using unsigned_less [of y, where ?'a = nat] by simp
  ultimately show ?thesis by (simp add: unat_sat_add)
qed

lemma running_task_ok:
  assumes "task_ok t" and "tk_status t = ''active''" and "overdue \<longrightarrow> tk_missed t = ''replay'' \<longrightarrow> tk_replay_count t < 5"
  shows "task_ok (running_task run overdue t)"
proof -
  have a: "tk_attempts t \<le> tk_retries t" "tk_retries t \<le> 5" "tk_replay_count t \<le> 5" using assms(1,2) by (auto simp: task_ok_def)
  then have "tk_attempts t < 6" by (simp add: word_le_nat_alt word_less_nat_alt)
  then have "unat (sat_add (tk_attempts t) 1) = unat (tk_attempts t) + 1" by (rule u8_succ)
  moreover have "unat (tk_attempts t) \<le> unat (tk_retries t)" using a(1) by (simp add: word_le_nat_alt)
  moreover have "sat_add (tk_replay_count t) 1 \<le> 5" if "tk_replay_count t < 5"
    using u8_succ [OF that] that by (simp add: word_le_nat_alt word_less_nat_alt)
  ultimately show ?thesis using assms by (auto simp: task_ok_def running_task_def statuses_def)
qed

lemma skipped_task_ok:
  "skipped_task env at run t = Inr t' \<Longrightarrow> task_ok t \<Longrightarrow> tk_status t = ''active'' \<Longrightarrow> tk_retry_at t = None \<Longrightarrow>
     task_ok t' \<and> tk_name t' = tk_name t"
  by (auto simp: skipped_task_def task_ok_def statuses_def word_le_nat_alt split: if_splits sum.splits)

lemma due_after_success_replay:
  "due_after_success env manual time t = Inr (d, n) \<Longrightarrow> tk_replay_count t \<le> 5 \<Longrightarrow> n \<le> 5"
  by (auto simp: due_after_success_def split: if_splits sum.splits)

lemma settled_task_ok:
  assumes "settled_task env cancelled pause success manual t = Inr t'" and "task_ok t" and "tk_status t = ''running''"
  shows "task_ok (t'\<lparr>tk_last_outcome := oc, tk_finished_run_id := Some run, tk_finish_result := Some fr, tk_report_pending := True\<rparr>)
    \<and> tk_name t' = tk_name t"
  using assms due_after_success_replay [of env manual "sc_now env 0" t]
  by (auto simp: settled_task_def task_ok_def statuses_def split: if_splits sum.splits)

lemma finished_task_ok:
  assumes "finished_task env params run t = Inr t'" and "task_ok t" and "tk_status t = ''running''"
  shows "task_ok t' \<and> tk_name t' = tk_name t"
proof -
  define t0 where "t0 = t\<lparr>tk_last_result := Some (take_chars 2000 (unwrap_or (as_str (json_index params ''result'')) []))\<rparr>"
  have t0: "task_ok t0" "tk_status t0 = ''running''" "tk_name t0 = tk_name t" using assms(2,3) by (auto simp: t0_def task_ok_def)
  obtain c p s m t1 oc fr where "settled_task env c p s m t0 = Inr t1"
    "t' = t1\<lparr>tk_last_outcome := oc, tk_finished_run_id := Some run, tk_finish_result := Some fr, tk_report_pending := True\<rparr>"
    using assms(1) unfolding finished_task_def Let_def t0_def [symmetric] by (auto split: sum.splits)
  with settled_task_ok [OF this(1) t0(1,2)] t0(3) show ?thesis by simp
qed

lemma pick_first: "(if b then Inr x else y) = Inr s \<Longrightarrow> (b \<Longrightarrow> x = s \<Longrightarrow> P) \<Longrightarrow> (y = Inr s \<Longrightarrow> P) \<Longrightarrow> P"
  by (auto split: if_splits)

lemma control_status_cases:
  assumes "control_status mode st = Inr s"
  shows "mode = ''approve'' \<and> st = ''pending'' \<and> s = ''active''
    \<or> mode = ''pause'' \<and> st = ''active'' \<and> s = ''paused''
    \<or> mode = ''pause'' \<and> st = ''running'' \<and> s = ''running''
    \<or> mode = ''resume'' \<and> st = ''paused'' \<and> s = ''active''
    \<or> mode = ''run'' \<and> st \<in> {''active'', ''completed'', ''skipped''} \<and> s = ''active''
    \<or> mode = ''retry'' \<and> st \<in> {''paused'', ''skipped''} \<and> s = ''active''"
  using assms unfolding control_status_def
  by (elim pick_first passed) (elim conjE, hypsubst, simp | simp)+

lemma controlled_task_ok:
  assumes "control_status mode (tk_status t) = Inr status" and "task_ok t"
  shows "task_ok (controlled_task mode status t) \<and> tk_name (controlled_task mode status t) = tk_name t"
  using control_status_cases [OF assms(1)] assms(2)
  by (elim disjE conjE) (auto simp: controlled_task_def task_ok_def statuses_def)

lemma recovered_task_ok: "task_ok t \<Longrightarrow> task_ok (recovered_task time i t) \<and> tk_name (recovered_task time i t) = tk_name t"
  by (auto simp: task_ok_def recovered_task_def statuses_def)

end
