(* ===== verification/Scheduler_Machine.thy ===== *)
theory Scheduler_Machine
  imports Scheduler_Laws
begin

text \<open>
  The scheduler as a state machine. \<open>sched_step\<close> lists what one call can do to the tasks;
  \<open>life\<close> is the abstract life of one task, which every step refines; \<open>sched_reachable\<close> the
  tasks the plugin can get to from an empty state, under any clock, disk and order of calls.
\<close>

section \<open>Steps\<close>

inductive sched_step :: "('z, 'd) sched_env \<Rightarrow> string \<Rightarrow> json \<Rightarrow> tasks \<Rightarrow> tasks \<Rightarrow> bool" for env where
  added: "new_task env ps name text = Inr t \<Longrightarrow> valid_schedule_name name \<Longrightarrow>
     name \<notin> set (map tk_name (bvalues m)) \<Longrightarrow> bget m i = None \<Longrightarrow> length m < TASK_LIMIT \<Longrightarrow>
     sched_step env ''add'' ps m (binsert i t m)"
| reported: "bget m i = Some t \<Longrightarrow>
     sched_step env ''report'' ps m (badjust i (\<lambda>t. t\<lparr>tk_report_pending := False\<rparr>) m)"
| claimed: "bget m i = Some t \<Longrightarrow> ready_for_claim_at at t \<Longrightarrow>
     overdue \<longrightarrow> tk_missed t = ''replay'' \<longrightarrow> tk_replay_count t < 5 \<Longrightarrow>
     sched_step env ''claim'' ps m (badjust i (running_task run overdue) m)"
| skipped: "bget m i = Some t \<Longrightarrow> ready_for_claim_at at t \<Longrightarrow> tk_retry_at t = None \<Longrightarrow>
     skipped_task env at run t = Inr t' \<Longrightarrow> sched_step env ''claim'' ps m (badjust i (\<lambda>_. t') m)"
| finished: "as_word (json_index ps ''id'') = Some i \<Longrightarrow> bget m i = Some t \<Longrightarrow> tk_status t = ''running'' \<Longrightarrow>
     tk_run_id t = Some run \<Longrightarrow> as_word (json_index ps ''run_id'') \<in> {None, Some run} \<Longrightarrow>
     finished_task env ps run t = Inr t' \<Longrightarrow> sched_step env ''finish'' ps m (badjust i (\<lambda>_. t') m)"
| controlled: "bget m i = Some t \<Longrightarrow> control_status mode (tk_status t) = Inr status \<Longrightarrow>
     sched_step env mode ps m (badjust i (\<lambda>_. controlled_task mode status t) m)"
| recovered: "active = set (List.map_filter as_word (unwrap_or (as_array (json_index ps ''active'')) [])) \<Longrightarrow>
     recover_tasks (sc_now env) active 0 m = (m', r, c) \<Longrightarrow> sched_step env ''recover'' ps m m'"
| cancelling: "bget m i = Some t \<Longrightarrow> tk_status t = ''running'' \<Longrightarrow>
     sched_step env ''remove'' ps m (badjust i (\<lambda>t. t\<lparr>tk_cancel_requested := True\<rparr>) m)"
| removed: "(\<And>t. bget m i = Some t \<Longrightarrow> tk_status t \<noteq> ''running'') \<Longrightarrow> sched_step env ''remove'' ps m (bremove i m)"

text \<open>A call either leaves the tasks as they are, or takes a step.\<close>

definition stays_or_steps :: "('z, 'd) sched_env \<Rightarrow> string \<Rightarrow> json \<Rightarrow> 'd sched_world \<Rightarrow> (core_error + 'a) \<times> 'd sched_world \<Rightarrow> bool" where
  "stays_or_steps env mode ps w out \<longleftrightarrow> fst (snd out) = fst w \<or> is_ok (fst out) \<and> sched_step env mode ps (fst w) (fst (snd out))"

named_theorems stay_intros \<open>calls that leave the tasks as they are or take a step\<close>

lemma stays_deny [stay_intros]: "stays_or_steps env mode ps w (deny m w)"
  by (simp add: stays_or_steps_def deny_def)

lemma stays_same [stay_intros]: "stays_or_steps env mode ps w (r, w)"
  by (simp add: stays_or_steps_def)

lemma stays_not_found [stay_intros]: "stays_or_steps env mode ps w (task_not_found w)"
  by (simp add: task_not_found_def stays_deny)

lemma stays_commit [stay_intros]: "sched_step env mode ps (fst w) new \<Longrightarrow> stays_or_steps env mode ps w (commit_tasks env new v w)"
  by (auto simp: stays_or_steps_def commit_tasks_def split: prod.split sum.split)

lemma stays_persist [stay_intros]:
  "sched_step env mode ps (fst w) new \<Longrightarrow> stays_or_steps env mode ps w
     (case persist env new (snd w) of (Inl e, d') \<Rightarrow> (Inl e, (fst w, d')) | (Inr u, d') \<Rightarrow> (Inr v, (new, d')))"
  by (auto simp: stays_or_steps_def split: prod.split sum.split)

lemma do_add_stays: "stays_or_steps env ''add'' params w (do_add env params w)"
  unfolding do_add_def Let_def
  by (auto intro!: stay_intros sched_step.added split: option.split sum.split)

lemma do_reports_stays: "stays_or_steps env ''reports'' params w (do_reports params w)"
  by (simp add: do_reports_def Let_def stays_same)

lemma do_report_stays: "stays_or_steps env ''report'' params w (do_report env params w)"
  unfolding do_report_def Let_def
  by (auto intro!: stay_intros intro: sched_step.reported split: option.split)

lemma do_list_stays: "stays_or_steps env ''list'' params w (do_list params w)"
  unfolding do_list_def Let_def by (auto intro!: stay_intros)

lemma least_due_in: "least_due xs = Some x \<Longrightarrow> x \<in> set xs"
  by (induction xs arbitrary: x) (auto split: option.splits if_splits)

lemma least_due_None: "least_due xs = None \<longleftrightarrow> xs = []"
  by (cases xs) (auto split: option.splits)

lemma least_due_least: "least_due xs = Some x \<Longrightarrow> y \<in> set xs \<Longrightarrow> tk_due (snd x) \<le> tk_due (snd y)"
  by (induction xs arbitrary: x) (auto simp: least_due_None split: option.splits if_splits)

lemma claim_pick:
  assumes "bmap_ok m" and "least_due (filter (\<lambda>(i, t). ready_for_claim_at at t) m) = Some (i, t)"
  shows "bget m i = Some t" and "ready_for_claim_at at t"
    and "\<And>j u. bget m j = Some u \<Longrightarrow> ready_for_claim_at at u \<Longrightarrow> tk_due t \<le> tk_due u"
proof -
  have "(i, t) \<in> set m" "ready_for_claim_at at t" using least_due_in [OF assms(2)] by auto
  then show "bget m i = Some t" "ready_for_claim_at at t" using assms(1) by (simp_all add: bmap_ok_distinct)
  show "tk_due t \<le> tk_due u" if "bget m j = Some u" "ready_for_claim_at at u" for j u
    using least_due_least [OF assms(2), of "(j, u)"] that by (auto dest: map_of_SomeD)
qed

lemma do_claim_stays: "bmap_ok (fst w) \<Longrightarrow> stays_or_steps env ''claim'' params w (do_claim env call params w)"
proof -
  assume ok: "bmap_ok (fst w)"
  note pick = claim_pick [OF ok]
  have le: "\<not> 5 \<le> x \<Longrightarrow> x < 5" for x :: u8 by simp
  show ?thesis
    unfolding do_claim_def Let_def
    by (auto intro!: stay_intros intro: sched_step.skipped sched_step.claimed pick le split: option.split sum.split)
qed

lemma do_finish_stays: "stays_or_steps env ''finish'' params w (do_finish env params w)"
  unfolding do_finish_def Let_def
  by (auto intro!: stay_intros intro: sched_step.finished split: option.split sum.split)

lemma do_cancelled_stays: "stays_or_steps env ''cancelled'' params w (do_cancelled params w)"
  unfolding do_cancelled_def by (auto intro!: stay_intros split: option.split)

lemma do_control_stays: "stays_or_steps env mode params w (do_control env mode params w)"
  unfolding do_control_def Let_def
  by (auto intro!: stay_intros intro: sched_step.controlled split: option.split sum.split)

lemma do_recover_stays: "stays_or_steps env ''recover'' params w (do_recover env params w)"
  unfolding do_recover_def Let_def
  by (auto intro!: stay_intros intro: sched_step.recovered split: prod.split)

lemma do_due_stays: "stays_or_steps env ''due'' params w (do_due env params w)"
  by (simp add: do_due_def Let_def stays_same)

lemma do_remove_stays: "stays_or_steps env ''remove'' params w (do_remove env params w)"
  unfolding do_remove_def Let_def
  by (auto intro!: stay_intros intro: sched_step.cancelling sched_step.removed split: option.split)

lemmas op_stays = do_add_stays do_reports_stays do_report_stays do_list_stays do_finish_stays do_cancelled_stays
  do_control_stays do_recover_stays do_due_stays do_remove_stays

lemma dispatch_stays: "stays_or_steps env mode params w (dispatch env mode params w)"
  by (simp add: dispatch_def op_stays)

definition frame_error :: core_error where
  "frame_error = Denied ''Scheduler response exceeds the protocol frame limit.''"

lemma call_steps:
  assumes "call_at env (Call v i mode params) w = (r, w')" and "bmap_ok (fst w)"
  shows "fst w' = fst w \<or> sched_step env mode params (fst w) (fst w') \<and> (is_ok r \<or> r = Inl frame_error)"
proof (cases "mode \<in> set methods \<and> mode \<noteq> ''claim''")
  case True
  obtain x u where d: "dispatch env mode params w = (x, u)" by (cases "dispatch env mode params w")
  have "fst u = fst w \<or> is_ok x \<and> sched_step env mode params (fst w) (fst u)"
    using dispatch_stays [of env mode params w] by (simp add: stays_or_steps_def d)
  moreover have "w' = u \<and> (is_ok x \<longrightarrow> is_ok r \<or> r = Inl frame_error)"
    using assms(1) True by (auto simp: d checked_response_def frame_error_def split: sum.splits if_splits)
  ultimately show ?thesis by auto
next
  case False
  show ?thesis
  proof (cases "mode = ''claim''")
    case True
    obtain x u where d: "do_claim env i params w = (x, u)" by (cases "do_claim env i params w")
    have "fst u = fst w \<or> is_ok x \<and> sched_step env mode params (fst w) (fst u)"
      using do_claim_stays [OF assms(2), of env params i] by (simp add: stays_or_steps_def d True)
    moreover have "w' = u \<and> (is_ok x \<longrightarrow> is_ok r)"
      using assms(1) True by (auto simp: d methods_def split: sum.splits)
    ultimately show ?thesis by auto
  qed (use assms(1) False in auto)
qed

lemma note_stays: "call_at env (Note v mode params) w = (r, w') \<Longrightarrow> w' = w"
  by simp

section \<open>The invariant is kept\<close>

lemma recover_tasks_ok:
  "recover_tasks clock active k m = (m', r, c) \<Longrightarrow> tasks_ok m \<Longrightarrow>
     tasks_ok m' \<and> length m' \<le> length m \<and> set (bkeys m') \<subseteq> set (bkeys m) \<and> set (map tk_name (bvalues m')) \<subseteq> set (map tk_name (bvalues m))"
proof (induction clock active k m arbitrary: m' r c rule: recover_tasks.induct)
  case (2 clock active k i t rest)
  obtain rest' r1 c1 where r: "recover_tasks clock active (Suc k) rest = (rest', r1, c1)" by (metis prod_cases3)
  have t: "task_ok t" and ok: "tasks_ok rest" and new: "tk_name t \<notin> set (map tk_name (bvalues rest))"
    and i: "\<forall>j \<in> set (bkeys rest). i < j"
    using "2.prems"(2) by (auto simp: tasks_ok_def bmap_ok_def)
  from "2.IH" [OF r ok] have ih: "tasks_ok rest'" "length rest' \<le> length rest" "set (bkeys rest') \<subseteq> set (bkeys rest)"
    "set (map tk_name (bvalues rest')) \<subseteq> set (map tk_name (bvalues rest))"
    by blast+
  have cons: "tasks_ok ((i, t') # rest')" if "task_ok t'" "tk_name t' = tk_name t" for t'
  proof -
    have "\<forall>j \<in> set (bkeys rest'). i < j" using ih(3) i by blast
    moreover have "tk_name t' \<notin> set (map tk_name (bvalues rest'))" using ih(4) new unfolding that(2) by blast
    moreover have "Suc (length rest') \<le> TASK_LIMIT" using ih(2) "2.prems"(2) by (simp add: tasks_ok_def)
    ultimately show ?thesis using ih(1) that(1) by (auto simp: tasks_ok_def bmap_ok_def simp del: map_map set_map)
  qed
  have kept: "set (bkeys ((i, t') # rest')) \<subseteq> set (bkeys ((i, t) # rest))
      \<and> set (map tk_name (bvalues ((i, t') # rest'))) \<subseteq> set (map tk_name (bvalues ((i, t) # rest)))"
    if "tk_name t' = tk_name t" for t'
    using ih(3,4) unfolding list.map snd_conv fst_conv that list.set by blast
  have "m' = (i, t) # rest' \<or> m' = rest' \<or> m' = (i, recovered_task (clock k) i t) # rest'"
    using "2.prems"(1) unfolding recover_tasks.simps r Let_def prod.case by (simp only: prod.inject split: if_splits) blast+
  then show ?case
  proof (elim disjE)
    assume m': "m' = (i, t) # rest'"
    show ?thesis using cons [OF t refl] kept [of t] ih unfolding m' by simp
  next
    assume m': "m' = rest'"
    show ?thesis using ih unfolding m' by auto
  next
    assume m': "m' = (i, recovered_task (clock k) i t) # rest'"
    show ?thesis
      using cons [of "recovered_task (clock k) i t"] kept [of "recovered_task (clock k) i t"] recovered_task_ok [OF t] ih
      unfolding m' by simp
  qed
qed auto

lemma running_task_name: "tk_name (running_task run overdue t) = tk_name t"
  by (simp add: running_task_def)

lemma sched_step_ok: "sched_step env mode ps m m' \<Longrightarrow> tasks_ok m \<Longrightarrow> tasks_ok m'"
proof (induction rule: sched_step.induct)
  case (added ps name tx t m i)
  then show ?case using new_task_ok [OF added(1,2)] by (intro tasks_ok_insert) simp_all
next
  case (reported m i t ps)
  then show ?case by (intro tasks_ok_adjust) (auto simp: task_ok_def)
next
  case (claimed m i t time overdue ps run)
  then show ?case
    by (intro tasks_ok_adjust) (auto simp: ready_for_claim_at_def running_task_ok running_task_name)
next
  case (skipped m i t time run t' ps)
  then show ?case
    by (intro tasks_ok_adjust) (auto simp: ready_for_claim_at_def dest!: skipped_task_ok)
next
  case (finished ps i m t run t')
  then show ?case by (intro tasks_ok_adjust) (auto dest: finished_task_ok)
next
  case (controlled m i t mode status ps)
  then show ?case using controlled_task_ok [OF controlled(2)] by (intro tasks_ok_adjust) auto
next
  case (recovered active ps m m' r c)
  then show ?case using recover_tasks_ok by blast
next
  case (cancelling m i t ps)
  then show ?case by (intro tasks_ok_adjust) (auto simp: task_ok_def)
next
  case (removed m i ps)
  then show ?case by (intro tasks_ok_remove)
qed

text \<open>The runs of the plugin under one package of zones: the clock, the environment variables and the disk
  may behave differently at every call.\<close>

inductive sched_reachable :: "'z jiff \<Rightarrow> 'd sched_world \<Rightarrow> bool" for jf where
  start: "sched_reachable jf ([], d)"
| call: "sched_reachable jf w \<Longrightarrow> sc_jiff env = jf \<Longrightarrow> call_at env req w = (r, w') \<Longrightarrow> sched_reachable jf w'"

lemma call_ok:
  assumes "call_at env req w = (r, w')" and "tasks_ok (fst w)"
  shows "tasks_ok (fst w')"
proof (cases req)
  case (Call v i mode params)
  have "bmap_ok (fst w)" using assms(2) by (simp add: tasks_ok_def)
  with call_steps [of env v i mode params w r w'] assms sched_step_ok show ?thesis unfolding Call by metis
qed (use assms in simp)

lemma sched_reachable_ok: "sched_reachable jf w \<Longrightarrow> tasks_ok (fst w)"
  by (induction rule: sched_reachable.induct) (auto simp: tasks_ok_Nil dest: call_ok)

end
