(* ===== verification/Scheduler_Properties.thy ===== *)
theory Scheduler_Properties
  imports Scheduler_Machine
begin

text \<open>
  The properties of the scheduler: bounds in every reachable state, the life of a task, what a
  claim picks, what a finished run leaves behind, and that a call that fails changes nothing.
\<close>

section \<open>A concrete scheduler\<close>

definition sample_sched :: "(unit, unit) sched_env" where
  "sample_sched = \<lparr>sc_now = (\<lambda>n. 1000), sc_jiff = shifting 0, sc_timezone = None, sc_missed_runs = None,
     sc_random = (\<lambda>n. None), sc_location = False, sc_parent_ok = (\<lambda>d. True), sc_tasks_text = (\<lambda>m. []),
     sc_save = (\<lambda>s d. (Inr (), d)), sc_json_len = (\<lambda>v. 4), sc_response_len = (\<lambda>r. 100)\<rparr>"

definition sample_params :: json where
  "sample_params = jobject [(''id'', JInt 7), (''text'', JStr ''backup''), (''name'', JStr ''nightly''),
     (''repeat'', JInt 60), (''retries'', JInt 2), (''activate'', JBool True)]"

definition sample_task :: task where
  "sample_task = \<lparr>tk_name = ''nightly'', tk_text = ''backup'', tk_delay = 0, tk_due = 1000, tk_repeat = 60,
     tk_cron = None, tk_zone = ''UTC'', tk_status = ''active'', tk_context = JNull, tk_last_result = None,
     tk_last_outcome = None, tk_missed = ''skip'', tk_on_failure = ''pause'', tk_replay_count = 0, tk_retries = 2,
     tk_attempts = 0, tk_retry_at = None, tk_manual_run = False, tk_manual_retry = False, tk_manual_origin = False,
     tk_cancel_requested = False, tk_pause_requested = False, tk_run_id = None, tk_finished_run_id = None,
     tk_finish_result = None, tk_report_pending = False, tk_imported_timer_id = None\<rparr>"

lemmas json_eval = jobject_def as_word_def jword_def jopt_def unwrap_or_def

lemma sample_add_params:
  "json_index sample_params ''id'' = JInt 7" "json_index sample_params ''text'' = JStr ''backup''"
  "json_get sample_params ''name'' = Some (JStr ''nightly'')" "json_get sample_params ''context'' = None"
  "json_index sample_params ''delay'' = JNull" "json_index sample_params ''repeat'' = JInt 60"
  "json_index sample_params ''cron'' = JNull" "json_index sample_params ''at'' = JNull"
  "json_index sample_params ''retries'' = JInt 2" "json_index sample_params ''activate'' = JBool True"
  "json_index sample_params ''zone'' = JNull" "json_index sample_params ''missed'' = JNull"
  "json_index sample_params ''on_failure'' = JNull"
  by (simp_all add: sample_params_def jobject_def less_list_code code_def)

lemma sample_new_task: "new_task sample_sched sample_params ''nightly'' ''backup'' = Inr sample_task"
  by (simp add: new_task_def sample_add_params json_eval sample_sched_def Let_def CONTEXT_LIMIT_def
      validate_zone_def timezone_def first_due_def sat_add_def sample_task_def)

lemma nightly_valid: "valid_schedule_name ''nightly''"
  by (simp add: valid_schedule_name_def is_ascii_alphanumeric_def is_ascii_alphabetic_def is_ascii_lowercase_def
      is_ascii_uppercase_def is_ascii_digit_def code_def)

lemma trim_nightly: "trim ''nightly'' = ''nightly''"
  by (simp add: trim_def trim_start.simps trim_end_text.simps white_suffix_def code_def)

lemma sample_frame: "checked_response sample_sched c v = Inr (response_ok c v)"
  by (simp add: checked_response_def sample_sched_def frame_max_def FRAME_HEADROOM_def)

lemma sample_persist: "persist sample_sched m d = (Inr (), d)" "persist_locked sample_sched m d = (Inr (), d)"
  by (simp_all add: persist_def persist_locked_def sample_sched_def)

lemma sample_add: "\<exists>r. call_at sample_sched (Call ''2.0'' 1 ''add'' sample_params) ([], ()) = (Inr (Some r), ([(7, sample_task)], ()))"
  by (simp add: methods_def dispatch_def do_add_def sample_add_params requested_name_def trim_nightly nightly_valid
      sample_new_task sample_frame sample_persist TEXT_LIMIT_def TASK_LIMIT_def as_word_def Let_def)

section \<open>Bounds\<close>

text \<open>C18: In every state the scheduler can get to there are at most a thousand tasks, under different valid
  names; a task is configured for at most five retries and never has more attempts than one
  more than its retries; a running task has a run id, and a pending report a result to report.\<close>

theorem reachable_tasks_bounded:
  assumes "sched_reachable jf w"
  shows "length (fst w) \<le> 1000 \<and> distinct (map tk_name (bvalues (fst w)))
    \<and> (\<forall>i t. bget (fst w) i = Some t \<longrightarrow> valid_schedule_name (tk_name t) \<and> tk_retries t \<le> 5
         \<and> unat (tk_attempts t) \<le> unat (tk_retries t) + 1
         \<and> (tk_status t = ''running'' \<longrightarrow> tk_run_id t \<noteq> None)
         \<and> (tk_report_pending t \<longrightarrow> tk_finished_run_id t \<noteq> None \<and> tk_finish_result t \<noteq> None))"
proof -
  have ok: "tasks_ok (fst w)" by (rule sched_reachable_ok [OF assms])
  have "task_ok t" if "bget (fst w) i = Some t" for i t by (rule tasks_ok_get [OF ok that])
  with ok show ?thesis by (auto simp: tasks_ok_def TASK_LIMIT_def task_ok_def)
qed

lemma reachable_tasks_bounded_witness:
  "valid_schedule_name (tk_name sample_task) \<and> tk_retries sample_task \<le> 5"
proof -
  obtain r where c: "call_at sample_sched (Call ''2.0'' 1 ''add'' sample_params) ([], ()) = (Inr (Some r), ([(7, sample_task)], ()))"
    using sample_add by blast
  have "sched_reachable (sc_jiff sample_sched) ([(7, sample_task)], ())"
    by (rule sched_reachable.call [OF sched_reachable.start refl c])
  from reachable_tasks_bounded [OF this] show ?thesis by simp
qed

section \<open>The life of a task\<close>

datatype phase = Absent | Proposed | Ready | Running u64 | Paused | Completed | Skipped | Cancelled

definition phase_of :: "task option \<Rightarrow> phase" where
  "phase_of x = (case x of None \<Rightarrow> Absent | Some t \<Rightarrow>
     if tk_status t = ''pending'' then Proposed else if tk_status t = ''active'' then Ready
     else if tk_status t = ''running'' then Running (the (tk_run_id t))
     else if tk_status t = ''paused'' then Paused else if tk_status t = ''completed'' then Completed
     else if tk_status t = ''skipped'' then Skipped else Cancelled)"

text \<open>What one call with a method and its parameters may make of the task with id \<open>i\<close>.\<close>

inductive life :: "string \<Rightarrow> json \<Rightarrow> u64 \<Rightarrow> phase \<Rightarrow> phase \<Rightarrow> bool" where
  propose: "life ''add'' ps i Absent Proposed"
| activate: "life ''add'' ps i Absent Ready"
| approve: "life ''approve'' ps i Proposed Ready"
| claim: "life ''claim'' ps i Ready (Running run)"
| skip: "life ''claim'' ps i Ready Skipped"
| finish: "as_word (json_index ps ''id'') = Some i \<Longrightarrow> as_word (json_index ps ''run_id'') \<in> {None, Some run} \<Longrightarrow>
    p \<in> {Ready, Paused, Completed, Cancelled} \<Longrightarrow> life ''finish'' ps i (Running run) p"
| pause: "life ''pause'' ps i Ready Paused"
| resume: "life ''resume'' ps i Paused Ready"
| again: "p \<in> {Completed, Skipped} \<Longrightarrow> life ''run'' ps i p Ready"
| retry: "p \<in> {Paused, Skipped} \<Longrightarrow> life ''retry'' ps i p Ready"
| interrupted: "life ''recover'' ps i (Running run) Paused"
| dropped: "life ''recover'' ps i (Running run) Absent"
| remove: "(\<And>run. p \<noteq> Running run) \<Longrightarrow> life ''remove'' ps i p Absent"

inductive_simps life_simps: "life mode ps i p q"

lemma phase_adjust:
  "bget m i = Some t \<Longrightarrow>
     (phase_of (Some (f t)) = phase_of (Some t) \<or> life mode ps i (phase_of (Some t)) (phase_of (Some (f t)))) \<Longrightarrow>
     phase_of (bget (badjust i f m) j) = phase_of (bget m j)
       \<or> life mode ps j (phase_of (bget m j)) (phase_of (bget (badjust i f m) j))"
  by (cases "i = j") (auto simp: bget_adjust)

lemma recover_tasks_get:
  "recover_tasks clock active k m = (m', r, c) \<Longrightarrow> distinct (bkeys m) \<Longrightarrow> bget m' j = bget m j
     \<or> (\<exists>t n. bget m j = Some t \<and> tk_status t = ''running'' \<and> j \<notin> active
          \<and> bget m' j = (if tk_cancel_requested t then None else Some (recovered_task n j t)))"
proof (induction clock active k m arbitrary: m' r c rule: recover_tasks.induct)
  case (2 clock active k i t rest)
  obtain rest' r1 c1 where r: "recover_tasks clock active (Suc k) rest = (rest', r1, c1)" by (metis prod_cases3)
  have d: "distinct (bkeys rest)" "i \<notin> set (bkeys rest)" using "2.prems"(2) by auto
  have none: "bget rest i = None" using d(2) by (auto simp: map_of_eq_None_iff)
  note ih = "2.IH" [OF r d(1)]
  show ?case
  proof (cases "j = i")
    case True
    have "bget rest' i = None" using ih none True by auto
    then show ?thesis using "2.prems"(1) True by (auto simp: r split: if_splits)
  next
    case False
    then have "bget m' j = bget rest' j" using "2.prems"(1) by (auto simp: r split: if_splits)
    then show ?thesis using ih False by auto
  qed
qed auto

lemma finished_task_phase:
  assumes "finished_task env ps run t = Inr t'"
  shows "phase_of (Some t') \<in> {Ready, Paused, Completed, Cancelled}"
proof -
  obtain c p s m t0 t1 where "settled_task env c p s m t0 = Inr t1" "tk_status t' = tk_status t1"
    using assms unfolding finished_task_def Let_def by (elim passed) auto
  then show ?thesis
    by (auto simp: settled_task_def phase_of_def split: if_splits sum.splits)
qed

lemma skipped_task_phase:
  "skipped_task env at run t = Inr t' \<Longrightarrow> tk_status t = ''active'' \<Longrightarrow> phase_of (Some t') \<in> {Ready, Skipped}"
  by (auto simp: skipped_task_def phase_of_def split: if_splits sum.splits)

lemma controlled_task_phase:
  assumes "control_status mode (tk_status t) = Inr status"
  shows "phase_of (Some (controlled_task mode status t)) = phase_of (Some t)
     \<or> life mode ps i (phase_of (Some t)) (phase_of (Some (controlled_task mode status t)))"
  using control_status_cases [OF assms]
  by (elim disjE conjE) (auto simp: controlled_task_def phase_of_def life_simps)

lemma step_life:
  assumes "sched_step env mode ps m m'" and "tasks_ok m"
  shows "phase_of (bget m' j) = phase_of (bget m j) \<or> life mode ps j (phase_of (bget m j)) (phase_of (bget m' j))"
  using assms
proof (cases rule: sched_step.cases)
  case (added name tx t i)
  have "phase_of (Some t) \<in> {Proposed, Ready}" using new_task_ok(3) [OF added(3,4)] by (auto simp: phase_of_def)
  then show ?thesis using added(1,2,6) by (cases "i = j") (auto simp: bget_insert phase_of_def life_simps)
next
  case (reported i t)
  show ?thesis unfolding reported(2) by (rule phase_adjust [OF reported(3)]) (simp add: phase_of_def)
next
  case (claimed i t time overdue run)
  show ?thesis unfolding claimed(2)
    by (rule phase_adjust [OF claimed(3)])
      (use claimed(1,4) in \<open>auto simp: phase_of_def ready_for_claim_at_def running_task_def life_simps\<close>)
next
  case (skipped i t time run t')
  have "phase_of (Some t) = Ready" "phase_of (Some t') \<in> {Ready, Skipped}"
    using skipped(4) skipped_task_phase [OF skipped(6)] by (auto simp: ready_for_claim_at_def phase_of_def)
  then show ?thesis unfolding skipped(2)
    by (intro phase_adjust [OF skipped(3)]) (use skipped(1) in \<open>auto simp: life_simps\<close>)
next
  case (finished i t run t')
  have "phase_of (Some t) = Running run" using finished(5,6) by (simp add: phase_of_def)
  then show ?thesis unfolding finished(2)
    by (intro phase_adjust [OF finished(4)])
      (use finished(1,3,7) finished_task_phase [OF finished(8)] in \<open>auto simp: life_simps\<close>)
next
  case (controlled i t status)
  show ?thesis unfolding controlled(1) by (rule phase_adjust [OF controlled(2)]) (rule controlled_task_phase [OF controlled(3)])
next
  case (recovered active r c)
  have "distinct (bkeys m)" using assms(2) by (simp add: tasks_ok_def bmap_ok_distinct)
  from recover_tasks_get [OF recovered(3) this, of j]
  show ?thesis by (auto simp: recovered(1) phase_of_def recovered_task_def life_simps)
next
  case (cancelling i t)
  show ?thesis unfolding cancelling(2) by (rule phase_adjust [OF cancelling(3)]) (simp add: phase_of_def)
next
  case (removed i)
  show ?thesis
  proof (cases "i = j")
    case True
    have "phase_of (bget m i) \<noteq> Running run" for run
      using removed(3) by (auto simp: phase_of_def split: option.split)
    then show ?thesis using removed(1,2) True by (simp add: bget_remove life_simps phase_of_def)
  qed (simp add: removed(2) bget_remove)
qed

text \<open>C17: Every call moves every task along its life or leaves it where it is: a proposed task runs only after
  it is approved, only an active one is claimed, and a running one keeps its run until that very
  run is finished, by a call with its id and its run id, or until the daemon recovers after a stop;
  in particular it can be neither claimed again nor removed.\<close>

theorem calls_refine_life:
  assumes "sched_reachable jf w" and "call_at env (Call v c mode ps) w = (r, w')"
  shows "phase_of (bget (fst w') i) = phase_of (bget (fst w) i)
    \<or> life mode ps i (phase_of (bget (fst w) i)) (phase_of (bget (fst w') i))"
proof -
  have ok: "tasks_ok (fst w)" by (rule sched_reachable_ok [OF assms(1)])
  then have "bmap_ok (fst w)" by (simp add: tasks_ok_def)
  from call_steps [OF assms(2) this] step_life [OF _ ok] show ?thesis by metis
qed

lemma calls_refine_life_witness:
  "life ''add'' sample_params 7 (phase_of (bget [] 7)) (phase_of (bget [(7, sample_task)] 7))"
proof -
  obtain r where c: "call_at sample_sched (Call ''2.0'' 1 ''add'' sample_params) ([], ()) = (Inr (Some r), ([(7, sample_task)], ()))"
    using sample_add by blast
  from calls_refine_life [OF sched_reachable.start c, of 7]
  show ?thesis by (auto simp: phase_of_def sample_task_def)
qed

text \<open>A call that fails, other than by an answer too large for a frame, leaves the tasks in memory exactly
  as they were, so that what is in memory never runs ahead of what was saved.\<close>

theorem failed_call_changes_nothing:
  assumes "sched_reachable jf w" and "call_at env (Call v c mode ps) w = (Inl e, w')" and "e \<noteq> frame_error"
  shows "fst w' = fst w"
proof -
  have "bmap_ok (fst w)" using sched_reachable_ok [OF assms(1)] by (simp add: tasks_ok_def)
  from call_steps [OF assms(2) this] assms(3) show ?thesis by auto
qed

lemma failed_call_changes_nothing_witness:
  "fst (snd (call_at sample_sched (Call ''2.0'' 1 ''approve'' (jobject [(''id'', JInt 7)])) ([], ()))) = []"
proof -
  have "call_at sample_sched (Call ''2.0'' 1 ''approve'' (jobject [(''id'', JInt 7)])) ([], ())
      = (Inl (Denied ''Scheduled task was not found.''), ([], ()))"
    by (simp add: methods_def dispatch_def do_control_def jobject_def as_word_def task_not_found_def deny_def)
  from failed_call_changes_nothing [OF sched_reachable.start this] this
  show ?thesis by (simp add: frame_error_def)
qed

section \<open>Claims\<close>

lemma call_claim:
  "call_at env (Call v c ''claim'' ps) w = (Inr (Some resp), w') \<longleftrightarrow> do_claim env c ps w = (Inr resp, w')"
  by (auto simp: methods_def split: prod.split sum.split)

lemma checked_response_Inr: "checked_response env c v = Inr r \<Longrightarrow> r = response_ok c v"
  by (auto simp: checked_response_def split: if_splits)

lemma commit_tasks_Inr: "commit_tasks env new v w = (Inr x, w') \<Longrightarrow> x = v \<and> fst w' = new"
  by (auto simp: commit_tasks_def split: prod.splits sum.splits)

lemma result_ok [simp]: "r_result (response_ok c v) = Some v"
  by (simp add: response_ok_def)

lemma branch: "(if b then x else y) = z \<Longrightarrow> (b \<Longrightarrow> x = z \<Longrightarrow> P) \<Longrightarrow> (\<not> b \<Longrightarrow> y = z \<Longrightarrow> P) \<Longrightarrow> P"
  by (auto split: if_splits)

lemma answered: "(case r of Inl e \<Rightarrow> (Inl e, w) | Inr u \<Rightarrow> f u) = (Inr x, w') \<Longrightarrow>
    (\<And>u. r = Inr u \<Longrightarrow> f u = (Inr x, w') \<Longrightarrow> P) \<Longrightarrow> P"
  by (cases r) auto

lemma do_claim_cases:
  assumes "do_claim env c ps w = (Inr resp, w')"
    and "least_due (filter (\<lambda>(i, t). ready_for_claim_at at t) (fst w)) = Some (i, t)"
    and "at = unwrap_or (as_word (json_index ps ''at'')) (sc_now env 0)" and "run = unwrap_or (as_word (json_index ps ''lease'')) c"
  shows "(tk_missed t \<in> {''skip'', ''replay''} \<and> (\<exists>t' r. skipped_task env at run t = Inr t'
            \<and> checked_response env c (skipped_item i t at run) = Inr r
            \<and> commit_tasks env (badjust i (\<lambda>_. t') (fst w)) r w = (Inr resp, w')))
        \<or> (\<exists>r overdue. checked_response env c (claimed_item i t run) = Inr r
            \<and> commit_tasks env (badjust i (running_task run overdue) (fst w)) r w = (Inr resp, w'))"
  using assms(1) unfolding do_claim_def Let_def assms(3,4) [symmetric] assms(2) option.case prod.case
proof (elim branch answered)
  fix t' r
  assume "((\<not> tk_manual_run t \<and> tk_retry_at t = None \<and> \<not> tk_manual_retry t) \<and> 0 < unwrap_or (as_word (json_index ps ''since'')) 0
      \<and> tk_due t < unwrap_or (as_word (json_index ps ''since'')) 0) \<and> tk_missed t = ''skip''
    \<or> (\<not> tk_manual_run t \<and> tk_retry_at t = None \<and> \<not> tk_manual_retry t) \<and> tk_missed t = ''replay'' \<and> 5 \<le> tk_replay_count t"
    and "skipped_task env at run t = Inr t'" "checked_response env c (skipped_item i t at run) = Inr r"
      "commit_tasks env (badjust i (\<lambda>_. t') (fst w)) r w = (Inr resp, w')"
  then show ?thesis by blast
qed blast

lemma skipped_reports: "skipped_task env at run t = Inr t' \<Longrightarrow> tk_report_pending t'"
  unfolding skipped_task_def by (elim bind_passed) auto

text \<open>C20: A claim starts the ready task that is due first, and no other: the task is active, has no report
  waiting, and is due, due for a retry or asked for by hand; it is handed out under the run id of
  the claim and is then running, or its missed occurrence is reported as skipped when its policy
  says so. When no task is ready, nothing changes.\<close>

theorem claim_runs_earliest_ready:
  assumes "sched_reachable jf w" and "call_at env (Call v c ''claim'' ps) w = (Inr (Some resp), w')"
    and "at = unwrap_or (as_word (json_index ps ''at'')) (sc_now env 0)"
    and "run = unwrap_or (as_word (json_index ps ''lease'')) c"
  shows "(\<forall>i t. bget (fst w) i = Some t \<longrightarrow> \<not> ready_for_claim_at at t) \<and> w' = w
    \<or> (\<exists>i t. bget (fst w) i = Some t \<and> ready_for_claim_at at t
         \<and> (\<forall>j u. bget (fst w) j = Some u \<and> ready_for_claim_at at u \<longrightarrow> tk_due t \<le> tk_due u)
         \<and> (\<forall>j. j \<noteq> i \<longrightarrow> bget (fst w') j = bget (fst w) j)
         \<and> (r_result resp = Some (claimed_item i t run) \<and> phase_of (bget (fst w') i) = Running run
            \<or> r_result resp = Some (skipped_item i t at run) \<and> tk_missed t \<in> {''skip'', ''replay''}
              \<and> map_option tk_report_pending (bget (fst w') i) = Some True))"
proof -
  have ok: "bmap_ok (fst w)" using sched_reachable_ok [OF assms(1)] by (simp add: tasks_ok_def)
  have c: "do_claim env c ps w = (Inr resp, w')" using assms(2) by (simp only: call_claim)
  show ?thesis
  proof (cases "least_due (filter (\<lambda>(i, t). ready_for_claim_at at t) (fst w))")
    case None
    then have "\<not> ready_for_claim_at at t" if "bget (fst w) i = Some t" for i t
      using that by (auto simp: least_due_None filter_empty_conv dest: map_of_SomeD)
    moreover have "w' = w" using c None unfolding do_claim_def Let_def assms(3) by simp
    ultimately show ?thesis by blast
  next
    case (Some x)
    obtain i t where x: "x = (i, t)" by (cases x)
    note pick = claim_pick [OF ok Some [unfolded x]]
    have other: "bget (badjust i f (fst w)) j = bget (fst w) j" if "j \<noteq> i" for f j
      using that by (simp add: bget_adjust)
    from do_claim_cases [OF c Some [unfolded x] assms(3,4)]
    have "(\<forall>j. j \<noteq> i \<longrightarrow> bget (fst w') j = bget (fst w) j)
         \<and> (r_result resp = Some (claimed_item i t run) \<and> phase_of (bget (fst w') i) = Running run
            \<or> r_result resp = Some (skipped_item i t at run) \<and> tk_missed t \<in> {''skip'', ''replay''}
              \<and> map_option tk_report_pending (bget (fst w') i) = Some True)"
    proof (elim disjE exE conjE)
      fix t' r
      assume s: "tk_missed t \<in> {''skip'', ''replay''}" "skipped_task env at run t = Inr t'"
        "checked_response env c (skipped_item i t at run) = Inr r"
        "commit_tasks env (badjust i (\<lambda>_. t') (fst w)) r w = (Inr resp, w')"
      from commit_tasks_Inr [OF s(4)] checked_response_Inr [OF s(3)]
      have "r_result resp = Some (skipped_item i t at run)" "fst w' = badjust i (\<lambda>_. t') (fst w)" by simp_all
      then show ?thesis using s(1) skipped_reports [OF s(2)] other pick(1) by (simp add: bget_adjust)
    next
      fix r overdue
      assume s: "checked_response env c (claimed_item i t run) = Inr r"
        "commit_tasks env (badjust i (running_task run overdue) (fst w)) r w = (Inr resp, w')"
      from commit_tasks_Inr [OF s(2)] checked_response_Inr [OF s(1)]
      have "r_result resp = Some (claimed_item i t run)" "fst w' = badjust i (running_task run overdue) (fst w)" by simp_all
      then show ?thesis using other pick(1) by (simp add: bget_adjust phase_of_def running_task_def)
    qed
    with pick show ?thesis by blast
  qed
qed

definition sample_claim :: json where
  "sample_claim = jobject [(''at'', JInt 1000), (''lease'', JInt 3)]"

definition sample_finish :: json where
  "sample_finish = jobject [(''id'', JInt 7), (''run_id'', JInt 3), (''success'', JBool False), (''result'', JStr ''disk full'')]"

lemma sample_claim_params: "json_index sample_claim ''at'' = JInt 1000" "json_index sample_claim ''lease'' = JInt 3"
    "json_index sample_claim ''since'' = JNull"
  by (simp_all add: sample_claim_def jobject_def less_list_code code_def)

lemma sample_finish_params: "json_index sample_finish ''id'' = JInt 7" "json_index sample_finish ''run_id'' = JInt 3"
    "json_index sample_finish ''success'' = JBool False" "json_index sample_finish ''result'' = JStr ''disk full''"
    "json_index sample_finish ''cancelled'' = JNull" "json_index sample_finish ''pause'' = JNull"
    "json_index sample_finish ''manual'' = JNull"
  by (simp_all add: sample_finish_def jobject_def less_list_code code_def)

lemma sample_claimed: "call_at sample_sched (Call ''2.0'' 9 ''claim'' sample_claim) ([(7, sample_task)], ())
    = (Inr (Some (response_ok 9 (claimed_item 7 sample_task 3))), ([(7, running_task 3 False sample_task)], ()))"
  by (simp add: methods_def do_claim_def Let_def sample_claim_params sample_frame commit_tasks_def sample_persist
      json_eval ready_for_claim_at_def badjust_def) (simp add: sample_task_def)

lemma sample_reachable: "sched_reachable (sc_jiff sample_sched) ([(7, sample_task)], ())"
proof -
  obtain r where c: "call_at sample_sched (Call ''2.0'' 1 ''add'' sample_params) ([], ()) = (Inr (Some r), ([(7, sample_task)], ()))"
    using sample_add by blast
  show ?thesis by (rule sched_reachable.call [OF sched_reachable.start refl c])
qed

lemma claim_runs_earliest_ready_witness:
  "phase_of (bget [(7, running_task 3 False sample_task)] 7) = Running 3"
proof -
  have at: "(1000 :: u64) = unwrap_or (as_word (json_index sample_claim ''at'')) (sc_now sample_sched 0)"
    and run: "(3 :: u64) = unwrap_or (as_word (json_index sample_claim ''lease'')) 9"
    by (simp_all add: sample_claim_params json_eval)
  have "ready_for_claim_at 1000 sample_task" by (simp add: ready_for_claim_at_def sample_task_def)
  moreover have "tk_report_pending (running_task 3 False sample_task) = False"
    by (simp add: running_task_def sample_task_def)
  ultimately show ?thesis
    using claim_runs_earliest_ready [OF sample_reachable sample_claimed at run]
    by (auto split: if_splits)
qed

section \<open>Finished runs\<close>

lemma call_finish:
  "call_at env (Call v c ''finish'' ps) w = (Inr (Some resp), w') \<Longrightarrow>
     \<exists>x. do_finish env ps w = (Inr x, w') \<and> resp = response_ok c x"
  by (auto simp: methods_def dispatch_def dest: checked_response_Inr split: prod.splits sum.splits)

definition finishes :: "json \<Rightarrow> u64 \<Rightarrow> u64 \<Rightarrow> bool" where
  "finishes ps i run \<longleftrightarrow> as_word (json_index ps ''id'') = Some i \<and> as_word (json_index ps ''run_id'') = Some run"

lemma finish_commits:
  assumes "call_at env (Call v c ''finish'' ps) w = (Inr (Some resp), w')" and "finishes ps i run"
    and "bget (fst w) i = Some t" and "tk_finished_run_id t \<noteq> Some run"
  shows "\<exists>t'. finished_task env ps run t = Inr t' \<and> tk_status t = ''running'' \<and> tk_run_id t = Some run
     \<and> fst w' = badjust i (\<lambda>_. t') (fst w) \<and> r_result resp = tk_finish_result t'"
proof -
  obtain x where f: "do_finish env ps w = (Inr x, w')" and x: "resp = response_ok c x"
    using call_finish [OF assms(1)] by blast
  have st: "tk_status t = ''running''" "tk_run_id t = Some run"
    using f assms(2-4) by (auto simp: do_finish_def finishes_def deny_def split: if_splits)
  obtain t' where t': "finished_task env ps run t = Inr t'"
    using f assms(2-4) st by (cases "finished_task env ps run t") (auto simp: do_finish_def finishes_def)
  then have r: "tk_finish_result t' \<noteq> None" unfolding finished_task_def Let_def by (elim bind_passed) auto
  have "commit_tasks env (badjust i (\<lambda>_. t') (fst w)) (the (tk_finish_result t')) w = (Inr x, w')"
    using f assms(2-4) st t' by (simp add: do_finish_def finishes_def)
  from commit_tasks_Inr [OF this] st t' r x show ?thesis by auto
qed

lemma finished_task_marks:
  "finished_task env ps run t = Inr t' \<Longrightarrow> tk_finished_run_id t' = Some run \<and> tk_finish_result t' \<noteq> None \<and> tk_report_pending t'"
  unfolding finished_task_def Let_def by (elim bind_passed) auto

text \<open>C19: Finishing a run twice applies it once: after a successful finish every further finish of the same
  run, whatever it says about the outcome, gives the saved result again and changes nothing.\<close>

theorem finish_applies_once:
  assumes "call_at env (Call v c ''finish'' ps) w = (Inr (Some resp), w')" and "finishes ps i run"
    and "bget (fst w) i = Some t" and "finishes ps2 i run"
  shows "call_at env2 (Call v2 c2 ''finish'' ps2) w'
    = ((case checked_response env2 c2 (the (r_result resp)) of Inl e \<Rightarrow> Inl e | Inr r \<Rightarrow> Inr (Some r)), w')"
proof -
  have saved: "\<exists>u. bget (fst w') i = Some u \<and> tk_finished_run_id u = Some run \<and> tk_finish_result u = r_result resp
      \<and> tk_finish_result u \<noteq> None"
  proof (cases "tk_finished_run_id t = Some run \<and> tk_finish_result t \<noteq> None")
    case True
    obtain x where f: "do_finish env ps w = (Inr x, w')" and x: "resp = response_ok c x"
      using call_finish [OF assms(1)] by blast
    have "x = the (tk_finish_result t) \<and> w' = w" using f assms(2,3) True by (auto simp: do_finish_def finishes_def)
    then show ?thesis using True assms(3) x by auto
  next
    case False
    obtain x where f: "do_finish env ps w = (Inr x, w')" and x: "resp = response_ok c x"
      using call_finish [OF assms(1)] by blast
    have st: "tk_status t = ''running''" "tk_run_id t = Some run"
      using f assms(2,3) False by (auto simp: do_finish_def finishes_def deny_def split: if_splits)
    obtain t' where t': "finished_task env ps run t = Inr t'"
      using f assms(2,3) st False by (cases "finished_task env ps run t") (auto simp: do_finish_def finishes_def)
    have "commit_tasks env (badjust i (\<lambda>_. t') (fst w)) (the (tk_finish_result t')) w = (Inr x, w')"
      using f assms(2,3) st t' False by (auto simp: do_finish_def finishes_def)
    from commit_tasks_Inr [OF this] finished_task_marks [OF t'] assms(3) x show ?thesis by (auto simp: bget_adjust)
  qed
  then obtain u where u: "bget (fst w') i = Some u" "tk_finished_run_id u = Some run" "tk_finish_result u = r_result resp"
    "tk_finish_result u \<noteq> None" by blast
  have "do_finish env2 ps2 w' = (Inr (the (r_result resp)), w')"
    using assms(4) u by (simp add: do_finish_def finishes_def)
  then show ?thesis by (simp add: methods_def dispatch_def split: sum.split)
qed


lemma sample_call:
  "dispatch sample_sched mode ps w = (Inr x, w') \<Longrightarrow> mode \<in> set methods \<Longrightarrow> mode \<noteq> ''claim'' \<Longrightarrow>
     call_at sample_sched (Call v c mode ps) w = (Inr (Some (response_ok c x)), w')"
  by (simp add: sample_frame)

lemma sample_commit: "commit_tasks sample_sched new v (m, ()) = (Inr v, (new, ()))"
  by (simp add: commit_tasks_def sample_persist)

lemma sample_finish_call:
  assumes "finished_task sample_sched ps run t = Inr t'" and "finishes ps i run"
    and "tk_status t = ''running''" and "tk_run_id t = Some run" and "tk_finished_run_id t \<noteq> Some run"
  shows "call_at sample_sched (Call v c ''finish'' ps) ([(i, t)], ())
    = (Inr (Some (response_ok c (the (tk_finish_result t')))), ([(i, t')], ()))"
proof (rule sample_call)
  have "do_finish sample_sched ps ([(i, t)], ()) = (Inr (the (tk_finish_result t')), ([(i, t')], ()))"
    using assms unfolding do_finish_def finishes_def by (simp add: sample_commit badjust_def)
  then show "dispatch sample_sched ''finish'' ps ([(i, t)], ()) = (Inr (the (tk_finish_result t')), ([(i, t')], ()))"
    by (simp add: dispatch_def)
qed (simp_all add: methods_def)

lemma finished_task_total:
  assumes "\<And>t0. \<lbrakk>tk_cron t0 = tk_cron t; tk_on_failure t0 = tk_on_failure t\<rbrakk> \<Longrightarrow> \<exists>t1. settled_task env
      (tk_cancel_requested t \<or> json_index ps ''cancelled'' = JBool True) (tk_pause_requested t \<or> json_index ps ''pause'' = JBool True)
      (unwrap_or (as_bool (json_index ps ''success'')) False) (unwrap_or (as_bool (json_index ps ''manual'')) False) t0 = Inr t1"
  shows "\<exists>t'. finished_task env ps run t = Inr t'"
  using assms [of "t\<lparr>tk_last_result := Some (take_chars 2000 (unwrap_or (as_str (json_index ps ''result'')) []))\<rparr>"]
  by (auto simp: finished_task_def Let_def)

lemma running_sample:
  "tk_status (running_task 3 False sample_task) = ''running''" "tk_run_id (running_task 3 False sample_task) = Some 3"
  "tk_finished_run_id (running_task 3 False sample_task) = None" "tk_cron (running_task 3 False sample_task) = None"
  by (simp_all add: running_task_def) (simp_all add: sample_task_def)

lemma settled_without_cron: "tk_cron t = None \<Longrightarrow> \<exists>t1. settled_task env c p s m t = Inr t1"
  by (simp add: settled_task_def due_after_success_def next_due_def)

lemma sample_finished: "\<exists>resp t. call_at sample_sched (Call ''2.0'' 9 ''finish'' sample_finish) ([(7, running_task 3 False sample_task)], ())
    = (Inr (Some resp), ([(7, t)], ()))"
proof -
  obtain t where f: "finished_task sample_sched sample_finish 3 (running_task 3 False sample_task) = Inr t"
    using finished_task_total settled_without_cron running_sample(4) by metis
  have p: "finishes sample_finish 7 3" by (simp add: finishes_def sample_finish_params json_eval)
  have "tk_finished_run_id (running_task 3 False sample_task) \<noteq> Some 3" by (simp add: running_sample(3))
  from sample_finish_call [OF f p running_sample(1,2) this] show ?thesis by blast
qed

lemma finish_applies_once_witness:
  "\<exists>r w. call_at sample_sched (Call ''2.0'' 10 ''finish'' sample_finish) w = (Inr (Some r), w)"
proof -
  obtain resp t where f: "call_at sample_sched (Call ''2.0'' 9 ''finish'' sample_finish) ([(7, running_task 3 False sample_task)], ())
      = (Inr (Some resp), ([(7, t)], ()))"
    using sample_finished by blast
  have "finishes sample_finish 7 3" by (simp add: finishes_def sample_finish_params json_eval)
  from finish_applies_once [OF f this _ this, of _ sample_sched "''2.0''" 10]
  have "call_at sample_sched (Call ''2.0'' 10 ''finish'' sample_finish) ([(7, t)], ())
      = (Inr (Some (response_ok 10 (the (r_result resp)))), ([(7, t)], ()))"
    by (simp del: call_at.simps add: sample_frame)
  then show ?thesis by blast
qed

end
