(* ===== verification/Scheduler_Runs.thy ===== *)
theory Scheduler_Runs
  imports Scheduler_Properties
begin

text \<open>
  What a run leaves behind in its task, by its outcome: a failure, a success of a recurring task,
  and a success of a task that was asked to pause.
\<close>

section \<open>The outcome of a run\<close>

text \<open>The outcome a request to finish a run reports, and the wishes recorded in the task.\<close>

definition succeeded :: "json \<Rightarrow> bool" where
  "succeeded ps \<longleftrightarrow> unwrap_or (as_bool (json_index ps ''success'')) False"

definition by_hand :: "json \<Rightarrow> bool" where
  "by_hand ps \<longleftrightarrow> unwrap_or (as_bool (json_index ps ''manual'')) False"

definition wants_cancel :: "json \<Rightarrow> task \<Rightarrow> bool" where
  "wants_cancel ps t \<longleftrightarrow> tk_cancel_requested t \<or> json_index ps ''cancelled'' = JBool True"

definition wants_pause :: "json \<Rightarrow> task \<Rightarrow> bool" where
  "wants_pause ps t \<longleftrightarrow> tk_pause_requested t \<or> json_index ps ''pause'' = JBool True"

lemma finished_task_settles:
  "finished_task env ps run t = Inr t' \<Longrightarrow> \<exists>t0 t1. tk_cron t0 = tk_cron t \<and> tk_zone t0 = tk_zone t \<and> tk_repeat t0 = tk_repeat t
     \<and> tk_due t0 = tk_due t \<and> tk_attempts t0 = tk_attempts t \<and> tk_retries t0 = tk_retries t \<and> tk_on_failure t0 = tk_on_failure t
     \<and> tk_missed t0 = tk_missed t \<and> tk_replay_count t0 = tk_replay_count t
     \<and> settled_task env (wants_cancel ps t) (wants_pause ps t) (succeeded ps) (by_hand ps) t0 = Inr t1
     \<and> tk_status t' = tk_status t1 \<and> tk_due t' = tk_due t1 \<and> tk_attempts t' = tk_attempts t1 \<and> tk_retry_at t' = tk_retry_at t1
     \<and> tk_last_outcome t' = Some (outcome_of (wants_cancel ps t) (succeeded ps) t1)
     \<and> tk_replay_count t' = tk_replay_count t1"
  unfolding finished_task_def Let_def
  by (elim bind_passed)
    (rule exI [of _ "t\<lparr>tk_last_result := Some (take_chars 2000 (unwrap_or (as_str (json_index ps ''result'')) []))\<rparr>"],
      auto simp: wants_cancel_def wants_pause_def succeeded_def by_hand_def)

lemma recurring_cong: "tk_cron t0 = tk_cron t \<Longrightarrow> tk_repeat t0 = tk_repeat t \<Longrightarrow> recurring t0 = recurring t"
  by (simp add: recurring_def)

text \<open>C21: A run that fails is tried again, after a delay that doubles from five seconds, while the task
  has had no more attempts than its retries; after that a recurring task that is to continue waits
  for its next occurrence, and any other task is paused for review. The occurrence of a
  retried or paused task stays the one that failed.\<close>

theorem failed_run_retries_or_pauses:
  assumes "sched_reachable jf w" and "call_at env (Call v c ''finish'' ps) w = (Inr (Some resp), w')"
    and "finishes ps i run" and "bget (fst w) i = Some t" and "tk_finished_run_id t \<noteq> Some run"
    and "\<not> succeeded ps" and "\<not> wants_cancel ps t" and "\<not> wants_pause ps t"
  shows "\<exists>t'. bget (fst w') i = Some t' \<and>
     (if tk_attempts t \<le> tk_retries t
      then tk_status t' = ''active'' \<and> tk_due t' = tk_due t \<and> tk_attempts t' = tk_attempts t
        \<and> tk_retry_at t' = Some (sat_add (sc_now env 0) (5 * 2 ^ (unat (tk_attempts t) - 1)))
        \<and> tk_last_outcome t' = Some ''retrying''
      else if tk_on_failure t = ''continue'' \<and> recurring t
      then tk_status t' = ''active'' \<and> (sc_now env 0 < tk_due t' \<or> tk_due t' = - 1) \<and> tk_attempts t' = 0
        \<and> tk_retry_at t' = None \<and> tk_last_outcome t' = Some ''continuing''
      else tk_status t' = ''paused'' \<and> tk_due t' = tk_due t \<and> tk_retry_at t' = None
        \<and> tk_last_outcome t' = Some ''failed'')"
proof -
  obtain t' where f: "finished_task env ps run t = Inr t'" and w': "fst w' = badjust i (\<lambda>_. t') (fst w)"
    using finish_commits [OF assms(2-5)] by blast
  have "task_ok t" by (rule tasks_ok_get [OF sched_reachable_ok [OF assms(1)] assms(4)])
  then have "unat (tk_attempts t) \<le> unat (tk_retries t) + 1" "tk_retries t \<le> 5" by (auto simp: task_ok_def)
  then have "unat (tk_attempts t) \<le> 6" by (simp add: word_le_nat_alt)
  then have b: "backoff (tk_attempts t) = 5 * 2 ^ (unat (tk_attempts t) - 1)" by (simp add: backoff_def min_def)
  have g: "bget (fst w') i = Some t'" using assms(4) by (simp add: w' bget_adjust)
  from finished_task_settles [OF f] obtain t0 t1 where t0: "tk_cron t0 = tk_cron t" "tk_zone t0 = tk_zone t"
    "tk_repeat t0 = tk_repeat t" "tk_due t0 = tk_due t" "tk_attempts t0 = tk_attempts t" "tk_retries t0 = tk_retries t"
    "tk_on_failure t0 = tk_on_failure t"
    and s: "settled_task env False False False (by_hand ps) t0 = Inr t1"
    and t': "tk_status t' = tk_status t1" "tk_due t' = tk_due t1" "tk_attempts t' = tk_attempts t1"
      "tk_retry_at t' = tk_retry_at t1" "tk_last_outcome t' = Some (outcome_of False False t1)"
    using assms(6-8) by auto
  note r = recurring_cong [OF t0(1,3)]
  show ?thesis
  proof (cases "tk_attempts t \<le> tk_retries t")
    case True
    then show ?thesis using s g b by (auto simp: settled_task_def t0 t' outcome_of_def)
  next
    case a: False
    show ?thesis
    proof (cases "tk_on_failure t = ''continue'' \<and> recurring t")
      case True
      then obtain d where d: "next_due env t0 (sc_now env 0) = Inr d" and t1: "tk_status t1 = ''active''"
        "tk_due t1 = d" "tk_attempts t1 = 0" "tk_retry_at t1 = None"
        using s a by (auto simp: settled_task_def t0 r split: sum.splits)
      have "sc_now env 0 < d \<or> d = - 1" using next_due_later [OF d] True r by simp
      then show ?thesis using a True g t1 by (simp add: t' outcome_of_def)
    next
      case False
      then show ?thesis using a s g by (auto simp: settled_task_def t0 r t' outcome_of_def)
    qed
  qed
qed

lemma failed_run_retries_or_pauses_witness:
  "\<exists>r w. call_at sample_sched (Call ''2.0'' 9 ''finish'' sample_finish) ([(7, running_task 3 False sample_task)], ()) = (Inr (Some r), w)
     \<and> map_option tk_retry_at (bget (fst w) 7) = Some (Some 1005)"
proof -
  obtain resp t where f: "call_at sample_sched (Call ''2.0'' 9 ''finish'' sample_finish) ([(7, running_task 3 False sample_task)], ())
      = (Inr (Some resp), ([(7, t)], ()))"
    using sample_finished by blast
  have reach: "sched_reachable (sc_jiff sample_sched) ([(7, running_task 3 False sample_task)], ())"
    by (rule sched_reachable.call [OF sample_reachable refl sample_claimed])
  have p: "finishes sample_finish 7 3" "\<not> succeeded sample_finish" "\<not> wants_cancel sample_finish (running_task 3 False sample_task)"
    "\<not> wants_pause sample_finish (running_task 3 False sample_task)"
    by (simp_all add: finishes_def succeeded_def wants_cancel_def wants_pause_def sample_finish_params json_eval
        running_task_def) (simp_all add: sample_task_def)
  have a: "tk_attempts (running_task 3 False sample_task) = 1" "tk_retries (running_task 3 False sample_task) = 2"
    by (simp_all add: running_task_def sample_task_def sat_add_def)
  have "tk_finished_run_id (running_task 3 False sample_task) \<noteq> Some 3" by (simp add: running_task_def sample_task_def)
  from failed_run_retries_or_pauses [OF reach f p(1) _ this p(2-4)] f show ?thesis
    by (simp del: call_at.simps add: a) (simp del: call_at.simps add: sample_sched_def sat_add_def)
qed

lemma due_after_success_later:
  assumes "due_after_success env manual time t = Inr (d, n)" and "recurring t"
  shows "(time < d \<or> d = - 1) \<and> (manual \<and> time < tk_due t \<longrightarrow> d = tk_due t)
    \<or> \<not> manual \<and> tk_missed t = ''replay'' \<and> n < 5 \<and> n = tk_replay_count t \<and> (tk_due t < d \<or> d = - 1)"
proof (cases manual)
  case True
  then show ?thesis using assms next_due_later [of env t time d]
    by (auto simp: due_after_success_def not_le split: if_splits sum.splits)
next
  case False
  obtain e where e: "next_due env t (tk_due t) = Inr e"
    using assms(1) False by (auto simp: due_after_success_def split: sum.splits)
  from next_due_later [OF this assms(2)] next_due_later [of env t time d, OF _ assms(2)] show ?thesis
    using assms(1) False by (auto simp: due_after_success_def e not_le split: if_splits sum.splits)
qed

text \<open>A recurring task whose run succeeds waits again, with no attempts and no retry left over: for an
  occurrence after the present, except that a task that replays missed runs and has replayed
  fewer than five gets the occurrence after the one it just ran. A run started by hand before the
  regular time leaves the regular time alone. (The greatest time stands for one beyond the range.)\<close>

theorem recurring_success_reschedules:
  assumes "call_at env (Call v c ''finish'' ps) w = (Inr (Some resp), w')"
    and "finishes ps i run" and "bget (fst w) i = Some t" and "tk_finished_run_id t \<noteq> Some run"
    and "succeeded ps" and "recurring t" and "\<not> wants_cancel ps t" and "\<not> wants_pause ps t"
  shows "\<exists>t'. bget (fst w') i = Some t' \<and> tk_status t' = ''active'' \<and> tk_attempts t' = 0 \<and> tk_retry_at t' = None
     \<and> tk_last_outcome t' = Some ''completed''
     \<and> ((sc_now env 0 < tk_due t' \<or> tk_due t' = - 1) \<and> (by_hand ps \<and> sc_now env 0 < tk_due t \<longrightarrow> tk_due t' = tk_due t)
        \<or> \<not> by_hand ps \<and> tk_missed t = ''replay'' \<and> tk_replay_count t < 5 \<and> (tk_due t < tk_due t' \<or> tk_due t' = - 1))"
proof -
  obtain t' where f: "finished_task env ps run t = Inr t'" and w': "fst w' = badjust i (\<lambda>_. t') (fst w)"
    using finish_commits [OF assms(1-4)] by blast
  have g: "bget (fst w') i = Some t'" using assms(3) by (simp add: w' bget_adjust)
  from finished_task_settles [OF f] obtain t0 t1 where t0: "tk_cron t0 = tk_cron t" "tk_repeat t0 = tk_repeat t"
    "tk_due t0 = tk_due t" "tk_missed t0 = tk_missed t" "tk_replay_count t0 = tk_replay_count t"
    and s: "settled_task env False False True (by_hand ps) t0 = Inr t1"
    and t': "tk_status t' = tk_status t1" "tk_due t' = tk_due t1" "tk_attempts t' = tk_attempts t1"
      "tk_retry_at t' = tk_retry_at t1" "tk_last_outcome t' = Some (outcome_of False True t1)"
    using assms(5,7,8) by auto
  have r: "recurring t0" using recurring_cong [OF t0(1,2)] assms(6) by simp
  obtain d n where d: "due_after_success env (by_hand ps) (sc_now env 0) t0 = Inr (d, n)" and t1: "tk_status t1 = ''active''"
    "tk_due t1 = d" "tk_attempts t1 = 0" "tk_retry_at t1 = None"
    using s r by (auto simp: settled_task_def split: sum.splits)
  from due_after_success_later [OF d r] g t1 show ?thesis by (auto simp: t' t0 outcome_of_def)
qed

definition sample_success :: json where
  "sample_success = jobject [(''id'', JInt 7), (''run_id'', JInt 3), (''success'', JBool True), (''result'', JStr ''done'')]"

lemma sample_success_params: "json_index sample_success ''id'' = JInt 7" "json_index sample_success ''run_id'' = JInt 3"
    "json_index sample_success ''success'' = JBool True" "json_index sample_success ''result'' = JStr ''done''"
    "json_index sample_success ''cancelled'' = JNull" "json_index sample_success ''pause'' = JNull"
    "json_index sample_success ''manual'' = JNull"
  by (simp_all add: sample_success_def jobject_def less_list_code code_def)

text \<open>The sample task in its run, with and without the wish to pause it.\<close>

definition sample_running :: "bool \<Rightarrow> task" where
  "sample_running p = (running_task 3 False sample_task)\<lparr>tk_pause_requested := p\<rparr>"

lemma sample_running_facts:
  "finishes sample_success 7 3" "succeeded sample_success" "\<not> by_hand sample_success" "\<not> wants_cancel sample_success (sample_running p)"
  "wants_pause sample_success (sample_running p) = p" "recurring (sample_running p)"
  "tk_finished_run_id (sample_running p) \<noteq> Some 3" "tk_missed (sample_running p) = ''skip''"
  by (simp_all add: finishes_def succeeded_def by_hand_def wants_cancel_def wants_pause_def sample_success_params json_eval
      sample_running_def running_task_def) (simp_all add: sample_task_def recurring_def)

lemma sample_succeeds: "\<exists>resp t. finished_task sample_sched sample_success 3 (sample_running p) = Inr t
    \<and> call_at sample_sched (Call ''2.0'' 9 ''finish'' sample_success) ([(7, sample_running p)], ()) = (Inr (Some resp), ([(7, t)], ()))"
proof -
  have r: "tk_status (sample_running p) = ''running''" "tk_run_id (sample_running p) = Some 3" "tk_cron (sample_running p) = None"
    by (simp_all add: sample_running_def running_sample)
  obtain t where f: "finished_task sample_sched sample_success 3 (sample_running p) = Inr t"
    using finished_task_total settled_without_cron r(3) by metis
  from f sample_finish_call [OF f sample_running_facts(1) r(1,2) sample_running_facts(7)] show ?thesis by blast
qed

lemma recurring_success_reschedules_witness:
  "\<exists>r w. call_at sample_sched (Call ''2.0'' 9 ''finish'' sample_success) ([(7, sample_running False)], ()) = (Inr (Some r), w)
     \<and> (case bget (fst w) 7 of None \<Rightarrow> False | Some t \<Rightarrow> tk_status t = ''active'' \<and> (1000 < tk_due t \<or> tk_due t = - 1))"
proof -
  obtain resp t where f: "call_at sample_sched (Call ''2.0'' 9 ''finish'' sample_success) ([(7, sample_running False)], ())
      = (Inr (Some resp), ([(7, t)], ()))"
    using sample_succeeds by blast
  have "bget (fst ([(7 :: u64, sample_running False)], ())) 7 = Some (sample_running False)" by simp
  from recurring_success_reschedules [OF f sample_running_facts(1) this sample_running_facts(7,2,6,4)]
    sample_running_facts(3,5,8) f show ?thesis
    by (auto simp del: call_at.simps simp add: sample_sched_def)
qed

section \<open>A pause while the run goes on\<close>

lemma call_committed:
  assumes "call_at env (Call v c mode ps) w = (Inr (Some resp), w')" and "mode \<noteq> ''claim''" and "mode \<in> set methods"
  shows "\<exists>x. dispatch env mode ps w = (Inr x, w')"
  using assms by (auto split: prod.splits sum.splits)

lemma report_clears:
  assumes "call_at env (Call v c ''report'' ps) w = (Inr (Some resp), w')" and "as_word (json_index ps ''id'') = Some i"
    and "bget (fst w) i = Some t"
  shows "bget (fst w') i = Some (t\<lparr>tk_report_pending := False\<rparr>)"
proof -
  obtain x where d: "do_report env ps w = (Inr x, w')"
    using call_committed [OF assms(1)] by (auto simp: methods_def dispatch_def)
  show ?thesis
  proof (cases "tk_report_pending t")
    case True
    have "fst w' = badjust i (\<lambda>t. t\<lparr>tk_report_pending := False\<rparr>) (fst w)"
      using d assms(2,3) True by (auto simp: do_report_def deny_def Let_def split: option.splits if_splits dest: commit_tasks_Inr)
    then show ?thesis using assms(3) by (simp add: bget_adjust)
  qed (use d assms(2,3) in \<open>auto simp: do_report_def deny_def Let_def split: option.splits if_splits\<close>)
qed

lemma control_modes:
  assumes "mode \<in> {''approve'', ''pause'', ''resume'', ''run'', ''retry''}"
  shows "mode \<noteq> ''claim''" and "mode \<in> set methods" and "dispatch env mode ps w = do_control env mode ps w"
proof -
  show "mode \<noteq> ''claim''" "mode \<in> set methods" using assms by (auto simp: methods_def)
  show "dispatch env mode ps w = do_control env mode ps w"
    using assms by (elim insertE emptyE) (simp_all add: dispatch_def)
qed

lemma control_commits:
  assumes "call_at env (Call v c mode ps) w = (Inr (Some resp), w')" and "mode \<in> {''approve'', ''pause'', ''resume'', ''run'', ''retry''}"
    and "as_word (json_index ps ''id'') = Some i" and "bget (fst w) i = Some t"
  shows "\<exists>st. control_status mode (tk_status t) = Inr st \<and> bget (fst w') i = Some (controlled_task mode st t)"
proof -
  note m = control_modes [OF assms(2)]
  obtain x where d: "do_control env mode ps w = (Inr x, w')"
    using call_committed [OF assms(1) m(1,2)] unfolding m(3) by blast
  show ?thesis
  proof (cases "control_status mode (tk_status t)")
    case (Inl e)
    have "do_control env mode ps w = (Inl e, w)" unfolding do_control_def assms(3,4) Inl option.case sum.case by (rule refl)
    with d have False by simp
    then show ?thesis ..
  next
    case (Inr st)
    have "\<exists>v. commit_tasks env (badjust i (\<lambda>_. controlled_task mode st t) (fst w)) v w = (Inr x, w')"
      using d unfolding do_control_def assms(3,4) Inr option.case sum.case Let_def by (rule exI)
    then obtain v where "commit_tasks env (badjust i (\<lambda>_. controlled_task mode st t) (fst w)) v w = (Inr x, w')" by (rule exE)
    from commit_tasks_Inr [OF this] Inr assms(4) show ?thesis by (simp add: bget_adjust)
  qed
qed

text \<open>A run that succeeds after a pause was asked for leaves its task paused at the occurrence that
  just succeeded: once its report is acknowledged and the task is resumed, the task is ready for
  that same occurrence again, whose outcome is recorded as completed.\<close>

theorem paused_success_runs_again:
  assumes "call_at env (Call v c ''finish'' ps) w = (Inr (Some r1), w1)" and "finishes ps i run"
    and "bget (fst w) i = Some t" and "tk_finished_run_id t \<noteq> Some run"
    and "succeeded ps" and "wants_pause ps t" and "\<not> wants_cancel ps t"
    and "call_at env2 (Call v c2 ''report'' ps2) w1 = (Inr (Some r2), w2)" and "as_word (json_index ps2 ''id'') = Some i"
    and "call_at env3 (Call v c3 ''resume'' ps3) w2 = (Inr (Some r3), w3)" and "as_word (json_index ps3 ''id'') = Some i"
    and "tk_due t \<le> now"
  shows "\<exists>u. bget (fst w3) i = Some u \<and> tk_due u = tk_due t \<and> tk_last_outcome u = Some ''completed''
    \<and> ready_for_claim_at now u"
proof -
  obtain t' where f: "finished_task env ps run t = Inr t'" and w': "fst w1 = badjust i (\<lambda>_. t') (fst w)"
    using finish_commits [OF assms(1-4)] by blast
  have g: "bget (fst w1) i = Some t'" using assms(3) by (simp add: w' bget_adjust)
  from finished_task_settles [OF f] assms(5-7) have t': "tk_due t' = tk_due t" "tk_last_outcome t' = Some ''completed''"
    by (auto simp: settled_task_def outcome_of_def)
  have "bget (fst w2) i = Some (t'\<lparr>tk_report_pending := False\<rparr>)" by (rule report_clears [OF assms(8,9) g])
  from control_commits [OF assms(10) _ assms(11) this] t' assms(12) show ?thesis
    by (auto simp: controlled_task_def control_status_def ready_for_claim_at_def split: if_splits)
qed

definition sample_report :: json where
  "sample_report = jobject [(''id'', JInt 7), (''run_id'', JInt 3)]"

lemma sample_report_params: "json_index sample_report ''id'' = JInt 7" "json_index sample_report ''run_id'' = JInt 3"
  by (simp_all add: sample_report_def jobject_def less_list_code code_def)

lemma sample_paused: "\<exists>r1 r2 r3 t1 t2 t3.
    call_at sample_sched (Call ''2.0'' 9 ''finish'' sample_success) ([(7, sample_running True)], ()) = (Inr (Some r1), ([(7, t1)], ()))
  \<and> call_at sample_sched (Call ''2.0'' 10 ''report'' sample_report) ([(7, t1)], ()) = (Inr (Some r2), ([(7, t2)], ()))
  \<and> call_at sample_sched (Call ''2.0'' 11 ''resume'' sample_report) ([(7, t2)], ()) = (Inr (Some r3), ([(7, t3)], ()))"
proof -
  obtain r1 t1 where f: "finished_task sample_sched sample_success 3 (sample_running True) = Inr t1"
    and 1: "call_at sample_sched (Call ''2.0'' 9 ''finish'' sample_success) ([(7, sample_running True)], ()) = (Inr (Some r1), ([(7, t1)], ()))"
    using sample_succeeds by blast
  from finished_task_settles [OF f] have "tk_status t1 = ''paused''"
    by (auto simp: sample_running_facts settled_task_def)
  moreover from finished_task_marks [OF f] have "tk_finished_run_id t1 = Some 3" "tk_report_pending t1" by simp_all
  moreover define t2 where "t2 = t1\<lparr>tk_report_pending := False\<rparr>"
  ultimately have t: "tk_status t2 = ''paused''" "tk_finished_run_id t1 = Some 3" "tk_report_pending t1" by simp_all
  have i: "as_word (json_index sample_report ''id'') = Some (7 :: u64)" "as_word (json_index sample_report ''run_id'') = Some (3 :: u64)"
    by (simp_all add: sample_report_params json_eval)
  have "\<exists>x. dispatch sample_sched ''report'' sample_report ([(7, t1)], ()) = (Inr x, ([(7, t2)], ()))"
    using t i by (simp add: dispatch_def do_report_def sample_commit badjust_def Let_def t2_def)
  moreover have "\<exists>x. dispatch sample_sched ''resume'' sample_report ([(7, t2)], ())
      = (Inr x, ([(7, controlled_task ''resume'' ''active'' t2)], ()))"
    using t i by (simp add: dispatch_def do_control_def sample_commit badjust_def control_status_def Let_def)
  moreover have "''report'' \<in> set methods" "''report'' \<noteq> ''claim''" "''resume'' \<in> set methods" "''resume'' \<noteq> ''claim''"
    by (simp_all add: methods_def)
  ultimately show ?thesis using 1 sample_call [of "''report''"] sample_call [of "''resume''"] by metis
qed

lemma paused_success_runs_again_witness:
  "\<exists>t3 :: task. tk_last_outcome t3 = Some ''completed'' \<and> ready_for_claim_at 1000 t3"
proof -
  obtain r1 r2 r3 t1 t2 t3 where c:
    "call_at sample_sched (Call ''2.0'' 9 ''finish'' sample_success) ([(7, sample_running True)], ()) = (Inr (Some r1), ([(7, t1)], ()))"
    "call_at sample_sched (Call ''2.0'' 10 ''report'' sample_report) ([(7, t1)], ()) = (Inr (Some r2), ([(7, t2)], ()))"
    "call_at sample_sched (Call ''2.0'' 11 ''resume'' sample_report) ([(7, t2)], ()) = (Inr (Some r3), ([(7, t3)], ()))"
    using sample_paused by blast
  have b: "bget (fst ([(7 :: u64, sample_running True)], ())) 7 = Some (sample_running True)" by simp
  have i: "as_word (json_index sample_report ''id'') = Some 7" by (simp add: sample_report_params json_eval)
  have "wants_pause sample_success (sample_running True)" by (simp add: sample_running_facts)
  moreover have "tk_due (sample_running True) \<le> 1000" by (simp add: sample_running_def running_task_def sample_task_def)
  ultimately show ?thesis
    using paused_success_runs_again [OF c(1) sample_running_facts(1) b sample_running_facts(7,2) _ sample_running_facts(4) c(2) i c(3) i]
    by blast
qed

end
