(* ===== verification/Channel_Policy.thy ===== *)
theory Channel_Policy
  imports Text Session_Store
begin

text \<open>
  What the daemon makes of an event of a messaging channel before it touches the store
  (\<open>krabb-runtime/src/lib.rs\<close>): the bounded content of the message, the identifiers, and the policy of
  the channel: who may talk, use tools, schedule and reach the shell.
\<close>

definition META_LIMIT :: nat where "META_LIMIT = 4 * 1024"
definition TEXT_LIMIT :: nat where "TEXT_LIMIT = 256 * 1024"
definition CONTENT_LIMIT :: nat where "CONTENT_LIMIT = 64"
definition TOOL_ARGS_LIMIT :: nat where "TOOL_ARGS_LIMIT = 64 * 1024"

section \<open>Bounded text and content\<close>

text \<open>\<open>is_char_boundary\<close>, and the search downwards from an index.\<close>

definition is_char_boundary :: "string \<Rightarrow> nat \<Rightarrow> bool" where
  "is_char_boundary s i \<longleftrightarrow> i = 0 \<or> i = length s \<or> i < length s \<and> \<not> continuation (s ! i)"

fun floor_boundary :: "string \<Rightarrow> nat \<Rightarrow> nat" where
  "floor_boundary s 0 = 0"
| "floor_boundary s (Suc n) = (if is_char_boundary s (Suc n) then Suc n else floor_boundary s n)"

definition ellipsis :: string where
  "ellipsis = [CHR 0xE2, CHR 0x80, CHR 0xA6]"

definition clip :: "string \<Rightarrow> nat \<Rightarrow> string" where
  "clip v limit =
     (if length v \<le> limit then v
      else take (floor_boundary v (min (limit - 3) (length v))) v @ ellipsis)"

definition validate_tool_args :: "(json \<Rightarrow> nat) \<Rightarrow> json \<Rightarrow> bool" where
  "validate_tool_args json_len args \<longleftrightarrow> json_len args \<le> TOOL_ARGS_LIMIT"

text \<open>One item with the text budget that is left, and the budget after it.\<close>

fun bound_item :: "nat \<Rightarrow> content \<Rightarrow> content \<times> nat" where
  "bound_item n (CText t) = (let t' = clip t n in (CText t', n - length t'))"
| "bound_item n (CImage u alt) = (CImage (clip u META_LIMIT) (map_option (\<lambda>v. clip v META_LIMIT) alt), n)"
| "bound_item n (CFile u name mime) =
     (CFile (clip u META_LIMIT) (clip name META_LIMIT) (map_option (\<lambda>v. clip v META_LIMIT) mime), n)"
| "bound_item n (CAudio u mime) = (CAudio (clip u META_LIMIT) (map_option (\<lambda>v. clip v META_LIMIT) mime), n)"
| "bound_item n (CToolCall name args i sig) =
     (CToolCall (clip name META_LIMIT) args (map_option (\<lambda>v. clip v META_LIMIT) i)
        (map_option (\<lambda>v. clip v META_LIMIT) sig), n)"

fun bound_items :: "nat \<Rightarrow> content list \<Rightarrow> content list" where
  "bound_items n [] = []"
| "bound_items n (x # xs) = (let (y, m) = bound_item n x in y # bound_items m xs)"

definition oversized_call :: "(json \<Rightarrow> nat) \<Rightarrow> content \<Rightarrow> bool" where
  "oversized_call json_len x =
     (case x of CToolCall name args i sig \<Rightarrow> \<not> validate_tool_args json_len args | _ \<Rightarrow> False)"

definition bound :: "(json \<Rightarrow> nat) \<Rightarrow> content list \<Rightarrow> content list" where
  "bound json_len xs = bound_items TEXT_LIMIT (filter (\<lambda>x. \<not> oversized_call json_len x) (take CONTENT_LIMIT xs))"

text \<open>The content of an event; \<open>content_of\<close> is the deserialiser of one item.\<close>

definition event_content :: "(json \<Rightarrow> nat) \<Rightarrow> (json \<Rightarrow> content option) \<Rightarrow> json \<Rightarrow> content list" where
  "event_content json_len content_of event =
     (let items = (case as_array (json_index event ''content'') of None \<Rightarrow> []
                   | Some vs \<Rightarrow> List.map_filter content_of (take CONTENT_LIMIT vs))
      in if items \<noteq> [] then bound json_len items
         else (case as_str (json_index event ''text'') of
                 None \<Rightarrow> []
               | Some t \<Rightarrow> if t = [] then [] else bound json_len [CText t]))"

section \<open>Identifiers\<close>

definition event_id :: "json \<Rightarrow> string option" where
  "event_id v = (case as_str v of Some s \<Rightarrow> Some s | None \<Rightarrow> map_option show_int (as_i64 v))"

definition same_id :: "json \<Rightarrow> string \<Rightarrow> bool" where
  "same_id v expected \<longleftrightarrow> event_id v = Some expected"

text \<open>\<open>sha\<close> is the hexadecimal SHA-256 of the bytes.\<close>

definition raw_session :: "string \<Rightarrow> string \<Rightarrow> string option \<Rightarrow> string" where
  "raw_session channel chat thread =
     (case thread of
        None \<Rightarrow> channel @ ''-'' @ chat
      | Some t \<Rightarrow> channel @ ''-'' @ chat @ ''-thread-'' @ t)"

definition session_id :: "(string \<Rightarrow> string) \<Rightarrow> string \<Rightarrow> string \<Rightarrow> string option \<Rightarrow> string" where
  "session_id sha channel chat thread =
     (let raw = raw_session channel chat thread in
      if valid raw then raw
      else channel @ ''-x'' @ sha (channel @ [CHR 0x00] @ chat @ [CHR 0x00]
             @ (case thread of None \<Rightarrow> [] | Some t \<Rightarrow> t)))"

definition memory_scope :: "string \<Rightarrow> string \<Rightarrow> string" where
  "memory_scope channel chat =
     (if channel = ''tui'' then ''tui:'' @ chat else ''provider:'' @ channel @ '':'' @ chat)"

section \<open>Mentions\<close>

text \<open>\<open>char::is_alphanumeric\<close>; the table of the characters beyond ASCII is a parameter.\<close>

definition is_alphanumeric :: "(string \<Rightarrow> bool) \<Rightarrow> string \<Rightarrow> bool" where
  "is_alphanumeric unicode c = (case c of [a] \<Rightarrow> is_ascii_alphanumeric a | _ \<Rightarrow> unicode c)"

fun split_chars :: "(string \<Rightarrow> bool) \<Rightarrow> string list \<Rightarrow> string list" where
  "split_chars p [] = [[]]"
| "split_chars p (c # cs) =
     (if p c then [] # split_chars p cs else (c @ hd (split_chars p cs)) # tl (split_chars p cs))"

definition mentions :: "(string \<Rightarrow> bool) \<Rightarrow> string \<Rightarrow> string \<Rightarrow> bool" where
  "mentions unicode tx marker =
     (let m = trim marker in
      m = [] \<or> (\<exists>piece \<in> set (split_chars (\<lambda>c. \<not> is_alphanumeric unicode c \<and> c \<noteq> ''_'' \<and> c \<noteq> ''-'') (chars tx)).
         to_ascii_lowercase piece = to_ascii_lowercase (dropWhile (\<lambda>c. c = CHR ''@'') m)))"

section \<open>The policy of a channel\<close>

record channel_config =
  cc_allow :: "string list"
  cc_mention :: "string option"
  cc_owner :: "string option"
  cc_admin :: "string list"
  cc_member :: "string list"
  cc_topic :: "string list"
  cc_thread :: "string list"
  cc_worktree :: bool
  cc_tools :: bool
  cc_shell :: bool

definition default_channel :: channel_config where
  "default_channel = \<lparr>cc_allow = [], cc_mention = None, cc_owner = None, cc_admin = [], cc_member = [],
     cc_topic = [], cc_thread = [], cc_worktree = True, cc_tools = False, cc_shell = False\<rparr>"

definition event_sender :: "json \<Rightarrow> string" where
  "event_sender event = (case event_id (json_index event ''sender'') of None \<Rightarrow> [] | Some s \<Rightarrow> s)"

definition event_roles :: "json \<Rightarrow> string list" where
  "event_roles event =
     (case as_array (json_index event ''roles'') of None \<Rightarrow> [] | Some vs \<Rightarrow> List.map_filter event_id vs)"

text \<open>The owner, or one of the administrators and members by sender or by role.\<close>

definition listed :: "channel_config \<Rightarrow> json \<Rightarrow> bool" where
  "listed policy event \<longleftrightarrow>
     cc_owner policy = Some (event_sender event)
     \<or> (\<exists>v \<in> set (cc_admin policy). v = event_sender event \<or> v \<in> set (event_roles event))
     \<or> (\<exists>v \<in> set (cc_member policy). v = event_sender event \<or> v \<in> set (event_roles event))"

definition allowed :: "(string \<Rightarrow> bool) \<Rightarrow> channel_config \<Rightarrow> json \<Rightarrow> string \<Rightarrow> bool" where
  "allowed unicode policy event chat =
     (let private = (json_index event ''private'' = JBool True);
          restricted = (cc_owner policy \<noteq> None \<or> cc_admin policy \<noteq> [] \<or> cc_member policy \<noteq> [])
      in if \<not> private \<and> cc_allow policy = [] then False
         else if \<not> private \<and> cc_allow policy \<noteq> [] \<and> chat \<notin> set (cc_allow policy) then False
         else if (case cc_mention policy of None \<Rightarrow> False
                  | Some marker \<Rightarrow> \<not> (case as_str (json_index event ''text'') of None \<Rightarrow> False
                                     | Some tx \<Rightarrow> mentions unicode tx marker)) then False
         else if cc_topic policy \<noteq> [] \<and> \<not> list_ex (same_id (json_index event ''topic'')) (cc_topic policy) then False
         else if cc_thread policy \<noteq> [] \<and> \<not> list_ex (same_id (json_index event ''thread'')) (cc_thread policy) then False
         else \<not> restricted \<or> listed policy event)"

definition tools_allowed :: "(string \<Rightarrow> bool) \<Rightarrow> channel_config \<Rightarrow> json \<Rightarrow> string \<Rightarrow> bool \<Rightarrow> bool" where
  "tools_allowed unicode policy event chat approvals =
     (if \<not> approvals \<or> \<not> cc_tools policy \<or> \<not> allowed unicode policy event chat then False
      else if json_index event ''private'' \<noteq> JBool True then True
      else chat \<in> set (cc_allow policy) \<or> listed policy event)"

definition schedule_allowed :: "(string \<Rightarrow> bool) \<Rightarrow> channel_config \<Rightarrow> json \<Rightarrow> string \<Rightarrow> bool" where
  "schedule_allowed unicode policy event chat =
     (if \<not> cc_tools policy \<or> \<not> allowed unicode policy event chat then False
      else if json_index event ''private'' \<noteq> JBool True then True
      else chat \<in> set (cc_allow policy) \<or> listed policy event)"

definition channel_shell_allowed ::
  "(string \<Rightarrow> bool) \<Rightarrow> channel_config \<Rightarrow> json \<Rightarrow> string \<Rightarrow> bool \<Rightarrow> bool \<Rightarrow> bool" where
  "channel_shell_allowed unicode policy event chat approvals shell_enabled \<longleftrightarrow>
     shell_enabled \<or> cc_shell policy \<and> tools_allowed unicode policy event chat approvals"

section \<open>Bounds of the content\<close>

lemma floor_boundary_le: "floor_boundary s n \<le> n"
  by (induction s n rule: floor_boundary.induct) auto

lemma length_clip: "length (clip v n) \<le> max n 3"
proof -
  have "floor_boundary v (min (n - 3) (length v)) \<le> n - 3"
    using floor_boundary_le [of v "min (n - 3) (length v)"] by simp
  then show ?thesis by (auto simp: clip_def ellipsis_def)
qed

lemma length_clip_meta: "length (clip v META_LIMIT) \<le> META_LIMIT"
  using length_clip [of v META_LIMIT] by (simp add: META_LIMIT_def)

lemma clip_short: "length v \<le> n \<Longrightarrow> clip v n = v"
  by (simp add: clip_def)

text \<open>The cut is at the start of a character or at the end of the text.\<close>

lemma floor_boundary_ok: "is_char_boundary s (floor_boundary s n)"
  by (induction s n rule: floor_boundary.induct) (auto simp: is_char_boundary_def)

fun text_size :: "content \<Rightarrow> nat" where
  "text_size (CText t) = length t"
| "text_size _ = 0"

fun meta_bounded :: "content \<Rightarrow> bool" where
  "meta_bounded (CText t) = True"
| "meta_bounded (CImage u alt) = (length u \<le> META_LIMIT \<and> list_all (\<lambda>v. length v \<le> META_LIMIT) (case alt of None \<Rightarrow> [] | Some v \<Rightarrow> [v]))"
| "meta_bounded (CFile u n mime) = (length u \<le> META_LIMIT \<and> length n \<le> META_LIMIT
     \<and> list_all (\<lambda>v. length v \<le> META_LIMIT) (case mime of None \<Rightarrow> [] | Some v \<Rightarrow> [v]))"
| "meta_bounded (CAudio u mime) = (length u \<le> META_LIMIT \<and> list_all (\<lambda>v. length v \<le> META_LIMIT) (case mime of None \<Rightarrow> [] | Some v \<Rightarrow> [v]))"
| "meta_bounded (CToolCall n args i sig) = (length n \<le> META_LIMIT
     \<and> list_all (\<lambda>v. length v \<le> META_LIMIT) (case i of None \<Rightarrow> [] | Some v \<Rightarrow> [v])
     \<and> list_all (\<lambda>v. length v \<le> META_LIMIT) (case sig of None \<Rightarrow> [] | Some v \<Rightarrow> [v]))"

lemma bound_item_bounds:
  assumes "bound_item n x = (y, m)"
  shows "meta_bounded y" and "text_size y + m \<le> n + 3" and "m \<le> n"
proof -
  show "meta_bounded y"
    using assms length_clip_meta by (cases x) (auto simp: Let_def split: option.splits)
  have "text_size y + m \<le> n + 3 \<and> m \<le> n"
  proof (cases x)
    case (CText t)
    then have "y = CText (clip t n)" "m = n - length (clip t n)" using assms by (simp_all add: Let_def)
    then show ?thesis using length_clip [of t n] by simp
  qed (use assms in auto)
  then show "text_size y + m \<le> n + 3" "m \<le> n" by simp_all
qed

lemma bound_items_bounds:
  "list_all meta_bounded (bound_items n xs) \<and> length (bound_items n xs) = length xs
     \<and> sum_list (map text_size (bound_items n xs)) \<le> n + 3 * length xs"
proof (induction xs arbitrary: n)
  case (Cons x xs)
  obtain y m where b: "bound_item n x = (y, m)" by (cases "bound_item n x")
  from bound_item_bounds [OF b] Cons [of m] show ?case by (simp add: b)
qed simp

lemma bound_items_calls:
  "list_all (\<lambda>x. \<not> oversized_call jl x) xs \<Longrightarrow> list_all (\<lambda>x. \<not> oversized_call jl x) (bound_items n xs)"
proof (induction xs arbitrary: n)
  case (Cons x xs)
  obtain y m where b: "bound_item n x = (y, m)" by (cases "bound_item n x")
  have "\<not> oversized_call jl y" using b Cons.prems by (cases x) (auto simp: oversized_call_def Let_def)
  with Cons b show ?case by simp
qed simp

text \<open>The content of every event is bounded: at most 64 items, the text in them at most 256 KiB and three
  bytes for every item, every other field at most 4 KiB, and no tool call over its limit.\<close>

definition content_bounded :: "(json \<Rightarrow> nat) \<Rightarrow> content list \<Rightarrow> bool" where
  "content_bounded jl xs \<longleftrightarrow> length xs \<le> CONTENT_LIMIT
     \<and> sum_list (map text_size xs) \<le> TEXT_LIMIT + 3 * CONTENT_LIMIT
     \<and> list_all meta_bounded xs \<and> list_all (\<lambda>x. \<not> oversized_call jl x) xs"

lemma bound_bounded: "content_bounded jl (bound jl xs)"
proof -
  let ?ys = "filter (\<lambda>x. \<not> oversized_call jl x) (take CONTENT_LIMIT xs)"
  have "length ?ys \<le> CONTENT_LIMIT"
    by (rule order_trans [OF length_filter_le]) simp
  moreover have "list_all (\<lambda>x. \<not> oversized_call jl x) ?ys" by (auto simp: list_all_iff)
  ultimately show ?thesis
    using bound_items_bounds [of TEXT_LIMIT ?ys] bound_items_calls
    unfolding content_bounded_def bound_def by fastforce
qed

lemma event_content_bounded: "content_bounded jl (event_content jl of_json event)"
  unfolding event_content_def Let_def
  using bound_bounded by (auto simp: content_bounded_def split: option.split)

section \<open>Session identifiers\<close>

lemma valid_append: "valid (xs @ ys) \<longleftrightarrow> (xs @ ys \<noteq> [] \<and> (xs = [] \<or> valid xs) \<and> (ys = [] \<or> valid ys))"
  by (auto simp: valid_def)

lemma valid_lowercase: "list_all (\<lambda>c. is_ascii_lowercase c \<or> is_ascii_digit c) s \<Longrightarrow> s \<noteq> [] \<Longrightarrow> valid s"
  by (auto simp: valid_def list_all_iff)

lemma valid_session_id:
  assumes "valid channel" and "\<And>b. list_all (\<lambda>c. is_ascii_lowercase c \<or> is_ascii_digit c) (sha b) \<and> sha b \<noteq> []"
  shows "valid (session_id sha channel chat thread)"
proof -
  have "valid (channel @ ''-x'' @ sha b)" for b
    using assms valid_lowercase by (auto simp: valid_append) (simp add: valid_def is_ascii_lowercase_def code_def)
  then show ?thesis by (simp add: session_id_def Let_def)
qed

text \<open>Numbers as identifiers, with a sign: no two rooms share a session.\<close>

definition numeric :: "string \<Rightarrow> bool" where
  "numeric s \<longleftrightarrow> list_all (\<lambda>c. is_ascii_digit c \<or> c = CHR ''-'') s"

lemma numeric_no_letter: "numeric s \<Longrightarrow> CHR ''t'' \<notin> set s"
  by (auto simp: numeric_def list_all_iff is_ascii_digit_def code_def)

lemma raw_session_valid: "valid channel \<Longrightarrow> numeric chat \<Longrightarrow> list_all numeric (case thread of None \<Rightarrow> [] | Some t \<Rightarrow> [t]) \<Longrightarrow>
    valid (raw_session channel chat thread)"
  by (auto simp: raw_session_def valid_def numeric_def list_all_iff is_ascii_lowercase_def code_def split: option.splits)

lemma thread_split:
  "a @ ''-thread-'' @ b = c @ ''-thread-'' @ d \<Longrightarrow> CHR ''t'' \<notin> set a \<Longrightarrow> CHR ''t'' \<notin> set c \<Longrightarrow> a = c \<and> b = d"
proof -
  assume e: "a @ ''-thread-'' @ b = c @ ''-thread-'' @ d" and n: "CHR ''t'' \<notin> set a" "CHR ''t'' \<notin> set c"
  have "split_once (CHR ''t'') (a @ ''-thread-'' @ b) = Some (a @ ''-'', ''hread-'' @ b)"
    "split_once (CHR ''t'') (c @ ''-thread-'' @ d) = Some (c @ ''-'', ''hread-'' @ d)"
    using n by (simp_all add: split_once_Some)
  with e show ?thesis by simp
qed

lemma session_id_numeric:
  assumes "valid channel" and "numeric a" and "numeric b"
    and "list_all numeric (case t of None \<Rightarrow> [] | Some v \<Rightarrow> [v])" and "list_all numeric (case u of None \<Rightarrow> [] | Some v \<Rightarrow> [v])"
    and "session_id sha channel a t = session_id sha channel b u"
  shows "a = b \<and> t = u"
proof -
  have eq: "raw_session channel a t = raw_session channel b u"
    using assms(6) raw_session_valid [OF assms(1,2,4)] raw_session_valid [OF assms(1,3,5)]
    by (simp add: session_id_def)
  note n = numeric_no_letter [OF assms(2)] numeric_no_letter [OF assms(3)]
  show ?thesis
  proof (cases t; cases u)
    fix x assume *: "t = None" "u = Some x"
    then have "a = b @ ''-thread-'' @ x" using eq by (simp add: raw_session_def)
    then show ?thesis using n(1) by simp
  next
    fix x assume *: "t = Some x" "u = None"
    then have "b = a @ ''-thread-'' @ x" using eq by (simp add: raw_session_def)
    then show ?thesis using n(2) by simp
  next
    fix x y assume *: "t = Some x" "u = Some y"
    then have "a @ ''-thread-'' @ x = b @ ''-thread-'' @ y" using eq by (simp add: raw_session_def)
    from thread_split [OF this n] * show ?thesis by simp
  qed (use eq in \<open>simp add: raw_session_def\<close>)
qed

end
