(* ===== verification/Channel_Requests.thy ===== *)
theory Channel_Requests
  imports Channel_Policy Delivery_Store
begin

text \<open>
  What the daemon sends to a messaging plugin (\<open>krabb-runtime/src/lib.rs\<close>): the requests that deliver and
  edit a message, the text of an error, and the output of a turn that is streamed into a message.
\<close>

section \<open>Errors as text\<close>

text \<open>\<open>Display\<close> of \<open>krabb_core::Error\<close>; the text of an I/O error is its message.\<close>

fun show_error :: "core_error \<Rightarrow> string" where
  "show_error (Io (IoError k m)) = ''I/O error: '' @ m"
| "show_error (JsonError m) = ''JSON error: '' @ m"
| "show_error (Handshake m) = ''Plugin handshake failed: '' @ m"
| "show_error (Protocol m) = ''Unsupported protocol: '' @ m"
| "show_error (Denied m) = ''Denied: '' @ m"
| "show_error (Limit m) = ''Turn limit reached: '' @ m"

function undenied :: "string \<Rightarrow> string" where
  "undenied v = (case strip_prefix ''Denied: '' v of None \<Rightarrow> v | Some m \<Rightarrow> undenied (trim m))"
  by pat_completeness auto
termination
proof (relation "measure length", simp)
  fix v m
  assume "strip_prefix ''Denied: '' v = Some m"
  then have "v = ''Denied: '' @ m" by (simp only: strip_prefix_Some)
  then have "length m < length v" by simp
  then show "(trim m, v) \<in> measure length" using length_trim [of m] by simp
qed

declare undenied.simps [simp del]

text \<open>\<open>upper\<close> is the upper case of one character.\<close>

definition sentence :: "(string \<Rightarrow> string) \<Rightarrow> string \<Rightarrow> string" where
  "sentence upper value =
     (let v = undenied (trim value) in
      if v = [] then ''Unknown error.''
      else
        (let titled = (case chars v of [] \<Rightarrow> v | c # cs \<Rightarrow> upper c @ concat cs) in
         if last (chars titled) \<in> {''.'', ''!'', ''?''} then titled else titled @ ''.''))"

section \<open>Requests\<close>

definition parse_i64 :: "string \<Rightarrow> int option" where
  "parse_i64 s = (case s of
     c # cs \<Rightarrow> if c = CHR ''-''
               then (if cs = [] then None
                     else Option.bind (read_digits 0 cs) (\<lambda>n. if n \<le> 2 ^ 63 then Some (- int n) else None))
               else map_option int (parse_unsigned (2 ^ 63 - 1) s)
   | [] \<Rightarrow> None)"

definition telegram_chat :: "string \<Rightarrow> string + int" where
  "telegram_chat chat = (case parse_i64 chat of None \<Rightarrow> Inl ''Telegram chat ID was invalid.'' | Some i \<Rightarrow> Inr i)"

definition with_thread :: "string option \<Rightarrow> (string \<times> json) list \<Rightarrow> (string \<times> json) list" where
  "with_thread thread fs = (case thread of None \<Rightarrow> fs | Some t \<Rightarrow> fs @ [(''thread'', JStr t)])"

definition send_params :: "string \<Rightarrow> string \<Rightarrow> string \<Rightarrow> string \<Rightarrow> string option \<Rightarrow> string + (string \<times> json) list" where
  "send_params channel delivery chat tx thread =
     (if channel = ''discord''
      then Inr [(''delivery'', JStr delivery), (''channel'', JStr chat), (''text'', JStr tx)]
      else if channel \<noteq> ''telegram''
      then Inr (with_thread thread [(''delivery'', JStr delivery), (''chat'', JStr chat), (''text'', JStr tx)])
      else (case telegram_chat chat of
              Inl e \<Rightarrow> Inl e
            | Inr i \<Rightarrow> Inr (with_thread thread [(''chat'', JInt i), (''delivery'', JStr delivery), (''text'', JStr tx)])))"

definition send_request ::
  "string \<Rightarrow> u64 \<Rightarrow> string \<Rightarrow> string \<Rightarrow> bool \<Rightarrow> string \<Rightarrow> string option \<Rightarrow> string + request" where
  "send_request channel call delivery chat private tx thread =
     (case send_params channel delivery chat tx thread of
        Inl e \<Rightarrow> Inl e
      | Inr fs \<Rightarrow> Inr (request_call call ''send''
          (jobject (if channel = ''signal'' then fs @ [(''private'', JBool private)] else fs))))"

definition edit_params ::
  "string \<Rightarrow> string \<Rightarrow> string \<Rightarrow> string \<Rightarrow> string \<Rightarrow> string option \<Rightarrow> string + (string \<times> json) list" where
  "edit_params channel delivery chat msg tx thread =
     (if channel = ''discord''
      then Inr [(''delivery'', JStr delivery), (''channel'', JStr chat), (''message'', JStr msg), (''text'', JStr tx)]
      else if channel \<noteq> ''telegram'' then Inl ''This channel does not support message edits.''
      else (case telegram_chat chat of
              Inl e \<Rightarrow> Inl e
            | Inr i \<Rightarrow>
                (case parse_i64 msg of
                   None \<Rightarrow> Inl ''Telegram message ID was invalid.''
                 | Some m \<Rightarrow> Inr (with_thread thread
                     [(''delivery'', JStr delivery), (''chat'', JInt i), (''message'', JInt m), (''text'', JStr tx)]))))"

definition delivery_request :: "string \<Rightarrow> u64 \<Rightarrow> delivery \<Rightarrow> string + request" where
  "delivery_request channel call d =
     (case d_message_id d of
        Some msg \<Rightarrow>
          (case edit_params channel (d_id d) (d_chat d) msg (d_text d) (d_thread d) of
             Inl e \<Rightarrow> Inl e | Inr fs \<Rightarrow> Inr (request_call call ''edit'' (jobject fs)))
      | None \<Rightarrow> send_request channel call (d_id d) (d_chat d) (d_private d) (d_text d) (d_thread d))"

section \<open>Streamed output\<close>

datatype stream_notice = NText string | NTool string | NSystem string | NApproval

record stream_output =
  so_text :: string
  so_display :: string
  so_message_id :: "string option"
  so_dirty :: bool
  so_disabled :: bool

definition new_output :: stream_output where
  "new_output = \<lparr>so_text = [], so_display = [], so_message_id = None, so_dirty = False, so_disabled = False\<rparr>"

definition apply_notice :: "stream_notice \<Rightarrow> stream_output \<Rightarrow> stream_output" where
  "apply_notice n out =
     (let out' = (case n of
            NText tx \<Rightarrow> (let t = clip (so_text out @ tx) TEXT_LIMIT in out\<lparr>so_text := t, so_display := t\<rparr>)
          | NTool name \<Rightarrow> out\<lparr>so_text := [], so_display := ''Working with '' @ clip name META_LIMIT @ ellipsis\<rparr>
          | NSystem tx \<Rightarrow> out
          | NApproval \<Rightarrow> out)
      in out'\<lparr>so_dirty := (so_display out' \<noteq> [])\<rparr>)"

text \<open>The UTF-16 length of a text: characters of four bytes count twice.\<close>

definition utf16_length :: "string \<Rightarrow> nat" where
  "utf16_length s = sum_list (map (\<lambda>c. if length c = 4 then 2 else 1) (chars s))"

definition stream_fits :: "string \<Rightarrow> string \<Rightarrow> bool" where
  "stream_fits channel tx =
     (if channel = ''telegram'' then utf16_length tx \<le> 4096
      else if channel = ''discord'' then length (chars tx) \<le> 2000 else False)"

definition channel_message_id :: "string \<Rightarrow> json \<Rightarrow> string option" where
  "channel_message_id channel result =
     (if channel = ''telegram'' then map_option show_int (as_i64 (json_index result ''message_id''))
      else if channel = ''discord'' then as_str (json_index result ''id'') else None)"

definition retry_delay :: "u32 \<Rightarrow> nat" where
  "retry_delay attempts = min (2 ^ min (unat attempts) 5) 30"

lemma retry_delay_bounds: "1 \<le> retry_delay a \<and> retry_delay a \<le> 30"
  by (simp add: retry_delay_def)

lemma apply_notice_bounded:
  "length (so_text out) \<le> TEXT_LIMIT \<Longrightarrow> length (so_text (apply_notice n out)) \<le> TEXT_LIMIT"
  using length_clip [of "so_text out @ _" TEXT_LIMIT] by (cases n) (auto simp: apply_notice_def Let_def TEXT_LIMIT_def)

end
