(* ===== verification/Channel_Bridge.thy ===== *)
theory Channel_Bridge
  imports Channel_Requests Approval
begin

text \<open>
  The loop between a messaging channel, the store and the model in \<open>krabb-runtime/src/lib.rs\<close>:
  \<open>commit_event_inner\<close>, \<open>handle_callback\<close>, the admission of an event, the end of a turn and the delivery
  of pending messages in \<open>bridge_with_media\<close>, and \<open>queue_during_turn\<close>. One definition per stage;
  each runs under the lock of the store, so it is a step on the state of the bridge.

  The environment gives the store's clock and file operations (\<open>be_store k\<close> for the \<open>k\<close>th store operation
  of a step), the calls of the channel plugin, the attachments of a message as resolved by the
  media plugins, the isolated workspace of a group, and the model turn.
\<close>

section \<open>State and environment\<close>

datatype bridge_error = StoreFailed io_error | PluginFailed core_error | BridgeFailed string

text \<open>A turn that may start: its session, message, history, model and workspace.\<close>

record turn_start =
  tu_session :: string
  tu_delivery :: string
  tu_chat :: string
  tu_thread :: "string option"
  tu_message :: message
  tu_roles :: "string list"
  tu_history :: "message list"
  tu_model :: string
  tu_workspace :: "string option"

record ('d, 'p) bridge =
  bs_world :: "'d world"
  bs_offset :: int
  bs_call :: u64
  bs_gate :: gate
  bs_plugin :: 'p

record ('d, 'p) bridge_env =
  be_store :: "nat \<Rightarrow> 'd env"
  be_call :: "string \<Rightarrow> request \<Rightarrow> 'p \<Rightarrow> (core_error + response) \<times> 'p"
  be_restart :: "'p \<Rightarrow> (core_error + unit) \<times> 'p"
  be_recover :: "string \<Rightarrow> 'p \<Rightarrow> bool \<times> 'p"
  be_media :: "content list \<Rightarrow> 'p \<Rightarrow> u64 \<Rightarrow> content list \<times> 'p \<times> u64"
  be_isolate :: "string \<Rightarrow> 'p \<Rightarrow> (string + string option) \<times> 'p"
  be_approval :: approval_env
  be_turn :: "turn_start \<Rightarrow> 'd world \<Rightarrow> 'p \<Rightarrow> u64 \<Rightarrow> (string + string) \<times> 'd world \<times> 'p \<times> u64"
  be_content_json :: "content \<Rightarrow> json"
  be_show_json :: "json \<Rightarrow> string"
  be_json_len :: "json \<Rightarrow> nat"
  be_content_of :: "json \<Rightarrow> content option"
  be_unicode :: "string \<Rightarrow> bool"
  be_upper :: "string \<Rightarrow> string"

definition bs_store :: "('d, 'p) bridge \<Rightarrow> store" where
  "bs_store b = fst (bs_world b)"

text \<open>A store operation within a step, and a call of the channel plugin.\<close>

definition do_store :: "('d, 'a) action \<Rightarrow> ('d, 'p) bridge \<Rightarrow> (bridge_error + 'a) \<times> ('d, 'p) bridge" where
  "do_store a b =
     (case a (bs_world b) of
        (Inl e, w) \<Rightarrow> (Inl (StoreFailed e), b\<lparr>bs_world := w\<rparr>)
      | (Inr x, w) \<Rightarrow> (Inr x, b\<lparr>bs_world := w\<rparr>))"

definition plugin_call ::
  "('d, 'p) bridge_env \<Rightarrow> string \<Rightarrow> string \<Rightarrow> json \<Rightarrow> ('d, 'p) bridge \<Rightarrow> (core_error + response) \<times> ('d, 'p) bridge" where
  "plugin_call env channel rpc params b =
     (case be_call env channel (request_call (bs_call b) rpc params) (bs_plugin b) of
        (r, p) \<Rightarrow> (r, b\<lparr>bs_plugin := p, bs_call := bs_call b + 1\<rparr>))"

section \<open>Committing an event\<close>

definition ACK_ATTEMPTS :: nat where "ACK_ATTEMPTS = 3"

definition accepted :: "core_error + response \<Rightarrow> bool" where
  "accepted r \<longleftrightarrow> (case r of Inl e \<Rightarrow> False | Inr resp \<Rightarrow> r_error resp = None \<and> r_result resp \<noteq> None)"

text \<open>The acknowledgement with the attempts that are left.\<close>

fun ack_loop :: "('d, 'p) bridge_env \<Rightarrow> string \<Rightarrow> string \<Rightarrow> u64 \<Rightarrow> nat \<Rightarrow> ('d, 'p) bridge \<Rightarrow>
    (bridge_error + unit) \<times> ('d, 'p) bridge" where
  "ack_loop env channel i sequence 0 b =
     (Inl (BridgeFailed ''Channel acknowledgement failed after recovery attempts.''), b)"
| "ack_loop env channel i sequence (Suc n) b =
     (case plugin_call env channel ''ack'' (jobject [(''sequence'', jword sequence)]) b of
        (r, b1) \<Rightarrow>
          if accepted r then do_store (mark_deferred_acknowledged (be_store env 9) channel i) b1
          else if n = 0 then (Inl (BridgeFailed ''Channel acknowledgement failed after recovery attempts.''), b1)
          else (case be_restart env (bs_plugin b1) of
                  (Inl e, p) \<Rightarrow> (Inl (PluginFailed e), b1\<lparr>bs_plugin := p\<rparr>)
                | (Inr u, p) \<Rightarrow> ack_loop env channel i sequence n (b1\<lparr>bs_plugin := p\<rparr>)))"

definition commit_event_inner :: "('d, 'p) bridge_env \<Rightarrow> string \<Rightarrow> string \<Rightarrow> int option \<Rightarrow> u64 option \<Rightarrow> bool \<Rightarrow>
    ('d, 'p) bridge \<Rightarrow> (bridge_error + unit) \<times> ('d, 'p) bridge" where
  "commit_event_inner env channel i offset sequence retained b =
     (let st = bs_store b;
          was_retained = has_deferred_event st channel i;
          complete = (was_retained \<and> deferred_acknowledged (digest (be_store env 0)) st channel i)
      in case do_store ((if retained then commit_retained else commit) (be_store env 0) channel i offset) b of
           (Inl e, b1) \<Rightarrow> (Inl e, b1)
         | (Inr u, b1) \<Rightarrow>
             (let b2 = (case offset of None \<Rightarrow> b1 | Some n \<Rightarrow> b1\<lparr>bs_offset := max (bs_offset b1) n\<rparr>) in
              case sequence of
                None \<Rightarrow> (Inr (), b2)
              | Some s \<Rightarrow> if \<not> was_retained \<or> \<not> complete then ack_loop env channel i s ACK_ATTEMPTS b2
                          else (Inr (), b2)))"

section \<open>Screening an event\<close>

definition too_long :: "json \<Rightarrow> nat \<Rightarrow> bool" where
  "too_long v limit \<longleftrightarrow> (case as_str v of None \<Rightarrow> False | Some s \<Rightarrow> limit < length s)"

definition roles_too_long :: "json \<Rightarrow> bool" where
  "roles_too_long v \<longleftrightarrow>
     (case as_array v of None \<Rightarrow> False
      | Some roles \<Rightarrow> CONTENT_LIMIT < length roles \<or> list_ex (\<lambda>r. too_long r META_LIMIT) roles)"

text \<open>The chat and the thread of an event that is neither a duplicate nor oversized nor denied.\<close>

definition screen_event :: "('d, 'p) bridge_env \<Rightarrow> channel_config \<Rightarrow> string \<Rightarrow> bool \<Rightarrow> string \<Rightarrow> json \<Rightarrow> store \<Rightarrow>
    (string \<times> string option) option" where
  "screen_event env policy channel queued i event st =
     (if META_LIMIT < length i then None
      else if \<not> queued \<and> \<not> has_deferred_event st channel i \<and> known (digest (be_store env 0)) st channel i then None
      else (case event_id (json_index event ''chat'') of
              None \<Rightarrow> None
            | Some chat \<Rightarrow>
                (let thread = event_id (json_index event ''thread'') in
                 if META_LIMIT < length chat then None
                 else if (case thread of None \<Rightarrow> False | Some t \<Rightarrow> META_LIMIT < length t) then None
                 else if too_long (json_index event ''topic'') META_LIMIT \<or> too_long (json_index event ''text'') TEXT_LIMIT then None
                 else if too_long (json_index event ''sender'') META_LIMIT \<or> roles_too_long (json_index event ''roles'') then None
                 else if \<not> queued \<and> \<not> allowed (be_unicode env) policy event chat then None
                 else Some (chat, thread))))"

definition user_message :: "string \<Rightarrow> string \<Rightarrow> json \<Rightarrow> content list \<Rightarrow> message" where
  "user_message i session event content =
     \<lparr>m_id = i, m_session = session, m_role = User, m_sender = event_id (json_index event ''sender''), m_content = content\<rparr>"

definition message_roles :: "json \<Rightarrow> string list" where
  "message_roles event =
     (case as_array (json_index event ''roles'') of None \<Rightarrow> [] | Some vs \<Rightarrow> List.map_filter event_id (take CONTENT_LIMIT vs))"

definition next_offset :: "json \<Rightarrow> int option" where
  "next_offset event = map_option (\<lambda>v. min (v + 1) (2 ^ 63 - 1)) (as_i64 (json_index event ''id''))"

definition is_private :: "json \<Rightarrow> bool" where
  "is_private event \<longleftrightarrow> json_index event ''private'' = JBool True"

section \<open>Admission\<close>

record admission =
  ad_workspace :: "string option"
  ad_commit :: bool
  ad_defer :: bool
  ad_stop :: bool
  ad_prepared :: "(message list \<times> string) option"

definition would_block :: "bridge_error \<Rightarrow> bool" where
  "would_block e \<longleftrightarrow> (case e of StoreFailed io \<Rightarrow> error_kind io = WouldBlock | _ \<Rightarrow> False)"

text \<open>Where the event can go: nowhere (commit it), later (defer it), or on; and its workspace.\<close>

definition room_for :: "('d, 'p) bridge_env \<Rightarrow> channel_config \<Rightarrow> json \<Rightarrow> string \<Rightarrow> store \<Rightarrow> 'p \<Rightarrow>
    (string option \<times> bool \<times> bool) \<times> 'p" where
  "room_for env policy event name st p =
     (if map_option s_status (bget (st_sessions st) name) = Some ''cancelled'' then ((None, True, False), p)
      else if bget (st_sessions st) name = None \<and> LIMIT \<le> length (st_sessions st) then ((None, False, True), p)
      else if \<not> is_private event \<and> cc_worktree policy
      then (case be_isolate env name p of
              (Inl e, p') \<Rightarrow> ((None, True, False), p')
            | (Inr ws, p') \<Rightarrow> ((ws, False, False), p'))
      else ((None, False, False), p))"

text \<open>The turn, the queue or nothing, once the session exists.\<close>

definition place :: "('d, 'p) bridge_env \<Rightarrow> string \<Rightarrow> bool \<Rightarrow> message \<Rightarrow> string list \<Rightarrow> string \<Rightarrow>
    admission \<Rightarrow> ('d, 'p) bridge \<Rightarrow> admission \<times> ('d, 'p) bridge" where
  "place env channel queued m roles name a b =
     (case bget (st_sessions (bs_store b)) name of
        None \<Rightarrow> (a\<lparr>ad_prepared := None\<rparr>, b)
      | Some s \<Rightarrow>
          (let existing = list_ex (\<lambda>x. m_id x = m_id m) (s_messages s) in
           if \<not> queued \<and> (existing \<or> list_ex (\<lambda>q. m_id q = m_id m) (s_queued s)) then (a\<lparr>ad_prepared := None\<rparr>, b)
           else if \<not> queued \<and> s_status s = ''working''
           then (case do_store (queue_with_roles (be_store env 3) name m roles) b of
                   (Inl e, b') \<Rightarrow> (if would_block e then a\<lparr>ad_defer := True\<rparr> else a\<lparr>ad_stop := True\<rparr>, b')
                 | (Inr u, b') \<Rightarrow> (a\<lparr>ad_prepared := None\<rparr>, b'))
           else (let history = (if existing then s_messages s else compact_messages (s_messages s @ [m])) in
                 case do_store (if queued then begin_queued_with_roles (be_store env 4) name m roles channel
                       else begin_with_roles (be_store env 4) name m roles) b of
                   (Inl e, b') \<Rightarrow> (a\<lparr>ad_stop := True\<rparr>, b')
                 | (Inr u, b') \<Rightarrow> (a\<lparr>ad_prepared := Some (history, s_model s)\<rparr>, b'))))"

definition admit :: "('d, 'p) bridge_env \<Rightarrow> string \<Rightarrow> channel_config \<Rightarrow> string \<Rightarrow> bool \<Rightarrow> json \<Rightarrow> message \<Rightarrow> string list \<Rightarrow>
    string \<Rightarrow> string \<Rightarrow> string option \<Rightarrow> ('d, 'p) bridge \<Rightarrow> admission \<times> ('d, 'p) bridge" where
  "admit env channel policy model queued event m roles name chat thread b =
     (case room_for env policy event name (bs_store b) (bs_plugin b) of
        ((workspace, refuse, later), p) \<Rightarrow>
          (let a = \<lparr>ad_workspace = workspace, ad_commit = refuse, ad_defer = later, ad_stop = False, ad_prepared = None\<rparr>;
               b0 = b\<lparr>bs_plugin := p\<rparr>
           in if refuse then (a, b0)
           else (case do_store (ensure (be_store env 1) name model) b0 of
                   (Inl e, b1) \<Rightarrow> (if would_block e then a\<lparr>ad_defer := True\<rparr> else a\<lparr>ad_stop := True\<rparr>, b1)
                 | (Inr u, b1) \<Rightarrow>
                     (case do_store (route (be_store env 2) name channel chat thread (is_private event)) b1 of
                        (Inl e, b2) \<Rightarrow> (a\<lparr>ad_stop := True\<rparr>, b2)
                      | (Inr u, b2) \<Rightarrow> place env channel queued m roles name a b2))))"

datatype outcome =
    Ignored
  | Committed
  | Deferred
  | Waiting
  | Stalled
  | Begun turn_start

definition committed :: "('d, 'p) bridge_env \<Rightarrow> string \<Rightarrow> string \<Rightarrow> json \<Rightarrow> bool \<Rightarrow> outcome \<Rightarrow> ('d, 'p) bridge \<Rightarrow>
    (bridge_error + outcome) \<times> ('d, 'p) bridge" where
  "committed env channel i event retained out b =
     (case commit_event_inner env channel i (next_offset event) (as_word (json_index event ''gateway_sequence'')) retained b of
        (Inl e, b') \<Rightarrow> (Inl e, b') | (Inr u, b') \<Rightarrow> (Inr out, b'))"

section \<open>Callbacks\<close>

definition handle_callback :: "('d, 'p) bridge_env \<Rightarrow> string \<Rightarrow> channel_config \<Rightarrow> bool \<Rightarrow> json \<Rightarrow> bool \<Rightarrow> ('d, 'p) bridge \<Rightarrow>
    (bridge_error + unit) \<times> ('d, 'p) bridge" where
  "handle_callback env channel policy approvals event advance b =
     (case event_id (json_index event ''id'') of
        None \<Rightarrow> (Inl (BridgeFailed ''Callback event has no ID.''), b)
      | Some i \<Rightarrow>
          (let seq = as_word (json_index event ''gateway_sequence'');
               commit_to = (\<lambda>off. commit_event_inner env channel i off seq False) in
           if known (digest (be_store env 0)) (bs_store b) channel i
           then (if \<not> advance then (Inr (), b)
                 else commit_to (Option.bind (next_offset event)
                        (\<lambda>n. if n \<le> min (bs_offset b + 1) (2 ^ 63 - 1) then Some n else None)) b)
           else
             (let off = (if advance then next_offset event else None);
                  callback = Option.bind (as_str (json_index event ''callback_id''))
                    (\<lambda>v. if v \<noteq> [] \<and> length v \<le> META_LIMIT then Some v else None)
              in case event_id (json_index event ''chat'') of
                   None \<Rightarrow> commit_to off b
                 | Some chat \<Rightarrow>
                     (case callback of
                        None \<Rightarrow> commit_to off b
                      | Some cb \<Rightarrow>
                          (let tok = (case as_str (json_index event ''data'') of
                                        None \<Rightarrow> [] | Some v \<Rightarrow> if length v \<le> 64 then v else []);
                               authority = (case cc_mention policy of
                                   None \<Rightarrow> event
                                 | Some mention \<Rightarrow> (case event of JObj m \<Rightarrow> JObj (binsert ''text'' (JStr mention) m) | _ \<Rightarrow> event));
                               authorized = tools_allowed (be_unicode env) policy authority chat approvals;
                               thread = (case event_id (json_index event ''thread'') of None \<Rightarrow> None | Some t \<Rightarrow> Some t);
                               (decision, gate) = resolve (be_approval env) tok channel chat thread authorized (bs_gate b);
                               msg = (case decision of Some True \<Rightarrow> ''Approval accepted.''
                                      | Some False \<Rightarrow> ''The request was denied.''
                                      | None \<Rightarrow> ''This approval is invalid or expired.'');
                               b1 = snd (plugin_call env channel ''callback'' (jobject [(''id'', JStr cb), (''text'', JStr msg)])
                                      (b\<lparr>bs_gate := gate\<rparr>))
                           in commit_to off b1)))))"

section \<open>One event\<close>

text \<open>What follows the admission: the event stays for later, or is committed, and a turn may start.\<close>

definition after_admission :: "('d, 'p) bridge_env \<Rightarrow> string \<Rightarrow> bool \<Rightarrow> bool \<Rightarrow> json \<Rightarrow> string \<Rightarrow> (message list \<Rightarrow> string \<Rightarrow> turn_start) \<Rightarrow>
    admission \<Rightarrow> ('d, 'p) bridge \<Rightarrow> (bridge_error + outcome) \<times> ('d, 'p) bridge" where
  "after_admission env channel queued retained event i start a b =
     (if ad_stop a then (Inr Stalled, b)
      else if ad_defer a
      then (if retained then (Inr Waiting, b)
            else (case do_store (defer_event (be_store env 5) channel event) b of
                    (Inl e, b1) \<Rightarrow> (if would_block e then Inr Stalled else Inl e, b1)
                  | (Inr u, b1) \<Rightarrow> committed env channel i event True Deferred b1))
      else if ad_commit a then committed env channel i event False Committed b
      else (case ad_prepared a of
              None \<Rightarrow> committed env channel i event False Committed b
            | Some (history, session_model) \<Rightarrow>
                if queued then (Inr (Begun (start history session_model)), b)
                else committed env channel i event False (Begun (start history session_model)) b))"

definition bridge_event :: "('d, 'p) bridge_env \<Rightarrow> string \<Rightarrow> channel_config \<Rightarrow> string \<Rightarrow> bool \<Rightarrow> string option \<Rightarrow> json \<Rightarrow>
    ('d, 'p) bridge \<Rightarrow> (bridge_error + outcome) \<times> ('d, 'p) bridge" where
  "bridge_event env channel policy model approvals queued_id event b =
     (case event_id (json_index event ''id'') of
        None \<Rightarrow> (Inr Ignored, b)
      | Some i \<Rightarrow>
          if json_index event ''kind'' = JStr ''callback''
          then (case handle_callback env channel policy approvals event True b of
                  (Inl e, b') \<Rightarrow> (Inl e, b') | (Inr u, b') \<Rightarrow> (Inr Committed, b'))
          else
            (let queued = (queued_id = Some i) in
             case screen_event env policy channel queued i event (bs_store b) of
               None \<Rightarrow> committed env channel i event False Committed b
             | Some (chat, thread) \<Rightarrow>
                 (let retained = has_deferred_event (bs_store b) channel i;
                      (content, p, c) = be_media env (event_content (be_json_len env) (be_content_of env) event)
                                          (bs_plugin b) (bs_call b);
                      b1 = b\<lparr>bs_plugin := p, bs_call := c\<rparr>;
                      name = session_id (digest (be_store env 0)) channel chat thread
                  in if content = [] \<or> \<not> valid name then committed env channel i event False Committed b1
                     else
                       (let m = user_message i name event content; roles = message_roles event;
                            (a, b2) = admit env channel policy model queued event m roles name chat thread b1
                        in after_admission env channel queued retained event i
                             (\<lambda>history session_model.
                                \<lparr>tu_session = name, tu_delivery = channel @ ''-'' @ i, tu_chat = chat,
                                 tu_thread = thread, tu_message = m, tu_roles = roles, tu_history = history,
                                 tu_model = session_model, tu_workspace = ad_workspace a\<rparr>) a b2))))"

end
