(* ===== verification/Channel_Turns.thy ===== *)
theory Channel_Turns
  imports Channel_Bridge
begin

text \<open>
  The rest of \<open>bridge_with_media\<close>: what the daemon does with the outcome of a turn, the delivery of
  pending messages, the messages that wait in a queue, polling, and one round of the loop; and
  \<open>queue_during_turn\<close>, which takes events while a turn waits for an approval.
\<close>

section \<open>The outcome of a turn\<close>

definition session_status :: "store \<Rightarrow> string \<Rightarrow> string option" where
  "session_status st name = map_option s_status (bget (st_sessions st) name)"

definition assistant_message :: "string \<Rightarrow> string \<Rightarrow> string \<Rightarrow> message" where
  "assistant_message i session tx =
     \<lparr>m_id = i, m_session = session, m_role = Assistant, m_sender = None, m_content = [CText tx]\<rparr>"

definition failure_text :: string where
  "failure_text = ''I could not complete that turn.''"

text \<open>The result is whether the loop goes on.\<close>

definition turn_failed :: "('d, 'p) bridge_env \<Rightarrow> string \<Rightarrow> turn_start \<Rightarrow> string \<Rightarrow> ('d, 'p) bridge \<Rightarrow>
    (bridge_error + bool) \<times> ('d, 'p) bridge" where
  "turn_failed env channel t err b =
     (let name = tu_session t in
      if session_status (bs_store b) name = Some ''cancelled'' \<or> err = ''The turn was cancelled.''
      then (let b1 = snd (do_store (clear (be_store env 0) name ''cancelled'') b)
            in (Inr True, b1\<lparr>bs_plugin := snd (be_restart env (bs_plugin b1))\<rparr>))
      else if err = ''The turn was interrupted.''
      then (Inr False, snd (do_store (set_status (be_store env 0) name ''interrupted'') b))
      else
        (let replay = (case bget (st_sessions (bs_store b)) name of None \<Rightarrow> True | Some s \<Rightarrow> s_phase s \<noteq> ''unsafe'');
             failure = assistant_message (''failure-'' @ show_nat (unat (bs_call b))) name failure_text;
             (r, b1) = do_store (reply (be_store env 1) name failure (tu_delivery t) channel (tu_chat t) (tu_thread t) failure_text) b
         in case (case r of Inr u \<Rightarrow> (Inr (), b1) | Inl e \<Rightarrow> do_store (clear (be_store env 2) name ''interrupted'') b1) of
              (Inl e, b2) \<Rightarrow> (Inl (BridgeFailed ''Could not clear the failed turn lease.''), b2)
            | (Inr u, b2) \<Rightarrow>
                (let b3 = (if replay then snd (do_store (queue_with_roles (be_store env 3) name (tu_message t) (tu_roles t)) b2) else b2);
                     (go_on, p) = be_recover env ''model'' (bs_plugin b3)
                 in (Inr go_on, b3\<lparr>bs_plugin := p\<rparr>))))"

definition status_if_present :: "'d env \<Rightarrow> string \<Rightarrow> string \<Rightarrow> ('d, unit) action" where
  "status_if_present env name status w =
     (if bget (st_sessions (fst w)) name \<noteq> None then set_status env name status w else return () w)"

text \<open>A delivery that is marked as being sent is sent, and its fate is recorded.\<close>

definition settle_delivery :: "('d, 'p) bridge_env \<Rightarrow> string \<Rightarrow> core_error + response \<Rightarrow> ('d, 'p) bridge \<Rightarrow>
    (bridge_error + unit) \<times> ('d, 'p) bridge" where
  "settle_delivery env i sent b =
     (case sent of
        Inl e \<Rightarrow> do_store (mark_uncertain (be_store env 3) i (sentence (be_upper env) (show_error e))) b
      | Inr resp \<Rightarrow>
          (case r_error resp of
             Some e \<Rightarrow> do_store (mark_uncertain (be_store env 3) i (sentence (be_upper env) (e_message e))) b
           | None \<Rightarrow> if r_result resp \<noteq> None then do_store (ack (be_store env 3) i) b else (Inr (), b)))"

definition turn_answered :: "('d, 'p) bridge_env \<Rightarrow> string \<Rightarrow> turn_start \<Rightarrow> string \<Rightarrow> ('d, 'p) bridge \<Rightarrow>
    (bridge_error + bool) \<times> ('d, 'p) bridge" where
  "turn_answered env channel t tx b =
     (let name = tu_session t; i = tu_delivery t in
      if session_status (bs_store b) name = Some ''cancelled''
      then (case do_store (clear (be_store env 0) name ''cancelled'') b of
              (Inl e, b1) \<Rightarrow> (Inl e, b1) | (Inr u, b1) \<Rightarrow> (Inr True, b1))
      else
        (case do_store (reply (be_store env 1) name (assistant_message (''assistant-'' @ show_nat (unat (bs_call b))) name tx)
                 i channel (tu_chat t) (tu_thread t) tx) b of
           (Inl e, b1) \<Rightarrow> (Inl e, b1)
         | (Inr u, b1) \<Rightarrow>
             (case find_delivery i (bs_store b1) of
                None \<Rightarrow> (Inl (BridgeFailed ''Persisted delivery was not found.''), b1)
              | Some d \<Rightarrow>
                  if d_status d = Uncertain then (Inr True, b1)
                  else
                    (case do_store (sending (be_store env 2) i) b1 of
                       (Inl e, b2) \<Rightarrow> (Inl e, b2)
                     | (Inr u, b2) \<Rightarrow>
                         (case delivery_request channel (bs_call b2) d of
                            Inl e \<Rightarrow> (Inl (BridgeFailed e), b2)
                          | Inr req \<Rightarrow>
                              (case be_call env channel req (bs_plugin b2) of
                                 (sent, p) \<Rightarrow>
                                   (case settle_delivery env i sent (b2\<lparr>bs_plugin := p,
                                        bs_call := (if is_ok sent then bs_call b2 + 1 else bs_call b2)\<rparr>) of
                                      (Inl e, b3) \<Rightarrow> (Inl e, b3)
                                    | (Inr u, b3) \<Rightarrow>
                                        (case do_store (status_if_present (be_store env 4) name ''idle'') b3 of
                                           (Inl e, b4) \<Rightarrow> (Inl e, b4)
                                         | (Inr u, b4) \<Rightarrow>
                                             if is_ok sent then (Inr True, b4)
                                             else (case be_recover env ''channel'' (bs_plugin b4) of
                                                     (go_on, p') \<Rightarrow> (Inr go_on, b4\<lparr>bs_plugin := p'\<rparr>))))))))))"

definition run_turn :: "('d, 'p) bridge_env \<Rightarrow> string \<Rightarrow> turn_start \<Rightarrow> ('d, 'p) bridge \<Rightarrow>
    (bridge_error + bool) \<times> ('d, 'p) bridge" where
  "run_turn env channel t b =
     (case be_turn env t (bs_world b) (bs_plugin b) (bs_call b) of
        (Inl e, w, p, c) \<Rightarrow> turn_failed env channel t e (b\<lparr>bs_world := w, bs_plugin := p, bs_call := c\<rparr>)
      | (Inr tx, w, p, c) \<Rightarrow> turn_answered env channel t tx (b\<lparr>bs_world := w, bs_plugin := p, bs_call := c\<rparr>))"

section \<open>Pending deliveries\<close>

definition pending_delivery :: "string list \<Rightarrow> store \<Rightarrow> delivery option" where
  "pending_delivery channels st = List.find (\<lambda>d. d_status d = Pending \<and> d_channel d \<in> set channels) (st_outbox st)"

definition rejection :: "(string \<Rightarrow> string) \<Rightarrow> response \<Rightarrow> string" where
  "rejection upper resp = (case r_error resp of
     None \<Rightarrow> ''Channel rejected the delivery without a reason.'' | Some e \<Rightarrow> sentence upper (e_message e))"

definition send_pending :: "('d, 'p) bridge_env \<Rightarrow> delivery \<Rightarrow> ('d, 'p) bridge \<Rightarrow> (bridge_error + bool) \<times> ('d, 'p) bridge" where
  "send_pending env d b =
     (case do_store (sending (be_store env 0) (d_id d)) b of
        (Inl e, b1) \<Rightarrow> (Inl e, b1)
      | (Inr u, b1) \<Rightarrow>
          (case delivery_request (d_channel d) (bs_call b1) d of
             Inl e \<Rightarrow> (Inl (BridgeFailed e), b1)
           | Inr req \<Rightarrow>
               (case be_call env (d_channel d) req (bs_plugin b1) of
                  (sent, p) \<Rightarrow>
                    (let b2 = b1\<lparr>bs_plugin := p, bs_call := bs_call b1 + 1\<rparr> in
                     case sent of
                       Inl e \<Rightarrow>
                         (case do_store (mark_uncertain (be_store env 1) (d_id d) (sentence (be_upper env) (show_error e))) b2 of
                            (Inl e', b3) \<Rightarrow> (Inl e', b3)
                          | (Inr u, b3) \<Rightarrow>
                              (case be_recover env (d_channel d) (bs_plugin b3) of
                                 (go_on, p') \<Rightarrow> (Inr go_on, b3\<lparr>bs_plugin := p'\<rparr>)))
                     | Inr resp \<Rightarrow>
                         (case do_store (if accepted sent then ack (be_store env 1) (d_id d)
                                 else mark_uncertain (be_store env 1) (d_id d) (rejection (be_upper env) resp)) b2 of
                            (Inl e', b3) \<Rightarrow> (Inl e', b3) | (Inr u, b3) \<Rightarrow> (Inr True, b3))))))"

section \<open>Waiting messages\<close>

text \<open>\<open>split("-thread-").next()\<close>: the text before the first occurrence.\<close>

fun before_thread :: "string \<Rightarrow> string" where
  "before_thread [] = []"
| "before_thread (c # cs) = (if strip_prefix ''-thread-'' (c # cs) \<noteq> None then [] else c # before_thread cs)"

definition queued_chat :: "string \<Rightarrow> session \<Rightarrow> string" where
  "queued_chat channel s =
     (case s_chat s of
        Some c \<Rightarrow> c
      | None \<Rightarrow> (case strip_prefix (channel @ ''-'') (s_id s) of None \<Rightarrow> [] | Some r \<Rightarrow> before_thread r))"

definition waits :: "u64 \<Rightarrow> string \<Rightarrow> session \<Rightarrow> bool" where
  "waits time channel s \<longleftrightarrow> strip_prefix (channel @ ''-'') (s_id s) \<noteq> None \<and> s_status s \<noteq> ''cancelled''
     \<and> \<not> has_live_tui_reservation time s \<and> s_queued s \<noteq> []"

definition next_queued :: "u64 \<Rightarrow> string \<Rightarrow> store \<Rightarrow> (session \<times> message) option" where
  "next_queued time channel st =
     map_option (\<lambda>s. (s, hd (s_queued s))) (List.find (waits time channel) (bvalues (st_sessions st)))"

definition queued_event :: "('d, 'p) bridge_env \<Rightarrow> string \<Rightarrow> session \<Rightarrow> message \<Rightarrow> json" where
  "queued_event env channel s m =
     (let roles = (case bget (s_queue_roles s) (m_id m) of None \<Rightarrow> [] | Some r \<Rightarrow> r) in
      jobject [(''id'', JStr (m_id m)), (''chat'', JStr (queued_chat channel s)), (''private'', JBool (s_private s)),
        (''sender'', jopt JStr (m_sender m)), (''roles'', JArr (map JStr roles)),
        (''text'', JStr (join [CHR 0x0A] (map (render (be_show_json env)) (m_content m)))),
        (''content'', JArr (map (be_content_json env) (m_content m))), (''thread'', jopt JStr (s_thread s)),
        (''topic'', jopt JStr (s_thread s))])"

section \<open>One round\<close>

fun run_events :: "('d, 'p) bridge_env \<Rightarrow> string \<Rightarrow> channel_config \<Rightarrow> string \<Rightarrow> bool \<Rightarrow> string option \<Rightarrow> json list \<Rightarrow>
    ('d, 'p) bridge \<Rightarrow> (bridge_error + bool) \<times> ('d, 'p) bridge" where
  "run_events env channel policy model approvals queued_id [] b = (Inr True, b)"
| "run_events env channel policy model approvals queued_id (event # events) b =
     (case bridge_event env channel policy model approvals queued_id event b of
        (Inl e, b1) \<Rightarrow> (Inl e, b1)
      | (Inr Stalled, b1) \<Rightarrow> (Inr True, b1)
      | (Inr (Begun t), b1) \<Rightarrow>
          (case run_turn env channel t b1 of
             (Inl e, b2) \<Rightarrow> (Inl e, b2)
           | (Inr go_on, b2) \<Rightarrow>
               if go_on then run_events env channel policy model approvals queued_id events b2 else (Inr False, b2))
      | (Inr _, b1) \<Rightarrow> run_events env channel policy model approvals queued_id events b1)"

definition recovering :: "('d, 'p) bridge_env \<Rightarrow> string \<Rightarrow> ('d, 'p) bridge \<Rightarrow> (bridge_error + bool) \<times> ('d, 'p) bridge" where
  "recovering env what b =
     (case be_recover env what (bs_plugin b) of (go_on, p) \<Rightarrow> (Inr go_on, b\<lparr>bs_plugin := p\<rparr>))"

definition poll_round :: "('d, 'p) bridge_env \<Rightarrow> string \<Rightarrow> channel_config \<Rightarrow> string \<Rightarrow> bool \<Rightarrow> ('d, 'p) bridge \<Rightarrow>
    (bridge_error + bool) \<times> ('d, 'p) bridge" where
  "poll_round env channel policy model approvals b =
     (case be_call env channel (request_call (bs_call b) ''poll'' (jobject [(''offset'', JInt (bs_offset b))])) (bs_plugin b) of
        (Inl e, p) \<Rightarrow> recovering env ''channel'' (b\<lparr>bs_plugin := p\<rparr>)
      | (Inr resp, p) \<Rightarrow>
          (let b1 = b\<lparr>bs_plugin := p, bs_call := bs_call b + 1\<rparr> in
           case r_result resp of
             None \<Rightarrow> recovering env ''channel'' b1
           | Some v \<Rightarrow> run_events env channel policy model approvals None
                         (case as_array (json_index v ''events'') of None \<Rightarrow> [] | Some es \<Rightarrow> es) b1))"

definition bridge_round :: "('d, 'p) bridge_env \<Rightarrow> string list \<Rightarrow> string \<Rightarrow> channel_config \<Rightarrow> string \<Rightarrow> bool \<Rightarrow> ('d, 'p) bridge \<Rightarrow>
    (bridge_error + bool) \<times> ('d, 'p) bridge" where
  "bridge_round env channels channel policy model approvals b =
     (let st = bs_store b in
      case pending_delivery channels st of
        Some d \<Rightarrow> send_pending env d b
      | None \<Rightarrow>
          (case next_queued (now (be_store env 0) 0) channel st of
             Some (s, m) \<Rightarrow> run_events env channel policy model approvals (Some (m_id m)) [queued_event env channel s m]
                              (b\<lparr>bs_call := bs_call b + 1\<rparr>)
           | None \<Rightarrow>
               (case deferred_event st channel of
                  Some event \<Rightarrow> run_events env channel policy model approvals None [event] (b\<lparr>bs_call := bs_call b + 1\<rparr>)
                | None \<Rightarrow> poll_round env channel policy model approvals b)))"

end
