(* ===== verification/Channel_Laws.thy ===== *)
theory Channel_Laws
  imports Channel_Turns Store_Behaviour
begin

text \<open>
  What the loop of a channel does to the store, operation by operation. The loop works on the store
  through its operations only; the locale \<open>store_contract\<close> states what is asked of a property of the
  store so that the loop keeps it: every operation the loop runs for any session keeps it, and
  the operations that end a turn keep it for the sessions in which a turn may begin.
\<close>

definition bkeeps :: "('d world \<Rightarrow> bool) \<Rightarrow> ('d, 'p) bridge \<Rightarrow> 'a \<times> ('d, 'p) bridge \<Rightarrow> bool" where
  "bkeeps P b r \<longleftrightarrow> (P (bs_world b) \<longrightarrow> P (bs_world (snd r)))"

lemma bs_store_update [simp]:
  "bs_store (b\<lparr>bs_plugin := p\<rparr>) = bs_store b" "bs_store (b\<lparr>bs_call := c\<rparr>) = bs_store b"
  "bs_store (b\<lparr>bs_offset := n\<rparr>) = bs_store b" "bs_store (b\<lparr>bs_gate := g\<rparr>) = bs_store b"
  "bs_store (b\<lparr>bs_world := w\<rparr>) = fst w"
  by (simp_all add: bs_store_def)

lemma bs_world_after: "bs_world (b\<lparr>bs_world := w, bs_plugin := p, bs_call := c\<rparr>) = w"
  by simp

lemma bkeeps_same: "bs_world b' = bs_world b \<Longrightarrow> bkeeps P b (x, b')"
  by (simp add: bkeeps_def)

lemma bkeeps_then: "bkeeps P b (x, b1) \<Longrightarrow> bkeeps P b1 r \<Longrightarrow> bkeeps P b r"
  by (simp add: bkeeps_def)

lemma bkeeps_from: "bs_world b1 = bs_world b \<Longrightarrow> bkeeps P b1 r \<Longrightarrow> bkeeps P b r"
  by (simp add: bkeeps_def)

lemma bkeeps_if: "(c \<Longrightarrow> bkeeps P b r) \<Longrightarrow> (\<not> c \<Longrightarrow> bkeeps P b r') \<Longrightarrow> bkeeps P b (if c then r else r')"
  by simp

lemma bkeeps_bind:
  assumes "bkeeps P b r" and "\<And>e b1. r = (Inl e, b1) \<Longrightarrow> bkeeps P b1 (f e b1)" and "\<And>x b1. r = (Inr x, b1) \<Longrightarrow> bkeeps P b1 (g x b1)"
  shows "bkeeps P b (case r of (Inl e, b1) \<Rightarrow> f e b1 | (Inr x, b1) \<Rightarrow> g x b1)"
proof -
  obtain x b1 where r: "r = (x, b1)" by (cases r)
  have "bkeeps P b1 (case r of (Inl e, b1) \<Rightarrow> f e b1 | (Inr x, b1) \<Rightarrow> g x b1)"
    using assms(2,3) r by (cases x) auto
  with assms(1) show ?thesis unfolding r by (rule bkeeps_then)
qed

lemma bkeeps_store: "(P (bs_world b) \<Longrightarrow> P (snd (a (bs_world b)))) \<Longrightarrow> bkeeps P b (do_store a b)"
  by (auto simp: bkeeps_def do_store_def split: prod.splits sum.splits)

lemmas bk_intros = bkeeps_if bkeeps_same bkeeps_store

lemma plugin_call_world: "bs_world (snd (plugin_call env channel rpc ps b)) = bs_world b"
  by (simp add: plugin_call_def split: prod.split)

lemma plugin_call_world': "plugin_call env channel rpc ps b = (r, b1) \<Longrightarrow> bs_world b1 = bs_world b"
  using plugin_call_world [of env channel rpc ps b] by simp

text \<open>The five ways an event goes.\<close>

lemma event_cases:
  obtains (ignored) "bridge_event env channel policy model approvals queued_id event b = (Inr Ignored, b)"
      "event_id (json_index event ''id'') = None"
  | (callback) "bridge_event env channel policy model approvals queued_id event b =
        (case handle_callback env channel policy approvals event True b of
           (Inl e, b') \<Rightarrow> (Inl e, b') | (Inr u, b') \<Rightarrow> (Inr Committed, b'))"
      "json_index event ''kind'' = JStr ''callback''"
  | (screened) i where "bridge_event env channel policy model approvals queued_id event b =
        committed env channel i event False Committed b"
      "event_id (json_index event ''id'') = Some i" "screen_event env policy channel (queued_id = Some i) i event (bs_store b) = None"
  | (empty) i chat thread content p c where "bridge_event env channel policy model approvals queued_id event b =
        committed env channel i event False Committed (b\<lparr>bs_plugin := p, bs_call := c\<rparr>)"
      "event_id (json_index event ''id'') = Some i"
      "screen_event env policy channel (queued_id = Some i) i event (bs_store b) = Some (chat, thread)"
      "be_media env (event_content (be_json_len env) (be_content_of env) event) (bs_plugin b) (bs_call b) = (content, p, c)"
      "content = [] \<or> \<not> valid (session_id (digest (be_store env 0)) channel chat thread)"
  | (admitted) i chat thread content p c name m a b2 start where
      "event_id (json_index event ''id'') = Some i"
      "screen_event env policy channel (queued_id = Some i) i event (bs_store b) = Some (chat, thread)"
      "be_media env (event_content (be_json_len env) (be_content_of env) event) (bs_plugin b) (bs_call b) = (content, p, c)"
      "content \<noteq> [] \<and> valid name"
      "name = session_id (digest (be_store env 0)) channel chat thread"
      "m = user_message i name event content"
      "admit env channel policy model (queued_id = Some i) event m (message_roles event) name chat thread
         (b\<lparr>bs_plugin := p, bs_call := c\<rparr>) = (a, b2)"
      "bridge_event env channel policy model approvals queued_id event b =
         after_admission env channel (queued_id = Some i) (has_deferred_event (bs_store b) channel i) event i start a b2"
      "\<And>h sm. tu_session (start h sm) = name \<and> tu_message (start h sm) = m \<and> tu_delivery (start h sm) = channel @ ''-'' @ i"
proof (cases "event_id (json_index event ''id'')")
  case None
  then show ?thesis by (intro ignored) (simp_all add: bridge_event_def)
next
  case (Some i)
  show ?thesis
  proof (cases "json_index event ''kind'' = JStr ''callback''")
    case True
    then show ?thesis using Some by (intro callback) (simp_all add: bridge_event_def)
  next
    case kind: False
    show ?thesis
    proof (cases "screen_event env policy channel (queued_id = Some i) i event (bs_store b)")
      case None
      then show ?thesis using Some kind by (intro screened [of i]) (simp_all add: bridge_event_def)
    next
      case scr: (Some ct)
      obtain chat thread where ct: "ct = (chat, thread)" by (cases ct)
      obtain content p c where media: "be_media env (event_content (be_json_len env) (be_content_of env) event)
          (bs_plugin b) (bs_call b) = (content, p, c)" by (metis surj_pair)
      let ?name = "session_id (digest (be_store env 0)) channel chat thread"
      let ?m = "user_message i ?name event content"
      obtain a b2 where a: "admit env channel policy model (queued_id = Some i) event ?m (message_roles event) ?name chat thread
          (b\<lparr>bs_plugin := p, bs_call := c\<rparr>) = (a, b2)" by (metis surj_pair)
      note ev = bridge_event_def [of env channel policy model approvals queued_id event b, unfolded Some option.case Let_def
          kind [THEN eq_False [THEN iffD2]] if_False scr ct prod.case media a]
      show ?thesis
      proof (cases "content = [] \<or> \<not> valid ?name")
        case True
        show ?thesis by (rule empty [OF _ Some scr [unfolded ct] media True]) (use True in \<open>simp add: ev\<close>)
      next
        case False
        then show ?thesis
          by (intro admitted [OF Some scr [unfolded ct] media _ refl refl a ev [THEN trans]], simp_all) (simp_all add: turn_start.simps)
      qed
    qed
  qed
qed

text \<open>A turn is prepared by its beginning in the store.\<close>

lemma place_prepared:
  assumes "place env channel queued m roles name a b = (a', b')" and "ad_prepared a' = Some hm" and "ad_prepared a = None"
  shows "\<exists>c. do_store (exec (be_store env 4) (OpBegin name m roles c)) b = (Inr (), b')"
proof (cases "bget (st_sessions (bs_store b)) name")
  case None
  then show ?thesis using assms by (auto simp: place_def)
next
  case (Some s)
  let ?act = "if queued then begin_queued_with_roles (be_store env 4) name m roles channel
      else begin_with_roles (be_store env 4) name m roles"
  have "do_store ?act b = (Inr (), b')"
    using assms Some
    by (cases "do_store ?act b"; cases "do_store (queue_with_roles (be_store env 3) name m roles) b"; cases "fst (do_store ?act b)";
        cases "fst (do_store (queue_with_roles (be_store env 3) name m roles) b)")
      (auto simp: place_def Let_def split: if_splits)
  then show ?thesis
    by (cases queued) (auto simp: begin_with_roles_def begin_queued_with_roles_def)
qed

lemma place_prepared_same:
  assumes "place env channel queued m roles name a b = (a', b')" and "ad_prepared a' = Some hm" and "ad_prepared a = None"
  shows "ad_defer a' = ad_defer a"
  using assms
  by (cases "bget (st_sessions (bs_store b)) name")
    (auto simp: place_def Let_def split: if_splits prod.splits sum.splits)

lemma admit_prepared:
  assumes "admit env channel policy model queued event m roles name chat thread b = (a', b')" and "ad_prepared a' = Some hm"
  obtains a p b1 b2 where "do_store (ensure (be_store env 1) name model) (b\<lparr>bs_plugin := p\<rparr>) = (Inr (), b1)"
    "do_store (route (be_store env 2) name channel chat thread (is_private event)) b1 = (Inr (), b2)"
    "place env channel queued m roles name a b2 = (a', b')" "ad_prepared a = None" "ad_defer a' = ad_defer a"
    "room_for env policy event name (bs_store b) (bs_plugin b) = ((ad_workspace a, False, ad_defer a), p)"
proof -
  obtain ws refuse later p where r: "room_for env policy event name (bs_store b) (bs_plugin b) = ((ws, refuse, later), p)"
    by (metis prod_cases3 surj_pair)
  let ?b = "b\<lparr>bs_plugin := p\<rparr>"
  let ?a = "\<lparr>ad_workspace = ws, ad_commit = refuse, ad_defer = later, ad_stop = False, ad_prepared = None\<rparr>"
  obtain r1 b1 where e: "do_store (ensure (be_store env 1) name model) ?b = (r1, b1)" by (metis surj_pair)
  obtain r2 b2 where o: "do_store (route (be_store env 2) name channel chat thread (is_private event)) b1 = (r2, b2)" by (metis surj_pair)
  have ok: "\<not> refuse" "r1 = Inr ()" "r2 = Inr ()" "place env channel queued m roles name ?a b2 = (a', b')"
    using assms by (auto simp: admit_def r e [simplified] o Let_def split: sum.splits if_splits)
  have "ad_defer a' = later"
    using place_prepared_same [OF ok(4) assms(2)] by simp
  then show ?thesis
    using that [of p b1 b2 ?a] e o r ok by simp
qed

lemma committed_outcome: "committed env channel i event retained out b = (Inr out', b') \<Longrightarrow> out' = out"
  by (auto simp: committed_def split: prod.splits sum.splits)

lemma after_admission_begun:
  assumes "after_admission env channel queued retained event i start a b = (Inr (Begun t), b')"
  shows "\<exists>h sm. ad_prepared a = Some (h, sm) \<and> t = start h sm \<and> \<not> ad_stop a \<and> \<not> ad_defer a \<and> \<not> ad_commit a"
  using assms
  by (auto simp: after_admission_def dest: committed_outcome split: if_splits option.splits prod.splits sum.splits)

text \<open>The operations of the loop that may concern any session.\<close>

fun arriving :: "store_op \<Rightarrow> bool" where
  "arriving (OpEnsure i m) = True"
| "arriving (OpRoute i c ch th p) = True"
| "arriving (OpQueue i m rs) = True"
| "arriving (OpBegin i m rs c) = True"
| "arriving (OpMarkDeferred c i) = True"
| "arriving (OpDefer c e) = True"
| "arriving (OpCommit c i v) = True"
| "arriving (OpCommitRetained c i v) = True"
| "arriving (OpStartStream s i c ch th t) = True"
| "arriving (OpStreamSending i t) = True"
| "arriving (OpStreamStarted i t) = True"
| "arriving (OpStreamUpdated i) = True"
| "arriving (OpSending i) = True"
| "arriving (OpMarkUncertain i e) = True"
| "arriving (OpAck i) = True"
| "arriving op = False"

text \<open>The operations that end the turn of a session.\<close>

fun ending :: "string \<Rightarrow> store_op \<Rightarrow> bool" where
  "ending j (OpClear i s) = (i = j)"
| "ending j (OpSetStatus i s) = (i = j)"
| "ending j (OpReply i m d c ch th t) = (i = j)"
| "ending j op = False"

locale store_contract =
  fixes P :: "'d world \<Rightarrow> bool" and mine :: "string \<Rightarrow> bool"
  assumes arriving: "arriving op \<Longrightarrow> P w \<Longrightarrow> P (snd (exec env op w))"
    and ending: "mine j \<Longrightarrow> ending j op \<Longrightarrow> P w \<Longrightarrow> P (snd (exec env op w))"
    and beginning: "P w \<Longrightarrow> exec env (OpBegin j m rs c) w = (Inr (), w') \<Longrightarrow> mine j"
begin

lemma arriving_ops:
  assumes "P w"
  shows "P (snd (ensure env i model w))" "P (snd (route env i c ch th p w))" "P (snd (queue_with_roles env i m rs w))"
    "P (snd (begin_with_roles env i m rs w))" "P (snd (begin_queued_with_roles env i m rs c w))"
    "P (snd (mark_deferred_acknowledged env c i w))" "P (snd (defer_event env c e w))"
    "P (snd (commit env c i v w))" "P (snd (commit_retained env c i v w))"
    "P (snd (start_stream env s i c ch th tx w))" "P (snd (stream_sending env i tx w))"
    "P (snd (stream_started env i tx w))" "P (snd (stream_updated env i w))"
    "P (snd (sending env i w))" "P (snd (mark_uncertain env i er w))" "P (snd (ack env i w))"
  using arriving [OF _ assms, of "OpEnsure i model"] arriving [OF _ assms, of "OpRoute i c ch th p"]
    arriving [OF _ assms, of "OpQueue i m rs"] arriving [OF _ assms, of "OpBegin i m rs None"]
    arriving [OF _ assms, of "OpBegin i m rs (Some c)"] arriving [OF _ assms, of "OpMarkDeferred c i"]
    arriving [OF _ assms, of "OpDefer c e"] arriving [OF _ assms, of "OpCommit c i v"]
    arriving [OF _ assms, of "OpCommitRetained c i v"] arriving [OF _ assms, of "OpSending i"]
    arriving [OF _ assms, of "OpStartStream s i c ch th tx"] arriving [OF _ assms, of "OpStreamSending i tx"]
    arriving [OF _ assms, of "OpStreamStarted i tx"] arriving [OF _ assms, of "OpStreamUpdated i"]
    arriving [OF _ assms, of "OpMarkUncertain i er"] arriving [OF _ assms, of "OpAck i"]
  by (simp_all add: begin_with_roles_def begin_queued_with_roles_def)

lemma ending_ops:
  assumes "mine j" and "P w"
  shows "P (snd (clear env j st w))" "P (snd (set_status env j st w))" "P (snd (reply env j m d c ch th tx w))"
  using ending [OF assms(1) _ assms(2), of "OpClear j st"] ending [OF assms(1) _ assms(2), of "OpSetStatus j st"]
    ending [OF assms(1) _ assms(2), of "OpReply j m d c ch th tx"] by simp_all

lemma keeps_ack_loop: "bkeeps P b (ack_loop env channel i sequence n b)"
proof (induction env channel i sequence n b rule: ack_loop.induct)
  case (2 env channel i sequence n b)
  obtain r b1 where c: "plugin_call env channel ''ack'' (jobject [(''sequence'', jword sequence)]) b = (r, b1)"
    by (cases "plugin_call env channel ''ack'' (jobject [(''sequence'', jword sequence)]) b")
  have b1: "bs_world b1 = bs_world b" by (rule plugin_call_world' [OF c])
  have "bkeeps P b1 (ack_loop env channel i sequence (Suc n) b)"
  proof (cases "accepted r \<or> n = 0")
    case True
    then show ?thesis by (auto simp: c intro!: bk_intros arriving_ops)
  next
    case False
    obtain x p where p: "be_restart env (bs_plugin b1) = (x, p)" by (cases "be_restart env (bs_plugin b1)")
    show ?thesis
    proof (cases x)
      case (Inl e)
      then show ?thesis using False by (auto simp: c p intro!: bk_intros)
    next
      case (Inr u)
      then have "bkeeps P (b1\<lparr>bs_plugin := p\<rparr>) (ack_loop env channel i sequence n (b1\<lparr>bs_plugin := p\<rparr>))"
        using 2 [OF c [symmetric] _ _ p [symmetric]] False by auto
      then show ?thesis using False Inr by (auto simp: c p intro: bkeeps_from [of "b1\<lparr>bs_plugin := p\<rparr>"])
    qed
  qed
  with b1 show ?case by (rule bkeeps_from)
qed (simp add: bk_intros)

lemma keeps_commit: "bkeeps P b (commit_event_inner env channel i off seq retained b)"
  unfolding commit_event_inner_def Let_def
  by (intro bkeeps_bind) (auto intro!: bk_intros arriving_ops bkeeps_from [OF _ keeps_ack_loop] split: option.split)

lemma keeps_committed: "bkeeps P b (committed env channel i event retained out b)"
  unfolding committed_def by (intro bkeeps_bind keeps_commit bkeeps_same) simp_all

lemma callback_world:
  assumes "\<And>off b1. bs_world b1 = bs_world b \<Longrightarrow>
      Q (commit_event_inner env channel (the (event_id (json_index event ''id''))) off
           (as_word (json_index event ''gateway_sequence'')) False b1)"
    and "\<And>x. Q (x, b)"
  shows "Q (handle_callback env channel policy approvals event advance b)"
proof (cases "event_id (json_index event ''id'')")
  case None
  then show ?thesis by (simp add: handle_callback_def assms(2))
next
  case (Some i)
  note committing = assms(1) [unfolded Some option.sel]
  show ?thesis
  proof (cases "event_id (json_index event ''chat'')")
    case None
    then show ?thesis unfolding handle_callback_def Some option.case Let_def None
      by (simp only: if_split) (intro conjI impI assms(2) committing refl)
  next
    case chat: (Some chat)
    show ?thesis
      unfolding handle_callback_def Some option.case Let_def chat
      by (cases "Option.bind (as_str (json_index event ''callback_id''))
            (\<lambda>v. if v \<noteq> [] \<and> length v \<le> META_LIMIT then Some v else None)")
        (simp_all only: option.case if_split prod.case_eq_if,
         (intro conjI impI assms(2) committing refl; simp add: plugin_call_world)+)
  qed
qed

lemma keeps_callback: "bkeeps P b (handle_callback env channel policy approvals event advance b)"
  by (rule callback_world) (simp_all add: bkeeps_same bkeeps_from [OF _ keeps_commit])

lemma bkeeps_place_step:
  "(P (bs_world b) \<Longrightarrow> P (snd (act (bs_world b)))) \<Longrightarrow>
     bkeeps P b (case do_store act b of (Inl e, b') \<Rightarrow> (f e, b') | (Inr u, b') \<Rightarrow> (g u, b'))"
  by (rule bkeeps_bind [OF bkeeps_store]) (simp_all add: bkeeps_same)

lemma keeps_place: "bkeeps P b (place env channel queued m roles name a b)"
proof (cases "bget (st_sessions (bs_store b)) name")
  case None
  then show ?thesis by (simp add: place_def bkeeps_same)
next
  case (Some s)
  show ?thesis
    unfolding place_def Let_def Some option.case
    by (intro bkeeps_if bkeeps_same bkeeps_place_step refl) (simp_all add: arriving_ops)
qed

lemma keeps_admit: "bkeeps P b (admit env channel policy model queued event m roles name chat thread b)"
proof -
  obtain ws refuse later p where r: "room_for env policy event name (bs_store b) (bs_plugin b) = ((ws, refuse, later), p)"
    by (metis prod_cases3 surj_pair)
  let ?b = "b\<lparr>bs_plugin := p\<rparr>"
  have "bkeeps P ?b (case do_store (ensure (be_store env 1) name model) ?b of
      (Inl e, b1) \<Rightarrow> (f e, b1)
    | (Inr u, b1) \<Rightarrow>
        (case do_store (route (be_store env 2) name channel chat thread (is_private event)) b1 of
           (Inl e, b2) \<Rightarrow> (g, b2)
         | (Inr u, b2) \<Rightarrow> place env channel queued m roles name a b2))" for f g a
    by (intro bkeeps_bind bkeeps_store bkeeps_same keeps_place refl) (simp_all add: arriving_ops)
  then show ?thesis
    unfolding admit_def Let_def r prod.case
    by (intro bkeeps_if bkeeps_same bkeeps_from [of ?b b]) simp_all
qed

lemma keeps_after_admission: "bkeeps P b (after_admission env channel queued retained event i start a b)"
proof -
  have "bkeeps P b (case do_store (defer_event (be_store env 5) channel event) b of
      (Inl e, b1) \<Rightarrow> (if would_block e then Inr Stalled else Inl e, b1)
    | (Inr u, b1) \<Rightarrow> committed env channel i event True Deferred b1)"
    by (intro bkeeps_bind bkeeps_store bkeeps_same keeps_committed refl) (simp add: arriving_ops)
  then show ?thesis
    unfolding after_admission_def
    by (intro bkeeps_if bkeeps_same refl keeps_committed) (simp_all add: keeps_committed bkeeps_same split: option.split)
qed

lemma keeps_event: "bkeeps P b (bridge_event env channel policy model approvals queued_id event b)"
proof (cases rule: event_cases [of env channel policy model approvals queued_id event b])
  case ignored
  then show ?thesis by (simp add: bkeeps_same)
next
  case callback
  show ?thesis unfolding callback by (intro bkeeps_bind keeps_callback bkeeps_same refl)
next
  case (screened i)
  show ?thesis unfolding screened by (rule keeps_committed)
next
  case (empty i chat thread content p c)
  show ?thesis unfolding empty by (rule bkeeps_from [OF _ keeps_committed]) simp
next
  case (admitted i chat thread content p c name m a b2 start)
  have "bkeeps P (b\<lparr>bs_plugin := p, bs_call := c\<rparr>) (a, b2)"
    unfolding admitted(7) [symmetric] by (rule keeps_admit)
  then have "bkeeps P (b\<lparr>bs_plugin := p, bs_call := c\<rparr>) (after_admission env channel (queued_id = Some i)
      (has_deferred_event (bs_store b) channel i) event i start a b2)"
    by (rule bkeeps_then) (rule keeps_after_admission)
  then show ?thesis unfolding admitted(8) by (rule bkeeps_from [rotated]) simp
qed

lemma bkeeps_do: "P (bs_world b) \<Longrightarrow> do_store act b = (r, b') \<Longrightarrow> P (snd (act (bs_world b))) \<Longrightarrow> P (bs_world b')"
  using bkeeps_store [of P b act] by (simp add: bkeeps_def)

lemma begun_mine:
  assumes "bridge_event env channel policy model approvals queued_id event b = (Inr (Begun t), b')" and "P (bs_world b)"
  shows "mine (tu_session t)"
proof (cases rule: event_cases [of env channel policy model approvals queued_id event b])
  case (admitted i chat thread content p c name m a b2 start)
  obtain h sm where t: "ad_prepared a = Some (h, sm)" "t = start h sm"
    using after_admission_begun assms(1) admitted(8) by metis
  obtain a1 p1 b0 b1 where adm: "do_store (ensure (be_store env 1) name model) (b\<lparr>bs_plugin := p, bs_call := c, bs_plugin := p1\<rparr>) = (Inr (), b0)"
    "do_store (route (be_store env 2) name channel chat thread (is_private event)) b0 = (Inr (), b1)"
    "place env channel (queued_id = Some i) m (message_roles event) name a1 b1 = (a, b2)" "ad_prepared a1 = None"
    using admit_prepared [OF admitted(7) t(1)] .
  have "P (bs_world b0)" by (rule bkeeps_do [OF _ adm(1)]) (simp_all add: assms(2) arriving_ops)
  then have "P (bs_world b1)" by (rule bkeeps_do [OF _ adm(2)]) (simp_all add: arriving_ops \<open>P (bs_world b0)\<close>)
  moreover obtain c where "do_store (exec (be_store env 4) (OpBegin name m (message_roles event) c)) b1 = (Inr (), b2)"
    using place_prepared [OF adm(3) t(1) adm(4)] by auto
  ultimately have "mine name"
    by (auto simp: do_store_def split: prod.splits sum.splits intro: beginning)
  then show ?thesis using admitted(9) t(2) by simp
next
  case ignored
  then show ?thesis using assms by simp
next
  case callback
  then show ?thesis using assms by (auto split: prod.splits sum.splits)
next
  case (screened i)
  have "Begun t = Committed"
    by (rule committed_outcome [OF trans [OF sym [OF screened(1)] assms(1)]])
  then show ?thesis by simp
next
  case (empty i chat thread content p c)
  have "Begun t = Committed"
    by (rule committed_outcome [OF trans [OF sym [OF empty(1)] assms(1)]])
  then show ?thesis by simp
qed

definition turn_keeps :: "('d, 'p) bridge_env \<Rightarrow> bool" where
  "turn_keeps env \<longleftrightarrow> (\<forall>t w p c. mine (tu_session t) \<longrightarrow> P w \<longrightarrow> P (fst (snd (be_turn env t w p c))))"

lemma bkeeps_snd: "bkeeps P b (r, b1) \<Longrightarrow> bs_world b2 = bs_world b1 \<Longrightarrow> bkeeps P b (r', b2)"
  by (simp add: bkeeps_def)

lemma keeps_snd_do:
  "(P (bs_world b) \<Longrightarrow> P (snd (act (bs_world b)))) \<Longrightarrow> bkeeps P b (r, snd (do_store act b))"
  using bkeeps_store [of P b act] by (simp add: bkeeps_def)

lemma keeps_settle: "bkeeps P b (settle_delivery env i sent b)"
  unfolding settle_delivery_def
  by (auto intro!: bkeeps_if bkeeps_store bkeeps_same simp: arriving_ops split: sum.split option.split)

lemma keeps_send_pending: "bkeeps P b (send_pending env d b)"
proof -
  have final: "bkeeps P b2 (case sent of
       Inl e \<Rightarrow> (case do_store (mark_uncertain (be_store env 1) (d_id d) (f e)) b2 of
              (Inl e', b3) \<Rightarrow> (Inl e', b3)
            | (Inr u, b3) \<Rightarrow> (case be_recover env (d_channel d) (bs_plugin b3) of
                  (go_on, p') \<Rightarrow> (Inr go_on, b3\<lparr>bs_plugin := p'\<rparr>)))
     | Inr resp \<Rightarrow> (case do_store (if accepted sent then ack (be_store env 1) (d_id d)
                 else mark_uncertain (be_store env 1) (d_id d) (g resp)) b2 of
            (Inl e', b3) \<Rightarrow> (Inl e', b3) | (Inr u, b3) \<Rightarrow> (Inr True, b3)))" for b2 sent f g
  proof (cases sent)
    case (Inl e)
    show ?thesis unfolding Inl sum.case
      by (intro bkeeps_bind bkeeps_store) (auto simp: bkeeps_same arriving_ops split: prod.split)
  next
    case (Inr resp)
    show ?thesis unfolding Inr sum.case
      by (intro bkeeps_bind bkeeps_store) (auto simp: bkeeps_same arriving_ops)
  qed
  have send: "bkeeps P b1 (case delivery_request (d_channel d) (bs_call b1) d of
      Inl e \<Rightarrow> (Inl (BridgeFailed e), b1)
    | Inr req \<Rightarrow> (case be_call env (d_channel d) req (bs_plugin b1) of (sent, p) \<Rightarrow> K sent p))"
    if "\<And>sent p. bkeeps P b1 (K sent p)" for b1 K
    using that by (auto simp: bkeeps_same split: sum.split prod.split)
  show ?thesis
    unfolding send_pending_def Let_def
    by (intro bkeeps_bind bkeeps_store send bkeeps_same refl bkeeps_from [OF _ final]) (simp_all add: arriving_ops)
qed

lemma keeps_turn_failed:
  assumes "mine (tu_session t)"
  shows "bkeeps P b (turn_failed env channel t err b)"
proof -
  note ops = ending_ops [OF assms] arriving_ops
  have tail: "bkeeps P b1 (case (case r of Inr u \<Rightarrow> (Inr (), b1)
         | Inl e \<Rightarrow> do_store (clear (be_store env 2) (tu_session t) ''interrupted'') b1) of
       (Inl e, b2) \<Rightarrow> (Inl (BridgeFailed ''Could not clear the failed turn lease.''), b2)
     | (Inr u, b2) \<Rightarrow>
         (let b3 = (if replay then snd (do_store (queue_with_roles (be_store env 3) (tu_session t) (tu_message t) (tu_roles t)) b2) else b2);
              (go_on, p) = be_recover env ''model'' (bs_plugin b3)
          in (Inr go_on, b3\<lparr>bs_plugin := p\<rparr>)))" for b1 replay and r :: "bridge_error + unit"
  proof (rule bkeeps_bind)
    show "bkeeps P b1 (case r of Inr u \<Rightarrow> (Inr (), b1) | Inl e \<Rightarrow> do_store (clear (be_store env 2) (tu_session t) ''interrupted'') b1)"
      by (cases r) (auto intro!: bkeeps_store bkeeps_same ops)
    fix b2 u
    show "bkeeps P b2 (let b3 = (if replay then snd (do_store (queue_with_roles (be_store env 3) (tu_session t) (tu_message t) (tu_roles t)) b2) else b2);
              (go_on, p) = be_recover env ''model'' (bs_plugin b3)
          in (Inr go_on, b3\<lparr>bs_plugin := p\<rparr>))"
      by (cases replay) (auto simp: Let_def bkeeps_same ops split: prod.split
          intro!: bkeeps_snd [OF keeps_snd_do [of b2 "queue_with_roles (be_store env 3) (tu_session t) (tu_message t) (tu_roles t)" "()"]])
  qed (simp add: bkeeps_same)
  obtain r b1 where rep: "do_store (reply (be_store env 1) (tu_session t)
      (assistant_message (''failure-'' @ show_nat (unat (bs_call b))) (tu_session t) failure_text)
      (tu_delivery t) channel (tu_chat t) (tu_thread t) failure_text) b = (r, b1)" by (metis surj_pair)
  have rb: "bkeeps P b (r, b1)" unfolding rep [symmetric] by (intro bkeeps_store ops)
  show ?thesis
    unfolding turn_failed_def Let_def rep prod.case
    by (intro bkeeps_if bkeeps_snd [OF keeps_snd_do [OF ops(1)]] keeps_snd_do ops bkeeps_then [OF rb tail [unfolded Let_def]]) simp_all
qed

lemma keeps_status_if_present:
  assumes "mine j" "P w"
  shows "P (snd (status_if_present env j st w))"
  using ending_ops [OF assms] by (simp add: status_if_present_def return_def assms(2))

lemma keeps_turn_answered:
  assumes "mine (tu_session t)"
  shows "bkeeps P b (turn_answered env channel t tx b)"
proof -
  let ?name = "tu_session t" and ?i = "tu_delivery t"
  note ops = ending_ops [OF assms] arriving_ops
  have ends: "bkeeps P b3 (case do_store (status_if_present (be_store env 4) ?name ''idle'') b3 of
       (Inl e, b4) \<Rightarrow> (Inl e, b4)
     | (Inr u, b4) \<Rightarrow> if is_ok sent then (Inr True, b4)
         else (case be_recover env ''channel'' (bs_plugin b4) of (go_on, p') \<Rightarrow> (Inr go_on, b4\<lparr>bs_plugin := p'\<rparr>)))" for b3 sent
    by (intro bkeeps_bind bkeeps_store keeps_status_if_present [OF assms]) (auto simp: bkeeps_same split: prod.split)
  have sends: "bkeeps P b1 (case do_store (sending (be_store env 2) ?i) b1 of
       (Inl e, b2) \<Rightarrow> (Inl e, b2)
     | (Inr u, b2) \<Rightarrow>
         (case delivery_request channel (bs_call b2) d of
            Inl e \<Rightarrow> (Inl (BridgeFailed e), b2)
          | Inr req \<Rightarrow>
              (case be_call env channel req (bs_plugin b2) of
                 (sent, p) \<Rightarrow>
                   (case settle_delivery env ?i sent (b2\<lparr>bs_plugin := p,
                        bs_call := (if is_ok sent then bs_call b2 + 1 else bs_call b2)\<rparr>) of
                      (Inl e, b3) \<Rightarrow> (Inl e, b3)
                    | (Inr u, b3) \<Rightarrow>
                        (case do_store (status_if_present (be_store env 4) ?name ''idle'') b3 of
                           (Inl e, b4) \<Rightarrow> (Inl e, b4)
                         | (Inr u, b4) \<Rightarrow> if is_ok sent then (Inr True, b4)
                             else (case be_recover env ''channel'' (bs_plugin b4) of
                                     (go_on, p') \<Rightarrow> (Inr go_on, b4\<lparr>bs_plugin := p'\<rparr>)))))))" for b1 d
  proof (intro bkeeps_bind bkeeps_store)
    fix u b2
    have settled: "bkeeps P b2 (case settle_delivery env ?i sent (b2\<lparr>bs_plugin := p, bs_call := c\<rparr>) of
        (Inl e, b3) \<Rightarrow> (Inl e, b3)
      | (Inr u, b3) \<Rightarrow>
          (case do_store (status_if_present (be_store env 4) ?name ''idle'') b3 of
             (Inl e, b4) \<Rightarrow> (Inl e, b4)
           | (Inr u, b4) \<Rightarrow> if is_ok sent then (Inr True, b4)
               else (case be_recover env ''channel'' (bs_plugin b4) of
                       (go_on, p') \<Rightarrow> (Inr go_on, b4\<lparr>bs_plugin := p'\<rparr>))))" for sent p c
      by (rule bkeeps_from [OF _ bkeeps_bind [OF keeps_settle _ ends]]) (simp_all add: bkeeps_same)
    show "bkeeps P b2 (case delivery_request channel (bs_call b2) d of
            Inl e \<Rightarrow> (Inl (BridgeFailed e), b2)
          | Inr req \<Rightarrow>
              (case be_call env channel req (bs_plugin b2) of
                 (sent, p) \<Rightarrow>
                   (case settle_delivery env ?i sent (b2\<lparr>bs_plugin := p,
                        bs_call := (if is_ok sent then bs_call b2 + 1 else bs_call b2)\<rparr>) of
                      (Inl e, b3) \<Rightarrow> (Inl e, b3)
                    | (Inr u, b3) \<Rightarrow>
                        (case do_store (status_if_present (be_store env 4) ?name ''idle'') b3 of
                           (Inl e, b4) \<Rightarrow> (Inl e, b4)
                         | (Inr u, b4) \<Rightarrow> if is_ok sent then (Inr True, b4)
                             else (case be_recover env ''channel'' (bs_plugin b4) of
                                     (go_on, p') \<Rightarrow> (Inr go_on, b4\<lparr>bs_plugin := p'\<rparr>))))))"
      by (cases "delivery_request channel (bs_call b2) d")
        (simp_all only: sum.case prod.case_eq_if settled bkeeps_same settled [unfolded prod.case_eq_if])
  qed (simp_all add: bkeeps_same arriving_ops)
  show ?thesis
    unfolding turn_answered_def Let_def
    by (intro bkeeps_if bkeeps_bind bkeeps_store ops bkeeps_same)
      (auto intro!: bkeeps_same sends split: option.split)
qed

lemma keeps_run_turn:
  assumes "mine (tu_session t)" and "turn_keeps env"
  shows "bkeeps P b (run_turn env channel t b)"
proof -
  obtain r w p c where turn: "be_turn env t (bs_world b) (bs_plugin b) (bs_call b) = (r, w, p, c)" by (metis prod_cases4)
  let ?b = "b\<lparr>bs_world := w, bs_plugin := p, bs_call := c\<rparr>"
  have "bkeeps P b ((), ?b)"
    using assms turn unfolding turn_keeps_def bkeeps_def by (metis bs_world_after fst_conv snd_conv)
  then show ?thesis
    unfolding run_turn_def turn
    by (cases r) (auto intro: bkeeps_then keeps_turn_failed keeps_turn_answered assms(1))
qed

lemma keeps_run_events:
  assumes "turn_keeps env"
  shows "bkeeps P b (run_events env channel policy model approvals queued_id events b)"
proof (induction events arbitrary: b)
  case Nil
  then show ?case by (simp add: bkeeps_same)
next
  case (Cons event events)
  obtain r b1 where ev: "bridge_event env channel policy model approvals queued_id event b = (r, b1)" by (metis surj_pair)
  have k: "bkeeps P b (r, b1)" unfolding ev [symmetric] by (rule keeps_event)
  show ?case
  proof (cases "P (bs_world b)")
    case False
    then show ?thesis by (simp add: bkeeps_def)
  next
    case True
    have turn: "bkeeps P b1 (case run_turn env channel t b1 of
        (Inl e, b2) \<Rightarrow> (Inl e, b2)
      | (Inr go_on, b2) \<Rightarrow> if go_on then run_events env channel policy model approvals queued_id events b2 else (Inr False, b2))"
      if "r = Inr (Begun t)" for t
      by (intro bkeeps_bind bkeeps_if keeps_run_turn begun_mine [OF _ True] Cons.IH assms bkeeps_same refl)
        (use ev that in simp)
    show ?thesis
    proof (rule bkeeps_then [OF k])
      show "bkeeps P b1 (run_events env channel policy model approvals queued_id (event # events) b)"
      proof (cases r)
        case (Inl e)
        then show ?thesis by (simp add: ev bkeeps_same)
      next
        case (Inr out)
        then show ?thesis by (cases out) (simp_all add: ev bkeeps_same Cons.IH turn)
      qed
    qed
  qed
qed

lemma keeps_poll_round:
  assumes "turn_keeps env"
  shows "bkeeps P b (poll_round env channel policy model approvals b)"
proof -
  obtain r p where c: "be_call env channel (request_call (bs_call b) ''poll'' (jobject [(''offset'', JInt (bs_offset b))]))
      (bs_plugin b) = (r, p)" by (metis surj_pair)
  have rec: "bkeeps P b (recovering env what b1)" if "bs_world b1 = bs_world b" for what b1
    using that by (simp add: recovering_def bkeeps_same split: prod.split)
  show ?thesis
    unfolding poll_round_def c prod.case
    by (cases r) (auto simp: Let_def rec bkeeps_from [OF _ keeps_run_events [OF assms]] split: option.split)
qed

lemma keeps_round:
  assumes "turn_keeps env"
  shows "bkeeps P b (bridge_round env channels channel policy model approvals b)"
  unfolding bridge_round_def Let_def
  by (auto intro!: keeps_send_pending keeps_poll_round assms bkeeps_from [OF _ keeps_run_events [OF assms]]
      simp del: run_events.simps split: option.split prod.split)

end

section \<open>The contracts the store gives\<close>

text \<open>A property of every reachable store, and the lease of a session that no turn of the loop holds.\<close>

lemma reachable_exec: "reachable w \<Longrightarrow> reachable (snd (exec env op w))"
  by (rule reachable.later [OF _ store_step.step [of env op w "fst (exec env op w)"]]) simp_all

interpretation whole: store_contract "\<lambda>w. reachable w" "\<lambda>_. True"
  by unfold_locales (auto intro: reachable_exec)

definition holds_lease :: "string \<Rightarrow> message \<Rightarrow> 'd world \<Rightarrow> bool" where
  "holds_lease i m w \<longleftrightarrow> reachable w \<and> map_option s_inflight (bget (st_sessions (fst w)) i) = Some (Some m)"

text \<open>The operations of the loop delete no session.\<close>

definition stays :: "string \<Rightarrow> 'd world \<Rightarrow> 'a \<times> 'd world \<Rightarrow> bool" where
  "stays i w r \<longleftrightarrow> (bget (st_sessions (fst w)) i \<noteq> None \<longrightarrow> bget (st_sessions (fst (snd r))) i \<noteq> None)"

lemma stays_change:
  "(bget (st_sessions (fst w)) i \<noteq> None \<Longrightarrow> bget (st_sessions (u (fst w))) i \<noteq> None) \<Longrightarrow> stays i w (change env u w)"
  using change_cases [of env u w] by (auto simp: stays_def)

lemma stays_stop [simp]: "stays i w (fail k m w)" "stays i w (return x w)" "stays i w (session_missing w)"
  by (simp_all add: stays_def fail_def return_def session_missing_def)

lemma stays_sessions:
  "stays i w (ensure env j md w)" "stays i w (route env j c ch th p w)" "stays i w (queue_with_roles env j m rs w)"
  "stays i w (begin_with_roles_clearing_deferred env j m rs cl w)" "stays i w (clear env j st w)"
  "stays i w (set_status env j st w)" "stays i w (reply env j m d c ch th tx w)"
  "stays i w (mark_deferred_acknowledged env c x w)" "stays i w (defer_event env c e w)"
  "stays i w (commit_event env c x v ret w)" "stays i w (update_delivery env x f w)" "stays i w (ack env x w)"
  "stays i w (start_stream env j x c ch th tx w)"
  by (auto simp: ensure_def create_def create_session_def route_def queue_with_roles_def begin_with_roles_clearing_deferred_def
      clear_def set_status_def reply_def mark_deferred_acknowledged_def defer_event_def commit_event_def update_delivery_def
      ack_def start_stream_def drop_deferred_def on_session_get bget_insert Let_def split: option.split intro!: stays_change)

lemma stays_exec: "arriving op \<or> ending j op \<Longrightarrow> stays i w (exec env op w)"
  by (cases op) (simp_all add: stays_sessions commit_def commit_retained_def sending_def mark_uncertain_def
      stream_sending_def stream_started_def stream_updated_def)

lemma holds_lease_exec:
  assumes "holds_lease i m w" and "arriving op \<or> ending j op \<and> j \<noteq> i"
  shows "holds_lease i m (snd (exec env op w))"
proof -
  obtain s where s: "bget (st_sessions (fst w)) i = Some s" "s_inflight s = Some m"
    using assms(1) by (auto simp: holds_lease_def)
  have "stays i w (exec env op w)" using assms(2) stays_exec [of op j i w env] by auto
  then obtain s' where s': "bget (st_sessions (fst (snd (exec env op w)))) i = Some s'" using s by (auto simp: stays_def)
  have "sessions_ok (st_sessions (fst w))"
    using assms(1) reachable_ok [of w] by (auto simp: holds_lease_def store_ok_def)
  then have "s' = s \<or> session_move (now env) op i s s'" using moves_exec [of env op w] s(1) s' by (auto simp: moves_def)
  moreover have "\<not> turn_step (now env) op i (Running m) u" for u
    using assms(2) by (cases op) (auto simp: turn_step_running)
  ultimately have "turn_of s' = Running m" using s(2) by (auto simp: session_move_def turn_of_def)
  then have "s_inflight s' = Some m" by (auto simp: turn_of_def split: option.splits)
  with s' show ?thesis using assms(1) reachable_exec [of w env op] by (auto simp: holds_lease_def)
qed

interpretation lease: store_contract "holds_lease i m" "\<lambda>j. j \<noteq> i" for i m
proof unfold_locales
  fix env :: "'d env" and j mm rs c and w w' :: "'d world"
  assume "holds_lease i m w" and "exec env (OpBegin j mm rs c) w = (Inr (), w')"
  then show "j \<noteq> i" using begin_InrD [of env i mm rs c w] by (auto simp: holds_lease_def)
qed (auto intro: holds_lease_exec)

end
