(* ===== verification/Channel_Waiting.thy ===== *)
theory Channel_Waiting
  imports Channel_Laws
begin

text \<open>
  What the loop of a channel does while a turn runs (\<open>krabb-runtime/src/lib.rs\<close>): it streams the
  answer to the channel (\<open>flush_stream\<close>), and while a tool waits for an approval it polls the channel
  itself and queues the messages that arrive (\<open>wait_approval\<close>, \<open>queue_during_turn\<close>).
\<close>

section \<open>Queueing during a turn\<close>

text \<open>The chat and the thread of an event that may be queued.\<close>

definition screen_during_turn :: "('d, 'p) bridge_env \<Rightarrow> channel_config \<Rightarrow> string \<Rightarrow> string \<Rightarrow> json \<Rightarrow> store \<Rightarrow>
    (string \<times> string option) option" where
  "screen_during_turn env policy channel i event st =
     (if META_LIMIT < length i \<or> too_long (json_index event ''text'') TEXT_LIMIT
         \<or> too_long (json_index event ''sender'') META_LIMIT \<or> roles_too_long (json_index event ''roles'') then None
      else if \<not> has_deferred_event st channel i \<and> known (digest (be_store env 0)) st channel i then None
      else (case event_id (json_index event ''chat'') of
              None \<Rightarrow> None
            | Some chat \<Rightarrow>
                (let thread = event_id (json_index event ''thread'') in
                 if META_LIMIT < length chat
                    \<or> (case thread of None \<Rightarrow> False | Some t \<Rightarrow> META_LIMIT < length t)
                    \<or> \<not> allowed (be_unicode env) policy event chat then None
                 else Some (chat, thread))))"

datatype parked = Queued | Rejected | Full

text \<open>The message goes to the queue of its session, unless there is no room or no workspace.\<close>

definition park :: "('d, 'p) bridge_env \<Rightarrow> string \<Rightarrow> channel_config \<Rightarrow> string \<Rightarrow> json \<Rightarrow> message \<Rightarrow> string list \<Rightarrow>
    string \<Rightarrow> string \<Rightarrow> string option \<Rightarrow> ('d, 'p) bridge \<Rightarrow> (bridge_error + parked) \<times> ('d, 'p) bridge" where
  "park env channel policy model event m roles name chat thread b =
     (let missing = (bget (st_sessions (bs_store b)) name = None) in
      if missing \<and> LIMIT \<le> length (st_sessions (bs_store b)) then (Inr Full, b)
      else
        (let (isolated, p) = (if missing \<and> \<not> is_private event \<and> cc_worktree policy
               then be_isolate env name (bs_plugin b) else (Inr None, bs_plugin b));
             b0 = b\<lparr>bs_plugin := p\<rparr>
         in if \<not> is_ok isolated then (Inr Rejected, b0)
            else (case do_store (ensure (be_store env 1) name model) b0 of
                    (Inl e, b1) \<Rightarrow> (if would_block e then Inr Full else Inl e, b1)
                  | (Inr u, b1) \<Rightarrow>
                      (case do_store (route (be_store env 2) name channel chat thread (is_private event)) b1 of
                         (Inl e, b2) \<Rightarrow> (Inl e, b2)
                       | (Inr u, b2) \<Rightarrow>
                           (case do_store (queue_with_roles (be_store env 3) name m roles) b2 of
                              (Inl e, b3) \<Rightarrow> (if would_block e then Inr Full else Inl e, b3)
                            | (Inr u, b3) \<Rightarrow> (Inr Queued, b3))))))"

text \<open>The result is whether the events after this one may be handled.\<close>

definition settled_event :: "('d, 'p) bridge_env \<Rightarrow> string \<Rightarrow> string \<Rightarrow> json \<Rightarrow> bool \<Rightarrow> ('d, 'p) bridge \<Rightarrow>
    (bridge_error + bool) \<times> ('d, 'p) bridge" where
  "settled_event env channel i event retained b =
     (case commit_event_inner env channel i (next_offset event) (as_word (json_index event ''gateway_sequence'')) retained b of
        (Inl e, b') \<Rightarrow> (Inl e, b') | (Inr u, b') \<Rightarrow> (Inr True, b'))"

definition queue_during_turn :: "('d, 'p) bridge_env \<Rightarrow> string \<Rightarrow> channel_config \<Rightarrow> string \<Rightarrow> json \<Rightarrow> ('d, 'p) bridge \<Rightarrow>
    (bridge_error + bool) \<times> ('d, 'p) bridge" where
  "queue_during_turn env channel policy model event b =
     (case event_id (json_index event ''id'') of
        None \<Rightarrow> (Inr True, b)
      | Some i \<Rightarrow>
          (case screen_during_turn env policy channel i event (bs_store b) of
             None \<Rightarrow> settled_event env channel i event False b
           | Some (chat, thread) \<Rightarrow>
               (let content = event_content (be_json_len env) (be_content_of env) event;
                    name = session_id (digest (be_store env 0)) channel chat thread;
                    retained = has_deferred_event (bs_store b) channel i
                in if content = [] \<or> \<not> valid name then settled_event env channel i event False b
                   else
                     (case park env channel policy model event (user_message i name event content) (message_roles event)
                             name chat thread b of
                        (Inl e, b1) \<Rightarrow> (Inl e, b1)
                      | (Inr Full, b1) \<Rightarrow>
                          if retained then (Inr False, b1)
                          else (case do_store (defer_event (be_store env 5) channel event) b1 of
                                  (Inl e, b2) \<Rightarrow> (if would_block e then Inr False else Inl e, b2)
                                | (Inr u, b2) \<Rightarrow> settled_event env channel i event True b2)
                      | (Inr _, b1) \<Rightarrow> settled_event env channel i event False b1))))"

section \<open>Waiting for an approval\<close>

text \<open>The events of one poll. An event that could not be handled blocks the messages after it, not the
  callbacks.\<close>

fun waiting_events :: "('d, 'p) bridge_env \<Rightarrow> string \<Rightarrow> channel_config \<Rightarrow> string \<Rightarrow> bool \<Rightarrow> bool \<Rightarrow> json list \<Rightarrow>
    ('d, 'p) bridge \<Rightarrow> (bridge_error + bool) \<times> ('d, 'p) bridge" where
  "waiting_events env channel policy model approvals blocked [] b = (Inr blocked, b)"
| "waiting_events env channel policy model approvals blocked (event # events) b =
     (if json_index event ''kind'' = JStr ''callback''
      then (case handle_callback env channel policy approvals event (\<not> blocked) b of
              (Inl e, b1) \<Rightarrow> (Inl e, b1)
            | (Inr u, b1) \<Rightarrow> waiting_events env channel policy model approvals blocked events b1)
      else if blocked then waiting_events env channel policy model approvals True events b
      else (case queue_during_turn env channel policy model event b of
              (Inl e, b1) \<Rightarrow> (Inl e, b1)
            | (Inr processed, b1) \<Rightarrow> waiting_events env channel policy model approvals (\<not> processed) events b1))"

definition approval_failed :: "string \<Rightarrow> bridge_error \<Rightarrow> ('d, 'p) bridge \<Rightarrow> (bridge_error + bool) \<times> ('d, 'p) bridge" where
  "approval_failed approve e b = (Inl e, b\<lparr>bs_gate := cancel_approval approve (bs_gate b)\<rparr>)"

text \<open>One round of the wait: \<open>Inr True\<close> when no approval is pending. A poll that fails takes the request back.\<close>

definition waiting_round :: "('d, 'p) bridge_env \<Rightarrow> string \<Rightarrow> channel_config \<Rightarrow> string \<Rightarrow> bool \<Rightarrow> string \<Rightarrow> ('d, 'p) bridge \<Rightarrow>
    (bridge_error + bool) \<times> ('d, 'p) bridge" where
  "waiting_round env channel policy model approvals approve b =
     (if \<not> has_pending (bs_gate b) then (Inr True, b)
      else
        (case plugin_call env channel ''poll'' (jobject [(''offset'', JInt (bs_offset b))]) b of
           (Inl e, b1) \<Rightarrow> approval_failed approve (PluginFailed e) b1
         | (Inr resp, b1) \<Rightarrow>
             (case r_result resp of
                None \<Rightarrow> approval_failed approve (BridgeFailed (case r_error resp of
                    None \<Rightarrow> ''The channel returned an empty response.'' | Some e \<Rightarrow> e_message e)) b1
              | Some v \<Rightarrow>
                  (case waiting_events env channel policy model approvals False
                          (case as_array (json_index v ''events'') of None \<Rightarrow> [] | Some es \<Rightarrow> es) b1 of
                     (Inl e, b2) \<Rightarrow> (Inl e, b2) | (Inr blocked, b2) \<Rightarrow> (Inr False, b2)))))"

section \<open>Streaming\<close>

definition flush_request :: "string \<Rightarrow> string \<Rightarrow> string \<Rightarrow> string option \<Rightarrow> u64 \<Rightarrow> bool \<Rightarrow> stream_output \<Rightarrow> string + request" where
  "flush_request channel i chat thread call private out =
     (case so_message_id out of
        Some msg \<Rightarrow>
          (case edit_params channel i chat msg (so_display out) thread of
             Inl e \<Rightarrow> Inl e | Inr fs \<Rightarrow> Inr (request_call call ''edit'' (jobject fs)))
      | None \<Rightarrow> send_request channel call i chat private (so_display out) thread)"

text \<open>The store is told what is about to be sent; the result is whether the session of the chat is private.\<close>

definition flush_prepare :: "('d, 'p) bridge_env \<Rightarrow> string \<Rightarrow> turn_start \<Rightarrow> stream_output \<Rightarrow> ('d, 'p) bridge \<Rightarrow>
    (bridge_error + bool) \<times> ('d, 'p) bridge" where
  "flush_prepare env channel t out b =
     (if so_message_id out \<noteq> None
      then (case do_store (stream_sending (be_store env 0) (tu_delivery t) (so_display out)) b of
              (Inl e, b') \<Rightarrow> (Inl e, b') | (Inr u, b') \<Rightarrow> (Inr False, b'))
      else (case bget (st_sessions (bs_store b)) (tu_session t) of
              None \<Rightarrow> (Inl (BridgeFailed ''Session was not found.''), b)
            | Some s \<Rightarrow>
                (case do_store (start_stream (be_store env 0) (tu_session t) (tu_delivery t) channel (tu_chat t) (tu_thread t)
                        (so_display out)) b of
                   (Inl e, b') \<Rightarrow> (Inl e, b') | (Inr u, b') \<Rightarrow> (Inr (s_private s), b'))))"

definition stream_broken :: "('d, 'p) bridge_env \<Rightarrow> turn_start \<Rightarrow> string \<Rightarrow> string \<Rightarrow> stream_output \<Rightarrow> ('d, 'p) bridge \<Rightarrow>
    (bridge_error + unit) \<times> stream_output \<times> ('d, 'p) bridge" where
  "stream_broken env t recorded shown out b =
     (case do_store (mark_uncertain (be_store env 1) (tu_delivery t) recorded) b of
        (Inl e, b') \<Rightarrow> (Inl e, out, b')
      | (Inr u, b') \<Rightarrow> (Inl (BridgeFailed shown), out, b'))"

definition flush_stream :: "('d, 'p) bridge_env \<Rightarrow> string \<Rightarrow> turn_start \<Rightarrow> stream_output \<Rightarrow> ('d, 'p) bridge \<Rightarrow>
    (bridge_error + unit) \<times> stream_output \<times> ('d, 'p) bridge" where
  "flush_stream env channel t out b =
     (if \<not> so_dirty out \<or> so_disabled out then (Inr (), out, b)
      else if \<not> stream_fits channel (so_display out) then (Inr (), out\<lparr>so_dirty := False\<rparr>, b)
      else
        (case flush_prepare env channel t out b of
           (Inl e, b1) \<Rightarrow> (Inl e, out, b1)
         | (Inr private, b1) \<Rightarrow>
             (case flush_request channel (tu_delivery t) (tu_chat t) (tu_thread t) (bs_call b1) private out of
                Inl e \<Rightarrow> (Inl (BridgeFailed e), out, b1)
              | Inr req \<Rightarrow>
                  (case be_call env channel req (bs_plugin b1) of
                     (sent, p) \<Rightarrow>
                       (let b2 = b1\<lparr>bs_plugin := p, bs_call := sat_add (bs_call b1) 1\<rparr> in
                        case sent of
                          Inl e \<Rightarrow> stream_broken env t (sentence (be_upper env) (show_error e)) (sentence (be_upper env) (show_error e)) out b2
                        | Inr resp \<Rightarrow>
                            (case r_error resp of
                               Some e \<Rightarrow> stream_broken env t (sentence (be_upper env) (e_message e)) (e_message e) out b2
                             | None \<Rightarrow>
                                 (if so_message_id out = None
                                  then (case Option.bind (r_result resp) (channel_message_id channel) of
                                          None \<Rightarrow> stream_broken env t ''Channel returned no stream message ID.''
                                                    ''Channel returned no stream message ID.'' out b2
                                        | Some msg \<Rightarrow>
                                            (case do_store (stream_started (be_store env 1) (tu_delivery t) msg) b2 of
                                               (Inl e, b3) \<Rightarrow> (Inl e, out, b3)
                                             | (Inr u, b3) \<Rightarrow> (Inr (), out\<lparr>so_message_id := Some msg, so_dirty := False\<rparr>, b3)))
                                  else (case do_store (stream_updated (be_store env 1) (tu_delivery t)) b2 of
                                          (Inl e, b3) \<Rightarrow> (Inl e, out, b3)
                                        | (Inr u, b3) \<Rightarrow> (Inr (), out\<lparr>so_dirty := False\<rparr>, b3)))))))))"

section \<open>What the store is asked for\<close>

context store_contract
begin

lemma keeps_settled: "bkeeps P b (settled_event env channel i event retained b)"
  unfolding settled_event_def by (intro bkeeps_bind keeps_commit bkeeps_same) simp_all

lemma keeps_park: "bkeeps P b (park env channel policy model event m roles name chat thread b)"
proof -
  obtain isolated p where iso: "(if bget (st_sessions (bs_store b)) name = None \<and> \<not> is_private event \<and> cc_worktree policy
      then be_isolate env name (bs_plugin b) else (Inr None, bs_plugin b)) = (isolated, p)" by (metis surj_pair)
  let ?b = "b\<lparr>bs_plugin := p\<rparr>"
  have "bkeeps P ?b (case do_store (ensure (be_store env 1) name model) ?b of
      (Inl e, b1) \<Rightarrow> (if would_block e then Inr Full else Inl e, b1)
    | (Inr u, b1) \<Rightarrow>
        (case do_store (route (be_store env 2) name channel chat thread (is_private event)) b1 of
           (Inl e, b2) \<Rightarrow> (Inl e, b2)
         | (Inr u, b2) \<Rightarrow>
             (case do_store (queue_with_roles (be_store env 3) name m roles) b2 of
                (Inl e, b3) \<Rightarrow> (if would_block e then Inr Full else Inl e, b3)
              | (Inr u, b3) \<Rightarrow> (Inr Queued, b3))))"
    by (intro bkeeps_bind bkeeps_store bkeeps_same refl) (simp_all add: arriving_ops)
  then show ?thesis
    unfolding park_def Let_def iso prod.case
    by (intro bkeeps_if bkeeps_same bkeeps_from [of ?b b]) simp_all
qed

lemma keeps_queue_during_turn: "bkeeps P b (queue_during_turn env channel policy model event b)"
proof -
  have after: "bkeeps P b0 (case park env channel policy model event m roles name chat thread b0 of
      (Inl e, b1) \<Rightarrow> (Inl e, b1)
    | (Inr Full, b1) \<Rightarrow>
        if retained then (Inr False, b1)
        else (case do_store (defer_event (be_store env 5) channel event) b1 of
                (Inl e, b2) \<Rightarrow> (if would_block e then Inr False else Inl e, b2)
              | (Inr u, b2) \<Rightarrow> settled_event env channel i event True b2)
    | (Inr _, b1) \<Rightarrow> settled_event env channel i event False b1)" for b0 m roles name chat thread retained i
  proof -
    have full: "bkeeps P b1 (case do_store (defer_event (be_store env 5) channel event) b1 of
        (Inl e, b2) \<Rightarrow> (if would_block e then Inr False else Inl e, b2)
      | (Inr u, b2) \<Rightarrow> settled_event env channel i event True b2)" for b1
      by (intro bkeeps_bind bkeeps_store bkeeps_same keeps_settled refl) (simp_all add: arriving_ops)
    have "bkeeps P b1 (case x of Full \<Rightarrow> if retained then (Inr False, b1)
        else (case do_store (defer_event (be_store env 5) channel event) b1 of
                (Inl e, b2) \<Rightarrow> (if would_block e then Inr False else Inl e, b2)
              | (Inr u, b2) \<Rightarrow> settled_event env channel i event True b2)
      | _ \<Rightarrow> settled_event env channel i event False b1)" for x b1
      by (cases x) (simp_all add: keeps_settled full bkeeps_same)
    then show ?thesis by (intro bkeeps_bind keeps_park bkeeps_same refl)
  qed
  show ?thesis
    unfolding queue_during_turn_def Let_def
    by (auto simp: bkeeps_same keeps_settled after split: option.split prod.split)
qed

lemma keeps_waiting_events: "bkeeps P b (waiting_events env channel policy model approvals blocked events b)"
proof (induction events arbitrary: b blocked)
  case Nil
  then show ?case by (simp add: bkeeps_same)
next
  case (Cons event events)
  show ?case
    unfolding waiting_events.simps
    by (intro bkeeps_if bkeeps_bind keeps_callback keeps_queue_during_turn Cons.IH bkeeps_same refl)
qed

lemma keeps_flush_prepare: "bkeeps P b (flush_prepare env channel t out b)"
proof -
  have start: "bkeeps P b (case do_store (start_stream (be_store env 0) (tu_session t) (tu_delivery t) channel (tu_chat t) (tu_thread t)
        (so_display out)) b of (Inl e, b') \<Rightarrow> (Inl e, b') | (Inr u, b') \<Rightarrow> (Inr x, b'))" for x
    by (intro bkeeps_bind bkeeps_store bkeeps_same refl) (simp_all add: arriving_ops)
  have "bkeeps P b (case do_store (stream_sending (be_store env 0) (tu_delivery t) (so_display out)) b of
        (Inl e, b') \<Rightarrow> (Inl e, b') | (Inr u, b') \<Rightarrow> (Inr False, b'))"
    by (intro bkeeps_bind bkeeps_store bkeeps_same refl) (simp_all add: arriving_ops)
  with start show ?thesis by (auto simp: flush_prepare_def bkeeps_same split: option.split)
qed

lemma keeps_stream_broken: "P (bs_world b) \<Longrightarrow> P (bs_world (snd (snd (stream_broken env t recorded shown out b))))"
  using bkeeps_store [of P b "mark_uncertain (be_store env 1) (tu_delivery t) recorded"]
  by (auto simp: stream_broken_def bkeeps_def arriving_ops split: prod.split sum.split)

lemma keeps_flush:
  assumes "P (bs_world b)"
  shows "P (bs_world (snd (snd (flush_stream env channel t out b))))"
proof -
  obtain r b1 where prep: "flush_prepare env channel t out b = (r, b1)" by (metis surj_pair)
  have b1: "P (bs_world b1)" using keeps_flush_prepare [of b env channel t out] assms by (simp add: bkeeps_def prep)
  have stored: "P (bs_world b3)" if "do_store act b2 = (x, b3)" "bs_world b2 = bs_world b1"
    "\<And>w. P w \<Longrightarrow> P (snd (act w))" for act b2 b3 and x :: "bridge_error + unit"
    using bkeeps_do [OF _ that(1)] that(2,3) b1 by simp
  have started: "P (bs_world b3)" if "do_store (stream_started (be_store env 1) (tu_delivery t) msg) b2 = (x, b3)"
    "bs_world b2 = bs_world b1" for msg b2 b3 x
    by (rule stored [OF that]) (simp add: arriving_ops)
  have updated: "P (bs_world b3)" if "do_store (stream_updated (be_store env 1) (tu_delivery t)) b2 = (x, b3)"
    "bs_world b2 = bs_world b1" for b2 b3 x
    by (rule stored [OF that]) (simp add: arriving_ops)
  show ?thesis
    unfolding flush_stream_def prep prod.case Let_def
    by (auto simp: assms b1 keeps_stream_broken split: sum.split prod.split option.split
        dest: started [simplified] updated [simplified])
qed

end

end
