(* ===== verification/Channel_Facts.thy ===== *)
theory Channel_Facts
  imports Channel_Waiting
begin

text \<open>
  What the stages of the loop of a channel do to the store: a commit, the admission of a message and
  what follows it. The properties of the loop rest on these lemmas.
\<close>

section \<open>Commits and acknowledgements\<close>

definition same_work :: "store \<Rightarrow> store \<Rightarrow> bool" where
  "same_work st st' \<longleftrightarrow> st_sessions st' = st_sessions st \<and> st_outbox st' = st_outbox st"

lemma same_work_trans: "same_work a b \<Longrightarrow> same_work b c \<Longrightarrow> same_work a c"
  by (simp add: same_work_def)

lemma plugin_call_store: "plugin_call env channel rpc ps b = (r, b1) \<Longrightarrow> bs_store b1 = bs_store b"
  by (simp add: bs_store_def plugin_call_world')

lemma do_store_cases:
  assumes "do_store (change env u) b = (r, b')"
  obtains (ok) "r = Inr ()" "bs_store b' = u (bs_store b)" | (failed) e where "r = Inl (StoreFailed e)" "bs_store b' = bs_store b"
  using assms change_cases [of env u "bs_world b"]
  by (cases "change env u (bs_world b)") (auto simp: do_store_def bs_store_def split: sum.splits)

lemma do_store_return: "do_store (\<lambda>w. return x w) b = (Inr x, b)"
  by (cases "bs_world b") (simp add: do_store_def return_def)

lemma mark_deferred_core:
  assumes "do_store (mark_deferred_acknowledged env channel i) b = (r, b')"
  shows "\<exists>m. bs_store b' = bs_store b\<lparr>st_deferred_acknowledged := m\<rparr>"
proof -
  have same: "\<exists>m. bs_store b = bs_store b\<lparr>st_deferred_acknowledged := m\<rparr>"
    by (rule exI [of _ "st_deferred_acknowledged (bs_store b)"]) simp
  let ?key = "seen_key (digest env) channel i"
  show ?thesis
  proof (cases "bget (st_deferred_acknowledged (bs_store b)) ?key \<noteq> None \<or> \<not> has_deferred_event (bs_store b) channel i")
    case True
    then have "do_store (mark_deferred_acknowledged env channel i) b = do_store (\<lambda>w. return () w) b"
      by (simp add: do_store_def mark_deferred_acknowledged_def bs_store_def Let_def)
    then show ?thesis using assms same by (simp add: do_store_return)
  next
    case False
    then have "do_store (mark_deferred_acknowledged env channel i) b =
        do_store (change env (\<lambda>st. st\<lparr>st_deferred_acknowledged := binsert ?key () (st_deferred_acknowledged st)\<rparr>)) b"
      by (simp add: do_store_def mark_deferred_acknowledged_def bs_store_def Let_def)
    with assms show ?thesis by (elim do_store_cases [OF trans [OF sym]]) (use same in auto)
  qed
qed

lemma ack_loop_core:
  "ack_loop env channel i sequence n b = (r, b') \<Longrightarrow> \<exists>m. bs_store b' = bs_store b\<lparr>st_deferred_acknowledged := m\<rparr>"
proof (induction env channel i sequence n b rule: ack_loop.induct)
  case (1 env channel i sequence b)
  then show ?case by (auto intro: exI [of _ "st_deferred_acknowledged (bs_store b)"])
next
  case (2 env channel i sequence n b)
  have same: "\<exists>m. bs_store b = bs_store b\<lparr>st_deferred_acknowledged := m\<rparr>"
    by (rule exI [of _ "st_deferred_acknowledged (bs_store b)"]) simp
  obtain a b1 where c: "plugin_call env channel ''ack'' (jobject [(''sequence'', jword sequence)]) b = (a, b1)"
    by (cases "plugin_call env channel ''ack'' (jobject [(''sequence'', jword sequence)]) b")
  note st = plugin_call_store [OF c]
  consider "accepted a" | "\<not> accepted a" "n = 0" | "\<not> accepted a" "n \<noteq> 0" by blast
  then show ?case
  proof cases
    case 1
    then show ?thesis using 2(2) mark_deferred_core [of "be_store env 9" channel i b1 r b'] st by (simp add: c)
  next
    case 2
    then show ?thesis using \<open>ack_loop env channel i sequence (Suc n) b = (r, b')\<close> st same by (auto simp: c)
  next
    case 3
    obtain x p where p: "be_restart env (bs_plugin b1) = (x, p)" by (cases "be_restart env (bs_plugin b1)")
    show ?thesis
    proof (cases x)
      case (Inl e)
      then show ?thesis using 2(2) 3 st same by (auto simp: c p)
    next
      case (Inr u)
      then show ?thesis using 2(1) [OF c [symmetric] 3 p [symmetric] Inr] 2(2) 3 st by (simp add: c p)
    qed
  qed
qed

definition committed_to :: "(string \<Rightarrow> string) \<Rightarrow> string \<Rightarrow> string \<Rightarrow> bool \<Rightarrow> store \<Rightarrow> store \<Rightarrow> bool" where
  "committed_to sha channel i retained st st' \<longleftrightarrow> known sha st' channel i
     \<and> (if retained then st_deferred st' = st_deferred st else \<not> has_deferred_event st' channel i)"

lemma commit_inner_work:
  assumes "commit_event_inner env channel i off seq retained b = (r, b')"
  shows "same_work (bs_store b) (bs_store b')
    \<and> (r = Inr () \<longrightarrow> committed_to (digest (be_store env 0)) channel i retained (bs_store b) (bs_store b'))"
proof -
  let ?act = "(if retained then commit_retained else commit) (be_store env 0) channel i off"
  obtain a b1 where a: "do_store ?act b = (a, b1)" by (metis surj_pair)
  have act: "?act = commit_event (be_store env 0) channel i off retained"
    by (simp add: commit_def commit_retained_def)
  show ?thesis
    using a [unfolded act commit_event_def Let_def]
  proof (cases rule: do_store_cases)
    case (failed e)
    then show ?thesis using assms a by (auto simp: commit_event_inner_def Let_def same_work_def)
  next
    case ok
    have "known (digest (be_store env 0)) (bs_store b1) channel i"
      unfolding known_def ok(2)
      by (simp add: bget_insert trim_seen_keeps [of _ _ "nanos (be_store env 0)"] split: option.split)
    then have b1: "same_work (bs_store b) (bs_store b1)
      \<and> committed_to (digest (be_store env 0)) channel i retained (bs_store b) (bs_store b1)"
      using ok by (auto simp: same_work_def committed_to_def has_deferred_event_def drop_deferred_def bget_remove bget_adjust
          list_ex_iff Let_def split: option.splits)
    have same: "\<exists>m. bs_store b1 = bs_store b1\<lparr>st_deferred_acknowledged := m\<rparr>"
      by (rule exI [of _ "st_deferred_acknowledged (bs_store b1)"]) simp
    have off: "bs_store (case off of None \<Rightarrow> b1 | Some n \<Rightarrow> b1\<lparr>bs_offset := max (bs_offset b1) n\<rparr>) = bs_store b1"
      by (simp split: option.split)
    have "\<exists>m. bs_store b' = bs_store b1\<lparr>st_deferred_acknowledged := m\<rparr>"
    proof (cases "\<exists>x n b2. bs_store b2 = bs_store b1 \<and> ack_loop env channel i x n b2 = (r, b')")
      case True
      then show ?thesis using ack_loop_core by metis
    next
      case False
      then have "bs_store b' = bs_store b1"
        using assms ok(1) a off
        by (auto simp: commit_event_inner_def Let_def split: option.splits if_splits)
      with same show ?thesis by simp
    qed
    with b1 show ?thesis by (auto simp: same_work_def committed_to_def known_def has_deferred_event_def)
  qed
qed

lemma committed_work:
  assumes "committed env channel i event retained out b = (r, b')"
  shows "same_work (bs_store b) (bs_store b')
    \<and> (r = Inr out' \<longrightarrow> out' = out \<and> committed_to (digest (be_store env 0)) channel i retained (bs_store b) (bs_store b'))"
proof -
  obtain a b1 where a: "commit_event_inner env channel i (next_offset event) (as_word (json_index event ''gateway_sequence'')) retained b = (a, b1)"
    by (metis surj_pair)
  show ?thesis using commit_inner_work [OF a] assms a by (auto simp: committed_def split: sum.splits)
qed

section \<open>Admission\<close>

text \<open>What decides whether an event comes again: the seen events, the offsets and the deferred events.\<close>

definition same_inbox :: "store \<Rightarrow> store \<Rightarrow> bool" where
  "same_inbox st st' \<longleftrightarrow> st_seen st' = st_seen st \<and> st_offsets st' = st_offsets st \<and> st_deferred st' = st_deferred st"

lemma same_inbox_refl [simp]: "same_inbox st st"
  by (simp add: same_inbox_def)

lemma same_inbox_trans: "same_inbox a b \<Longrightarrow> same_inbox b c \<Longrightarrow> same_inbox a c"
  by (simp add: same_inbox_def)

lemma same_inbox_known: "same_inbox st st' \<Longrightarrow> known sha st' c i = known sha st c i"
  by (simp add: same_inbox_def known_def)

lemma same_inbox_deferred: "same_inbox st st' \<Longrightarrow> has_deferred_event st' c i = has_deferred_event st c i"
  by (simp add: same_inbox_def has_deferred_event_def)

lemma inbox_change: "(same_inbox (fst w) (u (fst w))) \<Longrightarrow> same_inbox (fst w) (fst (snd (change env u w)))"
  using change_cases [of env u w] by auto

lemma inbox_stop [simp]: "fst (snd (fail k msg w)) = fst w" "fst (snd (return x w)) = fst w" "fst (snd (session_missing w)) = fst w"
  by (simp_all add: fail_def return_def session_missing_def)

lemma inbox_sessions [simp]:
  "same_inbox st (on_session i f st)" "same_inbox st (st\<lparr>st_sessions := x\<rparr>)"
  by (simp_all add: same_inbox_def on_session_def)

lemma inbox_ops:
  "same_inbox (fst w) (fst (snd (ensure env i model w)))"
  "same_inbox (fst w) (fst (snd (route env i c ch th p w)))"
  "same_inbox (fst w) (fst (snd (queue_with_roles env i m rs w)))"
  "same_inbox (fst w) (fst (snd (begin_with_roles env i m rs w)))"
  by (auto simp: ensure_def create_def create_session_def route_def queue_with_roles_def begin_with_roles_def
      begin_with_roles_clearing_deferred_def Let_def intro!: inbox_change split: option.split)

lemma do_store_inbox:
  "do_store act b = (r, b') \<Longrightarrow> same_inbox (bs_store b) (fst (snd (act (bs_world b)))) \<Longrightarrow> same_inbox (bs_store b) (bs_store b')"
  by (auto simp: do_store_def bs_store_def split: sum.splits prod.splits)

lemma do_store_Inr: "do_store act b = (Inr x, b') \<Longrightarrow> act (bs_world b) = (Inr x, bs_world b')"
  by (auto simp: do_store_def split: sum.splits prod.splits)

lemma do_store_Inl: "do_store act b = (Inl e, b') \<Longrightarrow> \<exists>io. e = StoreFailed io \<and> act (bs_world b) = (Inl io, bs_world b')"
  by (auto simp: do_store_def split: sum.splits prod.splits)

text \<open>A message that a session has: in the transcript, in the queue or in flight.\<close>

definition kept :: "string \<Rightarrow> string \<Rightarrow> store \<Rightarrow> bool" where
  "kept name i st \<longleftrightarrow> (\<exists>s. bget (st_sessions st) name = Some s \<and>
     (i \<in> m_id ` set (s_messages s) \<or> i \<in> m_id ` set (s_queued s) \<or> map_option m_id (s_inflight s) = Some i))"

lemma list_ex_id: "list_ex (\<lambda>q. m_id q = x) qs \<longleftrightarrow> x \<in> m_id ` set qs"
  by (induction qs) auto

lemma queued_kept:
  assumes "queue_with_roles env name m rs w = (Inr (), w')"
  shows "kept name (m_id m) (fst w')"
proof (cases "bget (st_sessions (fst w)) name")
  case None
  then show ?thesis using assms by (simp add: queue_with_roles_def session_missing_def fail_def)
next
  case (Some s)
  show ?thesis
  proof (cases "list_ex (\<lambda>q. m_id q = m_id m) (s_queued s)")
    case True
    then show ?thesis using assms Some by (simp add: queue_with_roles_def return_def kept_def list_ex_id)
  next
    case False
    have "change env (on_session name (enqueued env m rs)) w = (Inr (), w')"
      using assms Some False by (simp add: queue_with_roles_def fail_def split: if_splits)
    then have "fst w' = on_session name (enqueued env m rs) (fst w)"
      using change_InrD [of env _ w "()"] by (metis fst_conv snd_conv)
    then show ?thesis using Some by (simp add: kept_def on_session_get enqueued_def Let_def)
  qed
qed

lemma begun_lease:
  assumes "begin_with_roles_clearing_deferred env name m rs c w = (Inr (), w')" and "bget (st_sessions (fst w)) name = Some s"
  shows "bget (st_sessions (fst w')) name = Some (begun env m rs s) \<and> s_inflight (begun env m rs s) = Some m"
  using begin_InrD [OF _ assms(2), of env m rs c] assms(1) by (simp add: begun_def Let_def)

lemma place_result:
  assumes "place env channel queued m rs name a b = (a', b')" and "bget (st_sessions (bs_store b)) name = Some s"
    and "ad_prepared a = None" and "\<not> ad_stop a"
  obtains (stop) "ad_stop a'" "same_inbox (bs_store b) (bs_store b')"
  | (full) "\<not> ad_stop a'" "ad_defer a'" "ad_prepared a' = None" "\<not> queued" "same_inbox (bs_store b) (bs_store b')"
  | (held) "\<not> ad_stop a'" "a' = a" "kept name (m_id m) (bs_store b')" "\<not> queued" "same_inbox (bs_store b) (bs_store b')"
  | (start) h sm s' where "a' = a\<lparr>ad_prepared := Some (h, sm)\<rparr>" "bget (st_sessions (bs_store b')) name = Some s'"
      "s_inflight s' = Some m" "\<not> queued \<longrightarrow> same_inbox (bs_store b) (bs_store b')"
proof -
  have none: "a\<lparr>ad_prepared := None\<rparr> = a" using assms(3) by (cases a) simp
  let ?queue = "do_store (queue_with_roles (be_store env 3) name m rs) b"
  let ?start = "do_store (if queued then begin_queued_with_roles (be_store env 4) name m rs channel
      else begin_with_roles (be_store env 4) name m rs) b"
  obtain qr qb where q: "?queue = (qr, qb)" by (metis surj_pair)
  obtain br bb where g: "?start = (br, bb)" by (metis surj_pair)
  have qi: "same_inbox (bs_store b) (bs_store qb)"
    by (rule do_store_inbox [OF q]) (simp add: inbox_ops bs_store_def)
  have gi: "same_inbox (bs_store b) (bs_store bb)" if "\<not> queued"
    by (rule do_store_inbox [OF g]) (simp add: inbox_ops bs_store_def that)
  consider (there) "\<not> queued" "list_ex (\<lambda>x. m_id x = m_id m) (s_messages s) \<or> list_ex (\<lambda>q. m_id q = m_id m) (s_queued s)"
    | (queue) "\<not> queued" "\<not> (list_ex (\<lambda>x. m_id x = m_id m) (s_messages s) \<or> list_ex (\<lambda>q. m_id q = m_id m) (s_queued s))"
        "s_status s = ''working''"
    | (begins) "queued \<or> s_status s \<noteq> ''working''"
        "queued \<or> \<not> (list_ex (\<lambda>x. m_id x = m_id m) (s_messages s) \<or> list_ex (\<lambda>q. m_id q = m_id m) (s_queued s))" by blast
  then show ?thesis
  proof cases
    case there
    then have "a' = a" "b' = b" using assms(1,2) none by (simp_all add: place_def)
    moreover have "kept name (m_id m) (bs_store b)" using there assms(2) by (auto simp: kept_def list_ex_id)
    ultimately show ?thesis using there(1) assms(4) held by simp
  next
    case queue
    then have r: "(case ?queue of (Inl e, b') \<Rightarrow> (if would_block e then a\<lparr>ad_defer := True\<rparr> else a\<lparr>ad_stop := True\<rparr>, b')
        | (Inr u, b') \<Rightarrow> (a\<lparr>ad_prepared := None\<rparr>, b')) = (a', b')"
      using assms(1,2) by (simp add: place_def)
    show ?thesis
    proof (cases qr)
      case (Inl e)
      then have a': "a' = (if would_block e then a\<lparr>ad_defer := True\<rparr> else a\<lparr>ad_stop := True\<rparr>)" "b' = qb"
        using r q by simp_all
      show ?thesis
      proof (cases "would_block e")
        case True
        then show ?thesis using a' qi queue(1) assms(3,4) by (intro full) simp_all
      next
        case False
        then show ?thesis using a' qi by (intro stop) simp_all
      qed
    next
      case (Inr u)
      then have "kept name (m_id m) (bs_store qb)"
        using do_store_Inr [of "queue_with_roles (be_store env 3) name m rs" b "()" qb] q queued_kept
        by (simp add: bs_store_def) 
      then show ?thesis using r q qi queue(1) assms(4) Inr none by (intro held) simp_all
    qed
  next
    case begins
    then have r: "(case ?start of (Inl e, b') \<Rightarrow> (a\<lparr>ad_stop := True\<rparr>, b')
        | (Inr u, b') \<Rightarrow> (a\<lparr>ad_prepared := Some (if list_ex (\<lambda>x. m_id x = m_id m) (s_messages s) then s_messages s
             else compact_messages (s_messages s @ [m]), s_model s)\<rparr>, b')) = (a', b')"
      using assms(1) begins unfolding place_def Let_def assms(2) option.case by (simp only: if_not_P simp_thms split: if_split_asm) 
    have act: "(if queued then begin_queued_with_roles (be_store env 4) name m rs channel else begin_with_roles (be_store env 4) name m rs)
        = begin_with_roles_clearing_deferred (be_store env 4) name m rs (if queued then Some channel else None)"
      by (simp add: begin_queued_with_roles_def begin_with_roles_def)
    show ?thesis
    proof (cases br)
      case (Inl e)
      then have "a' = a\<lparr>ad_stop := True\<rparr>" "b' = bb" using r g by simp_all
      moreover have "tidy (bs_world b) (begin_with_roles_clearing_deferred (be_store env 4) name m rs
          (if queued then Some channel else None) (bs_world b))" by (rule tidy_sessions)
      then have "bs_store bb = bs_store b"
        using do_store_Inl [OF g [unfolded act Inl]] by (auto simp: tidy_def bs_store_def)
      ultimately show ?thesis using stop by simp
    next
      case (Inr u)
      then have w: "begin_with_roles_clearing_deferred (be_store env 4) name m rs (if queued then Some channel else None) (bs_world b)
          = (Inr (), bs_world bb)"
        using do_store_Inr [OF g [unfolded act Inr]] by simp
      have "bget (st_sessions (bs_store bb)) name = Some (begun (be_store env 4) m rs s)"
        "s_inflight (begun (be_store env 4) m rs s) = Some m"
        using begun_lease [OF w] assms(2) by (simp_all add: bs_store_def)
      moreover have "a' = a\<lparr>ad_prepared := Some (if list_ex (\<lambda>x. m_id x = m_id m) (s_messages s) then s_messages s
             else compact_messages (s_messages s @ [m]), s_model s)\<rparr>" "b' = bb"
        using r g Inr by simp_all
      ultimately show ?thesis using gi start by metis
    qed
  qed
qed

lemma route_there: "route env i c ch th p w = (Inr (), w') \<Longrightarrow> bget (st_sessions (fst w')) i \<noteq> None"
  using stays_sessions(2) [of i w env i c ch th p]
  by (auto simp: stays_def route_def session_missing_def fail_def split: if_splits)

lemma admit_result:
  assumes "admit env channel policy model queued event m rs name chat thread b = (a', b')"
  obtains (refused) "ad_commit a'" "\<not> ad_stop a'" "\<not> ad_defer a'" "bs_store b' = bs_store b"
      "session_status (bs_store b) name = Some ''cancelled'' \<or> \<not> is_private event \<and> cc_worktree policy"
  | (stop) "ad_stop a'" "same_inbox (bs_store b) (bs_store b')"
  | (later) "\<not> ad_stop a'" "ad_defer a'" "\<not> queued \<longrightarrow> same_inbox (bs_store b) (bs_store b')"
  | (held) "\<not> ad_stop a'" "\<not> ad_defer a'" "\<not> ad_commit a'" "ad_prepared a' = None" "kept name (m_id m) (bs_store b')"
      "\<not> queued" "same_inbox (bs_store b) (bs_store b')"
  | (start) h sm s' where "\<not> ad_stop a'" "\<not> ad_defer a'" "\<not> ad_commit a'" "ad_prepared a' = Some (h, sm)"
      "bget (st_sessions (bs_store b')) name = Some s'" "s_inflight s' = Some m"
      "\<not> queued \<longrightarrow> same_inbox (bs_store b) (bs_store b')"
proof -
  obtain ws refuse later p where r: "room_for env policy event name (bs_store b) (bs_plugin b) = ((ws, refuse, later), p)"
    by (metis prod_cases3 surj_pair)
  let ?b = "b\<lparr>bs_plugin := p\<rparr>"
  let ?a = "\<lparr>ad_workspace = ws, ad_commit = refuse, ad_defer = later, ad_stop = False, ad_prepared = None\<rparr>"
  obtain r1 b1 where e: "do_store (ensure (be_store env 1) name model) ?b = (r1, b1)" by (metis surj_pair)
  obtain r2 b2 where o: "do_store (route (be_store env 2) name channel chat thread (is_private event)) b1 = (r2, b2)" by (metis surj_pair)
  note adm = assms [unfolded admit_def r Let_def prod.case e o]
  have i1: "same_inbox (bs_store b) (bs_store b1)"
    using do_store_inbox [OF e] by (simp add: inbox_ops [of "bs_world b"] bs_store_def)
  have i2: "same_inbox (bs_store b1) (bs_store b2)"
    by (rule do_store_inbox [OF o]) (simp add: inbox_ops bs_store_def)
  show ?thesis
  proof (cases refuse)
    case True
    then have "a' = ?a" "b' = ?b" using adm by simp_all
    moreover have "\<not> later" "session_status (bs_store b) name = Some ''cancelled'' \<or> \<not> is_private event \<and> cc_worktree policy"
      using r True by (auto simp: room_for_def session_status_def split: if_splits sum.splits prod.splits)
    ultimately show ?thesis using True by (intro refused) simp_all
  next
    case False
    show ?thesis
    proof (cases r1)
      case (Inl er)
      then have "a' = (if would_block er then ?a\<lparr>ad_defer := True\<rparr> else ?a\<lparr>ad_stop := True\<rparr>)" "b' = b1"
        using adm False by simp_all
      then show ?thesis using i1 stop later by (cases "would_block er") simp_all
    next
      case ensured: (Inr u)
      show ?thesis
      proof (cases r2)
        case (Inl er)
        then have "ad_stop a'" "b' = b2" using adm False ensured by (simp_all, auto)
        then show ?thesis using same_inbox_trans [OF i1 i2] stop by simp
      next
        case (Inr u2)
        have pl: "place env channel queued m rs name ?a b2 = (a', b')" using adm False ensured Inr by simp
        obtain s where s: "bget (st_sessions (bs_store b2)) name = Some s"
          using do_store_Inr [OF o [unfolded Inr]] route_there by (fastforce simp: bs_store_def)
        note i3 = same_inbox_trans [OF same_inbox_trans [OF i1 i2]]
        have fresh: "ad_prepared ?a = None" "\<not> ad_stop ?a" by simp_all
        from pl s fresh show ?thesis
        proof (cases rule: place_result)
          case stop
          then show ?thesis using i3 that(2) by simp
        next
          case full
          then show ?thesis using i3 that(3) by simp
        next
          case held
          then show ?thesis using i3 that(3,4) False by (cases later) simp_all
        next
          case (start h sm s')
          then show ?thesis using i3 that(3) that(5) [of h sm s'] False by (cases later) simp_all
        qed
      qed
    qed
  qed
qed

section \<open>Events\<close>

lemma defer_keeps:
  assumes "do_store (defer_event env channel event) b = (r, b')" and "event_id (json_index event ''id'') = Some i"
  shows "(r = Inr () \<longrightarrow> has_deferred_event (bs_store b') channel i) \<and> (r \<noteq> Inr () \<longrightarrow> bs_store b' = bs_store b)
    \<and> same_work (bs_store b) (bs_store b')"
proof -
  have has: "event_has_id i e" if "json_index e ''id'' = json_index event ''id''" for e
    using assms(2) that by (auto simp: event_has_id_def event_id_def split: option.splits)
  show ?thesis
  proof (cases "do_store (defer_event env channel event) b = do_store (change env (with_deferred channel event)) b")
    case True
    then have "do_store (change env (with_deferred channel event)) b = (r, b')" using assms(1) by simp
    then show ?thesis
      using has [of event]
      by (cases rule: do_store_cases)
        (auto simp: has_deferred_event_def with_deferred_def same_work_def bget_insert bget_adjust split: option.splits)
  next
    case False
    let ?events = "case bget (st_deferred (bs_store b)) channel of None \<Rightarrow> [] | Some es \<Rightarrow> es"
    show ?thesis
    proof (cases "list_ex (\<lambda>e. json_index e ''id'' = json_index event ''id'') ?events")
      case True
      then have "do_store (defer_event env channel event) b = do_store (\<lambda>w. return () w) b"
        by (simp add: do_store_def defer_event_def bs_store_def Let_def)
      moreover have "has_deferred_event (bs_store b) channel i"
        using True has by (cases "bget (st_deferred (bs_store b)) channel") (auto simp: has_deferred_event_def list_ex_iff)
      ultimately show ?thesis using assms(1) by (simp add: do_store_return same_work_def)
    next
      case nex: False
      then have "\<exists>k msg. do_store (defer_event env channel event) b = do_store (\<lambda>w. fail k msg w) b"
        using False by (auto simp: do_store_def defer_event_def bs_store_def Let_def)
      then show ?thesis using assms(1) by (auto simp: do_store_def fail_def bs_store_def same_work_def split: prod.splits)
    qed
  qed
qed

lemma after_admission_cases:
  assumes "after_admission env channel queued retained event i start a b = (Inr out, b')"
  obtains (stop) "ad_stop a" "out = Stalled" "b' = b"
  | (wait) "\<not> ad_stop a" "ad_defer a" "retained" "out = Waiting" "b' = b"
  | (blocked) e where "\<not> ad_stop a" "ad_defer a" "\<not> retained" "out = Stalled"
      "do_store (defer_event (be_store env 5) channel event) b = (Inl e, b')"
  | (deferred) b1 where "\<not> ad_stop a" "ad_defer a" "\<not> retained" "out = Deferred"
      "do_store (defer_event (be_store env 5) channel event) b = (Inr (), b1)"
      "committed env channel i event True Deferred b1 = (Inr Deferred, b')"
  | (commits) "\<not> ad_stop a" "\<not> ad_defer a" "ad_commit a \<or> ad_prepared a = None" "out = Committed"
      "committed env channel i event False Committed b = (Inr Committed, b')"
  | (starts) h sm where "\<not> ad_stop a" "\<not> ad_defer a" "\<not> ad_commit a" "ad_prepared a = Some (h, sm)"
      "out = Begun (start h sm)" "queued \<and> b' = b \<or> \<not> queued \<and> committed env channel i event False out b = (Inr out, b')"
proof -
  have out: "committed env channel i event ret x b = (Inr out, b') \<Longrightarrow> out = x" for ret x b
    using committed_outcome by metis
  show ?thesis
  proof (cases "ad_stop a \<or> ad_defer a \<or> ad_commit a \<or> ad_prepared a = None")
    case True
    consider "ad_stop a" | "\<not> ad_stop a" "ad_defer a" "retained" | "\<not> ad_stop a" "ad_defer a" "\<not> retained"
      | "\<not> ad_stop a" "\<not> ad_defer a" "ad_commit a \<or> ad_prepared a = None"
      using True by (cases "ad_stop a"; cases "ad_defer a"; cases retained) auto
    then show ?thesis
    proof cases
      case 1
      then show ?thesis using assms stop by (simp add: after_admission_def)
    next
      case 2
      then show ?thesis using assms wait by (simp add: after_admission_def)
    next
      case 3
      obtain r b1 where d: "do_store (defer_event (be_store env 5) channel event) b = (r, b1)" by (metis surj_pair)
      show ?thesis
      proof (cases r)
        case (Inl e)
        then show ?thesis using assms 3 d blocked by (auto simp: after_admission_def split: if_splits)
      next
        case (Inr u)
        then have c: "committed env channel i event True Deferred b1 = (Inr out, b')" using assms 3 d by (simp add: after_admission_def)
        show ?thesis by (rule deferred [OF 3 out [OF c], of b1]) (use d Inr c out [OF c] in simp_all)
      qed
    next
      case 4
      then have c: "committed env channel i event False Committed b = (Inr out, b')"
        using assms by (cases "ad_prepared a") (auto simp: after_admission_def split: if_splits)
      show ?thesis by (rule commits [OF 4 out [OF c]]) (use c out [OF c] in simp)
    qed
  next
    case False
    then obtain h sm where p: "ad_prepared a = Some (h, sm)" by auto
    show ?thesis
    proof (cases queued)
      case True
      then show ?thesis using assms False p starts [of h sm] by (simp add: after_admission_def)
    next
      case nq: False
      then have c: "committed env channel i event False (Begun (start h sm)) b = (Inr out, b')"
        using assms False p by (simp add: after_admission_def)
      show ?thesis by (rule starts [OF _ _ _ p out [OF c]]) (use c out [OF c] nq False in simp_all)
    qed
  qed
qed

end
