(* ===== verification/Channel_Properties.thy ===== *)
theory Channel_Properties
  imports Channel_Facts
begin

text \<open>
  The properties of the loop between a channel and the store: what becomes of an event, of the turn
  of a session and of a delivery, whatever the plugins answer.
\<close>

section \<open>A concrete channel\<close>

definition sample_channel_env :: "(unit, unit) bridge_env" where
  "sample_channel_env = \<lparr>be_store = (\<lambda>k. sample_env), be_call = (\<lambda>c req p. (Inr (response_ok 1 JNull), p)),
     be_restart = (\<lambda>p. (Inr (), p)), be_recover = (\<lambda>c p. (True, p)), be_media = (\<lambda>cs p c. (cs, p, c)),
     be_isolate = (\<lambda>i p. (Inr None, p)), be_approval = sample_approval_env, be_turn = (\<lambda>t w p c. (Inr ''done'', w, p, c)),
     be_content_json = (\<lambda>c. case c of CText t \<Rightarrow> JStr t | _ \<Rightarrow> JNull), be_show_json = (\<lambda>v. []), be_json_len = (\<lambda>v. 0),
     be_content_of = (\<lambda>v. map_option CText (as_str v)), be_unicode = (\<lambda>c. False), be_upper = (\<lambda>s. s)\<rparr>"

definition sample_bridge :: "unit world \<Rightarrow> (unit, unit) bridge" where
  "sample_bridge w = \<lparr>bs_world = w, bs_offset = 0, bs_call = 10, bs_gate = sample_gate, bs_plugin = ()\<rparr>"

definition sample_event :: json where
  "sample_event = JObj [(''chat'', JStr ''7''), (''id'', JInt 5), (''private'', JBool True), (''text'', JStr ''hi'')]"

lemmas channel_defs =
  sample_channel_env_def sample_bridge_def sample_event_def bridge_event_def screen_event_def too_long_def roles_too_long_def
  META_LIMIT_def TEXT_LIMIT_def CONTENT_LIMIT_def event_id_def known_def seen_key_def SEEN_KEY_LIMIT_def allowed_def default_channel_def
  event_content_def bound_def bound_item.simps bound_items.simps clip_def oversized_call_def session_id_def raw_session_def
  user_message_def message_roles_def admit_def room_for_def is_private_def ensure_def create_def create_session_def route_def
  place_def do_store_def bs_store_def begin_with_roles_def begin_queued_with_roles_def begin_with_roles_clearing_deferred_def
  has_live_tui_reservation_def begun_def has_deferred_event_def deferred_acknowledged_def after_admission_def committed_def
  commit_event_inner_def commit_def commit_retained_def commit_event_def next_offset_def as_word_def drop_deferred_def trim_seen_def SEEN_LIMIT_def

lemma show_five: "show_int 5 = ''5''"
  by code_simp

lemma sample_event_begins:
  "\<exists>t b'. bridge_event sample_channel_env ''tg'' default_channel ''m'' False None sample_event (sample_bridge (sample_run [])) = (Inr (Begun t), b')
     \<and> tu_session t = ''tg-7''"
  by (simp add: channel_defs run_defs check_defs show_five)

section \<open>Events\<close>

text \<open>C11: No event of a channel is lost. When the loop has handled a message that came from the channel and
  goes on, then: if the event was committed, it is in the seen events and no longer among the deferred
  ones, and the session of the chat has the message, in its transcript, its queue or in flight, unless the event was
  screened out, had no content or no valid session, or was refused by a cancelled session or for want of an isolated workspace; if a turn
  began, the session runs this message; if the event was deferred or waits, the store holds
  it for later; and if the loop stalled, the seen events, the offsets and the deferred events
  are those from before, so that the channel brings the event again.\<close>

theorem event_never_lost:
  assumes "bridge_event env channel policy model approvals None event b = (Inr out, b')"
    and "event_id (json_index event ''id'') = Some i" and "json_index event ''kind'' \<noteq> JStr ''callback''"
  shows "case out of
      Ignored \<Rightarrow> False
    | Committed \<Rightarrow> known (digest (be_store env 0)) (bs_store b') channel i \<and> \<not> has_deferred_event (bs_store b') channel i
        \<and> (\<forall>chat thread.
             screen_event env policy channel False i event (bs_store b) = Some (chat, thread)
             \<and> fst (be_media env (event_content (be_json_len env) (be_content_of env) event) (bs_plugin b) (bs_call b)) \<noteq> []
             \<and> valid (session_id (digest (be_store env 0)) channel chat thread)
             \<and> session_status (bs_store b) (session_id (digest (be_store env 0)) channel chat thread) \<noteq> Some ''cancelled''
             \<and> (is_private event \<or> \<not> cc_worktree policy)
             \<longrightarrow> kept (session_id (digest (be_store env 0)) channel chat thread) i (bs_store b'))
    | Deferred \<Rightarrow> known (digest (be_store env 0)) (bs_store b') channel i \<and> has_deferred_event (bs_store b') channel i
    | Waiting \<Rightarrow> has_deferred_event (bs_store b') channel i
    | Stalled \<Rightarrow> st_seen (bs_store b') = st_seen (bs_store b) \<and> st_offsets (bs_store b') = st_offsets (bs_store b)
        \<and> st_deferred (bs_store b') = st_deferred (bs_store b)
    | Begun t \<Rightarrow> known (digest (be_store env 0)) (bs_store b') channel i \<and> m_id (tu_message t) = i
        \<and> (\<exists>s. bget (st_sessions (bs_store b')) (tu_session t) = Some s \<and> s_inflight s = Some (tu_message t))"
proof (cases rule: event_cases [of env channel policy model approvals None event b])
  case ignored
  then show ?thesis using assms(2) by simp
next
  case callback
  then show ?thesis using assms(3) by simp
next
  case (screened j)
  then have j: "j = i" using assms(2) by simp
  from committed_work [OF screened(1) [symmetric, unfolded assms(1)], of out] screened(3) j show ?thesis
    by (simp add: committed_to_def)
next
  case (empty j ch th content p c)
  then have j: "j = i" using assms(2) by simp
  have "\<not> (fst (be_media env (event_content (be_json_len env) (be_content_of env) event) (bs_plugin b) (bs_call b)) \<noteq> []
      \<and> valid (session_id (digest (be_store env 0)) channel chat thread))"
    if "screen_event env policy channel False i event (bs_store b) = Some (chat, thread)" for chat thread
    using empty(3,4,5) that j by auto
  with committed_work [OF empty(1) [symmetric, unfolded assms(1)], of out] j show ?thesis
    by (auto simp: committed_to_def)
next
  case (admitted j chat thread content p c name m a b2 start)
  then have j: "j = i" using assms(2) by simp
  let ?b = "b\<lparr>bs_plugin := p, bs_call := c\<rparr>"
  have mi: "m_id m = i" using admitted(6) j by (simp add: user_message_def)
  note after = admitted(8) [symmetric, unfolded assms(1)]
  show ?thesis
    using after
  proof (cases rule: after_admission_cases)
    case stop
    from admitted(7) show ?thesis by (cases rule: admit_result) (use stop in \<open>simp_all add: same_inbox_def\<close>)
  next
    case wait
    from admitted(7) have "same_inbox (bs_store b) (bs_store b2)"
      by (cases rule: admit_result) (use wait in \<open>simp_all add: same_inbox_def\<close>)
    then show ?thesis using wait j by (simp add: same_inbox_deferred)
  next
    case (blocked e)
    from admitted(7) have "same_inbox (bs_store b) (bs_store b2)"
      by (cases rule: admit_result) (use blocked in \<open>simp_all add: same_inbox_def\<close>)
    moreover have "bs_store b' = bs_store b2" using defer_keeps [OF blocked(5) assms(2)] by simp
    ultimately show ?thesis using blocked by (simp add: same_inbox_def)
  next
    case (deferred b1)
    have "has_deferred_event (bs_store b1) channel i" using defer_keeps [OF deferred(5) assms(2)] by simp
    then show ?thesis using committed_work [OF deferred(6), of Deferred] deferred(4) j
      by (simp add: committed_to_def has_deferred_event_def)
  next
    case commits
    have "session_status (bs_store b) name = Some ''cancelled'' \<or> \<not> is_private event \<and> cc_worktree policy
        \<or> kept name i (bs_store b2)"
      using admitted(7) by (cases rule: admit_result) (use commits mi in auto)
    then show ?thesis using committed_work [OF commits(5), of Committed] commits(4) j admitted(2,5)
      by (auto simp: committed_to_def kept_def same_work_def)
  next
    case (starts h sm)
    have "\<exists>s. bget (st_sessions (bs_store b2)) name = Some s \<and> s_inflight s = Some m"
      using admitted(7) by (cases rule: admit_result) (use starts in \<open>simp_all\<close>)
    then show ?thesis using committed_work [of env channel j event False out b2 "Inr out" b' out] starts(5,6) j mi admitted(9) [of h sm]
      by (auto simp: committed_to_def same_work_def)
  qed
qed

theorem event_never_lost_witness:
  "\<exists>t b' s. bridge_event sample_channel_env ''tg'' default_channel ''m'' False None sample_event (sample_bridge (sample_run [])) = (Inr (Begun t), b')
     \<and> bget (st_sessions (bs_store b')) (tu_session t) = Some s \<and> s_inflight s = Some (tu_message t) \<and> m_id (tu_message t) = ''5''"
proof -
  obtain t b' where e: "bridge_event sample_channel_env ''tg'' default_channel ''m'' False None sample_event
      (sample_bridge (sample_run [])) = (Inr (Begun t), b')" using sample_event_begins by blast
  have "event_id (json_index sample_event ''id'') = Some ''5''" by (simp add: sample_event_def event_id_def show_five)
  moreover have "json_index sample_event ''kind'' \<noteq> JStr ''callback''" by (simp add: sample_event_def)
  ultimately show ?thesis using event_never_lost [OF e] e by auto
qed

lemma screen_SomeD:
  "screen_event env policy channel queued i event st = Some (chat, thread) \<Longrightarrow>
     event_id (json_index event ''chat'') = Some chat \<and> (queued \<or> allowed (be_unicode env) policy event chat)"
  by (auto simp: screen_event_def Let_def split: if_splits option.splits)

text \<open>C16: A stranger changes nothing. A message from a chat or a sender that the policy of the channel does not
  allow starts no turn and touches no session and no delivery, whatever it says and however the commit ends; only a message
  that is already in a queue is past this gate.\<close>

theorem stranger_changes_nothing:
  assumes "event_id (json_index event ''id'') = Some i" and "json_index event ''kind'' \<noteq> JStr ''callback''"
    and "queued_id \<noteq> Some i" and "\<And>chat. event_id (json_index event ''chat'') = Some chat \<Longrightarrow> \<not> allowed (be_unicode env) policy event chat"
    and "bridge_event env channel policy model approvals queued_id event b = (r, b')"
  shows "st_sessions (bs_store b') = st_sessions (bs_store b) \<and> st_outbox (bs_store b') = st_outbox (bs_store b)
    \<and> (case r of Inr out \<Rightarrow> out = Committed | Inl e \<Rightarrow> True)"
proof (cases rule: event_cases [of env channel policy model approvals queued_id event b])
  case ignored
  then show ?thesis using assms(1) by simp
next
  case callback
  then show ?thesis using assms(2) by simp
next
  case (screened j)
  have "committed env channel j event False Committed b = (r, b')" using screened(1) assms(5) by simp
  from committed_work [OF this] show ?thesis by (auto simp: same_work_def split: sum.split)
next
  case (empty j chat thread content p c)
  then show ?thesis using screen_SomeD [OF empty(3)] assms(1,3,4) by auto
next
  case (admitted j chat thread content p c name m a b2 start)
  then show ?thesis using screen_SomeD [OF admitted(2)] assms(1,3,4) by auto
qed

theorem stranger_changes_nothing_witness:
  "st_sessions (bs_store (snd (bridge_event sample_channel_env ''tg'' default_channel ''m'' False None
     (JObj [(''chat'', JStr ''7''), (''id'', JInt 5), (''private'', JBool False), (''text'', JStr ''hi'')])
     (sample_bridge (sample_run []))))) = []"
proof -
  let ?e = "JObj [(''chat'', JStr ''7''), (''id'', JInt 5), (''private'', JBool False), (''text'', JStr ''hi'')]"
  have "event_id (json_index ?e ''id'') = Some ''5''" by (simp add: event_id_def show_five)
  from stranger_changes_nothing [OF this _ _ _ prod.collapse [symmetric], of None sample_channel_env default_channel "''tg''" "''m''" False
      "sample_bridge (sample_run [])"]
  show ?thesis by (simp add: allowed_def default_channel_def sample_bridge_def bs_store_def sample_run_def run_ops_def empty_store_def)
qed

text \<open>A cancelled session swallows messages. Once a session is cancelled, an event for its chat is committed, so the channel
  will not bring it again, and dropped: it stands nowhere in the sessions, and no turn begins. Nothing in the loop takes the mark away.\<close>

theorem cancelled_session_drops_messages:
  assumes "event_id (json_index event ''id'') = Some i" and "json_index event ''kind'' \<noteq> JStr ''callback''"
    and "screen_event env policy channel False i event (bs_store b) = Some (chat, thread)"
    and "session_status (bs_store b) (session_id (digest (be_store env 0)) channel chat thread) = Some ''cancelled''"
    and "bridge_event env channel policy model approvals None event b = (Inr out, b')"
  shows "out = Committed \<and> known (digest (be_store env 0)) (bs_store b') channel i \<and> \<not> has_deferred_event (bs_store b') channel i
    \<and> st_sessions (bs_store b') = st_sessions (bs_store b)"
proof -
  have via: "?thesis" if "committed env channel i event False Committed b1 = (Inr out, b')" "bs_store b1 = bs_store b" for b1
    using committed_work [OF that(1), of out] that(2) by (simp add: committed_to_def same_work_def)
  show ?thesis
  proof (cases rule: event_cases [of env channel policy model approvals None event b])
    case ignored
    then show ?thesis using assms(1) by simp
  next
    case callback
    then show ?thesis using assms(2) by simp
  next
    case (screened j)
    then show ?thesis using assms(1,3) by simp
  next
    case (empty j ch th content p c)
    then have "committed env channel i event False Committed (b\<lparr>bs_plugin := p, bs_call := c\<rparr>) = (Inr out, b')"
      using assms(1,5) by simp
    then show ?thesis by (rule via) simp
  next
    case (admitted j ch th content p c name m a b2 start)
    have j: "j = i" "ch = chat" "th = thread" using admitted(1,2) assms(1,3) by auto
    have "room_for env policy event name (bs_store b) p = ((None, True, False), p)"
      using assms(4) admitted(5) j by (simp add: room_for_def session_status_def)
    then have "ad_commit a \<and> \<not> ad_stop a \<and> \<not> ad_defer a \<and> bs_store b2 = bs_store b"
      using admitted(7) by (auto simp: admit_def Let_def)
    moreover from this have "committed env channel i event False Committed b2 = (Inr out, b')"
      using admitted(8) assms(5) j by (simp add: after_admission_def)
    ultimately show ?thesis using via by blast
  qed
qed

theorem cancelled_session_drops_messages_witness:
  "\<exists>b'. bridge_event sample_channel_env ''tg'' default_channel ''m'' False None sample_event
       (sample_bridge (sample_run [OpCreate ''tg-7'' ''m'', OpCancel ''tg-7''])) = (Inr Committed, b')
     \<and> known (\<lambda>s. s) (bs_store b') ''tg'' ''5''
     \<and> st_sessions (bs_store b') = st_sessions (fst (sample_run [OpCreate ''tg-7'' ''m'', OpCancel ''tg-7'']))"
proof -
  let ?w = "sample_run [OpCreate ''tg-7'' ''m'', OpCancel ''tg-7'']"
  let ?b = "sample_bridge ?w"
  note ev = channel_defs run_defs check_defs show_five create_def cancel_def clear_def cleared_def session_status_def
  have i: "event_id (json_index sample_event ''id'') = Some ''5''" by (simp add: sample_event_def event_id_def show_five)
  have scr: "screen_event sample_channel_env default_channel ''tg'' False ''5'' sample_event (bs_store ?b) = Some (''7'', None)"
    "session_id (digest (be_store sample_channel_env 0)) ''tg'' ''7'' None = ''tg-7''"
    "session_status (bs_store ?b) ''tg-7'' = Some ''cancelled''"
    by (simp_all add: ev)
  obtain out b' where e: "bridge_event sample_channel_env ''tg'' default_channel ''m'' False None sample_event ?b = (Inr out, b')"
    by (simp add: ev)
  show ?thesis
    using cancelled_session_drops_messages [OF i _ scr(1) _ e] scr(2,3) e
    by (auto simp: sample_event_def sample_bridge_def bs_store_def sample_channel_env_def sample_env_def)
qed

section \<open>A catalog that is full of scheduled sessions\<close>

lemma jobject_index: "json_index (jobject kvs) k = (case map_of (rev kvs) k of None \<Rightarrow> JNull | Some v \<Rightarrow> v)"
proof -
  have "bget (fold (\<lambda>(k, v). binsert k v) kvs m) k = (case map_of (rev kvs) k of None \<Rightarrow> bget m k | Some v \<Rightarrow> Some v)" for m
    by (induction kvs arbitrary: m) (auto simp: bget_insert map_of_append split: option.splits)
  then show ?thesis by (simp add: jobject_def split: option.split)
qed

text \<open>The first message of a chat that has no session yet.\<close>

lemma admit_fresh:
  assumes "admit env channel policy model False event m rs name chat thread b = (a', b')"
    and "bget (st_sessions (bs_store b)) name = None" and "bget (st_sessions (bs_store b')) name = Some s'"
    and "\<not> ad_stop a'"
  shows "s_inflight s' = Some m \<and> s_messages s' = [m] \<and> ad_prepared a' \<noteq> None
    \<and> ad_defer a' = (LIMIT \<le> length (st_sessions (bs_store b)))"
proof -
  obtain ws refuse later p where r: "room_for env policy event name (bs_store b) (bs_plugin b) = ((ws, refuse, later), p)"
    by (metis prod_cases3 surj_pair)
  have later: "later = (LIMIT \<le> length (st_sessions (bs_store b)))"
    using r assms(2) by (auto simp: room_for_def split: if_splits sum.splits prod.splits)
  let ?b = "b\<lparr>bs_plugin := p\<rparr>"
  let ?a = "\<lparr>ad_workspace = ws, ad_commit = refuse, ad_defer = later, ad_stop = False, ad_prepared = None\<rparr>"
  obtain r1 b1 where e: "do_store (ensure (be_store env 1) name model) ?b = (r1, b1)" by (metis surj_pair)
  obtain r2 b2 where o: "do_store (route (be_store env 2) name channel chat thread (is_private event)) b1 = (r2, b2)" by (metis surj_pair)
  note adm = assms(1) [unfolded admit_def r Let_def prod.case e o]
  have "tidy (bs_world b) (ensure (be_store env 1) name model (bs_world b))"
    using tidy_exec [of "OpEnsure name model" "bs_world b" "be_store env 1"] by simp
  then have failed: "bs_store b1 = bs_store b" if "r1 = Inl er" for er
    using do_store_Inl [OF e [unfolded that]] by (auto simp: tidy_def bs_store_def)
  have ok1: "\<not> refuse \<and> r1 = Inr ()"
  proof (rule ccontr)
    assume "\<not> (\<not> refuse \<and> r1 = Inr ())"
    then have "bs_store b' = bs_store b" using adm failed by (cases refuse; cases r1) (auto split: if_splits)
    then show False using assms(2,3) by simp
  qed
  have ok2: "r2 = Inr ()" using adm ok1 assms(4) by (cases r2) auto
  have pl: "place env channel False m rs name ?a b2 = (a', b')" using adm ok1 ok2 by simp
  have new: "bget (st_sessions (bs_store b1)) name = Some (new_session name model False (now (be_store env 1) 0))"
  proof -
    have "create_session (be_store env 1) name model False (bs_world b) = (Inr (), bs_world b1)"
      using do_store_Inr [OF e [unfolded ok1 [THEN conjunct2]]] assms(2) by (simp add: ensure_def create_def bs_store_def)
    then have "change (be_store env 1) (\<lambda>st. st\<lparr>st_sessions :=
        binsert name (new_session name model False (now (be_store env 1) 0)) (st_sessions st)\<rparr>) (bs_world b) = (Inr (), bs_world b1)"
      by (auto simp: create_session_def fail_def Let_def split: if_splits)
    then have "st_sessions (fst (bs_world b1)) = binsert name (new_session name model False (now (be_store env 1) 0)) (st_sessions (fst (bs_world b)))"
      using change_InrD [of "be_store env 1" "\<lambda>st. st\<lparr>st_sessions :=
        binsert name (new_session name model False (now (be_store env 1) 0)) (st_sessions st)\<rparr>" "bs_world b" "()"] by simp
    then show ?thesis by (simp add: bs_store_def bget_insert)
  qed
  let ?s = "(new_session name model False (now (be_store env 1) 0))\<lparr>s_channel := Some channel, s_chat := Some chat,
      s_thread := thread, s_private := is_private event\<rparr>"
  have routed: "bget (st_sessions (bs_store b2)) name = Some ?s"
  proof -
    have "change (be_store env 2) (on_session name (\<lambda>s. s\<lparr>s_channel := Some channel, s_chat := Some chat,
      s_thread := thread, s_private := is_private event\<rparr>)) (bs_world b1) = (Inr (), bs_world b2)"
      using do_store_Inr [OF o [unfolded ok2]] new by (simp add: route_def bs_store_def)
    then have "fst (bs_world b2) = on_session name (\<lambda>s. s\<lparr>s_channel := Some channel, s_chat := Some chat,
      s_thread := thread, s_private := is_private event\<rparr>) (fst (bs_world b1))"
      using change_InrD [of "be_store env 2" _ "bs_world b1" "()"] by (metis fst_conv snd_conv)
    then show ?thesis using new by (simp add: bs_store_def on_session_get)
  qed
  obtain r3 b3 where g: "do_store (begin_with_roles (be_store env 4) name m rs) b2 = (r3, b3)" by (metis surj_pair)
  have r3: "r3 = Inr ()"
    using pl routed g assms(4) by (cases r3) (auto simp: place_def Let_def new_session_def)
  then have fin: "a' = ?a\<lparr>ad_prepared := Some (compact_messages [m], model)\<rparr>" "b' = b3"
    using pl routed g by (auto simp: place_def Let_def new_session_def)
  have "begin_with_roles_clearing_deferred (be_store env 4) name m rs None (bs_world b2) = (Inr (), bs_world b3)"
    using do_store_Inr [OF g [unfolded r3]] by (simp add: begin_with_roles_def)
  from begun_lease [OF this routed [unfolded bs_store_def]]
  have "s' = begun (be_store env 4) m rs ?s" using assms(3) fin(2) by (simp add: bs_store_def)
  moreover have "compact_messages [m] = [m]" by (rule compact_messages_id) (simp add: message_history_limit_def)
  ultimately show ?thesis using fin(1) later by (simp add: begun_def Let_def new_session_def)
qed

text \<open>A message that its session already has.\<close>

lemma admit_existing:
  assumes "admit env channel policy model queued event m rs name chat thread b = (a', b')" and "\<not> queued"
    and "bget (st_sessions (bs_store b)) name = Some s" and "m_id m \<in> m_id ` set (s_messages s)"
  shows "ad_stop a' \<or> \<not> ad_defer a' \<and> (ad_commit a' \<or> ad_prepared a' = None)"
proof -
  obtain ws refuse later p where r: "room_for env policy event name (bs_store b) (bs_plugin b) = ((ws, refuse, later), p)"
    by (metis prod_cases3 surj_pair)
  have later: "\<not> later"
    using r assms(3) by (auto simp: room_for_def split: if_splits sum.splits prod.splits)
  let ?b = "b\<lparr>bs_plugin := p\<rparr>"
  let ?a = "\<lparr>ad_workspace = ws, ad_commit = refuse, ad_defer = later, ad_stop = False, ad_prepared = None\<rparr>"
  have e: "do_store (ensure (be_store env 1) name model) ?b = (Inr (), ?b)"
    using assms(3) by (cases "bs_world b") (simp add: do_store_def ensure_def return_def bs_store_def)
  obtain r2 b2 where o: "do_store (route (be_store env 2) name channel chat thread (is_private event)) ?b = (r2, b2)" by (metis surj_pair)
  note adm = assms(1) [unfolded admit_def r Let_def prod.case e o]
  show ?thesis
  proof (cases r2)
    case (Inl er)
    then show ?thesis using adm later by (auto split: if_splits)
  next
    case (Inr u)
    have "change (be_store env 2) (on_session name (\<lambda>s. s\<lparr>s_channel := Some channel, s_chat := Some chat,
      s_thread := thread, s_private := is_private event\<rparr>)) (bs_world ?b) = (Inr (), bs_world b2)"
      using do_store_Inr [OF o [unfolded Inr]] assms(3) by (simp add: route_def bs_store_def)
    then have "fst (bs_world b2) = on_session name (\<lambda>s. s\<lparr>s_channel := Some channel, s_chat := Some chat,
      s_thread := thread, s_private := is_private event\<rparr>) (fst (bs_world ?b))"
      using change_InrD [of "be_store env 2" _ "bs_world ?b" "()"] by (metis fst_conv snd_conv)
    then have "bget (st_sessions (bs_store b2)) name = Some (s\<lparr>s_channel := Some channel, s_chat := Some chat,
      s_thread := thread, s_private := is_private event\<rparr>)" using assms(3) by (simp add: bs_store_def on_session_get)
    then have "place env channel queued m rs name ?a b2 = (?a\<lparr>ad_prepared := None\<rparr>, b2)"
      using assms(2,4) by (simp add: place_def list_ex_id)
    then show ?thesis using adm Inr later by (auto split: if_splits)
  qed
qed

text \<open>A message can be lost when the catalog holds 100 sessions and fewer than 100 of them are the user's. The loop finds no
  room for a new chat and defers its message; but it still creates the session, which counts user sessions only, and
  begins the turn: the message is in flight, and no turn runs for it. When the deferred event comes back, the session already has
  the message, so the event is committed and leaves the deferred ones; still no turn begins, and the session
  stays busy with it.\<close>

theorem deferred_message_lost_in_full_catalog:
  assumes "event_id (json_index event ''id'') = Some i"
    and "screen_event env policy channel False i event (bs_store b) = Some (chat, thread)"
    and "name = session_id (digest (be_store env 0)) channel chat thread"
    and "bget (st_sessions (bs_store b)) name = None" and "LIMIT \<le> length (st_sessions (bs_store b))"
    and "bridge_event env channel policy model approvals None event b = (Inr out, b1)"
    and "bget (st_sessions (bs_store b1)) name = Some s" and "out \<noteq> Stalled"
    and "bget (st_sessions (bs_store b2)) name = Some s"
    and "screen_event env2 policy channel False i event (bs_store b2) = Some (chat, thread)"
    and "digest (be_store env2 0) = digest (be_store env 0)"
    and "bridge_event env2 channel policy model approvals None event b2 = (Inr out2, b3)"
    and "json_index event ''kind'' \<noteq> JStr ''callback''"
  shows "(out = Deferred \<or> out = Waiting) \<and> map_option m_id (s_inflight s) = Some i
    \<and> (out2 = Stalled \<or> out2 = Committed \<and> \<not> has_deferred_event (bs_store b3) channel i)"
proof -
  have first: "(out = Deferred \<or> out = Waiting) \<and> map_option m_id (s_inflight s) = Some i \<and> i \<in> m_id ` set (s_messages s)"
  proof (cases rule: event_cases [of env channel policy model approvals None event b])
    case (admitted j ch th content p c nm m a b0 start)
    have j: "j = i" "ch = chat" "th = thread" "nm = name" using admitted(1,2,5) assms(1,2,3) by auto
    have mi: "m_id m = i" using admitted(6) j by (simp add: user_message_def)
    note after = admitted(8) [symmetric, unfolded assms(6)]
    have none: "bget (st_sessions (bs_store (b\<lparr>bs_plugin := p, bs_call := c\<rparr>))) name = None" using assms(4) by simp
    have same: "st_sessions (bs_store b1) = st_sessions (bs_store b0)"
      using after
    proof (cases rule: after_admission_cases)
      case (blocked e)
      then show ?thesis using defer_keeps [OF blocked(5) assms(1)] by (simp add: same_work_def)
    next
      case (deferred b')
      then show ?thesis using defer_keeps [OF deferred(5) assms(1)] committed_work [OF deferred(6)] by (simp add: same_work_def)
    next
      case commits
      then show ?thesis using committed_work [OF commits(5)] by (simp add: same_work_def)
    next
      case (starts h sm)
      then show ?thesis using committed_work [of env channel j event False out b0 "Inr out" b1] by (auto simp: same_work_def)
    qed simp_all
    have ns: "\<not> ad_stop a" using after assms(8) by (auto simp: after_admission_def)
    have adm: "admit env channel policy model False event m (message_roles event) name ch th
        (b\<lparr>bs_plugin := p, bs_call := c\<rparr>) = (a, b0)" using admitted(7) j by simp
    have s: "s_inflight s = Some m \<and> s_messages s = [m] \<and> ad_defer a"
      using admit_fresh [OF adm none _ ns, of s] assms(5,7) same by simp
    from after have "out = Deferred \<or> out = Waiting"
      by (cases rule: after_admission_cases) (use s ns assms(8) in auto)
    with s mi show ?thesis by simp
  next
    case ignored
    then show ?thesis using assms(1) by simp
  next
    case callback
    then show ?thesis using assms(13) by simp
  next
    case (screened j)
    then show ?thesis using assms(1,2) by simp
  next
    case (empty j ch th content p c)
    then have "committed env channel j event False Committed (b\<lparr>bs_plugin := p, bs_call := c\<rparr>) = (Inr out, b1)"
      using assms(6) by simp
    from committed_work [OF this] have "st_sessions (bs_store b1) = st_sessions (bs_store b)" by (simp add: same_work_def)
    then show ?thesis using assms(4,7) by simp
  qed
  have done2: "out2 = Committed \<and> \<not> has_deferred_event (bs_store b3) channel i"
    if "committed env2 channel i event False Committed bx = (Inr out2, b3)" for bx
    using committed_work [OF that, of out2] by (simp add: committed_to_def)
  have second: "out2 = Stalled \<or> out2 = Committed \<and> \<not> has_deferred_event (bs_store b3) channel i"
  proof (cases rule: event_cases [of env2 channel policy model approvals None event b2])
    case (admitted j ch th content p c nm m a b0 start)
    have j: "j = i" "nm = name" using admitted(1,2,5) assms(1,3,10,11) by auto
    have mi: "m_id m = i" using admitted(6) j by (simp add: user_message_def)
    have "ad_stop a \<or> \<not> ad_defer a \<and> (ad_commit a \<or> ad_prepared a = None)"
      by (rule admit_existing [OF admitted(7)]) (use assms(9) j mi first in auto)
    then have "committed env2 channel i event False Committed b0 = (Inr out2, b3) \<or> out2 = Stalled"
      using admitted(8) assms(12) j by (auto simp: after_admission_def split: if_splits option.splits)
    then show ?thesis using done2 by blast
  next
    case ignored
    then show ?thesis using assms(1) by simp
  next
    case callback
    then show ?thesis using assms(13) by simp
  next
    case (screened j)
    then show ?thesis using assms(1,10) by simp
  next
    case (empty j ch th content p c)
    then show ?thesis using assms(1,12) done2 by simp
  qed
  from first second show ?thesis by blast
qed

lemma full_run_store: "full_run n = (empty_store\<lparr>st_sessions := st_sessions (fst (full_run n))\<rparr>, ())"
proof (induction n)
  case 0
  show ?case by (simp add: full_run_def sample_run_def run_ops_def)
next
  case (Suc n)
  have "\<exists>ss. full_run (Suc n) = (empty_store\<lparr>st_sessions := ss\<rparr>, ())"
    unfolding full_run_Suc
    by (subst Suc) (auto simp: create_scheduled_def create_session_def fail_def change_def sample_env_def Let_def
        schedule_session_count_def user_session_count_def)
  then obtain ss where "full_run (Suc n) = (empty_store\<lparr>st_sessions := ss\<rparr>, ())" ..
  then show ?case by simp
qed

lemma full_run_100:
  "bget (st_sessions (fst (full_run 100))) ''tg-7'' = None" "100 \<le> length (st_sessions (fst (full_run 100)))"
  "user_session_count (fst (full_run 100)) = 0"
proof -
  note full = full_run_state [of 100, simplified]
  show "bget (st_sessions (fst (full_run 100))) ''tg-7'' = None"
    using full by (auto simp: schedule_id_def)
  show "100 \<le> length (st_sessions (fst (full_run 100)))"
    using full length_filter_le [of s_scheduled "bvalues (st_sessions (fst (full_run 100)))"]
    by (simp add: schedule_session_count_def bcount_def)
  have "s_scheduled s" if "s \<in> set (bvalues (st_sessions (fst (full_run 100))))" for s
  proof -
    have "bmap_ok (st_sessions (fst (full_run 100)))"
      using reachable_ok [of "full_run 100"] by (simp add: full_run_def reachable_sample store_ok_def sessions_ok_def)
    from bvalues_get [OF this that] obtain k where "bget (st_sessions (fst (full_run 100))) k = Some s" by auto
    with full show ?thesis by (auto simp: new_session_def split: if_splits)
  qed
  then show "user_session_count (fst (full_run 100)) = 0"
    by (simp add: user_session_count_def bcount_def filter_empty_conv)
qed

lemma full_catalog_defers:
  "\<exists>b1. bridge_event sample_channel_env ''tg'' default_channel ''m'' False None sample_event (sample_bridge (full_run 100)) = (Inr Deferred, b1)
     \<and> bget (st_sessions (bs_store b1)) ''tg-7'' \<noteq> None \<and> has_deferred_event (bs_store b1) ''tg'' ''5''
     \<and> (\<exists>b2. bridge_event sample_channel_env ''tg'' default_channel ''m'' False None sample_event b1 = (Inr Committed, b2))
     \<and> screen_event sample_channel_env default_channel ''tg'' False ''5'' sample_event (bs_store b1) = Some (''7'', None)"
proof -
  obtain ss where ss: "full_run 100 = (empty_store\<lparr>st_sessions := ss\<rparr>, ())" using full_run_store by blast
  have b: "bget ss ''tg-7'' = None" "LIMIT \<le> length ss" "bcount (\<lambda>s. \<not> s_scheduled s) ss = 0"
    using full_run_100 by (simp_all add: ss user_session_count_def LIMIT_def)
  show ?thesis
    unfolding ss using b
    by (simp add: channel_defs run_defs(3-10) run_defs(13-) check_defs(1-8) user_session_count_def bget_insert bget_adjust show_five new_session_def defer_event_def with_deferred_def
      event_has_id_def BYTE_LIMIT_def LIMIT_def compact_messages_id message_history_limit_def)
qed

theorem deferred_message_lost_in_full_catalog_witness:
  "\<exists>b1 b2 s. bridge_event sample_channel_env ''tg'' default_channel ''m'' False None sample_event (sample_bridge (full_run 100)) = (Inr Deferred, b1)
     \<and> bget (st_sessions (bs_store b1)) ''tg-7'' = Some s \<and> map_option m_id (s_inflight s) = Some ''5''
     \<and> bridge_event sample_channel_env ''tg'' default_channel ''m'' False None sample_event b1 = (Inr Committed, b2)
     \<and> \<not> has_deferred_event (bs_store b2) ''tg'' ''5''"
proof -
  let ?event = "bridge_event sample_channel_env ''tg'' default_channel ''m'' False None sample_event"
  obtain b1 b2 s where b: "?event (sample_bridge (full_run 100)) = (Inr Deferred, b1)" "bget (st_sessions (bs_store b1)) ''tg-7'' = Some s"
    "?event b1 = (Inr Committed, b2)" "screen_event sample_channel_env default_channel ''tg'' False ''5'' sample_event (bs_store b1) = Some (''7'', None)"
    using full_catalog_defers by auto
  have i: "event_id (json_index sample_event ''id'') = Some ''5''" by (simp add: sample_event_def event_id_def show_five)
  have n: "''tg-7'' = session_id (digest (be_store sample_channel_env 0)) ''tg'' ''7'' None"
    by (simp add: channel_defs check_defs)
  have scr: "screen_event sample_channel_env default_channel ''tg'' False ''5'' sample_event (bs_store (sample_bridge (full_run 100))) = Some (''7'', None)"
    by (subst full_run_store) (simp add: channel_defs empty_store_def sample_env_def show_five)
  have "bget (st_sessions (bs_store (sample_bridge (full_run 100)))) ''tg-7'' = None"
    "LIMIT \<le> length (st_sessions (bs_store (sample_bridge (full_run 100))))"
    using full_run_100 by (simp_all add: sample_bridge_def bs_store_def LIMIT_def)
  from deferred_message_lost_in_full_catalog [OF i scr n this b(1,2) _ b(2,4) refl b(3)] b show ?thesis
    by (auto simp: sample_event_def)
qed

end
