(* ===== verification/Channel_Rounds.thy ===== *)
theory Channel_Rounds
  imports Channel_Properties
begin

text \<open>
  The properties of a round of the loop: the turns of other sessions and the bounds of the store, the
  delivery of what is pending, the start of queued messages, and the wait for an approval.
\<close>

section \<open>Turns and rounds\<close>

text \<open>The loop keeps the bounds of the store: a round of the loop from a reachable store ends in a reachable
  store, so every bound of the store holds throughout, provided that the model turn works on the store
  through its operations as well.\<close>

theorem rounds_stay_reachable:
  assumes "reachable (bs_world b)"
    and "\<And>t w p c. reachable w \<Longrightarrow> reachable (fst (snd (be_turn env t w p c)))"
  shows "reachable (bs_world (snd (bridge_round env channels channel policy model approvals b)))
    \<and> user_session_count (bs_store (snd (bridge_round env channels channel policy model approvals b))) \<le> 100
    \<and> length (st_outbox (bs_store (snd (bridge_round env channels channel policy model approvals b)))) \<le> 100"
proof -
  let ?b = "snd (bridge_round env channels channel policy model approvals b)"
  have "whole.turn_keeps env" using assms(2) by (simp add: whole.turn_keeps_def)
  from whole.keeps_round [OF this, of b channels channel policy model approvals]
  have "reachable (bs_world ?b)" using assms(1) by (simp add: bkeeps_def)
  moreover from reachable_ok [OF this]
  have "user_session_count (bs_store ?b) \<le> 100 \<and> length (st_outbox (bs_store ?b)) \<le> 100"
    by (simp add: store_ok_def sessions_ok_def outbox_ok_def bs_store_def LIMIT_def user_session_count_def)
  ultimately show ?thesis by simp
qed

theorem rounds_stay_reachable_witness:
  "reachable (bs_world (snd (bridge_round sample_channel_env [''tg''] ''tg'' default_channel ''m'' False
     (sample_bridge (sample_run [])))))"
proof -
  have "reachable (bs_world (sample_bridge (sample_run [])))" by (simp add: sample_bridge_def reachable_sample)
  moreover have "reachable w \<Longrightarrow> reachable (fst (snd (be_turn sample_channel_env t w p c)))" for t w p c
    by (simp add: sample_channel_env_def)
  ultimately show ?thesis by (rule rounds_stay_reachable [THEN conjunct1])
qed

text \<open>C12: A turn is left alone. While a message is in flight in a session, nothing the loop does takes the
  session's turn away or gives it to another message: no event, callback or delivery, no message queued while a tool waits for
  an approval, and no turn of another session, as long as the model turn of another session leaves it alone.\<close>

theorem running_turn_left_alone:
  assumes "holds_lease i m (bs_world b)"
    and "\<And>t w p c. tu_session t \<noteq> i \<Longrightarrow> holds_lease i m w \<Longrightarrow> holds_lease i m (fst (snd (be_turn env t w p c)))"
  shows "holds_lease i m (bs_world (snd (bridge_round env channels channel policy model approvals b)))
    \<and> holds_lease i m (bs_world (snd (waiting_events env channel policy model approvals blocked events b)))"
proof -
  have "lease.turn_keeps i m env" using assms(2) by (simp add: lease.turn_keeps_def)
  from lease.keeps_round [OF this, of b channels channel policy model approvals]
    lease.keeps_waiting_events [of i m b env channel policy model approvals blocked events]
  show ?thesis using assms(1) by (simp add: bkeeps_def)
qed

theorem running_turn_left_alone_witness:
  "holds_lease ''a'' (sample_message ''x'') (bs_world (snd (bridge_round sample_channel_env [''tg''] ''tg'' default_channel ''m'' False
     (sample_bridge (sample_run [OpCreate ''a'' ''m'', OpBegin ''a'' (sample_message ''x'') [] None])))))"
proof -
  let ?w = "sample_run [OpCreate ''a'' ''m'', OpBegin ''a'' (sample_message ''x'') [] None]"
  have "map_option s_inflight (bget (st_sessions (fst ?w)) ''a'') = Some (Some (sample_message ''x''))"
    by (simp add: run_defs check_defs create_def create_session_def begin_with_roles_clearing_deferred_def
        has_live_tui_reservation_def begun_def)
  then have "holds_lease ''a'' (sample_message ''x'') (bs_world (sample_bridge ?w))"
    by (simp add: holds_lease_def sample_bridge_def reachable_sample)
  moreover have "holds_lease ''a'' (sample_message ''x'') w \<Longrightarrow>
      holds_lease ''a'' (sample_message ''x'') (fst (snd (be_turn sample_channel_env t w p c)))" for t w p c
    by (simp add: sample_channel_env_def)
  ultimately show ?thesis by (rule running_turn_left_alone [THEN conjunct1])
qed

section \<open>Deliveries\<close>

lemma update_delivery_done:
  assumes "do_store (update_delivery env i f) b = (r, b')" and "find_delivery i (bs_store b) = Some d" and "\<And>d. d_id (f d) = d_id d"
  shows "(r = Inr () \<and> find_delivery i (bs_store b') = Some (f d) \<or> (\<exists>e. r = Inl (StoreFailed e)) \<and> bs_store b' = bs_store b)
    \<and> st_sessions (bs_store b') = st_sessions (bs_store b)
    \<and> (\<forall>j. j \<noteq> i \<longrightarrow> find_delivery j (bs_store b') = find_delivery j (bs_store b))"
proof -
  have has: "has_delivery i (bs_store b)" using assms(2)
    by (auto simp: has_delivery_def find_delivery_def find_Some_iff list_ex_iff)
  then have "do_store (change env (\<lambda>st. st\<lparr>st_outbox := update_first (\<lambda>d. d_id d = i) f (st_outbox st)\<rparr>)) b = (r, b')"
    using assms(1) by (simp add: do_store_def update_delivery_def bs_store_def)
  then show ?thesis
  proof (cases rule: do_store_cases)
    case ok
    then show ?thesis
      using assms(2,3) find_update_first [of "\<lambda>d. d_id d = i" f] find_update_first_other [of "\<lambda>d. d_id d = i" _ f]
      by (auto simp: find_delivery_def)
  next
    case (failed e)
    then show ?thesis by simp
  qed
qed

lemma ack_done:
  assumes "do_store (ack env i) b = (r, b')" and "outbox_ok (st_outbox (bs_store b))"
  shows "(find_delivery i (bs_store b') = None \<or> bs_store b' = bs_store b)
    \<and> st_sessions (bs_store b') = st_sessions (bs_store b)
    \<and> (\<forall>j. j \<noteq> i \<longrightarrow> find_delivery j (bs_store b') = find_delivery j (bs_store b))"
proof (cases "position (\<lambda>d. d_id d = i) (st_outbox (bs_store b))")
  case None
  then have "do_store (ack env i) b = do_store (\<lambda>w. return () w) b"
    by (simp add: do_store_def ack_def bs_store_def)
  then show ?thesis using assms(1) by (simp add: do_store_return)
next
  case (Some k)
  have "do_store (change env (\<lambda>st. st\<lparr>st_outbox := take k (st_outbox st) @ drop (k + 1) (st_outbox st)\<rparr>)) b = (r, b')"
    using assms(1) Some by (simp add: do_store_def ack_def bs_store_def)
  then show ?thesis
  proof (cases rule: do_store_cases)
    case ok
    have "distinct (map d_id (st_outbox (bs_store b)))" using assms(2) by (simp add: outbox_ok_def)
    then have out: "st_outbox (bs_store b') = filter (\<lambda>d. d_id d \<noteq> i) (st_outbox (bs_store b))"
      using ok(2) position_split [OF Some] by (simp add: remove_first_distinct)
    have other: "List.find (\<lambda>d. d_id d = j) (filter (\<lambda>d. d_id d \<noteq> i) ds) = (if j = i then None else List.find (\<lambda>d. d_id d = j) ds)" for j ds
      by (induction ds) auto
    have "st_sessions (bs_store b') = st_sessions (bs_store b)" using ok(2) by simp
    then show ?thesis by (simp add: find_delivery_def out other)
  next
    case (failed e)
    then show ?thesis by simp
  qed
qed

text \<open>What the store holds of a delivery after an attempt to send it.\<close>

definition attempted :: "string \<Rightarrow> store \<Rightarrow> store \<Rightarrow> bool" where
  "attempted i st st' \<longleftrightarrow> (case find_delivery i st' of None \<Rightarrow> True | Some d \<Rightarrow> d_status d = Sending \<or> d_status d = Uncertain)
     \<and> st_sessions st' = st_sessions st \<and> (\<forall>j. j \<noteq> i \<longrightarrow> find_delivery j st' = find_delivery j st)"

lemma attempted_uncertain:
  assumes "do_store (mark_uncertain env i e) b1 = (r, b2)" and "attempted i st (bs_store b1)"
  shows "attempted i st (bs_store b2)"
proof (cases "find_delivery i (bs_store b1)")
  case None
  then have "\<not> has_delivery i (bs_store b1)"
    by (auto simp: has_delivery_def find_delivery_def find_None_iff list_ex_iff)
  then have "bs_store b2 = bs_store b1"
    using assms(1) by (auto simp: do_store_def mark_uncertain_def update_delivery_def fail_def bs_store_def)
  then show ?thesis using assms(2) by simp
next
  case (Some d)
  from update_delivery_done [OF assms(1) [unfolded mark_uncertain_def] Some] assms(2) Some
  show ?thesis by (auto simp: attempted_def)
qed

lemma attempted_ack:
  assumes "do_store (ack env i) b1 = (r, b2)" and "attempted i st (bs_store b1)" and "outbox_ok (st_outbox (bs_store b1))"
  shows "attempted i st (bs_store b2)"
  using ack_done [OF assms(1,3)] assms(2) by (auto simp: attempted_def)

text \<open>C13: A pending delivery is sent at most once. When a round finds a pending delivery, the
  store has it marked as being sent before the channel is asked; whatever the channel answers, and even when the answer cannot be
  recorded, the delivery is afterwards gone, being sent or uncertain, and never pending. Only when the mark cannot be
  saved nothing is sent, and the store is as before. No session and no other delivery is touched.\<close>

theorem pending_delivery_sent_once:
  assumes "reachable (bs_world b)" and "pending_delivery channels (bs_store b) = Some d"
    and "bridge_round env channels channel policy model approvals b = (r, b')"
  shows "(\<exists>e. r = Inl (StoreFailed e)) \<and> bs_store b' = bs_store b \<and> bs_plugin b' = bs_plugin b
    \<or> (case find_delivery (d_id d) (bs_store b') of None \<Rightarrow> True | Some d' \<Rightarrow> d_status d' = Sending \<or> d_status d' = Uncertain)
      \<and> st_sessions (bs_store b') = st_sessions (bs_store b)
      \<and> (\<forall>j. j \<noteq> d_id d \<longrightarrow> find_delivery j (bs_store b') = find_delivery j (bs_store b))"
proof -
  have send: "send_pending env d b = (r, b')" using assms(2,3) by (simp add: bridge_round_def Let_def)
  have ok: "outbox_ok (st_outbox (bs_store b))" using reachable_ok [OF assms(1)] by (simp add: store_ok_def bs_store_def)
  have "d \<in> set (st_outbox (bs_store b))" using assms(2) by (auto simp: pending_delivery_def find_Some_iff)
  then obtain d0 where d0: "find_delivery (d_id d) (bs_store b) = Some d0"
    by (cases "find_delivery (d_id d) (bs_store b)") (auto simp: find_delivery_def find_None_iff)
  obtain r1 b1 where s: "do_store (sending (be_store env 0) (d_id d)) b = (r1, b1)" by (metis surj_pair)
  note u = update_delivery_done [OF s [unfolded sending_def] d0]
  show ?thesis
  proof (cases r1)
    case (Inl e)
    then have "r = Inl e" "b' = b1" using send s by (simp_all add: send_pending_def)
    moreover have "bs_plugin b1 = bs_plugin b" using s by (auto simp: do_store_def split: sum.splits prod.splits)
    ultimately show ?thesis using u Inl by auto
  next
    case (Inr x)
    then have a1: "attempted (d_id d) (bs_store b) (bs_store b1)" using u by (auto simp: attempted_def)
    have "keeps store_ok (bs_world b) (exec (be_store env 0) (OpSending (d_id d)) (bs_world b))" by (rule keeps_exec)
    then have ok1: "outbox_ok (st_outbox (bs_store b1))"
      using do_store_Inr [OF s [unfolded Inr]] reachable_ok [OF assms(1)] by (simp add: keeps_def store_ok_def bs_store_def)
    have "attempted (d_id d) (bs_store b) (bs_store b')"
    proof (cases "delivery_request (d_channel d) (bs_call b1) d")
      case (Inl e)
      then show ?thesis using send s Inr a1 by (simp add: send_pending_def)
    next
      case req: (Inr req)
      obtain sent p where c: "be_call env (d_channel d) req (bs_plugin b1) = (sent, p)" by (metis surj_pair)
      let ?b2 = "b1\<lparr>bs_plugin := p, bs_call := bs_call b1 + 1\<rparr>"
      have a2: "attempted (d_id d) (bs_store b) (bs_store ?b2)" "outbox_ok (st_outbox (bs_store ?b2))" using a1 ok1 by simp_all
      note run = send [unfolded send_pending_def s Inr sum.case prod.case req c Let_def]
      show ?thesis
      proof (cases sent)
        case (Inl e)
        obtain r3 b3 where m: "do_store (mark_uncertain (be_store env 1) (d_id d) (sentence (be_upper env) (show_error e))) ?b2 = (r3, b3)"
          by (metis surj_pair)
        have "bs_store b' = bs_store b3" using run Inl m by (auto split: sum.splits prod.splits)
        then show ?thesis using attempted_uncertain [OF m a2(1)] by simp
      next
        case resp: (Inr resp)
        show ?thesis
        proof (cases "accepted sent")
          case True
          obtain r3 b3 where m: "do_store (ack (be_store env 1) (d_id d)) ?b2 = (r3, b3)" by (metis surj_pair)
          have "bs_store b' = bs_store b3" using run resp True m by (auto split: sum.splits prod.splits)
          then show ?thesis using attempted_ack [OF m a2] by simp
        next
          case False
          obtain r3 b3 where m: "do_store (mark_uncertain (be_store env 1) (d_id d) (rejection (be_upper env) resp)) ?b2 = (r3, b3)"
            by (metis surj_pair)
          have "bs_store b' = bs_store b3" using run resp False m by (auto split: sum.splits prod.splits)
          then show ?thesis using attempted_uncertain [OF m a2(1)] by simp
        qed
      qed
    qed
    then show ?thesis by (simp add: attempted_def)
  qed
qed

theorem pending_delivery_sent_once_witness:
  "\<exists>d. pending_delivery [''tg''] (fst (sample_run [OpQueueDelivery ''d'' ''tg'' ''7'' True None ''hi''])) = Some d
     \<and> (case find_delivery ''d'' (bs_store (snd (bridge_round sample_channel_env [''tg''] ''tg'' default_channel ''m'' False
           (sample_bridge (sample_run [OpQueueDelivery ''d'' ''tg'' ''7'' True None ''hi'']))))) of
          None \<Rightarrow> True | Some d' \<Rightarrow> d_status d' = Sending \<or> d_status d' = Uncertain)"
proof -
  let ?w = "sample_run [OpQueueDelivery ''d'' ''tg'' ''7'' True None ''hi'']"
  let ?r = "bridge_round sample_channel_env [''tg''] ''tg'' default_channel ''m'' False (sample_bridge ?w)"
  obtain d where d: "pending_delivery [''tg''] (fst ?w) = Some d" "d_id d = ''d''"
    by (simp add: pending_delivery_def run_defs check_defs queue_delivery_def has_delivery_def new_delivery_def)
  have ok: "\<not> (\<exists>e. fst ?r = Inl (StoreFailed e))"
    by (simp add: bridge_round_def pending_delivery_def run_defs check_defs queue_delivery_def has_delivery_def new_delivery_def
        channel_defs send_pending_def sending_def update_delivery_def delivery_request_def send_request_def send_params_def
        with_thread_def accepted_def response_ok_def mark_uncertain_def ack_def)
  have "reachable (bs_world (sample_bridge ?w))" by (simp add: sample_bridge_def reachable_sample)
  from pending_delivery_sent_once [OF this _ prod.collapse [symmetric], of "[''tg'']" d sample_channel_env "''tg''" default_channel "''m''" False] d ok
  show ?thesis by (auto simp: sample_bridge_def bs_store_def)
qed

section \<open>Queued messages\<close>

lemma queued_event_fields [simp]:
  "json_index (queued_event env channel s m) ''id'' = JStr (m_id m)"
  "json_index (queued_event env channel s m) ''kind'' = JNull"
  "json_index (queued_event env channel s m) ''chat'' = JStr (queued_chat channel s)"
  "json_index (queued_event env channel s m) ''thread'' = jopt JStr (s_thread s)"
  "json_index (queued_event env channel s m) ''private'' = JBool (s_private s)"
  "json_index (queued_event env channel s m) ''gateway_sequence'' = JNull"
  "json_index (queued_event env channel s m) ''text'' = JStr (join [CHR 0x0A] (map (render (be_show_json env)) (m_content m)))"
  by (simp_all add: queued_event_def jobject_index)

lemma next_queued_there:
  assumes "next_queued time channel st = Some (s, m)" and "store_ok st"
  shows "bget (st_sessions st) (s_id s) = Some s \<and> session_ok (s_id s) s \<and> waits time channel s
    \<and> s_queued s \<noteq> [] \<and> m = hd (s_queued s)"
proof -
  have f: "List.find (waits time channel) (bvalues (st_sessions st)) = Some s" "m = hd (s_queued s)"
    using assms(1) by (auto simp: next_queued_def)
  then have s: "s \<in> set (bvalues (st_sessions st))" "waits time channel s" by (auto simp: find_Some_iff)
  have ok: "sessions_ok (st_sessions st)" using assms(2) by (simp add: store_ok_def)
  then have "bmap_ok (st_sessions st)" by (simp add: sessions_ok_def)
  from bvalues_get [OF this s(1)] obtain k where k: "bget (st_sessions st) k = Some s" by auto
  with ok have "session_ok k s" by (auto simp: sessions_ok_def)
  moreover from this have "s_id s = k" by (simp add: session_ok_def)
  ultimately show ?thesis using k s(2) f(2) by (auto simp: waits_def)
qed

text \<open>A queued message that has grown over the limit stops its channel. The text of a queued message is joined
  from its parts and screened again like the text of an event. When it is longer than the limit, every round takes this
  message, commits it as an event and leaves it at the head of its queue: the sessions and the deliveries are as before,
  the next round takes the same message, and the channel is not polled.\<close>

theorem oversized_queued_message_stalls:
  assumes "pending_delivery channels (bs_store b) = None"
    and "next_queued (now (be_store env 0) 0) channel (bs_store b) = Some (s, m)"
    and "TEXT_LIMIT < length (join [CHR 0x0A] (map (render (be_show_json env)) (m_content m)))"
    and "bridge_round env channels channel policy model approvals b = (r, b')"
  shows "st_sessions (bs_store b') = st_sessions (bs_store b)
    \<and> pending_delivery channels (bs_store b') = None
    \<and> next_queued (now (be_store env 0) 0) channel (bs_store b') = Some (s, m)
    \<and> bs_offset b' = bs_offset b \<and> (\<forall>go. r = Inr go \<longrightarrow> go)"
proof -
  let ?e = "queued_event env channel s m" and ?b = "b\<lparr>bs_call := bs_call b + 1\<rparr>"
  have "screen_event env policy channel True (m_id m) ?e (bs_store b) = None"
  proof -
    have "too_long (json_index ?e ''text'') TEXT_LIMIT" using assms(3) by (simp add: too_long_def)
    then show ?thesis by (simp add: screen_event_def Let_def split: option.split)
  qed
  then have ev: "bridge_event env channel policy model approvals (Some (m_id m)) ?e ?b = committed env channel (m_id m) ?e False Committed ?b"
    by (simp add: bridge_event_def event_id_def)
  obtain r1 b1 where c: "committed env channel (m_id m) ?e False Committed ?b = (r1, b1)" by (metis surj_pair)
  have round: "bridge_round env channels channel policy model approvals b
      = run_events env channel policy model approvals (Some (m_id m)) [?e] ?b"
    using assms(1,2) by (simp add: bridge_round_def Let_def)
  have "b' = b1 \<and> (\<forall>go. r = Inr go \<longrightarrow> go)"
  proof (cases r1)
    case (Inl e)
    then show ?thesis using assms(4) by (auto simp: round ev c)
  next
    case (Inr out)
    then have "out = Committed" using committed_outcome c by blast
    then show ?thesis using assms(4) Inr by (auto simp: round ev c)
  qed
  moreover have "same_work (bs_store b) (bs_store b1)" using committed_work [OF c] by simp
  moreover have "bs_offset b1 = bs_offset b"
  proof -
    have "next_offset ?e = None" "as_word (json_index ?e ''gateway_sequence'') = None"
      by (simp_all add: next_offset_def queued_event_def jobject_index as_word_def)
    then have c': "committed env channel (m_id m) ?e False Committed ?b =
        (case do_store (commit (be_store env 0) channel (m_id m) None) ?b of (Inl e, b') \<Rightarrow> (Inl e, b') | (Inr u, b') \<Rightarrow> (Inr Committed, b'))"
      by (simp add: committed_def commit_event_inner_def Let_def split: prod.split sum.split)
    obtain r2 b2 where d: "do_store (commit (be_store env 0) channel (m_id m) None) ?b = (r2, b2)" by (metis surj_pair)
    then have "bs_offset b2 = bs_offset b" by (auto simp: do_store_def split: prod.splits sum.splits)
    then show ?thesis using c unfolding c' d by (cases r2) simp_all
  qed
  ultimately show ?thesis using assms(1,2) by (auto simp: same_work_def next_queued_def pending_delivery_def)
qed

text \<open>A queued message that is too long, with a text that is only just over the limit.\<close>

definition long_message :: message where
  "long_message = \<lparr>m_id = ''x'', m_session = ''tg-7'', m_role = User, m_sender = None,
     m_content = [CText (replicate TEXT_LIMIT CHR ''a''), CText ''b'']\<rparr>"

theorem oversized_queued_message_stalls_witness:
  "next_queued 100 ''tg'' (bs_store (snd (bridge_round sample_channel_env [''tg''] ''tg'' default_channel ''m'' False
     (sample_bridge (sample_run [OpCreate ''tg-7'' ''m'', OpQueue ''tg-7'' long_message []])))))
   = next_queued 100 ''tg'' (fst (sample_run [OpCreate ''tg-7'' ''m'', OpQueue ''tg-7'' long_message []]))
   \<and> next_queued 100 ''tg'' (fst (sample_run [OpCreate ''tg-7'' ''m'', OpQueue ''tg-7'' long_message []])) \<noteq> None"
proof -
  let ?w = "sample_run [OpCreate ''tg-7'' ''m'', OpQueue ''tg-7'' long_message []]"
  have "\<exists>s. next_queued 100 ''tg'' (fst ?w) = Some (s, long_message)"
    by (simp add: next_queued_def waits_def run_defs check_defs create_def create_session_def queue_with_roles_def enqueued_def
        has_live_tui_reservation_def long_message_def)
  then obtain s where q: "next_queued (now (be_store sample_channel_env 0) 0) ''tg'' (bs_store (sample_bridge ?w)) = Some (s, long_message)"
    by (auto simp: sample_bridge_def bs_store_def sample_channel_env_def sample_env_def)
  have p: "pending_delivery [''tg''] (bs_store (sample_bridge ?w)) = None"
    by (simp add: pending_delivery_def sample_bridge_def bs_store_def run_defs check_defs create_def create_session_def
        queue_with_roles_def enqueued_def)
  have "TEXT_LIMIT < length (join [CHR 0x0A] (map (render (be_show_json sample_channel_env)) (m_content long_message)))"
    by (simp add: long_message_def)
  from oversized_queued_message_stalls [OF p q this prod.collapse [symmetric], of default_channel "''m''" False] q
  show ?thesis by (simp add: sample_bridge_def bs_store_def sample_channel_env_def sample_env_def)
qed

text \<open>The steps of an admission that meets no obstacle.\<close>

lemma stored_change:
  assumes "\<And>st d. fst (save_store e st d) = Inr ()"
  shows "do_store (change e u) b = (Inr (), b\<lparr>bs_world := snd (change e u (bs_world b))\<rparr>)"
    and "fst (snd (change e u (bs_world b))) = u (bs_store b)"
proof -
  obtain st d where w: "bs_world b = (st, d)" by (cases "bs_world b")
  obtain d' where "save_store e (u st) d = (Inr (), d')" using assms by (metis prod.collapse)
  then show "do_store (change e u) b = (Inr (), b\<lparr>bs_world := snd (change e u (bs_world b))\<rparr>)"
    and "fst (snd (change e u (bs_world b))) = u (bs_store b)"
    by (simp_all add: do_store_def change_def Let_def w bs_store_def)
qed

lemma do_store_cong: "act (bs_world b) = act' (bs_world b) \<Longrightarrow> do_store act b = do_store act' b"
  by (simp add: do_store_def)

lemma place_queued:
  assumes "bget (st_sessions (bs_store b)) name = Some s"
    and "do_store (begin_queued_with_roles (be_store env 4) name m rs channel) b = (Inr (), b')"
  shows "\<exists>h. place env channel True m rs name a b = (a\<lparr>ad_prepared := Some (h, s_model s)\<rparr>, b')"
  unfolding place_def assms(1) option.case Let_def by (simp add: assms(2)) blast

lemma admit_open:
  assumes "room_for env policy event name (bs_store b) (bs_plugin b) = ((ws, False, False), p)"
    and "do_store (ensure (be_store env 1) name model) (b\<lparr>bs_plugin := p\<rparr>) = (Inr (), b1)"
    and "do_store (route (be_store env 2) name channel chat thread (is_private event)) b1 = (Inr (), b2)"
  shows "admit env channel policy model queued event m rs name chat thread b =
    place env channel queued m rs name \<lparr>ad_workspace = ws, ad_commit = False, ad_defer = False, ad_stop = False, ad_prepared = None\<rparr> b2"
  unfolding admit_def Let_def assms(1) prod.case if_False assms(2,3) sum.case ..

lemma event_admitted:
  assumes "event_id (json_index event ''id'') = Some i" and "json_index event ''kind'' \<noteq> JStr ''callback''"
    and "screen_event env policy channel (queued_id = Some i) i event (bs_store b) = Some (chat, thread)"
    and "be_media env (event_content (be_json_len env) (be_content_of env) event) (bs_plugin b) (bs_call b) = (content, p, c)"
    and "content \<noteq> []" and "valid name" and "name = session_id (digest (be_store env 0)) channel chat thread"
    and "admit env channel policy model (queued_id = Some i) event (user_message i name event content) (message_roles event) name chat thread
      (b\<lparr>bs_plugin := p, bs_call := c\<rparr>) = (a, b2)"
  shows "\<exists>start. bridge_event env channel policy model approvals queued_id event b =
      after_admission env channel (queued_id = Some i) (has_deferred_event (bs_store b) channel i) event i start a b2
    \<and> (\<forall>h sm. tu_session (start h sm) = name \<and> tu_message (start h sm) = user_message i name event content)"
proof (cases rule: event_cases [of env channel policy model approvals queued_id event b])
  case (admitted j ch th content' p' c' name' m' a' b' start)
  have j: "j = i" "ch = chat" "th = thread" "content' = content" "p' = p" "c' = c" using admitted(1,2,3) assms(1,3,4) by auto
  have n: "name' = name" "m' = user_message i name event content" using admitted(5,6) assms(7) j by simp_all
  have "a' = a" "b' = b2" using admitted(7) assms(8) j n by simp_all
  then show ?thesis using admitted(8,9) j n by blast
next
  case (empty j ch th content' p' c')
  have j: "j = i" "ch = chat" "th = thread" "content' = content" using empty(2,3,4) assms(1,3,4) by auto
  then show ?thesis using empty(5) assms(5,6,7) by simp
qed (use assms in simp_all)

lemma round_of_queued:
  assumes "pending_delivery channels (bs_store b) = None" and "next_queued (now (be_store env 0) 0) channel (bs_store b) = Some (s, m)"
    and "bridge_event env channel policy model approvals (Some (m_id m)) (queued_event env channel s m) (b\<lparr>bs_call := bs_call b + 1\<rparr>)
      = (Inr (Begun t), b1)"
  shows "bridge_round env channels channel policy model approvals b = run_turn env channel t b1"
proof -
  obtain r b2 where "run_turn env channel t b1 = (r, b2)" by (metis surj_pair)
  then show ?thesis using assms by (cases r) (auto simp: bridge_round_def Let_def)
qed

lemma begun_sessions:
  "st_sessions (let st1 = (let st0 = drop_deferred c i st in
      st0\<lparr>st_deferred_acknowledged := bremove k (st_deferred_acknowledged st0)\<rparr>) in on_session name f st1)
    = badjust name f (st_sessions st)"
  by (simp add: on_session_def Let_def drop_deferred_def split: option.split)

lemma begun_queue: "s_queued s = m # ms \<Longrightarrow> m_id m' = m_id m \<Longrightarrow> s_queued (begun e m' rs s) = ms"
  by (simp add: begun_def Let_def)

text \<open>C14: A queued message gets its turn. When the store can be saved and no delivery is pending, the round takes the
  first session of the channel that has a queued message and is neither cancelled nor reserved, and the message at the
  head of its queue. The turn runs in the session that the channel, the chat and the thread of this session name, which
  is the session itself unless it is a fork of another one; it gets the message as its running turn, and
  the message leaves the queue. When the two differ, the turn runs in the other session and the first one is left as
  it was, with the message still at the head of its queue. This holds provided that the session named exists, runs no
  turn, and is neither cancelled nor reserved (nor, when it is the other one, working), that the message is within the
  limits, that its content can be resolved and that no isolated workspace has to be made for it. The selection itself
  does not look at whether a turn is running.\<close>

theorem queued_message_gets_turn:
  fixes b :: "('d, 'p) bridge"
  assumes "reachable (bs_world b)" and "\<And>k. be_store env k = e" and "\<And>st d. fst (save_store e st d) = Inr ()"
    and "pending_delivery channels (bs_store b) = None"
    and "next_queued (now e 0) channel (bs_store b) = Some (s, m)"
    and "name = session_id (digest e) channel (queued_chat channel s) (s_thread s)"
    and "bget (st_sessions (bs_store b)) name = Some x" and "s_inflight x = None" and "s_status x \<noteq> ''cancelled''"
    and "\<not> has_live_tui_reservation (now e 0) x" and "name = s_id s \<or> s_status x \<noteq> ''working''"
    and "screen_event env policy channel True (m_id m) (queued_event env channel s m) (bs_store b) \<noteq> None"
    and "fst (be_media env (event_content (be_json_len env) (be_content_of env) (queued_event env channel s m)) (bs_plugin b) (bs_call b + 1)) \<noteq> []"
    and "s_private s \<or> \<not> cc_worktree policy"
  shows "\<exists>t b1 s'. bridge_round env channels channel policy model approvals b = run_turn env channel t b1
    \<and> tu_session t = name \<and> m_id (tu_message t) = m_id m
    \<and> bget (st_sessions (bs_store b1)) name = Some s' \<and> s_inflight s' = Some (tu_message t)
    \<and> (if name = s_id s then s_queued s' = tl (s_queued s)
       else bget (st_sessions (bs_store b1)) (s_id s) = Some s \<and> hd (s_queued s) = m)"
proof -
  let ?e = "queued_event env channel s m" and ?b = "b\<lparr>bs_call := bs_call b + 1\<rparr>" and ?name = name
  have st: "store_ok (bs_store b)" using reachable_ok [OF assms(1)] by (simp add: bs_store_def)
  note q = next_queued_there [OF assms(5) st]
  have "session_ok name x" using assms(7) st by (auto simp: store_ok_def sessions_ok_def)
  then have "valid name" by (simp add: session_ok_def)
  note s = assms(7,9,10) this
  have own: "x = s" if "name = s_id s" using that q s(1) by simp
  obtain chat thread where scr: "screen_event env policy channel True (m_id m) ?e (bs_store b) = Some (chat, thread)"
    using assms(12) by auto
  have ct: "chat = queued_chat channel s" "thread = s_thread s"
    using scr by (auto simp: screen_event_def Let_def event_id_def jopt_def split: if_splits option.splits)
  obtain content p c where media: "be_media env (event_content (be_json_len env) (be_content_of env) ?e) (bs_plugin ?b) (bs_call ?b) = (content, p, c)"
    by (metis surj_pair)
  have content: "content \<noteq> []" using assms(13) media by simp
  define m' where "m' = user_message (m_id m) ?name ?e content"
  define b1 where "b1 = ?b\<lparr>bs_plugin := p, bs_call := c\<rparr>"
  have b1: "bs_world b1 = bs_world b" "bs_store b1 = bs_store b" "bs_plugin b1 = p" "b1\<lparr>bs_plugin := p\<rparr> = b1" by (simp_all add: b1_def bs_store_def)
  let ?rs = "message_roles ?e"
  let ?u = "\<lambda>s. s\<lparr>s_channel := Some channel, s_chat := Some chat, s_thread := thread, s_private := is_private ?e\<rparr>"
  obtain b2 where b2: "do_store (change e (on_session ?name ?u)) b1 = (Inr (), b2)" "bs_store b2 = on_session ?name ?u (bs_store b)"
    using stored_change [OF assms(3), of "on_session ?name ?u" b1] b1 by (simp add: bs_store_def)
  have route: "do_store (route e ?name channel chat thread (is_private ?e)) b1 = (Inr (), b2)"
    unfolding b2(1) [symmetric] by (rule do_store_cong) (use s(1) b1 in \<open>simp add: route_def bs_store_def\<close>)
  have ensured: "do_store (ensure e ?name model) b1 = (Inr (), b1)"
    unfolding do_store_return [symmetric] by (rule do_store_cong) (use s(1) b1 in \<open>simp add: ensure_def bs_store_def\<close>)
  have routed: "bget (st_sessions (bs_store b2)) ?name = Some (?u x)" using b2(2) s(1) by (simp add: on_session_get)
  have room: "room_for env policy ?e ?name (bs_store b1) (bs_plugin b1) = ((None, False, False), p)"
    using s(1,2) assms(14) b1 by (auto simp: room_for_def is_private_def)
  have free: "s_status x \<noteq> ''working'' \<or> m_id m' \<in> m_id ` set (s_queued x)"
    using assms(11) own q by (auto simp: user_message_def m'_def)
  let ?start = "\<lambda>st. (let st1 = (let st0 = drop_deferred channel (m_id m') st in
         st0\<lparr>st_deferred_acknowledged := bremove (seen_key (digest e) channel (m_id m')) (st_deferred_acknowledged st0)\<rparr>)
       in on_session ?name (begun e m' ?rs) st1)"
  have w: "begin_with_roles_clearing_deferred e ?name m' ?rs (Some channel) (bs_world b2) = change e ?start (bs_world b2)"
    using free routed s(3) assms(8)
    by (auto simp: begin_with_roles_clearing_deferred_def bs_store_def has_live_tui_reservation_def list_ex_id)
  have started: "do_store (begin_with_roles_clearing_deferred e ?name m' ?rs (Some channel)) b2 = do_store (change e ?start) b2"
    unfolding do_store_def w ..
  then obtain b3 where b3: "do_store (begin_with_roles_clearing_deferred e ?name m' ?rs (Some channel)) b2 = (Inr (), b3)"
    using stored_change(1) [OF assms(3), of ?start b2] by simp
  let ?s' = "begun e m' ?rs (?u x)"
  have s': "bget (st_sessions (bs_store b3)) ?name = Some ?s'" "s_inflight ?s' = Some m'"
    using begun_lease [OF do_store_Inr [OF b3]] routed by (simp_all add: bs_store_def)
  have "b2\<lparr>bs_world := snd (change e ?start (bs_world b2))\<rparr> = b3"
    using b3 unfolding started stored_change(1) [OF assms(3)] by (rule prod.inject [THEN iffD1, THEN conjunct2])
  then have "bs_world b3 = snd (change e ?start (bs_world b2))" by auto
  then have "bs_store b3 = ?start (bs_store b2)"
    using stored_change(2) [OF assms(3), of ?start b2] by (simp only: bs_store_def)
  then have others: "bget (st_sessions (bs_store b3)) j = bget (st_sessions (bs_store b)) j" if "j \<noteq> name" for j
    using that b2(2) by (simp only: begun_sessions) (simp add: bget_adjust on_session_def)
  have queue: "if name = s_id s then s_queued ?s' = tl (s_queued s)
      else bget (st_sessions (bs_store b3)) (s_id s) = Some s \<and> hd (s_queued s) = m"
    using own q others [of "s_id s"] begun_queue [of "?u x" m "tl (s_queued s)" m' e ?rs]
    by (cases "s_queued s") (auto simp: m'_def user_message_def)
  have begins: "do_store (begin_queued_with_roles (be_store env 4) ?name m' ?rs channel) b2 = (Inr (), b3)"
    using b3 by (simp add: begin_queued_with_roles_def assms(2))
  obtain h where adm: "admit env channel policy model True ?e m' ?rs ?name chat thread b1
      = (\<lparr>ad_workspace = None, ad_commit = False, ad_defer = False, ad_stop = False, ad_prepared = Some (h, s_model (?u x))\<rparr>, b3)"
    using place_queued [OF routed begins, of "\<lparr>ad_workspace = None, ad_commit = False, ad_defer = False, ad_stop = False, ad_prepared = None\<rparr>"]
      admit_open [OF room, of model b1 channel chat thread b2 True m' ?rs] ensured route b1(4) by (auto simp: assms(2))
  have nm: "?name = session_id (digest (be_store env 0)) channel chat thread" using assms(6) ct by (simp add: assms(2))
  have adm': "admit env channel policy model (Some (m_id m) = Some (m_id m)) ?e (user_message (m_id m) ?name ?e content) ?rs ?name chat thread
      (?b\<lparr>bs_plugin := p, bs_call := c\<rparr>)
      = (\<lparr>ad_workspace = None, ad_commit = False, ad_defer = False, ad_stop = False, ad_prepared = Some (h, s_model (?u x))\<rparr>, b3)"
    using adm by (simp add: m'_def b1_def)
  have scr': "screen_event env policy channel (Some (m_id m) = Some (m_id m)) (m_id m) ?e (bs_store ?b) = Some (chat, thread)"
    using scr by simp
  have "event_id (json_index ?e ''id'') = Some (m_id m)" "json_index ?e ''kind'' \<noteq> JStr ''callback''" by (simp_all add: event_id_def)
  from event_admitted [OF this scr' media content s(4) nm adm', of approvals] obtain start where
    "bridge_event env channel policy model approvals (Some (m_id m)) ?e ?b = (Inr (Begun (start h (s_model (?u x)))), b3)"
    "tu_session (start h (s_model (?u x))) = ?name \<and> tu_message (start h (s_model (?u x))) = m'"
    by (auto simp: after_admission_def m'_def)
  note ev = this
  have "bridge_round env channels channel policy model approvals b = run_turn env channel (start h (s_model (?u x))) b3"
    by (rule round_of_queued [OF assms(4) _ ev(1)]) (simp add: assms(2,5))
  moreover have "m_id m' = m_id m" by (simp add: m'_def user_message_def)
  ultimately show ?thesis using ev(2) s' queue by (intro exI [of _ "start h (s_model (?u x))"] exI [of _ b3] exI [of _ ?s']) simp
qed

text \<open>A session of the chat \<open>7\<close> with a queued message, and a fork of such a session with a queued message of its own.\<close>

lemma sample_queued:
  fixes b :: "(unit, unit) bridge"
  assumes "queued_chat ''tg'' s = ''7''" and "s_private s" and "s_thread s = None" and "s_queue_roles s = []"
  shows "screen_event sample_channel_env default_channel ''tg'' True (m_id (sample_message ''x''))
      (queued_event sample_channel_env ''tg'' s (sample_message ''x'')) (bs_store b) \<noteq> None"
    and "fst (be_media sample_channel_env (event_content (be_json_len sample_channel_env) (be_content_of sample_channel_env)
      (queued_event sample_channel_env ''tg'' s (sample_message ''x''))) (bs_plugin b) (bs_call b + 1)) \<noteq> []"
    and "session_id (digest sample_env) ''tg'' (queued_chat ''tg'' s) (s_thread s) = ''tg-7''"
  using assms
  by (simp_all add: screen_event_def Let_def event_id_def jopt_def too_long_def roles_too_long_def META_LIMIT_def TEXT_LIMIT_def
      CONTENT_LIMIT_def sample_message_def queued_event_def jobject_index event_content_def sample_channel_env_def
      List.map_filter_simps bound_def bound_items.simps bound_item.simps oversized_call_def session_id_def raw_session_def check_defs)

definition queued_ops :: "store_op list" where
  "queued_ops = [OpCreate ''tg-7'' ''m'', OpQueue ''tg-7'' (sample_message ''x'') []]"

definition forked_ops :: "store_op list" where
  "forked_ops = [OpCreate ''tg-7'' ''m'', OpRoute ''tg-7'' ''tg'' ''7'' None True, OpFork ''tg-7'' ''tg-fork'',
     OpQueue ''tg-fork'' (sample_message ''x'') []]"

lemmas queue_defs = queued_ops_def forked_ops_def next_queued_def waits_def run_defs check_defs create_def create_session_def
  queue_with_roles_def enqueued_def has_live_tui_reservation_def route_def fork_def forked_def retarget_def on_session_def
  is_schedule_session_def user_session_count_def

lemma sample_bridge_store: "bs_store (sample_bridge w) = fst w" "bs_world (sample_bridge w) = w" "now sample_env n = 100"
  by (simp_all add: sample_bridge_def bs_store_def sample_env_def)

lemma queued_sample:
  "\<exists>s. next_queued (now sample_env 0) ''tg'' (bs_store (sample_bridge (sample_run queued_ops))) = Some (s, sample_message ''x'')
    \<and> bget (st_sessions (bs_store (sample_bridge (sample_run queued_ops)))) ''tg-7'' = Some s
    \<and> s_inflight s = None \<and> s_status s \<noteq> ''cancelled'' \<and> \<not> has_live_tui_reservation (now sample_env 0) s
    \<and> s_id s = ''tg-7'' \<and> queued_chat ''tg'' s = ''7'' \<and> s_private s \<and> s_thread s = None \<and> s_queue_roles s = []"
  unfolding sample_bridge_store by (simp add: queue_defs queued_chat_def strip_prefix_def)

lemma forked_sample:
  "\<exists>s x. next_queued (now sample_env 0) ''tg'' (bs_store (sample_bridge (sample_run forked_ops))) = Some (s, sample_message ''x'')
    \<and> bget (st_sessions (bs_store (sample_bridge (sample_run forked_ops)))) ''tg-7'' = Some x
    \<and> s_inflight x = None \<and> s_status x = ''idle'' \<and> \<not> has_live_tui_reservation (now sample_env 0) x
    \<and> s_id s = ''tg-fork'' \<and> queued_chat ''tg'' s = ''7'' \<and> s_private s \<and> s_thread s = None \<and> s_queue_roles s = []"
  unfolding sample_bridge_store by (simp add: queue_defs queued_chat_def)

theorem queued_message_gets_turn_witness:
  "(\<exists>t b1 s'. bridge_round sample_channel_env [''tg''] ''tg'' default_channel ''m'' False (sample_bridge (sample_run queued_ops))
       = run_turn sample_channel_env ''tg'' t b1
     \<and> tu_session t = ''tg-7'' \<and> m_id (tu_message t) = ''x''
     \<and> bget (st_sessions (bs_store b1)) ''tg-7'' = Some s' \<and> s_inflight s' = Some (tu_message t))
   \<and> (\<exists>t b1 s. bridge_round sample_channel_env [''tg''] ''tg'' default_channel ''m'' False (sample_bridge (sample_run forked_ops))
       = run_turn sample_channel_env ''tg'' t b1
     \<and> tu_session t = ''tg-7'' \<and> m_id (tu_message t) = ''x''
     \<and> bget (st_sessions (bs_store b1)) ''tg-fork'' = Some s \<and> hd (s_queued s) = sample_message ''x'')"
proof -
  have env: "be_store sample_channel_env k = sample_env" "fst (save_store sample_env st d) = Inr ()" "now sample_env n = 100" for k st d n
    by (simp_all add: sample_channel_env_def sample_env_def)
  have reach: "reachable (bs_world (sample_bridge (sample_run ops)))" for ops by (simp add: sample_bridge_store reachable_sample)
  have idle: "pending_delivery [''tg''] (bs_store (sample_bridge (sample_run queued_ops))) = None"
    "pending_delivery [''tg''] (bs_store (sample_bridge (sample_run forked_ops))) = None"
    by (simp_all add: pending_delivery_def sample_bridge_store queue_defs)
  obtain s where s: "next_queued (now sample_env 0) ''tg'' (bs_store (sample_bridge (sample_run queued_ops))) = Some (s, sample_message ''x'')"
      "bget (st_sessions (bs_store (sample_bridge (sample_run queued_ops)))) ''tg-7'' = Some s" "s_inflight s = None" "s_status s \<noteq> ''cancelled''"
      "\<not> has_live_tui_reservation (now sample_env 0) s" "s_id s = ''tg-7''" "queued_chat ''tg'' s = ''7''" "s_private s" "s_thread s = None" "s_queue_roles s = []"
    using queued_sample by (elim exE conjE) (rule that)
  obtain f x where f: "next_queued (now sample_env 0) ''tg'' (bs_store (sample_bridge (sample_run forked_ops))) = Some (f, sample_message ''x'')"
      "bget (st_sessions (bs_store (sample_bridge (sample_run forked_ops)))) ''tg-7'' = Some x" "s_inflight x = None" "s_status x = ''idle''"
      "\<not> has_live_tui_reservation (now sample_env 0) x" "s_id f = ''tg-fork''" "queued_chat ''tg'' f = ''7''" "s_private f" "s_thread f = None" "s_queue_roles f = []"
    using forked_sample by (elim exE conjE) (rule that)
  note qs = sample_queued [OF s(7-10)] and qf = sample_queued [OF f(7-10)]
  have "\<exists>t b1 s'. bridge_round sample_channel_env [''tg''] ''tg'' default_channel ''m'' False (sample_bridge (sample_run queued_ops))
        = run_turn sample_channel_env ''tg'' t b1
      \<and> tu_session t = ''tg-7'' \<and> m_id (tu_message t) = m_id (sample_message ''x'')
      \<and> bget (st_sessions (bs_store b1)) ''tg-7'' = Some s' \<and> s_inflight s' = Some (tu_message t)
      \<and> (if ''tg-7'' = s_id s then s_queued s' = tl (s_queued s)
         else bget (st_sessions (bs_store b1)) (s_id s) = Some s \<and> hd (s_queued s) = sample_message ''x'')"
    by (rule queued_message_gets_turn [OF reach env(1,2) idle(1) s(1) qs(3) [symmetric] s(2-5) disjI1 [OF s(6) [symmetric]] qs(1,2)])
      (simp add: s(8))
  moreover have "\<exists>t b1 s'. bridge_round sample_channel_env [''tg''] ''tg'' default_channel ''m'' False (sample_bridge (sample_run forked_ops))
        = run_turn sample_channel_env ''tg'' t b1
      \<and> tu_session t = ''tg-7'' \<and> m_id (tu_message t) = m_id (sample_message ''x'')
      \<and> bget (st_sessions (bs_store b1)) ''tg-7'' = Some s' \<and> s_inflight s' = Some (tu_message t)
      \<and> (if ''tg-7'' = s_id f then s_queued s' = tl (s_queued f)
         else bget (st_sessions (bs_store b1)) (s_id f) = Some f \<and> hd (s_queued f) = sample_message ''x'')"
    by (rule queued_message_gets_turn [OF reach env(1,2) idle(2) f(1) qf(3) [symmetric] f(2,3) _ f(5) _ qf(1,2)])
      (simp_all add: f(4,8))
  moreover have "m_id (sample_message ''x'') = ''x''" "''tg-7'' \<noteq> ''tg-fork''" by (simp_all add: sample_message_def)
  ultimately show ?thesis unfolding f(6) by (simp only: if_False) blast
qed

section \<open>Messages that arrive during a turn\<close>

lemma park_result:
  assumes "park env channel policy model event m rs name chat thread b = (r, b')"
  shows "same_inbox (bs_store b) (bs_store b')
    \<and> (r = Inr Queued \<longrightarrow> kept name (m_id m) (bs_store b'))
    \<and> (r = Inr Rejected \<longrightarrow> \<not> is_private event \<and> cc_worktree policy)"
proof -
  obtain isolated p where iso: "(if bget (st_sessions (bs_store b)) name = None \<and> \<not> is_private event \<and> cc_worktree policy
      then be_isolate env name (bs_plugin b) else (Inr None, bs_plugin b)) = (isolated, p)" by (metis surj_pair)
  have reject: "\<not> is_ok isolated \<Longrightarrow> \<not> is_private event \<and> cc_worktree policy"
    using iso by (auto split: if_splits)
  obtain r1 b1 where e: "do_store (ensure (be_store env 1) name model) (b\<lparr>bs_plugin := p\<rparr>) = (r1, b1)" by (metis surj_pair)
  obtain r2 b2 where o: "do_store (route (be_store env 2) name channel chat thread (is_private event)) b1 = (r2, b2)" by (metis surj_pair)
  obtain r3 b3 where q: "do_store (queue_with_roles (be_store env 3) name m rs) b2 = (r3, b3)" by (metis surj_pair)
  have i1: "same_inbox (bs_store b) (bs_store b1)"
    using do_store_inbox [OF e] by (simp add: inbox_ops [of "bs_world b"] bs_store_def)
  have i2: "same_inbox (bs_store b1) (bs_store b2)"
    by (rule do_store_inbox [OF o]) (simp add: inbox_ops bs_store_def)
  have i3: "same_inbox (bs_store b2) (bs_store b3)"
    by (rule do_store_inbox [OF q]) (simp add: inbox_ops bs_store_def)
  note run = assms [unfolded park_def Let_def iso prod.case e o q]
  show ?thesis
  proof (cases "bget (st_sessions (bs_store b)) name = None \<and> LIMIT \<le> length (st_sessions (bs_store b)) \<or> \<not> is_ok isolated")
    case True
    then show ?thesis using run reject by (auto split: if_splits)
  next
    case False
    show ?thesis
    proof (cases r1)
      case (Inl er)
      then show ?thesis using run False i1 by (auto split: if_splits)
    next
      case ok1: (Inr u1)
      show ?thesis
      proof (cases r2)
        case (Inl er)
        then show ?thesis using run False ok1 same_inbox_trans [OF i1 i2] by auto
      next
        case ok2: (Inr u2)
        note i = same_inbox_trans [OF same_inbox_trans [OF i1 i2] i3]
        show ?thesis
        proof (cases r3)
          case (Inl er)
          then show ?thesis using run False ok1 ok2 i by (auto split: if_splits)
        next
          case (Inr u3)
          then have "kept name (m_id m) (bs_store b3)"
            using queued_kept do_store_Inr [of "queue_with_roles (be_store env 3) name m rs" b2 "()" b3] q
            by (simp add: bs_store_def)
          then show ?thesis using run False ok1 ok2 Inr i by auto
        qed
      qed
    qed
  qed
qed

lemma settled_work:
  assumes "settled_event env channel i event retained b = (r, b')"
  shows "same_work (bs_store b) (bs_store b')
    \<and> (\<forall>go. r = Inr go \<longrightarrow> go \<and> committed_to (digest (be_store env 0)) channel i retained (bs_store b) (bs_store b'))"
proof -
  obtain a b1 where a: "commit_event_inner env channel i (next_offset event) (as_word (json_index event ''gateway_sequence'')) retained b = (a, b1)"
    by (metis surj_pair)
  show ?thesis using commit_inner_work [OF a] assms a by (auto simp: settled_event_def split: sum.splits)
qed

text \<open>C15: A message that arrives while a turn waits for an approval is not lost. When the events after it may be handled,
  it is committed and its session has it, or it is among the deferred events, unless it was screened out, had no content or
  no valid session, or no isolated workspace could be made for it. When they may not, the seen events, the offsets and the deferred
  events are those from before, so that the message comes again.\<close>

theorem message_during_turn_kept:
  assumes "queue_during_turn env channel policy model event b = (Inr go, b')"
    and "event_id (json_index event ''id'') = Some i"
  shows "if go
    then known (digest (be_store env 0)) (bs_store b') channel i
      \<and> (\<forall>chat thread. screen_during_turn env policy channel i event (bs_store b) = Some (chat, thread)
           \<and> event_content (be_json_len env) (be_content_of env) event \<noteq> []
           \<and> valid (session_id (digest (be_store env 0)) channel chat thread)
           \<and> (is_private event \<or> \<not> cc_worktree policy)
         \<longrightarrow> kept (session_id (digest (be_store env 0)) channel chat thread) i (bs_store b')
           \<or> has_deferred_event (bs_store b') channel i)
    else st_seen (bs_store b') = st_seen (bs_store b) \<and> st_offsets (bs_store b') = st_offsets (bs_store b)
      \<and> st_deferred (bs_store b') = st_deferred (bs_store b)"
proof -
  have settled: ?thesis
    if "settled_event env channel i event False b1 = (Inr go, b')"
      and "\<And>chat thread. screen_during_turn env policy channel i event (bs_store b) = Some (chat, thread)
           \<and> event_content (be_json_len env) (be_content_of env) event \<noteq> []
           \<and> valid (session_id (digest (be_store env 0)) channel chat thread)
           \<and> (is_private event \<or> \<not> cc_worktree policy) \<Longrightarrow> kept (session_id (digest (be_store env 0)) channel chat thread) i (bs_store b1)" for b1
    using settled_work [OF that(1)] that(2) by (auto simp: committed_to_def same_work_def kept_def)
  show ?thesis
  proof (cases "screen_during_turn env policy channel i event (bs_store b)")
    case None
    then show ?thesis using assms settled [of b] by (simp add: queue_during_turn_def)
  next
    case (Some ct)
    obtain chat thread where ct: "ct = (chat, thread)" by (cases ct)
    let ?name = "session_id (digest (be_store env 0)) channel chat thread"
    let ?content = "event_content (be_json_len env) (be_content_of env) event"
    let ?m = "user_message i ?name event ?content"
    have mi: "m_id ?m = i" by (simp add: user_message_def)
    show ?thesis
    proof (cases "?content = [] \<or> \<not> valid ?name")
      case True
      then show ?thesis using assms settled [of b] Some ct by (auto simp: queue_during_turn_def Let_def)
    next
      case False
      obtain r b1 where p: "park env channel policy model event ?m (message_roles event) ?name chat thread b = (r, b1)" by (metis surj_pair)
      note pr = park_result [OF p, unfolded mi]
      note run = assms(1) [unfolded queue_during_turn_def assms(2) option.case Some ct prod.case Let_def p]
      consider (bad) e where "r = Inl e" | (full) "r = Inr Full" | (other) x where "r = Inr x" "x \<noteq> Full" by (cases r) auto
      then show ?thesis
      proof cases
        case bad
        then show ?thesis using run False by simp
      next
        case other
        then have "settled_event env channel i event False b1 = (Inr go, b')" using run False by (cases x) simp_all
        moreover have "x = Queued \<or> x = Rejected" using other(2) by (cases x) simp_all
        ultimately show ?thesis using settled [of b1] pr other(1) Some ct by auto
      next
        case full
        show ?thesis
        proof (cases "has_deferred_event (bs_store b) channel i")
          case True
          then show ?thesis using run False full pr by (simp add: same_inbox_def)
        next
          case nret: False
          obtain r2 b2 where d: "do_store (defer_event (be_store env 5) channel event) b1 = (r2, b2)" by (metis surj_pair)
          note keeps = defer_keeps [OF d assms(2)]
          show ?thesis
          proof (cases r2)
            case (Inl e)
            then show ?thesis using run False full nret d keeps pr by (auto simp: same_inbox_def split: if_splits)
          next
            case (Inr u)
            then have s: "settled_event env channel i event True b2 = (Inr go, b')" using run False full nret d by simp
            show ?thesis using settled_work [OF s] keeps Inr by (auto simp: committed_to_def has_deferred_event_def)
          qed
        qed
      qed
    qed
  qed
qed

theorem message_during_turn_kept_witness:
  "kept ''tg-7'' ''5'' (bs_store (snd (queue_during_turn sample_channel_env ''tg'' default_channel ''m'' sample_event (sample_bridge (sample_run [])))))"
proof -
  let ?b = "sample_bridge (sample_run [])"
  obtain b' where q: "queue_during_turn sample_channel_env ''tg'' default_channel ''m'' sample_event ?b = (Inr True, b')
      \<and> \<not> has_deferred_event (bs_store b') ''tg'' ''5''"
    by (simp add: queue_during_turn_def screen_during_turn_def park_def settled_event_def queue_with_roles_def enqueued_def
        channel_defs run_defs check_defs show_five)
  have i: "event_id (json_index sample_event ''id'') = Some ''5''" by (simp add: sample_event_def event_id_def show_five)
  have scr: "screen_during_turn sample_channel_env default_channel ''tg'' ''5'' sample_event (bs_store ?b) = Some (''7'', None)"
    "event_content (be_json_len sample_channel_env) (be_content_of sample_channel_env) sample_event \<noteq> []"
    "session_id (digest (be_store sample_channel_env 0)) ''tg'' ''7'' None = ''tg-7''" "valid ''tg-7''" "is_private sample_event"
    by (simp_all add: screen_during_turn_def channel_defs run_defs check_defs show_five)
  show ?thesis using message_during_turn_kept [OF conjunct1 [OF q] i] scr q by auto
qed

section \<open>Approvals\<close>

text \<open>A turn waits for the approvals of others. The wait of a turn ends well only when no approval at all is
  pending: while the gate holds a request of another chat, whose id is not that of this turn's request, a round of the wait either fails or goes on,
  also when its own request has been answered.\<close>

theorem wait_depends_on_other_approvals:
  assumes "bget (g_pending (bs_gate b)) j = Some p"
    and "waiting_round env channel policy model approvals approve b = (r, b')"
  shows "r \<noteq> Inr True"
proof -
  have "g_pending (bs_gate b) \<noteq> []" using assms(1) by auto
  then show ?thesis using assms(2)
    by (auto simp: waiting_round_def has_pending_def approval_failed_def split: prod.splits sum.splits option.splits)
qed

theorem wait_depends_on_other_approvals_witness:
  "fst (waiting_round sample_channel_env ''tg'' default_channel ''m'' False ''mine'' (sample_bridge (sample_run []))) \<noteq> Inr True"
proof -
  have "bget (g_pending (bs_gate (sample_bridge (sample_run [])))) ''old'' = Some \<lparr>pe_target = sample_target, pe_expires = 900\<rparr>"
    by (simp add: sample_bridge_def sample_gate_def)
  from wait_depends_on_other_approvals [OF this prod.collapse [symmetric]] show ?thesis .
qed

end
