(* ===== verification/Tool_Schema.thy ===== *)
theory Tool_Schema
  imports Channel_Requests
begin

text \<open>
  The tools a turn may call and the schemas of their arguments (\<open>krabb-runtime/src/lib.rs\<close>):
  \<open>validate_tool_spec\<close>, \<open>validate_schema_definition\<close>, \<open>validate_schema_value\<close> and the registry. \<open>has_type\<close>
  is what a schema means; the theorems relate the checks to it.
\<close>

section \<open>Checks in sequence\<close>

definition refuse :: "bool \<Rightarrow> 'e \<Rightarrow> 'e + unit" where
  "refuse b e = (if b then Inl e else Inr ())"

definition then_check :: "'e + unit \<Rightarrow> 'e + unit \<Rightarrow> 'e + unit" where
  "then_check a b = (case a of Inl e \<Rightarrow> Inl e | Inr u \<Rightarrow> b)"

fun check_each :: "('a \<Rightarrow> 'e + unit) \<Rightarrow> 'a list \<Rightarrow> 'e + unit" where
  "check_each f [] = Inr ()"
| "check_each f (x # xs) = then_check (f x) (check_each f xs)"

lemma check_each_cong [fundef_cong]:
  "xs = ys \<Longrightarrow> (\<And>x. x \<in> set ys \<Longrightarrow> f x = g x) \<Longrightarrow> check_each f xs = check_each g ys"
  by (induction ys arbitrary: xs) auto

lemma refuse_iff [simp]: "refuse b e = Inr u \<longleftrightarrow> \<not> b" "refuse b e = Inl e' \<longleftrightarrow> b \<and> e = e'"
  by (auto simp: refuse_def)

lemma then_check_ok [simp]: "then_check a b = Inr u \<longleftrightarrow> a = Inr () \<and> b = Inr ()"
  by (auto simp: then_check_def split: sum.splits)

lemma then_check_error: "then_check a b = Inl e \<longleftrightarrow> a = Inl e \<or> a = Inr () \<and> b = Inl e"
  by (auto simp: then_check_def split: sum.splits)

lemma check_each_ok [simp]: "check_each f xs = Inr u \<longleftrightarrow> (\<forall>x \<in> set xs. f x = Inr ())"
  by (induction xs) auto

lemma check_each_error: "check_each f xs = Inl e \<Longrightarrow> \<exists>x \<in> set xs. f x = Inl e"
  by (induction xs) (auto simp: then_check_error)

lemma if_error [simp]:
  "(if b then Inl e else c) = Inr u \<longleftrightarrow> \<not> b \<and> c = Inr u"
  "(case x of None \<Rightarrow> Inr () | Some y \<Rightarrow> f y) = Inr u \<longleftrightarrow> (\<forall>y. x = Some y \<longrightarrow> f y = Inr ())"
  "(case x of None \<Rightarrow> Inl e | Some y \<Rightarrow> f y) = Inr u \<longleftrightarrow> (\<exists>y. x = Some y \<and> f y = Inr u)"
  by (auto split: option.split)

section \<open>Numbers as \<open>f64\<close>\<close>

text \<open>\<open>as_f64\<close> in units of \<open>2 ^ -1074\<close>, the least positive \<open>f64\<close>: every finite value is an integer number
  of them. An integer is rounded to 53 bits, ties to even.\<close>

fun bit_length :: "nat \<Rightarrow> nat" where
  "bit_length n = (if n = 0 then 0 else Suc (bit_length (n div 2)))"

declare bit_length.simps [simp del]

definition nearest_f64 :: "int \<Rightarrow> int" where
  "nearest_f64 i =
     (let n = nat \<bar>i\<bar>; e = bit_length n - 53; q = n div 2 ^ e; r = n mod 2 ^ e;
          q' = (if 2 ^ e < 2 * r \<or> 2 * r = 2 ^ e \<and> odd q then q + 1 else q)
      in sgn i * int (q' * 2 ^ e))"

definition f64_units :: "64 word \<Rightarrow> int" where
  "f64_units w =
     (let e = unat w div 2 ^ 52 mod 2 ^ 11; m = unat w mod 2 ^ 52;
          a = (if e = 0 then m else (2 ^ 52 + m) * 2 ^ (e - 1))
      in if unat w < 2 ^ 63 then int a else - int a)"

definition one_f64 :: int where "one_f64 = 2 ^ 1074"

fun as_f64 :: "json \<Rightarrow> int option" where
  "as_f64 (JInt i) = Some (nearest_f64 i * one_f64)"
| "as_f64 (JFloat w) = Some (f64_units w)"
| "as_f64 _ = None"

section \<open>Definitions of tools\<close>

definition is_object :: "json \<Rightarrow> bool" where
  "is_object v \<longleftrightarrow> as_object v \<noteq> None"

text \<open>\<open>properties.get(key)\<close> and the named checks of the two validators.\<close>

definition property :: "json \<Rightarrow> string \<Rightarrow> json option" where
  "property schema k = json_get (json_index schema ''properties'') k"

definition schema_kinds :: "string list" where
  "schema_kinds = [''object'', ''array'', ''string'', ''integer'', ''number'', ''boolean'']"

definition no_type :: string where
  "no_type = ''Tool schema must declare a type.''"

definition required_ok :: "json \<Rightarrow> string + unit" where
  "required_ok schema =
     (case json_get schema ''required'' of
        None \<Rightarrow> Inr ()
      | Some r \<Rightarrow>
          (case as_array r of
             None \<Rightarrow> Inl ''Tool schema required must be an array.''
           | Some items \<Rightarrow> refuse (128 < length items \<or> list_ex (\<lambda>i. as_str i = None) items)
               ''Tool schema has invalid required fields.''))"

function validate_schema_definition :: "json \<Rightarrow> nat \<Rightarrow> string + unit" where
  "validate_schema_definition schema depth =
     (if 8 < depth \<or> \<not> is_object schema then Inl ''Tool schema is too deep or malformed.''
      else
        (case as_str (json_index schema ''type'') of
           None \<Rightarrow> Inl no_type
         | Some kind \<Rightarrow>
             then_check (refuse (kind \<notin> set schema_kinds) ''Tool schema declares an unsupported type.'')
            (then_check
               (case json_get schema ''properties'' of
                  None \<Rightarrow> Inr ()
                | Some ps \<Rightarrow>
                    (case as_object ps of
                       None \<Rightarrow> Inl ''Tool schema properties must be an object.''
                     | Some m \<Rightarrow>
                         then_check (refuse (128 < length m) ''Tool schema declares too many properties.'')
                           (check_each (\<lambda>p. validate_schema_definition p (depth + 1)) (map snd m))))
            (then_check
               (case json_get schema ''items'' of
                  None \<Rightarrow> Inr ()
                | Some items \<Rightarrow> validate_schema_definition items (depth + 1))
            (then_check (required_ok schema)
               (refuse (case json_get schema ''additionalProperties'' of None \<Rightarrow> False | Some v \<Rightarrow> as_bool v = None)
                  ''Tool schema additionalProperties must be boolean.''))))))"
  by pat_completeness auto
termination
  by (relation "measure (\<lambda>(s, d). 9 - d)") auto

declare validate_schema_definition.simps [simp del]

text \<open>\<open>json_len\<close> is the length of the package's serialisation of a value.\<close>

definition tool_name_byte :: "char \<Rightarrow> bool" where
  "tool_name_byte c \<longleftrightarrow> is_ascii_alphanumeric c \<or> c = CHR ''_'' \<or> c = CHR ''-''"

definition validate_tool_spec :: "(json \<Rightarrow> nat) \<Rightarrow> tool_spec \<Rightarrow> string + unit" where
  "validate_tool_spec json_len spec =
     refuse (ts_name spec = [] \<or> 128 < length (ts_name spec) \<or> \<not> list_all tool_name_byte (ts_name spec)
         \<or> \<not> is_object (ts_schema spec)
         \<or> json_index (ts_schema spec) ''type'' \<noteq> JStr ''object''
         \<or> \<not> is_object (json_index (ts_schema spec) ''properties'')
         \<or> 64 * 1024 < json_len (ts_schema spec)
         \<or> (case ts_description spec of None \<Rightarrow> False | Some d \<Rightarrow> 4096 < length d)
         \<or> validate_schema_definition (ts_schema spec) 0 \<noteq> Inr ())
       (''Tool `'' @ ts_name spec @ ''` has an invalid definition.'')"

section \<open>Arguments\<close>

definition const_ok :: "json \<Rightarrow> json \<Rightarrow> bool" where
  "const_ok schema v \<longleftrightarrow> (case json_get schema ''const'' of None \<Rightarrow> True | Some c \<Rightarrow> v = c)"

definition enum_ok :: "json \<Rightarrow> json \<Rightarrow> bool" where
  "enum_ok schema v \<longleftrightarrow>
     (case json_get schema ''enum'' of
        None \<Rightarrow> True
      | Some cs \<Rightarrow> (case as_array cs of None \<Rightarrow> False | Some choices \<Rightarrow> v \<in> set choices))"

definition kind_ok :: "string \<Rightarrow> json \<Rightarrow> bool" where
  "kind_ok kind v \<longleftrightarrow>
     (if kind = ''object'' then is_object v
      else if kind = ''array'' then as_array v \<noteq> None
      else if kind = ''string'' then as_str v \<noteq> None
      else if kind = ''integer'' then as_i64 v \<noteq> None \<or> as_u64 v \<noteq> None
      else if kind = ''number'' then (case v of JInt i \<Rightarrow> True | JFloat w \<Rightarrow> True | _ \<Rightarrow> False)
      else if kind = ''boolean'' then as_bool v \<noteq> None
      else False)"

definition required_keys :: "json \<Rightarrow> string list" where
  "required_keys schema =
     (case as_array (json_index schema ''required'') of
        None \<Rightarrow> []
      | Some r \<Rightarrow> List.map_filter as_str r)"

definition undeclared :: "json \<Rightarrow> (string, json) bmap \<Rightarrow> bool" where
  "undeclared schema m \<longleftrightarrow>
     json_index schema ''additionalProperties'' = JBool False
     \<and> (case as_object (json_index schema ''properties'') of
          None \<Rightarrow> False
        | Some ps \<Rightarrow> list_ex (\<lambda>k. bget ps k = None) (bkeys m))"

definition size_outside :: "json \<Rightarrow> string \<Rightarrow> string \<Rightarrow> nat \<Rightarrow> bool" where
  "size_outside schema low high n \<longleftrightarrow>
     (case as_u64 (json_index schema low) of None \<Rightarrow> False | Some l \<Rightarrow> n < l)
     \<or> (case as_u64 (json_index schema high) of None \<Rightarrow> False | Some h \<Rightarrow> h < n)"

definition range_outside :: "json \<Rightarrow> int \<Rightarrow> bool" where
  "range_outside schema x \<longleftrightarrow>
     (case as_f64 (json_index schema ''minimum'') of None \<Rightarrow> False | Some l \<Rightarrow> x < l)
     \<or> (case as_f64 (json_index schema ''maximum'') of None \<Rightarrow> False | Some h \<Rightarrow> h < x)"

definition too_deep :: string where
  "too_deep = ''Tool arguments exceed the schema depth limit.''"

function validate_schema_value :: "json \<Rightarrow> json \<Rightarrow> nat \<Rightarrow> string + unit" where
  "validate_schema_value schema v depth =
     (if 8 < depth then Inl too_deep
      else
        then_check (refuse (\<not> const_ok schema v) ''Tool arguments do not match the declared constant.'')
       (then_check (refuse (\<not> enum_ok schema v) ''Tool arguments do not match an allowed value.'')
          (case as_str (json_index schema ''type'') of
             None \<Rightarrow> Inl no_type
           | Some kind \<Rightarrow>
               then_check (refuse (\<not> kind_ok kind v) (''Tool argument must be '' @ kind @ ''.''))
              (then_check
                 (case as_object v of
                    None \<Rightarrow> Inr ()
                  | Some m \<Rightarrow>
                      then_check
                        (check_each (\<lambda>k. refuse (bget m k = None) (''Tool argument `'' @ k @ ''` is required.''))
                           (required_keys schema))
                     (then_check (refuse (undeclared schema m) ''Tool arguments contain an undeclared property.'')
                        (check_each
                           (\<lambda>(k, x). case property schema k of
                              None \<Rightarrow> Inr ()
                            | Some p \<Rightarrow> validate_schema_value p x (depth + 1)) m)))
              (then_check
                 (case as_array v of
                    None \<Rightarrow> Inr ()
                  | Some xs \<Rightarrow>
                      then_check
                        (case json_get schema ''items'' of
                           None \<Rightarrow> Inr ()
                         | Some items \<Rightarrow> check_each (\<lambda>x. validate_schema_value items x (depth + 1)) xs)
                        (refuse (size_outside schema ''minItems'' ''maxItems'' (length xs))
                           ''Tool array argument is outside its allowed size.''))
              (then_check
                 (case as_str v of
                    None \<Rightarrow> Inr ()
                  | Some s \<Rightarrow> refuse (size_outside schema ''minLength'' ''maxLength'' (length (chars s)))
                      ''Tool text argument is outside its allowed length.'')
                 (case as_f64 v of
                    None \<Rightarrow> Inr ()
                  | Some x \<Rightarrow> refuse (range_outside schema x)
                      ''Tool numeric argument is outside its allowed range.'')))))))"
  by pat_completeness auto
termination
  by (relation "measure (\<lambda>(s, v, d). 9 - d)") auto

declare validate_schema_value.simps [simp del]

section \<open>The registry\<close>

record tool_registry =
  tg_specs :: "tool_spec list"
  tg_owners :: "(string, string) bmap"

definition empty_registry :: tool_registry where
  "empty_registry = \<lparr>tg_specs = [], tg_owners = []\<rparr>"

definition validate_registered_args :: "tool_registry \<Rightarrow> string \<Rightarrow> json \<Rightarrow> string + unit" where
  "validate_registered_args reg name args =
     (case find (\<lambda>s. ts_name s = name) (tg_specs reg) of
        None \<Rightarrow> Inr ()
      | Some spec \<Rightarrow>
          validate_schema_value (ts_schema spec)
            (case args of JObj m \<Rightarrow> JObj (bremove ''approve'' m) | _ \<Rightarrow> args) 0)"

section \<open>What a schema means\<close>

text \<open>The values of a schema, without depths, orders of checks or messages.\<close>

definition schema_kind :: "json \<Rightarrow> string option" where
  "schema_kind schema = as_str (json_index schema ''type'')"

definition listed_value :: "json \<Rightarrow> json \<Rightarrow> bool" where
  "listed_value schema v \<longleftrightarrow> const_ok schema v \<and> enum_ok schema v"

inductive has_type :: "json \<Rightarrow> json \<Rightarrow> bool" where
  object: "has_type s (JObj m)"
    if "schema_kind s = Some ''object''" and "listed_value s (JObj m)"
      and "\<forall>k \<in> set (required_keys s). bget m k \<noteq> None" and "\<not> undeclared s m"
      and "\<forall>k x p. (k, x) \<in> set m \<and> property s k = Some p \<longrightarrow> has_type p x"
| array: "has_type s (JArr xs)"
    if "schema_kind s = Some ''array''" and "listed_value s (JArr xs)"
      and "\<forall>x i. x \<in> set xs \<and> json_get s ''items'' = Some i \<longrightarrow> has_type i x"
      and "\<not> size_outside s ''minItems'' ''maxItems'' (length xs)"
| string: "has_type s (JStr t)"
    if "schema_kind s = Some ''string''" and "listed_value s (JStr t)"
      and "\<not> size_outside s ''minLength'' ''maxLength'' (length (chars t))"
| integer: "has_type s (JInt i)"
    if "schema_kind s = Some ''number'' \<or> schema_kind s = Some ''integer'' \<and> - (2 ^ 63) \<le> i \<and> i < 2 ^ 64"
      and "listed_value s (JInt i)" and "\<not> range_outside s (nearest_f64 i * one_f64)"
| float: "has_type s (JFloat w)"
    if "schema_kind s = Some ''number''" and "listed_value s (JFloat w)" and "\<not> range_outside s (f64_units w)"
| boolean: "has_type s (JBool b)"
    if "schema_kind s = Some ''boolean''" and "listed_value s (JBool b)"

inductive_simps has_type_simps:
  "has_type s JNull" "has_type s (JBool b)" "has_type s (JInt i)" "has_type s (JFloat w)"
  "has_type s (JStr t)" "has_type s (JArr xs)" "has_type s (JObj m)"

lemma definition_parts:
  assumes "validate_schema_definition s d = Inr ()"
  shows "d \<le> 8" and "\<exists>k \<in> set schema_kinds. schema_kind s = Some k"
    and "property s k = Some p \<Longrightarrow> validate_schema_definition p (d + 1) = Inr ()"
    and "json_get s ''items'' = Some i \<Longrightarrow> validate_schema_definition i (d + 1) = Inr ()"
proof -
  note a = assms [unfolded validate_schema_definition.simps [of s d]]
  show "d \<le> 8" using a by (auto split: if_splits)
  show "\<exists>k \<in> set schema_kinds. schema_kind s = Some k"
    using a by (auto simp: schema_kind_def split: if_splits option.splits)
  show "validate_schema_definition i (d + 1) = Inr ()" if "json_get s ''items'' = Some i"
    using a that by (auto split: if_splits option.splits)
  show "validate_schema_definition p (d + 1) = Inr ()" if p: "property s k = Some p"
  proof -
    obtain ps m where "json_get s ''properties'' = Some ps" and m: "as_object ps = Some m" "(k, p) \<in> set m"
      using p by (cases s; cases "json_index s ''properties''") (auto simp: property_def dest: map_of_SomeD split: option.splits)
    with a have "\<forall>q \<in> snd ` set m. validate_schema_definition q (d + 1) = Inr ()"
      by (auto split: if_splits option.splits)
    with m(2) show ?thesis by force
  qed
qed

lemma validate_value_ok:
  "validate_schema_value s v d = Inr () \<longleftrightarrow>
     d \<le> 8 \<and> listed_value s v \<and> (\<exists>k. schema_kind s = Some k \<and> kind_ok k v)
     \<and> (\<forall>m. as_object v = Some m \<longrightarrow> (\<forall>k \<in> set (required_keys s). bget m k \<noteq> None) \<and> \<not> undeclared s m
          \<and> (\<forall>k x p. (k, x) \<in> set m \<and> property s k = Some p \<longrightarrow> validate_schema_value p x (d + 1) = Inr ()))
     \<and> (\<forall>xs. as_array v = Some xs \<longrightarrow>
          (\<forall>x i. x \<in> set xs \<and> json_get s ''items'' = Some i \<longrightarrow> validate_schema_value i x (d + 1) = Inr ())
          \<and> \<not> size_outside s ''minItems'' ''maxItems'' (length xs))
     \<and> (\<forall>t. as_str v = Some t \<longrightarrow> \<not> size_outside s ''minLength'' ''maxLength'' (length (chars t)))
     \<and> (\<forall>x. as_f64 v = Some x \<longrightarrow> \<not> range_outside s x)"
  unfolding validate_schema_value.simps [of s v d] listed_value_def schema_kind_def
  by (cases "as_str (json_index s ''type'')")
    (simp add: not_less Ball_def, (simp add: not_less Ball_def; intro conj_cong refl; blast))

lemma value_cases:
  assumes "d \<le> 8" and "schema_kind s = Some k"
  shows "validate_schema_value s JNull d \<noteq> Inr u"
    and "validate_schema_value s (JBool b) d = Inr u \<longleftrightarrow> has_type s (JBool b)"
    and "validate_schema_value s (JInt n) d = Inr u \<longleftrightarrow> has_type s (JInt n)"
    and "validate_schema_value s (JFloat w) d = Inr u \<longleftrightarrow> has_type s (JFloat w)"
    and "validate_schema_value s (JStr t) d = Inr u \<longleftrightarrow> has_type s (JStr t)"
  by (simp add: validate_value_ok [of s JNull d] assms kind_ok_def is_object_def,
      simp add: validate_value_ok [of s "JBool b" d] assms kind_ok_def is_object_def has_type_simps,
      (simp add: validate_value_ok [of s "JInt n" d] assms kind_ok_def is_object_def has_type_simps, linarith?),
      simp add: validate_value_ok [of s "JFloat w" d] assms kind_ok_def is_object_def has_type_simps,
      simp add: validate_value_ok [of s "JStr t" d] assms kind_ok_def is_object_def has_type_simps)

text \<open>On a schema that was validated, the checks accept the values of its type and no others, and
  neither the depth limit nor a missing type can stop them.\<close>

lemma validate_value_has_type:
  "validate_schema_definition s d = Inr () \<Longrightarrow> validate_schema_value s v d = Inr () \<longleftrightarrow> has_type s v"
proof (induction s v d rule: validate_schema_value.induct)
  case (1 s v d)
  note parts = definition_parts [OF 1(3)]
  obtain kind where kind: "schema_kind s = Some kind" using parts(2) by blast
  have lim: "\<not> 8 < d" using parts(1) by simp
  have sub: "validate_schema_value p x (d + 1) = Inr () \<longleftrightarrow> has_type p x"
    if "as_object v = Some m" "(k, x) \<in> set m" "property s k = Some p" for m k x p
    by (rule 1(1) [OF lim kind [unfolded schema_kind_def] that(1,2) refl that(3) parts(3) [OF that(3)]])
  have items: "validate_schema_value i x (d + 1) = Inr () \<longleftrightarrow> has_type i x"
    if "as_array v = Some xs" "x \<in> set xs" "json_get s ''items'' = Some i" for xs x i
    by (rule 1(2) [OF lim kind [unfolded schema_kind_def] that(1,3,2) parts(4) [OF that(3)]])
  show ?case
  proof (cases v)
    case (JObj m)
    have "(\<forall>k x p. (k, x) \<in> set m \<and> property s k = Some p \<longrightarrow> validate_schema_value p x (d + 1) = Inr ())
        \<longleftrightarrow> (\<forall>k x p. (k, x) \<in> set m \<and> property s k = Some p \<longrightarrow> has_type p x)"
      using sub [of m] by (auto simp: JObj)
    then show ?thesis using parts(1)
      by (simp add: JObj validate_value_ok [of s "JObj m" d] has_type_simps kind_ok_def is_object_def kind)
  next
    case (JArr xs)
    have "(\<forall>x i. x \<in> set xs \<and> json_get s ''items'' = Some i \<longrightarrow> validate_schema_value i x (d + 1) = Inr ())
        \<longleftrightarrow> (\<forall>x i. x \<in> set xs \<and> json_get s ''items'' = Some i \<longrightarrow> has_type i x)"
      using items [of xs] by (auto simp: JArr)
    then show ?thesis using parts(1)
      by (simp add: JArr validate_value_ok [of s "JArr xs" d] has_type_simps kind_ok_def is_object_def kind)
  qed (simp_all add: value_cases [OF parts(1) kind] has_type_simps(1))
qed

text \<open>A failed check is the schema's own, or comes from the value of a property or of an item.\<close>

definition static_error :: "string \<Rightarrow> bool" where
  "static_error e \<longleftrightarrow> e = too_deep \<or> e = no_type"

lemma static_error_messages [simp]:
  "\<not> static_error (''Tool argument `'' @ k)" "\<not> static_error (''Tool argument must be '' @ k)"
  "\<not> static_error ''Tool arguments do not match the declared constant.''"
  "\<not> static_error ''Tool arguments do not match an allowed value.''"
  "\<not> static_error ''Tool arguments contain an undeclared property.''"
  "\<not> static_error ''Tool array argument is outside its allowed size.''"
  "\<not> static_error ''Tool text argument is outside its allowed length.''"
  "\<not> static_error ''Tool numeric argument is outside its allowed range.''"
  by (simp_all add: static_error_def too_deep_def no_type_def)

lemma no_static_refusal [simp]: "\<not> static_error m \<Longrightarrow> static_error e \<Longrightarrow> refuse b m \<noteq> Inl e"
  by auto

lemma static_error_below:
  assumes "validate_schema_value s v d = Inl e" and "static_error e" and "d \<le> 8" and "schema_kind s = Some kind"
  obtains m k x p where "as_object v = Some m" "(k, x) \<in> set m" "property s k = Some p"
      "validate_schema_value p x (d + 1) = Inl e"
    | xs x i where "as_array v = Some xs" "x \<in> set xs" "json_get s ''items'' = Some i"
      "validate_schema_value i x (d + 1) = Inl e"
proof -
  from assms(3) have lim: "\<not> 8 < d" by simp
  have no: "\<not> (\<exists>k \<in> set ks. refuse (b k) (''Tool argument `'' @ k @ t) = Inl e)" for ks b t
    using assms(2) by (metis no_static_refusal static_error_messages(1))
  have each: "check_each (\<lambda>k. refuse (b k) (''Tool argument `'' @ k @ t)) ks \<noteq> Inl e" for ks b t
    using no check_each_error [of "\<lambda>k. refuse (b k) (''Tool argument `'' @ k @ t)" ks e] by blast
  from assms(1,2) lim assms(4) each have
    "(\<exists>m. as_object v = Some m \<and> check_each (\<lambda>(k, x). case property s k of None \<Rightarrow> Inr ()
        | Some p \<Rightarrow> validate_schema_value p x (d + 1)) m = Inl e)
     \<or> (\<exists>xs i. as_array v = Some xs \<and> json_get s ''items'' = Some i
        \<and> check_each (\<lambda>x. validate_schema_value i x (d + 1)) xs = Inl e)"
    unfolding validate_schema_value.simps [of s v d] schema_kind_def
      One_nat_def add_Suc_right add_0_right
    by (simp add: then_check_error del: refuse_iff append.append_Cons split: option.splits) blast+
  then show thesis
    using that by (fastforce dest!: check_each_error split: option.splits)
qed

lemma validate_value_progress:
  "validate_schema_definition s d = Inr () \<Longrightarrow> validate_schema_value s v d = Inl e \<Longrightarrow> \<not> static_error e"
proof (induction s v d rule: validate_schema_value.induct)
  case (1 s v d)
  note parts = definition_parts [OF 1(3)]
  obtain kind where kind: "schema_kind s = Some kind" using parts(2) by blast
  have lim: "\<not> 8 < d" using parts(1) by simp
  show ?case
  proof
    assume "static_error e"
    from 1(4) this parts(1) kind show False
    proof (cases rule: static_error_below)
      case (1 m k x p)
      then show False
        using "1.IH"(1) [OF lim kind [unfolded schema_kind_def] 1(1,2) refl 1(3) parts(3) [OF 1(3)] 1(4)] \<open>static_error e\<close> by blast
    next
      case (2 xs x i)
      then show False
        using "1.IH"(2) [OF lim kind [unfolded schema_kind_def] 2(1,3,2) parts(4) [OF 2(3)] 2(4)] \<open>static_error e\<close> by blast
    qed
  qed
qed

text \<open>A value of an object type holds what its handler reads: every required key is there, and the
  value of a declared key is a value of the property.\<close>

lemma has_type_object:
  assumes "has_type s v" and "schema_kind s = Some ''object''"
  obtains m where "v = JObj m" and "\<And>k. k \<in> set (required_keys s) \<Longrightarrow> bget m k \<noteq> None"
    and "\<And>k x p. bget m k = Some x \<Longrightarrow> property s k = Some p \<Longrightarrow> has_type p x"
proof -
  have "\<exists>m. v = JObj m \<and> (\<forall>k \<in> set (required_keys s). bget m k \<noteq> None)
      \<and> (\<forall>k x p. (k, x) \<in> set m \<and> property s k = Some p \<longrightarrow> has_type p x)"
    using assms by (cases v) (simp_all add: has_type_simps)
  then obtain m where m: "v = JObj m" "\<forall>k \<in> set (required_keys s). bget m k \<noteq> None"
      "\<forall>k x p. (k, x) \<in> set m \<and> property s k = Some p \<longrightarrow> has_type p x"
    by blast
  have "has_type p x" if "bget m k = Some x" "property s k = Some p" for k x p
    using m(3) map_of_SomeD [OF that(1)] that(2) by simp
  with m(1,2) show thesis by (intro that [of m]) simp_all
qed

lemma has_type_string:
  assumes "has_type p x" and "schema_kind p = Some ''string''" shows "\<exists>t. x = JStr t"
  using assms by (cases rule: has_type.cases) auto

end
