(* ===== verification/Tool_Catalog.thy ===== *)
theory Tool_Catalog
  imports Tool_Schema Delivery_Store
begin

text \<open>
  The tools that are offered to a model (\<open>krabb-runtime/src/lib.rs\<close>): the built-in definitions of the
  workspace, memory, schedule and message tools, and \<open>tool_registry\<close>, which collects the tools of the
  plugins. A plugin is its \<open>hello\<close>; what it answers to \<open>tools/list\<close> is a parameter.
\<close>

section \<open>Plugins\<close>

type_synonym plugins = "(string, hello) bmap"

definition supports :: "hello \<Rightarrow> capability \<Rightarrow> bool" where
  "supports h c \<longleftrightarrow> c \<in> set (h_capabilities h)"

definition find_plugin :: "capability \<Rightarrow> plugins \<Rightarrow> (string \<times> hello) option" where
  "find_plugin c ps = find (\<lambda>(i, h). supports h c) ps"

section \<open>Built-in tools\<close>

definition typed :: "string \<Rightarrow> json" where
  "typed kind = jobject [(''type'', JStr kind)]"

definition object_schema :: "(string \<times> json) list \<Rightarrow> string list \<Rightarrow> json" where
  "object_schema ps required =
     jobject [(''type'', JStr ''object''), (''properties'', jobject ps), (''required'', JArr (map JStr required)),
       (''additionalProperties'', JBool False)]"

definition workspace_property :: "string \<Rightarrow> json" where
  "workspace_property key =
     (if key \<in> {''path'', ''text'', ''command'', ''url''} then typed ''string''
      else if key = ''args'' then jobject [(''type'', JStr ''array''), (''items'', typed ''string'')]
      else jobject [])"

definition tools :: "bool \<Rightarrow> tool_spec list" where
  "tools shell_enabled =
     map (\<lambda>(name, description, required).
            \<lparr>ts_name = name, ts_description = Some description,
             ts_schema = object_schema (map (\<lambda>k. (k, workspace_property k)) required) required\<rparr>)
       ([(''read'', ''Read a text file.'', [''path'']),
         (''write'', ''Write a text file with approval. Paths must remain inside the active workspace; use workspace-relative paths.'', [''path'', ''text'']),
         (''list'', ''List workspace entries.'', [''path'']),
         (''search'', ''Search workspace text.'', [''path'', ''text'']),
         (''fetch'', ''Fetch bounded text from a public HTTPS URL.'', [''url'']),
         (''patch'', ''Apply an approved Git patch.'', [''text'']),
         (''git'', ''Inspect or manage approved Git worktrees.'', [''args''])]
        @ (if shell_enabled
           then [(''shell'', ''Run an approved local shell command; it may inspect available paths beyond the workspace.'', [''command''])]
           else []))"

definition memory_tools :: "tool_spec list" where
  "memory_tools =
     [\<lparr>ts_name = ''memory_search'', ts_description = Some ''Search memories available in this conversation scope.'',
       ts_schema = object_schema [(''query'', typed ''string'')] [''query'']\<rparr>,
      \<lparr>ts_name = ''memory_remember'',
       ts_description = Some ''Save a concise memory in this conversation scope when appropriate.'',
       ts_schema = object_schema [(''key'', typed ''string''), (''value'', typed ''string'')] [''key'', ''value'']\<rparr>]"

definition at_least :: "int \<Rightarrow> json" where
  "at_least n = jobject [(''type'', JStr ''integer''), (''minimum'', JInt n)]"

definition between :: "int \<Rightarrow> int \<Rightarrow> json" where
  "between m n = jobject [(''type'', JStr ''integer''), (''minimum'', JInt m), (''maximum'', JInt n)]"

definition one_of :: "string list \<Rightarrow> json" where
  "one_of vs = jobject [(''type'', JStr ''string''), (''enum'', JArr (map JStr vs))]"

definition id_schema :: json where
  "id_schema = object_schema [(''id'', at_least 1)] [''id'']"

definition enabled_text :: "bool \<Rightarrow> string" where
  "enabled_text b = (if b then ''enabled'' else ''disabled'')"

definition scheduler_tools :: "bool \<Rightarrow> bool \<Rightarrow> bool \<Rightarrow> string list \<Rightarrow> tool_spec list" where
  "scheduler_tools workspace_tools_enabled shell_enabled listing_allowed channels =
     (let channel_list = (if channels = [] then ''none'' else join '', '' channels);
          availability = ''Current execution capabilities: workspace tools are '' @ enabled_text workspace_tools_enabled
            @ ''; local shell is '' @ enabled_text (shell_enabled \<and> workspace_tools_enabled)
            @ ''; external messaging channels are '' @ channel_list @ ''; local TUI session messages are available.''
      in map (\<lambda>(name, description, schema).
                \<lparr>ts_name = name, ts_description = Some description, ts_schema = schema\<rparr>)
         (filter (\<lambda>(name, _). name \<noteq> ''schedule_list'' \<or> listing_allowed)
          [(''schedule_propose'',
            ''Schedule an agent task after the user has clearly requested it. '' @ availability
            @ '' The scheduler assigns a unique funny name that the user can use in commands. If the user requests a message to the local TUI, authorize channel tui and use the exact session ID from the captured origin; for the default TUI session use tui-default. Set message_destination only for a destination the user explicitly authorized. If a requested external channel is unavailable, explain the missing requirement before creating the schedule. Choose a first run using delay_seconds, run_at RFC 3339 timestamp with offset, or cron; include a timezone for cron unless one is configured. For a fixed interval, set repeat_seconds and optionally delay_seconds for the first run; without delay_seconds, the first run is after one interval. The schedule is active as soon as this tool succeeds; do not request separate approval. missed selects what to do with occurrences due while the daemon was offline: skip, coalesce, or replay. retries is optional, from zero to five, with bounded exponential backoff. For recurring tasks, on_failure continue skips the failed occurrence after retries and keeps the next run; pause is the default.'',
            object_schema
              [(''instruction'', typed ''string''),
               (''message_destination'',
                  object_schema
                    [(''channel'', one_of (channels @ [''tui''])), (''chat'', typed ''string''),
                     (''private'', typed ''boolean''), (''thread'', typed ''string'')]
                    [''channel'', ''chat'', ''private'']),
               (''delay_seconds'', at_least 5),
               (''run_at'', jobject [(''type'', JStr ''string''), (''format'', JStr ''date-time'')]),
               (''cron'', typed ''string''),
               (''repeat_seconds'', between 5 31536000),
               (''timezone'', typed ''string''),
               (''missed'', one_of [''skip'', ''coalesce'', ''replay'']),
               (''retries'', between 0 5),
               (''on_failure'', one_of [''pause'', ''continue''])]
              [''instruction'']),
           (''schedule_list'',
            ''List schedules with their current status and most recent outcome. Use page for the next page.'',
            jobject [(''type'', JStr ''object''), (''properties'', jobject [(''page'', at_least 1)]),
              (''additionalProperties'', JBool False)]),
           (''schedule_cancel'',
            ''Cancel future runs after user authorization. If an action is running, request its interruption; side effects may already have happened.'',
            id_schema),
           (''schedule_pause'', ''Pause an active schedule after user authorization.'', id_schema),
           (''schedule_resume'', ''Resume a paused schedule after user authorization.'', id_schema),
           (''schedule_run'',
            ''Run an active schedule now, or rerun a completed or skipped one-time task. A rerun can repeat side effects; only do it when the user explicitly requests it.'',
            id_schema),
           (''schedule_retry'',
            ''Retry a scheduled task paused after failure or skipped while the daemon was offline. This can repeat side effects; only do it when the user explicitly requests recovery.'',
            id_schema)]))"

definition schedule_listing_allowed :: "string \<Rightarrow> bool" where
  "schedule_listing_allowed channel \<longleftrightarrow> channel = ''cli'' \<or> channel = ''tui''"

section \<open>Destinations of scheduled messages\<close>

record destination =
  de_channel :: string
  de_chat :: string
  de_private :: bool
  de_thread :: "string option"

definition valid_tui_destination :: "destination \<Rightarrow> bool" where
  "valid_tui_destination d \<longleftrightarrow>
     de_channel d = ''tui'' \<and> strip_prefix ''tui-'' (de_chat d) \<noteq> None \<and> \<not> de_private d \<and> de_thread d = None"

text \<open>\<open>char::is_control\<close>: the controls of ASCII and of Latin 1, which start with the byte \<open>C2\<close>.\<close>

definition is_control :: "string \<Rightarrow> bool" where
  "is_control c \<longleftrightarrow>
     (case c of [a] \<Rightarrow> code a < 32 \<or> code a = 127
      | [a, b] \<Rightarrow> code a = 194 \<and> code b < 160
      | _ \<Rightarrow> False)"

definition visible :: "string \<Rightarrow> bool" where
  "visible s \<longleftrightarrow> length s \<le> 256 \<and> list_all (\<lambda>c. \<not> is_control c) (chars s)"

definition visible_chat :: "json \<Rightarrow> string option" where
  "visible_chat v =
     (case as_str v of None \<Rightarrow> None | Some s \<Rightarrow> if \<not> blank s \<and> visible s then Some s else None)"

definition visible_channel :: "json \<Rightarrow> string option" where
  "visible_channel v = (case as_str v of None \<Rightarrow> None | Some s \<Rightarrow> if valid s then Some s else None)"

definition named_thread :: "json \<Rightarrow> string option" where
  "named_thread v = (case as_str v of None \<Rightarrow> None | Some s \<Rightarrow> if blank s then None else Some s)"

definition authorized_destination :: "json \<Rightarrow> destination option" where
  "authorized_destination v =
     (case visible_channel (json_index v ''channel'') of
        None \<Rightarrow> None
      | Some channel \<Rightarrow>
     (case visible_chat (json_index v ''chat'') of
        None \<Rightarrow> None
      | Some chat \<Rightarrow>
     (case as_bool (json_index v ''private'') of
        None \<Rightarrow> None
      | Some private \<Rightarrow>
          (let thread = named_thread (json_index v ''thread'');
               d = \<lparr>de_channel = channel, de_chat = chat, de_private = private, de_thread = thread\<rparr>
           in if (case thread of None \<Rightarrow> False | Some t \<Rightarrow> \<not> visible t) then None
              else if channel = ''tui'' \<and> \<not> valid_tui_destination d then None
              else Some d))))"

definition scheduled_message_tools :: "plugins \<Rightarrow> destination option \<Rightarrow> tool_spec list" where
  "scheduled_message_tools ps destination =
     (case destination of
        None \<Rightarrow> []
      | Some d \<Rightarrow>
          if de_channel d = ''tui'' \<and> \<not> valid_tui_destination d then []
          else if de_channel d \<noteq> ''tui''
            \<and> (case bget ps (de_channel d) of None \<Rightarrow> True | Some h \<Rightarrow> \<not> supports h CapChannel) then []
          else
            [\<lparr>ts_name = ''message_send'',
              ts_description = Some (''Deliver a message only to the schedule's authorized destination: ''
                @ de_channel d @ '' / '' @ de_chat d @ ''.''),
              ts_schema = object_schema
                [(''channel'', jobject [(''const'', JStr (de_channel d))]),
                 (''chat'', jobject [(''const'', JStr (de_chat d))]),
                 (''private'', jobject [(''const'', JBool (de_private d))]),
                 (''thread'', jobject [(''const'', jopt JStr (de_thread d))]),
                 (''text'', typed ''string'')]
                [''channel'', ''chat'', ''private'', ''thread'', ''text'']\<rparr>])"

section \<open>Collecting the tools of the plugins\<close>

text \<open>The outcome of \<open>tools/list\<close> within two seconds; \<open>specs_of\<close> is the package's deserialiser.\<close>

datatype listing = Listed response | ListFailed core_error | ListTimeout

definition listed_tools :: "(json \<Rightarrow> string + tool_spec list) \<Rightarrow> bool \<Rightarrow> string \<Rightarrow> listing \<Rightarrow> string + tool_spec list" where
  "listed_tools specs_of shell_enabled plugin l =
     (case l of
        Listed r \<Rightarrow>
          (case r_error r of
             None \<Rightarrow> (case r_result r of
                        None \<Rightarrow> Inl ''Tool listing returned no result.''
                      | Some v \<Rightarrow> specs_of (json_index v ''tools''))
           | Some e \<Rightarrow> if plugin = ''tools'' then Inr (tools shell_enabled)
                       else Inl (''Plugin '' @ plugin @ '' could not list tools: '' @ e_message e))
      | ListFailed e \<Rightarrow> if plugin = ''tools'' then Inr (tools shell_enabled)
                        else Inl (''Plugin '' @ plugin @ '' tool listing failed: '' @ show_error e)
      | ListTimeout \<Rightarrow> if plugin = ''tools'' then Inr (tools shell_enabled)
                       else Inl (''Plugin '' @ plugin @ '' tool listing timed out.''))"

fun register_tools :: "(json \<Rightarrow> nat) \<Rightarrow> string \<Rightarrow> tool_spec list \<Rightarrow> tool_registry \<Rightarrow> string + tool_registry" where
  "register_tools json_len plugin [] reg = Inr reg"
| "register_tools json_len plugin (d # ds) reg =
     (case validate_tool_spec json_len d of
        Inl e \<Rightarrow> Inl e
      | Inr _ \<Rightarrow>
          if bget (tg_owners reg) (ts_name d) \<noteq> None
          then Inl (''Multiple plugins registered tool `'' @ ts_name d @ ''`.'')
          else register_tools json_len plugin ds
            (reg\<lparr>tg_specs := tg_specs reg @ [d], tg_owners := binsert (ts_name d) plugin (tg_owners reg)\<rparr>))"

fun collect_tools :: "(json \<Rightarrow> string + tool_spec list) \<Rightarrow> (json \<Rightarrow> nat) \<Rightarrow> (string \<Rightarrow> listing) \<Rightarrow> bool \<Rightarrow> plugins \<Rightarrow>
    tool_registry \<Rightarrow> string + tool_registry" where
  "collect_tools specs_of json_len listing shell_enabled [] reg = Inr reg"
| "collect_tools specs_of json_len listing shell_enabled ((plugin, h) # ps) reg =
     (if \<not> supports h CapTool then collect_tools specs_of json_len listing shell_enabled ps reg
      else
        (case listed_tools specs_of shell_enabled plugin (listing plugin) of
           Inl e \<Rightarrow> Inl e
         | Inr ds \<Rightarrow>
             if 128 < length ds then Inl (''Plugin '' @ plugin @ '' listed too many tools.'')
             else
               (case register_tools json_len plugin ds reg of
                  Inl e \<Rightarrow> Inl e
                | Inr reg' \<Rightarrow> collect_tools specs_of json_len listing shell_enabled ps reg')))"

definition tool_registry :: "(json \<Rightarrow> string + tool_spec list) \<Rightarrow> (json \<Rightarrow> nat) \<Rightarrow> (string \<Rightarrow> listing) \<Rightarrow> plugins \<Rightarrow>
    bool \<Rightarrow> bool \<Rightarrow> string + tool_registry" where
  "tool_registry specs_of json_len listing ps enabled shell_enabled =
     (if \<not> enabled then Inr empty_registry
      else collect_tools specs_of json_len listing shell_enabled ps empty_registry)"

definition requires_vision_tool :: "string \<Rightarrow> bool" where
  "requires_vision_tool name \<longleftrightarrow> name = ''browser_screenshot'' \<or> name = ''computer_screenshot''"

text \<open>\<open>answer\<close> drops the tools that need vision when the provider has none.\<close>

definition without_vision_tools :: "tool_registry \<Rightarrow> tool_registry" where
  "without_vision_tools reg =
     reg\<lparr>tg_specs := filter (\<lambda>s. \<not> requires_vision_tool (ts_name s)) (tg_specs reg),
         tg_owners := bretain (\<lambda>name _. \<not> requires_vision_tool name) (tg_owners reg)\<rparr>"

section \<open>What a registry is\<close>

text \<open>The tools have distinct names, every definition was validated, and the owners are exactly the names of
  the tools, each with the plugin that listed it.\<close>

definition listed_by :: "(json \<Rightarrow> string + tool_spec list) \<Rightarrow> (string \<Rightarrow> listing) \<Rightarrow> bool \<Rightarrow> plugins \<Rightarrow> string \<Rightarrow> tool_spec \<Rightarrow> bool" where
  "listed_by specs_of listing shell_enabled ps plugin d \<longleftrightarrow>
     (\<exists>h ds. (plugin, h) \<in> set ps \<and> supports h CapTool \<and> listed_tools specs_of shell_enabled plugin (listing plugin) = Inr ds
        \<and> d \<in> set ds)"

definition registry_ok :: "(json \<Rightarrow> nat) \<Rightarrow> tool_registry \<Rightarrow> bool" where
  "registry_ok json_len reg \<longleftrightarrow>
     bmap_ok (tg_owners reg) \<and> distinct (map ts_name (tg_specs reg))
     \<and> set (bkeys (tg_owners reg)) = ts_name ` set (tg_specs reg)
     \<and> (\<forall>d \<in> set (tg_specs reg). validate_tool_spec json_len d = Inr ())"

lemma registry_ok_empty [simp]: "registry_ok json_len empty_registry"
  by (simp add: registry_ok_def empty_registry_def)

lemma register_tools_ok:
  assumes "register_tools json_len plugin ds reg = Inr reg'" and "registry_ok json_len reg"
  shows "registry_ok json_len reg'" and "tg_specs reg' = tg_specs reg @ ds"
    and "\<forall>n. bget (tg_owners reg') n = (if n \<in> ts_name ` set ds then Some plugin else bget (tg_owners reg) n)"
    and "\<forall>d \<in> set ds. bget (tg_owners reg) (ts_name d) = None"
proof -
  have "registry_ok json_len reg' \<and> tg_specs reg' = tg_specs reg @ ds
      \<and> (\<forall>n. bget (tg_owners reg') n = (if n \<in> ts_name ` set ds then Some plugin else bget (tg_owners reg) n))
      \<and> (\<forall>d \<in> set ds. bget (tg_owners reg) (ts_name d) = None)"
    using assms
  proof (induction ds arbitrary: reg)
    case (Cons d ds)
    let ?r = "reg\<lparr>tg_specs := tg_specs reg @ [d], tg_owners := binsert (ts_name d) plugin (tg_owners reg)\<rparr>"
    have step: "validate_tool_spec json_len d = Inr ()" "bget (tg_owners reg) (ts_name d) = None"
        "register_tools json_len plugin ds ?r = Inr reg'"
      using Cons.prems(1) by (auto split: sum.splits if_splits)
    have "ts_name d \<notin> ts_name ` set (tg_specs reg)"
      using step(2) Cons.prems(2) by (auto simp: registry_ok_def map_of_eq_None_iff)
    then have "registry_ok json_len ?r" using step(1) Cons.prems(2)
      by (auto simp: registry_ok_def bmap_ok_insert)
    from Cons.IH [OF step(3) this] step(2) show ?case
      by (auto simp: bget_insert split: if_splits)
  qed simp
  then show "registry_ok json_len reg'" and "tg_specs reg' = tg_specs reg @ ds"
    and "\<forall>n. bget (tg_owners reg') n = (if n \<in> ts_name ` set ds then Some plugin else bget (tg_owners reg) n)"
    and "\<forall>d \<in> set ds. bget (tg_owners reg) (ts_name d) = None"
    by blast+
qed

lemma collect_tools_ok:
  assumes "collect_tools specs_of json_len listing shell_enabled ps reg = Inr reg'" and "registry_ok json_len reg"
    and "\<forall>d \<in> set (tg_specs reg). \<exists>i. bget (tg_owners reg) (ts_name d) = Some i \<and> listed_by specs_of listing shell_enabled qs i d"
    and "set ps \<subseteq> set qs"
  shows "registry_ok json_len reg'"
    and "\<forall>d \<in> set (tg_specs reg'). \<exists>i. bget (tg_owners reg') (ts_name d) = Some i \<and> listed_by specs_of listing shell_enabled qs i d"
    and "\<forall>n i. bget (tg_owners reg) n = Some i \<longrightarrow> bget (tg_owners reg') n = Some i"
    and "set (tg_specs reg) \<subseteq> set (tg_specs reg')"
    and "\<forall>i h. (i, h) \<in> set ps \<and> supports h CapTool \<longrightarrow>
          (\<exists>ds. listed_tools specs_of shell_enabled i (listing i) = Inr ds \<and> length ds \<le> 128
             \<and> (\<forall>d \<in> set ds. d \<in> set (tg_specs reg') \<and> bget (tg_owners reg') (ts_name d) = Some i))"
proof -
  let ?inv = "\<lambda>reg. registry_ok json_len reg \<and>
    (\<forall>d \<in> set (tg_specs reg). \<exists>i. bget (tg_owners reg) (ts_name d) = Some i \<and> listed_by specs_of listing shell_enabled qs i d)"
  let ?grow = "\<lambda>reg reg'. (\<forall>n i. bget (tg_owners reg) n = Some i \<longrightarrow> bget (tg_owners reg') n = Some i)
     \<and> set (tg_specs reg) \<subseteq> set (tg_specs reg')"
  let ?all = "\<lambda>ps reg'. \<forall>i h. (i, h) \<in> set ps \<and> supports h CapTool \<longrightarrow>
          (\<exists>ds. listed_tools specs_of shell_enabled i (listing i) = Inr ds \<and> length ds \<le> 128
             \<and> (\<forall>d \<in> set ds. d \<in> set (tg_specs reg') \<and> bget (tg_owners reg') (ts_name d) = Some i))"
  have "?inv reg' \<and> ?grow reg reg' \<and> ?all ps reg'"
    if "collect_tools specs_of json_len listing shell_enabled ps reg = Inr reg'" "?inv reg" "set ps \<subseteq> set qs" for ps reg
    using that
  proof (induction ps arbitrary: reg)
    case (Cons p ps)
    obtain plugin h where p: "p = (plugin, h)" by (cases p)
    show ?case
    proof (cases "supports h CapTool")
      case False
      then show ?thesis using Cons by (simp add: p) blast
    next
      case True
      with Cons.prems(1) obtain ds reg1 where ds: "listed_tools specs_of shell_enabled plugin (listing plugin) = Inr ds"
          "length ds \<le> 128" "register_tools json_len plugin ds reg = Inr reg1"
          "collect_tools specs_of json_len listing shell_enabled ps reg1 = Inr reg'"
        by (auto simp: p split: sum.splits if_splits)
      note r = register_tools_ok [OF ds(3) conjunct1 [OF Cons.prems(2)]]
      have mine: "listed_by specs_of listing shell_enabled qs plugin d" if "d \<in> set ds" for d
        using that True ds(1) Cons.prems(3) by (auto simp: listed_by_def p)
      have inv: "?inv reg1"
        using r Cons.prems(2) mine by (fastforce simp: image_iff)
      have grow: "?grow reg reg1" using r(2,3,4) by (auto simp: image_iff)
      from Cons.IH [OF ds(4) inv] Cons.prems(3)
      have ih: "?inv reg'" "?grow reg1 reg'" "?all ps reg'" by auto
      have "d \<in> set (tg_specs reg') \<and> bget (tg_owners reg') (ts_name d) = Some plugin" if "d \<in> set ds" for d
        using that ih(2) r(2,3) by auto
      with ds(1,2) have "?all [p] reg'" by (auto simp: p)
      with ih grow show ?thesis by (auto simp: p)
    qed
  qed simp
  from this [OF assms(1) _ assms(4)] assms(2,3)
  show "registry_ok json_len reg'"
    and "\<forall>d \<in> set (tg_specs reg'). \<exists>i. bget (tg_owners reg') (ts_name d) = Some i \<and> listed_by specs_of listing shell_enabled qs i d"
    and "\<forall>n i. bget (tg_owners reg) n = Some i \<longrightarrow> bget (tg_owners reg') n = Some i"
    and "set (tg_specs reg) \<subseteq> set (tg_specs reg')"
    and "?all ps reg'"
    by simp_all
qed

text \<open>Routing: the names of a registry have one owner each, a plugin that listed the tool, and every tool a
  plugin listed is routed to that plugin, so two plugins never list one name.\<close>

lemma tool_registry_routes:
  assumes "tool_registry specs_of json_len listing ps True shell_enabled = Inr reg"
  shows "registry_ok json_len reg"
    and "d \<in> set (tg_specs reg) \<Longrightarrow>
      \<exists>i. bget (tg_owners reg) (ts_name d) = Some i \<and> listed_by specs_of listing shell_enabled ps i d"
    and "listed_by specs_of listing shell_enabled ps i d \<Longrightarrow>
      d \<in> set (tg_specs reg) \<and> bget (tg_owners reg) (ts_name d) = Some i"
proof -
  have c: "collect_tools specs_of json_len listing shell_enabled ps empty_registry = Inr reg"
    using assms by (simp add: tool_registry_def)
  note r = collect_tools_ok [OF c registry_ok_empty, of ps]
  show "registry_ok json_len reg" by (rule r(1)) (simp_all add: empty_registry_def)
  show "\<exists>i. bget (tg_owners reg) (ts_name d) = Some i \<and> listed_by specs_of listing shell_enabled ps i d"
    if "d \<in> set (tg_specs reg)"
    by (rule bspec [OF r(2) that]) (simp_all add: empty_registry_def)
  show "d \<in> set (tg_specs reg) \<and> bget (tg_owners reg) (ts_name d) = Some i"
    if "listed_by specs_of listing shell_enabled ps i d"
  proof -
    from that obtain h ds where h: "(i, h) \<in> set ps" "supports h CapTool"
        "listed_tools specs_of shell_enabled i (listing i) = Inr ds" "d \<in> set ds"
      by (auto simp: listed_by_def)
    have "\<forall>i h. (i, h) \<in> set ps \<and> supports h CapTool \<longrightarrow>
          (\<exists>ds. listed_tools specs_of shell_enabled i (listing i) = Inr ds \<and> length ds \<le> 128
             \<and> (\<forall>d \<in> set ds. d \<in> set (tg_specs reg) \<and> bget (tg_owners reg) (ts_name d) = Some i))"
      by (rule r(5)) (simp_all add: empty_registry_def)
    with h show ?thesis by fastforce
  qed
qed

lemma without_vision_ok: "registry_ok json_len reg \<Longrightarrow> registry_ok json_len (without_vision_tools reg)"
proof -
  assume a: "registry_ok json_len reg"
  let ?r = "without_vision_tools reg"
  have "bmap_ok (tg_owners ?r)" "distinct (map ts_name (tg_specs ?r))"
      "\<forall>d \<in> set (tg_specs ?r). validate_tool_spec json_len d = Inr ()"
    using a by (simp_all add: registry_ok_def without_vision_tools_def bmap_ok_retain distinct_map_filter)
  moreover have "set (bkeys (tg_owners ?r)) = {n \<in> set (bkeys (tg_owners reg)). \<not> requires_vision_tool n}"
    by (auto simp: without_vision_tools_def bretain_def image_iff)
  moreover have "ts_name ` set (tg_specs ?r) = {n \<in> ts_name ` set (tg_specs reg). \<not> requires_vision_tool n}"
    by (auto simp: without_vision_tools_def)
  ultimately show ?thesis using a by (simp add: registry_ok_def)
qed

end
