(* ===== verification/Tool_Properties.thy ===== *)
theory Tool_Properties
  imports Tool_Catalog
begin

text \<open>
  The tools of a turn: which plugin a call of a tool reaches, and what the checks of its arguments guarantee.
\<close>

section \<open>Looking up a tool\<close>

definition without_approve :: "json \<Rightarrow> json" where
  "without_approve v = (case v of JObj m \<Rightarrow> JObj (bremove ''approve'' m) | _ \<Rightarrow> v)"

lemma is_object_without_approve [simp]: "is_object (without_approve v) = is_object v"
  by (cases v) (simp_all add: without_approve_def is_object_def)

lemma find_distinct: "distinct (map f xs) \<Longrightarrow> x \<in> set xs \<Longrightarrow> find (\<lambda>y. f y = f x) xs = Some x"
  by (induction xs) (auto simp: image_iff)

lemma validate_registered_args_tool:
  "registry_ok json_len reg \<Longrightarrow> d \<in> set (tg_specs reg) \<Longrightarrow>
   validate_registered_args reg (ts_name d) args = validate_schema_value (ts_schema d) (without_approve args) 0"
  by (simp add: validate_registered_args_def registry_ok_def find_distinct without_approve_def)

lemma registry_is_ok:
  "tool_registry specs_of json_len listing ps enabled shell_enabled = Inr reg \<Longrightarrow> registry_ok json_len reg"
  using tool_registry_routes(1) [of specs_of json_len listing ps shell_enabled reg]
  by (cases enabled) (auto simp: tool_registry_def)

lemma has_type_of_object: "has_type s v \<Longrightarrow> schema_kind s = Some ''object'' \<Longrightarrow> is_object v"
  by (erule has_type_object) (simp_all add: is_object_def)

section \<open>Properties\<close>

text \<open>C26: the checks of the runtime type the arguments of a tool: for every tool of a registry the runtime has built,
  the arguments that pass are exactly the values of the tool's schema (the approval mark is the host's own and is
  set aside), they are an object, and a refusal is about the arguments, never about the depth or the form of the
  schema itself, which was checked when the tool was listed.\<close>

theorem registered_arguments_typed:
  assumes "tool_registry specs_of json_len listing ps enabled shell_enabled = Inr reg" and "d \<in> set (tg_specs reg)"
  shows "(validate_registered_args reg (ts_name d) args = Inr () \<longleftrightarrow> has_type (ts_schema d) (without_approve args))
    \<and> (validate_registered_args reg (ts_name d) args = Inr () \<longrightarrow> is_object args)
    \<and> (\<forall>e. validate_registered_args reg (ts_name d) args = Inl e \<longrightarrow> \<not> static_error e)"
proof -
  note reg = registry_is_ok [OF assms(1)]
  have d: "validate_tool_spec json_len d = Inr ()" using reg assms(2) by (simp add: registry_ok_def)
  then have s: "validate_schema_definition (ts_schema d) 0 = Inr ()" "schema_kind (ts_schema d) = Some ''object''"
    by (simp_all add: validate_tool_spec_def schema_kind_def)
  show ?thesis
    using validate_value_has_type [OF s(1)] validate_value_progress [OF s(1)] has_type_of_object [OF _ s(2)]
    by (simp add: validate_registered_args_tool [OF reg assms(2)]) (metis is_object_without_approve)
qed

text \<open>A plugin with one tool.\<close>

definition sample_spec :: tool_spec where
  "sample_spec = \<lparr>ts_name = ''note'', ts_description = None, ts_schema = object_schema [(''text'', typed ''string'')] [''text'']\<rparr>"

definition sample_plugins :: plugins where
  "sample_plugins = [(''notes'', \<lparr>h_protocol = protocol_current, h_id = ''notes'', h_version = ''1'',
     h_capabilities = [CapTool], h_commands = []\<rparr>)]"

definition sample_listing :: "string \<Rightarrow> listing" where
  "sample_listing i = Listed (response_ok 1 JNull)"

definition sample_registry :: tool_registry where
  "sample_registry = \<lparr>tg_specs = [sample_spec], tg_owners = [(''note'', ''notes'')]\<rparr>"

lemma sample_spec_valid: "validate_tool_spec (\<lambda>_. 0) sample_spec = Inr ()"
proof -
  have s: "validate_schema_definition (ts_schema sample_spec) 0 = Inr ()" by code_simp
  show ?thesis unfolding validate_tool_spec_def s
    by (simp add: sample_spec_def object_schema_def json_index_jobject is_object_def jobject_def tool_name_byte_def
        is_ascii_alphanumeric_def is_ascii_alphabetic_def is_ascii_lowercase_def is_ascii_uppercase_def code_def)
qed

lemma sample_registry_built:
  "tool_registry (\<lambda>v. Inr [sample_spec]) (\<lambda>_. 0) sample_listing sample_plugins True False = Inr sample_registry"
  by (simp add: tool_registry_def sample_plugins_def sample_listing_def supports_def listed_tools_def response_ok_def
      sample_spec_valid empty_registry_def sample_registry_def) (simp add: sample_spec_def)

lemma sample_argument_refused:
  "validate_registered_args sample_registry ''note'' (JObj [(''text'', JInt 1)]) \<noteq> Inr ()" by code_simp

theorem registered_arguments_typed_witness:
  "\<not> has_type (ts_schema sample_spec) (without_approve (JObj [(''text'', JInt 1)]))"
proof -
  have "sample_spec \<in> set (tg_specs sample_registry)" by (simp add: sample_registry_def)
  from registered_arguments_typed [OF sample_registry_built this, of "JObj [(''text'', JInt 1)]"] sample_argument_refused
  show ?thesis by (simp add: sample_spec_def)
qed

text \<open>a tool has one owner: in a registry the runtime has built, the tools are exactly those the plugins with the
  tool capability listed, with distinct names, and a call is routed to the plugin that listed the tool, so that no
  plugin can take over a tool of another one.\<close>

theorem tool_calls_routed_to_lister:
  assumes "tool_registry specs_of json_len listing ps True shell_enabled = Inr reg"
  shows "(listed_by specs_of listing shell_enabled ps i d \<longleftrightarrow> d \<in> set (tg_specs reg) \<and> bget (tg_owners reg) (ts_name d) = Some i)
    \<and> distinct (map ts_name (tg_specs reg)) \<and> set (bkeys (tg_owners reg)) = ts_name ` set (tg_specs reg)"
proof -
  note r = tool_registry_routes [OF assms]
  have "listed_by specs_of listing shell_enabled ps i d \<longleftrightarrow> d \<in> set (tg_specs reg) \<and> bget (tg_owners reg) (ts_name d) = Some i"
  proof
    assume "d \<in> set (tg_specs reg) \<and> bget (tg_owners reg) (ts_name d) = Some i"
    with r(2) [of d] show "listed_by specs_of listing shell_enabled ps i d" by force
  qed (rule r(3))
  moreover have "distinct (map ts_name (tg_specs reg)) \<and> set (bkeys (tg_owners reg)) = ts_name ` set (tg_specs reg)"
    using r(1) by (simp add: registry_ok_def)
  ultimately show ?thesis by blast
qed

theorem tool_calls_routed_to_lister_witness:
  "\<not> listed_by (\<lambda>v. Inr [sample_spec]) sample_listing False sample_plugins ''other'' sample_spec"
  using tool_calls_routed_to_lister [OF sample_registry_built, of "''other''" sample_spec]
  by (simp add: sample_registry_def sample_spec_def)

end
