(* ===== verification/Dates.thy ===== *)
theory Dates
  imports Text
begin

text \<open>
  \<open>krabb-libs/date/src/lib.rs\<close>: durations, and calendar dates of Unix timestamps. Timestamps are 64 bit
  words; the calendar computes with \<open>i64\<close> values that are never negative and far from the limits, so
  they are integers and \<open>div\<close> is the division of the code. The package \<open>jiff\<close> (parsing of dates, time
  zones) is a record of parameters.
\<close>

definition SECONDS_PER_DAY :: nat where "SECONDS_PER_DAY = 86400"
definition DAYS_PER_ERA :: int where "DAYS_PER_ERA = 146097"
definition DAYS_BEFORE_UNIX_EPOCH :: int where "DAYS_BEFORE_UNIX_EPOCH = 719468"

section \<open>Durations\<close>

definition too_large :: string where "too_large = ''Duration is too large.''"

text \<open>\<open>amount * 10 + digit\<close> with checked operations.\<close>

fun read_amount :: "u64 \<Rightarrow> string \<Rightarrow> u64 option" where
  "read_amount a [] = Some a"
| "read_amount a (c # cs) =
     (case checked_mul a 10 of
        None \<Rightarrow> None
      | Some b \<Rightarrow>
          (case checked_add b (of_nat (code c - 48)) of
             None \<Rightarrow> None
           | Some b' \<Rightarrow> read_amount b' cs))"

definition multiplier :: "string \<Rightarrow> u64 option" where
  "multiplier unit =
     (if unit \<in> {''s'', ''sec'', ''secs'', ''second'', ''seconds''} then Some 1
      else if unit \<in> {''m'', ''min'', ''mins'', ''minute'', ''minutes''} then Some 60
      else if unit \<in> {''h'', ''hr'', ''hrs'', ''hour'', ''hours''} then Some (60 * 60)
      else if unit \<in> {''d'', ''day'', ''days''} then Some (of_nat SECONDS_PER_DAY)
      else if unit \<in> {''w'', ''week'', ''weeks''} then Some (7 * of_nat SECONDS_PER_DAY)
      else if unit \<in> {''mo'', ''month'', ''months''} then Some (30 * of_nat SECONDS_PER_DAY)
      else if unit \<in> {''y'', ''yr'', ''yrs'', ''year'', ''years''} then Some (365 * of_nat SECONDS_PER_DAY)
      else None)"

text \<open>The loop over the characters; \<open>seconds\<close> is what was read so far.\<close>

function duration_loop :: "string \<Rightarrow> u64 \<Rightarrow> bool \<Rightarrow> string + (u64 \<times> bool)" where
  "duration_loop s seconds found =
     (let s1 = trim_start s in
      if s1 = [] then Inr (seconds, found)
      else
        (let digits = takeWhile is_ascii_digit s1 in
         case read_amount 0 digits of
           None \<Rightarrow> Inl too_large
         | Some amount \<Rightarrow>
             if digits = [] then Inl ''Use a number followed by a duration unit, such as 5m or 1 month.''
             else
               (let s2 = trim_start (dropWhile is_ascii_digit s1);
                    unit = takeWhile is_ascii_alphabetic s2
                in case multiplier unit of
                     None \<Rightarrow> Inl (''Unknown duration unit '' @ [CHR 0x22] @ unit @ [CHR 0x22] @ ''.'')
                   | Some m \<Rightarrow>
                       (case checked_mul amount m of
                          None \<Rightarrow> Inl too_large
                        | Some part \<Rightarrow>
                            (case checked_add seconds part of
                               None \<Rightarrow> Inl too_large
                             | Some seconds' \<Rightarrow> duration_loop (dropWhile is_ascii_alphabetic s2) seconds' True)))))"
  by pat_completeness auto
termination
proof (relation "measure (\<lambda>(s, n, f). length s)", goal_cases)
  case (2 s seconds found s1 digits amount s2 unit m part seconds')
  have "length (dropWhile is_ascii_digit s1) < length s1"
    using 2(2-5) by (metis append_self_conv2 length_append length_greater_0_conv less_add_same_cancel2 takeWhile_dropWhile_id)
  then show ?case
    using length_trim_start [of s] length_trim_start [of "dropWhile is_ascii_digit s1"]
      length_dropWhile_le [of is_ascii_alphabetic s2] 2 by simp
qed simp

declare duration_loop.simps [simp del]

definition parse_duration :: "string \<Rightarrow> string + u64" where
  "parse_duration value =
     (case duration_loop (to_ascii_lowercase (trim value)) 0 False of
        Inl e \<Rightarrow> Inl e
      | Inr (seconds, found) \<Rightarrow>
          if found \<and> 0 < seconds then Inr seconds else Inl ''Duration must be greater than zero.'')"

definition duration_units :: "(nat \<times> string) list" where
  "duration_units =
     [(365 * SECONDS_PER_DAY, ''year''), (30 * SECONDS_PER_DAY, ''month''), (7 * SECONDS_PER_DAY, ''week''),
      (SECONDS_PER_DAY, ''day''), (60 * 60, ''hour''), (60, ''minute''), (1, ''second'')]"

text \<open>The parts of a duration, each a count and a unit.\<close>

fun duration_parts :: "(nat \<times> string) list \<Rightarrow> nat \<Rightarrow> (nat \<times> string) list" where
  "duration_parts [] seconds = []"
| "duration_parts ((span, name) # us) seconds =
     (let count = seconds div span in
      if 0 < count then (count, name) # duration_parts us (seconds mod span) else duration_parts us seconds)"

definition part_text :: "nat \<times> string \<Rightarrow> string" where
  "part_text p = show_nat (fst p) @ '' '' @ snd p @ (if fst p = 1 then [] else ''s'')"

definition format_duration :: "u64 \<Rightarrow> string" where
  "format_duration seconds =
     (let parts = map part_text (duration_parts duration_units (unat seconds)) in
      case parts of
        [] \<Rightarrow> ''0 seconds''
      | [p] \<Rightarrow> p
      | _ \<Rightarrow> join '', '' (butlast parts) @ '' and '' @ last parts)"

section \<open>Calendar dates\<close>

definition year_within_era :: "int \<Rightarrow> int" where
  "year_within_era day_of_era =
     (day_of_era - day_of_era div 1460 + day_of_era div 36524 - day_of_era div 146096) div 365"

definition days_before_year_within_era :: "int \<Rightarrow> int" where
  "days_before_year_within_era year = 365 * year + year div 4 - year div 100"

definition month_and_day :: "int \<Rightarrow> int \<times> int" where
  "month_and_day day_of_year =
     (let march_based_month = (5 * day_of_year + 2) div 153;
          day = day_of_year - (153 * march_based_month + 2) div 5 + 1;
          month = march_based_month + (if march_based_month < 10 then 3 else - 9)
      in (month, day))"

record civil_date =
  cd_year :: int
  cd_month :: int
  cd_day :: int

definition civil_date_from_unix_days :: "int \<Rightarrow> civil_date" where
  "civil_date_from_unix_days days_since_unix_epoch =
     (let days_since_civil_epoch = days_since_unix_epoch + DAYS_BEFORE_UNIX_EPOCH;
          era = days_since_civil_epoch div DAYS_PER_ERA;
          day_of_era = days_since_civil_epoch - era * DAYS_PER_ERA;
          year_of_era = year_within_era day_of_era;
          year = year_of_era + era * 400;
          day_of_year = day_of_era - days_before_year_within_era year_of_era;
          (month, day) = month_and_day day_of_year
      in \<lparr>cd_year = (if month \<le> 2 then year + 1 else year), cd_month = month, cd_day = day\<rparr>)"

text \<open>\<open>{:0w}\<close> of a number that is not negative.\<close>

definition padded :: "nat \<Rightarrow> int \<Rightarrow> string" where
  "padded w n = (let d = show_nat (nat n) in replicate (w - length d) CHR ''0'' @ d)"

definition format_civil :: "civil_date \<Rightarrow> string" where
  "format_civil d = padded 4 (cd_year d) @ ''-'' @ padded 2 (cd_month d) @ ''-'' @ padded 2 (cd_day d)"

definition format_date :: "u64 \<Rightarrow> string" where
  "format_date timestamp = format_civil (civil_date_from_unix_days (int (unat timestamp div SECONDS_PER_DAY)))"

definition format_datetime :: "u64 \<Rightarrow> string" where
  "format_datetime timestamp =
     (let seconds = unat timestamp mod SECONDS_PER_DAY;
          hour = seconds div 3600; minute = seconds mod 3600 div 60; second = seconds mod 60
      in format_date timestamp @ '' '' @ padded 2 (int hour) @ '':'' @ padded 2 (int minute) @ '':''
         @ padded 2 (int second) @ '' UTC'')"

text \<open>\<open>format_date\<close> of \<open>krabb-runtime/src/lib.rs\<close> has its own copy of the algorithm.\<close>

definition runtime_format_date :: "u64 \<Rightarrow> string option" where
  "runtime_format_date timestamp =
     (if 2 ^ 63 \<le> unat timestamp div SECONDS_PER_DAY then None
      else
        (let days = int (unat timestamp div SECONDS_PER_DAY) + 719468;
             era = days div 146097;
             day_of_era = days - era * 146097;
             year_of_era = (day_of_era - day_of_era div 1460 + day_of_era div 36524 - day_of_era div 146096) div 365;
             year = year_of_era + era * 400;
             day_of_year = day_of_era - (365 * year_of_era + year_of_era div 4 - year_of_era div 100);
             march_month = (5 * day_of_year + 2) div 153;
             day = day_of_year - (153 * march_month + 2) div 5 + 1;
             month = march_month + (if march_month < 10 then 3 else - 9);
             year' = (if month \<le> 2 then year + 1 else year)
         in Some (padded 4 year' @ ''-'' @ padded 2 month @ ''-'' @ padded 2 day)))"

section \<open>Time zones\<close>

record ('z, 'c) tz_env =
  tz_offset :: "int \<Rightarrow> string + 'z"
  tz_named :: "string \<Rightarrow> string + 'z"
  tz_system :: 'z
  tz_timestamp :: "string \<Rightarrow> int option"
  tz_civil :: "string \<Rightarrow> 'c option"
  tz_zoned :: "'z \<Rightarrow> 'c \<Rightarrow> string + int"
  tz_in_range :: "int \<Rightarrow> bool"
  tz_local :: "'z \<Rightarrow> int \<Rightarrow> string"

text \<open>\<open>str::parse::<i32>\<close>, with the message of a bad digit; its other errors need more than two bytes
  or none.\<close>

definition parse_i32 :: "string \<Rightarrow> string + int" where
  "parse_i32 s =
     (case (case s of
              c # cs \<Rightarrow> if c = CHR ''-''
                        then (if cs = [] then None
                              else Option.bind (read_digits 0 cs) (\<lambda>n. if n \<le> 2 ^ 31 then Some (- int n) else None))
                        else map_option int (parse_unsigned (2 ^ 31 - 1) s)
            | [] \<Rightarrow> None) of
        None \<Rightarrow> Inl ''invalid digit found in string''
      | Some i \<Rightarrow> Inr i)"

definition parse_timezone :: "('z, 'c) tz_env \<Rightarrow> string \<Rightarrow> string + 'z" where
  "parse_timezone env value =
     (case (case strip_prefix ''+'' value of Some r \<Rightarrow> Some r | None \<Rightarrow> strip_prefix ''-'' value) of
        None \<Rightarrow> tz_named env value
      | Some offset \<Rightarrow>
          if length offset \<noteq> 5 \<or> offset ! 2 \<noteq> CHR '':'' then Inl ''UTC offset must use the form +HH:MM or -HH:MM''
          else
            (case parse_i32 (take 2 offset) of
               Inl e \<Rightarrow> Inl e
             | Inr hours \<Rightarrow>
                 (case parse_i32 (drop 3 offset) of
                    Inl e \<Rightarrow> Inl e
                  | Inr minutes \<Rightarrow>
                      if 23 < hours \<or> 59 < minutes then Inl ''UTC offset is outside the valid range''
                      else tz_offset env ((if strip_prefix ''-'' value \<noteq> None then - 1 else 1)
                             * (hours * 3600 + minutes * 60)))))"

definition after_epoch :: "int \<Rightarrow> string + u64" where
  "after_epoch i =
     (if 0 \<le> i \<and> i < 2 ^ 64 then Inr (of_int i) else Inl ''The date and time must be after the Unix epoch.'')"

definition parse_datetime :: "('z, 'c) tz_env \<Rightarrow> string \<Rightarrow> string option \<Rightarrow> string + u64" where
  "parse_datetime env value timezone =
     (case tz_timestamp env value of
        Some t \<Rightarrow> after_epoch t
      | None \<Rightarrow>
          (case tz_civil env value of
             None \<Rightarrow> Inl ''Use YYYY-MM-DD HH:MM or an RFC 3339 date and time with an offset.''
           | Some dt \<Rightarrow>
               (case (case timezone of
                        None \<Rightarrow> Inr (tz_system env)
                      | Some z \<Rightarrow> (case parse_timezone env z of
                                     Inl e \<Rightarrow> Inl (''The schedule timezone is invalid: '' @ e @ ''.'')
                                   | Inr zone \<Rightarrow> Inr zone)) of
                  Inl e \<Rightarrow> Inl e
                | Inr zone \<Rightarrow>
                    (case tz_zoned env zone dt of
                       Inl e \<Rightarrow> Inl (''The local schedule time is invalid: '' @ e @ ''.'')
                     | Inr t \<Rightarrow> after_epoch t))))"

definition format_datetime_in_timezone :: "('z, 'c) tz_env \<Rightarrow> u64 \<Rightarrow> string \<Rightarrow> string" where
  "format_datetime_in_timezone env timestamp timezone =
     (if timezone = ''UTC'' then format_datetime timestamp
      else if 2 ^ 63 \<le> unat timestamp \<or> \<not> tz_in_range env (int (unat timestamp)) then format_datetime timestamp
      else
        (case parse_timezone env timezone of
           Inl e \<Rightarrow> format_datetime timestamp
         | Inr zone \<Rightarrow>
             tz_local env zone (int (unat timestamp)) @ '' ('' @ timezone @ ''; '' @ format_datetime timestamp @ '')''))"

end
