(* ===== verification/Date_Laws.thy ===== *)
theory Date_Laws
  imports Dates
begin

text \<open>
  The dates of \<open>Dates\<close> against the Gregorian calendar, given by its rule for the day after a date,
  and the durations: reading what was written, and the text of a duration.
\<close>

section \<open>The calendar\<close>

definition leap :: "int \<Rightarrow> bool" where
  "leap y \<longleftrightarrow> 4 dvd y \<and> (\<not> 100 dvd y \<or> 400 dvd y)"

definition month_length :: "int \<Rightarrow> int \<Rightarrow> int" where
  "month_length y m =
     (if m = 2 then (if leap y then 29 else 28) else if m \<in> {4, 6, 9, 11} then 30 else 31)"

definition next_day :: "civil_date \<Rightarrow> civil_date" where
  "next_day d =
     (if cd_day d < month_length (cd_year d) (cd_month d) then d\<lparr>cd_day := cd_day d + 1\<rparr>
      else if cd_month d < 12 then d\<lparr>cd_month := cd_month d + 1, cd_day := 1\<rparr>
      else \<lparr>cd_year = cd_year d + 1, cd_month = 1, cd_day = 1\<rparr>)"

definition epoch :: civil_date where
  "epoch = \<lparr>cd_year = 1970, cd_month = 1, cd_day = 1\<rparr>"

subsection \<open>The year of a day\<close>

text \<open>Days before a year that begins in March, with the leap day of the last year of an era. A year of an
  era is \<open>100 c + 4 q + r\<close>, and \<open>t\<close> is the day in it.\<close>

definition before :: "int \<Rightarrow> int" where
  "before y = 365 * y + y div 4 - y div 100 + y div 400"

lemma year_digits:
  assumes "0 \<le> (y :: int)" "y < 400"
  obtains c q r where "y = 100 * c + 4 * q + r" "0 \<le> c" "c \<le> 3" "0 \<le> q" "q \<le> 24" "0 \<le> r" "r \<le> 3"
proof -
  have "y = 100 * (y div 100) + 4 * (y mod 100 div 4) + y mod 100 mod 4" by simp
  moreover have "0 \<le> y div 100" "y div 100 \<le> 3" "0 \<le> y mod 100 div 4" "y mod 100 div 4 \<le> 24"
      "0 \<le> y mod 100 mod 4" "y mod 100 mod 4 \<le> 3"
    using assms by auto
  ultimately show thesis using that by blast
qed

lemma before_digits:
  assumes "0 \<le> c" "c \<le> 3" "0 \<le> q" "q \<le> 24" "0 \<le> r" "r \<le> 3"
  shows "before (100 * c + 4 * q + r) = 36524 * c + 1461 * q + 365 * r"
proof -
  have "(100 * c + 4 * q + r) div 4 = 25 * c + q" "(100 * c + 4 * q + r) div 100 = c" "(100 * c + 4 * q + r) div 400 = 0"
    using assms by auto
  then show ?thesis by (simp add: before_def)
qed

lemma before_step:
  assumes "0 \<le> c" "c \<le> 3" "0 \<le> q" "q \<le> 24" "0 \<le> r" "r \<le> 3"
  shows "before (100 * c + 4 * q + r + 1) - before (100 * c + 4 * q + r)
     = (if r = 3 \<and> (q < 24 \<or> c = 3) then 366 else 365)"
proof -
  note here = before_digits [OF assms]
  consider "r < 3" | "r = 3" "q < 24" | "r = 3" "q = 24" "c < 3" | "r = 3" "q = 24" "c = 3" using assms by linarith
  then show ?thesis
  proof cases
    case 1
    then show ?thesis using before_digits [of c q "r + 1"] here assms by (simp add: algebra_simps)
  next
    case 2
    then have e: "100 * c + 4 * q + r + 1 = 100 * c + 4 * (q + 1) + 0" by simp
    show ?thesis using before_digits [of c "q + 1" 0] here assms 2 unfolding e by simp
  next
    case 3
    then have e: "100 * c + 4 * q + r + 1 = 100 * (c + 1) + 4 * 0 + 0" by simp
    show ?thesis using before_digits [of "c + 1" 0 0] here assms 3 unfolding e by simp
  next
    case 4
    then show ?thesis by (simp add: before_def)
  qed
qed

lemma before_mono: "0 \<le> y \<Longrightarrow> before y < before (y + 1)"
proof -
  assume "0 \<le> y"
  have "y div 4 \<le> (y + 1) div 4" "y div 400 \<le> (y + 1) div 400" by (simp_all add: zdiv_mono1)
  moreover have "(y + 1) div 100 \<le> y div 100 + 1" by linarith
  ultimately show ?thesis by (simp add: before_def)
qed

lemma year_before_le: "0 \<le> a \<Longrightarrow> a \<le> b \<Longrightarrow> before a \<le> before b"
proof (induction "nat (b - a)" arbitrary: b)
  case (Suc n)
  then have "before a \<le> before (b - 1)" by (intro Suc.hyps(1)) auto
  also have "\<dots> < before b" using before_mono [of "b - 1"] Suc.prems Suc.hyps(2) by simp
  finally show ?case by simp
qed simp

lemma year_exists: "0 \<le> d \<Longrightarrow> d < before (int n) \<Longrightarrow> \<exists>y. 0 \<le> y \<and> y < int n \<and> before y \<le> d \<and> d < before (y + 1)"
proof (induction n)
  case 0 then show ?case by (simp add: before_def)
next
  case (Suc n)
  show ?case
  proof (cases "d < before (int n)")
    case True
    with Suc obtain y where "0 \<le> y \<and> y < int n \<and> before y \<le> d \<and> d < before (y + 1)" by blast
    then show ?thesis by (intro exI [of _ y]) simp
  next
    case False
    then show ?thesis using Suc.prems by (intro exI [of _ "int n"]) (simp add: add.commute)
  qed
qed

lemma year_within_era_eq:
  assumes "0 \<le> y" "y < 400" "before y \<le> d" "d < before (y + 1)"
  shows "year_within_era d = y"
proof -
  from assms(1,2) obtain c q r where y: "y = 100 * c + 4 * q + r"
      and b: "0 \<le> c" "c \<le> 3" "0 \<le> q" "q \<le> 24" "0 \<le> r" "r \<le> 3"
    by (rule year_digits)
  define t where "t = d - before y"
  have d: "d = 36524 * c + 1461 * q + 365 * r + t" by (simp add: t_def y before_digits [OF b])
  have gap: "before (y + 1) - before y = (if r = 3 \<and> (q < 24 \<or> c = 3) then 366 else 365)"
    using before_step [OF b] by (simp add: y)
  have t: "0 \<le> t" "t \<le> 365" "t = 365 \<Longrightarrow> r = 3 \<and> (q < 24 \<or> c = 3)"
    using assms(3,4) gap by (auto simp: t_def split: if_splits)
  define final where "final \<longleftrightarrow> t = 365 \<and> c = 3 \<and> q = 24 \<and> r = 3"
  have c: "d div 36524 - d div 146096 = c"
  proof (cases final)
    case True
    then show ?thesis by (simp add: d final_def)
  next
    case False
    have "t \<le> 364 \<or> t = 365 \<and> r = 3 \<and> q < 24" using b t False by (auto simp: final_def)
    then have "0 \<le> 1461 * q + 365 * r + t" "1461 * q + 365 * r + t < 36524" using b t(1) by auto
    then have "d div 36524 = c" "d div 146096 = 0" using b by (auto simp: d)
    then show ?thesis by simp
  qed
  define w where "w = 24 * c + q + 365 * r + t"
  have "d = 1460 * (25 * c + q) + w" by (simp add: d w_def)
  moreover have "0 \<le> w" "w < 2920" using b t by (auto simp: w_def)
  ultimately have k: "d div 1460 = 25 * c + q + (if 1460 \<le> w then 1 else 0)" by auto
  have "1 \<le> t" if "1460 \<le> w" using that b by (simp add: w_def)
  moreover have "1460 \<le> w" if "t = 365" using t(3) [OF that] that b by (simp add: w_def)
  ultimately have "0 \<le> t - (if 1460 \<le> w then 1 else 0)" "t - (if 1460 \<le> w then 1 else 0) < 365"
    using t(1,2) by (cases "t = 365"; auto simp: not_le)+
  then have "(365 * k + (t - (if 1460 \<le> w then 1 else 0))) div 365 = k" for k :: int by simp
  moreover have "d - d div 1460 + d div 36524 - d div 146096
      = 365 * (100 * c + 4 * q + r) + (t - (if 1460 \<le> w then 1 else 0))"
    using c k by (simp add: d)
  ultimately show ?thesis by (simp only: year_within_era_def y)
qed

subsection \<open>The month of a day\<close>

text \<open>Month and day in a year that begins in March: one step, with the 29th of February the last day.\<close>

definition month_step :: "int \<Rightarrow> bool" where
  "month_step n =
     (case month_and_day n of (m, d) \<Rightarrow>
        1 \<le> m \<and> m \<le> 12 \<and> 1 \<le> d \<and> d \<le> 31 \<and> (m = 2 \<longrightarrow> d = n - 336) \<and> (m \<noteq> 2 \<longrightarrow> n < 337)
        \<and> month_and_day (n + 1)
          = (if m = 2 \<or> d < (if m \<in> {4, 6, 9, 11} then 30 else 31) then (m, d + 1)
             else if m < 12 then (m + 1, 1) else (1, 1)))"

lemma month_steps: "0 \<le> n \<Longrightarrow> n \<le> 364 \<Longrightarrow> month_step n"
proof -
  have "list_all month_step [0..364]" by code_simp
  then show "0 \<le> n \<Longrightarrow> n \<le> 364 \<Longrightarrow> month_step n" by (simp only: list_all_iff set_upto atLeastAtMost_iff)
qed

text \<open>The date of a day of a year that begins in March.\<close>

definition march_date :: "int \<Rightarrow> int \<Rightarrow> civil_date" where
  "march_date y n =
     (case month_and_day n of (m, d) \<Rightarrow> \<lparr>cd_year = (if m \<le> 2 then y + 1 else y), cd_month = m, cd_day = d\<rparr>)"

definition last_day :: "int \<Rightarrow> int" where
  "last_day y = (if leap (y + 1) then 365 else 364)"

lemma next_march_date:
  assumes "0 \<le> n" "n < last_day y"
  shows "next_day (march_date y n) = march_date y (n + 1)"
proof -
  obtain m d where md: "month_and_day n = (m, d)" by fastforce
  have n: "n \<le> 364" using assms(2) by (simp add: last_day_def split: if_splits)
  have s: "1 \<le> m" "m \<le> 12" "m = 2 \<Longrightarrow> d = n - 336"
      "month_and_day (n + 1) = (if m = 2 \<or> d < (if m \<in> {4, 6, 9, 11} then 30 else 31) then (m, d + 1)
             else if m < 12 then (m + 1, 1) else (1, 1))"
    using month_steps [OF assms(1) n] by (simp_all add: month_step_def md)
  have feb: "d < month_length (y + 1) 2" if "m = 2"
    using s(3) [OF that] assms(2) by (simp add: month_length_def last_day_def split: if_splits)
  show ?thesis
    using s feb by (simp add: march_date_def md next_day_def month_length_def)
qed

lemma next_march_year: "next_day (march_date y (last_day y)) = march_date (y + 1) 0"
proof -
  have "month_and_day 365 = (2, 29)" "month_and_day 364 = (2, 28)" "month_and_day 0 = (3, 1)" by code_simp+
  then show ?thesis
    by (cases "leap (y + 1)") (simp_all add: march_date_def next_day_def month_length_def last_day_def)
qed

lemma leap_gap: "0 \<le> y \<Longrightarrow> y < 400 \<Longrightarrow> before (y + 1) - before y = last_day y + 1"
proof -
  assume "0 \<le> y" "y < 400"
  then obtain c q r where y: "y = 100 * c + 4 * q + r"
      and b: "0 \<le> c" "c \<le> 3" "0 \<le> q" "q \<le> 24" "0 \<le> r" "r \<le> 3"
    by (rule year_digits)
  have "y + 1 = (25 * c + q) * 4 + (r + 1)" by (simp add: y)
  then have "4 dvd y + 1 \<longleftrightarrow> 4 dvd r + 1" by (simp only: dvd_add_times_triv_left_iff)
  also have "\<dots> \<longleftrightarrow> r = 3" using b(5,6) by (auto dest!: zdvd_imp_le)
  finally have four: "4 dvd y + 1 \<longleftrightarrow> r = 3" .
  have hundred: "100 dvd y + 1 \<longleftrightarrow> q = 24" if "r = 3"
  proof -
    have "y + 1 = c * 100 + (q + 1) * 4" by (simp add: y that)
    then have "100 dvd y + 1 \<longleftrightarrow> 100 dvd (q + 1) * 4" by (simp only: dvd_add_times_triv_left_iff)
    also have "\<dots> \<longleftrightarrow> q = 24" using b(3,4) by (auto dest!: zdvd_imp_le)
    finally show ?thesis .
  qed
  moreover have "400 dvd y + 1 \<longleftrightarrow> c = 3" if "r = 3" "q = 24"
  proof -
    have "y + 1 = (c + 1) * 100" by (simp add: y that)
    then show ?thesis using b(1,2) by (auto dest!: zdvd_imp_le)
  qed
  moreover have "\<not> 400 dvd y + 1" if "r = 3" "q \<noteq> 24"
    using hundred [OF that(1)] that(2) dvd_trans [of 100 400 "y + 1"] by auto
  moreover note four
  ultimately have "leap (y + 1) \<longleftrightarrow> r = 3 \<and> (q < 24 \<or> c = 3)" using b by (auto simp: leap_def)
  then show ?thesis using before_step [OF b] by (simp add: y last_day_def)
qed

lemma leap_era: "leap (y + 400 * e) = leap y"
proof -
  have "k dvd y + 400 * e \<longleftrightarrow> k dvd y" if "k dvd 400" for k :: int
    using that by (meson dvd_add_left_iff dvd_mult2)
  from this [of 4] this [of 100] this [of 400]
  have "4 dvd y + 400 * e \<longleftrightarrow> 4 dvd y" "100 dvd y + 400 * e \<longleftrightarrow> 100 dvd y" "400 dvd y + 400 * e \<longleftrightarrow> 400 dvd y"
    by simp_all
  then show ?thesis by (simp add: leap_def)
qed

lemma last_day_era: "last_day (y + 400 * e) = last_day y"
  using leap_era [of "y + 1" e] by (simp add: last_day_def algebra_simps)

text \<open>The date of a day, by its era, year and day of the year.\<close>

lemma civil_date_parts:
  assumes "0 \<le> y" "y < 400" "0 \<le> n" "n \<le> last_day y"
  shows "civil_date_from_unix_days (146097 * e + before y + n - 719468) = march_date (y + 400 * e) n"
proof -
  let ?d = "before y + n"
  have lt: "?d < before (y + 1)" using leap_gap [OF assms(1,2)] assms(4) by simp
  have "before (y + 1) \<le> before 400"
    using year_before_le [of "y + 1" 400] assms(1,2) by simp
  then have "?d < 146097" using lt by (simp add: before_def)
  moreover have "0 \<le> ?d" using assms(1,3) by (simp add: before_def)
  ultimately have era: "(146097 * e + ?d) div 146097 = e" by simp
  have yr: "year_within_era ?d = y" by (rule year_within_era_eq [OF assms(1,2) _ lt]) (use assms(3) in simp)
  have "days_before_year_within_era y = before y" using assms(1,2) by (simp add: days_before_year_within_era_def before_def)
  then show ?thesis
    using era yr by (simp add: civil_date_from_unix_days_def DAYS_PER_ERA_def DAYS_BEFORE_UNIX_EPOCH_def Let_def
        march_date_def algebra_simps split: prod.split)
qed

lemma unix_day_parts:
  assumes "0 \<le> k"
  obtains e y n where "0 \<le> y" "y < 400" "0 \<le> n" "n \<le> last_day y" "k = 146097 * e + before y + n - 719468"
proof -
  let ?D = "k + 719468"
  have "0 \<le> ?D mod 146097" "?D mod 146097 < before (int 400)" by (simp_all add: before_def)
  from year_exists [OF this] obtain y where y: "0 \<le> y" "y < 400" "before y \<le> ?D mod 146097" "?D mod 146097 < before (y + 1)"
    by auto
  have "?D = 146097 * (?D div 146097) + ?D mod 146097" by simp
  with y show thesis using leap_gap [OF y(1,2)]
    by (intro that [of y "?D mod 146097 - before y" "?D div 146097"]) simp_all
qed

lemma civil_date_step:
  assumes "0 \<le> k"
  shows "civil_date_from_unix_days (k + 1) = next_day (civil_date_from_unix_days k)"
proof -
  from assms obtain e y n where p: "0 \<le> y" "y < 400" "0 \<le> n" "n \<le> last_day y"
      and k: "k = 146097 * e + before y + n - 719468"
    by (rule unix_day_parts)
  have here: "civil_date_from_unix_days k = march_date (y + 400 * e) n" using civil_date_parts [OF p] by (simp add: k)
  show ?thesis
  proof (cases "n < last_day y")
    case True
    then have "civil_date_from_unix_days (k + 1) = march_date (y + 400 * e) (n + 1)"
      using civil_date_parts [OF p(1,2), of "n + 1" e] p(3) by (simp add: k algebra_simps)
    then show ?thesis using next_march_date [OF p(3), of "y + 400 * e"] True by (simp add: here last_day_era)
  next
    case False
    then have n: "n = last_day y" using p(4) by simp
    then have step: "k + 1 = 146097 * e + before (y + 1) - 719468" using leap_gap [OF p(1,2)] by (simp add: k)
    have "civil_date_from_unix_days (k + 1) = march_date (y + 400 * e + 1) 0"
    proof (cases "y = 399")
      case True
      have "before (399 + 1) = 146097" "before 0 = 0" by (simp_all add: before_def)
      then have kk: "k + 1 = 146097 * (e + 1) + before 0 + 0 - 719468" using step True by simp
      have yy: "y + 400 * e + 1 = 0 + 400 * (e + 1)" by (simp add: True)
      show ?thesis unfolding kk yy by (rule civil_date_parts) (simp_all add: last_day_def)
    next
      case False
      have kk: "k + 1 = 146097 * e + before (y + 1) + 0 - 719468" using step by simp
      have yy: "y + 400 * e + 1 = y + 1 + 400 * e" by simp
      show ?thesis unfolding kk yy by (rule civil_date_parts) (use p(1,2) False in \<open>simp_all add: last_day_def\<close>)
    qed
    then show ?thesis using next_march_year [of "y + 400 * e"] by (simp add: here n last_day_era)
  qed
qed

lemma civil_date_calendar: "civil_date_from_unix_days (int n) = (next_day ^^ n) epoch"
proof (induction n)
  case 0
  have "civil_date_from_unix_days 0 = epoch" by code_simp
  then show ?case by simp
next
  case (Suc n)
  then show ?case using civil_date_step [of "int n"] by (simp add: add.commute)
qed

text \<open>The runtime's own copy gives the same dates.\<close>

lemma runtime_date_same: "runtime_format_date t = Some (format_date t)"
proof -
  have "unat t < 2 ^ 64" using unsigned_less [of t, where ?'a = nat] by simp
  then have "unat t div SECONDS_PER_DAY < 2 ^ 63" by (simp add: SECONDS_PER_DAY_def less_mult_imp_div_less)
  then have small: "\<not> 2 ^ 63 \<le> unat t div SECONDS_PER_DAY" by (simp only: not_le)
  show ?thesis
    unfolding runtime_format_date_def format_date_def format_civil_def civil_date_from_unix_days_def Let_def
      month_and_day_def year_within_era_def days_before_year_within_era_def DAYS_PER_ERA_def DAYS_BEFORE_UNIX_EPOCH_def
      if_not_P [OF small]
    by (simp only: prod.case civil_date.simps)
qed

section \<open>Reading durations\<close>

lemma checked_of_nat:
  "checked_add (of_nat m :: u64) (of_nat n) = (if m + n < 2 ^ 64 then Some (of_nat (m + n)) else None)"
  "checked_mul (of_nat m :: u64) (of_nat n) = (if m * n < 2 ^ 64 then Some (of_nat (m * n)) else None)"
  if "m < 2 ^ 64" "n < 2 ^ 64"
  using that by (simp_all add: checked_add_def checked_mul_def unsigned_of_nat take_bit_nat_eq_self)

lemma read_digits_ge: "read_digits a ds = Some n \<Longrightarrow> a \<le> n"
proof (induction ds arbitrary: a)
  case (Cons c cs)
  then have "10 * a + (code c - 48) \<le> n" by (auto split: if_splits)
  then show ?case by linarith
qed simp

lemma read_amount_digits:
  "list_all is_ascii_digit ds \<Longrightarrow> a < 2 ^ 64 \<Longrightarrow>
   read_amount (of_nat a) ds = Option.bind (read_digits a ds) (\<lambda>n. if n < 2 ^ 64 then Some (of_nat n) else None)"
proof (induction ds arbitrary: a)
  case (Cons c cs)
  let ?d = "code c - 48"
  have d: "?d < 2 ^ 64" "is_ascii_digit c" using Cons.prems by (auto simp: is_ascii_digit_def)
  have ten: "checked_mul (of_nat a) 10 = (if a * 10 < 2 ^ 64 then Some (of_nat (a * 10) :: u64) else None)"
    using checked_of_nat(2) [OF Cons.prems(2), of 10] by simp
  show ?case
  proof (cases "10 * a + ?d < 2 ^ 64")
    case True
    then show ?thesis using Cons.IH [OF _ True] Cons.prems d checked_of_nat(1) [of "a * 10" ?d]
      by (simp only: read_amount.simps ten) (simp add: mult.commute)
  next
    case False
    then have "read_amount (of_nat a) (c # cs) = None"
      using d checked_of_nat(1) [of "a * 10" ?d]
      by (simp only: read_amount.simps ten) (auto simp: mult.commute is_ascii_digit_def)
    moreover have "\<not> n < 2 ^ 64" if "read_digits (10 * a + ?d) cs = Some n" for n
      using read_digits_ge [OF that] False by linarith
    ultimately show ?thesis using d(2)
      by (cases "read_digits (10 * a + ?d) cs") (simp_all del: read_amount.simps)
  qed
qed simp

lemma read_amount_nat: "read_amount 0 (show_nat n) = (if n < 2 ^ 64 then Some (of_nat n) else None)"
  using read_amount_digits [of "show_nat n" 0] show_nat_digits [of n] by (simp add: list_all_iff read_show_nat)

subsection \<open>What is read\<close>

text \<open>A text of numbers with units, as in \<open>1 hour 30 minutes\<close> or \<open>1m30s\<close>: spaces, a number, spaces, a unit.\<close>

type_synonym duration_token = "nat \<times> nat \<times> nat \<times> string"

fun token_text :: "duration_token \<Rightarrow> string" where
  "token_text (i, n, j, u) = replicate i CHR '' '' @ show_nat n @ replicate j CHR '' '' @ u"

definition tokens_text :: "duration_token list \<Rightarrow> string" where
  "tokens_text ts = concat (map token_text ts)"

definition unit_seconds :: "string \<Rightarrow> nat" where
  "unit_seconds u = (case multiplier (to_ascii_lowercase u) of None \<Rightarrow> 0 | Some m \<Rightarrow> unat m)"

definition known_unit :: "string \<Rightarrow> bool" where
  "known_unit u \<longleftrightarrow> multiplier (to_ascii_lowercase u) \<noteq> None"

definition tokens_total :: "duration_token list \<Rightarrow> nat" where
  "tokens_total ts = sum_list (map (\<lambda>(i, n, j, u). n * unit_seconds u) ts)"

lemma multiplier_unit:
  assumes "multiplier u = Some m"
  shows "u \<noteq> []" and "list_all is_ascii_alphabetic u" and "0 < unat m" and "to_ascii_lowercase u = u"
proof -
  let ?units = "[''s'', ''sec'', ''secs'', ''second'', ''seconds'', ''m'', ''min'', ''mins'', ''minute'', ''minutes'',
    ''h'', ''hr'', ''hrs'', ''hour'', ''hours'', ''d'', ''day'', ''days'', ''w'', ''week'', ''weeks'',
    ''mo'', ''month'', ''months'', ''y'', ''yr'', ''yrs'', ''year'', ''years'']"
  have "u \<in> set ?units"
    using assms unfolding multiplier_def by (simp split: if_splits) (elim disjE; simp)+
  moreover have "list_all (\<lambda>u. u \<noteq> [] \<and> list_all is_ascii_alphabetic u \<and> to_ascii_lowercase u = u) ?units" by code_simp
  ultimately have "u \<noteq> [] \<and> (\<forall>c \<in> set u. is_ascii_alphabetic c) \<and> to_ascii_lowercase u = u"
    unfolding list_all_iff by blast
  then show "u \<noteq> []" "list_all is_ascii_alphabetic u" "to_ascii_lowercase u = u" by (simp_all add: list_all_iff)
  show "0 < unat m" using assms by (auto simp: multiplier_def SECONDS_PER_DAY_def split: if_splits)
qed

lemma token_step:
  assumes "multiplier u = Some m" and "acc < 2 ^ 64" and "rest = [] \<or> \<not> is_ascii_alphabetic (hd rest)"
  shows "duration_loop (token_text (i, n, j, u) @ rest) (of_nat acc) found =
    (if acc + n * unat m < 2 ^ 64 then duration_loop rest (of_nat (acc + n * unat m)) True else Inl too_large)"
proof -
  note u = multiplier_unit [OF assms(1)]
  obtain c cs where c: "show_nat n = c # cs" "is_ascii_digit c"
    using show_nat_digits [of n] by (cases "show_nat n") auto
  obtain a as where a: "u = a # as" "is_ascii_alphabetic a" using u(1,2) by (cases u) auto
  have "solid c" "solid a" using c a by (simp_all add: solid_def is_ascii_alphanumeric_def)
  have digit_space: "\<not> is_ascii_digit CHR '' ''" by (simp add: is_ascii_digit_def code_def)
  have alpha_digit: "\<not> is_ascii_digit a" using a(2)
    by (auto simp: is_ascii_alphabetic_def is_ascii_digit_def is_ascii_lowercase_def is_ascii_uppercase_def)
  let ?tail = "replicate j CHR '' '' @ u @ rest"
  have s1: "trim_start (token_text (i, n, j, u) @ rest) = show_nat n @ ?tail"
    using trim_start_solid [OF \<open>solid c\<close>, of "cs @ ?tail"] by (simp add: c)
  have "takeWhile is_ascii_digit ?tail = []" "dropWhile is_ascii_digit ?tail = ?tail"
    using digit_space alpha_digit by (cases j; simp add: a)+
  then have digits: "takeWhile is_ascii_digit (show_nat n @ ?tail) = show_nat n"
      "dropWhile is_ascii_digit (show_nat n @ ?tail) = ?tail"
    using show_nat_digits [of n] by simp_all
  have s2: "trim_start ?tail = u @ rest"
    using trim_start_solid [OF \<open>solid a\<close>, of "as @ rest"] by (simp add: a)
  have "takeWhile is_ascii_alphabetic rest = []" "dropWhile is_ascii_alphabetic rest = rest"
    using assms(3) by (cases rest; auto)+
  then have unit: "takeWhile is_ascii_alphabetic (u @ rest) = u" "dropWhile is_ascii_alphabetic (u @ rest) = rest"
    using u(2) by (simp_all add: list_all_iff)
  have m: "m = of_nat (unat m)" "unat m < 2 ^ 64" using unsigned_less [of m, where ?'a = nat] by simp_all
  have big: "\<not> n * unat m < 2 ^ 64" if "\<not> n < 2 ^ 64"
    using that u(3) by (metis le_less_trans mult.right_neutral mult_le_mono2 Suc_leI One_nat_def)
  have prod: "checked_mul (of_nat n) m = (if n * unat m < 2 ^ 64 then Some (of_nat (n * unat m)) else None)" if "n < 2 ^ 64"
    using checked_of_nat(2) [OF that m(2)] m(1) by simp
  have sum: "checked_add (of_nat acc) (of_nat (n * unat m)) = (if acc + n * unat m < 2 ^ 64
      then Some (of_nat (acc + n * unat m) :: u64) else None)" if "n * unat m < 2 ^ 64"
    by (rule checked_of_nat(1) [OF assms(2) that])
  show ?thesis
  proof (cases "n < 2 ^ 64 \<and> n * unat m < 2 ^ 64")
    case True
    then show ?thesis using prod sum
      by (subst duration_loop.simps) (simp only: Let_def s1 digits read_amount_nat s2 unit assms(1) option.case
          if_True if_False simp_thms append_is_Nil_conv show_nat_nonempty split: option.split if_split; simp)
  next
    case False
    then show ?thesis using prod big
      by (subst duration_loop.simps) (simp only: Let_def s1 digits read_amount_nat s2 unit assms(1) option.case
          if_True if_False simp_thms append_is_Nil_conv show_nat_nonempty split: option.split if_split; auto)
  qed
qed

lemma lowercase_append [simp]: "to_ascii_lowercase (a @ b) = to_ascii_lowercase a @ to_ascii_lowercase b"
  by (simp add: to_ascii_lowercase_def)

lemma lowercase_numbers [simp]:
  "to_ascii_lowercase (show_nat n) = show_nat n" "to_ascii_lowercase (replicate k CHR '' '') = replicate k CHR '' ''"
proof -
  have "to_ascii_lower c = c" if "c \<in> set (show_nat n)" for c
    using show_nat_digits [of n] that by (auto simp: to_ascii_lower_def is_ascii_digit_def is_ascii_uppercase_def)
  then show "to_ascii_lowercase (show_nat n) = show_nat n" by (simp add: to_ascii_lowercase_def map_idI)
  show "to_ascii_lowercase (replicate k CHR '' '') = replicate k CHR '' ''"
    by (simp add: to_ascii_lowercase_def to_ascii_lower_def is_ascii_uppercase_def code_def)
qed

lemma lowercase_alphabetic: "is_ascii_alphabetic (to_ascii_lower c) = is_ascii_alphabetic c"
  by (auto simp: to_ascii_lower_def is_ascii_alphabetic_def is_ascii_lowercase_def is_ascii_uppercase_def)

fun lowered :: "duration_token \<Rightarrow> duration_token" where
  "lowered (i, n, j, u) = (i, n, j, to_ascii_lowercase u)"

lemma lowercase_token: "to_ascii_lowercase (token_text t) = token_text (lowered t)"
  by (cases t) simp

lemma lowercase_tokens: "to_ascii_lowercase (tokens_text ts) = tokens_text (map lowered ts)"
proof (induction ts)
  case (Cons t ts)
  then show ?case by (cases t) (simp add: tokens_text_def)
qed (simp add: tokens_text_def to_ascii_lowercase_def)

lemma tokens_text_start: "tokens_text ts = [] \<or> \<not> is_ascii_alphabetic (hd (tokens_text ts))"
proof (cases ts)
  case (Cons t us)
  obtain i n j u where t: "t = (i, n, j, u)" by (cases t) auto
  obtain c cs where c: "show_nat n = c # cs" "is_ascii_digit c"
    using show_nat_digits [of n] by (cases "show_nat n") auto
  have "\<not> is_ascii_alphabetic c" "\<not> is_ascii_alphabetic CHR '' ''"
    using c(2) by (auto simp: is_ascii_alphabetic_def is_ascii_digit_def is_ascii_lowercase_def is_ascii_uppercase_def code_def)
  then show ?thesis by (cases i) (simp_all add: Cons t tokens_text_def c)
qed (simp add: tokens_text_def)

lemma duration_loop_tokens:
  "\<forall>(i, n, j, u) \<in> set ts. known_unit u \<and> to_ascii_lowercase u = u \<Longrightarrow> acc < 2 ^ 64 \<Longrightarrow>
   duration_loop (tokens_text ts) (of_nat acc) found =
     (if acc + tokens_total ts < 2 ^ 64 then Inr (of_nat (acc + tokens_total ts), found \<or> ts \<noteq> []) else Inl too_large)"
proof (induction ts arbitrary: acc found)
  case Nil
  have "trim_start [] = []" by (simp add: trim_start.simps)
  with Nil show ?case by (subst duration_loop.simps) (simp add: tokens_text_def tokens_total_def)
next
  case (Cons t ts)
  obtain i n j u where t: "t = (i, n, j, u)" by (cases t) auto
  with Cons.prems(1) obtain m where m: "multiplier u = Some m" by (auto simp: known_unit_def)
  have sec: "unit_seconds u = unat m" using Cons.prems(1) m by (simp add: unit_seconds_def t)
  have "duration_loop (tokens_text (t # ts)) (of_nat acc) found =
      (if acc + n * unat m < 2 ^ 64 then duration_loop (tokens_text ts) (of_nat (acc + n * unat m)) True else Inl too_large)"
    using token_step [OF m Cons.prems(2) tokens_text_start [of ts], of i n j found] by (simp add: t tokens_text_def)
  then show ?case
    using Cons.IH [of "acc + n * unat m" True] Cons.prems(1) by (simp add: tokens_total_def t sec add.assoc)
qed

lemma known_unit_last: "known_unit u \<Longrightarrow> \<exists>v c. u = v @ [c] \<and> solid c"
proof -
  assume "known_unit u"
  then obtain m where m: "multiplier (to_ascii_lowercase u) = Some m" by (auto simp: known_unit_def)
  note l = multiplier_unit(1,2) [OF m]
  then have "u \<noteq> []" "is_ascii_alphabetic (last u)"
    by (auto simp: to_ascii_lowercase_def list_all_iff lowercase_alphabetic)
  then show ?thesis
    by (intro exI [of _ "butlast u"] exI [of _ "last u"]) (simp add: solid_def is_ascii_alphanumeric_def)
qed

lemma trim_tokens:
  assumes "\<forall>(i, n, j, u) \<in> set ((i, n, j, u) # ts). known_unit u"
  shows "trim (tokens_text ((i, n, j, u) # ts)) = tokens_text ((0, n, j, u) # ts)"
proof -
  obtain c cs where c: "show_nat n = c # cs" "is_ascii_digit c"
    using show_nat_digits [of n] by (cases "show_nat n") auto
  have "solid c" using c by (simp add: solid_def is_ascii_alphanumeric_def)
  then have start: "trim_start (tokens_text ((i, n, j, u) # ts)) = tokens_text ((0, n, j, u) # ts)"
    using trim_start_solid by (simp add: tokens_text_def c)
  let ?ts = "(0, n, j, u) # ts"
  obtain i' n' j' u' where l: "last ?ts = (i', n', j', u')" by (cases "last ?ts") auto
  have "\<forall>t \<in> set ?ts. case t of (i, n, j, u) \<Rightarrow> known_unit u" using assms by simp
  then have "case last ?ts of (i, n, j, u) \<Rightarrow> known_unit u" by (rule bspec) (rule last_in_set, simp)
  then have "known_unit u'" by (simp only: l prod.case)
  then obtain v a where v: "u' = v @ [a]" "solid a" using known_unit_last by blast
  have "tokens_text (xs @ [x]) = tokens_text xs @ token_text x" for xs x by (simp add: tokens_text_def)
  moreover have "butlast ?ts @ [last ?ts] = ?ts" by (rule append_butlast_last_id) simp
  ultimately have "tokens_text ?ts = tokens_text (butlast ?ts) @ token_text (last ?ts)"
    by metis
  then have e: "tokens_text ?ts = (tokens_text (butlast ?ts) @ replicate i' CHR '' '' @ show_nat n' @ replicate j' CHR '' '' @ v) @ [a]"
    unfolding l token_text.simps v(1) by (simp only: append_assoc)
  show ?thesis unfolding trim_def start by (subst (1 2) e) (rule trim_end_solid [OF v(2)])
qed

lemma tokens_total_lowered [simp]: "tokens_total (map lowered ts) = tokens_total ts"
proof -
  have "to_ascii_lower (to_ascii_lower c) = to_ascii_lower c" for c
    by (auto simp: to_ascii_lower_def is_ascii_uppercase_def)
  then have "unit_seconds (to_ascii_lowercase u) = unit_seconds u" for u
    by (simp add: unit_seconds_def to_ascii_lowercase_def comp_def)
  then have "(\<lambda>(i, n, j, u). n * unit_seconds u) (lowered t) = (\<lambda>(i, n, j, u). n * unit_seconds u) t" for t
    by (cases t) simp
  then show ?thesis by (simp add: tokens_total_def comp_def)
qed

lemma parse_tokens:
  assumes "ts \<noteq> []" and "\<forall>(i, n, j, u) \<in> set ts. known_unit u"
  shows "parse_duration (tokens_text ts) =
    (if 2 ^ 64 \<le> tokens_total ts then Inl too_large
     else if tokens_total ts = 0 then Inl ''Duration must be greater than zero.''
     else Inr (of_nat (tokens_total ts)))"
proof -
  obtain i n j u us where ts: "ts = (i, n, j, u) # us" using assms(1) by (cases ts) auto
  let ?ts = "map lowered ((0, n, j, u) # us)"
  have low: "to_ascii_lowercase (to_ascii_lowercase v) = to_ascii_lowercase v" for v
    by (auto simp: to_ascii_lowercase_def to_ascii_lower_def is_ascii_uppercase_def)
  have one: "case lowered t of (i, n, j, u) \<Rightarrow> known_unit u \<and> to_ascii_lowercase u = u"
    if "case t of (i, n, j, u) \<Rightarrow> known_unit u" for t
    using that by (cases t) (simp add: known_unit_def low)
  have "\<forall>t \<in> set ((0, n, j, u) # us). case t of (i, n, j, u) \<Rightarrow> known_unit u"
    using assms(2) unfolding ts by simp
  then have ok: "\<forall>(i, n, j, u) \<in> set ?ts. known_unit u \<and> to_ascii_lowercase u = u"
    unfolding set_map by (intro ballI) (erule imageE, simp only: one)
  have "to_ascii_lowercase (trim (tokens_text ts)) = tokens_text ?ts"
    using trim_tokens [OF assms(2) [unfolded ts]] by (simp only: ts lowercase_tokens)
  moreover have "tokens_total ?ts = tokens_total ts" unfolding tokens_total_lowered by (simp add: ts tokens_total_def)
  ultimately have "duration_loop (to_ascii_lowercase (trim (tokens_text ts))) 0 False =
      (if tokens_total ts < 2 ^ 64 then Inr (of_nat (tokens_total ts), True) else Inl too_large)"
    using duration_loop_tokens [OF ok, of 0 False] by simp
  moreover have "0 < (of_nat t :: u64) \<longleftrightarrow> t \<noteq> 0" if "t < 2 ^ 64" for t :: nat
    using that by (simp add: word_less_nat_alt unsigned_of_nat take_bit_nat_eq_self)
  ultimately show ?thesis
    unfolding parse_duration_def by (cases "tokens_total ts < 2 ^ 64") simp_all
qed

section \<open>Writing durations\<close>

definition plural :: "nat \<Rightarrow> string \<Rightarrow> string" where
  "plural n name = name @ (if n = 1 then [] else ''s'')"

definition part_token :: "nat \<times> string \<Rightarrow> duration_token" where
  "part_token p = (0, fst p, 1, plural (fst p) (snd p))"

lemma part_text_token: "part_text p = token_text (part_token p)"
  by (simp add: part_text_def part_token_def plural_def)

lemma multiplier_seconds: "multiplier u = Some m \<Longrightarrow> known_unit u \<and> unit_seconds u = unat m"
  using multiplier_unit(4) [of u m] by (simp add: known_unit_def unit_seconds_def)

lemma duration_unit_multipliers:
  "multiplier ''year'' = Some (of_nat (365 * SECONDS_PER_DAY))" "multiplier ''years'' = Some (of_nat (365 * SECONDS_PER_DAY))"
  "multiplier ''month'' = Some (of_nat (30 * SECONDS_PER_DAY))" "multiplier ''months'' = Some (of_nat (30 * SECONDS_PER_DAY))"
  "multiplier ''week'' = Some (of_nat (7 * SECONDS_PER_DAY))" "multiplier ''weeks'' = Some (of_nat (7 * SECONDS_PER_DAY))"
  "multiplier ''day'' = Some (of_nat (SECONDS_PER_DAY))" "multiplier ''days'' = Some (of_nat (SECONDS_PER_DAY))"
  "multiplier ''hour'' = Some (of_nat (60 * 60))" "multiplier ''hours'' = Some (of_nat (60 * 60))"
  "multiplier ''minute'' = Some (of_nat (60))" "multiplier ''minutes'' = Some (of_nat (60))"
  "multiplier ''second'' = Some (of_nat (1))" "multiplier ''seconds'' = Some (of_nat (1))"
  by (simp_all add: multiplier_def SECONDS_PER_DAY_def)

lemma duration_unit_names:
  "\<forall>(span, name) \<in> set duration_units. \<forall>n. known_unit (plural n name) \<and> unit_seconds (plural n name) = span"
proof -
  have "known_unit name \<and> unit_seconds name = span \<and> known_unit (name @ ''s'') \<and> unit_seconds (name @ ''s'') = span"
    if "(span, name) \<in> set duration_units" for span name
  proof -
    have "span < 2 ^ 64 \<and> multiplier name = Some (of_nat span) \<and> multiplier (name @ ''s'') = Some (of_nat span)"
      using that duration_unit_multipliers by (simp add: duration_units_def SECONDS_PER_DAY_def) (elim disjE; simp)
    then show ?thesis
      using multiplier_seconds [of name] multiplier_seconds [of "name @ ''s''"]
      by (simp add: unsigned_of_nat take_bit_nat_eq_self)
  qed
  then show ?thesis by (auto simp: plural_def)
qed

lemma tokens_total_Cons: "tokens_total ((i, n, j, u) # ts) = n * unit_seconds u + tokens_total ts"
  by (simp add: tokens_total_def)

lemma duration_parts_total:
  assumes "\<forall>(span, name) \<in> set us. \<forall>n. unit_seconds (plural n name) = span" and "us \<noteq> []" and "fst (last us) = 1"
  shows "tokens_total (map part_token (duration_parts us k)) = k"
  using assms
proof (induction us k rule: duration_parts.induct)
  case (2 span name us k)
  have sec: "unit_seconds (plural n name) = span" for n using 2(3) by simp
  show ?case
  proof (cases "us = []")
    case True
    then have "span = 1" using 2(5) by simp
    then show ?thesis using sec by (simp add: True tokens_total_def part_token_def)
  next
    case False
    then have rest: "\<forall>(span, name) \<in> set us. \<forall>n. unit_seconds (plural n name) = span" "us \<noteq> []" "fst (last us) = 1"
      using 2(3,5) by auto
    show ?thesis
    proof (cases "0 < k div span")
      case True
      then have "tokens_total (map part_token (duration_parts us (k mod span))) = k mod span"
        using 2(1) [OF refl] rest by simp
      then show ?thesis using True by (simp add: Let_def part_token_def [of "(k div span, name)"] tokens_total_Cons sec)
    next
      case small: False
      then show ?thesis using 2(2) [OF refl] rest by (simp add: Let_def)
    qed
  qed
qed simp

lemma duration_parts_known:
  "\<forall>(span, name) \<in> set us. \<forall>n. known_unit (plural n name) \<Longrightarrow>
   \<forall>p \<in> set (duration_parts us k). 0 < fst p \<and> known_unit (plural (fst p) (snd p))"
  by (induction us k rule: duration_parts.induct) (auto simp: Let_def)

lemma parts_of_duration:
  shows "tokens_total (map part_token (duration_parts duration_units k)) = k"
    and "\<forall>p \<in> set (duration_parts duration_units k). 0 < fst p \<and> known_unit (plural (fst p) (snd p))"
proof -
  have "\<forall>(span, name) \<in> set duration_units. \<forall>n. unit_seconds (plural n name) = span" using duration_unit_names by auto
  then show "tokens_total (map part_token (duration_parts duration_units k)) = k"
    by (rule duration_parts_total) (simp_all add: duration_units_def)
  show "\<forall>p \<in> set (duration_parts duration_units k). 0 < fst p \<and> known_unit (plural (fst p) (snd p))"
    by (rule duration_parts_known) (use duration_unit_names in auto)
qed

fun spaced :: "duration_token list \<Rightarrow> duration_token list" where
  "spaced [] = []"
| "spaced (t # ts) = t # map (\<lambda>(i, n, j, u). (1, n, j, u)) ts"

lemma join_parts: "join '' '' (map part_text ps) = tokens_text (spaced (map part_token ps))"
proof (induction ps rule: induct_list012)
  case (3 p q ps)
  have "tokens_text (map (\<lambda>(i, n, j, u). (1, n, j, u)) (map part_token (q # ps)))
      = '' '' @ tokens_text (spaced (map part_token (q # ps)))"
    by (simp add: tokens_text_def part_token_def)
  with 3(2) show ?case by (simp add: tokens_text_def part_text_token)
qed (simp_all add: tokens_text_def part_text_token)

lemma spaced_total [simp]: "tokens_total (spaced ts) = tokens_total ts"
proof (cases ts)
  case (Cons t us)
  have "tokens_total (map (\<lambda>(i, n, j, u). (1, n, j, u)) us) = tokens_total us"
    by (induction us) (auto simp: tokens_total_Cons)
  then show ?thesis by (cases t) (simp add: Cons tokens_total_Cons)
qed simp

lemma spaced_known: "\<forall>(i, n, j, u) \<in> set ts. known_unit u \<Longrightarrow> \<forall>(i, n, j, u) \<in> set (spaced ts). known_unit u"
  by (cases ts) auto

lemma tokens_known: "\<forall>p \<in> set ps. known_unit (plural (fst p) (snd p)) \<Longrightarrow> \<forall>(i, n, j, u) \<in> set (map part_token ps). known_unit u"
  by (auto simp: part_token_def)

text \<open>The joined parts are read back; so is the text of a duration of one unit, and nothing else: the
  words between several parts are not a number.\<close>

lemma parse_parts:
  assumes "ps = duration_parts duration_units (unat n)" and "n \<noteq> 0"
  shows "parse_duration (join '' '' (map part_text ps)) = Inr n"
proof -
  have tot: "tokens_total (map part_token ps) = unat n" using parts_of_duration(1) assms(1) by simp
  have "unat n \<noteq> 0" using assms(2) by (simp add: unat_eq_zero)
  then have ne: "ps \<noteq> []" using tot by (auto simp: tokens_total_def)
  have known: "\<forall>(i, n, j, u) \<in> set (spaced (map part_token ps)). known_unit u"
    by (intro spaced_known tokens_known) (use parts_of_duration(2) assms(1) in auto)
  have "spaced (map part_token ps) \<noteq> []" using ne by (cases ps) auto
  from parse_tokens [OF this known] show ?thesis
    using tot \<open>unat n \<noteq> 0\<close> unsigned_less [of n, where ?'a = nat] by (simp add: join_parts)
qed

definition wordy :: "string \<Rightarrow> bool" where
  "wordy s \<longleftrightarrow> (\<exists>t. s = CHR '','' # t \<or> s = CHR '' '' # CHR ''a'' # t)"

lemma wordy_rejected: "wordy rest \<Longrightarrow> \<exists>e. duration_loop rest acc found = Inl e"
proof -
  assume "wordy rest"
  then obtain c t where s: "trim_start rest = c # t" "\<not> is_ascii_digit c"
  proof (unfold wordy_def, elim exE disjE)
    fix t assume r: "rest = CHR '','' # t"
    have "white_prefix (map code (CHR '','' # t)) = 0"
      by (cases "map code t" rule: list.exhaust; cases "tl (map code t)") (auto simp: code_def)
    then have "trim_start rest = CHR '','' # t" by (subst trim_start.simps) (simp add: r)
    then show thesis by (rule that) (simp add: is_ascii_digit_def code_def)
  next
    fix t assume r: "rest = CHR '' '' # CHR ''a'' # t"
    have "solid CHR ''a''" by code_simp
    then have "trim_start rest = CHR ''a'' # t" using trim_start_solid by (simp add: r)
    then show thesis by (rule that) (simp add: is_ascii_digit_def code_def)
  qed
  then show ?thesis by (subst duration_loop.simps) (simp add: Let_def)
qed

lemma wordy_lowercase: "wordy s \<Longrightarrow> wordy (to_ascii_lowercase s)"
proof -
  have "to_ascii_lower CHR '','' = CHR '',''" "to_ascii_lower CHR '' '' = CHR '' ''" "to_ascii_lower CHR ''a'' = CHR ''a''"
    by code_simp+
  then show "wordy s \<Longrightarrow> wordy (to_ascii_lowercase s)" by (auto simp: wordy_def to_ascii_lowercase_def)
qed

text \<open>The text of several parts goes on after the first unit with a word.\<close>

lemma format_parts:
  assumes "duration_parts duration_units (unat n) = p # q # ps"
  obtains rest where "format_duration n = part_text p @ rest" and "wordy rest" and "\<exists>v c. rest = v @ [c] \<and> solid c"
proof -
  define l where "l = last (map part_text (q # ps))"
  obtain b where b: "butlast (map part_text (p # q # ps)) = part_text p # b" by simp
  have f: "format_duration n = join '', '' (part_text p # b) @ '' and '' @ l"
    using b by (simp add: format_duration_def assms Let_def l_def)
  have "last (q # ps) \<in> set (duration_parts duration_units (unat n))" using assms last_in_set [of "q # ps"] by simp
  then have "known_unit (plural (fst (last (q # ps))) (snd (last (q # ps))))" using parts_of_duration(2) by blast
  from known_unit_last [OF this] obtain v c where "plural (fst (last (q # ps))) (snd (last (q # ps))) = v @ [c]" "solid c" by blast
  moreover have "l = part_text (last (q # ps))" by (simp add: l_def last_map)
  ultimately have l: "\<exists>v c. l = v @ [c] \<and> solid c" by (auto simp: part_text_token part_token_def)
  then have e: "\<exists>v c. x @ l = v @ [c] \<and> solid c" for x by (metis append_assoc)
  show thesis
  proof (cases b)
    case Nil
    show thesis by (rule that [of "'' and '' @ l"]) (use f e in \<open>simp_all add: Nil wordy_def del: append.simps\<close>, simp)
  next
    case (Cons x xs)
    have "format_duration n = part_text p @ '', '' @ join '', '' (x # xs) @ '' and '' @ l" using f by (simp add: Cons)
    moreover have "\<exists>v c. '', '' @ join '', '' (x # xs) @ '' and '' @ l = v @ [c] \<and> solid c"
      using e [of "'', '' @ join '', '' (x # xs) @ '' and ''"] by (simp only: append_assoc)
    ultimately show thesis by (intro that) (simp_all add: wordy_def)
  qed
qed

lemma parse_several:
  assumes "duration_parts duration_units (unat n) = p # q # ps"
  shows "\<exists>e. parse_duration (format_duration n) = Inl e"
proof -
  from assms obtain rest where f: "format_duration n = part_text p @ rest" "wordy rest" and l: "\<exists>v c. rest = v @ [c] \<and> solid c"
    by (rule format_parts)
  have known: "known_unit (plural (fst p) (snd p))" using parts_of_duration(2) [of "unat n"] assms by simp
  then obtain m where m: "multiplier (to_ascii_lowercase (plural (fst p) (snd p))) = Some m" by (auto simp: known_unit_def)
  obtain c cs where c: "show_nat (fst p) = c # cs" "is_ascii_digit c"
    using show_nat_digits [of "fst p"] by (cases "show_nat (fst p)") auto
  have "solid c" using c by (simp add: solid_def is_ascii_alphanumeric_def)
  have pt: "part_text p = c # cs @ '' '' @ plural (fst p) (snd p)" by (simp add: part_text_def plural_def c)
  then have "trim_start (part_text p @ rest) = part_text p @ rest"
    using trim_start_solid [OF \<open>solid c\<close>] by simp
  moreover obtain v a where a: "rest = v @ [a]" "solid a" using l by blast
  have "trim_end_text (part_text p @ rest) = part_text p @ rest"
    using trim_end_solid [OF a(2), of "part_text p @ v"] by (simp add: a(1))
  ultimately have "trim (format_duration n) = part_text p @ rest" by (simp add: trim_def f(1))
  moreover have "to_ascii_lowercase (part_text p) = token_text (0, fst p, 1, to_ascii_lowercase (plural (fst p) (snd p)))"
    unfolding part_text_token part_token_def lowercase_token by simp
  ultimately have low: "to_ascii_lowercase (trim (format_duration n))
      = token_text (0, fst p, 1, to_ascii_lowercase (plural (fst p) (snd p))) @ to_ascii_lowercase rest" by simp
  have w: "wordy (to_ascii_lowercase rest)" by (rule wordy_lowercase [OF f(2)])
  then have "to_ascii_lowercase rest = [] \<or> \<not> is_ascii_alphabetic (hd (to_ascii_lowercase rest))"
    by (auto simp: wordy_def is_ascii_alphabetic_def is_ascii_lowercase_def is_ascii_uppercase_def code_def)
  from token_step [OF m _ this, of 0 0 "fst p" 1 False] wordy_rejected [OF w]
  have "\<exists>e. duration_loop (to_ascii_lowercase (trim (format_duration n))) 0 False = Inl e"
    unfolding low by (auto split: if_splits)
  then show ?thesis by (auto simp: parse_duration_def)
qed

lemma parse_single:
  assumes "duration_parts duration_units (unat n) = [p]"
  shows "parse_duration (format_duration n) = Inr n"
proof -
  have "n \<noteq> 0" using assms by (auto simp: duration_units_def)
  from parse_parts [OF refl this] show ?thesis by (simp add: assms format_duration_def Let_def)
qed

section \<open>Properties\<close>

text \<open>C29: The arithmetic that turns a day number into a date is the Gregorian calendar: the date of day \<open>n\<close> after
  the epoch is reached from 1970-01-01 by \<open>n\<close> steps to the next day, with its months, leap years and
  centuries; \<open>format_date\<close> prints that date for every timestamp, and the copy of the algorithm in the
  runtime prints the same text.\<close>

theorem dates_follow_calendar:
  "civil_date_from_unix_days (int n) = (next_day ^^ n) epoch
   \<and> format_date t = format_civil ((next_day ^^ (unat t div SECONDS_PER_DAY)) epoch)
   \<and> runtime_format_date t = Some (format_date t)"
  by (simp add: civil_date_calendar format_date_def runtime_date_same)

text \<open>\<open>parse_duration\<close> reads what its documentation promises: a text of numbers and units, with any spaces
  before and between them, in any case, with singular, plural and abbreviated units, is the sum of its
  parts in seconds. A sum that does not fit 64 bits is refused wherever the overflow happens, and so is zero.\<close>

theorem parse_duration_sum:
  assumes "ts \<noteq> []" and "\<forall>(i, n, j, u) \<in> set ts. known_unit u"
  shows "parse_duration (tokens_text ts) =
    (if 2 ^ 64 \<le> tokens_total ts then Inl too_large
     else if tokens_total ts = 0 then Inl ''Duration must be greater than zero.''
     else Inr (of_nat (tokens_total ts)))"
  using assms by (rule parse_tokens)

lemma sample_units:
  "known_unit ''HOUR'' \<and> unit_seconds ''HOUR'' = 3600" "known_unit ''minutes'' \<and> unit_seconds ''minutes'' = 60"
proof -
  have "to_ascii_lowercase ''HOUR'' = ''hour''" by code_simp
  then show "known_unit ''HOUR'' \<and> unit_seconds ''HOUR'' = 3600" using duration_unit_multipliers
    by (simp add: known_unit_def unit_seconds_def)
  show "known_unit ''minutes'' \<and> unit_seconds ''minutes'' = 60"
    using multiplier_seconds [of "''minutes''"] duration_unit_multipliers by simp
qed

lemma parse_duration_sum_witness: "parse_duration ''1 HOUR 30minutes'' = Inr 5400"
proof -
  let ?ts = "[(0, 1, 1, ''HOUR''), (1, 30, 0, ''minutes'')]"
  have "show_nat 1 = ''1''" "show_nat 30 = ''30''" by (code_simp, code_simp)
  then have t: "tokens_text ?ts = ''1 HOUR 30minutes''" by (simp add: tokens_text_def)
  have total: "tokens_total ?ts = 5400" using sample_units by (simp add: tokens_total_def)
  have "parse_duration (tokens_text ?ts) =
    (if 2 ^ 64 \<le> tokens_total ?ts then Inl too_large
     else if tokens_total ?ts = 0 then Inl ''Duration must be greater than zero.''
     else Inr (of_nat (tokens_total ?ts)))"
    by (rule parse_duration_sum) (use sample_units in simp_all)
  then show ?thesis unfolding total t by simp
qed

text \<open>The text of a duration: its parts add up to the duration, written with spaces they are read back as the
  same duration, and so is the formatted text of a duration of one unit. The text of several units,
  with its commas and \<open>and\<close>, is for people only: \<open>parse_duration\<close> refuses it.\<close>

theorem duration_text:
  "sum_list (map (\<lambda>(k, u). k * unit_seconds (plural k u)) (duration_parts duration_units (unat n))) = unat n
   \<and> (n \<noteq> 0 \<longrightarrow> parse_duration (join '' '' (map part_text (duration_parts duration_units (unat n)))) = Inr n)
   \<and> (length (duration_parts duration_units (unat n)) = 1 \<longrightarrow> parse_duration (format_duration n) = Inr n)
   \<and> (2 \<le> length (duration_parts duration_units (unat n)) \<longrightarrow> (\<exists>e. parse_duration (format_duration n) = Inl e))"
proof (intro conjI impI)
  let ?ps = "duration_parts duration_units (unat n)"
  have "(\<lambda>(i, n, j, u). n * unit_seconds u) (part_token p) = (\<lambda>(k, u). k * unit_seconds (plural k u)) p" for p
    by (cases p) (simp add: part_token_def)
  then show "sum_list (map (\<lambda>(k, u). k * unit_seconds (plural k u)) ?ps) = unat n"
    using parts_of_duration(1) [of "unat n"] by (simp add: tokens_total_def comp_def)
  show "parse_duration (join '' '' (map part_text ?ps)) = Inr n" if "n \<noteq> 0" by (rule parse_parts [OF refl that])
  show "parse_duration (format_duration n) = Inr n" if "length ?ps = 1"
    using that parse_single by (auto simp: length_Suc_conv)
  show "\<exists>e. parse_duration (format_duration n) = Inl e" if "2 \<le> length ?ps"
    using that parse_several by (cases ?ps rule: remdups_adj.cases) auto
qed

lemma sample_parts: "duration_parts duration_units 90 = [(1, ''minute''), (30, ''second'')]"
  by (simp add: duration_units_def SECONDS_PER_DAY_def Let_def)

lemma duration_text_witness:
  "parse_duration ''1 minute 30 seconds'' = Inr 90 \<and> is_ok (parse_duration (format_duration 90)) = False"
proof -
  have "show_nat 1 = ''1''" "show_nat 30 = ''30''" by (code_simp, code_simp)
  then have t: "join '' '' (map part_text [(1, ''minute''), (30, ''second'')]) = ''1 minute 30 seconds''"
    by (simp add: part_text_def)
  have n: "unat (90 :: u64) = 90" by simp
  have d: "(90 :: u64) \<noteq> 0" by simp
  from duration_text [of 90, unfolded n sample_parts t] d show ?thesis by auto
qed

text \<open>An offset that \<open>parse_timezone\<close> passes to the time zone package is less than a day: at most 23 hours and 59
  minutes either way. The sign is read twice, once for the offset and once by the parser of each field,
  so that \<open>+-5:30\<close>, which is not of the announced form, is taken for 4 hours 30 minutes west.\<close>

theorem timezone_offset_bounds:
  assumes "parse_timezone (env\<lparr>tz_offset := \<lambda>s. Inr (f s), tz_named := \<lambda>n. Inl n\<rparr>) v = Inr z"
  shows "\<exists>s. z = f s \<and> \<bar>s\<bar> \<le> 23 * 3600 + 59 * 60"
proof -
  have two: "i \<le> 99 \<and> - 9 \<le> i" if "parse_i32 s = Inr i" "length s = 2" for s i
  proof -
    from that(2) obtain a b where s: "s = [a, b]" by (auto simp: length_Suc_conv numeral_2_eq_2)
    have "code a < 256 \<and> code b < 256" by (simp add: code_def of_char_def)
    then show ?thesis using that(1)
      by (auto simp: parse_i32_def s parse_unsigned_def Let_def is_ascii_digit_def split: if_splits option.splits)
  qed
  let ?sign = "(if strip_prefix ''-'' v \<noteq> None then - 1 else 1) :: int"
  obtain off h m where o: "length off = 5" "parse_i32 (take 2 off) = Inr h" "parse_i32 (drop 3 off) = Inr m"
      "h \<le> 23" "m \<le> 59" "z = f (?sign * (h * 3600 + m * 60))"
    using assms unfolding parse_timezone_def by (auto split: option.splits sum.splits if_splits simp: not_less)
  have "- 9 \<le> h" "- 9 \<le> m" using two [OF o(2)] two [OF o(3)] o(1) by simp_all
  then have "\<bar>?sign * (h * 3600 + m * 60)\<bar> \<le> 23 * 3600 + 59 * 60" using o(4,5) by (auto simp: abs_if)
  with o(6) show ?thesis by blast
qed

definition sample_tz :: "(int, unit) tz_env" where
  "sample_tz = \<lparr>tz_offset = Inr, tz_named = Inl, tz_system = 0, tz_timestamp = \<lambda>_. None, tz_civil = \<lambda>_. None,
     tz_zoned = \<lambda>_ _. Inr 0, tz_in_range = \<lambda>_. True, tz_local = \<lambda>_ _. []\<rparr>"

lemma sample_offset: "parse_timezone sample_tz ''+-5:30'' = Inr (- 16200)"
  by (simp add: parse_timezone_def sample_tz_def parse_i32_def strip_prefix_def parse_unsigned_def is_ascii_digit_def code_def)

lemma timezone_offset_bounds_witness:
  "parse_timezone sample_tz ''+-5:30'' = Inr (- 16200) \<and> (\<exists>s. - 16200 = s \<and> \<bar>s\<bar> \<le> (23 * 3600 + 59 * 60 :: int))"
proof -
  have "sample_tz\<lparr>tz_offset := \<lambda>s. Inr s, tz_named := \<lambda>n. Inl n\<rparr> = sample_tz" by (simp add: sample_tz_def)
  then have "parse_timezone (sample_tz\<lparr>tz_offset := \<lambda>s. Inr s, tz_named := \<lambda>n. Inl n\<rparr>) ''+-5:30'' = Inr (- 16200)"
    using sample_offset by simp
  from timezone_offset_bounds [OF this] sample_offset show ?thesis by simp
qed

end
