(* ===== verification/Schedule_Text.thy ===== *)
theory Schedule_Text
  imports Tool_Catalog Date_Laws Redaction
begin

text \<open>
  The texts around scheduled tasks (\<open>krabb-runtime/src/lib.rs\<close>): the list of schedules, the outcome a model
  reports, and the command line of \<open>krabb schedule add\<close>, from its arguments to the parameters that are sent
  to the scheduler.
\<close>

section \<open>The list of schedules\<close>

definition schedule_outcome_label :: "string \<Rightarrow> string" where
  "schedule_outcome_label outcome =
     (if outcome = ''completed'' then ''completed successfully''
      else if outcome = ''retrying'' then ''failed; retry queued''
      else if outcome = ''continuing'' then ''failed; next occurrence remains scheduled''
      else if outcome = ''cancelled'' then ''cancelled''
      else if outcome = ''skipped'' then ''skipped''
      else ''failed; task paused'')"

text \<open>The branches of a tree, as UTF-8.\<close>

definition last_branch :: string where
  "last_branch = [CHR 0xE2, CHR 0x94, CHR 0x94, CHR 0xE2, CHR 0x94, CHR 0x80]"

definition inner_branch :: string where
  "inner_branch = [CHR 0xE2, CHR 0x94, CHR 0x9C, CHR 0xE2, CHR 0x94, CHR 0x80]"

definition trunk :: string where
  "trunk = [CHR 0xE2, CHR 0x94, CHR 0x82, CHR '' '', CHR '' '']"

definition dash :: string where
  "dash = [CHR 0xE2, CHR 0x80, CHR 0x93]"

definition format_tree_entry :: "string \<Rightarrow> string list \<Rightarrow> bool \<Rightarrow> string" where
  "format_tree_entry label details is_last =
     (let root_branch = (if is_last then last_branch else inner_branch);
          child_prefix = (if is_last then ''   '' else trunk)
      in join [CHR 0x0A]
           ((root_branch @ '' '' @ label)
            # map (\<lambda>(index, detail). child_prefix
                 @ (if index + 1 = length details then last_branch else inner_branch) @ '' '' @ detail)
                (enumerate 0 details)))"

definition format_tree_list :: "string list \<Rightarrow> string" where
  "format_tree_list entries =
     join [CHR 0x0A]
       (map (\<lambda>(index, entry). format_tree_entry entry [] (index + 1 = length entries)) (enumerate 0 entries))"

definition zone_of :: "json \<Rightarrow> string" where
  "zone_of v = (case as_str (json_index v ''zone'') of None \<Rightarrow> ''UTC'' | Some z \<Rightarrow> z)"

definition number_or :: "nat \<Rightarrow> json \<Rightarrow> nat" where
  "number_or n v = (case as_u64 v of None \<Rightarrow> n | Some i \<Rightarrow> i)"

definition text_or :: "string \<Rightarrow> json \<Rightarrow> string" where
  "text_or t v = (case as_str v of None \<Rightarrow> t | Some s \<Rightarrow> s)"

definition schedule_name :: "json \<Rightarrow> string" where
  "schedule_name item = text_or ''Scheduled task'' (json_index item ''name'')"

definition repeat_details :: "json \<Rightarrow> string list" where
  "repeat_details item =
     (case as_str (json_index item ''cron'') of
        Some cron \<Rightarrow> [''Repeats on cron '' @ cron @ '' in '' @ zone_of item]
      | None \<Rightarrow>
          (case as_u64 (json_index item ''repeat'') of
             Some n \<Rightarrow> if 0 < n then [''Repeats every '' @ format_duration (of_nat n)] else []
           | None \<Rightarrow> []))"

definition schedule_details :: "('z, 'c) tz_env \<Rightarrow> json \<Rightarrow> string list" where
  "schedule_details tz item =
     (let at = (\<lambda>n. format_datetime_in_timezone tz (of_nat n) (zone_of item));
          retries = number_or 0 (json_index item ''retries'')
      in [case as_u64 (json_index item ''due'') of Some due \<Rightarrow> ''Next run: '' @ at due | None \<Rightarrow> ''No upcoming run'']
       @ repeat_details item
       @ [if 0 < retries
          then ''Automatic retries: '' @ show_nat (min (number_or 0 (json_index item ''attempts'') - 1) retries)
                 @ '' of '' @ show_nat retries @ '' used''
          else ''Automatic retries are off'']
       @ (if json_index item ''on_failure'' = JStr ''continue'' then [''Continues after failed occurrences''] else [])
       @ (case as_u64 (json_index item ''retry_at'') of Some r \<Rightarrow> [''Next retry: '' @ at r] | None \<Rightarrow> [])
       @ (if json_index item ''run_requested'' = JBool True then [''A manual run is queued''] else [])
       @ (if json_index item ''pause_requested'' = JBool True
          then [''Pause requested; the current run will finish before the schedule pauses''] else [])
       @ (case as_str (json_index item ''last_outcome'') of
            Some outcome \<Rightarrow> [''Last result: '' @ schedule_outcome_label outcome
              @ ''. Details: krabb schedule history '' @ schedule_name item]
          | None \<Rightarrow> []))"

definition format_schedule_list :: "('z, 'c) tz_env \<Rightarrow> json \<Rightarrow> string" where
  "format_schedule_list tz v =
     (case as_array (json_index v ''items'') of
        None \<Rightarrow> ''There are no schedules to list.''
      | Some [] \<Rightarrow> ''There are no schedules to list.''
      | Some items \<Rightarrow>
          (let rows = List.map_filter
                 (\<lambda>(index, item). map_option
                    (\<lambda>i. format_tree_entry
                       (show_nat i @ '' | '' @ schedule_name item @ '' | '' @ text_or ''pending'' (json_index item ''status''))
                       (schedule_details tz item) (index + 1 = length items))
                    (as_u64 (json_index item ''id'')))
                 (enumerate 0 items);
               number = (\<lambda>n k. show_nat (number_or n (json_index v k)))
           in ''Schedules ('' @ number 1 ''from'' @ dash @ number (length items) ''to'' @ '' of ''
              @ number (length items) ''total'' @ '', page '' @ number 1 ''page'' @ '' of '' @ number 1 ''pages'' @ '')''
              @ [CHR 0x0A] @ join [CHR 0x0A, CHR 0x0A] rows))"

section \<open>The outcome of a run\<close>

text \<open>Whether the run completed, pauses the task, was cancelled, and what is reported.\<close>

definition unconfirmed :: string where
  "unconfirmed = ''The agent did not confirm task completion; review the response before retrying. ''"

definition scheduled_outcome :: "(string \<Rightarrow> string) \<Rightarrow> string \<Rightarrow> bool \<times> bool \<times> bool \<times> string" where
  "scheduled_outcome upper v =
     (let tx = trim_start v in
      case strip_prefix ''DONE:'' tx of
        Some r \<Rightarrow>
          if trim r \<noteq> [] then (True, False, False, sentence upper (trim r))
          else (False, True, False, unconfirmed @ sentence upper (trim tx))
      | None \<Rightarrow>
      (case strip_prefix ''CANCELLED:'' tx of
        Some r \<Rightarrow> (False, False, True, trim r)
      | None \<Rightarrow>
      (case strip_prefix ''PAUSED:'' tx of
        Some r \<Rightarrow> (False, True, False, trim r)
      | None \<Rightarrow>
      (case strip_prefix ''RETRYABLE:'' tx of
        Some r \<Rightarrow> (False, False, False, trim r)
      | None \<Rightarrow> (False, True, False, unconfirmed @ sentence upper (trim tx))))))"

definition scheduled_visible_text :: "string \<Rightarrow> string" where
  "scheduled_visible_text v =
     (let tx = trim_start v in
      case List.map_filter (\<lambda>p. map_option trim_start (strip_prefix p tx)) [''DONE:'', ''CANCELLED:'', ''PAUSED:'', ''RETRYABLE:''] of
        [] \<Rightarrow> tx | r # _ \<Rightarrow> r)"

definition scheduled_error_outcome :: "(string \<Rightarrow> string) \<Rightarrow> string \<Rightarrow> bool \<Rightarrow> bool \<Rightarrow> bool \<times> bool \<times> bool \<times> string" where
  "scheduled_error_outcome upper e interrupted may_have_mutated =
     (if interrupted
      then (False, False, True, ''The scheduled action was interrupted. A side effect may already have happened.'')
      else
        (case strip_prefix ''CANCELLED:'' e of
           Some r \<Rightarrow> (False, False, True, sentence upper (trim r))
         | None \<Rightarrow>
         (case strip_prefix ''PAUSED:'' e of
           Some r \<Rightarrow> (False, True, False, sentence upper (trim r))
         | None \<Rightarrow>
             if may_have_mutated
             then (False, True, False, ''A mutating action may have completed; review it before retrying. '' @ sentence upper e)
             else (False, False, False, sentence upper (trim
                    (case strip_prefix ''RETRYABLE:'' e of Some r \<Rightarrow> r | None \<Rightarrow> e))))))"

definition scheduled_tool_failure :: "(string \<Rightarrow> string) \<Rightarrow> string \<Rightarrow> bool \<Rightarrow> string" where
  "scheduled_tool_failure upper e may_have_mutated =
     (let e' = sentence upper (redact_diagnostic e) in
      if may_have_mutated
      then ''PAUSED: A scheduled tool failed after a mutating action may have completed; review it before retrying. '' @ e'
      else ''RETRYABLE: A scheduled tool failed. '' @ e')"

definition scheduled_result_heading :: "string \<Rightarrow> string" where
  "scheduled_result_heading status =
     (if status = ''completed'' then ''Scheduled task completed''
      else if status = ''skipped'' then ''Scheduled task skipped''
      else if status = ''retrying'' then ''Scheduled task failed; retry queued''
      else if status = ''continuing'' then ''Scheduled task failed; next run remains active''
      else if status = ''cancelled'' then ''Scheduled task cancelled''
      else ''Scheduled task paused'')"

section \<open>Options of \<open>schedule add\<close>\<close>

definition valid_schedule_name :: "string \<Rightarrow> bool" where
  "valid_schedule_name name \<longleftrightarrow>
     (case name of
        [] \<Rightarrow> False
      | c # cs \<Rightarrow> is_ascii_alphanumeric c
          \<and> list_all (\<lambda>c. is_ascii_alphanumeric c \<or> c \<in> {CHR ''-'', CHR ''_'', CHR ''.''}) cs)"

definition requested_tui_destination :: "string \<Rightarrow> destination option" where
  "requested_tui_destination instruction =
     (if list_ex (contains_text (to_ascii_lowercase instruction))
           [''default tui chat'', ''default tui session'', ''default chat in tui'']
      then Some \<lparr>de_channel = ''tui'', de_chat = ''tui-default'', de_private = False, de_thread = None\<rparr> else None)"

definition parse_schedule_duration :: "string \<Rightarrow> string \<Rightarrow> string + nat" where
  "parse_schedule_duration v option =
     (case (case parse_unsigned (2 ^ 64 - 1) v of
              Some n \<Rightarrow> Inr n
            | None \<Rightarrow> (case parse_duration v of
                         Inr w \<Rightarrow> Inr (unat w)
                       | Inl e \<Rightarrow> Inl (option @ '' needs a duration such as 5m or '' @ [CHR 0x22] @ ''1 month'' @ [CHR 0x22] @ ''.''))) of
        Inl e \<Rightarrow> Inl e
      | Inr seconds \<Rightarrow>
          if 5 \<le> seconds \<and> seconds \<le> 31536000 then Inr seconds
          else Inl (option @ '' must be between 5 seconds and 1 year.''))"

text \<open>\<open>str::parse::<u8>\<close> with the messages of its errors.\<close>

fun u8_digits :: "nat \<Rightarrow> string \<Rightarrow> string + nat" where
  "u8_digits acc [] = Inr acc"
| "u8_digits acc (c # cs) =
     (if \<not> is_ascii_digit c then Inl ''invalid digit found in string''
      else if 255 < acc * 10 + (code c - 48) then Inl ''number too large to fit in target type''
      else u8_digits (acc * 10 + (code c - 48)) cs)"

definition parse_u8 :: "string \<Rightarrow> string + nat" where
  "parse_u8 s =
     (case s of
        [] \<Rightarrow> Inl ''cannot parse integer from empty string''
      | c # cs \<Rightarrow> if c = CHR ''+'' \<and> cs \<noteq> [] then u8_digits 0 cs else u8_digits 0 s)"

record add_options =
  ao_delay :: "nat option"
  ao_repeat :: "nat option"
  ao_at :: "string option"
  ao_cron :: "string option"
  ao_timezone :: "string option"
  ao_missed :: "string option"
  ao_on_failure :: "string option"
  ao_retries :: "nat option"
  ao_shell :: bool
  ao_channel :: "string option"
  ao_chat :: "string option"
  ao_kind :: "string option"
  ao_thread :: "string option"
  ao_name :: "string option"
  ao_provider :: "string option"
  ao_model :: "string option"
  ao_instruction :: "string list"

definition no_options :: add_options where
  "no_options = \<lparr>ao_delay = None, ao_repeat = None, ao_at = None, ao_cron = None, ao_timezone = None, ao_missed = None,
     ao_on_failure = None, ao_retries = None, ao_shell = False, ao_channel = None, ao_chat = None, ao_kind = None,
     ao_thread = None, ao_name = None, ao_provider = None, ao_model = None, ao_instruction = []\<rparr>"

text \<open>The options that take a text: the message when it is missing, and the variable that keeps it.\<close>

definition text_option :: "string \<Rightarrow> (string \<times> (string \<Rightarrow> add_options \<Rightarrow> add_options)) option" where
  "text_option a =
     (if a = ''--at'' then Some (''--at requires a date and time, such as '' @ [CHR 0x22] @ ''2026-10-20 09:00'' @ [CHR 0x22] @ ''.'',
        \<lambda>v p. p\<lparr>ao_at := Some v\<rparr>)
      else if a = ''--cron'' then Some (''--cron requires a five-field expression.'', \<lambda>v p. p\<lparr>ao_cron := Some v\<rparr>)
      else if a = ''--timezone'' then Some (''--timezone requires an IANA timezone.'', \<lambda>v p. p\<lparr>ao_timezone := Some v\<rparr>)
      else if a = ''--missed'' then Some (''--missed requires skip, coalesce, or replay.'', \<lambda>v p. p\<lparr>ao_missed := Some v\<rparr>)
      else if a = ''--on-failure'' then Some (''--on-failure requires pause or continue.'', \<lambda>v p. p\<lparr>ao_on_failure := Some v\<rparr>)
      else if a = ''--message-channel'' then Some (''--message-channel requires a channel ID.'', \<lambda>v p. p\<lparr>ao_channel := Some v\<rparr>)
      else if a = ''--message-chat'' then Some (''--message-chat requires a chat ID.'', \<lambda>v p. p\<lparr>ao_chat := Some v\<rparr>)
      else if a = ''--message-kind'' then Some (''--message-kind requires private or group.'', \<lambda>v p. p\<lparr>ao_kind := Some v\<rparr>)
      else if a = ''--message-thread'' then Some (''--message-thread requires a thread ID.'', \<lambda>v p. p\<lparr>ao_thread := Some v\<rparr>)
      else if a = ''--name'' then Some (''--name requires a short schedule name.'', \<lambda>v p. p\<lparr>ao_name := Some v\<rparr>)
      else if a = ''--provider'' then Some (''--provider requires an installed provider ID.'', \<lambda>v p. p\<lparr>ao_provider := Some v\<rparr>)
      else if a = ''--model'' then Some (''--model requires a model name.'', \<lambda>v p. p\<lparr>ao_model := Some v\<rparr>)
      else None)"

fun read_options :: "string list \<Rightarrow> add_options \<Rightarrow> string + add_options" where
  "read_options [] p = Inr p"
| "read_options (a # rest) p =
     (if a = ''--after'' then
        (case rest of
           [] \<Rightarrow> Inl ''--after requires a duration.''
         | v # rest' \<Rightarrow> (case parse_schedule_duration v ''--after'' of
                          Inl e \<Rightarrow> Inl e
                        | Inr n \<Rightarrow> read_options rest' (p\<lparr>ao_delay := Some n\<rparr>)))
      else if a = ''--every'' then
        (case rest of
           [] \<Rightarrow> Inl ''--every requires a duration.''
         | v # rest' \<Rightarrow> (case parse_schedule_duration v ''--every'' of
                          Inl e \<Rightarrow> Inl e
                        | Inr n \<Rightarrow> read_options rest' (p\<lparr>ao_repeat := Some n\<rparr>)))
      else if a = ''--retries'' then
        (case rest of
           [] \<Rightarrow> Inl ''--retries requires a number from 0 to 5.''
         | v # rest' \<Rightarrow> (case parse_u8 v of
                          Inl e \<Rightarrow> Inl e
                        | Inr n \<Rightarrow> if 5 < n then Inl ''Scheduled tasks can be configured for at most five retries.''
                                  else read_options rest' (p\<lparr>ao_retries := Some n\<rparr>)))
      else
        (case text_option a of
           Some (missing, set_value) \<Rightarrow>
             (case rest of [] \<Rightarrow> Inl missing | v # rest' \<Rightarrow> read_options rest' (set_value v p))
         | None \<Rightarrow>
             if a = ''--shell'' then read_options rest (p\<lparr>ao_shell := True\<rparr>)
             else if a = ''--'' then Inr (p\<lparr>ao_instruction := ao_instruction p @ rest\<rparr>)
             else if strip_prefix ''-'' a \<noteq> None then Inl (''Unknown schedule option '' @ a @ ''.'')
             else read_options rest (p\<lparr>ao_instruction := ao_instruction p @ [a]\<rparr>)))"

section \<open>The parameters of \<open>schedule add\<close>\<close>

text \<open>What the command reads: the configuration with the time zone and the policy for missed runs, the lock file
  with the capabilities of each plugin, and which plugins have a binary.\<close>

record schedule_config =
  sc_timezone :: "string option"
  sc_missed :: string
  sc_tui_shell :: bool

record ('z, 'c) add_env =
  ae_tz :: "('z, 'c) tz_env"
  ae_now :: u64
  ae_config :: "string + schedule_config"
  ae_lock :: "string + (string \<times> string list) list"
  ae_binary :: "string \<Rightarrow> bool"

definition destination_json :: "destination option \<Rightarrow> json" where
  "destination_json d = jopt (\<lambda>d. jobject
     [(''channel'', JStr (de_channel d)), (''chat'', JStr (de_chat d)), (''private'', JBool (de_private d)),
      (''thread'', jopt JStr (de_thread d))]) d"

definition message_destination :: "add_options \<Rightarrow> string \<Rightarrow> string + destination option" where
  "message_destination p instruction =
     (case (ao_channel p, ao_chat p, ao_kind p) of
        (Some channel, Some chat, Some kind) \<Rightarrow>
          if (case ao_thread p of None \<Rightarrow> False | Some t \<Rightarrow> blank t) then Inl ''The scheduled message thread is invalid.''
          else if kind \<noteq> ''private'' \<and> kind \<noteq> ''group'' then Inl ''Message kind must be private or group.''
          else
            (case authorized_destination (jobject
                    [(''channel'', JStr channel), (''chat'', JStr chat), (''private'', JBool (kind = ''private'')),
                     (''thread'', jopt JStr (ao_thread p))]) of
               None \<Rightarrow> Inl ''The scheduled message destination is invalid.''
             | Some d \<Rightarrow> Inr (Some d))
      | (c, h, k) \<Rightarrow>
          if c = None \<and> h = None \<and> k = None \<and> ao_thread p = None then Inr (requested_tui_destination instruction)
          else Inl ''Set --message-channel, --message-chat, and --message-kind together; --message-thread is optional.'')"

definition year_seconds :: nat where "year_seconds = 31536000"

definition selected_times :: "add_options \<Rightarrow> bool list" where
  "selected_times p =
     [ao_delay p \<noteq> None \<or> ao_repeat p \<noteq> None \<and> ao_at p = None \<and> ao_cron p = None, ao_at p \<noteq> None, ao_cron p \<noteq> None]"

definition interval_outside :: "nat option \<Rightarrow> bool" where
  "interval_outside d \<longleftrightarrow> (case d of None \<Rightarrow> False | Some n \<Rightarrow> n < 5 \<or> year_seconds < n)"

text \<open>The checks before the configuration is read, and the delay they leave.\<close>

definition check_times :: "add_options \<Rightarrow> string + nat option" where
  "check_times p =
     (if ao_cron p \<noteq> None \<and> ao_repeat p \<noteq> None then Inl ''Choose either --cron or --every for a recurring schedule.''
      else if length (filter id (selected_times p)) \<noteq> 1 then Inl ''Choose exactly one of --after, --at, or --cron.''
      else if interval_outside (ao_delay p) then Inl ''Schedule delay must be between five seconds and one year.''
      else if interval_outside (ao_repeat p) then Inl ''Schedule repeat interval must be between five seconds and one year.''
      else Inr (if ao_delay p = None \<and> ao_at p = None \<and> ao_cron p = None then ao_repeat p else ao_delay p))"

definition member :: "string option \<Rightarrow> string list \<Rightarrow> bool" where
  "member v choices \<longleftrightarrow> (case v of None \<Rightarrow> True | Some s \<Rightarrow> s \<in> set choices)"

text \<open>The checks of the policies, with the time zone and the exact time.\<close>

definition check_policies :: "add_options \<Rightarrow> string option \<Rightarrow> string \<Rightarrow> string + unit" where
  "check_policies p timezone missed_default =
     (if ao_cron p \<noteq> None \<and> timezone = None
      then Inl ''Cron schedules need a timezone. Set scheduler.timezone in config.toml or pass --timezone.''
      else if \<not> member (ao_missed p) [''skip'', ''coalesce'', ''replay'']
      then Inl ''Missed-run policy must be skip, coalesce, or replay.''
      else if \<not> member (ao_on_failure p) [''pause'', ''continue''] then Inl ''Failure policy must be pause or continue.''
      else if ao_on_failure p = Some ''continue'' \<and> ao_repeat p = None \<and> ao_cron p = None
      then Inl ''Failure policy continue requires a recurring schedule.''
      else if ao_cron p \<noteq> None \<and> ao_missed p = None \<and> missed_default = ''replay''
      then Inl ''The global missed-run policy cannot be replay; choose it per schedule with --missed replay.''
      else Inr ())"

definition optional :: "string \<Rightarrow> ('a \<Rightarrow> json) \<Rightarrow> 'a option \<Rightarrow> (string \<times> json) list" where
  "optional k f v = (case v of None \<Rightarrow> [] | Some x \<Rightarrow> [(k, f x)])"

definition jnat :: "nat \<Rightarrow> json" where
  "jnat n = JInt (int n)"

definition name_error :: string where
  "name_error = ''Schedule names must start with a letter or number and contain only letters, numbers, hyphens, underscores, or dots (up to 80 characters).''"

definition checked_name :: "string option \<Rightarrow> string + (string \<times> json) list" where
  "checked_name name =
     (case name of
        None \<Rightarrow> Inr []
      | Some n \<Rightarrow> if 80 < length (chars n) \<or> \<not> valid_schedule_name (trim n) then Inl name_error
                  else Inr [(''name'', JStr (trim n))])"

text \<open>\<open>json!\<close> of the context, with the model that was chosen.\<close>

definition add_context :: "add_options \<Rightarrow> bool \<Rightarrow> destination option \<Rightarrow> json" where
  "add_context p tools_enabled destination =
     jobject ([(''tools'', JBool tools_enabled), (''shell'', JBool (ao_shell p)),
        (''message_destination'', destination_json destination)]
       @ optional ''provider'' JStr (ao_provider p)
       @ optional ''model'' JStr (case ao_model p of None \<Rightarrow> None | Some m \<Rightarrow> if blank m then None else Some m))"

definition tools_installed :: "(string \<Rightarrow> bool) \<Rightarrow> (string \<times> string list) list \<Rightarrow> bool" where
  "tools_installed binary lock = list_ex (\<lambda>(i, capabilities). ''tool'' \<in> set capabilities \<and> binary i) lock"

text \<open>The exact time of \<open>--at\<close>, at least five seconds away.\<close>

definition exact_time :: "('z, 'c) add_env \<Rightarrow> string option \<Rightarrow> string option \<Rightarrow> string + u64 option" where
  "exact_time env at timezone =
     (case at of
        None \<Rightarrow> Inr None
      | Some v \<Rightarrow>
          (case parse_datetime (ae_tz env) v timezone of
             Inl e \<Rightarrow> Inl e
           | Inr t \<Rightarrow> if t < sat_add (ae_now env) 5 then Inl ''Scheduled times must be at least five seconds in the future.''
                      else Inr (Some t)))"

definition add_parameters :: "add_options \<Rightarrow> nat option \<Rightarrow> string option \<Rightarrow> u64 option \<Rightarrow> bool \<Rightarrow> destination option \<Rightarrow>
    (string \<times> json) list \<Rightarrow> json" where
  "add_parameters p delay timezone at tools_enabled destination name =
     jobject ([(''delay'', jnat (case delay of None \<Rightarrow> 0 | Some d \<Rightarrow> d)),
         (''zone'', JStr (case timezone of None \<Rightarrow> ''UTC'' | Some z \<Rightarrow> z))]
       @ optional ''repeat'' jnat (ao_repeat p) @ optional ''at'' jword at @ optional ''cron'' JStr (ao_cron p)
       @ optional ''missed'' JStr (ao_missed p) @ optional ''on_failure'' JStr (ao_on_failure p)
       @ optional ''retries'' jnat (ao_retries p)
       @ [(''context'', add_context p tools_enabled destination)] @ name)"

definition parse_schedule_add :: "('z, 'c) add_env \<Rightarrow> string list \<Rightarrow> string + json \<times> string" where
  "parse_schedule_add env args =
     (case read_options args no_options of
        Inl e \<Rightarrow> Inl e
      | Inr p \<Rightarrow>
     (let instruction = join '' '' (ao_instruction p) in
      if blank instruction then Inl ''A scheduled instruction is required.''
      else
     (case message_destination p instruction of
        Inl e \<Rightarrow> Inl e
      | Inr destination \<Rightarrow>
     (case check_times p of
        Inl e \<Rightarrow> Inl e
      | Inr delay \<Rightarrow>
     (case ae_config env of
        Inl e \<Rightarrow> Inl e
      | Inr config \<Rightarrow>
     (let timezone = (case ao_timezone p of Some z \<Rightarrow> Some z | None \<Rightarrow> sc_timezone config) in
      case exact_time env (ao_at p) timezone of
        Inl e \<Rightarrow> Inl e
      | Inr at \<Rightarrow>
     (case check_policies p timezone (sc_missed config) of
        Inl e \<Rightarrow> Inl e
      | Inr _ \<Rightarrow>
     (case ae_lock env of
        Inl e \<Rightarrow> Inl e
      | Inr lock \<Rightarrow>
     (let tools_enabled = tools_installed (ae_binary env) lock in
      if ao_shell p \<and> \<not> tools_enabled then Inl ''--shell requires an installed tools plugin.''
      else if ao_shell p \<and> \<not> sc_tui_shell config
      then Inl ''--shell requires shell access to be enabled in the Krabb configuration.''
      else
     (case checked_name (ao_name p) of
        Inl e \<Rightarrow> Inl e
      | Inr name \<Rightarrow>
          Inr (add_parameters p delay timezone at tools_enabled destination name, trim instruction)))))))))))"

end
