(* ===== verification/Schedule_Laws.thy ===== *)
theory Schedule_Laws
  imports Schedule_Text
begin

text \<open>
  What \<open>krabb schedule add\<close> accepts: the ranges of the parsed options, and the parameters that are sent to the
  scheduler.
\<close>

section \<open>Options\<close>

definition bounded_options :: "add_options \<Rightarrow> bool" where
  "bounded_options p \<longleftrightarrow>
     (\<forall>n. ao_delay p = Some n \<longrightarrow> 5 \<le> n \<and> n \<le> year_seconds)
     \<and> (\<forall>n. ao_repeat p = Some n \<longrightarrow> 5 \<le> n \<and> n \<le> year_seconds) \<and> (\<forall>n. ao_retries p = Some n \<longrightarrow> n \<le> 5)"

lemma parse_schedule_duration_bounds: "parse_schedule_duration v option = Inr n \<Longrightarrow> 5 \<le> n \<and> n \<le> year_seconds"
  by (auto simp: parse_schedule_duration_def year_seconds_def Let_def split: if_splits option.splits sum.splits)

lemma text_option_bounded: "text_option a = Some (e, f) \<Longrightarrow> bounded_options (f v p) = bounded_options p"
  unfolding text_option_def by (auto simp: bounded_options_def split: if_splits)

lemma read_options_bounded: "read_options args p = Inr p' \<Longrightarrow> bounded_options p \<Longrightarrow> bounded_options p'"
proof (induction args p rule: read_options.induct)
  case (2 a rest p)
  consider "a = ''--after''" | "a = ''--every''" | "a = ''--retries''"
    | "a \<noteq> ''--after''" "a \<noteq> ''--every''" "a \<noteq> ''--retries''" by blast
  then show ?case
  proof cases
    case 1
    then obtain v r n where r: "rest = v # r" "parse_schedule_duration v ''--after'' = Inr n" "read_options r (p\<lparr>ao_delay := Some n\<rparr>) = Inr p'"
      using "2.prems"(1) by (auto split: list.splits sum.splits)
    have "bounded_options (p\<lparr>ao_delay := Some n\<rparr>)"
      using "2.prems"(2) parse_schedule_duration_bounds [OF r(2)] by (simp add: bounded_options_def)
    then show ?thesis using "2.IH"(1) 1 r by simp
  next
    case 2
    then obtain v r n where r: "rest = v # r" "parse_schedule_duration v ''--every'' = Inr n" "read_options r (p\<lparr>ao_repeat := Some n\<rparr>) = Inr p'"
      using "2.prems"(1) by (auto split: list.splits sum.splits)
    have "bounded_options (p\<lparr>ao_repeat := Some n\<rparr>)"
      using "2.prems"(2) parse_schedule_duration_bounds [OF r(2)] by (simp add: bounded_options_def)
    then show ?thesis using "2.IH"(2) 2 r by simp
  next
    case 3
    then obtain v r n where r: "rest = v # r" "parse_u8 v = Inr n" "n \<le> 5" "read_options r (p\<lparr>ao_retries := Some n\<rparr>) = Inr p'"
      using "2.prems"(1) by (auto split: list.splits sum.splits if_splits)
    have "bounded_options (p\<lparr>ao_retries := Some n\<rparr>)"
      using "2.prems"(2) r(3) by (simp add: bounded_options_def)
    then show ?thesis using "2.IH"(3) 3 r by simp
  next
    case 4
    show ?thesis
    proof (cases "text_option a")
      case (Some ef)
      obtain e f where ef: "ef = (e, f)" by (cases ef)
      then obtain v r where r: "rest = v # r" "read_options r (f v p) = Inr p'"
        using "2.prems"(1) 4 Some by (auto split: list.splits)
      then show ?thesis using "2.IH"(6) 4 Some ef text_option_bounded [of a e f v p] "2.prems"(2) by simp
    next
      case None
      then show ?thesis using "2.prems" "2.IH"(4,5) 4
        by (auto simp: bounded_options_def split: if_splits)
    qed
  qed
qed simp

section \<open>Parameters\<close>

lemma map_of_optional [simp]: "map_of (rev (optional k f v)) k' = (if k' = k then map_option f v else None)"
  by (cases v) (auto simp: optional_def)

lemma map_of_name: "checked_name name = Inr kvs \<Longrightarrow> k \<noteq> ''name'' \<Longrightarrow> map_of (rev kvs) k = None"
  by (auto simp: checked_name_def split: option.splits if_splits)

lemma add_parameters_fields:
  assumes "checked_name name = Inr kvs" and v: "v = add_parameters p delay timezone at tools_enabled destination kvs"
  shows "json_index v ''delay'' = jnat (case delay of None \<Rightarrow> 0 | Some d \<Rightarrow> d)"
    and "json_index v ''zone'' = JStr (case timezone of None \<Rightarrow> ''UTC'' | Some z \<Rightarrow> z)"
    and "json_index v ''repeat'' = jopt jnat (ao_repeat p)"
    and "json_index v ''at'' = jopt jword at"
    and "json_index v ''cron'' = jopt JStr (ao_cron p)"
    and "json_index v ''missed'' = jopt JStr (ao_missed p)"
    and "json_index v ''on_failure'' = jopt JStr (ao_on_failure p)"
    and "json_index v ''retries'' = jopt jnat (ao_retries p)"
    and "json_index v ''context'' = add_context p tools_enabled destination"
  using map_of_name [OF assms(1)]
  by (simp_all add: v add_parameters_def json_index_jobject map_add_def jopt_def split: option.split)

lemma add_context_fields:
  "json_index (add_context p tools_enabled destination) ''tools'' = JBool tools_enabled"
  "json_index (add_context p tools_enabled destination) ''shell'' = JBool (ao_shell p)"
  "json_index (add_context p tools_enabled destination) ''message_destination'' = destination_json destination"
  by (simp_all add: add_context_def json_index_jobject map_add_def split: option.split)

text \<open>A destination that was authorized survives the way through JSON.\<close>

definition authorized :: "destination \<Rightarrow> bool" where
  "authorized d \<longleftrightarrow> valid (de_channel d) \<and> \<not> blank (de_chat d) \<and> visible (de_chat d)
     \<and> (\<forall>t. de_thread d = Some t \<longrightarrow> \<not> blank t \<and> visible t) \<and> (de_channel d = ''tui'' \<longrightarrow> valid_tui_destination d)"

lemma authorized_destination_authorized: "authorized_destination v = Some d \<Longrightarrow> authorized d"
  by (auto simp: authorized_destination_def authorized_def visible_channel_def visible_chat_def named_thread_def Let_def
      split: option.splits if_splits)

lemma authorized_destination_json: "authorized d \<Longrightarrow> authorized_destination (destination_json (Some d)) = Some d"
  by (cases d) (auto simp: authorized_destination_def authorized_def visible_channel_def visible_chat_def named_thread_def
      Let_def destination_json_def jopt_def json_index_jobject split: option.splits)

lemma requested_authorized: "requested_tui_destination t = Some d \<Longrightarrow> authorized d"
proof -
  have "valid ''tui''" "\<not> blank ''tui-default''" "visible ''tui-default''" by code_simp+
  then show "requested_tui_destination t = Some d \<Longrightarrow> authorized d"
    by (auto simp: requested_tui_destination_def authorized_def valid_tui_destination_def strip_prefix_def split: if_splits)
qed

lemma message_destination_authorized: "message_destination p i = Inr (Some d) \<Longrightarrow> authorized d"
  using authorized_destination_authorized requested_authorized
  by (auto simp: message_destination_def split: option.splits if_splits)

lemma parse_schedule_add_steps:
  assumes "parse_schedule_add env args = Inr (v, instruction)"
  obtains p destination delay config timezone at lock kvs where
    "read_options args no_options = Inr p" "\<not> blank (join '' '' (ao_instruction p))"
    "instruction = trim (join '' '' (ao_instruction p))"
    "message_destination p (join '' '' (ao_instruction p)) = Inr destination" "check_times p = Inr delay"
    "ae_config env = Inr config" "timezone = (case ao_timezone p of Some z \<Rightarrow> Some z | None \<Rightarrow> sc_timezone config)"
    "exact_time env (ao_at p) timezone = Inr at" "check_policies p timezone (sc_missed config) = Inr ()"
    "ae_lock env = Inr lock" "ao_shell p \<longrightarrow> tools_installed (ae_binary env) lock \<and> sc_tui_shell config"
    "checked_name (ao_name p) = Inr kvs"
    "v = add_parameters p delay timezone at (tools_installed (ae_binary env) lock) destination kvs"
  using assms unfolding parse_schedule_add_def Let_def
  by (auto split: sum.splits if_splits)

section \<open>Blank texts\<close>

lemma white_prefix_one: "x \<in> {9, 10, 11, 12, 13, 32} \<Longrightarrow> white_prefix (x # r) = 1"
  by (cases r rule: white_prefix.cases) simp_all

lemma white_prefix_two: "y \<in> {133, 160} \<Longrightarrow> white_prefix (194 # y # r) = 2"
  by (cases r) simp_all

lemma white_prefix_append: "white_prefix a \<noteq> 0 \<Longrightarrow> white_prefix (a @ b) = white_prefix a"
proof (cases a rule: white_prefix.cases)
  case (2 x y)
  assume w: "white_prefix a \<noteq> 0"
  consider "x \<in> {9, 10, 11, 12, 13, 32}" | "x = 194" "y \<in> {133, 160}"
    using w 2 by (auto simp del: insert_iff split: if_split_asm)
  then show ?thesis
  proof cases
    case 1
    then show ?thesis using white_prefix_one [of x "y # b"] white_prefix_one [of x "[y]"] unfolding 2 by simp
  next
    case 2
    then show ?thesis using white_prefix_two [of y b] white_prefix_two [of y "[]"] unfolding \<open>a = [x, y]\<close> by simp
  qed
next
  case (3 x)
  assume w: "white_prefix a \<noteq> 0"
  then have "x \<in> {9, 10, 11, 12, 13, 32}" using 3 by (simp del: insert_iff split: if_split_asm)
  then show ?thesis using white_prefix_one [of x b] white_prefix_one [of x "[]"] unfolding 3 by simp
qed simp_all

lemma blank_append: "blank a \<Longrightarrow> blank (a @ b) = blank b"
proof (induction a rule: trim_start.induct)
  case (1 a)
  show ?case
  proof (cases "white_prefix (map code a) = 0")
    case True
    with 1(2) have "a = []" by (simp add: blank_def trim_start.simps [of a])
    then show ?thesis by simp
  next
    case False
    have w: "white_prefix (map code (a @ b)) = white_prefix (map code a)"
      using white_prefix_append [OF False] by simp
    have "blank (drop (white_prefix (map code a)) a)"
      using 1(2) False by (simp add: blank_def trim_start.simps [of a])
    from 1(1) [OF False this] show ?thesis
      using False w white_prefix_bound [of "map code a"] by (simp add: blank_def trim_start.simps [of "a @ b"])
  qed
qed

lemma white_suffix_blank: "blank (drop (length s - white_suffix s) s)"
proof (cases "white_suffix s = 0")
  case False
  let ?f = "\<lambda>k. k \<le> length s \<and> white_prefix (map code (drop (length s - k) s)) = k"
  have "white_suffix s \<in> set (filter ?f [1, 2, 3])"
    using False unfolding white_suffix_def by (metis (no_types, lifting) list.case_eq_if list.set_sel(1))
  then have k: "white_suffix s \<le> length s" "white_prefix (map code (drop (length s - white_suffix s) s)) = white_suffix s"
    unfolding set_filter by blast+
  then show ?thesis
    using False by (simp add: blank_def trim_start.simps [of "drop (length s - white_suffix s) s"] trim_start.simps [of "[]"])
qed simp

lemma blank_trim_end: "blank (trim_end_text s) \<Longrightarrow> blank s"
proof (induction s rule: trim_end_text.induct)
  case (1 s)
  show ?case
  proof (cases "white_suffix s = 0")
    case False
    let ?n = "length s - white_suffix s"
    have "blank (take ?n s)"
      using 1 False by (simp add: trim_end_text.simps [of s])
    then show ?thesis
      using blank_append [of "take ?n s" "drop ?n s"] white_suffix_blank [of s] by simp
  next
    case True
    with 1(2) show ?thesis by (simp add: trim_end_text.simps [of s])
  qed
qed

lemma blank_trim: "blank (trim v) \<Longrightarrow> blank v"
  unfolding trim_def by (drule blank_trim_end) (simp add: blank_def)

section \<open>What is accepted\<close>

text \<open>The times of a schedule: a delay, an exact time or a cron expression, and an interval of repetition.\<close>

definition one_time :: "u64 \<Rightarrow> json \<Rightarrow> bool" where
  "one_time t0 v \<longleftrightarrow>
     (\<exists>n. json_index v ''delay'' = jnat n \<and> 5 \<le> n \<and> n \<le> year_seconds
        \<and> json_index v ''at'' = JNull \<and> json_index v ''cron'' = JNull)
     \<or> json_index v ''delay'' = jnat 0 \<and> json_index v ''cron'' = JNull
        \<and> (\<exists>t. json_index v ''at'' = jword t \<and> sat_add t0 5 \<le> t)
     \<or> json_index v ''delay'' = jnat 0 \<and> json_index v ''at'' = JNull \<and> json_index v ''repeat'' = JNull
        \<and> (\<exists>c. json_index v ''cron'' = JStr c)"

definition repeats :: "json \<Rightarrow> bool" where
  "repeats v \<longleftrightarrow> json_index v ''repeat'' \<noteq> JNull \<or> json_index v ''cron'' \<noteq> JNull"

definition one_of_or_null :: "json \<Rightarrow> string list \<Rightarrow> bool" where
  "one_of_or_null v choices \<longleftrightarrow> v = JNull \<or> v \<in> JStr ` set choices"

definition schedule_ok :: "u64 \<Rightarrow> json \<Rightarrow> bool" where
  "schedule_ok t0 v \<longleftrightarrow>
     one_time t0 v
     \<and> (json_index v ''repeat'' = JNull \<or> (\<exists>n. json_index v ''repeat'' = jnat n \<and> 5 \<le> n \<and> n \<le> year_seconds))
     \<and> (json_index v ''retries'' = JNull \<or> (\<exists>n. json_index v ''retries'' = jnat n \<and> n \<le> 5))
     \<and> one_of_or_null (json_index v ''missed'') [''skip'', ''coalesce'', ''replay'']
     \<and> one_of_or_null (json_index v ''on_failure'') [''pause'', ''continue'']
     \<and> (json_index v ''on_failure'' \<noteq> JStr ''continue'' \<or> repeats v)"

definition context_ok :: "json \<Rightarrow> bool" where
  "context_ok c \<longleftrightarrow>
     (json_index c ''shell'' = JBool False \<or> json_index c ''shell'' = JBool True \<and> json_index c ''tools'' = JBool True)
     \<and> (json_index c ''message_destination'' = JNull
        \<or> (\<exists>d. authorized_destination (json_index c ''message_destination'') = Some d
             \<and> json_index c ''message_destination'' = destination_json (Some d)))"

lemma jopt_cases: "jopt f v = (case v of None \<Rightarrow> JNull | Some x \<Rightarrow> f x)"
  by (simp add: jopt_def)

lemma one_time_parameters:
  assumes "check_times p = Inr delay" and "exact_time env (ao_at p) timezone = Inr at" and "checked_name name = Inr kvs"
    and v: "v = add_parameters p delay timezone at tools_enabled destination kvs"
  shows "one_time (ae_now env) v"
proof -
  note f = add_parameters_fields [OF assms(3) v]
  have at: "(at = None) = (ao_at p = None)" "at = Some t \<Longrightarrow> sat_add (ae_now env) 5 \<le> t" for t
    using assms(2) by (auto simp: exact_time_def not_less split: option.splits sum.splits if_splits)
  have t: "length (filter id (selected_times p)) = 1" "\<not> interval_outside (ao_delay p)" "\<not> interval_outside (ao_repeat p)"
      "ao_cron p = None \<or> ao_repeat p = None"
      "delay = (if ao_delay p = None \<and> ao_at p = None \<and> ao_cron p = None then ao_repeat p else ao_delay p)"
    using assms(1) by (auto simp: check_times_def split: if_splits)
  show ?thesis
  proof (cases "ao_at p")
    case (Some a)
    with t(1) have "ao_delay p = None" "ao_cron p = None" by (auto simp: selected_times_def split: if_splits)
    then show ?thesis using t at Some unfolding one_time_def f
      by (cases at) (auto simp: jopt_cases)
  next
    case None
    show ?thesis
    proof (cases "ao_cron p")
      case (Some c)
      with t(1,4) None have "ao_delay p = None" "ao_repeat p = None" by (auto simp: selected_times_def split: if_splits)
      then show ?thesis using t at None Some unfolding one_time_def f by (simp add: jopt_cases)
    next
      case none: None
      have "\<exists>n. delay = Some n \<and> 5 \<le> n \<and> n \<le> year_seconds"
        using t None none
        by (cases "ao_delay p"; cases "ao_repeat p") (auto simp: selected_times_def interval_outside_def)
      then show ?thesis using at None none unfolding one_time_def f by (auto simp: jopt_cases)
    qed
  qed
qed

lemma schedule_parameters:
  assumes "check_times p = Inr delay" and "exact_time env (ao_at p) timezone = Inr at" and "checked_name name = Inr kvs"
    and "check_policies p timezone missed_default = Inr ()" and "bounded_options p"
    and v: "v = add_parameters p delay timezone at tools_enabled destination kvs"
  shows "schedule_ok (ae_now env) v"
proof -
  note f = add_parameters_fields [OF assms(3) v]
  have "json_index v ''repeat'' = JNull \<or> (\<exists>n. json_index v ''repeat'' = jnat n \<and> 5 \<le> n \<and> n \<le> year_seconds)"
    and "json_index v ''retries'' = JNull \<or> (\<exists>n. json_index v ''retries'' = jnat n \<and> n \<le> 5)"
    using assms(5) by (auto simp: f jopt_cases bounded_options_def split: option.split)
  moreover have "one_of_or_null (json_index v ''missed'') [''skip'', ''coalesce'', ''replay'']"
    and "one_of_or_null (json_index v ''on_failure'') [''pause'', ''continue'']"
    using assms(4) by (auto simp: f jopt_cases check_policies_def member_def one_of_or_null_def split: option.splits if_splits)
  moreover have "json_index v ''on_failure'' \<noteq> JStr ''continue'' \<or> repeats v"
    using assms(4) by (auto simp: f jopt_cases check_policies_def repeats_def jnat_def split: option.splits if_splits)
  ultimately show ?thesis
    using one_time_parameters [OF assms(1-3) v] unfolding schedule_ok_def by blast
qed

lemma context_parameters:
  assumes "message_destination p i = Inr destination" and "ao_shell p \<longrightarrow> tools_enabled"
  shows "context_ok (add_context p tools_enabled destination)"
proof (cases destination)
  case None
  with assms(2) show ?thesis by (simp add: context_ok_def add_context_fields destination_json_def jopt_cases)
next
  case (Some d)
  have "authorized_destination (destination_json (Some d)) = Some d"
    by (rule authorized_destination_json, rule message_destination_authorized) (use assms(1) Some in auto)
  with assms(2) Some show ?thesis by (auto simp: context_ok_def add_context_fields)
qed

text \<open>C27: a command line of \<open>krabb schedule add\<close> that is accepted sends a schedule the scheduler can keep: one
  time, and only one (a delay, an exact time at least five seconds ahead, or a cron expression), an interval and a
  number of retries in their ranges, known policies with \<open>continue\<close> only for a task that repeats, no shell without
  tools, a destination that passes the authorization of \<open>message_send\<close> unchanged, and an instruction that is not
  blank.\<close>

theorem schedule_add_accepted:
  assumes "parse_schedule_add env args = Inr (v, instruction)"
  shows "schedule_ok (ae_now env) v \<and> context_ok (json_index v ''context'') \<and> \<not> blank instruction"
  using assms
proof (rule parse_schedule_add_steps, goal_cases)
  case (1 p destination delay config timezone at lock kvs)
  have b: "bounded_options p"
    by (rule read_options_bounded [OF 1(1)]) (simp add: bounded_options_def no_options_def)
  note f = add_parameters_fields [OF 1(12,13)]
  show ?case
    using schedule_parameters [OF 1(5) 1(8) 1(12) 1(9) b 1(13)] context_parameters [OF 1(4)] 1(2,3,11)
    by (auto simp: f dest: blank_trim)
qed

definition sample_add_env :: "(int, unit) add_env" where
  "sample_add_env = \<lparr>ae_tz = sample_tz, ae_now = 1000,
     ae_config = Inr \<lparr>sc_timezone = None, sc_missed = ''coalesce'', sc_tui_shell = True\<rparr>,
     ae_lock = Inr [(''tools'', [''tool''])], ae_binary = (\<lambda>i. True)\<rparr>"

lemma sample_options:
  "read_options [''--every'', ''600'', ''--shell'', ''--name'', ''tea'', ''make'', ''it''] no_options
   = Inr (no_options\<lparr>ao_repeat := Some 600, ao_shell := True, ao_name := Some ''tea'', ao_instruction := [''make'', ''it'']\<rparr>)"
  by (simp add: text_option_def parse_schedule_duration_def parse_unsigned_def is_ascii_digit_def code_def no_options_def
      strip_prefix_def)

lemma sample_texts:
  "\<not> blank ''make it''" "trim ''make it'' = ''make it''" "trim ''tea'' = ''tea''" "valid_schedule_name ''tea''"
  "length (chars ''tea'') = 3" "requested_tui_destination ''make it'' = None"
  by code_simp+

lemma sample_accepted:
  "\<exists>v. parse_schedule_add sample_add_env [''--every'', ''600'', ''--shell'', ''--name'', ''tea'', ''make'', ''it''] = Inr (v, ''make it'')"
  unfolding parse_schedule_add_def sample_options sum.case Let_def
  by (simp add: no_options_def sample_add_env_def message_destination_def sample_texts
      check_times_def selected_times_def interval_outside_def year_seconds_def exact_time_def check_policies_def member_def
      tools_installed_def checked_name_def)

theorem schedule_add_accepted_witness:
  "\<exists>v. parse_schedule_add sample_add_env [''--every'', ''600'', ''--shell'', ''--name'', ''tea'', ''make'', ''it''] = Inr (v, ''make it'')
     \<and> schedule_ok 1000 v \<and> context_ok (json_index v ''context'') \<and> \<not> blank ''make it''"
proof -
  from sample_accepted obtain v where
    v: "parse_schedule_add sample_add_env [''--every'', ''600'', ''--shell'', ''--name'', ''tea'', ''make'', ''it''] = Inr (v, ''make it'')"
    by blast
  have t: "ae_now sample_add_env = 1000" by (simp add: sample_add_env_def)
  from schedule_add_accepted [OF v] v show ?thesis unfolding t by blast
qed

end
