(* ===== verification/Turn_Replies.thy ===== *)
theory Turn_Replies
  imports Tool_Catalog Jsonl Transcript Redaction
begin

text \<open>
  What a turn makes of a model's reply and of a tool's result, without effects (\<open>krabb-runtime/src/lib.rs\<close>):
  the request to the model within the frame limit, the events of a stream, which calls change something, the
  content of a reply, and the results of tools. Outside the model, as parameters: the serialiser (\<open>pr\<close> prints a
  value), what the deserialiser makes of a value, base64, and the files of the media directory.
\<close>

definition TOOL_STEPS :: nat where "TOOL_STEPS = 8"
definition TOOL_CALLS :: nat where "TOOL_CALLS = 16"
definition TOKEN_LIMIT :: u64 where "TOKEN_LIMIT = 128000"
definition IMAGE_LIMIT :: nat where "IMAGE_LIMIT = 4 * 1024 * 1024"
definition IMAGE_TOTAL_LIMIT :: nat where "IMAGE_TOTAL_LIMIT = 4 * 1024 * 1024"
definition TOOL_CONTENT_LIMIT :: nat where "TOOL_CONTENT_LIMIT = 2 * 1024 * 1024"
definition TOOL_CALL_PROTOCOL_MINOR :: u16 where "TOOL_CALL_PROTOCOL_MINOR = 1"

section \<open>The request to the model\<close>

definition supports_tool_calls :: "protocol \<Rightarrow> bool" where
  "supports_tool_calls p \<longleftrightarrow> p_major p = p_major protocol_current \<and> TOOL_CALL_PROTOCOL_MINOR \<le> p_minor p"

fun legacy_content :: "(json \<Rightarrow> string) \<Rightarrow> content \<Rightarrow> content" where
  "legacy_content pr (CToolCall name args i sig) = CText (''[Tool call '' @ name @ '']: '' @ pr args)"
| "legacy_content pr c = c"

definition legacy_messages :: "(json \<Rightarrow> string) \<Rightarrow> message list \<Rightarrow> message list" where
  "legacy_messages pr = map (\<lambda>m. m\<lparr>m_content := map (legacy_content pr) (m_content m)\<rparr>)"

text \<open>\<open>rposition\<close>.\<close>

definition last_position :: "('a \<Rightarrow> bool) \<Rightarrow> 'a list \<Rightarrow> nat option" where
  "last_position p xs = map_option (\<lambda>i. length xs - 1 - i) (position p (rev xs))"

definition required_message :: "message list \<Rightarrow> nat option" where
  "required_message history =
     (case last_position (\<lambda>m. m_role m = User) history of
        Some i \<Rightarrow> Some i
      | None \<Rightarrow> last_position (\<lambda>m. m_role m \<noteq> System) history)"

definition generate :: "(model_request \<Rightarrow> json) \<Rightarrow> (json \<Rightarrow> string) \<Rightarrow> u64 \<Rightarrow> string \<Rightarrow> message list \<Rightarrow> tool_spec list \<Rightarrow>
    string option \<Rightarrow> protocol \<Rightarrow> request" where
  "generate to_json pr call model history specs workspace protocol =
     request_call call ''generate''
       (to_json \<lparr>mr_model = model, mr_workspace = workspace,
          mr_messages = (if supports_tool_calls protocol then history else legacy_messages pr history),
          mr_stream = True, mr_tools = specs\<rparr>)"

text \<open>The loop of \<open>model_request\<close>: \<open>frame\<close> builds the request of a history, \<open>fits\<close> says that its frame is small
  enough. \<open>None\<close> is a loop that does not return.\<close>

partial_function (option) fit_request ::
  "(message list \<Rightarrow> request) \<Rightarrow> (request \<Rightarrow> bool) \<Rightarrow> message list \<Rightarrow> (string + request) option" where
  "fit_request frame fits history =
     (if fits (frame history) then Some (Inr (frame history))
      else
        (case remove_oldest_message_group history (required_message history) of
           None \<Rightarrow> None
         | Some (removed, history') \<Rightarrow>
             if removed then fit_request frame fits history'
             else Some (Inl ''Model context exceeds the protocol frame limit.'')))"

definition model_request :: "(model_request \<Rightarrow> json) \<Rightarrow> (json \<Rightarrow> string) \<Rightarrow> (request \<Rightarrow> nat) \<Rightarrow> u64 \<Rightarrow> string \<Rightarrow>
    message list \<Rightarrow> tool_spec list \<Rightarrow> string option \<Rightarrow> protocol \<Rightarrow> (string + request) option" where
  "model_request to_json pr request_len call model messages specs workspace protocol =
     fit_request (\<lambda>h. generate to_json pr call model h specs workspace protocol)
       (\<lambda>r. request_len r + 1 \<le> frame_max) messages"

section \<open>Events of a stream\<close>

definition stream_event :: "(json \<Rightarrow> event option) \<Rightarrow> request \<Rightarrow> event option" where
  "stream_event event_of note =
     (case note of
        Call v i m ps \<Rightarrow> None
      | Note v m ps \<Rightarrow>
          if m \<noteq> ''event'' then None
          else event_of (case json_get ps ''event'' of Some e \<Rightarrow> e | None \<Rightarrow> ps))"

fun event_text :: "event \<Rightarrow> string" where
  "event_text (EText t) = t"
| "event_text (EDone t) = t"
| "event_text _ = []"

fun is_text :: "event \<Rightarrow> bool" where
  "is_text (EText t) = True"
| "is_text (EDone t) = True"
| "is_text _ = False"

definition merge_stream :: "(json \<Rightarrow> event option) \<Rightarrow> model_reply \<Rightarrow> request list \<Rightarrow> model_reply" where
  "merge_stream event_of rep notes =
     (let es = List.map_filter (stream_event event_of) notes;
          merged = rep\<lparr>rp_events := rp_events rep @ filter (\<lambda>e. \<not> is_text e) es\<rparr>
      in if rp_text rep = [] then merged\<lparr>rp_text := concat (map event_text es)\<rparr> else merged)"

section \<open>Calls that change something\<close>

definition mutating_names :: "string list" where
  "mutating_names = [''write'', ''patch'', ''shell'', ''memory_remember'', ''schedule_propose'', ''schedule_cancel'',
     ''schedule_pause'', ''schedule_resume'', ''schedule_run'', ''schedule_retry'', ''message_send'']"

definition reading_names :: "string list" where
  "reading_names = [''read'', ''list'', ''search'', ''fetch'', ''memory_search'', ''schedule_list'', ''browser_open'',
     ''browser_close'', ''browser_tabs'', ''browser_snapshot'', ''browser_screenshot'', ''computer_open'',
     ''computer_close'', ''computer_displays'', ''computer_screenshot'', ''computer_windows'']"

definition git_reads :: "json \<Rightarrow> bool" where
  "git_reads args \<longleftrightarrow>
     (case as_array (json_index args ''args'') of
        None \<Rightarrow> False
      | Some vs \<Rightarrow> List.map_filter as_str vs \<in> {[''status''], [''diff''], [''worktree'', ''list'']})"

definition mutating :: "string \<Rightarrow> json \<Rightarrow> bool" where
  "mutating name args \<longleftrightarrow>
     (if name \<in> set mutating_names then True
      else if name \<in> set reading_names then False
      else if name = ''git'' then \<not> git_reads args
      else if strip_prefix ''browser_'' name \<noteq> None
        then name \<notin> {''browser_tabs'', ''browser_snapshot'', ''browser_screenshot''}
      else if strip_prefix ''computer_'' name \<noteq> None
        then name \<notin> {''computer_displays'', ''computer_screenshot'', ''computer_windows''}
      else True)"

fun mutating_event :: "event \<Rightarrow> bool" where
  "mutating_event (ETool name args i sig) = mutating name args"
| "mutating_event _ = False"

definition keep_one_mutation :: "event list \<Rightarrow> event list" where
  "keep_one_mutation events =
     (case position mutating_event events of
        None \<Rightarrow> events
      | Some i \<Rightarrow>
          (case position mutating_event (drop (i + 1) events) of
             None \<Rightarrow> events
           | Some j \<Rightarrow> take (i + 1 + j) events))"

section \<open>The content of a reply\<close>

fun push_text :: "event \<Rightarrow> string \<Rightarrow> string" where
  "push_text e text =
     (if is_text e \<and> 0 < TEXT_LIMIT - length text then text @ clip (event_text e) (TEXT_LIMIT - length text) else text)"

definition assistant :: "model_reply \<Rightarrow> string" where
  "assistant rep = fold push_text (rp_events rep) (rp_text rep)"

definition within :: "nat \<Rightarrow> string option \<Rightarrow> bool" where
  "within n v \<longleftrightarrow> (case v of None \<Rightarrow> True | Some s \<Rightarrow> length s \<le> n)"

definition validate_tool_metadata :: "string \<Rightarrow> string option \<Rightarrow> string option \<Rightarrow> bool" where
  "validate_tool_metadata name i sig \<longleftrightarrow> length name \<le> META_LIMIT \<and> within META_LIMIT i \<and> within META_LIMIT sig"

fun check_event :: "(json \<Rightarrow> nat) \<Rightarrow> event \<Rightarrow> string + unit" where
  "check_event json_len (ETool name args i sig) =
     then_check (refuse (\<not> validate_tool_args json_len args) ''Tool arguments exceed the size limit.'')
       (refuse (\<not> validate_tool_metadata name i sig) ''Tool metadata exceeds the size limit.'')"
| "check_event json_len _ = Inr ()"

fun call_content :: "event \<Rightarrow> content option" where
  "call_content (ETool name args i sig) = Some (CToolCall name args i sig)"
| "call_content _ = None"

definition model_content :: "(json \<Rightarrow> nat) \<Rightarrow> (content list \<Rightarrow> nat) \<Rightarrow> model_reply \<Rightarrow> string + content list" where
  "model_content json_len content_len rep =
     (case check_each (check_event json_len) (rp_events rep) of
        Inl e \<Rightarrow> Inl e
      | Inr _ \<Rightarrow>
          (let content = (if assistant rep = [] then [] else [CText (assistant rep)])
                 @ List.map_filter call_content (rp_events rep)
           in if content_len content \<le> TOOL_CONTENT_LIMIT then Inr content
              else Inl ''Tool content exceeds the size limit.''))"

section \<open>Images\<close>

definition starts :: "nat list \<Rightarrow> string \<Rightarrow> bool" where
  "starts codes bytes \<longleftrightarrow> take (length codes) (map code bytes) = codes"

definition image_mime :: "string \<Rightarrow> string option" where
  "image_mime bytes =
     (if starts [137, 80, 78, 71, 13, 10, 26, 10] bytes then Some ''image/png''
      else if starts [255, 216, 255] bytes then Some ''image/jpeg''
      else if strip_prefix ''GIF87a'' bytes \<noteq> None \<or> strip_prefix ''GIF89a'' bytes \<noteq> None then Some ''image/gif''
      else if strip_prefix ''RIFF'' bytes \<noteq> None \<and> take 4 (drop 8 bytes) = ''WEBP'' then Some ''image/webp''
      else None)"

text \<open>\<open>split_once\<close> at a text.\<close>

definition split_text :: "string \<Rightarrow> string \<Rightarrow> (string \<times> string) option" where
  "split_text sep v = map_option (\<lambda>i. (take i v, drop (i + length sep) v)) (find_text sep v)"

definition image_data_size :: "(string \<Rightarrow> string option) \<Rightarrow> string \<Rightarrow> nat option" where
  "image_data_size decode64 uri =
     (case strip_prefix ''data:image/'' uri of
        None \<Rightarrow> None
      | Some rest \<Rightarrow>
     (case split_text '';base64,'' rest of
        None \<Rightarrow> None
      | Some (mime, encoded) \<Rightarrow>
          if mime \<notin> {''png'', ''jpeg'', ''gif'', ''webp''} \<or> (IMAGE_LIMIT + 2) div 3 * 4 < length encoded then None
          else
            (case decode64 encoded of
               None \<Rightarrow> None
             | Some bytes \<Rightarrow> if image_mime bytes = Some (''image/'' @ mime) then Some (length bytes) else None)))"

definition unavailable_image :: "string option \<Rightarrow> content" where
  "unavailable_image alt = CText (case alt of
     None \<Rightarrow> ''[Image attachment omitted because it is unavailable or unsupported.]''
   | Some a \<Rightarrow> ''[Image attachment unavailable. Description: '' @ clip a META_LIMIT @ '']'')"

definition is_image :: "content \<Rightarrow> bool" where
  "is_image c \<longleftrightarrow> (case c of CImage uri alt \<Rightarrow> True | _ \<Rightarrow> False)"

text \<open>\<open>prepare_images\<close>: the bytes used so far go from one item to the next. \<open>read_media uri limit\<close> reads the file
  of the media directory that the identifier names when it is a file of at most that many bytes; \<open>encode64\<close> is
  base64. Its type is taken from its bytes.\<close>

definition prepare_image :: "(string \<Rightarrow> nat \<Rightarrow> string option) \<Rightarrow> (string \<Rightarrow> string) \<Rightarrow> (string \<Rightarrow> string option) \<Rightarrow>
    nat \<Rightarrow> content \<Rightarrow> content \<times> nat" where
  "prepare_image read_media encode64 decode64 used content =
     (case content of
        CImage uri alt \<Rightarrow>
          if strip_prefix ''file://'' uri \<noteq> None then
            (let limit = min IMAGE_LIMIT (IMAGE_TOTAL_LIMIT - used) in
             case (if limit = 0 then None else read_media uri limit) of
               None \<Rightarrow> (unavailable_image alt, used)
             | Some bytes \<Rightarrow>
                 (case (if limit < length bytes then None else image_mime bytes) of
                    None \<Rightarrow> (unavailable_image alt, used)
                  | Some mime \<Rightarrow> (CImage (''data:'' @ mime @ '';base64,'' @ encode64 bytes) alt, used + length bytes)))
          else if strip_prefix ''data:image/'' uri \<noteq> None then
            (case image_data_size decode64 uri of
               None \<Rightarrow> (unavailable_image alt, used)
             | Some n \<Rightarrow> if n \<le> IMAGE_LIMIT \<and> n \<le> IMAGE_TOTAL_LIMIT - used then (CImage uri alt, used + n)
                         else (unavailable_image alt, used))
          else if strip_prefix ''https://'' uri \<noteq> None \<and> length uri \<le> META_LIMIT then (CImage uri alt, used)
          else (unavailable_image alt, used)
      | _ \<Rightarrow> (content, used))"

fun prepare_contents where
  "prepare_contents step used [] = ([], used)"
| "prepare_contents step used (c # cs) =
     (let (c', used1) = step used c; (cs', used2) = prepare_contents step used1 cs in (c' # cs', used2))"

fun prepare_messages :: "(nat \<Rightarrow> content \<Rightarrow> content \<times> nat) \<Rightarrow> nat \<Rightarrow> message list \<Rightarrow> message list \<times> nat" where
  "prepare_messages step used [] = ([], used)"
| "prepare_messages step used (m # ms) =
     (let (cs, used1) = prepare_contents step used (m_content m); (ms', used2) = prepare_messages step used1 ms
      in (m\<lparr>m_content := cs\<rparr> # ms', used2))"

definition prepare_images :: "(string \<Rightarrow> nat \<Rightarrow> string option) \<Rightarrow> (string \<Rightarrow> string) \<Rightarrow> (string \<Rightarrow> string option) \<Rightarrow>
    message list \<Rightarrow> message list" where
  "prepare_images read_media encode64 decode64 ms =
     fst (prepare_messages (prepare_image read_media encode64 decode64) 0 ms)"

section \<open>Results of tools\<close>

fun shown_content :: "tool_content \<Rightarrow> string option" where
  "shown_content (TText t) = Some t"
| "shown_content (TImage uri alt) = alt"

definition tool_result_text :: "tool_result \<Rightarrow> string" where
  "tool_result_text r = join [CHR 0x0A] (List.map_filter shown_content (tr_content r))"

fun check_item :: "(string \<Rightarrow> string option) \<Rightarrow> tool_content \<Rightarrow> string + unit" where
  "check_item decode64 (TText t) = refuse (TEXT_LIMIT < length t) ''Tool result text exceeds the size limit.''"
| "check_item decode64 (TImage uri alt) =
     refuse (strip_prefix ''data:image/'' uri = None
         \<or> (case image_data_size decode64 uri of None \<Rightarrow> True | Some n \<Rightarrow> IMAGE_LIMIT < n))
       ''Tool result image is invalid or exceeds the image limit.''"

definition decode_tool_result :: "(json \<Rightarrow> string + tool_content list) \<Rightarrow> (string \<Rightarrow> string option) \<Rightarrow> (json \<Rightarrow> string) \<Rightarrow>
    json \<Rightarrow> string + tool_result" where
  "decode_tool_result contents_of decode64 pr value =
     (case json_get value ''content'' of
        Some v \<Rightarrow>
          (case contents_of v of
             Inl e \<Rightarrow> Inl e
           | Inr content \<Rightarrow>
               if 8 < length content then Inl ''Tool result contains too many content items.''
               else
                 (case check_each (check_item decode64) content of
                    Inl e \<Rightarrow> Inl e
                  | Inr _ \<Rightarrow>
                      (let metadata = json_get value ''metadata'' in
                       if (case metadata of None \<Rightarrow> False | Some m \<Rightarrow> 16 * 1024 < length (pr m))
                       then Inl ''Tool result metadata exceeds the size limit.''
                       else Inr \<lparr>tr_content = content, tr_metadata = metadata\<rparr>)))
      | None \<Rightarrow>
          Inr (tool_result_of_text
            (clip (case as_str (json_index value ''text'') of Some t \<Rightarrow> t | None \<Rightarrow> pr value) TEXT_LIMIT)))"

definition tool_result_value :: "(tool_result \<Rightarrow> json) \<Rightarrow> (json \<Rightarrow> string) \<Rightarrow> tool_result \<Rightarrow> json" where
  "tool_result_value to_json pr r =
     (let text = tool_result_text r
            @ (case tr_metadata r of None \<Rightarrow> [] | Some m \<Rightarrow> CHR 0x0A # ''Tool metadata: '' @ pr m)
      in case to_json r of JObj m \<Rightarrow> JObj (binsert ''text'' (JStr text) m) | v \<Rightarrow> v)"

definition track_scheduled_tool_response :: "response \<Rightarrow> string list option \<Rightarrow> string list option" where
  "track_scheduled_tool_response resp failures =
     (case (failures, r_error resp) of
        (Some fs, Some e) \<Rightarrow> if length fs < 8 then Some (fs @ [clip (redact_diagnostic (e_message e)) 500]) else failures
      | _ \<Rightarrow> failures)"

end
