(* ===== verification/Tool_Dispatch.thy ===== *)
theory Tool_Dispatch
  imports Turn_Replies Schedule_Text Turn_Store Approval
begin

text \<open>
  How the daemon runs a tool call of a model (\<open>krabb-runtime/src/lib.rs\<close>): \<open>execute_tool_with_registry\<close> with the
  approval of calls that change something and the messages of scheduled tasks, \<open>tool_with_registry\<close> with the three
  ways to a plugin, and \<open>host_tool_with_registry\<close>, through which an agent behind a model plugin calls tools.

  The state is the store, the approval gate and what the turn has sent: notices and prompts to the channel, and
  requests to plugins, each in order. The environment answers them. A turn can be stopped where it waits, for the
  answer of a person or of a plugin.
\<close>

section \<open>Environment and state\<close>

datatype halt = HaltStop | HaltCancel | HaltDeadline
datatype tool_error = Failed string | Halted halt
datatype approval_mode = ModeOff | ModePrompt | ModeAuto

text \<open>The notice that asks a person for approval.\<close>

record prompt =
  pm_chat :: string
  pm_thread :: "string option"
  pm_tool :: string
  pm_arguments :: string
  pm_command :: "string option"
  pm_text :: string
  pm_approve :: string
  pm_deny :: string

text \<open>\<open>te_await i\<close> is what happens to the store and the gate while the turn waits for the answer to the challenge
  \<open>i\<close>, and whether the turn is stopped in that time. \<open>te_call\<close> answers a request, given the requests before it.\<close>

record ('d, 'z, 'c) tool_env =
  te_store :: "nat \<Rightarrow> 'd env"
  te_plugins :: plugins
  te_call :: "(string \<times> request) list \<Rightarrow> string \<Rightarrow> request \<Rightarrow> halt + (core_error + response)"
  te_approval :: approval_env
  te_await :: "string \<Rightarrow> 'd world \<times> gate \<Rightarrow> halt option \<times> 'd world \<times> gate"
  te_open :: "nat \<Rightarrow> bool"
  te_print :: "json \<Rightarrow> string"
  te_debug :: "string \<Rightarrow> string"
  te_contents :: "json \<Rightarrow> string + tool_content list"
  te_decode64 :: "string \<Rightarrow> string option"
  te_result_json :: "tool_result \<Rightarrow> json"
  te_schedule_id :: "string + u64"
  te_now :: u64
  te_millis :: nat
  te_timestamp :: "string \<Rightarrow> string + int"
  te_tz :: "('z, 'c) tz_env"
  te_upper :: "string \<Rightarrow> string"

text \<open>The turn that calls: where it comes from and what it may do.\<close>

record tool_turn =
  tt_registry :: tool_registry
  tt_turn :: string
  tt_provider :: string
  tt_model :: string
  tt_mode :: approval_mode
  tt_channel :: string
  tt_chat :: string
  tt_thread :: "string option"
  tt_session :: string
  tt_workspace :: "string option"
  tt_tools :: bool
  tt_schedule :: bool
  tt_shell :: bool
  tt_destination :: "destination option"
  tt_run :: "u64 option"

record 'd tool_state =
  to_world :: "'d world"
  to_gate :: gate
  to_notices :: "stream_notice list"
  to_prompts :: "prompt list"
  to_calls :: "(string \<times> request) list"
  to_restarts :: "string list"
  to_failed :: "string option"

type_synonym ('d, 'a) tool_step = "'d tool_state \<Rightarrow> (tool_error + 'a) \<times> 'd tool_state"

text \<open>An operation of the store whose error ends the call.\<close>

definition tool_store :: "('d, 'a) action \<Rightarrow> ('d, 'a) tool_step" where
  "tool_store a s =
     (case a (to_world s) of
        (Inl (IoError k m), w) \<Rightarrow> (Inl (Failed m), s\<lparr>to_world := w\<rparr>)
      | (Inr x, w) \<Rightarrow> (Inr x, s\<lparr>to_world := w\<rparr>))"

text \<open>A request to a plugin; a transport error marks the plugin, an error it answers with does not.\<close>

definition call_plugin :: "('d, 'z, 'c) tool_env \<Rightarrow> string \<Rightarrow> request \<Rightarrow> ('d, json option) tool_step" where
  "call_plugin env plugin req s =
     (let s1 = s\<lparr>to_calls := to_calls s @ [(plugin, req)]\<rparr> in
      case te_call env (to_calls s) plugin req of
        Inl h \<Rightarrow> (Inl (Halted h), s1)
      | Inr (Inl e) \<Rightarrow> (Inl (Failed (show_error e)), s1\<lparr>to_failed := Some plugin\<rparr>)
      | Inr (Inr resp) \<Rightarrow>
          (case r_error resp of
             Some e \<Rightarrow> (Inl (Failed (e_message e)), s1)
           | None \<Rightarrow> (Inr (r_result resp), s1)))"

definition text_result :: "string \<Rightarrow> tool_error + tool_result" where
  "text_result t = Inr (tool_result_of_text t)"

section \<open>Schedules\<close>

definition id_params :: "json \<Rightarrow> json" where
  "id_params args = jobject [(''id'', json_index args ''id'')]"

definition schedule_method :: "string \<Rightarrow> json \<Rightarrow> (string \<times> json) option" where
  "schedule_method action args =
     (if action = ''list'' then Some (''list'', args)
      else if action = ''cancel'' then Some (''remove'', id_params args)
      else if action \<in> {''pause'', ''resume'', ''run'', ''retry''} then Some (action, id_params args)
      else None)"

definition schedule_answer :: "('d, 'z, 'c) tool_env \<Rightarrow> string \<Rightarrow> json \<Rightarrow> json \<Rightarrow> string" where
  "schedule_answer env rpc args value =
     (let i = te_print env (json_index args ''id'') in
      if rpc = ''list'' then format_schedule_list (te_tz env) value
      else if rpc = ''remove'' then
        (if json_index value ''cancel_requested'' = JBool True
         then ''Cancellation requested for schedule '' @ i
                @ ''. Its current action will be interrupted; a side effect may already have happened.''
         else if json_index value ''deleted'' = JBool True then ''Schedule '' @ i @ '' cancelled.''
         else ''Schedule '' @ i @ '' was not found.'')
      else if rpc = ''pause'' \<and> json_index value ''pause_requested'' = JBool True
        then ''Pause requested for schedule '' @ i @ ''. The current run will finish, then the schedule will stay paused.''
      else ''Schedule '' @ i @ '' is now '' @ text_or rpc (json_index value ''status'') @ ''.'')"

definition no_scheduler :: string where
  "no_scheduler = ''The scheduler plugin is not installed.''"

definition schedule_action :: "('d, 'z, 'c) tool_env \<Rightarrow> u64 \<Rightarrow> string \<Rightarrow> json \<Rightarrow> ('d, tool_result) tool_step" where
  "schedule_action env i action args s =
     (case find_plugin CapScheduler (te_plugins env) of
        None \<Rightarrow> (Inl (Failed no_scheduler), s)
      | Some (plugin, h) \<Rightarrow>
     (case schedule_method action args of
        None \<Rightarrow> (Inl (Failed ''Unknown schedule action.''), s)
      | Some (rpc, params) \<Rightarrow>
     (case call_plugin env plugin (request_call i rpc params) s of
        (Inl e, s1) \<Rightarrow> (Inl e, s1)
      | (Inr None, s1) \<Rightarrow> (Inl (Failed ''Scheduler returned no result.''), s1)
      | (Inr (Some value), s1) \<Rightarrow> (text_result (schedule_answer env rpc args value), s1))))"

section \<open>Proposing a schedule\<close>

text \<open>The checked parts of a proposal: the delay, the interval, the exact time, the retries and the policy.\<close>

record proposal =
  po_instruction :: string
  po_delay :: "nat option"
  po_repeat :: "nat option"
  po_at :: "nat option"
  po_retries :: nat
  po_on_failure :: string

definition u64_of :: "json \<Rightarrow> string \<Rightarrow> nat option" where
  "u64_of args k = as_u64 (json_index args k)"

definition text_of :: "json \<Rightarrow> string \<Rightarrow> string option" where
  "text_of args k = as_str (json_index args k)"

definition proposed_instruction :: "json \<Rightarrow> string option" where
  "proposed_instruction args =
     (case text_of args ''instruction'' of
        None \<Rightarrow> None
      | Some t \<Rightarrow> if trim t \<noteq> [] \<and> length (trim t) \<le> TEXT_LIMIT then Some (trim t) else None)"

definition proposed_name :: "json \<Rightarrow> string + string option" where
  "proposed_name args =
     (case text_of args ''name'' of
        None \<Rightarrow> Inr None
      | Some n \<Rightarrow>
          if trim n = [] then Inr None
          else if 80 < length (chars (trim n)) \<or> \<not> valid_schedule_name (trim n) then Inl name_error
          else Inr (Some (trim n)))"

definition proposed_run_at :: "('d, 'z, 'c) tool_env \<Rightarrow> json \<Rightarrow> string + int option" where
  "proposed_run_at env args =
     (case text_of args ''run_at'' of
        None \<Rightarrow> Inr None
      | Some t \<Rightarrow> (case te_timestamp env t of Inl e \<Rightarrow> Inl e | Inr i \<Rightarrow> Inr (Some i)))"

definition proposed_times :: "json \<Rightarrow> int option \<Rightarrow> bool list" where
  "proposed_times args run_at =
     [u64_of args ''delay_seconds'' \<noteq> None \<or> u64_of args ''repeat_seconds'' \<noteq> None \<and> run_at = None, run_at \<noteq> None,
      text_of args ''cron'' \<noteq> None]"

definition proposed_delay :: "json \<Rightarrow> int option \<Rightarrow> nat option" where
  "proposed_delay args run_at =
     (case u64_of args ''delay_seconds'' of
        Some d \<Rightarrow> Some d
      | None \<Rightarrow> if run_at = None then u64_of args ''repeat_seconds'' else None)"

definition after_now :: "('d, 'z, 'c) tool_env \<Rightarrow> int option \<Rightarrow> string + nat option" where
  "after_now env run_at =
     (case run_at of
        None \<Rightarrow> Inr None
      | Some i \<Rightarrow>
          if i < 0 then Inl ''out of range integral type conversion attempted''
          else if nat i < unat (sat_add (te_now env) 5)
          then Inl ''Exact scheduled times must be at least five seconds in the future.''
          else Inr (Some (nat i)))"

definition check_proposal :: "('d, 'z, 'c) tool_env \<Rightarrow> string \<Rightarrow> json \<Rightarrow> string + proposal" where
  "check_proposal env instruction args =
     (case proposed_run_at env args of
        Inl e \<Rightarrow> Inl e
      | Inr run_at \<Rightarrow>
     (let again = u64_of args ''repeat_seconds''; cron = text_of args ''cron'' in
      if length (filter id (proposed_times args run_at)) \<noteq> 1
      then Inl ''Choose exactly one schedule time: delay_seconds, run_at, or cron.''
      else if cron \<noteq> None \<and> again \<noteq> None then Inl ''Choose either a cron schedule or a fixed repeat interval.''
      else if interval_outside again then Inl ''Schedule repeat interval must be between five seconds and one year.''
      else if interval_outside (proposed_delay args run_at)
      then Inl ''Schedule delay must be between five seconds and one year.''
      else
     (case after_now env run_at of
        Inl e \<Rightarrow> Inl e
      | Inr at \<Rightarrow>
     (let retries = (case u64_of args ''retries'' of None \<Rightarrow> 0 | Some n \<Rightarrow> n);
          on_failure = (case text_of args ''on_failure'' of None \<Rightarrow> ''pause'' | Some t \<Rightarrow> t)
      in if 5 < retries then Inl ''Scheduled tasks can be configured for at most five retries.''
         else if on_failure \<notin> {''pause'', ''continue''} then Inl ''Failure policy must be pause or continue.''
         else if on_failure = ''continue'' \<and> again = None \<and> cron = None
         then Inl ''Failure policy continue requires a recurring schedule.''
         else Inr \<lparr>po_instruction = instruction, po_delay = proposed_delay args run_at, po_repeat = again, po_at = at,
                po_retries = retries, po_on_failure = on_failure\<rparr>))))"

definition insert_some :: "string \<Rightarrow> json option \<Rightarrow> (string, json) bmap \<Rightarrow> (string, json) bmap" where
  "insert_some k v m = (case v of None \<Rightarrow> m | Some x \<Rightarrow> binsert k x m)"

text \<open>The proposal as the scheduler's \<open>add\<close> takes it: the host's fields over those of the model.\<close>

definition proposal_params :: "u64 \<Rightarrow> string option \<Rightarrow> proposal \<Rightarrow> (string, json) bmap \<Rightarrow> (string, json) bmap" where
  "proposal_params i name p values =
     insert_some ''zone'' (map_option JStr (text_of (JObj values) ''timezone''))
    (insert_some ''at'' (map_option jnat (po_at p))
    (insert_some ''repeat'' (map_option jnat (po_repeat p))
    (binsert ''activate'' (JBool True)
    (binsert ''delay'' (jnat (case po_delay p of None \<Rightarrow> 0 | Some d \<Rightarrow> d))
    (binsert ''text'' (JStr (po_instruction p))
    (binsert ''id'' (jword i)
    (insert_some ''name'' (map_option JStr name) values)))))))"

definition schedule_frequency :: "json \<Rightarrow> string" where
  "schedule_frequency v =
     (case as_str (json_index v ''cron'') of
        Some cron \<Rightarrow> CHR 0x0A # ''Frequency: '' @ cron @ '' ('' @ zone_of v @ '')''
      | None \<Rightarrow>
          (case as_u64 (json_index v ''repeat'') of
             Some n \<Rightarrow> if 0 < n then CHR 0x0A # ''Frequency: every '' @ format_duration (of_nat n) else []
           | None \<Rightarrow> []))"

definition schedule_created :: "('d, 'z, 'c) tool_env \<Rightarrow> u64 \<Rightarrow> proposal \<Rightarrow> json \<Rightarrow> json \<Rightarrow> string" where
  "schedule_created env i p context v =
     (let tools_on = json_index context ''tools'' = JBool True;
          shell_on = (tools_on \<and> json_index context ''shell'' = JBool True);
          n = show_nat (unat i);
          due = (case as_u64 (json_index v ''due'') of
                   Some d \<Rightarrow> format_datetime_in_timezone (te_tz env) (of_nat d) (zone_of v)
                 | None \<Rightarrow> ''unknown time'')
      in ''Schedule '' @ schedule_name v @ '' ('' @ n @ '') is active.'' @ [CHR 0x0A, CHR 0x0A]
         @ ''Next run: '' @ due @ [CHR 0x0A] @ ''Tools: '' @ enabled_text tools_on @ [CHR 0x0A]
         @ ''Shell: '' @ enabled_text shell_on @ schedule_frequency v @ [CHR 0x0A]
         @ ''Automatic retries: '' @ show_nat (po_retries p) @ ''. ''
         @ (if po_retries p = 0 then ''Automatic retries are off.'' else ''Automatic retries use bounded exponential backoff.'')
         @ '' ''
         @ (if po_on_failure p = ''continue''
            then ''Failed recurring occurrences are skipped after retries, and the next run stays active.''
            else ''The schedule pauses if retries are exhausted.'')
         @ [CHR 0x0A, CHR 0x0A] @ ''Check it with /schedule list; pause it with /schedule pause '' @ n @ ''.'')"

definition propose_schedule :: "('d, 'z, 'c) tool_env \<Rightarrow> json \<Rightarrow> ('d, tool_result) tool_step" where
  "propose_schedule env args s =
     (case find_plugin CapScheduler (te_plugins env) of
        None \<Rightarrow> (Inl (Failed no_scheduler), s)
      | Some (plugin, h) \<Rightarrow>
     (case te_schedule_id env of
        Inl e \<Rightarrow> (Inl (Failed e), s)
      | Inr i \<Rightarrow>
     (case as_object args of
        None \<Rightarrow> (Inl (Failed ''Schedule proposal arguments must be an object.''), s)
      | Some values \<Rightarrow>
     (case proposed_instruction args of
        None \<Rightarrow> (Inl (Failed ''A schedule instruction is required and must be smaller than 256 KiB.''), s)
      | Some instruction \<Rightarrow>
     (case proposed_name args of
        Inl e \<Rightarrow> (Inl (Failed e), s)
      | Inr name \<Rightarrow>
     (case check_proposal env instruction args of
        Inl e \<Rightarrow> (Inl (Failed e), s)
      | Inr p \<Rightarrow>
          (let params = JObj (proposal_params i name p values) in
           case call_plugin env plugin (request_call i ''add'' params) s of
             (Inl e, s1) \<Rightarrow> (Inl e, s1)
           | (Inr v, s1) \<Rightarrow>
               (text_result (schedule_created env i p (json_index params ''context'') (case v of None \<Rightarrow> JNull | Some x \<Rightarrow> x)), s1))))))))"

section \<open>Memory and other plugins\<close>

definition memory_params :: "string \<Rightarrow> string \<Rightarrow> bool \<Rightarrow> (string, json) bmap \<Rightarrow> json" where
  "memory_params scope rpc approve values =
     JObj (if rpc = ''remember'' then binsert ''approved'' (JBool approve) (binsert ''scope'' (JStr scope) values)
           else binsert ''scope'' (JStr scope) values)"

definition memory_tool :: "('d, 'z, 'c) tool_env \<Rightarrow> u64 \<Rightarrow> string \<Rightarrow> json \<Rightarrow> bool \<Rightarrow> string \<Rightarrow> ('d, tool_result) tool_step" where
  "memory_tool env i rpc args approve scope s =
     (case find_plugin CapMemory (te_plugins env) of
        None \<Rightarrow> (Inl (Failed ''The memory plugin is not installed.''), s)
      | Some (plugin, h) \<Rightarrow>
     (case as_object args of
        None \<Rightarrow> (Inl (Failed ''Memory tool arguments must be an object.''), s)
      | Some values \<Rightarrow>
     (case call_plugin env plugin (request_call i rpc (memory_params scope rpc approve values)) s of
        (Inl e, s1) \<Rightarrow> (Inl e, s1)
      | (Inr None, s1) \<Rightarrow> (Inl (Failed ''The memory plugin returned no result.''), s1)
      | (Inr (Some v), s1) \<Rightarrow> (text_result (clip (te_print env v) TEXT_LIMIT), s1))))"

text \<open>What a plugin is sent: the host's \<open>tools\<close> plugin gets the arguments with the host's answer on approval and
  the workspace, another plugin gets the arguments as they are, with the names of the session and the turn.\<close>

definition tool_params :: "tool_turn \<Rightarrow> string \<Rightarrow> bool \<Rightarrow> (string, json) bmap \<Rightarrow> json" where
  "tool_params t plugin approve values =
     (if plugin = ''tools''
      then JObj (insert_some ''workspace'' (map_option JStr (tt_workspace t)) (binsert ''approve'' (JBool approve) values))
      else jobject [(''arguments'', JObj values),
             (''host'', jobject [(''session'', JStr (tt_session t)), (''turn'', JStr (tt_turn t))])])"

definition registered_tool :: "('d, 'z, 'c) tool_env \<Rightarrow> tool_turn \<Rightarrow> u64 \<Rightarrow> string \<Rightarrow> json \<Rightarrow> bool \<Rightarrow> ('d, tool_result) tool_step" where
  "registered_tool env t i name args approve s =
     (case bget (tg_owners (tt_registry t)) name of
        None \<Rightarrow> (Inl (Failed (''Tool `'' @ name @ ''` is not registered.'')), s)
      | Some plugin \<Rightarrow>
     (case bget (te_plugins env) plugin of
        None \<Rightarrow> (Inl (Failed (''Tool provider '' @ plugin @ '' is unavailable.'')), s)
      | Some h \<Rightarrow>
          if \<not> supports h CapTool then (Inl (Failed (''Tool provider '' @ plugin @ '' is unavailable.'')), s)
          else
            (case as_object args of
               None \<Rightarrow> (Inl (Failed ''Tool arguments must be an object.''), s)
             | Some values \<Rightarrow>
                 (case call_plugin env plugin (request_call i name (tool_params t plugin approve values)) s of
                    (Inl e, s1) \<Rightarrow> (Inl e, s1)
                  | (Inr None, s1) \<Rightarrow> (Inl (Failed ''The tool returned no result.''), s1)
                  | (Inr (Some v), s1) \<Rightarrow>
                      (case decode_tool_result (te_contents env) (te_decode64 env) (te_print env) v of
                         Inl e \<Rightarrow> (Inl (Failed e), s1)
                       | Inr r \<Rightarrow> (Inr r, s1))))))"

definition tool_with_registry :: "('d, 'z, 'c) tool_env \<Rightarrow> tool_turn \<Rightarrow> u64 \<Rightarrow> string \<Rightarrow> json \<Rightarrow> bool \<Rightarrow> ('d, tool_result) tool_step" where
  "tool_with_registry env t i name args approve =
     (if name = ''schedule_propose'' then propose_schedule env args
      else
        (case strip_prefix ''schedule_'' name of
           Some action \<Rightarrow> schedule_action env i action args
         | None \<Rightarrow>
             (case strip_prefix ''memory_'' name of
                Some rpc \<Rightarrow> memory_tool env i rpc args approve (memory_scope (tt_channel t) (tt_chat t))
              | None \<Rightarrow> registered_tool env t i name args approve)))"

end
