(* ===== verification/Tool_Calls.thy ===== *)
theory Tool_Calls
  imports Tool_Dispatch
begin

text \<open>
  \<open>execute_tool_with_registry\<close> and \<open>host_tool_with_registry\<close> of \<open>krabb-runtime/src/lib.rs\<close>: the rights of the turn,
  the approval of a call that changes something, messages of scheduled tasks, and the call itself.
\<close>

section \<open>Asking for approval\<close>

definition proposed_destination :: "json \<Rightarrow> string" where
  "proposed_destination args =
     (case json_get args ''message_destination'' of
        None \<Rightarrow> ''no outbound message destination''
      | Some v \<Rightarrow> ''outbound messages to channel '' @ text_or ''invalid'' (json_index v ''channel'')
          @ '', chat '' @ text_or ''invalid'' (json_index v ''chat'')
          @ '', private '' @ (if json_index v ''private'' = JBool True then ''true'' else ''false'')
          @ '', thread '' @ text_or ''none'' (json_index v ''thread''))"

definition proposed_timing :: "json \<Rightarrow> json" where
  "proposed_timing args =
     jobject (map (\<lambda>k. (k, json_index args k))
       [''delay_seconds'', ''run_at'', ''cron'', ''timezone'', ''repeat_seconds'', ''missed'', ''retries'', ''on_failure''])"

definition approval_text :: "(json \<Rightarrow> string) \<Rightarrow> (string \<Rightarrow> string) \<Rightarrow> string \<Rightarrow> json \<Rightarrow> string" where
  "approval_text pr debug name args =
     ''Krabb requests approval to ''
     @ (if name = ''schedule_propose'' then
          ''create a scheduled task with instruction '' @ debug (clip (text_or ''invalid'' (json_index args ''instruction'')) 600)
          @ '', timing '' @ clip (pr (proposed_timing args)) 400 @ '', and '' @ proposed_destination args
        else if name = ''write'' then ''write to '' @ text_or ''a workspace path'' (json_index args ''path'')
        else if name = ''memory_remember'' then ''save memory '' @ text_or ''with the requested key'' (json_index args ''key'')
        else if name = ''patch'' then ''apply a patch containing ''
          @ show_nat (case as_str (json_index args ''text'') of None \<Rightarrow> 0 | Some x \<Rightarrow> length x) @ '' bytes''
        else if name = ''shell'' then ''run this shell command: '' @ clip (text_or ''unknown'' (json_index args ''command'')) 1000
        else if name = ''git'' then ''run this Git operation: '' @ clip (pr (json_index args ''args'')) 1000
        else ''run the '' @ name @ '' tool'')
     @ ''.''"

definition call_target :: "tool_turn \<Rightarrow> string \<Rightarrow> json \<Rightarrow> target" where
  "call_target t name args = \<lparr>ta_channel = tt_channel t, ta_chat = tt_chat t, ta_thread = tt_thread t,
     ta_session = tt_session t, ta_tool = name, ta_args = args\<rparr>"

definition approval_prompt :: "('d, 'z, 'c) tool_env \<Rightarrow> tool_turn \<Rightarrow> string \<Rightarrow> json \<Rightarrow> challenge \<Rightarrow> prompt" where
  "approval_prompt env t name args ch =
     \<lparr>pm_chat = tt_chat t, pm_thread = tt_thread t, pm_tool = name, pm_arguments = clip (te_print env args) 512,
      pm_command = map_option (\<lambda>c. clip c 1000) (as_str (json_index args ''command'')),
      pm_text = approval_text (te_print env) (te_debug env) name args,
      pm_approve = ch_approve ch, pm_deny = ch_deny ch\<rparr>"

text \<open>The id of a challenge, and the answer that came for it between two states of the gate.\<close>

definition challenge_id :: "challenge \<Rightarrow> string" where
  "challenge_id ch = (case decode (ch_approve ch) of None \<Rightarrow> [] | Some (i, a, s) \<Rightarrow> i)"

definition given_answer :: "string \<Rightarrow> gate \<Rightarrow> gate \<Rightarrow> bool option" where
  "given_answer i g g' = map_option snd (find (\<lambda>(j, b). j = i) (drop (length (g_answers g)) (g_answers g')))"

text \<open>Whether the person approved.\<close>

definition ask_approval :: "('d, 'z, 'c) tool_env \<Rightarrow> tool_turn \<Rightarrow> string \<Rightarrow> json \<Rightarrow> ('d, bool) tool_step" where
  "ask_approval env t name args s =
     (case issue (te_approval env) (call_target t name args) (to_gate s) of
        (Inl (IoError k m), g) \<Rightarrow> (Inl (Failed m), s\<lparr>to_gate := g\<rparr>)
      | (Inr ch, g) \<Rightarrow>
          if \<not> te_open env (length (to_prompts s))
          then (Inl (Failed ''The channel approval handler is unavailable.''), s\<lparr>to_gate := cancel_approval (ch_approve ch) g\<rparr>)
          else
            (let s1 = s\<lparr>to_gate := g, to_prompts := to_prompts s @ [approval_prompt env t name args ch]\<rparr>;
                 (halted, w, g') = te_await env (challenge_id ch) (to_world s, g);
                 s2 = s1\<lparr>to_world := w, to_gate := g'\<rparr>
             in case halted of
                  Some h \<Rightarrow> (Inl (Halted h), s2)
                | None \<Rightarrow>
                    (case given_answer (challenge_id ch) g g' of
                       Some b \<Rightarrow> (Inr b, s2)
                     | None \<Rightarrow> (Inl (Failed ''The approval request is no longer available.''), s2))))"

text \<open>\<open>None\<close> is a call that was denied.\<close>

definition effective_mode :: "tool_turn \<Rightarrow> string \<Rightarrow> approval_mode" where
  "effective_mode t name = (if name = ''schedule_propose'' then ModeAuto else tt_mode t)"

definition approve_call :: "('d, 'z, 'c) tool_env \<Rightarrow> tool_turn \<Rightarrow> string \<Rightarrow> json \<Rightarrow> ('d, bool option) tool_step" where
  "approve_call env t name args s =
     (if \<not> mutating name args then (Inr (Some False), s)
      else
        (case effective_mode t name of
           ModeOff \<Rightarrow> (Inl (Failed ''Approval policy blocks mutating tools.''), s)
         | ModeAuto \<Rightarrow> (Inr (Some True), s)
         | ModePrompt \<Rightarrow>
             (case ask_approval env t name args s of
                (Inl e, s1) \<Rightarrow> (Inl e, s1)
              | (Inr b, s1) \<Rightarrow> (Inr (if b then Some True else None), s1))))"

section \<open>The context of a proposed schedule\<close>

definition schedule_context :: "tool_turn \<Rightarrow> bool option \<Rightarrow> destination option \<Rightarrow> json" where
  "schedule_context t private d =
     jobject [(''provider'', JStr (tt_provider t)), (''model'', JStr (tt_model t)),
       (''workspace'', jopt JStr (tt_workspace t)),
       (''origin'', jobject [(''channel'', JStr (tt_channel t)), (''chat'', JStr (tt_chat t)),
          (''thread'', jopt JStr (tt_thread t)), (''session'', JStr (tt_session t)), (''private'', jopt JBool private)]),
       (''message_destination'', destination_json d),
       (''tools'', JBool (tt_tools t \<and> tg_specs (tt_registry t) \<noteq> [])),
       (''shell'', JBool (tt_shell t))]"

definition proposal_destination :: "json \<Rightarrow> string + destination option" where
  "proposal_destination args =
     (let instruction = (case text_of args ''instruction'' of None \<Rightarrow> [] | Some x \<Rightarrow> x) in
      case json_get args ''message_destination'' of
        None \<Rightarrow> Inr (requested_tui_destination instruction)
      | Some v \<Rightarrow>
          (case authorized_destination v of
             None \<Rightarrow> Inl ''The scheduled message destination is invalid.''
           | Some d \<Rightarrow> Inr (Some d)))"

definition foreign_tui_destination :: "tool_turn \<Rightarrow> json \<Rightarrow> destination option \<Rightarrow> bool" where
  "foreign_tui_destination t args d \<longleftrightarrow>
     (case d of None \<Rightarrow> False
      | Some d \<Rightarrow> de_channel d = ''tui'' \<and> de_chat d \<noteq> tt_session t
          \<and> \<not> (de_chat d = ''tui-default''
               \<and> requested_tui_destination (case text_of args ''instruction'' of None \<Rightarrow> [] | Some x \<Rightarrow> x) \<noteq> None))"

definition prepare_proposal :: "tool_turn \<Rightarrow> store \<Rightarrow> json \<Rightarrow> string + json" where
  "prepare_proposal t st args =
     (case as_object args of
        None \<Rightarrow> Inr args
      | Some values \<Rightarrow>
          (case proposal_destination args of
             Inl e \<Rightarrow> Inl e
           | Inr d \<Rightarrow>
               if foreign_tui_destination t args d
               then Inl ''A TUI message must target the originating TUI session, or the explicitly requested default TUI chat.''
               else Inr (JObj (binsert ''context''
                      (schedule_context t (map_option s_private (bget (st_sessions st) (tt_session t))) d)
                      (bremove ''message_destination'' (bremove ''name'' values))))))"

section \<open>Messages of scheduled tasks\<close>

record scheduled_message =
  sm_channel :: string
  sm_chat :: string
  sm_private :: bool
  sm_thread :: "string option"
  sm_text :: string

definition message_text :: "json \<Rightarrow> string option" where
  "message_text v =
     (case as_str v of
        None \<Rightarrow> None
      | Some x \<Rightarrow>
          if trim x \<noteq> [] \<and> length (trim x) \<le> TEXT_LIMIT
             \<and> list_all (\<lambda>c. \<not> is_control c \<or> c = [CHR 0x0A] \<or> c = [CHR 0x09]) (chars (trim x))
          then Some (trim x) else None)"

definition scheduled_message :: "json \<Rightarrow> string + scheduled_message" where
  "scheduled_message args =
     (case visible_channel (json_index args ''channel'') of
        None \<Rightarrow> Inl ''A valid installed channel ID is required.''
      | Some channel \<Rightarrow>
     (case visible_chat (json_index args ''chat'') of
        None \<Rightarrow> Inl ''A recipient ID of at most 256 visible characters is required.''
      | Some chat \<Rightarrow>
     (case as_bool (json_index args ''private'') of
        None \<Rightarrow> Inl ''The recipient type must be specified.''
      | Some private \<Rightarrow>
     (case message_text (json_index args ''text'') of
        None \<Rightarrow> Inl ''Message text is required and must fit within the message limit.''
      | Some text \<Rightarrow>
          (let thread = named_thread (json_index args ''thread'') in
           if channel = ''tui''
              \<and> \<not> valid_tui_destination \<lparr>de_channel = channel, de_chat = chat, de_private = private, de_thread = thread\<rparr>
           then Inl ''TUI messages must target a TUI session without a thread.''
           else if (case thread of None \<Rightarrow> False | Some x \<Rightarrow> \<not> visible x)
           then Inl ''Thread IDs must contain at most 256 visible characters.''
           else Inr \<lparr>sm_channel = channel, sm_chat = chat, sm_private = private, sm_thread = thread, sm_text = text\<rparr>)))))"

definition matches_authorized_destination :: "scheduled_message \<Rightarrow> destination \<Rightarrow> bool" where
  "matches_authorized_destination m d \<longleftrightarrow>
     sm_channel m = de_channel d \<and> sm_chat m = de_chat d \<and> sm_private m = de_private d \<and> sm_thread m = de_thread d"

definition scheduled_delivery_id :: "string \<Rightarrow> u64 \<Rightarrow> nat \<Rightarrow> string" where
  "scheduled_delivery_id session run k = session @ ''-run-'' @ show_nat (unat run) @ ''-tool-'' @ show_nat k"

definition scheduled_tui_notice_id :: "string \<Rightarrow> nat \<Rightarrow> u64 \<Rightarrow> nat \<Rightarrow> string" where
  "scheduled_tui_notice_id session t run k =
     ''schedule-notice-at-'' @ show_nat t @ ''-'' @ session @ ''-run-'' @ show_nat (unat run) @ ''-tool-'' @ show_nat k"

text \<open>\<open>existing.id.ends_with(&delivery_id)\<close>.\<close>

definition ends_in :: "string \<Rightarrow> string \<Rightarrow> bool" where
  "ends_in e s \<longleftrightarrow> length e \<le> length s \<and> drop (length s - length e) s = e"

definition notice_message :: "string \<Rightarrow> scheduled_message \<Rightarrow> message" where
  "notice_message i m = \<lparr>m_id = i, m_session = sm_chat m, m_role = Assistant, m_sender = Some ''scheduler'',
     m_content = [CText (sm_text m)]\<rparr>"

definition tui_message :: "('d, 'z, 'c) tool_env \<Rightarrow> tool_turn \<Rightarrow> u64 \<Rightarrow> nat \<Rightarrow> scheduled_message \<Rightarrow> ('d, tool_result) tool_step" where
  "tui_message env t run k m s =
     (case tool_store (ensure (te_store env 1) (sm_chat m) (tt_model t)) s of
        (Inl e, s1) \<Rightarrow> (Inl e, s1)
      | (Inr u, s1) \<Rightarrow>
          (let i = scheduled_delivery_id (tt_session t) run k;
               old = (case bget (st_sessions (fst (to_world s1))) (sm_chat m) of None \<Rightarrow> [] | Some x \<Rightarrow> s_messages x)
           in if list_ex (\<lambda>x. m_id x = i \<or> ends_in i (m_id x)) old
              then (text_result (''Message was already added to TUI session '' @ sm_chat m @ ''.''), s1)
              else
                (case tool_store (append_notice (te_store env 2) (sm_chat m)
                        (notice_message (scheduled_tui_notice_id (tt_session t) (te_millis env) run k) m)) s1 of
                   (Inl e, s2) \<Rightarrow> (Inl e, s2)
                 | (Inr u, s2) \<Rightarrow> (text_result (''Message added to TUI session '' @ sm_chat m @ ''.''), s2))))"

definition no_run :: string where "no_run = ''Scheduled run ID is missing.''"

definition send_message :: "('d, 'z, 'c) tool_env \<Rightarrow> tool_turn \<Rightarrow> json \<Rightarrow> nat \<Rightarrow> ('d, tool_result) tool_step" where
  "send_message env t args k s =
     (if tt_channel t \<noteq> ''scheduler'' then (Inl (Failed ''Message sending is available only to scheduled tasks.''), s)
      else
     (case scheduled_message args of
        Inl e \<Rightarrow> (Inl (Failed e), s)
      | Inr m \<Rightarrow>
     (case tt_destination t of
        None \<Rightarrow> (Inl (Failed ''This schedule has no authorized message destination.''), s)
      | Some d \<Rightarrow>
          if \<not> matches_authorized_destination m d
          then (Inl (Failed ''Message destination does not match the schedule's authorization.''), s)
          else if sm_channel m = ''tui'' then
            (case tt_run t of None \<Rightarrow> (Inl (Failed no_run), s) | Some run \<Rightarrow> tui_message env t run k m s)
          else if (case bget (te_plugins env) (sm_channel m) of None \<Rightarrow> True | Some h \<Rightarrow> \<not> supports h CapChannel)
          then (Inl (Failed (''Channel plugin '' @ sm_channel m @ '' is not available.'')), s)
          else
            (case tt_run t of
               None \<Rightarrow> (Inl (Failed no_run), s)
             | Some run \<Rightarrow>
                 (case tool_store (queue_delivery (te_store env 1) (scheduled_delivery_id (tt_session t) run k)
                         (sm_channel m) (sm_chat m) (sm_private m) (sm_thread m) (sm_text m)) s of
                    (Inl e, s1) \<Rightarrow> (Inl e, s1)
                  | (Inr u, s1) \<Rightarrow> (text_result (''Message queued for delivery through '' @ sm_channel m @ ''.''), s1))))))"

section \<open>One tool call\<close>

definition denied_text :: string where
  "denied_text = ''The request was denied. No changes were made.''"

text \<open>The rest of the call once it is approved, or needs no approval.\<close>

definition run_approved :: "('d, 'z, 'c) tool_env \<Rightarrow> tool_turn \<Rightarrow> u64 \<Rightarrow> string \<Rightarrow> json \<Rightarrow> nat \<Rightarrow> bool \<Rightarrow> ('d, tool_result) tool_step" where
  "run_approved env t i name args k approve s =
     (case (if name = ''schedule_propose'' then prepare_proposal t (fst (to_world s)) args else Inr args) of
        Inl e \<Rightarrow> (Inl (Failed e), s)
      | Inr args' \<Rightarrow>
          if name = ''message_send'' then send_message env t args' k s
          else tool_with_registry env t i name args' approve s)"

definition execute_tool :: "('d, 'z, 'c) tool_env \<Rightarrow> tool_turn \<Rightarrow> u64 \<Rightarrow> string \<Rightarrow> json \<Rightarrow> nat \<Rightarrow> ('d, tool_result) tool_step" where
  "execute_tool env t i name args k s =
     (if name = ''shell'' \<and> \<not> tt_shell t then (Inl (Failed ''Shell access is not authorized for this turn.''), s)
      else if strip_prefix ''schedule_'' name \<noteq> None \<and> \<not> tt_schedule t
      then (Inl (Failed ''Scheduling is not authorized for this sender.''), s)
      else
     (case approve_call env t name args s of
        (Inl e, s1) \<Rightarrow> (Inl e, s1)
      | (Inr None, s1) \<Rightarrow> (text_result denied_text, s1)
      | (Inr (Some approve), s1) \<Rightarrow>
          if approve then
            (case tool_store (set_phase (te_store env 0) (tt_session t) ''unsafe'') s1 of
               (Inl e, s2) \<Rightarrow> (Inl e, s2)
             | (Inr u, s2) \<Rightarrow> run_approved env t i name args k True s2)
          else run_approved env t i name args k False s1))"

section \<open>Calls through the host\<close>

text \<open>\<open>restart_tool\<close>: the plugins that are restarted, when they are running.\<close>

definition restart_tool :: "('d, 'z, 'c) tool_env \<Rightarrow> string option \<Rightarrow> 'd tool_state \<Rightarrow> 'd tool_state" where
  "restart_tool env plugin s =
     (case plugin of
        None \<Rightarrow> s
      | Some p \<Rightarrow> if bget (te_plugins env) p = None then s else s\<lparr>to_restarts := to_restarts s @ [p]\<rparr>)"

definition host_failed :: "u64 \<Rightarrow> string \<Rightarrow> core_error + response" where
  "host_failed i e = Inr (response_fail i (-32000) e)"

definition turn_cancelled :: "store \<Rightarrow> string \<Rightarrow> bool" where
  "turn_cancelled st session \<longleftrightarrow> (case bget (st_sessions st) session of None \<Rightarrow> False | Some x \<Rightarrow> s_status x = ''cancelled'')"

text \<open>The checks before the call is counted: the response of a call that is refused.\<close>

definition host_refusal :: "tool_turn \<Rightarrow> u64 \<Rightarrow> string \<Rightarrow> string option" where
  "host_refusal t i name =
     (let scheduling = (strip_prefix ''schedule_'' name \<noteq> None); scheduled = (tt_channel t = ''scheduler'') in
      if scheduling \<and> scheduled then Some ''Scheduled tasks cannot create or change schedules.''
      else if scheduling \<and> \<not> tt_schedule t then Some ''Scheduling is not authorized for this sender.''
      else if name = ''schedule_list'' \<and> \<not> schedule_listing_allowed (tt_channel t)
      then Some ''Schedule listing is only available in the local CLI and TUI.''
      else if \<not> tt_tools t \<and> \<not> scheduling \<and> \<not> (name = ''message_send'' \<and> scheduled)
      then Some ''Tool access is disabled for this channel.''
      else None)"

text \<open>The call's own mark of a failed plugin is not the turn's.\<close>

definition own_failure :: "'d tool_state \<Rightarrow> 'd tool_state \<Rightarrow> 'd tool_state" where
  "own_failure s s' = s'\<lparr>to_failed := to_failed s\<rparr>"

text \<open>A request of the agent behind the provider: the response, and the count of the turn's calls. Only a stop or a
  cancellation of the turn leaves it without a response.\<close>

definition host_tool :: "('d, 'z, 'c) tool_env \<Rightarrow> tool_turn \<Rightarrow> request \<Rightarrow> nat \<Rightarrow> 'd tool_state \<Rightarrow>
    (halt + (core_error + response)) \<times> nat \<times> 'd tool_state" where
  "host_tool env t req calls s =
     (case req of
        Note v m ps \<Rightarrow> (Inr (Inl (Protocol ''Host tool requests require an ID.'')), calls, s)
      | Call v i m ps \<Rightarrow>
     (if m \<noteq> ''host/tool'' then (Inr (Inr (response_fail i (-32601) ''method not found'')), calls, s)
      else
     (case as_str (json_index ps ''name'') of
        None \<Rightarrow> (Inr (Inr (response_fail i (-32602) ''A tool name is required.'')), calls, s)
      | Some name \<Rightarrow>
     (case host_refusal t i name of
        Some e \<Rightarrow> (Inr (host_failed i e), calls, s)
      | None \<Rightarrow>
     (let args = json_index ps ''args'' in
      if TOOL_CALLS \<le> calls then (Inr (host_failed i ''The turn exceeded its tool-call limit.''), calls + 1, s)
      else if turn_cancelled (fst (to_world s)) (tt_session t)
      then (Inr (host_failed i ''The turn was cancelled.''), calls + 1, s)
      else if \<not> validate_tool_args (\<lambda>v. length (te_print env v)) args
      then (Inr (Inr (response_fail i (-32602) ''Tool arguments exceed the size limit.'')), calls + 1, s)
      else
     (case validate_registered_args (tt_registry t) name args of
        Inl e \<Rightarrow> (Inr (Inr (response_fail i (-32602) (''Tool arguments are invalid: '' @ e))), calls + 1, s)
      | Inr _ \<Rightarrow>
     (case execute_tool env t i name args calls (s\<lparr>to_failed := None\<rparr>) of
        (Inr r, s1) \<Rightarrow> (Inr (Inr (response_ok i (tool_result_value (te_result_json env) (te_print env) r))), calls + 1,
           own_failure s s1)
      | (Inl (Failed e), s1) \<Rightarrow>
          (Inr (host_failed i (sentence (te_upper env) e)), calls + 1,
           own_failure s (restart_tool env (to_failed s1) s1))
      | (Inl (Halted HaltDeadline), s1) \<Rightarrow>
          (Inr (host_failed i ''The turn exceeded its time limit.''), calls + 1,
           own_failure s (restart_tool env (bget (tg_owners (tt_registry t)) name) s1))
      | (Inl (Halted h), s1) \<Rightarrow> (Inl h, calls + 1, own_failure s s1))))))))"

end
