(* ===== verification/Answer_Loop.thy ===== *)
theory Answer_Loop
  imports Tool_Calls
begin

text \<open>
  \<open>answer\<close> of \<open>krabb-runtime/src/lib.rs\<close>: one turn of the daemon. It prepares the tools, asks the model, keeps the
  reply in the transcript, runs the tools the reply asks for and goes on with their results, within limits on the
  steps, the calls and the tokens.

  The model's side is part of the environment: for each step the requests of the agent behind it (\<open>host/tool\<close>), the
  notes it streams, how many of them reached the channel before the reply, what other tasks did to the store in that
  time, and the outcome.
\<close>

section \<open>Environment and state\<close>

datatype model_outcome = ModelStopped halt | ModelFailed core_error | ModelAnswered response

record ('d, 'z, 'c) answer_env =
  an_tools :: "('d, 'z, 'c) tool_env"
  an_provider :: hello
  an_read_media :: "string \<Rightarrow> nat \<Rightarrow> string option"
  an_encode64 :: "string \<Rightarrow> string"
  an_event :: "json \<Rightarrow> event option"
  an_reply :: "json \<Rightarrow> string + model_reply"
  an_request_json :: "model_request \<Rightarrow> json"
  an_request_len :: "request \<Rightarrow> nat"
  an_content_len :: "content list \<Rightarrow> nat"
  an_specs :: "json \<Rightarrow> string + tool_spec list"
  an_listing :: "string \<Rightarrow> listing"
  an_host :: "nat \<Rightarrow> request list"
  an_notes :: "nat \<Rightarrow> request list"
  an_forwarded :: "nat \<Rightarrow> nat"
  an_meanwhile :: "nat \<Rightarrow> 'd world \<Rightarrow> 'd world"
  an_outcome :: "nat \<Rightarrow> request \<Rightarrow> model_outcome"
  an_open :: "nat \<Rightarrow> bool"

record 'd answer_state =
  aw_tools :: "'d tool_state"
  aw_call :: u64
  aw_calls :: nat
  aw_tokens :: u64
  aw_messages :: "message list"
  aw_failures :: "string list option"
  aw_requests :: "request list"

definition an_print :: "('d, 'z, 'c) answer_env \<Rightarrow> json \<Rightarrow> string" where
  "an_print env = te_print (an_tools env)"

definition an_vision :: "('d, 'z, 'c) answer_env \<Rightarrow> bool" where
  "an_vision env = supports (an_provider env) CapVision"

definition halt_text :: "halt \<Rightarrow> string" where
  "halt_text h = (case h of HaltStop \<Rightarrow> ''The turn was interrupted.'' | HaltCancel \<Rightarrow> ''The turn was cancelled.''
     | HaltDeadline \<Rightarrow> ''The turn exceeded its time limit.'')"

definition stream_closed :: string where
  "stream_closed = ''The channel stream receiver is unavailable.''"

definition no_vision :: string where
  "no_vision = ''The selected model provider does not support image inputs.''"

definition cancelled_text :: string where
  "cancelled_text = ''The turn was cancelled.''"

section \<open>Before the first request\<close>

definition turn_registry :: "('d, 'z, 'c) answer_env \<Rightarrow> tool_turn \<Rightarrow> string + tool_registry" where
  "turn_registry env t =
     (case Tool_Catalog.tool_registry (an_specs env) (\<lambda>v. length (an_print env v)) (an_listing env) (te_plugins (an_tools env))
             (tt_tools t) (tt_shell t) of
        Inl e \<Rightarrow> Inl e
      | Inr reg \<Rightarrow> Inr (if an_vision env then reg else without_vision_tools reg))"

definition turn_specs :: "('d, 'z, 'c) answer_env \<Rightarrow> tool_turn \<Rightarrow> tool_registry \<Rightarrow> tool_spec list" where
  "turn_specs env t reg =
     (let ps = te_plugins (an_tools env) in
      tg_specs reg
      @ (if find_plugin CapMemory ps \<noteq> None \<and> tt_tools t then memory_tools else [])
      @ (if find_plugin CapScheduler ps \<noteq> None \<and> tt_channel t \<noteq> ''scheduler'' \<and> tt_schedule t
         then scheduler_tools (tg_specs reg \<noteq> []) (tt_shell t) (schedule_listing_allowed (tt_channel t))
                (map fst (filter (\<lambda>(i, h). supports h CapChannel) ps))
         else [])
      @ (if tt_channel t = ''scheduler'' then scheduled_message_tools ps (tt_destination t) else []))"

section \<open>While the model runs\<close>

text \<open>The requests of the agent, in order; a failed one ends the model's request.\<close>

fun host_requests :: "('d, 'z, 'c) answer_env \<Rightarrow> tool_turn \<Rightarrow> request list \<Rightarrow> 'd answer_state \<Rightarrow>
    string option \<times> 'd answer_state" where
  "host_requests env t [] a = (None, a)"
| "host_requests env t (req # reqs) a =
     (case host_tool (an_tools env) t req (aw_calls a) (aw_tools a) of
        (Inl h, n, s) \<Rightarrow> (Some (halt_text h), a\<lparr>aw_tools := s, aw_calls := n\<rparr>)
      | (Inr (Inl e), n, s) \<Rightarrow> (Some (show_error e), a\<lparr>aw_tools := s, aw_calls := n\<rparr>)
      | (Inr (Inr resp), n, s) \<Rightarrow>
          host_requests env t reqs (a\<lparr>aw_tools := s, aw_calls := n,
            aw_failures := track_scheduled_tool_response resp (aw_failures a)\<rparr>))"

definition note_notice :: "event \<Rightarrow> stream_notice option" where
  "note_notice e = (case e of EText x \<Rightarrow> Some (NText x) | EDone x \<Rightarrow> Some (NText x)
     | ETool name args i sig \<Rightarrow> Some (NTool name) | EError m \<Rightarrow> None)"

fun send_notices :: "('d, 'z, 'c) answer_env \<Rightarrow> stream_notice list \<Rightarrow> 'd tool_state \<Rightarrow> bool \<times> 'd tool_state" where
  "send_notices env [] s = (True, s)"
| "send_notices env (n # ns) s =
     (if \<not> an_open env (length (to_notices s)) then (False, s)
      else send_notices env ns (s\<lparr>to_notices := to_notices s @ [n]\<rparr>))"

definition forwarded :: "('d, 'z, 'c) answer_env \<Rightarrow> nat \<Rightarrow> stream_notice list" where
  "forwarded env step =
     List.map_filter note_notice
       (List.map_filter (stream_event (an_event env)) (take (an_forwarded env step) (an_notes env step)))"

text \<open>The model's reply to a request, or the error that ends the turn.\<close>

definition ask_model :: "('d, 'z, 'c) answer_env \<Rightarrow> tool_turn \<Rightarrow> nat \<Rightarrow> request \<Rightarrow> 'd answer_state \<Rightarrow>
    (string + response) \<times> 'd answer_state" where
  "ask_model env t step req a =
     (case host_requests env t (an_host env step) (a\<lparr>aw_requests := aw_requests a @ [req]\<rparr>) of
        (Some e, a1) \<Rightarrow> (Inl e, a1)
      | (None, a1) \<Rightarrow>
     (case send_notices env (forwarded env step) (aw_tools a1) of
        (False, s) \<Rightarrow> (Inl stream_closed, a1\<lparr>aw_tools := s\<rparr>)
      | (True, s) \<Rightarrow>
          (let a2 = a1\<lparr>aw_tools := s\<lparr>to_world := an_meanwhile env step (to_world s)\<rparr>\<rparr> in
           case an_outcome env step req of
             ModelStopped h \<Rightarrow> (Inl (halt_text h), a2)
           | ModelFailed e \<Rightarrow> (Inl (show_error e), a2)
           | ModelAnswered resp \<Rightarrow> (Inr resp, a2\<lparr>aw_call := aw_call a2 + 1\<rparr>))))"

section \<open>What is made of the reply\<close>

definition read_reply :: "('d, 'z, 'c) answer_env \<Rightarrow> nat \<Rightarrow> response \<Rightarrow> string + model_reply" where
  "read_reply env step resp =
     (case r_result resp of
        None \<Rightarrow> Inl (case r_error resp of
                  Some e \<Rightarrow> ''Model request failed: '' @ sentence (te_upper (an_tools env)) (e_message e)
                | None \<Rightarrow> ''Model returned an empty response.'')
      | Some v \<Rightarrow>
          (case an_reply env v of
             Inl e \<Rightarrow> Inl e
           | Inr r \<Rightarrow>
               (let r1 = merge_stream (an_event env) r (an_notes env step)
                in Inr (r1\<lparr>rp_events := keep_one_mutation (rp_events r1), rp_text := clip (rp_text r1) TEXT_LIMIT\<rparr>))))"

definition count_of :: "u64 option \<Rightarrow> u64" where
  "count_of n = (case n of None \<Rightarrow> 0 | Some k \<Rightarrow> k)"

definition count_tokens :: "model_reply \<Rightarrow> u64 \<Rightarrow> u64" where
  "count_tokens r tokens = sat_add (sat_add tokens (count_of (rp_input r))) (count_of (rp_output r))"

text \<open>A store operation of the turn itself.\<close>

definition turn_store :: "('d, 'a) action \<Rightarrow> 'd answer_state \<Rightarrow> (string + 'a) \<times> 'd answer_state" where
  "turn_store act a =
     (case act (to_world (aw_tools a)) of
        (Inl (IoError k m), w) \<Rightarrow> (Inl m, a\<lparr>aw_tools := (aw_tools a)\<lparr>to_world := w\<rparr>\<rparr>)
      | (Inr x, w) \<Rightarrow> (Inr x, a\<lparr>aw_tools := (aw_tools a)\<lparr>to_world := w\<rparr>\<rparr>))"

definition keep_usage :: "('d, 'z, 'c) answer_env \<Rightarrow> tool_turn \<Rightarrow> model_reply \<Rightarrow> 'd answer_state \<Rightarrow>
    (string + unit) \<times> 'd answer_state" where
  "keep_usage env t r a =
     (case rp_context_usage r of
        None \<Rightarrow> (Inr (), a)
      | Some usage \<Rightarrow> turn_store (set_context_usage (te_store (an_tools env) 10) (tt_session t) usage) a)"

text \<open>A message goes into the history of the request and, as \<open>persisted\<close>, into the store.\<close>

definition keep_message :: "('d, 'z, 'c) answer_env \<Rightarrow> tool_turn \<Rightarrow> message \<Rightarrow> message \<Rightarrow> 'd answer_state \<Rightarrow>
    (string + unit) \<times> 'd answer_state" where
  "keep_message env t m persisted a =
     (case turn_store (push (te_store (an_tools env) 11) (tt_session t) persisted) (a\<lparr>aw_messages := aw_messages a @ [m]\<rparr>) of
        (Inl e, a1) \<Rightarrow> (Inl e, a1)
      | (Inr u, a1) \<Rightarrow> turn_store (set_status (te_store (an_tools env) 12) (tt_session t) ''working'') a1)"

definition numbered :: "string \<Rightarrow> 'd answer_state \<Rightarrow> string" where
  "numbered label a = label @ show_nat (unat (aw_call a))"

definition keep_reply :: "('d, 'z, 'c) answer_env \<Rightarrow> tool_turn \<Rightarrow> model_reply \<Rightarrow> 'd answer_state \<Rightarrow>
    (string + unit) \<times> 'd answer_state" where
  "keep_reply env t r a =
     (case model_content (\<lambda>v. length (an_print env v)) (an_content_len env) r of
        Inl e \<Rightarrow> (Inl e, a)
      | Inr [] \<Rightarrow> (Inr (), a)
      | Inr content \<Rightarrow>
          (let m = \<lparr>m_id = numbered ''assistant-tool-'' a, m_session = tt_session t, m_role = Assistant, m_sender = None,
                    m_content = content\<rparr>
           in keep_message env t m m a))"

section \<open>The tools of a reply\<close>

fun output_content :: "tool_content \<Rightarrow> content" where
  "output_content (TText x) = CText (clip x TEXT_LIMIT)"
| "output_content (TImage uri alt) = CImage uri alt"

definition output_contents :: "('d, 'z, 'c) answer_env \<Rightarrow> tool_result \<Rightarrow> content list" where
  "output_contents env r = map output_content (tr_content r)
     @ (case tr_metadata r of None \<Rightarrow> [] | Some m \<Rightarrow> [CText (''Tool metadata: '' @ an_print env m)])"

fun persisted_content :: "content \<Rightarrow> content" where
  "persisted_content (CImage uri alt) = CText (case alt of Some x \<Rightarrow> x
     | None \<Rightarrow> ''Temporary image observation used during this turn; image not retained.'')"
| "persisted_content c = c"

definition reply_tool_refusal :: "tool_turn \<Rightarrow> string \<Rightarrow> bool" where
  "reply_tool_refusal t name \<longleftrightarrow>
     \<not> (tt_tools t \<or> strip_prefix ''schedule_'' name \<noteq> None \<or> name = ''message_send'' \<and> tt_channel t = ''scheduler'')"

definition mark_owner :: "tool_turn \<Rightarrow> string \<Rightarrow> 'd tool_state \<Rightarrow> 'd tool_state" where
  "mark_owner t name s =
     (if to_failed s = None \<and> bget (tg_owners (tt_registry t)) name \<noteq> None
      then s\<lparr>to_failed := bget (tg_owners (tt_registry t)) name\<rparr> else s)"

text \<open>One tool of the reply. Each is counted twice: by the check of the limit, and for the number of the call.\<close>

definition keep_output :: "('d, 'z, 'c) answer_env \<Rightarrow> tool_turn \<Rightarrow> string \<Rightarrow> tool_result \<Rightarrow> 'd answer_state \<Rightarrow>
    (string + unit) \<times> 'd answer_state" where
  "keep_output env t name r a =
     (let content = output_contents env r in
      if list_ex is_image content \<and> \<not> an_vision env then (Inl no_vision, a)
      else
        (let m = \<lparr>m_id = numbered ''tool-'' a, m_session = tt_session t, m_role = Tool, m_sender = Some name,
                  m_content = content\<rparr>
         in keep_message env t m (m\<lparr>m_content := map persisted_content content\<rparr>) a))"

definition run_reply_tool :: "('d, 'z, 'c) answer_env \<Rightarrow> tool_turn \<Rightarrow> string \<Rightarrow> json \<Rightarrow> 'd answer_state \<Rightarrow>
    (string + unit) \<times> 'd answer_state" where
  "run_reply_tool env t name args a =
     (case execute_tool (an_tools env) t (aw_call a) name args (aw_calls a) (aw_tools a) of
        (Inr r, s) \<Rightarrow> keep_output env t name r (a\<lparr>aw_tools := s, aw_calls := aw_calls a + 1, aw_call := aw_call a + 1\<rparr>)
      | (Inl (Failed e), s) \<Rightarrow> (Inl e, a\<lparr>aw_tools := s, aw_calls := aw_calls a + 1\<rparr>)
      | (Inl (Halted h), s) \<Rightarrow>
          (Inl (halt_text h), a\<lparr>aw_tools := (if h = HaltDeadline then mark_owner t name s else s), aw_calls := aw_calls a + 1\<rparr>))"

definition reply_tool :: "('d, 'z, 'c) answer_env \<Rightarrow> tool_turn \<Rightarrow> tool_spec list \<Rightarrow> string \<Rightarrow> json \<Rightarrow> 'd answer_state \<Rightarrow>
    (string + unit) \<times> 'd answer_state" where
  "reply_tool env t specs name args a =
     (if \<not> list_ex (\<lambda>d. ts_name d = name) specs
      then (Inl (''The model requested unavailable tool `'' @ name @ ''`.''), a)
      else
     (case validate_registered_args (tt_registry t) name args of
        Inl e \<Rightarrow> (Inl (''Tool arguments are invalid: '' @ e), a)
      | Inr _ \<Rightarrow>
     (let a1 = a\<lparr>aw_calls := aw_calls a + 1\<rparr> in
      if TOOL_CALLS \<le> aw_calls a then (Inl ''The turn exceeded its tool-call limit.'', a1)
      else if reply_tool_refusal t name then (Inl ''Tool access is disabled for this channel.'', a1)
      else
     (case send_notices env [NTool name] (aw_tools a1) of
        (False, s) \<Rightarrow> (Inl stream_closed, a1\<lparr>aw_tools := s\<rparr>)
      | (True, s) \<Rightarrow>
          if turn_cancelled (fst (to_world s)) (tt_session t) then (Inl cancelled_text, a1\<lparr>aw_tools := s\<rparr>)
          else run_reply_tool env t name args (a1\<lparr>aw_tools := s\<rparr>)))))"

text \<open>The events of a reply, in order; the result says whether a tool was called.\<close>

fun run_reply :: "('d, 'z, 'c) answer_env \<Rightarrow> tool_turn \<Rightarrow> tool_spec list \<Rightarrow> event list \<Rightarrow> bool \<Rightarrow> 'd answer_state \<Rightarrow>
    (string + bool) \<times> 'd answer_state" where
  "run_reply env t specs [] called a = (Inr called, a)"
| "run_reply env t specs (ETool name args i sig # es) called a =
     (case reply_tool env t specs name args a of
        (Inl e, a1) \<Rightarrow> (Inl e, a1)
      | (Inr u, a1) \<Rightarrow> run_reply env t specs es True a1)"
| "run_reply env t specs (EError m # es) called a = (Inl m, a)"
| "run_reply env t specs (EText x # es) called a = run_reply env t specs es called a"
| "run_reply env t specs (EDone x # es) called a = run_reply env t specs es called a"

section \<open>The turn\<close>

text \<open>One step: the reply that ends the turn, or \<open>None\<close> when the model is asked again. The request may not be
  returned at all (\<open>model_request\<close>), which is \<open>None\<close> of the whole step.\<close>

definition use_reply :: "('d, 'z, 'c) answer_env \<Rightarrow> tool_turn \<Rightarrow> tool_spec list \<Rightarrow> nat \<Rightarrow> model_reply \<Rightarrow> 'd answer_state \<Rightarrow>
    (string + model_reply option) \<times> 'd answer_state" where
  "use_reply env t specs step r a =
     (case keep_usage env t r a of
        (Inl e, a1) \<Rightarrow> (Inl e, a1)
      | (Inr u, a1) \<Rightarrow>
     (let a2 = a1\<lparr>aw_tokens := count_tokens r (aw_tokens a1)\<rparr> in
      if TOKEN_LIMIT < aw_tokens a2 then (Inl ''The turn exceeded its token limit.'', a2)
      else if rp_events r = [] then (Inr (Some r), a2)
      else if step = TOOL_STEPS then (Inl ''The turn exceeded the tool step limit.'', a2)
      else
     (case keep_reply env t r a2 of
        (Inl e, a3) \<Rightarrow> (Inl e, a3)
      | (Inr u, a3) \<Rightarrow>
     (case run_reply env t specs (rp_events r) False a3 of
        (Inl e, a4) \<Rightarrow> (Inl e, a4)
      | (Inr called, a4) \<Rightarrow> (Inr (if called then None else Some r), a4)))))"

definition answer_step :: "('d, 'z, 'c) answer_env \<Rightarrow> tool_turn \<Rightarrow> tool_spec list \<Rightarrow> nat \<Rightarrow> 'd answer_state \<Rightarrow>
    ((string + model_reply option) \<times> 'd answer_state) option" where
  "answer_step env t specs step a =
     (case model_request (an_request_json env) (an_print env) (an_request_len env) (aw_call a) (tt_model t) (aw_messages a)
             specs (tt_workspace t) (h_protocol (an_provider env)) of
        None \<Rightarrow> None
      | Some (Inl e) \<Rightarrow> Some (Inl e, a)
      | Some (Inr req) \<Rightarrow> Some
          (case ask_model env t step req a of
             (Inl e, a1) \<Rightarrow> (Inl e, a1)
           | (Inr resp, a1) \<Rightarrow>
               if turn_cancelled (fst (to_world (aw_tools a1))) (tt_session t) then (Inl cancelled_text, a1)
               else (case read_reply env step resp of
                       Inl e \<Rightarrow> (Inl e, a1)
                     | Inr r \<Rightarrow> use_reply env t specs step r a1)))"

text \<open>The steps from a list of step numbers.\<close>

fun answer_steps :: "('d, 'z, 'c) answer_env \<Rightarrow> tool_turn \<Rightarrow> tool_spec list \<Rightarrow> nat list \<Rightarrow> 'd answer_state \<Rightarrow>
    ((string + model_reply) \<times> 'd answer_state) option" where
  "answer_steps env t specs [] a = Some (Inl ''The turn exceeded the tool step limit.'', a)"
| "answer_steps env t specs (step # steps) a =
     (case answer_step env t specs step a of
        None \<Rightarrow> None
      | Some (Inl e, a1) \<Rightarrow> Some (Inl e, a1)
      | Some (Inr (Some r), a1) \<Rightarrow> Some (Inr r, a1)
      | Some (Inr None, a1) \<Rightarrow> answer_steps env t specs steps a1)"

definition start_answer :: "('d, 'z, 'c) answer_env \<Rightarrow> message list \<Rightarrow> u64 \<Rightarrow> string list option \<Rightarrow> 'd tool_state \<Rightarrow>
    'd answer_state" where
  "start_answer env messages call failures s =
     \<lparr>aw_tools = s, aw_call = call, aw_calls = 0, aw_tokens = 0,
      aw_messages = prepare_images (an_read_media env) (an_encode64 env) (te_decode64 (an_tools env)) messages,
      aw_failures = failures, aw_requests = []\<rparr>"

definition answer_turn :: "('d, 'z, 'c) answer_env \<Rightarrow> tool_turn \<Rightarrow> message list \<Rightarrow> u64 \<Rightarrow> string list option \<Rightarrow>
    'd tool_state \<Rightarrow> ((string + model_reply) \<times> 'd answer_state) option" where
  "answer_turn env t messages call failures s =
     (let a = start_answer env messages call failures s in
      if list_ex (\<lambda>m. list_ex is_image (m_content m)) messages \<and> \<not> an_vision env then Some (Inl no_vision, a)
      else
        (case turn_registry env t of
           Inl e \<Rightarrow> Some (Inl e, a)
         | Inr reg \<Rightarrow>
             (let t' = t\<lparr>tt_registry := reg, tt_turn := tt_session t @ '':'' @ show_nat (unat call),
                         tt_provider := h_id (an_provider env)\<rparr>
              in answer_steps env t' (turn_specs env t reg) [0..<TOOL_STEPS + 1] a)))"

end
