(* ===== verification/Tool_Laws.thy ===== *)
theory Tool_Laws
  imports Tool_Calls
begin

text \<open>
  What a tool call may do: one request to one plugin at most, the right one, with the host's answer on approval; and
  nothing that changes something without the approval that the turn needs.
\<close>

section \<open>What a call leaves alone\<close>

text \<open>The parts of the state that only the approval of a call and its plugin request change.\<close>

definition same_room :: "'d tool_state \<Rightarrow> 'd tool_state \<Rightarrow> bool" where
  "same_room s s' \<longleftrightarrow> to_gate s' = to_gate s \<and> to_prompts s' = to_prompts s \<and> to_notices s' = to_notices s
     \<and> to_restarts s' = to_restarts s"

lemma same_room_refl [simp]: "same_room s s"
  by (simp add: same_room_def)

lemma tool_store_keeps:
  "tool_store a s = (r, s') \<Longrightarrow> same_room s s' \<and> to_calls s' = to_calls s"
  by (auto simp: tool_store_def same_room_def split: prod.splits sum.splits io_error.splits)

lemma tool_store_ok:
  "tool_store a s = (Inr x, s') \<Longrightarrow> a (to_world s) = (Inr x, to_world s')"
  by (auto simp: tool_store_def split: prod.splits sum.splits io_error.splits)

lemma call_plugin_keeps:
  "call_plugin env plugin req s = (r, s') \<Longrightarrow>
   same_room s s' \<and> to_world s' = to_world s \<and> to_calls s' = to_calls s @ [(plugin, req)]"
  by (auto simp: call_plugin_def same_room_def Let_def split: sum.splits option.splits)

section \<open>Where a call goes\<close>

definition scheduler_is :: "('d, 'z, 'c) tool_env \<Rightarrow> string \<Rightarrow> bool" where
  "scheduler_is env plugin \<longleftrightarrow> (\<exists>h. find_plugin CapScheduler (te_plugins env) = Some (plugin, h))"

definition memory_is :: "('d, 'z, 'c) tool_env \<Rightarrow> string \<Rightarrow> bool" where
  "memory_is env plugin \<longleftrightarrow> (\<exists>h. find_plugin CapMemory (te_plugins env) = Some (plugin, h))"

text \<open>The request \<open>(plugin, req)\<close> that a call of the tool \<open>name\<close> may make.\<close>

inductive routed :: "('d, 'z, 'c) tool_env \<Rightarrow> tool_turn \<Rightarrow> u64 \<Rightarrow> string \<Rightarrow> json \<Rightarrow> bool \<Rightarrow> string \<times> request \<Rightarrow> bool"
  for env t i where
  propose: "scheduler_is env plugin \<Longrightarrow> te_schedule_id env = Inr j \<Longrightarrow> proposed_instruction (JObj values) = Some instruction \<Longrightarrow>
    proposed_name (JObj values) = Inr label \<Longrightarrow> check_proposal env instruction (JObj values) = Inr p \<Longrightarrow>
    routed env t i ''schedule_propose'' (JObj values) approve
      (plugin, request_call j ''add'' (JObj (proposal_params j label p values)))"
| schedule: "name \<noteq> ''schedule_propose'' \<Longrightarrow> strip_prefix ''schedule_'' name = Some action \<Longrightarrow> scheduler_is env plugin \<Longrightarrow>
    schedule_method action args = Some (rpc, ps) \<Longrightarrow> routed env t i name args approve (plugin, request_call i rpc ps)"
| memory: "strip_prefix ''schedule_'' name = None \<Longrightarrow> strip_prefix ''memory_'' name = Some rpc \<Longrightarrow> memory_is env plugin \<Longrightarrow>
    routed env t i name (JObj values) approve
      (plugin, request_call i rpc (memory_params (memory_scope (tt_channel t) (tt_chat t)) rpc approve values))"
| registered: "strip_prefix ''schedule_'' name = None \<Longrightarrow> strip_prefix ''memory_'' name = None \<Longrightarrow>
    bget (tg_owners (tt_registry t)) name = Some plugin \<Longrightarrow>
    routed env t i name (JObj values) approve (plugin, request_call i name (tool_params t plugin approve values))"

inductive_cases routed_elim: "routed env t i name args approve (plugin, req)"

text \<open>A step that makes at most one request, and that one satisfies \<open>P\<close>.\<close>

definition one_request :: "(string \<times> request \<Rightarrow> bool) \<Rightarrow> 'd tool_state \<Rightarrow> 'd tool_state \<Rightarrow> bool" where
  "one_request P s s' \<longleftrightarrow> same_room s s' \<and> to_world s' = to_world s
     \<and> (to_calls s' = to_calls s \<or> (\<exists>c. to_calls s' = to_calls s @ [c] \<and> P c))"

lemma one_request_refl [simp]: "one_request P s s"
  by (simp add: one_request_def)

lemma one_request_call: "call_plugin env plugin req s = (r, s') \<Longrightarrow> P (plugin, req) \<Longrightarrow> one_request P s s'"
  using call_plugin_keeps [of env plugin req s r s'] by (auto simp: one_request_def)

lemma as_object_Some: "as_object v = Some m \<longleftrightarrow> v = JObj m"
  by (cases v) auto

lemma schedule_action_request:
  assumes "schedule_action env i action args s = (r, s')"
    and "\<And>plugin rpc ps. scheduler_is env plugin \<Longrightarrow> schedule_method action args = Some (rpc, ps) \<Longrightarrow> P (plugin, request_call i rpc ps)"
  shows "one_request P s s'"
  using assms unfolding schedule_action_def
  by (auto simp: scheduler_is_def split: option.splits prod.splits sum.splits intro: one_request_call)

lemma propose_schedule_request:
  assumes "propose_schedule env args s = (r, s')"
    and "\<And>plugin j values instruction label p. scheduler_is env plugin \<Longrightarrow> te_schedule_id env = Inr j \<Longrightarrow> args = JObj values \<Longrightarrow>
      proposed_instruction args = Some instruction \<Longrightarrow> proposed_name args = Inr label \<Longrightarrow> check_proposal env instruction args = Inr p \<Longrightarrow>
      P (plugin, request_call j ''add'' (JObj (proposal_params j label p values)))"
  shows "one_request P s s'"
  using assms unfolding propose_schedule_def Let_def
  by (auto simp: scheduler_is_def as_object_Some split: option.splits prod.splits sum.splits intro: one_request_call)

lemma memory_tool_request:
  assumes "memory_tool env i rpc args approve scope s = (r, s')"
    and "\<And>plugin values. memory_is env plugin \<Longrightarrow> args = JObj values \<Longrightarrow>
      P (plugin, request_call i rpc (memory_params scope rpc approve values))"
  shows "one_request P s s'"
  using assms unfolding memory_tool_def
  by (auto simp: memory_is_def as_object_Some split: option.splits prod.splits sum.splits intro: one_request_call)

lemma registered_tool_request:
  assumes "registered_tool env t i name args approve s = (r, s')"
    and "\<And>plugin values. bget (tg_owners (tt_registry t)) name = Some plugin \<Longrightarrow> args = JObj values \<Longrightarrow>
      P (plugin, request_call i name (tool_params t plugin approve values))"
  shows "one_request P s s'"
  using assms unfolding registered_tool_def
  by (auto simp: as_object_Some split: option.splits prod.splits sum.splits if_splits intro: one_request_call)

lemma tool_with_registry_request:
  "tool_with_registry env t i name args approve s = (r, s') \<Longrightarrow> one_request (routed env t i name args approve) s s'"
  unfolding tool_with_registry_def
  by (auto split: if_splits option.splits intro: routed.intros
      elim: propose_schedule_request schedule_action_request memory_tool_request registered_tool_request)

lemma send_message_keeps:
  "send_message env t args k s = (r, s') \<Longrightarrow> same_room s s' \<and> to_calls s' = to_calls s"
  unfolding send_message_def tui_message_def Let_def text_result_def
  by (auto split: if_splits sum.splits option.splits prod.splits dest!: tool_store_keeps simp: same_room_def)

section \<open>The approval of a call\<close>

text \<open>What a call that changes something needs: the automatic mode, or the one prompt of this call and an answer to
  its challenge that approves.\<close>

definition approved_by :: "('d, 'z, 'c) tool_env \<Rightarrow> tool_turn \<Rightarrow> string \<Rightarrow> json \<Rightarrow> 'd tool_state \<Rightarrow> 'd tool_state \<Rightarrow> bool" where
  "approved_by env t name args s s' \<longleftrightarrow>
     effective_mode t name = ModeAuto \<and> to_prompts s' = to_prompts s
     \<or> effective_mode t name = ModePrompt
       \<and> (\<exists>ch g w. issue (te_approval env) (call_target t name args) (to_gate s) = (Inr ch, g)
            \<and> to_prompts s' = to_prompts s @ [approval_prompt env t name args ch]
            \<and> te_await env (challenge_id ch) (to_world s, g) = (None, w, to_gate s')
            \<and> given_answer (challenge_id ch) g (to_gate s') = Some True)"

lemma ask_approval_cases:
  assumes "ask_approval env t name args s = (Inr b, s')"
  obtains ch g where "issue (te_approval env) (call_target t name args) (to_gate s) = (Inr ch, g)"
    "to_prompts s' = to_prompts s @ [approval_prompt env t name args ch]"
    "te_await env (challenge_id ch) (to_world s, g) = (None, to_world s', to_gate s')"
    "given_answer (challenge_id ch) g (to_gate s') = Some b" "to_calls s' = to_calls s"
  using assms unfolding ask_approval_def Let_def
  by (auto split: prod.splits sum.splits io_error.splits if_splits option.splits)

lemma ask_approval_calls: "ask_approval env t name args s = (r, s') \<Longrightarrow> to_calls s' = to_calls s"
  unfolding ask_approval_def Let_def
  by (auto split: prod.splits sum.splits io_error.splits if_splits option.splits)

lemma approve_call_calls: "approve_call env t name args s = (r, s') \<Longrightarrow> to_calls s' = to_calls s"
  unfolding approve_call_def
  by (auto split: prod.splits sum.splits if_splits approval_mode.splits dest: ask_approval_calls)

lemma approve_call_granted:
  assumes "approve_call env t name args s = (Inr (Some b), s')"
  shows "b = mutating name args" and "b \<Longrightarrow> approved_by env t name args s s'" and "\<not> b \<Longrightarrow> s' = s"
proof -
  have "b = mutating name args \<and> (b \<longrightarrow> approved_by env t name args s s') \<and> (\<not> b \<longrightarrow> s' = s)"
  proof (cases "mutating name args")
    case False
    with assms show ?thesis by (simp add: approve_call_def)
  next
    case True
    show ?thesis
    proof (cases "effective_mode t name")
      case ModeOff
      with assms True show ?thesis by (simp add: approve_call_def)
    next
      case ModeAuto
      with assms True show ?thesis by (simp add: approve_call_def approved_by_def)
    next
      case ModePrompt
      with assms True have a: "ask_approval env t name args s = (Inr True, s')" and b
        by (auto simp: approve_call_def split: prod.splits sum.splits if_splits)
      from a show ?thesis
        by (rule ask_approval_cases) (use ModePrompt True \<open>b\<close> in \<open>auto simp: approved_by_def\<close>)
    qed
  qed
  then show "b = mutating name args" and "b \<Longrightarrow> approved_by env t name args s s'" and "\<not> b \<Longrightarrow> s' = s"
    by blast+
qed

section \<open>One call\<close>

text \<open>The arguments with which a call goes on: those of the call, or the proposal of a schedule as the host has completed it.\<close>

definition host_args :: "tool_turn \<Rightarrow> string \<Rightarrow> json \<Rightarrow> json \<Rightarrow> bool" where
  "host_args t name args args' \<longleftrightarrow>
     (if name = ''schedule_propose'' then \<exists>st. prepare_proposal t st args = Inr args' else args' = args)"

lemma run_approved_cases:
  assumes "run_approved env t i name args k approve s = (r, s')" and "to_calls s' \<noteq> to_calls s"
  obtains args' where "name \<noteq> ''message_send''" "host_args t name args args'"
    "tool_with_registry env t i name args' approve s = (r, s')"
  using assms send_message_keeps [of env t _ k s r s'] unfolding run_approved_def host_args_def
  by (auto split: sum.splits if_splits)

lemma execute_tool_cases:
  assumes "execute_tool env t i name args k s = (r, s')" and "to_calls s' \<noteq> to_calls s"
  obtains approve s1 s2 args' where "approve_call env t name args s = (Inr (Some approve), s1)"
    "if approve then tool_store (set_phase (te_store env 0) (tt_session t) ''unsafe'') s1 = (Inr (), s2) else s2 = s1"
    "name \<noteq> ''message_send''" "host_args t name args args'"
    "tool_with_registry env t i name args' approve s2 = (r, s')"
    "name = ''shell'' \<longrightarrow> tt_shell t" "strip_prefix ''schedule_'' name \<noteq> None \<longrightarrow> tt_schedule t"
proof -
  from assms(1) have rights: "name = ''shell'' \<longrightarrow> tt_shell t" "strip_prefix ''schedule_'' name \<noteq> None \<longrightarrow> tt_schedule t"
    using assms(2) by (auto simp: execute_tool_def split: if_splits)
  obtain a s1 where a: "approve_call env t name args s = (a, s1)" by (cases "approve_call env t name args s")
  note c1 = approve_call_calls [OF a]
  have no: "\<not> (name = ''shell'' \<and> \<not> tt_shell t)" "\<not> (strip_prefix ''schedule_'' name \<noteq> None \<and> \<not> tt_schedule t)"
    using rights by blast+
  have e: "(case a of Inl e \<Rightarrow> (Inl e, s1) | Inr None \<Rightarrow> (text_result denied_text, s1)
      | Inr (Some approve) \<Rightarrow>
          if approve then
            (case tool_store (set_phase (te_store env 0) (tt_session t) ''unsafe'') s1 of
               (Inl e, s2) \<Rightarrow> (Inl e, s2)
             | (Inr u, s2) \<Rightarrow> run_approved env t i name args k True s2)
          else run_approved env t i name args k False s1) = (r, s')"
    using assms(1) unfolding execute_tool_def if_not_P [OF no(1)] if_not_P [OF no(2)] a prod.case .
  with assms(2) c1 obtain approve where ap: "a = Inr (Some approve)"
    by (auto simp: text_result_def split: sum.splits option.splits)
  obtain s2 where s2: "if approve then tool_store (set_phase (te_store env 0) (tt_session t) ''unsafe'') s1 = (Inr (), s2) else s2 = s1"
      "run_approved env t i name args k approve s2 = (r, s')"
    using e ap assms(2) c1 tool_store_keeps [of "set_phase (te_store env 0) (tt_session t) ''unsafe''" s1]
    by (cases approve) (auto split: prod.splits sum.splits)
  have c2: "to_calls s2 = to_calls s"
    using s2(1) c1 tool_store_keeps [of "set_phase (te_store env 0) (tt_session t) ''unsafe''" s1 "Inr ()" s2]
    by (auto split: if_splits)
  show thesis
    by (rule run_approved_cases [OF s2(2)]) (use assms(2) c2 that a ap s2(1) rights in auto)
qed

text \<open>What the store says of the turn's session after its phase was set.\<close>

definition marked_unsafe :: "store \<Rightarrow> string \<Rightarrow> bool" where
  "marked_unsafe st session \<longleftrightarrow> (\<exists>x. bget (st_sessions st) session = Some x \<and> s_phase x = ''unsafe'')"

lemma set_phase_marks:
  assumes "set_phase env i ''unsafe'' w = (Inr u, w')"
  shows "marked_unsafe (fst w') i"
proof -
  obtain x where x: "bget (st_sessions (fst w)) i = Some x"
      "change env (on_session i (\<lambda>s. s\<lparr>s_phase := ''unsafe'', s_updated := now env 1\<rparr>)) w = (Inr u, w')"
    using assms by (auto simp: set_phase_def fail_def session_missing_def split: option.splits if_splits)
  have "fst w' = on_session i (\<lambda>s. s\<lparr>s_phase := ''unsafe'', s_updated := now env 1\<rparr>) (fst w)"
    using x(2) by (auto simp: change_def Let_def split: sum.splits prod.splits)
  then show ?thesis
    using x(1) by (simp add: marked_unsafe_def on_session_def bget_adjust)
qed

lemma execute_tool_request:
  assumes "execute_tool env t i name args k s = (r, s')" and "to_calls s' \<noteq> to_calls s"
  obtains c args' where "to_calls s' = to_calls s @ [c]" "routed env t i name args' (mutating name args) c"
    "host_args t name args args'" "name \<noteq> ''message_send''"
    "mutating name args \<longrightarrow> approved_by env t name args s s' \<and> marked_unsafe (fst (to_world s')) (tt_session t)"
    "name = ''shell'' \<longrightarrow> tt_shell t" "strip_prefix ''schedule_'' name \<noteq> None \<longrightarrow> tt_schedule t"
proof -
  from assms obtain approve s1 s2 args' where a: "approve_call env t name args s = (Inr (Some approve), s1)"
    and ph: "if approve then tool_store (set_phase (te_store env 0) (tt_session t) ''unsafe'') s1 = (Inr (), s2) else s2 = s1"
    and n: "name \<noteq> ''message_send''" "host_args t name args args'"
    and run: "tool_with_registry env t i name args' approve s2 = (r, s')"
    and rights: "name = ''shell'' \<longrightarrow> tt_shell t" "strip_prefix ''schedule_'' name \<noteq> None \<longrightarrow> tt_schedule t"
    by (rule execute_tool_cases) blast
  note g = approve_call_granted [OF a]
  have keep: "same_room s1 s2 \<and> to_calls s2 = to_calls s1"
    using ph tool_store_keeps [of _ s1 "Inr ()" s2] by (auto split: if_splits)
  have one: "one_request (routed env t i name args' approve) s2 s'"
    by (rule tool_with_registry_request [OF run])
  have calls: "to_calls s2 = to_calls s" using keep approve_call_calls [OF a] by simp
  with one assms(2) obtain c where c: "to_calls s' = to_calls s @ [c]" "routed env t i name args' approve c"
    by (auto simp: one_request_def)
  have room: "to_gate s' = to_gate s1" "to_prompts s' = to_prompts s1" "to_world s' = to_world s2"
    using keep one by (auto simp: one_request_def same_room_def)
  have "approved_by env t name args s s' \<and> marked_unsafe (fst (to_world s')) (tt_session t)" if m: "mutating name args"
  proof -
    have b: approve using g(1) m by simp
    have "approved_by env t name args s s'"
      using g(2) [OF b] room(1,2) by (simp add: approved_by_def)
    moreover have "tool_store (set_phase (te_store env 0) (tt_session t) ''unsafe'') s1 = (Inr (), s2)" using ph b by simp
    ultimately show ?thesis using set_phase_marks tool_store_ok room(3) by metis
  qed
  then show thesis using that [OF c(1) _ n(2,1) _ rights] c(2) g(1) by simp
qed

end
