(* ===== verification/Tool_Safety.thy ===== *)
theory Tool_Safety
  imports Tool_Laws Store_Behaviour
begin

text \<open>
  The safety of tool calls: a change needs a person, who was asked about this very call; the mark of approval that a
  tool sees is the host's; and a scheduled task reaches only the destination it was given.
\<close>

section \<open>The gate while a turn waits\<close>

text \<open>What other parts of the daemon do to the gate while the turn waits for the challenge \<open>i\<close>: requests of other
  turns, whose random ids differ, answers from chats and from the local interface, cancellations and listings. The
  log holds the answers to \<open>i\<close>, with who gave them: the channel, chat and thread of a person the channel has
  authorized, or the local interface.\<close>

datatype answerer = FromChat string string "string option" | FromLocal

inductive gate_run :: "string \<Rightarrow> gate \<Rightarrow> (bool \<times> answerer) list \<Rightarrow> gate \<Rightarrow> bool" for i g where
  stay: "gate_run i g [] g"
| issue: "gate_run i g log g1 \<Longrightarrow> issue e ta g1 = (x, g2) \<Longrightarrow> (\<And>nonce. a_random e = Inr nonce \<Longrightarrow> hex nonce \<noteq> i)
    \<Longrightarrow> gate_run i g log g2"
| cancel: "gate_run i g log g1 \<Longrightarrow> gate_run i g log (cancel_approval tok g1)"
| listing: "gate_run i g log g1 \<Longrightarrow> list_pending e g1 = (x, g2) \<Longrightarrow> gate_run i g log g2"
| unanswered: "gate_run i g log g1 \<Longrightarrow> resolve_at e tok channel chat thread authorized t g1 = (None, g2) \<Longrightarrow> gate_run i g log g2"
| answered: "gate_run i g log g1 \<Longrightarrow> resolve_at e tok channel chat thread authorized t g1 = (Some b, g2) \<Longrightarrow>
    gate_run i g (if g_answers g2 = g_answers g1 @ [(i, b)] then log @ [(b, FromChat channel chat thread)] else log) g2"
| local: "gate_run i g log g1 \<Longrightarrow> resolve_local e j b g1 = (x, g2) \<Longrightarrow>
    gate_run i g (if x \<noteq> None \<and> j = i then log @ [(b, FromLocal)] else log) g2"

text \<open>Who may answer for a target.\<close>

definition may_answer :: "target \<Rightarrow> answerer \<Rightarrow> bool" where
  "may_answer ta who \<longleftrightarrow> (case who of
     FromLocal \<Rightarrow> True
   | FromChat channel chat thread \<Rightarrow>
       channel = ta_channel ta \<and> chat = ta_chat ta \<and> (channel = ''telegram'' \<longrightarrow> thread = ta_thread ta))"

definition answers_of :: "string \<Rightarrow> (string \<times> bool) list \<Rightarrow> bool list" where
  "answers_of i xs = map snd (filter (\<lambda>(j, b). j = i) xs)"

lemma answers_of_append [simp]: "answers_of i (xs @ ys) = answers_of i xs @ answers_of i ys"
  by (simp add: answers_of_def)

lemma answers_of_single [simp]: "answers_of i [(j, b)] = (if j = i then [b] else [])" "answers_of i [] = []"
  by (simp_all add: answers_of_def)

text \<open>An operation that gives no answer to the request \<open>i\<close>, and one that does.\<close>

definition gate_quiet :: "string \<Rightarrow> gate \<Rightarrow> gate \<Rightarrow> bool" where
  "gate_quiet i g1 g2 \<longleftrightarrow> (\<exists>xs. g_answers g2 = g_answers g1 @ xs \<and> answers_of i xs = [])
     \<and> (bmap_ok (g_pending g1) \<longrightarrow> bmap_ok (g_pending g2)
          \<and> (bget (g_pending g2) i = bget (g_pending g1) i \<or> bget (g_pending g2) i = None))"

definition gate_answered :: "string \<Rightarrow> bool \<Rightarrow> gate \<Rightarrow> gate \<Rightarrow> bool" where
  "gate_answered i b g1 g2 \<longleftrightarrow> g_answers g2 = g_answers g1 @ [(i, b)] \<and> g_pending g2 = bremove i (g_pending g1)"

lemma bget_unexpired: "bmap_ok m \<Longrightarrow> bget (unexpired t m) i = bget m i \<or> bget (unexpired t m) i = None"
proof (cases "bget (unexpired t m) i")
  case (Some p)
  assume ok: "bmap_ok m"
  have "(i, p) \<in> set m" using map_of_SomeD [OF Some] by (simp add: unexpired_def bretain_def)
  then show ?thesis using Some ok by (simp add: bmap_ok_distinct)
qed simp

lemma issue_quiet:
  assumes "issue e ta g1 = (x, g2)" and "\<And>nonce. a_random e = Inr nonce \<Longrightarrow> hex nonce \<noteq> i"
  shows "gate_quiet i g1 g2"
proof -
  consider "g2 = g1" | t where "g2 = g1\<lparr>g_pending := unexpired t (g_pending g1)\<rparr>"
    | t nonce p where "a_random e = Inr nonce" "g2 = g1\<lparr>g_pending := binsert (hex nonce) p (unexpired t (g_pending g1))\<rparr>"
    using assms(1) unfolding issue_def Let_def by (auto split: sum.splits if_splits)
  then show ?thesis
  proof cases
    case (3 t nonce p)
    then show ?thesis using assms(2) [OF 3(1)] bget_unexpired [of "g_pending g1" t i]
      by (auto simp: gate_quiet_def bget_insert bmap_ok_insert unexpired_def bmap_ok_retain)
  qed (use bget_unexpired [of "g_pending g1" _ i] in \<open>auto simp: gate_quiet_def unexpired_def bmap_ok_retain\<close>)
qed

lemma cancel_quiet: "gate_quiet i g1 (cancel_approval tok g1)"
  by (auto simp: gate_quiet_def cancel_approval_def bget_remove bmap_ok_remove split: option.split)

lemma list_quiet: "list_pending e g1 = (x, g2) \<Longrightarrow> gate_quiet i g1 g2"
proof (cases "a_now e")
  case (Inr t)
  assume "list_pending e g1 = (x, g2)"
  then show ?thesis using Inr bget_unexpired [of "g_pending g1" t i]
    by (auto simp: gate_quiet_def list_pending_def Let_def unexpired_def bmap_ok_retain)
qed (auto simp: gate_quiet_def list_pending_def)

lemma gate_quiet_refl [simp]: "gate_quiet i g g"
  by (simp add: gate_quiet_def)

lemma answer_None: "answer e j b g1 = (None, g2) \<Longrightarrow> gate_quiet i g1 g2"
  by (auto simp: answer_def gate_quiet_def Let_def bget_remove bmap_ok_remove split: if_splits)

lemma answer_Some: "answer e j b g1 = (Some c, g2) \<Longrightarrow> c = b \<and> gate_answered j b g1 g2"
  by (auto simp: answer_def gate_answered_def Let_def split: if_splits)

lemma answered_other: "gate_answered j b g1 g2 \<Longrightarrow> j \<noteq> i \<Longrightarrow> gate_quiet i g1 g2"
  by (auto simp: gate_answered_def gate_quiet_def bget_remove bmap_ok_remove)

lemma resolve_None: "resolve_at e tok channel chat thread authorized t g1 = (None, g2) \<Longrightarrow> gate_quiet i g1 g2"
  unfolding resolve_at_def by (auto split: if_splits option.splits elim: answer_None)

lemma resolve_Some:
  assumes "resolve_at e tok channel chat thread authorized t g1 = (Some b, g2)"
  obtains j p where "gate_answered j b g1 g2" "bget (g_pending g1) j = Some p" "may_answer (pe_target p) (FromChat channel chat thread)"
  using assms
proof (rule resolve_at_cases, goal_cases)
  case (1 j action p)
  with answer_Some [OF 1(9)] that [of j p] show ?case by (auto simp: may_answer_def)
qed

lemma expired_quiet: "gate_quiet i g1 (g1\<lparr>g_pending := bremove j (g_pending g1)\<rparr>)"
  by (auto simp: gate_quiet_def bget_remove bmap_ok_remove)

lemma resolve_local_cases:
  assumes "resolve_local e j b g1 = (x, g2)"
  shows "x = None \<and> gate_quiet i g1 g2 \<or> x = Some b \<and> gate_answered j b g1 g2 \<and> bget (g_pending g1) j \<noteq> None"
proof -
  note r = assms[unfolded resolve_local_def]
  show ?thesis
  proof (cases "length j \<noteq> ID_BYTES * 2 \<or> \<not> list_all is_ascii_hexdigit j \<or> (\<exists>er. a_now e = Inl er)")
    case True
    then have "x = None" "g2 = g1" using r by (auto split: if_splits)
    then show ?thesis by simp
  next
    case False
    then obtain t where t: "a_now e = Inr t" and shape: "\<not> (length j \<noteq> ID_BYTES * 2 \<or> \<not> list_all is_ascii_hexdigit j)"
      by (cases "a_now e") auto
    note r2 = r [unfolded if_not_P [OF shape] t sum.case]
    show ?thesis
    proof (cases "bget (g_pending g1) j")
      case None
      then have "x = None" "g2 = g1" using r2 by simp_all
      then show ?thesis by simp
    next
      case (Some p)
      show ?thesis
      proof (cases "pe_expires p \<le> t")
        case True
        then have "x = None" "g2 = g1\<lparr>g_pending := bremove j (g_pending g1)\<rparr>" using r2 Some by simp_all
        then show ?thesis by (simp add: expired_quiet)
      next
        case False
        then have a: "answer e j b g1 = (x, g2)" using r2 Some by simp
        show ?thesis
        proof (cases x)
          case None
          from answer_None [OF a [unfolded None]] None show ?thesis by simp
        next
          case (Some c)
          from answer_Some [OF a [unfolded Some]] Some \<open>bget (g_pending g1) j = Some p\<close> show ?thesis by simp
        qed
      qed
    qed
  qed
qed

text \<open>Every answer the gate gives to the request \<open>i\<close> is in the log, and whoever gave it may answer for its target.\<close>

lemma gate_run_answers:
  assumes "gate_run i g log g'" and "bget (g_pending g) i = Some p" and "bmap_ok (g_pending g)"
  shows "(\<exists>xs. g_answers g' = g_answers g @ xs \<and> answers_of i xs = map fst log)
    \<and> (\<forall>(b, who) \<in> set log. may_answer (pe_target p) who)
    \<and> bmap_ok (g_pending g') \<and> (bget (g_pending g') i = Some p \<or> bget (g_pending g') i = None)"
  using assms(1)
proof (induction rule: gate_run.induct)
  case stay
  then show ?case using assms(2,3) by simp
next
  case (issue log g1 e ta x g2)
  from issue_quiet [OF issue(2,3)] issue.IH show ?case by (auto simp: gate_quiet_def)
next
  case (cancel log g1 tok)
  from cancel_quiet [of i g1 tok] cancel.IH show ?case by (auto simp: gate_quiet_def)
next
  case (listing log g1 e x g2)
  from list_quiet [OF listing(2), of i] listing.IH show ?case by (auto simp: gate_quiet_def)
next
  case (unanswered log g1 e tok channel chat thread authorized t g2)
  from resolve_None [OF unanswered(2), of i] unanswered.IH show ?case by (auto simp: gate_quiet_def)
next
  case (answered log g1 e tok channel chat thread authorized t b g2)
  from answered(2) obtain j q where j: "gate_answered j b g1 g2" "bget (g_pending g1) j = Some q"
      "may_answer (pe_target q) (FromChat channel chat thread)"
    by (rule resolve_Some)
  show ?case
  proof (cases "j = i")
    case True
    with j answered.IH show ?thesis by (auto simp: gate_answered_def bget_remove bmap_ok_remove)
  next
    case False
    then have "g_answers g2 \<noteq> g_answers g1 @ [(i, b)]" using j(1) by (simp add: gate_answered_def)
    with answered_other [OF j(1) False] answered.IH show ?thesis by (auto simp: gate_quiet_def)
  qed
next
  case (local log g1 e j b x g2)
  from resolve_local_cases [OF local(2), of i] show ?case
  proof
    assume "x = None \<and> gate_quiet i g1 g2"
    with local.IH show ?thesis by (auto simp: gate_quiet_def)
  next
    assume l: "x = Some b \<and> gate_answered j b g1 g2 \<and> bget (g_pending g1) j \<noteq> None"
    show ?thesis
    proof (cases "j = i")
      case True
      with l local.IH show ?thesis by (auto simp: gate_answered_def bget_remove bmap_ok_remove may_answer_def)
    next
      case False
      with l answered_other [of j b g1 g2 i] local.IH show ?thesis by (auto simp: gate_quiet_def)
    qed
  qed
qed

text \<open>The approval that \<open>given_answer\<close> finds comes from someone who may answer.\<close>

lemma approval_has_person:
  assumes "gate_run i g log g'" and "bget (g_pending g) i = Some p" and "bmap_ok (g_pending g)"
    and "given_answer i g g' = Some b"
  shows "\<exists>who. (b, who) \<in> set log \<and> may_answer (pe_target p) who"
proof -
  from gate_run_answers [OF assms(1-3)] obtain xs where xs: "g_answers g' = g_answers g @ xs"
      "answers_of i xs = map fst log" and may: "\<forall>(b, who) \<in> set log. may_answer (pe_target p) who"
    by blast
  from assms(4) obtain j where j: "find (\<lambda>(j, b). j = i) xs = Some (j, b)"
    by (auto simp: given_answer_def xs(1))
  then have "(i, b) \<in> set xs" by (auto simp: find_Some_iff) (metis nth_mem)
  then have "b \<in> set (answers_of i xs)" by (force simp: answers_of_def)
  then obtain who where "(b, who) \<in> set log" using xs(2) by auto
  then show ?thesis using may by auto
qed

lemma issue_pending:
  assumes "issue e ta g = (Inr ch, g')" and "mac_law e" and "\<And>nonce. a_random e = Inr nonce \<Longrightarrow> length nonce = ID_BYTES"
    and "bmap_ok (g_pending g)"
  obtains p where "bget (g_pending g') (challenge_id ch) = Some p" "pe_target p = ta" "bmap_ok (g_pending g')"
proof -
  from assms(1) obtain t where t: "a_now e = Inr t" by (cases "a_now e") (auto simp: issue_def)
  with assms(1) obtain nonce where n: "a_random e = Inr nonce"
    by (cases "a_random e") (auto simp: issue_def Let_def split: if_splits)
  note r = issue_result [OF assms(1) n t]
  have i: "length (hex nonce) = ID_BYTES * 2" "list_all is_ascii_hexdigit (hex nonce)"
    using assms(3) [OF n] hex_hexdigits by simp_all
  have "challenge_id ch = hex nonce"
    using decode_token [OF assms(2) i, of "CHR ''a''"] by (simp add: challenge_id_def r(3))
  then show thesis
    using that assms(4) by (simp add: r(2) bget_insert bmap_ok_insert unexpired_def bmap_ok_retain)
qed

section \<open>A change needs a person\<close>

text \<open>While a turn waits, only the operations of the gate change it.\<close>

definition gate_guarded :: "('d, 'z, 'c) tool_env \<Rightarrow> bool" where
  "gate_guarded env \<longleftrightarrow> (\<forall>i w g. \<exists>log. gate_run i g log (snd (snd (te_await env i (w, g)))))"

text \<open>The random source gives the twelve bytes that it is asked for.\<close>

definition random_law :: "approval_env \<Rightarrow> bool" where
  "random_law e \<longleftrightarrow> (case a_random e of Inl er \<Rightarrow> True | Inr nonce \<Rightarrow> length nonce = ID_BYTES)"

text \<open>C7: A change needs a person: when a tool call that changes something reaches a plugin, and neither the turn is in
  the automatic mode nor the call proposes a schedule, then the turn is in the prompt mode; this call was put to the
  person, once, with its name and arguments; and somebody who may answer for this very call, a person in the chat of the
  turn (and its thread on Telegram) or the local interface, approved it while the turn waited. Before the request left,
  the session was marked unsafe on disk, so that a crash never repeats the call.\<close>

theorem mutating_call_needs_person:
  assumes "execute_tool env t i name args k s = (r, s')" and "mutating name args" and "to_calls s' \<noteq> to_calls s"
    and "name \<noteq> ''schedule_propose''" and "tt_mode t \<noteq> ModeAuto"
    and "mac_law (te_approval env)" and "random_law (te_approval env)" and "gate_guarded env"
    and "bmap_ok (g_pending (to_gate s))"
  shows "tt_mode t = ModePrompt
    \<and> (\<exists>ch g log who. issue (te_approval env) (call_target t name args) (to_gate s) = (Inr ch, g)
         \<and> to_prompts s' = to_prompts s @ [approval_prompt env t name args ch]
         \<and> gate_run (challenge_id ch) g log (to_gate s')
         \<and> (True, who) \<in> set log \<and> may_answer (call_target t name args) who)
    \<and> marked_unsafe (fst (to_world s')) (tt_session t)"
proof -
  from execute_tool_request [OF assms(1,3)] assms(2)
  have a: "approved_by env t name args s s'" and u: "marked_unsafe (fst (to_world s')) (tt_session t)" by blast+
  have m: "effective_mode t name = tt_mode t" using assms(4) by (simp add: effective_mode_def)
  from a obtain ch g w where ch: "issue (te_approval env) (call_target t name args) (to_gate s) = (Inr ch, g)"
      "to_prompts s' = to_prompts s @ [approval_prompt env t name args ch]"
      "te_await env (challenge_id ch) (to_world s, g) = (None, w, to_gate s')"
      "given_answer (challenge_id ch) g (to_gate s') = Some True" and p: "tt_mode t = ModePrompt"
    using assms(5) unfolding approved_by_def m by blast
  have "length nonce = ID_BYTES" if "a_random (te_approval env) = Inr nonce" for nonce
    using assms(7) that by (simp add: random_law_def)
  from issue_pending [OF ch(1) assms(6) this assms(9)] obtain p where
    pe: "bget (g_pending g) (challenge_id ch) = Some p" "pe_target p = call_target t name args" "bmap_ok (g_pending g)"
    by blast
  obtain log where "gate_run (challenge_id ch) g log (snd (snd (te_await env (challenge_id ch) (to_world s, g))))"
    using assms(8) unfolding gate_guarded_def by blast
  then have run: "gate_run (challenge_id ch) g log (to_gate s')" using ch(3) by simp
  from approval_has_person [OF run pe(1,3) ch(4)] ch(1,2) run p u show ?thesis unfolding pe(2) by blast
qed

section \<open>What the host adds to a request\<close>

lemma not_propose: "strip_prefix ''schedule_'' name = None \<Longrightarrow> name \<noteq> ''schedule_propose''"
proof
  assume "strip_prefix ''schedule_'' name = None" "name = ''schedule_propose''"
  moreover have "strip_prefix ''schedule_'' ''schedule_propose'' \<noteq> None" by code_simp
  ultimately show False by simp
qed

lemma routed_memory:
  assumes "routed env t i name args approve (plugin, req)" and "strip_prefix ''schedule_'' name = None"
    and "strip_prefix ''memory_'' name = Some m"
  shows "memory_is env plugin \<and>
    (\<exists>values. req = request_call i m (memory_params (memory_scope (tt_channel t) (tt_chat t)) m approve values))"
  using assms(1)
proof cases
  case propose
  then show ?thesis using not_propose [OF assms(2)] by blast
qed (use assms(2,3) in \<open>simp_all, blast\<close>)

lemma routed_registered:
  assumes "routed env t i name args approve (plugin, req)" and "strip_prefix ''schedule_'' name = None"
    and "strip_prefix ''memory_'' name = None"
  shows "\<exists>values. args = JObj values \<and> bget (tg_owners (tt_registry t)) name = Some plugin
    \<and> req = request_call i name (tool_params t plugin approve values)"
  using assms(1)
proof cases
  case propose
  then show ?thesis using not_propose [OF assms(2)] by blast
qed (use assms(2,3) in \<open>simp_all\<close>)

lemma tool_params_host:
  "plugin = ''tools'' \<Longrightarrow> json_index (tool_params t plugin approve values) ''approve'' = JBool approve"
  "plugin = ''tools'' \<Longrightarrow> tt_workspace t = Some w \<Longrightarrow> json_index (tool_params t plugin approve values) ''workspace'' = JStr w"
  "plugin \<noteq> ''tools'' \<Longrightarrow> json_index (tool_params t plugin approve values) ''arguments'' = JObj values"
  "plugin \<noteq> ''tools'' \<Longrightarrow> json_index (json_index (tool_params t plugin approve values) ''host'') ''session'' = JStr (tt_session t)"
  "plugin \<noteq> ''tools'' \<Longrightarrow> json_index (json_index (tool_params t plugin approve values) ''host'') ''turn'' = JStr (tt_turn t)"
  by (auto simp: tool_params_def insert_some_def jobject_def bget_insert split: option.split)

text \<open>What a plugin learns from a tool call about approval, place and owner is the host's, whatever the model wrote in
  the arguments: the tools plugin is told that the call was approved exactly when it changes something, and gets the
  turn's workspace; the memory plugin gets the turn's scope, and the same mark for \<open>remember\<close>; any other plugin gets the
  arguments apart from the names of the session and the turn. A registered tool is called at its owner and nowhere
  else.\<close>

theorem host_marks_requests:
  assumes "execute_tool env t i name args k s = (r, s')" and "to_calls s' = to_calls s @ [(plugin, req)]"
    and "strip_prefix ''schedule_'' name = None"
  shows "\<exists>rpc ps. req = request_call i rpc ps
    \<and> (case strip_prefix ''memory_'' name of
         Some m \<Rightarrow> rpc = m \<and> memory_is env plugin
           \<and> json_index ps ''scope'' = JStr (memory_scope (tt_channel t) (tt_chat t))
           \<and> (if m = ''remember'' then json_index ps ''approved'' = JBool (mutating name args) else True)
       | None \<Rightarrow> rpc = name \<and> bget (tg_owners (tt_registry t)) name = Some plugin
           \<and> (if plugin = ''tools''
              then json_index ps ''approve'' = JBool (mutating name args)
                \<and> (case tt_workspace t of Some w \<Rightarrow> json_index ps ''workspace'' = JStr w | None \<Rightarrow> True)
              else json_index ps ''arguments'' = args
                \<and> json_index (json_index ps ''host'') ''session'' = JStr (tt_session t)
                \<and> json_index (json_index ps ''host'') ''turn'' = JStr (tt_turn t)))"
proof -
  have "to_calls s' \<noteq> to_calls s" using assms(2) by simp
  with assms(1) obtain c args' where
    c: "to_calls s' = to_calls s @ [c]" "routed env t i name args' (mutating name args) c" "host_args t name args args'"
    by (rule execute_tool_request)
  have r: "routed env t i name args (mutating name args) (plugin, req)"
    using c assms(2) not_propose [OF assms(3)] by (simp add: host_args_def)
  show ?thesis
  proof (cases "strip_prefix ''memory_'' name")
    case None
    from routed_registered [OF r assms(3) None] obtain vs where v: "args = JObj vs"
        "bget (tg_owners (tt_registry t)) name = Some plugin"
        "req = request_call i name (tool_params t plugin (mutating name args) vs)"
      by blast
    show ?thesis unfolding None option.case
      by (rule exI [of _ name], rule exI [of _ "tool_params t plugin (mutating name args) vs"])
        (simp add: v tool_params_host split: option.split)
  next
    case (Some m)
    from routed_memory [OF r assms(3) Some] obtain vs where v: "memory_is env plugin"
        "req = request_call i m (memory_params (memory_scope (tt_channel t) (tt_chat t)) m (mutating name args) vs)"
      by blast
    show ?thesis unfolding Some option.case
      by (rule exI [of _ m], rule exI [of _ "memory_params (memory_scope (tt_channel t) (tt_chat t)) m (mutating name args) vs"])
        (simp add: v memory_params_def bget_insert)
  qed
qed

section \<open>Messages of scheduled tasks\<close>

text \<open>A store that differs only in the session \<open>i\<close>, and a session that only gained a notice.\<close>

definition only_session :: "string \<Rightarrow> store \<Rightarrow> store \<Rightarrow> bool" where
  "only_session i st st' \<longleftrightarrow> st' = st\<lparr>st_sessions := st_sessions st'\<rparr>
     \<and> (\<forall>j. j = i \<or> bget (st_sessions st') j = bget (st_sessions st) j)"

lemma only_session_simps [simp]:
  "only_session i st st"
  "only_session i st (st\<lparr>st_sessions := binsert i x (st_sessions st)\<rparr>)"
  "only_session i st (on_session i f st)"
  by (simp_all add: only_session_def on_session_def bget_insert bget_adjust)

lemma only_session_trans: "only_session i st st1 \<Longrightarrow> only_session i st1 st2 \<Longrightarrow> only_session i st st2"
  unfolding only_session_def by (metis (no_types, lifting) store.surjective store.update_convs(1))

definition gained_notice :: "string \<Rightarrow> string \<Rightarrow> string \<Rightarrow> session \<Rightarrow> session \<Rightarrow> bool" where
  "gained_notice chat i text x x' \<longleftrightarrow> \<not> list_ex (\<lambda>y. ends_in i (m_id y)) (s_messages x)
     \<and> (\<exists>n t. ends_in i (m_id n) \<and> m_session n = chat \<and> m_role n = Assistant \<and> m_content n = [CText text]
          \<and> x' = x\<lparr>s_messages := compact_messages (s_messages x @ [n]), s_updated := t\<rparr>)"

lemma ends_in_append: "ends_in e (p @ e)"
  by (simp add: ends_in_def)

lemma ends_in_notice: "ends_in (scheduled_delivery_id session run k) (scheduled_tui_notice_id session t run k)"
  using ends_in_append [of "scheduled_delivery_id session run k" "''schedule-notice-at-'' @ show_nat t @ ''-''"]
  by (simp add: scheduled_delivery_id_def scheduled_tui_notice_id_def)

text \<open>A change of the sessions, of one session or of the outbox either happens or leaves the store as it was.\<close>

lemma change_effect:
  assumes "change env f w = (r, w')"
    and "f (fst w) = (fst w)\<lparr>st_sessions := st_sessions (f (fst w)), st_outbox := st_outbox (f (fst w))\<rparr>"
  shows "fst w' = f (fst w) \<or> fst w' = fst w"
proof -
  obtain st d where w: "w = (st, d)" by (cases w)
  obtain x d' where sv: "save_store env (f st) d = (x, d')" by fastforce
  have undone: "(f st)\<lparr>st_sessions := st_sessions st, st_outbox := st_outbox st, st_dead := st_dead st, st_offsets := st_offsets st,
      st_seen := st_seen st, st_deferred := st_deferred st, st_deferred_acknowledged := st_deferred_acknowledged st,
      st_path := st_path st\<rparr> = st"
    by (subst assms(2) [unfolded w fst_conv]) simp
  show ?thesis using assms(1) by (cases x) (auto simp: change_def w sv undone Let_def)
qed

lemma ensure_effect:
  assumes "ensure env i m w = (r, w')"
  shows "fst w' = fst w \<or> bget (st_sessions (fst w)) i = None
    \<and> fst w' = (fst w)\<lparr>st_sessions := binsert i (new_session i m False (now env 0)) (st_sessions (fst w))\<rparr>"
proof (cases "bget (st_sessions (fst w)) i = None")
  case False
  then show ?thesis using assms by (auto simp: ensure_def return_def)
next
  case True
  have "w' = w \<or> (\<exists>r1. change env (\<lambda>st. st\<lparr>st_sessions := binsert i (new_session i m False (now env 0)) (st_sessions st)\<rparr>) w
      = (r1, w'))"
    using assms True unfolding ensure_def create_def create_session_def Let_def fail_def
    by (simp only: if_P simp_thms prod.case if_False split: if_splits, blast+)
  then show ?thesis using True by (auto dest: change_effect)
qed

lemma append_notice_effect:
  assumes "append_notice env i m w = (r, w')"
  shows "fst w' = fst w \<or> bget (st_sessions (fst w)) i \<noteq> None \<and> m_session m = i
    \<and> fst w' = on_session i (\<lambda>s. s\<lparr>s_messages := compact_messages (s_messages s @ [m]), s_updated := now env 0\<rparr>) (fst w)"
proof (cases "bget (st_sessions (fst w)) i = None \<or> m_session m \<noteq> i")
  case True
  then show ?thesis using assms by (auto simp: append_notice_def fail_def)
next
  case False
  with assms have "change env (on_session i (\<lambda>s. s\<lparr>s_messages := compact_messages (s_messages s @ [m]), s_updated := now env 0\<rparr>)) w = (r, w')"
    by (simp add: append_notice_def)
  from change_effect [OF this] False show ?thesis by (auto simp: on_session_def)
qed

lemma queue_delivery_effect:
  assumes "queue_delivery env i channel chat private thread text w = (r, w')"
  shows "fst w' = fst w
    \<or> (\<exists>t0 t1. \<not> has_delivery i (fst w) \<and> fst w' = (fst w)\<lparr>st_outbox := st_outbox (fst w)
         @ [new_delivery i channel chat private thread text Pending t0 t1]\<rparr>)"
proof (cases "LIMIT \<le> length (st_outbox (fst w))")
  case True
  then show ?thesis using assms by (simp add: queue_delivery_def fail_def)
next
  case False
  note c = assms [unfolded queue_delivery_def if_not_P [OF False]]
  show ?thesis using change_effect [OF c] by (cases "has_delivery i (fst w)") auto
qed

lemma tool_store_world: "tool_store a s = (r, s') \<Longrightarrow> s' = s\<lparr>to_world := to_world s'\<rparr> \<and> (\<exists>x. a (to_world s) = (x, to_world s'))"
  by (auto simp: tool_store_def split: prod.splits sum.splits io_error.splits)

text \<open>The message of a scheduled task in a session of the local interface, which is made when it is missing.\<close>

definition tui_session :: "('d, 'z, 'c) tool_env \<Rightarrow> tool_turn \<Rightarrow> string \<Rightarrow> store \<Rightarrow> session" where
  "tui_session env t i st =
     (case bget (st_sessions st) i of Some x \<Rightarrow> x | None \<Rightarrow> new_session i (tt_model t) False (now (te_store env 1) 0))"

lemma tui_message_effect:
  assumes "tui_message env t run k m s = (r, s')" and "st = fst (to_world s)" and "st' = fst (to_world s')"
  shows "s' = s\<lparr>to_world := to_world s'\<rparr> \<and> (st' = st \<or> only_session (sm_chat m) st st'
    \<and> (\<exists>x'. bget (st_sessions st') (sm_chat m) = Some x' \<and> (x' = tui_session env t (sm_chat m) st
         \<or> gained_notice (sm_chat m) (scheduled_delivery_id (tt_session t) run k) (sm_text m) (tui_session env t (sm_chat m) st) x')))"
proof -
  let ?i = "sm_chat m" and ?d = "scheduled_delivery_id (tt_session t) run k" and ?x = "tui_session env t (sm_chat m) st"
  let ?n = "notice_message (scheduled_tui_notice_id (tt_session t) (te_millis env) run k) m"
  obtain r1 s1 where 1: "tool_store (ensure (te_store env 1) ?i (tt_model t)) s = (r1, s1)"
    by (cases "tool_store (ensure (te_store env 1) ?i (tt_model t)) s")
  obtain r2 s2 where 2: "tool_store (append_notice (te_store env 2) ?i ?n) s1 = (r2, s2)"
    by (cases "tool_store (append_notice (te_store env 2) ?i ?n) s1")
  define st1 where "st1 = fst (to_world s1)"
  have e: "st1 = st \<or> bget (st_sessions st) ?i = None \<and> st1 = st\<lparr>st_sessions := binsert ?i ?x (st_sessions st)\<rparr>"
  proof -
    from tool_store_world [OF 1] obtain y where "ensure (te_store env 1) ?i (tt_model t) (to_world s) = (y, to_world s1)" by blast
    from ensure_effect [OF this] show ?thesis by (auto simp: st1_def assms(2) tui_session_def)
  qed
  then have x1: "bget (st_sessions st1) ?i = None \<or> bget (st_sessions st1) ?i = Some ?x"
    by (auto simp: tui_session_def bget_insert split: option.splits)
  have o1: "only_session ?i st st1" using e by auto
  have made: "st1 = st \<or> only_session ?i st st1 \<and> bget (st_sessions st1) ?i = Some ?x"
    using e by (elim disjE) (simp_all add: bget_insert)
  have "s' = s1 \<or> s' = s2 \<and> \<not> list_ex (\<lambda>x. m_id x = ?d \<or> ends_in ?d (m_id x))
      (case bget (st_sessions st1) ?i of None \<Rightarrow> [] | Some x \<Rightarrow> s_messages x)"
    using assms(1) unfolding tui_message_def 1 prod.case Let_def 2 st1_def [symmetric] by (auto split: sum.splits if_splits)
  then show ?thesis
  proof
    assume s': "s' = s1"
    then have st': "st' = st1" by (simp add: assms(3) st1_def)
    have w: "s' = s\<lparr>to_world := to_world s'\<rparr>" using tool_store_world [OF 1] unfolding s' by blast
    show ?thesis by (rule conjI [OF w]) (rule disjE [OF made]; simp add: st')
  next
    assume s': "s' = s2 \<and> \<not> list_ex (\<lambda>x. m_id x = ?d \<or> ends_in ?d (m_id x))
      (case bget (st_sessions st1) ?i of None \<Rightarrow> [] | Some x \<Rightarrow> s_messages x)"
    have w: "s' = s\<lparr>to_world := to_world s'\<rparr>"
    proof -
      have "s1 = s\<lparr>to_world := to_world s1\<rparr>" "s2 = s1\<lparr>to_world := to_world s2\<rparr>" "s' = s2"
        using tool_store_world [OF 1] tool_store_world [OF 2] s' by blast+
      then show ?thesis by (cases s; cases s1; cases s2) simp
    qed
    from tool_store_world [OF 2] obtain y where "append_notice (te_store env 2) ?i ?n (to_world s1) = (y, to_world s2)" by blast
    from append_notice_effect [OF this] consider "st' = st1"
      | "bget (st_sessions st1) ?i = Some ?x"
        "st' = on_session ?i (\<lambda>s. s\<lparr>s_messages := compact_messages (s_messages s @ [?n]), s_updated := now (te_store env 2) 0\<rparr>) st1"
      using s' x1 by (auto simp: assms(3) st1_def)
    then show ?thesis
    proof cases
      case 1
      show ?thesis by (rule conjI [OF w]) (rule disjE [OF made]; simp add: 1)
    next
      case 2
      let ?x' = "?x\<lparr>s_messages := compact_messages (s_messages ?x @ [?n]), s_updated := now (te_store env 2) 0\<rparr>"
      have "bget (st_sessions st') ?i = Some ?x'" using 2 by (simp add: on_session_def bget_adjust)
      moreover have "only_session ?i st st'" unfolding 2(2) by (rule only_session_trans [OF o1]) simp
      moreover have "ends_in ?d (m_id ?n)" "m_session ?n = ?i" "m_role ?n = Assistant" "m_content ?n = [CText (sm_text m)]"
        by (simp_all add: notice_message_def ends_in_notice)
      then have "gained_notice ?i ?d (sm_text m) ?x ?x'"
        using s' 2(1) unfolding gained_notice_def by (auto simp: list_ex_iff)
      ultimately show ?thesis by (intro conjI [OF w]) blast
    qed
  qed
qed

text \<open>C10: A scheduled task writes only where its schedule was authorized to. A message call changes nothing, or the turn is a
  scheduled one with an authorized destination, and then one of two things has happened. When the destination is a session of
  the local interface, only that session is changed: it has been made if it was missing, and it has gained at most one
  notice, with exactly the checked text and an id that ends with the session, the run and the number of the call, and only
  if no message it holds has such an id. Otherwise one
  delivery has been added to the outbox, for exactly that channel, chat and thread and with the checked text, whose id is
  made of the session, the run and the number of the call; no delivery of that id was there. Nothing else of the
  store or of the turn changes, no session in the second case and no delivery in the first.\<close>

theorem scheduled_message_authorized:
  assumes "send_message env t args k s = (r, s')" and "st = fst (to_world s)" and "st' = fst (to_world s')"
  shows "s' = s\<lparr>to_world := to_world s'\<rparr> \<and> (st' = st \<or> tt_channel t = ''scheduler''
    \<and> (\<exists>m d run. scheduled_message args = Inr m \<and> tt_destination t = Some d \<and> tt_run t = Some run
         \<and> (if de_channel d = ''tui''
            then only_session (de_chat d) st st'
              \<and> (\<exists>x'. bget (st_sessions st') (de_chat d) = Some x' \<and> (x' = tui_session env t (de_chat d) st
                   \<or> gained_notice (de_chat d) (scheduled_delivery_id (tt_session t) run k) (sm_text m) (tui_session env t (de_chat d) st) x'))
            else \<exists>x. st' = st\<lparr>st_outbox := st_outbox st @ [x]\<rparr>
              \<and> d_channel x = de_channel d \<and> d_chat x = de_chat d \<and> d_private x = de_private d \<and> d_thread x = de_thread d
              \<and> d_text x = sm_text m \<and> d_status x = Pending \<and> d_id x = scheduled_delivery_id (tt_session t) run k
              \<and> \<not> has_delivery (d_id x) st)))"
proof (cases "s' = s")
  case True
  then show ?thesis using assms(2,3) by simp
next
  case False
  obtain m d run where a: "tt_channel t = ''scheduler''" "scheduled_message args = Inr m" "tt_destination t = Some d"
      "matches_authorized_destination m d" "tt_run t = Some run"
    using assms(1) False by (auto simp: send_message_def split: if_splits sum.splits option.splits)
  then have d: "sm_channel m = de_channel d" "sm_chat m = de_chat d" "sm_private m = de_private d" "sm_thread m = de_thread d"
    by (simp_all add: matches_authorized_destination_def)
  show ?thesis
  proof (cases "de_channel d = ''tui''")
    case True
    have u: "tui_message env t run k m s = (r, s')" using assms(1) a d True by (simp add: send_message_def)
    from tui_message_effect [OF u assms(2,3)] a(1,2,3,5) True show ?thesis unfolding d by auto
  next
    case other: False
    obtain r1 where q: "tool_store (queue_delivery (te_store env 1) (scheduled_delivery_id (tt_session t) run k)
        (sm_channel m) (sm_chat m) (sm_private m) (sm_thread m) (sm_text m)) s = (r1, s')"
      using assms(1) a d other False by (auto simp: send_message_def split: if_splits option.splits prod.splits sum.splits)
    note w = tool_store_world [OF q]
    then obtain y where "queue_delivery (te_store env 1) (scheduled_delivery_id (tt_session t) run k)
        (sm_channel m) (sm_chat m) (sm_private m) (sm_thread m) (sm_text m) (to_world s) = (y, to_world s')"
      by blast
    from queue_delivery_effect [OF this] w a(1,2,3,5) d other assms(2,3) show ?thesis
      by (auto simp: new_delivery_def)
  qed
qed

section \<open>A concrete turn\<close>

text \<open>A turn of the session \<open>a\<close> in a Telegram chat calls \<open>write\<close>, and the local interface approves.\<close>

definition call_turn :: tool_turn where
  "call_turn = \<lparr>tt_registry = \<lparr>tg_specs = [], tg_owners = [(''write'', ''tools'')]\<rparr>, tt_turn = ''1'', tt_provider = ''p'',
     tt_model = ''m'', tt_mode = ModePrompt, tt_channel = ''telegram'', tt_chat = ''7'', tt_thread = Some ''3'', tt_session = ''a'',
     tt_workspace = Some ''/w'', tt_tools = True, tt_schedule = False, tt_shell = False, tt_destination = None, tt_run = None\<rparr>"

definition plugin_hello :: "string \<Rightarrow> capability \<Rightarrow> hello" where
  "plugin_hello i c = \<lparr>h_protocol = protocol_current, h_id = i, h_version = [], h_capabilities = [c], h_commands = []\<rparr>"

definition call_tz :: "(int, unit) tz_env" where
  "call_tz = \<lparr>tz_offset = Inr, tz_named = Inl, tz_system = 0, tz_timestamp = \<lambda>x. None, tz_civil = \<lambda>x. None,
     tz_zoned = \<lambda>z c. Inl [], tz_in_range = \<lambda>i. True, tz_local = \<lambda>z i. []\<rparr>"

definition call_env :: "(unit, int, unit) tool_env" where
  "call_env = \<lparr>te_store = (\<lambda>k. sample_env), te_plugins = [(''tools'', plugin_hello ''tools'' CapTool), (''telegram'', plugin_hello ''telegram'' CapChannel)],
     te_call = (\<lambda>cs p r. Inl HaltStop), te_approval = sample_approval_env,
     te_await = (\<lambda>i (w, g). (None, w, snd (resolve_local sample_approval_env i True g))), te_open = (\<lambda>n. True),
     te_print = (\<lambda>v. []), te_debug = id, te_contents = (\<lambda>v. Inr []), te_decode64 = (\<lambda>x. None), te_result_json = (\<lambda>r. JNull),
     te_schedule_id = Inr 1, te_now = 0, te_millis = 0, te_timestamp = (\<lambda>x. Inr 0), te_tz = call_tz, te_upper = id\<rparr>"

definition call_state :: "unit tool_state" where
  "call_state = \<lparr>to_world = sample_run [OpCreate ''a'' ''m'', OpBegin ''a'' (sample_message ''x'') [] None], to_gate = sample_gate,
     to_notices = [], to_prompts = [], to_calls = [], to_restarts = [], to_failed = None\<rparr>"

definition write_target :: target where "write_target = call_target call_turn ''write'' (JObj [])"

definition write_pending :: pending where "write_pending = \<lparr>pe_target = write_target, pe_expires = 1300\<rparr>"

definition write_challenge :: challenge where
  "write_challenge = \<lparr>ch_approve = token sample_approval_env ''k'' sample_id write_pending CHR ''a'',
     ch_deny = token sample_approval_env ''k'' sample_id write_pending CHR ''d''\<rparr>"

definition write_issued :: gate where
  "write_issued = \<lparr>g_key = ''k'', g_pending = [(sample_id, write_pending)], g_answers = []\<rparr>"

definition write_approved :: gate where
  "write_approved = \<lparr>g_key = ''k'', g_pending = [], g_answers = [(sample_id, True)]\<rparr>"

lemma write_issue: "issue sample_approval_env write_target sample_gate = (Inr write_challenge, write_issued)"
proof -
  have "unexpired 1000 (g_pending sample_gate) = []" "g_key sample_gate = ''k''"
    "sample_gate\<lparr>g_pending := [(sample_id, write_pending)]\<rparr> = write_issued"
    by (simp_all add: unexpired_def bretain_def sample_gate_def write_issued_def)
  moreover have "\<not> TARGET_LIMIT < length (a_target_text sample_approval_env write_target)"
    by (simp add: sample_approval_env_def write_target_def call_target_def call_turn_def TARGET_LIMIT_def)
  moreover have "\<lparr>pe_target = write_target, pe_expires = sat_add 1000 LIFE\<rparr> = write_pending"
    by (simp add: write_pending_def sample_expiry)
  ultimately show ?thesis
    by (simp add: issue_def sample_env_values sample_id_def [symmetric] APPROVAL_LIMIT_def Let_def write_challenge_def)
qed

lemma write_id: "challenge_id write_challenge = sample_id"
  using decode_token [OF sample_mac sample_id_ok, of "CHR ''a''"] by (simp add: challenge_id_def write_challenge_def)

lemma write_approval: "resolve_local sample_approval_env sample_id True write_issued = (Some True, write_approved)"
proof -
  have "bremove sample_id (g_pending write_issued) = []" "bget (g_pending write_issued) sample_id = Some write_pending"
    by (simp_all add: write_issued_def bremove_def)
  then show ?thesis using sample_id_ok
    by (simp add: resolve_local_def sample_env_values write_pending_def answer_def Let_def write_issued_def write_approved_def)
qed

lemma write_asked:
  "ask_approval call_env call_turn ''write'' (JObj []) call_state
     = (Inr True, call_state\<lparr>to_gate := write_approved, to_prompts := [approval_prompt call_env call_turn ''write'' (JObj []) write_challenge]\<rparr>)"
proof -
  have e: "te_approval call_env = sample_approval_env" "to_gate call_state = sample_gate" "to_prompts call_state = []"
    "te_open call_env n" "te_await call_env i (w, g) = (None, w, snd (resolve_local sample_approval_env i True g))" for n i w g
    by (simp_all add: call_env_def call_state_def)
  have "given_answer sample_id write_issued write_approved = Some True"
    by (simp add: given_answer_def write_issued_def write_approved_def)
  then show ?thesis
    by (simp add: ask_approval_def e write_issue [unfolded write_target_def] write_id write_approval Let_def)
qed

lemma call_state_gate: "bmap_ok (g_pending (to_gate call_state))"
  by (simp add: call_state_def sample_gate_def bmap_ok_def)

lemma call_gate_guarded: "gate_guarded call_env"
proof -
  have "\<exists>log. gate_run i g log (snd (resolve_local sample_approval_env i True g))" for i g
    using gate_run.local [OF gate_run.stay] surjective_pairing by blast
  then show ?thesis by (simp add: gate_guarded_def call_env_def)
qed

lemma write_changes: "mutating ''write'' (JObj [])"
  by (simp add: mutating_def mutating_names_def)

lemma call_turn_mode: "tt_mode call_turn = ModePrompt"
  by (simp add: call_turn_def)

lemma write_called:
  "to_calls (snd (execute_tool call_env call_turn 1 ''write'' (JObj []) 0 call_state))
     = [(''tools'', request_call 1 ''write'' (tool_params call_turn ''tools'' True []))]"
proof -
  let ?s = "call_state\<lparr>to_gate := write_approved, to_prompts := [approval_prompt call_env call_turn ''write'' (JObj []) write_challenge]\<rparr>"
  have a: "approve_call call_env call_turn ''write'' (JObj []) call_state = (Inr (Some True), ?s)"
    using call_turn_mode by (simp add: approve_call_def write_changes effective_mode_def write_asked)
  have "fst (set_phase sample_env ''a'' ''unsafe'' (to_world call_state)) = Inr ()"
    by (simp add: call_state_def run_defs check_defs create_def create_session_def set_phase_def begun_def
        begin_with_roles_clearing_deferred_def has_live_tui_reservation_def begun_def)
  then obtain w where "set_phase sample_env ''a'' ''unsafe'' (to_world call_state) = (Inr (), w)"
    by (metis prod.collapse)
  then have "tool_store (set_phase (te_store call_env 0) (tt_session call_turn) ''unsafe'') ?s = (Inr (), ?s\<lparr>to_world := w\<rparr>)"
    by (simp add: tool_store_def call_env_def call_turn_def)
  moreover have "strip_prefix ''schedule_'' ''write'' = None" "strip_prefix ''memory_'' ''write'' = None" by code_simp+
  moreover have "bget (tg_owners (tt_registry call_turn)) ''write'' = Some ''tools''"
    "bget (te_plugins call_env) ''tools'' = Some (plugin_hello ''tools'' CapTool)" "supports (plugin_hello ''tools'' CapTool) CapTool"
    "te_call call_env cs p q = Inl HaltStop" for cs p q
    by (simp_all add: call_turn_def call_env_def plugin_hello_def supports_def)
  ultimately show ?thesis
    by (simp add: execute_tool_def a run_approved_def tool_with_registry_def registered_tool_def call_plugin_def Let_def)
      (simp add: call_state_def)
qed

lemma mutating_call_needs_person_witness:
  "\<exists>ch g log who. issue sample_approval_env write_target sample_gate = (Inr ch, g)
     \<and> to_prompts (snd (execute_tool call_env call_turn 1 ''write'' (JObj []) 0 call_state))
         = [approval_prompt call_env call_turn ''write'' (JObj []) ch]
     \<and> (True, who) \<in> set log \<and> may_answer write_target who"
proof -
  have e: "te_approval call_env = sample_approval_env" "to_gate call_state = sample_gate" "to_prompts call_state = []"
    "tt_mode call_turn \<noteq> ModeAuto" "to_calls call_state = []"
    by (simp_all add: call_env_def call_state_def call_turn_def)
  have m: "mac_law (te_approval call_env)" "random_law (te_approval call_env)"
    by (simp_all add: e sample_mac random_law_def sample_env_values ID_BYTES_def)
  have c: "to_calls (snd (execute_tool call_env call_turn 1 ''write'' (JObj []) 0 call_state)) \<noteq> to_calls call_state"
    by (simp add: write_called e)
  have n: "''write'' \<noteq> ''schedule_propose''" by simp
  from mutating_call_needs_person [OF surjective_pairing write_changes c n e(4) m call_gate_guarded call_state_gate]
  show ?thesis by (auto simp: e write_target_def)
qed

lemma host_marks_requests_witness:
  "\<exists>ps. request_call 1 ''write'' (tool_params call_turn ''tools'' True []) = request_call 1 ''write'' ps
     \<and> json_index ps ''approve'' = JBool True \<and> json_index ps ''workspace'' = JStr ''/w''"
proof -
  have c: "to_calls (snd (execute_tool call_env call_turn 1 ''write'' (JObj []) 0 call_state))
      = to_calls call_state @ [(''tools'', request_call 1 ''write'' (tool_params call_turn ''tools'' True []))]"
    by (simp add: write_called) (simp add: call_state_def)
  have p: "strip_prefix ''schedule_'' ''write'' = None" "strip_prefix ''memory_'' ''write'' = None" by code_simp+
  have w: "tt_workspace call_turn = Some ''/w''" by (simp add: call_turn_def)
  from host_marks_requests [OF surjective_pairing c p(1)] show ?thesis
    by (auto simp: p w write_changes)
qed

text \<open>A scheduled turn that may write to the Telegram chat \<open>7\<close>.\<close>

definition message_turn :: tool_turn where
  "message_turn = call_turn\<lparr>tt_channel := ''scheduler'', tt_run := Some 1,
     tt_destination := Some \<lparr>de_channel = ''telegram'', de_chat = ''7'', de_private = True, de_thread = None\<rparr>\<rparr>"

definition message_args :: json where
  "message_args = jobject [(''channel'', JStr ''telegram''), (''chat'', JStr ''7''), (''private'', JBool True), (''text'', JStr ''hi'')]"

lemma hi_text: "message_text (JStr ''hi'') = Some ''hi''"
proof -
  have "trim ''hi'' = ''hi''" "list_all (\<lambda>c. \<not> is_control c \<or> c = [CHR 0x0A] \<or> c = [CHR 0x09]) (chars ''hi'')" by code_simp+
  then show ?thesis by (simp add: message_text_def TEXT_LIMIT_def)
qed

lemma message_parsed:
  "scheduled_message message_args = Inr \<lparr>sm_channel = ''telegram'', sm_chat = ''7'', sm_private = True, sm_thread = None, sm_text = ''hi''\<rparr>"
proof -
  have i: "json_index message_args ''channel'' = JStr ''telegram''" "json_index message_args ''chat'' = JStr ''7''"
    "json_index message_args ''private'' = JBool True" "json_index message_args ''text'' = JStr ''hi''"
    "json_index message_args ''thread'' = JNull"
    by code_simp+
  have "visible_channel (JStr ''telegram'') = Some ''telegram''" "visible_chat (JStr ''7'') = Some ''7''" "named_thread JNull = None"
    by code_simp+
  then show ?thesis by (simp add: scheduled_message_def i Let_def hi_text)
qed

lemma message_queued:
  "st_outbox (fst (to_world (snd (send_message call_env message_turn message_args 0 call_state)))) \<noteq> []"
proof -
  have t: "tt_channel message_turn = ''scheduler''" "tt_run message_turn = Some 1" "tt_session message_turn = ''a''"
    "tt_destination message_turn = Some \<lparr>de_channel = ''telegram'', de_chat = ''7'', de_private = True, de_thread = None\<rparr>"
    by (simp_all add: message_turn_def call_turn_def)
  have p: "bget (te_plugins call_env) ''telegram'' = Some (plugin_hello ''telegram'' CapChannel)"
    "supports (plugin_hello ''telegram'' CapChannel) CapChannel" "te_store call_env k = sample_env" for k
    by (simp_all add: call_env_def plugin_hello_def supports_def)
  have o: "st_outbox (fst (to_world call_state)) = []"
    by (simp add: call_state_def run_defs check_defs create_def create_session_def
        begin_with_roles_clearing_deferred_def has_live_tui_reservation_def begun_def)
  have save: "save_store sample_env st d = (Inr (), d)" for st d by (simp add: sample_env_def)
  show ?thesis
    by (cases "to_world call_state")
      (use o in \<open>simp add: send_message_def t p message_parsed matches_authorized_destination_def tool_store_def queue_delivery_def
         LIMIT_def change_def save Let_def has_delivery_def split: prod.split\<close>)
qed

text \<open>The same turn with the session \<open>tui-1\<close> of the local interface as its destination, which is not there yet.\<close>

definition notice_turn :: tool_turn where
  "notice_turn = message_turn\<lparr>tt_destination := Some \<lparr>de_channel = ''tui'', de_chat = ''tui-1'', de_private = False, de_thread = None\<rparr>\<rparr>"

definition notice_args :: json where
  "notice_args = jobject [(''channel'', JStr ''tui''), (''chat'', JStr ''tui-1''), (''private'', JBool False), (''text'', JStr ''hi'')]"

lemma notice_parsed:
  "scheduled_message notice_args = Inr \<lparr>sm_channel = ''tui'', sm_chat = ''tui-1'', sm_private = False, sm_thread = None, sm_text = ''hi''\<rparr>"
proof -
  have i: "json_index notice_args ''channel'' = JStr ''tui''" "json_index notice_args ''chat'' = JStr ''tui-1''"
    "json_index notice_args ''private'' = JBool False" "json_index notice_args ''text'' = JStr ''hi''"
    "json_index notice_args ''thread'' = JNull"
    by code_simp+
  have "visible_channel (JStr ''tui'') = Some ''tui''" "visible_chat (JStr ''tui-1'') = Some ''tui-1''" "named_thread JNull = None"
    "valid_tui_destination \<lparr>de_channel = ''tui'', de_chat = ''tui-1'', de_private = False, de_thread = None\<rparr>"
    by code_simp+
  then show ?thesis by (simp add: scheduled_message_def i Let_def hi_text)
qed

lemma notice_sent:
  "fst (to_world (snd (send_message call_env notice_turn notice_args 0 call_state))) \<noteq> fst (to_world call_state)"
proof -
  have t: "tt_channel notice_turn = ''scheduler''" "tt_run notice_turn = Some 1" "tt_session notice_turn = ''a''" "tt_model notice_turn = ''m''"
    "tt_destination notice_turn = Some \<lparr>de_channel = ''tui'', de_chat = ''tui-1'', de_private = False, de_thread = None\<rparr>"
    by (simp_all add: notice_turn_def message_turn_def call_turn_def)
  have n: "bget (st_sessions (fst (to_world call_state))) ''tui-1'' = None"
    by (simp add: call_state_def run_defs check_defs create_def create_session_def
        begin_with_roles_clearing_deferred_def has_live_tui_reservation_def begun_def)
  let ?s = "snd (tool_store (ensure sample_env ''tui-1'' ''m'') call_state)"
  have e: "fst (tool_store (ensure sample_env ''tui-1'' ''m'') call_state) = Inr ()"
    "bget (st_sessions (fst (to_world ?s))) ''tui-1'' \<noteq> None"
    by (simp_all add: call_state_def run_defs check_defs ensure_def create_def create_session_def tool_store_def return_def
        begin_with_roles_clearing_deferred_def has_live_tui_reservation_def begun_def is_schedule_session_def user_session_count_def)
  have ts: "tool_store (ensure sample_env ''tui-1'' ''m'') call_state = (Inr (), ?s)" using e(1) by (simp add: prod_eq_iff)
  have k: "bget (st_sessions (fst (to_world s2))) ''tui-1'' \<noteq> None" if "tool_store (append_notice x ''tui-1'' y) ?s = (r2, s2)" for x y r2 s2
  proof -
    from tool_store_world [OF that] obtain z where "append_notice x ''tui-1'' y (to_world ?s) = (z, to_world s2)" by blast
    from append_notice_effect [OF this] e(2) show ?thesis by (auto simp: on_session_def bget_adjust)
  qed
  have "bget (st_sessions (fst (to_world (snd (send_message call_env notice_turn notice_args 0 call_state))))) ''tui-1'' \<noteq> None"
    using k e(2) ts
    by (auto simp: send_message_def t notice_parsed matches_authorized_destination_def tui_message_def call_env_def Let_def
        split: prod.split sum.split)
  with n show ?thesis by metis
qed

lemma scheduled_message_authorized_witness:
  "(\<exists>x. st_outbox (fst (to_world (snd (send_message call_env message_turn message_args 0 call_state)))) = [x]
     \<and> d_channel x = ''telegram'' \<and> d_chat x = ''7'' \<and> d_text x = ''hi'')
   \<and> only_session ''tui-1'' (fst (to_world call_state)) (fst (to_world (snd (send_message call_env notice_turn notice_args 0 call_state))))"
proof -
  let ?st = "fst (to_world call_state)"
  have o: "st_outbox ?st = []"
    by (simp add: call_state_def run_defs check_defs create_def create_session_def
        begin_with_roles_clearing_deferred_def has_live_tui_reservation_def begun_def)
  have d: "tt_destination message_turn = Some \<lparr>de_channel = ''telegram'', de_chat = ''7'', de_private = True, de_thread = None\<rparr>"
    "tt_destination notice_turn = Some \<lparr>de_channel = ''tui'', de_chat = ''tui-1'', de_private = False, de_thread = None\<rparr>"
    by (simp_all add: message_turn_def notice_turn_def)
  have n: "fst (to_world (snd (send_message call_env message_turn message_args 0 call_state))) \<noteq> ?st"
    using message_queued o by auto
  from scheduled_message_authorized [OF surjective_pairing refl refl, of call_env message_turn message_args 0] n
  have "\<exists>x. fst (to_world (snd (send_message call_env message_turn message_args 0 call_state))) = ?st\<lparr>st_outbox := st_outbox ?st @ [x]\<rparr>
      \<and> d_channel x = ''telegram'' \<and> d_chat x = ''7'' \<and> d_text x = ''hi''"
    by (auto simp: d message_parsed)
  moreover from scheduled_message_authorized [OF surjective_pairing refl refl, of call_env notice_turn notice_args 0] notice_sent
  have "only_session ''tui-1'' ?st (fst (to_world (snd (send_message call_env notice_turn notice_args 0 call_state))))"
    by (auto simp: d notice_parsed)
  ultimately show ?thesis using o by auto
qed

end
