(* ===== verification/Reply_Laws.thy ===== *)
theory Reply_Laws
  imports Turn_Replies
begin

text \<open>
  What the request to the model keeps of the history, what is left of a reply with several changes, and the size of
  the images of a request.
\<close>

section \<open>The history of a request\<close>

lemma forward_tools_less: "e < length ms \<Longrightarrow> forward_tools ms e < length ms"
proof (induction ms e rule: forward_tools.induct)
  case (1 ms e)
  then show ?case by (subst forward_tools.simps) simp
qed

lemma back_tools_le: "back_tools ms i \<le> i"
  by (induction ms i rule: back_tools.induct) auto

lemma remove_group_shape:
  assumes "protectable ms p"
  shows "run_start ms i \<Longrightarrow> remove_group_from ms p i = Some (True, ms') \<Longrightarrow>
    \<exists>start fin. start \<le> fin \<and> fin < length ms \<and> ms' = take start ms @ drop (fin + 1) ms
      \<and> (\<forall>q. p = Some q \<longrightarrow> q < start \<or> fin < q)"
proof (induction "length ms - i" arbitrary: i rule: less_induct)
  case less
  have i: "i < length ms"
    using less.prems(2) by (subst (asm) remove_group_from.simps) (auto split: if_splits)
  show ?case
  proof (cases "is_system (ms ! i)")
    case sys: True
    then have "run_start ms (i + 1)" by (auto simp: run_start_def)
    moreover have "remove_group_from ms p (i + 1) = Some (True, ms')"
      using less.prems(2) i sys by (subst (asm) remove_group_from.simps) simp
    ultimately show ?thesis using less.hyps [of "i + 1"] i by simp
  next
    case nsys: False
    obtain start fin where g: "message_group ms i = (start, fin)" by fastforce
    note group = message_group_run_start [OF less.prems(1) i g]
    show ?thesis
    proof (cases "case p of None \<Rightarrow> True | Some q \<Rightarrow> q < start \<or> fin < q")
      case out: True
      then have ms': "ms' = take start ms @ drop (fin + 1) ms"
        using less.prems(2) i nsys g by (subst (asm) remove_group_from.simps) simp
      have start: "start \<le> i" using g back_tools_le [of ms i]
        by (auto simp: message_group_def Let_def split: if_splits)
      then have "start \<le> fin" "fin < length ms"
        using g i forward_tools_ge [of start ms] forward_tools_less [of start ms]
        by (auto simp: message_group_def Let_def split: if_splits)
      with ms' out show ?thesis by (intro exI [of _ start] exI [of _ fin]) (auto split: option.splits)
    next
      case False
      then obtain q where q: "p = Some q" "start \<le> q" "q \<le> fin"
        by (auto split: option.splits)
      have "run_start ms (fin + 1)"
        using group(2)
      proof
        assume "start = i \<and> fin = i"
        with q have "q = i" by simp
        with assms q(1) i nsys \<open>start = i \<and> fin = i\<close> show ?thesis
          by (auto simp: protectable_def run_start_def)
      qed
      moreover have "remove_group_from ms p (fin + 1) = Some (True, ms')"
        using less.prems(2) i nsys g False q by (subst (asm) remove_group_from.simps) simp
      ultimately show ?thesis using less.hyps [of "fin + 1"] group(1) i by simp
    qed
  qed
qed

text \<open>The protected message of a request: the last one of the user, or the last one that is not a system message.\<close>

lemma first_position_Some: "position p xs = Some i \<Longrightarrow> i < length xs \<and> p (xs ! i) \<and> (\<forall>j < i. \<not> p (xs ! j))"
proof (induction xs arbitrary: i)
  case (Cons x xs)
  show ?case
  proof (cases "p x")
    case False
    with Cons.prems obtain k where k: "position p xs = Some k" "i = Suc k" by auto
    have "\<not> p ((x # xs) ! j)" if "j < i" for j
      using that Cons.IH [OF k(1)] k(2) False by (cases j) auto
    with Cons.IH [OF k(1)] k(2) show ?thesis by simp
  qed (use Cons.prems in auto)
qed simp

lemma last_position_Some:
  assumes "last_position p xs = Some i"
  shows "i < length xs" and "p (xs ! i)" and "\<forall>j < length xs. i < j \<longrightarrow> \<not> p (xs ! j)"
proof -
  obtain k where k: "position p (rev xs) = Some k" "i = length xs - 1 - k"
    using assms by (auto simp: last_position_def)
  note r = first_position_Some [OF k(1)]
  have "k < length xs" using r by simp
  then show "i < length xs" using k(2) by arith
  have "rev xs ! k = xs ! i" using \<open>k < length xs\<close> k(2) by (simp add: rev_nth)
  then show "p (xs ! i)" using r by simp
  show "\<forall>j < length xs. i < j \<longrightarrow> \<not> p (xs ! j)"
  proof (intro allI impI)
    fix j assume j: "j < length xs" "i < j"
    then have "length xs - 1 - j < k" using k(2) r by simp
    then have "\<not> p (rev xs ! (length xs - 1 - j))" using r by blast
    then show "\<not> p (xs ! j)" using j by (simp add: rev_nth)
  qed
qed

lemma last_position_None: "last_position p xs = None \<longleftrightarrow> (\<forall>x \<in> set xs. \<not> p x)"
  by (auto simp: last_position_def position_None)

lemma protectable_required: "protectable ms (required_message ms)"
  unfolding protectable_def required_message_def
  by (auto split: option.splits dest: last_position_Some)

lemma last_user_kept:
  assumes "length us + length mid + length vs = length (us @ mid @ vs)" and "filter p mid = [] \<or> filter p vs \<noteq> []"
  shows "last (filter p (us @ vs)) = last (filter p (us @ mid @ vs))"
  using assms by (auto simp: last_append)

definition is_user :: "message \<Rightarrow> bool" where
  "is_user m \<longleftrightarrow> m_role m = User"

text \<open>A smaller history: a subsequence, with the last message of the user.\<close>

definition trimmed :: "message list \<Rightarrow> message list \<Rightarrow> bool" where
  "trimmed ms h \<longleftrightarrow> subseq h ms \<and> (list_ex is_user ms \<longrightarrow> list_ex is_user h \<and> last (filter is_user h) = last (filter is_user ms))"

lemma trimmed_refl [simp]: "trimmed ms ms"
  by (simp add: trimmed_def)

lemma trimmed_trans: "trimmed ms h \<Longrightarrow> trimmed h h' \<Longrightarrow> trimmed ms h'"
  unfolding trimmed_def by (auto intro: subseq_order.trans)

lemma split_at_group:
  assumes "start \<le> fin" and "fin < length ms"
  shows "ms = take start ms @ take (fin + 1 - start) (drop start ms) @ drop (fin + 1) ms"
proof -
  have "drop start ms = take (fin + 1 - start) (drop start ms) @ drop (fin + 1) ms"
    using append_take_drop_id [of "fin + 1 - start" "drop start ms"] assms(1) by simp
  then show ?thesis using append_take_drop_id [of start ms] by simp
qed

text \<open>Where an element outside the group is after the group is gone.\<close>

lemma mem_outside_group:
  assumes "q < length ms" and "q < start \<or> fin < q" and "start \<le> fin"
  shows "ms ! q \<in> set (if q < start then take start ms else drop (fin + 1) ms)"
proof (cases "q < start")
  case True
  then have "take start ms ! q \<in> set (take start ms)" using assms(1) by (intro nth_mem) simp
  then show ?thesis using True by simp
next
  case False
  then have "drop (fin + 1) ms ! (q - (fin + 1)) \<in> set (drop (fin + 1) ms)" using assms by (intro nth_mem) simp
  then show ?thesis using False assms by simp
qed

lemma group_member:
  assumes "x \<in> set (take n (drop start ms))"
  obtains j where "start \<le> j" "j < length ms" "x = ms ! j"
proof -
  obtain k where k: "k < length (take n (drop start ms))" "x = take n (drop start ms) ! k"
    using assms unfolding in_set_conv_nth by blast
  show thesis by (rule that [of "start + k"]) (use k in auto)
qed

lemma group_removed_trims:
  assumes q: "last_position is_user ms = Some q" "q < start \<or> fin < q" and g: "start \<le> fin" "fin < length ms"
  defines "h \<equiv> take start ms @ drop (fin + 1) ms"
  shows "list_ex is_user h \<and> last (filter is_user h) = last (filter is_user ms)"
proof -
  let ?u = "take start ms" and ?v = "drop (fin + 1) ms" and ?m = "take (fin + 1 - start) (drop start ms)"
  note l = last_position_Some [OF q(1)]
  note mem = mem_outside_group [OF l(1) q(2) g(1)]
  then have "ms ! q \<in> set h" by (auto simp: h_def split: if_splits)
  then have ex: "list_ex is_user h" using l(2) by (auto simp: list_ex_iff)
  have "filter is_user ?m = [] \<or> filter is_user ?v \<noteq> []"
  proof (cases "q < start")
    case True
    have "\<not> is_user x" if "x \<in> set ?m" for x
      using that by (rule group_member) (use l(3) True in auto)
    then show ?thesis by (simp add: filter_empty_conv)
  next
    case False
    then have "ms ! q \<in> set ?v" using mem by simp
    then show ?thesis using l(2) unfolding filter_empty_conv by blast
  qed
  then have "last (filter is_user (?u @ ?v)) = last (filter is_user (?u @ ?m @ ?v))"
    by (rule last_user_kept [rotated]) simp
  then have "last (filter is_user h) = last (filter is_user ms)"
    by (simp only: split_at_group [OF g, symmetric] h_def)
  then show ?thesis using ex by simp
qed

lemma removed_group:
  assumes "remove_oldest_message_group ms (required_message ms) = Some (True, h)"
  shows "length h < length ms" and "trimmed ms h"
proof -
  have "run_start ms 0" by (simp add: run_start_def)
  from remove_group_shape [OF protectable_required this assms [unfolded remove_oldest_message_group_def]]
  obtain start fin where g: "start \<le> fin" "fin < length ms" "h = take start ms @ drop (fin + 1) ms"
    and out: "\<forall>q. required_message ms = Some q \<longrightarrow> q < start \<or> fin < q"
    by blast
  show "length h < length ms" using g by simp
  let ?u = "take start ms" and ?v = "drop (fin + 1) ms" and ?m = "take (fin + 1 - start) (drop start ms)"
  have "subseq h (?u @ ?m @ ?v)" unfolding g(3) subseq_append' by (rule list_emb_append2) simp
  then have sub: "subseq h ms" by (simp only: split_at_group [OF g(1,2), symmetric])
  have "list_ex is_user h \<and> last (filter is_user h) = last (filter is_user ms)" if u: "list_ex is_user ms"
  proof -
    have "last_position is_user ms \<noteq> None" using u unfolding last_position_None list_ex_iff by blast
    then obtain q where q: "last_position is_user ms = Some q" by blast
    moreover have "is_user = (\<lambda>m. m_role m = User)" by (rule ext) (simp add: is_user_def)
    ultimately have "required_message ms = Some q" by (simp add: required_message_def)
    then show ?thesis using group_removed_trims [OF q _ g(1,2)] out g(3) by blast
  qed
  with sub show "trimmed ms h" by (simp add: trimmed_def)
qed

section \<open>Properties of the request\<close>

lemma fit_request_result:
  "\<exists>r. fit_request frame fits ms = Some r
     \<and> (\<forall>req. r = Inr req \<longrightarrow> (\<exists>h. req = frame h \<and> fits (frame h) \<and> trimmed ms h))
     \<and> (\<forall>e. r = Inl e \<longrightarrow> \<not> fits (frame ms))"
proof (induction "length ms" arbitrary: ms rule: less_induct)
  case less
  show ?case
  proof (cases "fits (frame ms)")
    case True
    then show ?thesis by (subst fit_request.simps) (auto intro!: exI [of _ ms])
  next
    case False
    obtain removed h where r: "remove_oldest_message_group ms (required_message ms) = Some (removed, h)"
      using remove_oldest_returns [OF protectable_required] by (metis surj_pair)
    show ?thesis
    proof (cases removed)
      case True
      with r have r': "remove_oldest_message_group ms (required_message ms) = Some (True, h)" by simp
      note g = removed_group [OF r']
      have step: "fit_request frame fits ms = fit_request frame fits h"
        using False r True by (subst fit_request.simps) simp
      from less [OF g(1)] g(2) False show ?thesis unfolding step by (meson trimmed_trans)
    next
      case no: False
      then show ?thesis using False r by (subst fit_request.simps) simp
    qed
  qed
qed

section \<open>One change per reply\<close>

lemma first_position_split: "position p xs = Some i \<Longrightarrow> filter p (take i xs) = [] \<and> i < length xs \<and> p (xs ! i)"
proof -
  assume a: "position p xs = Some i"
  note r = first_position_Some [OF a]
  have "\<not> p x" if "x \<in> set (take i xs)" for x
    using that r by (auto simp: in_set_conv_nth)
  then show ?thesis using r by (simp add: filter_empty_conv)
qed

lemma filter_take_Suc: "i < length xs \<Longrightarrow> filter p (take (Suc i) xs) = filter p (take i xs) @ (if p (xs ! i) then [xs ! i] else [])"
  by (simp add: take_Suc_conv_app_nth)

text \<open>a reply keeps one change: \<open>keep_one_mutation\<close> leaves the longest beginning of the events with at most one
  call that changes something, and only cuts right before a second one.\<close>

theorem keep_one_mutation_longest:
  "\<exists>rest. events = keep_one_mutation events @ rest \<and> length (filter mutating_event (keep_one_mutation events)) \<le> 1
     \<and> (rest = [] \<or> mutating_event (hd rest) \<and> length (filter mutating_event (keep_one_mutation events)) = 1)"
proof (cases "position mutating_event events")
  case None
  then have "filter mutating_event events = []" by (simp add: filter_empty_conv position_None)
  with None show ?thesis by (simp add: keep_one_mutation_def)
next
  case (Some i)
  note i = first_position_split [OF Some]
  have one: "filter mutating_event (take (Suc i) events) = [events ! i]" using i by (simp add: filter_take_Suc)
  show ?thesis
  proof (cases "position mutating_event (drop (i + 1) events)")
    case None
    then have "filter mutating_event (drop (Suc i) events) = []" by (simp add: filter_empty_conv position_None)
    then have "filter mutating_event events = [events ! i]"
      using one filter_append [of mutating_event "take (Suc i) events" "drop (Suc i) events"] by simp
    with Some None show ?thesis by (simp add: keep_one_mutation_def)
  next
    case j: (Some j)
    note r = first_position_split [OF j]
    have "take (i + 1 + j) events = take (Suc i) events @ take j (drop (Suc i) events)"
      using take_add [of "Suc i" j events] by simp
    then have f: "filter mutating_event (take (i + 1 + j) events) = [events ! i]" using one r by simp
    have "j < length events - (i + 1)" using r by simp
    then have "i + 1 + j < length events" by arith
    then have h: "hd (drop (i + 1 + j) events) = events ! (i + 1 + j)" by (simp add: hd_drop_conv_nth)
    have k: "keep_one_mutation events = take (i + 1 + j) events" using Some j by (simp add: keep_one_mutation_def)
    show ?thesis
    proof (intro exI conjI disjI2)
      show "events = keep_one_mutation events @ drop (i + 1 + j) events" unfolding k by simp
      show "mutating_event (hd (drop (i + 1 + j) events))" unfolding h using r \<open>i + 1 + j < length events\<close> by simp
    qed (simp_all only: k f, simp_all)
  qed
qed

section \<open>Images of a request\<close>

text \<open>What is known of base64: decoding gives the bytes back, and the length of the text.\<close>

definition base64_law :: "(string \<Rightarrow> string) \<Rightarrow> (string \<Rightarrow> string option) \<Rightarrow> bool" where
  "base64_law encode64 decode64 \<longleftrightarrow>
     (\<forall>b. decode64 (encode64 b) = Some b \<and> length (encode64 b) = (length b + 2) div 3 * 4)"

text \<open>The bytes an item embeds, and the images a request may hold.\<close>

definition embedded :: "(string \<Rightarrow> string option) \<Rightarrow> content \<Rightarrow> nat" where
  "embedded decode64 c = (case c of
     CImage uri alt \<Rightarrow> (case image_data_size decode64 uri of Some n \<Rightarrow> n | None \<Rightarrow> 0) | _ \<Rightarrow> 0)"

definition image_ok :: "(string \<Rightarrow> string option) \<Rightarrow> content \<Rightarrow> bool" where
  "image_ok decode64 c \<longleftrightarrow> (case c of
     CImage uri alt \<Rightarrow> image_data_size decode64 uri \<noteq> None \<or> strip_prefix ''https://'' uri \<noteq> None \<and> length uri \<le> META_LIMIT
   | _ \<Rightarrow> True)"

lemma image_mime_kinds: "image_mime b = Some m \<Longrightarrow> m \<in> {''image/png'', ''image/jpeg'', ''image/gif'', ''image/webp''}"
  by (auto simp: image_mime_def split: if_splits)

lemma split_text_mime:
  "m \<in> {''png'', ''jpeg'', ''gif'', ''webp''} \<Longrightarrow> split_text '';base64,'' (m @ '';base64,'' @ e) = Some (m, e)"
  by (elim insertE emptyE) (simp_all add: split_text_def strip_prefix_def)

lemma embedded_size:
  assumes "image_mime b = Some mime" and "base64_law encode64 decode64" and "length b \<le> IMAGE_LIMIT"
  shows "image_data_size decode64 (''data:'' @ mime @ '';base64,'' @ encode64 b) = Some (length b)"
proof -
  obtain m where m: "mime = ''image/'' @ m" "m \<in> {''png'', ''jpeg'', ''gif'', ''webp''}"
    using image_mime_kinds [OF assms(1)] by auto
  have len: "\<not> (IMAGE_LIMIT + 2) div 3 * 4 < length (encode64 b)"
    using assms(2,3) by (simp add: base64_law_def div_le_mono)
  have e: "''data:'' @ mime @ '';base64,'' @ encode64 b = ''data:image/'' @ (m @ '';base64,'' @ encode64 b)"
    using m by simp
  have d: "decode64 (encode64 b) = Some b" using assms(2) by (simp add: base64_law_def)
  have no: "\<not> (m \<notin> {''png'', ''jpeg'', ''gif'', ''webp''} \<or> (IMAGE_LIMIT + 2) div 3 * 4 < length (encode64 b))"
    using m(2) len by blast
  have k: "image_mime b = Some (''image/'' @ m)" using assms(1) m(1) by simp
  show ?thesis
    unfolding e image_data_size_def strip_prefix_append option.case split_text_mime [OF m(2)] prod.case if_not_P [OF no] d
    using k by simp
qed

lemma prepare_image_step:
  assumes "prepare_image read_media encode64 decode64 used c = (c', used')" and "base64_law encode64 decode64"
    and "used \<le> IMAGE_TOTAL_LIMIT"
  shows "image_ok decode64 c' \<and> used' = used + embedded decode64 c' \<and> used' \<le> IMAGE_TOTAL_LIMIT \<or> c' = c \<and> used' = used \<and> \<not> is_image c"
proof (cases c)
  case (CImage uri alt)
  have un: "image_ok decode64 (unavailable_image alt)" "embedded decode64 (unavailable_image alt) = 0"
    by (simp_all add: image_ok_def embedded_def unavailable_image_def)
  show ?thesis
  proof (cases "strip_prefix ''file://'' uri \<noteq> None")
    case True
    let ?limit = "min IMAGE_LIMIT (IMAGE_TOTAL_LIMIT - used)"
    show ?thesis
    proof (cases "(if ?limit = 0 then None else read_media uri ?limit)")
      case None
      then show ?thesis using assms(1,3) un True by (auto simp: prepare_image_def CImage Let_def)
    next
      case (Some b)
      show ?thesis
      proof (cases "if ?limit < length b then None else image_mime b")
        case None
        then show ?thesis using assms(1,3) un True Some by (auto simp: prepare_image_def CImage Let_def)
      next
        case (Some mime)
        then have l: "length b \<le> ?limit" "image_mime b = Some mime" by (auto split: if_splits)
        have "length b \<le> IMAGE_LIMIT" using l(1) by simp
        note size = embedded_size [OF l(2) assms(2) this]
        have "c' = CImage (''data:'' @ mime @ '';base64,'' @ encode64 b) alt" "used' = used + length b"
          using assms(1) True Some \<open>(if ?limit = 0 then None else read_media uri ?limit) = Some b\<close>
          by (auto simp: prepare_image_def CImage Let_def)
        moreover have "used + length b \<le> IMAGE_TOTAL_LIMIT" using l(1) assms(3) by linarith
        ultimately show ?thesis using size by (simp add: image_ok_def embedded_def)
      qed
    qed
  next
    case False
    show ?thesis
    proof (cases "strip_prefix ''data:image/'' uri \<noteq> None")
      case True
      with assms(1,3) False un show ?thesis
        by (auto simp: prepare_image_def CImage image_ok_def embedded_def split: option.splits if_splits)
    next
      case no: False
      then have none: "image_data_size decode64 uri = None" by (simp add: image_data_size_def)
      from no assms(1,3) False un show ?thesis
        by (auto simp: prepare_image_def CImage image_ok_def embedded_def none split: if_splits)
    qed
  qed
qed (use assms(1) in \<open>auto simp: prepare_image_def is_image_def\<close>)

text \<open>The whole history: the used bytes are the embedded ones.\<close>

definition embedded_bytes :: "(string \<Rightarrow> string option) \<Rightarrow> message list \<Rightarrow> nat" where
  "embedded_bytes decode64 ms = sum_list (map (\<lambda>m. sum_list (map (embedded decode64) (m_content m))) ms)"

lemma embedded_other: "\<not> is_image c \<Longrightarrow> embedded decode64 c = 0 \<and> image_ok decode64 c"
  by (cases c) (simp_all add: is_image_def embedded_def image_ok_def)

lemma prepare_contents_bound:
  assumes "base64_law encode64 decode64"
  shows "prepare_contents (prepare_image read_media encode64 decode64) used cs = (cs', used') \<Longrightarrow> used \<le> IMAGE_TOTAL_LIMIT \<Longrightarrow>
    used' = used + sum_list (map (embedded decode64) cs') \<and> used' \<le> IMAGE_TOTAL_LIMIT \<and> list_all (image_ok decode64) cs'"
proof (induction cs arbitrary: used cs' used')
  case (Cons c cs)
  obtain c1 used1 where c: "prepare_image read_media encode64 decode64 used c = (c1, used1)" by fastforce
  obtain cs1 used2 where r: "prepare_contents (prepare_image read_media encode64 decode64) used1 cs = (cs1, used2)" by fastforce
  have st: "image_ok decode64 c1 \<and> used1 = used + embedded decode64 c1 \<and> used1 \<le> IMAGE_TOTAL_LIMIT"
    using prepare_image_step [OF c assms Cons.prems(2)] embedded_other [of c decode64] Cons.prems(2) by auto
  have "cs' = c1 # cs1" "used' = used2" using Cons.prems(1) c r by simp_all
  with Cons.IH [OF r] st show ?case by simp
qed simp

lemma prepare_messages_bound:
  assumes "base64_law encode64 decode64"
  shows "prepare_messages (prepare_image read_media encode64 decode64) used ms = (ms', used') \<Longrightarrow> used \<le> IMAGE_TOTAL_LIMIT \<Longrightarrow>
    used' = used + embedded_bytes decode64 ms' \<and> used' \<le> IMAGE_TOTAL_LIMIT
      \<and> list_all (\<lambda>m. list_all (image_ok decode64) (m_content m)) ms'"
proof (induction ms arbitrary: used ms' used')
  case (Cons m ms)
  obtain cs used1 where c: "prepare_contents (prepare_image read_media encode64 decode64) used (m_content m) = (cs, used1)" by fastforce
  obtain ms1 used2 where r: "prepare_messages (prepare_image read_media encode64 decode64) used1 ms = (ms1, used2)" by fastforce
  note st = prepare_contents_bound [OF assms c Cons.prems(2)]
  have "ms' = m\<lparr>m_content := cs\<rparr> # ms1" "used' = used2" using Cons.prems(1) c r by simp_all
  with Cons.IH [OF r] st show ?case by (simp add: embedded_bytes_def)
qed (simp add: embedded_bytes_def)

text \<open>the images of a request are bounded: after \<open>prepare_images\<close> every image is a link of bounded length or
  data that the daemon itself accepts as an image of its type, and the embedded bytes are 4 MiB at most, whatever
  the history holds and whatever the media directory answers.\<close>

theorem prepared_images_bounded:
  assumes "base64_law encode64 decode64"
  shows "list_all (\<lambda>m. list_all (image_ok decode64) (m_content m)) (prepare_images read_media encode64 decode64 ms)
    \<and> embedded_bytes decode64 (prepare_images read_media encode64 decode64 ms) \<le> 4 * 1024 * 1024"
proof -
  obtain ms' used where r: "prepare_messages (prepare_image read_media encode64 decode64) 0 ms = (ms', used)" by fastforce
  from prepare_messages_bound [OF assms r] show ?thesis
    by (simp add: prepare_images_def r IMAGE_TOTAL_LIMIT_def)
qed

text \<open>A text encoding with the laws of base64: the bytes, filled up, with the number of missing ones at the end.\<close>

definition fill :: "string \<Rightarrow> string" where
  "fill b = (if b = [] then [] else
     b @ replicate ((length b + 2) div 3 * 4 - length b - 1) CHR ''='' @ [char_of ((length b + 2) div 3 * 3 - length b)])"

definition unfill :: "string \<Rightarrow> string option" where
  "unfill v = Some (if v = [] then [] else take (length v div 4 * 3 - code (last v)) v)"

lemma fill_law: "base64_law fill unfill"
proof -
  have "unfill (fill b) = Some b \<and> length (fill b) = (length b + 2) div 3 * 4" for b
  proof (cases "b = []")
    case False
    then have "0 < length b" by simp
    then have n: "(length b + 2) div 3 * 3 - length b < 256" "length b < (length b + 2) div 3 * 4"
        "(length b + 2) div 3 * 3 - ((length b + 2) div 3 * 3 - length b) = length b"
      by presburger+
    then have "length (fill b) = (length b + 2) div 3 * 4" using False by (simp add: fill_def)
    moreover have "code (last (fill b)) = (length b + 2) div 3 * 3 - length b" using False n(1) by (simp add: fill_def)
    moreover have "take (length b) (fill b) = b" "fill b \<noteq> []" using False by (simp_all add: fill_def)
    ultimately show ?thesis using n(3) by (simp add: unfill_def)
  qed (simp add: fill_def unfill_def)
  then show ?thesis by (simp add: base64_law_def)
qed

theorem prepared_images_bounded_witness:
  "embedded_bytes unfill (prepare_images (\<lambda>uri n. Some ''GIF89a'') fill unfill
     [\<lparr>m_id = ''1'', m_session = ''s'', m_role = User, m_sender = None, m_content = [CImage ''file://a'' None]\<rparr>]) \<le> 4 * 1024 * 1024"
  using prepared_images_bounded [OF fill_law] by blast

text \<open>the request to the model always comes to be: for every history the loop that drops the oldest messages
  returns, with a request that fits into a frame or with an error when not even the whole history was small enough.
  A request holds a part of the history in its order, and always the last message of the user.\<close>

theorem model_request_returns:
  "\<exists>r. model_request to_json pr request_len call model ms specs workspace protocol = Some r
     \<and> (\<forall>req. r \<noteq> Inr req \<or> (request_len req < frame_max
          \<and> (\<exists>h. trimmed ms h \<and> req = generate to_json pr call model h specs workspace protocol)))
     \<and> (\<forall>e. r \<noteq> Inl e \<or> frame_max \<le> request_len (generate to_json pr call model ms specs workspace protocol))"
proof -
  let ?frame = "\<lambda>h. generate to_json pr call model h specs workspace protocol" and ?fits = "\<lambda>r. request_len r + 1 \<le> frame_max"
  obtain r where r: "fit_request ?frame ?fits ms = Some r"
    "\<forall>req. r = Inr req \<longrightarrow> (\<exists>h. req = ?frame h \<and> ?fits (?frame h) \<and> trimmed ms h)"
    "\<forall>e. r = Inl e \<longrightarrow> \<not> ?fits (?frame ms)"
    using fit_request_result [of ?frame ?fits ms] by blast
  show ?thesis unfolding model_request_def
    by (rule exI [of _ r]) (use r in \<open>auto simp: Suc_le_eq\<close>)
qed

end
