(* ===== verification/Answer_Laws.thy ===== *)
theory Answer_Laws
  imports Answer_Loop Tool_Safety Reply_Laws
begin

text \<open>
  A turn of the daemon as a whole: it ends, after at most nine requests to the model and sixteen to the plugins, and
  every request to a plugin is one that the turn's rights permit.
\<close>

section \<open>What a turn may send\<close>

text \<open>A request to a plugin that the rights of the turn permit: a tool call with the arguments \<open>args\<close> has sent it, and it
  carries these arguments; only a proposed schedule is completed by the host first.\<close>

definition permitted :: "('d, 'z, 'c) tool_env \<Rightarrow> tool_turn \<Rightarrow> string \<times> request \<Rightarrow> bool" where
  "permitted env t c \<longleftrightarrow>
     (\<exists>i name args args'. routed env t i name args' (mutating name args) c
        \<and> host_args t name args args' \<and> name \<noteq> ''message_send''
        \<and> (mutating name args \<longrightarrow> tt_mode t \<noteq> ModeOff \<or> name = ''schedule_propose'')
        \<and> (name = ''shell'' \<longrightarrow> tt_shell t)
        \<and> (strip_prefix ''schedule_'' name \<noteq> None \<longrightarrow> tt_schedule t))"

text \<open>The requests since \<open>base\<close>, when the turn has counted \<open>n\<close> calls.\<close>

definition calls_ok :: "('d, 'z, 'c) tool_env \<Rightarrow> tool_turn \<Rightarrow> (string \<times> request) list \<Rightarrow> nat \<Rightarrow> 'd tool_state \<Rightarrow> bool" where
  "calls_ok env t base n s \<longleftrightarrow>
     (\<exists>new. to_calls s = base @ new \<and> length new \<le> min TOOL_CALLS n \<and> (\<forall>c \<in> set new. permitted env t c))"

lemma calls_ok_start [simp]: "calls_ok env t (to_calls s) n s"
  by (simp add: calls_ok_def)

lemma calls_ok_mono: "calls_ok env t base n s \<Longrightarrow> n \<le> n' \<Longrightarrow> to_calls s' = to_calls s \<Longrightarrow> calls_ok env t base n' s'"
  by (auto simp: calls_ok_def)

lemma calls_ok_call:
  assumes "calls_ok env t base n s" and "n < TOOL_CALLS" and "n < n'"
    and "to_calls s' = to_calls s \<or> (\<exists>c. to_calls s' = to_calls s @ [c] \<and> permitted env t c)"
  shows "calls_ok env t base n' s'"
proof -
  from assms(1) obtain new where new: "to_calls s = base @ new" "length new \<le> min TOOL_CALLS n"
      "\<forall>c \<in> set new. permitted env t c"
    by (auto simp: calls_ok_def)
  from assms(4) show ?thesis
  proof
    assume "to_calls s' = to_calls s"
    with assms(1,3) show ?thesis by (auto elim: calls_ok_mono)
  next
    assume "\<exists>c. to_calls s' = to_calls s @ [c] \<and> permitted env t c"
    then obtain c where "to_calls s' = to_calls s @ [c]" "permitted env t c" by blast
    with new assms(2,3) show ?thesis unfolding calls_ok_def by (intro exI [of _ "new @ [c]"]) auto
  qed
qed

lemma effective_mode_off: "effective_mode t name = ModeAuto \<or> effective_mode t name = ModePrompt \<Longrightarrow>
  tt_mode t \<noteq> ModeOff \<or> name = ''schedule_propose''"
  by (auto simp: effective_mode_def split: if_splits)

lemma execute_tool_permitted:
  assumes "execute_tool env t i name args k s = (r, s')"
  shows "to_calls s' = to_calls s \<or> (\<exists>c. to_calls s' = to_calls s @ [c] \<and> permitted env t c)"
proof (cases "to_calls s' = to_calls s")
  case False
  with assms obtain c args' where c: "to_calls s' = to_calls s @ [c]" "routed env t i name args' (mutating name args) c"
      "host_args t name args args'" "name \<noteq> ''message_send''" "mutating name args \<longrightarrow> approved_by env t name args s s' \<and> marked_unsafe (fst (to_world s')) (tt_session t)"
      "name = ''shell'' \<longrightarrow> tt_shell t" "strip_prefix ''schedule_'' name \<noteq> None \<longrightarrow> tt_schedule t"
    by (rule execute_tool_request)
  have m: "mutating name args \<longrightarrow> tt_mode t \<noteq> ModeOff \<or> name = ''schedule_propose''"
    using c(5) effective_mode_off unfolding approved_by_def by blast
  have "permitted env t c" unfolding permitted_def
    by (rule exI [of _ i], rule exI [of _ name], rule exI [of _ args], rule exI [of _ args']) (use c m in auto)
  with c(1) show ?thesis by blast
qed simp

section \<open>Calls of the agent behind the model\<close>

lemma restart_tool_calls [simp]: "to_calls (restart_tool env p s) = to_calls s"
  by (simp add: restart_tool_def split: option.split)

lemma own_failure_calls [simp]: "to_calls (own_failure s s') = to_calls s'"
  by (simp add: own_failure_def)

lemma host_tool_step:
  assumes "host_tool env t req n s = (r, n', s')"
  shows "n \<le> n' \<and> (to_calls s' = to_calls s
    \<or> n < TOOL_CALLS \<and> n < n' \<and> (\<exists>c. to_calls s' = to_calls s @ [c] \<and> permitted env t c))"
proof (cases req)
  case (Note v m ps)
  with assms show ?thesis by (simp add: host_tool_def)
next
  case (Call v i m ps)
  note h = assms [unfolded host_tool_def Call request.case Let_def]
  show ?thesis
  proof (cases "m \<noteq> ''host/tool''")
    case True
    with h show ?thesis by simp
  next
    case False
    note h1 = h [unfolded if_not_P [OF False]]
    show ?thesis
    proof (cases "as_str (json_index ps ''name'')")
      case None
      with h1 show ?thesis by simp
    next
      case (Some name)
      note h2 = h1 [unfolded Some option.case]
      show ?thesis
      proof (cases "host_refusal t i name")
        case (Some e)
        with h2 show ?thesis by simp
      next
        case None
        note h3 = h2 [unfolded None option.case]
        obtain r1 s1 where e: "execute_tool env t i name (json_index ps ''args'') n (s\<lparr>to_failed := None\<rparr>) = (r1, s1)"
          by fastforce
        have "n' = n + 1 \<and> (to_calls s' = to_calls s \<or> n < TOOL_CALLS \<and> to_calls s' = to_calls s1)"
          using h3 [unfolded e prod.case]
          by (auto split: if_splits sum.splits tool_error.splits halt.splits)
        then show ?thesis using execute_tool_permitted [OF e] by auto
      qed
    qed
  qed
qed

definition turn_ok :: "('d, 'z, 'c) answer_env \<Rightarrow> tool_turn \<Rightarrow> (string \<times> request) list \<Rightarrow> 'd answer_state \<Rightarrow> bool" where
  "turn_ok env t base a \<longleftrightarrow> calls_ok (an_tools env) t base (aw_calls a) (aw_tools a)"

lemma turn_ok_same:
  "turn_ok env t base a \<Longrightarrow> aw_calls a \<le> aw_calls a' \<Longrightarrow> to_calls (aw_tools a') = to_calls (aw_tools a) \<Longrightarrow> turn_ok env t base a'"
  unfolding turn_ok_def by (rule calls_ok_mono)

lemma host_tool_ok:
  assumes "host_tool env t req n s = (r, n', s')" and "calls_ok env t base n s"
  shows "calls_ok env t base n' s'"
  using host_tool_step [OF assms(1)] calls_ok_call [OF assms(2)] calls_ok_mono [OF assms(2)] by blast

lemma host_requests_ok:
  "host_requests env t reqs a = (e, a') \<Longrightarrow> turn_ok env t base a \<Longrightarrow>
   turn_ok env t base a' \<and> aw_requests a' = aw_requests a"
proof (induction reqs arbitrary: a)
  case (Cons req reqs)
  obtain r n s where h: "host_tool (an_tools env) t req (aw_calls a) (aw_tools a) = (r, n, s)"
    by (cases "host_tool (an_tools env) t req (aw_calls a) (aw_tools a)")
  have c: "calls_ok (an_tools env) t base n s"
    using host_tool_ok [OF h] Cons.prems(2) unfolding turn_ok_def by blast
  have ok: "turn_ok env t base (a\<lparr>aw_tools := s, aw_calls := n, aw_failures := f\<rparr>)"
    "turn_ok env t base (a\<lparr>aw_tools := s, aw_calls := n\<rparr>)" for f
    using c by (simp_all add: turn_ok_def)
  note run = Cons.prems(1) [unfolded host_requests.simps h prod.case]
  show ?case
  proof (cases r)
    case (Inl x)
    with run ok(2) show ?thesis by auto
  next
    case (Inr x)
    show ?thesis
    proof (cases x)
      case (Inl y)
      with run \<open>r = Inr x\<close> ok(2) show ?thesis by auto
    next
      case (Inr resp)
      with run \<open>r = Inr x\<close> have "host_requests env t reqs
          (a\<lparr>aw_tools := s, aw_calls := n, aw_failures := track_scheduled_tool_response resp (aw_failures a)\<rparr>) = (e, a')"
        by simp
      from Cons.IH [OF this ok(1)] show ?thesis by simp
    qed
  qed
qed simp

section \<open>The steps of a turn\<close>

text \<open>A part of a step that asks no model: what it sends keeps \<open>turn_ok\<close>.\<close>

definition silent :: "('d, 'z, 'c) answer_env \<Rightarrow> tool_turn \<Rightarrow> 'd answer_state \<Rightarrow> 'd answer_state \<Rightarrow> bool" where
  "silent env t a a' \<longleftrightarrow> aw_requests a' = aw_requests a \<and> (\<forall>base. turn_ok env t base a \<longrightarrow> turn_ok env t base a')"

lemma silent_refl [simp]: "silent env t a a"
  by (simp add: silent_def)

lemma silent_trans: "silent env t a b \<Longrightarrow> silent env t b c \<Longrightarrow> silent env t a c"
  by (simp add: silent_def)

lemma silent_same: "aw_requests a' = aw_requests a \<Longrightarrow> aw_calls a \<le> aw_calls a' \<Longrightarrow>
    to_calls (aw_tools a') = to_calls (aw_tools a) \<Longrightarrow> silent env t a a'"
  unfolding silent_def by (blast intro: turn_ok_same)

lemma host_requests_silent: "host_requests env t reqs a = (e, a') \<Longrightarrow> silent env t a a'"
  using host_requests_ok [of env t reqs a e a'] host_requests_ok [of env t reqs a e a' "to_calls (aw_tools a)"]
  unfolding silent_def by (simp add: turn_ok_def)

lemma send_notices_calls: "send_notices env ns s = (b, s') \<Longrightarrow> to_calls s' = to_calls s"
  by (induction ns arbitrary: s) (auto split: if_splits)

lemma turn_store_silent: "turn_store act a = (r, a') \<Longrightarrow> silent env t a a'"
  by (rule silent_same) (auto simp: turn_store_def split: prod.splits sum.splits io_error.splits)

lemma keep_usage_silent: "keep_usage env t r a = (x, a') \<Longrightarrow> silent env t a a'"
  unfolding keep_usage_def by (auto split: option.splits elim: turn_store_silent)

lemma keep_message_silent:
  assumes "keep_message env t m p a = (x, a')"
  shows "silent env t a a'"
proof -
  obtain r1 a1 where 1: "turn_store (push (te_store (an_tools env) 11) (tt_session t) p) (a\<lparr>aw_messages := aw_messages a @ [m]\<rparr>) = (r1, a1)"
    by (cases "turn_store (push (te_store (an_tools env) 11) (tt_session t) p) (a\<lparr>aw_messages := aw_messages a @ [m]\<rparr>)")
  have "silent env t a (a\<lparr>aw_messages := aw_messages a @ [m]\<rparr>)" by (rule silent_same) simp_all
  then have s1: "silent env t a a1" using turn_store_silent [OF 1] silent_trans by blast
  show ?thesis
    using assms [unfolded keep_message_def 1 prod.case] s1
    by (cases r1) (auto intro: silent_trans turn_store_silent)
qed

lemma keep_reply_silent: "keep_reply env t r a = (x, a') \<Longrightarrow> silent env t a a'"
  unfolding keep_reply_def Let_def by (auto split: sum.splits list.splits elim: keep_message_silent)

lemma keep_output_silent: "keep_output env t name r a = (x, a') \<Longrightarrow> silent env t a a'"
  unfolding keep_output_def Let_def by (auto split: if_splits elim: keep_message_silent)

lemma mark_owner_calls [simp]: "to_calls (mark_owner t name s) = to_calls s"
  by (simp add: mark_owner_def)

text \<open>The call of a tool of the reply, after the check of the limit has counted it.\<close>

lemma run_reply_tool_ok:
  assumes "run_reply_tool env t name args a = (x, a')" and "calls_ok (an_tools env) t base n (aw_tools a)"
    and "n < TOOL_CALLS" and "n < aw_calls a"
  shows "turn_ok env t base a' \<and> aw_requests a' = aw_requests a"
proof -
  obtain r s where e: "execute_tool (an_tools env) t (aw_call a) name args (aw_calls a) (aw_tools a) = (r, s)"
    by fastforce
  have c: "calls_ok (an_tools env) t base (Suc (aw_calls a)) s"
    by (rule calls_ok_call [OF assms(2,3) _ execute_tool_permitted [OF e]]) (use assms(4) in simp)
  note run = assms(1) [unfolded run_reply_tool_def e prod.case]
  show ?thesis
  proof (cases r)
    case (Inl er)
    show ?thesis
    proof (cases er)
      case (Failed m)
      with run Inl c show ?thesis by (auto simp: turn_ok_def)
    next
      case (Halted h)
      with run Inl have "a' = a\<lparr>aw_tools := (if h = HaltDeadline then mark_owner t name s else s), aw_calls := aw_calls a + 1\<rparr>"
        by simp
      then show ?thesis using c by (auto simp: turn_ok_def intro: calls_ok_mono)
    qed
  next
    case (Inr y)
    let ?b = "a\<lparr>aw_tools := s, aw_calls := aw_calls a + 1, aw_call := aw_call a + 1\<rparr>"
    have k: "keep_output env t name y ?b = (x, a')" using run Inr by simp
    have "turn_ok env t base ?b" using c by (simp add: turn_ok_def)
    with keep_output_silent [OF k] show ?thesis by (simp add: silent_def)
  qed
qed

lemma reply_tool_silent:
  assumes "reply_tool env t specs name args a = (x, a')"
  shows "silent env t a a'"
proof -
  let ?a1 = "a\<lparr>aw_calls := aw_calls a + 1\<rparr>"
  obtain b s where n: "send_notices env [NTool name] (aw_tools ?a1) = (b, s)"
    by (cases "send_notices env [NTool name] (aw_tools ?a1)")
  have ks: "to_calls s = to_calls (aw_tools a)" using send_notices_calls [OF n] by simp
  consider "a' = a" | "a' = ?a1" | "a' = ?a1\<lparr>aw_tools := s\<rparr>"
    | "aw_calls a < TOOL_CALLS" "run_reply_tool env t name args (?a1\<lparr>aw_tools := s\<rparr>) = (x, a')"
    using assms [unfolded reply_tool_def Let_def n prod.case]
    by (auto split: if_splits sum.splits bool.splits)
  then show ?thesis
  proof cases
    case 4
    show ?thesis unfolding silent_def
    proof (intro conjI allI impI)
      show "turn_ok env t base a'" if "turn_ok env t base a" for base
        using run_reply_tool_ok [OF 4(2), of base "aw_calls a"] that 4(1) ks
        by (auto simp: turn_ok_def intro: calls_ok_mono)
      have "calls_ok (an_tools env) t (to_calls (aw_tools a)) (aw_calls a) s" using ks by (auto simp: calls_ok_def)
      then show "aw_requests a' = aw_requests a"
        using run_reply_tool_ok [OF 4(2), of "to_calls (aw_tools a)" "aw_calls a"] 4(1) by simp
    qed
  qed (use ks in \<open>auto intro: silent_same\<close>)
qed

lemma run_reply_silent: "run_reply env t specs es called a = (x, a') \<Longrightarrow> silent env t a a'"
proof (induction env t specs es called a rule: run_reply.induct)
  case (2 env t specs name args i sig es called a)
  obtain r a1 where 1: "reply_tool env t specs name args a = (r, a1)" by (cases "reply_tool env t specs name args a")
  note run = "2.prems" [unfolded run_reply.simps 1 prod.case]
  show ?case
  proof (cases r)
    case (Inl e)
    with run reply_tool_silent [OF 1] show ?thesis by simp
  next
    case (Inr u)
    with run have "run_reply env t specs es True a1 = (x, a')" by simp
    from "2.IH" [OF 1 [symmetric] Inr this] reply_tool_silent [OF 1] show ?thesis using silent_trans by blast
  qed
qed auto

lemma use_reply_silent:
  assumes "use_reply env t specs step r a = (x, a')"
  shows "silent env t a a'"
proof -
  obtain r1 a1 where 1: "keep_usage env t r a = (r1, a1)" by (cases "keep_usage env t r a")
  let ?a2 = "a1\<lparr>aw_tokens := count_tokens r (aw_tokens a1)\<rparr>"
  obtain r3 a3 where 3: "keep_reply env t r ?a2 = (r3, a3)" by (cases "keep_reply env t r ?a2")
  obtain r4 a4 where 4: "run_reply env t specs (rp_events r) False a3 = (r4, a4)"
    by (cases "run_reply env t specs (rp_events r) False a3")
  have s2: "silent env t a ?a2"
    using keep_usage_silent [OF 1] by (rule silent_trans) (simp add: silent_same)
  have s3: "silent env t a a3" using s2 keep_reply_silent [OF 3] by (rule silent_trans)
  have s4: "silent env t a a4" using s3 run_reply_silent [OF 4] by (rule silent_trans)
  have "a' \<in> {a1, ?a2, a3, a4}"
    using assms [unfolded use_reply_def 1 prod.case Let_def 3 4] by (auto split: sum.splits if_splits)
  then show ?thesis using keep_usage_silent [OF 1] s2 s3 s4 by auto
qed

lemma ask_model_ok:
  assumes "ask_model env t step req a = (x, a')" and "turn_ok env t base a"
  shows "turn_ok env t base a' \<and> aw_requests a' = aw_requests a @ [req]"
proof -
  let ?a0 = "a\<lparr>aw_requests := aw_requests a @ [req]\<rparr>"
  obtain e a1 where 1: "host_requests env t (an_host env step) ?a0 = (e, a1)"
    by (cases "host_requests env t (an_host env step) ?a0")
  have "turn_ok env t base ?a0" using assms(2) by (simp add: turn_ok_def)
  from host_requests_ok [OF 1 this] have o: "turn_ok env t base a1" "aw_requests a1 = aw_requests a @ [req]" by simp_all
  obtain b s where n: "send_notices env (forwarded env step) (aw_tools a1) = (b, s)"
    by (cases "send_notices env (forwarded env step) (aw_tools a1)")
  have "to_calls (aw_tools a') = to_calls (aw_tools a1) \<and> aw_calls a' = aw_calls a1 \<and> aw_requests a' = aw_requests a1"
    using assms(1) [unfolded ask_model_def 1 prod.case n Let_def] send_notices_calls [OF n]
    by (auto split: option.splits bool.splits model_outcome.splits)
  with o show ?thesis by (auto intro: turn_ok_same)
qed

lemma answer_step_ok:
  assumes "turn_ok env t base a"
  shows "\<exists>x a'. answer_step env t specs step a = Some (x, a') \<and> turn_ok env t base a'
    \<and> length (aw_requests a') \<le> length (aw_requests a) + 1"
proof -
  obtain r where r: "model_request (an_request_json env) (an_print env) (an_request_len env) (aw_call a) (tt_model t) (aw_messages a)
      specs (tt_workspace t) (h_protocol (an_provider env)) = Some r"
    using fit_request_result unfolding model_request_def by blast
  show ?thesis
  proof (cases r)
    case (Inl e)
    with r assms show ?thesis by (simp add: answer_step_def)
  next
    case (Inr req)
    obtain x a1 where 1: "ask_model env t step req a = (x, a1)" by (cases "ask_model env t step req a")
    note o = ask_model_ok [OF 1 assms]
    obtain p where p: "answer_step env t specs step a = Some p"
      by (simp add: answer_step_def r Inr)
    obtain y a' where y: "answer_step env t specs step a = Some (y, a')"
      using p by (cases p) simp
    have "silent env t a1 a'"
      using y [unfolded answer_step_def r option.case Inr sum.case 1 prod.case]
      by (auto split: sum.splits if_splits elim: use_reply_silent)
    with o y show ?thesis by (auto simp: silent_def)
  qed
qed

lemma answer_steps_ok:
  "turn_ok env t base a \<Longrightarrow> \<exists>x a'. answer_steps env t specs steps a = Some (x, a') \<and> turn_ok env t base a'
    \<and> length (aw_requests a') \<le> length (aw_requests a) + length steps"
proof (induction steps arbitrary: a)
  case (Cons step steps)
  obtain x a1 where 1: "answer_step env t specs step a = Some (x, a1)" "turn_ok env t base a1"
      "length (aw_requests a1) \<le> length (aw_requests a) + 1"
    using answer_step_ok [OF Cons.prems] by blast
  show ?case
  proof (cases x)
    case (Inl e)
    with 1 show ?thesis by simp
  next
    case (Inr y)
    with 1 Cons.IH [OF 1(2)] show ?thesis by (cases y) auto
  qed
qed simp

lemma answer_turn_ok:
  "\<exists>x a. answer_turn env t messages call failures s = Some (x, a) \<and> length (aw_requests a) \<le> 9
    \<and> (\<exists>new. to_calls (aw_tools a) = to_calls s @ new \<and> length new \<le> 16
         \<and> (case turn_registry env t of Inl e \<Rightarrow> new = []
            | Inr reg \<Rightarrow> \<forall>c \<in> set new. permitted (an_tools env) (t\<lparr>tt_registry := reg,
                tt_turn := tt_session t @ '':'' @ show_nat (unat call), tt_provider := h_id (an_provider env)\<rparr>) c))"
proof -
  let ?a = "start_answer env messages call failures s"
  have none: "to_calls (aw_tools ?a) = to_calls s" "aw_requests ?a = []" "aw_calls ?a = 0" "aw_tools ?a = s"
    by (simp_all add: start_answer_def)
  show ?thesis
  proof (cases "list_ex (\<lambda>m. list_ex is_image (m_content m)) messages \<and> \<not> an_vision env")
    case True
    then show ?thesis by (simp add: answer_turn_def Let_def none split: sum.split)
  next
    case False
    show ?thesis
    proof (cases "turn_registry env t")
      case (Inl e)
      with False show ?thesis by (auto simp: answer_turn_def Let_def none)
    next
      case (Inr reg)
      let ?t = "t\<lparr>tt_registry := reg, tt_turn := tt_session t @ '':'' @ show_nat (unat call), tt_provider := h_id (an_provider env)\<rparr>"
      have "turn_ok env ?t (to_calls s) ?a" by (simp add: turn_ok_def none)
      from answer_steps_ok [OF this] obtain x a where a: "answer_steps env ?t (turn_specs env t reg) [0..<TOOL_STEPS + 1] ?a = Some (x, a)"
          "turn_ok env ?t (to_calls s) a" "length (aw_requests a) \<le> length (aw_requests ?a) + length [0..<TOOL_STEPS + 1]"
        by blast
      have "answer_turn env t messages call failures s = Some (x, a)"
        unfolding answer_turn_def Let_def if_not_P [OF False] Inr sum.case by (rule a(1))
      moreover have "length (aw_requests a) \<le> 9" using a(3) by (simp add: none TOOL_STEPS_def)
      moreover have "\<exists>new. to_calls (aw_tools a) = to_calls s @ new \<and> length new \<le> 16 \<and> (\<forall>c \<in> set new. permitted (an_tools env) ?t c)"
        using a(2) unfolding turn_ok_def calls_ok_def TOOL_CALLS_def by auto
      ultimately show ?thesis unfolding Inr sum.case by blast
    qed
  qed
qed

text \<open>C9: A turn always ends, whatever the model, the agent behind it and the plugins answer and however large the
  conversation is: the code returns, with at most nine requests to the model and at most sixteen requests to plugins,
  those of the reply and those of the agent counted together.\<close>

theorem answer_turn_ends:
  "\<exists>x a. answer_turn env t messages call failures s = Some (x, a) \<and> length (aw_requests a) \<le> 9
    \<and> (\<exists>new. to_calls (aw_tools a) = to_calls s @ new \<and> length new \<le> 16)"
  using answer_turn_ok [of env t messages call failures s] by blast



text \<open>In particular, a call of Git at the tools plugin that changes something is not permitted in the mode that blocks changes.\<close>

lemma git_blocked_when_off:
  assumes "tt_mode t = ModeOff" and "\<not> memory_is env ''tools''" and "\<not> scheduler_is env ''tools''"
    and "mutating ''git'' (JObj values)"
  shows "\<not> permitted env t (''tools'', request_call i ''git'' (tool_params t ''tools'' approve values))"
proof
  assume "permitted env t (''tools'', request_call i ''git'' (tool_params t ''tools'' approve values))"
  then obtain j name args args' where
    r: "routed env t j name args' (mutating name args) (''tools'', request_call i ''git'' (tool_params t ''tools'' approve values))"
    and a: "host_args t name args args'" "mutating name args \<longrightarrow> tt_mode t \<noteq> ModeOff \<or> name = ''schedule_propose''"
    unfolding permitted_def by (elim exE conjE) (rule that)
  have n: "''git'' \<noteq> ''schedule_propose''" "''git'' \<notin> set mutating_names" "''git'' \<notin> set reading_names" by code_simp+
  from r show False
  proof cases
    case (registered vs)
    then have e: "name = ''git''" "tool_params t ''tools'' (mutating name args) vs = tool_params t ''tools'' approve values"
      by (simp_all add: request_call_def)
    have k: "json_index (tool_params t ''tools'' b m) ''args'' = json_index (JObj m) ''args''" for b m
      by (simp add: tool_params_def insert_some_def bget_insert split: option.split)
    have "args = JObj vs" using a(1) registered(1) e(1) n(1) by (simp add: host_args_def)
    then have "\<not> git_reads (JObj vs) \<longrightarrow> False" using a(2) assms(1) e(1) n by (auto simp: mutating_def)
    moreover have "\<not> git_reads (JObj values)" using assms(4) n by (simp add: mutating_def)
    moreover have "json_index (JObj vs) ''args'' = json_index (JObj values) ''args''" using k e(2) by metis
    ultimately show False by (simp add: git_reads_def)
  qed (use assms(2,3) in simp_all)
qed

section \<open>A concrete turn\<close>









end
