(* ===== verification/Memory.thy ===== *)
theory Memory
  imports Catalog Cron Schedule_Text Approval Jsonl
begin

text \<open>
  The memory plugin (\<open>krabb-plugins/memory/src/main.rs\<close>): its state, the requests of the daemon, and the files behind
  them, an index and one record per memory. Its command line is in Memory_Command.

  The state is kept behind a lock; a request is a function from it and the disk. Outside the model, as functions of the
  environment: the clock, SHA-256, the serialiser, \<open>to_lowercase\<close>, \<open>is_alphanumeric\<close> and the files.
\<close>

section \<open>State\<close>

definition MEMORY_LIMIT :: nat where "MEMORY_LIMIT = 1000"
definition VALUE_LIMIT :: nat where "VALUE_LIMIT = 256 * 1024"
definition MEMORY_BYTE_LIMIT :: nat where "MEMORY_BYTE_LIMIT = 32 * 1024 * 1024"
definition FRAME_HEADROOM :: nat where "FRAME_HEADROOM = 64 * 1024"
definition INDEX_LIMIT :: nat where "INDEX_LIMIT = 32"
definition GLOBAL_INDEX_RESERVE :: nat where "GLOBAL_INDEX_RESERVE = INDEX_LIMIT div 2"
definition CONFLICT_LIMIT :: nat where "CONFLICT_LIMIT = 32"
definition LIST_PAGE_SIZE :: nat where "LIST_PAGE_SIZE = 5"

record entry =
  en_key :: string
  en_value :: string
  en_scope :: string
  en_created :: u64
  en_updated :: u64
  en_record :: string

record audit =
  au_action :: string
  au_key :: string
  au_scope :: string
  au_at :: u64

record memory =
  mm_items :: "(string, entry) bmap"
  mm_audit :: "audit list"
  mm_learning :: string

definition guided :: string where "guided = ''guided''"

definition default_memory :: memory where
  "default_memory = \<lparr>mm_items = [], mm_audit = [], mm_learning = guided\<rparr>"

text \<open>\<open>mv_root\<close> makes the directory of the index private when it is missing, \<open>mv_dir\<close> a directory of records. The
  parsers give \<open>None\<close> for text that is not of their type.\<close>

record 'd memory_env =
  mv_path :: "string list option"
  mv_now :: u64
  mv_nonce :: nat
  mv_files :: "'d files"
  mv_root :: "string list \<Rightarrow> 'd \<Rightarrow> (io_error + unit) \<times> 'd"
  mv_dir :: "string list \<Rightarrow> 'd \<Rightarrow> (io_error + unit) \<times> 'd"
  mv_is_file :: "string list \<Rightarrow> 'd \<Rightarrow> bool"
  mv_rename :: "string list \<Rightarrow> string list \<Rightarrow> 'd \<Rightarrow> 'd"
  mv_sha :: "string \<Rightarrow> string"
  mv_utf8 :: "string \<Rightarrow> string option"
  mv_parse :: "string \<Rightarrow> memory option"
  mv_parse_map :: "string \<Rightarrow> (string, string) bmap option"
  mv_pretty :: "memory \<Rightarrow> string"
  mv_response_len :: "response \<Rightarrow> nat"
  mv_print :: "json \<Rightarrow> string"
  mv_lower :: "string \<Rightarrow> string"
  mv_alphanumeric :: "string \<Rightarrow> bool"

type_synonym 'd memory_world = "memory \<times> 'd"

text \<open>Where a memory is kept: scope and key with a zero byte between them.\<close>

definition storage :: "string \<Rightarrow> string \<Rightarrow> string" where
  "storage scope key = scope @ [CHR 0x00] @ key"

definition record_ref :: "'d memory_env \<Rightarrow> string \<Rightarrow> string \<Rightarrow> string" where
  "record_ref env scope key =
     ''records/'' @ hex_digest (mv_sha env scope) @ ''/'' @ hex_digest (mv_sha env key) @ ''.md''"

definition record_of :: "'d memory_env \<Rightarrow> entry \<Rightarrow> string" where
  "record_of env e = (if en_record e = [] then record_ref env (en_scope e) (en_key e) else en_record e)"

section \<open>Files\<close>

text \<open>\<open>Path::join\<close> of a directory and the text of a path.\<close>

definition join_path :: "string list \<Rightarrow> string \<Rightarrow> string list" where
  "join_path parent rel =
     (let parts = filter (\<lambda>c. c \<noteq> [] \<and> c \<noteq> ''.'') (split_on CHR ''/'' rel)
      in if strip_prefix ''/'' rel \<noteq> None then parts else parent @ parts)"

definition record_contents :: "entry \<Rightarrow> string" where
  "record_contents e =
     ''# '' @ map (\<lambda>c. if c = CHR 0x0A \<or> c = CHR 0x0D then CHR '' '' else c) (en_key e)
       @ [CHR 0x0A, CHR 0x0A] @ en_value e @ [CHR 0x0A]"

definition io_step :: "(io_error + 'a) \<times> 'd \<Rightarrow> (core_error + 'a) \<times> 'd" where
  "io_step r = (case r of (Inl e, d) \<Rightarrow> (Inl (Io e), d) | (Inr x, d) \<Rightarrow> (Inr x, d))"

fun save_records :: "'d memory_env \<Rightarrow> string list \<Rightarrow> entry list \<Rightarrow> 'd \<Rightarrow> (core_error + unit) \<times> 'd" where
  "save_records env parent [] d = (Inr (), d)"
| "save_records env parent (e # es) d =
     (let path = join_path parent (record_of env e) in
      if path = [] then (Inl (Denied ''Memory record path is invalid.''), d)
      else
        (case io_step (mv_dir env (butlast path) d) of
           (Inl er, d1) \<Rightarrow> (Inl er, d1)
         | (Inr u, d1) \<Rightarrow>
             (case io_step (f_save (mv_files env) path (record_contents e) d1) of
                (Inl er, d2) \<Rightarrow> (Inl er, d2)
              | (Inr u, d2) \<Rightarrow> save_records env parent es d2)))"

definition with_records :: "'d memory_env \<Rightarrow> memory \<Rightarrow> memory" where
  "with_records env m = m\<lparr>mm_items := bmap_values (\<lambda>e. e\<lparr>en_record := record_of env e\<rparr>) (mm_items m)\<rparr>"

definition persist_at :: "'d memory_env \<Rightarrow> memory \<Rightarrow> 'd \<Rightarrow> (core_error + unit) \<times> 'd" where
  "persist_at env m d =
     (case mv_path env of
        None \<Rightarrow> (Inr (), d)
      | Some path \<Rightarrow>
          (let text = mv_pretty env (with_records env m) in
           if MEMORY_BYTE_LIMIT < length text then (Inl (Denied ''Memory state exceeds the size limit.''), d)
           else
             (case io_step (mv_root env (butlast path) d) of
                (Inl e, d1) \<Rightarrow> (Inl e, d1)
              | (Inr u, d1) \<Rightarrow>
                  (case save_records env (butlast path) (bvalues (mm_items m)) d1 of
                     (Inl e, d2) \<Rightarrow> (Inl e, d2)
                   | (Inr u, d2) \<Rightarrow> io_step (f_save (mv_files env) path text d2)))))"

definition remove_orphan_records :: "'d memory_env \<Rightarrow> memory \<Rightarrow> memory \<Rightarrow> 'd \<Rightarrow> 'd" where
  "remove_orphan_records env m0 m1 d =
     (case mv_path env of
        None \<Rightarrow> d
      | Some path \<Rightarrow>
          (let kept = map (record_of env) (bvalues (mm_items m1)) in
           fold (\<lambda>e d. if record_of env e \<in> set kept then d
                       else snd (f_remove (mv_files env) (join_path (butlast path) (record_of env e)) d))
             (bvalues (mm_items m0)) d))"

text \<open>The end of a request that changes the state: it is saved, or the state before it is restored.\<close>

definition keep_memory :: "'d memory_env \<Rightarrow> memory \<Rightarrow> memory \<Rightarrow> json \<Rightarrow> 'd \<Rightarrow> (core_error + json) \<times> 'd memory_world" where
  "keep_memory env m0 m1 v d =
     (case persist_at env m1 d of
        (Inl e, d1) \<Rightarrow> (Inl e, m0, d1)
      | (Inr u, d1) \<Rightarrow> (Inr v, m1, remove_orphan_records env m0 m1 d1))"

section \<open>Remembering and forgetting\<close>

definition deny :: "string \<Rightarrow> 'd memory_world \<Rightarrow> (core_error + json) \<times> 'd memory_world" where
  "deny t w = (Inl (Denied t), w)"

definition has_nul :: "string \<Rightarrow> bool" where
  "has_nul s \<longleftrightarrow> CHR 0x00 \<in> set s"

definition learning_mode :: "memory \<Rightarrow> json \<Rightarrow> string" where
  "learning_mode m params =
     (let mode = text_or (mm_learning m) (json_index params ''mode'') in
      if mode = ''suggest'' then ''guided'' else if mode = ''auto'' then ''autonomous'' else mode)"

definition remember_refusal :: "string \<Rightarrow> string \<Rightarrow> string \<Rightarrow> string \<Rightarrow> json \<Rightarrow> string option" where
  "remember_refusal key value mode scope params =
     (if blank key then Some ''remember.key cannot be empty.''
      else if has_nul key then Some ''remember.key cannot contain NUL.''
      else if VALUE_LIMIT < length key \<or> VALUE_LIMIT < length value
        then Some ''Memory keys and values must be smaller than 256 KiB.''
      else if mode = ''off'' then Some ''Memory is disabled.''
      else if mode \<notin> {''guided'', ''autonomous''} then Some ''Memory mode is invalid.''
      else if mode = ''guided'' \<and> json_index params ''approved'' \<noteq> JBool True then Some ''Memory approval is required.''
      else if blank scope then Some ''remember.scope cannot be empty.''
      else if has_nul scope then Some ''remember.scope cannot contain NUL.''
      else None)"

definition latest :: "(string, entry) bmap \<Rightarrow> u64" where
  "latest items = fold max (map en_updated (bvalues items)) 0"

definition next_timestamp :: "'d memory_env \<Rightarrow> memory \<Rightarrow> u64" where
  "next_timestamp env m = max (mv_now env) (sat_add (latest (mm_items m)) 1)"

text \<open>The entries beyond the limit go, those that were updated first; \<open>sort_by_key\<close> is stable.\<close>

definition evict :: "(string, entry) bmap \<Rightarrow> (string, entry) bmap" where
  "evict items =
     (if length items \<le> MEMORY_LIMIT then items
      else fold bremove (map fst (take (length items - MEMORY_LIMIT) (sort_key (\<lambda>x. en_updated (snd x)) items))) items)"

definition new_entry :: "'d memory_env \<Rightarrow> memory \<Rightarrow> string \<Rightarrow> string \<Rightarrow> string \<Rightarrow> entry" where
  "new_entry env m scope key value =
     (let t = next_timestamp env m in
      \<lparr>en_key = key, en_value = value, en_scope = scope,
       en_created = (case bget (mm_items m) (storage scope key) of None \<Rightarrow> t | Some e \<Rightarrow> en_created e),
       en_updated = t, en_record = record_ref env scope key\<rparr>)"

definition audited :: "audit \<Rightarrow> audit list \<Rightarrow> audit list" where
  "audited a as = keep_last MEMORY_LIMIT (as @ [a])"

definition remembered :: "'d memory_env \<Rightarrow> memory \<Rightarrow> string \<Rightarrow> string \<Rightarrow> string \<Rightarrow> memory" where
  "remembered env m scope key value =
     m\<lparr>mm_items := evict (binsert (storage scope key) (new_entry env m scope key value) (mm_items m)),
       mm_audit := audited \<lparr>au_action = ''remember'', au_key = key, au_scope = scope, au_at = next_timestamp env m\<rparr> (mm_audit m)\<rparr>"

definition remember :: "'d memory_env \<Rightarrow> json \<Rightarrow> 'd memory_world \<Rightarrow> (core_error + json) \<times> 'd memory_world" where
  "remember env params w =
     (case as_str (json_index params ''key'') of
        None \<Rightarrow> deny ''remember.key is required.'' w
      | Some key \<Rightarrow>
     (case as_str (json_index params ''value'') of
        None \<Rightarrow> deny ''remember.value is required.'' w
      | Some value \<Rightarrow>
     (let mode = learning_mode (fst w) params; scope = text_or ''global'' (json_index params ''scope'') in
      case remember_refusal key value mode scope params of
        Some e \<Rightarrow> deny e w
      | None \<Rightarrow>
          keep_memory env (fst w) (remembered env (fst w) scope key value)
            (jobject [(''ok'', JBool True), (''scope'', JStr scope), (''mode'', JStr mode)]) (snd w))))"

definition forgotten :: "'d memory_env \<Rightarrow> memory \<Rightarrow> string \<Rightarrow> string \<Rightarrow> memory" where
  "forgotten env m scope key =
     (case bget (mm_items m) (storage scope key) of
        None \<Rightarrow> m
      | Some e \<Rightarrow>
          m\<lparr>mm_items := bremove (storage scope key) (mm_items m),
            mm_audit := audited \<lparr>au_action = ''forget'', au_key = key, au_scope = en_scope e, au_at = mv_now env\<rparr> (mm_audit m)\<rparr>)"

definition forget :: "'d memory_env \<Rightarrow> json \<Rightarrow> 'd memory_world \<Rightarrow> (core_error + json) \<times> 'd memory_world" where
  "forget env params w =
     (case as_str (json_index params ''key'') of
        None \<Rightarrow> deny ''forget.key is required.'' w
      | Some key \<Rightarrow>
     (let scope = text_or ''global'' (json_index params ''scope'') in
      if has_nul key then deny ''forget.key cannot contain NUL.'' w
      else if has_nul scope then deny ''forget.scope cannot contain NUL.'' w
      else keep_memory env (fst w) (forgotten env (fst w) scope key)
             (jobject [(''deleted'', JBool (bget (mm_items (fst w)) (storage scope key) \<noteq> None))]) (snd w)))"

definition set_learning :: "'d memory_env \<Rightarrow> json \<Rightarrow> 'd memory_world \<Rightarrow> (core_error + json) \<times> 'd memory_world" where
  "set_learning env params w =
     (case as_str (json_index params ''mode'') of
        None \<Rightarrow> deny ''learning.mode is required.'' w
      | Some mode \<Rightarrow>
          if mode \<notin> {''guided'', ''autonomous''} then deny ''Learning mode must be guided or autonomous.'' w
          else
            (let m1 = (fst w)\<lparr>mm_learning := mode\<rparr> in
             case persist_at env m1 (snd w) of
               (Inl e, d) \<Rightarrow> (Inl e, fst w, d)
             | (Inr u, d) \<Rightarrow> (Inr (jobject [(''learning'', JStr mode)]), m1, d)))"

section \<open>Reading\<close>

text \<open>A text in one line of at most 240 bytes and an ellipsis.\<close>

definition summary :: "string \<Rightarrow> string" where
  "summary v =
     (let s = join '' '' (split_whitespace v)
      in if 240 < length s then take (floor_boundary s 240) s @ ellipsis else s)"

definition entries_of :: "memory \<Rightarrow> entry list" where
  "entries_of m = bvalues (mm_items m)"

text \<open>\<open>sort_by_key\<close> with the time of the last update reversed: the newest first, else the order of the keys.\<close>

definition newest_first :: "entry list \<Rightarrow> entry list" where
  "newest_first es = sort_key (\<lambda>e. - uint (en_updated e)) es"

definition in_scope :: "string \<Rightarrow> entry \<Rightarrow> bool" where
  "in_scope scope e \<longleftrightarrow> en_scope e = scope"

definition indexed :: "memory \<Rightarrow> string option \<Rightarrow> entry list" where
  "indexed m scope =
     (case scope of
        None \<Rightarrow> take INDEX_LIMIT (newest_first (entries_of m))
      | Some sc \<Rightarrow>
          if sc = ''global'' then take INDEX_LIMIT (newest_first (filter (in_scope ''global'') (entries_of m)))
          else
            (let scoped = newest_first (filter (in_scope sc) (entries_of m));
                 global = newest_first (filter (in_scope ''global'') (entries_of m));
                 reserved = min (length global) GLOBAL_INDEX_RESERVE;
                 first = take reserved global @ take (INDEX_LIMIT - reserved) scoped
             in first @ take (INDEX_LIMIT - length first) (drop reserved global)))"

definition index_item :: "entry \<Rightarrow> json" where
  "index_item e = jobject [(''key'', JStr (summary (en_key e))), (''summary'', JStr (summary (en_value e))),
     (''scope'', JStr (en_scope e)), (''updated'', jword (en_updated e)), (''record'', JStr (en_record e))]"

definition index_memories :: "memory \<Rightarrow> json \<Rightarrow> json" where
  "index_memories m params =
     jobject [(''learning'', JStr (mm_learning m)),
       (''items'', JArr (map index_item (newest_first (indexed m (as_str (json_index params ''scope''))))))]"

definition scope_matches :: "string option \<Rightarrow> entry \<Rightarrow> bool" where
  "scope_matches scope e \<longleftrightarrow>
     (case scope of None \<Rightarrow> True | Some v \<Rightarrow> v = en_scope e \<or> v \<noteq> ''global'' \<and> en_scope e = ''global'')"

definition text_matches :: "'d memory_env \<Rightarrow> string \<Rightarrow> entry \<Rightarrow> bool" where
  "text_matches env query e \<longleftrightarrow>
     contains_text (mv_lower env (en_key e)) query \<or> contains_text (mv_lower env (en_value e)) query"

definition found :: "'d memory_env \<Rightarrow> memory \<Rightarrow> string \<Rightarrow> string option \<Rightarrow> entry list" where
  "found env m query scope =
     take 20 (newest_first (filter (text_matches env (mv_lower env query)) (filter (scope_matches scope) (entries_of m))))"

definition search_item :: "entry \<Rightarrow> json" where
  "search_item e = jobject [(''key'', JStr (summary (en_key e))), (''value'', JStr (summary (en_value e))),
     (''scope'', JStr (en_scope e))]"

definition search_memories :: "'d memory_env \<Rightarrow> memory \<Rightarrow> json \<Rightarrow> core_error + json" where
  "search_memories env m params =
     (case as_str (json_index params ''query'') of
        None \<Rightarrow> Inl (Denied ''search.query is required.'')
      | Some query \<Rightarrow>
          if blank query then Inl (Denied ''search.query is required.'')
          else Inr (jobject [(''items'',
                 JArr (map search_item (found env m query (as_str (json_index params ''scope'')))))]))"

definition recalled :: "memory \<Rightarrow> string \<Rightarrow> string \<Rightarrow> entry option" where
  "recalled m scope key = bget (mm_items m) (storage scope key)"

definition recall_item :: "entry \<Rightarrow> json" where
  "recall_item e = jobject [(''key'', JStr (en_key e)), (''value'', JStr (en_value e)), (''scope'', JStr (en_scope e))]"

definition recall :: "memory \<Rightarrow> json \<Rightarrow> core_error + json" where
  "recall m params =
     (case as_str (json_index params ''key'') of
        None \<Rightarrow> Inl (Denied ''recall.key is required.'')
      | Some key \<Rightarrow>
          Inr (jobject [(''item'', jopt recall_item (recalled m (text_or ''global'' (json_index params ''scope'')) key))]))"

definition audit_item :: "audit \<Rightarrow> json" where
  "audit_item a = jobject [(''action'', JStr (au_action a)), (''key'', JStr (au_key a)), (''scope'', JStr (au_scope a)),
     (''at'', jword (au_at a))]"

definition audit_memories :: "memory \<Rightarrow> json \<Rightarrow> json" where
  "audit_memories m params =
     jobject [(''items'', JArr (map audit_item
       (filter (\<lambda>a. case as_str (json_index params ''key'') of None \<Rightarrow> True | Some k \<Rightarrow> k = au_key a) (mm_audit m))))]"

section \<open>Lists by pages\<close>

text \<open>\<open>params.get(name)\<close> that is not \<open>null\<close>.\<close>

definition given :: "json \<Rightarrow> string \<Rightarrow> json option" where
  "given params k = (case json_get params k of None \<Rightarrow> None | Some v \<Rightarrow> if v = JNull then None else Some v)"

definition type_error :: string where "type_error = ''Memory type must be global or session.''"

definition list_type :: "json \<Rightarrow> string + string option" where
  "list_type params =
     (case given params ''type'' of
        None \<Rightarrow> Inr None
      | Some v \<Rightarrow>
          (case as_str v of
             None \<Rightarrow> Inl type_error
           | Some t \<Rightarrow> if t \<in> {''global'', ''session''} then Inr (Some t) else Inl type_error))"

definition list_scope :: "json \<Rightarrow> string + string option" where
  "list_scope params =
     (case given params ''scope'' of
        None \<Rightarrow> Inr None
      | Some v \<Rightarrow> (case as_str v of None \<Rightarrow> Inl ''Memory scope must be text.'' | Some s \<Rightarrow> Inr (Some s)))"

definition list_scopes :: "json \<Rightarrow> string + json list option" where
  "list_scopes params =
     (case given params ''scopes'' of
        None \<Rightarrow> Inr None
      | Some v \<Rightarrow> (case as_array v of None \<Rightarrow> Inl ''Memory scopes must be a list of text values.'' | Some ss \<Rightarrow> Inr (Some ss)))"

definition scopes_refused :: "json list option \<Rightarrow> bool" where
  "scopes_refused scopes \<longleftrightarrow>
     (case scopes of None \<Rightarrow> False | Some ss \<Rightarrow> ss = [] \<or> 8 < length ss \<or> list_ex (\<lambda>s. as_str s = None) ss)"

definition list_page :: "json \<Rightarrow> string + nat" where
  "list_page params =
     (case given params ''page'' of
        None \<Rightarrow> Inr 1
      | Some v \<Rightarrow>
          (case as_u64 v of
             None \<Rightarrow> Inl ''Memory page must be a positive number.''
           | Some n \<Rightarrow> if 0 < n then Inr n else Inl ''Memory page must be a positive number.''))"

definition named_scope :: "entry \<Rightarrow> json \<Rightarrow> bool" where
  "named_scope e s \<longleftrightarrow> as_str s = Some (en_scope e)"

definition listed :: "string option \<Rightarrow> json list option \<Rightarrow> string option \<Rightarrow> entry \<Rightarrow> bool" where
  "listed scope scopes kind e \<longleftrightarrow>
     (case scope of None \<Rightarrow> True | Some s \<Rightarrow> en_scope e = s)
     \<and> (case scopes of None \<Rightarrow> True | Some ss \<Rightarrow> list_ex (named_scope e) ss)
     \<and> (case kind of None \<Rightarrow> True | Some t \<Rightarrow> if t = ''global'' then en_scope e = ''global'' else en_scope e \<noteq> ''global'')"

text \<open>Of the memories of several sessions only the first of a key is shown.\<close>

fun first_of_key :: "string list \<Rightarrow> entry list \<Rightarrow> entry list" where
  "first_of_key seen [] = []"
| "first_of_key seen (e # es) =
     (if en_scope e = ''global'' then e # first_of_key seen es
      else if en_key e \<in> set seen then first_of_key seen es
      else e # first_of_key (en_key e # seen) es)"

definition by_scopes :: "json list option \<Rightarrow> entry list \<Rightarrow> entry list" where
  "by_scopes scopes es =
     (case scopes of
        None \<Rightarrow> es
      | Some ss \<Rightarrow> first_of_key []
          (sort_key (\<lambda>e. case position (named_scope e) ss of Some i \<Rightarrow> i | None \<Rightarrow> length ss) es))"

text \<open>The newest first, then by key: two stable sorts.\<close>

definition listed_memories :: "memory \<Rightarrow> string option \<Rightarrow> json list option \<Rightarrow> string option \<Rightarrow> entry list" where
  "listed_memories m scope scopes kind =
     newest_first (sort_key en_key (by_scopes scopes (filter (listed scope scopes kind) (entries_of m))))"

definition list_item :: "entry \<Rightarrow> json" where
  "list_item e = jobject [(''key'', JStr (en_key e)), (''value'', JStr (summary (en_value e))), (''scope'', JStr (en_scope e)),
     (''type'', JStr (if en_scope e = ''global'' then ''global'' else ''session'')),
     (''created'', jword (en_created e)), (''updated'', jword (en_updated e))]"

definition page_count :: "nat \<Rightarrow> nat" where
  "page_count n = max ((n + LIST_PAGE_SIZE - 1) div LIST_PAGE_SIZE) 1"

definition page_items :: "nat \<Rightarrow> 'a list \<Rightarrow> 'a list" where
  "page_items page xs =
     (let start = (page - 1) * LIST_PAGE_SIZE; stop = min (start + LIST_PAGE_SIZE) (length xs)
      in take (stop - start) (drop start xs))"

definition list_memories :: "memory \<Rightarrow> json \<Rightarrow> core_error + json" where
  "list_memories m params =
     (case list_type params of
        Inl e \<Rightarrow> Inl (Denied e)
      | Inr kind \<Rightarrow>
     (case list_scope params of
        Inl e \<Rightarrow> Inl (Denied e)
      | Inr scope \<Rightarrow>
     (case list_scopes params of
        Inl e \<Rightarrow> Inl (Denied e)
      | Inr scopes \<Rightarrow>
          if scope \<noteq> None \<and> scopes \<noteq> None
          then Inl (Denied ''Use scope or scopes when listing memories, not both.'')
          else if scopes_refused scopes
          then Inl (Denied ''Memory scopes must contain between one and eight text values.'')
          else
            (case list_page params of
               Inl e \<Rightarrow> Inl (Denied e)
             | Inr page \<Rightarrow>
                 (let es = listed_memories m scope scopes kind; pages = page_count (length es) in
                  if pages < page
                  then Inl (Denied (''Page '' @ show_nat page @ '' is out of range. Choose a page from 1 to ''
                              @ show_nat pages @ '' for memories.''))
                  else Inr (jobject [(''items'', JArr (map list_item (page_items page es))),
                              (''total'', jnat (length es)), (''page'', jnat page), (''pages'', jnat pages)]))))))"

section \<open>Requests\<close>

text \<open>\<open>None\<close> is a method that the plugin does not have.\<close>

definition memory_method :: "'d memory_env \<Rightarrow> string \<Rightarrow> json \<Rightarrow> 'd memory_world \<Rightarrow>
    ((core_error + json) \<times> 'd memory_world) option" where
  "memory_method env name params w =
     (if name = ''remember'' then Some (remember env params w)
      else if name = ''list'' then Some (list_memories (fst w) params, w)
      else if name = ''index'' then Some (Inr (index_memories (fst w) params), w)
      else if name = ''search'' then Some (search_memories env (fst w) params, w)
      else if name = ''recall'' then Some (recall (fst w) params, w)
      else if name = ''learning'' then Some (set_learning env params w)
      else if name = ''audit'' then Some (Inr (audit_memories (fst w) params), w)
      else if name = ''forget'' then Some (forget env params w)
      else None)"

definition response_fits :: "'d memory_env \<Rightarrow> response \<Rightarrow> bool" where
  "response_fits env r \<longleftrightarrow> mv_response_len env r + (1 + FRAME_HEADROOM) \<le> frame_max"

definition frame_error :: core_error where
  "frame_error = Denied ''Memory response exceeds the protocol frame limit.''"

definition memory_request :: "'d memory_env \<Rightarrow> u64 \<Rightarrow> string \<Rightarrow> json \<Rightarrow> 'd memory_world \<Rightarrow>
    (core_error + response option) \<times> 'd memory_world" where
  "memory_request env i name params w =
     (case memory_method env name params w of
        None \<Rightarrow> (Inr None, w)
      | Some (Inl e, w1) \<Rightarrow> (Inl e, w1)
      | Some (Inr v, w1) \<Rightarrow>
          if response_fits env (response_ok i v) then (Inr (Some (response_ok i v)), w1) else (Inl frame_error, w1))"

section \<open>Loading\<close>

text \<open>The state of the first releases: a map from keys to values.\<close>

definition migrated_memory :: "'d memory_env \<Rightarrow> (string, string) bmap \<Rightarrow> memory" where
  "migrated_memory env old =
     \<lparr>mm_items = fold (\<lambda>(key, value). binsert (storage ''global'' key)
          \<lparr>en_key = key, en_value = value, en_scope = ''global'', en_created = 0, en_updated = 0,
           en_record = record_ref env ''global'' key\<rparr>) old [],
      mm_audit = [], mm_learning = guided\<rparr>"

definition read_memory :: "'d memory_env \<Rightarrow> string \<Rightarrow> memory option" where
  "read_memory env bytes =
     (case mv_utf8 env bytes of
        None \<Rightarrow> None
      | Some text \<Rightarrow>
          (case mv_parse env text of
             Some m \<Rightarrow> Some m
           | None \<Rightarrow> map_option (migrated_memory env) (mv_parse_map env text)))"

definition named_entry :: "'d memory_env \<Rightarrow> string \<Rightarrow> entry \<Rightarrow> entry" where
  "named_entry env place e =
     (let e1 = (if en_key e = []
                then e\<lparr>en_key := (case split_once CHR 0x00 place of None \<Rightarrow> place | Some (scope, key) \<Rightarrow> key)\<rparr> else e)
      in if en_record e1 = [] then e1\<lparr>en_record := record_ref env (en_scope e1) (en_key e1)\<rparr> else e1)"

text \<open>A state is brought within the limits: the entries that were updated last stay.\<close>

definition bounded_memory :: "'d memory_env \<Rightarrow> memory \<Rightarrow> memory" where
  "bounded_memory env m =
     (let items = map (\<lambda>(place, e). (place, named_entry env place e)) (mm_items m) in
      m\<lparr>mm_items := (if MEMORY_LIMIT < length items
           then fold (\<lambda>(k, e). binsert k e) (drop (length items - MEMORY_LIMIT) (sort_key (\<lambda>x. en_updated (snd x)) items)) []
           else items),
        mm_audit := keep_last MEMORY_LIMIT (mm_audit m)\<rparr>)"

definition quarantine :: "'d memory_env \<Rightarrow> string list \<Rightarrow> 'd \<Rightarrow> 'd" where
  "quarantine env path d =
     (if mv_is_file env path d
      then mv_rename env path (butlast path @ [''.'' @ last path @ ''.corrupt-'' @ show_nat (mv_nonce env)]) d
      else d)"

definition load_memory :: "'d memory_env \<Rightarrow> 'd \<Rightarrow> 'd memory_world" where
  "load_memory env d =
     (case mv_path env of
        None \<Rightarrow> (default_memory, d)
      | Some path \<Rightarrow>
          (case f_load (mv_files env) path MEMORY_BYTE_LIMIT d of
             (Inl e, d1) \<Rightarrow> (default_memory, quarantine env path d1)
           | (Inr None, d1) \<Rightarrow> (default_memory, d1)
           | (Inr (Some bytes), d1) \<Rightarrow>
               (case read_memory env bytes of
                  None \<Rightarrow> (bounded_memory env default_memory, quarantine env path d1)
                | Some m \<Rightarrow> (bounded_memory env m, d1))))"

end
