(* ===== verification/Memory_Command.thy ===== *)
theory Memory_Command
  imports Memory
begin

text \<open>
  The command line of the memory plugin (\<open>krabb-plugins/memory/src/main.rs\<close>): \<open>command_at\<close> with its options, the texts
  it shows, and the search for conflicting memories behind \<open>memory converge\<close>.
\<close>

section \<open>Conflicts\<close>

text \<open>\<open>str::split\<close> at the characters that satisfy \<open>p\<close>.\<close>

fun split_chars :: "(string \<Rightarrow> bool) \<Rightarrow> string list \<Rightarrow> string list" where
  "split_chars p [] = [[]]"
| "split_chars p (c # cs) =
     (if p c then [] # split_chars p cs
      else (case split_chars p cs of [] \<Rightarrow> [c] | w # ws \<Rightarrow> (c @ w) # ws))"

definition common_words :: "string list" where
  "common_words = [''the'', ''and'', ''for'', ''with'', ''that'', ''this'', ''from'', ''into'', ''when'', ''every'', ''after'',
     ''before'', ''response'', ''answer'']"

definition preference_words :: "'d memory_env \<Rightarrow> string \<Rightarrow> string list" where
  "preference_words env v =
     remdups (filter (\<lambda>w. 2 < length w \<and> w \<notin> set common_words)
       (map (mv_lower env) (split_chars (\<lambda>c. \<not> mv_alphanumeric env c) (chars v))))"

definition quote_mark :: char where "quote_mark = CHR 0x27"

definition negations :: "string list" where
  "negations = [''not'', ''never'', ''don'' @ [quote_mark] @ ''t'', ''dont'', ''avoid'', ''without'']"

definition has_negation :: "'d memory_env \<Rightarrow> string \<Rightarrow> bool" where
  "has_negation env v \<longleftrightarrow>
     list_ex (\<lambda>w. mv_lower env w \<in> set negations)
       (split_chars (\<lambda>c. \<not> mv_alphanumeric env c \<and> c \<noteq> [quote_mark]) (chars v))"

text \<open>A memory with its words and whether it negates.\<close>

type_synonym noted = "entry \<times> string list \<times> bool"

definition noted_entry :: "'d memory_env \<Rightarrow> entry \<Rightarrow> noted" where
  "noted_entry env e = (e, preference_words env (en_value e), has_negation env (en_value e))"

definition memories_conflict :: "noted \<Rightarrow> noted \<Rightarrow> bool" where
  "memories_conflict l r =
     (case (l, r) of ((a, aw, an), (b, bw, bn)) \<Rightarrow>
        if en_key a = en_key b \<and> en_value a \<noteq> en_value b then True
        else an \<noteq> bn \<and> 2 \<le> length (filter (\<lambda>w. w \<in> set bw) aw))"

definition side :: "entry \<Rightarrow> json" where
  "side e = jobject [(''key'', JStr (summary (en_key e))), (''value'', JStr (summary (en_value e))), (''updated'', jword (en_updated e))]"

definition conflict_json :: "string \<Rightarrow> entry \<Rightarrow> entry \<Rightarrow> json" where
  "conflict_json scope newer older =
     (if en_updated newer = en_updated older
      then jobject [(''scope'', JStr (summary scope)), (''ordering'', JStr ''ambiguous''),
             (''memories'', JArr [side newer, side older])]
      else jobject [(''scope'', JStr (summary scope)), (''newer'', side newer), (''older'', side older)])"

text \<open>The two loops: the older memories of one, and all of them; whether the limit was met.\<close>

fun conflicts_of :: "noted \<Rightarrow> noted list \<Rightarrow> (entry \<times> entry) list \<Rightarrow> (entry \<times> entry) list \<times> bool" where
  "conflicts_of newer [] acc = (acc, False)"
| "conflicts_of newer (older # es) acc =
     (if \<not> memories_conflict newer older then conflicts_of newer es acc
      else if length acc = CONFLICT_LIMIT then (acc, True)
      else conflicts_of newer es (acc @ [(fst newer, fst older)]))"

fun conflicts_among :: "noted list \<Rightarrow> (entry \<times> entry) list \<Rightarrow> (entry \<times> entry) list \<times> bool" where
  "conflicts_among [] acc = (acc, False)"
| "conflicts_among (newer # es) acc =
     (case conflicts_of newer es acc of
        (acc', full) \<Rightarrow> if full then (acc', True) else conflicts_among es acc')"

definition scope_conflicts :: "'d memory_env \<Rightarrow> memory \<Rightarrow> string \<Rightarrow> (entry \<times> entry) list \<times> bool" where
  "scope_conflicts env m scope =
     conflicts_among (map (noted_entry env) (newest_first (filter (in_scope scope) (entries_of m)))) []"

definition detect_conflicts :: "'d memory_env \<Rightarrow> memory \<Rightarrow> string \<Rightarrow> json" where
  "detect_conflicts env m scope =
     (case scope_conflicts env m scope of
        (pairs, full) \<Rightarrow> jobject [(''items'', JArr (map (\<lambda>(a, b). conflict_json scope a b) pairs)), (''truncated'', JBool full)])"

section \<open>Texts\<close>

definition LF :: string where "LF = [CHR 0x0A]"

text \<open>A word for the shell, in quotes; a quote leaves them and comes back.\<close>

definition shell_word :: "string \<Rightarrow> string" where
  "shell_word v =
     [quote_mark] @ concat (map (\<lambda>c. if c = quote_mark then [quote_mark, CHR 0x5C, quote_mark, quote_mark] else [c]) v)
       @ [quote_mark]"

definition forget_suggestion :: "string \<Rightarrow> string \<Rightarrow> string" where
  "forget_suggestion scope key =
     ''krabb memory forget '' @ shell_word key @ (if scope \<noteq> ''global'' then '' --scope '' @ shell_word scope else [])"

definition items_of :: "json \<Rightarrow> json list" where
  "items_of v = (case as_array (json_index v ''items'') of None \<Rightarrow> [] | Some xs \<Rightarrow> xs)"

definition memory_help :: string where
  "memory_help = join LF
    [''Manage scoped agent memories.'', [], ''Usage: krabb memory <command> [arguments...]'', [], ''Commands:'',
     ''  status                       Show learning mode and memory count'',
     ''  search <text> [OPTIONS]      Search saved memories'',
     ''  list [PAGE] [OPTIONS]        List saved memories'',
     ''  show <KEY> [OPTIONS]         Show one memory'',
     ''  remember <KEY> <TEXT> [OPTIONS]'',
     ''                               Save a memory'',
     ''  edit <KEY> <TEXT> [OPTIONS]  Replace a memory'',
     ''  forget <KEY> [OPTIONS]       Delete a memory'',
     ''  audit [KEY]                  Show memory change history'',
     ''  converge [OPTIONS]           Review likely conflicting memories'',
     ''  learning <MODE>              Set the learning mode: guided or autonomous'',
     ''  help                         Show this help'', [], ''Options:'',
     ''  --scope <ID>                 Select scope for supported commands'',
     ''  --type <TYPE>                Filter list by global or session'',
     ''  -h, --help                   Print this help'', [], ''Notes:'',
     ''  Use --scope with search, list, show, remember, edit, forget, or converge.'',
     ''  Scope defaults to global for scoped commands. List shows both global and'',
     ''  session memories unless filtered with --type. Converge uses text matching,'',
     ''  reports candidates without changing memories, and suggests a forget command'',
     ''  for the older record. Guided learning saves only when you explicitly ask'',
     ''  Krabb to remember something.'']"

definition usize_of :: "json \<Rightarrow> string \<Rightarrow> nat \<Rightarrow> nat" where
  "usize_of v k n = (case as_u64 (json_index v k) of None \<Rightarrow> n | Some x \<Rightarrow> x)"

definition dash :: string where "dash = [CHR 0xE2, CHR 0x80, CHR 0x93]"
definition corner :: string where "corner = [CHR 0xE2, CHR 0x94, CHR 0x94, CHR 0xE2, CHR 0x94, CHR 0x80]"
definition tee :: string where "tee = [CHR 0xE2, CHR 0x94, CHR 0x9C, CHR 0xE2, CHR 0x94, CHR 0x80]"
definition bar :: string where "bar = [CHR 0xE2, CHR 0x94, CHR 0x82]"

definition list_line :: "nat \<Rightarrow> nat \<Rightarrow> json \<Rightarrow> string" where
  "list_line n k item =
     (if k = 0 then LF else LF @ LF) @ (if k + 1 = n then corner else tee) @ '' ''
     @ text_or ''unknown'' (json_index item ''key'') @ '' | type: '' @ text_or ''session'' (json_index item ''type'') @ LF
     @ (if k + 1 = n then ''   '' @ corner else bar @ ''  '' @ corner) @ '' '' @ text_or [] (json_index item ''value'')"

definition memory_list_text :: "json \<Rightarrow> string" where
  "memory_list_text v =
     (case as_array (json_index v ''items'') of
        None \<Rightarrow> ''Memory list returned an invalid response.''
      | Some items \<Rightarrow>
          (let n = usize_of v ''total'' (length items) in
           if n = 0 \<or> items = [] then
             ''Memories (0'' @ dash @ ''0 of 0, page '' @ show_nat (usize_of v ''page'' 1) @ '' of ''
               @ show_nat (usize_of v ''pages'' 1) @ '')'' @ LF @ ''No memories found.''
           else
             (let page = usize_of v ''page'' 1; pages = usize_of v ''pages'' ((n + LIST_PAGE_SIZE - 1) div LIST_PAGE_SIZE);
                  start = (page - 1) * LIST_PAGE_SIZE
              in ''Memories ('' @ show_nat (start + 1) @ dash @ show_nat (min (start + length items) n) @ '' of '' @ show_nat n
                   @ '', page '' @ show_nat page @ '' of '' @ show_nat pages @ '')''
                   @ concat (map (\<lambda>(k, item). list_line (length items) k item) (zip [0..<length items] items)))))"

definition json_array :: "json \<Rightarrow> nat \<Rightarrow> json" where
  "json_array v n = (case as_array v of None \<Rightarrow> JNull | Some xs \<Rightarrow> if n < length xs then xs ! n else JNull)"

definition conflict_text :: "json \<Rightarrow> string" where
  "conflict_text v =
     (let part = (\<lambda>v k. text_or [] (json_index v k)) in
      if json_index v ''ordering'' = JStr ''ambiguous'' then
        (let a = json_array (json_index v ''memories'') 0; b = json_array (json_index v ''memories'') 1 in
         ''Ordering is ambiguous because both memories have the same timestamp:'' @ LF
           @ ''  '' @ part a ''key'' @ '':'' @ LF @ ''    '' @ part a ''value'' @ LF
           @ ''  '' @ part b ''key'' @ '':'' @ LF @ ''    '' @ part b ''value'')
      else
        (let newer = json_index v ''newer''; older = json_index v ''older'' in
         ''Newer memory (takes precedence):'' @ LF
           @ ''  '' @ part newer ''key'' @ '':'' @ LF @ ''    '' @ part newer ''value'' @ LF @ LF
           @ ''Older memory (kept for review):'' @ LF
           @ ''  '' @ part older ''key'' @ '':'' @ LF @ ''    '' @ part older ''value'' @ LF @ LF
           @ ''To remove the older memory, run:'' @ LF @ ''  ''
           @ forget_suggestion (text_or ''global'' (json_index v ''scope'')) (part older ''key'')))"

definition converge_text :: "json \<Rightarrow> string" where
  "converge_text v =
     (let items = items_of v in
      if items = [] then ''No memory conflicts found to converge.''
      else
        (let scope = text_or ''selected scope'' (json_index (hd items) ''scope'');
             heading = (if length items = 1 then ''Found 1 possible memory conflict in '' @ scope @ '':''
                        else ''Found '' @ show_nat (length items) @ '' possible memory conflicts in '' @ scope @ '':'')
         in heading @ LF @ LF @ join (LF @ LF @ ''---'' @ LF @ LF) (map conflict_text items)
              @ (if json_index v ''truncated'' = JBool True
                 then LF @ LF @ ''Additional conflicts were omitted. Narrow the scope or review the memory list.'' else [])
              @ LF @ LF @ ''No records changed.''))"

definition command_text :: "'d memory_env \<Rightarrow> string \<Rightarrow> json \<Rightarrow> string" where
  "command_text env command v =
     (if command = ''list'' then memory_list_text v
      else if command = ''search'' then
        (if items_of v = [] then ''No memories found.''
         else join LF (map (\<lambda>i. text_or [] (json_index i ''key'') @ '': '' @ text_or [] (json_index i ''value'')) (items_of v)))
      else if command = ''show'' then text_or ''Memory not found.'' (json_index (json_index v ''item'') ''value'')
      else if command = ''remember'' \<or> command = ''edit'' then ''Memory saved.''
      else if command = ''forget'' then
        (if json_index v ''deleted'' = JBool True then ''Memory forgotten.'' else ''Memory not found.'')
      else if command = ''learning'' then ''Learning mode: '' @ text_or ''guided'' (json_index v ''learning'') @ ''.''
      else if command = ''audit'' then
        (let n = length (items_of v) in show_nat n @ '' memory audit '' @ (if n = 1 then ''record'' else ''records'') @ ''.'')
      else if command = ''converge'' then converge_text v
      else mv_print env v)"

section \<open>The command line\<close>

record memory_options =
  mo_scope :: "string option"
  mo_type :: "string option"
  mo_values :: "string list"

fun read_options :: "string list \<Rightarrow> memory_options \<Rightarrow> string + memory_options" where
  "read_options [] opts = Inr opts"
| "read_options (a # args) opts =
     (if a = ''--scope'' then
        (case args of
           [] \<Rightarrow> Inl ''--scope requires an ID.''
         | v # rest \<Rightarrow> read_options rest (opts\<lparr>mo_scope := Some v\<rparr>))
      else if a = ''--type'' then
        (case args of
           [] \<Rightarrow> Inl ''--type requires global or session.''
         | v # rest \<Rightarrow> read_options rest (opts\<lparr>mo_type := Some v\<rparr>))
      else if strip_prefix ''-'' a \<noteq> None then Inl (''Unknown memory option '' @ a @ ''.'')
      else read_options args (opts\<lparr>mo_values := mo_values opts @ [a]\<rparr>))"

fun text_args :: "json list \<Rightarrow> string list option" where
  "text_args [] = Some []"
| "text_args (v # vs) =
     (case (as_str v, text_args vs) of (Some a, Some as) \<Rightarrow> Some (a # as) | _ \<Rightarrow> None)"

text \<open>The request that a command stands for: its method and parameters.\<close>

definition scope_or_global :: "memory_options \<Rightarrow> json" where
  "scope_or_global opts = JStr (case mo_scope opts of None \<Rightarrow> ''global'' | Some s \<Rightarrow> s)"

definition list_request :: "memory_options \<Rightarrow> string + string \<times> json" where
  "list_request opts =
     (case (case mo_values opts of
              [] \<Rightarrow> Inr 1
            | [v] \<Rightarrow>
                (case parse_unsigned (2 ^ 64 - 1) v of
                   None \<Rightarrow> Inl ''Memory list page must be a positive number.''
                 | Some n \<Rightarrow> if 0 < n then Inr n else Inl ''Memory list page must be a positive number.'')
            | _ \<Rightarrow> Inl ''Usage: memory list [page] [--type global|session] [--scope ID].'') of
        Inl e \<Rightarrow> Inl e
      | Inr page \<Rightarrow>
          Inr (''list'', jobject ([(''page'', jnat page)]
            @ (case mo_scope opts of None \<Rightarrow> [] | Some s \<Rightarrow> [(''scope'', JStr s)])
            @ (case mo_type opts of None \<Rightarrow> [] | Some t \<Rightarrow> [(''type'', JStr t)]))))"

definition command_request :: "string \<Rightarrow> memory_options \<Rightarrow> string + string \<times> json" where
  "command_request command opts =
     (let vs = mo_values opts; scope = (''scope'', scope_or_global opts) in
      if command = ''list'' then list_request opts
      else if command = ''search'' then
        (if vs = [] then Inl ''Usage: memory search <text> [--scope ID].''
         else Inr (''search'', jobject [(''query'', JStr (join '' '' vs)), scope]))
      else if command = ''show'' then
        (if vs = [] then Inl ''Usage: memory show <key> [--scope ID].''
         else Inr (''recall'', jobject [(''key'', JStr (hd vs)), scope]))
      else if command = ''remember'' \<or> command = ''edit'' then
        (if length vs < 2 then Inl (''Usage: memory '' @ command @ '' <key> <text> [--scope ID].'')
         else Inr (''remember'', jobject [(''key'', JStr (hd vs)), (''value'', JStr (join '' '' (tl vs))), scope,
                     (''approved'', JBool True)]))
      else if command = ''forget'' then
        (if vs = [] then Inl ''Usage: memory forget <key> [--scope ID].''
         else Inr (''forget'', jobject [(''key'', JStr (hd vs)), scope]))
      else if command = ''audit'' then Inr (''audit'', jobject [(''key'', (case vs of [] \<Rightarrow> JNull | v # _ \<Rightarrow> JStr v))])
      else if command = ''learning'' then
        (if vs = [] then Inl ''Usage: memory learning <guided|autonomous>.''
         else Inr (''learning'', jobject [(''mode'', JStr (hd vs))]))
      else Inl (''Unknown memory command '' @ command @ ''.''))"

definition status_text :: "memory \<Rightarrow> string" where
  "status_text m = ''Learning: '' @ mm_learning m @ LF @ ''Memories: '' @ show_nat (length (mm_items m))"

definition shown :: "'d memory_env \<Rightarrow> bool \<Rightarrow> string \<Rightarrow> json \<Rightarrow> json" where
  "shown env as_json command v = (if as_json then v else JStr (command_text env command v))"

definition run_request :: "'d memory_env \<Rightarrow> u64 \<Rightarrow> bool \<Rightarrow> string \<Rightarrow> string \<times> json \<Rightarrow> 'd memory_world \<Rightarrow>
    (core_error + response option) \<times> 'd memory_world" where
  "run_request env i as_json command r w =
     (case memory_request env i (fst r) (snd r) w of
        (Inl e, w1) \<Rightarrow> (Inl e, w1)
      | (Inr None, w1) \<Rightarrow> (Inl (Denied ''Memory command is unavailable.''), w1)
      | (Inr (Some resp), w1) \<Rightarrow>
          (case r_result resp of
             None \<Rightarrow> (Inl (Denied ''Memory command returned no result.''), w1)
           | Some v \<Rightarrow> (Inr (Some (response_ok i (shown env as_json command v))), w1)))"

definition run_command :: "'d memory_env \<Rightarrow> u64 \<Rightarrow> bool \<Rightarrow> string \<Rightarrow> memory_options \<Rightarrow> 'd memory_world \<Rightarrow>
    (core_error + response option) \<times> 'd memory_world" where
  "run_command env i as_json command opts w =
     (if mo_type opts \<noteq> None \<and> mo_type opts \<notin> {Some ''global'', Some ''session''} then (Inl (Denied type_error), w)
      else if mo_type opts \<noteq> None \<and> command \<noteq> ''list''
      then (Inl (Denied ''--type is available only with memory list.''), w)
      else if command = ''converge'' then
        (let resp = response_ok i (shown env as_json command
               (detect_conflicts env (fst w) (case mo_scope opts of None \<Rightarrow> ''global'' | Some s \<Rightarrow> s)))
         in if response_fits env resp then (Inr (Some resp), w) else (Inl frame_error, w))
      else if command = ''help'' then (Inr (Some (response_ok i (JStr memory_help))), w)
      else if command = ''status'' then
        (Inr (Some (response_ok i
           (if as_json then jobject [(''learning'', JStr (mm_learning (fst w))), (''records'', jnat (length (mm_items (fst w))))]
            else JStr (status_text (fst w))))), w)
      else
        (case command_request command opts of
           Inl e \<Rightarrow> (Inl (Denied e), w)
         | Inr r \<Rightarrow> run_request env i as_json command r w))"

definition command_at :: "'d memory_env \<Rightarrow> u64 \<Rightarrow> json \<Rightarrow> 'd memory_world \<Rightarrow>
    (core_error + response option) \<times> 'd memory_world" where
  "command_at env i params w =
     (case as_array (json_index params ''args'') of
        None \<Rightarrow> (Inl (Denied ''Memory command arguments are required.''), w)
      | Some vs \<Rightarrow>
     (case text_args vs of
        None \<Rightarrow> (Inl (Denied ''Memory command arguments must be text.''), w)
      | Some [] \<Rightarrow> (Inr (Some (response_ok i (JStr memory_help))), w)
      | Some (command # args) \<Rightarrow>
          (case read_options args \<lparr>mo_scope = None, mo_type = None, mo_values = []\<rparr> of
             Inl e \<Rightarrow> (Inl (Denied e), w)
           | Inr opts \<Rightarrow> run_command env i (json_index params ''json'' = JBool True) command opts w)))"

text \<open>The entry point: \<open>call_at\<close>, which adds to \<open>call_inner_at\<close> only lines of the log.\<close>

definition memory_call :: "'d memory_env \<Rightarrow> request \<Rightarrow> 'd memory_world \<Rightarrow> (core_error + response option) \<times> 'd memory_world" where
  "memory_call env req w =
     (case req of
        Note v m ps \<Rightarrow> (Inr None, w)
      | Call v i m ps \<Rightarrow>
          if m = ''command'' then command_at env i ps w else memory_request env i m ps w)"

end
