(* ===== verification/Memory_Laws.thy ===== *)
theory Memory_Laws
  imports Memory_Command Tool_Dispatch "HOL-Library.Multiset"
begin

text \<open>
  What the memory plugin promises: its state stays within bounds and well-formed, a memory that was saved is found
  again, reads stay within a scope, every change leaves a trace, pages cover a list, and the search for conflicts is
  the plain one cut at its limit.
\<close>

section \<open>Conflicts\<close>

text \<open>All pairs of conflicting memories, the newer one first, without a limit.\<close>

fun all_conflicts :: "noted list \<Rightarrow> (entry \<times> entry) list" where
  "all_conflicts [] = []"
| "all_conflicts (n # es) = map (\<lambda>r. (fst n, fst r)) (filter (memories_conflict n) es) @ all_conflicts es"

lemma conflicts_of_take:
  "length acc \<le> CONFLICT_LIMIT \<Longrightarrow> conflicts_of n es acc =
     (let new = map (\<lambda>r. (fst n, fst r)) (filter (memories_conflict n) es)
      in (take CONFLICT_LIMIT (acc @ new), CONFLICT_LIMIT < length (acc @ new)))"
proof (induction es arbitrary: acc)
  case (Cons e es)
  show ?case
  proof (cases "memories_conflict n e")
    case True
    show ?thesis
    proof (cases "length acc = CONFLICT_LIMIT")
      case False
      with Cons.prems have "length (acc @ [(fst n, fst e)]) \<le> CONFLICT_LIMIT" by simp
      from Cons.IH [OF this] True False show ?thesis by (simp add: Let_def)
    qed (simp add: True Let_def)
  qed (use Cons in simp)
qed (simp add: Let_def)

lemma conflicts_among_take:
  "length acc \<le> CONFLICT_LIMIT \<Longrightarrow> conflicts_among ns acc =
     (take CONFLICT_LIMIT (acc @ all_conflicts ns), CONFLICT_LIMIT < length (acc @ all_conflicts ns))"
proof (induction ns arbitrary: acc)
  case (Cons n es)
  let ?new = "map (\<lambda>r. (fst n, fst r)) (filter (memories_conflict n) es)"
  note c = conflicts_of_take [OF Cons.prems, of n es, unfolded Let_def]
  show ?case
  proof (cases "CONFLICT_LIMIT < length (acc @ ?new)")
    case True
    then show ?thesis by (simp add: c)
  next
    case False
    then have "length (acc @ ?new) \<le> CONFLICT_LIMIT" by simp
    from Cons.IH [OF this] False show ?thesis by (simp add: c)
  qed
qed simp

text \<open>The search for conflicts is the plain one, cut at its limit: \<open>memory converge\<close> reports the first 32 of all
  conflicting pairs of the scope in the order of age, and says that it left some out exactly when there are more.\<close>

theorem converge_reports_all_conflicts:
  "scope_conflicts env m scope =
     (take 32 (all_conflicts (map (noted_entry env) (newest_first (filter (in_scope scope) (entries_of m))))),
      32 < length (all_conflicts (map (noted_entry env) (newest_first (filter (in_scope scope) (entries_of m))))))"
  unfolding scope_conflicts_def by (subst conflicts_among_take) (simp_all add: CONFLICT_LIMIT_def)

section \<open>Quoted words\<close>

text \<open>How a shell reads a word of quoted parts and escaped characters.\<close>

fun shell_reads :: "bool \<Rightarrow> string \<Rightarrow> string option" where
  "shell_reads True [] = None"
| "shell_reads False [] = Some []"
| "shell_reads True (c # s) =
     (if c = quote_mark then shell_reads False s else map_option ((#) c) (shell_reads True s))"
| "shell_reads False [c] = (if c = quote_mark \<or> c = CHR 0x5C then None else Some [c])"
| "shell_reads False (c # e # s) =
     (if c = quote_mark then shell_reads True (e # s)
      else if c = CHR 0x5C then map_option ((#) e) (shell_reads False s)
      else map_option ((#) c) (shell_reads False (e # s)))"

definition quoted :: "string \<Rightarrow> string" where
  "quoted v = concat (map (\<lambda>c. if c = quote_mark then [quote_mark, CHR 0x5C, quote_mark, quote_mark] else [c]) v) @ [quote_mark]"

lemma quoted_simps: "quoted [] = [quote_mark]"
  "quoted (c # v) = (if c = quote_mark then [quote_mark, CHR 0x5C, quote_mark, quote_mark] @ quoted v else c # quoted v)"
  by (simp_all add: quoted_def)

lemma quoted_Cons: "\<exists>a s. quoted v = a # s"
  by (cases v) (auto simp: quoted_simps)

lemma quoted_reads: "shell_reads True (quoted v) = Some v"
proof (induction v)
  case (Cons c v)
  obtain a s where s: "quoted v = a # s" using quoted_Cons by blast
  have "CHR 0x5C \<noteq> quote_mark" by (simp add: quote_mark_def)
  with Cons s show ?case by (simp add: quoted_simps)
qed (simp add: quoted_simps)

text \<open>The command that \<open>memory converge\<close> suggests is safe to paste: a shell reads the quoted word as exactly the
  key or scope it was made from, whatever characters it holds.\<close>

theorem shell_word_reads_back: "shell_reads False (shell_word v) = Some v"
proof -
  obtain a s where s: "quoted v = a # s" using quoted_Cons by blast
  have "shell_word v = quote_mark # quoted v" by (simp add: shell_word_def quoted_def)
  with s quoted_reads [of v] show ?thesis by simp
qed

section \<open>Pages\<close>

lemma page_take: "page_items (Suc k) xs = take LIST_PAGE_SIZE (drop (k * LIST_PAGE_SIZE) xs)"
  by (simp add: page_items_def Let_def min_def)

lemma pages_prefix:
  "concat (map (\<lambda>k. page_items (Suc k) xs) [0..<n]) = take (n * LIST_PAGE_SIZE) xs"
proof (induction n)
  case (Suc n)
  have "take (Suc n * LIST_PAGE_SIZE) xs = take (n * LIST_PAGE_SIZE) xs @ take LIST_PAGE_SIZE (drop (n * LIST_PAGE_SIZE) xs)"
    by (simp only: mult_Suc add.commute [of LIST_PAGE_SIZE] take_add)
  with Suc show ?case by (simp add: page_take)
qed simp

text \<open>The pages of a list cover it: put together in order, the pages from 1 to the number the list announces are the
  whole list, each entry once, and no page holds more than five.\<close>

theorem pages_cover_list:
  "concat (map (\<lambda>page. page_items page xs) [1..<page_count (length xs) + 1]) = xs
     \<and> length (page_items page xs) \<le> 5"
proof -
  have "[1..<page_count (length xs) + 1] = map Suc [0..<page_count (length xs)]" by (simp add: map_Suc_upt)
  then have "concat (map (\<lambda>page. page_items page xs) [1..<page_count (length xs) + 1])
      = concat (map (\<lambda>k. page_items (Suc k) xs) [0..<page_count (length xs)])"
    by (simp only: list.map_comp comp_def)
  then have "concat (map (\<lambda>page. page_items page xs) [1..<page_count (length xs) + 1])
      = take (page_count (length xs) * LIST_PAGE_SIZE) xs"
    by (simp only: pages_prefix)
  moreover have "length xs \<le> page_count (length xs) * LIST_PAGE_SIZE"
    unfolding page_count_def LIST_PAGE_SIZE_def by linarith
  moreover have "length (page_items page xs) \<le> 5"
    by (simp add: page_items_def Let_def LIST_PAGE_SIZE_def)
  ultimately show ?thesis by simp
qed

section \<open>Evictions\<close>

lemma bremove_filter: "bremove k m = filter (\<lambda>x. fst x \<noteq> k) m"
  by (induction m) (auto simp: bremove_def)

lemma fold_bremove_filter: "fold bremove ks m = filter (\<lambda>x. fst x \<notin> set ks) m"
proof (induction ks arbitrary: m)
  case (Cons k ks)
  have "fold bremove (k # ks) m = filter (\<lambda>x. fst x \<notin> set ks) (bremove k m)" by (simp only: fold_Cons comp_def Cons)
  also have "\<dots> = filter (\<lambda>x. fst x \<notin> set (k # ks)) m" by (simp add: bremove_filter conj_commute)
  finally show ?case .
qed simp

lemma sorted_items:
  defines "f \<equiv> \<lambda>x :: string \<times> entry. en_updated (snd x)"
  assumes "bmap_ok items"
  shows "set (sort_key f items) = set items" and "length (sort_key f items) = length items"
    and "distinct (map fst (sort_key f items))" and "sorted (map f (sort_key f items))"
proof -
  show "set (sort_key f items) = set items" "length (sort_key f items) = length items" "sorted (map f (sort_key f items))" by simp_all
  have "mset (map fst (sort_key f items)) = mset (map fst items)" by (simp only: mset_map mset_sort)
  then show "distinct (map fst (sort_key f items))"
    using bmap_ok_distinct [OF assms(2)] by (metis mset_eq_imp_distinct_iff)
qed

lemma evict_drop:
  assumes "bmap_ok items" and "MEMORY_LIMIT < length items"
  shows "set (evict items) = set (drop (length items - MEMORY_LIMIT) (sort_key (\<lambda>x. en_updated (snd x)) items))"
    and "length (evict items) = MEMORY_LIMIT"
proof -
  let ?s = "sort_key (\<lambda>x. en_updated (snd x)) items" and ?n = "length items - MEMORY_LIMIT"
  let ?P = "\<lambda>x. fst x \<notin> fst ` set (take ?n ?s)"
  note s = sorted_items [OF assms(1)]
  have e: "evict items = filter ?P items"
    using assms(2) by (simp add: evict_def fold_bremove_filter)
  have "distinct (map fst (take ?n ?s @ drop ?n ?s))" using s(3) by simp
  then have "fst ` set (take ?n ?s) \<inter> fst ` set (drop ?n ?s) = {}" by (simp only: map_append distinct_append list.set_map)
  then have "\<forall>x \<in> set (drop ?n ?s). ?P x" by blast
  then have "filter ?P (drop ?n ?s) = drop ?n ?s" by (simp add: filter_id_conv)
  moreover have "filter ?P (take ?n ?s) = []" by (simp add: filter_empty_conv)
  ultimately have f: "filter ?P ?s = drop ?n ?s" by (metis append_take_drop_id filter_append append_Nil)
  have "mset (filter ?P items) = mset (filter ?P ?s)" by simp
  with f have m: "mset (evict items) = mset (drop ?n ?s)" by (simp add: e)
  show "set (evict items) = set (drop ?n ?s)" using m by (metis set_mset_mset)
  have "length (evict items) = length (drop ?n ?s)" using m by (metis size_mset)
  then show "length (evict items) = MEMORY_LIMIT" using assms(2) s(2) by simp
qed

lemma evict_ok:
  assumes "bmap_ok items"
  shows "bmap_ok (evict items)" and "length (evict items) \<le> MEMORY_LIMIT" and "set (evict items) \<subseteq> set items"
proof -
  show "bmap_ok (evict items)" using assms by (auto simp: evict_def fold_bremove_filter bmap_ok_filter)
  show "length (evict items) \<le> MEMORY_LIMIT"
  proof (cases "MEMORY_LIMIT < length items")
    case True
    then show ?thesis using evict_drop(2) [OF assms] by simp
  qed (simp add: evict_def)
  show "set (evict items) \<subseteq> set items" by (auto simp: evict_def fold_bremove_filter)
qed

lemma evict_keeps_newest:
  assumes "bmap_ok items" and "(k, e) \<in> set items"
    and "\<And>k' e'. (k', e') \<in> set items \<Longrightarrow> k' \<noteq> k \<Longrightarrow> en_updated e' < en_updated e"
  shows "(k, e) \<in> set (evict items)"
proof (cases "MEMORY_LIMIT < length items")
  case True
  let ?s = "sort_key (\<lambda>x. en_updated (snd x)) items" and ?n = "length items - MEMORY_LIMIT"
  note s = sorted_items [OF assms(1)]
  have ne: "?s \<noteq> []" using True s(2) by (metis less_nat_zero_code list.size(3))
  obtain k' e' where l: "last ?s = (k', e')" by (cases "last ?s")
  then have in_s: "(k', e') \<in> set items" using last_in_set [OF ne] s(1) by simp
  have split: "?s = butlast ?s @ [(k', e')]" using ne l by (metis append_butlast_last_id)
  have "en_updated e \<le> en_updated e'"
  proof (cases "(k, e) = (k', e')")
    case False
    have "(k, e) \<in> set (butlast ?s @ [(k', e')])" using assms(2) s(1) split by metis
    with False have m: "(k, e) \<in> set (butlast ?s)" by auto
    have "sorted (map (\<lambda>x. en_updated (snd x)) (butlast ?s @ [(k', e')]))" using s(4) split by metis
    then show ?thesis using m by (auto simp: sorted_append)
  qed simp
  then have "k' = k" using assms(3) [OF in_s] by (auto simp: not_le [symmetric])
  then have "(k', e') = (k, e)"
    using in_s assms(2) bmap_ok_distinct [OF assms(1)] by (metis eq_key_imp_eq_value)
  moreover have "?n < length ?s" using True s(2) by (simp add: MEMORY_LIMIT_def)
  then have "last (drop ?n ?s) = (k', e')" "drop ?n ?s \<noteq> []" using l by simp_all
  then have "(k', e') \<in> set (drop ?n ?s)" by (metis last_in_set)
  ultimately show ?thesis using evict_drop(1) [OF assms(1) True] by simp
qed (use assms(2) in \<open>simp add: evict_def\<close>)

section \<open>The state stays well-formed\<close>

definition entry_ok :: "(string \<Rightarrow> string) \<Rightarrow> string \<Rightarrow> entry \<Rightarrow> bool" where
  "entry_ok sha place e \<longleftrightarrow> place = storage (en_scope e) (en_key e) \<and> \<not> has_nul (en_scope e) \<and> \<not> has_nul (en_key e)
     \<and> \<not> blank (en_scope e) \<and> \<not> blank (en_key e) \<and> length (en_key e) \<le> VALUE_LIMIT \<and> length (en_value e) \<le> VALUE_LIMIT
     \<and> en_record e = ''records/'' @ hex_digest (sha (en_scope e)) @ ''/'' @ hex_digest (sha (en_key e)) @ ''.md''"

definition memory_ok :: "(string \<Rightarrow> string) \<Rightarrow> memory \<Rightarrow> bool" where
  "memory_ok sha m \<longleftrightarrow> bmap_ok (mm_items m) \<and> length (mm_items m) \<le> MEMORY_LIMIT \<and> length (mm_audit m) \<le> MEMORY_LIMIT
     \<and> mm_learning m \<in> {''guided'', ''autonomous''} \<and> (\<forall>(k, e) \<in> set (mm_items m). entry_ok sha k e)"

lemma default_memory_ok: "memory_ok sha default_memory"
  by (simp add: memory_ok_def default_memory_def guided_def)

lemma length_audited [simp]: "length (audited a as) \<le> MEMORY_LIMIT"
  by (simp add: audited_def)

lemma remember_refusal_None:
  assumes "remember_refusal key value mode scope params = None"
  shows "\<not> blank key" "\<not> has_nul key" "length key \<le> VALUE_LIMIT" "length value \<le> VALUE_LIMIT" "\<not> blank scope" "\<not> has_nul scope"
    "mode = ''guided'' \<and> json_index params ''approved'' = JBool True \<or> mode = ''autonomous''"
  using assms by (auto simp: remember_refusal_def not_less split: if_splits)

lemma remembered_ok:
  assumes "memory_ok (mv_sha env) m" and "remember_refusal key value mode scope params = None"
  shows "memory_ok (mv_sha env) (remembered env m scope key value)"
proof -
  let ?items = "binsert (storage scope key) (new_entry env m scope key value) (mm_items m)"
  have ok: "bmap_ok ?items" using assms(1) by (simp add: memory_ok_def bmap_ok_insert)
  have e: "entry_ok (mv_sha env) (storage scope key) (new_entry env m scope key value)"
    using remember_refusal_None [OF assms(2)] by (simp add: entry_ok_def new_entry_def Let_def record_ref_def)
  have "\<forall>(k, e) \<in> set ?items. entry_ok (mv_sha env) k e"
    using assms(1) e binsert_set [of "storage scope key" "new_entry env m scope key value" "mm_items m"]
    unfolding memory_ok_def by blast
  then have "\<forall>(k, e) \<in> set (evict ?items). entry_ok (mv_sha env) k e" using evict_ok(3) [OF ok] by blast
  then show ?thesis using evict_ok(1,2) [OF ok] assms(1) by (simp add: memory_ok_def remembered_def)
qed

lemma set_bremove: "set (bremove k m) \<subseteq> set m"
  by (auto simp: bremove_filter)

lemma forgotten_ok:
  assumes "memory_ok sha m"
  shows "memory_ok sha (forgotten env m scope key)"
proof (cases "bget (mm_items m) (storage scope key)")
  case None
  then show ?thesis using assms by (simp add: forgotten_def)
next
  case (Some e)
  have "length (bremove (storage scope key) (mm_items m)) \<le> length (mm_items m)"
    by (simp add: bremove_filter)
  then show ?thesis using Some assms set_bremove [of "storage scope key" "mm_items m"]
    by (auto simp: forgotten_def memory_ok_def bmap_ok_remove)
qed

text \<open>What a request does to the state.\<close>

inductive memory_move :: "'d memory_env \<Rightarrow> memory \<Rightarrow> memory \<Rightarrow> bool" for env m where
  same: "memory_move env m m"
| remember: "remember_refusal key value mode scope params = None \<Longrightarrow> mode = learning_mode m params \<Longrightarrow>
    memory_move env m (remembered env m scope key value)"
| forget: "\<not> has_nul scope \<Longrightarrow> \<not> has_nul key \<Longrightarrow> memory_move env m (forgotten env m scope key)"
| learn: "mode \<in> {''guided'', ''autonomous''} \<Longrightarrow> memory_move env m (m\<lparr>mm_learning := mode\<rparr>)"

inductive_cases memory_moveE: "memory_move env m m'"

lemma keep_memory_moves:
  "keep_memory env m0 m1 v d = (r, m', d') \<Longrightarrow> m' = m0 \<and> (\<exists>e. r = Inl e) \<or> m' = m1 \<and> r = Inr v"
  by (auto simp: keep_memory_def split: prod.splits sum.splits)

lemma remember_moves:
  assumes "remember env params (m, d) = (r, m', d')"
  shows "memory_move env m m'" and "r = Inl e \<Longrightarrow> m' = m"
proof -
  have "memory_move env m m' \<and> (\<forall>e. r = Inl e \<longrightarrow> m' = m)"
  proof (cases "\<exists>key value. as_str (json_index params ''key'') = Some key \<and> as_str (json_index params ''value'') = Some value")
    case True
    then obtain key val where kv: "as_str (json_index params ''key'') = Some key" "as_str (json_index params ''value'') = Some val"
      by blast
    let ?mode = "learning_mode m params" and ?scope = "text_or ''global'' (json_index params ''scope'')"
    show ?thesis
    proof (cases "remember_refusal key val ?mode ?scope params")
      case None
      with assms kv have "keep_memory env m (remembered env m ?scope key val)
          (jobject [(''ok'', JBool True), (''scope'', JStr ?scope), (''mode'', JStr ?mode)]) d = (r, m', d')"
        by (simp add: remember_def Let_def)
      from keep_memory_moves [OF this] None show ?thesis
        by (auto intro: memory_move.intros)
    qed (use assms kv in \<open>simp add: remember_def Let_def deny_def memory_move.same\<close>)
  next
    case False
    then show ?thesis using assms
      by (auto simp: remember_def deny_def memory_move.same split: option.splits)
  qed
  then show "memory_move env m m'" and "r = Inl e \<Longrightarrow> m' = m" by blast+
qed

lemma forget_moves:
  assumes "forget env params (m, d) = (r, m', d')"
  shows "memory_move env m m'" and "r = Inl e \<Longrightarrow> m' = m"
proof -
  have "memory_move env m m' \<and> (\<forall>e. r = Inl e \<longrightarrow> m' = m)"
  proof (cases "as_str (json_index params ''key'')")
    case None
    then show ?thesis using assms by (simp add: forget_def deny_def memory_move.same)
  next
    case (Some key)
    let ?scope = "text_or ''global'' (json_index params ''scope'')"
    show ?thesis
    proof (cases "has_nul key \<or> has_nul ?scope")
      case True
      then show ?thesis using assms Some by (auto simp: forget_def deny_def Let_def memory_move.same split: if_splits)
    next
      case False
      with assms Some have "keep_memory env m (forgotten env m ?scope key)
          (jobject [(''deleted'', JBool (bget (mm_items m) (storage ?scope key) \<noteq> None))]) d = (r, m', d')"
        by (simp add: forget_def Let_def)
      from keep_memory_moves [OF this] False show ?thesis by (auto intro: memory_move.intros)
    qed
  qed
  then show "memory_move env m m'" and "r = Inl e \<Longrightarrow> m' = m" by blast+
qed

lemma set_learning_moves:
  assumes "set_learning env params (m, d) = (r, m', d')"
  shows "memory_move env m m'" and "r = Inl e \<Longrightarrow> m' = m"
  using assms unfolding set_learning_def
  by (auto simp: deny_def Let_def memory_move.same split: option.splits if_splits prod.splits sum.splits
      intro: memory_move.learn)

lemma memory_method_moves:
  assumes "memory_method env name params (m, d) = Some (r, m', d')"
  shows "memory_move env m m'" and "r = Inl e \<Longrightarrow> m' = m"
  using assms unfolding memory_method_def
  by (auto split: if_splits intro: memory_move.same dest: remember_moves forget_moves set_learning_moves)

lemma memory_request_moves:
  "memory_request env i name params (m, d) = (r, m', d') \<Longrightarrow> memory_move env m m'"
  unfolding memory_request_def
  by (auto split: option.splits prod.splits sum.splits if_splits intro: memory_move.same dest: memory_method_moves)

lemma run_request_moves:
  "run_request env i as_json command q (m, d) = (r, m', d') \<Longrightarrow> memory_move env m m'"
  unfolding run_request_def
  by (auto split: option.splits prod.splits sum.splits dest: memory_request_moves)

lemma run_command_cases:
  "run_command env i as_json command opts w = (r, w') \<Longrightarrow> w' = w \<or> (\<exists>q. run_request env i as_json command q w = (r, w'))"
  unfolding run_command_def Let_def
  by (simp only: prod.inject split: if_split_asm sum.split_asm) blast+

lemma run_command_moves:
  "run_command env i as_json command opts (m, d) = (r, m', d') \<Longrightarrow> memory_move env m m'"
  using run_command_cases [of env i as_json command opts "(m, d)" r "(m', d')"]
  by (auto intro: memory_move.same dest: run_request_moves)

lemma memory_call_moves:
  assumes "memory_call env req (m, d) = (r, m', d')"
  shows "memory_move env m m'"
  using assms unfolding memory_call_def command_at_def
  by (auto split: request.splits if_splits option.splits list.splits sum.splits
      intro: memory_move.same dest: memory_request_moves run_command_moves)

text \<open>The states of a plugin that started without an index, whatever its clock and its files do.\<close>

inductive remembers :: "(string \<Rightarrow> string) \<Rightarrow> 'd memory_world \<Rightarrow> bool" for sha where
  start: "remembers sha (default_memory, d)"
| request: "remembers sha w \<Longrightarrow> mv_sha env = sha \<Longrightarrow> memory_call env req w = (r, w') \<Longrightarrow> remembers sha w'"

lemma memory_move_ok: "memory_move env m m' \<Longrightarrow> memory_ok (mv_sha env) m \<Longrightarrow> memory_ok (mv_sha env) m'"
  by (induction rule: memory_move.induct) (auto simp: remembered_ok forgotten_ok, auto simp: memory_ok_def)

lemma remembers_ok: "remembers sha w \<Longrightarrow> memory_ok sha (fst w)"
proof (induction rule: remembers.induct)
  case (request w env req r w')
  then show ?case using memory_call_moves [of env req "fst w" "snd w" r "fst w'" "snd w'"] memory_move_ok by auto
qed (simp add: default_memory_ok)

text \<open>C33: The state of the memory plugin stays well-formed whatever requests and commands come: at most 1000 memories and as
  many lines of history, every memory in the place of its scope and key, with texts within 256 KiB, a scope and a key that
  are neither blank nor hold a zero byte, and a record named by their hashes; the learning mode is one of the two.\<close>

theorem reachable_memories_well_formed:
  assumes "remembers sha w"
  shows "length (mm_items (fst w)) \<le> 1000 \<and> length (mm_audit (fst w)) \<le> 1000 \<and> bmap_ok (mm_items (fst w))
    \<and> mm_learning (fst w) \<in> {''guided'', ''autonomous''}
    \<and> list_all (\<lambda>(place, e). place = storage (en_scope e) (en_key e) \<and> \<not> blank (en_scope e) \<and> \<not> blank (en_key e)
         \<and> CHR 0x00 \<notin> set (en_scope e) \<and> CHR 0x00 \<notin> set (en_key e)
         \<and> length (en_key e) \<le> 256 * 1024 \<and> length (en_value e) \<le> 256 * 1024
         \<and> en_record e = ''records/'' @ hex_digest (sha (en_scope e)) @ ''/'' @ hex_digest (sha (en_key e)) @ ''.md'')
         (mm_items (fst w))"
proof -
  have ok: "memory_ok sha (fst w)" by (rule remembers_ok [OF assms])
  have "list_all (\<lambda>(place, e). place = storage (en_scope e) (en_key e) \<and> \<not> blank (en_scope e) \<and> \<not> blank (en_key e)
         \<and> CHR 0x00 \<notin> set (en_scope e) \<and> CHR 0x00 \<notin> set (en_key e)
         \<and> length (en_key e) \<le> 256 * 1024 \<and> length (en_value e) \<le> 256 * 1024
         \<and> en_record e = ''records/'' @ hex_digest (sha (en_scope e)) @ ''/'' @ hex_digest (sha (en_key e)) @ ''.md'')
         (mm_items (fst w))"
    unfolding list_all_iff
  proof
    fix x assume x: "x \<in> set (mm_items (fst w))"
    obtain place e where p: "x = (place, e)" by (cases x)
    with x ok have "entry_ok sha place e" unfolding memory_ok_def by blast
    then show "case x of (place, e) \<Rightarrow> place = storage (en_scope e) (en_key e) \<and> \<not> blank (en_scope e) \<and> \<not> blank (en_key e)
         \<and> CHR 0x00 \<notin> set (en_scope e) \<and> CHR 0x00 \<notin> set (en_key e)
         \<and> length (en_key e) \<le> 256 * 1024 \<and> length (en_value e) \<le> 256 * 1024
         \<and> en_record e = ''records/'' @ hex_digest (sha (en_scope e)) @ ''/'' @ hex_digest (sha (en_key e)) @ ''.md''"
      unfolding p entry_ok_def has_nul_def VALUE_LIMIT_def by simp
  qed
  then show ?thesis using ok unfolding memory_ok_def MEMORY_LIMIT_def by blast
qed

section \<open>A memory that was saved\<close>

lemma storage_inject:
  "storage s k = storage s' k' \<Longrightarrow> \<not> has_nul s \<Longrightarrow> \<not> has_nul s' \<Longrightarrow> s = s' \<and> k = k'"
  unfolding storage_def has_nul_def
  using split_once_Some [of "CHR 0x00" "s @ CHR 0x00 # k" s k] split_once_Some [of "CHR 0x00" "s' @ CHR 0x00 # k'" s' k'] by simp

lemma fold_max_ge: "(b :: u64) \<le> fold max xs b \<and> (\<forall>a \<in> set xs. a \<le> fold max xs b)"
proof (induction xs arbitrary: b)
  case (Cons x xs)
  have "max x b \<le> fold max xs (max x b)" "\<forall>a \<in> set xs. a \<le> fold max xs (max x b)" using Cons [of "max x b"] by blast+
  then show ?case by simp
qed simp

lemma latest_ge: "(k, e) \<in> set items \<Longrightarrow> en_updated e \<le> latest items"
  unfolding latest_def using fold_max_ge [of 0 "map en_updated (bvalues items)"] by force

lemma next_timestamp_later:
  assumes "(k, e) \<in> set (mm_items m)" and "latest (mm_items m) < - 1"
  shows "en_updated e < next_timestamp env m"
proof -
  have "latest (mm_items m) < sat_add (latest (mm_items m)) 1"
  proof -
    have "unat (latest (mm_items m)) < 2 ^ 64 - 1"
      using assms(2) by (simp add: word_less_nat_alt unsigned_minus_1_eq_mask mask_eq_exp_minus_1)
    then show ?thesis by (simp add: word_less_nat_alt unat_sat_add)
  qed
  also have "\<dots> \<le> next_timestamp env m" by (simp add: next_timestamp_def)
  finally show ?thesis using latest_ge [OF assms(1)] by simp
qed

lemma recalled_set: "bmap_ok (mm_items m) \<Longrightarrow> recalled m scope key = Some e \<longleftrightarrow> (storage scope key, e) \<in> set (mm_items m)"
  unfolding recalled_def by (simp add: bmap_ok_distinct)

lemma bget_evict: "bmap_ok items \<Longrightarrow> bget (evict items) k = bget items k \<or> bget (evict items) k = None"
proof (cases "bget (evict items) k")
  case (Some e)
  assume ok: "bmap_ok items"
  have "(k, e) \<in> set items" using map_of_SomeD [OF Some] evict_ok(3) [OF ok] by blast
  then show ?thesis using Some ok by (simp add: bmap_ok_distinct)
qed simp

lemma remembered_recalled:
  assumes "memory_ok sha m" and "latest (mm_items m) < - 1"
  shows "recalled (remembered env m scope key v) scope key = Some (new_entry env m scope key v)"
proof -
  let ?k = "storage scope key" and ?e = "new_entry env m scope key v"
  let ?items = "binsert ?k ?e (mm_items m)"
  have ok: "bmap_ok ?items" using assms(1) by (simp add: memory_ok_def bmap_ok_insert)
  have "bget ?items ?k = Some ?e" by (simp add: bget_insert)
  then have e: "(?k, ?e) \<in> set ?items" by (rule map_of_SomeD)
  have "en_updated e' < en_updated ?e" if "(k', e') \<in> set ?items" "k' \<noteq> ?k" for k' e'
  proof -
    have "(k', e') \<in> set (mm_items m)" using that binsert_set [of ?k ?e "mm_items m"] by blast
    from next_timestamp_later [OF this assms(2), of env] show ?thesis by (simp add: new_entry_def Let_def)
  qed
  from evict_keeps_newest [OF ok e this] have "(?k, ?e) \<in> set (evict ?items)" .
  then show ?thesis using evict_ok(1) [OF ok] by (simp add: recalled_def remembered_def bmap_ok_distinct)
qed

lemma remembered_others:
  assumes "memory_ok sha m" and "storage scope key \<noteq> k"
  shows "bget (mm_items (remembered env m scope key v)) k = bget (mm_items m) k
    \<or> length (mm_items m) = MEMORY_LIMIT \<and> bget (mm_items (remembered env m scope key v)) k = None"
proof -
  let ?items = "binsert (storage scope key) (new_entry env m scope key v) (mm_items m)"
  have ok: "bmap_ok ?items" using assms(1) by (simp add: memory_ok_def bmap_ok_insert)
  have g: "bget ?items k = bget (mm_items m) k" using assms(2) by (simp add: bget_insert)
  show ?thesis
  proof (cases "MEMORY_LIMIT < length ?items")
    case True
    have "length ?items \<le> Suc (length (mm_items m))" by (rule length_binsert_le)
    then have "length (mm_items m) = MEMORY_LIMIT" using True assms(1) by (simp add: memory_ok_def)
    then show ?thesis using bget_evict [OF ok, of k] g by (auto simp: remembered_def)
  qed (use g in \<open>simp add: remembered_def evict_def\<close>)
qed

text \<open>C32: A memory that was saved is found again, and nothing else changes: after a successful \<open>remember\<close>, whatever happens to
  the files, recalling the key in the scope gives the value that was sent, with the time of its first save kept; another
  memory is what it was before, unless the plugin was full, when one may have gone. The save was approved, or the learning
  mode is autonomous; and it is the last line of the history. (The clock of the memories must not have reached the end of
  its range.)\<close>

theorem remembered_value_recalled:
  assumes "memory_ok sha m" and "latest (mm_items m) < - 1"
    and "memory_request env i ''remember'' params (m, d) = (Inr (Some resp), m', d')"
  shows "\<exists>key val e. as_str (json_index params ''key'') = Some key \<and> as_str (json_index params ''value'') = Some val
    \<and> recalled m' (text_or ''global'' (json_index params ''scope'')) key = Some e
    \<and> en_value e = val \<and> en_key e = key \<and> en_scope e = text_or ''global'' (json_index params ''scope'')
    \<and> (case recalled m (text_or ''global'' (json_index params ''scope'')) key of None \<Rightarrow> True | Some e0 \<Rightarrow> en_created e = en_created e0)
    \<and> (\<forall>place. place = storage (text_or ''global'' (json_index params ''scope'')) key
         \<or> bget (mm_items m') place = bget (mm_items m) place
         \<or> length (mm_items m) = 1000 \<and> bget (mm_items m') place = None)
    \<and> (json_index params ''approved'' = JBool True \<or> learning_mode m params = ''autonomous'')
    \<and> (\<exists>a. mm_audit m' = keep_last 1000 (mm_audit m @ [a]) \<and> au_action a = ''remember'' \<and> au_key a = key
         \<and> au_scope a = en_scope e \<and> au_at a = en_updated e)"
proof -
  let ?scope = "text_or ''global'' (json_index params ''scope'')" and ?mode = "learning_mode m params"
  from assms(3) obtain v where r: "remember env params (m, d) = (Inr v, m', d')"
    by (auto simp: memory_request_def memory_method_def split: sum.splits prod.splits if_splits)
  then obtain key val where kv: "as_str (json_index params ''key'') = Some key" "as_str (json_index params ''value'') = Some val"
    by (auto simp: remember_def deny_def split: option.splits)
  have ref: "remember_refusal key val ?mode ?scope params = None"
    using r kv by (cases "remember_refusal key val ?mode ?scope params") (simp_all add: remember_def Let_def deny_def)
  with r kv have "keep_memory env m (remembered env m ?scope key val)
      (jobject [(''ok'', JBool True), (''scope'', JStr ?scope), (''mode'', JStr ?mode)]) d = (Inr v, m', d')"
    by (simp add: remember_def Let_def)
  from keep_memory_moves [OF this] have m': "m' = remembered env m ?scope key val" by simp
  let ?e = "new_entry env m ?scope key val"
  have e: "recalled m' ?scope key = Some ?e" unfolding m' by (rule remembered_recalled [OF assms(1,2)])
  have fields: "en_value ?e = val" "en_key ?e = key" "en_scope ?e = ?scope" "en_updated ?e = next_timestamp env m"
    "en_created ?e = (case recalled m ?scope key of None \<Rightarrow> next_timestamp env m | Some e0 \<Rightarrow> en_created e0)"
    by (simp_all add: new_entry_def Let_def recalled_def)
  have others: "place = storage ?scope key \<or> bget (mm_items m') place = bget (mm_items m) place
      \<or> length (mm_items m) = 1000 \<and> bget (mm_items m') place = None" for place
    using remembered_others [OF assms(1), of ?scope key place env val] unfolding m' MEMORY_LIMIT_def by blast
  have audit: "mm_audit m' = keep_last 1000 (mm_audit m @ [\<lparr>au_action = ''remember'', au_key = key, au_scope = ?scope, au_at = next_timestamp env m\<rparr>])"
    by (simp add: m' remembered_def audited_def MEMORY_LIMIT_def)
  show ?thesis
    by (rule exI [of _ key], rule exI [of _ val], rule exI [of _ ?e])
      (use kv e fields others audit remember_refusal_None(7) [OF ref] in \<open>auto split: option.splits\<close>)
qed

section \<open>Errors\<close>

lemma memory_request_error: "memory_request env i name params (m, d) = (Inl e, m', d') \<Longrightarrow> m' = m \<or> e = frame_error"
  unfolding memory_request_def
  by (auto split: option.splits prod.splits sum.splits if_splits dest: memory_method_moves(2))

lemma run_request_error:
  assumes "run_request env i as_json command q (m, d) = (Inl e, m', d')"
  shows "m' = m \<or> e = frame_error"
proof -
  obtain x m1 d1 where x: "memory_request env i (fst q) (snd q) (m, d) = (x, m1, d1)"
    by (cases "memory_request env i (fst q) (snd q) (m, d)") auto
  show ?thesis
  proof (cases x)
    case (Inl e')
    with assms x memory_request_error [of env i "fst q" "snd q" m d e' m1 d1] show ?thesis by (auto simp: run_request_def)
  next
    case (Inr y)
    show ?thesis
    proof (cases y)
      case None
      with x Inr have "m1 = m" by (auto simp: memory_request_def split: option.splits sum.splits if_splits)
      with None Inr assms x show ?thesis by (simp add: run_request_def)
    next
      case (Some resp)
      then obtain v where "resp = response_ok i v"
        using x Inr by (auto simp: memory_request_def split: option.splits sum.splits if_splits)
      with Inr Some assms x show ?thesis by (simp add: run_request_def response_ok_def)
    qed
  qed
qed

text \<open>C34: A request or command that fails leaves the memories as they were, even when it fails half-way through its files:
  the state of the plugin is the one before. The only failure that comes after a change is an answer too long for a
  frame.\<close>

theorem failed_request_keeps_memories:
  assumes "memory_call env req (m, d) = (Inl e, m', d')"
  shows "m' = m \<or> e = frame_error"
proof (cases req)
  case (Note v n ps)
  then show ?thesis using assms by (simp add: memory_call_def)
next
  case (Call v i n ps)
  show ?thesis
  proof (cases "n = ''command''")
    case False
    with Call assms have "memory_request env i n ps (m, d) = (Inl e, m', d')" by (simp add: memory_call_def)
    then show ?thesis by (rule memory_request_error)
  next
    case True
    with Call assms have c: "command_at env i ps (m, d) = (Inl e, m', d')" by (simp add: memory_call_def)
    show ?thesis
    proof (rule ccontr)
      assume n: "\<not> (m' = m \<or> e = frame_error)"
      then obtain as_json command opts where "run_command env i as_json command opts (m, d) = (Inl e, m', d')"
        using c unfolding command_at_def by (auto split: option.splits list.splits sum.splits)
      from run_command_cases [OF this] n obtain q where "run_request env i as_json command q (m, d) = (Inl e, m', d')" by auto
      from run_request_error [OF this] n show False by blast
    qed
  qed
qed

section \<open>Scopes\<close>

lemma newest_first_set [simp]: "set (newest_first es) = set es"
  by (simp add: newest_first_def)

lemma found_in_scope: "e \<in> set (found env m query scope) \<Longrightarrow> e \<in> set (entries_of m) \<and> scope_matches scope e"
  unfolding found_def by (auto dest!: in_set_takeD)

lemma memory_scope_inject:
  assumes "memory_scope c1 h1 = memory_scope c2 h2" and "CHR '':'' \<notin> set c1" and "CHR '':'' \<notin> set c2"
  shows "c1 = c2 \<and> h1 = h2"
proof -
  have p: "(c = ''tui'') = (hd (memory_scope c h) = CHR ''t'')" for c h
    by (simp add: memory_scope_def)
  then have t: "(c1 = ''tui'') = (c2 = ''tui'')" using assms(1) by metis
  show ?thesis
  proof (cases "c1 = ''tui''")
    case True
    with t assms(1) show ?thesis by (simp add: memory_scope_def)
  next
    case False
    with t assms(1) have "c1 @ CHR '':'' # h1 = c2 @ CHR '':'' # h2" by (simp add: memory_scope_def)
    then show ?thesis
      using assms(2,3) split_once_Some [of "CHR '':''" "c1 @ CHR '':'' # h1" c1 h1] split_once_Some [of "CHR '':''" "c2 @ CHR '':'' # h2" c2 h2]
      by simp
  qed
qed

text \<open>C30: What a chat asked to remember stays with the chat: the search that the daemon makes for a chat, whatever arguments
  the model wrote, changes nothing and finds at most 20 memories, all of the chat's own scope or global ones; a memory in
  the scope of any other chat of any channel is not among them.\<close>

theorem search_stays_in_chat:
  assumes "memory_request env i ''search'' (memory_params (memory_scope channel chat) ''search'' approve vs) w = (Inr (Some resp), w')"
    and "CHR '':'' \<notin> set channel" and "CHR '':'' \<notin> set channel2" and "(channel2, chat2) \<noteq> (channel, chat)"
  shows "w' = w \<and> (\<exists>es. r_result resp = Some (jobject [(''items'', JArr (map search_item es))]) \<and> length es \<le> 20
    \<and> set es \<subseteq> set (entries_of (fst w))
    \<and> set (map en_scope es) \<subseteq> {memory_scope channel chat, ''global''}
    \<and> memory_scope channel2 chat2 \<notin> set (map en_scope es))"
proof -
  let ?ps = "memory_params (memory_scope channel chat) ''search'' approve vs"
  have scope: "as_str (json_index ?ps ''scope'') = Some (memory_scope channel chat)"
    by (simp add: memory_params_def bget_insert)
  obtain v where v: "search_memories env (fst w) ?ps = Inr v" "resp = response_ok i v" "w' = w"
    using assms(1) by (auto simp: memory_request_def memory_method_def split: sum.splits if_splits)
  obtain query where q: "v = jobject [(''items'', JArr (map search_item (found env (fst w) query (Some (memory_scope channel chat)))))]"
    using v(1) unfolding search_memories_def scope by (auto split: option.splits if_splits)
  let ?es = "found env (fst w) query (Some (memory_scope channel chat))"
  have in_scope: "en_scope e \<in> {memory_scope channel chat, ''global''}" "e \<in> set (entries_of (fst w))" if "e \<in> set ?es" for e
    using found_in_scope [OF that] by (auto simp: scope_matches_def)
  have "memory_scope channel2 chat2 \<noteq> memory_scope channel chat"
    using memory_scope_inject [of channel2 chat2 channel chat] assms(2-4) by auto
  moreover have "memory_scope channel2 chat2 \<noteq> ''global''" by (simp add: memory_scope_def)
  ultimately have "memory_scope channel2 chat2 \<notin> set (map en_scope ?es)" using in_scope(1) by fastforce
  moreover have "length ?es \<le> 20" by (simp add: found_def)
  moreover have "r_result resp = Some (jobject [(''items'', JArr (map search_item ?es))])"
    by (simp add: v(2) q response_ok_def)
  ultimately show ?thesis using in_scope v(3) by auto
qed

section \<open>Examples\<close>

text \<open>A plugin that keeps its memories without a file.\<close>


definition plain_memory_env :: "unit memory_env" where
  "plain_memory_env = \<lparr>mv_path = None, mv_now = 7, mv_nonce = 1,
     mv_files = \<lparr>f_load = (\<lambda>p n d. (Inr None, d)), f_save = (\<lambda>p s d. (Inr (), d)), f_private = (\<lambda>p d. (Inr (), d)),
       f_exists = (\<lambda>p d. False), f_list = (\<lambda>p d. Inr []), f_read = (\<lambda>p d. Inl (IoError NotFound [])), f_remove = (\<lambda>p d. (Inr (), d))\<rparr>,
     mv_root = (\<lambda>p d. (Inr (), d)), mv_dir = (\<lambda>p d. (Inr (), d)), mv_is_file = (\<lambda>p d. False), mv_rename = (\<lambda>p q d. d),
     mv_sha = (\<lambda>s. replicate 32 CHR ''s''), mv_utf8 = Some, mv_parse = (\<lambda>s. None), mv_parse_map = (\<lambda>s. None), mv_pretty = (\<lambda>m. ''m''),
     mv_response_len = (\<lambda>r. 0), mv_print = (\<lambda>v. ''v''), mv_lower = id, mv_alphanumeric = (\<lambda>c. True)\<rparr>"

definition tea_params :: json where
  "tea_params = jobject [(''key'', JStr ''tea''), (''value'', JStr ''green''), (''approved'', JBool True)]"

lemma tea_arguments:
  "json_index tea_params ''key'' = JStr ''tea''" "json_index tea_params ''value'' = JStr ''green''"
  "json_index tea_params ''approved'' = JBool True" "json_index tea_params ''scope'' = JNull"
  "json_index tea_params ''mode'' = JNull" by code_simp+

lemma tea_saved:
  "memory_request plain_memory_env 1 ''remember'' tea_params (default_memory, ())
     = (Inr (Some (response_ok 1 (jobject [(''ok'', JBool True), (''scope'', JStr ''global''), (''mode'', JStr ''guided'')]))),
        remembered plain_memory_env default_memory ''global'' ''tea'' ''green'', ())"
proof -
  have "remember_refusal ''tea'' ''green'' ''guided'' ''global'' tea_params = None"
    by (simp add: remember_refusal_def tea_arguments has_nul_def VALUE_LIMIT_def) code_simp
  then have "remember plain_memory_env tea_params (default_memory, ())
      = (Inr (jobject [(''ok'', JBool True), (''scope'', JStr ''global''), (''mode'', JStr ''guided'')]),
        remembered plain_memory_env default_memory ''global'' ''tea'' ''green'', ())"
    by (simp add: remember_def tea_arguments learning_mode_def default_memory_def guided_def text_or_def keep_memory_def
        persist_at_def remove_orphan_records_def plain_memory_env_def Let_def)
  then show ?thesis
    by (simp add: memory_request_def memory_method_def response_fits_def plain_memory_env_def FRAME_HEADROOM_def frame_max_def)
qed

lemma tea_reached: "remembers (mv_sha plain_memory_env) (remembered plain_memory_env default_memory ''global'' ''tea'' ''green'', ())"
proof (rule remembers.request [OF remembers.start refl])
  show "memory_call plain_memory_env (Call ''2.0'' 1 ''remember'' tea_params) (default_memory, ())
      = (Inr (Some (response_ok 1 (jobject [(''ok'', JBool True), (''scope'', JStr ''global''), (''mode'', JStr ''guided'')]))),
         remembered plain_memory_env default_memory ''global'' ''tea'' ''green'', ())"
    by (simp add: memory_call_def tea_saved)
qed

theorem reachable_memories_well_formed_witness:
  "bmap_ok (mm_items (remembered plain_memory_env default_memory ''global'' ''tea'' ''green''))"
  using reachable_memories_well_formed [OF tea_reached] by simp

theorem remembered_value_recalled_witness:
  "\<exists>e. recalled (remembered plain_memory_env default_memory ''global'' ''tea'' ''green'') ''global'' ''tea'' = Some e \<and> en_value e = ''green''"
proof -
  have "latest (mm_items default_memory) < - 1" by (simp add: latest_def default_memory_def word_gt_0)
  from remembered_value_recalled [OF default_memory_ok this tea_saved]
  show ?thesis by (auto simp: tea_arguments text_or_def)
qed

theorem failed_request_keeps_memories_witness:
  "\<exists>e m' d'. memory_call plain_memory_env (Call ''2.0'' 1 ''remember'' JNull) (default_memory, ()) = (Inl e, m', d') 
    \<and> (m' = default_memory \<or> e = frame_error)"
proof -
  have "\<exists>e m' d'. memory_call plain_memory_env (Call ''2.0'' 1 ''remember'' JNull) (default_memory, ()) = (Inl e, m', d')"
    by (simp add: memory_call_def memory_request_def memory_method_def remember_def deny_def)
  with failed_request_keeps_memories show ?thesis by metis
qed

theorem search_stays_in_chat_witness:
  "\<exists>es. set es \<subseteq> set (entries_of (remembered plain_memory_env default_memory ''global'' ''tea'' ''green''))
     \<and> set (map en_scope es) \<subseteq> {memory_scope ''telegram'' ''5'', ''global''}
     \<and> memory_scope ''telegram'' ''6'' \<notin> set (map en_scope es)"
proof -
  let ?m = "remembered plain_memory_env default_memory ''global'' ''tea'' ''green''"
  let ?ps = "memory_params (memory_scope ''telegram'' ''5'') ''search'' False [(''query'', JStr ''tea'')]"
  have q: "json_index ?ps ''query'' = JStr ''tea''" by (simp add: memory_params_def bget_insert)
  have b: "\<not> blank ''tea''" by code_simp
  have "\<exists>resp. memory_request plain_memory_env 1 ''search'' ?ps (?m, ()) = (Inr (Some resp), ?m, ())"
    by (simp add: memory_request_def memory_method_def search_memories_def q b)
      (simp add: response_fits_def plain_memory_env_def FRAME_HEADROOM_def frame_max_def)
  then obtain resp where r: "memory_request plain_memory_env 1 ''search'' ?ps (?m, ()) = (Inr (Some resp), ?m, ())" by blast
  show ?thesis using search_stays_in_chat [OF r, of "''telegram''" "''6''"] by auto
qed

end
