(* ===== verification/Memory_Restart.thy ===== *)
theory Memory_Restart
  imports Memory_Laws Catalog_Disk
begin

text \<open>
  The memory plugin and its files: after a request that saved, a restart loads exactly the state that the plugin answered
  from. The files are those of \<open>krabb-file\<close> (Catalog_Disk).
\<close>

section \<open>Paths of records\<close>

lemma split_on_first: "c \<notin> set a \<Longrightarrow> split_on c (a @ c # b) = a # split_on c b"
  by (induction a) auto

lemma split_on_single: "c \<notin> set a \<Longrightarrow> split_on c a = [a]"
  by (induction a) auto

lemma hex_plain: "CHR ''/'' \<notin> set (hex_digest s)" "CHR ''.'' \<notin> set (hex_digest s)"
proof -
  have "\<not> is_ascii_hexdigit CHR ''/''" "\<not> is_ascii_hexdigit CHR ''.''"
    by (simp_all add: is_ascii_hexdigit_def is_ascii_digit_def code_def)
  then show "CHR ''/'' \<notin> set (hex_digest s)" "CHR ''.'' \<notin> set (hex_digest s)"
    using hex_hexdigits [of s] unfolding hex_digest_hex list_all_iff by blast+
qed

definition sha_law :: "(string \<Rightarrow> string) \<Rightarrow> bool" where
  "sha_law sha \<longleftrightarrow> (\<forall>s. length (sha s) = 32)"

lemma hex_length: "sha_law sha \<Longrightarrow> length (hex_digest (sha s)) = 64"
  by (simp add: sha_law_def hex_digest_hex)

lemma record_path:
  assumes "sha_law sha"
  shows "join_path parent (''records/'' @ hex_digest (sha a) @ ''/'' @ hex_digest (sha b) @ ''.md'')
    = parent @ [''records'', hex_digest (sha a), hex_digest (sha b) @ ''.md'']"
proof -
  let ?a = "hex_digest (sha a)" and ?b = "hex_digest (sha b) @ ''.md''"
  have n: "CHR ''/'' \<notin> set ''records''" "CHR ''/'' \<notin> set ?a" "CHR ''/'' \<notin> set ?b" using hex_plain(1) by simp_all
  have "split_on CHR ''/'' (''records'' @ CHR ''/'' # ?a @ CHR ''/'' # ?b) = [''records'', ?a, ?b]"
    by (simp only: split_on_first [OF n(1)] split_on_first [OF n(2)] split_on_single [OF n(3)])
  then have s: "split_on CHR ''/'' (''records/'' @ ?a @ ''/'' @ ?b) = [''records'', ?a, ?b]" by simp
  have "?a \<noteq> []" "?a \<noteq> ''.''" "?b \<noteq> []" "?b \<noteq> ''.''"
    using hex_length [OF assms, of a] hex_length [OF assms, of b] by auto
  moreover have "strip_prefix ''/'' (''records/'' @ ?a @ ''/'' @ ?b) = None" by (simp add: strip_prefix_def)
  ultimately show ?thesis by (simp only: join_path_def s Let_def) simp
qed

lemma record_path_plain:
  assumes "sha_law sha"
  shows "plain (parent @ [''records'', hex_digest (sha a), hex_digest (sha b) @ ''.md''])"
proof -
  have "hex_digest (sha b) \<noteq> []" using hex_length [OF assms, of b] by auto
  then obtain c s where cs: "hex_digest (sha b) = c # s" by (cases "hex_digest (sha b)") auto
  then have "c \<noteq> CHR ''.''" using hex_plain(2) [of "sha b"] by auto
  with cs show ?thesis by (simp add: plain_def)
qed

section \<open>Saving\<close>

text \<open>What the plugin relies on: the directories are made without touching files, the text of the state that is saved is read back
  as that state, and SHA-256 gives 32 bytes.\<close>

definition dirs_law :: "disk memory_env \<Rightarrow> bool" where
  "dirs_law env \<longleftrightarrow> (\<forall>p d. quiet d \<longrightarrow>
     quiet (snd (mv_root env p d)) \<and> disk_content (snd (mv_root env p d)) = disk_content d
     \<and> quiet (snd (mv_dir env p d)) \<and> disk_content (snd (mv_dir env p d)) = disk_content d)"

definition text_law :: "disk memory_env \<Rightarrow> memory \<Rightarrow> bool" where
  "text_law env m \<longleftrightarrow> mv_utf8 env (mv_pretty env m) = Some (mv_pretty env m) \<and> mv_parse env (mv_pretty env m) = Some m"

lemma io_step_cases: "io_step x = (Inr u, d) \<longleftrightarrow> x = (Inr u, d)"
  by (auto simp: io_step_def split: prod.splits sum.splits)

lemma dirs_dir: "dirs_law env \<Longrightarrow> quiet d \<Longrightarrow> mv_dir env p d = (r, d1) \<Longrightarrow> quiet d1 \<and> disk_content d1 = disk_content d"
  unfolding dirs_law_def by (drule spec [of _ p], drule spec [of _ d]) simp

lemma dirs_root: "dirs_law env \<Longrightarrow> quiet d \<Longrightarrow> mv_root env p d = (r, d1) \<Longrightarrow> quiet d1"
  unfolding dirs_law_def by (drule spec [of _ p], drule spec [of _ d]) simp

text \<open>A step that succeeded, and the steps after it.\<close>

lemma io_chain: "(case io_step x of (Inl e, d1) \<Rightarrow> (Inl e, d1) | (Inr u, d1) \<Rightarrow> f u d1) = (Inr v, d') \<Longrightarrow>
    \<exists>u d1. x = (Inr u, d1) \<and> f u d1 = (Inr v, d')"
  by (cases x; cases "fst x") (auto simp: io_step_def)

lemma saved_record_path:
  assumes "memory_ok sha m" and "sha_law sha" and "e \<in> set (entries_of m)" and "mv_sha env = sha"
  shows "\<exists>a b. join_path parent (record_of env e) = parent @ [''records'', a, b] \<and> plain (parent @ [''records'', a, b])"
proof -
  from assms(3) obtain k where "(k, e) \<in> set (mm_items m)" by (auto simp: entries_of_def)
  then have "entry_ok sha k e" using assms(1) unfolding memory_ok_def by blast
  then have r: "record_of env e = ''records/'' @ hex_digest (sha (en_scope e)) @ ''/'' @ hex_digest (sha (en_key e)) @ ''.md''"
    by (simp add: entry_ok_def record_of_def)
  show ?thesis unfolding r record_path [OF assms(2)] using record_path_plain [OF assms(2)] by blast
qed

lemma save_records_keeps:
  assumes "mv_files env = disk_files jc nonce" and "dirs_law env"
  shows "(\<And>e. e \<in> set es \<Longrightarrow> plain (join_path parent (record_of env e)) \<and> join_path parent (record_of env e) \<noteq> path) \<Longrightarrow>
     quiet d \<Longrightarrow> save_records env parent es d = (Inr u, d') \<Longrightarrow> quiet d' \<and> disk_content d' path = disk_content d path"
proof (induction es arbitrary: d)
  case (Cons e es)
  let ?p = "join_path parent (record_of env e)"
  have p: "plain ?p" "?p \<noteq> path" "?p \<noteq> []" using Cons.prems(1) [of e] by (auto simp: plain_def)
  note run = Cons.prems(3) [unfolded save_records.simps Let_def if_not_P [OF p(3)]]
  from io_chain [OF run] obtain d1 u1 where 1: "mv_dir env (butlast ?p) d = (Inr u1, d1)"
    and r1: "(case io_step (f_save (mv_files env) ?p (record_contents e) d1) of
      (Inl er, d2) \<Rightarrow> (Inl er, d2) | (Inr u, d2) \<Rightarrow> save_records env parent es d2) = (Inr u, d')"
    by blast
  from io_chain [OF r1] obtain d2 u2 where 2: "f_save (mv_files env) ?p (record_contents e) d1 = (Inr u2, d2)"
    and r2: "save_records env parent es d2 = (Inr u, d')"
    by blast
  have q1: "quiet d1" "disk_content d1 = disk_content d" using dirs_dir [OF assms(2) Cons.prems(2) 1] by simp_all
  have "quiet d2 \<and> disk_content d2 = (disk_content d1)(?p \<mapsto> record_contents e)"
    by (rule krabb_file.save_law [OF q1(1) p(1)]) (use 2 assms(1) in simp)
  then have q2: "quiet d2" "disk_content d2 = (disk_content d1)(?p \<mapsto> record_contents e)" by simp_all
  from Cons.IH [OF _ q2(1) r2] Cons.prems(1) q1 q2 p(2) show ?case by auto
qed simp

lemma persist_saves:
  assumes "memory_ok (mv_sha env) m" and "sha_law (mv_sha env)" and "mv_files env = disk_files jc nonce" and "dirs_law env"
    and "mv_path env = Some path" and "plain path" and "quiet d" and "persist_at env m d = (Inr u, d')"
  shows "quiet d' \<and> disk_content d' path = Some (mv_pretty env (with_records env m))
    \<and> length (mv_pretty env (with_records env m)) \<le> MEMORY_BYTE_LIMIT"
proof -
  let ?text = "mv_pretty env (with_records env m)"
  have len: "\<not> MEMORY_BYTE_LIMIT < length ?text"
    using assms(8) by (simp add: persist_at_def assms(5) Let_def split: if_splits)
  note run = assms(8) [unfolded persist_at_def assms(5) option.case Let_def if_not_P [OF len]]
  from io_chain [OF run] obtain u1 d1 where 1: "mv_root env (butlast path) d = (Inr u1, d1)"
    and r1: "(case save_records env (butlast path) (bvalues (mm_items m)) d1 of
        (Inl e, d2) \<Rightarrow> (Inl e, d2) | (Inr u, d2) \<Rightarrow> io_step (f_save (mv_files env) path ?text d2)) = (Inr u, d')"
    by blast
  obtain x d2 where x: "save_records env (butlast path) (bvalues (mm_items m)) d1 = (x, d2)"
    by (cases "save_records env (butlast path) (bvalues (mm_items m)) d1")
  with r1 obtain u2 where u2: "x = Inr u2" and r2: "io_step (f_save (mv_files env) path ?text d2) = (Inr u, d')"
    by (cases x) auto
  have 2: "save_records env (butlast path) (bvalues (mm_items m)) d1 = (Inr u2, d2)" using x u2 by simp
  have 3: "f_save (disk_files jc nonce) path ?text d2 = (Inr u, d')" using r2 assms(3) by (simp only: io_step_cases)
  have q1: "quiet d1" by (rule dirs_root [OF assms(4,7) 1])
  have "quiet d2"
  proof -
    have "plain (join_path (butlast path) (record_of env e)) \<and> join_path (butlast path) (record_of env e) \<noteq> path"
      if "e \<in> set (bvalues (mm_items m))" for e
    proof -
      have "e \<in> set (entries_of m)" using that by (simp add: entries_of_def)
      from saved_record_path [OF assms(1,2) this refl, of "butlast path"] obtain a b where
        ab: "join_path (butlast path) (record_of env e) = butlast path @ [''records'', a, b]" "plain (butlast path @ [''records'', a, b])"
        by blast
      moreover have "length (butlast path @ [''records'', a, b]) \<noteq> length path" by simp
      ultimately show ?thesis by metis
    qed
    from save_records_keeps [OF assms(3,4) this q1 2] show ?thesis by blast
  qed
  from krabb_file.save_law [OF this assms(6) 3] len show ?thesis by simp
qed

section \<open>Loading what was saved\<close>

lemma ok_record: "memory_ok (mv_sha env) m \<Longrightarrow> (k, e) \<in> set (mm_items m) \<Longrightarrow> record_of env e = en_record e \<and> named_entry env k e = e"
proof -
  assume "memory_ok (mv_sha env) m" and "(k, e) \<in> set (mm_items m)"
  then have "entry_ok (mv_sha env) k e" unfolding memory_ok_def by blast
  then have "en_key e \<noteq> []" "en_record e \<noteq> []" by (auto simp: entry_ok_def)
  then show ?thesis by (simp add: record_of_def named_entry_def Let_def)
qed

lemma ok_with_records: "memory_ok (mv_sha env) m \<Longrightarrow> with_records env m = m"
proof -
  assume ok: "memory_ok (mv_sha env) m"
  have "bmap_values (\<lambda>e. e\<lparr>en_record := record_of env e\<rparr>) (mm_items m) = mm_items m"
    unfolding bmap_values_def by (rule map_idI) (use ok_record [OF ok] in force)
  then show ?thesis by (simp add: with_records_def)
qed

lemma ok_bounded: "memory_ok (mv_sha env) m \<Longrightarrow> bounded_memory env m = m"
proof -
  assume ok: "memory_ok (mv_sha env) m"
  have "map (\<lambda>(place, e). (place, named_entry env place e)) (mm_items m) = mm_items m"
    by (rule map_idI) (use ok_record [OF ok] in force)
  then show ?thesis using ok by (simp add: bounded_memory_def Let_def memory_ok_def)
qed

lemma orphans_kept:
  assumes "memory_ok (mv_sha env) m0" and "sha_law (mv_sha env)" and "mv_files env = disk_files jc nonce"
    and "mv_path env = Some path" and "plain path" and "quiet d"
  shows "quiet (remove_orphan_records env m0 m1 d)
    \<and> disk_content (remove_orphan_records env m0 m1 d) path = disk_content d path"
proof -
  let ?P = "\<lambda>e. plain (join_path (butlast path) (record_of env e)) \<and> join_path (butlast path) (record_of env e) \<noteq> path"
  let ?f = "\<lambda>e d. if record_of env e \<in> set (map (record_of env) (bvalues (mm_items m1))) then d
      else snd (f_remove (mv_files env) (join_path (butlast path) (record_of env e)) d)"
  have P: "?P e" if "e \<in> set (entries_of m0)" for e
  proof -
    from saved_record_path [OF assms(1,2) that refl, of "butlast path"] obtain a b where
      ab: "join_path (butlast path) (record_of env e) = butlast path @ [''records'', a, b]" "plain (butlast path @ [''records'', a, b])"
      by blast
    moreover have "length (butlast path @ [''records'', a, b]) \<noteq> length path" by simp
    ultimately show ?thesis by metis
  qed
  have "quiet (fold ?f es d) \<and> disk_content (fold ?f es d) path = disk_content d path"
    if "\<forall>e \<in> set es. ?P e" "quiet d" for es d
    using that
  proof (induction es arbitrary: d)
    case (Cons e es)
    have "quiet (?f e d) \<and> disk_content (?f e d) path = disk_content d path"
    proof (cases "record_of env e \<in> set (map (record_of env) (bvalues (mm_items m1)))")
      case False
      obtain r d' where r: "f_remove (disk_files jc nonce) (join_path (butlast path) (record_of env e)) d = (r, d')" by fastforce
      from krabb_file.remove_law [OF Cons.prems(2) _ r] Cons.prems(1)
      have "quiet d'" "disk_content d' path = disk_content d path" by auto
      then show ?thesis using False r assms(3) by simp
    qed (use Cons.prems(2) in simp)
    with Cons.IH [of "?f e d"] Cons.prems(1) show ?case by simp
  qed simp
  from this [of "bvalues (mm_items m0)" d] P assms(4,6) show ?thesis
    by (simp add: remove_orphan_records_def Let_def entries_of_def)
qed

text \<open>C31: Nothing that the plugin confirmed is lost by a restart: when a request to remember, to forget or to change the
  learning mode succeeded, loading the index from the files as they are then gives exactly the state of the plugin, with
  every memory, the history and the mode, and reports no damage.\<close>

theorem memories_survive_restart:
  assumes "remembers (mv_sha env) (m, d)" and "mv_path env = Some path" and "plain path" and "mv_files env = disk_files jc nonce"
    and "quiet d" and "sha_law (mv_sha env)" and "dirs_law env" and "text_law env m'"
    and "name \<in> {''remember'', ''forget'', ''learning''}"
    and "memory_request env i name params (m, d) = (Inr (Some resp), m', d')"
  shows "load_memory env d' = (m', d')"
proof -
  have ok: "memory_ok (mv_sha env) m" using remembers_ok [OF assms(1)] by simp
  have ok': "memory_ok (mv_sha env) m'" using memory_move_ok [OF memory_request_moves [OF assms(10)] ok] .
  obtain v where v: "memory_method env name params (m, d) = Some (Inr v, m', d')"
    using assms(10) by (auto simp: memory_request_def split: option.splits sum.splits if_splits)
  have "\<exists>d1. persist_at env m' d = (Inr (), d1) \<and> (d' = d1 \<or> d' = remove_orphan_records env m m' d1)"
  proof -
    have k: "\<exists>d1. persist_at env m' d = (Inr (), d1) \<and> d' = remove_orphan_records env m m' d1"
      if "keep_memory env m m1 x d = (Inr v, m', d')" for m1 x
      using that by (auto simp: keep_memory_def split: prod.splits sum.splits)
    from v assms(9) consider "remember env params (m, d) = (Inr v, m', d')" | "forget env params (m, d) = (Inr v, m', d')"
      | "set_learning env params (m, d) = (Inr v, m', d')"
      by (auto simp: memory_method_def)
    then show ?thesis
    proof cases
      case 1
      then obtain m1 x where "keep_memory env m m1 x d = (Inr v, m', d')"
        by (auto simp: remember_def deny_def Let_def split: option.splits)
      from k [OF this] show ?thesis by blast
    next
      case 2
      then obtain m1 x where "keep_memory env m m1 x d = (Inr v, m', d')"
        by (auto simp: forget_def deny_def Let_def split: option.splits if_splits)
      from k [OF this] show ?thesis by blast
    next
      case 3
      then show ?thesis by (auto simp: set_learning_def deny_def Let_def split: option.splits if_splits prod.splits sum.splits)
    qed
  qed
  then obtain d1 where d1: "persist_at env m' d = (Inr (), d1)" "d' = d1 \<or> d' = remove_orphan_records env m m' d1" by blast
  from persist_saves [OF ok' assms(6,4,7,2,3,5) d1(1)] have p: "quiet d1" "disk_content d1 path = Some (mv_pretty env m')"
    "length (mv_pretty env m') \<le> MEMORY_BYTE_LIMIT"
    by (simp_all add: ok_with_records [OF ok'])
  have c: "quiet d'" "disk_content d' path = Some (mv_pretty env m')"
    using d1(2) p orphans_kept [OF ok assms(6,4,2,3) p(1), of m'] by auto
  have "f_load (mv_files env) path MEMORY_BYTE_LIMIT d' = (Inr (Some (mv_pretty env m')), d')"
    unfolding assms(4) c(2) [symmetric] by (rule krabb_file.load_law [OF c(1) assms(3)]) (use c(2) p(3) in simp)
  moreover have "read_memory env (mv_pretty env m') = Some m'"
    using assms(8) by (simp add: text_law_def read_memory_def)
  ultimately show ?thesis by (simp add: load_memory_def assms(2) ok_bounded [OF ok'])
qed

text \<open>A plugin that keeps its memories in a file, for an example.\<close>

definition filed_memory :: memory where
  "filed_memory = default_memory\<lparr>mm_learning := ''autonomous''\<rparr>"

definition filed_memory_env :: "disk memory_env" where
  "filed_memory_env = \<lparr>mv_path = Some [''m'', ''index.json''], mv_now = 7, mv_nonce = 1,
     mv_files = disk_files dot_codec (\<lambda>n. ''1''),
     mv_root = (\<lambda>p d. (Inr (), d)), mv_dir = (\<lambda>p d. (Inr (), d)), mv_is_file = (\<lambda>p d. True), mv_rename = (\<lambda>p q d. d),
     mv_sha = (\<lambda>s. replicate 32 CHR ''s''), mv_utf8 = Some, mv_parse = (\<lambda>s. Some filed_memory), mv_parse_map = (\<lambda>s. None),
     mv_pretty = (\<lambda>m. mm_learning m),
     mv_response_len = (\<lambda>r. 0), mv_print = (\<lambda>v. ''v''), mv_lower = id, mv_alphanumeric = (\<lambda>c. True)\<rparr>"

theorem memories_survive_restart_witness:
  "\<exists>d resp. memory_request filed_memory_env 1 ''learning'' (jobject [(''mode'', JStr ''autonomous'')]) (default_memory, blank_disk)
       = (Inr (Some resp), filed_memory, d)
     \<and> load_memory filed_memory_env d = (filed_memory, d)"
proof -
  let ?ps = "jobject [(''mode'', JStr ''autonomous'')]"
  have mode: "json_index ?ps ''mode'' = JStr ''autonomous''" by code_simp
  have q: "quiet blank_disk" by (simp add: quiet_def blank_disk_def dir_at_def)
  have "fst (f_save (disk_files dot_codec (\<lambda>n. ''1'')) [''m'', ''index.json''] ''autonomous'' blank_disk) = Inr ()"
    by code_simp
  then obtain d where d: "f_save (disk_files dot_codec (\<lambda>n. ''1'')) [''m'', ''index.json''] ''autonomous'' blank_disk = (Inr (), d)"
    by (metis prod.collapse)
  have "persist_at filed_memory_env filed_memory blank_disk = (Inr (), d)"
    by (simp add: persist_at_def filed_memory_env_def filed_memory_def default_memory_def with_records_def io_step_def d
        MEMORY_BYTE_LIMIT_def)
  then have "set_learning filed_memory_env ?ps (default_memory, blank_disk) = (Inr (jobject [(''learning'', JStr ''autonomous'')]), filed_memory, d)"
    by (simp add: set_learning_def mode filed_memory_def)
  then have "\<exists>resp. memory_request filed_memory_env 1 ''learning'' ?ps (default_memory, blank_disk) = (Inr (Some resp), filed_memory, d)"
    by (simp add: memory_request_def memory_method_def response_fits_def filed_memory_env_def FRAME_HEADROOM_def frame_max_def)
  then obtain resp where r: "memory_request filed_memory_env 1 ''learning'' ?ps (default_memory, blank_disk)
    = (Inr (Some resp), filed_memory, d)" by blast
  have env: "mv_path filed_memory_env = Some [''m'', ''index.json'']" "plain [''m'', ''index.json'']"
    "mv_files filed_memory_env = disk_files dot_codec (\<lambda>n. ''1'')" "sha_law (mv_sha filed_memory_env)" "dirs_law filed_memory_env"
    "text_law filed_memory_env filed_memory"
    by (simp_all add: filed_memory_env_def plain_def sha_law_def dirs_law_def text_law_def)
  have "load_memory filed_memory_env d = (filed_memory, d)"
    by (rule memories_survive_restart [OF remembers.start env(1-3) q env(4-6) _ r]) simp
  with r show ?thesis by blast
qed

end
