(* ===== verification/Tools_Fetch.thy ===== *)
theory Tools_Fetch
  imports Channel_Policy Schedule_Text
begin

unbundle bit_operations_syntax

text \<open>
  Fetching a page, a tool of the plugin \<open>krabb-plugins/tools/src/main.rs\<close>: the checks of the URL and of the addresses its
  host resolves to, and the loop over redirections with its limits.

  The packages \<open>url\<close> and \<open>reqwest\<close>, the resolver and the network are functions of the environment. The state keeps,
  beside the network, the connections that were made: the URL and the addresses that the client was bound to.
\<close>

definition FETCH_BODY_LIMIT :: nat where "FETCH_BODY_LIMIT = 2 * 1024 * 1024"
definition FETCH_TEXT_LIMIT :: nat where "FETCH_TEXT_LIMIT = 48 * 1024"
definition FETCH_REDIRECT_LIMIT :: nat where "FETCH_REDIRECT_LIMIT = 3"

section \<open>Errors\<close>

text \<open>A refusal ends in a full stop.\<close>

definition denied :: "string \<Rightarrow> core_error" where
  "denied e = Denied (if e \<noteq> [] \<and> last e = CHR ''.'' then e else e @ ''.'')"

section \<open>Public addresses\<close>

type_synonym ipv4 = "32 word"
type_synonym ipv6 = "128 word"

datatype ip_addr = V4 ipv4 | V6 ipv6

definition octet :: "nat \<Rightarrow> ipv4 \<Rightarrow> 8 word" where
  "octet i a = ucast (drop_bit (24 - 8 * i) a)"

definition ipv4_new :: "8 word \<Rightarrow> 8 word \<Rightarrow> 8 word \<Rightarrow> 8 word \<Rightarrow> ipv4" where
  "ipv4_new a b c d = push_bit 24 (ucast a) OR push_bit 16 (ucast b) OR push_bit 8 (ucast c) OR ucast d"

text \<open>\<open>Ipv4Addr\<close> of the standard library.\<close>

definition is_unspecified :: "ipv4 \<Rightarrow> bool" where
  "is_unspecified a \<longleftrightarrow> a = 0"

definition is_private :: "ipv4 \<Rightarrow> bool" where
  "is_private a \<longleftrightarrow> octet 0 a = 10 \<or> octet 0 a = 172 \<and> 16 \<le> octet 1 a \<and> octet 1 a \<le> 31
     \<or> octet 0 a = 192 \<and> octet 1 a = 168"

definition is_loopback :: "ipv4 \<Rightarrow> bool" where
  "is_loopback a \<longleftrightarrow> octet 0 a = 127"

definition is_link_local :: "ipv4 \<Rightarrow> bool" where
  "is_link_local a \<longleftrightarrow> octet 0 a = 169 \<and> octet 1 a = 254"

definition is_multicast :: "ipv4 \<Rightarrow> bool" where
  "is_multicast a \<longleftrightarrow> 224 \<le> octet 0 a \<and> octet 0 a \<le> 239"

definition is_broadcast :: "ipv4 \<Rightarrow> bool" where
  "is_broadcast a \<longleftrightarrow> a = - 1"

definition in_range :: "ipv4 \<Rightarrow> ipv4 \<Rightarrow> nat \<Rightarrow> bool" where
  "in_range v network bits \<longleftrightarrow>
     (let m = push_bit (32 - bits) (- 1) in v AND m = network AND m)"

definition public_ipv4 :: "ipv4 \<Rightarrow> bool" where
  "public_ipv4 a \<longleftrightarrow>
     \<not> (is_unspecified a \<or> is_private a \<or> is_loopback a \<or> is_link_local a \<or> is_multicast a \<or> is_broadcast a
        \<or> in_range a (ipv4_new 0 0 0 0) 8 \<or> in_range a (ipv4_new 100 64 0 0) 10 \<or> in_range a (ipv4_new 192 0 0 0) 24
        \<or> in_range a (ipv4_new 192 0 2 0) 24 \<or> in_range a (ipv4_new 192 88 99 0) 24 \<or> in_range a (ipv4_new 198 18 0 0) 15
        \<or> in_range a (ipv4_new 198 51 100 0) 24 \<or> in_range a (ipv4_new 203 0 113 0) 24 \<or> in_range a (ipv4_new 240 0 0 0) 4)"

definition segment :: "nat \<Rightarrow> ipv6 \<Rightarrow> u16" where
  "segment i a = ucast (drop_bit (112 - 16 * i) a)"

text \<open>\<open>to_ipv4_mapped\<close>: the addresses \<open>::ffff:a.b.c.d\<close>.\<close>

definition to_ipv4_mapped :: "ipv6 \<Rightarrow> ipv4 option" where
  "to_ipv4_mapped a = (if drop_bit 32 a = 0xFFFF then Some (ucast a) else None)"

definition public_ipv6 :: "ipv6 \<Rightarrow> bool" where
  "public_ipv6 a \<longleftrightarrow>
     (let s0 = segment 0 a; s1 = segment 1 a;
          global_unicast = (s0 AND 0xE000 = 0x2000);
          documentation = (s0 = 0x2001 \<and> s1 = 0x0DB8);
          teredo = (s0 = 0x2001 \<and> s1 = 0);
          orchid = (s0 = 0x2001 \<and> s1 AND 0xFFF0 = 0x0010);
          six_to_four = (s0 = 0x2002)
      in global_unicast \<and> \<not> documentation \<and> \<not> teredo \<and> \<not> orchid \<and> \<not> six_to_four \<and> to_ipv4_mapped a = None)"

definition public_ip :: "ip_addr \<Rightarrow> bool" where
  "public_ip a = (case a of V4 w \<Rightarrow> public_ipv4 w | V6 w \<Rightarrow> public_ipv6 w)"

section \<open>URLs\<close>

text \<open>What the program asks of a parsed URL. \<open>u_known_port\<close> is its port or the one known for its scheme.\<close>

record url =
  u_text :: string
  u_scheme :: string
  u_username :: string
  u_password :: "string option"
  u_host :: "string option"
  u_port :: "nat option"
  u_known_port :: "nat option"

datatype lookup = LookupTimeout | LookupFailed | Addresses "ip_addr list"

text \<open>An answer: its status, the headers that are read as text, and the body in the chunks of the network; the body
  ends early when reading fails.\<close>

record http_response =
  hr_status :: nat
  hr_location :: "string option"
  hr_length :: "nat option"
  hr_type :: "string option"
  hr_chunks :: "string list"
  hr_broken :: bool

record 'n fetch_env =
  fe_parse :: "string \<Rightarrow> url option"
  fe_join :: "url \<Rightarrow> string \<Rightarrow> url option"
  fe_lookup :: "string \<Rightarrow> nat \<Rightarrow> 'n \<Rightarrow> lookup \<times> 'n"
  fe_client :: "string \<Rightarrow> ip_addr list \<Rightarrow> bool"
  fe_get :: "url \<Rightarrow> ip_addr list \<Rightarrow> 'n \<Rightarrow> http_response option \<times> 'n"
  fe_lossy :: "string \<Rightarrow> string"

type_synonym connection = "url \<times> ip_addr list"
type_synonym 'n network = "connection list \<times> 'n"

definition ends_with :: "string \<Rightarrow> string \<Rightarrow> bool" where
  "ends_with s p \<longleftrightarrow> length p \<le> length s \<and> drop (length s - length p) s = p"

definition local_suffixes :: "string list" where
  "local_suffixes = [''.localhost'', ''.local'', ''.internal'', ''.test'', ''.invalid'', ''.example'']"

definition local_host :: "string \<Rightarrow> bool" where
  "local_host host \<longleftrightarrow> host = ''localhost'' \<or> list_ex (ends_with host) local_suffixes"

definition fetch_url_parse :: "'n fetch_env \<Rightarrow> string \<Rightarrow> core_error + url" where
  "fetch_url_parse env v =
     (if 8 * 1024 < length v then Inl (denied ''Web fetch URL exceeded the length limit'')
      else (case fe_parse env v of
              None \<Rightarrow> Inl (denied ''Web fetch URL is invalid'')
            | Some url \<Rightarrow>
                if u_scheme url \<noteq> ''https'' \<or> u_username url \<noteq> [] \<or> u_password url \<noteq> None
                then Inl (denied ''Web fetch requires an HTTPS URL without credentials'')
                else if u_port url \<noteq> None \<and> u_port url \<noteq> Some 443
                then Inl (denied ''Web fetch only supports HTTPS on port 443'')
                else (case u_host url of
                        None \<Rightarrow> Inl (denied ''Web fetch URL must include a public host'')
                      | Some host \<Rightarrow>
                          if local_host (to_ascii_lowercase host)
                          then Inl (denied ''Web fetch may not access local hostnames'')
                          else Inr url)))"

section \<open>One request\<close>

text \<open>The body, chunk by chunk, up to its limit.\<close>

fun read_body :: "bool \<Rightarrow> string list \<Rightarrow> string \<Rightarrow> core_error + string" where
  "read_body broken [] body = (if broken then Inl (denied ''Web fetch response could not be read'') else Inr body)"
| "read_body broken (c # cs) body =
     (if FETCH_BODY_LIMIT < length body + length c then Inl (denied ''Web fetch response exceeded the body limit'')
      else read_body broken cs (body @ c))"

definition fetched :: "'n fetch_env \<Rightarrow> http_response \<Rightarrow> core_error + json" where
  "fetched env r =
     (if (case hr_length r of None \<Rightarrow> False | Some n \<Rightarrow> FETCH_BODY_LIMIT < n)
      then Inl (denied ''Web fetch response exceeded the body limit'')
      else (case read_body (hr_broken r) (hr_chunks r) [] of
              Inl e \<Rightarrow> Inl e
            | Inr body \<Rightarrow>
                (let text = fe_lossy env body; truncated = FETCH_TEXT_LIMIT < length text
                 in Inr (jobject [(''status'', jnat (hr_status r)),
                      (''content_type'', JStr (take_chars 256 (case hr_type r of None \<Rightarrow> ''unknown'' | Some t \<Rightarrow> t))),
                      (''text'', JStr (if truncated then take (floor_boundary text FETCH_TEXT_LIMIT) text else text)),
                      (''truncated'', JBool truncated)]))))"

definition is_redirection :: "nat \<Rightarrow> bool" where
  "is_redirection n \<longleftrightarrow> 300 \<le> n \<and> n < 400"

text \<open>The connection of one step of the loop: the host is looked up, and the client connects to those addresses only.\<close>

definition connect :: "'n fetch_env \<Rightarrow> url \<Rightarrow> 'n network \<Rightarrow> (core_error + http_response) \<times> 'n network" where
  "connect env url w =
     (case u_host url of
        None \<Rightarrow> (Inl (denied ''Web fetch URL must include a public host''), w)
      | Some host \<Rightarrow>
     (case u_known_port url of
        None \<Rightarrow> (Inl (denied ''Web fetch URL has no supported port''), w)
      | Some port \<Rightarrow>
          if port \<noteq> 443 then (Inl (denied ''Web fetch only supports HTTPS on port 443''), w)
          else
            (case fe_lookup env host port (snd w) of
               (LookupTimeout, n) \<Rightarrow> (Inl (denied ''Web fetch host lookup timed out''), fst w, n)
             | (LookupFailed, n) \<Rightarrow> (Inl (denied ''Web fetch host lookup failed''), fst w, n)
             | (Addresses as, n) \<Rightarrow>
                 if as = [] \<or> list_ex (\<lambda>a. \<not> public_ip a) as
                 then (Inl (denied ''Web fetch may only connect to public IP addresses''), fst w, n)
                 else if \<not> fe_client env host as
                 then (Inl (denied ''Web fetch client could not be configured''), fst w, n)
                 else
                   (case fe_get env url as n of
                      (None, n1) \<Rightarrow> (Inl (denied ''Web fetch request failed''), fst w @ [(url, as)], n1)
                    | (Some r, n1) \<Rightarrow> (Inr r, fst w @ [(url, as)], n1)))))"

definition redirected :: "'n fetch_env \<Rightarrow> url \<Rightarrow> http_response \<Rightarrow> core_error + url" where
  "redirected env url r =
     (case hr_location r of
        None \<Rightarrow> Inl (denied ''Web fetch redirect did not include a valid location'')
      | Some location \<Rightarrow>
          (case fe_join env url location of
             None \<Rightarrow> Inl (denied ''Web fetch redirect URL is invalid'')
           | Some next_url \<Rightarrow> fetch_url_parse env (u_text next_url)))"

text \<open>The loop; the first argument counts the redirections that are left.\<close>

fun fetch_hops :: "'n fetch_env \<Rightarrow> nat \<Rightarrow> url \<Rightarrow> 'n network \<Rightarrow> (core_error + json) \<times> 'n network" where
  "fetch_hops env left url w =
     (case connect env url w of
        (Inl e, w1) \<Rightarrow> (Inl e, w1)
      | (Inr r, w1) \<Rightarrow>
          if is_redirection (hr_status r) then
            (case left of
               0 \<Rightarrow> (Inl (denied ''Web fetch exceeded the redirect limit''), w1)
             | Suc k \<Rightarrow>
                 (case redirected env url r of
                    Inl e \<Rightarrow> (Inl e, w1)
                  | Inr url1 \<Rightarrow> fetch_hops env k url1 w1))
          else (fetched env r, w1))"

declare fetch_hops.simps [simp del]

definition fetch_url_bounded :: "'n fetch_env \<Rightarrow> string \<Rightarrow> 'n network \<Rightarrow> (core_error + json) \<times> 'n network" where
  "fetch_url_bounded env v w =
     (case fetch_url_parse env v of
        Inl e \<Rightarrow> (Inl e, w)
      | Inr url \<Rightarrow> fetch_hops env FETCH_REDIRECT_LIMIT url w)"

end
