(* ===== verification/Fetch_Laws.thy ===== *)
theory Fetch_Laws
  imports Tools_Fetch
begin

text \<open>
  What the tool for pages promises: which addresses count as public, as the blocks of the address space that are left out,
  and that a fetch connects only to public addresses of a public host, over HTTPS, at most four times.
\<close>

section \<open>Bits and numbers\<close>


lemma bit_high: "bit (push_bit n (- 1) :: 'a::len word) i \<longleftrightarrow> n \<le> i \<and> i < LENGTH('a)"
  by (auto simp: bit_not_iff bit_mask_iff)

lemma high_bits_eq:
  fixes v w :: "'a::len word"
  shows "v AND push_bit n (- 1) = w AND push_bit n (- 1) \<longleftrightarrow> unat v div 2 ^ n = unat w div 2 ^ n"
proof -
  have "v AND push_bit n (- 1) = w AND push_bit n (- 1) \<longleftrightarrow> drop_bit n v = drop_bit n w"
  proof
    assume e: "v AND push_bit n (- 1) = w AND push_bit n (- 1)"
    show "drop_bit n v = drop_bit n w"
    proof (rule bit_eqI)
      fix i
      from e have "bit (v AND push_bit n (- 1)) (n + i) = bit (w AND push_bit n (- 1)) (n + i)" by simp
      then show "bit (drop_bit n v) i = bit (drop_bit n w) i"
        unfolding bit_and_iff bit_high bit_drop_bit_eq comp_def by (auto dest: bit_imp_le_length)
    qed
  next
    assume e: "drop_bit n v = drop_bit n w"
    show "v AND push_bit n (- 1) = w AND push_bit n (- 1)"
    proof (rule bit_eqI)
      fix i
      have "bit v i = bit w i" if "n \<le> i"
        using arg_cong [OF e, of "\<lambda>x. bit x (i - n)"] that by (simp add: bit_drop_bit_eq)
      then show "bit (v AND push_bit n (- 1)) i = bit (w AND push_bit n (- 1)) i"
        unfolding bit_and_iff bit_high by auto
    qed
  qed
  also have "\<dots> \<longleftrightarrow> unat v div 2 ^ n = unat w div 2 ^ n"
    unfolding word_unat_eq_iff unat_drop_bit_eq drop_bit_nat_def ..
  finally show ?thesis .
qed

lemma unat_octet: "unat (octet i a) = unat a div 2 ^ (24 - 8 * i) mod 256"
  unfolding octet_def unsigned_ucast_eq unat_drop_bit_eq drop_bit_nat_def by (simp add: take_bit_eq_mod)

lemma div_eq_range: "0 < k \<Longrightarrow> n div k = m \<longleftrightarrow> m * k \<le> n \<and> n < m * k + (k :: nat)"
  by (metis add.commute div_nat_eqI div_times_less_eq_dividend dividend_less_div_times mult.commute mult_Suc)


lemma in_range_div: "in_range v w bits \<longleftrightarrow> unat v div 2 ^ (32 - bits) = unat w div 2 ^ (32 - bits)"
  unfolding in_range_def Let_def high_bits_eq ..

definition block :: "nat \<Rightarrow> nat \<Rightarrow> nat \<Rightarrow> nat \<Rightarrow> nat \<Rightarrow> nat \<times> nat" where
  "block a b c d bits = (let first = ((a * 256 + b) * 256 + c) * 256 + d in (first, first + 2 ^ (32 - bits) - 1))"

text \<open>The blocks of the registry of special addresses, in its notation: the network and the length of its prefix.\<close>

definition special_blocks :: "(nat \<times> nat) list" where
  "special_blocks = [block 0 0 0 0 8, block 10 0 0 0 8, block 100 64 0 0 10, block 127 0 0 0 8, block 169 254 0 0 16,
     block 172 16 0 0 12, block 192 0 0 0 24, block 192 0 2 0 24, block 192 88 99 0 24, block 192 168 0 0 16,
     block 198 18 0 0 15, block 198 51 100 0 24, block 203 0 113 0 24, block 224 0 0 0 4, block 240 0 0 0 4]"

lemma network_values:
  "unat (ipv4_new 0 0 0 0) = 0" "unat (ipv4_new 100 64 0 0) = 1681915904" "unat (ipv4_new 192 0 0 0) = 3221225472"
  "unat (ipv4_new 192 0 2 0) = 3221225984" "unat (ipv4_new 192 88 99 0) = 3227017984" "unat (ipv4_new 198 18 0 0) = 3323068416"
  "unat (ipv4_new 198 51 100 0) = 3325256704" "unat (ipv4_new 203 0 113 0) = 3405803776" "unat (ipv4_new 240 0 0 0) = 4026531840"
  by (simp_all add: ipv4_new_def)

lemma octet_facts:
  fixes a :: ipv4
  defines "n \<equiv> unat a"
  shows "octet 0 a = 10 \<longleftrightarrow> n div 16777216 = 10" "octet 0 a = 172 \<longleftrightarrow> n div 16777216 = 172" "octet 0 a = 192 \<longleftrightarrow> n div 16777216 = 192"
    "octet 0 a = 127 \<longleftrightarrow> n div 16777216 = 127" "octet 0 a = 169 \<longleftrightarrow> n div 16777216 = 169"
    "224 \<le> octet 0 a \<longleftrightarrow> 224 \<le> n div 16777216" "octet 0 a \<le> 239 \<longleftrightarrow> n div 16777216 \<le> 239"
    "16 \<le> octet 1 a \<longleftrightarrow> 16 \<le> n div 65536 mod 256" "octet 1 a \<le> 31 \<longleftrightarrow> n div 65536 mod 256 \<le> 31"
    "octet 1 a = 168 \<longleftrightarrow> n div 65536 mod 256 = 168" "octet 1 a = 254 \<longleftrightarrow> n div 65536 mod 256 = 254"
proof -
  have "n < 2 ^ 32" unfolding n_def using unsigned_less [of a, where ?'a = nat] by simp
  then have "n div 16777216 < 256" by simp
  then have 0: "unat (octet 0 a) = n div 16777216" using unat_octet [of 0 a] by (simp add: n_def)
  have 1: "unat (octet 1 a) = n div 65536 mod 256" using unat_octet [of 1 a] by (simp add: n_def)
  show "octet 0 a = 10 \<longleftrightarrow> n div 16777216 = 10" "octet 0 a = 172 \<longleftrightarrow> n div 16777216 = 172" "octet 0 a = 192 \<longleftrightarrow> n div 16777216 = 192"
    "octet 0 a = 127 \<longleftrightarrow> n div 16777216 = 127" "octet 0 a = 169 \<longleftrightarrow> n div 16777216 = 169"
    "224 \<le> octet 0 a \<longleftrightarrow> 224 \<le> n div 16777216" "octet 0 a \<le> 239 \<longleftrightarrow> n div 16777216 \<le> 239"
    unfolding word_unat_eq_iff word_le_nat_alt 0 by simp_all
  show "16 \<le> octet 1 a \<longleftrightarrow> 16 \<le> n div 65536 mod 256" "octet 1 a \<le> 31 \<longleftrightarrow> n div 65536 mod 256 \<le> 31"
    "octet 1 a = 168 \<longleftrightarrow> n div 65536 mod 256 = 168" "octet 1 a = 254 \<longleftrightarrow> n div 65536 mod 256 = 254"
    unfolding word_unat_eq_iff word_le_nat_alt 1 by simp_all
qed

lemma second_octet:
  fixes n a lo hi :: nat
  assumes "hi < 256"
  shows "n div 16777216 = a \<and> lo \<le> n div 65536 mod 256 \<and> n div 65536 mod 256 \<le> hi \<longleftrightarrow>
     (a * 256 + lo) * 65536 \<le> n \<and> n < (a * 256 + hi + 1) * 65536"
proof -
  define q where "q = n div 65536"
  have "n div 16777216 = n div (65536 * 256)" by simp
  then have "n div 16777216 = q div 256" by (simp only: div_mult2_eq q_def)
  moreover have "q div 256 = a \<and> lo \<le> q mod 256 \<and> q mod 256 \<le> hi \<longleftrightarrow> a * 256 + lo \<le> q \<and> q < a * 256 + hi + 1"
    using assms mult_div_mod_eq [of 256 q] mod_less_divisor [of 256 q] div_eq_range [of 256 q a] by linarith
  moreover have "a * 256 + lo \<le> q \<longleftrightarrow> (a * 256 + lo) * 65536 \<le> n"
    unfolding q_def by (rule less_eq_div_iff_mult_less_eq) simp
  moreover have "q < a * 256 + hi + 1 \<longleftrightarrow> n < (a * 256 + hi + 1) * 65536"
    unfolding q_def by (rule div_less_iff_less_mult) simp
  ultimately show ?thesis unfolding q_def by simp
qed

lemma none_of: "(u \<longrightarrow> r1) \<Longrightarrow> (b \<longrightarrow> r9) \<Longrightarrow>
    (\<not> (u \<or> (p1 \<or> p2 \<or> p3) \<or> l \<or> k \<or> m \<or> b \<or> r1 \<or> r2 \<or> r3 \<or> r4 \<or> r5 \<or> r6 \<or> r7 \<or> r8 \<or> r9)) =
    (\<not> r1 \<and> \<not> p1 \<and> \<not> r2 \<and> \<not> l \<and> \<not> k \<and> \<not> p2 \<and> \<not> r3 \<and> \<not> r4 \<and> \<not> r5 \<and> \<not> p3 \<and> \<not> r6 \<and> \<not> r7 \<and> \<not> r8 \<and> \<not> m \<and> \<not> r9)"
  by auto

text \<open>C40: The test for a public address, made of tests on octets, masks and single addresses, is exactly this: the address,
  read as a number, lies in none of the fifteen blocks of special addresses.\<close>

theorem public_ipv4_blocks:
  "public_ipv4 a = list_all (\<lambda>b. unat a < fst b \<or> snd b < unat a) special_blocks"
proof -
  define n where "n = unat a"
  have lt: "n < 4294967296" unfolding n_def using unsigned_less [of a, where ?'a = nat] by simp
  have eq: "n div 65536 mod 256 = k \<longleftrightarrow> k \<le> n div 65536 mod 256 \<and> n div 65536 mod 256 \<le> k" for k by auto
  have u: "is_unspecified a \<longleftrightarrow> n = 0" by (simp add: is_unspecified_def n_def unat_eq_0)
  have b: "is_broadcast a \<longleftrightarrow> n = 4294967295"
    by (simp add: is_broadcast_def n_def word_unat_eq_iff unsigned_minus_1_eq_mask mask_eq_exp_minus_1)
  have p: "is_private a \<longleftrightarrow> 167772160 \<le> n \<and> n < 184549376 \<or> 2886729728 \<le> n \<and> n < 2887778304 \<or> 3232235520 \<le> n \<and> n < 3232301056"
    unfolding is_private_def octet_facts n_def [symmetric] eq [of 168]
    using second_octet [of 31 n 172 16] second_octet [of 168 n 192 168] div_eq_range [of 16777216 n 10] by simp
  have l: "is_loopback a \<longleftrightarrow> 2130706432 \<le> n \<and> n < 2147483648"
    unfolding is_loopback_def octet_facts n_def [symmetric] by (subst div_eq_range) simp_all
  have k: "is_link_local a \<longleftrightarrow> 2851995648 \<le> n \<and> n < 2852061184"
    unfolding is_link_local_def octet_facts n_def [symmetric] eq [of 254] using second_octet [of 254 n 169 254] by simp
  have m: "is_multicast a \<longleftrightarrow> 3758096384 \<le> n \<and> n < 4026531840"
    unfolding is_multicast_def octet_facts n_def [symmetric]
    using less_eq_div_iff_mult_less_eq [of 16777216 224 n] div_less_iff_less_mult [of 16777216 n 240] by auto
  have r: "in_range a (ipv4_new 0 0 0 0) 8 \<longleftrightarrow> n < 16777216"
    "in_range a (ipv4_new 100 64 0 0) 10 \<longleftrightarrow> 1681915904 \<le> n \<and> n < 1686110208"
    "in_range a (ipv4_new 192 0 0 0) 24 \<longleftrightarrow> 3221225472 \<le> n \<and> n < 3221225728"
    "in_range a (ipv4_new 192 0 2 0) 24 \<longleftrightarrow> 3221225984 \<le> n \<and> n < 3221226240"
    "in_range a (ipv4_new 192 88 99 0) 24 \<longleftrightarrow> 3227017984 \<le> n \<and> n < 3227018240"
    "in_range a (ipv4_new 198 18 0 0) 15 \<longleftrightarrow> 3323068416 \<le> n \<and> n < 3323199488"
    "in_range a (ipv4_new 198 51 100 0) 24 \<longleftrightarrow> 3325256704 \<le> n \<and> n < 3325256960"
    "in_range a (ipv4_new 203 0 113 0) 24 \<longleftrightarrow> 3405803776 \<le> n \<and> n < 3405804032"
    "in_range a (ipv4_new 240 0 0 0) 4 \<longleftrightarrow> 4026531840 \<le> n \<and> n < 4294967296"
    unfolding in_range_div network_values n_def [symmetric] by (subst div_eq_range, simp, simp)+
  have z: "n = 0 \<longrightarrow> n < 16777216" "n = 4294967295 \<longrightarrow> 4026531840 \<le> n \<and> n < 4294967296" by simp_all
  have blocks: "list_all (\<lambda>b. n < fst b \<or> snd b < n) special_blocks \<longleftrightarrow> list_all (\<lambda>b. \<not> (fst b \<le> n \<and> n < snd b))
      [(0, 16777216), (167772160, 184549376), (1681915904, 1686110208), (2130706432, 2147483648), (2851995648, 2852061184),
       (2886729728, 2887778304), (3221225472, 3221225728), (3221225984, 3221226240), (3227017984, 3227018240), (3232235520, 3232301056),
       (3323068416, 3323199488), (3325256704, 3325256960), (3405803776, 3405804032), (3758096384, 4026531840), (4026531840, 4294967296)]"
    unfolding special_blocks_def list.pred_inject
    by (intro arg_cong2 [of _ _ _ _ "(\<and>)"] refl) ((simp add: block_def Let_def; fail) | (simp add: block_def Let_def, linarith))+
  have zero: "0 \<le> n \<and> n < 16777216 \<longleftrightarrow> n < 16777216" by simp
  show ?thesis
    unfolding n_def [symmetric] blocks public_ipv4_def u b p l k m r
    by (simp only: list.pred_inject fst_conv snd_conv zero simp_thms) (rule none_of [OF z])
qed


section \<open>IPv6\<close>


text \<open>The first two segments of an address as one number.\<close>

definition first_segments :: "ipv6 \<Rightarrow> nat" where
  "first_segments a = unat a div 2 ^ 96"

lemma segments_of_first:
  "unat (segment 0 a) = first_segments a div 65536" "unat (segment 1 a) = first_segments a mod 65536"
proof -
  have "unat a < 2 ^ 128" using unsigned_less [of a, where ?'a = nat] by simp
  then have lt: "unat a div 2 ^ 112 < 2 ^ 16" by (simp add: div_less_iff_less_mult)
  have s: "unat (segment i a) = unat a div 2 ^ (112 - 16 * i) mod 65536" for i
    unfolding segment_def unsigned_ucast_eq unat_drop_bit_eq drop_bit_nat_def by (simp add: take_bit_eq_mod)
  have "unat a div 2 ^ 112 = unat a div (2 ^ 96 * 65536)" by simp
  then have "unat a div 2 ^ 112 = first_segments a div 65536" by (simp only: div_mult2_eq first_segments_def)
  with s [of 0] lt show "unat (segment 0 a) = first_segments a div 65536" by simp
  show "unat (segment 1 a) = first_segments a mod 65536" using s [of 1] by (simp add: first_segments_def)
qed

lemma mask_tests:
  "(s :: u16) AND 0xE000 = 0x2000 \<longleftrightarrow> unat s div 8192 = 1" "s AND 0xFFF0 = 0x0010 \<longleftrightarrow> unat s div 16 = 1"
proof -
  have "(0xE000 :: u16) = push_bit 13 (- 1)" "(0x2000 :: u16) = 0x2000 AND push_bit 13 (- 1)" by code_simp+
  then have "s AND 0xE000 = 0x2000 \<longleftrightarrow> s AND push_bit 13 (- 1) = 0x2000 AND push_bit 13 (- 1)" by metis
  then show "s AND 0xE000 = 0x2000 \<longleftrightarrow> unat s div 8192 = 1" unfolding high_bits_eq by simp
  have "(0xFFF0 :: u16) = push_bit 4 (- 1)" "(0x0010 :: u16) = 0x0010 AND push_bit 4 (- 1)" by code_simp+
  then have "s AND 0xFFF0 = 0x0010 \<longleftrightarrow> s AND push_bit 4 (- 1) = 0x0010 AND push_bit 4 (- 1)" by metis
  then show "s AND 0xFFF0 = 0x0010 \<longleftrightarrow> unat s div 16 = 1" unfolding high_bits_eq by simp
qed

text \<open>The same for IPv6: the public addresses are those of 2000::/3 without four blocks; the test for mapped addresses adds
  nothing.\<close>

theorem public_ipv6_blocks:
  "public_ipv6 a \<longleftrightarrow> 0x20000000 \<le> first_segments a \<and> first_segments a < 0x40000000
     \<and> \<not> (0x20010000 \<le> first_segments a \<and> first_segments a < 0x20010001)
     \<and> \<not> (0x20010010 \<le> first_segments a \<and> first_segments a < 0x20010020)
     \<and> \<not> (0x20010DB8 \<le> first_segments a \<and> first_segments a < 0x20010DB9)
     \<and> \<not> (0x20020000 \<le> first_segments a \<and> first_segments a < 0x20030000)"
proof -
  define t where "t = first_segments a"
  have n: "segment i a = w \<longleftrightarrow> unat (segment i a) = unat w" for i w by (rule word_unat_eq_iff)
  have m: "to_ipv4_mapped a = None" if "0x20000000 \<le> t"
  proof -
    have "unat a div 2 ^ 96 \<noteq> 0" using that by (simp add: t_def first_segments_def)
    then have "2 ^ 96 \<le> unat a" using div_less by (metis leI)
    then have "2 ^ 64 \<le> unat a div 2 ^ 32" by (simp add: less_eq_div_iff_mult_less_eq)
    then have "drop_bit 32 a \<noteq> 0xFFFF" unfolding word_unat_eq_iff unat_drop_bit_eq drop_bit_nat_def by auto
    then show ?thesis by (simp add: to_ipv4_mapped_def)
  qed
  have q: "t div 65536 div 8192 = 1 \<longleftrightarrow> 0x20000000 \<le> t \<and> t < 0x40000000"
    using div_eq_range [of "65536 * 8192" t 1] by (simp add: div_mult2_eq [symmetric])
  have o: "t div 65536 = 8193 \<longleftrightarrow> 0x20010000 \<le> t \<and> t < 0x20020000" "t div 65536 = 8194 \<longleftrightarrow> 0x20020000 \<le> t \<and> t < 0x20030000"
    using div_eq_range [of 65536 t 8193] div_eq_range [of 65536 t 8194] by simp_all
  have r: "t mod 65536 = t - 0x20010000" if "t div 65536 = 8193"
    using minus_mult_div_eq_mod [of t 65536] that by simp
  have orchid: "t div 65536 = 8193 \<and> t mod 65536 div 16 = 1 \<longleftrightarrow> 0x20010010 \<le> t \<and> t < 0x20010020"
    using r o(1) div_eq_range [of 16 "t - 0x20010000" 1] by auto
  have teredo: "t div 65536 = 8193 \<and> t mod 65536 = 0 \<longleftrightarrow> 0x20010000 \<le> t \<and> t < 0x20010001" using r o(1) by auto
  have doc: "t div 65536 = 8193 \<and> t mod 65536 = 3512 \<longleftrightarrow> 0x20010DB8 \<le> t \<and> t < 0x20010DB9" using r o(1) by auto
  have "public_ipv6 a \<longleftrightarrow> t div 65536 div 8192 = 1 \<and> \<not> (t div 65536 = 8193 \<and> t mod 65536 = 3512)
      \<and> \<not> (t div 65536 = 8193 \<and> t mod 65536 = 0) \<and> \<not> (t div 65536 = 8193 \<and> t mod 65536 div 16 = 1)
      \<and> \<not> t div 65536 = 8194 \<and> to_ipv4_mapped a = None"
    unfolding public_ipv6_def Let_def mask_tests n segments_of_first t_def [symmetric] by simp
  then show ?thesis unfolding q orchid teredo doc o(2) t_def [symmetric] using m by blast
qed


section \<open>Connections\<close>

definition safe_connection :: "'n fetch_env \<Rightarrow> connection \<Rightarrow> bool" where
  "safe_connection env c \<longleftrightarrow>
     (case c of (url, as) \<Rightarrow>
        u_scheme url = ''https'' \<and> u_username url = [] \<and> u_password url = None \<and> u_port url \<in> {None, Some 443}
        \<and> u_known_port url = Some 443
        \<and> (case u_host url of None \<Rightarrow> False | Some host \<Rightarrow> \<not> local_host (to_ascii_lowercase host))
        \<and> as \<noteq> [] \<and> list_all public_ip as)"

definition url_ok :: "url \<Rightarrow> bool" where
  "url_ok url \<longleftrightarrow> u_scheme url = ''https'' \<and> u_username url = [] \<and> u_password url = None \<and> u_port url \<in> {None, Some 443}
     \<and> (case u_host url of None \<Rightarrow> False | Some host \<Rightarrow> \<not> local_host (to_ascii_lowercase host))"

lemma fetch_url_parse_ok: "fetch_url_parse env v = Inr url \<Longrightarrow> url_ok url"
  unfolding fetch_url_parse_def url_ok_def by (auto split: if_splits option.splits)

lemma connect_safe:
  assumes "url_ok url" and "connect env url w = (r, w')"
  shows "\<exists>cs. fst w' = fst w @ cs \<and> length cs \<le> 1 \<and> list_all (safe_connection env) cs"
proof -
  obtain host where h: "u_host url = Some host" using assms(1) by (auto simp: url_ok_def split: option.splits)
  show ?thesis
  proof (cases "u_known_port url = Some 443")
    case False
    then have "w' = w" using assms(2) h by (auto simp: connect_def split: option.splits)
    then show ?thesis by simp
  next
    case True
    note run = assms(2) [unfolded connect_def h True option.case]
    obtain l n where l: "fe_lookup env host 443 (snd w) = (l, n)" by fastforce
    show ?thesis
    proof (cases "\<exists>as. l = Addresses as \<and> as \<noteq> [] \<and> \<not> list_ex (\<lambda>a. \<not> public_ip a) as \<and> fe_client env host as")
      case False
      then have "fst w' = fst w" using run l by (auto split: lookup.splits if_splits)
      then show ?thesis by simp
    next
      case True
      then obtain as where as: "l = Addresses as" "as \<noteq> []" "\<not> list_ex (\<lambda>a. \<not> public_ip a) as" "fe_client env host as" by blast
      have "fst w' = fst w @ [(url, as)]" using run l as by (auto split: prod.splits option.splits)
      moreover have "list_all public_ip as" using as(3) by (auto simp: list_ex_iff list_all_iff)
      then have "safe_connection env (url, as)"
        using assms(1) \<open>u_known_port url = Some 443\<close> as(2) by (simp add: safe_connection_def url_ok_def)
      ultimately show ?thesis by simp
    qed
  qed
qed

lemma fetch_hops_safe:
  "url_ok url \<Longrightarrow> \<exists>cs. fst (snd (fetch_hops env left url w)) = fst w @ cs \<and> length cs \<le> left + 1 \<and> list_all (safe_connection env) cs"
proof (induction left arbitrary: url w)
  case 0
  obtain r w1 where c: "connect env url w = (r, w1)" by (cases "connect env url w")
  have "snd (fetch_hops env 0 url w) = w1"
    by (subst fetch_hops.simps) (auto simp: c split: sum.splits)
  then show ?case using connect_safe [OF 0 c] by simp
next
  case (Suc left)
  obtain r w1 where c: "connect env url w = (r, w1)" by (cases "connect env url w")
  from connect_safe [OF Suc.prems c] obtain cs where cs: "fst w1 = fst w @ cs" "length cs \<le> 1" "list_all (safe_connection env) cs" by blast
  show ?case
  proof (cases "\<exists>x url1. r = Inr x \<and> is_redirection (hr_status x) \<and> redirected env url x = Inr url1")
    case False
    then have "snd (fetch_hops env (Suc left) url w) = w1"
      by (subst fetch_hops.simps) (auto simp: c split: sum.splits)
    then show ?thesis using cs by auto
  next
    case True
    then obtain x url1 where x: "r = Inr x" "is_redirection (hr_status x)" "redirected env url x = Inr url1" by blast
    then have "url_ok url1" by (auto simp: redirected_def split: option.splits dest: fetch_url_parse_ok)
    from Suc.IH [OF this, of w1] obtain cs' where
      cs': "fst (snd (fetch_hops env left url1 w1)) = fst w1 @ cs'" "length cs' \<le> left + 1" "list_all (safe_connection env) cs'" by blast
    have "fetch_hops env (Suc left) url w = fetch_hops env left url1 w1"
      by (subst fetch_hops.simps) (simp add: c x)
    then show ?thesis using cs cs' by (intro exI [of _ "cs @ cs'"]) simp
  qed
qed

lemma fetched_text: "fetched env r = Inr v \<Longrightarrow> \<exists>t. json_index v ''text'' = JStr t \<and> length t \<le> FETCH_TEXT_LIMIT"
  unfolding fetched_def
  by (auto simp: Let_def json_index_jobject min.coboundedI2 floor_boundary_le split: if_splits sum.splits)

lemma fetch_hops_text: "fst (fetch_hops env left url w) = Inr v \<Longrightarrow> \<exists>t. json_index v ''text'' = JStr t \<and> length t \<le> FETCH_TEXT_LIMIT"
proof (induction left arbitrary: url w)
  case 0
  then show ?case
    by (subst (asm) fetch_hops.simps) (auto split: prod.splits sum.splits if_splits dest: fetched_text)
next
  case (Suc left)
  then show ?case
    by (subst (asm) fetch_hops.simps) (auto split: prod.splits sum.splits if_splits dest: fetched_text)
qed

text \<open>C35: A fetch cannot be turned against the local network, whatever URL the model gives, whatever names resolve to and
  wherever servers redirect: every connection that it makes, at most four, goes over HTTPS and port 443, without
  credentials, to a host that is not a local name, and the client is bound to addresses that are all public, on each
  redirection anew; and the text that it returns has at most 48 KiB.\<close>

theorem fetch_reaches_public_only:
  "(\<exists>cs. fst (snd (fetch_url_bounded env v w)) = fst w @ cs \<and> length cs \<le> 4 \<and> list_all (safe_connection env) cs)
   \<and> (case fst (fetch_url_bounded env v w) of
        Inl e \<Rightarrow> True
      | Inr page \<Rightarrow> \<exists>t. json_index page ''text'' = JStr t \<and> length t \<le> 48 * 1024)"
proof (cases "fetch_url_parse env v")
  case (Inl e)
  then show ?thesis by (simp add: fetch_url_bounded_def)
next
  case (Inr url)
  then have f: "fetch_url_bounded env v w = fetch_hops env 3 url w" by (simp add: fetch_url_bounded_def FETCH_REDIRECT_LIMIT_def)
  have "\<exists>cs. fst (snd (fetch_hops env 3 url w)) = fst w @ cs \<and> length cs \<le> 4 \<and> list_all (safe_connection env) cs"
    using fetch_hops_safe [OF fetch_url_parse_ok [OF Inr], of env 3 w] by simp
  moreover have "\<exists>t. json_index page ''text'' = JStr t \<and> length t \<le> 48 * 1024" if "fst (fetch_hops env 3 url w) = Inr page" for page
    using fetch_hops_text [OF that] unfolding FETCH_TEXT_LIMIT_def by blast
  ultimately show ?thesis unfolding f by (auto split: sum.split)
qed

text \<open>The addresses of ORCHIDv2, which no host of the internet has, count as public: the check is for the block of ORCHID,
  which was withdrawn.\<close>

theorem orchidv2_counts_as_public: "public_ip (V6 0x20010020000000000000000000000001)"
  by (simp add: public_ip_def public_ipv6_blocks first_segments_def)

end
