(* ===== verification/Tools_Files.thy ===== *)
theory Tools_Files
  imports Policy Jsonl Cron Tools_Fetch
begin

text \<open>
  Files of the workspace, in the plugin \<open>krabb-plugins/tools/src/main.rs\<close>: which path a request may name, and reading,
  writing and listing below the workspace without following a link, on Unix.

  The disk is a tree of nodes. A descriptor of a directory is the path of its node from the root of the tree, so that
  \<open>openat\<close> with \<open>NOFOLLOW\<close> is a step to an entry that is a directory itself. What the system answers to questions about
  a path (\<open>canonicalize\<close>, \<open>exists\<close>, \<open>is_dir\<close>, \<open>symlink_metadata\<close>) is a function of the environment, and so is the
  failure of any call, for instance for want of a permission.
\<close>

definition FILE_LIMIT :: nat where "FILE_LIMIT = (frame_max - 64 * 1024) div 2"
definition ENTRY_LIMIT :: nat where "ENTRY_LIMIT = 10000"

section \<open>The tree\<close>

text \<open>A special file has the error of opening it, if any, and what reading it gives.\<close>

datatype node =
    FileNode string
  | DirNode "(string \<times> node) list"
  | LinkNode string
  | OtherNode "io_error option" "io_error + string"

fun node_at :: "node \<Rightarrow> string list \<Rightarrow> node option" where
  "node_at n [] = Some n"
| "node_at (DirNode es) (p # ps) = (case map_of es p of None \<Rightarrow> None | Some n \<Rightarrow> node_at n ps)"
| "node_at _ (p # ps) = None"

fun put_entry :: "string \<Rightarrow> node \<Rightarrow> (string \<times> node) list \<Rightarrow> (string \<times> node) list" where
  "put_entry k n [] = [(k, n)]"
| "put_entry k n (e # es) = (if fst e = k then (k, n) # es else e # put_entry k n es)"

fun set_node :: "string list \<Rightarrow> node \<Rightarrow> node \<Rightarrow> node" where
  "set_node [] x n = x"
| "set_node (p # ps) x (DirNode es) =
     DirNode (put_entry p (set_node ps x (case map_of es p of None \<Rightarrow> DirNode [] | Some n \<Rightarrow> n)) es)"
| "set_node (p # ps) x n = n"

fun drop_node :: "string list \<Rightarrow> node \<Rightarrow> node" where
  "drop_node [] n = n"
| "drop_node [p] (DirNode es) = DirNode (filter (\<lambda>e. fst e \<noteq> p) es)"
| "drop_node (p # q # ps) (DirNode es) =
     DirNode (map (\<lambda>e. if fst e = p then (p, drop_node (q # ps) (snd e)) else e) es)"
| "drop_node (p # ps) n = n"

datatype os_call =
    OpenDir "string list" | OpenFile "string list" | MakeDir "string list" | CreateTemp "string list"
  | WriteTemp "string list" | MoveTemp "string list" | DropTemp "string list"

record files_env =
  fv_canon :: "node \<Rightarrow> path \<Rightarrow> io_error + path"
  fv_is_dir :: "node \<Rightarrow> path \<Rightarrow> bool"
  fv_exists :: "node \<Rightarrow> path \<Rightarrow> bool"
  fv_is_link :: "node \<Rightarrow> path \<Rightarrow> io_error + bool"
  fv_fault :: "os_call \<Rightarrow> io_error option"
  fv_show :: "io_error \<Rightarrow> string"
  fv_utf8 :: "string \<Rightarrow> string + string"
  fv_lossy :: "string \<Rightarrow> string"
  fv_pid :: nat

section \<open>Paths\<close>

definition path_of :: "string \<Rightarrow> path" where
  "path_of s = Path (strip_prefix ''/'' s \<noteq> None) (filter (\<lambda>c. c \<noteq> [] \<and> c \<noteq> ''.'') (split_on CHR ''/'' s))"

definition path_string :: "path \<Rightarrow> string" where
  "path_string p = (if is_absolute p then ''/'' else []) @ join ''/'' (components p)"

definition workspace :: "files_env \<Rightarrow> node \<Rightarrow> string option \<Rightarrow> core_error + path option" where
  "workspace env t given =
     (case given of
        None \<Rightarrow> Inr None
      | Some s \<Rightarrow>
          if blank s then Inr None
          else (case fv_canon env t (path_of s) of
                  Inl e \<Rightarrow> Inl (denied (''Workspace is unavailable: '' @ fv_show env e))
                | Inr p \<Rightarrow> if \<not> fv_is_dir env t p then Inl (denied ''Workspace is not a directory'') else Inr (Some p)))"

text \<open>The nearest parent that exists, and the names below it, the last one first.\<close>

function existing_parent :: "(path \<Rightarrow> bool) \<Rightarrow> bool \<Rightarrow> string list \<Rightarrow> string list \<Rightarrow> string + string list \<times> string list" where
  "existing_parent ex absolute cs missing =
     (if ex (Path absolute cs) then Inr (cs, missing)
      else if cs = [] \<or> last cs = ''..'' then Inl ''Path has no name''
      else existing_parent ex absolute (butlast cs) (missing @ [last cs]))"
  by pat_completeness auto
termination by (relation "measure (\<lambda>(ex, absolute, cs, missing). length cs)") auto

declare existing_parent.simps [simp del]

definition clean_path :: "files_env \<Rightarrow> node \<Rightarrow> path \<Rightarrow> core_error + path" where
  "clean_path env t candidate =
     (if fv_exists env t candidate then
        (case fv_canon env t candidate of
           Inl e \<Rightarrow> Inl (denied (''Path is unavailable: '' @ fv_show env e))
         | Inr p \<Rightarrow> Inr p)
      else if components candidate = [] then Inl (denied ''Path has no parent'')
      else
        (case existing_parent (fv_exists env t) (is_absolute candidate) (butlast (components candidate)) [] of
           Inl e \<Rightarrow> Inl (denied e)
         | Inr (cs, missing) \<Rightarrow>
             (case fv_canon env t (Path (is_absolute candidate) cs) of
                Inl e \<Rightarrow> Inl (denied (''Path parent is unavailable: '' @ fv_show env e))
              | Inr p \<Rightarrow>
                  if last (components candidate) = ''..'' then Inl (denied ''Path has no name'')
                  else Inr (Path (is_absolute p) (components p @ rev missing @ [last (components candidate)])))))"

definition workspace_root :: "policy \<Rightarrow> path option \<Rightarrow> path option" where
  "workspace_root pol ws = (case ws of Some p \<Rightarrow> Some p | None \<Rightarrow> pol_root pol)"

definition inside :: "path \<Rightarrow> core_error + path \<Rightarrow> core_error + path" where
  "inside root r =
     (case r of
        Inl e \<Rightarrow> Inl e
      | Inr clean \<Rightarrow> if starts_with clean root then Inr clean else Inl (denied ''Path leaves the workspace''))"

definition file_at :: "files_env \<Rightarrow> node \<Rightarrow> policy \<Rightarrow> string \<Rightarrow> path option \<Rightarrow> core_error + path" where
  "file_at env t pol s ws =
     (case workspace_root pol ws of
        None \<Rightarrow> Inl (denied ''Workspace root is unset'')
      | Some r \<Rightarrow>
     (case fv_canon env t r of
        Inl e \<Rightarrow> Inl (denied (''Workspace is unavailable: '' @ fv_show env e))
      | Inr root \<Rightarrow>
          if \<not> fv_is_dir env t root then Inl (denied ''Workspace is not a directory'')
          else
            (let candidate = path_join root (path_of s) in
             if ''..'' \<in> set (components (path_of s)) then Inl (denied ''Path traversal is not allowed'')
             else
               (case fv_is_link env t candidate of
                  Inr True \<Rightarrow> Inl (denied ''Path cannot be a symbolic link'')
                | Inl e \<Rightarrow>
                    if error_kind e = NotFound then inside root (clean_path env t candidate)
                    else Inl (denied (''Path is unavailable: '' @ fv_show env e))
                | Inr False \<Rightarrow> inside root (clean_path env t candidate)))))"

section \<open>Descriptors\<close>

text \<open>A path below the root, opened up to its last name; without a name it is the directory itself.\<close>

record confined =
  cf_display :: path
  cf_dir :: "string list"
  cf_name :: "string option"

definition loop_error :: io_error where "loop_error = IoError OtherKind ''Too many levels of symbolic links''"

definition is_dir_node :: "node \<Rightarrow> bool" where
  "is_dir_node n \<longleftrightarrow> (case n of DirNode es \<Rightarrow> True | _ \<Rightarrow> False)"

text \<open>\<open>openat\<close> with \<open>DIRECTORY\<close> and \<open>NOFOLLOW\<close>.\<close>

definition open_directory :: "files_env \<Rightarrow> node \<Rightarrow> string list \<Rightarrow> io_error + unit" where
  "open_directory env t p =
     (case fv_fault env (OpenDir p) of
        Some e \<Rightarrow> Inl e
      | None \<Rightarrow>
          (case node_at t p of
             None \<Rightarrow> Inl (IoError NotFound [])
           | Some (DirNode es) \<Rightarrow> Inr ()
           | Some (LinkNode l) \<Rightarrow> Inl loop_error
           | Some _ \<Rightarrow> Inl (IoError NotADirectory [])))"

definition mkdirat :: "files_env \<Rightarrow> string list \<Rightarrow> node \<Rightarrow> (io_error + unit) \<times> node" where
  "mkdirat env p t =
     (case fv_fault env (MakeDir p) of
        Some e \<Rightarrow> (Inl e, t)
      | None \<Rightarrow> if node_at t p \<noteq> None then (Inl (IoError AlreadyExists []), t) else (Inr (), set_node p (DirNode []) t))"

text \<open>A directory that exists already is no failure.\<close>

definition made_dir :: "files_env \<Rightarrow> bool \<Rightarrow> string list \<Rightarrow> node \<Rightarrow> (io_error + unit) \<times> node" where
  "made_dir env mk p t =
     (if \<not> mk then (Inr (), t)
      else (case mkdirat env p t of
              (Inl e, t1) \<Rightarrow> if error_kind e = AlreadyExists then (Inr (), t1) else (Inl e, t1)
            | (Inr u, t1) \<Rightarrow> (Inr (), t1)))"

fun descend :: "files_env \<Rightarrow> bool \<Rightarrow> string list \<Rightarrow> string list \<Rightarrow> node \<Rightarrow> (io_error + string list) \<times> node" where
  "descend env mk d [] t = (Inr d, t)"
| "descend env mk d (p # ps) t =
     (case made_dir env mk (d @ [p]) t of
        (Inl e, t1) \<Rightarrow> (Inl e, t1)
      | (Inr u, t1) \<Rightarrow>
          (case open_directory env t1 (d @ [p]) of
             Inl e \<Rightarrow> (Inl e, t1)
           | Inr u \<Rightarrow> descend env mk (d @ [p]) ps t1))"

definition unavailable :: "files_env \<Rightarrow> string \<Rightarrow> io_error \<Rightarrow> core_error" where
  "unavailable env what e = denied (what @ '' is unavailable: '' @ fv_show env e)"

definition confine :: "files_env \<Rightarrow> policy \<Rightarrow> string \<Rightarrow> path option \<Rightarrow> bool \<Rightarrow> node \<Rightarrow> (core_error + confined) \<times> node" where
  "confine env pol s ws mk t =
     (case file_at env t pol s ws of
        Inl e \<Rightarrow> (Inl e, t)
      | Inr display \<Rightarrow>
     (case workspace_root pol ws of
        None \<Rightarrow> (Inl (denied ''Workspace root is unset''), t)
      | Some configured \<Rightarrow>
     (case fv_canon env t configured of
        Inl e \<Rightarrow> (Inl (unavailable env ''Workspace'' e), t)
      | Inr root \<Rightarrow>
          if \<not> starts_with display root then (Inl (denied ''Path leaves the workspace''), t)
          else
            (let target = drop (length (components root)) (components display) in
             if ''..'' \<in> set target then (Inl (denied ''Path is not relative to the workspace''), t)
             else
               (case open_directory env t (components root) of
                  Inl e \<Rightarrow> (Inl (unavailable env ''Workspace'' e), t)
                | Inr u \<Rightarrow>
                    (case descend env mk (components root) (butlast target) t of
                       (Inl e, t1) \<Rightarrow> (Inl (unavailable env ''Path'' e), t1)
                     | (Inr d, t1) \<Rightarrow>
                         (Inr \<lparr>cf_display = display, cf_dir = d, cf_name = (if target = [] then None else Some (last target))\<rparr>, t1)))))))"

definition confined_path :: "confined \<Rightarrow> string list" where
  "confined_path cf = cf_dir cf @ (case cf_name cf of None \<Rightarrow> [] | Some n \<Rightarrow> [n])"

text \<open>Opening the entry itself, for reading; a link is refused. Without a name the descriptor is duplicated.\<close>

definition open_entry :: "files_env \<Rightarrow> node \<Rightarrow> confined \<Rightarrow> io_error + node" where
  "open_entry env t cf =
     (case (if cf_name cf = None then None else fv_fault env (OpenFile (confined_path cf))) of
        Some e \<Rightarrow> Inl e
      | None \<Rightarrow>
          (case node_at t (confined_path cf) of
             None \<Rightarrow> Inl (IoError NotFound [])
           | Some (LinkNode l) \<Rightarrow> Inl loop_error
           | Some (OtherNode (Some e) r) \<Rightarrow> Inl e
           | Some n \<Rightarrow> Inr n))"

definition open_entry_dir :: "files_env \<Rightarrow> node \<Rightarrow> confined \<Rightarrow> io_error + (string \<times> node) list" where
  "open_entry_dir env t cf =
     (case open_entry env t cf of
        Inl e \<Rightarrow> Inl e
      | Inr (DirNode es) \<Rightarrow> Inr es
      | Inr _ \<Rightarrow> Inl (IoError NotADirectory []))"

section \<open>Reading, writing, listing\<close>

definition decode_text :: "files_env \<Rightarrow> string \<Rightarrow> io_error + string" where
  "decode_text env b =
     (let bytes = take (FILE_LIMIT + 1) b in
      if FILE_LIMIT < length bytes then Inl (IoError FileTooLarge ''file exceeds the size limit'')
      else (case fv_utf8 env bytes of Inl e \<Rightarrow> Inl (IoError InvalidData e) | Inr s \<Rightarrow> Inr s))"

definition read_text :: "files_env \<Rightarrow> node \<Rightarrow> io_error + string" where
  "read_text env n =
     (case n of
        FileNode b \<Rightarrow> decode_text env b
      | DirNode es \<Rightarrow> Inl (IoError OtherKind ''Is a directory'')
      | LinkNode l \<Rightarrow> Inl loop_error
      | OtherNode e (Inl e1) \<Rightarrow> Inl e1
      | OtherNode e (Inr b) \<Rightarrow> decode_text env b)"

definition read_confined :: "files_env \<Rightarrow> node \<Rightarrow> confined \<Rightarrow> io_error + string" where
  "read_confined env t cf = (case open_entry env t cf of Inl e \<Rightarrow> Inl e | Inr n \<Rightarrow> read_text env n)"

definition unlinkat :: "files_env \<Rightarrow> string list \<Rightarrow> node \<Rightarrow> node" where
  "unlinkat env p t = (if fv_fault env (DropTemp p) = None then drop_node p t else t)"

definition renameat :: "files_env \<Rightarrow> string list \<Rightarrow> string list \<Rightarrow> string \<Rightarrow> node \<Rightarrow> (io_error + unit) \<times> node" where
  "renameat env p q v t =
     (case fv_fault env (MoveTemp p) of
        Some e \<Rightarrow> (Inl e, t)
      | None \<Rightarrow>
          if (case node_at t q of Some n \<Rightarrow> is_dir_node n | None \<Rightarrow> False) then (Inl (IoError OtherKind ''Is a directory''), t)
          else (Inr (), set_node q (FileNode v) (drop_node p t)))"

definition temporary_file :: "files_env \<Rightarrow> nat \<Rightarrow> string" where
  "temporary_file env k = ''.krabb-write-'' @ show_nat (fv_pid env) @ ''-'' @ show_nat k"

text \<open>The attempts to find a free temporary name; the number of the next name goes up with each.\<close>

fun write_attempts :: "files_env \<Rightarrow> string list \<Rightarrow> string \<Rightarrow> string \<Rightarrow> nat \<Rightarrow> node \<times> nat \<Rightarrow> (io_error + unit) \<times> node \<times> nat" where
  "write_attempts env d name v 0 (t, k) =
     (Inl (IoError AlreadyExists ''Could not allocate a confined temporary file.''), t, k)"
| "write_attempts env d name v (Suc left) (t, k) =
     (let p = d @ [temporary_file env k] in
      case (case fv_fault env (CreateTemp p) of
              Some e \<Rightarrow> Inl e
            | None \<Rightarrow> if node_at t p \<noteq> None then Inl (IoError AlreadyExists []) else Inr ()) of
        Inl e \<Rightarrow>
          if error_kind e = AlreadyExists then write_attempts env d name v left (t, k + 1) else (Inl e, t, k + 1)
      | Inr u \<Rightarrow>
          (case fv_fault env (WriteTemp p) of
             Some e \<Rightarrow> (Inl e, unlinkat env p (set_node p (FileNode []) t), k + 1)
           | None \<Rightarrow>
               (case renameat env p (d @ [name]) v (set_node p (FileNode v) t) of
                  (Inl e, t1) \<Rightarrow> (Inl e, unlinkat env p t1, k + 1)
                | (Inr u, t1) \<Rightarrow> (Inr (), t1, k + 1))))"

definition write_confined :: "files_env \<Rightarrow> confined \<Rightarrow> string \<Rightarrow> node \<times> nat \<Rightarrow> (io_error + unit) \<times> node \<times> nat" where
  "write_confined env cf v s =
     (case cf_name cf of
        None \<Rightarrow> (Inl (IoError InvalidInput ''Cannot write a workspace directory.''), s)
      | Some name \<Rightarrow> write_attempts env (cf_dir cf) name v 100 s)"

definition list_confined :: "files_env \<Rightarrow> node \<Rightarrow> confined \<Rightarrow> io_error + string list" where
  "list_confined env t cf =
     (case open_entry_dir env t cf of
        Inl e \<Rightarrow> Inl e
      | Inr es \<Rightarrow>
          (let names = filter (\<lambda>n. n \<noteq> ''.'' \<and> n \<noteq> ''..'') (map (\<lambda>e. fv_lossy env (fst e)) es) in
           if ENTRY_LIMIT < length names then Inl (IoError OtherKind ''List exceeds the entry limit'') else Inr names))"

section \<open>The paths of a patch\<close>

fun after_first :: "string list \<Rightarrow> string \<Rightarrow> string option" where
  "after_first [] line = None"
| "after_first (p # ps) line = (case strip_prefix p line of Some v \<Rightarrow> Some v | None \<Rightarrow> after_first ps line)"

definition line_paths :: "string \<Rightarrow> string list" where
  "line_paths line =
     (case strip_prefix ''diff --git '' line of
        Some v \<Rightarrow> (case split_whitespace v of a # b # _ \<Rightarrow> [a, b] | _ \<Rightarrow> [])
      | None \<Rightarrow>
          (case after_first [''--- '', ''+++ '', ''rename from '', ''rename to '', ''copy from '', ''copy to ''] line of
             None \<Rightarrow> []
           | Some v \<Rightarrow> take 1 (split_whitespace v)))"

definition patch_path :: "string \<Rightarrow> string" where
  "patch_path p = (case after_first [''a/'', ''b/''] p of Some v \<Rightarrow> v | None \<Rightarrow> p)"

fun check_patch_paths :: "(string \<Rightarrow> core_error + path) \<Rightarrow> string list \<Rightarrow> core_error + unit" where
  "check_patch_paths f [] = Inr ()"
| "check_patch_paths f (p # ps) =
     (if p = ''/dev/null'' then check_patch_paths f ps
      else (case f (patch_path p) of Inl e \<Rightarrow> Inl e | Inr q \<Rightarrow> check_patch_paths f ps))"

definition patch_paths_at :: "files_env \<Rightarrow> node \<Rightarrow> policy \<Rightarrow> string \<Rightarrow> path option \<Rightarrow> core_error + unit" where
  "patch_paths_at env t pol text ws =
     (let paths = concat (map line_paths (text_lines text)) in
      if paths = [] then Inl (denied ''Patch does not declare any file paths'')
      else check_patch_paths (\<lambda>p. file_at env t pol p ws) paths)"

end
