(* ===== verification/Tools_Search.thy ===== *)
theory Tools_Search
  imports Tools_Files
begin

text \<open>
  Searching the workspace, in the plugin \<open>krabb-plugins/tools/src/main.rs\<close>: the walk over the tree with its budget, on
  Unix. The clock and the cancellation answer each check in turn.
\<close>

definition HIT_LIMIT :: nat where "HIT_LIMIT = 10000"
definition SEARCH_NODES :: nat where "SEARCH_NODES = 20000"
definition SEARCH_DIRECTORIES :: nat where "SEARCH_DIRECTORIES = 10000"
definition SEARCH_FILES :: nat where "SEARCH_FILES = 10000"
definition SEARCH_BYTES :: u64 where "SEARCH_BYTES = 256 * 1024 * 1024"
definition SEARCH_DEPTH :: nat where "SEARCH_DEPTH = 64"

record search_env =
  sv_files :: files_env
  sv_cancelled :: "nat \<Rightarrow> bool"
  sv_late :: "nat \<Rightarrow> bool"

record search =
  se_nodes :: nat
  se_directories :: nat
  se_files :: nat
  se_bytes :: u64
  se_checks :: nat

definition new_search :: search where
  "new_search = \<lparr>se_nodes = 0, se_directories = 0, se_files = 0, se_bytes = 0, se_checks = 0\<rparr>"

definition check_search :: "search_env \<Rightarrow> search \<Rightarrow> core_error + search" where
  "check_search env b =
     (if sv_cancelled env (se_checks b) then Inl (denied ''Search was cancelled'')
      else Inr (b\<lparr>se_checks := se_checks b + 1\<rparr>))"

text \<open>One more node, at a depth that is given by the levels left: none are left beyond \<open>SEARCH_DEPTH\<close>.\<close>

definition visit :: "search_env \<Rightarrow> nat \<Rightarrow> bool \<Rightarrow> search \<Rightarrow> core_error + search" where
  "visit env left directory b =
     (case check_search env b of
        Inl e \<Rightarrow> Inl e
      | Inr b1 \<Rightarrow>
          if left = 0 then Inl (denied ''Search exceeds the directory depth limit'')
          else if sv_late env (se_checks b) then Inl (denied ''Search exceeds the time limit'')
          else if SEARCH_NODES < se_nodes b + 1 then Inl (denied ''Search exceeds the entry limit'')
          else if directory then
            (if SEARCH_DIRECTORIES < se_directories b + 1 then Inl (denied ''Search exceeds the directory limit'')
             else Inr (b1\<lparr>se_nodes := se_nodes b + 1, se_directories := se_directories b + 1\<rparr>))
          else
            (if SEARCH_FILES < se_files b + 1 then Inl (denied ''Search exceeds the file limit'')
             else Inr (b1\<lparr>se_nodes := se_nodes b + 1, se_files := se_files b + 1\<rparr>)))"

definition read_budget :: "search_env \<Rightarrow> nat \<Rightarrow> search \<Rightarrow> core_error + search" where
  "read_budget env n b =
     (case check_search env b of
        Inl e \<Rightarrow> Inl e
      | Inr b1 \<Rightarrow>
          if SEARCH_BYTES < sat_add (se_bytes b) (of_nat n) then Inl (denied ''Search exceeds the byte limit'')
          else Inr (b1\<lparr>se_bytes := sat_add (se_bytes b) (of_nat n)\<rparr>))"

definition hit_text :: "path \<Rightarrow> nat \<Rightarrow> string" where
  "hit_text display line = path_string display @ '':'' @ show_nat (line + 1)"

fun search_lines :: "search_env \<Rightarrow> string \<Rightarrow> path \<Rightarrow> nat \<Rightarrow> string list \<Rightarrow> string list \<times> search \<Rightarrow>
    core_error + string list \<times> search" where
  "search_lines env needle display k [] st = Inr st"
| "search_lines env needle display k (l # ls) (hits, b) =
     (case check_search env b of
        Inl e \<Rightarrow> Inl e
      | Inr b1 \<Rightarrow>
          if contains_text l needle then
            (if HIT_LIMIT \<le> length hits then Inl (denied ''Search exceeds the result limit'')
             else search_lines env needle display (k + 1) ls (hits @ [hit_text display k], b1))
          else search_lines env needle display (k + 1) ls (hits, b1))"

definition search_file :: "search_env \<Rightarrow> string \<Rightarrow> path \<Rightarrow> string \<Rightarrow> string list \<times> search \<Rightarrow> core_error + string list \<times> search" where
  "search_file env needle display bytes st =
     (case read_budget env (length bytes) (snd st) of
        Inl e \<Rightarrow> Inl e
      | Inr b1 \<Rightarrow>
          (case decode_text (sv_files env) bytes of
             Inl e \<Rightarrow> Inr (fst st, b1)
           | Inr text \<Rightarrow> search_lines env needle display 0 (text_lines text) (fst st, b1)))"

definition search_failed :: "search_env \<Rightarrow> io_error \<Rightarrow> core_error" where
  "search_failed env e = denied (''Search failed: '' @ fv_show (sv_files env) e)"

definition child :: "search_env \<Rightarrow> node \<Rightarrow> confined \<Rightarrow> string \<Rightarrow> core_error + confined" where
  "child env t cf name =
     (case open_entry_dir (sv_files env) t cf of
        Inl e \<Rightarrow> Inl (search_failed env e)
      | Inr es \<Rightarrow>
          Inr \<lparr>cf_display = path_join (cf_display cf) (Path False [name]), cf_dir = confined_path cf, cf_name = Some name\<rparr>)"

definition is_link_node :: "node \<Rightarrow> bool" where
  "is_link_node n \<longleftrightarrow> (case n of LinkNode l \<Rightarrow> True | _ \<Rightarrow> False)"

text \<open>The walk; the levels left go down where the code counts the depth up.\<close>

function search_confined :: "search_env \<Rightarrow> node \<Rightarrow> string \<Rightarrow> nat \<Rightarrow> confined \<Rightarrow> string list \<times> search \<Rightarrow>
      core_error + string list \<times> search"
  and search_entries :: "search_env \<Rightarrow> node \<Rightarrow> string \<Rightarrow> nat \<Rightarrow> confined \<Rightarrow> (string \<times> node) list \<Rightarrow> string list \<times> search \<Rightarrow>
      core_error + string list \<times> search" where
  "search_confined env t needle left cf st =
     (case open_entry (sv_files env) t cf of
        Inl e \<Rightarrow> Inl (search_failed env e)
      | Inr n \<Rightarrow>
     (case visit env left (is_dir_node n) (snd st) of
        Inl e \<Rightarrow> Inl e
      | Inr b1 \<Rightarrow>
     (case left of
        0 \<Rightarrow> Inl (denied ''Search exceeds the directory depth limit'')
      | Suc l \<Rightarrow>
          (case n of
             DirNode es \<Rightarrow> search_entries env t needle l cf es (fst st, b1)
           | FileNode bytes \<Rightarrow> search_file env needle (cf_display cf) bytes (fst st, b1)
           | _ \<Rightarrow> Inr (fst st, b1)))))"
| "search_entries env t needle left cf [] st = Inr st"
| "search_entries env t needle left cf (e # es) st =
     (let name = fv_lossy (sv_files env) (fst e) in
      if name = ''.'' \<or> name = ''..'' then search_entries env t needle left cf es st
      else if is_link_node (snd e) then search_entries env t needle left cf es st
      else
        (case child env t cf name of
           Inl err \<Rightarrow> Inl err
         | Inr c \<Rightarrow>
             (case search_confined env t needle left c st of
                Inl err \<Rightarrow> Inl err
              | Inr st1 \<Rightarrow> search_entries env t needle left cf es st1)))"
  by pat_completeness auto
termination
  by (relation "measures [\<lambda>x. case x of Inl (env, t, needle, left, cf, st) \<Rightarrow> left | Inr (env, t, needle, left, cf, es, st) \<Rightarrow> left,
      \<lambda>x. case x of Inl y \<Rightarrow> 0 | Inr (env, t, needle, left, cf, es, st) \<Rightarrow> length es + 1]") auto

declare search_confined.simps [simp del]

definition search_at :: "search_env \<Rightarrow> node \<Rightarrow> policy \<Rightarrow> string \<Rightarrow> path \<Rightarrow> path option \<Rightarrow> string list \<times> search \<Rightarrow>
    core_error + string list \<times> search" where
  "search_at env t pol needle p ws st =
     (case file_at (sv_files env) t pol (fv_lossy (sv_files env) (path_string p)) ws of
        Inl e \<Rightarrow> Inl e
      | Inr display \<Rightarrow>
          if \<not> fv_exists (sv_files env) t display then Inr st
          else (case fst (confine (sv_files env) pol (fv_lossy (sv_files env) (path_string display)) ws False t) of
                  Inl e \<Rightarrow> Inl e
                | Inr cf \<Rightarrow> search_confined env t needle (SEARCH_DEPTH + 1) cf st))"

definition search_request :: "search_env \<Rightarrow> node \<Rightarrow> policy \<Rightarrow> string \<Rightarrow> string \<Rightarrow> string option \<Rightarrow> core_error + string list" where
  "search_request env t pol p needle given =
     (case workspace (sv_files env) t given of
        Inl e \<Rightarrow> Inl e
      | Inr ws \<Rightarrow>
     (case file_at (sv_files env) t pol p ws of
        Inl e \<Rightarrow> Inl e
      | Inr q \<Rightarrow>
     (case search_at env t pol needle q ws ([], new_search) of
        Inl e \<Rightarrow> Inl e
      | Inr (hits, b) \<Rightarrow> Inr hits)))"

end
