(* ===== verification/Tools_Calls.thy ===== *)
theory Tools_Calls
  imports Tools_Search
begin

text \<open>
  The requests of the plugin \<open>krabb-plugins/tools/src/main.rs\<close>: reading, writing, listing, searching and fetching, patches,
  Git and the shell, on Unix. A process is a command, and what running it gives and does to the tree is a function of the
  environment (\<open>capture\<close>, with its time limit and the limit of its output). The state keeps the commands that were run.
\<close>

section \<open>Processes\<close>

record command =
  cm_program :: string
  cm_args :: "string list"
  cm_set :: "(string \<times> string) list"
  cm_unset :: "string list"
  cm_dir :: path
  cm_input :: "string option"
  cm_group :: bool

record process_output =
  out_code :: "int option"
  out_stdout :: string
  out_stderr :: string

record sandbox =
  sb_runtime :: string
  sb_image :: string

record 'n tools_env =
  tv_search :: search_env
  tv_fetch :: "'n fetch_env"
  tv_run :: "command \<Rightarrow> node \<Rightarrow> (io_error + process_output) \<times> node"
  tv_search_refused :: "string option"
  tv_fetch_refused :: "string option"
  tv_response_len :: "response \<Rightarrow> nat"
  tv_user :: string
  tv_temp_dir :: path
  tv_private_dir :: "path \<Rightarrow> io_error option"
  tv_remove_dir :: "path \<Rightarrow> io_error option"
  tv_cid :: "path \<Rightarrow> io_error + string"

record 'n tools_state =
  tl_tree :: node
  tl_temp :: nat
  tl_runs :: "command list"
  tl_net :: "'n network"

abbreviation tv_files :: "'n tools_env \<Rightarrow> files_env" where
  "tv_files env \<equiv> sv_files (tv_search env)"

definition invalid :: "string \<Rightarrow> io_error" where
  "invalid m = IoError InvalidInput m"

definition run_process :: "'n tools_env \<Rightarrow> command \<Rightarrow> 'n tools_state \<Rightarrow> (io_error + process_output) \<times> 'n tools_state" where
  "run_process env c st =
     (case tv_run env c (tl_tree st) of
        (r, t) \<Rightarrow> (r, st\<lparr>tl_tree := t, tl_runs := tl_runs st @ [c]\<rparr>))"

section \<open>Git\<close>

definition DISABLED_HOOKS :: string where "DISABLED_HOOKS = ''/dev/null''"

definition git_removed :: "string list" where
  "git_removed = [''GIT_DIR'', ''GIT_WORK_TREE'', ''GIT_INDEX_FILE'', ''GIT_COMMON_DIR'', ''GIT_OBJECT_DIRECTORY'',
     ''GIT_ALTERNATE_OBJECT_DIRECTORIES'', ''GIT_EXTERNAL_DIFF'', ''GIT_DIFF_OPTS'', ''GIT_PAGER'', ''GIT_SSH'', ''GIT_SSH_COMMAND'',
     ''GIT_EDITOR'', ''GIT_SEQUENCE_EDITOR'', ''GIT_ASKPASS'']"

definition git_prefix :: "string list" where
  "git_prefix = [''--no-pager'', ''--no-optional-locks'', ''-c'', ''core.hooksPath='' @ DISABLED_HOOKS, ''-c'', ''core.fsmonitor=false'',
     ''-c'', ''diff.external='']"

definition git_command :: "string list \<Rightarrow> path \<Rightarrow> command" where
  "git_command args dir =
     \<lparr>cm_program = ''git'',
      cm_args = git_prefix @ (case args of
          [] \<Rightarrow> []
        | a # rest \<Rightarrow> if a = ''diff'' then [''diff'', ''--no-ext-diff'', ''--no-textconv''] @ rest else args),
      cm_set = [(''GIT_CONFIG_NOSYSTEM'', ''1''), (''GIT_CONFIG_COUNT'', ''0'')],
      cm_unset = git_removed, cm_dir = dir, cm_input = None, cm_group = False\<rparr>"

definition apply_command :: "path \<Rightarrow> string \<Rightarrow> bool \<Rightarrow> command" where
  "apply_command root text check =
     (let c = git_command [''apply''] root in
      c\<lparr>cm_args := cm_args c @ [''--whitespace=error''] @ (if check then [''--check''] else []) @ [''-''], cm_input := Some text\<rparr>)"

definition git_changes :: "string list \<Rightarrow> bool" where
  "git_changes args \<longleftrightarrow> length args = 3 \<and> args ! 0 = ''worktree'' \<and> args ! 1 \<in> {''add'', ''remove''}"

definition git_reads :: "string list \<Rightarrow> bool" where
  "git_reads args \<longleftrightarrow> args \<in> {[''status''], [''diff''], [''worktree'', ''list'']}"

section \<open>The sandbox\<close>

definition image_char :: "char \<Rightarrow> bool" where
  "image_char c \<longleftrightarrow> is_ascii_alphanumeric c \<or> c \<in> set ''./:@_-''"

definition valid_image :: "string \<Rightarrow> bool" where
  "valid_image v \<longleftrightarrow> v \<noteq> [] \<and> length v \<le> 255 \<and> strip_prefix ''-'' v = None \<and> list_all image_char v"

definition parse_sandbox :: "string option \<Rightarrow> string option \<Rightarrow> io_error + sandbox option" where
  "parse_sandbox runtime img =
     (case runtime of
        None \<Rightarrow>
          if img \<noteq> None then Inl (invalid ''KRABB_SANDBOX_IMAGE requires KRABB_SANDBOX_RUNTIME.'') else Inr None
      | Some r \<Rightarrow>
          if r = ''off'' then
            (if img \<noteq> None then Inl (invalid ''KRABB_SANDBOX_IMAGE cannot be set when sandboxing is off.'') else Inr None)
          else if r \<notin> {''docker'', ''podman''}
          then Inl (invalid ''KRABB_SANDBOX_RUNTIME must be docker, podman, or off.'')
          else (case img of
                  None \<Rightarrow> Inl (invalid ''KRABB_SANDBOX_IMAGE must name a valid local image.'')
                | Some v \<Rightarrow>
                    if valid_image v then Inr (Some \<lparr>sb_runtime = r, sb_image = v\<rparr>)
                    else Inl (invalid ''KRABB_SANDBOX_IMAGE must name a valid local image.'')))"

text \<open>\<open>char::is_control\<close>.\<close>

definition is_control :: "string \<Rightarrow> bool" where
  "is_control c \<longleftrightarrow> (case map code c of [n] \<Rightarrow> n < 32 \<or> n = 127 | [m, n] \<Rightarrow> m = 0xC2 \<and> 0x80 \<le> n \<and> n < 0xA0 | _ \<Rightarrow> False)"

definition sandbox_options :: "string list" where
  "sandbox_options = [''--rm'', ''--pull=never'', ''--read-only'', ''--network=none'', ''--cap-drop=ALL'',
     ''--security-opt=no-new-privileges'', ''--pids-limit=128'', ''--memory=1g'', ''--cpus=2'',
     ''--tmpfs=/tmp:rw,noexec,nosuid,size=64m'', ''--entrypoint=sh'', ''--mount'']"

definition sandbox_process :: "'n tools_env \<Rightarrow> sandbox \<Rightarrow> string \<Rightarrow> path \<Rightarrow> path \<Rightarrow> io_error + command" where
  "sandbox_process env sb cmd root cidfile =
     (if (case fv_utf8 (tv_files env) (path_string root) of
            Inl e \<Rightarrow> True
          | Inr s \<Rightarrow> CHR '','' \<in> set s \<or> list_ex is_control (chars s))
      then Inl (invalid ''Sandbox workspace path cannot be represented safely.'')
      else Inr \<lparr>cm_program = sb_runtime sb,
        cm_args = [''run'', ''--user'', tv_user env] @ sandbox_options
          @ [''type=bind,source='' @ path_string root @ '',target=/workspace'', ''--cidfile'', path_string cidfile,
             ''--workdir'', ''/workspace'', sb_image sb, ''-lc'', cmd],
        cm_set = [], cm_unset = [], cm_dir = root, cm_input = None, cm_group = True\<rparr>)"

text \<open>A private directory under a free name, in at most 16 attempts.\<close>

fun cid_dir :: "'n tools_env \<Rightarrow> nat \<Rightarrow> 'n tools_state \<Rightarrow> (io_error + path) \<times> 'n tools_state" where
  "cid_dir env 0 st = (Inl (IoError AlreadyExists ''Could not allocate a private container ID file.''), st)"
| "cid_dir env (Suc left) st =
     (let p = path_join (tv_temp_dir env)
            (Path False [''krabb-container-'' @ show_nat (fv_pid (tv_files env)) @ ''-'' @ show_nat (tl_temp st)]);
          st1 = st\<lparr>tl_temp := tl_temp st + 1\<rparr>
      in case tv_private_dir env p of
           None \<Rightarrow> (Inr p, st1)
         | Some e \<Rightarrow> if error_kind e = AlreadyExists then cid_dir env left st1 else (Inl e, st1))"

definition remove_container :: "'n tools_env \<Rightarrow> sandbox \<Rightarrow> path \<Rightarrow> path \<Rightarrow> 'n tools_state \<Rightarrow> (io_error + unit) \<times> 'n tools_state" where
  "remove_container env sb dir cidfile st =
     (case tv_cid env cidfile of
        Inl e \<Rightarrow> (if error_kind e = NotFound then Inr () else Inl e, st)
      | Inr s \<Rightarrow>
          (let i = trim s in
           if length i < 12 \<or> 128 < length i \<or> \<not> list_all is_ascii_hexdigit i
           then (Inl (invalid ''Container runtime returned an invalid container ID.''), st)
           else
             (case run_process env \<lparr>cm_program = sb_runtime sb, cm_args = [''rm'', ''--force'', i], cm_set = [], cm_unset = [],
                  cm_dir = dir, cm_input = None, cm_group = False\<rparr> st of
                (Inl e, st1) \<Rightarrow> (Inl e, st1)
              | (Inr out, st1) \<Rightarrow>
                  (if out_code out = Some 0 then Inr ()
                   else Inl (IoError OtherKind ''Container runtime could not stop the timed-out command.''), st1))))"

definition cleanup_messages :: "'n tools_env \<Rightarrow> io_error option \<Rightarrow> io_error option \<Rightarrow> io_error option \<Rightarrow> string" where
  "cleanup_messages env r c d =
     (let show = fv_show (tv_files env) in
      join ''; '' ((case r of None \<Rightarrow> [] | Some e \<Rightarrow> [show e])
        @ (case c of None \<Rightarrow> [] | Some e \<Rightarrow> [''container cleanup failed: '' @ show e])
        @ (case d of None \<Rightarrow> [] | Some e \<Rightarrow> [''temporary cleanup failed: '' @ show e])))"

definition failure :: "'e + 'a \<Rightarrow> 'e option" where
  "failure r = (case r of Inl e \<Rightarrow> Some e | Inr x \<Rightarrow> None)"

definition sandbox_shell :: "'n tools_env \<Rightarrow> string \<Rightarrow> path \<Rightarrow> sandbox \<Rightarrow> path \<Rightarrow> 'n tools_state \<Rightarrow>
    (io_error + process_output) \<times> 'n tools_state" where
  "sandbox_shell env cmd root sb here st =
     (case cid_dir env 16 st of
        (Inl e, st1) \<Rightarrow> (Inl e, st1)
      | (Inr dir, st1) \<Rightarrow>
          (let cidfile = path_join dir (Path False [''id'']) in
           case sandbox_process env sb cmd root cidfile of
             Inl e \<Rightarrow> (Inl e, st1)
           | Inr c \<Rightarrow>
               (case run_process env c st1 of
                  (r, st2) \<Rightarrow>
                    (case (if failure r \<noteq> None then remove_container env sb here cidfile st2 else (Inr (), st2)) of
                       (k, st3) \<Rightarrow>
                         (if failure k = None \<and> tv_remove_dir env dir = None then (r, st3)
                          else (Inl (IoError OtherKind (cleanup_messages env (failure r) (failure k) (tv_remove_dir env dir))), st3))))))"

definition shell_command :: "string \<Rightarrow> path \<Rightarrow> command" where
  "shell_command cmd root = \<lparr>cm_program = ''sh'', cm_args = [''-c'', cmd], cm_set = [], cm_unset = [], cm_dir = root,
     cm_input = None, cm_group = True\<rparr>"

text \<open>\<open>here\<close> is the directory the plugin itself runs in.\<close>

definition shell_with :: "'n tools_env \<Rightarrow> string \<Rightarrow> path \<Rightarrow> sandbox option \<Rightarrow> path \<Rightarrow> 'n tools_state \<Rightarrow>
    (io_error + process_output) \<times> 'n tools_state" where
  "shell_with env cmd root sandbox here st =
     (case sandbox of
        Some sb \<Rightarrow> sandbox_shell env cmd root sb here st
      | None \<Rightarrow> run_process env (shell_command cmd root) st)"

section \<open>Tools\<close>

definition spec_schema :: "string list \<Rightarrow> json" where
  "spec_schema required = jobject [(''type'', JStr ''object''),
     (''properties'', jobject (map (\<lambda>k. (k, if k = ''args''
        then jobject [(''type'', JStr ''array''), (''items'', jobject [(''type'', JStr ''string'')])]
        else jobject [(''type'', JStr ''string'')])) required)),
     (''required'', JArr (map JStr required)), (''additionalProperties'', JBool False)]"

definition spec_rows :: "bool \<Rightarrow> (string \<times> string \<times> string list) list" where
  "spec_rows shell_enabled =
     [(''read'', ''Read a text file.'', [''path'']),
      (''write'', ''Write a text file with approval. Paths must remain inside the active workspace; use workspace-relative paths.'',
        [''path'', ''text'']),
      (''list'', ''List workspace entries.'', [''path'']),
      (''search'', ''Search workspace text.'', [''path'', ''text'']),
      (''fetch'', ''Fetch bounded text from a public HTTPS URL.'', [''url'']),
      (''patch'', ''Apply an approved Git patch.'', [''text'']),
      (''git'', ''Inspect or manage approved Git worktrees.'', [''args''])]
     @ (if shell_enabled
        then [(''shell'', ''Run an approved local shell command; it may inspect available paths beyond the workspace.'', [''command''])]
        else [])"

definition tool_specs :: "bool \<Rightarrow> tool_spec list" where
  "tool_specs shell_enabled =
     map (\<lambda>r. \<lparr>ts_name = fst r, ts_description = Some (fst (snd r)), ts_schema = spec_schema (snd (snd r))\<rparr>) (spec_rows shell_enabled)"

definition spec_json :: "tool_spec \<Rightarrow> json" where
  "spec_json s = jobject [(''name'', JStr (ts_name s)), (''description'', jopt JStr (ts_description s)), (''schema'', ts_schema s)]"

definition approved :: "json \<Rightarrow> bool" where
  "approved params \<longleftrightarrow> as_bool (json_index params ''approve'') = Some True"

definition failed_with :: "'n tools_env \<Rightarrow> string \<Rightarrow> io_error \<Rightarrow> core_error" where
  "failed_with env what e = denied (what @ '': '' @ fv_show (tv_files env) e)"

definition given_workspace :: "'n tools_env \<Rightarrow> json \<Rightarrow> 'n tools_state \<Rightarrow> core_error + path option" where
  "given_workspace env params st = workspace (tv_files env) (tl_tree st) (as_str (json_index params ''workspace''))"

type_synonym 'n tool_result = "(core_error + json) \<times> 'n tools_state"

definition read_tool :: "'n tools_env \<Rightarrow> policy \<Rightarrow> json \<Rightarrow> 'n tools_state \<Rightarrow> 'n tool_result" where
  "read_tool env pol params st =
     (case given_workspace env params st of
        Inl e \<Rightarrow> (Inl e, st)
      | Inr ws \<Rightarrow>
     (case as_str (json_index params ''path'') of
        None \<Rightarrow> (Inl (denied ''read.path is required''), st)
      | Some p \<Rightarrow>
     (case confine (tv_files env) pol p ws False (tl_tree st) of
        (Inl e, t) \<Rightarrow> (Inl e, st\<lparr>tl_tree := t\<rparr>)
      | (Inr cf, t) \<Rightarrow>
          (case read_confined (tv_files env) t cf of
             Inl e \<Rightarrow> (Inl (failed_with env ''Read failed'' e), st\<lparr>tl_tree := t\<rparr>)
           | Inr s \<Rightarrow> (Inr (jobject [(''text'', JStr s)]), st\<lparr>tl_tree := t\<rparr>)))))"

definition write_tool :: "'n tools_env \<Rightarrow> policy \<Rightarrow> json \<Rightarrow> 'n tools_state \<Rightarrow> 'n tool_result" where
  "write_tool env pol params st =
     (case given_workspace env params st of
        Inl e \<Rightarrow> (Inl e, st)
      | Inr ws \<Rightarrow>
     (case as_str (json_index params ''path'') of
        None \<Rightarrow> (Inl (denied ''write.path is required''), st)
      | Some p \<Rightarrow>
     (case as_str (json_index params ''text'') of
        None \<Rightarrow> (Inl (denied ''write.text is required''), st)
      | Some v \<Rightarrow>
          if \<not> approved params then (Inl (denied ''Write approval is required''), st)
          else
            (case confine (tv_files env) pol p ws True (tl_tree st) of
               (Inl e, t) \<Rightarrow> (Inl e, st\<lparr>tl_tree := t\<rparr>)
             | (Inr cf, t) \<Rightarrow>
                 (case write_confined (tv_files env) cf v (t, tl_temp st) of
                    (Inl e, t1, k) \<Rightarrow> (Inl (failed_with env ''Write failed'' e), st\<lparr>tl_tree := t1, tl_temp := k\<rparr>)
                  | (Inr u, t1, k) \<Rightarrow> (Inr (jobject [(''ok'', JBool True)]), st\<lparr>tl_tree := t1, tl_temp := k\<rparr>))))))"

definition list_tool :: "'n tools_env \<Rightarrow> policy \<Rightarrow> json \<Rightarrow> 'n tools_state \<Rightarrow> 'n tool_result" where
  "list_tool env pol params st =
     (case given_workspace env params st of
        Inl e \<Rightarrow> (Inl e, st)
      | Inr ws \<Rightarrow>
     (case confine (tv_files env) pol (text_or ''.'' (json_index params ''path'')) ws False (tl_tree st) of
        (Inl e, t) \<Rightarrow> (Inl e, st\<lparr>tl_tree := t\<rparr>)
      | (Inr cf, t) \<Rightarrow>
          (case list_confined (tv_files env) t cf of
             Inl e \<Rightarrow> (Inl (failed_with env ''List failed'' e), st\<lparr>tl_tree := t\<rparr>)
           | Inr names \<Rightarrow> (Inr (jobject [(''items'', JArr (map JStr (sort names)))]), st\<lparr>tl_tree := t\<rparr>))))"

text \<open>The wait for the one worker and the time limit around it are an answer of the environment.\<close>

definition search_tool :: "'n tools_env \<Rightarrow> policy \<Rightarrow> json \<Rightarrow> 'n tools_state \<Rightarrow> 'n tool_result" where
  "search_tool env pol params st =
     (case as_str (json_index params ''text'') of
        None \<Rightarrow> (Inl (denied ''search.text is required''), st)
      | Some needle \<Rightarrow>
     (case tv_search_refused env of
        Some e \<Rightarrow> (Inl (denied e), st)
      | None \<Rightarrow>
          (case search_request (tv_search env) (tl_tree st) pol (text_or ''.'' (json_index params ''path'')) needle
              (as_str (json_index params ''workspace'')) of
             Inl e \<Rightarrow> (Inl e, st)
           | Inr hits \<Rightarrow> (Inr (jobject [(''hits'', JArr (map JStr hits))]), st))))"

definition fetch_tool :: "'n tools_env \<Rightarrow> json \<Rightarrow> 'n tools_state \<Rightarrow> 'n tool_result" where
  "fetch_tool env params st =
     (case as_str (json_index params ''url'') of
        None \<Rightarrow> (Inl (denied ''fetch.url is required''), st)
      | Some url \<Rightarrow>
     (case tv_fetch_refused env of
        Some e \<Rightarrow> (Inl (denied e), st)
      | None \<Rightarrow>
          (case fetch_url_bounded (tv_fetch env) url (tl_net st) of (r, w) \<Rightarrow> (r, st\<lparr>tl_net := w\<rparr>))))"

definition checked_output :: "'n tools_env \<Rightarrow> string \<Rightarrow> (io_error + process_output) \<Rightarrow> core_error + unit" where
  "checked_output env what r =
     (case r of
        Inl e \<Rightarrow> Inl (failed_with env what e)
      | Inr out \<Rightarrow>
          if out_code out = Some 0 then Inr ()
          else Inl (denied (what @ '': '' @ trim (fv_lossy (tv_files env) (out_stderr out)))))"

definition patch_tool :: "'n tools_env \<Rightarrow> policy \<Rightarrow> json \<Rightarrow> 'n tools_state \<Rightarrow> 'n tool_result" where
  "patch_tool env pol params st =
     (if \<not> approved params then (Inl (denied ''Patch approval is required''), st)
      else
     (case as_str (json_index params ''text'') of
        None \<Rightarrow> (Inl (denied ''patch.text is required''), st)
      | Some text \<Rightarrow>
     (case given_workspace env params st of
        Inl e \<Rightarrow> (Inl e, st)
      | Inr ws \<Rightarrow>
     (case file_at (tv_files env) (tl_tree st) pol ''.'' ws of
        Inl e \<Rightarrow> (Inl e, st)
      | Inr root \<Rightarrow>
     (case patch_paths_at (tv_files env) (tl_tree st) pol text ws of
        Inl e \<Rightarrow> (Inl e, st)
      | Inr u \<Rightarrow>
     (case run_process env (apply_command root text True) st of
        (r, st1) \<Rightarrow>
          (case checked_output env ''Patch check failed'' r of
             Inl e \<Rightarrow> (Inl e, st1)
           | Inr u \<Rightarrow>
               (case run_process env (apply_command root text False) st1 of
                  (r, st2) \<Rightarrow>
                    (case checked_output env ''Patch failed'' r of
                       Inl e \<Rightarrow> (Inl e, st2)
                     | Inr u \<Rightarrow> (Inr (jobject [(''ok'', JBool True)]), st2))))))))))"

definition output_json :: "'n tools_env \<Rightarrow> process_output \<Rightarrow> json" where
  "output_json env out = jobject [(''status'', jopt JInt (out_code out)),
     (''stdout'', JStr (fv_lossy (tv_files env) (out_stdout out))), (''stderr'', JStr (fv_lossy (tv_files env) (out_stderr out)))]"

fun string_args :: "json list \<Rightarrow> string list option" where
  "string_args [] = Some []"
| "string_args (v # vs) =
     (case as_str v of
        None \<Rightarrow> None
      | Some a \<Rightarrow> (case string_args vs of None \<Rightarrow> None | Some as \<Rightarrow> Some (a # as)))"

definition git_refusal :: "'n tools_env \<Rightarrow> policy \<Rightarrow> json \<Rightarrow> path option \<Rightarrow> string list \<Rightarrow> 'n tools_state \<Rightarrow> core_error option" where
  "git_refusal env pol params ws args st =
     (if git_changes args then
        (if \<not> approved params then Some (denied ''Worktree approval is required'')
         else failure (file_at (tv_files env) (tl_tree st) pol (args ! 2) ws))
      else if \<not> git_reads args then Some (denied ''Only git status, diff, and worktree operations are allowed'')
      else None)"

definition git_tool :: "'n tools_env \<Rightarrow> policy \<Rightarrow> json \<Rightarrow> 'n tools_state \<Rightarrow> 'n tool_result" where
  "git_tool env pol params st =
     (case as_array (json_index params ''args'') of
        None \<Rightarrow> (Inl (denied ''git.args is required''), st)
      | Some vs \<Rightarrow>
     (case string_args vs of
        None \<Rightarrow> (Inl (denied ''git.args must contain strings''), st)
      | Some args \<Rightarrow>
     (case given_workspace env params st of
        Inl e \<Rightarrow> (Inl e, st)
      | Inr ws \<Rightarrow>
     (case git_refusal env pol params ws args st of
        Some e \<Rightarrow> (Inl e, st)
      | None \<Rightarrow>
     (case file_at (tv_files env) (tl_tree st) pol ''.'' ws of
        Inl e \<Rightarrow> (Inl e, st)
      | Inr root \<Rightarrow>
          (case run_process env (git_command args root) st of
             (Inl e, st1) \<Rightarrow> (Inl (failed_with env ''Git failed'' e), st1)
           | (Inr out, st1) \<Rightarrow> (Inr (output_json env out), st1)))))))"

definition shell_tool :: "'n tools_env \<Rightarrow> policy \<Rightarrow> sandbox option \<Rightarrow> path \<Rightarrow> json \<Rightarrow> 'n tools_state \<Rightarrow> 'n tool_result" where
  "shell_tool env pol sandbox here params st =
     (case policy_shell pol (approved params) of
        Inl e \<Rightarrow> (Inl e, st)
      | Inr u \<Rightarrow>
     (case as_str (json_index params ''command'') of
        None \<Rightarrow> (Inl (denied ''shell.command is required''), st)
      | Some cmd \<Rightarrow>
     (case given_workspace env params st of
        Inl e \<Rightarrow> (Inl e, st)
      | Inr ws \<Rightarrow>
     (case file_at (tv_files env) (tl_tree st) pol ''.'' ws of
        Inl e \<Rightarrow> (Inl e, st)
      | Inr root \<Rightarrow>
          (case shell_with env cmd root sandbox here st of
             (Inl e, st1) \<Rightarrow> (Inl (failed_with env ''Shell failed'' e), st1)
           | (Inr out, st1) \<Rightarrow> (Inr (output_json env out), st1))))))"

text \<open>The tool of a method; \<open>None\<close> is a method that the plugin does not have.\<close>

definition run_tool :: "'n tools_env \<Rightarrow> policy \<Rightarrow> sandbox option \<Rightarrow> path \<Rightarrow> string \<Rightarrow> json \<Rightarrow> 'n tools_state \<Rightarrow> 'n tool_result option" where
  "run_tool env pol sandbox here m params st =
     (if m = ''tools/list''
      then Some (Inr (jobject [(''tools'', JArr (map spec_json (tool_specs (pol_shell pol \<noteq> Off))))]), st)
      else if m = ''read'' then Some (read_tool env pol params st)
      else if m = ''write'' then Some (write_tool env pol params st)
      else if m = ''list'' then Some (list_tool env pol params st)
      else if m = ''search'' then Some (search_tool env pol params st)
      else if m = ''fetch'' then Some (fetch_tool env params st)
      else if m = ''patch'' then Some (patch_tool env pol params st)
      else if m = ''git'' then Some (git_tool env pol params st)
      else if m = ''shell'' then Some (shell_tool env pol sandbox here params st)
      else None)"

definition checked_response :: "'n tools_env \<Rightarrow> u64 \<Rightarrow> json \<Rightarrow> core_error + response option" where
  "checked_response env i v =
     (if frame_max < tv_response_len env (response_ok i v) + 1
      then Inl (denied ''Tool response exceeds the protocol frame limit'') else Inr (Some (response_ok i v)))"

definition call_with_sandbox :: "'n tools_env \<Rightarrow> policy \<Rightarrow> sandbox option \<Rightarrow> path \<Rightarrow> request \<Rightarrow> 'n tools_state \<Rightarrow>
    (core_error + response option) \<times> 'n tools_state" where
  "call_with_sandbox env pol sandbox here req st =
     (case req of
        Note v m ps \<Rightarrow> (Inr None, st)
      | Call v i m ps \<Rightarrow>
          (case run_tool env pol sandbox here m ps st of
             None \<Rightarrow> (Inr None, st)
           | Some (Inl e, st1) \<Rightarrow> (Inl e, st1)
           | Some (Inr v, st1) \<Rightarrow> (checked_response env i v, st1)))"

end
