(* ===== verification/Tools_Laws.thy ===== *)
theory Tools_Laws
  imports Tools_Calls "HOL-Library.Sublist"
begin

text \<open>
  What the tools plugin promises: a write stays below the root of the workspace and is read back, nothing changes and no
  process runs without the approval it needs, and a search that succeeds has found every line.
\<close>

section \<open>The tree\<close>

lemma map_of_put_entry [simp]: "map_of (put_entry k n es) j = (if j = k then Some n else map_of es j)"
  by (induction es) auto

lemma map_of_filter_other: "j \<noteq> p \<Longrightarrow> map_of (filter (\<lambda>e. fst e \<noteq> p) es) j = map_of es j"
  by (induction es) auto

lemma map_of_change: "map_of (map (\<lambda>e. if fst e = p then (p, f (snd e)) else e) es) j
    = (if j = p then map_option f (map_of es p) else map_of es j)"
  by (induction es) auto

lemma node_at_empty: "q \<noteq> [] \<Longrightarrow> node_at (DirNode []) q = None"
  by (cases q) auto

lemma set_node_elsewhere: "\<not> prefix p q \<Longrightarrow> \<not> prefix q p \<Longrightarrow> node_at (set_node p x n) q = node_at n q"
proof (induction p x n arbitrary: q rule: set_node.induct)
  case (2 p ps x es)
  obtain a qs where q: "q = a # qs" using 2(3) by (cases q) auto
  show ?case
  proof (cases "a = p")
    case True
    then have ne: "\<not> prefix ps qs" "\<not> prefix qs ps" using 2(2,3) q by auto
    then have "qs \<noteq> []" by auto
    with 2(1) [OF ne] True q show ?thesis by (auto simp: node_at_empty split: option.splits)
  qed (use q in simp)
qed auto

lemma drop_node_elsewhere: "\<not> prefix p q \<Longrightarrow> \<not> prefix q p \<Longrightarrow> node_at (drop_node p n) q = node_at n q"
proof (induction p n arbitrary: q rule: drop_node.induct)
  case (2 p es)
  then obtain a qs where "q = a # qs" "a \<noteq> p" by (cases q) auto
  then show ?case by (simp add: map_of_filter_other)
next
  case (3 p p' ps es)
  obtain a qs where q: "q = a # qs" using 3(3) by (cases q) auto
  show ?case
  proof (cases "a = p")
    case True
    then have ne: "\<not> prefix (p' # ps) qs" "\<not> prefix qs (p' # ps)" using 3(2,3) q by auto
    show ?thesis
    proof (cases "map_of es p")
      case (Some m)
      then have "(p, m) \<in> set es" by (rule map_of_SomeD)
      from 3(1) [OF this _ ne] Some True q show ?thesis by (simp add: map_of_change)
    qed (use True q in \<open>simp add: map_of_change\<close>)
  qed (use q in \<open>simp add: map_of_change\<close>)
qed auto

lemma set_node_here: "p \<noteq> [] \<Longrightarrow> node_at n (butlast p) = Some (DirNode es) \<Longrightarrow> node_at (set_node p x n) p = Some x"
proof (induction p x n arbitrary: es rule: set_node.induct)
  case (2 p ps x ds)
  show ?case
  proof (cases "ps = []")
    case False
    with 2 show ?thesis by (auto split: option.splits)
  qed simp
qed (auto split: if_splits)

text \<open>A node keeps its kind: a directory that gets an entry is a directory.\<close>

lemma set_node_parent: "node_at n (d @ q) = Some m \<Longrightarrow> q \<noteq> [] \<Longrightarrow> \<exists>es. node_at n d = Some (DirNode es)"
proof (induction n d rule: node_at.induct)
  case (1 n)
  then show ?case by (cases n; cases q) auto
qed (auto split: option.splits)

lemma set_node_dir: "node_at n d = Some (DirNode es) \<Longrightarrow> \<exists>es'. node_at (set_node (d @ [x]) y n) d = Some (DirNode es')"
proof (induction n d arbitrary: es rule: node_at.induct)
  case (1 n)
  then show ?case by (cases n) auto
qed (auto split: option.splits)

lemma drop_node_dir: "node_at n d = Some (DirNode es) \<Longrightarrow> \<exists>es'. node_at (drop_node (d @ [x]) n) d = Some (DirNode es')"
proof (induction n d arbitrary: es rule: node_at.induct)
  case (1 n)
  then show ?case by (cases n) auto
next
  case (2 ds p ps)
  then show ?case by (cases ps) (auto simp: map_of_change split: option.splits)
qed (auto split: option.splits)

definition below :: "string list \<Rightarrow> node \<Rightarrow> node \<Rightarrow> bool" where
  "below root t t' \<longleftrightarrow> (\<forall>q. prefix root q \<or> prefix q root \<or> node_at t' q = node_at t q)"

lemma below_refl [simp]: "below root t t"
  by (simp add: below_def)

lemma below_trans: "below root t t1 \<Longrightarrow> below root t1 t2 \<Longrightarrow> below root t t2"
  unfolding below_def by metis

lemma apart: "prefix root p \<Longrightarrow> \<not> prefix root q \<Longrightarrow> \<not> prefix q root \<Longrightarrow> \<not> prefix p q \<and> \<not> prefix q p"
  by (meson prefix_order.trans prefix_same_cases)

lemma below_set: "prefix root p \<Longrightarrow> below root t (set_node p x t)"
  unfolding below_def using apart set_node_elsewhere by metis

lemma below_drop: "prefix root p \<Longrightarrow> below root t (drop_node p t)"
  unfolding below_def using apart drop_node_elsewhere by metis

section \<open>Confinement\<close>

lemma made_dir_below: "made_dir env mk p t = (r, t1) \<Longrightarrow> prefix root p \<Longrightarrow> below root t t1"
  unfolding made_dir_def mkdirat_def
  by (auto split: if_splits option.splits prod.splits sum.splits intro: below_set)

lemma open_directory_dir: "open_directory env t p = Inr u \<Longrightarrow> \<exists>es. node_at t p = Some (DirNode es)"
  by (cases "node_at t p"; cases "the (node_at t p)") (auto simp: open_directory_def split: option.splits)

lemma descend_below:
  "descend env mk d ps t = (r, t1) \<Longrightarrow> prefix root d \<Longrightarrow> below root t t1"
proof (induction ps arbitrary: d t)
  case (Cons p ps)
  obtain a t2 where m: "made_dir env mk (d @ [p]) t = (a, t2)" by (cases "made_dir env mk (d @ [p]) t")
  have pre: "prefix root (d @ [p])" using Cons.prems(2) by simp
  have b: "below root t t2" by (rule made_dir_below [OF m pre])
  show ?case
  proof (cases "\<exists>u v. a = Inr u \<and> open_directory env t2 (d @ [p]) = Inr v")
    case True
    with Cons.prems(1) m have "descend env mk (d @ [p]) ps t2 = (r, t1)" by auto
    from below_trans [OF b Cons.IH [OF this pre]] show ?thesis .
  next
    case False
    with Cons.prems(1) m have "t1 = t2" by (auto split: sum.splits)
    with b show ?thesis by simp
  qed
qed simp

lemma descend_dir:
  "descend env mk d ps t = (Inr d1, t1) \<Longrightarrow> \<exists>es. node_at t d = Some (DirNode es) \<Longrightarrow>
     d1 = d @ ps \<and> (\<exists>es. node_at t1 d1 = Some (DirNode es))"
proof (induction ps arbitrary: d t)
  case (Cons p ps)
  obtain a t2 where m: "made_dir env mk (d @ [p]) t = (a, t2)" by (cases "made_dir env mk (d @ [p]) t")
  from Cons.prems(1) m obtain u v where "a = Inr u" and o: "open_directory env t2 (d @ [p]) = Inr v"
    by (auto split: sum.splits)
  with Cons.prems(1) m have "descend env mk (d @ [p]) ps t2 = (Inr d1, t1)" by auto
  from Cons.IH [OF this open_directory_dir [OF o]] show ?case by auto
qed simp

lemma descend_same: "snd (descend env False d ps t) = t"
  by (induction ps arbitrary: d) (auto simp: made_dir_def split: sum.splits)

lemma confine_same: "snd (confine env pol s ws False t) = t"
  unfolding confine_def using descend_same [of env]
  by (auto simp: Let_def split: sum.splits option.splits prod.splits) (metis snd_conv)+

text \<open>What a path was confined to: a directory below the canonical root, reached by entries that are directories
  themselves, and a name in it.\<close>

lemma confine_inside:
  assumes "confine env pol s ws mk t = (Inr cf, t1)"
  shows "\<exists>r root. workspace_root pol ws = Some r \<and> fv_canon env t r = Inr root \<and> starts_with (cf_display cf) root
    \<and> is_absolute (cf_display cf) = is_absolute root \<and> components (cf_display cf) = confined_path cf
    \<and> prefix (components root) (cf_dir cf) \<and> (\<exists>es. node_at t1 (cf_dir cf) = Some (DirNode es))
    \<and> (cf_name cf = None \<longrightarrow> cf_dir cf = components root) \<and> below (components root) t t1"
proof -
  obtain display where display: "file_at env t pol s ws = Inr display"
    using assms by (auto simp: confine_def split: sum.splits)
  obtain r where r: "workspace_root pol ws = Some r" using assms display by (auto simp: confine_def split: option.splits)
  obtain root where root: "fv_canon env t r = Inr root" using assms display r by (auto simp: confine_def split: sum.splits)
  define target where "target = drop (length (components root)) (components display)"
  note run = assms [unfolded confine_def display sum.case r option.case root Let_def, folded target_def]
  have sw: "starts_with display root" using run by (auto split: if_splits)
  obtain u where o: "open_directory env t (components root) = Inr u" using run by (auto split: if_splits sum.splits)
  obtain x t2 where d: "descend env mk (components root) (butlast target) t = (x, t2)" by fastforce
  then obtain d1 where x: "x = Inr d1" using run o by (auto split: if_splits sum.splits)
  have cf: "cf = \<lparr>cf_display = display, cf_dir = d1, cf_name = (if target = [] then None else Some (last target))\<rparr>" "t1 = t2"
    using run o d x by (auto split: if_splits)
  from descend_dir [OF d [unfolded x] open_directory_dir [OF o]]
  have d1: "d1 = components root @ butlast target" "\<exists>es. node_at t1 d1 = Some (DirNode es)" using cf(2) by auto
  have split: "components display = components root @ target"
    using sw unfolding starts_with_def target_def by (metis append_take_drop_id)
  have path: "components display = confined_path cf"
    using split d1(1) by (cases "target = []") (simp_all add: cf(1) confined_path_def)
  have "below (components root) t t1" using descend_below [OF d, of "components root"] cf(2) by simp
  then show ?thesis using r root sw path d1 by (auto simp: cf(1) starts_with_def)
qed

lemma confine_below:
  assumes "confine env pol s ws mk t = (x, t1)"
  shows "t1 = t \<or> (\<exists>r root. workspace_root pol ws = Some r \<and> fv_canon env t r = Inr root \<and> below (components root) t t1)"
proof (cases x)
  case (Inr cf)
  from confine_inside [OF assms [unfolded Inr]] show ?thesis by blast
next
  case (Inl e)
  show ?thesis
  proof (cases "t1 = t")
    case False
    then show ?thesis using assms unfolding confine_def Let_def
      by (auto split: sum.splits option.splits if_splits prod.splits dest: descend_below [OF _ prefix_order.refl])
  qed simp
qed

section \<open>Writing\<close>

lemma unlinkat_below: "prefix root p \<Longrightarrow> below root t (unlinkat env p t)"
  by (simp add: unlinkat_def below_drop)

lemma renameat_below: "renameat env p q v t = (r, t1) \<Longrightarrow> prefix root p \<Longrightarrow> prefix root q \<Longrightarrow> below root t t1"
  unfolding renameat_def by (auto split: option.splits if_splits intro: below_trans below_set below_drop)

lemma write_attempts_below:
  "write_attempts env d name v n (t, k) = (r, t1, k1) \<Longrightarrow> prefix root d \<Longrightarrow> below root t t1"
proof (induction n arbitrary: t k)
  case (Suc n)
  let ?p = "d @ [temporary_file env k]"
  have p: "prefix root ?p" "prefix root (d @ [name])" using Suc.prems(2) by simp_all
  let ?start = "case fv_fault env (CreateTemp ?p) of Some e \<Rightarrow> Inl e
      | None \<Rightarrow> if node_at t ?p \<noteq> None then Inl (IoError AlreadyExists []) else Inr ()"
  show ?case
  proof (cases ?start)
    case (Inl e)
    show ?thesis
    proof (cases "error_kind e = AlreadyExists")
      case True
      with Suc.prems(1) Inl have "write_attempts env d name v n (t, k + 1) = (r, t1, k1)" by (simp add: Let_def)
      from Suc.IH [OF this Suc.prems(2)] show ?thesis .
    qed (use Suc.prems(1) Inl in \<open>simp add: Let_def\<close>)
  next
    case (Inr u)
    show ?thesis
    proof (cases "fv_fault env (WriteTemp ?p)")
      case (Some e)
      with Suc.prems(1) Inr have "t1 = unlinkat env ?p (set_node ?p (FileNode []) t)" by (simp add: Let_def)
      then show ?thesis using below_trans [OF below_set [OF p(1)] unlinkat_below [OF p(1)]] by simp
    next
      case None
      obtain x t2 where m: "renameat env ?p (d @ [name]) v (set_node ?p (FileNode v) t) = (x, t2)" by fastforce
      have b: "below root t t2" by (rule below_trans [OF below_set [OF p(1)] renameat_below [OF m p]])
      have "t1 = t2 \<or> t1 = unlinkat env ?p t2" using Suc.prems(1) Inr None m by (auto simp: Let_def split: sum.splits)
      then show ?thesis using b below_trans [OF b unlinkat_below [OF p(1)]] by blast
    qed
  qed
qed simp

lemma write_attempts_written:
  "write_attempts env d name v n (t, k) = (Inr u, t1, k1) \<Longrightarrow> \<exists>es. node_at t d = Some (DirNode es) \<Longrightarrow>
     node_at t1 (d @ [name]) = Some (FileNode v)"
proof (induction n arbitrary: t k)
  case (Suc n)
  let ?p = "d @ [temporary_file env k]"
  let ?start = "case fv_fault env (CreateTemp ?p) of Some e \<Rightarrow> Inl e
      | None \<Rightarrow> if node_at t ?p \<noteq> None then Inl (IoError AlreadyExists []) else Inr ()"
  show ?case
  proof (cases ?start)
    case (Inl e)
    with Suc.prems(1) have "write_attempts env d name v n (t, k + 1) = (Inr u, t1, k1)"
      by (simp add: Let_def split: if_splits)
    from Suc.IH [OF this Suc.prems(2)] show ?thesis .
  next
    case (Inr w)
    with Suc.prems(1) have w: "fv_fault env (WriteTemp ?p) = None" by (auto simp: Let_def split: option.splits)
    obtain x t2 where m: "renameat env ?p (d @ [name]) v (set_node ?p (FileNode v) t) = (x, t2)" by fastforce
    then obtain y where x: "x = Inr y" "t1 = t2" using Suc.prems(1) Inr w by (auto simp: Let_def split: sum.splits)
    then have t1: "t1 = set_node (d @ [name]) (FileNode v) (drop_node ?p (set_node ?p (FileNode v) t))"
      using m by (auto simp: renameat_def split: option.splits if_splits)
    from Suc.prems(2) obtain es where "node_at t d = Some (DirNode es)" by blast
    from set_node_dir [OF this] obtain es1 where "node_at (set_node ?p (FileNode v) t) d = Some (DirNode es1)" by blast
    from drop_node_dir [OF this] obtain es2 where
      "node_at (drop_node ?p (set_node ?p (FileNode v) t)) d = Some (DirNode es2)" by blast
    then show ?thesis unfolding t1 by (intro set_node_here) simp_all
  qed
qed simp

text \<open>The whole request to write.\<close>

lemma write_tool_below:
  assumes "write_tool env pol params st = (r, st')"
  shows "tl_runs st' = tl_runs st \<and> tl_net st' = tl_net st \<and>
    (tl_tree st' = tl_tree st \<or> approved params \<and> (\<exists>ws top root. given_workspace env params st = Inr ws
       \<and> workspace_root pol ws = Some top \<and> fv_canon (tv_files env) (tl_tree st) top = Inr root
       \<and> below (components root) (tl_tree st) (tl_tree st')))"
proof (cases "\<exists>ws p v. given_workspace env params st = Inr ws \<and> as_str (json_index params ''path'') = Some p
    \<and> as_str (json_index params ''text'') = Some v \<and> approved params")
  case False
  then have "st' = st" using assms by (auto simp: write_tool_def split: sum.splits option.splits if_splits)
  then show ?thesis by simp
next
  case True
  then obtain ws p v where g: "given_workspace env params st = Inr ws" "as_str (json_index params ''path'') = Some p"
    "as_str (json_index params ''text'') = Some v" "approved params" by blast
  obtain x t where c: "confine (tv_files env) pol p ws True (tl_tree st) = (x, t)" by fastforce
  show ?thesis
  proof (cases x)
    case (Inl e)
    then have "st' = st\<lparr>tl_tree := t\<rparr>" using assms g c by (simp add: write_tool_def)
    then show ?thesis using confine_below [OF c] g by auto
  next
    case (Inr cf)
    from confine_inside [OF c [unfolded Inr]] obtain top root where
      root: "workspace_root pol ws = Some top" "fv_canon (tv_files env) (tl_tree st) top = Inr root"
        "prefix (components root) (cf_dir cf)" "below (components root) (tl_tree st) t" by blast
    obtain y t1 k where w: "write_confined (tv_files env) cf v (t, tl_temp st) = (y, t1, k)"
      by (cases "write_confined (tv_files env) cf v (t, tl_temp st)")
    then have st': "st' = st\<lparr>tl_tree := t1, tl_temp := k\<rparr>"
      using assms g c Inr by (auto simp: write_tool_def split: sum.splits)
    have "below (components root) t t1"
      using w write_attempts_below [of "tv_files env" "cf_dir cf" _ v 100 t "tl_temp st" y t1 k, OF _ root(3)]
      by (auto simp: write_confined_def split: option.splits)
    with root g have "below (components root) (tl_tree st) t1" by (blast intro: below_trans)
    then show ?thesis using root(1,2) g st' by auto
  qed
qed

text \<open>C36: A write cannot leave the workspace, whatever path the model names and whatever links lie about: the request to write,
  whether it succeeds or fails half-way, changes nothing, or it was approved and every place of the disk that is not below
  the canonical root of the workspace (or on the way to it) is as it was. It starts no process and makes no connection.\<close>

theorem write_stays_in_workspace:
  "\<exists>st'. snd (call_with_sandbox env pol sb here (Call v i ''write'' params) st) = st'
     \<and> tl_runs st' = tl_runs st \<and> tl_net st' = tl_net st
     \<and> (tl_tree st' = tl_tree st
        \<or> approved params \<and> (\<exists>ws top root. given_workspace env params st = Inr ws \<and> workspace_root pol ws = Some top
            \<and> fv_canon (tv_files env) (tl_tree st) top = Inr root
            \<and> (\<forall>q. prefix (components root) q \<or> prefix q (components root) \<or> node_at (tl_tree st') q = node_at (tl_tree st) q)))"
proof -
  obtain r st' where w: "write_tool env pol params st = (r, st')" by fastforce
  then have "snd (call_with_sandbox env pol sb here (Call v i ''write'' params) st) = st'"
    by (simp add: call_with_sandbox_def run_tool_def split: sum.split)
  then show ?thesis using write_tool_below [OF w] unfolding below_def by blast
qed

text \<open>C39: What was written is read back, from the very place: after a write that succeeded, the entry below the workspace is a
  plain file with exactly the text, in a directory that is reached without a link, and reading it again gives the text,
  when it is valid text within the size limit and the system lets the file be opened.\<close>

theorem written_file_read_back:
  assumes "confine env pol s ws mk t = (Inr cf, t1)" and "write_confined env cf v (t1, k) = (Inr u, t2, k2)"
    and "fv_fault env (OpenFile (confined_path cf)) = None" and "length v \<le> FILE_LIMIT" and "fv_utf8 env v = Inr v"
  shows "node_at t2 (confined_path cf) = Some (FileNode v) \<and> read_confined env t2 cf = Inr v"
proof -
  from assms(2) obtain name where name: "cf_name cf = Some name"
    and w: "write_attempts env (cf_dir cf) name v 100 (t1, k) = (Inr u, t2, k2)"
    by (auto simp: write_confined_def split: option.splits)
  from confine_inside [OF assms(1)] have "\<exists>es. node_at t1 (cf_dir cf) = Some (DirNode es)" by blast
  from write_attempts_written [OF w this] have n: "node_at t2 (confined_path cf) = Some (FileNode v)"
    by (simp add: confined_path_def name)
  have "decode_text env v = Inr v" using assms(4,5) by (simp add: decode_text_def Let_def)
  then show ?thesis using n assms(3) by (simp add: read_confined_def open_entry_def read_text_def)
qed

text \<open>A disk with one directory and one file in it, where every path is its own canonical form.\<close>

definition note_tree :: node where
  "note_tree = DirNode [(''w'', DirNode [(''a'', FileNode ''hi'')])]"

definition note_env :: files_env where
  "note_env = \<lparr>fv_canon = (\<lambda>t p. Inr p), fv_is_dir = (\<lambda>t p. True), fv_exists = (\<lambda>t p. True), fv_is_link = (\<lambda>t p. Inr False),
     fv_fault = (\<lambda>c. None), fv_show = (\<lambda>e. ''e''), fv_utf8 = Inr, fv_lossy = (\<lambda>s. s), fv_pid = 7\<rparr>"

definition note_policy :: policy where
  "note_policy = \<lparr>pol_shell = Off, pol_root = Some (Path True [''w''])\<rparr>"

lemma note_paths: "path_of ''a'' = Path False [''a'']" "path_of ''/w/a'' = Path True [''w'', ''a'']"
  "path_string (Path True [''w'', ''a'']) = ''/w/a''" by code_simp+

lemma note_confined:
  "confine note_env note_policy ''/w/a'' None mk note_tree
     = (Inr \<lparr>cf_display = Path True [''w'', ''a''], cf_dir = [''w''], cf_name = Some ''a''\<rparr>, note_tree)"
  by (simp add: confine_def file_at_def inside_def clean_path_def workspace_root_def note_env_def note_policy_def note_paths
      starts_with_def path_join_def open_directory_def note_tree_def)

theorem written_file_read_back_witness:
  "\<exists>t2 k2. write_confined note_env \<lparr>cf_display = Path True [''w'', ''a''], cf_dir = [''w''], cf_name = Some ''a''\<rparr> ''new'' (note_tree, 0)
       = (Inr (), t2, k2)
     \<and> node_at t2 [''w'', ''a''] = Some (FileNode ''new'')"
proof -
  let ?cf = "\<lparr>cf_display = Path True [''w'', ''a''], cf_dir = [''w''], cf_name = Some ''a''\<rparr>"
  have "fst (write_confined note_env ?cf ''new'' (note_tree, 0)) = Inr ()" by code_simp
  then obtain t2 k2 where w: "write_confined note_env ?cf ''new'' (note_tree, 0) = (Inr (), t2, k2)"
    by (metis prod.collapse)
  have "node_at t2 (confined_path ?cf) = Some (FileNode ''new'') \<and> read_confined note_env t2 ?cf = Inr ''new''"
    by (rule written_file_read_back [OF note_confined w]) (simp_all add: note_env_def FILE_LIMIT_def frame_max_def)
  with w show ?thesis by (simp add: confined_path_def)
qed

section \<open>Processes\<close>

definition workspace_dir :: "'n tools_env \<Rightarrow> policy \<Rightarrow> json \<Rightarrow> 'n tools_state \<Rightarrow> path \<Rightarrow> bool" where
  "workspace_dir env pol params st dir \<longleftrightarrow>
     (\<exists>ws top root. given_workspace env params st = Inr ws \<and> workspace_root pol ws = Some top
        \<and> fv_canon (tv_files env) (tl_tree st) top = Inr root \<and> fv_is_dir (tv_files env) (tl_tree st) root \<and> starts_with dir root)"

text \<open>The processes that a request may start, each in the workspace: Git that only reads; Git that changes, and patches, after
  an approval; the shell as the policy says, in the container when there is one; and the removal of a container.\<close>

definition authorized :: "'n tools_env \<Rightarrow> policy \<Rightarrow> sandbox option \<Rightarrow> json \<Rightarrow> 'n tools_state \<Rightarrow> command \<Rightarrow> bool" where
  "authorized env pol sb params st c \<longleftrightarrow>
     workspace_dir env pol params st (cm_dir c)
       \<and> ((\<exists>args. c = git_command args (cm_dir c) \<and> (git_reads args \<or> git_changes args \<and> approved params))
          \<or> (\<exists>text check. c = apply_command (cm_dir c) text check \<and> approved params)
          \<or> policy_shell pol (approved params) = Inr () \<and> sb = None \<and> (\<exists>cmd. c = shell_command cmd (cm_dir c))
          \<or> policy_shell pol (approved params) = Inr ()
              \<and> (\<exists>b cmd cidfile. sb = Some b \<and> sandbox_process env b cmd (cm_dir c) cidfile = Inr c))
     \<or> policy_shell pol (approved params) = Inr ()
         \<and> (\<exists>b i. sb = Some b \<and> cm_program c = sb_runtime b \<and> cm_args c = [''rm'', ''--force'', i])"

definition effect :: "(command \<Rightarrow> bool) \<Rightarrow> 'n tools_state \<Rightarrow> 'n tools_state \<Rightarrow> bool" where
  "effect P st st' \<longleftrightarrow> (\<exists>rs. tl_runs st' = tl_runs st @ rs \<and> list_all P rs \<and> (rs \<noteq> [] \<or> tl_tree st' = tl_tree st))"

lemma effect_same: "tl_runs st' = tl_runs st \<Longrightarrow> tl_tree st' = tl_tree st \<Longrightarrow> effect P st st'"
  by (simp add: effect_def)

lemma effect_trans: "effect P st st1 \<Longrightarrow> effect P st1 st2 \<Longrightarrow> effect P st st2"
  unfolding effect_def by (metis append.assoc append_is_Nil_conv list_all_append)

lemma effect_run: "run_process env c st = (r, st1) \<Longrightarrow> P c \<Longrightarrow> effect P st st1"
  by (auto simp: run_process_def effect_def split: prod.splits)

lemma file_at_inside:
  "file_at env t pol s ws = Inr q \<Longrightarrow> \<exists>top root. workspace_root pol ws = Some top \<and> fv_canon env t top = Inr root
     \<and> fv_is_dir env t root \<and> starts_with q root"
  unfolding file_at_def inside_def by (auto simp: Let_def split: option.splits sum.splits bool.splits if_splits)

lemma workspace_dirI:
  "given_workspace env params st = Inr ws \<Longrightarrow> file_at (tv_files env) (tl_tree st) pol s ws = Inr root \<Longrightarrow>
     workspace_dir env pol params st root"
  unfolding workspace_dir_def using file_at_inside by blast

lemma read_list_effect:
  "effect P st (snd (read_tool env pol params st))" "effect P st (snd (list_tool env pol params st))"
  unfolding read_tool_def list_tool_def
  by (auto split: sum.splits option.splits prod.splits intro!: effect_same dest: arg_cong [of _ _ snd] simp: confine_same)

lemma search_fetch_effect:
  "effect P st (snd (search_tool env pol params st))" "effect P st (snd (fetch_tool env params st))"
  unfolding search_tool_def fetch_tool_def by (auto split: sum.splits option.splits prod.splits intro!: effect_same)

lemma git_effect: "effect (authorized env pol sb params st) st (snd (git_tool env pol params st))"
proof (cases "\<exists>vs args ws root. as_array (json_index params ''args'') = Some vs \<and> string_args vs = Some args
    \<and> given_workspace env params st = Inr ws \<and> git_refusal env pol params ws args st = None
    \<and> file_at (tv_files env) (tl_tree st) pol ''.'' ws = Inr root")
  case False
  then have "snd (git_tool env pol params st) = st" by (auto simp: git_tool_def split: sum.splits option.splits)
  then show ?thesis by (simp add: effect_same)
next
  case True
  then obtain vs args ws root where g: "as_array (json_index params ''args'') = Some vs" "string_args vs = Some args"
    "given_workspace env params st = Inr ws" "git_refusal env pol params ws args st = None"
    "file_at (tv_files env) (tl_tree st) pol ''.'' ws = Inr root" by blast
  obtain r st1 where r: "run_process env (git_command args root) st = (r, st1)" by fastforce
  then have s: "snd (git_tool env pol params st) = st1" using g by (simp add: git_tool_def split: sum.splits)
  have "git_reads args \<or> git_changes args \<and> approved params" using g(4) by (auto simp: git_refusal_def split: if_splits)
  moreover have "workspace_dir env pol params st root" by (rule workspace_dirI [OF g(3,5)])
  moreover have "cm_dir (git_command args root) = root" by (simp add: git_command_def)
  ultimately have "authorized env pol sb params st (git_command args root)" unfolding authorized_def by metis
  from effect_run [where P = "authorized env pol sb params st", OF r this] show ?thesis by (simp add: s)
qed

lemma patch_effect: "effect (authorized env pol sb params st) st (snd (patch_tool env pol params st))"
proof (cases "\<exists>v ws root u. approved params \<and> as_str (json_index params ''text'') = Some v
    \<and> given_workspace env params st = Inr ws \<and> file_at (tv_files env) (tl_tree st) pol ''.'' ws = Inr root
    \<and> patch_paths_at (tv_files env) (tl_tree st) pol v ws = Inr u")
  case False
  then have "snd (patch_tool env pol params st) = st" by (auto simp: patch_tool_def split: sum.splits option.splits)
  then show ?thesis by (simp add: effect_same)
next
  case True
  then obtain v ws root u where g: "approved params" "as_str (json_index params ''text'') = Some v"
    "given_workspace env params st = Inr ws" "file_at (tv_files env) (tl_tree st) pol ''.'' ws = Inr root"
    "patch_paths_at (tv_files env) (tl_tree st) pol v ws = Inr u" by blast
  have "cm_dir (apply_command root v b) = root" for b by (simp add: apply_command_def git_command_def Let_def)
  with g(1) workspace_dirI [OF g(3,4)] have a: "authorized env pol sb params st (apply_command root v b)" for b
    unfolding authorized_def by metis
  let ?P = "authorized env pol sb params st"
  obtain r1 st1 where r1: "run_process env (apply_command root v True) st = (r1, st1)" by fastforce
  obtain r2 st2 where r2: "run_process env (apply_command root v False) st1 = (r2, st2)" by fastforce
  have "snd (patch_tool env pol params st) \<in> {st1, st2}"
    using g r1 r2 by (auto simp: patch_tool_def split: sum.splits)
  moreover note e = effect_run [where P = ?P, OF r1 a] and e2 = effect_run [where P = ?P, OF r2 a]
  ultimately show ?thesis using e effect_trans [OF e e2] by auto
qed

lemma cid_dir_effect: "cid_dir env n st = (r, st1) \<Longrightarrow> effect P st st1"
proof (induction n arbitrary: st)
  case (Suc n)
  then show ?case
  proof (cases "snd (cid_dir env (Suc n) st) = st\<lparr>tl_temp := tl_temp st + 1\<rparr>")
    case True
    then show ?thesis using Suc.prems by (simp add: effect_same)
  next
    case False
    then have "cid_dir env n (st\<lparr>tl_temp := tl_temp st + 1\<rparr>) = (r, st1)"
      using Suc.prems by (auto simp: Let_def split: option.splits if_splits)
    from Suc.IH [OF this] show ?thesis by (simp add: effect_def)
  qed
qed (simp add: effect_same)

lemma remove_container_effect:
  assumes "remove_container env b dir cidfile st = (r, st1)"
    and "\<And>i. P \<lparr>cm_program = sb_runtime b, cm_args = [''rm'', ''--force'', i], cm_set = [], cm_unset = [], cm_dir = dir,
      cm_input = None, cm_group = False\<rparr>"
  shows "effect P st st1"
  using assms(1) unfolding remove_container_def Let_def
  by (auto split: sum.splits if_splits prod.splits intro: effect_same effect_run [where P = P, OF _ assms(2)])

lemma shell_effect: "effect (authorized env pol sb params st) st (snd (shell_tool env pol sb here params st))"
proof (cases "\<exists>u cmd ws root. policy_shell pol (approved params) = Inr u \<and> as_str (json_index params ''command'') = Some cmd
    \<and> given_workspace env params st = Inr ws \<and> file_at (tv_files env) (tl_tree st) pol ''.'' ws = Inr root")
  case False
  then have "snd (shell_tool env pol sb here params st) = st" by (auto simp: shell_tool_def split: sum.splits option.splits)
  then show ?thesis by (simp add: effect_same)
next
  case True
  then obtain cmd ws root where g: "policy_shell pol (approved params) = Inr ()" "as_str (json_index params ''command'') = Some cmd"
    "given_workspace env params st = Inr ws" "file_at (tv_files env) (tl_tree st) pol ''.'' ws = Inr root" by auto
  let ?P = "authorized env pol sb params st"
  have dir: "workspace_dir env pol params st root" by (rule workspace_dirI [OF g(3,4)])
  have s: "snd (shell_tool env pol sb here params st) = snd (shell_with env cmd root sb here st)"
    using g by (auto simp: shell_tool_def split: sum.splits prod.splits)
  show ?thesis
  proof (cases sb)
    case None
    obtain r st1 where r: "run_process env (shell_command cmd root) st = (r, st1)" by fastforce
    have "cm_dir (shell_command cmd root) = root" by (simp add: shell_command_def)
    then have "?P (shell_command cmd root)" using dir g(1) None unfolding authorized_def by metis
    then have e: "effect ?P st st1" using effect_run [where P = ?P, OF r] by blast
    have "snd (shell_with env cmd root sb here st) = st1" using r by (simp add: shell_with_def None)
    with e show ?thesis unfolding s by simp
  next
    case (Some b)
    have rm: "?P \<lparr>cm_program = sb_runtime b, cm_args = [''rm'', ''--force'', i], cm_set = [], cm_unset = [], cm_dir = here,
        cm_input = None, cm_group = False\<rparr>" for i
      using g(1) Some by (simp add: authorized_def)
    obtain x st1 where c: "cid_dir env 16 st = (x, st1)" by fastforce
    note e1 = cid_dir_effect [OF c, of ?P]
    show ?thesis
    proof (cases "\<exists>d c. x = Inr d \<and> sandbox_process env b cmd root (path_join d (Path False [''id''])) = Inr c")
      case False
      then have "snd (shell_with env cmd root sb here st) = st1"
        using c by (auto simp: shell_with_def Some sandbox_shell_def Let_def split: sum.splits)
      then show ?thesis using e1 s by simp
    next
      case True
      then obtain d p where d: "x = Inr d" and p: "sandbox_process env b cmd root (path_join d (Path False [''id''])) = Inr p" by blast
      have "cm_dir p = root" using p by (auto simp: sandbox_process_def split: if_splits)
      then have a: "?P p" using dir g(1) Some p unfolding authorized_def by metis
      obtain r st2 where r: "run_process env p st1 = (r, st2)" by fastforce
      obtain k st3 where k: "remove_container env b here (path_join d (Path False [''id''])) st2 = (k, st3)" by fastforce
      have "snd (shell_with env cmd root sb here st) \<in> {st2, st3}"
        using c d p r k by (auto simp: shell_with_def Some sandbox_shell_def Let_def)
      moreover have e2: "effect ?P st st2" by (rule effect_trans [OF e1 effect_run [where P = ?P, OF r a]])
      moreover have "effect ?P st st3" by (rule effect_trans [OF e2 remove_container_effect [where P = ?P, OF k rm]])
      ultimately show ?thesis using s by auto
    qed
  qed
qed

lemma effect_if:
  "(b \<Longrightarrow> effect P st (snd x)) \<Longrightarrow> effect P st (case y of None \<Rightarrow> st | Some x \<Rightarrow> snd x) \<Longrightarrow>
     effect P st (case (if b then Some x else y) of None \<Rightarrow> st | Some x \<Rightarrow> snd x)"
  by simp

text \<open>C37: Nothing happens without the approval it needs: every process that a request of the tools plugin starts is Git that only
  reads, or Git that changes or applies a patch after an approval, or the shell as the policy permits, in the container when
  a sandbox is set, and each runs inside the workspace (only the removal of a container runs elsewhere). A request that
  starts no process leaves the disk as it was, unless it is an approved write.\<close>

theorem tools_change_needs_approval:
  "\<exists>st' rs. snd (call_with_sandbox env pol sb here (Call v i m params) st) = st'
     \<and> tl_runs st' = tl_runs st @ rs \<and> list_all (authorized env pol sb params st) rs
     \<and> (0 < length rs \<or> tl_tree st' = tl_tree st \<or> m = ''write'' \<and> approved params)"
proof -
  let ?P = "authorized env pol sb params st"
  have call: "snd (call_with_sandbox env pol sb here (Call v i m params) st)
      = (case run_tool env pol sb here m params st of None \<Rightarrow> st | Some x \<Rightarrow> snd x)"
    by (auto simp: call_with_sandbox_def split: option.splits prod.splits sum.splits)
  show ?thesis
  proof (cases "m = ''write''")
    case True
    obtain r st' where w: "write_tool env pol params st = (r, st')" by fastforce
    with write_tool_below [OF w] True show ?thesis unfolding call by (auto simp: run_tool_def)
  next
    case False
    have "effect ?P st (case run_tool env pol sb here m params st of None \<Rightarrow> st | Some x \<Rightarrow> snd x)"
      unfolding run_tool_def
      by (intro effect_if read_list_effect search_fetch_effect git_effect patch_effect shell_effect)
        (simp_all add: effect_same False)
    then show ?thesis unfolding call effect_def by fastforce
  qed
qed

end
