(* ===== verification/Search_Laws.thy ===== *)
theory Search_Laws
  imports Tools_Laws
begin

text \<open>
  What a search of the tools plugin finds: the lines of a plain walk over the tree, when it succeeds, within its limits.
\<close>

section \<open>The plain walk\<close>

text \<open>The lines of a file that contain the needle, as the search names them, and those of all files below a node. Links and
  special files have none, and neither have files that are too large or are not text.\<close>

fun line_hits :: "string \<Rightarrow> path \<Rightarrow> nat \<Rightarrow> string list \<Rightarrow> string list" where
  "line_hits needle display k [] = []"
| "line_hits needle display k (l # ls) =
     (if contains_text l needle then [hit_text display k] else []) @ line_hits needle display (Suc k) ls"

definition file_hits :: "files_env \<Rightarrow> string \<Rightarrow> path \<Rightarrow> string \<Rightarrow> string list" where
  "file_hits env needle display bytes =
     (case decode_text env bytes of Inl e \<Rightarrow> [] | Inr text \<Rightarrow> line_hits needle display 0 (text_lines text))"

fun all_hits :: "files_env \<Rightarrow> string \<Rightarrow> path \<Rightarrow> node \<Rightarrow> string list"
  and entry_hits :: "files_env \<Rightarrow> string \<Rightarrow> path \<Rightarrow> (string \<times> node) list \<Rightarrow> string list" where
  "all_hits env needle display (FileNode bytes) = file_hits env needle display bytes"
| "all_hits env needle display (DirNode es) = entry_hits env needle display es"
| "all_hits env needle display (LinkNode l) = []"
| "all_hits env needle display (OtherNode e r) = []"
| "entry_hits env needle display [] = []"
| "entry_hits env needle display ((name, n) # es) =
     all_hits env needle (path_join display (Path False [name])) n @ entry_hits env needle display es"

text \<open>Names are text, are not those of the directory and its parent, and occur once in a directory.\<close>

fun tree_ok :: "files_env \<Rightarrow> node \<Rightarrow> bool"
  and entries_ok :: "files_env \<Rightarrow> (string \<times> node) list \<Rightarrow> bool" where
  "tree_ok env (DirNode es) = (distinct (map fst es) \<and> entries_ok env es)"
| "tree_ok env _ = True"
| "entries_ok env [] = True"
| "entries_ok env ((name, n) # es) = (fv_lossy env name = name \<and> name \<noteq> ''.'' \<and> name \<noteq> ''..'' \<and> tree_ok env n \<and> entries_ok env es)"

section \<open>The search agrees with it\<close>

lemma search_lines_hits:
  "search_lines env needle display k ls (hits, b) = Inr (hits', b') \<Longrightarrow> length hits \<le> HIT_LIMIT \<Longrightarrow>
     hits' = hits @ line_hits needle display k ls \<and> length hits' \<le> HIT_LIMIT"
proof (induction ls arbitrary: k hits b)
  case Nil
  then show ?case by simp
next
  case (Cons l ls)
  from Cons.prems(1) obtain b1 where b1: "check_search env b = Inr b1" by (auto split: sum.splits)
  show ?case
  proof (cases "contains_text l needle")
    case True
    with Cons.prems(1) b1 have "length hits < HIT_LIMIT"
      and r: "search_lines env needle display (k + 1) ls (hits @ [hit_text display k], b1) = Inr (hits', b')"
      by (auto split: if_splits)
    with Cons.IH [OF r] True show ?thesis by auto
  next
    case False
    with Cons.prems b1 have r: "search_lines env needle display (k + 1) ls (hits, b1) = Inr (hits', b')" by simp
    from Cons.IH [OF r Cons.prems(2)] False show ?thesis by auto
  qed
qed

lemma search_file_hits:
  "search_file env needle display bytes (hits, b) = Inr (hits', b') \<Longrightarrow> length hits \<le> HIT_LIMIT \<Longrightarrow>
     hits' = hits @ file_hits (sv_files env) needle display bytes \<and> length hits' \<le> HIT_LIMIT"
  unfolding search_file_def file_hits_def
  by (auto split: sum.splits dest: search_lines_hits)

lemma node_at_child: "node_at t p = Some (DirNode es) \<Longrightarrow> map_of es name = Some n \<Longrightarrow> node_at t (p @ [name]) = Some n"
  by (induction t p rule: node_at.induct) (auto split: option.splits)

lemma search_hits:
  "search_confined env t needle left cf st = Inr st' \<Longrightarrow> node_at t (confined_path cf) = Some n \<Longrightarrow> tree_ok (sv_files env) n \<Longrightarrow>
     length (fst st) \<le> HIT_LIMIT \<Longrightarrow>
     fst st' = fst st @ all_hits (sv_files env) needle (cf_display cf) n \<and> length (fst st') \<le> HIT_LIMIT"
  "search_entries env t needle left cf es st = Inr st' \<Longrightarrow> node_at t (confined_path cf) = Some (DirNode ds) \<Longrightarrow>
     distinct (map fst ds) \<Longrightarrow> set es \<subseteq> set ds \<Longrightarrow> entries_ok (sv_files env) es \<Longrightarrow> length (fst st) \<le> HIT_LIMIT \<Longrightarrow>
     fst st' = fst st @ entry_hits (sv_files env) needle (cf_display cf) es \<and> length (fst st') \<le> HIT_LIMIT"
proof (induction env t needle left cf st and env t needle left cf es st arbitrary: n st' and ds st'
    rule: search_confined_search_entries.induct)
  case (1 env t needle left cf st)
  have run: "search_confined env t needle left cf st = Inr st'" by (rule 1(2))
  from run obtain m where m: "open_entry (sv_files env) t cf = Inr m"
    by (subst (asm) search_confined.simps) (auto split: sum.splits)
  have mn: "m = n" using m 1(3) by (auto simp: open_entry_def split: option.splits node.splits)
  from run m obtain b1 where b1: "visit env left (is_dir_node m) (snd st) = Inr b1"
    by (subst (asm) search_confined.simps) (auto split: sum.splits)
  from run m b1 obtain l where l: "left = Suc l"
    by (subst (asm) search_confined.simps) (auto split: nat.splits)
  have step: "(case m of DirNode es \<Rightarrow> search_entries env t needle l cf es (fst st, b1)
      | FileNode bytes \<Rightarrow> search_file env needle (cf_display cf) bytes (fst st, b1) | _ \<Rightarrow> Inr (fst st, b1)) = Inr st'"
    using run m b1 l by (subst (asm) search_confined.simps) simp
  show ?case
  proof (cases m)
    case (DirNode es)
    have "distinct (map fst es)" "entries_ok (sv_files env) es" using 1(4) unfolding mn [symmetric] DirNode by simp_all
    with 1(1) [OF m b1 l DirNode _ _ _ subset_refl] step DirNode 1(3,5) mn show ?thesis by auto
  next
    case (FileNode bytes)
    obtain h' b' where st': "st' = (h', b')" by (cases st')
    with step FileNode search_file_hits [of env needle "cf_display cf" bytes "fst st" b1 h' b'] 1(5) mn show ?thesis by auto
  qed (use step mn 1(5) in auto)
next
  case (2 env t needle left cf st)
  then show ?case by simp
next
  case (3 env t needle left cf e es st)
  obtain name n where e: "e = (name, n)" by (cases e)
  have ok: "fv_lossy (sv_files env) name = name" "name \<noteq> ''.''" "name \<noteq> ''..''" "tree_ok (sv_files env) n" "entries_ok (sv_files env) es"
    using 3(9) e by simp_all
  have rest: "set es \<subseteq> set ds" using 3(8) by simp
  have m: "map_of ds name = Some n" using 3(7,8) e by (auto intro!: map_of_is_SomeI)
  show ?case
  proof (cases "is_link_node n")
    case True
    then have "all_hits (sv_files env) needle d n = []" for d by (cases n) (simp_all add: is_link_node_def)
    moreover have "search_entries env t needle left cf es st = Inr st'" using 3(5) e ok True by simp
    ultimately show ?thesis using 3(2) [OF refl _ _ _ 3(6,7) rest ok(5) 3(10)] e ok True by auto
  next
    case False
    from 3(5) e ok False obtain c where c: "child env t cf name = Inr c" by (auto split: sum.splits)
    with 3(5) e ok False obtain st1 where st1: "search_confined env t needle left c st = Inr st1" by (auto split: sum.splits)
    with 3(5) e ok False c have r: "search_entries env t needle left cf es st1 = Inr st'" by simp
    have cp: "confined_path c = confined_path cf @ [name]" "cf_display c = path_join (cf_display cf) (Path False [name])"
      using c by (auto simp: child_def confined_path_def split: sum.splits)
    have at: "node_at t (confined_path c) = Some n" unfolding cp by (rule node_at_child [OF 3(6) m])
    have h: "fst st1 = fst st @ all_hits (sv_files env) needle (cf_display c) n \<and> length (fst st1) \<le> HIT_LIMIT"
      using 3(3) [OF refl _ _ _ st1 at ok(4) 3(10)] e ok False c by auto
    have "fst st' = fst st1 @ entry_hits (sv_files env) needle (cf_display cf) es \<and> length (fst st') \<le> HIT_LIMIT"
      using 3(4) [OF refl _ _ _ _ r 3(6,7) rest ok(5) conjunct2 [OF h]] e ok False c st1 by auto
    with h e cp show ?thesis by auto
  qed
qed

lemma entries_ok_child: "entries_ok env es \<Longrightarrow> map_of es name = Some n \<Longrightarrow> tree_ok env n"
  by (induction es rule: list.induct) (auto split: if_splits)

lemma tree_ok_below: "node_at t p = Some n \<Longrightarrow> tree_ok env t \<Longrightarrow> tree_ok env n"
  by (induction t p rule: node_at.induct) (auto split: option.splits dest: entries_ok_child)

section \<open>The place that is searched\<close>

text \<open>A name of a path: neither empty nor the directory itself, and without a slash.\<close>

definition name_ok :: "string \<Rightarrow> bool" where
  "name_ok x \<longleftrightarrow> x \<noteq> [] \<and> x \<noteq> ''.'' \<and> CHR ''/'' \<notin> set x"

text \<open>What \<open>canonicalize\<close>, \<open>exists\<close> and \<open>symlink_metadata\<close> answer about one and the same tree: the canonical form of a path
  is absolute, names no parent and is no link, exists and is its own canonical form; and what is asked about a path is
  answered as for the path behind its canonical directory.\<close>

definition resolves :: "files_env \<Rightarrow> node \<Rightarrow> bool" where
  "resolves env t \<longleftrightarrow> (\<forall>p c. fv_canon env t p = Inr c \<longrightarrow>
     is_absolute c \<and> list_all name_ok (components c) \<and> ''..'' \<notin> set (components c)
     \<and> fv_canon env t c = Inr c \<and> fv_exists env t c \<and> fv_is_link env t c = Inr False
     \<and> (\<forall>m ms. fv_exists env t (Path True (components c @ m # ms)) = fv_exists env t (Path (is_absolute p) (components p @ m # ms))
          \<and> fv_is_link env t (Path True (components c @ m # ms)) = fv_is_link env t (Path (is_absolute p) (components p @ m # ms))))"

lemma resolvesD:
  assumes "resolves env t" and "fv_canon env t p = Inr c"
  shows "is_absolute c" "list_all name_ok (components c)" "''..'' \<notin> set (components c)" "fv_canon env t c = Inr c"
    "fv_exists env t c" "fv_is_link env t c = Inr False"
    "fv_exists env t (Path True (components c @ m # ms)) = fv_exists env t (Path (is_absolute p) (components p @ m # ms))"
    "fv_is_link env t (Path True (components c @ m # ms)) = fv_is_link env t (Path (is_absolute p) (components p @ m # ms))"
  using assms unfolding resolves_def by blast+

lemma split_on_join: "list_all (\<lambda>x. c \<notin> set x) xs \<Longrightarrow> xs \<noteq> [] \<Longrightarrow> split_on c (join [c] xs) = xs"
proof (induction "[c]" xs rule: join.induct)
  case (2 x)
  then show ?case by (induction x) auto
next
  case (3 x y zs)
  have "split_on c (x @ c # s) = x # split_on c s" if "c \<notin> set x" for x s
    using that by (induction x) auto
  with 3 show ?case by simp
qed simp

lemma path_of_string: "is_absolute q \<Longrightarrow> list_all name_ok (components q) \<Longrightarrow> path_of (path_string q) = q"
proof -
  assume q: "is_absolute q" "list_all name_ok (components q)"
  have s: "split_on CHR ''/'' (CHR ''/'' # s) = [] # split_on CHR ''/'' s" for s by simp
  have "filter (\<lambda>c. c \<noteq> [] \<and> c \<noteq> ''.'') (split_on CHR ''/'' (join ''/'' (components q))) = components q"
  proof (cases "components q = []")
    case False
    then have "split_on CHR ''/'' (join ''/'' (components q)) = components q"
      using q(2) by (intro split_on_join) (auto simp: list_all_iff name_ok_def)
    then show ?thesis using q(2) by (simp add: filter_id_conv list_all_iff name_ok_def)
  qed simp
  then show ?thesis using q(1) by (cases q) (simp add: path_of_def path_string_def strip_prefix_def)
qed

lemma path_of_names: "list_all name_ok (components (path_of s))"
proof -
  have "list_all (\<lambda>x. c \<notin> set x) (split_on c s)" for c :: char
  proof (induction s)
    case (Cons x s)
    then show ?case by (cases "split_on c s") auto
  qed simp
  then show ?thesis by (auto simp: path_of_def list_all_iff name_ok_def)
qed

text \<open>The nearest parent that exists, of a path and of the same path behind the canonical form of that parent.\<close>

lemma existing_parent_split:
  "existing_parent ex a cs ms = Inr (ds, ns) \<Longrightarrow> \<exists>ks. cs = ds @ ks \<and> ns = ms @ rev ks \<and> ex (Path a ds)
     \<and> (\<forall>k < length ks. \<not> ex (Path a (ds @ take (Suc k) ks))) \<and> ''..'' \<notin> set ks"
proof (induction ex a cs ms rule: existing_parent.induct)
  case (1 ex a cs ms)
  show ?case
  proof (cases "ex (Path a cs)")
    case True
    with 1(2) show ?thesis by (intro exI [of _ "[]"]) (simp add: existing_parent.simps)
  next
    case False
    with 1(2) have c: "\<not> (cs = [] \<or> last cs = ''..'')" "existing_parent ex a (butlast cs) (ms @ [last cs]) = Inr (ds, ns)"
      by (subst (asm) existing_parent.simps, simp split: if_splits)+
    from 1(1) [OF False c] obtain ks where ks: "butlast cs = ds @ ks" "ns = (ms @ [last cs]) @ rev ks" "ex (Path a ds)"
      "\<forall>k < length ks. \<not> ex (Path a (ds @ take (Suc k) ks))" "''..'' \<notin> set ks" by blast
    have cs: "cs = ds @ ks @ [last cs]" using ks(1) c(1) by (metis append.assoc append_butlast_last_id)
    have "\<not> ex (Path a (ds @ take (Suc k) (ks @ [last cs])))" if "k < Suc (length ks)" for k
      using that ks(4) False cs by (cases "k = length ks") auto
    then show ?thesis using cs ks(2,3,5) c(1) by (intro exI [of _ "ks @ [last cs]"]) auto
  qed
qed

lemma existing_parent_back:
  "ex (Path a ds) \<Longrightarrow> \<forall>k < length ks. \<not> ex (Path a (ds @ take (Suc k) ks)) \<Longrightarrow> ''..'' \<notin> set ks \<Longrightarrow>
     existing_parent ex a (ds @ ks) ms = Inr (ds, ms @ rev ks)"
proof (induction ks arbitrary: ms rule: rev_induct)
  case (snoc k ks)
  have "\<not> ex (Path a (ds @ ks @ [k]))" using snoc(3) by (auto dest: spec [of _ "length ks"])
  moreover have "\<forall>j < length ks. \<not> ex (Path a (ds @ take (Suc j) ks))" using snoc(3) by (auto dest: less_SucI)
  with snoc have "existing_parent ex a (ds @ ks) (ms @ [k]) = Inr (ds, (ms @ [k]) @ rev ks)" by simp
  ultimately show ?case using snoc(4) by (subst existing_parent.simps) (auto simp: butlast_append)
qed (simp add: existing_parent.simps)

text \<open>A path that a request named, once it is resolved, resolves to itself: it is the canonical form of the path that was
  named, from the root of the workspace on, or there is nothing at either.\<close>

definition named_path :: "path \<Rightarrow> string \<Rightarrow> path" where
  "named_path root s = path_join root (path_of s)"

lemma file_at_checks:
  assumes "file_at env t pol s ws = Inr q"
  obtains top root where "workspace_root pol ws = Some top" "fv_canon env t top = Inr root" "fv_is_dir env t root"
    "''..'' \<notin> set (components (path_of s))" "starts_with q root" "clean_path env t (named_path root s) = Inr q"
    "fv_is_link env t (named_path root s) = Inr False
       \<or> (\<exists>e. fv_is_link env t (named_path root s) = Inl e \<and> error_kind e = NotFound)"
  using assms unfolding file_at_def inside_def named_path_def
  by (auto simp: Let_def split: option.splits sum.splits bool.splits if_splits)

lemma file_at_again:
  assumes "workspace_root pol ws = Some r" and "fv_canon env t r = Inr root" and "fv_is_dir env t root"
    and "starts_with q root" and "path_of s = q" and "is_absolute q" and "''..'' \<notin> set (components q)"
    and "fv_is_link env t q = Inr False \<or> (\<exists>e. fv_is_link env t q = Inl e \<and> error_kind e = NotFound)"
    and "clean_path env t q = Inr q"
  shows "file_at env t pol s ws = Inr q"
  using assms by (auto simp: file_at_def inside_def path_join_def Let_def)

text \<open>The last case of \<open>clean_path\<close>: nothing is at the path, and a parent of it is resolved.\<close>

lemma clean_path_missing:
  assumes "resolves env t" and "\<not> fv_exists env t c" and "clean_path env t c = Inr q" and "list_all name_ok (components c)"
  shows "is_absolute q \<and> list_all name_ok (components q) \<and> ''..'' \<notin> set (components q)
    \<and> fv_is_link env t q = fv_is_link env t c \<and> \<not> fv_exists env t q \<and> clean_path env t q = Inr q"
proof -
  let ?a = "is_absolute c" and ?l = "last (components c)"
  note run = assms(3) [unfolded clean_path_def]
  have ne: "components c \<noteq> []" and l: "?l \<noteq> ''..''" using run assms(2) by (auto split: if_splits sum.splits)
  obtain cs ms where up: "existing_parent (fv_exists env t) ?a (butlast (components c)) [] = Inr (cs, ms)"
    using run assms(2) ne by (auto split: sum.splits)
  from existing_parent_split [OF up] obtain ks where ks: "butlast (components c) = cs @ ks" "ms = rev ks"
    "\<forall>k < length ks. \<not> fv_exists env t (Path ?a (cs @ take (Suc k) ks))" "''..'' \<notin> set ks" by auto
  obtain p where p: "fv_canon env t (Path ?a cs) = Inr p" using run assms(2) ne up by (auto split: sum.splits)
  have q: "q = Path True (components p @ ks @ [?l])"
    using run assms(2) ne up p l ks(2) resolvesD(1) [OF assms(1) p] by auto
  note r = resolvesD [OF assms(1) p, unfolded path.sel]
  have c: "components c = cs @ ks @ [?l]" using ks(1) ne by (metis append.assoc append_butlast_last_id)
  then have cp: "c = Path ?a (cs @ ks @ [?l])" by (cases c) simp
  have same: "fv_exists env t (Path True (components p @ x @ [y])) = fv_exists env t (Path ?a (cs @ x @ [y]))"
    "fv_is_link env t (Path True (components p @ x @ [y])) = fv_is_link env t (Path ?a (cs @ x @ [y]))" for x y
    using r(7,8) by (cases x; simp)+
  have gone: "\<not> fv_exists env t q" using assms(2) same(1) [of ks ?l] cp q by metis
  have "\<not> fv_exists env t (Path True (components p @ take (Suc k) ks))" if "k < length ks" for k
  proof -
    have "take (Suc k) ks = take k ks @ [ks ! k]" using that by (rule take_Suc_conv_app_nth)
    then show ?thesis using same(1) [of "take k ks" "ks ! k"] ks(3) that by metis
  qed
  moreover have pp: "Path True (components p) = p" using r(1) by (cases p) simp
  ultimately have up': "existing_parent (fv_exists env t) True (components p @ ks) [] = Inr (components p, rev ks)"
    using existing_parent_back [of "fv_exists env t" True "components p" ks "[]"] r(5) ks(4) by simp
  have "clean_path env t q = Inr q"
    unfolding q clean_path_def using gone [unfolded q] up' r(1,4) l by (simp add: pp butlast_append)
  moreover have "list_all name_ok ks \<and> name_ok ?l" using assms(4) by (subst (asm) c) simp
  then have "list_all name_ok (components q)" using r(2) by (simp add: q)
  moreover have "fv_is_link env t q = fv_is_link env t c" using same(2) [of ks ?l] cp q by metis
  ultimately show ?thesis using gone r(3) ks(4) l by (auto simp: q)
qed

lemma file_at_settled:
  assumes "resolves env t" and "file_at env t pol s ws = Inr q"
  shows "is_absolute q \<and> list_all name_ok (components q) \<and> (\<forall>s'. path_of s' = q \<longrightarrow> file_at env t pol s' ws = Inr q)
    \<and> (\<exists>r root. workspace_root pol ws = Some r \<and> fv_canon env t r = Inr root \<and> starts_with q root
         \<and> (if fv_exists env t (named_path root s) then fv_canon env t (named_path root s) = Inr q \<and> fv_exists env t q
            else \<not> fv_exists env t q))"
proof -
  obtain r root where r: "workspace_root pol ws = Some r" "fv_canon env t r = Inr root" "fv_is_dir env t root"
    "''..'' \<notin> set (components (path_of s))" "starts_with q root" "clean_path env t (named_path root s) = Inr q"
    "fv_is_link env t (named_path root s) = Inr False
       \<or> (\<exists>e. fv_is_link env t (named_path root s) = Inl e \<and> error_kind e = NotFound)"
    by (rule file_at_checks [OF assms(2)])
  have n: "list_all name_ok (components (named_path root s))"
    using resolvesD(2) [OF assms(1) r(2)] path_of_names by (simp add: named_path_def path_join_def list_all_append)
  show ?thesis
  proof (cases "fv_exists env t (named_path root s)")
    case True
    then have q: "fv_canon env t (named_path root s) = Inr q" using r(6) by (auto simp: clean_path_def split: sum.splits)
    note l = resolvesD [OF assms(1) q]
    have "clean_path env t q = Inr q" using l(4,5) by (simp add: clean_path_def)
    then have "file_at env t pol s' ws = Inr q" if "path_of s' = q" for s'
      using file_at_again [OF r(1-3,5) that l(1,3)] l(6) by simp
    then show ?thesis using r(1,2,5) True q l(1,2,5) by auto
  next
    case False
    note l = clean_path_missing [OF assms(1) False r(6) n]
    then have "file_at env t pol s' ws = Inr q" if "path_of s' = q" for s'
      using file_at_again [OF r(1-3,5) that] r(7) by simp
    then show ?thesis using r(1,2,5) False l by auto
  qed
qed

text \<open>C38: A search that succeeds has found every line at the place that was asked for. Let the place be the canonical form of the
  path that the request names, from the canonical root of the workspace on. When something is there, the hits are those of
  the plain walk over the files at and below it, each line that contains the text once, in the order of the walk, without
  following a link; when nothing is there, there are no hits. The place is inside the workspace, and there are at most ten
  thousand hits. A search that would have to leave something out fails instead. Assumed of the system and of the disk: what
  \<open>canonicalize\<close>, \<open>exists\<close> and \<open>symlink_metadata\<close> answer is about one tree (\<open>resolves\<close>), names on the disk and on the way to
  it are text, and no name occurs twice in a directory.\<close>

theorem search_finds_every_line:
  assumes "search_request env t pol p needle given = Inr hits"
    and "tree_ok (sv_files env) t" and "resolves (sv_files env) t"
    and "\<And>ws q. file_at (sv_files env) t pol p ws = Inr q \<Longrightarrow> fv_lossy (sv_files env) (path_string q) = path_string q"
  shows "\<exists>ws top root. workspace (sv_files env) t given = Inr ws \<and> workspace_root pol ws = Some top
    \<and> fv_canon (sv_files env) t top = Inr root \<and> length hits \<le> 10000
    \<and> (if fv_exists (sv_files env) t (named_path root p)
       then (\<exists>place n. fv_canon (sv_files env) t (named_path root p) = Inr place \<and> starts_with place root
              \<and> node_at t (components place) = Some n \<and> hits = all_hits (sv_files env) needle place n)
       else hits = [])"
proof -
  let ?env = "sv_files env"
  obtain ws where ws: "workspace ?env t given = Inr ws"
    using assms(1) by (auto simp: search_request_def split: sum.splits)
  obtain q where q: "file_at ?env t pol p ws = Inr q"
    using assms(1) ws by (auto simp: search_request_def split: sum.splits)
  obtain b where s: "search_at env t pol needle q ws ([], new_search) = Inr (hits, b)"
    using assms(1) ws q by (auto simp: search_request_def split: sum.splits)
  from file_at_settled [OF assms(3) q] obtain top root where
    top: "workspace_root pol ws = Some top" "fv_canon ?env t top = Inr root" "starts_with q root" and
    named: "if fv_exists ?env t (named_path root p) then fv_canon ?env t (named_path root p) = Inr q \<and> fv_exists ?env t q
      else \<not> fv_exists ?env t q" and
    abs: "is_absolute q" "list_all name_ok (components q)" and
    again: "\<And>s'. path_of s' = q \<Longrightarrow> file_at ?env t pol s' ws = Inr q"
    by auto
  have lossy: "path_of (fv_lossy ?env (path_string q)) = q" using path_of_string [OF abs] assms(4) [OF q] by simp
  note d = again [OF lossy]
  show ?thesis
  proof (cases "fv_exists ?env t q")
    case False
    then have "hits = []" using s d by (simp add: search_at_def)
    with False ws top named show ?thesis by (auto split: if_splits)
  next
    case True
    let ?c = "confine ?env pol (fv_lossy ?env (path_string q)) ws False t"
    have c2: "snd ?c = t" by (rule confine_same)
    obtain cf where "fst ?c = Inr cf" using s d True by (auto simp: search_at_def split: sum.splits)
    with c2 have c: "?c = (Inr cf, t)" by (simp add: prod_eq_iff)
    with s d True have r: "search_confined env t needle (SEARCH_DEPTH + 1) cf ([], new_search) = Inr (hits, b)"
      by (simp add: search_at_def)
    have cq: "cf_display cf = q" using c d by (auto simp: confine_def Let_def split: option.splits sum.splits if_splits prod.splits)
    from confine_inside [OF c] have at: "confined_path cf = components q" unfolding cq by auto
    obtain m where "open_entry ?env t cf = Inr m" using r
      by (subst (asm) search_confined.simps) (auto split: sum.splits)
    then have m: "node_at t (confined_path cf) = Some m" by (auto simp: open_entry_def split: option.splits node.splits)
    from search_hits(1) [OF r m tree_ok_below [OF m assms(2)]]
    have "hits = all_hits ?env needle q m \<and> length hits \<le> 10000" unfolding HIT_LIMIT_def cq by auto
    then show ?thesis using True ws top named m unfolding at by (auto split: if_splits)
  qed
qed

section \<open>Examples\<close>

text \<open>The system's answers about a tree without links.\<close>

definition plain_env :: files_env where
  "plain_env = note_env\<lparr>fv_canon := \<lambda>t p. if is_absolute p \<and> node_at t (components p) \<noteq> None then Inr p else Inl (IoError NotFound []),
     fv_is_dir := \<lambda>t p. (case node_at t (components p) of None \<Rightarrow> False | Some n \<Rightarrow> is_dir_node n),
     fv_exists := \<lambda>t p. is_absolute p \<and> node_at t (components p) \<noteq> None,
     fv_is_link := \<lambda>t p. (case node_at t (components p) of None \<Rightarrow> Inl (IoError NotFound []) | Some n \<Rightarrow> Inr (is_link_node n))\<rparr>"

definition note_search :: search_env where
  "note_search = \<lparr>sv_files = plain_env, sv_cancelled = (\<lambda>k. False), sv_late = (\<lambda>k. False)\<rparr>"

lemma note_nodes: "node_at note_tree cs = Some n \<Longrightarrow> cs = [] \<or> cs = [''w''] \<or> cs = [''w'', ''a'']"
  by (cases cs; cases "tl cs"; cases "tl (tl cs)") (auto simp: note_tree_def split: if_splits option.splits)

lemma note_resolves: "resolves plain_env note_tree"
proof -
  have "list_all name_ok cs \<and> ''..'' \<notin> set cs \<and> \<not> is_link_node n" if "node_at note_tree cs = Some n" for cs n
    using note_nodes [OF that] that by (auto simp: name_ok_def note_tree_def is_link_node_def)
  then show ?thesis
    by (fastforce simp: resolves_def plain_env_def split: if_splits)
qed

lemma note_found: "search_request note_search note_tree note_policy ''a'' ''i'' None = Inr [''/w/a:1'']"
proof -
  have "fst (confine plain_env note_policy ''/w/a'' None False note_tree) = Inr \<lparr>cf_display = Path True [''w'', ''a''], cf_dir = [''w''], cf_name = Some ''a''\<rparr>"
    by code_simp
  moreover have "file_at plain_env note_tree note_policy ''a'' None = Inr (Path True [''w'', ''a''])"
    "file_at plain_env note_tree note_policy ''/w/a'' None = Inr (Path True [''w'', ''a''])"
    "fv_exists plain_env note_tree (Path True [''w'', ''a''])"
    by code_simp+
  moreover have "fv_lossy plain_env s = s" for s by (simp add: plain_env_def note_env_def)
  moreover have hit: "contains_text ''hi'' ''i''" "show_nat (Suc 0) = ''1''" by code_simp+
  moreover have "\<exists>b. search_confined note_search note_tree ''i'' (SEARCH_DEPTH + 1)
      \<lparr>cf_display = Path True [''w'', ''a''], cf_dir = [''w''], cf_name = Some ''a''\<rparr> ([], new_search) = Inr ([''/w/a:1''], b)"
    by (subst search_confined.simps)
      (simp add: note_search_def plain_env_def note_env_def note_tree_def open_entry_def confined_path_def visit_def check_search_def
        is_dir_node_def new_search_def SEARCH_NODES_def SEARCH_FILES_def SEARCH_DEPTH_def search_file_def read_budget_def
        SEARCH_BYTES_def sat_add_def decode_text_def FILE_LIMIT_def frame_max_def text_lines_def HIT_LIMIT_def hit_text_def note_paths hit)
  moreover have "sv_files note_search = plain_env" by (simp add: note_search_def)
  ultimately show ?thesis
    by (auto simp: search_request_def search_at_def workspace_def note_paths)
qed

theorem search_finds_every_line_witness:
  "(\<exists>place n. fv_canon plain_env note_tree (Path True [''w'', ''a'']) = Inr place \<and> node_at note_tree (components place) = Some n
     \<and> [''/w/a:1''] = all_hits plain_env ''i'' place n)"
proof -
  have n: "sv_files note_search = plain_env" by (simp add: note_search_def)
  have ok: "tree_ok (sv_files note_search) note_tree"
    by (simp add: note_search_def plain_env_def note_env_def note_tree_def)
  have l: "fv_lossy (sv_files note_search) s = s" for s by (simp add: n plain_env_def note_env_def)
  from search_finds_every_line [OF note_found ok note_resolves [folded n] l] obtain ws top root where
    h: "workspace plain_env note_tree None = Inr ws" "workspace_root note_policy ws = Some top"
      "fv_canon plain_env note_tree top = Inr root"
      "if fv_exists plain_env note_tree (named_path root ''a'')
       then (\<exists>place n. fv_canon plain_env note_tree (named_path root ''a'') = Inr place \<and> starts_with place root
              \<and> node_at note_tree (components place) = Some n \<and> [''/w/a:1''] = all_hits plain_env ''i'' place n)
       else [''/w/a:1''] = []"
    unfolding n by blast
  have "root = Path True [''w'']" using h(1-3)
    by (auto simp: workspace_def workspace_root_def note_policy_def plain_env_def split: if_splits)
  then have "named_path root ''a'' = Path True [''w'', ''a'']" by (simp add: named_path_def path_join_def note_paths)
  with h(4) show ?thesis by (auto split: if_splits)
qed

end
