(* ===== verification/Spec2Isabelle.thy ===== *)
theory Spec2Isabelle
  imports Prelude Ordmap Json Core_Types Agent Policy Jsonl Transcript Store_Behaviour Catalog_Recovery Durability
    Approval Cron_Laws Scheduler_Runs Channel_Rounds Tool_Properties Schedule_Laws
    Answer_Laws Memory_Restart Fetch_Laws Search_Laws
begin

text \<open>
  A verification development for Krabb, an agent daemon written in Rust that keeps conversations,
  runs model turns and scheduled tasks, and drives plugins over JSON lines.

  \<^bold>\<open>The program.\<close> Messaging and terminal plugins bring messages to the daemon
  (\<open>krabb-runtime\<close>). The daemon queues each message in a session of its store (\<open>state.rs\<close>), begins a
  turn, lets the agent loop of \<open>krabb-core\<close> talk to a model plugin and to tools, and hands the reply
  to the deliveries of the store, from which the plugin that brought the message sends it. The store
  is saved after every change, through the journaled writes of \<open>krabb-libs/file\<close>, and recovered
  when the daemon starts. The scheduler plugin keeps recurring and one-time tasks, which the daemon
  claims, runs as sessions and finishes. Sensitive actions wait at an approval gate.

  \<^bold>\<open>Theories, and the code they model.\<close>
  \<^item> Prelude, Ordmap, Json, Text: saturating words, ordered association lists for \<open>BTreeMap\<close> and
    \<open>BTreeSet\<close>, JSON values, and the text functions of the standard library that the code uses. A
    Rust string is the list of its UTF-8 bytes.
  \<^item> Core_Types (\<open>krabb-core/src/types.rs\<close>, \<open>error.rs\<close>): envelopes, messages, events, errors.
  \<^item> Agent (\<open>agent.rs\<close>): \<open>turn\<close> and \<open>run\<close>, with the model and the tools as state-passing functions.
  \<^item> Policy (\<open>policy.rs\<close>) and Jsonl (\<open>jsonl.rs\<close>): permissions, and bounded frames.
  \<^item> Transcript, Session_Store, Turn_Store, Delivery_Store (\<open>krabb-runtime/src/state.rs\<close>): the store as
    a record, one definition per operation of \<open>Store\<close>, all composed with \<open>change\<close>, the update that
    saves before it keeps.
  \<^item> Store_Invariant, Store_Machine, Delivery_Machine, Store_Properties, Store_Behaviour: the
    invariant of the store, the step relation of all its operations, the turn and delivery state
    machines that the operations refine, and what single operations do.
  \<^item> Crash_Safe_File, Crash_Recovery (\<open>krabb-libs/file/src/lib.rs\<close>): the disk as a record, a save as a
    script of steps, a crash as any prefix of it, and what a load finds afterwards.
  \<^item> Catalog, Catalog_Laws, Catalog_Disk, Catalog_Recovery, Durability (\<open>state.rs\<close>): loading and saving
    the store as a single file or as a catalog of files, the clean-up of stale records, migration,
    recovery of interrupted work, and the composition of store and files across a restart.
  \<^item> Approval (\<open>approval.rs\<close>): the gate with its tokens; the keyed hash is a parameter.
  \<^item> Cron, Cron_Laws (\<open>krabb-plugins/scheduler/src/cron.rs\<close>): expressions, zones and the search for the next
    occurrence; the time zone package is a parameter.
  \<^item> Scheduler (\<open>krabb-plugins/scheduler/src/main.rs\<close>): the tasks and one definition per request;
    Scheduler_Laws: the invariant of the tasks; Scheduler_Machine: the step relation of the requests and reachability;
    Scheduler_Properties and Scheduler_Runs: the life of a task, claims, outcomes of runs.
  \<^item> Channel_Policy, Channel_Requests (\<open>krabb-runtime/src/lib.rs\<close>): the content, the identifiers and the
    permissions of a channel event, and the requests that deliver a message. Channel_Bridge, Channel_Turns,
    Channel_Waiting: \<open>bridge_with_media\<close> stage by stage (poll, screening, admission, commit, callbacks, the end of a
    turn, pending deliveries, waiting messages), \<open>queue_during_turn\<close>, \<open>wait_approval\<close> and \<open>flush_stream\<close>; the state of the loop
    is the store, the offset, the call counter, the approval gate and the plugins. Channel_Laws: what the loop keeps of any property
    of the store that its operations keep (\<open>store_contract\<close>); Channel_Facts: what each stage does;
    Channel_Properties and Channel_Rounds: no event is lost, a delivery is sent at most once, turns are exclusive, queued
    messages start, and the cases in which the code drops a message or stops.

  \<^item> Tool_Schema, Tool_Catalog, Tool_Properties (\<open>krabb-runtime/src/lib.rs\<close>): the tools of the plugins, their
    registry, the checks of definitions and arguments, with \<open>has_type\<close> as the meaning of a schema.
  \<^item> Turn_Replies, Reply_Laws (\<open>krabb-runtime/src/lib.rs\<close>): the request to the model, what the daemon makes of a reply,
    the images of a request and the results of tools; that the request always comes to be and its images are bounded.
  \<^item> Tool_Dispatch (\<open>tool_with_registry\<close>), Tool_Calls (\<open>execute_tool_with_registry\<close>, \<open>host_tool_with_registry\<close>): a tool call,
    with its approval, its plugin, and the messages of scheduled tasks. Its state is the store, the gate and the list of
    what the turn has sent. Tool_Laws: the one request that a call may make; Tool_Safety: a change needs a person.
  \<^item> Answer_Loop, Answer_Laws (\<open>answer\<close>): the turn, which asks the model, keeps its replies, runs their tools and goes on
    with the results; that it ends and stays within its rights. The requests of the agent behind the provider run in
    order before the notes of the step are forwarded, since the code runs both while it waits for the same reply.
  \<^item> Dates, Date_Laws (\<open>krabb-libs/date/src/lib.rs\<close>): civil dates against the Gregorian calendar, durations, zones.
  \<^item> Redaction (\<open>krabb-libs/logging/src/lib.rs\<close>): what of a diagnostic is logged.
  \<^item> Memory (\<open>krabb-plugins/memory/src/main.rs\<close>): the memories with their history, one definition per request, the index and
    the records on disk; Memory_Command: the command line and the search for conflicts. Memory_Laws: the invariant of the
    memories, what a saved memory gives, scopes, errors, pages and conflicts; Memory_Restart: what a restart loads.
  \<^item> Tools_Fetch (\<open>krabb-plugins/tools/src/main.rs\<close>): fetching a page, with the checks of its URL and of the addresses of
    its host on machine words; Fetch_Laws: which addresses count as public, and that a fetch connects to no others.
    Tools_Files, Tools_Search, Tools_Calls: the tools for files, the search with its budget, and patches, Git and the shell;
    the disk is a tree, and a descriptor of a directory is its path. Tools_Laws: confinement and approvals; Search_Laws: the
    search against a plain walk at the canonical form of the path that was asked for, under what the system's answers about
    paths have in common.
  \<^item> Schedule_Text, Schedule_Laws (\<open>krabb-runtime/src/lib.rs\<close>): \<open>krabb schedule add\<close> from the command line to the
    parameters of the scheduler, and the texts around scheduled runs.

  \<^bold>\<open>State and operations.\<close> An operation is a function from its arguments and the state to a result
  and a new state. A failure is \<open>Inl\<close> of the error, and its state says what the code leaves
  behind. Locks are not modelled: every operation runs under the lock of its component, so
  operations interleave whole, which the step relations express by arbitrary sequences of operations.
  Clocks, random sources, environment variables and the platform's answers are parameters, as are
  the serialiser, the time zone package and the keyed hash, with their documented behaviour as
  hypotheses of the lemmas that need it.

  \<^bold>\<open>Interfaces.\<close> Locales state what one component takes from another: ordered maps, the saved
  representation of a store, the file operations under the catalog and, for the deletion of records, reading a file of it,
  the source of occurrences of the scheduler, the properties of the store that the loop of a channel keeps. Each is interpreted on the definitions of the component that provides it.

  \<^bold>\<open>Bounds and fuel.\<close> Machine integers are words of their width, with saturating arithmetic written
  out. Loops that end are functions with their termination proof: the removal of message
  groups, the search for a free name, the search of the next occurrence (bounded by its window of
  eight years). The removal of the oldest message group may not return for some arguments and is a
  partial function; that it returns for the arguments of its callers is a theorem of Transcript. The agent loop
  and the answer loop are bounded by the code's own limits, and the answer loop is shown to return for every history.

  \<^bold>\<open>What is not modelled.\<close> Installation, configuration, and most of the command line in
  \<open>krabb-runtime/src/lib.rs\<close>, the request handlers of \<open>ipc.rs\<close>, the media plugins, plugin supervision in
  \<open>krabb-core/src/plugin.rs\<close>, the terminal user interface, the model, messaging, database, browser and
  computer plugins, and the import of scheduler state of earlier releases. The manifest lists each.
\<close>

end
